(* ===== verification/Prelude.thy ===== *)
theory Prelude
  imports Main "HOL-Library.Word" "HOL-Library.Char_ord" "HOL-Library.List_Lexorder"
    "HOL-Library.Code_Target_Nat"
begin

text \<open>
  Shared vocabulary of the development: C integers as words, C strings as byte lists, the
  status and diagnostic records of \<open>src/core\<close>, computations that may fail as sums, and the
  generic lemmas about them.

  A C string is the list of its bytes before the terminating NUL, so it holds no NUL byte
  (\<open>is_cstring\<close>); \<open>char_at s i\<close> is the read \<open>s[i]\<close>, which is NUL at index \<open>strlen(s)\<close>.
  \<open>fault + 'a\<close> is the outcome of a C function that returns \<open>ConfitStatus\<close>: \<open>Inl\<close> carries the
  diagnostic that was recorded, \<open>Inr\<close> the outputs written on \<open>CONFIT_OK\<close>.
\<close>

named_theorems bind_simps \<open>when a sequence of fallible steps succeeds\<close>
named_theorems spec_simps \<open>rewriting of model operations to their specification\<close>

section \<open>Machine integers and C strings\<close>

type_synonym u64 = "64 word"
type_synonym i64 = "64 word"
type_synonym u32 = "32 word"

definition UINT64_MAX :: u64 where "UINT64_MAX = - 1"
definition INT64_MAX :: i64 where "INT64_MAX = 0x7FFFFFFFFFFFFFFF"
definition INT64_MIN :: i64 where "INT64_MIN = 0x8000000000000000"

abbreviation NUL :: char where "NUL \<equiv> CHR 0x00"

definition char_at :: "string \<Rightarrow> nat \<Rightarrow> char" where
  "char_at s i = (if i < length s then s ! i else NUL)"

definition byte :: "char \<Rightarrow> nat" where
  "byte c = of_char c"

definition is_cstring :: "string \<Rightarrow> bool" where
  "is_cstring s \<longleftrightarrow> NUL \<notin> set s"

text \<open>\<open>strcmp\<close>: the sign of the first difference, bytes compared as \<open>unsigned char\<close>.\<close>

fun strcmp :: "string \<Rightarrow> string \<Rightarrow> int" where
  "strcmp [] [] = 0"
| "strcmp [] (y # ys) = -1"
| "strcmp (x # xs) [] = 1"
| "strcmp (x # xs) (y # ys) =
     (if x = y then strcmp xs ys else if byte x < byte y then -1 else 1)"

text \<open>\<open>text[i..j)\<close>, the bytes a token spans.\<close>

definition slice :: "string \<Rightarrow> nat \<Rightarrow> nat \<Rightarrow> string" where
  "slice s i j = take (j - i) (drop i s)"

text \<open>The loop \<open>while (P(text[cursor])) cursor += 1;\<close> for a test that fails on NUL.\<close>

definition scan_while :: "(char \<Rightarrow> bool) \<Rightarrow> string \<Rightarrow> nat \<Rightarrow> nat" where
  "scan_while P s i = i + length (takeWhile P (drop i s))"

lemma unat_UINT64_MAX: "unat UINT64_MAX = 2 ^ 64 - 1"
  by (simp add: UINT64_MAX_def unsigned_minus_1_eq_mask mask_eq_exp_minus_1)

lemma sint_u64_small: "unat w < 2 ^ 63 \<Longrightarrow> sint w = int (unat w)" for w :: "64 word"
proof -
  assume "unat w < 2 ^ 63"
  then have "int (unat w) < int (2 ^ 63)" by (simp only: of_nat_less_iff)
  then have "uint w < 2 ^ 63" by simp
  then have "signed_take_bit 63 (uint w) = uint w"
    by (intro signed_take_bit_int_eq_self order_trans [OF _ uint_ge_0]) simp_all
  then show ?thesis by (simp add: sint_uint)
qed

lemma sint_u64_large: "2 ^ 63 \<le> unat w \<Longrightarrow> sint w = int (unat w) - 2 ^ 64" for w :: "64 word"
proof -
  assume "2 ^ 63 \<le> unat w"
  then have "int (2 ^ 63) \<le> int (unat w)" by (simp only: of_nat_le_iff)
  then have w: "2 ^ 63 \<le> uint w" by simp
  have b: "uint w < 2 ^ 64" using uint_bounded [of w] by simp
  have "signed_take_bit 63 (uint w) = signed_take_bit 63 (uint w - 2 ^ 64)"
    by (simp add: signed_take_bit_eq_iff_take_bit_eq take_bit_eq_mod)
  also have "\<dots> = uint w - 2 ^ 64"
    by (rule signed_take_bit_int_eq_self) (use w b in simp_all)
  finally show ?thesis by (simp add: sint_uint)
qed
lemma byte_less [simp]: "byte c < 256"
  by (simp add: byte_def)

lemma byte_inject [simp]: "byte c = byte d \<longleftrightarrow> c = d"
  by (simp add: byte_def)

lemma byte_less_iff: "byte c < byte d \<longleftrightarrow> c < d"
  by (simp add: byte_def less_char_def)

lemma char_at_less [simp]: "i < length s \<Longrightarrow> char_at s i = s ! i"
  by (simp add: char_at_def)

lemma char_at_end [simp]: "length s \<le> i \<Longrightarrow> char_at s i = NUL"
  by (simp add: char_at_def)

lemma char_at_not_NUL: "char_at s i \<noteq> NUL \<Longrightarrow> i < length s"
  by (auto simp: char_at_def split: if_splits)

lemma char_at_NUL_iff: "is_cstring s \<Longrightarrow> char_at s i = NUL \<longleftrightarrow> length s \<le> i"
  by (auto simp: char_at_def is_cstring_def) (metis nth_mem)

lemma strcmp_less [spec_simps]: "strcmp s t < 0 \<longleftrightarrow> s < t"
  by (induction s t rule: strcmp.induct) (auto simp: byte_less_iff)

lemma strcmp_eq [spec_simps]: "strcmp s t = 0 \<longleftrightarrow> s = t"
  by (induction s t rule: strcmp.induct) auto

lemma strcmp_greater [spec_simps]: "0 < strcmp s t \<longleftrightarrow> t < s"
  by (metis strcmp_less strcmp_eq linorder_neqE not_less_iff_gr_or_eq)

lemma strcmp_le [spec_simps]: "strcmp s t \<le> 0 \<longleftrightarrow> s \<le> t"
  by (metis strcmp_greater linorder_not_le)

lemma strcmp_ge [spec_simps]: "0 \<le> strcmp s t \<longleftrightarrow> t \<le> s"
  by (metis strcmp_less linorder_not_le)

lemma scan_while_ge: "i \<le> scan_while P s i"
  by (simp add: scan_while_def)

lemma scan_while_le: "i \<le> length s \<Longrightarrow> scan_while P s i \<le> length s"
  using length_takeWhile_le [of P "drop i s"] by (simp add: scan_while_def)

text \<open>The defining recursion of the C loop.\<close>

lemma scan_while_step:
  assumes "\<not> P NUL"
  shows "scan_while P s i = (if P (char_at s i) then scan_while P s (Suc i) else i)"
proof (cases "i < length s")
  case True
  then have "drop i s = s ! i # drop (Suc i) s" by (simp add: Cons_nth_drop_Suc)
  with True show ?thesis by (simp add: scan_while_def)
next
  case False
  with assms show ?thesis by (simp add: scan_while_def)
qed

lemma scan_while_all:
  assumes "i \<le> k" "k < scan_while P s i"
  shows "P (s ! k) \<and> k < length s"
proof -
  have k: "k - i < length (takeWhile P (drop i s))" using assms by (simp add: scan_while_def)
  then have "takeWhile P (drop i s) ! (k - i) = drop i s ! (k - i)" by (rule takeWhile_nth)
  moreover have "P (takeWhile P (drop i s) ! (k - i))"
    using k nth_mem [OF k] set_takeWhileD [of _ P "drop i s"] by blast
  moreover have "k < length s"
    using k assms(1) length_takeWhile_le [of P "drop i s"] by simp
  ultimately show ?thesis using assms(1) by simp
qed

lemma scan_while_stop: "\<not> P NUL \<Longrightarrow> \<not> P (char_at s (scan_while P s i))"
proof -
  assume nul: "\<not> P NUL"
  let ?n = "length (takeWhile P (drop i s))"
  show ?thesis
  proof (cases "?n < length (drop i s)")
    case True
    then have "\<not> P (drop i s ! ?n)" by (rule nth_length_takeWhile)
    with True show ?thesis by (simp add: scan_while_def)
  next
    case False
    with nul show ?thesis by (simp add: scan_while_def)
  qed
qed

section \<open>Status and diagnostics\<close>

datatype status =
  CONFIT_OK | CONFIT_ERR_INVALID_ARGUMENT | CONFIT_ERR_PARSE | CONFIT_ERR_SCHEMA
| CONFIT_ERR_DEPENDENCY | CONFIT_ERR_COMPATIBILITY | CONFIT_ERR_GENERATION
| CONFIT_ERR_INTERNAL | CONFIT_ERR_UNSUPPORTED

datatype severity = SEVERITY_NONE | SEVERITY_NOTE | SEVERITY_WARNING | SEVERITY_ERROR

record related_span =
  related_path :: "string option"
  related_line :: nat
  related_column :: nat
  related_note :: string

record fix_candidate =
  fix_option_id :: string
  fix_value_text :: string
  fix_note :: string

record diagnostic =
  diag_status :: status
  diag_path :: "string option"
  diag_line :: nat
  diag_column :: nat
  diag_message :: string
  diag_code :: "string option"
  diag_severity :: severity
  diag_related :: "related_span list"
  diag_fix_candidates :: "fix_candidate list"

definition confit_diagnostic_set_detail ::
  "status \<Rightarrow> severity \<Rightarrow> string option \<Rightarrow> string option \<Rightarrow> nat \<Rightarrow> nat \<Rightarrow> string
   \<Rightarrow> related_span list \<Rightarrow> fix_candidate list \<Rightarrow> diagnostic" where
  "confit_diagnostic_set_detail st sev code path line column message related fixes =
     \<lparr>diag_status = st, diag_path = path, diag_line = line, diag_column = column,
      diag_message = message, diag_code = code, diag_severity = sev,
      diag_related = related, diag_fix_candidates = fixes\<rparr>"

definition confit_diagnostic_set ::
  "status \<Rightarrow> string option \<Rightarrow> nat \<Rightarrow> nat \<Rightarrow> string \<Rightarrow> diagnostic" where
  "confit_diagnostic_set st path line column message =
     confit_diagnostic_set_detail st
       (if st = CONFIT_OK then SEVERITY_NONE else SEVERITY_ERROR)
       None path line column message [] []"

text \<open>
  A step either records a diagnostic (and its status is returned), or reaches a state the C
  standard gives no meaning to: a union member that was not the one stored, an array read
  past its count. \<open>Undefined\<close> makes the second visible, so that its absence is a theorem.
\<close>

datatype fault = Reported diagnostic | Undefined

definition bind_res :: "'e + 'a \<Rightarrow> ('a \<Rightarrow> 'e + 'b) \<Rightarrow> 'e + 'b" where
  "bind_res m f = (case m of Inl e \<Rightarrow> Inl e | Inr x \<Rightarrow> f x)"

lemma bind_res_Inl [simp]: "bind_res (Inl e) f = Inl e"
  by (simp add: bind_res_def)

lemma bind_res_Inr [simp]: "bind_res (Inr x) f = f x"
  by (simp add: bind_res_def)

lemma bind_res_eq_Inr [bind_simps]:
  "bind_res m f = Inr y \<longleftrightarrow> (\<exists>x. m = Inr x \<and> f x = Inr y)"
  by (cases m) auto

lemma bind_res_eq_Inl [bind_simps]:
  "bind_res m f = Inl e \<longleftrightarrow> m = Inl e \<or> (\<exists>x. m = Inr x \<and> f x = Inl e)"
  by (cases m) auto

lemma bind_res_cong [fundef_cong]:
  "m = m' \<Longrightarrow> (\<And>x. m' = Inr x \<Longrightarrow> f x = f' x) \<Longrightarrow> bind_res m f = bind_res m' f'"
  by (cases m') auto

lemma bind_res_assoc: "bind_res (bind_res m f) g = bind_res m (\<lambda>x. bind_res (f x) g)"
  by (cases m) auto

text \<open>Running a step over a list, stopping at the first failure, as the C loops do.\<close>

fun fold_res :: "('a \<Rightarrow> 's \<Rightarrow> 'e + 's) \<Rightarrow> 'a list \<Rightarrow> 's \<Rightarrow> 'e + 's" where
  "fold_res f [] s = Inr s"
| "fold_res f (x # xs) s = bind_res (f x s) (fold_res f xs)"

lemma fold_res_append:
  "fold_res f (xs @ ys) s = bind_res (fold_res f xs s) (fold_res f ys)"
proof (induction xs arbitrary: s)
  case (Cons x xs)
  then have "fold_res f (xs @ ys) = (\<lambda>t. bind_res (fold_res f xs t) (fold_res f ys))"
    by (intro ext)
  then show ?case by (simp add: bind_res_assoc)
qed simp

lemma fold_res_invariant:
  assumes "fold_res f xs s = Inr t" and "I s"
    and "\<And>x s t. x \<in> set xs \<Longrightarrow> I s \<Longrightarrow> f x s = Inr t \<Longrightarrow> I t"
  shows "I t"
  using assms
proof (induction xs arbitrary: s)
  case (Cons x xs)
  then show ?case by (auto simp: bind_simps)
qed simp

end
