(* ===== verification/Binary64.thy ===== *)
theory Binary64
  imports Prelude
begin

text \<open>
  The C \<open>double\<close> of the expression language: IEEE 754 binary64, kept as its 64 bits (the form
  \<open>memcpy\<close> shows to the hash functions). Every operation is the exact rational result rounded
  to nearest, ties to even, as a C implementation with \<open>FLT_EVAL_METHOD = 0\<close> computes it; the
  definitions evaluate. Finite numbers are \<open>(-1)^s * m * 2^e\<close> with integers \<open>m\<close> and \<open>e\<close>.
\<close>

type_synonym f64 = "64 word"

section \<open>Representation\<close>

definition f64_negative :: "f64 \<Rightarrow> bool" where
  "f64_negative x = bit x 63"

definition f64_exponent :: "f64 \<Rightarrow> nat" where
  "f64_exponent x = unat x div 2 ^ 52 mod 2 ^ 11"

definition f64_fraction :: "f64 \<Rightarrow> nat" where
  "f64_fraction x = unat x mod 2 ^ 52"

definition isfinite :: "f64 \<Rightarrow> bool" where
  "isfinite x \<longleftrightarrow> f64_exponent x \<noteq> 2047"

definition isnan :: "f64 \<Rightarrow> bool" where
  "isnan x \<longleftrightarrow> f64_exponent x = 2047 \<and> f64_fraction x \<noteq> 0"

definition isinf :: "f64 \<Rightarrow> bool" where
  "isinf x \<longleftrightarrow> f64_exponent x = 2047 \<and> f64_fraction x = 0"

text \<open>The significand and the exponent of its unit, for a finite number.\<close>

definition f64_significand :: "f64 \<Rightarrow> nat" where
  "f64_significand x =
     (if f64_exponent x = 0 then f64_fraction x else 2 ^ 52 + f64_fraction x)"

definition f64_unit :: "f64 \<Rightarrow> int" where
  "f64_unit x = int (max 1 (f64_exponent x)) - 1075"

definition f64_iszero :: "f64 \<Rightarrow> bool" where
  "f64_iszero x \<longleftrightarrow> f64_exponent x = 0 \<and> f64_fraction x = 0"

definition f64_make :: "bool \<Rightarrow> nat \<Rightarrow> f64" where
  "f64_make s n = of_nat ((if s then 2 ^ 63 else 0) + n)"

definition f64_inf :: "bool \<Rightarrow> f64" where
  "f64_inf s = f64_make s (2047 * 2 ^ 52)"

definition f64_nan :: f64 where
  "f64_nan = f64_make False (2047 * 2 ^ 52 + 2 ^ 51)"

definition f64_zero :: "bool \<Rightarrow> f64" where
  "f64_zero s = f64_make s 0"

section \<open>Rounding\<close>

text \<open>\<open>nat_bits n\<close> is the number of binary digits of \<open>n\<close>.\<close>

fun nat_bits :: "nat \<Rightarrow> nat" where
  "nat_bits n = (if n = 0 then 0 else Suc (nat_bits (n div 2)))"

declare nat_bits.simps [simp del]

text \<open>
  The binary64 nearest to \<open>(-1)^s * p / q\<close>. \<open>e\<close> is the exponent of the leading bit of the
  quotient; \<open>u\<close> the exponent of the unit, at least that of the subnormal numbers; the
  quotient in units is rounded half to even. Adding the significand to \<open>(u + 1074) * 2^52\<close>
  lets a carry reach the exponent field, and the infinity above the largest number.
\<close>

definition round_half_even :: "nat \<Rightarrow> nat \<Rightarrow> nat" where
  "round_half_even n d =
     (let t = n div d; r = n mod d
      in if 2 * r > d \<or> 2 * r = d \<and> odd t then t + 1 else t)"

definition f64_round :: "bool \<Rightarrow> nat \<Rightarrow> nat \<Rightarrow> f64" where
  "f64_round s p q =
     (if p = 0 then f64_zero s
      else
        let k = int (nat_bits p) - int (nat_bits q);
            below = (if k \<ge> 0 then p < q * 2 ^ nat k else p * 2 ^ nat (- k) < q);
            e = (if below then k - 1 else k);
            u = max (e - 52) (- 1074);
            m = (if u \<ge> 0 then round_half_even p (q * 2 ^ nat u)
                 else round_half_even (p * 2 ^ nat (- u)) q)
        in f64_make s (min (2047 * 2 ^ 52) (nat (u + 1074) * 2 ^ 52 + m)))"

section \<open>Arithmetic and comparison\<close>

text \<open>A finite number as an integer multiple of \<open>2^u\<close>, for \<open>u \<le> f64_unit x\<close>.\<close>

definition f64_scaled :: "int \<Rightarrow> f64 \<Rightarrow> int" where
  "f64_scaled u x =
     (if f64_negative x then -1 else 1)
       * int (f64_significand x) * 2 ^ nat (f64_unit x - u)"

definition f64_of_scaled :: "bool \<Rightarrow> int \<Rightarrow> int \<Rightarrow> f64" where
  "f64_of_scaled zero_sign n u =
     (if n = 0 then f64_zero zero_sign
      else if u \<ge> 0 then f64_round (n < 0) (nat \<bar>n\<bar> * 2 ^ nat u) 1
      else f64_round (n < 0) (nat \<bar>n\<bar>) (2 ^ nat (- u)))"

definition f64_neg :: "f64 \<Rightarrow> f64" where
  "f64_neg x = x + 0x8000000000000000"

definition f64_add :: "f64 \<Rightarrow> f64 \<Rightarrow> f64" where
  "f64_add x y =
     (if isnan x \<or> isnan y then f64_nan
      else if isinf x \<and> isinf y \<and> f64_negative x \<noteq> f64_negative y then f64_nan
      else if isinf x then x
      else if isinf y then y
      else let u = min (f64_unit x) (f64_unit y)
           in f64_of_scaled (f64_negative x \<and> f64_negative y)
                (f64_scaled u x + f64_scaled u y) u)"

definition f64_sub :: "f64 \<Rightarrow> f64 \<Rightarrow> f64" where
  "f64_sub x y = f64_add x (f64_neg y)"

definition f64_mul :: "f64 \<Rightarrow> f64 \<Rightarrow> f64" where
  "f64_mul x y =
     (let s = (f64_negative x \<noteq> f64_negative y)
      in if isnan x \<or> isnan y then f64_nan
         else if isinf x \<and> f64_iszero y \<or> f64_iszero x \<and> isinf y then f64_nan
         else if isinf x \<or> isinf y then f64_inf s
         else let n = f64_significand x * f64_significand y; u = f64_unit x + f64_unit y
              in if u \<ge> 0 then f64_round s (n * 2 ^ nat u) 1
                 else f64_round s n (2 ^ nat (- u)))"

definition f64_div :: "f64 \<Rightarrow> f64 \<Rightarrow> f64" where
  "f64_div x y =
     (let s = (f64_negative x \<noteq> f64_negative y)
      in if isnan x \<or> isnan y then f64_nan
         else if isinf x \<and> isinf y \<or> f64_iszero x \<and> f64_iszero y then f64_nan
         else if isinf x \<or> f64_iszero y then f64_inf s
         else if isinf y then f64_zero s
         else let u = f64_unit x - f64_unit y
              in if u \<ge> 0
                 then f64_round s (f64_significand x * 2 ^ nat u) (f64_significand y)
                 else f64_round s (f64_significand x) (f64_significand y * 2 ^ nat (- u)))"

definition f64_eq :: "f64 \<Rightarrow> f64 \<Rightarrow> bool" where
  "f64_eq x y \<longleftrightarrow>
     \<not> isnan x \<and> \<not> isnan y \<and> (x = y \<or> f64_iszero x \<and> f64_iszero y)"

text \<open>The value of the bits below the sign orders the magnitudes, infinity included.\<close>

definition f64_key :: "f64 \<Rightarrow> int" where
  "f64_key x = (if f64_negative x then -1 else 1) * int (unat x mod 2 ^ 63)"

definition f64_less :: "f64 \<Rightarrow> f64 \<Rightarrow> bool" where
  "f64_less x y \<longleftrightarrow> \<not> isnan x \<and> \<not> isnan y \<and> f64_key x < f64_key y"

definition f64_le :: "f64 \<Rightarrow> f64 \<Rightarrow> bool" where
  "f64_le x y \<longleftrightarrow> \<not> isnan x \<and> \<not> isnan y \<and> f64_key x \<le> f64_key y"

text \<open>The conversion \<open>(double)n\<close> of a nonnegative integer, and the constant \<open>0.1\<close>.\<close>

definition f64_of_nat :: "nat \<Rightarrow> f64" where
  "f64_of_nat n = f64_round False n 1"

definition f64_tenth :: f64 where
  "f64_tenth = f64_round False 1 10"

section \<open>Facts the components use\<close>

lemma isinf_isnan_finite: "isfinite x \<longleftrightarrow> \<not> isinf x \<and> \<not> isnan x"
  by (auto simp: isfinite_def isinf_def isnan_def)

lemma f64_make_exponent: "n < 2 ^ 63 \<Longrightarrow> f64_exponent (f64_make s n) = n div 2 ^ 52"
proof -
  assume n: "n < 2 ^ 63"
  have u: "unat (f64_make s n) = (if s then 2 ^ 63 else 0) + n"
    unfolding f64_make_def unsigned_of_nat
    using n by (simp add: take_bit_nat_eq_self del: of_nat_add)
  have "n div 2 ^ 52 < 2 ^ 11"
    by (rule less_mult_imp_div_less) (use n in simp)
  then show ?thesis
  proof (cases s)
    case True
    have "(2 ^ 63 + n) div (2 :: nat) ^ 52 = 2 ^ 11 + n div 2 ^ 52"
      by (simp add: div_add1_eq)
    with u True \<open>n div 2 ^ 52 < 2 ^ 11\<close> show ?thesis
      by (simp add: f64_exponent_def)
  next
    case False
    with u \<open>n div 2 ^ 52 < 2 ^ 11\<close> show ?thesis
      by (simp add: f64_exponent_def)
  qed
qed

lemma f64_zero_finite [simp]: "isfinite (f64_zero s)"
  by (simp add: isfinite_def f64_zero_def f64_make_exponent)

lemma f64_eq_zero: "f64_eq x (f64_zero False) \<longleftrightarrow> f64_iszero x"
proof -
  have "f64_fraction (f64_zero False) = 0"
    by (simp add: f64_zero_def f64_make_def f64_fraction_def)
  moreover have "f64_exponent (f64_zero False) = 0"
    by (simp add: f64_zero_def f64_make_exponent)
  ultimately show ?thesis
    by (auto simp: f64_eq_def f64_iszero_def isnan_def)
qed

lemma f64_eq_refl: "isfinite x \<Longrightarrow> f64_eq x x"
  by (simp add: f64_eq_def isinf_isnan_finite)

lemma f64_less_irrefl [simp]: "\<not> f64_less x x"
  by (simp add: f64_less_def)

lemma f64_less_asym: "f64_less x y \<Longrightarrow> \<not> f64_less y x"
  by (simp add: f64_less_def)

lemma f64_less_trans: "f64_less x y \<Longrightarrow> f64_less y z \<Longrightarrow> f64_less x z"
  by (simp add: f64_less_def)

end
