(* ===== verification/Schema_Model.thy ===== *)
theory Schema_Model
  imports Binary64
begin

text \<open>
  The schema version 2 data model of \<open>include/confit/schema_v2.h\<close>: source spans, typed values,
  symbols (options), menus, choices and constraints, as the loader hands them to the linker.
  A pointer that may be NULL is an \<open>option\<close>; a counted array is a list; an \<open>int\<close> used as a
  flag is a \<open>bool\<close>, except the payload of a bool value, whose integer the evaluator inspects.
  Value payload strings are C strings and never NULL. Memory ownership is not represented.
\<close>

record source_span =
  span_path :: "string option"
  span_line :: nat
  span_column :: nat
  span_local_offset :: nat

record expression_text =
  expr_text :: "string option"
  expr_span :: source_span

section \<open>Values\<close>

datatype option_type =
  OPTION_INVALID | OPTION_BOOL | OPTION_TRISTATE | OPTION_INT | OPTION_UINT | OPTION_HEX
| OPTION_FLOAT | OPTION_STRING | OPTION_ENUM | OPTION_PATH | OPTION_STRING_LIST
| OPTION_PATH_LIST | OPTION_ENUM_SET

datatype value_kind =
  VALUE_UNSET | VALUE_BOOL | VALUE_TRISTATE | VALUE_INT | VALUE_UINT | VALUE_FLOAT
| VALUE_STRING | VALUE_STRING_LIST

datatype v2_value =
  V_Unset
| V_Bool int
| V_Tristate char
| V_Int i64
| V_Uint u64
| V_Float f64
| V_String string
| V_String_List "string list"

fun v2_value_kind :: "v2_value \<Rightarrow> value_kind" where
  "v2_value_kind V_Unset = VALUE_UNSET"
| "v2_value_kind (V_Bool _) = VALUE_BOOL"
| "v2_value_kind (V_Tristate _) = VALUE_TRISTATE"
| "v2_value_kind (V_Int _) = VALUE_INT"
| "v2_value_kind (V_Uint _) = VALUE_UINT"
| "v2_value_kind (V_Float _) = VALUE_FLOAT"
| "v2_value_kind (V_String _) = VALUE_STRING"
| "v2_value_kind (V_String_List _) = VALUE_STRING_LIST"

record type_descriptor =
  desc_option_type :: option_type
  desc_value_kind :: value_kind
  desc_is_collection :: bool
  desc_requires_values :: bool

definition kTypeDescriptors :: "type_descriptor list" where
  "kTypeDescriptors =
    [\<lparr>desc_option_type = OPTION_BOOL, desc_value_kind = VALUE_BOOL,
       desc_is_collection = False, desc_requires_values = False\<rparr>,
     \<lparr>desc_option_type = OPTION_TRISTATE, desc_value_kind = VALUE_TRISTATE,
       desc_is_collection = False, desc_requires_values = False\<rparr>,
     \<lparr>desc_option_type = OPTION_INT, desc_value_kind = VALUE_INT,
       desc_is_collection = False, desc_requires_values = False\<rparr>,
     \<lparr>desc_option_type = OPTION_UINT, desc_value_kind = VALUE_UINT,
       desc_is_collection = False, desc_requires_values = False\<rparr>,
     \<lparr>desc_option_type = OPTION_HEX, desc_value_kind = VALUE_UINT,
       desc_is_collection = False, desc_requires_values = False\<rparr>,
     \<lparr>desc_option_type = OPTION_FLOAT, desc_value_kind = VALUE_FLOAT,
       desc_is_collection = False, desc_requires_values = False\<rparr>,
     \<lparr>desc_option_type = OPTION_STRING, desc_value_kind = VALUE_STRING,
       desc_is_collection = False, desc_requires_values = False\<rparr>,
     \<lparr>desc_option_type = OPTION_ENUM, desc_value_kind = VALUE_STRING,
       desc_is_collection = False, desc_requires_values = True\<rparr>,
     \<lparr>desc_option_type = OPTION_PATH, desc_value_kind = VALUE_STRING,
       desc_is_collection = False, desc_requires_values = False\<rparr>,
     \<lparr>desc_option_type = OPTION_STRING_LIST, desc_value_kind = VALUE_STRING_LIST,
       desc_is_collection = True, desc_requires_values = False\<rparr>,
     \<lparr>desc_option_type = OPTION_PATH_LIST, desc_value_kind = VALUE_STRING_LIST,
       desc_is_collection = True, desc_requires_values = False\<rparr>,
     \<lparr>desc_option_type = OPTION_ENUM_SET, desc_value_kind = VALUE_STRING_LIST,
       desc_is_collection = True, desc_requires_values = True\<rparr>]"

definition confit_v2_type_descriptor :: "option_type \<Rightarrow> type_descriptor option" where
  "confit_v2_type_descriptor t = find (\<lambda>d. desc_option_type d = t) kTypeDescriptors"

section \<open>Declarations\<close>

datatype write_domain =
  DOMAIN_INVALID | DOMAIN_SCHEMA | DOMAIN_PROFILE | DOMAIN_TARGET | DOMAIN_COMPUTED

datatype stability =
  STABILITY_INVALID | STABILITY_EXPERIMENTAL | STABILITY_STABLE | STABILITY_DEPRECATED
| STABILITY_INTERNAL

record assignment =
  assign_is_set :: bool
  assign_value :: v2_value
  assign_span :: source_span

record numeric_range =
  range_is_set :: bool
  range_min :: v2_value
  range_max :: v2_value
  range_span :: source_span

record conditional_default =
  cond_when :: expression_text
  cond_assignment :: assignment
  cond_priority :: "32 word"
  cond_span :: source_span

record suggestion =
  sugg_when :: expression_text
  sugg_assignment :: assignment
  sugg_message :: "string option"
  sugg_span :: source_span

datatype choice_cardinality =
  CARDINALITY_INVALID | EXACTLY_ONE | ZERO_OR_ONE | ONE_OR_MORE

record choice_default =
  chd_when :: expression_text
  chd_member :: string
  chd_priority :: "32 word"
  chd_span :: source_span

record v2_symbol =
  sym_id :: string
  sym_type :: option_type
  sym_write_domain :: write_domain
  sym_stability :: stability
  sym_required :: bool
  sym_user_override :: bool
  sym_default_value :: assignment
  sym_range :: numeric_range
  sym_values :: "string list"
  sym_prompt :: "string option"
  sym_help :: "string option"
  sym_menu :: "string option"
  sym_tags :: "string list"
  sym_owner :: "string option"
  sym_since :: "string option"
  sym_emit_mask :: "32 word"
  sym_computed :: expression_text
  sym_available_if :: expression_text
  sym_visible_if :: expression_text
  sym_defaults :: "conditional_default list"
  sym_suggestions :: "suggestion list"
  sym_span :: source_span

record menu_reference =
  mref_option_id :: string
  mref_read_only :: bool
  mref_span :: source_span

record menu_node =
  menu_id :: string
  menu_prompt :: "string option"
  menu_parent :: "string option"
  menu_order :: "32 word"
  menu_visible_if :: expression_text
  menu_references :: "menu_reference list"
  menu_span :: source_span

record v2_choice =
  choice_id :: string
  choice_member_type :: option_type
  choice_members :: "string list"
  choice_cardinality :: choice_cardinality
  choice_available_if :: expression_text
  choice_visible_if :: expression_text
  choice_defaults :: "choice_default list"
  choice_span :: source_span

record v2_constraint =
  constraint_id :: string
  constraint_when :: expression_text
  constraint_require :: expression_text
  constraint_message :: "string option"
  constraint_span :: source_span

record v2_project =
  project_config_root :: "string option"
  project_name :: "string option"
  project_namespace :: "string option"
  project_version :: "string option"
  project_default_target :: "string option"
  project_default_target_span :: source_span
  project_profile_dirs :: "string list"
  project_target_dirs :: "string list"
  project_selection_dirs :: "string list"
  project_symbols :: "v2_symbol list"
  project_menus :: "menu_node list"
  project_choices :: "v2_choice list"
  project_constraints :: "v2_constraint list"
  project_span :: source_span

text \<open>Every declared option type has a descriptor, and only the invalid one has none.\<close>

lemma type_descriptor_total:
  "confit_v2_type_descriptor t = None \<longleftrightarrow> t = OPTION_INVALID"
  by (cases t) (simp_all add: confit_v2_type_descriptor_def kTypeDescriptors_def)

end
