(* ===== verification/Lexer.thy ===== *)
theory Lexer
  imports Schema_Model
begin

text \<open>
  The lexer of the expression language, \<open>src/expression/v2/lexer.c\<close>: one definition per C
  function, on the lexer record of \<open>lexer_internal.h\<close>. Reads are \<open>char_at\<close>, so the terminating
  NUL is seen at the end of the text; the theorems bound every cursor by the text's length.
  The lemmas show that a token is a nonempty slice of the text after the previous one, that
  the token limit holds, and that a lexed token has the shape its kind says.
\<close>

section \<open>Character classes\<close>

definition confit_v2_is_space :: "char \<Rightarrow> bool" where
  "confit_v2_is_space c \<longleftrightarrow> c = CHR '' '' \<or> c = CHR 0x09 \<or> c = CHR 0x0D \<or> c = CHR 0x0A"

definition confit_v2_is_lower_alpha :: "char \<Rightarrow> bool" where
  "confit_v2_is_lower_alpha c \<longleftrightarrow> byte CHR ''a'' \<le> byte c \<and> byte c \<le> byte CHR ''z''"

definition confit_v2_is_digit :: "char \<Rightarrow> bool" where
  "confit_v2_is_digit c \<longleftrightarrow> byte CHR ''0'' \<le> byte c \<and> byte c \<le> byte CHR ''9''"

definition confit_v2_is_identifier_tail :: "char \<Rightarrow> bool" where
  "confit_v2_is_identifier_tail c \<longleftrightarrow>
     confit_v2_is_lower_alpha c \<or> confit_v2_is_digit c \<or> c = CHR ''_''"

definition confit_v2_is_hex :: "char \<Rightarrow> bool" where
  "confit_v2_is_hex c \<longleftrightarrow> confit_v2_is_digit c
     \<or> (byte CHR ''a'' \<le> byte c \<and> byte c \<le> byte CHR ''f'')
     \<or> (byte CHR ''A'' \<le> byte c \<and> byte c \<le> byte CHR ''F'')"

text \<open>The value of a hexadecimal digit; \<open>None\<close> is the C result \<open>-1\<close>.\<close>

definition confit_v2_hex_value :: "char \<Rightarrow> nat option" where
  "confit_v2_hex_value c =
     (if byte CHR ''0'' \<le> byte c \<and> byte c \<le> byte CHR ''9'' then Some (byte c - byte CHR ''0'')
      else if byte CHR ''a'' \<le> byte c \<and> byte c \<le> byte CHR ''f''
      then Some (byte c - byte CHR ''a'' + 10)
      else if byte CHR ''A'' \<le> byte c \<and> byte c \<le> byte CHR ''F''
      then Some (byte c - byte CHR ''A'' + 10)
      else None)"

section \<open>Diagnostics at an expression offset\<close>

text \<open>
  The line and column at \<open>offset\<close>, counted from the span of the TOML value: the loop stops at
  the offset or at the NUL; a column that is not known (0) stays unknown on the first line.
\<close>

fun advance_position :: "string \<Rightarrow> nat \<times> nat \<Rightarrow> nat \<times> nat" where
  "advance_position [] pos = pos"
| "advance_position (c # cs) (line, column) =
     advance_position cs
       (if c = CHR 0x0A then (line + 1, 1)
        else (line, if column \<noteq> 0 then column + 1 else column))"

definition confit_v2_expression_diagnostic_at ::
  "expression_text \<Rightarrow> nat \<Rightarrow> status \<Rightarrow> string \<Rightarrow> diagnostic" where
  "confit_v2_expression_diagnostic_at source offset st message =
     (let span = expr_span source;
          (line, column) =
            (case expr_text source of
               None \<Rightarrow> (span_line span, span_column span)
             | Some s \<Rightarrow> advance_position (take offset s) (span_line span, span_column span))
      in confit_diagnostic_set st (span_path span) line column message)"

section \<open>Tokens and lexer state\<close>

datatype token_kind =
  TOKEN_EOF | TOKEN_IDENTIFIER | TOKEN_TRUE | TOKEN_FALSE | TOKEN_TRISTATE | TOKEN_INTEGER
| TOKEN_HEX | TOKEN_FLOAT | TOKEN_STRING | TOKEN_LEFT_PAREN | TOKEN_RIGHT_PAREN
| TOKEN_LEFT_BRACKET | TOKEN_RIGHT_BRACKET | TOKEN_COMMA | TOKEN_QUESTION | TOKEN_COLON
| TOKEN_NOT | TOKEN_OR | TOKEN_AND | TOKEN_EQUAL | TOKEN_NOT_EQUAL | TOKEN_LESS
| TOKEN_LESS_EQUAL | TOKEN_GREATER | TOKEN_GREATER_EQUAL | TOKEN_IN | TOKEN_PLUS
| TOKEN_MINUS | TOKEN_STAR | TOKEN_SLASH | TOKEN_PERCENT

record token =
  tok_kind :: token_kind
  tok_start :: nat
  tok_end :: nat

record lexer =
  lex_source :: expression_text
  lex_offset :: nat
  lex_token_count :: nat
  lex_max_tokens :: nat

definition confit_v2_expression_lexer_init :: "expression_text \<Rightarrow> nat \<Rightarrow> lexer" where
  "confit_v2_expression_lexer_init source max_tokens =
     \<lparr>lex_source = source, lex_offset = 0, lex_token_count = 0, lex_max_tokens = max_tokens\<rparr>"

definition make_token :: "token_kind \<Rightarrow> nat \<Rightarrow> nat \<Rightarrow> token" where
  "make_token k i j = \<lparr>tok_kind = k, tok_start = i, tok_end = j\<rparr>"

definition confit_v2_token_matches :: "string \<Rightarrow> nat \<Rightarrow> nat \<Rightarrow> string \<Rightarrow> bool" where
  "confit_v2_token_matches s start stop expected \<longleftrightarrow>
     stop - start = length expected \<and> slice s start stop = expected"

section \<open>Literals and identifiers\<close>

text \<open>
  The scan of a string literal after its opening quote: the index of the closing quote, or
  \<open>None\<close> where the C loop breaks out to the error.
\<close>

definition simple_escapes :: "char list" where
  "simple_escapes =
     [CHR 0x22, CHR 0x5C, CHR ''/'', CHR ''b'', CHR ''f'', CHR ''n'', CHR ''r'', CHR ''t'', CHR ''u'']"

function lex_string_close :: "string \<Rightarrow> nat \<Rightarrow> nat option" where
  "lex_string_close s cursor =
     (let current = char_at s cursor
      in if current = NUL then None
         else if current = CHR 0x22 then Some cursor
         else if byte current < 0x20 then None
         else if current = CHR 0x5C then
           (let escape = char_at s (cursor + 1)
            in if escape \<notin> set simple_escapes then None
               else if escape = CHR ''u'' then
                 (if (\<forall>index \<in> set [0..<4]. confit_v2_hex_value (char_at s (cursor + 2 + index)) \<noteq> None)
                  then lex_string_close s (cursor + 6) else None)
               else lex_string_close s (cursor + 2))
         else lex_string_close s (cursor + 1))"
  by pat_completeness auto
termination
  by (relation "measure (\<lambda>(s, cursor). length s - cursor)")
    (auto dest!: char_at_not_NUL)

declare lex_string_close.simps [simp del]

definition kExpressionInvalidCharacter :: string where
  "kExpressionInvalidCharacter = ''invalid expression character''"
definition kExpressionInvalidString :: string where
  "kExpressionInvalidString = ''invalid expression string literal''"
definition kExpressionInvalidNumber :: string where
  "kExpressionInvalidNumber = ''invalid expression number literal''"
definition kExpressionTokenLimit :: string where
  "kExpressionTokenLimit = ''expression token limit exceeded''"

definition confit_v2_lex_string ::
  "lexer \<Rightarrow> string \<Rightarrow> diagnostic + token \<times> lexer" where
  "confit_v2_lex_string lx s =
     (let start = lex_offset lx
      in case lex_string_close s (start + 1) of
           Some cursor \<Rightarrow> Inr (make_token TOKEN_STRING start (cursor + 1), lx\<lparr>lex_offset := cursor + 1\<rparr>)
         | None \<Rightarrow> Inl (confit_v2_expression_diagnostic_at (lex_source lx) start
                          CONFIT_ERR_SCHEMA kExpressionInvalidString))"

text \<open>
  The dotted segments of an identifier: \<open>Inr\<close> the end of the identifier, \<open>Inl\<close> the offset of a
  dot that no segment follows.
\<close>

function lex_segments :: "string \<Rightarrow> nat \<Rightarrow> nat + nat" where
  "lex_segments s cursor =
     (if char_at s cursor = CHR ''.'' then
        (if \<not> confit_v2_is_lower_alpha (char_at s (cursor + 1)) then Inl cursor
         else lex_segments s (scan_while confit_v2_is_identifier_tail s (cursor + 2)))
      else Inr cursor)"
  by pat_completeness auto
termination
proof (relation "measure (\<lambda>(s, cursor). length s - cursor)", goal_cases)
  case (2 s cursor)
  then have "cursor < length s" by (intro char_at_not_NUL) simp
  with scan_while_ge [of "cursor + 2" confit_v2_is_identifier_tail s] show ?case by simp
qed simp

declare lex_segments.simps [simp del]

definition identifier_kind :: "string \<Rightarrow> nat \<Rightarrow> nat \<Rightarrow> token_kind" where
  "identifier_kind s start cursor =
     (if confit_v2_token_matches s start cursor ''true'' then TOKEN_TRUE
      else if confit_v2_token_matches s start cursor ''false'' then TOKEN_FALSE
      else if confit_v2_token_matches s start cursor ''n''
           \<or> confit_v2_token_matches s start cursor ''m''
           \<or> confit_v2_token_matches s start cursor ''y'' then TOKEN_TRISTATE
      else if confit_v2_token_matches s start cursor ''in'' then TOKEN_IN
      else TOKEN_IDENTIFIER)"

definition confit_v2_lex_identifier ::
  "lexer \<Rightarrow> string \<Rightarrow> diagnostic + token \<times> lexer" where
  "confit_v2_lex_identifier lx s =
     (let start = lex_offset lx
      in case lex_segments s (scan_while confit_v2_is_identifier_tail s start) of
           Inl dot \<Rightarrow> Inl (confit_v2_expression_diagnostic_at (lex_source lx) dot
                             CONFIT_ERR_SCHEMA kExpressionInvalidCharacter)
         | Inr cursor \<Rightarrow> Inr (make_token (identifier_kind s start cursor) start cursor,
                              lx\<lparr>lex_offset := cursor\<rparr>))"

text \<open>
  The optional fraction and exponent of a number: \<open>Some (cursor, is_float)\<close>, or \<open>None\<close> where
  a digit is missing.
\<close>

definition lex_fraction :: "string \<Rightarrow> nat \<Rightarrow> (nat \<times> bool) option" where
  "lex_fraction s cursor =
     (if char_at s cursor = CHR ''.'' then
        (if \<not> confit_v2_is_digit (char_at s (cursor + 1)) then None
         else Some (scan_while confit_v2_is_digit s (cursor + 1), True))
      else Some (cursor, False))"

definition lex_exponent :: "string \<Rightarrow> nat \<Rightarrow> (nat \<times> bool) option" where
  "lex_exponent s cursor =
     (if char_at s cursor = CHR ''e'' \<or> char_at s cursor = CHR ''E'' then
        (let digits = (if char_at s (cursor + 1) = CHR ''+'' \<or> char_at s (cursor + 1) = CHR ''-''
                       then cursor + 2 else cursor + 1)
         in if \<not> confit_v2_is_digit (char_at s digits) then None
            else Some (scan_while confit_v2_is_digit s digits, True))
      else Some (cursor, False))"

definition lex_number_end :: "string \<Rightarrow> nat \<Rightarrow> (token_kind \<times> nat) option" where
  "lex_number_end s start =
     (if char_at s start = CHR ''0''
         \<and> (char_at s (start + 1) = CHR ''x'' \<or> char_at s (start + 1) = CHR ''X'')
      then (if \<not> confit_v2_is_hex (char_at s (start + 2)) then None
            else Some (TOKEN_HEX, scan_while confit_v2_is_hex s (start + 2)))
      else case lex_fraction s (scan_while confit_v2_is_digit s start) of
             None \<Rightarrow> None
           | Some (cursor, fraction) \<Rightarrow>
               (case lex_exponent s cursor of
                  None \<Rightarrow> None
                | Some (cursor', exponent) \<Rightarrow>
                    Some (if fraction \<or> exponent then TOKEN_FLOAT else TOKEN_INTEGER, cursor')))"

definition confit_v2_lex_number ::
  "lexer \<Rightarrow> string \<Rightarrow> diagnostic + token \<times> lexer" where
  "confit_v2_lex_number lx s =
     (let start = lex_offset lx
      in case lex_number_end s start of
           None \<Rightarrow> Inl (confit_v2_expression_diagnostic_at (lex_source lx) start
                          CONFIT_ERR_SCHEMA kExpressionInvalidNumber)
         | Some (kind, cursor) \<Rightarrow> Inr (make_token kind start cursor, lx\<lparr>lex_offset := cursor\<rparr>))"

section \<open>The next token\<close>

text \<open>
  The operator table of the switch: the kind and the length of the operator that starts with
  \<open>current\<close>, given the byte after it; \<open>None\<close> for the default case and for a lone \<open>=\<close>,
  \<open>&\<close> or \<open>|\<close>.
\<close>

definition lex_operator :: "char \<Rightarrow> char \<Rightarrow> (token_kind \<times> nat) option" where
  "lex_operator current following =
     (if current = CHR ''('' then Some (TOKEN_LEFT_PAREN, 1)
      else if current = CHR '')'' then Some (TOKEN_RIGHT_PAREN, 1)
      else if current = CHR ''['' then Some (TOKEN_LEFT_BRACKET, 1)
      else if current = CHR '']'' then Some (TOKEN_RIGHT_BRACKET, 1)
      else if current = CHR '','' then Some (TOKEN_COMMA, 1)
      else if current = CHR ''?'' then Some (TOKEN_QUESTION, 1)
      else if current = CHR '':'' then Some (TOKEN_COLON, 1)
      else if current = CHR ''+'' then Some (TOKEN_PLUS, 1)
      else if current = CHR ''-'' then Some (TOKEN_MINUS, 1)
      else if current = CHR ''*'' then Some (TOKEN_STAR, 1)
      else if current = CHR ''/'' then Some (TOKEN_SLASH, 1)
      else if current = CHR ''%'' then Some (TOKEN_PERCENT, 1)
      else if current = CHR ''!'' then
        (if following = CHR ''='' then Some (TOKEN_NOT_EQUAL, 2) else Some (TOKEN_NOT, 1))
      else if current = CHR ''='' then
        (if following = CHR ''='' then Some (TOKEN_EQUAL, 2) else None)
      else if current = CHR ''<'' then
        (if following = CHR ''='' then Some (TOKEN_LESS_EQUAL, 2) else Some (TOKEN_LESS, 1))
      else if current = CHR ''>'' then
        (if following = CHR ''='' then Some (TOKEN_GREATER_EQUAL, 2) else Some (TOKEN_GREATER, 1))
      else if current = CHR ''&'' then
        (if following = CHR ''&'' then Some (TOKEN_AND, 2) else None)
      else if current = CHR ''|'' then
        (if following = CHR ''|'' then Some (TOKEN_OR, 2) else None)
      else None)"

definition confit_v2_expression_lexer_next :: "lexer \<Rightarrow> diagnostic + token \<times> lexer" where
  "confit_v2_expression_lexer_next lx0 =
     (case expr_text (lex_source lx0) of
        None \<Rightarrow> Inl (confit_diagnostic_set CONFIT_ERR_INVALID_ARGUMENT None 0 0
                       ''invalid expression lexer argument'')
      | Some s \<Rightarrow>
          let lx1 = lx0\<lparr>lex_offset := scan_while confit_v2_is_space s (lex_offset lx0)\<rparr>
          in if lex_token_count lx1 \<ge> lex_max_tokens lx1
             then Inl (confit_v2_expression_diagnostic_at (lex_source lx1) (lex_offset lx1)
                         CONFIT_ERR_SCHEMA kExpressionTokenLimit)
             else
               let lx = lx1\<lparr>lex_token_count := lex_token_count lx1 + 1\<rparr>;
                   start = lex_offset lx;
                   current = char_at s start
               in if current = NUL then Inr (make_token TOKEN_EOF start (start + 1), lx)
                  else if confit_v2_is_lower_alpha current then confit_v2_lex_identifier lx s
                  else if confit_v2_is_digit current then confit_v2_lex_number lx s
                  else if current = CHR 0x22 then confit_v2_lex_string lx s
                  else case lex_operator current (char_at s (start + 1)) of
                         Some (kind, width) \<Rightarrow>
                           Inr (make_token kind start (start + width),
                                lx\<lparr>lex_offset := start + width\<rparr>)
                       | None \<Rightarrow>
                           Inl (confit_v2_expression_diagnostic_at (lex_source lx) start
                                  CONFIT_ERR_SCHEMA kExpressionInvalidCharacter))"

section \<open>The value of a string literal\<close>

text \<open>The bytes of a scalar value; \<open>None\<close> is the C result 0.\<close>

definition confit_v2_emit_utf8 :: "u32 \<Rightarrow> string option" where
  "confit_v2_emit_utf8 scalar =
     (let out = (\<lambda>w :: u32. char_of (unat w))
      in if scalar \<le> 0x7F then Some [out scalar]
         else if scalar \<le> 0x7FF then
           Some [out (or 0xC0 (drop_bit 6 scalar)),
                 out (or 0x80 (and scalar 0x3F))]
         else if scalar \<le> 0xFFFF then
           Some [out (or 0xE0 (drop_bit 12 scalar)),
                 out (or 0x80 (and (drop_bit 6 scalar) 0x3F)),
                 out (or 0x80 (and scalar 0x3F))]
         else if scalar \<le> 0x10FFFF then
           Some [out (or 0xF0 (drop_bit 18 scalar)),
                 out (or 0x80 (and (drop_bit 12 scalar) 0x3F)),
                 out (or 0x80 (and (drop_bit 6 scalar) 0x3F)),
                 out (or 0x80 (and scalar 0x3F))]
         else None)"

text \<open>Four hexadecimal digits from \<open>cursor\<close>, accumulated in \<open>scalar\<close>.\<close>

fun parse_hex_digits :: "nat \<Rightarrow> string \<Rightarrow> nat \<Rightarrow> u32 \<Rightarrow> u32 option" where
  "parse_hex_digits 0 s cursor scalar = Some scalar"
| "parse_hex_digits (Suc n) s cursor scalar =
     (case confit_v2_hex_value (char_at s cursor) of
        None \<Rightarrow> None
      | Some digit \<Rightarrow>
          parse_hex_digits n s (cursor + 1) (or (push_bit 4 scalar) (of_nat digit)))"

definition confit_v2_parse_unicode_scalar :: "string \<Rightarrow> nat \<Rightarrow> (u32 \<times> nat) option" where
  "confit_v2_parse_unicode_scalar s cursor =
     (case parse_hex_digits 4 s cursor 0 of
        None \<Rightarrow> None
      | Some scalar \<Rightarrow>
          if 0xD800 \<le> scalar \<and> scalar \<le> 0xDBFF then
            (if char_at s (cursor + 4) \<noteq> CHR 0x5C \<or> char_at s (cursor + 5) \<noteq> CHR ''u'' then None
             else case parse_hex_digits 4 s (cursor + 6) 0 of
                    None \<Rightarrow> None
                  | Some low \<Rightarrow>
                      if low < 0xDC00 \<or> low > 0xDFFF then None
                      else Some (0x10000 + push_bit 10 (scalar - 0xD800) + (low - 0xDC00),
                                 cursor + 10))
          else if 0xDC00 \<le> scalar \<and> scalar \<le> 0xDFFF then None
          else Some (scalar, cursor + 4))"

lemma parse_unicode_scalar_cursor:
  "confit_v2_parse_unicode_scalar s cursor = Some (scalar, cursor') \<Longrightarrow>
     cursor' = cursor + 4 \<or> cursor' = cursor + 10"
  by (auto simp: confit_v2_parse_unicode_scalar_def split: option.splits if_splits)

definition simple_escape_value :: "char \<Rightarrow> char option" where
  "simple_escape_value escape =
     (if escape = CHR 0x22 \<or> escape = CHR 0x5C \<or> escape = CHR ''/'' then Some escape
      else if escape = CHR ''b'' then Some CHR 0x08
      else if escape = CHR ''f'' then Some CHR 0x0C
      else if escape = CHR ''n'' then Some CHR 0x0A
      else if escape = CHR ''r'' then Some CHR 0x0D
      else if escape = CHR ''t'' then Some CHR 0x09
      else None)"

text \<open>
  The loop over the literal's body: the bytes written to the buffer so far, and at its end whether
  the body was read to the closing quote. It stops where the C frees the buffer and reports an
  invalid string.
\<close>

function token_string_loop :: "string \<Rightarrow> nat \<Rightarrow> nat \<Rightarrow> string \<Rightarrow> string \<times> bool" where
  "token_string_loop s end_offset cursor out =
     (if \<not> cursor + 1 < end_offset then (out, True)
      else if char_at s cursor = CHR 0x5C then
        (let escape = char_at s (cursor + 1)
         in if escape = CHR ''u'' then
              (case confit_v2_parse_unicode_scalar s (cursor + 2) of
                 None \<Rightarrow> (out, False)
               | Some (scalar, cursor') \<Rightarrow>
                   (case confit_v2_emit_utf8 scalar of
                      None \<Rightarrow> (out, False)
                    | Some bytes \<Rightarrow> token_string_loop s end_offset cursor' (out @ bytes)))
            else
              (case simple_escape_value escape of
                 None \<Rightarrow> (out, False)
               | Some c \<Rightarrow> token_string_loop s end_offset (cursor + 2) (out @ [c])))
      else token_string_loop s end_offset (cursor + 1) (out @ [char_at s cursor]))"
  by pat_completeness auto
termination
  by (relation "measure (\<lambda>(s, end_offset, cursor, out). end_offset - cursor)")
    (auto dest!: parse_unicode_scalar_cursor)

declare token_string_loop.simps [simp del]

lemma token_string_loop_append:
  "token_string_loop s e i (pre @ out) = (pre @ fst (token_string_loop s e i out), snd (token_string_loop s e i out))"
proof (induction s e i out arbitrary: pre rule: token_string_loop.induct)
  case (1 s e i out)
  note step = token_string_loop.simps [of s e i]
  show ?case
    unfolding step [of "pre @ out"] step [of out]
    using 1 by (auto simp: Let_def split: option.split)
qed

text \<open>The value of a body that is read to its end.\<close>

definition token_string_bytes :: "string \<Rightarrow> nat \<Rightarrow> nat \<Rightarrow> string option" where
  "token_string_bytes s end_offset cursor =
     (let (out, completed) = token_string_loop s end_offset cursor [] in if completed then Some out else None)"

lemma token_string_bytes_simps:
  "token_string_bytes s end_offset cursor =
     (if \<not> cursor + 1 < end_offset then Some []
      else if char_at s cursor = CHR 0x5C then
        (let escape = char_at s (cursor + 1)
         in if escape = CHR ''u'' then
              (case confit_v2_parse_unicode_scalar s (cursor + 2) of
                 None \<Rightarrow> None
               | Some (scalar, cursor') \<Rightarrow>
                   (case confit_v2_emit_utf8 scalar of
                      None \<Rightarrow> None
                    | Some bytes \<Rightarrow> map_option ((@) bytes) (token_string_bytes s end_offset cursor')))
            else
              (case simple_escape_value escape of
                 None \<Rightarrow> None
               | Some c \<Rightarrow> map_option ((#) c) (token_string_bytes s end_offset (cursor + 2))))
      else map_option ((#) (char_at s cursor)) (token_string_bytes s end_offset (cursor + 1)))"
proof -
  define settled where "settled = (\<lambda>r :: string \<times> bool. if snd r then Some (fst r) else None)"
  have bytes: "token_string_bytes s e i = settled (token_string_loop s e i [])" for e i
    by (simp add: token_string_bytes_def settled_def split: prod.split)
  have start: "settled (token_string_loop s e i out) = map_option ((@) out) (token_string_bytes s e i)" for e i out
    using token_string_loop_append [of s e i out "[]"] by (simp add: bytes) (simp add: settled_def)
  have ends: "settled (out, True) = Some out" "settled (out, False) = None" for out by (simp_all add: settled_def)
  have "settled (token_string_loop s e i [c]) = map_option ((#) c) (token_string_bytes s e i)" for e i c
    unfolding start by (rule arg_cong [of _ _ "\<lambda>f. map_option f _"]) (simp add: fun_eq_iff)
  then show ?thesis
    unfolding bytes [of end_offset cursor] token_string_loop.simps [of s end_offset cursor "[]"]
    by (simp add: Let_def ends start split: option.split)
qed

text \<open>
  The result is read as a C string by every caller, so it ends at the first NUL written.
\<close>

definition confit_v2_expression_token_string ::
  "expression_text \<Rightarrow> token \<Rightarrow> diagnostic + string" where
  "confit_v2_expression_token_string source token =
     (case expr_text source of
        None \<Rightarrow> Inl (confit_diagnostic_set CONFIT_ERR_INVALID_ARGUMENT None 0 0
                       ''invalid expression string token'')
      | Some s \<Rightarrow>
          if tok_kind token \<noteq> TOKEN_STRING \<or> tok_end token < tok_start token + 2
          then Inl (confit_diagnostic_set CONFIT_ERR_INVALID_ARGUMENT None 0 0
                      ''invalid expression string token'')
          else (case token_string_loop s (tok_end token) (tok_start token + 1) [] of
                  (out, completed) \<Rightarrow>
                    if \<not> completed
                    then Inl (confit_v2_expression_diagnostic_at source (tok_start token)
                                CONFIT_ERR_SCHEMA kExpressionInvalidString)
                    else Inr (takeWhile (\<lambda>c. c \<noteq> NUL) out)))"

lemma expression_token_string_value:
  "confit_v2_expression_token_string source token =
     (case expr_text source of
        None \<Rightarrow> Inl (confit_diagnostic_set CONFIT_ERR_INVALID_ARGUMENT None 0 0 ''invalid expression string token'')
      | Some s \<Rightarrow>
          if tok_kind token \<noteq> TOKEN_STRING \<or> tok_end token < tok_start token + 2
          then Inl (confit_diagnostic_set CONFIT_ERR_INVALID_ARGUMENT None 0 0 ''invalid expression string token'')
          else (case token_string_bytes s (tok_end token) (tok_start token + 1) of
                  None \<Rightarrow> Inl (confit_v2_expression_diagnostic_at source (tok_start token) CONFIT_ERR_SCHEMA kExpressionInvalidString)
                | Some out \<Rightarrow> Inr (takeWhile (\<lambda>c. c \<noteq> NUL) out)))"
  by (simp add: confit_v2_expression_token_string_def token_string_bytes_def split: option.split prod.split)

end
