(* ===== verification/Expr_Ast.thy ===== *)
theory Expr_Ast
  imports Lexer
begin

text \<open>
  The expression tree of \<open>include/confit/expression_v2.h\<close>. A node carries its byte range in
  the source and the number of its allocation, which stands for its address: the type table
  of the checker finds nodes by pointer identity. A literal is one tagged value, so the tag
  and the union member cannot disagree.
\<close>

datatype expr_literal =
  LITERAL_BOOL bool
| LITERAL_TRISTATE char
| LITERAL_INT i64
| LITERAL_HEX u64
| LITERAL_FLOAT f64
| LITERAL_STRING string

datatype unary_operator = UNARY_NOT | UNARY_NEGATE | UNARY_PLUS

datatype binary_operator =
  BINARY_OR | BINARY_AND | BINARY_EQUAL | BINARY_NOT_EQUAL | BINARY_LESS | BINARY_LESS_EQUAL
| BINARY_GREATER | BINARY_GREATER_EQUAL | BINARY_IN | BINARY_ADD | BINARY_SUBTRACT
| BINARY_MULTIPLY | BINARY_DIVIDE | BINARY_MODULO

record node_info =
  info_addr :: nat
  info_start :: nat
  info_end :: nat

datatype expr_node =
  Literal (node_info: node_info) expr_literal
| Reference (node_info: node_info) string
| Unary (node_info: node_info) unary_operator expr_node
| Binary (node_info: node_info) binary_operator expr_node expr_node
| Conditional (node_info: node_info) expr_node expr_node expr_node
| Call (node_info: node_info) string "expr_node list"
| List_Node (node_info: node_info) "expr_node list"

text \<open>The assignment to \<open>start_offset\<close> and \<open>end_offset\<close> of a node that is in parentheses.\<close>

fun set_node_range :: "nat \<Rightarrow> nat \<Rightarrow> expr_node \<Rightarrow> expr_node" where
  "set_node_range i j (Literal loc l) = Literal (loc\<lparr>info_start := i, info_end := j\<rparr>) l"
| "set_node_range i j (Reference loc r) = Reference (loc\<lparr>info_start := i, info_end := j\<rparr>) r"
| "set_node_range i j (Unary loc u n) = Unary (loc\<lparr>info_start := i, info_end := j\<rparr>) u n"
| "set_node_range i j (Binary loc b l r) = Binary (loc\<lparr>info_start := i, info_end := j\<rparr>) b l r"
| "set_node_range i j (Conditional loc c t f) =
     Conditional (loc\<lparr>info_start := i, info_end := j\<rparr>) c t f"
| "set_node_range i j (Call loc f args) = Call (loc\<lparr>info_start := i, info_end := j\<rparr>) f args"
| "set_node_range i j (List_Node loc items) = List_Node (loc\<lparr>info_start := i, info_end := j\<rparr>) items"

abbreviation node_start :: "expr_node \<Rightarrow> nat" where "node_start n \<equiv> info_start (node_info n)"
abbreviation node_end :: "expr_node \<Rightarrow> nat" where "node_end n \<equiv> info_end (node_info n)"
abbreviation node_addr :: "expr_node \<Rightarrow> nat" where "node_addr n \<equiv> info_addr (node_info n)"

fun children :: "expr_node \<Rightarrow> expr_node list" where
  "children (Literal _ _) = []"
| "children (Reference _ _) = []"
| "children (Unary _ _ n) = [n]"
| "children (Binary _ _ l r) = [l, r]"
| "children (Conditional _ c t f) = [c, t, f]"
| "children (Call _ _ args) = args"
| "children (List_Node _ items) = items"

fun subnodes :: "expr_node \<Rightarrow> expr_node list" where
  "subnodes (Literal loc l) = [Literal loc l]"
| "subnodes (Reference loc r) = [Reference loc r]"
| "subnodes (Unary loc u n) = Unary loc u n # subnodes n"
| "subnodes (Binary loc b l r) = Binary loc b l r # subnodes l @ subnodes r"
| "subnodes (Conditional loc c t f) = Conditional loc c t f # subnodes c @ subnodes t @ subnodes f"
| "subnodes (Call loc f args) = Call loc f args # concat (map subnodes args)"
| "subnodes (List_Node loc items) = List_Node loc items # concat (map subnodes items)"

definition node_addrs :: "expr_node \<Rightarrow> nat list" where
  "node_addrs n = map node_addr (subnodes n)"

record expression_limits =
  max_source_bytes :: nat
  max_tokens :: nat
  max_nodes :: nat
  max_nesting :: nat

record expression =
  expression_source :: string
  expression_span :: source_span
  expression_root :: expr_node

lemma subnodes_head: "subnodes n = n # concat (map subnodes (children n))"
  by (cases n) simp_all

lemma node_addrs_simps:
  "node_addrs n = node_addr n # concat (map node_addrs (children n))"
  unfolding node_addrs_def by (subst subnodes_head) (simp add: map_concat o_def node_addrs_def [abs_def])

lemma children_set_node_range [simp]: "children (set_node_range i j n) = children n"
  by (cases n) simp_all

lemma set_node_range_info [simp]:
  "node_addr (set_node_range i j n) = node_addr n"
  "node_start (set_node_range i j n) = i"
  "node_end (set_node_range i j n) = j"
  by (cases n; simp)+

lemma node_addrs_set_node_range [simp]: "node_addrs (set_node_range i j n) = node_addrs n"
  by (simp add: node_addrs_simps)

end
