(* ===== verification/Literal_Values.thy ===== *)
theory Literal_Values
  imports Expr_Ast
begin

text \<open>
  The values of numeric tokens, \<open>src/expression/v2/parser.c\<close>: unsigned integers with the
  overflow guard of the C code, on 64-bit words, and the decimal floating literals.
\<close>

definition parse_digit :: "char \<Rightarrow> nat option" where
  "parse_digit c =
     (if byte CHR ''0'' \<le> byte c \<and> byte c \<le> byte CHR ''9'' then Some (byte c - byte CHR ''0'')
      else if byte CHR ''a'' \<le> byte c \<and> byte c \<le> byte CHR ''f''
      then Some (byte c - byte CHR ''a'' + 10)
      else if byte CHR ''A'' \<le> byte c \<and> byte c \<le> byte CHR ''F''
      then Some (byte c - byte CHR ''A'' + 10)
      else None)"

fun parse_uint64_loop :: "string \<Rightarrow> nat \<Rightarrow> u64 \<Rightarrow> u64 option" where
  "parse_uint64_loop [] base value = Some value"
| "parse_uint64_loop (current # str) base value =
     (case parse_digit current of
        None \<Rightarrow> None
      | Some digit \<Rightarrow>
          if digit \<ge> base \<or> value > (UINT64_MAX - of_nat digit) div of_nat base then None
          else parse_uint64_loop str base (value * of_nat base + of_nat digit))"

definition confit_v2_expression_parse_uint64 :: "string \<Rightarrow> nat \<Rightarrow> u64 option" where
  "confit_v2_expression_parse_uint64 str base =
     (if str = [] then None else parse_uint64_loop str base 0)"

section \<open>Floating literals\<close>

definition is_decimal :: "char \<Rightarrow> bool" where
  "is_decimal c \<longleftrightarrow> byte CHR ''0'' \<le> byte c \<and> byte c \<le> byte CHR ''9''"

definition decimal :: "char \<Rightarrow> nat" where
  "decimal c = byte c - byte CHR ''0''"

text \<open>The three digit loops; each returns its result and the str it leaves.\<close>

fun float_whole :: "string \<Rightarrow> f64 \<Rightarrow> f64 \<times> string" where
  "float_whole [] value = (value, [])"
| "float_whole (c # str) value =
     (if is_decimal c
      then float_whole str (f64_add (f64_mul value (f64_of_nat 10)) (f64_of_nat (decimal c)))
      else (value, c # str))"

fun float_fraction :: "string \<Rightarrow> f64 \<Rightarrow> f64 \<Rightarrow> f64 \<times> string" where
  "float_fraction [] scale value = (value, [])"
| "float_fraction (c # str) scale value =
     (if is_decimal c
      then (let scale' = f64_mul scale f64_tenth
            in float_fraction str scale' (f64_add value (f64_mul (f64_of_nat (decimal c)) scale')))
      else (value, c # str))"

fun float_exponent :: "string \<Rightarrow> nat \<Rightarrow> (nat \<times> string) option" where
  "float_exponent [] exponent = Some (exponent, [])"
| "float_exponent (c # str) exponent =
     (if is_decimal c
      then (if exponent > 10000 then None else float_exponent str (exponent * 10 + decimal c))
      else Some (exponent, c # str))"

fun float_scale :: "nat \<Rightarrow> bool \<Rightarrow> f64 \<Rightarrow> f64" where
  "float_scale 0 negative value = value"
| "float_scale (Suc exponent) negative value =
     float_scale exponent negative
       (if negative then f64_mul value f64_tenth else f64_mul value (f64_of_nat 10))"

definition confit_v2_expression_parse_float :: "string \<Rightarrow> f64 option" where
  "confit_v2_expression_parse_float str =
     (let (whole, rest) = float_whole str (f64_zero False);
          (value, rest) =
            (case rest of
               c # after \<Rightarrow> if c = CHR ''.'' then float_fraction after (f64_of_nat 1) whole
                          else (whole, rest)
             | [] \<Rightarrow> (whole, rest));
          (negative, exponent) =
            (case rest of
               c # after \<Rightarrow>
                 if c = CHR ''e'' \<or> c = CHR ''E'' then
                   (case after of
                      d # digits \<Rightarrow>
                        if d = CHR ''+'' \<or> d = CHR ''-''
                        then (d = CHR ''-'', float_exponent digits 0)
                        else (False, float_exponent after 0)
                    | [] \<Rightarrow> (False, float_exponent after 0))
                 else (False, Some (0, rest))
             | [] \<Rightarrow> (False, Some (0, rest)))
      in case exponent of
           None \<Rightarrow> None
         | Some (n, rest) \<Rightarrow>
             if rest \<noteq> [] \<or> n > 308 then None
             else let value = float_scale n negative value
                  in if isfinite value then Some value else None)"

section \<open>The value of an integer literal\<close>

text \<open>The positional value of a digit sequence, as an unbounded number.\<close>

definition positional :: "nat \<Rightarrow> string \<Rightarrow> nat" where
  "positional base str = fold (\<lambda>c v. v * base + the (parse_digit c)) str 0"

definition valid_digits :: "nat \<Rightarrow> string \<Rightarrow> bool" where
  "valid_digits base str \<longleftrightarrow> str \<noteq> []
     \<and> (\<forall>c \<in> set str. \<exists>d. parse_digit c = Some d \<and> d < base)"

lemma parse_digit_bound: "parse_digit c = Some d \<Longrightarrow> d < 16"
  by (auto simp: parse_digit_def byte_def split: if_splits)

lemma uint64_guard:
  assumes "d < base" "base \<le> 16"
  shows "value > (UINT64_MAX - of_nat d) div of_nat base \<longleftrightarrow> \<not> unat value * base + d < 2 ^ 64"
proof -
  have b: "unat (of_nat base :: u64) = base" "unat (of_nat d :: u64) = d"
    using assms by (simp_all add: unat_of_nat)
  have m: "unat (UINT64_MAX - of_nat d) = 2 ^ 64 - 1 - d"
    using assms b(2) by (simp add: unat_UINT64_MAX unat_sub word_le_nat_alt)
  have "unat ((UINT64_MAX - of_nat d) div of_nat base) = (2 ^ 64 - 1 - d) div base"
    by (simp add: unat_div m b)
  then have "value > (UINT64_MAX - of_nat d) div of_nat base \<longleftrightarrow> (2 ^ 64 - 1 - d) div base < unat value"
    by (simp add: word_less_nat_alt)
  also have "\<dots> \<longleftrightarrow> 2 ^ 64 - 1 - d < unat value * base"
    using assms by (simp add: div_less_iff_less_mult)
  also have "\<dots> \<longleftrightarrow> \<not> unat value * base + d < 2 ^ 64" using assms by auto
  finally show ?thesis .
qed

lemma fold_positional_ge:
  "0 < base \<Longrightarrow> v \<le> fold (\<lambda>c v. v * base + the (parse_digit c)) str v"
proof (induction str arbitrary: v)
  case (Cons c str)
  have "v \<le> v * base + the (parse_digit c)" using Cons.prems by (simp add: trans_le_add1)
  also have "\<dots> \<le> fold (\<lambda>c v. v * base + the (parse_digit c)) str (v * base + the (parse_digit c))"
    using Cons by simp
  finally show ?case by simp
qed simp

lemma parse_uint64_loop_value:
  assumes "base \<le> 16" "0 < base"
  shows "parse_uint64_loop str base acc = Some w \<longleftrightarrow>
    (\<forall>c \<in> set str. \<exists>d. parse_digit c = Some d \<and> d < base)
    \<and> fold (\<lambda>c v. v * base + the (parse_digit c)) str (unat acc) = unat w"
proof (induction str arbitrary: acc)
  case (Cons c str)
  show ?case
  proof (cases "parse_digit c")
    case (Some d)
    show ?thesis
    proof (cases "d < base")
      case True
      note g = uint64_guard [OF True assms(1), of acc]
      show ?thesis
      proof (cases "unat acc * base + d < 2 ^ 64")
        case fits: True
        have "unat (acc * of_nat base + of_nat d) = unat acc * base + d"
          using fits by (simp add: unat_word_ariths unat_of_nat mod_simps mod_less)
        moreover have "\<not> acc > (UINT64_MAX - of_nat d) div of_nat base" using g fits by blast
        ultimately show ?thesis using Some True Cons.IH by simp
      next
        case False
        have "unat w < 2 ^ 64" using unsigned_less [of w] by simp
        then have "fold (\<lambda>c v. v * base + the (parse_digit c)) str (unat acc * base + d) \<noteq> unat w"
          using False fold_positional_ge [OF assms(2), of "unat acc * base + d" str] by linarith
        with False Some True g show ?thesis by simp
      qed
    qed (simp add: Some)
  qed simp
qed (auto simp: word_unat_eq_iff)

theorem parse_uint64_exact:
  assumes "base = 10 \<or> base = 16"
  shows "confit_v2_expression_parse_uint64 str base = Some w \<longleftrightarrow>
    valid_digits base str \<and> positional base str = unat w"
  using parse_uint64_loop_value [of base str 0 w] assms
  by (auto simp: confit_v2_expression_parse_uint64_def valid_digits_def positional_def)

lemma parse_float_finite:
  "confit_v2_expression_parse_float str = Some x \<Longrightarrow> isfinite x"
  by (auto simp: confit_v2_expression_parse_float_def Let_def split: prod.splits option.splits if_splits)


text \<open>The 64-bit reader of integer literals, with its overflow test
  \<open>value > (UINT64_MAX - digit) / base\<close>, accepts exactly the nonempty digit strings whose
  positional value fits in 64 bits, and returns that value.\<close>

theorem parse_uint64_positional:
  assumes "base = 10 \<or> base = 16"
  shows "confit_v2_expression_parse_uint64 digits base = Some w \<longleftrightarrow>
    valid_digits base digits \<and> positional base digits = unat w"
  using assms by (rule parse_uint64_exact)

lemma parse_uint64_positional_witness:
  "confit_v2_expression_parse_uint64 ''ff'' 16 = Some 255
   \<and> (confit_v2_expression_parse_uint64 ''ff'' 16 = Some 255 \<longleftrightarrow>
        valid_digits 16 ''ff'' \<and> positional 16 ''ff'' = unat (255 :: u64))"
proof
  show "confit_v2_expression_parse_uint64 ''ff'' 16 = Some 255" by code_simp
  show "confit_v2_expression_parse_uint64 ''ff'' 16 = Some 255 \<longleftrightarrow>
        valid_digits 16 ''ff'' \<and> positional 16 ''ff'' = unat (255 :: u64)"
    using parse_uint64_positional [of 16 "''ff''" 255] by simp
qed

end
