(* ===== verification/Parser.thy ===== *)
theory Parser
  imports Literal_Values
begin

text \<open>
  The recursive-descent parser, \<open>src/expression/v2/parser.c\<close>. The C functions call each other
  without a bound that a kernel can see, so the model passes \<open>fuel\<close>, a bound on the depth of
  the calls; \<open>Out_Of_Fuel\<close> is a result of its own, and the theorem \<open>parse_never_out_of_fuel\<close>
  (theory \<open>Parser_Total\<close>) shows that the fuel \<open>confit_v2_expression_parse\<close> starts with, which
  grows with the length of the source, always suffices. Tree nodes are freed only on the
  error paths, which return no tree, so freeing is not represented.
\<close>

datatype parse_stop = Stop diagnostic | Out_Of_Fuel

definition lift_stop :: "diagnostic + 'a \<Rightarrow> parse_stop + 'a" where
  "lift_stop r = (case r of Inl d \<Rightarrow> Inl (Stop d) | Inr x \<Rightarrow> Inr x)"

record parser =
  parser_source :: expression_text
  parser_lexer :: lexer
  parser_current :: token
  parser_limits :: expression_limits
  parser_node_count :: nat

definition kExpressionExpectedRightParen :: string where
  "kExpressionExpectedRightParen = ''expected '' @ [CHR 0x27, CHR '')'', CHR 0x27]"
definition kExpressionExpectedRightBracket :: string where
  "kExpressionExpectedRightBracket = ''expected '' @ [CHR 0x27, CHR '']'', CHR 0x27]"
definition kExpressionExpectedColon :: string where
  "kExpressionExpectedColon = ''expected '' @ [CHR 0x27, CHR '':'', CHR 0x27]"

section \<open>Limits\<close>

definition confit_v2_expression_default_limits :: expression_limits where
  "confit_v2_expression_default_limits =
     \<lparr>max_source_bytes = 65536, max_tokens = 8192, max_nodes = 8192, max_nesting = 128\<rparr>"

definition confit_v2_expression_effective_limits ::
  "expression_limits option \<Rightarrow> expression_limits" where
  "confit_v2_expression_effective_limits requested =
     (let limits = confit_v2_expression_default_limits
      in case requested of
           None \<Rightarrow> limits
         | Some r \<Rightarrow>
             \<lparr>max_source_bytes = (if max_source_bytes r \<noteq> 0 then max_source_bytes r
                                  else max_source_bytes limits),
              max_tokens = (if max_tokens r \<noteq> 0 then max_tokens r else max_tokens limits),
              max_nodes = (if max_nodes r \<noteq> 0 then max_nodes r else max_nodes limits),
              max_nesting = (if max_nesting r \<noteq> 0 then max_nesting r else max_nesting limits)\<rparr>)"

section \<open>Steps of the parser\<close>

definition parser_text :: "parser \<Rightarrow> string" where
  "parser_text p = (case expr_text (parser_source p) of Some s \<Rightarrow> s | None \<Rightarrow> [])"

abbreviation current_kind :: "parser \<Rightarrow> token_kind" where
  "current_kind p \<equiv> tok_kind (parser_current p)"

definition parse_error :: "parser \<Rightarrow> nat \<Rightarrow> string \<Rightarrow> parse_stop + 'a" where
  "parse_error p offset message =
     Inl (Stop (confit_v2_expression_diagnostic_at (parser_source p) offset CONFIT_ERR_SCHEMA message))"

definition confit_v2_expression_advance :: "parser \<Rightarrow> parse_stop + parser" where
  "confit_v2_expression_advance p =
     (case confit_v2_expression_lexer_next (parser_lexer p) of
        Inl d \<Rightarrow> Inl (Stop d)
      | Inr (token, lexer) \<Rightarrow> Inr (p\<lparr>parser_lexer := lexer, parser_current := token\<rparr>))"

text \<open>The allocation of a node: its address is the number of nodes made before it.\<close>

definition confit_v2_expression_make_node ::
  "parser \<Rightarrow> nat \<Rightarrow> nat \<Rightarrow> parse_stop + node_info \<times> parser" where
  "confit_v2_expression_make_node p start_offset end_offset =
     (if parser_node_count p \<ge> max_nodes (parser_limits p)
      then parse_error p start_offset ''expression AST node limit exceeded''
      else Inr (\<lparr>info_addr = parser_node_count p, info_start = start_offset, info_end = end_offset\<rparr>,
                p\<lparr>parser_node_count := parser_node_count p + 1\<rparr>))"

definition confit_v2_expression_token_copy :: "parser \<Rightarrow> token \<Rightarrow> string" where
  "confit_v2_expression_token_copy p token = slice (parser_text p) (tok_start token) (tok_end token)"

definition is_literal_token :: "token_kind \<Rightarrow> bool" where
  "is_literal_token k \<longleftrightarrow> k \<in> {TOKEN_TRUE, TOKEN_FALSE, TOKEN_TRISTATE, TOKEN_INTEGER, TOKEN_HEX,
     TOKEN_FLOAT, TOKEN_STRING}"

definition literal_of_token :: "parser \<Rightarrow> token \<Rightarrow> parse_stop + expr_literal" where
  "literal_of_token p token =
     (let s = confit_v2_expression_token_copy p token;
          bad_number = parse_error p (tok_start token) ''invalid expression number literal''
      in if tok_kind token = TOKEN_TRUE \<or> tok_kind token = TOKEN_FALSE
         then Inr (LITERAL_BOOL (tok_kind token = TOKEN_TRUE))
         else if tok_kind token = TOKEN_TRISTATE
         then Inr (LITERAL_TRISTATE (char_at (parser_text p) (tok_start token)))
         else if tok_kind token = TOKEN_INTEGER then
           (case confit_v2_expression_parse_uint64 s 10 of
              None \<Rightarrow> bad_number
            | Some raw \<Rightarrow> if raw > INT64_MAX then bad_number else Inr (LITERAL_INT raw))
         else if tok_kind token = TOKEN_HEX then
           (case confit_v2_expression_parse_uint64 (drop 2 s) 16 of
              None \<Rightarrow> bad_number
            | Some raw \<Rightarrow> Inr (LITERAL_HEX raw))
         else if tok_kind token = TOKEN_FLOAT then
           (case confit_v2_expression_parse_float s of
              None \<Rightarrow> bad_number
            | Some x \<Rightarrow> Inr (LITERAL_FLOAT x))
         else bind_res (lift_stop (confit_v2_expression_token_string (parser_source p) token))
                (\<lambda>v. Inr (LITERAL_STRING v)))"

definition unary_of_token :: "token_kind \<Rightarrow> unary_operator option" where
  "unary_of_token k =
     (if k = TOKEN_NOT then Some UNARY_NOT
      else if k = TOKEN_MINUS then Some UNARY_NEGATE
      else if k = TOKEN_PLUS then Some UNARY_PLUS
      else None)"

text \<open>The precedence and the operator of a token; precedence 0 is no operator.\<close>

definition confit_v2_expression_operator_precedence ::
  "token_kind \<Rightarrow> (nat \<times> binary_operator) option" where
  "confit_v2_expression_operator_precedence k = (case k of
     TOKEN_OR \<Rightarrow> Some (1, BINARY_OR)
   | TOKEN_AND \<Rightarrow> Some (2, BINARY_AND)
   | TOKEN_EQUAL \<Rightarrow> Some (3, BINARY_EQUAL)
   | TOKEN_NOT_EQUAL \<Rightarrow> Some (3, BINARY_NOT_EQUAL)
   | TOKEN_LESS \<Rightarrow> Some (4, BINARY_LESS)
   | TOKEN_LESS_EQUAL \<Rightarrow> Some (4, BINARY_LESS_EQUAL)
   | TOKEN_GREATER \<Rightarrow> Some (4, BINARY_GREATER)
   | TOKEN_GREATER_EQUAL \<Rightarrow> Some (4, BINARY_GREATER_EQUAL)
   | TOKEN_IN \<Rightarrow> Some (4, BINARY_IN)
   | TOKEN_PLUS \<Rightarrow> Some (5, BINARY_ADD)
   | TOKEN_MINUS \<Rightarrow> Some (5, BINARY_SUBTRACT)
   | TOKEN_STAR \<Rightarrow> Some (6, BINARY_MULTIPLY)
   | TOKEN_SLASH \<Rightarrow> Some (6, BINARY_DIVIDE)
   | TOKEN_PERCENT \<Rightarrow> Some (6, BINARY_MODULO)
   | _ \<Rightarrow> None)"

section \<open>The recursive descent\<close>

text \<open>
  Every C function that can reach \<open>parse_conditional\<close> again takes it as the argument
  \<open>parse_expression\<close>, and \<open>confit_v2_expression_parse_conditional\<close> ties the knot: one unit of
  its fuel per level of nested expressions. The loops spend a unit of the fuel they are given
  for each turn. \<open>parse_items\<close> is the loop over comma-separated items that the list and the
  call share; \<open>parse_chain_loop\<close> the loop over the operators of one precedence, with the flag
  that refuses a second relation.
\<close>

type_synonym node_parser = "nat \<Rightarrow> parser \<Rightarrow> parse_stop + expr_node \<times> parser"

fun parse_items :: "node_parser \<Rightarrow> nat \<Rightarrow> nat \<Rightarrow> parser \<Rightarrow> parse_stop + expr_node list \<times> parser" where
  "parse_items parse_expression 0 nesting p = Inl Out_Of_Fuel"
| "parse_items parse_expression (Suc fuel) nesting p =
     bind_res (parse_expression (nesting + 1) p) (\<lambda>(item, p1).
       if current_kind p1 \<noteq> TOKEN_COMMA then Inr ([item], p1)
       else
         bind_res (confit_v2_expression_advance p1) (\<lambda>p2.
         bind_res (parse_items parse_expression fuel nesting p2) (\<lambda>(items, p3).
           Inr (item # items, p3))))"

definition confit_v2_expression_parse_list :: "node_parser \<Rightarrow> nat \<Rightarrow> node_parser" where
  "confit_v2_expression_parse_list parse_expression fuel nesting p =
     bind_res (confit_v2_expression_advance p) (\<lambda>p1.
     bind_res (if current_kind p1 = TOKEN_RIGHT_BRACKET then Inr ([], p1)
               else parse_items parse_expression fuel nesting p1) (\<lambda>(items, p2).
       if current_kind p2 \<noteq> TOKEN_RIGHT_BRACKET
       then parse_error p2 (tok_start (parser_current p2)) kExpressionExpectedRightBracket
       else
         bind_res (confit_v2_expression_advance p2) (\<lambda>p3.
         bind_res (confit_v2_expression_make_node p3 (tok_start (parser_current p))
                     (tok_end (parser_current p2)))
           (\<lambda>(loc, p4). Inr (List_Node loc items, p4)))))"

definition confit_v2_expression_parse_call :: "node_parser \<Rightarrow> nat \<Rightarrow> token \<Rightarrow> node_parser" where
  "confit_v2_expression_parse_call parse_expression fuel name_token nesting p =
     (let name = confit_v2_expression_token_copy p name_token
      in bind_res (confit_v2_expression_advance p) (\<lambda>p1.
         bind_res (if current_kind p1 = TOKEN_RIGHT_PAREN then Inr ([], p1)
                   else parse_items parse_expression fuel nesting p1) (\<lambda>(arguments, p2).
           if current_kind p2 \<noteq> TOKEN_RIGHT_PAREN
           then parse_error p2 (tok_start (parser_current p2)) kExpressionExpectedRightParen
           else
             bind_res (confit_v2_expression_advance p2) (\<lambda>p3.
             bind_res (confit_v2_expression_make_node p3 (tok_start name_token)
                         (tok_end (parser_current p2)))
               (\<lambda>(loc, p4). Inr (Call loc name arguments, p4))))))"

text \<open>The branches of \<open>parse_primary\<close> for a parenthesis, an identifier and a literal.\<close>

definition parse_parenthesized :: "node_parser \<Rightarrow> node_parser" where
  "parse_parenthesized parse_expression nesting p =
     bind_res (confit_v2_expression_advance p) (\<lambda>p1.
     bind_res (parse_expression (nesting + 1) p1) (\<lambda>(node, p2).
       if current_kind p2 \<noteq> TOKEN_RIGHT_PAREN
       then parse_error p2 (tok_start (parser_current p2)) kExpressionExpectedRightParen
       else
         bind_res (confit_v2_expression_advance p2) (\<lambda>p3.
           Inr (set_node_range (tok_start (parser_current p)) (tok_end (parser_current p2)) node, p3))))"

definition parse_identifier :: "node_parser \<Rightarrow> nat \<Rightarrow> node_parser" where
  "parse_identifier parse_expression fuel nesting p =
     (let token = parser_current p
      in bind_res (confit_v2_expression_advance p) (\<lambda>p1.
           if current_kind p1 = TOKEN_LEFT_PAREN
           then confit_v2_expression_parse_call parse_expression fuel token nesting p1
           else if CHR ''.'' \<notin> set (confit_v2_expression_token_copy p token)
           then parse_error p1 (tok_start token) ''expected expression''
           else bind_res (confit_v2_expression_make_node p1 (tok_start token) (tok_end token))
                  (\<lambda>(loc, p2). Inr (Reference loc (confit_v2_expression_token_copy p token), p2))))"

definition parse_literal :: "parser \<Rightarrow> parse_stop + expr_node \<times> parser" where
  "parse_literal p =
     (let token = parser_current p
      in bind_res (confit_v2_expression_make_node p (tok_start token) (tok_end token)) (\<lambda>(loc, p1).
         bind_res (literal_of_token p token) (\<lambda>l.
         bind_res (confit_v2_expression_advance p1) (\<lambda>p2. Inr (Literal loc l, p2)))))"

definition confit_v2_expression_parse_primary :: "node_parser \<Rightarrow> nat \<Rightarrow> node_parser" where
  "confit_v2_expression_parse_primary parse_expression fuel nesting p =
     (let token = parser_current p
      in if nesting > max_nesting (parser_limits p)
         then parse_error p (tok_start token) ''expression nesting limit exceeded''
         else if tok_kind token = TOKEN_LEFT_PAREN then parse_parenthesized parse_expression nesting p
         else if tok_kind token = TOKEN_LEFT_BRACKET
         then confit_v2_expression_parse_list parse_expression fuel nesting p
         else if tok_kind token = TOKEN_IDENTIFIER then parse_identifier parse_expression fuel nesting p
         else if is_literal_token (tok_kind token) then parse_literal p
         else parse_error p (tok_start token) ''expected expression'')"

fun confit_v2_expression_parse_unary :: "node_parser \<Rightarrow> nat \<Rightarrow> node_parser" where
  "confit_v2_expression_parse_unary parse_expression 0 nesting p = Inl Out_Of_Fuel"
| "confit_v2_expression_parse_unary parse_expression (Suc fuel) nesting p =
     (case unary_of_token (current_kind p) of
        None \<Rightarrow> confit_v2_expression_parse_primary parse_expression fuel nesting p
      | Some operator_kind \<Rightarrow>
          bind_res (confit_v2_expression_advance p) (\<lambda>p1.
          bind_res (confit_v2_expression_parse_unary parse_expression fuel (nesting + 1) p1)
            (\<lambda>(operand, p2).
          bind_res (confit_v2_expression_make_node p2 (tok_start (parser_current p)) (node_end operand))
            (\<lambda>(loc, p3). Inr (Unary loc operator_kind operand, p3)))))"

fun parse_chain_loop ::
  "(parser \<Rightarrow> parse_stop + expr_node \<times> parser) \<Rightarrow> nat \<Rightarrow> nat \<Rightarrow> bool \<Rightarrow> expr_node \<Rightarrow> parser
   \<Rightarrow> parse_stop + expr_node \<times> parser" where
  "parse_chain_loop parse_operand 0 precedence saw_relation left p = Inl Out_Of_Fuel"
| "parse_chain_loop parse_operand (Suc fuel) precedence saw_relation left p =
     (case confit_v2_expression_operator_precedence (current_kind p) of
        None \<Rightarrow> Inr (left, p)
      | Some (token_precedence, operator_kind) \<Rightarrow>
          if token_precedence \<noteq> precedence then Inr (left, p)
          else if precedence = 4 \<and> saw_relation
          then parse_error p (tok_start (parser_current p)) ''chained relation operators are not allowed''
          else
            bind_res (confit_v2_expression_advance p) (\<lambda>p1.
            bind_res (parse_operand p1) (\<lambda>(right, p2).
            bind_res (confit_v2_expression_make_node p2 (node_start left) (node_end right))
              (\<lambda>(loc, p3).
            parse_chain_loop parse_operand fuel precedence (saw_relation \<or> precedence = 4)
              (Binary loc operator_kind left right) p3))))"

function confit_v2_expression_parse_binary_chain ::
  "node_parser \<Rightarrow> nat \<Rightarrow> nat \<Rightarrow> node_parser" where
  "confit_v2_expression_parse_binary_chain parse_expression fuel precedence nesting p =
     (if precedence > 6 then confit_v2_expression_parse_unary parse_expression fuel nesting p
      else
        bind_res (confit_v2_expression_parse_binary_chain parse_expression fuel (precedence + 1) nesting p)
          (\<lambda>(left, p1).
             parse_chain_loop
               (confit_v2_expression_parse_binary_chain parse_expression fuel (precedence + 1) nesting)
               fuel precedence False left p1))"
  by pat_completeness auto
termination
  by (relation "measure (\<lambda>(parse_expression, fuel, precedence, nesting, p). 7 - precedence)") auto

declare confit_v2_expression_parse_binary_chain.simps [simp del]

fun confit_v2_expression_parse_conditional :: "nat \<Rightarrow> node_parser" where
  "confit_v2_expression_parse_conditional 0 nesting p = Inl Out_Of_Fuel"
| "confit_v2_expression_parse_conditional (Suc fuel) nesting p =
     bind_res (confit_v2_expression_parse_binary_chain
                 (confit_v2_expression_parse_conditional fuel) (Suc fuel) 1 nesting p)
       (\<lambda>(condition, p1).
       if current_kind p1 = TOKEN_QUESTION then
         bind_res (confit_v2_expression_advance p1) (\<lambda>p2.
         bind_res (confit_v2_expression_parse_conditional fuel (nesting + 1) p2) (\<lambda>(when_true, p3).
           if current_kind p3 \<noteq> TOKEN_COLON
           then parse_error p3 (tok_start (parser_current p3)) kExpressionExpectedColon
           else
             bind_res (confit_v2_expression_advance p3) (\<lambda>p4.
             bind_res (confit_v2_expression_parse_conditional fuel (nesting + 1) p4) (\<lambda>(when_false, p5).
             bind_res (confit_v2_expression_make_node p5 (node_start condition) (node_end when_false))
               (\<lambda>(loc, p6). Inr (Conditional loc condition when_true when_false, p6))))))
       else Inr (condition, p1))"

section \<open>Parsing an expression\<close>

definition parse_fuel :: "string \<Rightarrow> nat" where
  "parse_fuel s = length s + 2"

definition confit_v2_expression_parse ::
  "expression_text \<Rightarrow> expression_limits option \<Rightarrow> parse_stop + expression" where
  "confit_v2_expression_parse source requested_limits =
     (case expr_text source of
        None \<Rightarrow> Inl (Stop (confit_diagnostic_set CONFIT_ERR_INVALID_ARGUMENT
                             (span_path (expr_span source)) 0 0 ''invalid expression parser argument''))
      | Some s \<Rightarrow>
          let limits = confit_v2_expression_effective_limits requested_limits;
              parser = \<lparr>parser_source = source,
                        parser_lexer = confit_v2_expression_lexer_init source (max_tokens limits),
                        parser_current = make_token TOKEN_EOF 0 0,
                        parser_limits = limits, parser_node_count = 0\<rparr>
          in if length s > max_source_bytes limits
             then parse_error parser (max_source_bytes limits) ''expression source size limit exceeded''
             else
               bind_res (confit_v2_expression_advance parser) (\<lambda>p1.
               bind_res (confit_v2_expression_parse_conditional (parse_fuel s) 1 p1) (\<lambda>(root, p2).
                 if current_kind p2 \<noteq> TOKEN_EOF
                 then parse_error p2 (tok_start (parser_current p2)) ''unexpected trailing expression token''
                 else Inr \<lparr>expression_source = s, expression_span = expr_span source,
                           expression_root = root\<rparr>)))"

end
