(* ===== verification/Grammar.thy ===== *)
theory Grammar
  imports Parser
begin

text \<open>
  The grammar of \<open>docs/expression-v2.md\<close> as a derivation relation between token sequences and
  trees, one level per precedence: 0 is the conditional, 1 to 6 are the binary operators from
  \<open>||\<close> to \<open>*\<close>, 7 the prefix operators and 8 the primary expressions. Binary operators
  associate to the left, and a relation (level 4) has no relation as its left operand.
\<close>

text \<open>The literal a token denotes, from its text alone.\<close>

definition token_text :: "string \<Rightarrow> token \<Rightarrow> string" where
  "token_text s t = slice s (tok_start t) (tok_end t)"

definition denotes_literal :: "string \<Rightarrow> token \<Rightarrow> expr_literal \<Rightarrow> bool" where
  "denotes_literal s t l \<longleftrightarrow> (case l of
     LITERAL_BOOL b \<Rightarrow> tok_kind t = (if b then TOKEN_TRUE else TOKEN_FALSE)
   | LITERAL_TRISTATE c \<Rightarrow> tok_kind t = TOKEN_TRISTATE \<and> token_text s t = [c]
   | LITERAL_INT n \<Rightarrow> tok_kind t = TOKEN_INTEGER \<and> sint n = int (positional 10 (token_text s t))
   | LITERAL_HEX n \<Rightarrow> tok_kind t = TOKEN_HEX \<and> unat n = positional 16 (drop 2 (token_text s t))
   | LITERAL_FLOAT x \<Rightarrow> tok_kind t = TOKEN_FLOAT
       \<and> confit_v2_expression_parse_float (token_text s t) = Some x
   | LITERAL_STRING v \<Rightarrow> tok_kind t = TOKEN_STRING
       \<and> (\<exists>out. token_string_bytes s (tok_end t) (tok_start t + 1) = Some out
            \<and> v = takeWhile (\<lambda>c. c \<noteq> NUL) out))"

inductive derives :: "string \<Rightarrow> nat \<Rightarrow> token list \<Rightarrow> expr_node \<Rightarrow> bool"
  and derives_items :: "string \<Rightarrow> token list \<Rightarrow> expr_node list \<Rightarrow> bool" for s :: string where
  derives_up: "derives s (Suc k) ts n \<Longrightarrow> k < 8 \<Longrightarrow> derives s k ts n"
| derives_conditional:
    "derives s 1 a c \<Longrightarrow> tok_kind q = TOKEN_QUESTION \<Longrightarrow> derives s 0 b t
     \<Longrightarrow> tok_kind colon = TOKEN_COLON \<Longrightarrow> derives s 0 d f
     \<Longrightarrow> derives s 0 (a @ q # b @ colon # d) (Conditional loc c t f)"
| derives_binary:
    "confit_v2_expression_operator_precedence (tok_kind operator) = Some (k, b)
     \<Longrightarrow> derives s (if k = 4 then 5 else k) ls l \<Longrightarrow> derives s (Suc k) rs r
     \<Longrightarrow> derives s k (ls @ operator # rs) (Binary loc b l r)"
| derives_unary:
    "unary_of_token (tok_kind operator) = Some u \<Longrightarrow> derives s 7 ts n
     \<Longrightarrow> derives s 7 (operator # ts) (Unary loc u n)"
| derives_paren:
    "tok_kind l = TOKEN_LEFT_PAREN \<Longrightarrow> derives s 0 ts n \<Longrightarrow> tok_kind r = TOKEN_RIGHT_PAREN
     \<Longrightarrow> derives s 8 (l # ts @ [r]) (set_node_range i j n)"
| derives_literal: "denotes_literal s t l \<Longrightarrow> derives s 8 [t] (Literal loc l)"
| derives_reference:
    "tok_kind t = TOKEN_IDENTIFIER \<Longrightarrow> CHR ''.'' \<in> set (token_text s t)
     \<Longrightarrow> derives s 8 [t] (Reference loc (token_text s t))"
| derives_list_empty:
    "tok_kind l = TOKEN_LEFT_BRACKET \<Longrightarrow> tok_kind r = TOKEN_RIGHT_BRACKET
     \<Longrightarrow> derives s 8 [l, r] (List_Node loc [])"
| derives_list:
    "tok_kind l = TOKEN_LEFT_BRACKET \<Longrightarrow> derives_items s ts items
     \<Longrightarrow> tok_kind r = TOKEN_RIGHT_BRACKET \<Longrightarrow> derives s 8 (l # ts @ [r]) (List_Node loc items)"
| derives_call_empty:
    "tok_kind f = TOKEN_IDENTIFIER \<Longrightarrow> tok_kind l = TOKEN_LEFT_PAREN
     \<Longrightarrow> tok_kind r = TOKEN_RIGHT_PAREN \<Longrightarrow> derives s 8 [f, l, r] (Call loc (token_text s f) [])"
| derives_call:
    "tok_kind f = TOKEN_IDENTIFIER \<Longrightarrow> tok_kind l = TOKEN_LEFT_PAREN
     \<Longrightarrow> derives_items s ts items \<Longrightarrow> tok_kind r = TOKEN_RIGHT_PAREN
     \<Longrightarrow> derives s 8 (f # l # ts @ [r]) (Call loc (token_text s f) items)"
| items_one: "derives s 0 ts n \<Longrightarrow> derives_items s ts [n]"
| items_more:
    "derives s 0 ts n \<Longrightarrow> tok_kind c = TOKEN_COMMA \<Longrightarrow> derives_items s us ns
     \<Longrightarrow> derives_items s (ts @ c # us) (n # ns)"

lemma derives_down: "derives s m ts n \<Longrightarrow> k \<le> m \<Longrightarrow> m \<le> 8 \<Longrightarrow> derives s k ts n"
proof (induction "m - k" arbitrary: k)
  case (Suc d)
  have "derives s (Suc k) ts n"
    using Suc.hyps(1) [of "Suc k"] Suc.hyps(2) Suc.prems by simp
  then show ?case by (rule derives_up) (use Suc.hyps(2) Suc.prems in simp)
qed auto

end
