(* ===== verification/Lexer_Correct.thy ===== *)
theory Lexer_Correct
  imports Lexer
begin

text \<open>
  Facts about the lexer: every successful call returns a token that lies in the text, after
  the lexer's offset and separated from it by blanks only; the offset moves strictly forward
  until the end of the text; at most \<open>max_tokens\<close> calls succeed; the token's text has the
  shape its kind says. The interface the parser uses is the locale \<open>token_source\<close>.
\<close>

section \<open>The interface of a token source\<close>

text \<open>
  What a parser may assume of \<open>next\<close>: in a good state a token covers a nonempty range past the
  position, unless it is the end token; the budget of calls shrinks by one with each call.
\<close>

locale token_source =
  fixes next_tok :: "'l \<Rightarrow> 'e + token \<times> 'l"
    and good :: "'l \<Rightarrow> bool"
    and pos :: "'l \<Rightarrow> nat"
    and size_of :: "'l \<Rightarrow> nat"
    and budget :: "'l \<Rightarrow> nat"
  assumes good_next: "good l \<Longrightarrow> next_tok l = Inr (t, l') \<Longrightarrow> good l'"
    and size_next: "good l \<Longrightarrow> next_tok l = Inr (t, l') \<Longrightarrow> size_of l' = size_of l"
    and budget_next: "good l \<Longrightarrow> next_tok l = Inr (t, l') \<Longrightarrow> Suc (budget l') = budget l"
    and start_next: "good l \<Longrightarrow> next_tok l = Inr (t, l') \<Longrightarrow> pos l \<le> tok_start t"
    and real_next: "good l \<Longrightarrow> next_tok l = Inr (t, l') \<Longrightarrow> tok_kind t \<noteq> TOKEN_EOF
        \<Longrightarrow> tok_start t < tok_end t \<and> tok_end t \<le> size_of l \<and> pos l' = tok_end t"
    and eof_next: "good l \<Longrightarrow> next_tok l = Inr (t, l') \<Longrightarrow> tok_kind t = TOKEN_EOF
        \<Longrightarrow> tok_start t = size_of l \<and> pos l' = size_of l"

text \<open>The tokens a source delivers, one call after the other.\<close>

inductive delivers :: "('l \<Rightarrow> 'e + token \<times> 'l) \<Rightarrow> 'l \<Rightarrow> token list \<Rightarrow> 'l \<Rightarrow> bool"
  for next_tok :: "'l \<Rightarrow> 'e + token \<times> 'l" where
  delivers_none: "delivers next_tok l [] l"
| delivers_more: "next_tok l = Inr (t, l') \<Longrightarrow> delivers next_tok l' ts l''
    \<Longrightarrow> delivers next_tok l (t # ts) l''"

inductive_cases delivers_NilE: "delivers next_tok l [] l'"
inductive_cases delivers_ConsE: "delivers next_tok l (t # ts) l'"

context token_source
begin

lemma pos_next: "good l \<Longrightarrow> next_tok l = Inr (t, l') \<Longrightarrow> pos l \<le> pos l'"
  using start_next [of l t l'] real_next [of l t l'] eof_next [of l t l']
  by (cases "tok_kind t = TOKEN_EOF") auto

lemma pos_bound: "good l \<Longrightarrow> next_tok l = Inr (t, l') \<Longrightarrow> pos l' \<le> size_of l'"
  using real_next [of l t l'] eof_next [of l t l'] size_next [of l t l']
  by (cases "tok_kind t = TOKEN_EOF") auto

lemma delivers_good: "delivers next_tok l ts l' \<Longrightarrow> good l \<Longrightarrow> good l'"
  by (induction rule: delivers.induct) (auto dest: good_next)

lemma delivers_size: "delivers next_tok l ts l' \<Longrightarrow> good l \<Longrightarrow> size_of l' = size_of l"
proof (induction rule: delivers.induct)
  case (delivers_more l t l' ts l'')
  with good_next [OF delivers_more.prems delivers_more.hyps(1)]
    size_next [OF delivers_more.prems delivers_more.hyps(1)] show ?case by simp
qed simp

lemma delivers_pos: "delivers next_tok l ts l' \<Longrightarrow> good l \<Longrightarrow> pos l \<le> pos l'"
proof (induction rule: delivers.induct)
  case (delivers_more l t l' ts l'')
  with good_next [OF delivers_more.prems delivers_more.hyps(1)]
    pos_next [OF delivers_more.prems delivers_more.hyps(1)] show ?case by simp
qed simp

lemma delivers_budget:
  "delivers next_tok l ts l' \<Longrightarrow> good l \<Longrightarrow> budget l = length ts + budget l'"
proof (induction rule: delivers.induct)
  case (delivers_more l t l' ts l'')
  with good_next [OF delivers_more.prems delivers_more.hyps(1)]
    budget_next [OF delivers_more.prems delivers_more.hyps(1)] show ?case by simp
qed simp

text \<open>Tokens come out in text order, without overlap.\<close>

lemma delivers_ordered:
  assumes "delivers next_tok l ts l'" "good l" "\<forall>t \<in> set ts. tok_kind t \<noteq> TOKEN_EOF"
  shows "(\<forall>t \<in> set ts. pos l \<le> tok_start t \<and> tok_start t < tok_end t \<and> tok_end t \<le> size_of l)
    \<and> sorted_wrt (\<lambda>t u. tok_end t \<le> tok_start u) ts"
  using assms
proof (induction rule: delivers.induct)
  case (delivers_more l t l' ts l'')
  have g: "good l'" and p: "pos l' = tok_end t" and s: "size_of l' = size_of l"
    and st: "pos l \<le> tok_start t" "tok_start t < tok_end t" "tok_end t \<le> size_of l"
    using delivers_more.hyps(1) delivers_more.prems
    by (auto dest: good_next size_next start_next real_next)
  from delivers_more.IH [OF g] delivers_more.prems(2)
  have IH: "(\<forall>u \<in> set ts. pos l' \<le> tok_start u \<and> tok_start u < tok_end u \<and> tok_end u \<le> size_of l')
    \<and> sorted_wrt (\<lambda>t u. tok_end t \<le> tok_start u) ts" by simp
  with st p s show ?case by (auto intro: le_trans less_imp_le_nat)
qed simp

end

section \<open>The cursors stay in the text\<close>

lemma not_NUL_classes [simp]:
  "\<not> confit_v2_is_space NUL" "\<not> confit_v2_is_lower_alpha NUL" "\<not> confit_v2_is_digit NUL"
  "\<not> confit_v2_is_identifier_tail NUL" "\<not> confit_v2_is_hex NUL" "confit_v2_hex_value NUL = None"
  by (simp_all add: confit_v2_is_space_def confit_v2_is_lower_alpha_def confit_v2_is_digit_def
      confit_v2_is_identifier_tail_def confit_v2_is_hex_def confit_v2_hex_value_def byte_def)

lemma in_text: "P (char_at s i) \<Longrightarrow> \<not> P NUL \<Longrightarrow> i < length s"
  by (cases "i < length s") simp_all

lemma scan_past:
  assumes "P (char_at s i)" "\<not> P NUL"
  shows "i < scan_while P s i" "scan_while P s i \<le> length s"
proof -
  have i: "i < length s" using assms by (rule in_text [where P = P])
  have "scan_while P s i = scan_while P s (Suc i)"
    using assms scan_while_step [where P = P and s = s and i = i] by simp
  then show "i < scan_while P s i" using scan_while_ge [of "Suc i" P s] by simp
  show "scan_while P s i \<le> length s" using i by (simp add: scan_while_le)
qed

lemma lex_string_close_step:
  "lex_string_close s i = Some j \<Longrightarrow> i < length s
    \<and> (s ! i = CHR 0x22 \<and> j = i
       \<or> s ! i \<noteq> CHR 0x22 \<and> (\<exists>k. k \<in> {1, 2, 6} \<and> lex_string_close s (i + k) = Some j))"
proof -
  assume r: "lex_string_close s i = Some j"
  have "char_at s i \<noteq> NUL" using r lex_string_close.simps [of s i] by (auto simp: Let_def)
  then have "i < length s" by (rule char_at_not_NUL)
  with r lex_string_close.simps [of s i] show ?thesis
    by (auto simp: Let_def split: if_splits)
qed

lemma lex_string_close_bound:
  "lex_string_close s i = Some j \<Longrightarrow> i \<le> j \<and> j < length s \<and> s ! j = CHR 0x22"
proof (induction "length s - i" arbitrary: i rule: less_induct)
  case less
  from lex_string_close_step [OF less.prems]
  consider "s ! i = CHR 0x22" "j = i" "i < length s"
    | k where "0 < k" "lex_string_close s (i + k) = Some j" "i < length s"
    by (metis insertE singletonD zero_less_one zero_less_numeral)
  then show ?case
  proof cases
    case 2
    then have "length s - (i + k) < length s - i" by simp
    from less.hyps [OF this 2(2)] show ?thesis by simp
  qed simp
qed

lemma lex_segments_bound:
  "lex_segments s i = Inr j \<Longrightarrow> i \<le> length s \<Longrightarrow> i \<le> j \<and> j \<le> length s"
proof (induction s i rule: lex_segments.induct)
  case (1 s cursor)
  let ?next = "scan_while confit_v2_is_identifier_tail s (cursor + 2)"
  show ?case
  proof (cases "char_at s cursor = CHR ''.'' \<and> confit_v2_is_lower_alpha (char_at s (cursor + 1))")
    case True
    then have "cursor + 1 < length s" using in_text [of confit_v2_is_lower_alpha] by auto
    then have "cursor + 2 \<le> ?next" "?next \<le> length s"
      by (auto intro!: scan_while_ge scan_while_le)
    with "1.IH" True "1.prems" show ?thesis
      by (auto simp: lex_segments.simps [of s cursor])
  next
    case False
    with "1.prems" show ?thesis
      by (subst (asm) lex_segments.simps) (auto split: if_splits)
  qed
qed

lemma lex_fraction_bound:
  "lex_fraction s i = Some (j, f) \<Longrightarrow> i \<le> length s \<Longrightarrow> i \<le> j \<and> j \<le> length s"
  using scan_past [of confit_v2_is_digit s "i + 1"]
  by (fastforce simp: lex_fraction_def split: if_splits)

lemma lex_exponent_bound:
  "lex_exponent s i = Some (j, f) \<Longrightarrow> i \<le> length s \<Longrightarrow> i \<le> j \<and> j \<le> length s"
  using scan_past [of confit_v2_is_digit s "i + 1"] scan_past [of confit_v2_is_digit s "i + 2"]
  by (fastforce simp: lex_exponent_def Let_def split: if_splits)

lemma lex_number_end_bound:
  assumes "lex_number_end s i = Some (k, j)" "confit_v2_is_digit (char_at s i)"
  shows "i < j \<and> j \<le> length s \<and> k \<noteq> TOKEN_EOF"
proof -
  have d: "i < scan_while confit_v2_is_digit s i" "scan_while confit_v2_is_digit s i \<le> length s"
    using scan_past [of confit_v2_is_digit s i] assms(2) by auto
  have h: "confit_v2_is_hex (char_at s (i + 2)) \<Longrightarrow> i + 2 < scan_while confit_v2_is_hex s (i + 2)
      \<and> scan_while confit_v2_is_hex s (i + 2) \<le> length s"
    using scan_past [of confit_v2_is_hex s "i + 2"] by auto
  from assms(1) d h show ?thesis
    by (fastforce simp: lex_number_end_def dest: lex_fraction_bound lex_exponent_bound
        split: if_splits option.splits)
qed

lemma lex_operator_width:
  "lex_operator c d = Some (k, w) \<Longrightarrow> k \<noteq> TOKEN_EOF \<and> (w = 1 \<or> w = 2 \<and> d \<noteq> NUL)"
  by (auto simp: lex_operator_def split: if_splits)

lemma identifier_kind_not_EOF: "identifier_kind s i j \<noteq> TOKEN_EOF"
  by (simp add: identifier_kind_def)

section \<open>One call of the lexer\<close>

lemmas lexer_ops =
  confit_v2_lex_identifier_def confit_v2_lex_number_def confit_v2_lex_string_def make_token_def

lemma lex_identifier_progress:
  assumes "confit_v2_lex_identifier lx s = Inr (t, lx')"
    and "confit_v2_is_lower_alpha (char_at s (lex_offset lx))"
  shows "lex_offset lx < tok_end t \<and> tok_end t \<le> length s \<and> tok_start t = lex_offset lx
    \<and> lx' = lx\<lparr>lex_offset := tok_end t\<rparr> \<and> tok_kind t \<noteq> TOKEN_EOF"
proof -
  let ?i = "lex_offset lx" let ?c = "scan_while confit_v2_is_identifier_tail s ?i"
  have "confit_v2_is_identifier_tail (char_at s ?i)"
    using assms(2) by (simp add: confit_v2_is_identifier_tail_def)
  then have c: "?i < ?c" "?c \<le> length s"
    using scan_past [of confit_v2_is_identifier_tail s ?i] by auto
  with assms(1) show ?thesis
    by (auto simp: lexer_ops Let_def identifier_kind_not_EOF split: sum.splits
        dest!: lex_segments_bound)
qed

lemma lex_number_progress:
  assumes "confit_v2_lex_number lx s = Inr (t, lx')" and "confit_v2_is_digit (char_at s (lex_offset lx))"
  shows "lex_offset lx < tok_end t \<and> tok_end t \<le> length s \<and> tok_start t = lex_offset lx
    \<and> lx' = lx\<lparr>lex_offset := tok_end t\<rparr> \<and> tok_kind t \<noteq> TOKEN_EOF"
  using assms by (auto simp: lexer_ops Let_def split: option.splits dest!: lex_number_end_bound)

lemma lex_string_progress:
  assumes "confit_v2_lex_string lx s = Inr (t, lx')"
  shows "lex_offset lx < tok_end t \<and> tok_end t \<le> length s \<and> tok_start t = lex_offset lx
    \<and> lx' = lx\<lparr>lex_offset := tok_end t\<rparr> \<and> tok_kind t \<noteq> TOKEN_EOF"
  using assms by (auto simp: lexer_ops Let_def split: option.splits dest!: lex_string_close_bound)

text \<open>
  The state after the blanks were skipped and the call was counted, and the body of the
  switch on it.
\<close>

definition lexer_counted :: "lexer \<Rightarrow> string \<Rightarrow> lexer" where
  "lexer_counted lx s = lx\<lparr>lex_offset := scan_while confit_v2_is_space s (lex_offset lx),
                           lex_token_count := lex_token_count lx + 1\<rparr>"

lemma lexer_next_cases:
  assumes "confit_v2_expression_lexer_next lx0 = Inr (t, lx')" "expr_text (lex_source lx0) = Some s"
  defines "lx \<equiv> lexer_counted lx0 s"
  defines "c \<equiv> char_at s (lex_offset lx)"
  shows "lex_token_count lx0 < lex_max_tokens lx0 \<and>
     (c = NUL \<and> t = make_token TOKEN_EOF (lex_offset lx) (lex_offset lx + 1) \<and> lx' = lx
    \<or> confit_v2_is_lower_alpha c \<and> confit_v2_lex_identifier lx s = Inr (t, lx')
    \<or> confit_v2_is_digit c \<and> confit_v2_lex_number lx s = Inr (t, lx')
    \<or> c = CHR 0x22 \<and> confit_v2_lex_string lx s = Inr (t, lx')
    \<or> (\<exists>k w. c \<noteq> NUL \<and> lex_operator c (char_at s (lex_offset lx + 1)) = Some (k, w)
        \<and> t = make_token k (lex_offset lx) (lex_offset lx + w)
        \<and> lx' = lx\<lparr>lex_offset := lex_offset lx + w\<rparr>))"
  using assms(1,2) unfolding lx_def c_def lexer_counted_def confit_v2_expression_lexer_next_def
  by (auto simp: Let_def split: if_splits option.splits)

lemma lexer_next_progress:
  assumes r: "confit_v2_expression_lexer_next lx = Inr (t, lx')"
    and s: "expr_text (lex_source lx) = Some s" "lex_offset lx \<le> length s"
    and c: "is_cstring s"
  shows "lex_token_count lx < lex_max_tokens lx
    \<and> lex_source lx' = lex_source lx \<and> lex_max_tokens lx' = lex_max_tokens lx
    \<and> lex_token_count lx' = Suc (lex_token_count lx)
    \<and> tok_start t = scan_while confit_v2_is_space s (lex_offset lx)
    \<and> (if tok_kind t = TOKEN_EOF then tok_start t = length s \<and> lex_offset lx' = length s
       else tok_start t < tok_end t \<and> tok_end t \<le> length s \<and> lex_offset lx' = tok_end t)"
proof -
  let ?o = "scan_while confit_v2_is_space s (lex_offset lx)"
  have ol: "?o \<le> length s" using s(2) by (simp add: scan_while_le)
  have eof: "char_at s ?o = NUL \<Longrightarrow> ?o = length s" using ol char_at_NUL_iff [OF c] by fastforce
  have op: "char_at s ?o \<noteq> NUL \<Longrightarrow> Suc ?o \<le> length s"
    "char_at s (Suc ?o) \<noteq> NUL \<Longrightarrow> Suc (Suc ?o) \<le> length s"
    using char_at_not_NUL [of s ?o] char_at_not_NUL [of s "Suc ?o"] by auto
  from lexer_next_cases [OF r s(1)] show ?thesis
    by (auto simp: make_token_def lexer_counted_def intro: op dest: eof
        dest!: lex_operator_width lex_identifier_progress lex_number_progress lex_string_progress)
qed

section \<open>The lexer is a token source\<close>

definition lexer_good :: "lexer \<Rightarrow> bool" where
  "lexer_good lx \<longleftrightarrow>
     (case expr_text (lex_source lx) of None \<Rightarrow> False
      | Some s \<Rightarrow> lex_offset lx \<le> length s \<and> is_cstring s)"

definition lexer_size :: "lexer \<Rightarrow> nat" where
  "lexer_size lx = (case expr_text (lex_source lx) of None \<Rightarrow> 0 | Some s \<Rightarrow> length s)"

definition lexer_budget :: "lexer \<Rightarrow> nat" where
  "lexer_budget lx = lex_max_tokens lx - lex_token_count lx"

lemma lexer_goodE:
  assumes "lexer_good lx"
  obtains s where "expr_text (lex_source lx) = Some s" "lex_offset lx \<le> length s" "is_cstring s"
    "lexer_size lx = length s"
  using assms by (auto simp: lexer_good_def lexer_size_def split: option.splits)

lemma lexer_good_next:
  assumes "lexer_good lx" "confit_v2_expression_lexer_next lx = Inr (t, lx')"
  shows "lexer_good lx' \<and> lexer_size lx' = lexer_size lx \<and> Suc (lexer_budget lx') = lexer_budget lx
    \<and> lex_offset lx \<le> tok_start t
    \<and> (if tok_kind t = TOKEN_EOF then tok_start t = lexer_size lx \<and> lex_offset lx' = lexer_size lx
       else tok_start t < tok_end t \<and> tok_end t \<le> lexer_size lx \<and> lex_offset lx' = tok_end t)"
proof -
  from assms(1) obtain s where s: "expr_text (lex_source lx) = Some s" "lex_offset lx \<le> length s"
    "is_cstring s" "lexer_size lx = length s" by (rule lexer_goodE)
  from lexer_next_progress [OF assms(2) s(1,2,3)] s show ?thesis
    by (auto simp: lexer_good_def lexer_size_def lexer_budget_def scan_while_ge split: if_splits)
qed

interpretation expression_lexer: token_source confit_v2_expression_lexer_next lexer_good
  lex_offset lexer_size lexer_budget
  by unfold_locales (auto dest: lexer_good_next split: if_splits)

lemma lexer_init_good [simp]:
  "expr_text source = Some s \<Longrightarrow> is_cstring s \<Longrightarrow>
     lexer_good (confit_v2_expression_lexer_init source n)"
  "expr_text source = Some s \<Longrightarrow> lexer_size (confit_v2_expression_lexer_init source n) = length s"
  "lexer_budget (confit_v2_expression_lexer_init source n) = n"
  by (simp_all add: lexer_good_def lexer_size_def lexer_budget_def
      confit_v2_expression_lexer_init_def)



section \<open>Properties\<close>

text \<open>A sample source text, for the concrete instances of the theorems.\<close>

definition sample_text :: "string \<Rightarrow> expression_text" where
  "sample_text s = \<lparr>expr_text = Some s, expr_span = \<lparr>span_path = None, span_line = 1,
     span_column = 1, span_local_offset = 0\<rparr>\<rparr>"

text \<open>C31. The tokens that successive calls of the lexer return before the end-of-file token lie in the
  text, are nonempty, come in text order without overlap, and never number more than the token limit;
  that no token of the run is the end-of-file token, which covers the terminating NUL, is a hypothesis.\<close>

theorem lexer_tokens_in_order:
  assumes "expr_text source = Some s" and "is_cstring s"
    and "delivers confit_v2_expression_lexer_next (confit_v2_expression_lexer_init source limit) ts lx"
    and "\<forall>t \<in> set ts. tok_kind t \<noteq> TOKEN_EOF"
  shows "(\<forall>t \<in> set ts. tok_start t < tok_end t \<and> tok_end t \<le> length s)
    \<and> sorted_wrt (\<lambda>t u. tok_end t \<le> tok_start u) ts \<and> length ts \<le> limit"
  using expression_lexer.delivers_ordered [OF assms(3) _ assms(4)]
    expression_lexer.delivers_budget [OF assms(3)] assms(1,2) by simp

lemma lexer_tokens_in_order_witness:
  "\<exists>ts lx. length ts = 2
     \<and> delivers confit_v2_expression_lexer_next (confit_v2_expression_lexer_init (sample_text '' a.b<'') 5) ts lx
     \<and> sorted_wrt (\<lambda>t u. tok_end t \<le> tok_start u) ts \<and> length ts \<le> 5"
proof -
  let ?l0 = "confit_v2_expression_lexer_init (sample_text '' a.b<'') 5"
  let ?ts = "[make_token TOKEN_IDENTIFIER 1 4, make_token TOKEN_LESS 4 5]"
  let ?l1 = "?l0\<lparr>lex_offset := 4, lex_token_count := 1\<rparr>"
  let ?l2 = "?l0\<lparr>lex_offset := 5, lex_token_count := 2\<rparr>"
  have "confit_v2_expression_lexer_next ?l0 = Inr (make_token TOKEN_IDENTIFIER 1 4, ?l1)" by code_simp
  moreover have "confit_v2_expression_lexer_next ?l1 = Inr (make_token TOKEN_LESS 4 5, ?l2)" by code_simp
  ultimately have d: "delivers confit_v2_expression_lexer_next ?l0 ?ts ?l2"
    by (meson delivers_more delivers_none)
  moreover have "\<forall>t \<in> set ?ts. tok_kind t \<noteq> TOKEN_EOF" by (simp add: make_token_def)
  moreover have "expr_text (sample_text '' a.b<'') = Some '' a.b<''" by (simp add: sample_text_def)
  moreover have "is_cstring '' a.b<''" by code_simp
  ultimately have "sorted_wrt (\<lambda>t u. tok_end t \<le> tok_start u) ?ts \<and> length ?ts \<le> 5"
    using lexer_tokens_in_order [of "sample_text '' a.b<''" "'' a.b<''" 5 ?ts ?l2] by blast
  with d show ?thesis by (intro exI [of _ ?ts] exI [of _ ?l2]) simp
qed

end
