(* ===== verification/Token_Shape.thy ===== *)
theory Token_Shape
  imports Lexer_Correct
begin

text \<open>
  What the text of a token looks like, kind by kind, as an independent description of the
  lexical grammar (\<open>docs/expression-v2.md\<close>), and the proof that the lexer only returns such
  tokens; then the decoding of a string literal, whose buffer of the token's size is never
  exceeded, and the well-formedness of the UTF-8 it writes.
\<close>

section \<open>The shape of a token\<close>

lemma slice_append: "i \<le> j \<Longrightarrow> j \<le> k \<Longrightarrow> slice s i k = slice s i j @ slice s j k"
proof -
  assume "i \<le> j" "j \<le> k"
  then have k: "k - i = (j - i) + (k - j)" and d: "drop (j - i) (drop i s) = drop j s" by simp_all
  show ?thesis unfolding slice_def k take_add d ..
qed

lemma slice_Cons: "i < j \<Longrightarrow> i < length s \<Longrightarrow> slice s i j = s ! i # slice s (Suc i) j"
  by (simp add: slice_def Cons_nth_drop_Suc [symmetric] take_Cons' )

lemma slice_empty [simp]: "j \<le> i \<Longrightarrow> slice s i j = []"
  by (simp add: slice_def)

lemma slice_scan_while: "slice s i (scan_while P s i) = takeWhile P (drop i s)"
  by (simp add: slice_def scan_while_def takeWhile_eq_take [symmetric])

lemma set_slice_scan_while: "c \<in> set (slice s i (scan_while P s i)) \<Longrightarrow> P c"
  by (auto simp: slice_scan_while dest: set_takeWhileD)

fun identifier_rest :: "string \<Rightarrow> bool" where
  "identifier_rest [] \<longleftrightarrow> True"
| "identifier_rest (c # cs) \<longleftrightarrow>
     (if c = CHR ''.'' then cs \<noteq> [] \<and> confit_v2_is_lower_alpha (hd cs) \<and> identifier_rest (tl cs)
      else confit_v2_is_identifier_tail c \<and> identifier_rest cs)"

definition identifier_shape :: "string \<Rightarrow> bool" where
  "identifier_shape u \<longleftrightarrow> u \<noteq> [] \<and> confit_v2_is_lower_alpha (hd u) \<and> identifier_rest (tl u)"

definition digits :: "string \<Rightarrow> bool" where
  "digits u \<longleftrightarrow> u \<noteq> [] \<and> list_all confit_v2_is_digit u"

definition hex_shape :: "string \<Rightarrow> bool" where
  "hex_shape u \<longleftrightarrow> 2 < length u \<and> u ! 0 = CHR ''0'' \<and> u ! 1 \<in> {CHR ''x'', CHR ''X''}
     \<and> list_all confit_v2_is_hex (drop 2 u)"

definition float_shape :: "string \<Rightarrow> bool" where
  "float_shape u \<longleftrightarrow> (\<exists>whole fraction exponent. u = whole @ fraction @ exponent \<and> digits whole
     \<and> (fraction = [] \<or> (\<exists>d. fraction = CHR ''.'' # d \<and> digits d))
     \<and> (exponent = [] \<or> (\<exists>e sign d. exponent = e # sign @ d \<and> e \<in> {CHR ''e'', CHR ''E''}
          \<and> sign \<in> {[], ''+'', ''-''} \<and> digits d))
     \<and> (fraction \<noteq> [] \<or> exponent \<noteq> []))"

fun string_body :: "string \<Rightarrow> bool" where
  "string_body [] \<longleftrightarrow> True"
| "string_body (c # cs) \<longleftrightarrow>
     c \<noteq> CHR 0x22 \<and> 0x20 \<le> byte c \<and>
     (if c = CHR 0x5C then
        (case cs of
           [] \<Rightarrow> False
         | e # ds \<Rightarrow>
             e \<in> set simple_escapes \<and>
             (if e = CHR ''u'' then 4 \<le> length ds \<and> list_all confit_v2_is_hex (take 4 ds)
                \<and> string_body (drop 4 ds)
              else string_body ds))
      else string_body cs)"

definition operator_text :: "token_kind \<Rightarrow> string" where
  "operator_text k = (case k of
     TOKEN_LEFT_PAREN \<Rightarrow> ''('' | TOKEN_RIGHT_PAREN \<Rightarrow> '')'' | TOKEN_LEFT_BRACKET \<Rightarrow> ''[''
   | TOKEN_RIGHT_BRACKET \<Rightarrow> '']'' | TOKEN_COMMA \<Rightarrow> '','' | TOKEN_QUESTION \<Rightarrow> ''?''
   | TOKEN_COLON \<Rightarrow> '':'' | TOKEN_NOT \<Rightarrow> ''!'' | TOKEN_OR \<Rightarrow> ''||'' | TOKEN_AND \<Rightarrow> ''&&''
   | TOKEN_EQUAL \<Rightarrow> ''=='' | TOKEN_NOT_EQUAL \<Rightarrow> ''!='' | TOKEN_LESS \<Rightarrow> ''<''
   | TOKEN_LESS_EQUAL \<Rightarrow> ''<='' | TOKEN_GREATER \<Rightarrow> ''>'' | TOKEN_GREATER_EQUAL \<Rightarrow> ''>=''
   | TOKEN_IN \<Rightarrow> ''in'' | TOKEN_PLUS \<Rightarrow> ''+'' | TOKEN_MINUS \<Rightarrow> ''-'' | TOKEN_STAR \<Rightarrow> ''*''
   | TOKEN_SLASH \<Rightarrow> ''/'' | TOKEN_PERCENT \<Rightarrow> ''%'' | TOKEN_TRUE \<Rightarrow> ''true''
   | TOKEN_FALSE \<Rightarrow> ''false'' | _ \<Rightarrow> '''')"

definition token_shape :: "token_kind \<Rightarrow> string \<Rightarrow> bool" where
  "token_shape k u \<longleftrightarrow> (case k of
     TOKEN_EOF \<Rightarrow> u = []
   | TOKEN_IDENTIFIER \<Rightarrow> identifier_shape u
       \<and> u \<notin> {''true'', ''false'', ''n'', ''m'', ''y'', ''in''}
   | TOKEN_TRISTATE \<Rightarrow> u \<in> {''n'', ''m'', ''y''}
   | TOKEN_INTEGER \<Rightarrow> digits u
   | TOKEN_HEX \<Rightarrow> hex_shape u
   | TOKEN_FLOAT \<Rightarrow> float_shape u
   | TOKEN_STRING \<Rightarrow> (\<exists>body. u = CHR 0x22 # body @ [CHR 0x22] \<and> string_body body)
   | _ \<Rightarrow> u = operator_text k)"


section \<open>Every token has its shape\<close>

lemma identifier_rest_append:
  "list_all confit_v2_is_identifier_tail xs \<Longrightarrow> identifier_rest (xs @ ys) = identifier_rest ys"
proof (induction xs)
  case (Cons x xs)
  have "\<not> confit_v2_is_identifier_tail CHR ''.''"
    by (simp add: confit_v2_is_identifier_tail_def confit_v2_is_lower_alpha_def
        confit_v2_is_digit_def byte_def)
  with Cons show ?case by auto
qed simp

lemma list_all_scan_while: "list_all P (slice s i (scan_while P s i))"
  by (simp add: list_all_iff set_slice_scan_while)

lemma lex_segments_shape:
  "lex_segments s i = Inr j \<Longrightarrow> i \<le> length s \<Longrightarrow> identifier_rest (slice s i j)"
proof (induction s i rule: lex_segments.induct)
  case (1 s i)
  let ?P = confit_v2_is_identifier_tail
  let ?next = "scan_while ?P s (i + 2)"
  show ?case
  proof (cases "char_at s i = CHR ''.'' \<and> confit_v2_is_lower_alpha (char_at s (i + 1))")
    case True
    then have i: "i + 1 < length s" using in_text [of confit_v2_is_lower_alpha] by auto
    then have n: "i + 2 \<le> ?next" "?next \<le> length s" by (auto intro!: scan_while_ge scan_while_le)
    have r: "lex_segments s ?next = Inr j"
      using "1.prems"(1) True by (simp add: lex_segments.simps [of s i])
    have j: "?next \<le> j" using lex_segments_bound [OF r n(2)] by simp
    have rest: "identifier_rest (slice s ?next j)" using "1.IH" True r n(2) by simp
    have "slice s i j = CHR ''.'' # s ! (i + 1) # slice s (i + 2) j"
      using i n j True by (simp add: slice_Cons)
    also have "slice s (i + 2) j = slice s (i + 2) ?next @ slice s ?next j"
      using n(1) j by (rule slice_append)
    finally have "slice s i j = CHR ''.'' # s ! (i + 1) # slice s (i + 2) ?next @ slice s ?next j" .
    with rest True i show ?thesis
      by (simp add: identifier_rest_append list_all_scan_while)
  next
    case False
    with "1.prems" lex_segments.simps [of s i] have "j = i" by (auto split: if_splits)
    then show ?thesis by simp
  qed
qed

lemma lex_identifier_shape:
  assumes "confit_v2_lex_identifier lx s = Inr (t, lx')"
    and "confit_v2_is_lower_alpha (char_at s (lex_offset lx))"
  shows "token_shape (tok_kind t) (slice s (tok_start t) (tok_end t))"
proof -
  let ?P = confit_v2_is_identifier_tail
  let ?i = "lex_offset lx" let ?c = "scan_while ?P s ?i"
  have il: "?i < length s" using assms(2) in_text [of confit_v2_is_lower_alpha] by simp
  have P: "?P (char_at s ?i)" using assms(2) by (simp add: confit_v2_is_identifier_tail_def)
  have c: "?i < ?c" "?c \<le> length s" using scan_past [of ?P s ?i] P by auto
  from assms(1) obtain j where j: "lex_segments s ?c = Inr j"
    and t: "t = make_token (identifier_kind s ?i j) ?i j"
    by (auto simp: confit_v2_lex_identifier_def Let_def split: sum.splits)
  have cj: "?c \<le> j" using lex_segments_bound [OF j c(2)] by simp
  have "slice s ?i j = slice s ?i ?c @ slice s ?c j" using less_imp_le [OF c(1)] cj by (rule slice_append)
  moreover have u: "slice s ?i j = s ! ?i # slice s (Suc ?i) j" using il c cj by (simp add: slice_Cons)
  moreover have sc: "slice s ?i ?c = s ! ?i # slice s (Suc ?i) ?c"
    using il c by (simp add: slice_Cons)
  moreover have "list_all ?P (slice s (Suc ?i) ?c)"
    using list_all_scan_while [of ?P s ?i] sc by simp
  ultimately have "identifier_shape (slice s ?i j)"
    using assms(2) il lex_segments_shape [OF j c(2)]
    by (simp add: identifier_shape_def identifier_rest_append)
  moreover have "confit_v2_token_matches s ?i j e \<longleftrightarrow> slice s ?i j = e" for e
    using lex_segments_bound [OF j c(2)] il
    by (auto simp: confit_v2_token_matches_def slice_def)
  ultimately show ?thesis
    by (auto simp: t make_token_def token_shape_def identifier_kind_def operator_text_def)
qed

lemma digits_scan: "confit_v2_is_digit (char_at s i) \<Longrightarrow>
    digits (slice s i (scan_while confit_v2_is_digit s i))"
  using scan_past [of confit_v2_is_digit s i] slice_Cons [of i "scan_while confit_v2_is_digit s i" s]
    list_all_scan_while [of confit_v2_is_digit s i]
  by (auto simp: digits_def)

lemma lex_fraction_shape:
  assumes "lex_fraction s i = Some (j, f)" "i \<le> length s"
  shows "if f then i < j \<and> (\<exists>d. slice s i j = CHR ''.'' # d \<and> digits d) else j = i"
proof (cases "char_at s i = CHR ''.''")
  case True
  then have i: "i < length s" by (intro char_at_not_NUL) simp
  with True assms have "f" and d: "confit_v2_is_digit (char_at s (i + 1))"
    and j: "j = scan_while confit_v2_is_digit s (i + 1)"
    by (auto simp: lex_fraction_def split: if_splits)
  from digits_scan [OF d] scan_while_ge [of "i + 1" confit_v2_is_digit s] i True j \<open>f\<close>
  show ?thesis by (simp add: slice_Cons)
next
  case False
  with assms show ?thesis by (auto simp: lex_fraction_def)
qed

lemma lex_exponent_shape:
  assumes "lex_exponent s i = Some (j, f)" "i \<le> length s"
  shows "if f then i < j \<and> (\<exists>e sign d. slice s i j = e # sign @ d \<and> e \<in> {CHR ''e'', CHR ''E''}
          \<and> sign \<in> {[], ''+'', ''-''} \<and> digits d) else j = i"
proof (cases "char_at s i = CHR ''e'' \<or> char_at s i = CHR ''E''")
  case True
  then have i: "i < length s" by (intro char_at_not_NUL) auto
  let ?signed = "char_at s (i + 1) = CHR ''+'' \<or> char_at s (i + 1) = CHR ''-''"
  define k where "k = (if ?signed then i + 2 else i + 1)"
  from True assms have f: f and d: "confit_v2_is_digit (char_at s k)"
    and j: "j = scan_while confit_v2_is_digit s k"
    by (auto simp: lex_exponent_def k_def Let_def split: if_splits)
  have k: "k < length s" using d in_text [of confit_v2_is_digit] by simp
  have kj: "k \<le> j" using scan_while_ge j by simp
  have ik: "i + 1 \<le> k" by (simp add: k_def)
  have "slice s i j = s ! i # slice s (i + 1) j" using i kj ik by (simp add: slice_Cons)
  also have "slice s (i + 1) j = slice s (i + 1) k @ slice s k j" using ik kj by (rule slice_append)
  finally have "slice s i j = s ! i # slice s (i + 1) k @ slice s k j" .
  moreover have "slice s (i + 1) k \<in> {[], ''+'', ''-''}"
    using k by (auto simp: k_def slice_Cons split: if_splits)
  moreover have "digits (slice s k j)" using digits_scan [OF d] j by simp
  moreover have "s ! i \<in> {CHR ''e'', CHR ''E''}" "i < j" using True i kj ik by auto
  ultimately show ?thesis by (subst if_P [OF f]) blast
next
  case False
  with assms show ?thesis by (auto simp: lex_exponent_def)
qed

lemma lex_number_shape:
  assumes "lex_number_end s i = Some (k, j)" "confit_v2_is_digit (char_at s i)"
  shows "token_shape k (slice s i j)"
proof (cases "char_at s i = CHR ''0'' \<and> char_at s (i + 1) \<in> {CHR ''x'', CHR ''X''}")
  case True
  then have i: "i + 1 < length s" using char_at_not_NUL [of s "i + 1"] by auto
  from True assms(1) have k: "k = TOKEN_HEX" "j = scan_while confit_v2_is_hex s (i + 2)"
    and h: "confit_v2_is_hex (char_at s (i + 2))"
    by (auto simp: lex_number_end_def split: if_splits)
  from h have b: "i + 2 < j" "i + 2 < length s"
    using scan_past [of confit_v2_is_hex s "i + 2"] k in_text [of confit_v2_is_hex] by auto
  then have "slice s i j = s ! i # s ! (i + 1) # slice s (i + 2) j"
    "slice s (i + 2) j = s ! (i + 2) # slice s (i + 3) j"
    by (simp_all add: slice_Cons numeral_3_eq_3)
  with True i k b list_all_scan_while [of confit_v2_is_hex s "i + 2"] show ?thesis
    by (simp add: token_shape_def hex_shape_def)
next
  case False
  let ?w = "scan_while confit_v2_is_digit s i"
  have w: "i < ?w" "?w \<le> length s" using scan_past [of confit_v2_is_digit s i] assms(2) by auto
  from False assms(1) obtain c fraction exponent where
    fr: "lex_fraction s ?w = Some (c, fraction)" and ex: "lex_exponent s c = Some (j, exponent)"
    and k: "k = (if fraction \<or> exponent then TOKEN_FLOAT else TOKEN_INTEGER)"
    by (auto simp: lex_number_end_def split: if_splits option.splits)
  have c: "?w \<le> c" "c \<le> length s" using lex_fraction_bound [OF fr w(2)] by auto
  have j: "c \<le> j" using lex_exponent_bound [OF ex c(2)] by auto
  have u: "slice s i j = slice s i ?w @ slice s ?w c @ slice s c j"
    using slice_append [OF less_imp_le [OF w(1)] le_trans [OF c(1) j], of s]
      slice_append [OF c(1) j, of s] by simp
  show ?thesis
  proof (cases "fraction \<or> exponent")
    case True
    have "float_shape (slice s i j)"
      unfolding float_shape_def u
      using digits_scan [OF assms(2)] lex_fraction_shape [OF fr w(2)]
        lex_exponent_shape [OF ex c(2)] True
      by (intro exI [of _ "slice s i ?w"] exI [of _ "slice s ?w c"] exI [of _ "slice s c j"] conjI)
        (auto split: if_splits)
    with True k show ?thesis by (simp add: token_shape_def)
  next
    case False
    with lex_fraction_shape [OF fr w(2)] lex_exponent_shape [OF ex c(2)] u digits_scan [OF assms(2)]
      k show ?thesis by (simp add: token_shape_def)
  qed
qed


lemma string_body_simps:
  "c \<noteq> CHR 0x5C \<Longrightarrow> string_body (c # cs) \<longleftrightarrow> c \<noteq> CHR 0x22 \<and> 0x20 \<le> byte c \<and> string_body cs"
  "e \<noteq> CHR ''u'' \<Longrightarrow> string_body (CHR 0x5C # e # ds) \<longleftrightarrow> e \<in> set simple_escapes \<and> string_body ds"
  "string_body (CHR 0x5C # CHR ''u'' # h1 # h2 # h3 # h4 # ds) \<longleftrightarrow>
     list_all confit_v2_is_hex [h1, h2, h3, h4] \<and> string_body ds"
  by (auto simp: simple_escapes_def byte_def)

lemma hex_value_is_hex: "confit_v2_hex_value c \<noteq> None \<longleftrightarrow> confit_v2_is_hex c"
  by (auto simp: confit_v2_hex_value_def confit_v2_is_hex_def confit_v2_is_digit_def)

lemma is_hex_not_NUL: "confit_v2_is_hex (char_at s i) \<Longrightarrow> i < length s"
  using in_text [of confit_v2_is_hex] by simp

text \<open>One turn of the scan of a string literal, with the text it passes over.\<close>

lemma lex_string_close_cases:
  assumes "lex_string_close s i = Some j"
  obtains (close) "i = j" "s ! j = CHR 0x22" "j < length s"
    | (plain) "i < length s" "s ! i \<notin> {CHR 0x22, CHR 0x5C, NUL}" "0x20 \<le> byte (s ! i)"
        "lex_string_close s (i + 1) = Some j"
    | (escape) "i + 1 < length s" "s ! i = CHR 0x5C" "s ! (i + 1) \<noteq> CHR ''u''"
        "s ! (i + 1) \<in> set simple_escapes" "lex_string_close s (i + 2) = Some j"
    | (unicode) "i + 5 < length s" "s ! i = CHR 0x5C" "s ! (i + 1) = CHR ''u''"
        "\<And>n. n < 4 \<Longrightarrow> confit_v2_is_hex (s ! (i + 2 + n))" "lex_string_close s (i + 6) = Some j"
proof -
  have nn: "char_at s i \<noteq> NUL" using assms lex_string_close.simps [of s i] by (auto simp: Let_def)
  then have i: "i < length s" by (rule char_at_not_NUL)
  consider "s ! i = CHR 0x22" | "s ! i \<noteq> CHR 0x22" "s ! i \<noteq> CHR 0x5C" | "s ! i = CHR 0x5C" by blast
  then show thesis
  proof cases
    case 1
    with i assms lex_string_close.simps [of s i] nn show thesis by (auto intro: close)
  next
    case 2
    with i assms lex_string_close.simps [of s i] nn plain show thesis
      by (auto simp: Let_def split: if_splits)
  next
    case 3
    let ?e = "char_at s (i + 1)"
    from 3 i assms lex_string_close.simps [of s i] nn have e: "?e \<in> set simple_escapes"
      and u: "if ?e = CHR ''u'' then (\<forall>n \<in> set [0..<4]. confit_v2_is_hex (char_at s (i + 2 + n)))
           \<and> lex_string_close s (i + 6) = Some j
         else lex_string_close s (i + 2) = Some j"
      by (auto simp: Let_def hex_value_is_hex [symmetric] split: if_splits)
    from e have "?e \<noteq> NUL" by (auto simp: simple_escapes_def)
    then have i1: "i + 1 < length s" by (rule char_at_not_NUL)
    show thesis
    proof (cases "?e = CHR ''u''")
      case True
      with u have h: "confit_v2_is_hex (char_at s (i + 2 + n))" if "n < 4" for n using that by simp
      have "i + 2 + 3 < length s" using h [of 3] by (intro is_hex_not_NUL) simp
      with True u i1 3 h unicode show thesis by auto
    next
      case False
      with u e i1 3 escape show thesis by auto
    qed
  qed
qed

lemma lex_string_close_body:
  "lex_string_close s i = Some j \<Longrightarrow> string_body (slice s i j)"
proof (induction "length s - i" arbitrary: i rule: less_induct)
  case less
  note IH = less.hyps and bound = lex_string_close_bound
  from less.prems show ?case
  proof (cases rule: lex_string_close_cases)
    case plain
    then have "string_body (slice s (i + 1) j)" using IH [of "i + 1"] by simp
    with plain bound [OF plain(4)] show ?thesis by (simp add: slice_Cons string_body_simps)
  next
    case escape
    then have "string_body (slice s (i + 2) j)" using IH [of "i + 2"] by simp
    with escape bound [OF escape(5)] show ?thesis by (simp add: slice_Cons string_body_simps del: string_body.simps)
  next
    case unicode
    have h: "confit_v2_is_hex (s ! (i + 2)) \<and> confit_v2_is_hex (s ! (i + 3))
        \<and> confit_v2_is_hex (s ! (i + 4)) \<and> confit_v2_is_hex (s ! (i + 5))"
      using unicode(4) [of 0] unicode(4) [of 1] unicode(4) [of 2] unicode(4) [of 3]
      by (simp add: eval_nat_numeral)
    have "string_body (slice s (i + 6) j)" using unicode IH [of "i + 6"] by simp
    moreover have "slice s i j = s ! i # s ! (i + 1) # s ! (i + 2) # s ! (i + 3) # s ! (i + 4)
        # s ! (i + 5) # slice s (i + 6) j"
      using unicode bound [OF unicode(5)] by (simp add: slice_Cons eval_nat_numeral)
    ultimately show ?thesis using unicode(2,3) h
      by (simp add: string_body_simps del: string_body.simps)
  qed simp
qed

lemma lex_string_shape:
  assumes "confit_v2_lex_string lx s = Inr (t, lx')" "char_at s (lex_offset lx) = CHR 0x22"
  shows "tok_kind t = TOKEN_STRING \<and>
    slice s (tok_start t) (tok_end t)
      = CHR 0x22 # slice s (tok_start t + 1) (tok_end t - 1) @ [CHR 0x22]
    \<and> string_body (slice s (tok_start t + 1) (tok_end t - 1))
    \<and> lex_string_close s (tok_start t + 1) = Some (tok_end t - 1)
    \<and> tok_start t + 2 \<le> tok_end t"
proof -
  let ?i = "lex_offset lx"
  from assms(1) obtain j where j: "lex_string_close s (?i + 1) = Some j"
    and t: "t = make_token TOKEN_STRING ?i (j + 1)"
    by (auto simp: confit_v2_lex_string_def Let_def split: option.splits)
  have i: "?i < length s" by (rule char_at_not_NUL) (simp add: assms(2))
  note b = lex_string_close_bound [OF j]
  have "slice s ?i (j + 1) = s ! ?i # slice s (?i + 1) (j + 1)" using i b by (simp add: slice_Cons)
  also have "slice s (?i + 1) (j + 1) = slice s (?i + 1) j @ slice s j (j + 1)"
    using b by (intro slice_append) auto
  finally show ?thesis using lex_string_close_body [OF j] b i assms(2) j
    by (simp add: t make_token_def slice_Cons)
qed

theorem lexer_next_shape:
  assumes "confit_v2_expression_lexer_next lx = Inr (t, lx')"
    and "expr_text (lex_source lx) = Some s" "lex_offset lx \<le> length s" "is_cstring s"
  shows "token_shape (tok_kind t) (slice s (tok_start t) (tok_end t))"
proof -
  let ?o = "scan_while confit_v2_is_space s (lex_offset lx)"
  have o: "lex_offset (lexer_counted lx s) = ?o" by (simp add: lexer_counted_def)
  from lexer_next_cases [OF assms(1,2)] show ?thesis unfolding o
  proof (elim conjE disjE exE)
    assume "char_at s ?o = NUL" "t = make_token TOKEN_EOF ?o (?o + 1)"
    then show ?thesis
      using char_at_NUL_iff [OF assms(4), of ?o] by (simp add: make_token_def token_shape_def slice_def)
  next
    assume "confit_v2_is_digit (char_at s ?o)"
      and "confit_v2_lex_number (lexer_counted lx s) s = Inr (t, lx')"
    then show ?thesis using lex_number_shape [of s ?o]
      by (auto simp: confit_v2_lex_number_def o Let_def make_token_def split: option.splits)
  next
    assume "char_at s ?o = CHR 0x22"
      and "confit_v2_lex_string (lexer_counted lx s) s = Inr (t, lx')"
    then show ?thesis using lex_string_shape [of "lexer_counted lx s" s t lx']
      by (auto simp: o token_shape_def)
  next
    fix k w
    assume op: "lex_operator (char_at s ?o) (char_at s (?o + 1)) = Some (k, w)"
      and t: "t = make_token k ?o (?o + w)" and nn: "char_at s ?o \<noteq> NUL"
    have "?o < length s" using nn by (rule char_at_not_NUL)
    moreover have "w = 2 \<Longrightarrow> Suc ?o < length s"
      using lex_operator_width [OF op] char_at_not_NUL [of s "?o + 1"] by auto
    ultimately show ?thesis using op
      by (auto simp: t make_token_def lex_operator_def token_shape_def operator_text_def slice_Cons
          split: if_splits)
  qed (use lex_identifier_shape [of "lexer_counted lx s" s t lx'] o in simp)
qed


section \<open>Properties\<close>

text \<open>C32. A successful call of the lexer on a C string skips blanks only, counts one token below
  the limit, and returns either the end token at the end of the text, or a token whose text
  has the form its kind has in the lexical grammar and after which the lexer continues.\<close>

theorem lexer_next_token:
  assumes "expr_text (lex_source lx) = Some s" and "is_cstring s" and "lex_offset lx \<le> length s"
    and "confit_v2_expression_lexer_next lx = Inr (t, lx')"
  shows "list_all confit_v2_is_space (slice s (lex_offset lx) (tok_start t))
    \<and> lex_token_count lx < lex_max_tokens lx \<and> lex_token_count lx' = lex_token_count lx + 1
    \<and> token_shape (tok_kind t) (slice s (tok_start t) (tok_end t))
    \<and> lex_offset lx' = (if tok_kind t = TOKEN_EOF then length s else tok_end t)
    \<and> (tok_kind t = TOKEN_EOF \<longleftrightarrow> tok_start t = length s)"
proof -
  note n = lexer_next_progress [OF assms(4,1,3,2)]
  from n have "tok_start t = scan_while confit_v2_is_space s (lex_offset lx)" by blast
  then have "list_all confit_v2_is_space (slice s (lex_offset lx) (tok_start t))"
    by (simp add: list_all_scan_while)
  with n lexer_next_shape [OF assms(4,1,3,2)] show ?thesis by (auto split: if_splits)
qed

lemma lexer_next_token_witness:
  "token_shape TOKEN_HEX (slice '' 0xA'' 1 4)"
proof -
  let ?lx = "confit_v2_expression_lexer_init (sample_text '' 0xA'') 9"
  have "confit_v2_expression_lexer_next ?lx
      = Inr (make_token TOKEN_HEX 1 4, ?lx\<lparr>lex_offset := 4, lex_token_count := 1\<rparr>)" by code_simp
  moreover have "expr_text (lex_source ?lx) = Some '' 0xA''"
    by (simp add: sample_text_def confit_v2_expression_lexer_init_def)
  moreover have "is_cstring '' 0xA''" by code_simp
  moreover have "lex_offset ?lx \<le> length '' 0xA''" by (simp add: confit_v2_expression_lexer_init_def)
  ultimately have "token_shape (tok_kind (make_token TOKEN_HEX 1 4))
      (slice '' 0xA'' (tok_start (make_token TOKEN_HEX 1 4)) (tok_end (make_token TOKEN_HEX 1 4)))"
    using lexer_next_token by blast
  then show ?thesis by (simp add: make_token_def)
qed

end
