(* ===== verification/Parser_Correct.thy ===== *)
theory Parser_Correct
  imports Grammar Token_Shape "HOL-Library.Multiset"
begin

text \<open>
  What the parser returns. \<open>yields m R\<close> says that a parser step never runs out of fuel, that
  a failure is a schema error, and that a result satisfies \<open>R\<close>. Each function of the descent
  is shown to yield a tree that the grammar derives from the tokens it consumed, whose nodes
  are freshly numbered and whose byte ranges are nested in the text; the property of the
  whole function follows by induction on the fuel.
\<close>

section \<open>Steps that cannot run dry\<close>

definition schema_stop :: "parse_stop \<Rightarrow> bool" where
  "schema_stop e \<longleftrightarrow> (case e of Stop d \<Rightarrow> diag_status d = CONFIT_ERR_SCHEMA | Out_Of_Fuel \<Rightarrow> False)"

definition yields :: "parse_stop + 'a \<Rightarrow> ('a \<Rightarrow> bool) \<Rightarrow> bool" where
  "yields m R \<longleftrightarrow> (case m of Inl e \<Rightarrow> schema_stop e | Inr x \<Rightarrow> R x)"

lemma yields_Inr [simp]: "yields (Inr x) R \<longleftrightarrow> R x"
  by (simp add: yields_def)

lemma yields_Inl [simp]: "yields (Inl e) R \<longleftrightarrow> schema_stop e"
  by (simp add: yields_def)

lemma diagnostic_at_status [simp]:
  "diag_status (confit_v2_expression_diagnostic_at source offset st message) = st"
  by (simp add: confit_v2_expression_diagnostic_at_def confit_diagnostic_set_def
      confit_diagnostic_set_detail_def Let_def split: prod.splits)

lemma yields_error [simp]: "yields (parse_error p offset message) R"
  by (simp add: parse_error_def schema_stop_def)

lemma yields_bind:
  assumes "yields m Q" and "\<And>x. Q x \<Longrightarrow> yields (f x) R"
  shows "yields (bind_res m f) R"
  using assms by (cases m) (auto simp: yields_def)

lemma yields_mono: "yields m Q \<Longrightarrow> (\<And>x. Q x \<Longrightarrow> R x) \<Longrightarrow> yields m R"
  by (cases m) (auto simp: yields_def)

section \<open>The state of the parser\<close>

text \<open>\<open>lo p\<close> is where the current token starts; \<open>weight\<close> bounds the tokens still to come.\<close>

definition lo :: "parser \<Rightarrow> nat" where
  "lo p = tok_start (parser_current p)"

definition text_size :: "parser \<Rightarrow> nat" where
  "text_size p = lexer_size (parser_lexer p)"

definition weight :: "parser \<Rightarrow> nat" where
  "weight p = text_size p - lex_offset (parser_lexer p)
     + (if current_kind p = TOKEN_EOF then 0 else 1)"

definition current_ok :: "parser \<Rightarrow> bool" where
  "current_ok p \<longleftrightarrow> token_shape (current_kind p) (token_text (parser_text p) (parser_current p))
     \<and> (if current_kind p = TOKEN_EOF then lo p = text_size p
        else lo p < tok_end (parser_current p) \<and> tok_end (parser_current p) \<le> text_size p
          \<and> lex_offset (parser_lexer p) = tok_end (parser_current p)
          \<and> (current_kind p = TOKEN_STRING \<longrightarrow> lo p + 2 \<le> tok_end (parser_current p)))"

definition parser_good :: "parser \<Rightarrow> bool" where
  "parser_good p \<longleftrightarrow> lexer_good (parser_lexer p) \<and> parser_source p = lex_source (parser_lexer p)
     \<and> current_ok p \<and> parser_node_count p \<le> max_nodes (parser_limits p)"

text \<open>What no step changes, and what only grows.\<close>

definition frame :: "parser \<Rightarrow> parser \<Rightarrow> bool" where
  "frame p q \<longleftrightarrow> parser_source q = parser_source p \<and> parser_limits q = parser_limits p
     \<and> text_size q = text_size p \<and> parser_node_count p \<le> parser_node_count q
     \<and> lo p \<le> lo q \<and> weight q \<le> weight p"

lemma frame_refl [simp]: "frame p p"
  by (simp add: frame_def)

lemma frame_trans: "frame p q \<Longrightarrow> frame q r \<Longrightarrow> frame p r"
  by (auto simp: frame_def)

lemma frame_text: "frame p q \<Longrightarrow> parser_text q = parser_text p"
  by (simp add: frame_def parser_text_def)

text \<open>The tokens consumed between two states.\<close>

inductive consumes :: "parser \<Rightarrow> token list \<Rightarrow> parser \<Rightarrow> bool" where
  consumes_none: "parser_lexer q = parser_lexer p \<Longrightarrow> parser_current q = parser_current p
    \<Longrightarrow> consumes p [] q"
| consumes_more: "parser_current p = t \<Longrightarrow> confit_v2_expression_advance p = Inr q
    \<Longrightarrow> consumes q ts r \<Longrightarrow> consumes p (t # ts) r"

lemma advance_same_lexer:
  assumes "confit_v2_expression_advance q = Inr r" "parser_lexer q = parser_lexer p"
  shows "\<exists>r'. confit_v2_expression_advance p = Inr r' \<and> parser_lexer r' = parser_lexer r
    \<and> parser_current r' = parser_current r"
  using assms by (auto simp: confit_v2_expression_advance_def split: sum.splits prod.splits)

lemma consumes_same_lexer:
  "consumes q ts r \<Longrightarrow> parser_lexer q = parser_lexer p \<Longrightarrow> parser_current q = parser_current p
    \<Longrightarrow> consumes p ts r"
proof (induction arbitrary: p rule: consumes.induct)
  case (consumes_more q' t q ts r)
  from advance_same_lexer [OF consumes_more.hyps(2) consumes_more.prems(1)] obtain r' where
    "confit_v2_expression_advance p = Inr r'" "parser_lexer q = parser_lexer r'"
    "parser_current q = parser_current r'" by auto
  with consumes_more show ?case by (metis consumes.consumes_more)
qed (auto intro: consumes_none)

lemma consumes_append:
  "consumes p ts q \<Longrightarrow> consumes q us r \<Longrightarrow> consumes p (ts @ us) r"
proof (induction rule: consumes.induct)
  case (consumes_none q p)
  then show ?case by (auto intro: consumes_same_lexer)
qed (auto intro: consumes.consumes_more)

lemma consumes_advance: "confit_v2_expression_advance p = Inr q \<Longrightarrow> consumes p [parser_current p] q"
  by (auto intro!: consumes.intros)

section \<open>One token, one node\<close>

lemma lexer_next_error_status:
  assumes "lexer_good lx" "confit_v2_expression_lexer_next lx = Inl d"
  shows "diag_status d = CONFIT_ERR_SCHEMA"
  using assms
  by (auto simp: lexer_good_def confit_v2_expression_lexer_next_def Let_def
      confit_v2_lex_identifier_def confit_v2_lex_number_def confit_v2_lex_string_def
      split: option.splits if_splits sum.splits)

lemma lexer_next_string_token:
  assumes "lexer_good lx" "confit_v2_expression_lexer_next lx = Inr (t, lx')"
    and "expr_text (lex_source lx) = Some s"
  shows "token_shape (tok_kind t) (slice s (tok_start t) (tok_end t))
    \<and> lex_source lx' = lex_source lx"
proof -
  have "lex_offset lx \<le> length s" "is_cstring s" using assms(1,3) by (auto simp: lexer_good_def)
  with lexer_next_shape [OF assms(2,3)] lexer_next_progress [OF assms(2,3)] show ?thesis by blast
qed

lemma string_shape_length: "token_shape TOKEN_STRING u \<Longrightarrow> 2 \<le> length u"
  by (auto simp: token_shape_def)

lemma advance_yields:
  assumes "parser_good p" "current_kind p \<noteq> TOKEN_EOF"
  shows "yields (confit_v2_expression_advance p) (\<lambda>q. parser_good q \<and> frame p q
    \<and> weight q < weight p \<and> tok_end (parser_current p) \<le> lo q
    \<and> parser_node_count q = parser_node_count p \<and> consumes p [parser_current p] q)"
proof (cases "confit_v2_expression_lexer_next (parser_lexer p)")
  case (Inl d)
  with lexer_next_error_status [OF _ Inl] assms(1) show ?thesis
    by (simp add: confit_v2_expression_advance_def schema_stop_def parser_good_def)
next
  case (Inr r)
  obtain t lx' where r: "r = (t, lx')" by (cases r)
  have g: "lexer_good (parser_lexer p)" using assms(1) by (simp add: parser_good_def)
  then obtain s where s: "expr_text (lex_source (parser_lexer p)) = Some s"
    and size: "lexer_size (parser_lexer p) = length s" by (elim lexer_goodE)
  note next_ok = lexer_good_next [OF g Inr [unfolded r]]
  note shape = lexer_next_string_token [OF g Inr [unfolded r] s]
  let ?q = "p\<lparr>parser_lexer := lx', parser_current := t\<rparr>"
  have q: "confit_v2_expression_advance p = Inr ?q"
    by (simp add: confit_v2_expression_advance_def Inr r)
  have two: "tok_kind t = TOKEN_STRING \<Longrightarrow> tok_start t + 2 \<le> tok_end t"
    using shape string_shape_length [of "slice s (tok_start t) (tok_end t)"] by (auto simp: slice_def)
  from assms next_ok shape s size two show ?thesis
    unfolding q yields_Inr using consumes_advance [OF q]
    by (auto simp: parser_good_def current_ok_def frame_def weight_def text_size_def lo_def
        token_text_def parser_text_def split: if_splits)
qed

lemma make_node_yields:
  assumes "parser_good p"
  shows "yields (confit_v2_expression_make_node p i j) (\<lambda>(loc, q). parser_good q \<and> frame p q
    \<and> weight q = weight p \<and> lo q = lo p
    \<and> loc = \<lparr>info_addr = parser_node_count p, info_start = i, info_end = j\<rparr>
    \<and> parser_node_count q = Suc (parser_node_count p)
    \<and> current_kind q = current_kind p \<and> parser_current q = parser_current p \<and> consumes p [] q)"
  using assms
  by (auto simp: confit_v2_expression_make_node_def parser_good_def current_ok_def frame_def
      weight_def text_size_def lo_def parser_text_def intro: consumes_none)

section \<open>The trees it builds\<close>

text \<open>The nodes in the order of their allocation: children first.\<close>

fun postorder :: "expr_node \<Rightarrow> nat list" where
  "postorder (Literal loc l) = [info_addr loc]"
| "postorder (Reference loc r) = [info_addr loc]"
| "postorder (Unary loc u n) = postorder n @ [info_addr loc]"
| "postorder (Binary loc b l r) = postorder l @ postorder r @ [info_addr loc]"
| "postorder (Conditional loc c t f) = postorder c @ postorder t @ postorder f @ [info_addr loc]"
| "postorder (Call loc f args) = concat (map postorder args) @ [info_addr loc]"
| "postorder (List_Node loc items) = concat (map postorder items) @ [info_addr loc]"

lemma postorder_set_node_range [simp]: "postorder (set_node_range i j n) = postorder n"
  by (cases n) simp_all

lemma mset_concat_map:
  "(\<And>x. x \<in> set xs \<Longrightarrow> mset (f x) = mset (g x)) \<Longrightarrow> mset (concat (map f xs)) = mset (concat (map g xs))"
  by (induction xs) auto

lemma postorder_node_addrs: "mset (postorder n) = mset (node_addrs n)"
  by (induction n) (auto simp: node_addrs_simps intro!: mset_concat_map)

text \<open>A node covers a nonempty range that contains its children's, one after the other.\<close>

definition children_ordered :: "expr_node \<Rightarrow> bool" where
  "children_ordered n \<longleftrightarrow> sorted_wrt (\<lambda>a b. node_end a \<le> node_start b) (children n)
     \<and> (\<forall>c \<in> set (children n). node_start n \<le> node_start c \<and> node_end c \<le> node_end n)"

definition spans_ok :: "nat \<Rightarrow> expr_node \<Rightarrow> bool" where
  "spans_ok len n \<longleftrightarrow> (\<forall>m \<in> set (subnodes n).
     node_start m < node_end m \<and> node_end m \<le> len \<and> children_ordered m)"

lemma spans_ok_node:
  "spans_ok len n \<longleftrightarrow> node_start n < node_end n \<and> node_end n \<le> len \<and> children_ordered n
     \<and> (\<forall>c \<in> set (children n). spans_ok len c)"
  unfolding spans_ok_def by (subst subnodes_head) auto

lemma spans_ok_set_range:
  "spans_ok len n \<Longrightarrow> i \<le> node_start n \<Longrightarrow> node_end n \<le> j \<Longrightarrow> j \<le> len
    \<Longrightarrow> spans_ok len (set_node_range i j n)"
  by (subst (asm) spans_ok_node, subst spans_ok_node) (force simp: children_ordered_def)

text \<open>The result of a node parser called in state \<open>p\<close>, and of the loop over items.\<close>

definition node_result :: "parser \<Rightarrow> nat \<Rightarrow> expr_node \<times> parser \<Rightarrow> bool" where
  "node_result p k = (\<lambda>(n, q). parser_good q \<and> frame p q \<and> weight q < weight p
     \<and> postorder n = [parser_node_count p..<parser_node_count q]
     \<and> parser_node_count p < parser_node_count q
     \<and> spans_ok (text_size p) n \<and> node_start n = lo p \<and> node_end n \<le> lo q
     \<and> (\<exists>ts. consumes p ts q \<and> derives (parser_text p) k ts n))"

definition items_result :: "parser \<Rightarrow> expr_node list \<times> parser \<Rightarrow> bool" where
  "items_result p = (\<lambda>(ns, q). parser_good q \<and> frame p q \<and> weight q < weight p
     \<and> concat (map postorder ns) = [parser_node_count p..<parser_node_count q]
     \<and> (\<forall>n \<in> set ns. spans_ok (text_size p) n \<and> lo p \<le> node_start n \<and> node_end n \<le> lo q)
     \<and> sorted_wrt (\<lambda>a b. node_end a \<le> node_start b) ns
     \<and> (\<exists>ts. consumes p ts q \<and> derives_items (parser_text p) ts ns))"

definition expression_parser :: "node_parser \<Rightarrow> nat \<Rightarrow> bool" where
  "expression_parser parse_expression w \<longleftrightarrow>
     (\<forall>p nesting. parser_good p \<longrightarrow> weight p < w
        \<longrightarrow> yields (parse_expression nesting p) (node_result p 0))"

lemma node_result_up: "node_result p (Suc k) r \<Longrightarrow> k < 8 \<Longrightarrow> node_result p k r"
  by (auto simp: node_result_def intro: derives_up)

lemma node_result_down: "node_result p m r \<Longrightarrow> k \<le> m \<Longrightarrow> m \<le> 8 \<Longrightarrow> node_result p k r"
  by (auto simp: node_result_def intro: derives_down)

lemma upt_append: "a \<le> b \<Longrightarrow> b \<le> c \<Longrightarrow> [a..<b] @ [b..<c] = [a..<c]"
  using upt_add_eq_append [of a b "c - b"] by simp

lemma real_current: "parser_good p \<Longrightarrow> current_kind p \<noteq> TOKEN_EOF \<Longrightarrow>
    lo p < tok_end (parser_current p) \<and> tok_end (parser_current p) \<le> text_size p"
  by (simp add: parser_good_def current_ok_def)

lemma good_text_size: "parser_good p \<Longrightarrow> text_size p = length (parser_text p)"
  by (auto simp: parser_good_def text_size_def parser_text_def elim!: lexer_goodE)

lemma lo_in_text: "parser_good p \<Longrightarrow> lo p \<le> text_size p"
  by (auto simp: parser_good_def current_ok_def split: if_splits)

lemma parse_items_result:
  assumes "expression_parser parse_expression w"
  shows "parser_good p \<Longrightarrow> weight p < w \<Longrightarrow> weight p < fuel
    \<Longrightarrow> yields (parse_items parse_expression fuel nesting p) (items_result p)"
proof (induction fuel arbitrary: p)
  case (Suc fuel)
  have "yields (parse_expression (nesting + 1) p) (node_result p 0)"
    using assms Suc.prems unfolding expression_parser_def by blast
  then show ?case unfolding parse_items.simps
  proof (rule yields_bind, clarify)
    fix item p1 assume n: "node_result p 0 (item, p1)"
    show "yields (if current_kind p1 \<noteq> TOKEN_COMMA then Inr ([item], p1)
       else bind_res (confit_v2_expression_advance p1) (\<lambda>p2.
         bind_res (parse_items parse_expression fuel nesting p2) (\<lambda>(items, p3).
           Inr (item # items, p3)))) (items_result p)"
    proof (cases "current_kind p1 = TOKEN_COMMA")
      case False
      with n show ?thesis by (auto simp: node_result_def items_result_def intro: items_one)
    next
      case True
      have g: "parser_good p1" using n by (simp add: node_result_def)
      from advance_yields [OF g] True show ?thesis
      proof (simp, elim yields_bind)
        fix p2 assume a: "parser_good p2 \<and> frame p1 p2 \<and> weight p2 < weight p1
          \<and> tok_end (parser_current p1) \<le> lo p2 \<and> parser_node_count p2 = parser_node_count p1
          \<and> consumes p1 [parser_current p1] p2"
        with n Suc.prems have w: "weight p2 < w" "weight p2 < fuel" by (auto simp: node_result_def)
        from a Suc.IH [OF _ w]
        have "yields (parse_items parse_expression fuel nesting p2) (items_result p2)" by blast
        then show "yields (bind_res (parse_items parse_expression fuel nesting p2) (\<lambda>(items, p3).
           Inr (item # items, p3))) (items_result p)"
        proof (rule yields_bind, clarify)
          fix items p3 assume r: "items_result p2 (items, p3)"
          from n obtain ts where ts: "consumes p ts p1" "derives (parser_text p) 0 ts item"
            by (auto simp: node_result_def)
          from r obtain us where us: "consumes p2 us p3" "derives_items (parser_text p2) us items"
            by (auto simp: items_result_def)
          have fr: "frame p p2" using n a frame_trans by (auto simp: node_result_def)
          have c: "consumes p (ts @ parser_current p1 # us) p3"
            using consumes_append [OF ts(1) consumes_append [OF _ us(1), of p1 "[parser_current p1]"]] a
            by simp
          have d: "derives_items (parser_text p) (ts @ parser_current p1 # us) (item # items)"
            using items_more [OF ts(2) _ us(2) [unfolded frame_text [OF fr]]] True by simp
          have po: "postorder item @ concat (map postorder items)
              = [parser_node_count p..<parser_node_count p3]"
            using n a r by (auto simp: node_result_def items_result_def frame_def upt_append)
          have e: "node_end item \<le> lo p2" "node_start item = lo p" "spans_ok (text_size p) item"
            using n a by (auto simp: node_result_def frame_def)
          have s: "lo p2 \<le> lo p3" "lo p \<le> lo p2" "text_size p2 = text_size p" "frame p p3"
            using r fr frame_trans [OF fr, of p3] by (auto simp: items_result_def frame_def)
          show "yields (Inr (item # items, p3)) (items_result p)"
            using c d po e s a n r Suc.prems(1)
            by (auto simp: items_result_def node_result_def intro: le_trans)
        qed
      qed
    qed
  qed
qed simp


text \<open>The part the list and the call share: from the opening bracket past the closing one.\<close>

definition bracket_result :: "parser \<Rightarrow> token_kind \<Rightarrow> expr_node list \<Rightarrow> parser \<Rightarrow> parser \<Rightarrow> bool" where
  "bracket_result p closing items p2 p3 \<longleftrightarrow> parser_good p3 \<and> frame p p3 \<and> weight p3 < weight p
     \<and> concat (map postorder items) = [parser_node_count p..<parser_node_count p3]
     \<and> (\<forall>n \<in> set items. spans_ok (text_size p) n \<and> lo p \<le> node_start n \<and> node_end n \<le> lo p2)
     \<and> sorted_wrt (\<lambda>a b. node_end a \<le> node_start b) items
     \<and> current_kind p2 = closing \<and> lo p < tok_end (parser_current p2)
     \<and> lo p2 < tok_end (parser_current p2) \<and> tok_end (parser_current p2) \<le> text_size p
     \<and> tok_end (parser_current p2) \<le> lo p3
     \<and> (\<exists>ts. consumes p (parser_current p # ts @ [parser_current p2]) p3
          \<and> (ts = [] \<and> items = [] \<or> derives_items (parser_text p) ts items))"

lemma bracket_yields:
  assumes pe: "expression_parser parse_expression w"
    and p: "parser_good p" "current_kind p \<noteq> TOKEN_EOF" "weight p \<le> w" "weight p \<le> fuel"
    and closing: "closing \<noteq> TOKEN_EOF"
    and k: "\<And>items p2 p3. bracket_result p closing items p2 p3 \<Longrightarrow> yields (k items p2 p3) R"
  shows "yields (bind_res (confit_v2_expression_advance p) (\<lambda>p1.
     bind_res (if current_kind p1 = closing then Inr ([], p1)
               else parse_items parse_expression fuel nesting p1) (\<lambda>(items, p2).
       if current_kind p2 \<noteq> closing then parse_error p2 (tok_start (parser_current p2)) message
       else bind_res (confit_v2_expression_advance p2) (\<lambda>p3. k items p2 p3)))) R"
proof (rule yields_bind [OF advance_yields [OF p(1,2)]])
  fix p1 assume a: "parser_good p1 \<and> frame p p1 \<and> weight p1 < weight p
    \<and> tok_end (parser_current p) \<le> lo p1 \<and> parser_node_count p1 = parser_node_count p
    \<and> consumes p [parser_current p] p1"
  let ?Q = "\<lambda>(items, p2). parser_good p2 \<and> frame p1 p2
     \<and> concat (map postorder items) = [parser_node_count p1..<parser_node_count p2]
     \<and> (\<forall>n \<in> set items. spans_ok (text_size p) n \<and> lo p1 \<le> node_start n \<and> node_end n \<le> lo p2)
     \<and> sorted_wrt (\<lambda>a b. node_end a \<le> node_start b) items
     \<and> (\<exists>ts. consumes p1 ts p2 \<and> (ts = [] \<and> items = [] \<or> derives_items (parser_text p) ts items))"
  have fr: "frame p p1" and tx: "parser_text p1 = parser_text p" "text_size p1 = text_size p"
    using a frame_text by (auto simp: frame_def)
  have "yields (if current_kind p1 = closing then Inr ([], p1)
     else parse_items parse_expression fuel nesting p1) ?Q"
  proof (cases "current_kind p1 = closing")
    case True
    with a show ?thesis by (auto intro!: exI [of _ "[]"] consumes_none)
  next
    case False
    have "yields (parse_items parse_expression fuel nesting p1) (items_result p1)"
      by (rule parse_items_result [OF pe]) (use a p in auto)
    with False tx show ?thesis by (auto elim!: yields_mono simp: items_result_def)
  qed
  then show "yields (bind_res (if current_kind p1 = closing then Inr ([], p1)
               else parse_items parse_expression fuel nesting p1) (\<lambda>(items, p2).
       if current_kind p2 \<noteq> closing then parse_error p2 (tok_start (parser_current p2)) message
       else bind_res (confit_v2_expression_advance p2) (\<lambda>p3. k items p2 p3))) R"
  proof (rule yields_bind, clarify)
    fix items p2 ts
    assume 2: "parser_good p2" "frame p1 p2"
      "concat (map postorder items) = [parser_node_count p1..<parser_node_count p2]"
      "\<forall>n \<in> set items. spans_ok (text_size p) n \<and> lo p1 \<le> node_start n \<and> node_end n \<le> lo p2"
      "sorted_wrt (\<lambda>a b. node_end a \<le> node_start b) items"
      "consumes p1 ts p2" "ts = [] \<and> items = [] \<or> derives_items (parser_text p) ts items"
    show "yields (if current_kind p2 \<noteq> closing then parse_error p2 (tok_start (parser_current p2)) message
       else bind_res (confit_v2_expression_advance p2) (\<lambda>p3. k items p2 p3)) R"
    proof (cases "current_kind p2 = closing")
      case True
      then have real: "current_kind p2 \<noteq> TOKEN_EOF" using closing by simp
      from advance_yields [OF 2(1) real] True show ?thesis
      proof (simp, elim yields_bind)
        fix p3 assume 3: "parser_good p3 \<and> frame p2 p3 \<and> weight p3 < weight p2
          \<and> tok_end (parser_current p2) \<le> lo p3 \<and> parser_node_count p3 = parser_node_count p2
          \<and> consumes p2 [parser_current p2] p3"
        have "consumes p (parser_current p # ts @ [parser_current p2]) p3"
          using consumes_append [OF _ consumes_append [OF 2(6)], of p "[parser_current p]"] a 3 by auto
        then have "bracket_result p closing items p2 p3"
          using a 2 3 True real_current [OF 2(1) real] frame_trans [OF frame_trans [OF fr 2(2)]]
          unfolding bracket_result_def by (auto simp: frame_def)
        then show "yields (k items p2 p3) R" by (rule k)
      qed
    qed simp
  qed
qed

lemma parse_list_result:
  assumes "expression_parser parse_expression w" "parser_good p" "weight p \<le> w" "weight p \<le> fuel"
    and "current_kind p = TOKEN_LEFT_BRACKET"
  shows "yields (confit_v2_expression_parse_list parse_expression fuel nesting p) (node_result p 8)"
  unfolding confit_v2_expression_parse_list_def
proof (rule bracket_yields [OF assms(1,2)])
  fix items p2 p3 assume b: "bracket_result p TOKEN_RIGHT_BRACKET items p2 p3"
  then have g: "parser_good p3" by (simp add: bracket_result_def)
  show "yields (bind_res (confit_v2_expression_make_node p3 (tok_start (parser_current p))
      (tok_end (parser_current p2))) (\<lambda>(loc, p4). Inr (List_Node loc items, p4))) (node_result p 8)"
  proof (rule yields_bind [OF make_node_yields [OF g]], clarify)
    fix loc p4 assume m: "parser_good p4" "frame p3 p4" "weight p4 = weight p3" "lo p4 = lo p3"
      "parser_node_count p4 = Suc (parser_node_count p3)" "consumes p3 [] p4"
    let ?loc = "\<lparr>info_addr = parser_node_count p3, info_start = tok_start (parser_current p),
       info_end = tok_end (parser_current p2)\<rparr>"
    from b obtain ts where ts: "consumes p (parser_current p # ts @ [parser_current p2]) p3"
      "ts = [] \<and> items = [] \<or> derives_items (parser_text p) ts items"
      "current_kind p2 = TOKEN_RIGHT_BRACKET" by (auto simp: bracket_result_def)
    have "derives (parser_text p) 8 (parser_current p # ts @ [parser_current p2]) (List_Node ?loc items)"
      using ts assms(5) by (auto intro: derives_list_empty derives_list)
    moreover have "consumes p (parser_current p # ts @ [parser_current p2]) p4"
      using consumes_append [OF ts(1) m(6)] by simp
    moreover have "frame p p4" using b m(2) frame_trans by (auto simp: bracket_result_def)
    moreover have "spans_ok (text_size p) (List_Node ?loc items)"
      using b by (subst spans_ok_node) (auto simp: bracket_result_def children_ordered_def lo_def)
    ultimately show "yields (Inr (List_Node ?loc items, p4)) (node_result p 8)"
      using b m by (auto simp: node_result_def bracket_result_def lo_def frame_def)
  qed
qed (use assms in auto)


lemma parse_call_result:
  assumes "expression_parser parse_expression w" "weight p \<le> w" "weight p \<le> fuel"
    and p0: "parser_good p0" "current_kind p0 = TOKEN_IDENTIFIER"
    and p: "parser_good p" "frame p0 p" "weight p < weight p0" "tok_end (parser_current p0) \<le> lo p"
      "parser_node_count p = parser_node_count p0" "consumes p0 [parser_current p0] p"
      "current_kind p = TOKEN_LEFT_PAREN"
  shows "yields (confit_v2_expression_parse_call parse_expression fuel (parser_current p0) nesting p)
    (node_result p0 8)"
  unfolding confit_v2_expression_parse_call_def Let_def
proof (rule bracket_yields [OF assms(1) p(1)])
  let ?name = "confit_v2_expression_token_copy p (parser_current p0)"
  fix items p2 p3 assume b: "bracket_result p TOKEN_RIGHT_PAREN items p2 p3"
  then have g: "parser_good p3" by (simp add: bracket_result_def)
  have name: "?name = token_text (parser_text p0) (parser_current p0)"
    using frame_text [OF p(2)] by (simp add: confit_v2_expression_token_copy_def token_text_def)
  show "yields (bind_res (confit_v2_expression_make_node p3 (tok_start (parser_current p0))
      (tok_end (parser_current p2))) (\<lambda>(loc, p4). Inr (Call loc ?name items, p4))) (node_result p0 8)"
  proof (rule yields_bind [OF make_node_yields [OF g]], clarify)
    fix loc p4 assume m: "parser_good p4" "frame p3 p4" "weight p4 = weight p3" "lo p4 = lo p3"
      "parser_node_count p4 = Suc (parser_node_count p3)" "consumes p3 [] p4"
    let ?loc = "\<lparr>info_addr = parser_node_count p3, info_start = tok_start (parser_current p0),
       info_end = tok_end (parser_current p2)\<rparr>"
    let ?ts = "\<lambda>ts. parser_current p0 # parser_current p # ts @ [parser_current p2]"
    from b obtain ts where ts: "consumes p (parser_current p # ts @ [parser_current p2]) p3"
      "ts = [] \<and> items = [] \<or> derives_items (parser_text p) ts items"
      "current_kind p2 = TOKEN_RIGHT_PAREN" by (auto simp: bracket_result_def)
    have "derives (parser_text p0) 8 (?ts ts) (Call ?loc ?name items)"
      using ts p0(2) p(7) frame_text [OF p(2)] unfolding name
      by (auto intro: derives_call_empty derives_call)
    moreover have "consumes p0 (?ts ts) p4"
      using consumes_append [OF p(6) consumes_append [OF ts(1) m(6)]] by simp
    moreover have "frame p0 p4"
      by (rule frame_trans [OF p(2) frame_trans [OF _ m(2)]]) (use b in \<open>simp add: bracket_result_def\<close>)
    moreover have e: "lo p0 < tok_end (parser_current p0)"
      using real_current [OF p0(1)] p0(2) by simp
    moreover have f: "text_size p = text_size p0" "lo p0 \<le> lo p" using p(2) by (auto simp: frame_def)
    moreover have c: "\<forall>n \<in> set items. spans_ok (text_size p) n \<and> lo p \<le> node_start n \<and> node_end n \<le> lo p2"
      "sorted_wrt (\<lambda>a b. node_end a \<le> node_start b) items"
      "lo p < tok_end (parser_current p2)" "lo p2 < tok_end (parser_current p2)"
      "tok_end (parser_current p2) \<le> text_size p" using b by (auto simp: bracket_result_def)
    have "spans_ok (text_size p0) (Call ?loc ?name items)"
      using c f by (subst spans_ok_node) (fastforce simp: children_ordered_def lo_def)
    moreover have "weight p4 < weight p0" "tok_end (parser_current p2) \<le> lo p4"
      "concat (map postorder items) @ [parser_node_count p3]
        = [parser_node_count p0..<parser_node_count p4]" "parser_node_count p0 < parser_node_count p4"
      using b m(3,4,5) p(3,5) by (auto simp: bracket_result_def frame_def)
    ultimately show "yields (Inr (Call ?loc ?name items, p4)) (node_result p0 8)"
      using m(1) unfolding node_result_def yields_Inr
      by (auto simp: lo_def)
  qed
qed (use assms in auto)

section \<open>Literals\<close>

lemma text_of_good: "parser_good p \<Longrightarrow> expr_text (parser_source p) = Some (parser_text p)"
  by (auto simp: parser_good_def parser_text_def elim!: lexer_goodE)

lemma literal_yields:
  assumes g: "parser_good p" and k: "is_literal_token (current_kind p)"
  shows "yields (literal_of_token p (parser_current p))
    (denotes_literal (parser_text p) (parser_current p))"
proof -
  let ?t = "parser_current p"
  let ?u = "token_text (parser_text p) ?t"
  have copy: "confit_v2_expression_token_copy p ?t = ?u"
    by (simp add: confit_v2_expression_token_copy_def token_text_def)
  have shape: "token_shape (current_kind p) ?u" using g by (simp add: parser_good_def current_ok_def)
  consider "tok_kind ?t = TOKEN_TRUE" | "tok_kind ?t = TOKEN_FALSE" | "tok_kind ?t = TOKEN_TRISTATE"
    | "tok_kind ?t = TOKEN_INTEGER" | "tok_kind ?t = TOKEN_HEX" | "tok_kind ?t = TOKEN_FLOAT"
    | "tok_kind ?t = TOKEN_STRING" using k by (auto simp: is_literal_token_def)
  then show ?thesis
  proof cases
    case 3
    have "tok_start ?t < length (parser_text p)" "tok_end ?t \<le> length (parser_text p)"
      "tok_start ?t < tok_end ?t"
      using real_current [OF g] 3 good_text_size [OF g] by (auto simp: lo_def)
    moreover have "length ?u = 1" using shape 3 by (auto simp: token_shape_def)
    ultimately have "?u = [char_at (parser_text p) (tok_start ?t)]"
      by (cases ?u) (auto simp: token_text_def slice_Cons)
    with 3 show ?thesis by (simp add: literal_of_token_def denotes_literal_def copy)
  next
    case 4
    have "sint raw = int (unat raw)" if "\<not> raw > INT64_MAX" for raw :: u64
    proof -
      have "unat raw < 2 ^ 63" using that by (simp add: INT64_MAX_def not_less word_le_nat_alt)
      then show ?thesis by (rule sint_u64_small)
    qed
    with 4 parse_uint64_exact [of 10 ?u] show ?thesis
      by (auto simp: literal_of_token_def denotes_literal_def copy Let_def split: option.splits)
  next
    case 5
    with parse_uint64_exact [of 16 "drop 2 ?u"] show ?thesis
      by (auto simp: literal_of_token_def denotes_literal_def copy Let_def split: option.splits)
  next
    case 6
    then show ?thesis
      by (auto simp: literal_of_token_def denotes_literal_def copy Let_def split: option.splits)
  next
    case 7
    have "tok_start ?t + 2 \<le> tok_end ?t" using g 7 by (simp add: parser_good_def current_ok_def lo_def)
    with 7 show ?thesis
      by (auto simp: literal_of_token_def denotes_literal_def Let_def text_of_good [OF g]
          expression_token_string_value lift_stop_def schema_stop_def split: option.splits)
  qed (simp_all add: literal_of_token_def denotes_literal_def)
qed


section \<open>The functions of the descent\<close>

lemma spans_literal: "i < j \<Longrightarrow> j \<le> len \<Longrightarrow>
    spans_ok len (Literal \<lparr>info_addr = a, info_start = i, info_end = j\<rparr> l)
    \<and> spans_ok len (Reference \<lparr>info_addr = a, info_start = i, info_end = j\<rparr> r)"
  by (simp add: spans_ok_def children_ordered_def)

lemma parse_parenthesized_result:
  assumes pe: "expression_parser parse_expression w" and g: "parser_good p"
    and k: "current_kind p = TOKEN_LEFT_PAREN" and w: "weight p \<le> w"
  shows "yields (parse_parenthesized parse_expression nesting p) (node_result p 8)"
  unfolding parse_parenthesized_def
proof (rule yields_bind [OF advance_yields [OF g]], simp add: k)
  fix p1 assume a: "parser_good p1 \<and> frame p p1 \<and> weight p1 < weight p
    \<and> tok_end (parser_current p) \<le> lo p1 \<and> parser_node_count p1 = parser_node_count p
    \<and> consumes p [parser_current p] p1"
  with w pe have e: "yields (parse_expression (nesting + 1) p1) (node_result p1 0)"
    by (simp add: expression_parser_def)
  let ?n = "\<lambda>n p2. set_node_range (tok_start (parser_current p)) (tok_end (parser_current p2)) n"
  show "yields (bind_res (parse_expression (nesting + 1) p1) (\<lambda>(node, p2).
    if current_kind p2 \<noteq> TOKEN_RIGHT_PAREN
    then parse_error p2 (tok_start (parser_current p2)) kExpressionExpectedRightParen
    else bind_res (confit_v2_expression_advance p2) (\<lambda>p3. Inr (?n node p2, p3)))) (node_result p 8)"
  proof (rule yields_bind [OF e], clarify)
    fix n p2 assume n: "node_result p1 0 (n, p2)"
    have g2: "parser_good p2" using n by (simp add: node_result_def)
    show "yields (if current_kind p2 \<noteq> TOKEN_RIGHT_PAREN
      then parse_error p2 (tok_start (parser_current p2)) kExpressionExpectedRightParen
      else bind_res (confit_v2_expression_advance p2) (\<lambda>p3. Inr (?n n p2, p3))) (node_result p 8)"
    proof (cases "current_kind p2 = TOKEN_RIGHT_PAREN")
      case True
      then have real2: "current_kind p2 \<noteq> TOKEN_EOF" by simp
      from advance_yields [OF g2 real2] True show ?thesis
      proof (simp, elim yields_bind)
        fix p3 assume 3: "parser_good p3 \<and> frame p2 p3 \<and> weight p3 < weight p2
          \<and> tok_end (parser_current p2) \<le> lo p3 \<and> parser_node_count p3 = parser_node_count p2
          \<and> consumes p2 [parser_current p2] p3"
        from n obtain ts where ts: "consumes p1 ts p2" "derives (parser_text p1) 0 ts n"
          by (auto simp: node_result_def)
        have "frame p p3"
          by (rule frame_trans [of _ p1], use a in simp, rule frame_trans [of _ p2])
            (use n 3 in \<open>auto simp: node_result_def\<close>)
        moreover have "consumes p (parser_current p # ts @ [parser_current p2]) p3"
          using consumes_append [OF _ consumes_append [OF ts(1)], of p "[parser_current p]"] a 3 by auto
        moreover have "derives (parser_text p) 8 (parser_current p # ts @ [parser_current p2]) (?n n p2)"
          using derives_paren [OF k ts(2) True] frame_text [of p p1] a by simp
        moreover have "spans_ok (text_size p) (?n n p2)"
        proof (rule spans_ok_set_range)
          have "text_size p1 = text_size p" "text_size p2 = text_size p" "lo p \<le> lo p1"
            using a n by (auto simp: frame_def node_result_def)
          then show "spans_ok (text_size p) n" "tok_start (parser_current p) \<le> node_start n"
            "node_end n \<le> tok_end (parser_current p2)" "tok_end (parser_current p2) \<le> text_size p"
            using n real_current [OF g2 real2] by (auto simp: node_result_def lo_def)
        qed
        ultimately show "yields (Inr (?n n p2, p3)) (node_result p 8)"
          using a n 3 by (auto simp: node_result_def lo_def)
      qed
    qed simp
  qed
qed

lemma parse_identifier_result:
  assumes pe: "expression_parser parse_expression w" and g: "parser_good p"
    and k: "current_kind p = TOKEN_IDENTIFIER" and w: "weight p \<le> w" "weight p \<le> fuel"
  shows "yields (parse_identifier parse_expression fuel nesting p) (node_result p 8)"
proof -
  let ?copy = "confit_v2_expression_token_copy p (parser_current p)"
  let ?loc = "\<lambda>p1. \<lparr>info_addr = parser_node_count p1, info_start = tok_start (parser_current p),
     info_end = tok_end (parser_current p)\<rparr>"
  have copy: "?copy = token_text (parser_text p) (parser_current p)"
    by (simp add: confit_v2_expression_token_copy_def token_text_def)
  show ?thesis unfolding parse_identifier_def Let_def
  proof (rule yields_bind [OF advance_yields [OF g]], simp add: k)
    fix p1 assume a: "parser_good p1 \<and> frame p p1 \<and> weight p1 < weight p
      \<and> tok_end (parser_current p) \<le> lo p1 \<and> parser_node_count p1 = parser_node_count p
      \<and> consumes p [parser_current p] p1"
    have call: "current_kind p1 = TOKEN_LEFT_PAREN \<Longrightarrow>
      yields (confit_v2_expression_parse_call parse_expression fuel (parser_current p) nesting p1)
        (node_result p 8)"
      by (rule parse_call_result [OF pe]) (use a w g k in auto)
    have "yields (bind_res (confit_v2_expression_make_node p1 (tok_start (parser_current p))
           (tok_end (parser_current p))) (\<lambda>(loc, p2). Inr (Reference loc ?copy, p2)))
           (node_result p 8)" if dot: "CHR ''.'' \<in> set ?copy"
    proof (rule yields_bind [OF make_node_yields], use a in simp, clarify)
      fix loc p2 assume m: "parser_good p2" "frame p1 p2" "weight p2 = weight p1" "lo p2 = lo p1"
        "parser_node_count p2 = Suc (parser_node_count p1)" "consumes p1 [] p2"
      have "frame p p2" using a m(2) frame_trans by blast
      moreover have "consumes p [parser_current p] p2"
        using consumes_append [OF _ m(6), of p "[parser_current p]"] a by simp
      moreover have "derives (parser_text p) 8 [parser_current p] (Reference (?loc p1) ?copy)"
        unfolding copy by (rule derives_reference) (use k dot copy in simp_all)
      ultimately show "yields (Inr (Reference (?loc p1) ?copy, p2)) (node_result p 8)"
        using a m(1,3,4,5) real_current [OF g] k spans_literal
        by (auto simp: node_result_def lo_def)
    qed
    with call show "yields (if current_kind p1 = TOKEN_LEFT_PAREN
      then confit_v2_expression_parse_call parse_expression fuel (parser_current p) nesting p1
      else if CHR ''.'' \<notin> set ?copy
      then parse_error p1 (tok_start (parser_current p)) ''expected expression''
      else bind_res (confit_v2_expression_make_node p1 (tok_start (parser_current p))
             (tok_end (parser_current p))) (\<lambda>(loc, p2). Inr (Reference loc ?copy, p2)))
      (node_result p 8)" by simp
  qed
qed

lemma parse_literal_result:
  assumes g: "parser_good p" and k: "is_literal_token (current_kind p)"
  shows "yields (parse_literal p) (node_result p 8)"
  unfolding parse_literal_def Let_def
proof (rule yields_bind [OF make_node_yields [OF g]], clarify, rule yields_bind [OF literal_yields [OF g k]])
  fix loc p1 l
  assume m: "parser_good p1" "frame p p1" "weight p1 = weight p" "lo p1 = lo p"
    "parser_node_count p1 = Suc (parser_node_count p)" "current_kind p1 = current_kind p"
    "parser_current p1 = parser_current p" "consumes p [] p1"
    and l: "denotes_literal (parser_text p) (parser_current p) l"
  let ?loc = "\<lparr>info_addr = parser_node_count p, info_start = tok_start (parser_current p),
     info_end = tok_end (parser_current p)\<rparr>"
  have real: "current_kind p \<noteq> TOKEN_EOF" using k by (auto simp: is_literal_token_def)
  with m(6) have real1: "current_kind p1 \<noteq> TOKEN_EOF" by simp
  show "yields (bind_res (confit_v2_expression_advance p1) (\<lambda>p2. Inr (Literal ?loc l, p2)))
    (node_result p 8)"
  proof (rule yields_bind [OF advance_yields [OF m(1) real1]])
    fix p2 assume a: "parser_good p2 \<and> frame p1 p2 \<and> weight p2 < weight p1
      \<and> tok_end (parser_current p1) \<le> lo p2 \<and> parser_node_count p2 = parser_node_count p1
      \<and> consumes p1 [parser_current p1] p2"
    have "frame p p2" using a m(2) frame_trans by blast
    moreover have "consumes p [parser_current p] p2"
      using consumes_append [OF m(8)] a m(7) by fastforce
    moreover have "derives (parser_text p) 8 [parser_current p] (Literal ?loc l)"
      using l by (rule derives_literal)
    ultimately show "yields (Inr (Literal ?loc l, p2)) (node_result p 8)"
      using a m(3,5,7) real_current [OF g real] spans_literal
      by (auto simp: node_result_def lo_def)
  qed
qed

lemma parse_primary_result:
  assumes "expression_parser parse_expression w" "parser_good p" "weight p \<le> w" "weight p \<le> fuel"
  shows "yields (confit_v2_expression_parse_primary parse_expression fuel nesting p) (node_result p 8)"
  using parse_parenthesized_result [OF assms(1,2) _ assms(3)] parse_list_result [OF assms]
    parse_identifier_result [OF assms(1,2) _ assms(3,4)] parse_literal_result [OF assms(2)]
  by (simp add: confit_v2_expression_parse_primary_def Let_def)

lemma parse_unary_result:
  assumes pe: "expression_parser parse_expression w"
  shows "parser_good p \<Longrightarrow> weight p \<le> w \<Longrightarrow> weight p < fuel
    \<Longrightarrow> yields (confit_v2_expression_parse_unary parse_expression fuel nesting p) (node_result p 7)"
proof (induction fuel arbitrary: p nesting)
  case (Suc fuel)
  show ?case
  proof (cases "unary_of_token (current_kind p)")
    case None
    have "yields (confit_v2_expression_parse_primary parse_expression fuel nesting p) (node_result p 8)"
      using parse_primary_result [OF pe Suc.prems(1,2)] Suc.prems(3) by simp
    with None show ?thesis by (auto elim!: yields_mono intro: node_result_down)
  next
    case (Some u)
    then have real: "current_kind p \<noteq> TOKEN_EOF" by (auto simp: unary_of_token_def)
    show ?thesis unfolding confit_v2_expression_parse_unary.simps Some option.case
    proof (rule yields_bind [OF advance_yields [OF Suc.prems(1) real]])
      fix p1 assume a: "parser_good p1 \<and> frame p p1 \<and> weight p1 < weight p
        \<and> tok_end (parser_current p) \<le> lo p1 \<and> parser_node_count p1 = parser_node_count p
        \<and> consumes p [parser_current p] p1"
      have rec: "yields (confit_v2_expression_parse_unary parse_expression fuel (nesting + 1) p1)
        (node_result p1 7)" by (rule Suc.IH) (use a Suc.prems in auto)
      show "yields (bind_res (confit_v2_expression_parse_unary parse_expression fuel (nesting + 1) p1)
        (\<lambda>(operand, p2). bind_res (confit_v2_expression_make_node p2 (tok_start (parser_current p))
          (node_end operand)) (\<lambda>(loc, p3). Inr (Unary loc u operand, p3)))) (node_result p 7)"
      proof (rule yields_bind [OF rec], clarify)
        fix n p2 assume n: "node_result p1 7 (n, p2)"
        then have g: "parser_good p2" by (simp add: node_result_def)
        show "yields (bind_res (confit_v2_expression_make_node p2 (tok_start (parser_current p))
          (node_end n)) (\<lambda>(loc, p3). Inr (Unary loc u n, p3))) (node_result p 7)"
        proof (rule yields_bind [OF make_node_yields [OF g]], clarify)
          fix loc p3 assume m: "parser_good p3" "frame p2 p3" "weight p3 = weight p2" "lo p3 = lo p2"
            "parser_node_count p3 = Suc (parser_node_count p2)" "consumes p2 [] p3"
          let ?n = "Unary \<lparr>info_addr = parser_node_count p2, info_start = tok_start (parser_current p),
             info_end = node_end n\<rparr> u n"
          from n obtain ts where ts: "consumes p1 ts p2" "derives (parser_text p1) 7 ts n"
            by (auto simp: node_result_def)
          have "frame p p3"
            by (rule frame_trans [of _ p1], use a in simp, rule frame_trans [of _ p2])
              (use n m in \<open>auto simp: node_result_def\<close>)
          moreover have "consumes p (parser_current p # ts) p3"
            using consumes_append [OF _ consumes_append [OF ts(1) m(6)], of p "[parser_current p]"] a
            by simp
          moreover have "derives (parser_text p) 7 (parser_current p # ts) ?n"
            using derives_unary [OF Some ts(2)] frame_text [of p p1] a by simp
          moreover have "text_size p1 = text_size p" "lo p \<le> lo p1" using a by (auto simp: frame_def)
          moreover from this have "spans_ok (text_size p) ?n"
            using n real_current [OF Suc.prems(1) real] a
            by (subst spans_ok_node) (auto simp: node_result_def children_ordered_def lo_def spans_ok_node [of _ n])
          ultimately show "yields (Inr (?n, p3)) (node_result p 7)"
            using a n m by (auto simp: node_result_def lo_def)
        qed
      qed
    qed
  qed
qed simp


lemma binary_spans:
  assumes "spans_ok len l" "spans_ok len r" "node_end l \<le> node_start r"
  shows "spans_ok len (Binary \<lparr>info_addr = a, info_start = node_start l, info_end = node_end r\<rparr> b l r)"
  using assms spans_ok_node [of len l] spans_ok_node [of len r]
  by (subst spans_ok_node) (auto simp: children_ordered_def)

lemma binary_result:
  assumes left: "node_result p0 (if k = 4 then 5 else k) (l, p)"
    and operator: "confit_v2_expression_operator_precedence (current_kind p) = Some (k, b)"
    and a: "parser_good p1 \<and> frame p p1 \<and> weight p1 < weight p
      \<and> tok_end (parser_current p) \<le> lo p1 \<and> parser_node_count p1 = parser_node_count p
      \<and> consumes p [parser_current p] p1"
    and right: "node_result p1 (Suc k) (r, p2)"
    and m: "parser_good p3" "frame p2 p3" "weight p3 = weight p2" "lo p3 = lo p2"
      "parser_node_count p3 = Suc (parser_node_count p2)" "consumes p2 [] p3"
  defines "n \<equiv> Binary \<lparr>info_addr = parser_node_count p2, info_start = node_start l,
      info_end = node_end r\<rparr> b l r"
  shows "node_result p0 k (n, p3)"
proof -
  from left obtain ts where ts: "consumes p0 ts p" "derives (parser_text p0) (if k = 4 then 5 else k) ts l"
    by (auto simp: node_result_def)
  from right obtain us where us: "consumes p1 us p2" "derives (parser_text p1) (Suc k) us r"
    by (auto simp: node_result_def)
  have fr: "frame p0 p1" using left a frame_trans by (auto simp: node_result_def)
  have "frame p0 p3"
    by (rule frame_trans [OF fr], rule frame_trans [of _ p2]) (use right m in \<open>auto simp: node_result_def\<close>)
  moreover have "consumes p0 (ts @ parser_current p # us) p3"
    using consumes_append [OF ts(1) consumes_append [OF _ consumes_append [OF us(1) m(6)], of p "[parser_current p]"]] a
    by simp
  moreover have "derives (parser_text p0) k (ts @ parser_current p # us) n"
    unfolding n_def using derives_binary [OF operator ts(2)] us(2) frame_text [OF fr] by simp
  moreover have sz: "text_size p1 = text_size p0" using fr by (simp add: frame_def)
  have "node_end l \<le> node_start r" using left right a by (auto simp: node_result_def frame_def)
  then have "spans_ok (text_size p0) n"
    unfolding n_def using left right sz by (intro binary_spans) (auto simp: node_result_def)
  moreover have "postorder n = [parser_node_count p0..<parser_node_count p3]"
    using left right a m(5) by (auto simp: node_result_def n_def upt_append less_imp_le)
  ultimately show ?thesis
    using left right a m(1,3,4,5) by (auto simp: node_result_def n_def)
qed

definition operand_parser :: "(parser \<Rightarrow> parse_stop + expr_node \<times> parser) \<Rightarrow> nat \<Rightarrow> nat \<Rightarrow> bool" where
  "operand_parser parse_operand k w \<longleftrightarrow>
     (\<forall>p. parser_good p \<longrightarrow> weight p \<le> w \<longrightarrow> yields (parse_operand p) (node_result p k))"

lemma parse_chain_loop_result:
  assumes op: "operand_parser parse_operand (Suc k) w" and k: "k \<le> 6"
  shows "node_result p0 k (l, p) \<Longrightarrow> (k = 4 \<and> \<not> saw \<Longrightarrow> node_result p0 5 (l, p))
    \<Longrightarrow> weight p \<le> w \<Longrightarrow> weight p < fuel
    \<Longrightarrow> yields (parse_chain_loop parse_operand fuel k saw l p) (node_result p0 k)"
proof (induction fuel arbitrary: p l saw)
  case (Suc fuel)
  show ?case
  proof (cases "\<exists>b. confit_v2_expression_operator_precedence (current_kind p) = Some (k, b)
      \<and> \<not> (k = 4 \<and> saw)")
    case False
    with Suc.prems(1) show ?thesis by (auto split: option.splits)
  next
    case True
    then obtain b where b: "confit_v2_expression_operator_precedence (current_kind p) = Some (k, b)"
      and saw: "\<not> (k = 4 \<and> saw)" by blast
    then have real: "current_kind p \<noteq> TOKEN_EOF"
      by (auto simp: confit_v2_expression_operator_precedence_def)
    have g: "parser_good p" and left: "node_result p0 (if k = 4 then 5 else k) (l, p)"
      using Suc.prems(1,2) saw by (auto simp: node_result_def)
    from saw have cond: "(k = 4 \<and> saw) = False" by simp
    show ?thesis unfolding parse_chain_loop.simps b option.case prod.case cond if_False not_True_eq_False
      refl [THEN eqTrueI]
    proof (rule yields_bind [OF advance_yields [OF g real]])
      fix p1 assume a: "parser_good p1 \<and> frame p p1 \<and> weight p1 < weight p
        \<and> tok_end (parser_current p) \<le> lo p1 \<and> parser_node_count p1 = parser_node_count p
        \<and> consumes p [parser_current p] p1"
      have o: "yields (parse_operand p1) (node_result p1 (Suc k))"
        using op a Suc.prems(3) by (simp add: operand_parser_def)
      show "yields (bind_res (parse_operand p1) (\<lambda>(right, p2).
        bind_res (confit_v2_expression_make_node p2 (node_start l) (node_end right)) (\<lambda>(loc, p3).
          parse_chain_loop parse_operand fuel k (saw \<or> k = 4) (Binary loc b l right) p3)))
        (node_result p0 k)"
      proof (rule yields_bind [OF o], clarify)
        fix r p2 assume r: "node_result p1 (Suc k) (r, p2)"
        then have g2: "parser_good p2" by (simp add: node_result_def)
        show "yields (bind_res (confit_v2_expression_make_node p2 (node_start l) (node_end r)) (\<lambda>(loc, p3).
          parse_chain_loop parse_operand fuel k (saw \<or> k = 4) (Binary loc b l r) p3)) (node_result p0 k)"
        proof (rule yields_bind [OF make_node_yields [OF g2]], clarify)
          fix loc p3 assume m: "parser_good p3" "frame p2 p3" "weight p3 = weight p2" "lo p3 = lo p2"
            "parser_node_count p3 = Suc (parser_node_count p2)" "consumes p2 [] p3"
          show "yields (parse_chain_loop parse_operand fuel k (saw \<or> k = 4)
            (Binary \<lparr>info_addr = parser_node_count p2, info_start = node_start l, info_end = node_end r\<rparr> b l r) p3)
            (node_result p0 k)"
            by (rule Suc.IH [OF binary_result [OF left b a r m]])
              (use a r m Suc.prems(3,4) in \<open>auto simp: node_result_def\<close>)
        qed
      qed
    qed
  qed
qed simp

lemma parse_binary_chain_result:
  assumes pe: "expression_parser parse_expression w"
  shows "1 \<le> k \<Longrightarrow> k \<le> 7 \<Longrightarrow> parser_good p \<Longrightarrow> weight p \<le> w \<Longrightarrow> weight p < fuel
    \<Longrightarrow> yields (confit_v2_expression_parse_binary_chain parse_expression fuel k nesting p) (node_result p k)"
proof (induction "7 - k" arbitrary: k p)
  case 0
  then have "k = 7" by simp
  with parse_unary_result [OF pe, of p fuel nesting] 0 show ?case
    by (simp add: confit_v2_expression_parse_binary_chain.simps)
next
  case (Suc d)
  let ?chain = "confit_v2_expression_parse_binary_chain parse_expression fuel (k + 1) nesting"
  have IH: "yields (?chain q) (node_result q (k + 1))"
    if "parser_good q" "weight q \<le> w" "weight q < fuel" for q
    using Suc.hyps(1) [of "k + 1" q] Suc.hyps(2) Suc.prems(1) that by simp
  have "yields (bind_res (?chain p) (\<lambda>(left, p1). parse_chain_loop ?chain fuel k False left p1))
    (node_result p k)"
  proof (rule yields_bind [OF IH [OF Suc.prems(3-5)]], clarify)
    fix l p1 assume l: "node_result p (k + 1) (l, p1)"
    have "operand_parser ?chain (Suc k) (min w (fuel - 1))"
      unfolding operand_parser_def using IH Suc.prems(5) by auto
    then show "yields (parse_chain_loop ?chain fuel k False l p1) (node_result p k)"
    proof (rule parse_chain_loop_result)
      show "node_result p k (l, p1)" using l Suc.hyps(2) by (auto intro: node_result_up)
      show "k = 4 \<and> \<not> False \<Longrightarrow> node_result p 5 (l, p1)" using l by simp
    qed (use l Suc.hyps(2) Suc.prems in \<open>auto simp: node_result_def\<close>)
  qed
  moreover have "k \<le> 6" using Suc.hyps(2) by simp
  ultimately show ?case
    by (subst confit_v2_expression_parse_binary_chain.simps) simp
qed

lemma conditional_result:
  assumes c: "node_result p 1 (c, p1)" and q: "current_kind p1 = TOKEN_QUESTION"
    and a: "parser_good p2 \<and> frame p1 p2 \<and> weight p2 < weight p1
      \<and> tok_end (parser_current p1) \<le> lo p2 \<and> parser_node_count p2 = parser_node_count p1
      \<and> consumes p1 [parser_current p1] p2"
    and t: "node_result p2 0 (t, p3)" and colon: "current_kind p3 = TOKEN_COLON"
    and b: "parser_good p4 \<and> frame p3 p4 \<and> weight p4 < weight p3
      \<and> tok_end (parser_current p3) \<le> lo p4 \<and> parser_node_count p4 = parser_node_count p3
      \<and> consumes p3 [parser_current p3] p4"
    and f: "node_result p4 0 (f, p5)"
    and m: "parser_good p6" "frame p5 p6" "weight p6 = weight p5" "lo p6 = lo p5"
      "parser_node_count p6 = Suc (parser_node_count p5)" "consumes p5 [] p6"
  defines "n \<equiv> Conditional \<lparr>info_addr = parser_node_count p5, info_start = node_start c,
      info_end = node_end f\<rparr> c t f"
  shows "node_result p 0 (n, p6)"
proof -
  from c obtain ts where ts: "consumes p ts p1" "derives (parser_text p) 1 ts c"
    by (auto simp: node_result_def)
  from t obtain us where us: "consumes p2 us p3" "derives (parser_text p2) 0 us t"
    by (auto simp: node_result_def)
  from f obtain vs where vs: "consumes p4 vs p5" "derives (parser_text p4) 0 vs f"
    by (auto simp: node_result_def)
  have f2: "frame p p2" using c a frame_trans by (auto simp: node_result_def)
  have f4: "frame p p4"
    by (rule frame_trans [OF f2], rule frame_trans [of _ p3]) (use t b in \<open>auto simp: node_result_def\<close>)
  have f6: "frame p p6"
    by (rule frame_trans [OF f4], rule frame_trans [of _ p5]) (use f m in \<open>auto simp: node_result_def\<close>)
  have c2: "consumes p (ts @ [parser_current p1]) p2" using ts(1) a consumes_append by blast
  have c4: "consumes p2 (us @ [parser_current p3]) p4" using us(1) b consumes_append by blast
  have "consumes p4 (vs @ []) p6" using vs(1) m(6) by (rule consumes_append)
  from consumes_append [OF c2 consumes_append [OF c4 this]]
  have "consumes p (ts @ parser_current p1 # us @ parser_current p3 # vs) p6" by simp
  moreover have "derives (parser_text p) 0 (ts @ parser_current p1 # us @ parser_current p3 # vs) n"
    unfolding n_def using derives_conditional [OF ts(2) q _ colon] us(2) vs(2)
    by (simp add: frame_text [OF f2] frame_text [OF f4])
  moreover have "spans_ok (text_size p) n"
  proof -
    have "text_size p2 = text_size p" "text_size p4 = text_size p" using f2 f4 by (auto simp: frame_def)
    then have "spans_ok (text_size p) c" "spans_ok (text_size p) t" "spans_ok (text_size p) f"
      "node_end c \<le> node_start t" "node_end t \<le> node_start f"
      using c t f a b by (auto simp: node_result_def frame_def)
    then show ?thesis unfolding n_def
      using spans_ok_node [of _ c] spans_ok_node [of _ t] spans_ok_node [of _ f]
      by (subst spans_ok_node) (auto simp: children_ordered_def)
  qed
  moreover have "postorder n = [parser_node_count p..<parser_node_count p6]"
    using c t f a b m(5) by (auto simp: node_result_def n_def upt_append less_imp_le)
  ultimately show ?thesis using f6 c t f a b m(1,3,4,5) by (auto simp: node_result_def n_def)
qed

lemma parse_conditional_result: "expression_parser (\<lambda>nesting. confit_v2_expression_parse_conditional fuel nesting) fuel"
proof (induction fuel)
  case (Suc fuel)
  let ?cond = "confit_v2_expression_parse_conditional fuel"
  have rec: "yields (?cond nesting q) (node_result q 0)" if "parser_good q" "weight q < fuel" for q nesting
    using Suc.IH that by (simp add: expression_parser_def)
  show ?case unfolding expression_parser_def
  proof (intro allI impI)
    fix p nesting assume p: "parser_good p" "weight p < Suc fuel"
    have chain: "yields (confit_v2_expression_parse_binary_chain ?cond (Suc fuel) 1 nesting p) (node_result p 1)"
      by (rule parse_binary_chain_result [OF Suc.IH]) (use p in auto)
    show "yields (confit_v2_expression_parse_conditional (Suc fuel) nesting p) (node_result p 0)"
      unfolding confit_v2_expression_parse_conditional.simps
    proof (rule yields_bind [OF chain], clarify)
      fix c p1 assume c: "node_result p 1 (c, p1)"
      then have g1: "parser_good p1" by (simp add: node_result_def)
      show "yields (if current_kind p1 = TOKEN_QUESTION then
         bind_res (confit_v2_expression_advance p1) (\<lambda>p2.
         bind_res (?cond (nesting + 1) p2) (\<lambda>(when_true, p3).
           if current_kind p3 \<noteq> TOKEN_COLON
           then parse_error p3 (tok_start (parser_current p3)) kExpressionExpectedColon
           else
             bind_res (confit_v2_expression_advance p3) (\<lambda>p4.
             bind_res (?cond (nesting + 1) p4) (\<lambda>(when_false, p5).
             bind_res (confit_v2_expression_make_node p5 (node_start c) (node_end when_false))
               (\<lambda>(loc, p6). Inr (Conditional loc c when_true when_false, p6))))))
       else Inr (c, p1)) (node_result p 0)"
      proof (cases "current_kind p1 = TOKEN_QUESTION")
        case False
        with c show ?thesis by (auto intro: node_result_up)
      next
        case True
        then have real: "current_kind p1 \<noteq> TOKEN_EOF" by simp
        show ?thesis unfolding True refl [THEN eqTrueI] if_True
        proof (rule yields_bind [OF advance_yields [OF g1 real]], rule yields_bind [OF rec])
          fix p2 r assume a: "parser_good p2 \<and> frame p1 p2 \<and> weight p2 < weight p1
            \<and> tok_end (parser_current p1) \<le> lo p2 \<and> parser_node_count p2 = parser_node_count p1
            \<and> consumes p1 [parser_current p1] p2"
          then show "parser_good p2" "weight p2 < fuel" using c p by (auto simp: node_result_def)
          assume r: "node_result p2 0 r"
          obtain t p3 where rt: "r = (t, p3)" by (cases r)
          have t: "node_result p2 0 (t, p3)" and g3: "parser_good p3" using r rt by (auto simp: node_result_def)
          show "yields (case r of (when_true, p3) \<Rightarrow>
             if current_kind p3 \<noteq> TOKEN_COLON
             then parse_error p3 (tok_start (parser_current p3)) kExpressionExpectedColon
             else
               bind_res (confit_v2_expression_advance p3) (\<lambda>p4.
               bind_res (?cond (nesting + 1) p4) (\<lambda>(when_false, p5).
               bind_res (confit_v2_expression_make_node p5 (node_start c) (node_end when_false))
                 (\<lambda>(loc, p6). Inr (Conditional loc c when_true when_false, p6))))) (node_result p 0)"
          proof (cases "current_kind p3 = TOKEN_COLON")
            case colon: True
            then have real3: "current_kind p3 \<noteq> TOKEN_EOF" by simp
            show ?thesis unfolding rt prod.case colon refl [THEN eqTrueI] not_True_eq_False if_False
            proof (rule yields_bind [OF advance_yields [OF g3 real3]], rule yields_bind [OF rec])
              fix p4 r' assume b: "parser_good p4 \<and> frame p3 p4 \<and> weight p4 < weight p3
                \<and> tok_end (parser_current p3) \<le> lo p4 \<and> parser_node_count p4 = parser_node_count p3
                \<and> consumes p3 [parser_current p3] p4"
              then show "parser_good p4" "weight p4 < fuel" using c p t a by (auto simp: node_result_def)
              assume r': "node_result p4 0 r'"
              obtain f p5 where rf: "r' = (f, p5)" by (cases r')
              have f: "node_result p4 0 (f, p5)" and g5: "parser_good p5" using r' rf by (auto simp: node_result_def)
              show "yields (case r' of (when_false, p5) \<Rightarrow>
                 bind_res (confit_v2_expression_make_node p5 (node_start c) (node_end when_false))
                   (\<lambda>(loc, p6). Inr (Conditional loc c t when_false, p6))) (node_result p 0)"
                unfolding rf prod.case
                by (rule yields_bind [OF make_node_yields [OF g5]], clarify)
                  (use conditional_result [OF c True a t colon b f] in simp)
            qed
          qed (simp add: rt)
        qed
      qed
    qed
  qed
qed (simp add: expression_parser_def)


section \<open>The whole function\<close>

definition start_parser :: "expression_text \<Rightarrow> expression_limits \<Rightarrow> parser" where
  "start_parser source limits =
     \<lparr>parser_source = source,
      parser_lexer = confit_v2_expression_lexer_init source (max_tokens limits),
      parser_current = make_token TOKEN_EOF 0 0,
      parser_limits = limits, parser_node_count = 0\<rparr>"

lemma first_advance:
  assumes "expr_text source = Some s" "is_cstring s"
  shows "yields (confit_v2_expression_advance (start_parser source limits)) (\<lambda>p.
     parser_good p \<and> parser_source p = source \<and> parser_limits p = limits
     \<and> parser_node_count p = 0 \<and> text_size p = length s
     \<and> confit_v2_expression_lexer_next (confit_v2_expression_lexer_init source (max_tokens limits))
         = Inr (parser_current p, parser_lexer p))"
proof -
  let ?lx = "confit_v2_expression_lexer_init source (max_tokens limits)"
  have g: "lexer_good ?lx" and src: "expr_text (lex_source ?lx) = Some s"
    and sz: "lexer_size ?lx = length s"
    using assms by (simp_all add: confit_v2_expression_lexer_init_def lexer_good_def lexer_size_def)
  show ?thesis
  proof (cases "confit_v2_expression_lexer_next ?lx")
    case (Inl d)
    with lexer_next_error_status [OF g Inl] show ?thesis
      by (simp add: confit_v2_expression_advance_def start_parser_def schema_stop_def)
  next
    case (Inr r)
    obtain t lx' where r: "r = (t, lx')" by (cases r)
    note n = lexer_good_next [OF g Inr [unfolded r]]
    note shape = lexer_next_string_token [OF g Inr [unfolded r] src]
    have src': "lex_source lx' = source"
      using shape by (simp add: confit_v2_expression_lexer_init_def)
    have two: "tok_kind t = TOKEN_STRING \<Longrightarrow> tok_start t + 2 \<le> tok_end t"
      using shape string_shape_length [of "slice s (tok_start t) (tok_end t)"] by (auto simp: slice_def)
    from n shape src' sz two Inr r assms show ?thesis
      by (auto simp: confit_v2_expression_advance_def start_parser_def parser_good_def current_ok_def
          lo_def text_size_def token_text_def parser_text_def split: if_splits)
  qed
qed

lemma consumes_delivers:
  "consumes p ts q \<Longrightarrow> \<exists>us. delivers confit_v2_expression_lexer_next (parser_lexer p) us (parser_lexer q)
    \<and> parser_current p # us = ts @ [parser_current q]"
proof (induction rule: consumes.induct)
  case (consumes_none q p)
  then show ?case by (auto intro: delivers_none)
next
  case (consumes_more p t q ts r)
  then obtain us where us: "delivers confit_v2_expression_lexer_next (parser_lexer q) us (parser_lexer r)"
    "parser_current q # us = ts @ [parser_current r]" by blast
  from consumes_more.hyps(2) have
    "confit_v2_expression_lexer_next (parser_lexer p) = Inr (parser_current q, parser_lexer q)"
    by (auto simp: confit_v2_expression_advance_def split: sum.splits)
  from delivers_more [OF this us(1)] us(2) consumes_more.hyps(1) show ?case by auto
qed

text \<open>What a parsed expression is, with the tokens it was read from.\<close>

definition parsed_from :: "expression_text \<Rightarrow> expression_limits \<Rightarrow> expression \<Rightarrow> bool" where
  "parsed_from source limits x \<longleftrightarrow>
     (\<exists>s ts final lx. expr_text source = Some s \<and> expression_source x = s
      \<and> expression_span x = expr_span source
      \<and> delivers confit_v2_expression_lexer_next
          (confit_v2_expression_lexer_init source (max_tokens limits)) (ts @ [final]) lx
      \<and> tok_kind final = TOKEN_EOF \<and> derives s 0 ts (expression_root x)
      \<and> length s \<le> max_source_bytes limits \<and> length ts < max_tokens limits
      \<and> postorder (expression_root x) = [0..<length (node_addrs (expression_root x))]
      \<and> length (node_addrs (expression_root x)) \<le> max_nodes limits
      \<and> spans_ok (length s) (expression_root x))"

lemma parse_yields:
  fixes requested :: "expression_limits option"
  assumes "expr_text source = Some s" "is_cstring s"
  defines "limits \<equiv> confit_v2_expression_effective_limits requested"
  shows "yields (confit_v2_expression_parse source requested) (parsed_from source limits)"
proof (cases "length s > max_source_bytes limits")
  case True
  then show ?thesis by (simp add: confit_v2_expression_parse_def assms(1) Let_def limits_def)
next
  case False
  let ?lx = "confit_v2_expression_lexer_init source (max_tokens limits)"
  have "yields (bind_res (confit_v2_expression_advance (start_parser source limits)) (\<lambda>p1.
      bind_res (confit_v2_expression_parse_conditional (parse_fuel s) 1 p1) (\<lambda>(root, p2).
        if current_kind p2 \<noteq> TOKEN_EOF
        then parse_error p2 (tok_start (parser_current p2)) ''unexpected trailing expression token''
        else Inr \<lparr>expression_source = s, expression_span = expr_span source,
                  expression_root = root\<rparr>))) (parsed_from source limits)"
  proof (rule yields_bind [OF first_advance [OF assms(1,2)]])
    fix p1 assume 1: "parser_good p1 \<and> parser_source p1 = source \<and> parser_limits p1 = limits
      \<and> parser_node_count p1 = 0 \<and> text_size p1 = length s
      \<and> confit_v2_expression_lexer_next ?lx = Inr (parser_current p1, parser_lexer p1)"
    then have "weight p1 < parse_fuel s" by (auto simp: weight_def parse_fuel_def)
    with parse_conditional_result [of "parse_fuel s"] 1
    have cond: "yields (confit_v2_expression_parse_conditional (parse_fuel s) 1 p1) (node_result p1 0)"
      by (simp add: expression_parser_def)
    show "yields (bind_res (confit_v2_expression_parse_conditional (parse_fuel s) 1 p1) (\<lambda>(root, p2).
        if current_kind p2 \<noteq> TOKEN_EOF
        then parse_error p2 (tok_start (parser_current p2)) ''unexpected trailing expression token''
        else Inr \<lparr>expression_source = s, expression_span = expr_span source,
                  expression_root = root\<rparr>)) (parsed_from source limits)"
    proof (rule yields_bind [OF cond], clarify)
      fix root p2 assume r: "node_result p1 0 (root, p2)"
      then obtain ts where ts: "consumes p1 ts p2" "derives s 0 ts root"
        using 1 by (auto simp: node_result_def parser_text_def assms(1))
      from consumes_delivers [OF ts(1)] obtain us where
        us: "delivers confit_v2_expression_lexer_next (parser_lexer p1) us (parser_lexer p2)"
          "parser_current p1 # us = ts @ [parser_current p2]" by blast
      have d: "delivers confit_v2_expression_lexer_next ?lx (ts @ [parser_current p2]) (parser_lexer p2)"
        using delivers_more [OF _ us(1), of ?lx "parser_current p1"] 1 us(2) by simp
      have "length ts < max_tokens limits"
        using expression_lexer.delivers_budget [OF d] assms(1,2) by simp
      moreover have po: "postorder root = [0..<parser_node_count p2]" using r 1 by (simp add: node_result_def)
      moreover have "length (node_addrs root) = parser_node_count p2"
        using arg_cong [OF postorder_node_addrs [of root], of size] po by simp
      moreover have "parser_node_count p2 \<le> max_nodes limits"
        using r 1 by (auto simp: node_result_def parser_good_def frame_def)
      ultimately show "yields (if current_kind p2 \<noteq> TOKEN_EOF
        then parse_error p2 (tok_start (parser_current p2)) ''unexpected trailing expression token''
        else Inr \<lparr>expression_source = s, expression_span = expr_span source,
                  expression_root = root\<rparr>) (parsed_from source limits)"
        using d ts(2) r 1 False assms(1) by (auto simp: parsed_from_def node_result_def)
    qed
  qed
  with False show ?thesis
    by (simp add: confit_v2_expression_parse_def assms(1) Let_def limits_def start_parser_def)
qed


section \<open>Properties\<close>

definition sample_limits :: expression_limits where
  "sample_limits = \<lparr>max_source_bytes = 60, max_tokens = 20, max_nodes = 20, max_nesting = 6\<rparr>"

text \<open>The tree of \<open>!a.b || 2 < 3\<close>.\<close>

definition sample_tree :: expression where
  "sample_tree = \<lparr>expression_source = ''!a.b || 2 < 3'',
     expression_span = expr_span (sample_text ''!a.b || 2 < 3''),
     expression_root =
       Binary \<lparr>info_addr = 5, info_start = 0, info_end = 13\<rparr> BINARY_OR
         (Unary \<lparr>info_addr = 1, info_start = 0, info_end = 4\<rparr> UNARY_NOT
           (Reference \<lparr>info_addr = 0, info_start = 1, info_end = 4\<rparr> ''a.b''))
         (Binary \<lparr>info_addr = 4, info_start = 8, info_end = 13\<rparr> BINARY_LESS
           (Literal \<lparr>info_addr = 2, info_start = 8, info_end = 9\<rparr> (LITERAL_INT 2))
           (Literal \<lparr>info_addr = 3, info_start = 12, info_end = 13\<rparr> (LITERAL_INT 3)))\<rparr>"

lemma sample_parses:
  "confit_v2_expression_parse (sample_text ''!a.b || 2 < 3'') (Some sample_limits) = Inr sample_tree"
  by code_simp

lemma sample_cstring:
  "expr_text (sample_text ''!a.b || 2 < 3'') = Some ''!a.b || 2 < 3''" "is_cstring ''!a.b || 2 < 3''"
  by code_simp+

text \<open>C20. The parser returns on every C string: the fuel the model starts with, one more unit than
  the text has bytes and its end, is never used up, so the recursion of the C functions ends;
  and every failure is a schema error.\<close>

theorem expression_parse_terminates:
  assumes "expr_text source = Some s" and "is_cstring s"
  shows "case confit_v2_expression_parse source requested of
      Inl Out_Of_Fuel \<Rightarrow> False
    | Inl (Stop d) \<Rightarrow> diag_status d = CONFIT_ERR_SCHEMA
    | Inr x \<Rightarrow> expression_source x = s"
  using parse_yields [OF assms, of requested] assms(1)
  by (auto simp: yields_def schema_stop_def parsed_from_def split: sum.splits parse_stop.splits)

lemma expression_parse_terminates_witness:
  "case confit_v2_expression_parse (sample_text ''!a.b || 2 < 3'') None of
      Inl Out_Of_Fuel \<Rightarrow> False
    | Inl (Stop d) \<Rightarrow> diag_status d = CONFIT_ERR_SCHEMA
    | Inr x \<Rightarrow> expression_source x = ''!a.b || 2 < 3''"
  by (rule expression_parse_terminates [OF sample_cstring])

text \<open>C3. Soundness for the grammar: the tree that the parser returns is derived, by the grammar
  with its precedences, left associativity and non-associative relations, from exactly the
  tokens the lexer produces for the whole text, up to the end token; literals and references
  have the values their token texts denote.\<close>

theorem expression_parse_grammar:
  assumes "expr_text source = Some s" and "is_cstring s"
    and "confit_v2_expression_parse source requested = Inr x"
  shows "\<exists>ts final lx.
      delivers confit_v2_expression_lexer_next
        (confit_v2_expression_lexer_init source (max_tokens (confit_v2_expression_effective_limits requested)))
        (ts @ [final]) lx
    \<and> tok_kind final = TOKEN_EOF \<and> derives s 0 ts (expression_root x)"
  using parse_yields [OF assms(1,2), of requested] assms(1,3) by (auto simp: parsed_from_def)

lemma expression_parse_grammar_witness:
  "\<exists>ts. derives ''!a.b || 2 < 3'' 0 ts (expression_root sample_tree)"
  using expression_parse_grammar [OF sample_cstring sample_parses] by blast

text \<open>C21. Shape of the tree: its nodes are numbered in the order of allocation, children before
  their parent, without gaps, and no more than the node limit; every node covers a nonempty
  byte range of the text, and the ranges of its children lie inside it, one after the other;
  the source and token limits hold.\<close>

theorem expression_parse_tree:
  assumes "expr_text source = Some s" and "is_cstring s"
    and "confit_v2_expression_parse source requested = Inr x"
  defines "limits \<equiv> confit_v2_expression_effective_limits requested"
  shows "postorder (expression_root x) = [0..<length (subnodes (expression_root x))]
    \<and> distinct (node_addrs (expression_root x))
    \<and> length (subnodes (expression_root x)) \<le> max_nodes limits
    \<and> spans_ok (length s) (expression_root x) \<and> length s \<le> max_source_bytes limits"
proof -
  have p: "parsed_from source limits x"
    using parse_yields [OF assms(1,2), of requested] assms(3) by (simp add: limits_def)
  then have "postorder (expression_root x) = [0..<length (node_addrs (expression_root x))]"
    by (auto simp: parsed_from_def)
  then have "distinct (node_addrs (expression_root x))"
    using mset_eq_imp_distinct_iff [OF postorder_node_addrs [of "expression_root x"]] by simp
  with p assms(1) show ?thesis by (auto simp: parsed_from_def node_addrs_def)
qed

lemma expression_parse_tree_witness:
  "postorder (expression_root sample_tree) = [0..<6] \<and> spans_ok 13 (expression_root sample_tree)"
proof -
  have l: "length (subnodes (expression_root sample_tree)) = 6" "length ''!a.b || 2 < 3'' = 13"
    by code_simp+
  from expression_parse_tree [OF sample_cstring sample_parses, unfolded l] show ?thesis by blast
qed

end
