(* ===== verification/String_Literal.thy ===== *)
theory String_Literal
  imports Token_Shape
begin

text \<open>
  The value of a string literal (\<open>confit_v2_expression_token_string\<close>): the UTF-8 written for
  an escape decodes to the scalar, and escaping a string and decoding the literal gives the string back.
\<close>

section \<open>Decoding a string literal\<close>

text \<open>
  The scalar value a byte sequence encodes, by the table of well-formed UTF-8 (Unicode 3.9):
  continuation bytes are \<open>80..BF\<close>, overlong forms and surrogates are refused.
\<close>

definition continuation :: "nat \<Rightarrow> bool" where
  "continuation b \<longleftrightarrow> 0x80 \<le> b \<and> b < 0xC0"

fun utf8_scalar :: "nat list \<Rightarrow> nat option" where
  "utf8_scalar [a] = (if a < 0x80 then Some a else None)"
| "utf8_scalar [a, b] =
     (if 0xC2 \<le> a \<and> a < 0xE0 \<and> continuation b then Some ((a - 0xC0) * 64 + (b - 0x80)) else None)"
| "utf8_scalar [a, b, c] =
     (let v = (a - 0xE0) * 4096 + (b - 0x80) * 64 + (c - 0x80)
      in if 0xE0 \<le> a \<and> a < 0xF0 \<and> continuation b \<and> continuation c
            \<and> 0x800 \<le> v \<and> \<not> (0xD800 \<le> v \<and> v \<le> 0xDFFF) then Some v else None)"
| "utf8_scalar [a, b, c, d] =
     (let v = (a - 0xF0) * 262144 + (b - 0x80) * 4096 + (c - 0x80) * 64 + (d - 0x80)
      in if 0xF0 \<le> a \<and> a < 0xF5 \<and> continuation b \<and> continuation c \<and> continuation d
            \<and> 0x10000 \<le> v \<and> v \<le> 0x10FFFF then Some v else None)"
| "utf8_scalar _ = None"

definition is_scalar_value :: "u32 \<Rightarrow> bool" where
  "is_scalar_value w \<longleftrightarrow> w \<le> 0x10FFFF \<and> \<not> (0xD800 \<le> w \<and> w \<le> 0xDFFF)"

lemma byte_char_of [simp]: "byte (char_of n) = n mod 256"
  by (simp add: byte_def)

lemma or_high_bits:
  assumes "m < 64"
  shows "or (128 :: nat) m = 128 + m" "m < 32 \<Longrightarrow> or (192 :: nat) m = 192 + m"
    "m < 16 \<Longrightarrow> or (224 :: nat) m = 224 + m" "m < 8 \<Longrightarrow> or (240 :: nat) m = 240 + m"
proof -
  have "\<forall>m \<in> set [0..<64]. or (128 :: nat) m = 128 + m \<and> (m < 32 \<longrightarrow> or (192 :: nat) m = 192 + m)
      \<and> (m < 16 \<longrightarrow> or (224 :: nat) m = 224 + m) \<and> (m < 8 \<longrightarrow> or (240 :: nat) m = 240 + m)"
    by code_simp
  with assms show "or (128 :: nat) m = 128 + m" "m < 32 \<Longrightarrow> or (192 :: nat) m = 192 + m"
    "m < 16 \<Longrightarrow> or (224 :: nat) m = 224 + m" "m < 8 \<Longrightarrow> or (240 :: nat) m = 240 + m"
    by auto
qed

lemma and_low_bits: "and (n :: nat) 63 = n mod 64"
  using take_bit_eq_mask [of 6 n] by (simp add: take_bit_eq_mod mask_eq_exp_minus_1)

lemma unat_shifts: fixes w :: u32
  shows "unat (drop_bit 6 w) = unat w div 64" "unat (drop_bit 12 w) = unat w div 4096"
    "unat (drop_bit 18 w) = unat w div 262144"
proof -
  have "unat w < 2 ^ 32" using unsigned_less [of w] by simp
  then have "take_bit 32 (unat w) = unat w" by (simp add: take_bit_nat_eq_self)
  then show "unat (drop_bit 6 w) = unat w div 64" "unat (drop_bit 12 w) = unat w div 4096"
    "unat (drop_bit 18 w) = unat w div 262144"
    unfolding unsigned_drop_bit_eq by (simp_all add: drop_bit_eq_div)
qed

lemmas utf8_arith = unsigned_or_eq unsigned_and_eq unat_shifts and_low_bits or_high_bits
  word_le_nat_alt word_less_nat_alt

theorem emit_utf8_roundtrip:
  assumes "is_scalar_value w"
  shows "\<exists>bytes. confit_v2_emit_utf8 w = Some bytes \<and> utf8_scalar (map byte bytes) = Some (unat w)"
proof -
  define n where "n = unat w"
  have n: "n \<le> 0x10FFFF" "\<not> (0xD800 \<le> n \<and> n \<le> 0xDFFF)"
    using assms by (simp_all add: is_scalar_value_def n_def word_le_nat_alt)
  have m: "n mod 64 < 64" "n div 64 mod 64 < 64" "n div 4096 mod 64 < 64" by simp_all
  have split: "n = n div 64 * 64 + n mod 64" "n div 64 = n div 4096 * 64 + n div 64 mod 64"
    "n div 4096 = n div 262144 * 64 + n div 4096 mod 64"
    using div_mult_mod_eq [of n 64] div_mult_mod_eq [of "n div 64" 64]
      div_mult_mod_eq [of "n div 4096" 64] by (simp_all add: div_mult2_eq [symmetric])
  have le: "w \<le> 0x7F \<longleftrightarrow> n \<le> 0x7F" "w \<le> 0x7FF \<longleftrightarrow> n \<le> 0x7FF" "w \<le> 0xFFFF \<longleftrightarrow> n \<le> 0xFFFF"
    "w \<le> 0x10FFFF"
    using n by (simp_all add: n_def word_le_nat_alt)
  consider "n \<le> 0x7F" | "0x7F < n" "n \<le> 0x7FF" | "0x7FF < n" "n \<le> 0xFFFF" | "0xFFFF < n" by linarith
  then show ?thesis
  proof cases
    case 1
    with le(1) show ?thesis by (simp add: confit_v2_emit_utf8_def n_def)
  next
    case 2
    then have d: "n div 64 < 32" "2 \<le> n div 64" by linarith+
    then have "map_option (map byte) (confit_v2_emit_utf8 w) = Some [192 + n div 64, 128 + n mod 64]"
      using 2 le by (simp add: confit_v2_emit_utf8_def Let_def utf8_arith n_def)
    then show ?thesis using d by (auto simp: continuation_def n_def)
  next
    case 3
    then have d: "n div 4096 < 16" by linarith
    then have "map_option (map byte) (confit_v2_emit_utf8 w)
        = Some [224 + n div 4096, 128 + n div 64 mod 64, 128 + n mod 64]"
      using 3 le by (simp add: confit_v2_emit_utf8_def Let_def utf8_arith n_def)
    moreover have "n div 4096 * 4096 + n div 64 mod 64 * 64 + n mod 64 = n" using split by linarith
    ultimately show ?thesis using d 3 n by (auto simp: continuation_def n_def Let_def)
  next
    case 4
    then have d: "n div 262144 < 5" using n by linarith
    then have "map_option (map byte) (confit_v2_emit_utf8 w)
        = Some [240 + n div 262144, 128 + n div 4096 mod 64, 128 + n div 64 mod 64, 128 + n mod 64]"
      using 4 le by (simp add: confit_v2_emit_utf8_def Let_def utf8_arith n_def)
    moreover have "n div 262144 * 262144 + n div 4096 mod 64 * 4096 + n div 64 mod 64 * 64 + n mod 64 = n"
      using split by linarith
    ultimately show ?thesis using d 4 n by (auto simp: continuation_def n_def Let_def)
  qed
qed

lemma emit_utf8_length:
  "confit_v2_emit_utf8 w = Some bytes \<Longrightarrow> length bytes \<le> 4 \<and> (w \<le> 0xFFFF \<longrightarrow> length bytes \<le> 3)"
  by (auto simp: confit_v2_emit_utf8_def Let_def split: if_splits)

section \<open>The escapes of a lexed literal\<close>

lemma hex_value_bound: "confit_v2_hex_value c = Some d \<Longrightarrow> d < 16"
  by (auto simp: confit_v2_hex_value_def byte_def split: if_splits)

lemma or_digit:
  fixes m d :: nat
  assumes "d < 16"
  shows "or (16 * m) d = 16 * m + d"
proof -
  have "take_bit 4 d = d" using assms by (simp add: take_bit_nat_eq_self)
  moreover have "and (push_bit 4 m) (take_bit 4 d) = 0" by (simp add: bit_eq_iff bit_simps)
  ultimately show ?thesis
    using disjunctive_add_eq_or [of "push_bit 4 m" d] by (simp add: push_bit_eq_mult mult.commute)
qed

lemma unat_or_digit:
  fixes scalar :: u32
  assumes "unat scalar < 2 ^ 28" "d < 16"
  shows "unat (or (push_bit 4 scalar) (of_nat d)) = 16 * unat scalar + d"
proof -
  have "unat (push_bit 4 scalar) = 16 * unat scalar"
    using assms(1) by (simp add: push_bit_eq_mult unat_mult_lem [THEN iffD1] mult.commute)
  moreover have "unat (of_nat d :: u32) = d" using assms(2) by (simp add: unat_of_nat)
  ultimately show ?thesis using assms(2) by (simp add: unsigned_or_eq or_digit)
qed

text \<open>The value of a sequence of hexadecimal digits, most significant first.\<close>

lemma parse_hex_digits_value:
  "parse_hex_digits n s i scalar = Some w \<Longrightarrow> unat scalar < 16 ^ k \<Longrightarrow> n + k \<le> 7 \<Longrightarrow>
     unat w < 16 ^ (n + k) \<and>
     unat w = fold (\<lambda>c v. 16 * v + the (confit_v2_hex_value c)) (map (char_at s) [i..<i + n]) (unat scalar)"
proof (induction n arbitrary: i scalar k)
  case (Suc n)
  from Suc.prems(1) obtain d where d: "confit_v2_hex_value (char_at s i) = Some d"
    and r: "parse_hex_digits n s (i + 1) (or (push_bit 4 scalar) (of_nat d)) = Some w"
    by (auto split: option.splits)
  have "(16 :: nat) ^ k \<le> 16 ^ 7" using Suc.prems(3) by (intro power_increasing) auto
  then have "unat scalar < 2 ^ 28" using Suc.prems(2) by simp
  then have v: "unat (or (push_bit 4 scalar) (of_nat d)) = 16 * unat scalar + d"
    using hex_value_bound [OF d] by (rule unat_or_digit)
  moreover have "16 * unat scalar + d < 16 ^ (Suc k)"
    using Suc.prems(2) hex_value_bound [OF d] by simp
  ultimately have "unat w < 16 ^ (n + Suc k) \<and> unat w = fold (\<lambda>c v. 16 * v + the (confit_v2_hex_value c))
      (map (char_at s) [i + 1..<i + 1 + n]) (16 * unat scalar + d)"
    using Suc.IH [OF r, of "Suc k"] Suc.prems(3) by simp
  moreover have "[i..<i + Suc n] = i # [i + 1..<i + 1 + n]" by (simp add: upt_conv_Cons)
  ultimately show ?case using d by simp
qed simp

lemma parse_unicode_scalar_valid:
  assumes "confit_v2_parse_unicode_scalar s i = Some (w, j)"
  shows "is_scalar_value w \<and> (j = i + 4 \<and> w \<le> 0xFFFF
    \<or> j = i + 10 \<and> char_at s (i + 4) = CHR 0x5C \<and> char_at s (i + 5) = CHR ''u'')"
proof -
  from assms obtain u where u: "parse_hex_digits 4 s i 0 = Some u"
    by (auto simp: confit_v2_parse_unicode_scalar_def split: option.splits)
  have ub: "unat u < 65536" using parse_hex_digits_value [OF u, of 0] by simp
  show ?thesis
  proof (cases "0xD800 \<le> u \<and> u \<le> 0xDBFF")
    case True
    with assms u obtain low where low: "0xDC00 \<le> low" "low \<le> 0xDFFF"
      and w: "w = 0x10000 + push_bit 10 (u - 0xD800) + (low - 0xDC00)" and j: "j = i + 10"
      and c: "char_at s (i + 4) = CHR 0x5C" "char_at s (i + 5) = CHR ''u''"
      by (auto simp: confit_v2_parse_unicode_scalar_def not_less split: option.splits if_splits)
    have a: "unat (u - 0xD800) \<le> 0x3FF" "unat (low - 0xDC00) \<le> 0x3FF"
      using True low by (auto simp: unat_sub word_le_nat_alt)
    have p: "unat (push_bit 10 x) = 1024 * unat x" if "unat x \<le> 0x3FF" for x :: u32
      using that by (simp add: push_bit_eq_mult unat_mult_lem [THEN iffD1] mult.commute)
    have q: "unat (x + y) = unat x + unat y" if "unat x \<le> 0x10FFFF" "unat y \<le> 0x10FFFF" for x y :: u32
      using that by (simp add: unat_add_lem [THEN iffD1])
    have "unat (0x10000 + push_bit 10 (u - 0xD800)) = 0x10000 + 1024 * unat (u - 0xD800)"
      using a(1) p [OF a(1)] by (subst q) simp_all
    then have "unat w = 0x10000 + 1024 * unat (u - 0xD800) + unat (low - 0xDC00)"
      unfolding w using a by (subst q) simp_all
    then have "0x10000 \<le> unat w" "unat w \<le> 0x10FFFF" using a by simp_all
    with j c show ?thesis by (simp add: is_scalar_value_def word_le_nat_alt)
  next
    case False
    with assms u have "w = u" "j = i + 4" "\<not> (0xDC00 \<le> u \<and> u \<le> 0xDFFF)"
      by (auto simp: confit_v2_parse_unicode_scalar_def split: option.splits if_splits)
    with False ub show ?thesis by (auto simp: is_scalar_value_def word_le_nat_alt)
  qed
qed

section \<open>Escaping and decoding\<close>

text \<open>A writer of string literals, for the strings that need no \<open>\u\<close> escape.\<close>

definition escape_char :: "char \<Rightarrow> string" where
  "escape_char c =
     (if c = CHR 0x22 then [CHR 0x5C, CHR 0x22] else if c = CHR 0x5C then [CHR 0x5C, CHR 0x5C]
      else if c = CHR 0x08 then [CHR 0x5C, CHR ''b''] else if c = CHR 0x0C then [CHR 0x5C, CHR ''f'']
      else if c = CHR 0x0A then [CHR 0x5C, CHR ''n''] else if c = CHR 0x0D then [CHR 0x5C, CHR ''r'']
      else if c = CHR 0x09 then [CHR 0x5C, CHR ''t''] else [c])"

definition writable :: "char \<Rightarrow> bool" where
  "writable c \<longleftrightarrow> 0x20 \<le> byte c \<or> c \<in> {CHR 0x08, CHR 0x09, CHR 0x0A, CHR 0x0C, CHR 0x0D}"

definition quote :: "string \<Rightarrow> string" where
  "quote u = CHR 0x22 # concat (map escape_char u) @ [CHR 0x22]"

lemma escaped_literal:
  assumes "list_all writable u" "s = pre @ concat (map escape_char u) @ CHR 0x22 # post"
    and "e = length pre + length (concat (map escape_char u))"
  shows "lex_string_close s (length pre) = Some e \<and> token_string_bytes s (e + 1) (length pre) = Some u"
  using assms
proof (induction u arbitrary: pre)
  case Nil
  then show ?case by (simp add: lex_string_close.simps [of _ "length pre"]
        token_string_bytes_simps [of _ _ "length pre"])
next
  case (Cons c u)
  let ?pre = "pre @ escape_char c"
  have IH: "lex_string_close s (length ?pre) = Some e
      \<and> token_string_bytes s (e + 1) (length ?pre) = Some u"
    using Cons.IH [of ?pre] Cons.prems by simp
  have at: "char_at s (length pre + k) = escape_char c ! k" if "k < length (escape_char c)" for k
    using that Cons.prems(2) by (simp add: nth_append)
  have le: "length pre + length (escape_char c) \<le> e" using Cons.prems(3) by simp
  have w: "writable c" using Cons.prems(1) by simp
  show ?case
  proof (cases "length (escape_char c) = 1")
    case True
    then have "escape_char c = [c]" "c \<noteq> CHR 0x22" "c \<noteq> CHR 0x5C" "c \<noteq> NUL" "0x20 \<le> byte c"
      using w by (auto simp: escape_char_def writable_def byte_def split: if_splits)
    with IH at [of 0] le show ?thesis
      by (simp add: lex_string_close.simps [of s "length pre"]
          token_string_bytes_simps [of s _ "length pre"])
  next
    case False
    then obtain d where d: "escape_char c = [CHR 0x5C, d]" "d \<in> set simple_escapes" "d \<noteq> CHR ''u''"
      "simple_escape_value d = Some c"
      by (auto simp: escape_char_def simple_escapes_def simple_escape_value_def split: if_splits)
    with IH at [of 0] at [of 1] le show ?thesis
      by (simp add: lex_string_close.simps [of s "length pre"] byte_def
          token_string_bytes_simps [of s _ "length pre"])
  qed
qed


section \<open>Properties\<close>

text \<open>UTF-8 output: the bytes written for a scalar value (at most U+10FFFF, not a surrogate)
  decode, by the table of well-formed UTF-8, to that scalar value.\<close>

theorem utf8_roundtrip:
  assumes "is_scalar_value scalar"
  shows "map_option (\<lambda>bytes. utf8_scalar (map byte bytes)) (confit_v2_emit_utf8 scalar)
    = Some (Some (unat scalar))"
  using emit_utf8_roundtrip [OF assms] by auto

lemma utf8_roundtrip_witness:
  "confit_v2_emit_utf8 0x20AC = Some [CHR 0xE2, CHR 0x82, CHR 0xAC]
   \<and> utf8_scalar (map byte [CHR 0xE2, CHR 0x82, CHR 0xAC]) = Some 0x20AC"
proof -
  have e: "confit_v2_emit_utf8 0x20AC = Some [CHR 0xE2, CHR 0x82, CHR 0xAC]" by code_simp
  have "is_scalar_value 0x20AC" by code_simp
  from utf8_roundtrip [OF this] e show ?thesis by simp
qed

lemma kind_not_string:
  "confit_v2_lex_identifier lx s = Inr (t, lx') \<Longrightarrow> tok_kind t \<noteq> TOKEN_STRING"
  "confit_v2_lex_number lx s = Inr (t, lx') \<Longrightarrow> tok_kind t \<noteq> TOKEN_STRING"
  "lex_operator c d = Some (k, w) \<Longrightarrow> k \<noteq> TOKEN_STRING"
  by (auto simp: confit_v2_lex_identifier_def identifier_kind_def make_token_def Let_def
      confit_v2_lex_number_def lex_number_end_def lex_operator_def
      split: sum.splits option.splits if_splits)

text \<open>C39. Escaping and decoding: for a string of printable bytes and the five short control
  escapes, the literal that a writer makes of it is lexed as one string token, and the token's
  value is the string.\<close>

theorem string_literal_roundtrip:
  assumes "list_all writable u" and "0 < limit"
  shows "\<exists>t lx. confit_v2_expression_lexer_next (confit_v2_expression_lexer_init (sample_text (quote u)) limit)
        = Inr (t, lx) \<and> tok_kind t = TOKEN_STRING \<and> tok_end t = length (quote u)
      \<and> confit_v2_expression_token_string (sample_text (quote u)) t = Inr u"
proof -
  let ?s = "quote u"
  let ?e = "1 + length (concat (map escape_char u))"
  have c: "lex_string_close ?s 1 = Some ?e" and b: "token_string_bytes ?s (?e + 1) 1 = Some u"
    using escaped_literal [OF assms(1), of ?s "[CHR 0x22]" "[]" ?e] by (simp_all add: quote_def)
  have len: "length ?s = ?e + 1" by (simp add: quote_def)
  have h: "char_at ?s 0 = CHR 0x22" by (simp add: quote_def char_at_def)
  have sp: "scan_while confit_v2_is_space ?s 0 = 0"
    by (simp add: scan_while_def quote_def confit_v2_is_space_def)
  have nn: "takeWhile (\<lambda>c. c \<noteq> NUL) u = u"
    using assms(1) by (auto simp: list_all_iff writable_def byte_def takeWhile_eq_all_conv)
  have al: "\<not> confit_v2_is_lower_alpha CHR 0x22" "\<not> confit_v2_is_digit CHR 0x22"
    by (simp_all add: confit_v2_is_lower_alpha_def confit_v2_is_digit_def byte_def)
  have "confit_v2_expression_lexer_next (confit_v2_expression_lexer_init (sample_text ?s) limit)
      = Inr (make_token TOKEN_STRING 0 (?e + 1), \<lparr>lex_source = sample_text ?s, lex_offset = ?e + 1,
          lex_token_count = 1, lex_max_tokens = limit\<rparr>)"
    using assms(2) h sp c al
    by (simp add: confit_v2_expression_lexer_next_def confit_v2_expression_lexer_init_def sample_text_def
        Let_def confit_v2_lex_string_def)
  moreover have "confit_v2_expression_token_string (sample_text ?s) (make_token TOKEN_STRING 0 (?e + 1)) = Inr u"
    using b nn by (simp add: expression_token_string_value sample_text_def make_token_def)
  ultimately show ?thesis using len by (auto simp: make_token_def)
qed

lemma string_literal_roundtrip_witness:
  "\<exists>t. confit_v2_expression_token_string (sample_text (quote [CHR 0x0A, CHR 0x22])) t = Inr [CHR 0x0A, CHR 0x22]"
  using string_literal_roundtrip [of "[CHR 0x0A, CHR 0x22]" 1] by (auto simp: writable_def byte_def)

end
