(* ===== verification/String_Decoding.thy ===== *)
theory String_Decoding
  imports String_Literal
begin

text \<open>
  What the body of a string literal means, stated without the decoder, and the decoder
  (\<open>confit_v2_expression_token_string\<close>) against it: its value, its failures, and the bytes it writes
  on either.
\<close>

section \<open>The meaning of a literal\<close>

definition short_escapes :: "(char \<times> char) list" where
  "short_escapes = [(CHR 0x22, CHR 0x22), (CHR 0x5C, CHR 0x5C), (CHR ''/'', CHR ''/''), (CHR ''b'', CHR 0x08),
     (CHR ''f'', CHR 0x0C), (CHR ''n'', CHR 0x0A), (CHR ''r'', CHR 0x0D), (CHR ''t'', CHR 0x09)]"

definition hex_digit :: "char \<Rightarrow> nat \<Rightarrow> bool" where
  "hex_digit c d \<longleftrightarrow> d < 16 \<and> (c = ''0123456789abcdef'' ! d \<or> c = ''0123456789ABCDEF'' ! d)"

definition code_unit :: "string \<Rightarrow> nat \<Rightarrow> bool" where
  "code_unit ds n \<longleftrightarrow> (\<exists>a b c d. list_all2 hex_digit ds [a, b, c, d] \<and> n = a * 4096 + b * 256 + c * 16 + d)"

definition high_surrogate :: "nat \<Rightarrow> bool" where
  "high_surrogate n \<longleftrightarrow> 0xD800 \<le> n \<and> n \<le> 0xDBFF"

definition low_surrogate :: "nat \<Rightarrow> bool" where
  "low_surrogate n \<longleftrightarrow> 0xDC00 \<le> n \<and> n \<le> 0xDFFF"

text \<open>A body and the bytes it stands for: an escape of a code unit is one of a scalar value, or the first
  half of a surrogate pair.\<close>

inductive decodes :: "string \<Rightarrow> string \<Rightarrow> bool" where
  decodes_end: "decodes [] []"
| decodes_plain: "c \<noteq> CHR 0x5C \<Longrightarrow> decodes cs out \<Longrightarrow> decodes (c # cs) (c # out)"
| decodes_short: "(e, c) \<in> set short_escapes \<Longrightarrow> decodes cs out \<Longrightarrow> decodes (CHR 0x5C # e # cs) (c # out)"
| decodes_scalar: "code_unit ds n \<Longrightarrow> \<not> high_surrogate n \<Longrightarrow> \<not> low_surrogate n \<Longrightarrow> utf8_scalar (map byte bytes) = Some n
    \<Longrightarrow> decodes cs out \<Longrightarrow> decodes (CHR 0x5C # CHR ''u'' # ds @ cs) (bytes @ out)"
| decodes_pair: "code_unit ds h \<Longrightarrow> high_surrogate h \<Longrightarrow> code_unit es l \<Longrightarrow> low_surrogate l
    \<Longrightarrow> utf8_scalar (map byte bytes) = Some (0x10000 + (h - 0xD800) * 1024 + (l - 0xDC00))
    \<Longrightarrow> decodes cs out \<Longrightarrow> decodes (CHR 0x5C # CHR ''u'' # ds @ CHR 0x5C # CHR ''u'' # es @ cs) (bytes @ out)"

inductive_cases decodes_ConsE: "decodes (c # cs) out"

lemma code_unit_length: "code_unit ds n \<Longrightarrow> length ds = 4"
  by (auto simp: code_unit_def dest: list_all2_lengthD)

lemma decodes_plainD: "decodes (c # cs) out \<Longrightarrow> c \<noteq> CHR 0x5C \<Longrightarrow> \<exists>out. decodes cs out"
  by (erule decodes_ConsE) auto

lemma decodes_shortD: "decodes (CHR 0x5C # e # cs) out \<Longrightarrow> e \<noteq> CHR ''u'' \<Longrightarrow> \<exists>out. decodes cs out"
  by (erule decodes_ConsE) auto

lemma decodes_unitD:
  assumes "decodes (CHR 0x5C # CHR ''u'' # ds @ cs) out" "length ds = 4"
  obtains (scalar) n out' where "code_unit ds n" "\<not> high_surrogate n" "\<not> low_surrogate n" "decodes cs out'"
    | (pair) h l es cs' out' where "code_unit ds h" "high_surrogate h" "cs = CHR 0x5C # CHR ''u'' # es @ cs'" "code_unit es l"
        "low_surrogate l" "decodes cs' out'"
  using assms(1)
proof (rule decodes_ConsE)
  fix e c cs' out'
  assume "(e, c) \<in> set short_escapes" "CHR ''u'' # ds @ cs = e # cs'"
  then show thesis by (auto simp: short_escapes_def)
next
  fix ds' n bytes cs' out'
  assume unit: "code_unit ds' n" "\<not> high_surrogate n" "\<not> low_surrogate n" "decodes cs' out'"
    and "CHR ''u'' # ds @ cs = CHR ''u'' # ds' @ cs'"
  then have "ds' = ds \<and> cs' = cs" using assms(2) code_unit_length [OF unit(1)] by simp
  with unit scalar show thesis by blast
next
  fix ds' h es l bytes cs' out'
  assume unit: "code_unit ds' h" "high_surrogate h" "code_unit es l" "low_surrogate l" "decodes cs' out'"
    and "CHR ''u'' # ds @ cs = CHR ''u'' # ds' @ CHR 0x5C # CHR ''u'' # es @ cs'"
  then have "ds' = ds \<and> cs = CHR 0x5C # CHR ''u'' # es @ cs'" using assms(2) code_unit_length [OF unit(1)] by simp
  with unit pair show thesis by blast
qed auto

section \<open>Code units\<close>

lemma hex_value_digit: "confit_v2_hex_value c = Some d \<Longrightarrow> hex_digit c d"
proof -
  have all: "\<forall>b \<in> set ([48..<58] @ [97..<103] @ [65..<71]). case confit_v2_hex_value (char_of b) of
      None \<Rightarrow> True | Some d \<Rightarrow> hex_digit (char_of b) d" by code_simp
  assume d: "confit_v2_hex_value c = Some d"
  then have "byte c \<in> set ([48..<58] @ [97..<103] @ [65..<71])"
    unfolding set_append set_upt by (auto simp: confit_v2_hex_value_def byte_def split: if_splits)
  with all have "case confit_v2_hex_value (char_of (byte c)) of None \<Rightarrow> True | Some d \<Rightarrow> hex_digit (char_of (byte c)) d" by blast
  with d show ?thesis by (simp add: byte_def)
qed

lemma hex_digit_unique:
  assumes "hex_digit c d" "hex_digit c e"
  shows "d = e"
proof -
  let ?P = "\<lambda>d e. ''0123456789abcdef'' ! d \<in> {''0123456789abcdef'' ! e, ''0123456789ABCDEF'' ! e}
      \<or> ''0123456789ABCDEF'' ! d \<in> {''0123456789abcdef'' ! e, ''0123456789ABCDEF'' ! e} \<longrightarrow> d = e"
  have all: "\<forall>d \<in> set [0..<16]. \<forall>e \<in> set [0..<16]. ?P d e" by code_simp
  have "d \<in> set [0..<16]" "e \<in> set [0..<16]" unfolding set_upt using assms by (simp_all add: hex_digit_def)
  from bspec [OF bspec [OF all this(1)] this(2)] show ?thesis using assms unfolding hex_digit_def by blast
qed

lemma hex_digits_unique:
  assumes "list_all2 hex_digit ds xs" "list_all2 hex_digit ds ys"
  shows "xs = ys"
proof (rule nth_equalityI)
  show "length xs = length ys" using assms by (simp add: list_all2_lengthD [symmetric])
  show "xs ! i = ys ! i" if "i < length xs" for i
    using that assms hex_digit_unique [of "ds ! i" "xs ! i" "ys ! i"] by (simp add: list_all2_conv_all_nth)
qed

lemma code_unit_unique: "code_unit ds n \<Longrightarrow> code_unit ds m \<Longrightarrow> n = m"
proof -
  assume "code_unit ds n" "code_unit ds m"
  then obtain a b c d a' b' c' d' where "list_all2 hex_digit ds [a, b, c, d]" "list_all2 hex_digit ds [a', b', c', d']"
    and n: "n = a * 4096 + b * 256 + c * 16 + d" "m = a' * 4096 + b' * 256 + c' * 16 + d'" unfolding code_unit_def by blast
  from hex_digits_unique [OF this(1,2)] show ?thesis unfolding n by simp
qed

lemma parse_hex_unit:
  assumes "\<And>n. n < 4 \<Longrightarrow> confit_v2_is_hex (char_at s (i + n))"
  shows "\<exists>w. parse_hex_digits 4 s i 0 = Some w \<and> code_unit [char_at s i, char_at s (i + 1), char_at s (i + 2), char_at s (i + 3)] (unat w)"
proof -
  have "\<exists>d. confit_v2_hex_value (char_at s (i + n)) = Some d" if "n < 4" for n
    using assms [OF that] hex_value_is_hex by auto
  from this [of 0] this [of 1] this [of 2] this [of 3] obtain a b c d where digits:
    "confit_v2_hex_value (char_at s i) = Some a" "confit_v2_hex_value (char_at s (i + 1)) = Some b"
    "confit_v2_hex_value (char_at s (i + 2)) = Some c" "confit_v2_hex_value (char_at s (i + 3)) = Some d" by auto
  then obtain w where w: "parse_hex_digits 4 s i 0 = Some w" by (simp add: numeral_eq_Suc)
  have "map (char_at s) [i..<i + 4] = [char_at s i, char_at s (i + 1), char_at s (i + 2), char_at s (i + 3)]"
    by (simp add: upt_conv_Cons numeral_eq_Suc)
  with parse_hex_digits_value [OF w, of 0] digits have "unat w = a * 4096 + b * 256 + c * 16 + d" by simp
  with digits [THEN hex_value_digit] w show ?thesis by (auto simp: code_unit_def)
qed

lemma pair_value:
  fixes u low :: u32
  assumes "0xD800 \<le> u" "u \<le> 0xDBFF" "0xDC00 \<le> low" "low \<le> 0xDFFF"
  shows "unat (0x10000 + push_bit 10 (u - 0xD800) + (low - 0xDC00)) = 0x10000 + (unat u - 0xD800) * 1024 + (unat low - 0xDC00)"
proof -
  have sub: "unat (u - 0xD800) = unat u - 0xD800" "unat (low - 0xDC00) = unat low - 0xDC00"
    using assms by (simp_all add: unat_sub)
  then have a: "unat (u - 0xD800) \<le> 0x3FF" "unat (low - 0xDC00) \<le> 0x3FF"
    using assms by (auto simp: word_le_nat_alt)
  have p: "unat (push_bit 10 x) = 1024 * unat x" if "unat x \<le> 0x3FF" for x :: u32
    using that by (simp add: push_bit_eq_mult unat_mult_lem [THEN iffD1] mult.commute)
  have q: "unat (x + y) = unat x + unat y" if "unat x \<le> 0x10FFFF" "unat y \<le> 0x10FFFF" for x y :: u32
    using that by (simp add: unat_add_lem [THEN iffD1])
  have "unat (0x10000 + push_bit 10 (u - 0xD800)) = 0x10000 + 1024 * unat (u - 0xD800)"
    using a(1) p [OF a(1)] by (subst q) simp_all
  then have "unat (0x10000 + push_bit 10 (u - 0xD800) + (low - 0xDC00))
      = 0x10000 + 1024 * unat (u - 0xD800) + unat (low - 0xDC00)" using a by (subst q) simp_all
  then show ?thesis by (simp add: sub)
qed

lemma surrogate_words:
  "high_surrogate (unat w) \<longleftrightarrow> 0xD800 \<le> w \<and> w \<le> 0xDBFF" "low_surrogate (unat w) \<longleftrightarrow> 0xDC00 \<le> w \<and> w \<le> 0xDFFF"
  for w :: u32
  by (simp_all add: high_surrogate_def low_surrogate_def word_le_nat_alt)

section \<open>The decoder\<close>

text \<open>From offset \<open>i\<close>, with the closing quote at \<open>e\<close>: the bytes fit in what is left of the body, and the
  loop completes exactly when the rest of the body has a meaning.\<close>

definition decoded :: "string \<Rightarrow> nat \<Rightarrow> nat \<Rightarrow> bool" where
  "decoded s i e \<longleftrightarrow> (case token_string_loop s (e + 1) i [] of (out, completed) \<Rightarrow>
     length out \<le> e - i \<and> (if completed then decodes (slice s i e) out else \<not> (\<exists>out. decodes (slice s i e) out)))"

lemma decoded_failed:
  "token_string_loop s (e + 1) i [] = ([], False) \<Longrightarrow> \<not> (\<exists>out. decodes (slice s i e) out) \<Longrightarrow> decoded s i e"
  by (simp add: decoded_def)

lemma decoded_step:
  assumes "token_string_loop s (e + 1) i [] = token_string_loop s (e + 1) j bytes" "decoded s j e"
    and "i + length bytes \<le> j" "j \<le> e"
    and "\<And>out. decodes (slice s j e) out \<Longrightarrow> decodes (slice s i e) (bytes @ out)"
    and "\<And>out. decodes (slice s i e) out \<Longrightarrow> \<exists>out. decodes (slice s j e) out"
  shows "decoded s i e"
proof -
  have "token_string_loop s (e + 1) i []
      = (bytes @ fst (token_string_loop s (e + 1) j []), snd (token_string_loop s (e + 1) j []))"
    using assms(1) token_string_loop_append [of s "e + 1" j bytes "[]"] by simp
  with assms(2-) show ?thesis
    unfolding decoded_def by (cases "token_string_loop s (e + 1) j []") (auto split: if_splits)
qed

lemma emits_scalar:
  assumes "is_scalar_value w"
  obtains bytes where "confit_v2_emit_utf8 w = Some bytes" "utf8_scalar (map byte bytes) = Some (unat w)"
    "length bytes \<le> 4" "w \<le> 0xFFFF \<Longrightarrow> length bytes \<le> 3"
  using emit_utf8_roundtrip [OF assms] emit_utf8_length by blast

lemma escape_value_table:
  "e \<in> set simple_escapes \<Longrightarrow> e \<noteq> CHR ''u'' \<Longrightarrow> \<exists>c. simple_escape_value e = Some c \<and> (e, c) \<in> set short_escapes"
  by (auto simp: simple_escapes_def simple_escape_value_def short_escapes_def)

text \<open>A \<open>\u\<close> escape in a body the lexer accepted: its four digits, and what follows.\<close>

lemma unit_at:
  assumes "lex_string_close s i = Some e" "char_at s i = CHR 0x5C" "char_at s (i + 1) = CHR ''u''"
  obtains u ds where "lex_string_close s (i + 6) = Some e" "i + 6 \<le> e" "slice s i e = CHR 0x5C # CHR ''u'' # ds @ slice s (i + 6) e"
    "parse_hex_digits 4 s (i + 2) 0 = Some u" "code_unit ds (unat u)"
  using assms(1)
proof (cases rule: lex_string_close_cases)
  case unicode
  note bound = lex_string_close_bound [OF unicode(5)]
  let ?ds = "[s ! (i + 2), s ! (i + 3), s ! (i + 4), s ! (i + 5)]"
  have at: "char_at s (i + 2 + n) = s ! (i + 2 + n)" if "n < 4" for n using unicode(1) that by (simp add: char_at_def)
  have hex: "confit_v2_is_hex (char_at s (i + 2 + n))" if "n < 4" for n using unicode(4) [OF that] at [OF that] by simp
  have "[char_at s (i + 2), char_at s (i + 2 + 1), char_at s (i + 2 + 2), char_at s (i + 2 + 3)] = ?ds"
    using at [of 0] at [of 1] at [of 2] at [of 3] by (simp add: numeral_eq_Suc)
  with parse_hex_unit [of s "i + 2"] hex obtain u where "parse_hex_digits 4 s (i + 2) 0 = Some u" "code_unit ?ds (unat u)" by auto
  moreover have "slice s i e = CHR 0x5C # CHR ''u'' # ?ds @ slice s (i + 6) e"
    using bound unicode(1-3) by (simp add: slice_Cons numeral_eq_Suc)
  ultimately show thesis using that [of ?ds u] unicode(5) bound by blast
qed (use assms(2,3) in \<open>auto simp: char_at_def split: if_splits\<close>)

lemma unicode_decoded:
  assumes close: "lex_string_close s i = Some e" and at: "char_at s i = CHR 0x5C" "char_at s (i + 1) = CHR ''u''"
    and IH: "\<And>j. lex_string_close s j = Some e \<Longrightarrow> i < j \<Longrightarrow> decoded s j e"
  shows "decoded s i e"
proof (rule unit_at [OF close at])
  fix u ds
  assume rest: "lex_string_close s (i + 6) = Some e" "i + 6 \<le> e" and body: "slice s i e = CHR 0x5C # CHR ''u'' # ds @ slice s (i + 6) e"
    and u: "parse_hex_digits 4 s (i + 2) 0 = Some u" and unit: "code_unit ds (unat u)"
  have step: "token_string_loop s (e + 1) i [] = (case confit_v2_parse_unicode_scalar s (i + 2) of None \<Rightarrow> ([], False)
      | Some (w, j) \<Rightarrow> (case confit_v2_emit_utf8 w of None \<Rightarrow> ([], False) | Some bytes \<Rightarrow> token_string_loop s (e + 1) j bytes))"
    using at rest(2) token_string_loop.simps [of s "e + 1" i "[]"] by (simp add: Let_def split: option.split)
  have length: "length ds = 4" using unit by (rule code_unit_length)
  have same: "n = unat u" if "code_unit ds n" for n using code_unit_unique [OF that unit] .
  consider (scalar) "\<not> high_surrogate (unat u)" "\<not> low_surrogate (unat u)" | (low) "low_surrogate (unat u)" "\<not> high_surrogate (unat u)"
    | (high) "high_surrogate (unat u)" by blast
  then show ?thesis
  proof cases
    case scalar
    then have parse: "confit_v2_parse_unicode_scalar s (i + 2) = Some (u, i + 6)"
      using u by (auto simp add: confit_v2_parse_unicode_scalar_def surrogate_words)
    have valid: "is_scalar_value u" "u \<le> 0xFFFF" using parse_unicode_scalar_valid [OF parse] by auto
    obtain bytes where bytes: "confit_v2_emit_utf8 u = Some bytes" "utf8_scalar (map byte bytes) = Some (unat u)" "length bytes \<le> 3"
      using emits_scalar [OF valid(1)] valid(2) by blast
    show ?thesis
    proof (rule decoded_step [of s e i "i + 6" bytes])
      show "decodes (slice s i e) (bytes @ out)" if "decodes (slice s (i + 6) e) out" for out
        unfolding body by (rule decodes_scalar [OF unit scalar bytes(2) that])
      show "\<exists>out. decodes (slice s (i + 6) e) out" if "decodes (slice s i e) out" for out
        using that unfolding body by (rule decodes_unitD) (use length same scalar(1) in blast)+
    qed (use step parse bytes rest IH [OF rest(1)] in simp_all)
  next
    case low
    show ?thesis
    proof (rule decoded_failed)
      have "confit_v2_parse_unicode_scalar s (i + 2) = None"
        using u low by (auto simp add: confit_v2_parse_unicode_scalar_def surrogate_words)
      with step show "token_string_loop s (e + 1) i [] = ([], False)" by simp
      show "\<not> (\<exists>out. decodes (slice s i e) out)"
        unfolding body by (auto elim!: decodes_unitD dest!: same simp: length low)
    qed
  next
    case high
    show ?thesis
    proof (cases "char_at s (i + 6) = CHR 0x5C \<and> char_at s (i + 7) = CHR ''u''")
      case False
      show ?thesis
      proof (rule decoded_failed)
        have "confit_v2_parse_unicode_scalar s (i + 2) = None"
          using u high False by (auto simp: confit_v2_parse_unicode_scalar_def surrogate_words add.commute numeral_eq_Suc)
        with step show "token_string_loop s (e + 1) i [] = ([], False)" by simp
        have "slice s (i + 6) e \<noteq> CHR 0x5C # CHR ''u'' # cs" for cs
        proof
          assume cs: "slice s (i + 6) e = CHR 0x5C # CHR ''u'' # cs"
          have "length (slice s (i + 6) e) \<le> e - (i + 6)" by (simp add: slice_def)
          then have "i + 8 \<le> e" "e \<le> length s" using lex_string_close_bound [OF rest(1)] unfolding cs by simp_all
          with cs False show False by (auto simp: slice_Cons char_at_def numeral_eq_Suc)
        qed
        then show "\<not> (\<exists>out. decodes (slice s i e) out)"
          unfolding body using high same length by (metis decodes_unitD)
      qed
    next
      case True
      note pair = this
      then have at': "char_at s (i + 6) = CHR 0x5C" "char_at s (i + 6 + 1) = CHR ''u''" by (simp_all add: numeral_eq_Suc)
      show ?thesis
      proof (rule unit_at [OF rest(1) at'])
        fix low es
        assume rest': "lex_string_close s (i + 6 + 6) = Some e" "i + 6 + 6 \<le> e"
          and body': "slice s (i + 6) e = CHR 0x5C # CHR ''u'' # es @ slice s (i + 6 + 6) e"
          and l: "parse_hex_digits 4 s (i + 6 + 2) 0 = Some low" and unit': "code_unit es (unat low)"
        have parse: "confit_v2_parse_unicode_scalar s (i + 2) = (if low_surrogate (unat low)
            then Some (0x10000 + push_bit 10 (u - 0xD800) + (low - 0xDC00), i + 12) else None)"
          using u l high pair by (simp add: confit_v2_parse_unicode_scalar_def surrogate_words not_le add.commute numeral_eq_Suc)
        show ?thesis
        proof (cases "low_surrogate (unat low)")
          case False
          show ?thesis
          proof (rule decoded_failed)
            show "token_string_loop s (e + 1) i [] = ([], False)" using step parse False by simp
            have "\<not> (\<exists>l es'. slice s (i + 6) e = CHR 0x5C # CHR ''u'' # es' @ cs \<and> code_unit es' l \<and> low_surrogate l)" for cs
              unfolding body' using code_unit_length [OF unit'] code_unit_length code_unit_unique [OF unit'] False by fastforce
            then show "\<not> (\<exists>out. decodes (slice s i e) out)"
              unfolding body using high same length by (metis decodes_unitD)
          qed
        next
          case True
          let ?w = "0x10000 + push_bit 10 (u - 0xD800) + (low - 0xDC00)"
          have parse': "confit_v2_parse_unicode_scalar s (i + 2) = Some (?w, i + 12)" using parse True by simp
          have valid: "is_scalar_value ?w" using parse_unicode_scalar_valid [OF parse'] by blast
          obtain bytes where bytes: "confit_v2_emit_utf8 ?w = Some bytes" "utf8_scalar (map byte bytes) = Some (unat ?w)" "length bytes \<le> 4"
            using emits_scalar [OF valid] by blast
          have "unat ?w = 0x10000 + (unat u - 0xD800) * 1024 + (unat low - 0xDC00)"
            using high True by (intro pair_value) (simp_all add: surrogate_words)
          with bytes(2) have utf8: "utf8_scalar (map byte bytes) = Some (0x10000 + (unat u - 0xD800) * 1024 + (unat low - 0xDC00))"
            by simp
          show ?thesis
          proof (rule decoded_step [of s e i "i + 12" bytes])
            show "token_string_loop s (e + 1) i [] = token_string_loop s (e + 1) (i + 12) bytes"
              using step parse' bytes(1) by simp
            show "decoded s (i + 12) e" using IH [of "i + 12"] rest'(1) by (simp add: add.commute)
            show "i + length bytes \<le> i + 12" "i + 12 \<le> e" using bytes(3) rest'(2) by simp_all
            have tail: "slice s (i + 6 + 6) e = slice s (i + 12) e" by (simp add: add.commute)
            show "decodes (slice s i e) (bytes @ out)" if "decodes (slice s (i + 12) e) out" for out
              unfolding body body' tail by (rule decodes_pair [OF unit high unit' True utf8 that])
            show "\<exists>out. decodes (slice s (i + 12) e) out" if "decodes (slice s i e) out" for out
              using that unfolding body
            proof (rule decodes_unitD)
              fix h l es' cs' out'
              assume "slice s (i + 6) e = CHR 0x5C # CHR ''u'' # es' @ cs'" "code_unit es' l" and decodes: "decodes cs' out'"
              then have "cs' = slice s (i + 12) e" unfolding body' tail using code_unit_length [OF unit'] code_unit_length [of es' l] by simp
              with decodes show ?thesis by blast
            qed (use length high same in blast)+
          qed
        qed
      qed
    qed
  qed
qed

lemma string_decoded: "lex_string_close s i = Some e \<Longrightarrow> decoded s i e"
proof (induction "length s - i" arbitrary: i rule: less_induct)
  case less
  note bound = lex_string_close_bound [OF less.prems] and step = token_string_loop.simps [of s "e + 1" i "[]"]
  have IH: "decoded s j e" if "lex_string_close s j = Some e" "i < j" for j
  proof (rule less.hyps [OF _ that(1)])
    have "j < length s" using lex_string_close_bound [OF that(1)] by simp
    with that(2) show "length s - j < length s - i" by linarith
  qed
  from less.prems show ?case
  proof (cases rule: lex_string_close_cases)
    case close
    with step show ?thesis by (simp add: decoded_def decodes_end)
  next
    case plain
    note rest = lex_string_close_bound [OF plain(4)]
    have body: "slice s i e = s ! i # slice s (i + 1) e" using rest plain(1) by (simp add: slice_Cons)
    show ?thesis
    proof (rule decoded_step [of s e i "i + 1" "[s ! i]"])
      show "decodes (slice s i e) ([s ! i] @ out)" if "decodes (slice s (i + 1) e) out" for out
        unfolding body using decodes_plain [OF _ that] plain(2) by simp
      show "\<exists>out. decodes (slice s (i + 1) e) out" if "decodes (slice s i e) out" for out
        using decodes_plainD [OF that [unfolded body]] plain(2) by simp
    qed (use step plain rest IH [OF plain(4)] in \<open>simp_all add: char_at_def\<close>)
  next
    case escape
    note rest = lex_string_close_bound [OF escape(5)]
    have body: "slice s i e = CHR 0x5C # s ! (i + 1) # slice s (i + 2) e"
      using rest escape(1,2) by (simp add: slice_Cons numeral_eq_Suc)
    obtain c where c: "simple_escape_value (s ! (i + 1)) = Some c" "(s ! (i + 1), c) \<in> set short_escapes"
      using escape_value_table [OF escape(4,3)] by blast
    show ?thesis
    proof (rule decoded_step [of s e i "i + 2" "[c]"])
      show "decodes (slice s i e) ([c] @ out)" if "decodes (slice s (i + 2) e) out" for out
        unfolding body using decodes_short [OF c(2) that] by simp
      show "\<exists>out. decodes (slice s (i + 2) e) out" if "decodes (slice s i e) out" for out
        using decodes_shortD [OF that [unfolded body] escape(3)] .
    qed (use step escape rest c(1) IH [OF escape(5)] in \<open>simp_all add: char_at_def Let_def\<close>)
  next
    case unicode
    then show ?thesis using unicode_decoded [OF less.prems _ _ IH] by (simp add: char_at_def)
  qed
qed

section \<open>Properties\<close>

text \<open>C40. Decoding a string literal the lexer returned: the value is what the body means by the table of
  escapes, with \<open>\u\<close> escapes read as scalar values or surrogate pairs and written as UTF-8, cut at the
  first NUL as a C string is. It fails, with a schema error, exactly when the body has no such meaning.
  On success and on failure alike the bytes written, with the terminating NUL, fit in the buffer, which
  is as long as the token.\<close>

theorem token_string_meaning:
  assumes "expr_text (lex_source lx) = Some s" and "is_cstring s" and "lex_offset lx \<le> length s"
    and "confit_v2_expression_lexer_next lx = Inr (t, lx')" and "tok_kind t = TOKEN_STRING"
  shows "length (fst (token_string_loop s (tok_end t) (tok_start t + 1) [])) + 1 \<le> tok_end t - tok_start t
    \<and> (case confit_v2_expression_token_string (lex_source lx) t of
        Inr v \<Rightarrow> \<exists>out. decodes (slice s (tok_start t + 1) (tok_end t - 1)) out \<and> v = takeWhile (\<lambda>c. c \<noteq> NUL) out
      | Inl d \<Rightarrow> diag_status d = CONFIT_ERR_SCHEMA
          \<and> \<not> (\<exists>out. decodes (slice s (tok_start t + 1) (tok_end t - 1)) out))"
proof -
  let ?c = "lexer_counted lx s"
  have "confit_v2_lex_string ?c s = Inr (t, lx') \<and> char_at s (lex_offset ?c) = CHR 0x22"
    using lexer_next_cases [OF assms(4,1)] assms(5) kind_not_string by (auto simp: make_token_def)
  then have shape: "lex_string_close s (tok_start t + 1) = Some (tok_end t - 1)" "tok_start t + 2 \<le> tok_end t"
    using lex_string_shape by blast+
  have status: "diag_status (confit_v2_expression_diagnostic_at src off st m) = st" for src off st m
    by (simp add: confit_v2_expression_diagnostic_at_def confit_diagnostic_set_def
        confit_diagnostic_set_detail_def Let_def split: prod.splits)
  have "tok_end t - 1 + 1 = tok_end t" using shape(2) by simp
  with string_decoded [OF shape(1)] shape(2) assms(1,5) status show ?thesis
    by (auto simp: decoded_def confit_v2_expression_token_string_def split: prod.splits if_splits)
qed

text \<open>The literals \<open>"a\u00e9\ud83d\ude00"\<close>, whose pair is one scalar value, and \<open>"a\\u\udc00"\<close>, whose last
  escape is half a pair.\<close>

definition paired_literal :: string where
  "paired_literal = CHR 0x22 # ''a'' @ CHR 0x5C # ''u00e9'' @ CHR 0x5C # ''ud83d'' @ CHR 0x5C # ''ude00'' @ [CHR 0x22]"

definition broken_literal :: string where
  "broken_literal = CHR 0x22 # ''a'' @ CHR 0x5C # CHR 0x5C # ''u'' @ CHR 0x5C # ''udc00'' @ [CHR 0x22]"

lemma token_string_meaning_witness:
  "(\<exists>out. decodes (slice paired_literal 1 20) out
       \<and> takeWhile (\<lambda>c. c \<noteq> NUL) out = [CHR ''a'', CHR 0xC3, CHR 0xA9, CHR 0xF0, CHR 0x9F, CHR 0x98, CHR 0x80])
   \<and> \<not> (\<exists>out. decodes (slice broken_literal 1 11) out)"
proof -
  let ?lx = "\<lambda>s. confit_v2_expression_lexer_init (sample_text s) 9"
  let ?t = "\<lambda>e. make_token TOKEN_STRING 0 e"
  have l: "confit_v2_expression_lexer_next (?lx paired_literal) = Inr (?t 21, (?lx paired_literal)\<lparr>lex_offset := 21, lex_token_count := 1\<rparr>)"
    "confit_v2_expression_lexer_next (?lx broken_literal) = Inr (?t 12, (?lx broken_literal)\<lparr>lex_offset := 12, lex_token_count := 1\<rparr>)"
    by code_simp+
  have src: "lex_source (?lx s) = sample_text s" for s by (simp add: confit_v2_expression_lexer_init_def)
  have written: "expr_text (lex_source (?lx s)) = Some s" "lex_offset (?lx s) \<le> length s" "tok_kind (?t e) = TOKEN_STRING" for s e
    by (simp_all add: confit_v2_expression_lexer_init_def sample_text_def make_token_def)
  have c: "is_cstring paired_literal" "is_cstring broken_literal" by code_simp+
  note paired = token_string_meaning [OF written(1) c(1) written(2) l(1) written(3), unfolded src]
  have value_of: "case confit_v2_expression_token_string (sample_text paired_literal) (?t 21) of Inl d \<Rightarrow> False
      | Inr v \<Rightarrow> v = [CHR ''a'', CHR 0xC3, CHR 0xA9, CHR 0xF0, CHR 0x9F, CHR 0x98, CHR 0x80]" by code_simp
  note broken = token_string_meaning [OF written(1) c(2) written(2) l(2) written(3), unfolded src]
  have fails: "case confit_v2_expression_token_string (sample_text broken_literal) (?t 12) of Inl d \<Rightarrow> True | Inr v \<Rightarrow> False" by code_simp
  from paired value_of have "\<exists>out. decodes (slice paired_literal 1 20) out
      \<and> takeWhile (\<lambda>c. c \<noteq> NUL) out = [CHR ''a'', CHR 0xC3, CHR 0xA9, CHR 0xF0, CHR 0x9F, CHR 0x98, CHR 0x80]"
    by (auto simp: make_token_def split: sum.splits)
  moreover from broken fails have "\<not> (\<exists>out. decodes (slice broken_literal 1 11) out)"
    by (auto simp: make_token_def split: sum.splits)
  ultimately show ?thesis by blast
qed

end
