(* ===== verification/Typecheck.thy ===== *)
theory Typecheck
  imports Expr_Ast
begin

text \<open>
  The static checker of expressions, \<open>src/expression/v2/typecheck.c\<close>. The checker walks the
  tree, appends the type of every checked node to the type table of the typed expression, and
  reports the first error at the node's start. A NULL environment has no bindings, so it is
  the empty list; the failure of an allocation is not modelled.
\<close>

section \<open>Types, bindings, typed expressions\<close>

datatype etype_kind =
  TYPE_INVALID | TYPE_BOOL | TYPE_TRISTATE | TYPE_INT | TYPE_UINT | TYPE_FLOAT | TYPE_STRING
| TYPE_ENUM | TYPE_PATH | TYPE_COLLECTION

record etype =
  et_kind :: etype_kind
  et_element_kind :: etype_kind
  et_enum_id :: "string option"
  et_element_enum_id :: "string option"

record ebinding =
  bind_id :: string
  bind_type :: etype
  bind_value :: "v2_value option"

type_synonym environment = "ebinding list"

text \<open>A type table entry: the node, by its address, and its type.\<close>

type_synonym type_table = "(nat \<times> etype) list"

record typed_expression =
  typed_source :: expression
  typed_nodes :: type_table
  typed_root_type :: etype

record typecheck_context =
  tc_expression :: expression
  tc_environment :: environment

definition simple_type :: "etype_kind \<Rightarrow> etype" where
  "simple_type k = \<lparr>et_kind = k, et_element_kind = TYPE_INVALID, et_enum_id = None,
     et_element_enum_id = None\<rparr>"

definition confit_v2_typecheck_diagnostic ::
  "typecheck_context \<Rightarrow> expr_node \<Rightarrow> string \<Rightarrow> diagnostic + 'a" where
  "confit_v2_typecheck_diagnostic context node message =
     Inl (confit_v2_expression_diagnostic_at
            \<lparr>expr_text = Some (expression_source (tc_expression context)),
             expr_span = expression_span (tc_expression context)\<rparr>
            (node_start node) CONFIT_ERR_SCHEMA message)"

definition confit_v2_typecheck_text_equal :: "string option \<Rightarrow> string option \<Rightarrow> bool" where
  "confit_v2_typecheck_text_equal left right =
     (case (left, right) of (Some l, Some r) \<Rightarrow> strcmp l r = 0 | _ \<Rightarrow> False)"

definition nonempty_text :: "string option \<Rightarrow> bool" where
  "nonempty_text t = (case t of None \<Rightarrow> False | Some s \<Rightarrow> char_at s 0 \<noteq> NUL)"

definition confit_v2_typecheck_type_is_valid :: "etype \<Rightarrow> bool" where
  "confit_v2_typecheck_type_is_valid t = (case et_kind t of
     TYPE_ENUM \<Rightarrow> et_element_kind t = TYPE_INVALID \<and> nonempty_text (et_enum_id t)
       \<and> et_element_enum_id t = None
   | TYPE_COLLECTION \<Rightarrow>
       if et_enum_id t \<noteq> None \<or> et_element_kind t = TYPE_INVALID
          \<or> et_element_kind t = TYPE_COLLECTION then False
       else if et_element_kind t = TYPE_ENUM then nonempty_text (et_element_enum_id t)
       else et_element_enum_id t = None
   | TYPE_INVALID \<Rightarrow> False
   | _ \<Rightarrow> et_element_kind t = TYPE_INVALID \<and> et_enum_id t = None \<and> et_element_enum_id t = None)"

definition confit_v2_expression_type_from_option_type ::
  "option_type \<Rightarrow> string option \<Rightarrow> etype" where
  "confit_v2_expression_type_from_option_type t enum_id = (case t of
     OPTION_BOOL \<Rightarrow> simple_type TYPE_BOOL
   | OPTION_TRISTATE \<Rightarrow> simple_type TYPE_TRISTATE
   | OPTION_INT \<Rightarrow> simple_type TYPE_INT
   | OPTION_UINT \<Rightarrow> simple_type TYPE_UINT
   | OPTION_HEX \<Rightarrow> simple_type TYPE_UINT
   | OPTION_FLOAT \<Rightarrow> simple_type TYPE_FLOAT
   | OPTION_STRING \<Rightarrow> simple_type TYPE_STRING
   | OPTION_ENUM \<Rightarrow> (simple_type TYPE_ENUM)\<lparr>et_enum_id := enum_id\<rparr>
   | OPTION_PATH \<Rightarrow> simple_type TYPE_PATH
   | OPTION_STRING_LIST \<Rightarrow> (simple_type TYPE_COLLECTION)\<lparr>et_element_kind := TYPE_STRING\<rparr>
   | OPTION_PATH_LIST \<Rightarrow> (simple_type TYPE_COLLECTION)\<lparr>et_element_kind := TYPE_PATH\<rparr>
   | OPTION_ENUM_SET \<Rightarrow> (simple_type TYPE_COLLECTION)\<lparr>et_element_kind := TYPE_ENUM,
                                                     et_element_enum_id := enum_id\<rparr>
   | OPTION_INVALID \<Rightarrow> simple_type TYPE_INVALID)"

definition confit_v2_expression_type_equal :: "etype \<Rightarrow> etype \<Rightarrow> bool" where
  "confit_v2_expression_type_equal left right =
     (if \<not> confit_v2_typecheck_type_is_valid left \<or> \<not> confit_v2_typecheck_type_is_valid right
         \<or> et_kind left \<noteq> et_kind right then False
      else if et_kind left = TYPE_ENUM
      then confit_v2_typecheck_text_equal (et_enum_id left) (et_enum_id right)
      else if et_kind left = TYPE_COLLECTION then
        (if et_element_kind left \<noteq> et_element_kind right then False
         else if et_element_kind left = TYPE_ENUM
         then confit_v2_typecheck_text_equal (et_element_enum_id left) (et_element_enum_id right)
         else True)
      else True)"

definition confit_v2_expression_type_name :: "etype \<Rightarrow> string" where
  "confit_v2_expression_type_name t = (case et_kind t of
     TYPE_BOOL \<Rightarrow> ''bool'' | TYPE_TRISTATE \<Rightarrow> ''tristate'' | TYPE_INT \<Rightarrow> ''int''
   | TYPE_UINT \<Rightarrow> ''uint'' | TYPE_FLOAT \<Rightarrow> ''float'' | TYPE_STRING \<Rightarrow> ''string''
   | TYPE_ENUM \<Rightarrow> ''enum'' | TYPE_PATH \<Rightarrow> ''path'' | TYPE_COLLECTION \<Rightarrow> ''collection''
   | TYPE_INVALID \<Rightarrow> ''invalid'')"

definition confit_v2_typecheck_is_numeric :: "etype \<Rightarrow> bool" where
  "confit_v2_typecheck_is_numeric t \<longleftrightarrow>
     et_kind t = TYPE_INT \<or> et_kind t = TYPE_UINT \<or> et_kind t = TYPE_FLOAT"

definition confit_v2_typecheck_is_ordered :: "etype \<Rightarrow> bool" where
  "confit_v2_typecheck_is_ordered t \<longleftrightarrow>
     confit_v2_typecheck_is_numeric t \<or> et_kind t = TYPE_STRING \<or> et_kind t = TYPE_PATH"

definition confit_v2_typecheck_find_binding :: "environment \<Rightarrow> string \<Rightarrow> ebinding option" where
  "confit_v2_typecheck_find_binding env name = find (\<lambda>b. strcmp (bind_id b) name = 0) env"

fun confit_v2_typecheck_environment_is_valid_from :: "string list \<Rightarrow> environment \<Rightarrow> bool" where
  "confit_v2_typecheck_environment_is_valid_from seen [] = True"
| "confit_v2_typecheck_environment_is_valid_from seen (b # bs) =
     (if char_at (bind_id b) 0 = NUL \<or> \<not> confit_v2_typecheck_type_is_valid (bind_type b) then False
      else if \<exists>other \<in> set seen. strcmp (bind_id b) other = 0 then False
      else confit_v2_typecheck_environment_is_valid_from (seen @ [bind_id b]) bs)"

definition confit_v2_typecheck_environment_is_valid :: "environment \<Rightarrow> bool" where
  "confit_v2_typecheck_environment_is_valid env =
     confit_v2_typecheck_environment_is_valid_from [] env"

section \<open>Checking a node\<close>

definition literal_type :: "expr_literal \<Rightarrow> etype" where
  "literal_type l = simple_type (case l of
     LITERAL_BOOL _ \<Rightarrow> TYPE_BOOL | LITERAL_TRISTATE _ \<Rightarrow> TYPE_TRISTATE | LITERAL_INT _ \<Rightarrow> TYPE_INT
   | LITERAL_HEX _ \<Rightarrow> TYPE_UINT | LITERAL_FLOAT _ \<Rightarrow> TYPE_FLOAT | LITERAL_STRING _ \<Rightarrow> TYPE_STRING)"

text \<open>The type of a unary or binary operator from its operands, or the message.\<close>

definition in_quotes :: "string \<Rightarrow> string" where
  "in_quotes s = CHR 0x27 # s @ [CHR 0x27]"

definition unary_type :: "unary_operator \<Rightarrow> etype \<Rightarrow> string + etype" where
  "unary_type u left =
     (if u = UNARY_NOT then
        (if et_kind left \<noteq> TYPE_BOOL then Inl (in_quotes ''!'' @ '' requires a bool operand'')
         else Inr left)
      else if et_kind left \<noteq> TYPE_INT \<and> et_kind left \<noteq> TYPE_FLOAT
      then Inl ''unary numeric operator requires int or float''
      else Inr left)"

definition binary_type :: "binary_operator \<Rightarrow> etype \<Rightarrow> etype \<Rightarrow> string + etype" where
  "binary_type b left right =
     (if b = BINARY_AND \<or> b = BINARY_OR then
        (if et_kind left \<noteq> TYPE_BOOL \<or> et_kind right \<noteq> TYPE_BOOL
         then Inl ''boolean operator requires bool operands'' else Inr (simple_type TYPE_BOOL))
      else if b = BINARY_EQUAL \<or> b = BINARY_NOT_EQUAL then
        (if \<not> confit_v2_expression_type_equal left right
         then Inl ''equality requires identical operand types'' else Inr (simple_type TYPE_BOOL))
      else if b = BINARY_IN then
        (if et_kind right \<noteq> TYPE_COLLECTION then Inl (in_quotes ''in'' @ '' requires a collection right operand'')
         else if et_element_kind right \<noteq> et_kind left
           \<or> (et_kind left = TYPE_ENUM
              \<and> \<not> confit_v2_typecheck_text_equal (et_enum_id left) (et_element_enum_id right))
         then Inl (in_quotes ''in'' @ '' element type must match collection type'') else Inr (simple_type TYPE_BOOL))
      else if b = BINARY_LESS \<or> b = BINARY_LESS_EQUAL \<or> b = BINARY_GREATER
        \<or> b = BINARY_GREATER_EQUAL then
        (if \<not> confit_v2_expression_type_equal left right \<or> \<not> confit_v2_typecheck_is_ordered left
         then Inl ''ordering requires matching ordered operand types''
         else Inr (simple_type TYPE_BOOL))
      else
        (if \<not> confit_v2_expression_type_equal left right \<or> \<not> confit_v2_typecheck_is_numeric left
         then Inl ''arithmetic requires identical numeric operand types''
         else if b = BINARY_MODULO \<and> et_kind left = TYPE_FLOAT
         then Inl (in_quotes ''%'' @ '' is not defined for float'')
         else Inr left))"

definition is_reference :: "expr_node \<Rightarrow> bool" where
  "is_reference n = (case n of Reference _ _ \<Rightarrow> True | _ \<Rightarrow> False)"

text \<open>The builtins, found by comparing the called name with each, and their signatures.\<close>

datatype builtin =
  Enabled | Builtin | Module | Defined | Len | Contains | Starts_With | Ends_With | Concat | Enum_Name

definition builtin_of :: "string \<Rightarrow> builtin option" where
  "builtin_of name =
     (if strcmp name ''enabled'' = 0 then Some Enabled
      else if strcmp name ''builtin'' = 0 then Some Builtin
      else if strcmp name ''module'' = 0 then Some Module
      else if strcmp name ''defined'' = 0 then Some Defined
      else if strcmp name ''len'' = 0 then Some Len
      else if strcmp name ''contains'' = 0 then Some Contains
      else if strcmp name ''starts_with'' = 0 then Some Starts_With
      else if strcmp name ''ends_with'' = 0 then Some Ends_With
      else if strcmp name ''concat'' = 0 then Some Concat
      else if strcmp name ''enum_name'' = 0 then Some Enum_Name
      else None)"

definition kBuiltinArity :: string where
  "kBuiltinArity = ''builtin has an invalid argument count''"
definition kBuiltinArgument :: string where
  "kBuiltinArgument = ''builtin argument type is invalid''"

text \<open>The type of a call from its argument nodes and their types, or the message.\<close>

definition signature1 :: "etype list \<Rightarrow> (etype \<Rightarrow> bool) \<Rightarrow> etype_kind \<Rightarrow> string + etype" where
  "signature1 types accepts result = (case types of
     [a] \<Rightarrow> if \<not> accepts a then Inl kBuiltinArgument else Inr (simple_type result)
   | _ \<Rightarrow> Inl kBuiltinArity)"

definition signature2 :: "etype list \<Rightarrow> (etype \<Rightarrow> etype \<Rightarrow> bool) \<Rightarrow> etype_kind \<Rightarrow> string + etype" where
  "signature2 types accepts result = (case types of
     [a, b] \<Rightarrow> if \<not> accepts a b then Inl kBuiltinArgument else Inr (simple_type result)
   | _ \<Rightarrow> Inl kBuiltinArity)"

definition contains_types :: "etype \<Rightarrow> etype \<Rightarrow> bool" where
  "contains_types a b \<longleftrightarrow> \<not> (et_kind a \<noteq> TYPE_COLLECTION \<or> et_element_kind a \<noteq> et_kind b
     \<or> (et_kind b = TYPE_ENUM
        \<and> \<not> confit_v2_typecheck_text_equal (et_element_enum_id a) (et_enum_id b)))"

definition builtin_type :: "string \<Rightarrow> expr_node list \<Rightarrow> etype list \<Rightarrow> string + etype" where
  "builtin_type name nodes types = (case builtin_of name of
     Some Enabled \<Rightarrow>
       signature1 types (\<lambda>a. et_kind a = TYPE_BOOL \<or> et_kind a = TYPE_TRISTATE) TYPE_BOOL
   | Some Builtin \<Rightarrow> signature1 types (\<lambda>a. et_kind a = TYPE_TRISTATE) TYPE_BOOL
   | Some Module \<Rightarrow> signature1 types (\<lambda>a. et_kind a = TYPE_TRISTATE) TYPE_BOOL
   | Some Defined \<Rightarrow>
       (case nodes of
          [n] \<Rightarrow> if \<not> is_reference n then Inl ''defined() requires an option reference''
                 else Inr (simple_type TYPE_BOOL)
        | _ \<Rightarrow> Inl kBuiltinArity)
   | Some Len \<Rightarrow>
       signature1 types (\<lambda>a. et_kind a = TYPE_STRING \<or> et_kind a = TYPE_COLLECTION) TYPE_UINT
   | Some Contains \<Rightarrow> signature2 types contains_types TYPE_BOOL
   | Some Starts_With \<Rightarrow>
       signature2 types (\<lambda>a b. et_kind a = TYPE_STRING \<and> et_kind b = TYPE_STRING) TYPE_BOOL
   | Some Ends_With \<Rightarrow>
       signature2 types (\<lambda>a b. et_kind a = TYPE_STRING \<and> et_kind b = TYPE_STRING) TYPE_BOOL
   | Some Concat \<Rightarrow>
       if types = [] then Inl kBuiltinArity
       else if \<exists>a \<in> set types. et_kind a \<noteq> TYPE_STRING then Inl kBuiltinArgument
       else Inr (simple_type TYPE_STRING)
   | Some Enum_Name \<Rightarrow> signature1 types (\<lambda>a. et_kind a = TYPE_ENUM) TYPE_STRING
   | None \<Rightarrow> Inl ''unknown expression builtin'')"

definition at_node :: "typecheck_context \<Rightarrow> expr_node \<Rightarrow> string + 'a \<Rightarrow> diagnostic + 'a" where
  "at_node context node r = (case r of
     Inl message \<Rightarrow> confit_v2_typecheck_diagnostic context node message | Inr x \<Rightarrow> Inr x)"

text \<open>
  The last step of \<open>typecheck_node\<close>: the type of the node must be valid, and is appended to
  the table.
\<close>

definition confit_v2_typecheck_append_type ::
  "typecheck_context \<Rightarrow> expr_node \<Rightarrow> etype \<Rightarrow> type_table \<Rightarrow> diagnostic + etype \<times> type_table" where
  "confit_v2_typecheck_append_type context node t table =
     (if \<not> confit_v2_typecheck_type_is_valid t
      then confit_v2_typecheck_diagnostic context node ''invalid expression literal type''
      else Inr (t, table @ [(node_addr node, t)]))"

text \<open>
  \<open>typecheck_arguments\<close> is the argument loop of \<open>typecheck_call\<close>; \<open>typecheck_items\<close> the loop
  over the items after the first of a list literal.
\<close>

fun confit_v2_typecheck_node ::
    "typecheck_context \<Rightarrow> expr_node \<Rightarrow> type_table \<Rightarrow> diagnostic + etype \<times> type_table"
  and typecheck_arguments ::
    "typecheck_context \<Rightarrow> expr_node list \<Rightarrow> type_table \<Rightarrow> diagnostic + etype list \<times> type_table"
  and typecheck_items ::
    "typecheck_context \<Rightarrow> etype \<Rightarrow> expr_node list \<Rightarrow> type_table \<Rightarrow> diagnostic + type_table" where
  "confit_v2_typecheck_node context (Literal loc l) table =
     confit_v2_typecheck_append_type context (Literal loc l) (literal_type l) table"
| "confit_v2_typecheck_node context (Reference loc r) table =
     (case confit_v2_typecheck_find_binding (tc_environment context) r of
        None \<Rightarrow> confit_v2_typecheck_diagnostic context (Reference loc r) ''unknown expression reference''
      | Some binding \<Rightarrow>
          confit_v2_typecheck_append_type context (Reference loc r) (bind_type binding) table)"
| "confit_v2_typecheck_node context (Unary loc u n) table =
     bind_res (confit_v2_typecheck_node context n table) (\<lambda>(left, table).
     bind_res (at_node context (Unary loc u n) (unary_type u left)) (\<lambda>t.
       confit_v2_typecheck_append_type context (Unary loc u n) t table))"
| "confit_v2_typecheck_node context (Binary loc b l r) table =
     bind_res (confit_v2_typecheck_node context l table) (\<lambda>(left, table).
     bind_res (confit_v2_typecheck_node context r table) (\<lambda>(right, table).
     bind_res (at_node context (Binary loc b l r) (binary_type b left right)) (\<lambda>t.
       confit_v2_typecheck_append_type context (Binary loc b l r) t table)))"
| "confit_v2_typecheck_node context (Conditional loc c t f) table =
     bind_res (confit_v2_typecheck_node context c table) (\<lambda>(condition, table).
       if et_kind condition \<noteq> TYPE_BOOL
       then confit_v2_typecheck_diagnostic context c ''conditional condition must be bool''
       else
         bind_res (confit_v2_typecheck_node context t table) (\<lambda>(left, table).
         bind_res (confit_v2_typecheck_node context f table) (\<lambda>(right, table).
           if \<not> confit_v2_expression_type_equal left right
           then confit_v2_typecheck_diagnostic context (Conditional loc c t f)
                  ''conditional branches must have identical types''
           else confit_v2_typecheck_append_type context (Conditional loc c t f) left table)))"
| "confit_v2_typecheck_node context (Call loc name arguments) table =
     bind_res (typecheck_arguments context arguments table) (\<lambda>(types, table).
     bind_res (at_node context (Call loc name arguments) (builtin_type name arguments types)) (\<lambda>t.
       confit_v2_typecheck_append_type context (Call loc name arguments) t table))"
| "confit_v2_typecheck_node context (List_Node loc items) table =
     (case items of
        [] \<Rightarrow> confit_v2_typecheck_diagnostic context (List_Node loc items)
                ''empty list literal has no static element type''
      | first # rest \<Rightarrow>
          bind_res (confit_v2_typecheck_node context first table) (\<lambda>(left, table).
            if et_kind left \<noteq> TYPE_STRING \<and> et_kind left \<noteq> TYPE_PATH \<and> et_kind left \<noteq> TYPE_ENUM
            then confit_v2_typecheck_diagnostic context first
                   ''list literal supports string, path, or enum elements''
            else
              bind_res (typecheck_items context left rest table) (\<lambda>table.
                confit_v2_typecheck_append_type context (List_Node loc items)
                  \<lparr>et_kind = TYPE_COLLECTION, et_element_kind = et_kind left, et_enum_id = None,
                   et_element_enum_id = (if et_kind left = TYPE_ENUM then et_enum_id left else None)\<rparr>
                  table)))"
| "typecheck_arguments context [] table = Inr ([], table)"
| "typecheck_arguments context (n # ns) table =
     bind_res (confit_v2_typecheck_node context n table) (\<lambda>(t, table).
     bind_res (typecheck_arguments context ns table) (\<lambda>(ts, table). Inr (t # ts, table)))"
| "typecheck_items context left [] table = Inr table"
| "typecheck_items context left (n # ns) table =
     bind_res (confit_v2_typecheck_node context n table) (\<lambda>(right, table).
       if \<not> confit_v2_expression_type_equal left right
       then confit_v2_typecheck_diagnostic context n ''list literal elements must have identical types''
       else typecheck_items context left ns table)"

definition confit_v2_expression_type_check ::
  "expression \<Rightarrow> environment \<Rightarrow> diagnostic + typed_expression" where
  "confit_v2_expression_type_check expression env =
     (if \<not> confit_v2_typecheck_environment_is_valid env
      then Inl (confit_diagnostic_set CONFIT_ERR_INVALID_ARGUMENT
                  (span_path (expression_span expression)) (span_line (expression_span expression))
                  (span_column (expression_span expression)) ''invalid expression binding environment'')
      else
        bind_res (confit_v2_typecheck_node \<lparr>tc_expression = expression, tc_environment = env\<rparr>
                    (expression_root expression) [])
          (\<lambda>(root_type, table).
             Inr \<lparr>typed_source = expression, typed_nodes = table, typed_root_type = root_type\<rparr>))"

definition confit_v2_typed_expression_node_type :: "typed_expression \<Rightarrow> expr_node \<Rightarrow> etype option" where
  "confit_v2_typed_expression_node_type typed node =
     map_option snd (find (\<lambda>(addr, t). addr = node_addr node) (typed_nodes typed))"

end
