(* ===== verification/Typing.thy ===== *)
theory Typing
  imports Typecheck
begin

text \<open>
  The typing rules of \<open>docs/expression-v2.md\<close> as an inductive relation, one rule per form, and
  the proof that the checker decides it: a node is accepted with type \<open>t\<close> exactly when the
  rules give it \<open>t\<close>, and the type table then holds one entry for every node of the tree, in
  the order children before parents.
\<close>

section \<open>Types\<close>

lemma valid_simple [simp]:
  "confit_v2_typecheck_type_is_valid (simple_type k) \<longleftrightarrow> k \<notin> {TYPE_INVALID, TYPE_ENUM, TYPE_COLLECTION}"
  by (cases k) (simp_all add: confit_v2_typecheck_type_is_valid_def simple_type_def nonempty_text_def)

lemma simple_type_sel [simp]:
  "et_kind (simple_type k) = k" "et_element_kind (simple_type k) = TYPE_INVALID"
  "et_enum_id (simple_type k) = None" "et_element_enum_id (simple_type k) = None"
  by (simp_all add: simple_type_def)

lemma simple_type_inject [simp]: "simple_type k = simple_type l \<longleftrightarrow> k = l"
  by (simp add: simple_type_def)

lemma text_equal_iff [simp]: "confit_v2_typecheck_text_equal a b \<longleftrightarrow> (\<exists>s. a = Some s \<and> b = Some s)"
  by (auto simp: confit_v2_typecheck_text_equal_def spec_simps split: option.splits)

lemma etype_eqI:
  "et_kind a = et_kind b \<Longrightarrow> et_element_kind a = et_element_kind b \<Longrightarrow> et_enum_id a = et_enum_id b
    \<Longrightarrow> et_element_enum_id a = et_element_enum_id b \<Longrightarrow> a = (b :: etype)"
  by (cases a; cases b) simp

text \<open>The comparison of types is equality on valid types.\<close>

lemma type_equal_iff:
  "confit_v2_expression_type_equal a b \<longleftrightarrow> confit_v2_typecheck_type_is_valid a \<and> a = b"
proof
  assume "confit_v2_expression_type_equal a b"
  then show "confit_v2_typecheck_type_is_valid a \<and> a = b"
    by (auto simp: confit_v2_expression_type_equal_def confit_v2_typecheck_type_is_valid_def
        split: if_splits etype_kind.splits intro!: etype_eqI)
next
  assume "confit_v2_typecheck_type_is_valid a \<and> a = b"
  then show "confit_v2_expression_type_equal a b"
    by (auto simp: confit_v2_expression_type_equal_def confit_v2_typecheck_type_is_valid_def
        nonempty_text_def split: if_splits etype_kind.splits option.splits)
qed

lemma valid_simple_kind:
  "confit_v2_typecheck_type_is_valid t \<Longrightarrow> et_kind t = k \<Longrightarrow> k \<notin> {TYPE_ENUM, TYPE_COLLECTION}
    \<Longrightarrow> t = simple_type k"
  by (rule etype_eqI) (auto simp: confit_v2_typecheck_type_is_valid_def split: etype_kind.splits)

definition element_type :: "etype \<Rightarrow> etype" where
  "element_type t = \<lparr>et_kind = et_element_kind t, et_element_kind = TYPE_INVALID,
     et_enum_id = et_element_enum_id t, et_element_enum_id = None\<rparr>"

definition collection_of :: "etype \<Rightarrow> etype" where
  "collection_of t = \<lparr>et_kind = TYPE_COLLECTION, et_element_kind = et_kind t, et_enum_id = None,
     et_element_enum_id = et_enum_id t\<rparr>"

lemma element_type_valid:
  "confit_v2_typecheck_type_is_valid t \<Longrightarrow> et_kind t = TYPE_COLLECTION
    \<Longrightarrow> confit_v2_typecheck_type_is_valid (element_type t)"
  by (cases "et_element_kind t")
    (auto simp: confit_v2_typecheck_type_is_valid_def element_type_def split: if_splits)

lemma element_type_eq:
  assumes "confit_v2_typecheck_type_is_valid t" "et_kind t = TYPE_COLLECTION"
    and "confit_v2_typecheck_type_is_valid a"
  shows "a = element_type t \<longleftrightarrow> et_element_kind t = et_kind a
    \<and> (et_kind a = TYPE_ENUM \<longrightarrow> confit_v2_typecheck_text_equal (et_enum_id a) (et_element_enum_id t))"
proof
  assume "a = element_type t"
  with assms element_type_valid [OF assms(1,2)]
  show "et_element_kind t = et_kind a
    \<and> (et_kind a = TYPE_ENUM \<longrightarrow> confit_v2_typecheck_text_equal (et_enum_id a) (et_element_enum_id t))"
    by (auto simp: element_type_def confit_v2_typecheck_type_is_valid_def nonempty_text_def
        split: option.splits)
next
  assume "et_element_kind t = et_kind a
    \<and> (et_kind a = TYPE_ENUM \<longrightarrow> confit_v2_typecheck_text_equal (et_enum_id a) (et_element_enum_id t))"
  with assms show "a = element_type t"
    by (auto simp: element_type_def confit_v2_typecheck_type_is_valid_def
        split: etype_kind.splits if_splits intro!: etype_eqI)
qed

section \<open>The typing rules\<close>

definition lookup_type :: "environment \<Rightarrow> string \<Rightarrow> etype option" where
  "lookup_type env r = map_option bind_type (find (\<lambda>b. bind_id b = r) env)"

lemma find_binding_lookup:
  "confit_v2_typecheck_find_binding env r = find (\<lambda>b. bind_id b = r) env"
  by (simp add: confit_v2_typecheck_find_binding_def spec_simps)

definition numeric :: "etype_kind \<Rightarrow> bool" where
  "numeric k \<longleftrightarrow> k \<in> {TYPE_INT, TYPE_UINT, TYPE_FLOAT}"

definition ordered :: "etype_kind \<Rightarrow> bool" where
  "ordered k \<longleftrightarrow> numeric k \<or> k \<in> {TYPE_STRING, TYPE_PATH}"

abbreviation bool_type :: etype where "bool_type \<equiv> simple_type TYPE_BOOL"
abbreviation string_type :: etype where "string_type \<equiv> simple_type TYPE_STRING"

inductive typing :: "environment \<Rightarrow> expr_node \<Rightarrow> etype \<Rightarrow> bool" for env :: environment where
  t_literal: "typing env (Literal loc l) (literal_type l)"
| t_reference: "lookup_type env r = Some t \<Longrightarrow> confit_v2_typecheck_type_is_valid t
    \<Longrightarrow> typing env (Reference loc r) t"
| t_not: "typing env n bool_type \<Longrightarrow> typing env (Unary loc UNARY_NOT n) bool_type"
| t_sign: "u \<noteq> UNARY_NOT \<Longrightarrow> typing env n t \<Longrightarrow> et_kind t \<in> {TYPE_INT, TYPE_FLOAT}
    \<Longrightarrow> typing env (Unary loc u n) t"
| t_bool: "b \<in> {BINARY_AND, BINARY_OR} \<Longrightarrow> typing env l bool_type \<Longrightarrow> typing env r bool_type
    \<Longrightarrow> typing env (Binary loc b l r) bool_type"
| t_equal: "b \<in> {BINARY_EQUAL, BINARY_NOT_EQUAL} \<Longrightarrow> typing env l t \<Longrightarrow> typing env r t
    \<Longrightarrow> typing env (Binary loc b l r) bool_type"
| t_order: "b \<in> {BINARY_LESS, BINARY_LESS_EQUAL, BINARY_GREATER, BINARY_GREATER_EQUAL}
    \<Longrightarrow> typing env l t \<Longrightarrow> typing env r t \<Longrightarrow> ordered (et_kind t)
    \<Longrightarrow> typing env (Binary loc b l r) bool_type"
| t_in: "typing env l (element_type t) \<Longrightarrow> typing env r t \<Longrightarrow> et_kind t = TYPE_COLLECTION
    \<Longrightarrow> typing env (Binary loc BINARY_IN l r) bool_type"
| t_arithmetic: "b \<in> {BINARY_ADD, BINARY_SUBTRACT, BINARY_MULTIPLY, BINARY_DIVIDE, BINARY_MODULO}
    \<Longrightarrow> typing env l t \<Longrightarrow> typing env r t \<Longrightarrow> numeric (et_kind t)
    \<Longrightarrow> \<not> (b = BINARY_MODULO \<and> et_kind t = TYPE_FLOAT) \<Longrightarrow> typing env (Binary loc b l r) t"
| t_conditional: "typing env c bool_type \<Longrightarrow> typing env n t \<Longrightarrow> typing env m t
    \<Longrightarrow> typing env (Conditional loc c n m) t"
| t_enabled: "builtin_of f = Some Enabled \<Longrightarrow> typing env n t \<Longrightarrow> et_kind t \<in> {TYPE_BOOL, TYPE_TRISTATE}
    \<Longrightarrow> typing env (Call loc f [n]) bool_type"
| t_tristate: "builtin_of f \<in> {Some Builtin, Some Module} \<Longrightarrow> typing env n (simple_type TYPE_TRISTATE)
    \<Longrightarrow> typing env (Call loc f [n]) bool_type"
| t_defined: "builtin_of f = Some Defined \<Longrightarrow> typing env (Reference loc' r) t
    \<Longrightarrow> typing env (Call loc f [Reference loc' r]) bool_type"
| t_len: "builtin_of f = Some Len \<Longrightarrow> typing env n t \<Longrightarrow> et_kind t \<in> {TYPE_STRING, TYPE_COLLECTION}
    \<Longrightarrow> typing env (Call loc f [n]) (simple_type TYPE_UINT)"
| t_contains: "builtin_of f = Some Contains \<Longrightarrow> typing env n t \<Longrightarrow> et_kind t = TYPE_COLLECTION
    \<Longrightarrow> typing env m (element_type t) \<Longrightarrow> typing env (Call loc f [n, m]) bool_type"
| t_affix: "builtin_of f \<in> {Some Starts_With, Some Ends_With} \<Longrightarrow> typing env n string_type
    \<Longrightarrow> typing env m string_type \<Longrightarrow> typing env (Call loc f [n, m]) bool_type"
| t_concat: "builtin_of f = Some Concat \<Longrightarrow> ns \<noteq> [] \<Longrightarrow> (\<And>n. n \<in> set ns \<Longrightarrow> typing env n string_type)
    \<Longrightarrow> typing env (Call loc f ns) string_type"
| t_enum_name: "builtin_of f = Some Enum_Name \<Longrightarrow> typing env n t \<Longrightarrow> et_kind t = TYPE_ENUM
    \<Longrightarrow> typing env (Call loc f [n]) string_type"
| t_list: "ns \<noteq> [] \<Longrightarrow> (\<And>n. n \<in> set ns \<Longrightarrow> typing env n t)
    \<Longrightarrow> et_kind t \<in> {TYPE_STRING, TYPE_PATH, TYPE_ENUM} \<Longrightarrow> typing env (List_Node loc ns) (collection_of t)"

lemma collection_of_valid:
  "confit_v2_typecheck_type_is_valid t \<Longrightarrow> et_kind t \<in> {TYPE_STRING, TYPE_PATH, TYPE_ENUM}
    \<Longrightarrow> confit_v2_typecheck_type_is_valid (collection_of t)"
  by (auto simp: collection_of_def confit_v2_typecheck_type_is_valid_def)

lemma typing_valid: "typing env n t \<Longrightarrow> confit_v2_typecheck_type_is_valid t"
proof (induction rule: typing.induct)
  case (t_literal loc l)
  then show ?case by (cases l) (simp_all add: literal_type_def)
next
  case (t_list ns t loc)
  then show ?case using collection_of_valid [of t] by (cases ns) auto
qed auto

text \<open>The nodes of a tree, children before parents.\<close>

fun post_nodes :: "expr_node \<Rightarrow> expr_node list" where
  "post_nodes (Literal loc l) = [Literal loc l]"
| "post_nodes (Reference loc r) = [Reference loc r]"
| "post_nodes (Unary loc u n) = post_nodes n @ [Unary loc u n]"
| "post_nodes (Binary loc b l r) = post_nodes l @ post_nodes r @ [Binary loc b l r]"
| "post_nodes (Conditional loc c t f) =
     post_nodes c @ post_nodes t @ post_nodes f @ [Conditional loc c t f]"
| "post_nodes (Call loc f args) = concat (map post_nodes args) @ [Call loc f args]"
| "post_nodes (List_Node loc items) = concat (map post_nodes items) @ [List_Node loc items]"

lemma post_nodes_children: "post_nodes n = concat (map post_nodes (children n)) @ [n]"
  by (cases n) simp_all

text \<open>A table that holds the type of each of a sequence of nodes.\<close>

definition entries_for :: "environment \<Rightarrow> expr_node list \<Rightarrow> type_table \<Rightarrow> bool" where
  "entries_for env = list_all2 (\<lambda>n (addr, t). addr = node_addr n \<and> typing env n t)"

lemma entries_append:
  "entries_for env ns es \<Longrightarrow> entries_for env ms fs \<Longrightarrow> entries_for env (ns @ ms) (es @ fs)"
  by (simp add: entries_for_def list_all2_appendI)

lemma entries_Nil [simp]: "entries_for env [] []"
  by (simp add: entries_for_def)

lemma entries_one [simp]:
  "entries_for env [n] [(addr, t)] \<longleftrightarrow> addr = node_addr n \<and> typing env n t"
  by (simp add: entries_for_def)


section \<open>The checker decides the rules\<close>

lemma append_type_Inr:
  "confit_v2_typecheck_append_type context n t table = Inr (t', table') \<longleftrightarrow>
     confit_v2_typecheck_type_is_valid t \<and> t' = t \<and> table' = table @ [(node_addr n, t)]"
  by (auto simp: confit_v2_typecheck_append_type_def confit_v2_typecheck_diagnostic_def)

lemma diagnostic_not_Inr [simp]:
  "confit_v2_typecheck_diagnostic context n message \<noteq> Inr x"
  by (simp add: confit_v2_typecheck_diagnostic_def)

lemma at_node_Inr [simp]: "at_node context n r = Inr x \<longleftrightarrow> r = Inr x"
  by (auto simp: at_node_def split: sum.splits)

lemma unary_type_typing:
  "unary_type u left = Inr t \<Longrightarrow> typing env n left \<Longrightarrow> typing env (Unary loc u n) t"
  using typing_valid [of env n left] valid_simple_kind [of left TYPE_BOOL]
  by (auto simp: unary_type_def intro: t_not t_sign split: if_splits)

lemma binary_type_typing:
  assumes "binary_type b left right = Inr t" "typing env l left" "typing env r right"
  shows "typing env (Binary loc b l r) t"
proof -
  note v = typing_valid [OF assms(2)] typing_valid [OF assms(3)]
  have bt: "et_kind left = TYPE_BOOL \<Longrightarrow> left = bool_type" "et_kind right = TYPE_BOOL \<Longrightarrow> right = bool_type"
    using v by (auto intro: valid_simple_kind)
  show ?thesis
  proof (cases b)
    case BINARY_IN
    with assms(1) have k: "et_kind right = TYPE_COLLECTION" "et_element_kind right = et_kind left"
      "et_kind left = TYPE_ENUM \<longrightarrow> confit_v2_typecheck_text_equal (et_enum_id left) (et_element_enum_id right)"
      "t = bool_type" by (auto simp: binary_type_def split: if_splits)
    then have "left = element_type right" using element_type_eq [OF v(2) k(1) v(1)] by simp
    with assms k BINARY_IN show ?thesis by (auto intro: t_in)
  qed (use assms bt in \<open>auto simp: binary_type_def type_equal_iff confit_v2_typecheck_is_numeric_def
      confit_v2_typecheck_is_ordered_def numeric_def ordered_def
      intro: t_bool t_equal t_order t_arithmetic split: if_splits\<close>)
qed

lemma typing_simple:
  "typing env n a \<Longrightarrow> et_kind a = k \<Longrightarrow> k \<notin> {TYPE_ENUM, TYPE_COLLECTION} \<Longrightarrow> typing env n (simple_type k)"
  using typing_valid [of env n a] valid_simple_kind [of a k] by auto

lemma list_all2_one: "list_all2 P ns [a] \<Longrightarrow> \<exists>n. ns = [n] \<and> P n a"
  by (auto simp: list_all2_Cons2)

lemma list_all2_two: "list_all2 P ns [a, b] \<Longrightarrow> \<exists>n m. ns = [n, m] \<and> P n a \<and> P m b"
  by (auto simp: list_all2_Cons2)

lemma signature1_Inr:
  "signature1 ts P k = Inr t \<longleftrightarrow> (\<exists>a. ts = [a] \<and> P a \<and> t = simple_type k)"
  by (auto simp: signature1_def split: list.splits if_splits)

lemma signature2_Inr:
  "signature2 ts P k = Inr t \<longleftrightarrow> (\<exists>a b. ts = [a, b] \<and> P a b \<and> t = simple_type k)"
  by (auto simp: signature2_def split: list.splits if_splits)

lemma contains_types_iff:
  "confit_v2_typecheck_type_is_valid a \<Longrightarrow> confit_v2_typecheck_type_is_valid b \<Longrightarrow>
     contains_types a b \<longleftrightarrow> et_kind a = TYPE_COLLECTION \<and> b = element_type a"
  using element_type_eq [of a b] by (auto simp: contains_types_def)

lemma builtin_type_typing:
  assumes "builtin_type name ns ts = Inr t" "list_all2 (typing env) ns ts"
  shows "typing env (Call loc name ns) t"
proof -
  from assms(1) obtain f where f: "builtin_of name = Some f" by (auto simp: builtin_type_def split: option.splits)
  note [dest!] = list_all2_one list_all2_two
  show ?thesis
  proof (cases f)
    case Defined
    with assms f obtain n where "ns = [n]" "is_reference n" "t = bool_type"
      by (auto simp: builtin_type_def split: list.splits if_splits)
    with assms(2) f Defined show ?thesis
      by (cases n) (auto simp: is_reference_def list_all2_Cons1 intro: t_defined)
  next
    case Contains
    with assms f obtain n m a b where n: "ns = [n, m]" "typing env n a" "typing env m b" "contains_types a b"
      "t = bool_type" by (auto simp: builtin_type_def signature2_Inr)
    with contains_types_iff [OF typing_valid typing_valid] f Contains show ?thesis
      by (auto intro!: t_contains)
  next
    case Concat
    with assms f have ts: "ts \<noteq> []" "\<forall>a \<in> set ts. et_kind a = TYPE_STRING" and t: "t = string_type"
      by (auto simp: builtin_type_def split: if_splits)
    moreover have "typing env n string_type" if n: "n \<in> set ns" for n
    proof -
      from n obtain i where "i < length ns" "n = ns ! i" by (auto simp: in_set_conv_nth)
      with assms(2) ts(2) have "typing env n (ts ! i)" "et_kind (ts ! i) = TYPE_STRING"
        by (auto simp: list_all2_conv_all_nth)
      then show ?thesis by (auto intro: typing_simple)
    qed
    moreover have "ns \<noteq> []" using assms(2) ts(1) by auto
    ultimately show ?thesis using f Concat by (auto intro: t_concat)
  qed (use assms f in \<open>auto simp: builtin_type_def signature1_Inr signature2_Inr
    intro: t_enabled t_tristate t_len t_enum_name t_affix typing_simple\<close>)
qed

text \<open>Soundness: an accepted node is typed by the rules, and so is every table entry.\<close>

lemma typecheck_sound:
  "confit_v2_typecheck_node ctx n table = Inr (t, table') \<Longrightarrow>
     typing (tc_environment ctx) n t
     \<and> (\<exists>es. table' = table @ es \<and> entries_for (tc_environment ctx) (post_nodes n) es)"
  "typecheck_arguments ctx ns table = Inr (ts, table') \<Longrightarrow>
     list_all2 (typing (tc_environment ctx)) ns ts
     \<and> (\<exists>es. table' = table @ es \<and> entries_for (tc_environment ctx) (concat (map post_nodes ns)) es)"
  "typecheck_items ctx left ns table = Inr table' \<Longrightarrow>
     (\<forall>n \<in> set ns. typing (tc_environment ctx) n left)
     \<and> (\<exists>es. table' = table @ es \<and> entries_for (tc_environment ctx) (concat (map post_nodes ns)) es)"
proof (induction ctx n table and ctx ns table and ctx left ns table
    arbitrary: t table' and ts table' and table'
    rule: confit_v2_typecheck_node_typecheck_arguments_typecheck_items.induct)
  case (1 ctx loc l table)
  then show ?case by (auto simp: append_type_Inr intro: t_literal)
next
  case (2 ctx loc r table)
  then show ?case
    by (auto simp: append_type_Inr find_binding_lookup lookup_type_def split: option.splits
        intro!: t_reference)
next
  case (3 ctx loc u n table)
  from "3.prems" obtain left tbl where l: "confit_v2_typecheck_node ctx n table = Inr (left, tbl)"
    and u: "unary_type u left = Inr t" and t: "table' = tbl @ [(node_addr (Unary loc u n), t)]"
    by (auto simp: bind_simps append_type_Inr)
  from "3.IH"(1) [OF l] obtain es where es: "tbl = table @ es" "typing (tc_environment ctx) n left"
    "entries_for (tc_environment ctx) (post_nodes n) es" by blast
  with unary_type_typing [OF u es(2)] t show ?case
    by (auto intro!: entries_append)
next
  case (4 ctx loc b l r table)
  from "4.prems" obtain left tbl right tbl2 where l: "confit_v2_typecheck_node ctx l table = Inr (left, tbl)"
    and r: "confit_v2_typecheck_node ctx r tbl = Inr (right, tbl2)"
    and u: "binary_type b left right = Inr t" and t: "table' = tbl2 @ [(node_addr (Binary loc b l r), t)]"
    by (auto simp: bind_simps append_type_Inr)
  from "4.IH"(1) [OF l] obtain es where es: "tbl = table @ es" "typing (tc_environment ctx) l left"
    "entries_for (tc_environment ctx) (post_nodes l) es" by blast
  from "4.IH"(2) [OF l refl r] obtain fs where fs: "tbl2 = tbl @ fs" "typing (tc_environment ctx) r right"
    "entries_for (tc_environment ctx) (post_nodes r) fs" by blast
  from binary_type_typing [OF u es(2) fs(2)] t es fs show ?case
    by (auto intro!: entries_append)
next
  case (5 ctx loc c n m table)
  from "5.prems" obtain cond tbl left tbl2 right tbl3 where
    c: "confit_v2_typecheck_node ctx c table = Inr (cond, tbl)" "et_kind cond = TYPE_BOOL"
    and l: "confit_v2_typecheck_node ctx n tbl = Inr (left, tbl2)"
    and r: "confit_v2_typecheck_node ctx m tbl2 = Inr (right, tbl3)"
    and u: "confit_v2_expression_type_equal left right"
    and t: "t = left" "table' = tbl3 @ [(node_addr (Conditional loc c n m), t)]"
    by (auto simp: bind_simps append_type_Inr split: if_splits)
  from "5.IH"(1) [OF c(1)] obtain es where es: "tbl = table @ es" "typing (tc_environment ctx) c cond"
    "entries_for (tc_environment ctx) (post_nodes c) es" by blast
  from "5.IH"(2) [OF c(1) refl _ l] c(2) obtain fs where fs: "tbl2 = tbl @ fs"
    "typing (tc_environment ctx) n left" "entries_for (tc_environment ctx) (post_nodes n) fs" by auto
  from "5.IH"(3) [OF c(1) refl _ l refl r] c(2) obtain gs where gs: "tbl3 = tbl2 @ gs"
    "typing (tc_environment ctx) m right" "entries_for (tc_environment ctx) (post_nodes m) gs" by auto
  have "typing (tc_environment ctx) (Conditional loc c n m) t"
    using typing_simple [OF es(2) c(2)] fs(2) gs(2) u t(1) by (auto simp: type_equal_iff intro: t_conditional)
  with t es fs gs show ?case by (auto intro!: entries_append)
next
  case (6 ctx loc name args table)
  from "6.prems" obtain ts tbl where l: "typecheck_arguments ctx args table = Inr (ts, tbl)"
    and u: "builtin_type name args ts = Inr t" and t: "table' = tbl @ [(node_addr (Call loc name args), t)]"
    by (auto simp: bind_simps append_type_Inr)
  from "6.IH"(1) [OF l] obtain es where es: "tbl = table @ es"
    "list_all2 (typing (tc_environment ctx)) args ts"
    "entries_for (tc_environment ctx) (concat (map post_nodes args)) es" by blast
  with builtin_type_typing [OF u es(2)] t show ?case by (auto intro!: entries_append)
next
  case (7 ctx loc items table)
  show ?case
  proof (cases items)
    case (Cons first rest)
    with "7.prems" obtain left tbl tbl2 where f: "confit_v2_typecheck_node ctx first table = Inr (left, tbl)"
      and k: "et_kind left \<in> {TYPE_STRING, TYPE_PATH, TYPE_ENUM}"
      and r: "typecheck_items ctx left rest tbl = Inr tbl2"
      and t: "t = \<lparr>et_kind = TYPE_COLLECTION, et_element_kind = et_kind left, et_enum_id = None,
         et_element_enum_id = (if et_kind left = TYPE_ENUM then et_enum_id left else None)\<rparr>"
        "table' = tbl2 @ [(node_addr (List_Node loc items), t)]"
      by (auto simp: bind_simps append_type_Inr split: if_splits)
    from "7.IH"(1) [OF Cons f] obtain es where es: "tbl = table @ es"
      "typing (tc_environment ctx) first left"
      "entries_for (tc_environment ctx) (post_nodes first) es" by blast
    from "7.IH"(2) [OF Cons f refl _ r] k obtain fs where fs: "tbl2 = tbl @ fs"
      "\<forall>n \<in> set rest. typing (tc_environment ctx) n left"
      "entries_for (tc_environment ctx) (concat (map post_nodes rest)) fs" by auto
    have "t = collection_of left"
      using typing_valid [OF es(2)] k t(1)
      by (auto simp: collection_of_def confit_v2_typecheck_type_is_valid_def)
    moreover have "typing (tc_environment ctx) (List_Node loc items) (collection_of left)"
      by (rule t_list) (use Cons es(2) fs(2) k in auto)
    ultimately show ?thesis using t(2) es fs Cons by (auto intro!: entries_append)
  qed (use "7.prems" in simp)
next
  case (9 ctx n ns table)
  from "9.prems" obtain t1 tbl ts1 where l: "confit_v2_typecheck_node ctx n table = Inr (t1, tbl)"
    and r: "typecheck_arguments ctx ns tbl = Inr (ts1, table')" and ts: "ts = t1 # ts1"
    by (auto simp: bind_simps)
  from "9.IH"(1) [OF l] "9.IH"(2) [OF l refl r] ts show ?case by (auto intro: entries_append)
next
  case (11 ctx left n ns table)
  from "11.prems" obtain t1 tbl where l: "confit_v2_typecheck_node ctx n table = Inr (t1, tbl)"
    and u: "confit_v2_expression_type_equal left t1" and r: "typecheck_items ctx left ns tbl = Inr table'"
    by (auto simp: bind_simps split: if_splits)
  from "11.IH"(1) [OF l] "11.IH"(2) [OF l refl _ r] u show ?case
    by (fastforce simp: type_equal_iff intro: entries_append)
qed auto


text \<open>Completeness: what the rules type, the checker accepts with that type.\<close>

lemma arguments_complete:
  "(\<And>n. n \<in> set ns \<Longrightarrow> \<forall>table. \<exists>table'. confit_v2_typecheck_node ctx n table = Inr (t, table'))
    \<Longrightarrow> \<exists>table'. typecheck_arguments ctx ns table = Inr (replicate (length ns) t, table')"
proof (induction ns arbitrary: table)
  case (Cons n ns)
  from Cons.prems [of n] obtain tbl where "confit_v2_typecheck_node ctx n table = Inr (t, tbl)" by auto
  moreover obtain table' where "typecheck_arguments ctx ns tbl = Inr (replicate (length ns) t, table')"
    using Cons.IH [of tbl] Cons.prems by auto
  ultimately show ?case by simp
qed simp

lemma items_complete:
  "(\<And>n. n \<in> set ns \<Longrightarrow> \<forall>table. \<exists>table'. confit_v2_typecheck_node ctx n table = Inr (t, table'))
    \<Longrightarrow> confit_v2_typecheck_type_is_valid t \<Longrightarrow> \<exists>table'. typecheck_items ctx t ns table = Inr table'"
proof (induction ns arbitrary: table)
  case (Cons n ns)
  from Cons.prems(1) [of n] obtain tbl where "confit_v2_typecheck_node ctx n table = Inr (t, tbl)" by auto
  moreover obtain table' where "typecheck_items ctx t ns tbl = Inr table'"
    using Cons.IH [of tbl] Cons.prems by auto
  ultimately show ?case using Cons.prems(2) by (simp add: type_equal_iff)
qed simp

definition checked :: "typecheck_context \<Rightarrow> expr_node \<Rightarrow> etype \<Rightarrow> bool" where
  "checked ctx n t \<longleftrightarrow> (\<forall>table. \<exists>table'. confit_v2_typecheck_node ctx n table = Inr (t, table'))"

lemma checkedD: "checked ctx n t \<Longrightarrow> \<exists>table'. confit_v2_typecheck_node ctx n table = Inr (t, table')"
  by (simp add: checked_def)

lemma checked_unary:
  assumes "checked ctx n t" "unary_type u t = Inr t'" "confit_v2_typecheck_type_is_valid t'"
  shows "checked ctx (Unary loc u n) t'"
  unfolding checked_def
proof
  fix table
  from checkedD [OF assms(1)] obtain tbl where "confit_v2_typecheck_node ctx n table = Inr (t, tbl)" by blast
  with assms(2,3) show "\<exists>table'. confit_v2_typecheck_node ctx (Unary loc u n) table = Inr (t', table')"
    by (simp add: at_node_def append_type_Inr)
qed

lemma checked_binary:
  assumes "checked ctx l t" "checked ctx r t'" "binary_type b t t' = Inr u"
    "confit_v2_typecheck_type_is_valid u"
  shows "checked ctx (Binary loc b l r) u"
  unfolding checked_def
proof
  fix table
  from checkedD [OF assms(1)] obtain tbl where 1: "confit_v2_typecheck_node ctx l table = Inr (t, tbl)" by blast
  from checkedD [OF assms(2)] obtain tbl2 where "confit_v2_typecheck_node ctx r tbl = Inr (t', tbl2)" by blast
  with 1 assms(3,4) show "\<exists>table'. confit_v2_typecheck_node ctx (Binary loc b l r) table = Inr (u, table')"
    by (simp add: at_node_def append_type_Inr)
qed

lemma checked_call:
  assumes "\<And>table. \<exists>table'. typecheck_arguments ctx ns table = Inr (ts, table')"
    "builtin_type f ns ts = Inr u" "confit_v2_typecheck_type_is_valid u"
  shows "checked ctx (Call loc f ns) u"
  unfolding checked_def
proof
  fix table
  from assms(1) obtain tbl where "typecheck_arguments ctx ns table = Inr (ts, tbl)" by blast
  with assms(2,3) show "\<exists>table'. confit_v2_typecheck_node ctx (Call loc f ns) table = Inr (u, table')"
    by (simp add: at_node_def append_type_Inr)
qed

lemma checked_args1:
  "checked ctx n t \<Longrightarrow> \<exists>table'. typecheck_arguments ctx [n] table = Inr ([t], table')"
  using checkedD [of ctx n t table] by auto

lemma checked_args2:
  assumes "checked ctx n t" "checked ctx m u"
  shows "\<exists>table'. typecheck_arguments ctx [n, m] table = Inr ([t, u], table')"
proof -
  from checkedD [OF assms(1)] obtain tbl where 1: "confit_v2_typecheck_node ctx n table = Inr (t, tbl)" by blast
  from checkedD [OF assms(2)] obtain tbl2 where "confit_v2_typecheck_node ctx m tbl = Inr (u, tbl2)" by blast
  with 1 show ?thesis by simp
qed

lemma typecheck_complete:
  "typing (tc_environment ctx) n t \<Longrightarrow> checked ctx n t"
proof (induction n t rule: typing.induct)
  case (t_literal loc l)
  then show ?case using typing_valid [OF typing.t_literal, of l]
    by (simp add: checked_def append_type_Inr)
next
  case (t_reference r t loc)
  then show ?case
    by (auto simp: checked_def append_type_Inr lookup_type_def find_binding_lookup)
next
  case (t_not n loc)
  then show ?case by (auto intro: checked_unary simp: unary_type_def)
next
  case (t_sign u n t loc)
  then show ?case using typing_valid [OF t_sign.hyps(2)] by (auto intro: checked_unary simp: unary_type_def)
next
  case (t_bool b l r loc)
  then show ?case by (auto intro: checked_binary simp: binary_type_def)
next
  case (t_equal b l t r loc)
  then show ?case using typing_valid [OF t_equal.hyps(2)]
    by (auto intro!: checked_binary [of ctx l t r t] simp: binary_type_def type_equal_iff)
next
  case (t_order b l t r loc)
  then show ?case using typing_valid [OF t_order.hyps(2)]
    by (auto intro!: checked_binary [of ctx l t r t] simp: binary_type_def type_equal_iff ordered_def numeric_def
        confit_v2_typecheck_is_ordered_def confit_v2_typecheck_is_numeric_def)
next
  case (t_in l t r loc)
  then show ?case
    using element_type_eq [of t "element_type t"] typing_valid [OF t_in.hyps(1)] typing_valid [OF t_in.hyps(2)]
    by (auto intro!: checked_binary [of ctx l "element_type t" r t] simp: binary_type_def)
next
  case (t_arithmetic b l t r loc)
  then show ?case using typing_valid [OF t_arithmetic.hyps(2)]
    by (auto intro!: checked_binary [of ctx l t r t] simp: binary_type_def type_equal_iff numeric_def
        confit_v2_typecheck_is_numeric_def)
next
  case (t_conditional c n t m loc)
  show ?case unfolding checked_def
  proof
    fix table
    from checkedD [OF t_conditional.IH(1)] obtain tbl where
      1: "confit_v2_typecheck_node ctx c table = Inr (bool_type, tbl)" by blast
    from checkedD [OF t_conditional.IH(2)] obtain tbl2 where
      2: "confit_v2_typecheck_node ctx n tbl = Inr (t, tbl2)" by blast
    from checkedD [OF t_conditional.IH(3)] obtain tbl3 where
      "confit_v2_typecheck_node ctx m tbl2 = Inr (t, tbl3)" by blast
    with 1 2 typing_valid [OF t_conditional.hyps(2)]
    show "\<exists>table'. confit_v2_typecheck_node ctx (Conditional loc c n m) table = Inr (t, table')"
      by (simp add: type_equal_iff append_type_Inr)
  qed
next
  case (t_concat f ns loc)
  then have "\<exists>table'. typecheck_arguments ctx ns table = Inr (replicate (length ns) string_type, table')" for table
    by (intro arguments_complete) (auto simp: checked_def)
  with t_concat.hyps show ?case by (intro checked_call) (auto simp: builtin_type_def)
next
  case (t_contains f n t m loc)
  then show ?case using typing_valid [OF t_contains.hyps(2)] typing_valid [OF t_contains.hyps(4)]
    by (intro checked_call [OF checked_args2 [of ctx n t m "element_type t"]])
      (auto simp: builtin_type_def signature2_Inr contains_types_iff)
next
  case (t_list ns t loc)
  then obtain n rest where ns: "ns = n # rest" by (cases ns) auto
  have v: "confit_v2_typecheck_type_is_valid t" using t_list.hyps(2) [of n] ns typing_valid by auto
  have c: "\<lparr>et_kind = TYPE_COLLECTION, et_element_kind = et_kind t, et_enum_id = None,
      et_element_enum_id = (if et_kind t = TYPE_ENUM then et_enum_id t else None)\<rparr> = collection_of t"
    using v t_list.hyps(3) by (auto simp: collection_of_def confit_v2_typecheck_type_is_valid_def)
  show ?case unfolding checked_def
  proof
    fix table
    from checkedD [of ctx n t] t_list.IH ns obtain tbl where
      1: "confit_v2_typecheck_node ctx n table = Inr (t, tbl)" by fastforce
    have "\<exists>table'. typecheck_items ctx t rest tbl = Inr table'"
      by (rule items_complete) (use t_list.IH ns v in \<open>auto simp: checked_def\<close>)
    with 1 ns c t_list.hyps(3) collection_of_valid [OF v t_list.hyps(3)]
    show "\<exists>table'. confit_v2_typecheck_node ctx (List_Node loc ns) table = Inr (collection_of t, table')"
      by (auto simp: append_type_Inr)
  qed
qed (auto intro!: checked_call [OF checked_args1] checked_call [OF checked_args2]
  simp: builtin_type_def signature1_Inr signature2_Inr is_reference_def)


section \<open>The type table and the environment\<close>

lemma entries_lookup:
  "entries_for env ns es \<Longrightarrow> distinct (map node_addr ns) \<Longrightarrow> n \<in> set ns \<Longrightarrow>
     \<exists>t. find (\<lambda>(addr, t). addr = node_addr n) es = Some (node_addr n, t) \<and> typing env n t"
  unfolding entries_for_def
proof (induction rule: list_all2_induct)
  case (Cons m ms e es)
  obtain addr t where e: "e = (addr, t)" by (cases e)
  show ?case
  proof (cases "n = m")
    case True
    with Cons e show ?thesis by auto
  next
    case False
    with Cons.prems have n: "n \<in> set ms" by simp
    moreover have "node_addr n \<noteq> node_addr m"
    proof
      assume "node_addr n = node_addr m"
      with n have "node_addr m \<in> node_addr ` set ms" by (metis imageI)
      with Cons.prems(1) show False by simp
    qed
    ultimately have "n \<in> set ms" "node_addr n \<noteq> node_addr m" by auto
    with Cons e show ?thesis by auto
  qed
qed simp

lemma post_nodes_subnodes: "set (post_nodes n) = set (subnodes n)"
  by (induction n) auto

lemma environment_valid_from:
  "confit_v2_typecheck_environment_is_valid_from seen env \<longleftrightarrow>
     (\<forall>b \<in> set env. char_at (bind_id b) 0 \<noteq> NUL \<and> confit_v2_typecheck_type_is_valid (bind_type b))
     \<and> distinct (map bind_id env) \<and> set (map bind_id env) \<inter> set seen = {}"
  by (induction env arbitrary: seen) (auto simp: spec_simps)

lemma environment_valid:
  "confit_v2_typecheck_environment_is_valid env \<longleftrightarrow>
     (\<forall>b \<in> set env. char_at (bind_id b) 0 \<noteq> NUL \<and> confit_v2_typecheck_type_is_valid (bind_type b))
     \<and> distinct (map bind_id env)"
  by (simp add: confit_v2_typecheck_environment_is_valid_def environment_valid_from)

lemma type_check_Inr:
  "confit_v2_expression_type_check x env = Inr typed \<longleftrightarrow>
     confit_v2_typecheck_environment_is_valid env
     \<and> confit_v2_typecheck_node \<lparr>tc_expression = x, tc_environment = env\<rparr> (expression_root x) []
         = Inr (typed_root_type typed, typed_nodes typed)
     \<and> typed_source typed = x"
  by (cases typed) (auto simp: confit_v2_expression_type_check_def bind_simps)

section \<open>Properties\<close>

text \<open>The tree of \<open>a.b + 2\<close>, and an environment that declares \<open>a.b\<close> an integer.\<close>

definition sample_sum :: expression where
  "sample_sum = \<lparr>expression_source = ''a.b + 2'',
     expression_span = \<lparr>span_path = None, span_line = 1, span_column = 1, span_local_offset = 0\<rparr>,
     expression_root = Binary \<lparr>info_addr = 2, info_start = 0, info_end = 7\<rparr> BINARY_ADD
       (Reference \<lparr>info_addr = 0, info_start = 0, info_end = 3\<rparr> ''a.b'')
       (Literal \<lparr>info_addr = 1, info_start = 6, info_end = 7\<rparr> (LITERAL_INT 2))\<rparr>"

definition sample_environment :: "v2_value option \<Rightarrow> environment" where
  "sample_environment v = [\<lparr>bind_id = ''a.b'', bind_type = simple_type TYPE_INT, bind_value = v\<rparr>]"

definition sample_typed :: typed_expression where
  "sample_typed = \<lparr>typed_source = sample_sum,
     typed_nodes = [(0, simple_type TYPE_INT), (1, simple_type TYPE_INT), (2, simple_type TYPE_INT)],
     typed_root_type = simple_type TYPE_INT\<rparr>"

lemma sample_type_check:
  "confit_v2_expression_type_check sample_sum (sample_environment v) = Inr sample_typed"
  by (simp add: confit_v2_expression_type_check_def sample_sum_def sample_environment_def sample_typed_def
      confit_v2_typecheck_environment_is_valid_def confit_v2_typecheck_append_type_def literal_type_def
      confit_v2_typecheck_find_binding_def at_node_def binary_type_def type_equal_iff
      confit_v2_typecheck_is_numeric_def spec_simps)

text \<open>C15. The checker decides the documented typing rules: in a valid environment it accepts an
  expression with type \<open>t\<close> exactly when the rules derive \<open>t\<close> for its root.\<close>

theorem type_check_decides_typing:
  assumes "confit_v2_typecheck_environment_is_valid env"
  shows "(\<exists>typed. confit_v2_expression_type_check x env = Inr typed \<and> typed_root_type typed = t)
    \<longleftrightarrow> typing env (expression_root x) t"
proof
  assume "\<exists>typed. confit_v2_expression_type_check x env = Inr typed \<and> typed_root_type typed = t"
  then show "typing env (expression_root x) t"
    by (auto simp: type_check_Inr dest: typecheck_sound(1))
next
  assume t: "typing env (expression_root x) t"
  let ?ctx = "\<lparr>tc_expression = x, tc_environment = env\<rparr>"
  have "typing (tc_environment ?ctx) (expression_root x) t" using t by simp
  from typecheck_complete [OF this] obtain tbl where
    "confit_v2_typecheck_node ?ctx (expression_root x) [] = Inr (t, tbl)" by (auto simp: checked_def)
  then show "\<exists>typed. confit_v2_expression_type_check x env = Inr typed \<and> typed_root_type typed = t"
    using assms by (intro exI [of _ "\<lparr>typed_source = x, typed_nodes = tbl, typed_root_type = t\<rparr>"])
      (simp add: type_check_Inr)
qed

lemma type_check_decides_typing_witness:
  "typing (sample_environment None) (expression_root sample_sum) (simple_type TYPE_INT)"
proof -
  have "confit_v2_typecheck_environment_is_valid (sample_environment None)"
    by (simp add: environment_valid sample_environment_def)
  from type_check_decides_typing [OF this, of sample_sum "simple_type TYPE_INT"]
  show ?thesis unfolding sample_type_check by (simp add: sample_typed_def)
qed

text \<open>A typed expression holds exactly one type for every node of the tree: looking a node up by
  its address finds the type that the typing rules give it, for trees whose nodes have
  distinct addresses, as the parser's have.\<close>

theorem type_table_complete:
  assumes "confit_v2_expression_type_check x env = Inr typed"
    and "distinct (map node_addr (post_nodes (expression_root x)))"
  shows "map fst (typed_nodes typed) = map node_addr (post_nodes (expression_root x))
    \<and> (\<forall>n \<in> set (subnodes (expression_root x)).
         \<exists>t. confit_v2_typed_expression_node_type typed n = Some t \<and> typing env n t)"
proof -
  have e: "entries_for env (post_nodes (expression_root x)) (typed_nodes typed)"
    using assms(1) by (auto simp: type_check_Inr dest!: typecheck_sound(1))
  then have "map fst (typed_nodes typed) = map node_addr (post_nodes (expression_root x))"
    unfolding entries_for_def by (induction rule: list_all2_induct) auto
  moreover have "\<exists>t. confit_v2_typed_expression_node_type typed n = Some t \<and> typing env n t"
    if "n \<in> set (subnodes (expression_root x))" for n
  proof -
    from entries_lookup [OF e assms(2), of n] that obtain t where
      "find (\<lambda>(addr, t). addr = node_addr n) (typed_nodes typed) = Some (node_addr n, t)" "typing env n t"
      by (auto simp: post_nodes_subnodes)
    then show ?thesis by (simp add: confit_v2_typed_expression_node_type_def)
  qed
  ultimately show ?thesis by blast
qed

lemma type_table_complete_witness:
  "map fst (typed_nodes sample_typed) = [0, 1, 2]
   \<and> (\<exists>t. confit_v2_typed_expression_node_type sample_typed (expression_root sample_sum) = Some t)"
proof -
  have d: "map node_addr (post_nodes (expression_root sample_sum)) = [0, 1, 2]"
    by (simp add: sample_sum_def)
  have r: "expression_root sample_sum \<in> set (subnodes (expression_root sample_sum))"
    by (simp add: sample_sum_def)
  with d type_table_complete [OF sample_type_check [of None]] show ?thesis by fastforce
qed

end
