(* ===== verification/Int64.thy ===== *)
theory Int64
  imports Prelude "HOL-Library.Signed_Division"
begin

text \<open>
  The overflow-checked 64-bit integer operations of \<open>src/expression/v2/evaluate.c\<close>, on words
  with signed comparisons. The C operators \<open>/\<close> and \<open>%\<close> truncate towards zero. The theorems
  show that each operation is the exact integer result, or reports the overflow exactly when
  that result does not fit; every intermediate value of the guards fits as well, so the C
  expressions have no undefined overflow.
\<close>

definition i64_divide :: "i64 \<Rightarrow> i64 \<Rightarrow> i64" where
  "i64_divide a b = word_of_int (sint a sdiv sint b)"

definition i64_modulo :: "i64 \<Rightarrow> i64 \<Rightarrow> i64" where
  "i64_modulo a b = word_of_int (sint a smod sint b)"

text \<open>\<open>None\<close> is the result 0 of the C function.\<close>

definition confit_v2_evaluate_int_add :: "i64 \<Rightarrow> i64 \<Rightarrow> i64 option" where
  "confit_v2_evaluate_int_add left right =
     (if (0 <s right \<and> INT64_MAX - right <s left) \<or> (right <s 0 \<and> left <s INT64_MIN - right)
      then None else Some (left + right))"

definition confit_v2_evaluate_int_subtract :: "i64 \<Rightarrow> i64 \<Rightarrow> i64 option" where
  "confit_v2_evaluate_int_subtract left right =
     (if (right <s 0 \<and> INT64_MAX + right <s left) \<or> (0 <s right \<and> left <s INT64_MIN + right)
      then None else Some (left - right))"

definition confit_v2_evaluate_int_multiply :: "i64 \<Rightarrow> i64 \<Rightarrow> i64 option" where
  "confit_v2_evaluate_int_multiply left right =
     (if left = 0 \<or> right = 0 then Some 0
      else if (left = INT64_MIN \<and> right = - 1) \<or> (right = INT64_MIN \<and> left = - 1) then None
      else if 0 <s left then
        (if (if 0 <s right then i64_divide INT64_MAX right <s left
             else right <s i64_divide INT64_MIN left)
         then None else Some (left * right))
      else if 0 <s right then
        (if left <s i64_divide INT64_MIN right then None else Some (left * right))
      else if left <s i64_divide INT64_MAX right then None
      else Some (left * right))"

section \<open>Exact integers\<close>

definition fits_i64 :: "int \<Rightarrow> bool" where
  "fits_i64 z \<longleftrightarrow> - (2 ^ 63) \<le> z \<and> z < 2 ^ 63"

definition i64_of_int :: "int \<Rightarrow> i64 option" where
  "i64_of_int z = (if fits_i64 z then Some (word_of_int z) else None)"

lemma of_int_sint_i64 [simp]: "word_of_int (sint w) = (w :: i64)"
  by (simp add: signed_scast_eq)

lemma sint_fits: "fits_i64 (sint (w :: i64))"
  using sint_ge [of w] sint_lt [of w] by (simp add: fits_i64_def)

lemma sint_word_of_int [simp]: "fits_i64 z \<Longrightarrow> sint (word_of_int z :: i64) = z"
  unfolding fits_i64_def by (simp add: signed_of_int signed_take_bit_int_eq_self)

lemma i64_of_int_Some: "i64_of_int z = Some w \<longleftrightarrow> fits_i64 z \<and> sint w = z"
  by (auto simp: i64_of_int_def)

lemma word_of_sints [simp]:
  "word_of_int (sint a + sint b) = (a + b :: i64)" "word_of_int (sint a - sint b) = (a - b :: i64)"
  "word_of_int (sint a * sint b) = (a * b :: i64)"
  by (simp_all add: wi_hom_syms)

lemma sint_constants [simp]:
  "sint INT64_MAX = 2 ^ 63 - 1" "sint INT64_MIN = - (2 ^ 63)"
  by (simp_all add: INT64_MAX_def INT64_MIN_def)

lemma sint_eq_iff: "a = b \<longleftrightarrow> sint a = sint (b :: i64)"
  by (metis of_int_sint_i64)

lemma fits_add: "fits_i64 (sint a + sint b) \<Longrightarrow> sint (a + b :: i64) = sint a + sint b"
  by (metis word_of_sints(1) sint_word_of_int)

lemma fits_diff: "fits_i64 (sint a - sint b) \<Longrightarrow> sint (a - b :: i64) = sint a - sint b"
  by (metis word_of_sints(2) sint_word_of_int)

lemma int_add_exact:
  "confit_v2_evaluate_int_add left right = i64_of_int (sint left + sint right)"
proof -
  note b = sint_fits [of left, unfolded fits_i64_def] sint_fits [of right, unfolded fits_i64_def]
  have "0 < sint right \<Longrightarrow> sint (INT64_MAX - right) = 2 ^ 63 - 1 - sint right"
    "sint right < 0 \<Longrightarrow> sint (INT64_MIN - right) = - (2 ^ 63) - sint right"
    using fits_diff [of INT64_MAX right] fits_diff [of INT64_MIN right] b by (simp_all add: fits_i64_def)
  with b show ?thesis
    by (auto simp: confit_v2_evaluate_int_add_def i64_of_int_def fits_i64_def word_sless_alt)
qed

lemma int_subtract_exact:
  "confit_v2_evaluate_int_subtract left right = i64_of_int (sint left - sint right)"
proof -
  note b = sint_fits [of left, unfolded fits_i64_def] sint_fits [of right, unfolded fits_i64_def]
  have "sint right < 0 \<Longrightarrow> sint (INT64_MAX + right) = 2 ^ 63 - 1 + sint right"
    "0 < sint right \<Longrightarrow> sint (INT64_MIN + right) = - (2 ^ 63) + sint right"
    using fits_add [of INT64_MAX right] fits_add [of INT64_MIN right] b by (simp_all add: fits_i64_def)
  with b show ?thesis
    by (auto simp: confit_v2_evaluate_int_subtract_def i64_of_int_def fits_i64_def word_sless_alt)
qed

lemma sdiv_pos: "0 \<le> (a :: int) \<Longrightarrow> 0 < b \<Longrightarrow> a sdiv b = a div b"
  by (cases "a = 0") (simp_all add: signed_divide_int_def)

lemma sdiv_neg_left: "a < (0 :: int) \<Longrightarrow> 0 < b \<Longrightarrow> a sdiv b = - (- a div b)"
  by (simp add: signed_divide_int_def)

lemma sdiv_neg_right: "0 < (a :: int) \<Longrightarrow> b < 0 \<Longrightarrow> a sdiv b = - (a div - b)"
  by (simp add: signed_divide_int_def)

lemma mult_le_iff_div:
  assumes "0 < (b :: int)"
  shows "a * b \<le> c \<longleftrightarrow> a \<le> c div b"
proof
  assume "a * b \<le> c"
  then have "a * b div b \<le> c div b" using assms by (rule zdiv_mono1)
  then show "a \<le> c div b" using assms by simp
next
  assume "a \<le> c div b"
  then have "a * b \<le> c div b * b" using assms by simp
  also have "\<dots> \<le> c" using assms by (simp add: div_mult_mod_eq [symmetric] minus_mod_eq_div_mult [symmetric])
  finally show "a * b \<le> c" .
qed


lemma fits_sdiv: "fits_i64 a \<Longrightarrow> fits_i64 b \<Longrightarrow> \<not> (a = - (2 ^ 63) \<and> b = - 1) \<Longrightarrow> fits_i64 (a sdiv b)"
proof -
  assume a: "fits_i64 a" and b: "fits_i64 b" and n: "\<not> (a = - (2 ^ 63) \<and> b = - 1)"
  have m: "\<bar>a sdiv b\<bar> \<le> \<bar>a\<bar>"
  proof (cases "a = 0 \<or> b = 0")
    case False
    have "\<bar>a\<bar> div \<bar>b\<bar> \<le> \<bar>a\<bar> div 1" using False by (intro zdiv_mono2) auto
    moreover have "0 \<le> \<bar>a\<bar> div \<bar>b\<bar>" using False by (simp add: pos_imp_zdiv_nonneg_iff)
    ultimately show ?thesis using False by (simp add: signed_divide_int_def abs_mult)
  qed (auto simp: signed_divide_int_def)
  show ?thesis
  proof (cases "a = - (2 ^ 63)")
    case False
    with a m show ?thesis by (auto simp: fits_i64_def abs_le_iff)
  next
    case True
    then consider "b = 0" | "0 < b" | "b < - 1" using n by fastforce
    then show ?thesis
    proof cases
      case 3
      have "(2 :: int) ^ 63 div - b \<le> 2 ^ 63 div 2" using 3 by (intro zdiv_mono2) auto
      moreover have "0 \<le> (2 :: int) ^ 63 div - b" using 3 by (simp add: pos_imp_zdiv_nonneg_iff)
      ultimately show ?thesis using 3 True by (simp add: signed_divide_int_def fits_i64_def)
    next
      case 2
      have "a sdiv b = - (- a div b)" by (rule sdiv_neg_left) (use True 2 in simp_all)
      then have "a sdiv b = - (2 ^ 63 div b)" using True by (simp only: minus_minus)
      moreover have "0 \<le> (2 :: int) ^ 63 div b" using 2 by (simp add: pos_imp_zdiv_nonneg_iff)
      ultimately show ?thesis using m True by (simp add: fits_i64_def abs_le_iff)
    qed (simp add: signed_divide_int_def fits_i64_def)
  qed
qed

lemma sint_divide:
  "\<not> (sint a = - (2 ^ 63) \<and> sint b = - 1) \<Longrightarrow> sint (i64_divide a b) = sint a sdiv sint b"
  unfolding i64_divide_def by (intro sint_word_of_int fits_sdiv sint_fits)

lemma int_multiply_exact:
  "confit_v2_evaluate_int_multiply left right = i64_of_int (sint left * sint right)"
proof -
  define l where "l = sint left"
  define r where "r = sint right"
  have b: "- (2 ^ 63) \<le> l" "l < 2 ^ 63" "- (2 ^ 63) \<le> r" "r < 2 ^ 63"
    using sint_fits [of left] sint_fits [of right] by (simp_all add: fits_i64_def l_def r_def)
  have z: "left = 0 \<longleftrightarrow> l = 0" "right = 0 \<longleftrightarrow> r = 0" "left = INT64_MIN \<longleftrightarrow> l = - (2 ^ 63)"
    "right = INT64_MIN \<longleftrightarrow> r = - (2 ^ 63)" "left = - 1 \<longleftrightarrow> l = - 1" "right = - 1 \<longleftrightarrow> r = - 1"
    by (simp_all add: sint_eq_iff l_def r_def)
  have lr: "left * right = word_of_int (l * r)" by (simp add: l_def r_def)
  consider "l = 0 \<or> r = 0" | "0 < l" "0 < r" | "0 < l" "r < 0" | "l < 0" "0 < r" | "l < 0" "r < 0" by linarith
  then show ?thesis
  proof cases
    case 1
    then show ?thesis
      by (auto simp: confit_v2_evaluate_int_multiply_def z i64_of_int_def fits_i64_def l_def [symmetric]
          r_def [symmetric])
  next
    case 2
    have q: "sint (i64_divide INT64_MAX right) = (2 ^ 63 - 1) div r"
      using 2 sint_divide [of INT64_MAX right] by (simp add: r_def sdiv_pos)
    have "l * r \<le> 2 ^ 63 - 1 \<longleftrightarrow> l \<le> (2 ^ 63 - 1) div r" using 2 by (intro mult_le_iff_div)
    moreover have "0 \<le> l * r" using 2 by simp
    ultimately have "fits_i64 (l * r) \<longleftrightarrow> \<not> (2 ^ 63 - 1) div r < l" by (auto simp: fits_i64_def)
    with 2 q z lr show ?thesis
      by (simp add: confit_v2_evaluate_int_multiply_def word_sless_alt i64_of_int_def l_def [symmetric]
          r_def [symmetric])
  next
    case 3
    have q: "sint (i64_divide INT64_MIN left) = - (2 ^ 63 div l)"
      using 3 sint_divide [of INT64_MIN left] sdiv_neg_left [of "- (2 ^ 63)" l] by (simp add: l_def)
    have "- r * l \<le> 2 ^ 63 \<longleftrightarrow> - r \<le> 2 ^ 63 div l" using 3 by (intro mult_le_iff_div)
    moreover have "l * r < 0" using 3 by (simp add: mult_pos_neg)
    ultimately have "fits_i64 (l * r) \<longleftrightarrow> \<not> r < - (2 ^ 63 div l)" by (auto simp: fits_i64_def mult.commute)
    with 3 q z lr b show ?thesis
      by (simp add: confit_v2_evaluate_int_multiply_def word_sless_alt i64_of_int_def l_def [symmetric]
          r_def [symmetric])
  next
    case 4
    have q: "sint (i64_divide INT64_MIN right) = - (2 ^ 63 div r)"
      using 4 sint_divide [of INT64_MIN right] sdiv_neg_left [of "- (2 ^ 63)" r] by (simp add: r_def)
    have "- l * r \<le> 2 ^ 63 \<longleftrightarrow> - l \<le> 2 ^ 63 div r" using 4 by (intro mult_le_iff_div)
    moreover have "l * r < 0" using 4 by (simp add: mult_neg_pos)
    ultimately have "fits_i64 (l * r) \<longleftrightarrow> \<not> l < - (2 ^ 63 div r)" by (auto simp: fits_i64_def)
    with 4 q z lr b show ?thesis
      by (simp add: confit_v2_evaluate_int_multiply_def word_sless_alt i64_of_int_def l_def [symmetric]
          r_def [symmetric])
  next
    case 5
    have q: "sint (i64_divide INT64_MAX right) = - ((2 ^ 63 - 1) div - r)"
      using 5 sint_divide [of INT64_MAX right] sdiv_neg_right [of "2 ^ 63 - 1" r] by (simp add: r_def)
    have "- l * - r \<le> 2 ^ 63 - 1 \<longleftrightarrow> - l \<le> (2 ^ 63 - 1) div - r" using 5 by (intro mult_le_iff_div) simp
    moreover have "0 < l * r" using 5 by (simp add: mult_neg_neg)
    ultimately have f: "fits_i64 (l * r) \<longleftrightarrow> \<not> l < - ((2 ^ 63 - 1) div - r)" by (auto simp: fits_i64_def)
    show ?thesis
    proof (cases "l = - (2 ^ 63) \<and> r = - 1 \<or> r = - (2 ^ 63) \<and> l = - 1")
      case True
      then have "\<not> fits_i64 (l * r)" by (auto simp: fits_i64_def)
      with True 5 z show ?thesis
        by (simp add: confit_v2_evaluate_int_multiply_def i64_of_int_def l_def [symmetric] r_def [symmetric])
    next
      case False
      with 5 q z lr f show ?thesis
        by (simp add: confit_v2_evaluate_int_multiply_def word_sless_alt i64_of_int_def l_def [symmetric]
            r_def [symmetric])
    qed
  qed
qed

section \<open>Properties\<close>

text \<open>The overflow-guarded signed operations are exact: addition, subtraction and multiplication
  return the integer result when it fits in 64 bits and report an overflow exactly when it does
  not, for every pair of operands.\<close>

theorem checked_int_arithmetic:
  "confit_v2_evaluate_int_add x y = (if fits_i64 (sint x + sint y) then Some (word_of_int (sint x + sint y)) else None)
   \<and> confit_v2_evaluate_int_subtract x y
       = (if fits_i64 (sint x - sint y) then Some (word_of_int (sint x - sint y)) else None)
   \<and> confit_v2_evaluate_int_multiply x y
       = (if fits_i64 (sint x * sint y) then Some (word_of_int (sint x * sint y)) else None)"
  by (simp only: int_add_exact int_subtract_exact int_multiply_exact i64_of_int_def simp_thms)

end
