(* ===== verification/Evaluate.thy ===== *)
theory Evaluate
  imports Typecheck Int64
begin

text \<open>
  The evaluator of typed expressions, \<open>src/expression/v2/evaluate.c\<close>. The C code reads the
  member of a value's union that the static type says is there; the model reads it through
  \<open>as_bool\<close>, \<open>as_int\<close>, ..., which are \<open>Undefined\<close> when another member was stored, so the
  absence of such a read is a theorem (theory \<open>Soundness\<close>). \<open>Reported\<close> carries a recorded
  diagnostic. Copying and clearing owned text is the identity here, and the failure of an
  allocation is not modelled.
\<close>

record expr_value =
  ev_type :: etype
  ev_is_set :: bool
  ev_value :: v2_value

record evaluate_context =
  ec_typed :: typed_expression
  ec_environment :: environment

definition confit_v2_evaluate_diagnostic ::
  "evaluate_context \<Rightarrow> expr_node \<Rightarrow> status \<Rightarrow> string \<Rightarrow> fault + 'a" where
  "confit_v2_evaluate_diagnostic ctx node st message =
     Inl (Reported (confit_v2_expression_diagnostic_at
            \<lparr>expr_text = Some (expression_source (typed_source (ec_typed ctx))),
             expr_span = expression_span (typed_source (ec_typed ctx))\<rparr>
            (node_start node) st message))"

section \<open>Reading the stored member\<close>

definition as_bool :: "v2_value \<Rightarrow> fault + int" where
  "as_bool v = (case v of V_Bool b \<Rightarrow> Inr b | _ \<Rightarrow> Inl Undefined)"
definition as_tristate :: "v2_value \<Rightarrow> fault + char" where
  "as_tristate v = (case v of V_Tristate c \<Rightarrow> Inr c | _ \<Rightarrow> Inl Undefined)"
definition as_int :: "v2_value \<Rightarrow> fault + i64" where
  "as_int v = (case v of V_Int n \<Rightarrow> Inr n | _ \<Rightarrow> Inl Undefined)"
definition as_uint :: "v2_value \<Rightarrow> fault + u64" where
  "as_uint v = (case v of V_Uint n \<Rightarrow> Inr n | _ \<Rightarrow> Inl Undefined)"
definition as_float :: "v2_value \<Rightarrow> fault + f64" where
  "as_float v = (case v of V_Float x \<Rightarrow> Inr x | _ \<Rightarrow> Inl Undefined)"
definition as_string :: "v2_value \<Rightarrow> fault + string" where
  "as_string v = (case v of V_String s \<Rightarrow> Inr s | _ \<Rightarrow> Inl Undefined)"
definition as_string_list :: "v2_value \<Rightarrow> fault + string list" where
  "as_string_list v = (case v of V_String_List xs \<Rightarrow> Inr xs | _ \<Rightarrow> Inl Undefined)"

text \<open>The element of an array at an index that the code does not check.\<close>

definition array_at :: "'a list \<Rightarrow> nat \<Rightarrow> fault + 'a" where
  "array_at xs i = (if i < length xs then Inr (xs ! i) else Inl Undefined)"

section \<open>Values\<close>

definition confit_v2_evaluate_find_binding :: "environment \<Rightarrow> string \<Rightarrow> ebinding option" where
  "confit_v2_evaluate_find_binding env name = find (\<lambda>b. strcmp (bind_id b) name = 0) env"

definition confit_v2_evaluate_tristate_is_valid :: "char \<Rightarrow> bool" where
  "confit_v2_evaluate_tristate_is_valid c \<longleftrightarrow> c = CHR ''n'' \<or> c = CHR ''m'' \<or> c = CHR ''y''"

definition confit_v2_evaluate_set_bool :: "bool \<Rightarrow> expr_value" where
  "confit_v2_evaluate_set_bool b =
     \<lparr>ev_type = simple_type TYPE_BOOL, ev_is_set = True, ev_value = V_Bool (if b then 1 else 0)\<rparr>"

definition confit_v2_evaluate_type_value_matches :: "etype \<Rightarrow> v2_value option \<Rightarrow> bool" where
  "confit_v2_evaluate_type_value_matches t value =
     (case value of
        None \<Rightarrow> True
      | Some v \<Rightarrow>
          if v2_value_kind v = VALUE_UNSET then True
          else (case et_kind t of
             TYPE_BOOL \<Rightarrow> (case v of V_Bool b \<Rightarrow> b = 0 \<or> b = 1 | _ \<Rightarrow> False)
           | TYPE_TRISTATE \<Rightarrow>
               (case v of V_Tristate c \<Rightarrow> confit_v2_evaluate_tristate_is_valid c | _ \<Rightarrow> False)
           | TYPE_INT \<Rightarrow> v2_value_kind v = VALUE_INT
           | TYPE_UINT \<Rightarrow> v2_value_kind v = VALUE_UINT
           | TYPE_FLOAT \<Rightarrow> (case v of V_Float x \<Rightarrow> isfinite x | _ \<Rightarrow> False)
           | TYPE_STRING \<Rightarrow> v2_value_kind v = VALUE_STRING
           | TYPE_ENUM \<Rightarrow> v2_value_kind v = VALUE_STRING
           | TYPE_PATH \<Rightarrow> v2_value_kind v = VALUE_STRING
           | TYPE_COLLECTION \<Rightarrow> v2_value_kind v = VALUE_STRING_LIST
           | TYPE_INVALID \<Rightarrow> False))"

definition confit_v2_evaluate_copy_bound_value ::
  "evaluate_context \<Rightarrow> expr_node \<Rightarrow> etype \<Rightarrow> v2_value option \<Rightarrow> fault + expr_value" where
  "confit_v2_evaluate_copy_bound_value ctx node t input =
     (case input of
        None \<Rightarrow> Inr \<lparr>ev_type = t, ev_is_set = False, ev_value = V_Unset\<rparr>
      | Some v \<Rightarrow>
          if v2_value_kind v = VALUE_UNSET
          then Inr \<lparr>ev_type = t, ev_is_set = False, ev_value = V_Unset\<rparr>
          else if \<not> confit_v2_evaluate_type_value_matches t input
          then confit_v2_evaluate_diagnostic ctx node CONFIT_ERR_SCHEMA
                 ''expression binding value has invalid type''
          else Inr \<lparr>ev_type = t, ev_is_set = True, ev_value = v\<rparr>)"

definition confit_v2_evaluate_require_set ::
  "evaluate_context \<Rightarrow> expr_node \<Rightarrow> expr_value \<Rightarrow> fault + unit" where
  "confit_v2_evaluate_require_set ctx node v =
     (if ev_is_set v then Inr ()
      else confit_v2_evaluate_diagnostic ctx node CONFIT_ERR_SCHEMA ''expression value is unset'')"

fun strings_equal :: "string list \<Rightarrow> string list \<Rightarrow> bool" where
  "strings_equal (x # xs) (y # ys) = (if strcmp x y \<noteq> 0 then False else strings_equal xs ys)"
| "strings_equal _ _ = True"

definition confit_v2_evaluate_values_equal :: "expr_value \<Rightarrow> expr_value \<Rightarrow> fault + bool" where
  "confit_v2_evaluate_values_equal left right =
     (let l = ev_value left; r = ev_value right
      in case et_kind (ev_type left) of
           TYPE_BOOL \<Rightarrow> bind_res (as_bool l) (\<lambda>a. bind_res (as_bool r) (\<lambda>b. Inr (a = b)))
         | TYPE_TRISTATE \<Rightarrow> bind_res (as_tristate l) (\<lambda>a. bind_res (as_tristate r) (\<lambda>b. Inr (a = b)))
         | TYPE_INT \<Rightarrow> bind_res (as_int l) (\<lambda>a. bind_res (as_int r) (\<lambda>b. Inr (a = b)))
         | TYPE_UINT \<Rightarrow> bind_res (as_uint l) (\<lambda>a. bind_res (as_uint r) (\<lambda>b. Inr (a = b)))
         | TYPE_FLOAT \<Rightarrow> bind_res (as_float l) (\<lambda>a. bind_res (as_float r) (\<lambda>b. Inr (f64_eq a b)))
         | TYPE_STRING \<Rightarrow> bind_res (as_string l) (\<lambda>a. bind_res (as_string r) (\<lambda>b. Inr (strcmp a b = 0)))
         | TYPE_ENUM \<Rightarrow> bind_res (as_string l) (\<lambda>a. bind_res (as_string r) (\<lambda>b. Inr (strcmp a b = 0)))
         | TYPE_PATH \<Rightarrow> bind_res (as_string l) (\<lambda>a. bind_res (as_string r) (\<lambda>b. Inr (strcmp a b = 0)))
         | TYPE_COLLECTION \<Rightarrow>
             bind_res (as_string_list l) (\<lambda>a. bind_res (as_string_list r) (\<lambda>b.
               Inr (if length a \<noteq> length b then False else strings_equal a b)))
         | TYPE_INVALID \<Rightarrow> Inr False)"

definition three_way :: "bool \<Rightarrow> bool \<Rightarrow> int" where
  "three_way smaller bigger = (if smaller then -1 else if bigger then 1 else 0)"

definition confit_v2_evaluate_compare :: "expr_value \<Rightarrow> expr_value \<Rightarrow> fault + int" where
  "confit_v2_evaluate_compare left right =
     (let l = ev_value left; r = ev_value right
      in case et_kind (ev_type left) of
           TYPE_INT \<Rightarrow> bind_res (as_int l) (\<lambda>a. bind_res (as_int r) (\<lambda>b. Inr (three_way (a <s b) (b <s a))))
         | TYPE_UINT \<Rightarrow> bind_res (as_uint l) (\<lambda>a. bind_res (as_uint r) (\<lambda>b. Inr (three_way (a < b) (b < a))))
         | TYPE_FLOAT \<Rightarrow> bind_res (as_float l) (\<lambda>a. bind_res (as_float r) (\<lambda>b.
             Inr (three_way (f64_less a b) (f64_less b a))))
         | TYPE_STRING \<Rightarrow> bind_res (as_string l) (\<lambda>a. bind_res (as_string r) (\<lambda>b. Inr (strcmp a b)))
         | TYPE_PATH \<Rightarrow> bind_res (as_string l) (\<lambda>a. bind_res (as_string r) (\<lambda>b. Inr (strcmp a b)))
         | _ \<Rightarrow> Inr 0)"

section \<open>Operators\<close>

definition set_value :: "etype \<Rightarrow> v2_value \<Rightarrow> expr_value" where
  "set_value t v = \<lparr>ev_type = t, ev_is_set = True, ev_value = v\<rparr>"

definition kIntegerOverflow :: string where "kIntegerOverflow = ''expression integer overflow''"
definition kDivisionByZero :: string where "kDivisionByZero = ''expression division by zero''"
definition kInvalidRuntimeType :: string where
  "kInvalidRuntimeType = ''expression runtime type is invalid''"

text \<open>The three arms of \<open>evaluate_arithmetic\<close>: the message of the error, or the value.\<close>

definition arithmetic_int :: "binary_operator \<Rightarrow> i64 \<Rightarrow> i64 \<Rightarrow> string + i64" where
  "arithmetic_int operator_kind left right =
     (let checked = (\<lambda>r. case r of None \<Rightarrow> Inl kIntegerOverflow | Some w \<Rightarrow> Inr w)
      in if operator_kind = BINARY_ADD then checked (confit_v2_evaluate_int_add left right)
         else if operator_kind = BINARY_SUBTRACT
         then checked (confit_v2_evaluate_int_subtract left right)
         else if operator_kind = BINARY_MULTIPLY
         then checked (confit_v2_evaluate_int_multiply left right)
         else if operator_kind = BINARY_DIVIDE \<or> operator_kind = BINARY_MODULO then
           (if right = 0 then Inl kDivisionByZero
            else if left = INT64_MIN \<and> right = - 1 then Inl kIntegerOverflow
            else Inr (if operator_kind = BINARY_DIVIDE then i64_divide left right
                      else i64_modulo left right))
         else Inl kIntegerOverflow)"

definition arithmetic_uint :: "binary_operator \<Rightarrow> u64 \<Rightarrow> u64 \<Rightarrow> string + u64" where
  "arithmetic_uint operator_kind left right =
     (if operator_kind = BINARY_ADD then
        (if UINT64_MAX - left < right then Inl ''expression unsigned overflow'' else Inr (left + right))
      else if operator_kind = BINARY_SUBTRACT then
        (if left < right then Inl ''expression unsigned underflow'' else Inr (left - right))
      else if operator_kind = BINARY_MULTIPLY then
        (if right \<noteq> 0 \<and> left > UINT64_MAX div right then Inl ''expression unsigned overflow''
         else Inr (left * right))
      else if operator_kind = BINARY_DIVIDE \<or> operator_kind = BINARY_MODULO then
        (if right = 0 then Inl kDivisionByZero
         else Inr (if operator_kind = BINARY_DIVIDE then left div right else left mod right))
      else Inl kInvalidRuntimeType)"

definition arithmetic_float :: "binary_operator \<Rightarrow> f64 \<Rightarrow> f64 \<Rightarrow> string + f64" where
  "arithmetic_float operator_kind left right =
     (let finish = (\<lambda>x. if \<not> isfinite x then Inl ''expression float result is non-finite''
                        else Inr (if f64_eq x (f64_zero False) then f64_zero False else x))
      in if (operator_kind = BINARY_DIVIDE \<or> operator_kind = BINARY_MODULO)
            \<and> f64_eq right (f64_zero False) then Inl kDivisionByZero
         else if operator_kind = BINARY_ADD then finish (f64_add left right)
         else if operator_kind = BINARY_SUBTRACT then finish (f64_sub left right)
         else if operator_kind = BINARY_MULTIPLY then finish (f64_mul left right)
         else if operator_kind = BINARY_DIVIDE then finish (f64_div left right)
         else Inl kInvalidRuntimeType)"

definition message_at :: "evaluate_context \<Rightarrow> expr_node \<Rightarrow> string + 'a \<Rightarrow> fault + 'a" where
  "message_at ctx node r = (case r of
     Inl message \<Rightarrow> confit_v2_evaluate_diagnostic ctx node CONFIT_ERR_SCHEMA message | Inr x \<Rightarrow> Inr x)"

definition confit_v2_evaluate_arithmetic ::
  "evaluate_context \<Rightarrow> expr_node \<Rightarrow> binary_operator \<Rightarrow> expr_value \<Rightarrow> expr_value \<Rightarrow> fault + expr_value" where
  "confit_v2_evaluate_arithmetic ctx node operator_kind left right =
     (let t = ev_type left; l = ev_value left; r = ev_value right
      in if et_kind t = TYPE_INT then
           bind_res (as_int l) (\<lambda>a. bind_res (as_int r) (\<lambda>b.
           bind_res (message_at ctx node (arithmetic_int operator_kind a b)) (\<lambda>v.
             Inr (set_value t (V_Int v)))))
         else if et_kind t = TYPE_UINT then
           bind_res (as_uint l) (\<lambda>a. bind_res (as_uint r) (\<lambda>b.
           bind_res (message_at ctx node (arithmetic_uint operator_kind a b)) (\<lambda>v.
             Inr (set_value t (V_Uint v)))))
         else if et_kind t = TYPE_FLOAT then
           bind_res (as_float l) (\<lambda>a. bind_res (as_float r) (\<lambda>b.
           bind_res (message_at ctx node (arithmetic_float operator_kind a b)) (\<lambda>v.
             Inr (set_value t (V_Float v)))))
         else confit_v2_evaluate_diagnostic ctx node CONFIT_ERR_SCHEMA kInvalidRuntimeType)"

definition evaluate_unary_value ::
  "evaluate_context \<Rightarrow> expr_node \<Rightarrow> unary_operator \<Rightarrow> expr_value \<Rightarrow> fault + expr_value" where
  "evaluate_unary_value ctx node u operand =
     (if u = UNARY_NOT then
        bind_res (as_bool (ev_value operand)) (\<lambda>b. Inr (confit_v2_evaluate_set_bool (b = 0)))
      else if et_kind (ev_type operand) = TYPE_INT then
        bind_res (as_int (ev_value operand)) (\<lambda>n.
          if u = UNARY_NEGATE \<and> n = INT64_MIN
          then confit_v2_evaluate_diagnostic ctx node CONFIT_ERR_SCHEMA kIntegerOverflow
          else Inr (set_value (ev_type operand) (V_Int (if u = UNARY_NEGATE then - n else n))))
      else if et_kind (ev_type operand) = TYPE_FLOAT then
        bind_res (as_float (ev_value operand)) (\<lambda>x.
          let v = (if u = UNARY_NEGATE then f64_neg x else x)
          in if \<not> isfinite v
             then confit_v2_evaluate_diagnostic ctx node CONFIT_ERR_SCHEMA
                    ''expression float result is non-finite''
             else Inr (set_value (ev_type operand) (V_Float v)))
      else confit_v2_evaluate_diagnostic ctx node CONFIT_ERR_SCHEMA kInvalidRuntimeType)"

text \<open>The operators of \<open>evaluate_binary\<close> once both operands are there.\<close>

definition evaluate_binary_values ::
  "evaluate_context \<Rightarrow> expr_node \<Rightarrow> binary_operator \<Rightarrow> expr_value \<Rightarrow> expr_value \<Rightarrow> fault + expr_value" where
  "evaluate_binary_values ctx node operator_kind left right =
     (let of_bool = (\<lambda>r. bind_res r (\<lambda>b. Inr (confit_v2_evaluate_set_bool b)));
          compare = (\<lambda>test. bind_res (confit_v2_evaluate_compare left right) (\<lambda>c.
                       Inr (confit_v2_evaluate_set_bool (test c))))
      in case operator_kind of
           BINARY_AND \<Rightarrow> bind_res (as_bool (ev_value left)) (\<lambda>a. bind_res (as_bool (ev_value right)) (\<lambda>b.
             Inr (confit_v2_evaluate_set_bool (a \<noteq> 0 \<and> b \<noteq> 0))))
         | BINARY_OR \<Rightarrow> bind_res (as_bool (ev_value left)) (\<lambda>a. bind_res (as_bool (ev_value right)) (\<lambda>b.
             Inr (confit_v2_evaluate_set_bool (a \<noteq> 0 \<or> b \<noteq> 0))))
         | BINARY_EQUAL \<Rightarrow> of_bool (confit_v2_evaluate_values_equal left right)
         | BINARY_NOT_EQUAL \<Rightarrow>
             bind_res (confit_v2_evaluate_values_equal left right) (\<lambda>b. Inr (confit_v2_evaluate_set_bool (\<not> b)))
         | BINARY_LESS \<Rightarrow> compare (\<lambda>c. c < 0)
         | BINARY_LESS_EQUAL \<Rightarrow> compare (\<lambda>c. c \<le> 0)
         | BINARY_GREATER \<Rightarrow> compare (\<lambda>c. c > 0)
         | BINARY_GREATER_EQUAL \<Rightarrow> compare (\<lambda>c. c \<ge> 0)
         | BINARY_IN \<Rightarrow>
             bind_res (as_string_list (ev_value right)) (\<lambda>items.
               if items = [] then Inr (confit_v2_evaluate_set_bool False)
               else bind_res (as_string (ev_value left)) (\<lambda>s.
                 Inr (confit_v2_evaluate_set_bool (\<exists>item \<in> set items. strcmp s item = 0))))
         | _ \<Rightarrow> confit_v2_evaluate_arithmetic ctx node operator_kind left right)"

definition confit_v2_evaluate_string_prefix :: "string \<Rightarrow> string \<Rightarrow> bool" where
  "confit_v2_evaluate_string_prefix s prefix \<longleftrightarrow>
     take (length prefix) s = prefix"

definition confit_v2_evaluate_string_suffix :: "string \<Rightarrow> string \<Rightarrow> bool" where
  "confit_v2_evaluate_string_suffix s suffix \<longleftrightarrow>
     length s \<ge> length suffix \<and> drop (length s - length suffix) s = suffix"

text \<open>The builtins other than \<open>defined\<close>, on their evaluated arguments.\<close>

definition evaluate_builtin ::
  "evaluate_context \<Rightarrow> expr_node \<Rightarrow> string \<Rightarrow> expr_value list \<Rightarrow> fault + expr_value" where
  "evaluate_builtin ctx node name arguments =
     (let value_at = (\<lambda>i. bind_res (array_at arguments i) (\<lambda>a. Inr (ev_value a)))
      in case builtin_of name of
           Some Enabled \<Rightarrow>
             bind_res (array_at arguments 0) (\<lambda>a.
               if et_kind (ev_type a) = TYPE_BOOL
               then bind_res (as_bool (ev_value a)) (\<lambda>b. Inr (confit_v2_evaluate_set_bool (b \<noteq> 0)))
               else bind_res (as_tristate (ev_value a)) (\<lambda>c.
                      Inr (confit_v2_evaluate_set_bool (c \<noteq> CHR ''n''))))
         | Some Builtin \<Rightarrow> bind_res (value_at 0) (\<lambda>v. bind_res (as_tristate v) (\<lambda>c.
             Inr (confit_v2_evaluate_set_bool (c = CHR ''y''))))
         | Some Module \<Rightarrow> bind_res (value_at 0) (\<lambda>v. bind_res (as_tristate v) (\<lambda>c.
             Inr (confit_v2_evaluate_set_bool (c = CHR ''m''))))
         | Some Len \<Rightarrow>
             bind_res (array_at arguments 0) (\<lambda>a.
             bind_res (if et_kind (ev_type a) = TYPE_STRING
                       then bind_res (as_string (ev_value a)) (\<lambda>s. Inr (length s))
                       else bind_res (as_string_list (ev_value a)) (\<lambda>xs. Inr (length xs)))
               (\<lambda>n. Inr (set_value (simple_type TYPE_UINT) (V_Uint (of_nat n)))))
         | Some Contains \<Rightarrow>
             bind_res (value_at 0) (\<lambda>v. bind_res (as_string_list v) (\<lambda>items.
               if items = [] then Inr (confit_v2_evaluate_set_bool False)
               else bind_res (value_at 1) (\<lambda>w. bind_res (as_string w) (\<lambda>s.
                 Inr (confit_v2_evaluate_set_bool (\<exists>item \<in> set items. strcmp item s = 0))))))
         | Some Starts_With \<Rightarrow>
             bind_res (value_at 0) (\<lambda>v. bind_res (as_string v) (\<lambda>s.
             bind_res (value_at 1) (\<lambda>w. bind_res (as_string w) (\<lambda>prefix.
               Inr (confit_v2_evaluate_set_bool (confit_v2_evaluate_string_prefix s prefix))))))
         | Some Ends_With \<Rightarrow>
             bind_res (value_at 0) (\<lambda>v. bind_res (as_string v) (\<lambda>s.
             bind_res (value_at 1) (\<lambda>w. bind_res (as_string w) (\<lambda>suffix.
               Inr (confit_v2_evaluate_set_bool (confit_v2_evaluate_string_suffix s suffix))))))
         | Some Concat \<Rightarrow>
             bind_res (fold_res (\<lambda>a joined. bind_res (as_string (ev_value a)) (\<lambda>s. Inr (joined @ s))) arguments [])
               (\<lambda>joined. Inr (set_value (simple_type TYPE_STRING) (V_String joined)))
         | Some Enum_Name \<Rightarrow> bind_res (value_at 0) (\<lambda>v. bind_res (as_string v) (\<lambda>s.
             Inr (set_value (simple_type TYPE_STRING) (V_String s))))
         | _ \<Rightarrow> confit_v2_evaluate_diagnostic ctx node CONFIT_ERR_INTERNAL kInvalidRuntimeType)"

definition literal_value :: "expr_literal \<Rightarrow> v2_value" where
  "literal_value l = (case l of
     LITERAL_BOOL b \<Rightarrow> V_Bool (if b then 1 else 0) | LITERAL_TRISTATE c \<Rightarrow> V_Tristate c
   | LITERAL_INT n \<Rightarrow> V_Int n | LITERAL_HEX n \<Rightarrow> V_Uint n | LITERAL_FLOAT x \<Rightarrow> V_Float x
   | LITERAL_STRING s \<Rightarrow> V_String s)"

definition confit_v2_evaluate_literal ::
  "evaluate_context \<Rightarrow> expr_node \<Rightarrow> expr_literal \<Rightarrow> fault + expr_value" where
  "confit_v2_evaluate_literal ctx node l =
     (case confit_v2_typed_expression_node_type (ec_typed ctx) node of
        None \<Rightarrow> confit_v2_evaluate_diagnostic ctx node CONFIT_ERR_INTERNAL kInvalidRuntimeType
      | Some t \<Rightarrow> Inr (set_value t (literal_value l)))"

definition confit_v2_evaluate_reference ::
  "evaluate_context \<Rightarrow> expr_node \<Rightarrow> string \<Rightarrow> fault + expr_value" where
  "confit_v2_evaluate_reference ctx node name =
     (case (confit_v2_evaluate_find_binding (ec_environment ctx) name,
            confit_v2_typed_expression_node_type (ec_typed ctx) node) of
        (Some binding, Some t) \<Rightarrow>
          if \<not> confit_v2_expression_type_equal t (bind_type binding)
          then confit_v2_evaluate_diagnostic ctx node CONFIT_ERR_SCHEMA kInvalidRuntimeType
          else confit_v2_evaluate_copy_bound_value ctx node t (bind_value binding)
      | _ \<Rightarrow> confit_v2_evaluate_diagnostic ctx node CONFIT_ERR_SCHEMA
               ''runtime expression binding is missing'')"

text \<open>\<open>defined(option)\<close> looks its argument up without evaluating it.\<close>

definition evaluate_defined :: "evaluate_context \<Rightarrow> expr_node list \<Rightarrow> fault + expr_value" where
  "evaluate_defined ctx arguments =
     bind_res (array_at arguments 0) (\<lambda>argument.
       case argument of
         Reference loc name \<Rightarrow>
           (case confit_v2_evaluate_find_binding (ec_environment ctx) name of
              None \<Rightarrow> confit_v2_evaluate_diagnostic ctx argument CONFIT_ERR_SCHEMA
                        ''runtime expression binding is missing''
            | Some binding \<Rightarrow>
                (case confit_v2_typed_expression_node_type (ec_typed ctx) argument of
                   None \<Rightarrow> confit_v2_evaluate_diagnostic ctx argument CONFIT_ERR_SCHEMA kInvalidRuntimeType
                 | Some t \<Rightarrow>
                     if \<not> confit_v2_expression_type_equal t (bind_type binding)
                     then confit_v2_evaluate_diagnostic ctx argument CONFIT_ERR_SCHEMA kInvalidRuntimeType
                     else Inr (confit_v2_evaluate_set_bool
                            (case bind_value binding of None \<Rightarrow> False
                             | Some v \<Rightarrow> v2_value_kind v \<noteq> VALUE_UNSET))))
       | _ \<Rightarrow> Inl Undefined)"

section \<open>Evaluation of a node\<close>

fun confit_v2_evaluate_node :: "evaluate_context \<Rightarrow> expr_node \<Rightarrow> fault + expr_value"
  and evaluate_arguments :: "evaluate_context \<Rightarrow> expr_node list \<Rightarrow> fault + expr_value list"
  and evaluate_items :: "evaluate_context \<Rightarrow> expr_node list \<Rightarrow> fault + string list" where
  "confit_v2_evaluate_node ctx (Literal loc l) = confit_v2_evaluate_literal ctx (Literal loc l) l"
| "confit_v2_evaluate_node ctx (Reference loc r) =
     confit_v2_evaluate_reference ctx (Reference loc r) r"
| "confit_v2_evaluate_node ctx (Unary loc u n) =
     bind_res (confit_v2_evaluate_node ctx n) (\<lambda>operand.
     bind_res (confit_v2_evaluate_require_set ctx n operand) (\<lambda>_.
       evaluate_unary_value ctx (Unary loc u n) u operand))"
| "confit_v2_evaluate_node ctx (Binary loc b l r) =
     bind_res (confit_v2_evaluate_node ctx l) (\<lambda>left.
     bind_res (confit_v2_evaluate_require_set ctx l left) (\<lambda>_.
     bind_res (if b = BINARY_AND \<or> b = BINARY_OR then as_bool (ev_value left) else Inr 0) (\<lambda>first.
       if b = BINARY_AND \<and> first = 0 then Inr (confit_v2_evaluate_set_bool False)
       else if b = BINARY_OR \<and> first \<noteq> 0 then Inr (confit_v2_evaluate_set_bool True)
       else
         bind_res (confit_v2_evaluate_node ctx r) (\<lambda>right.
         bind_res (confit_v2_evaluate_require_set ctx r right) (\<lambda>_.
           evaluate_binary_values ctx (Binary loc b l r) b left right)))))"
| "confit_v2_evaluate_node ctx (Conditional loc c t f) =
     bind_res (confit_v2_evaluate_node ctx c) (\<lambda>condition.
     bind_res (confit_v2_evaluate_require_set ctx c condition) (\<lambda>_.
     bind_res (as_bool (ev_value condition)) (\<lambda>b.
       if b \<noteq> 0 then confit_v2_evaluate_node ctx t else confit_v2_evaluate_node ctx f)))"
| "confit_v2_evaluate_node ctx (Call loc name arguments) =
     (if builtin_of name = Some Defined then evaluate_defined ctx arguments
      else
        bind_res (evaluate_arguments ctx arguments) (\<lambda>values.
          evaluate_builtin ctx (Call loc name arguments) name values))"
| "confit_v2_evaluate_node ctx (List_Node loc items) =
     (case confit_v2_typed_expression_node_type (ec_typed ctx) (List_Node loc items) of
        None \<Rightarrow> confit_v2_evaluate_diagnostic ctx (List_Node loc items) CONFIT_ERR_INTERNAL kInvalidRuntimeType
      | Some t \<Rightarrow>
          if et_kind t \<noteq> TYPE_COLLECTION
          then confit_v2_evaluate_diagnostic ctx (List_Node loc items) CONFIT_ERR_INTERNAL kInvalidRuntimeType
          else bind_res (evaluate_items ctx items) (\<lambda>texts. Inr (set_value t (V_String_List texts))))"
| "evaluate_arguments ctx [] = Inr []"
| "evaluate_arguments ctx (n # ns) =
     bind_res (confit_v2_evaluate_node ctx n) (\<lambda>v.
     bind_res (confit_v2_evaluate_require_set ctx n v) (\<lambda>_.
     bind_res (evaluate_arguments ctx ns) (\<lambda>vs. Inr (v # vs))))"
| "evaluate_items ctx [] = Inr []"
| "evaluate_items ctx (n # ns) =
     bind_res (confit_v2_evaluate_node ctx n) (\<lambda>v.
     bind_res (confit_v2_evaluate_require_set ctx n v) (\<lambda>_.
     bind_res (as_string (ev_value v)) (\<lambda>s.
     bind_res (evaluate_items ctx ns) (\<lambda>texts. Inr (s # texts)))))"

definition confit_v2_expression_evaluate ::
  "typed_expression \<Rightarrow> environment \<Rightarrow> fault + expr_value" where
  "confit_v2_expression_evaluate typed env =
     (if typed_nodes typed = []
      then Inl (Reported (confit_diagnostic_set CONFIT_ERR_INVALID_ARGUMENT None 0 0
                  ''invalid typed expression evaluator argument''))
      else confit_v2_evaluate_node \<lparr>ec_typed = typed, ec_environment = env\<rparr>
             (expression_root (typed_source typed)))"

end
