(* ===== verification/Soundness.thy ===== *)
theory Soundness
  imports Typing Evaluate
begin

text \<open>
  Type soundness of the evaluator: when the type table of a checked expression gives every node
  the type that the rules derive, evaluation reads only union members that were stored and only
  array elements that exist (it is never \<open>Undefined\<close>), every error it reports is a schema error,
  and a value has the static type of its node. The runtime environment is arbitrary.
\<close>

section \<open>Values of a type\<close>

definition holds :: "etype \<Rightarrow> v2_value \<Rightarrow> bool" where
  "holds t v \<longleftrightarrow> v2_value_kind v \<noteq> VALUE_UNSET \<and> confit_v2_evaluate_type_value_matches t (Some v)"

definition sound :: "etype \<Rightarrow> fault + expr_value \<Rightarrow> bool" where
  "sound t r \<longleftrightarrow> (case r of
     Inr v \<Rightarrow> ev_type v = t \<and> (if ev_is_set v then holds t (ev_value v) else ev_value v = V_Unset)
   | Inl (Reported d) \<Rightarrow> diag_status d = CONFIT_ERR_SCHEMA
   | Inl Undefined \<Rightarrow> False)"

lemma holds_iff:
  "holds t v \<longleftrightarrow> (case et_kind t of
     TYPE_BOOL \<Rightarrow> v = V_Bool 0 \<or> v = V_Bool 1
   | TYPE_TRISTATE \<Rightarrow> (\<exists>c. v = V_Tristate c \<and> confit_v2_evaluate_tristate_is_valid c)
   | TYPE_INT \<Rightarrow> (\<exists>n. v = V_Int n) | TYPE_UINT \<Rightarrow> (\<exists>n. v = V_Uint n)
   | TYPE_FLOAT \<Rightarrow> (\<exists>x. v = V_Float x \<and> isfinite x)
   | TYPE_STRING \<Rightarrow> (\<exists>s. v = V_String s) | TYPE_ENUM \<Rightarrow> (\<exists>s. v = V_String s)
   | TYPE_PATH \<Rightarrow> (\<exists>s. v = V_String s) | TYPE_COLLECTION \<Rightarrow> (\<exists>xs. v = V_String_List xs)
   | TYPE_INVALID \<Rightarrow> False)"
  unfolding holds_def confit_v2_evaluate_type_value_matches_def
  by (cases v; cases "et_kind t") auto

lemma sound_Inr:
  "sound t (Inr v) \<longleftrightarrow> ev_type v = t \<and> (if ev_is_set v then holds t (ev_value v) else ev_value v = V_Unset)"
  by (simp add: sound_def)

lemma sound_diagnostic [simp]:
  "sound t (confit_v2_evaluate_diagnostic ctx n CONFIT_ERR_SCHEMA message)"
  by (simp add: sound_def confit_v2_evaluate_diagnostic_def confit_v2_expression_diagnostic_at_def
      confit_diagnostic_set_def confit_diagnostic_set_detail_def Let_def
      split: option.split prod.split)

lemma sound_set_bool [simp]: "sound t (Inr (confit_v2_evaluate_set_bool b)) \<longleftrightarrow> t = bool_type"
  by (auto simp: sound_Inr confit_v2_evaluate_set_bool_def holds_iff)

lemma sound_set_value [simp]: "sound t (Inr (set_value u v)) \<longleftrightarrow> u = t \<and> holds t v"
  by (auto simp: sound_Inr set_value_def)

lemma sound_cases:
  assumes "sound t r"
  obtains (present) v where "r = Inr v" "ev_type v = t" "ev_is_set v" "holds t (ev_value v)"
  | (unset) v where "r = Inr v" "ev_type v = t" "\<not> ev_is_set v" "ev_value v = V_Unset"
  | (error) d where "r = Inl (Reported d)" "diag_status d = CONFIT_ERR_SCHEMA"
proof (cases r)
  case (Inl e)
  with assms error show thesis by (cases e) (auto simp: sound_def)
next
  case (Inr v)
  with assms present unset show thesis by (auto simp: sound_Inr split: if_splits)
qed

text \<open>An operand that must be set: what remains is the evaluation of the operator.\<close>

lemma sound_operand:
  assumes "sound t r"
    and "\<And>v. r = Inr v \<Longrightarrow> ev_is_set v \<Longrightarrow> ev_type v = t \<Longrightarrow> holds t (ev_value v) \<Longrightarrow> sound u (f v)"
  shows "sound u (bind_res r (\<lambda>v. bind_res (confit_v2_evaluate_require_set ctx n v) (\<lambda>_. f v)))"
  using assms(1)
proof (cases rule: sound_cases)
  case (unset v)
  have "sound u (confit_v2_evaluate_diagnostic ctx n CONFIT_ERR_SCHEMA ''expression value is unset'')"
    by simp
  with unset show ?thesis
    by (simp add: confit_v2_evaluate_require_set_def confit_v2_evaluate_diagnostic_def)
next
  case (error d)
  then show ?thesis by (simp add: sound_def)
qed (simp add: assms(2) confit_v2_evaluate_require_set_def)

lemma sound_message:
  "(\<And>x. r = Inr x \<Longrightarrow> sound t (f x)) \<Longrightarrow> sound t (bind_res (message_at ctx n r) f)"
  using sound_diagnostic [of t ctx n]
  by (cases r) (simp_all add: message_at_def confit_v2_evaluate_diagnostic_def)

section \<open>Operators\<close>

lemma arithmetic_float_finite: "arithmetic_float b x y = Inr z \<Longrightarrow> isfinite z"
  by (auto simp: arithmetic_float_def Let_def split: if_splits)

lemmas reads = as_bool_def as_tristate_def as_int_def as_uint_def as_float_def as_string_def
  as_string_list_def

lemma sound_arithmetic:
  assumes "numeric (et_kind t)" "ev_type l = t" "ev_type r = t" "holds t (ev_value l)" "holds t (ev_value r)"
  shows "sound t (confit_v2_evaluate_arithmetic ctx n b l r)"
  using assms unfolding confit_v2_evaluate_arithmetic_def numeric_def holds_iff Let_def
  apply (cases "et_kind t")
           apply (auto simp: reads holds_iff intro!: sound_message)
  apply (erule arithmetic_float_finite)
  done

lemma sound_unary:
  assumes "if u = UNARY_NOT then t = bool_type else et_kind t \<in> {TYPE_INT, TYPE_FLOAT}"
    "ev_type v = t" "holds t (ev_value v)"
  shows "sound t (evaluate_unary_value ctx n u v)"
  using assms unfolding evaluate_unary_value_def holds_iff
  by (auto simp: reads holds_iff Let_def split: if_splits)

lemma values_equal_total:
  assumes "ev_type l = t" "holds t (ev_value l)" "holds t (ev_value r)"
  shows "\<exists>b. confit_v2_evaluate_values_equal l r = Inr b"
  using assms unfolding confit_v2_evaluate_values_equal_def holds_iff Let_def
  by (cases "et_kind t") (auto simp: reads)

lemma compare_total:
  assumes "ev_type l = t" "holds t (ev_value l)" "holds t (ev_value r)"
  shows "\<exists>c. confit_v2_evaluate_compare l r = Inr c"
  using assms unfolding confit_v2_evaluate_compare_def holds_iff Let_def
  by (cases "et_kind t") (auto simp: reads)

text \<open>The kinds whose values are texts.\<close>

definition textual :: "etype_kind \<Rightarrow> bool" where
  "textual k \<longleftrightarrow> k \<in> {TYPE_STRING, TYPE_ENUM, TYPE_PATH}"

lemma holds_textual: "textual (et_kind t) \<Longrightarrow> holds t v \<longleftrightarrow> (\<exists>s. v = V_String s)"
  unfolding textual_def holds_iff by auto

lemma holds_collection: "et_kind t = TYPE_COLLECTION \<Longrightarrow> holds t v \<longleftrightarrow> (\<exists>xs. v = V_String_List xs)"
  by (simp add: holds_iff)

lemma holds_simple_bool: "holds bool_type v \<longleftrightarrow> v = V_Bool 0 \<or> v = V_Bool 1"
  by (simp add: holds_iff)

lemma sound_binary_bool:
  "b \<in> {BINARY_AND, BINARY_OR} \<Longrightarrow> holds bool_type (ev_value l) \<Longrightarrow> holds bool_type (ev_value r)
    \<Longrightarrow> sound bool_type (evaluate_binary_values ctx n b l r)"
  by (auto simp: evaluate_binary_values_def holds_simple_bool reads Let_def)

lemma sound_binary_equal:
  assumes "b \<in> {BINARY_EQUAL, BINARY_NOT_EQUAL}" "ev_type l = t" "holds t (ev_value l)" "holds t (ev_value r)"
  shows "sound bool_type (evaluate_binary_values ctx n b l r)"
  using values_equal_total [OF assms(2-4)] assms(1) by (auto simp: evaluate_binary_values_def Let_def)

lemma sound_binary_order:
  assumes "b \<in> {BINARY_LESS, BINARY_LESS_EQUAL, BINARY_GREATER, BINARY_GREATER_EQUAL}"
    "ev_type l = t" "holds t (ev_value l)" "holds t (ev_value r)"
  shows "sound bool_type (evaluate_binary_values ctx n b l r)"
  using compare_total [OF assms(2-4)] assms(1) by (auto simp: evaluate_binary_values_def Let_def)

lemma sound_binary_in:
  assumes "textual (et_kind t)" "holds t (ev_value l)" "et_kind u = TYPE_COLLECTION" "holds u (ev_value r)"
  shows "sound bool_type (evaluate_binary_values ctx n BINARY_IN l r)"
  using assms by (auto simp: evaluate_binary_values_def holds_textual holds_collection reads Let_def)

lemma sound_binary_arithmetic:
  assumes "b \<in> {BINARY_ADD, BINARY_SUBTRACT, BINARY_MULTIPLY, BINARY_DIVIDE, BINARY_MODULO}"
    "numeric (et_kind t)" "ev_type l = t" "ev_type r = t" "holds t (ev_value l)" "holds t (ev_value r)"
  shows "sound t (evaluate_binary_values ctx n b l r)"
  using sound_arithmetic [OF assms(2-)] assms(1) by (auto simp: evaluate_binary_values_def Let_def)

section \<open>Calls\<close>

text \<open>An evaluated argument: set, and of its type.\<close>

definition present :: "etype \<Rightarrow> expr_value \<Rightarrow> bool" where
  "present t v \<longleftrightarrow> ev_is_set v \<and> ev_type v = t \<and> holds t (ev_value v)"

definition args_sound :: "etype list \<Rightarrow> fault + expr_value list \<Rightarrow> bool" where
  "args_sound ts r \<longleftrightarrow> (case r of
     Inr vs \<Rightarrow> list_all2 present ts vs
   | Inl (Reported d) \<Rightarrow> diag_status d = CONFIT_ERR_SCHEMA
   | Inl Undefined \<Rightarrow> False)"

lemma sound_operand_args:
  assumes "sound t r"
    and "\<And>v. present t v \<Longrightarrow> args_sound ts (f v)"
  shows "args_sound ts (bind_res r (\<lambda>v. bind_res (confit_v2_evaluate_require_set ctx n v) (\<lambda>_. f v)))"
  using assms(1)
proof (cases rule: sound_cases)
  case (unset v)
  have "sound t (confit_v2_evaluate_diagnostic ctx n CONFIT_ERR_SCHEMA ''expression value is unset'')"
    by simp
  with unset show ?thesis
    by (simp add: confit_v2_evaluate_require_set_def confit_v2_evaluate_diagnostic_def args_sound_def sound_def)
next
  case (error d)
  then show ?thesis by (simp add: args_sound_def)
qed (simp add: assms(2) confit_v2_evaluate_require_set_def present_def)

lemma arguments_sound:
  "list_all2 (\<lambda>n t. sound t (confit_v2_evaluate_node ctx n)) ns ts
     \<Longrightarrow> args_sound ts (evaluate_arguments ctx ns)"
proof (induction rule: list_all2_induct)
  case (Cons n ns t ts)
  have "args_sound (t # ts) (bind_res (evaluate_arguments ctx ns) (\<lambda>vs. Inr (v # vs)))"
    if "present t v" for v
    using Cons(3) that by (cases "evaluate_arguments ctx ns") (auto simp: args_sound_def split: fault.splits)
  with Cons(1) show ?case by (auto intro: sound_operand_args)
qed (simp add: args_sound_def)

lemma sound_call:
  assumes "args_sound ts r" and "\<And>vs. list_all2 present ts vs \<Longrightarrow> sound u (f vs)"
  shows "sound u (bind_res r f)"
  using assms by (cases r) (auto simp: args_sound_def sound_def split: fault.splits)

lemma fold_texts:
  "list_all2 present ts vs \<Longrightarrow> \<forall>t \<in> set ts. t = string_type \<Longrightarrow>
     \<exists>out. fold_res (\<lambda>a joined. bind_res (as_string (ev_value a)) (\<lambda>s. Inr (joined @ s))) vs acc = Inr out"
  by (induction arbitrary: acc rule: list_all2_induct) (auto simp: present_def holds_iff reads)

lemma holds_string_type: "holds string_type v \<longleftrightarrow> (\<exists>s. v = V_String s)"
  by (simp add: holds_iff)

lemma holds_uint_type: "holds (simple_type TYPE_UINT) v \<longleftrightarrow> (\<exists>n. v = V_Uint n)"
  by (simp add: holds_iff)

lemma holds_tristate_type:
  "holds (simple_type TYPE_TRISTATE) v \<Longrightarrow> \<exists>c. v = V_Tristate c"
  by (auto simp: holds_iff)

lemma present_one: "list_all2 present [t] vs \<Longrightarrow> \<exists>v. vs = [v] \<and> present t v"
  by (auto simp: list_all2_Cons1)

lemma present_two: "list_all2 present [t, u] vs \<Longrightarrow> \<exists>v w. vs = [v, w] \<and> present t v \<and> present u w"
  by (auto simp: list_all2_Cons1)

lemma sound_builtin_one:
  assumes "list_all2 present [t] vs"
    and "builtin_of f = Some Enabled \<and> et_kind t \<in> {TYPE_BOOL, TYPE_TRISTATE} \<and> u = bool_type
       \<or> builtin_of f \<in> {Some Builtin, Some Module} \<and> et_kind t = TYPE_TRISTATE \<and> u = bool_type
       \<or> builtin_of f = Some Len \<and> et_kind t \<in> {TYPE_STRING, TYPE_COLLECTION} \<and> u = simple_type TYPE_UINT
       \<or> builtin_of f = Some Enum_Name \<and> et_kind t = TYPE_ENUM \<and> u = string_type"
  shows "sound u (evaluate_builtin ctx n f vs)"
  using assms(2) present_one [OF assms(1)]
  by (auto simp: evaluate_builtin_def array_at_def present_def holds_iff reads Let_def)

lemma sound_builtin_contains:
  assumes "list_all2 present [t, u] vs" "builtin_of f = Some Contains"
    "et_kind t = TYPE_COLLECTION" "textual (et_kind u)"
  shows "sound bool_type (evaluate_builtin ctx n f vs)"
  using assms(2-) present_two [OF assms(1)]
  by (auto simp: evaluate_builtin_def array_at_def present_def holds_collection holds_textual reads Let_def)

lemma sound_builtin_affix:
  assumes "list_all2 present [string_type, string_type] vs" "builtin_of f \<in> {Some Starts_With, Some Ends_With}"
  shows "sound bool_type (evaluate_builtin ctx n f vs)"
  using assms(2-) present_two [OF assms(1)]
  by (auto simp: evaluate_builtin_def array_at_def present_def holds_string_type reads Let_def)

lemma sound_builtin_concat:
  assumes "list_all2 present ts vs" "\<forall>t \<in> set ts. t = string_type" "builtin_of f = Some Concat"
  shows "sound string_type (evaluate_builtin ctx n f vs)"
  using assms(3) fold_texts [OF assms(1,2), of "[]"]
  by (auto simp: evaluate_builtin_def holds_string_type Let_def)

section \<open>Nodes\<close>

lemma typing_unique:
  assumes "typing env n t" "typing env n u"
  shows "t = u"
proof -
  define ctx :: typecheck_context where "ctx = \<lparr>tc_expression = undefined, tc_environment = env\<rparr>"
  have "checked ctx n t" "checked ctx n u"
    using assms by (auto simp: ctx_def intro!: typecheck_complete)
  from checkedD [OF this(1), of "[]"] checkedD [OF this(2), of "[]"] show ?thesis by auto
qed

definition literal_ok :: "expr_literal \<Rightarrow> bool" where
  "literal_ok l = (case l of LITERAL_TRISTATE c \<Rightarrow> confit_v2_evaluate_tristate_is_valid c
     | LITERAL_FLOAT x \<Rightarrow> isfinite x | _ \<Rightarrow> True)"

text \<open>A node whose subtree has the types of the rules in the table and literals of the parser.\<close>

definition runnable :: "environment \<Rightarrow> evaluate_context \<Rightarrow> expr_node \<Rightarrow> bool" where
  "runnable env ctx n \<longleftrightarrow> (\<forall>m \<in> set (subnodes n).
     (\<forall>t. typing env m t \<longrightarrow> confit_v2_typed_expression_node_type (ec_typed ctx) m = Some t)
     \<and> (\<forall>loc l. m = Literal loc l \<longrightarrow> literal_ok l))"

text \<open>The element kinds of the collections an environment binds are textual.\<close>

definition text_collections :: "environment \<Rightarrow> bool" where
  "text_collections env \<longleftrightarrow> (\<forall>b \<in> set env. et_kind (bind_type b) = TYPE_COLLECTION
     \<longrightarrow> textual (et_element_kind (bind_type b)))"

lemma runnable_children: "runnable env ctx n \<Longrightarrow> m \<in> set (children n) \<Longrightarrow> runnable env ctx m"
  unfolding runnable_def by (subst (asm) subnodes_head) auto

lemma self_subnode [simp]: "n \<in> set (subnodes n)"
  by (subst subnodes_head) simp

lemma runnable_type:
  "runnable env ctx n \<Longrightarrow> typing env n t
    \<Longrightarrow> confit_v2_typed_expression_node_type (ec_typed ctx) n = Some t"
  by (simp add: runnable_def)

lemma typing_textual:
  "typing env n t \<Longrightarrow> text_collections env \<Longrightarrow> et_kind t = TYPE_COLLECTION
    \<Longrightarrow> textual (et_kind (element_type t))"
proof (induction rule: typing.induct)
  case (t_literal loc l)
  then show ?case by (cases l) (simp_all add: literal_type_def)
next
  case (t_reference r t loc)
  then show ?case
    by (auto simp: lookup_type_def text_collections_def element_type_def find_Some_iff)
next
  case (t_list ns t loc)
  then show ?case by (auto simp: collection_of_def element_type_def textual_def)
qed (auto simp: numeric_def)

lemma literal_sound: "literal_ok l \<Longrightarrow> holds (literal_type l) (literal_value l)"
  by (cases l) (simp_all add: literal_ok_def literal_type_def literal_value_def holds_iff)

lemma sound_bound:
  "sound t (confit_v2_evaluate_copy_bound_value ctx n t v)"
  using sound_diagnostic [of t ctx n]
  by (auto simp: confit_v2_evaluate_copy_bound_value_def sound_Inr holds_def split: option.splits)

lemma sound_reference:
  "confit_v2_typed_expression_node_type (ec_typed ctx) n = Some t
    \<Longrightarrow> sound t (confit_v2_evaluate_reference ctx n r)"
  by (auto simp: confit_v2_evaluate_reference_def sound_bound split: option.splits)

lemma runnable_unary [dest]: "runnable env ctx (Unary loc u n) \<Longrightarrow> runnable env ctx n"
  by (erule runnable_children) simp

lemma runnable_binary [dest]:
  "runnable env ctx (Binary loc b l r) \<Longrightarrow> runnable env ctx l \<and> runnable env ctx r"
  by (auto elim: runnable_children)

lemma runnable_conditional [dest]:
  "runnable env ctx (Conditional loc c n m) \<Longrightarrow> runnable env ctx c \<and> runnable env ctx n \<and> runnable env ctx m"
  by (auto elim: runnable_children)

lemma runnable_call: "runnable env ctx (Call loc f ns) \<Longrightarrow> m \<in> set ns \<Longrightarrow> runnable env ctx m"
  by (erule runnable_children) simp

lemma runnable_list: "runnable env ctx (List_Node loc ns) \<Longrightarrow> m \<in> set ns \<Longrightarrow> runnable env ctx m"
  by (erule runnable_children) simp

lemma items_sound:
  assumes "\<forall>n \<in> set ns. sound t (confit_v2_evaluate_node ctx n)" "textual (et_kind t)"
  shows "(\<exists>texts. evaluate_items ctx ns = Inr texts)
    \<or> (\<exists>d. evaluate_items ctx ns = Inl (Reported d) \<and> diag_status d = CONFIT_ERR_SCHEMA)"
  using assms(1)
proof (induction ns)
  case (Cons n ns)
  then have "sound t (confit_v2_evaluate_node ctx n)" by simp
  then show ?case
  proof (cases rule: sound_cases)
    case (present v)
    with Cons assms(2) show ?thesis
      by (auto simp: holds_textual confit_v2_evaluate_require_set_def reads)
  next
    case (unset v)
    have "sound t (confit_v2_evaluate_diagnostic ctx n CONFIT_ERR_SCHEMA ''expression value is unset'')"
      by simp
    with unset show ?thesis
      by (simp add: confit_v2_evaluate_require_set_def confit_v2_evaluate_diagnostic_def sound_def)
  qed simp
qed simp

lemma sound_defined:
  assumes "confit_v2_typed_expression_node_type (ec_typed ctx) (Reference loc r) = Some t"
  shows "sound bool_type (evaluate_defined ctx [Reference loc r])"
  using assms by (auto simp: evaluate_defined_def array_at_def split: option.splits)

lemma call_sound:
  assumes "builtin_of f \<noteq> Some Defined"
    and "list_all2 (\<lambda>n t. sound t (confit_v2_evaluate_node ctx n)) ns ts"
    and "\<And>vs. list_all2 present ts vs \<Longrightarrow> sound u (evaluate_builtin ctx (Call loc f ns) f vs)"
  shows "sound u (confit_v2_evaluate_node ctx (Call loc f ns))"
  using assms(1) sound_call [OF arguments_sound [OF assms(2)] assms(3)] by simp

lemma evaluate_sound:
  "typing env n t \<Longrightarrow> text_collections env \<Longrightarrow> runnable env ctx n
    \<Longrightarrow> sound t (confit_v2_evaluate_node ctx n)"
proof (induction rule: typing.induct)
  case (t_literal loc l)
  then have "literal_ok l" "confit_v2_typed_expression_node_type (ec_typed ctx) (Literal loc l) = Some (literal_type l)"
    by (auto simp: runnable_def typing.t_literal)
  then show ?case by (simp add: confit_v2_evaluate_literal_def literal_sound)
next
  case (t_reference r t loc)
  then have "confit_v2_typed_expression_node_type (ec_typed ctx) (Reference loc r) = Some t"
    by (blast intro: runnable_type typing.t_reference)
  then show ?case by (simp add: sound_reference)
next
  case (t_not n loc)
  then show ?case by (auto intro!: sound_operand [OF t_not.IH] sound_unary)
next
  case (t_sign u n t loc)
  then show ?case by (auto intro!: sound_operand [OF t_sign.IH] sound_unary)
next
  case (t_bool b l r loc)
  have l: "sound bool_type (confit_v2_evaluate_node ctx l)" and r: "sound bool_type (confit_v2_evaluate_node ctx r)"
    using t_bool by auto
  show ?case using t_bool.hyps(1)
    by (auto intro!: sound_operand [OF l] sound_operand [OF r] sound_binary_bool
        simp: holds_simple_bool as_bool_def)
next
  case (t_equal b l t r loc)
  have l: "sound t (confit_v2_evaluate_node ctx l)" and r: "sound t (confit_v2_evaluate_node ctx r)"
    using t_equal by auto
  show ?case using t_equal.hyps(1)
    by (auto intro!: sound_operand [OF l] sound_operand [OF r] sound_binary_equal)
next
  case (t_order b l t r loc)
  have l: "sound t (confit_v2_evaluate_node ctx l)" and r: "sound t (confit_v2_evaluate_node ctx r)"
    using t_order by auto
  show ?case using t_order.hyps(1)
    by (auto intro!: sound_operand [OF l] sound_operand [OF r] sound_binary_order)
next
  case (t_in l t r loc)
  have l: "sound (element_type t) (confit_v2_evaluate_node ctx l)" and r: "sound t (confit_v2_evaluate_node ctx r)"
    using t_in by auto
  have "textual (et_kind (element_type t))" using t_in typing_textual by blast
  then show ?case using t_in.hyps
    by (auto intro!: sound_operand [OF l] sound_operand [OF r] sound_binary_in)
next
  case (t_arithmetic b l t r loc)
  have l: "sound t (confit_v2_evaluate_node ctx l)" and r: "sound t (confit_v2_evaluate_node ctx r)"
    using t_arithmetic by auto
  show ?case using t_arithmetic.hyps
    by (auto intro!: sound_operand [OF l] sound_operand [OF r] sound_binary_arithmetic)
next
  case (t_conditional c n t m loc)
  have c: "sound bool_type (confit_v2_evaluate_node ctx c)"
    and "sound t (confit_v2_evaluate_node ctx n)" "sound t (confit_v2_evaluate_node ctx m)"
    using t_conditional by auto
  then show ?case by (auto intro!: sound_operand [OF c] simp: holds_simple_bool as_bool_def)
next
  case (t_enabled f n t loc)
  then have "sound t (confit_v2_evaluate_node ctx n)" by (simp add: runnable_call)
  with t_enabled.hyps show ?case by (intro call_sound [where ts = "[t]"] sound_builtin_one) auto
next
  case (t_tristate f n loc)
  then have "sound (simple_type TYPE_TRISTATE) (confit_v2_evaluate_node ctx n)" by (simp add: runnable_call)
  with t_tristate.hyps show ?case
    by (intro call_sound [where ts = "[simple_type TYPE_TRISTATE]"] sound_builtin_one) auto
next
  case (t_defined f loc' r t loc)
  then have "confit_v2_typed_expression_node_type (ec_typed ctx) (Reference loc' r) = Some t"
    by (blast intro: runnable_type runnable_call list.set_intros)
  with t_defined.hyps(1) show ?case by (simp add: sound_defined)
next
  case (t_len f n t loc)
  then have "sound t (confit_v2_evaluate_node ctx n)" by (simp add: runnable_call)
  with t_len.hyps show ?case by (intro call_sound [where ts = "[t]"] sound_builtin_one) auto
next
  case (t_contains f n t m loc)
  then have "sound t (confit_v2_evaluate_node ctx n)" "sound (element_type t) (confit_v2_evaluate_node ctx m)"
    by (simp_all add: runnable_call)
  moreover have "textual (et_kind (element_type t))" using t_contains typing_textual by blast
  ultimately show ?case using t_contains.hyps
    by (intro call_sound [where ts = "[t, element_type t]"] sound_builtin_contains) auto
next
  case (t_affix f n m loc)
  then have "sound string_type (confit_v2_evaluate_node ctx n)" "sound string_type (confit_v2_evaluate_node ctx m)"
    by (simp_all add: runnable_call)
  with t_affix.hyps show ?case
    by (intro call_sound [where ts = "[string_type, string_type]"] sound_builtin_affix) auto
next
  case (t_concat f ns loc)
  then have "\<forall>n \<in> set ns. sound string_type (confit_v2_evaluate_node ctx n)" by (simp add: runnable_call)
  then have "list_all2 (\<lambda>n t. sound t (confit_v2_evaluate_node ctx n)) ns (map (\<lambda>_. string_type) ns)"
    by (simp add: list_all2_conv_all_nth)
  with t_concat.hyps(1) show ?case
    by (intro call_sound [where ts = "map (\<lambda>_. string_type) ns"] sound_builtin_concat) auto
next
  case (t_enum_name f n t loc)
  then have "sound t (confit_v2_evaluate_node ctx n)" by (simp add: runnable_call)
  with t_enum_name.hyps show ?case by (intro call_sound [where ts = "[t]"] sound_builtin_one) auto
next
  case (t_list ns t loc)
  have ty: "confit_v2_typed_expression_node_type (ec_typed ctx) (List_Node loc ns) = Some (collection_of t)"
    using t_list by (intro runnable_type [of env]) (auto intro: typing.t_list)
  have "\<forall>n \<in> set ns. sound t (confit_v2_evaluate_node ctx n)" using t_list by (simp add: runnable_list)
  moreover have "textual (et_kind t)" using t_list.hyps by (auto simp: textual_def)
  ultimately show ?case using items_sound [of ns t ctx] ty
    by (auto simp: collection_of_def holds_collection) (auto simp: sound_def)
qed

section \<open>Checked expressions\<close>

lemma type_check_runnable:
  assumes "confit_v2_expression_type_check x env = Inr typed"
    and "distinct (map node_addr (post_nodes (expression_root x)))"
    and "\<And>loc l. Literal loc l \<in> set (subnodes (expression_root x)) \<Longrightarrow> literal_ok l"
  shows "runnable env \<lparr>ec_typed = typed, ec_environment = rt\<rparr> (expression_root x)"
  unfolding runnable_def
proof (intro ballI conjI allI impI)
  fix m t assume m: "m \<in> set (subnodes (expression_root x))" and t: "typing env m t"
  have e: "entries_for env (post_nodes (expression_root x)) (typed_nodes typed)"
    using assms(1) by (auto simp: type_check_Inr dest!: typecheck_sound(1))
  from entries_lookup [OF e assms(2), of m] m obtain u where
    "find (\<lambda>(addr, t). addr = node_addr m) (typed_nodes typed) = Some (node_addr m, u)" "typing env m u"
    by (auto simp: post_nodes_subnodes)
  with typing_unique [OF t] show "confit_v2_typed_expression_node_type
      (ec_typed \<lparr>ec_typed = typed, ec_environment = rt\<rparr>) m = Some t"
    by (simp add: confit_v2_typed_expression_node_type_def)
qed (use assms(3) in blast)

lemma type_check_typing:
  "confit_v2_expression_type_check x env = Inr typed
    \<Longrightarrow> typing env (expression_root x) (typed_root_type typed) \<and> typed_source typed = x"
  by (auto simp: type_check_Inr dest: typecheck_sound(1))

lemma typed_nodes_not_empty:
  "confit_v2_expression_type_check x env = Inr typed \<Longrightarrow> typed_nodes typed \<noteq> []"
  using post_nodes_children [of "expression_root x"]
  by (auto simp: type_check_Inr entries_for_def dest!: typecheck_sound(1))

text \<open>The environments the resolver builds bind options at the type of their declaration.\<close>

lemma option_types_textual:
  "text_collections (map (\<lambda>(name, t, enum_id, v). \<lparr>bind_id = name,
     bind_type = confit_v2_expression_type_from_option_type t enum_id, bind_value = v\<rparr>) ds)"
  by (auto simp: text_collections_def confit_v2_expression_type_from_option_type_def textual_def
      split: option_type.splits)

text \<open>Soundness of the entry point.\<close>

lemma evaluation_safe:
  assumes "confit_v2_expression_type_check x env = Inr typed"
    and "distinct (map node_addr (post_nodes (expression_root x)))"
    and "\<And>loc l. Literal loc l \<in> set (subnodes (expression_root x)) \<Longrightarrow> literal_ok l"
    and "text_collections env"
  shows "case confit_v2_expression_evaluate typed rt of
      Inr v \<Rightarrow> ev_type v = typed_root_type typed
        \<and> (if ev_is_set v
           then v2_value_kind (ev_value v) \<noteq> VALUE_UNSET
             \<and> confit_v2_evaluate_type_value_matches (typed_root_type typed) (Some (ev_value v))
           else ev_value v = V_Unset)
    | Inl (Reported d) \<Rightarrow> diag_status d = CONFIT_ERR_SCHEMA
    | Inl Undefined \<Rightarrow> False"
proof -
  let ?ctx = "\<lparr>ec_typed = typed, ec_environment = rt\<rparr>"
  have "sound (typed_root_type typed) (confit_v2_evaluate_node ?ctx (expression_root x))"
    using type_check_typing [OF assms(1)] type_check_runnable [OF assms(1-3)] assms(4)
    by (intro evaluate_sound) auto
  then show ?thesis
    using typed_nodes_not_empty [OF assms(1)] type_check_typing [OF assms(1)]
    unfolding confit_v2_expression_evaluate_def
    by (auto simp: sound_def holds_def split: sum.splits fault.splits)
qed

text \<open>C16. Evaluating a checked expression never reads a union member that was not stored nor an
  element past an array, in any runtime environment; its errors are schema errors, and a value it
  returns has the static type of the expression, with a payload of that type, or is unset.\<close>

theorem checked_expression_safe:
  assumes "confit_v2_expression_type_check x env = Inr typed"
    and "distinct (map node_addr (post_nodes (expression_root x)))"
    and "\<And>loc l. Literal loc l \<in> set (subnodes (expression_root x)) \<Longrightarrow> literal_ok l"
    and "text_collections env"
  shows "case confit_v2_expression_evaluate typed rt of
      Inr v \<Rightarrow> ev_type v = typed_root_type typed
        \<and> (if ev_is_set v
           then v2_value_kind (ev_value v) \<noteq> VALUE_UNSET
             \<and> confit_v2_evaluate_type_value_matches (typed_root_type typed) (Some (ev_value v))
           else ev_value v = V_Unset)
    | Inl (Reported d) \<Rightarrow> diag_status d = CONFIT_ERR_SCHEMA
    | Inl Undefined \<Rightarrow> False"
  by (rule evaluation_safe) (fact assms)+

lemma checked_expression_safe_witness:
  "confit_v2_expression_evaluate sample_typed (sample_environment (Some (V_Int 40))) \<noteq> Inl Undefined"
proof -
  have "text_collections (sample_environment None)"
    by (simp add: text_collections_def sample_environment_def)
  moreover have "\<And>loc l. Literal loc l \<in> set (subnodes (expression_root sample_sum)) \<Longrightarrow> literal_ok l"
    by (auto simp: sample_sum_def literal_ok_def)
  moreover have "distinct (map node_addr (post_nodes (expression_root sample_sum)))"
    by (simp add: sample_sum_def)
  ultimately show ?thesis
    using checked_expression_safe [OF sample_type_check [of None], of "sample_environment (Some (V_Int 40))"]
    by (auto split: sum.splits)
qed

end
