(* ===== verification/Meaning.thy ===== *)
theory Meaning
  imports Soundness "HOL-Library.Signed_Division"
begin

text \<open>
  A reference semantics of expressions, and the proof that the evaluator implements it. The
  reference works on untagged values with exact integers: an operation is defined by its
  mathematical result, with an error when that does not fit 64 bits; it uses no types, no type
  table, no union members and no diagnostics. The refinement holds for checked expressions.
\<close>

section \<open>Reference semantics\<close>

datatype sval =
  S_Bool bool | S_Tristate char | S_Int int | S_Uint nat | S_Float f64 | S_Text string
| S_Texts "string list"

type_synonym store = "string \<Rightarrow> sval option"

definition kStuck :: string where "kStuck = kInvalidRuntimeType"

definition in_int :: "int \<Rightarrow> string + sval" where
  "in_int z = (if - (2 ^ 63) \<le> z \<and> z < 2 ^ 63 then Inr (S_Int z) else Inl kIntegerOverflow)"

definition in_uint :: "string \<Rightarrow> int \<Rightarrow> string + sval" where
  "in_uint message z = (if 0 \<le> z \<and> z < 2 ^ 64 then Inr (S_Uint (nat z)) else Inl message)"

definition exact_int :: "binary_operator \<Rightarrow> int \<Rightarrow> int \<Rightarrow> string + sval" where
  "exact_int b x y = (case b of
     BINARY_ADD \<Rightarrow> in_int (x + y) | BINARY_SUBTRACT \<Rightarrow> in_int (x - y) | BINARY_MULTIPLY \<Rightarrow> in_int (x * y)
   | BINARY_DIVIDE \<Rightarrow> if y = 0 then Inl kDivisionByZero else in_int (x sdiv y)
   | BINARY_MODULO \<Rightarrow> if y = 0 then Inl kDivisionByZero
       else if \<not> (- (2 ^ 63) \<le> x sdiv y \<and> x sdiv y < 2 ^ 63) then Inl kIntegerOverflow
       else Inr (S_Int (x smod y))
   | _ \<Rightarrow> Inl kStuck)"

definition exact_uint :: "binary_operator \<Rightarrow> nat \<Rightarrow> nat \<Rightarrow> string + sval" where
  "exact_uint b x y = (case b of
     BINARY_ADD \<Rightarrow> in_uint ''expression unsigned overflow'' (int x + int y)
   | BINARY_SUBTRACT \<Rightarrow> in_uint ''expression unsigned underflow'' (int x - int y)
   | BINARY_MULTIPLY \<Rightarrow> in_uint ''expression unsigned overflow'' (int x * int y)
   | BINARY_DIVIDE \<Rightarrow> if y = 0 then Inl kDivisionByZero else Inr (S_Uint (x div y))
   | BINARY_MODULO \<Rightarrow> if y = 0 then Inl kDivisionByZero else Inr (S_Uint (x mod y))
   | _ \<Rightarrow> Inl kStuck)"

definition sval_equal :: "sval \<Rightarrow> sval \<Rightarrow> bool" where
  "sval_equal x y = (case (x, y) of (S_Float a, S_Float b) \<Rightarrow> f64_eq a b | _ \<Rightarrow> x = y)"

definition sval_less :: "sval \<Rightarrow> sval \<Rightarrow> bool" where
  "sval_less x y = (case (x, y) of
     (S_Int a, S_Int b) \<Rightarrow> a < b | (S_Uint a, S_Uint b) \<Rightarrow> a < b
   | (S_Float a, S_Float b) \<Rightarrow> f64_less a b | (S_Text a, S_Text b) \<Rightarrow> a < b | _ \<Rightarrow> False)"

definition unary_meaning :: "unary_operator \<Rightarrow> sval \<Rightarrow> string + sval" where
  "unary_meaning u x = (case (u, x) of
     (UNARY_NOT, S_Bool b) \<Rightarrow> Inr (S_Bool (\<not> b))
   | (UNARY_NEGATE, S_Int z) \<Rightarrow> in_int (- z) | (UNARY_PLUS, S_Int z) \<Rightarrow> Inr x
   | (UNARY_NEGATE, S_Float a) \<Rightarrow> Inr (S_Float (f64_neg a)) | (UNARY_PLUS, S_Float a) \<Rightarrow> Inr x
   | _ \<Rightarrow> Inl kStuck)"

definition binary_meaning :: "binary_operator \<Rightarrow> sval \<Rightarrow> sval \<Rightarrow> string + sval" where
  "binary_meaning b x y = (case b of
     BINARY_AND \<Rightarrow> Inr (S_Bool (x = S_Bool True \<and> y = S_Bool True))
   | BINARY_OR \<Rightarrow> Inr (S_Bool (x = S_Bool True \<or> y = S_Bool True))
   | BINARY_EQUAL \<Rightarrow> Inr (S_Bool (sval_equal x y)) | BINARY_NOT_EQUAL \<Rightarrow> Inr (S_Bool (\<not> sval_equal x y))
   | BINARY_LESS \<Rightarrow> Inr (S_Bool (sval_less x y)) | BINARY_LESS_EQUAL \<Rightarrow> Inr (S_Bool (\<not> sval_less y x))
   | BINARY_GREATER \<Rightarrow> Inr (S_Bool (sval_less y x))
   | BINARY_GREATER_EQUAL \<Rightarrow> Inr (S_Bool (\<not> sval_less x y))
   | BINARY_IN \<Rightarrow> (case (x, y) of (S_Text s, S_Texts items) \<Rightarrow> Inr (S_Bool (s \<in> set items))
                   | _ \<Rightarrow> Inl kStuck)
   | _ \<Rightarrow> (case (x, y) of
        (S_Int a, S_Int c) \<Rightarrow> exact_int b a c | (S_Uint a, S_Uint c) \<Rightarrow> exact_uint b a c
      | (S_Float a, S_Float c) \<Rightarrow>
          (case arithmetic_float b a c of Inl message \<Rightarrow> Inl message | Inr z \<Rightarrow> Inr (S_Float z))
      | _ \<Rightarrow> Inl kStuck))"

fun text_of :: "sval \<Rightarrow> string" where
  "text_of (S_Text s) = s"
| "text_of _ = []"

definition call_meaning :: "builtin \<Rightarrow> sval list \<Rightarrow> string + sval" where
  "call_meaning f xs = (case (f, xs) of
     (Enabled, [S_Bool b]) \<Rightarrow> Inr (S_Bool b) | (Enabled, [S_Tristate c]) \<Rightarrow> Inr (S_Bool (c \<noteq> CHR ''n''))
   | (Builtin, [S_Tristate c]) \<Rightarrow> Inr (S_Bool (c = CHR ''y''))
   | (Module, [S_Tristate c]) \<Rightarrow> Inr (S_Bool (c = CHR ''m''))
   | (Len, [S_Text s]) \<Rightarrow> Inr (S_Uint (length s mod 2 ^ 64))
   | (Len, [S_Texts items]) \<Rightarrow> Inr (S_Uint (length items mod 2 ^ 64))
   | (Contains, [S_Texts items, S_Text s]) \<Rightarrow> Inr (S_Bool (s \<in> set items))
   | (Starts_With, [S_Text s, S_Text p]) \<Rightarrow> Inr (S_Bool (\<exists>r \<in> {drop (length p) s}. s = p @ r))
   | (Ends_With, [S_Text s, S_Text p]) \<Rightarrow> Inr (S_Bool (\<exists>r \<in> {take (length s - length p) s}. s = r @ p))
   | (Concat, _) \<Rightarrow> Inr (S_Text (concat (map text_of xs)))
   | (Enum_Name, [S_Text s]) \<Rightarrow> Inr (S_Text s)
   | _ \<Rightarrow> Inl kStuck)"

definition required :: "string + sval option \<Rightarrow> string + sval" where
  "required m = (case m of
     Inl message \<Rightarrow> Inl message | Inr None \<Rightarrow> Inl ''expression value is unset'' | Inr (Some x) \<Rightarrow> Inr x)"

definition some_value :: "string + sval \<Rightarrow> string + sval option" where
  "some_value m = (case m of Inl message \<Rightarrow> Inl message | Inr x \<Rightarrow> Inr (Some x))"

definition literal_meaning :: "expr_literal \<Rightarrow> sval" where
  "literal_meaning l = (case l of
     LITERAL_BOOL b \<Rightarrow> S_Bool b | LITERAL_TRISTATE c \<Rightarrow> S_Tristate c | LITERAL_INT n \<Rightarrow> S_Int (sint n)
   | LITERAL_HEX n \<Rightarrow> S_Uint (unat n) | LITERAL_FLOAT x \<Rightarrow> S_Float x | LITERAL_STRING s \<Rightarrow> S_Text s)"

text \<open>\<open>&&\<close>, \<open>||\<close> and the conditional evaluate only what they need.\<close>

fun meaning :: "store \<Rightarrow> expr_node \<Rightarrow> string + sval option"
  and meanings :: "store \<Rightarrow> expr_node list \<Rightarrow> string + sval list" where
  "meaning \<sigma> (Literal loc l) = Inr (Some (literal_meaning l))"
| "meaning \<sigma> (Reference loc r) = Inr (\<sigma> r)"
| "meaning \<sigma> (Unary loc u n) =
     some_value (bind_res (required (meaning \<sigma> n)) (unary_meaning u))"
| "meaning \<sigma> (Binary loc b l r) =
     some_value (bind_res (required (meaning \<sigma> l)) (\<lambda>x.
       if b = BINARY_AND \<and> x = S_Bool False then Inr (S_Bool False)
       else if b = BINARY_OR \<and> x = S_Bool True then Inr (S_Bool True)
       else bind_res (required (meaning \<sigma> r)) (binary_meaning b x)))"
| "meaning \<sigma> (Conditional loc c t f) =
     bind_res (required (meaning \<sigma> c)) (\<lambda>x. if x = S_Bool True then meaning \<sigma> t else meaning \<sigma> f)"
| "meaning \<sigma> (Call loc f ns) =
     (case builtin_of f of
        None \<Rightarrow> Inl kStuck
      | Some g \<Rightarrow>
          if g = Defined then
            (case ns of Reference _ r # _ \<Rightarrow> Inr (Some (S_Bool (\<sigma> r \<noteq> None))) | _ \<Rightarrow> Inl kStuck)
          else some_value (bind_res (meanings \<sigma> ns) (call_meaning g)))"
| "meaning \<sigma> (List_Node loc ns) =
     bind_res (meanings \<sigma> ns) (\<lambda>xs. Inr (Some (S_Texts (map text_of xs))))"
| "meanings \<sigma> [] = Inr []"
| "meanings \<sigma> (n # ns) =
     bind_res (required (meaning \<sigma> n)) (\<lambda>x. bind_res (meanings \<sigma> ns) (\<lambda>xs. Inr (x # xs)))"

section \<open>Observing the evaluator\<close>

fun sval_of :: "v2_value \<Rightarrow> sval option" where
  "sval_of V_Unset = None"
| "sval_of (V_Bool b) = Some (S_Bool (b \<noteq> 0))"
| "sval_of (V_Tristate c) = Some (S_Tristate c)"
| "sval_of (V_Int n) = Some (S_Int (sint n))"
| "sval_of (V_Uint n) = Some (S_Uint (unat n))"
| "sval_of (V_Float x) = Some (S_Float x)"
| "sval_of (V_String s) = Some (S_Text s)"
| "sval_of (V_String_List xs) = Some (S_Texts xs)"

text \<open>What a caller sees: the value, or that it is unset, or the message of the diagnostic.\<close>

definition observe :: "fault + expr_value \<Rightarrow> string + sval option" where
  "observe r = (case r of
     Inr v \<Rightarrow> Inr (if ev_is_set v then sval_of (ev_value v) else None)
   | Inl (Reported d) \<Rightarrow> Inl (diag_message d)
   | Inl Undefined \<Rightarrow> Inl ''undefined behaviour'')"

lemma message_of_diagnostic:
  "confit_v2_evaluate_diagnostic ctx n st message = Inl (Reported d) \<Longrightarrow> diag_message d = message"
  by (auto simp: confit_v2_evaluate_diagnostic_def confit_v2_expression_diagnostic_at_def
      confit_diagnostic_set_def confit_diagnostic_set_detail_def Let_def split: prod.splits)

lemma observe_diagnostic [simp]:
  "observe (confit_v2_evaluate_diagnostic ctx n st message) = Inl message"
  using message_of_diagnostic [of ctx n st message]
  by (auto simp: observe_def confit_v2_evaluate_diagnostic_def)

lemma observe_bind_diagnostic [simp]:
  "observe (bind_res (confit_v2_evaluate_diagnostic ctx n st message) f) = Inl message"
  using observe_diagnostic [of ctx n st message]
  by (simp add: confit_v2_evaluate_diagnostic_def observe_def)

lemma observe_set [simp]: "observe (Inr (set_value t v)) = Inr (sval_of v)"
  by (simp add: observe_def set_value_def)

lemma observe_set_bool [simp]:
  "observe (Inr (confit_v2_evaluate_set_bool b)) = Inr (Some (S_Bool b))"
  by (simp add: observe_def confit_v2_evaluate_set_bool_def)

lemma some_value_simps [simp]:
  "some_value (Inl e) = Inl e" "some_value (Inr x) = Inr (Some x)"
  by (simp_all add: some_value_def)

lemma required_simps [simp]:
  "required (Inl e) = Inl e" "required (Inr None) = Inl ''expression value is unset''"
  "required (Inr (Some x)) = Inr x"
  by (simp_all add: required_def)

lemma holds_sval: "holds t v \<Longrightarrow> \<exists>x. sval_of v = Some x"
  by (cases v) (auto simp: holds_def)

text \<open>An operand: both sides stop with the same message, or go on with corresponding values.\<close>

lemma observe_operand:
  assumes "sound t r"
    and "\<And>v x. present t v \<Longrightarrow> sval_of (ev_value v) = Some x \<Longrightarrow> observe (f v) = g x"
    and "\<And>e. g' (Inl e) = Inl e" and "\<And>x. g' (Inr x) = g x"
  shows "observe (bind_res r (\<lambda>v. bind_res (confit_v2_evaluate_require_set ctx n v) (\<lambda>_. f v)))
    = g' (required (observe r))"
  using assms(1)
proof (cases rule: sound_cases)
  case (present v)
  then obtain x where "sval_of (ev_value v) = Some x" using holds_sval by blast
  with present assms(2) [of v x] assms(4) [of x] show ?thesis
    by (simp add: observe_def confit_v2_evaluate_require_set_def present_def)
next
  case (unset v)
  then show ?thesis
    by (simp add: confit_v2_evaluate_require_set_def assms(3)) (simp add: observe_def assms(3))
next
  case (error d)
  then show ?thesis by (simp add: observe_def assms(3))
qed

lemma observe_message:
  "observe (bind_res (message_at ctx n r) (\<lambda>x. Inr (set_value t (wrap x))))
     = (case r of Inl message \<Rightarrow> Inl message | Inr x \<Rightarrow> Inr (sval_of (wrap x)))"
  by (cases r) (simp_all add: message_at_def)

section \<open>Operators\<close>

lemma in_int_i64: "in_int z = (case i64_of_int z of None \<Rightarrow> Inl kIntegerOverflow | Some w \<Rightarrow> Inr (S_Int (sint w)))"
  by (auto simp: in_int_def i64_of_int_def fits_i64_def sint_word_of_int)

lemma sint_modulo:
  "fits_i64 (sint a smod sint b) \<Longrightarrow> sint (i64_modulo a b) = sint a smod sint b"
  unfolding i64_modulo_def by (rule sint_word_of_int)

lemma fits_smod: "fits_i64 a \<Longrightarrow> fits_i64 b \<Longrightarrow> b \<noteq> 0 \<Longrightarrow> fits_i64 (a smod b)"
proof -
  assume a: "fits_i64 a" and b: "fits_i64 b" "b \<noteq> 0"
  have "a smod b = sgn a * (\<bar>a\<bar> mod \<bar>b\<bar>)" by (rule smod_int_alt_def)
  moreover have "0 \<le> \<bar>a\<bar> mod \<bar>b\<bar>" "\<bar>a\<bar> mod \<bar>b\<bar> < \<bar>b\<bar>" using b(2) by simp_all
  ultimately have "\<bar>a smod b\<bar> < \<bar>b\<bar>" by (auto simp: sgn_if)
  then show ?thesis using b(1) by (auto simp: fits_i64_def)
qed

lemma sdiv_fits: "fits_i64 a \<Longrightarrow> fits_i64 b \<Longrightarrow> fits_i64 (a sdiv b) \<longleftrightarrow> \<not> (a = - (2 ^ 63) \<and> b = - 1)"
proof
  assume "fits_i64 (a sdiv b)"
  then show "\<not> (a = - (2 ^ 63) \<and> b = - 1)" by (auto simp: fits_i64_def signed_divide_int_def)
qed (rule fits_sdiv)

lemma arithmetic_int_exact:
  "(case arithmetic_int b x y of Inl message \<Rightarrow> Inl message | Inr z \<Rightarrow> Inr (sval_of (V_Int z)))
     = some_value (exact_int b (sint x) (sint y))"
  if "b \<in> {BINARY_ADD, BINARY_SUBTRACT, BINARY_MULTIPLY, BINARY_DIVIDE, BINARY_MODULO}"
proof -
  note fits = sint_fits [of x] sint_fits [of y]
  have zero: "y = 0 \<longleftrightarrow> sint y = 0" by (simp add: sint_eq_iff)
  have edge: "(x = INT64_MIN \<and> y = - 1) \<longleftrightarrow> \<not> fits_i64 (sint x sdiv sint y)"
    using sdiv_fits [OF fits] by (simp add: sint_eq_iff)
  have "sint y \<noteq> 0 \<Longrightarrow> sint (i64_modulo x y) = sint x smod sint y"
    using fits_smod [OF fits] sint_modulo by blast
  moreover have "fits_i64 (sint x sdiv sint y) \<Longrightarrow> sint (i64_divide x y) = sint x sdiv sint y"
    unfolding i64_divide_def by (rule sint_word_of_int)
  ultimately show ?thesis
    using that zero edge
    by (auto simp: arithmetic_int_def exact_int_def int_add_exact int_subtract_exact int_multiply_exact
        in_int_i64 Let_def i64_of_int_def fits_i64_def split: option.splits)
qed

lemma unat_add_fits: "unat (x :: u64) + unat y < 2 ^ 64 \<Longrightarrow> unat (x + y) = unat x + unat y"
  by (simp add: unat_word_ariths)

lemma unat_mult_fits: "unat (x :: u64) * unat y < 2 ^ 64 \<Longrightarrow> unat (x * y) = unat x * unat y"
  by (simp add: unat_word_ariths)

lemma exact_uint_nat:
  "exact_uint BINARY_ADD m n
     = (if m + n < 2 ^ 64 then Inr (S_Uint (m + n)) else Inl ''expression unsigned overflow'')"
  "m < 2 ^ 64 \<Longrightarrow> exact_uint BINARY_SUBTRACT m n
     = (if n \<le> m then Inr (S_Uint (m - n)) else Inl ''expression unsigned underflow'')"
  "exact_uint BINARY_MULTIPLY m n
     = (if m * n < 2 ^ 64 then Inr (S_Uint (m * n)) else Inl ''expression unsigned overflow'')"
  unfolding exact_uint_def in_uint_def
  by (auto simp: nat_diff_distrib simp flip: of_nat_add of_nat_mult)

lemma arithmetic_uint_exact:
  "(case arithmetic_uint b x y of Inl message \<Rightarrow> Inl message | Inr z \<Rightarrow> Inr (sval_of (V_Uint z)))
     = some_value (exact_uint b (unat x) (unat y))"
  if "b \<in> {BINARY_ADD, BINARY_SUBTRACT, BINARY_MULTIPLY, BINARY_DIVIDE, BINARY_MODULO}"
proof -
  note operators = that
  have x: "unat x < 2 ^ 64" and y: "unat y < 2 ^ 64" using unsigned_less [of x] unsigned_less [of y] by simp_all
  have zero: "y = 0 \<longleftrightarrow> unat y = 0" by (simp add: unat_eq_0)
  have add: "UINT64_MAX - x < y \<longleftrightarrow> \<not> unat x + unat y < 2 ^ 64"
  proof -
    have "unat (UINT64_MAX - x) = 2 ^ 64 - 1 - unat x"
      using x by (subst unat_sub) (simp_all add: unat_UINT64_MAX word_le_nat_alt)
    then show ?thesis using x by (auto simp: word_less_nat_alt)
  qed
  have mult: "y \<noteq> 0 \<and> UINT64_MAX div y < x \<longleftrightarrow> \<not> unat x * unat y < 2 ^ 64"
  proof (cases "unat y = 0")
    case False
    have "unat (UINT64_MAX div y) = (2 ^ 64 - 1) div unat y" by (simp add: unat_div unat_UINT64_MAX)
    then have "UINT64_MAX div y < x \<longleftrightarrow> (2 ^ 64 - 1) div unat y < unat x" by (simp add: word_less_nat_alt)
    also have "\<dots> \<longleftrightarrow> 2 ^ 64 - 1 < unat x * unat y"
      using False by (simp add: div_less_iff_less_mult)
    finally show ?thesis using False zero by auto
  qed (simp add: zero)
  have sub: "x < y \<longleftrightarrow> \<not> unat y \<le> unat x" by (simp add: word_less_nat_alt not_le)
  have "unat y \<le> unat x \<Longrightarrow> unat (x - y) = unat x - unat y"
    by (rule unat_sub) (simp add: word_le_nat_alt)
  note words = this unat_add_fits [of x y] unat_mult_fits [of x y]
  consider "b = BINARY_ADD" | "b = BINARY_SUBTRACT" | "b = BINARY_MULTIPLY"
    | "b = BINARY_DIVIDE \<or> b = BINARY_MODULO" using operators by blast
  then show ?thesis
  proof cases
    case 1
    then show ?thesis
      by (cases "unat x + unat y < 2 ^ 64") (simp_all add: arithmetic_uint_def exact_uint_nat add words)
  next
    case 2
    then show ?thesis
      by (cases "unat y \<le> unat x") (simp_all add: arithmetic_uint_def exact_uint_nat(2) [OF x] sub words)
  next
    case 3
    then show ?thesis using mult
      by (cases "unat x * unat y < 2 ^ 64") (simp_all add: arithmetic_uint_def exact_uint_nat words)
  next
    case 4
    then show ?thesis
      by (auto simp: arithmetic_uint_def exact_uint_def zero unat_div unat_mod)
  qed
qed

definition arithmetic_operator :: "binary_operator \<Rightarrow> bool" where
  "arithmetic_operator b \<longleftrightarrow>
     b \<in> {BINARY_ADD, BINARY_SUBTRACT, BINARY_MULTIPLY, BINARY_DIVIDE, BINARY_MODULO}"

lemma binary_meaning_arithmetic:
  "arithmetic_operator b \<Longrightarrow> binary_meaning b (S_Int m) (S_Int k) = exact_int b m k"
  "arithmetic_operator b \<Longrightarrow> binary_meaning b (S_Uint i) (S_Uint j) = exact_uint b i j"
  "arithmetic_operator b \<Longrightarrow> some_value (binary_meaning b (S_Float u) (S_Float v))
     = (case arithmetic_float b u v of Inl message \<Rightarrow> Inl message | Inr z \<Rightarrow> Inr (sval_of (V_Float z)))"
  by (cases b; auto simp: binary_meaning_def arithmetic_operator_def split: sum.splits)+

lemma numeric_cases:
  assumes "numeric (et_kind t)" "holds t v" "holds t w"
  obtains (ints) m k where "et_kind t = TYPE_INT" "v = V_Int m" "w = V_Int k"
  | (uints) m k where "et_kind t = TYPE_UINT" "v = V_Uint m" "w = V_Uint k"
  | (floats) m k where "et_kind t = TYPE_FLOAT" "v = V_Float m" "w = V_Float k"
  using assms by (auto simp: numeric_def holds_iff)

lemma observe_arithmetic:
  assumes "arithmetic_operator b" "numeric (et_kind t)" "present t l" "present t r"
    and "sval_of (ev_value l) = Some x" "sval_of (ev_value r) = Some y"
  shows "observe (confit_v2_evaluate_arithmetic ctx n b l r) = some_value (binary_meaning b x y)"
proof -
  have t: "ev_type l = t" "holds t (ev_value l)" "holds t (ev_value r)"
    using assms(3,4) by (auto simp: present_def)
  from assms(2) t(2,3) show ?thesis
  proof (cases rule: numeric_cases)
    case (ints m k)
    with assms t(1) arithmetic_int_exact [of b m k] show ?thesis
      by (auto simp: confit_v2_evaluate_arithmetic_def reads observe_message binary_meaning_arithmetic
          arithmetic_operator_def Let_def)
  next
    case (uints m k)
    with assms t(1) arithmetic_uint_exact [of b m k] show ?thesis
      by (auto simp: confit_v2_evaluate_arithmetic_def reads observe_message binary_meaning_arithmetic
          arithmetic_operator_def Let_def)
  next
    case (floats m k)
    with assms t(1) show ?thesis
      by (auto simp: confit_v2_evaluate_arithmetic_def reads observe_message binary_meaning_arithmetic
          arithmetic_operator_def Let_def)
  qed
qed

lemma isfinite_neg: "isfinite x \<Longrightarrow> isfinite (f64_neg x)"
proof -
  assume x: "isfinite x"
  have "unat (f64_neg x) = (unat x + 2 ^ 63) mod 2 ^ 64"
    by (simp add: f64_neg_def unat_word_ariths)
  also have "\<dots> mod 2 ^ 63 = unat x mod 2 ^ 63"
    by (subst mod_mod_cancel) simp_all
  finally have "unat (f64_neg x) mod 2 ^ 63 = unat x mod 2 ^ 63" .
  moreover have "m div 2 ^ 52 mod 2 ^ 11 = m mod 2 ^ 63 div 2 ^ 52" for m :: nat
    using div_mult2_eq [of m] mod_mult2_eq [of m "2 ^ 52" "2 ^ 11"] by simp
  ultimately have "f64_exponent (f64_neg x) = f64_exponent x" by (simp add: f64_exponent_def)
  with x show ?thesis by (simp add: isfinite_def)
qed

lemma sint_neg: "fits_i64 (- sint x) \<Longrightarrow> sint (- x :: i64) = - sint x"
  using fits_diff [of 0 x] by simp

lemma observe_unary:
  assumes "if u = UNARY_NOT then t = bool_type else et_kind t \<in> {TYPE_INT, TYPE_FLOAT}"
    "present t v" "sval_of (ev_value v) = Some x"
  shows "observe (evaluate_unary_value ctx n u v) = some_value (unary_meaning u x)"
proof (cases u)
  case UNARY_NOT
  with assms show ?thesis
    by (auto simp: evaluate_unary_value_def unary_meaning_def reads present_def holds_simple_bool)
next
  case UNARY_NEGATE
  have edge: "m = INT64_MIN \<longleftrightarrow> \<not> fits_i64 (- sint m)" for m
    using sint_fits [of m] by (auto simp: fits_i64_def sint_eq_iff)
  from UNARY_NEGATE assms show ?thesis
    by (auto simp: evaluate_unary_value_def unary_meaning_def reads present_def holds_iff Let_def
        isfinite_neg edge sint_neg in_int_i64 i64_of_int_def)
next
  case UNARY_PLUS
  with assms show ?thesis
    by (auto simp: evaluate_unary_value_def unary_meaning_def reads present_def holds_iff Let_def)
qed

lemma strings_equal_iff: "length xs = length ys \<Longrightarrow> strings_equal xs ys \<longleftrightarrow> xs = ys"
  by (induction xs ys rule: list_induct2) (auto simp: spec_simps)

lemma observe_equal:
  assumes "present t l" "present t r" "sval_of (ev_value l) = Some x" "sval_of (ev_value r) = Some y"
  shows "confit_v2_evaluate_values_equal l r = Inr (sval_equal x y)"
proof -
  have t: "ev_type l = t" "holds t (ev_value l)" "holds t (ev_value r)"
    using assms(1,2) by (auto simp: present_def)
  with assms(3,4) show ?thesis
    unfolding confit_v2_evaluate_values_equal_def holds_iff Let_def
    by (cases "et_kind t") (auto simp: reads sval_equal_def spec_simps strings_equal_iff
        simp flip: sint_eq_iff word_unat_eq_iff)
qed

lemma observe_compare:
  assumes "ordered (et_kind t)" "present t l" "present t r"
    and "sval_of (ev_value l) = Some x" "sval_of (ev_value r) = Some y"
  obtains c where "confit_v2_evaluate_compare l r = Inr c" "c < 0 \<longleftrightarrow> sval_less x y" "0 < c \<longleftrightarrow> sval_less y x"
proof -
  have t: "ev_type l = t" "holds t (ev_value l)" "holds t (ev_value r)"
    using assms(2,3) by (auto simp: present_def)
  have "\<exists>c. confit_v2_evaluate_compare l r = Inr c \<and> (c < 0 \<longleftrightarrow> sval_less x y) \<and> (0 < c \<longleftrightarrow> sval_less y x)"
    using assms(1,4,5) t f64_less_asym
    unfolding confit_v2_evaluate_compare_def holds_iff Let_def ordered_def numeric_def
    by (cases "et_kind t")
      (auto simp: reads sval_less_def spec_simps three_way_def word_sless_alt word_less_nat_alt)
  with that show thesis by blast
qed

lemma observe_binary:
  assumes "b \<in> {BINARY_AND, BINARY_OR} \<and> t = bool_type \<and> u = bool_type
      \<or> b \<in> {BINARY_EQUAL, BINARY_NOT_EQUAL} \<and> u = t
      \<or> b \<in> {BINARY_LESS, BINARY_LESS_EQUAL, BINARY_GREATER, BINARY_GREATER_EQUAL} \<and> u = t
        \<and> ordered (et_kind t)
      \<or> b = BINARY_IN \<and> textual (et_kind t) \<and> et_kind u = TYPE_COLLECTION
      \<or> arithmetic_operator b \<and> u = t \<and> numeric (et_kind t)"
    and "present t l" "present u r" "sval_of (ev_value l) = Some x" "sval_of (ev_value r) = Some y"
  shows "observe (evaluate_binary_values ctx n b l r) = some_value (binary_meaning b x y)"
proof -
  consider (logic) "b \<in> {BINARY_AND, BINARY_OR}" "t = bool_type" "u = bool_type"
    | (equal) "b \<in> {BINARY_EQUAL, BINARY_NOT_EQUAL}" "u = t"
    | (order) "b \<in> {BINARY_LESS, BINARY_LESS_EQUAL, BINARY_GREATER, BINARY_GREATER_EQUAL}" "u = t"
        "ordered (et_kind t)"
    | (member) "b = BINARY_IN" "textual (et_kind t)" "et_kind u = TYPE_COLLECTION"
    | (arithmetic) "arithmetic_operator b" "u = t" "numeric (et_kind t)"
    using assms(1) by blast
  then show ?thesis
  proof cases
    case logic
    with assms show ?thesis
      by (auto simp: evaluate_binary_values_def binary_meaning_def present_def holds_simple_bool reads Let_def)
  next
    case equal
    with assms observe_equal [of t l r x y] show ?thesis
      by (auto simp: evaluate_binary_values_def binary_meaning_def Let_def)
  next
    case order
    with assms obtain c where c: "confit_v2_evaluate_compare l r = Inr c"
      "c < 0 \<longleftrightarrow> sval_less x y" "0 < c \<longleftrightarrow> sval_less y x"
      using observe_compare [of t l r x y] by blast
    then have "c \<le> 0 \<longleftrightarrow> \<not> sval_less y x" "0 \<le> c \<longleftrightarrow> \<not> sval_less x y" by auto
    with c order(1) show ?thesis by (auto simp: evaluate_binary_values_def binary_meaning_def Let_def)
  next
    case member
    with assms show ?thesis
      by (auto simp: evaluate_binary_values_def binary_meaning_def present_def holds_textual
          holds_collection reads spec_simps Let_def)
  next
    case arithmetic
    then have "evaluate_binary_values ctx n b l r = confit_v2_evaluate_arithmetic ctx n b l r"
      by (auto simp: evaluate_binary_values_def arithmetic_operator_def Let_def)
    with arithmetic assms(2-) show ?thesis by (simp add: observe_arithmetic)
  qed
qed

section \<open>Calls\<close>

definition observe_arguments :: "fault + expr_value list \<Rightarrow> string + sval list" where
  "observe_arguments r = (case r of
     Inr vs \<Rightarrow> Inr (map (the \<circ> sval_of \<circ> ev_value) vs)
   | Inl (Reported d) \<Rightarrow> Inl (diag_message d)
   | Inl Undefined \<Rightarrow> Inl ''undefined behaviour'')"

lemma observe_operand_args:
  assumes "sound t r"
    and "\<And>v x. present t v \<Longrightarrow> sval_of (ev_value v) = Some x \<Longrightarrow> observe_arguments (f v) = g x"
  shows "observe_arguments (bind_res r (\<lambda>v. bind_res (confit_v2_evaluate_require_set ctx n v) (\<lambda>_. f v)))
    = bind_res (required (observe r)) g"
  using assms(1)
proof (cases rule: sound_cases)
  case (present v)
  then obtain x where "sval_of (ev_value v) = Some x" using holds_sval by blast
  with present assms(2) [of v x] show ?thesis
    by (simp add: observe_def confit_v2_evaluate_require_set_def present_def)
next
  case (unset v)
  have "observe_arguments (bind_res (confit_v2_evaluate_diagnostic ctx n st message) h) = Inl message" for st message h
    using observe_diagnostic [of ctx n st message]
    by (simp add: confit_v2_evaluate_diagnostic_def observe_def observe_arguments_def)
  with unset show ?thesis by (simp add: confit_v2_evaluate_require_set_def) (simp add: observe_def)
qed (simp add: observe_def observe_arguments_def)

lemma observe_arguments_meanings:
  "list_all2 (\<lambda>n t. sound t (confit_v2_evaluate_node ctx n)
       \<and> observe (confit_v2_evaluate_node ctx n) = meaning \<sigma> n) ns ts
    \<Longrightarrow> observe_arguments (evaluate_arguments ctx ns) = meanings \<sigma> ns"
proof (induction rule: list_all2_induct)
  case (Cons n ns t ts)
  have "observe_arguments (bind_res (evaluate_arguments ctx ns) (\<lambda>vs. Inr (v # vs)))
      = bind_res (meanings \<sigma> ns) (\<lambda>xs. Inr (x # xs))"
    if "sval_of (ev_value v) = Some x" for v x
    unfolding Cons(3) [symmetric]
    using that by (cases "evaluate_arguments ctx ns") (auto simp: observe_arguments_def split: fault.splits)
  with observe_operand_args [of t "confit_v2_evaluate_node ctx n"] Cons(1) show ?case by simp
qed (simp add: observe_arguments_def)

lemma prefix_meaning: "take (length p) s = p \<longleftrightarrow> s = p @ drop (length p) s"
  by (metis append_take_drop_id append_eq_conv_conj)

lemma suffix_meaning:
  "length p \<le> length s \<and> drop (length s - length p) s = p \<longleftrightarrow> s = take (length s - length p) s @ p"
  by (metis append_take_drop_id append_eq_conv_conj drop_append length_append le_add2 append_same_eq)

definition one_argument :: "builtin \<Rightarrow> etype \<Rightarrow> bool" where
  "one_argument g t \<longleftrightarrow>
     g = Enabled \<and> et_kind t \<in> {TYPE_BOOL, TYPE_TRISTATE} \<or> g \<in> {Builtin, Module} \<and> et_kind t = TYPE_TRISTATE
   \<or> g = Len \<and> et_kind t \<in> {TYPE_STRING, TYPE_COLLECTION} \<or> g = Enum_Name \<and> et_kind t = TYPE_ENUM"


lemma observe_builtin_one:
  assumes "one_argument g t" "builtin_of f = Some g" "list_all2 present [t] vs"
  shows "observe (evaluate_builtin ctx n f vs) = some_value (call_meaning g (map (the \<circ> sval_of \<circ> ev_value) vs))"
proof -
  from present_one [OF assms(3)] obtain v where v: "vs = [v]" "ev_is_set v" "ev_type v = t" "holds t (ev_value v)"
    by (auto simp: present_def)
  with assms(1,2) show ?thesis
    by (auto simp: one_argument_def evaluate_builtin_def array_at_def holds_iff reads call_meaning_def Let_def
        unsigned_of_nat take_bit_nat_def)
qed

lemma observe_builtin_two:
  assumes "builtin_of f = Some g" "list_all2 present [t, u] vs"
    and "g \<in> {Starts_With, Ends_With} \<and> t = string_type \<and> u = string_type
      \<or> g = Contains \<and> et_kind t = TYPE_COLLECTION \<and> textual (et_kind u)"
  shows "observe (evaluate_builtin ctx n f vs) = some_value (call_meaning g (map (the \<circ> sval_of \<circ> ev_value) vs))"
proof -
  from present_two [OF assms(2)] obtain v w where v: "vs = [v, w]" "holds t (ev_value v)" "holds u (ev_value w)"
    by (auto simp: present_def)
  with assms(1,3) show ?thesis
    by (auto simp: evaluate_builtin_def array_at_def holds_collection holds_textual holds_string_type reads
        call_meaning_def spec_simps confit_v2_evaluate_string_prefix_def confit_v2_evaluate_string_suffix_def
        prefix_meaning suffix_meaning Let_def)
qed

lemma fold_texts_value:
  "list_all2 present ts vs \<Longrightarrow> \<forall>t \<in> set ts. t = string_type \<Longrightarrow>
     fold_res (\<lambda>a joined. bind_res (as_string (ev_value a)) (\<lambda>s. Inr (joined @ s))) vs acc
       = Inr (acc @ concat (map (text_of \<circ> (the \<circ> sval_of \<circ> ev_value)) vs))"
  by (induction arbitrary: acc rule: list_all2_induct) (auto simp: present_def holds_iff reads)

lemma observe_builtin_concat:
  assumes "builtin_of f = Some Concat" "list_all2 present ts vs" "\<forall>t \<in> set ts. t = string_type"
  shows "observe (evaluate_builtin ctx n f vs)
    = some_value (call_meaning Concat (map (the \<circ> sval_of \<circ> ev_value) vs))"
  using assms(1) fold_texts_value [OF assms(2,3), of "[]"]
  by (simp add: evaluate_builtin_def call_meaning_def o_assoc)

lemma observe_call:
  assumes g: "builtin_of f = Some g" "g \<noteq> Defined"
    and args: "list_all2 (\<lambda>n t. sound t (confit_v2_evaluate_node ctx n)
       \<and> observe (confit_v2_evaluate_node ctx n) = meaning \<sigma> n) ns ts"
    and op: "\<And>vs. list_all2 present ts vs \<Longrightarrow> observe (evaluate_builtin ctx (Call loc f ns) f vs)
       = some_value (call_meaning g (map (the \<circ> sval_of \<circ> ev_value) vs))"
  shows "observe (confit_v2_evaluate_node ctx (Call loc f ns)) = meaning \<sigma> (Call loc f ns)"
proof -
  have "args_sound ts (evaluate_arguments ctx ns)"
    by (rule arguments_sound) (use args in \<open>simp add: list_all2_conv_all_nth\<close>)
  moreover have "meanings \<sigma> ns = observe_arguments (evaluate_arguments ctx ns)"
    using observe_arguments_meanings [OF args] by simp
  ultimately show ?thesis using g op
    by (cases "evaluate_arguments ctx ns")
      (auto simp: args_sound_def observe_arguments_def observe_def split: fault.splits)
qed

section \<open>Lists and references\<close>

lemma observe_items:
  assumes "textual (et_kind t)" "\<forall>n \<in> set ns. sound t (confit_v2_evaluate_node ctx n)
       \<and> observe (confit_v2_evaluate_node ctx n) = meaning \<sigma> n"
  shows "(case evaluate_items ctx ns of Inr texts \<Rightarrow> Inr texts | Inl (Reported d) \<Rightarrow> Inl (diag_message d)
      | Inl Undefined \<Rightarrow> Inl ''undefined behaviour'')
    = bind_res (meanings \<sigma> ns) (\<lambda>xs. Inr (map text_of xs))"
  using assms(2)
proof (induction ns)
  case (Cons n ns)
  then have s: "sound t (confit_v2_evaluate_node ctx n)"
    and m: "meaning \<sigma> n = observe (confit_v2_evaluate_node ctx n)" by auto
  note IH = Cons.IH [OF ballI [OF Cons.prems [rule_format, OF list.set_intros(2)]]]
  from s show ?case
  proof (cases rule: sound_cases)
    case (present v)
    with assms(1) obtain s where "ev_value v = V_String s" by (auto simp: holds_textual)
    with present m IH show ?thesis
      by (cases "evaluate_items ctx ns"; cases "meanings \<sigma> ns")
        (auto simp: observe_def confit_v2_evaluate_require_set_def reads split: fault.splits)
  next
    case (unset v)
    with m show ?thesis
      using observe_diagnostic [of ctx n CONFIT_ERR_SCHEMA "''expression value is unset''"]
      by (simp add: observe_def confit_v2_evaluate_require_set_def confit_v2_evaluate_diagnostic_def)
  qed (simp add: m observe_def)
qed simp

text \<open>The store that a runtime environment gives, and when it supplies every checked reference.\<close>

definition store_of :: "environment \<Rightarrow> store" where
  "store_of rt r = (case confit_v2_evaluate_find_binding rt r of
     None \<Rightarrow> None | Some b \<Rightarrow> (case bind_value b of None \<Rightarrow> None | Some v \<Rightarrow> sval_of v))"

definition supplies :: "environment \<Rightarrow> environment \<Rightarrow> bool" where
  "supplies env rt \<longleftrightarrow> (\<forall>r t. lookup_type env r = Some t \<longrightarrow>
     (\<exists>b. confit_v2_evaluate_find_binding rt r = Some b \<and> bind_type b = t
        \<and> confit_v2_evaluate_type_value_matches t (bind_value b)))"

lemma kind_unset: "v2_value_kind v = VALUE_UNSET \<longleftrightarrow> v = V_Unset"
  by (cases v) auto

lemma observe_bound:
  assumes "confit_v2_evaluate_type_value_matches t v"
  shows "observe (confit_v2_evaluate_copy_bound_value ctx n t v)
    = Inr (case v of None \<Rightarrow> None | Some w \<Rightarrow> sval_of w)"
  using assms by (auto simp: confit_v2_evaluate_copy_bound_value_def observe_def kind_unset split: option.splits)

section \<open>The evaluator implements the reference\<close>

definition agrees :: "evaluate_context \<Rightarrow> store \<Rightarrow> expr_node \<Rightarrow> etype \<Rightarrow> bool" where
  "agrees ctx \<sigma> n t \<longleftrightarrow> sound t (confit_v2_evaluate_node ctx n)
     \<and> observe (confit_v2_evaluate_node ctx n) = meaning \<sigma> n"

lemma agrees_unary:
  assumes "agrees ctx \<sigma> n t" "if u = UNARY_NOT then t = bool_type else et_kind t \<in> {TYPE_INT, TYPE_FLOAT}"
  shows "observe (confit_v2_evaluate_node ctx (Unary loc u n)) = meaning \<sigma> (Unary loc u n)"
proof -
  note s = assms(1) [unfolded agrees_def]
  show ?thesis
    using observe_operand [OF s [THEN conjunct1], of "evaluate_unary_value ctx (Unary loc u n) u"
        "\<lambda>x. some_value (unary_meaning u x)" "\<lambda>m. some_value (bind_res m (unary_meaning u))" ctx n]
      observe_unary [OF assms(2)] s by simp
qed

lemma agrees_binary:
  assumes l: "agrees ctx \<sigma> l t" and r: "agrees ctx \<sigma> r u"
    and b: "b \<in> {BINARY_AND, BINARY_OR} \<and> t = bool_type \<and> u = bool_type
      \<or> b \<in> {BINARY_EQUAL, BINARY_NOT_EQUAL} \<and> u = t
      \<or> b \<in> {BINARY_LESS, BINARY_LESS_EQUAL, BINARY_GREATER, BINARY_GREATER_EQUAL} \<and> u = t
        \<and> ordered (et_kind t)
      \<or> b = BINARY_IN \<and> textual (et_kind t) \<and> et_kind u = TYPE_COLLECTION
      \<or> arithmetic_operator b \<and> u = t \<and> numeric (et_kind t)"
  shows "observe (confit_v2_evaluate_node ctx (Binary loc b l r)) = meaning \<sigma> (Binary loc b l r)"
proof -
  let ?n = "Binary loc b l r"
  have right: "observe (bind_res (confit_v2_evaluate_node ctx r) (\<lambda>w. bind_res (confit_v2_evaluate_require_set ctx r w)
        (\<lambda>_. evaluate_binary_values ctx ?n b v w)))
      = some_value (bind_res (required (meaning \<sigma> r)) (binary_meaning b x))"
    if v: "present t v" "sval_of (ev_value v) = Some x" for v x
    using observe_operand [of u "confit_v2_evaluate_node ctx r" "evaluate_binary_values ctx ?n b v"
        "\<lambda>y. some_value (binary_meaning b x y)" "\<lambda>m. some_value (bind_res m (binary_meaning b x))" ctx r]
      observe_binary [OF b v(1) _ v(2)] r by (simp add: agrees_def)
  have left: "observe (bind_res (if b = BINARY_AND \<or> b = BINARY_OR then as_bool (ev_value v) else Inr 0)
        (\<lambda>first. if b = BINARY_AND \<and> first = 0 then Inr (confit_v2_evaluate_set_bool False)
          else if b = BINARY_OR \<and> first \<noteq> 0 then Inr (confit_v2_evaluate_set_bool True)
          else bind_res (confit_v2_evaluate_node ctx r) (\<lambda>w. bind_res (confit_v2_evaluate_require_set ctx r w)
            (\<lambda>_. evaluate_binary_values ctx ?n b v w))))
      = some_value (if b = BINARY_AND \<and> x = S_Bool False then Inr (S_Bool False)
          else if b = BINARY_OR \<and> x = S_Bool True then Inr (S_Bool True)
          else bind_res (required (meaning \<sigma> r)) (binary_meaning b x))"
    if v: "present t v" "sval_of (ev_value v) = Some x" for v x
  proof (cases "b = BINARY_AND \<or> b = BINARY_OR")
    case True
    with b v have "ev_value v = V_Bool 0 \<and> x = S_Bool False \<or> ev_value v = V_Bool 1 \<and> x = S_Bool True"
      by (auto simp: present_def holds_simple_bool arithmetic_operator_def)
    with True right [OF v] show ?thesis by (auto simp: as_bool_def)
  qed (use right [OF v] in simp)
  show ?thesis
    using observe_operand [of t "confit_v2_evaluate_node ctx l" _ _
        "\<lambda>m. some_value (bind_res m (\<lambda>x. if b = BINARY_AND \<and> x = S_Bool False then Inr (S_Bool False)
          else if b = BINARY_OR \<and> x = S_Bool True then Inr (S_Bool True)
          else bind_res (required (meaning \<sigma> r)) (binary_meaning b x)))" ctx l, OF _ left] l
    by (simp add: agrees_def)
qed

lemma agrees_conditional:
  assumes c: "agrees ctx \<sigma> c bool_type" and n: "agrees ctx \<sigma> n t" and m: "agrees ctx \<sigma> m t"
  shows "observe (confit_v2_evaluate_node ctx (Conditional loc c n m)) = meaning \<sigma> (Conditional loc c n m)"
proof -
  have "observe (bind_res (as_bool (ev_value v))
        (\<lambda>b. if b \<noteq> 0 then confit_v2_evaluate_node ctx n else confit_v2_evaluate_node ctx m))
      = (if x = S_Bool True then meaning \<sigma> n else meaning \<sigma> m)"
    if "present bool_type v" "sval_of (ev_value v) = Some x" for v x
    using that n m by (auto simp: present_def holds_simple_bool as_bool_def agrees_def)
  from observe_operand [of bool_type "confit_v2_evaluate_node ctx c" _ _
      "\<lambda>r. bind_res r (\<lambda>x. if x = S_Bool True then meaning \<sigma> n else meaning \<sigma> m)" ctx c, OF _ this] c
  show ?thesis by (simp add: agrees_def)
qed

lemma agreesI:
  "sound t (confit_v2_evaluate_node ctx n) \<Longrightarrow> observe (confit_v2_evaluate_node ctx n) = meaning \<sigma> n
    \<Longrightarrow> agrees ctx \<sigma> n t"
  by (simp add: agrees_def)

lemma agrees_args:
  "list_all2 (agrees ctx \<sigma>) ns ts \<Longrightarrow> list_all2 (\<lambda>n t. sound t (confit_v2_evaluate_node ctx n)
     \<and> observe (confit_v2_evaluate_node ctx n) = meaning \<sigma> n) ns ts"
  by (simp add: agrees_def [abs_def])

lemma supplies_reference:
  assumes "supplies env rt" "lookup_type env r = Some t" "confit_v2_typecheck_type_is_valid t"
    and "confit_v2_typed_expression_node_type (ec_typed ctx) n = Some t" "ec_environment ctx = rt"
  shows "observe (confit_v2_evaluate_reference ctx n r) = Inr (store_of rt r)"
proof -
  from assms(1,2) obtain b where "confit_v2_evaluate_find_binding rt r = Some b" "bind_type b = t"
    "confit_v2_evaluate_type_value_matches t (bind_value b)" by (auto simp: supplies_def)
  with assms(3-) show ?thesis
    by (simp add: confit_v2_evaluate_reference_def type_equal_iff observe_bound store_of_def)
qed

lemma supplies_defined:
  assumes "supplies env rt" "lookup_type env r = Some t" "confit_v2_typecheck_type_is_valid t"
    and "confit_v2_typed_expression_node_type (ec_typed ctx) (Reference loc r) = Some t"
    and "ec_environment ctx = rt"
  shows "observe (evaluate_defined ctx [Reference loc r]) = Inr (Some (S_Bool (store_of rt r \<noteq> None)))"
proof -
  from assms(1,2) obtain b where b: "confit_v2_evaluate_find_binding rt r = Some b" "bind_type b = t"
    by (auto simp: supplies_def)
  have v: "(\<exists>y. sval_of v = Some y) \<longleftrightarrow> v \<noteq> V_Unset" for v by (cases v) auto
  from b assms(3-) show ?thesis
    by (cases "bind_value b") (simp_all add: evaluate_defined_def array_at_def type_equal_iff store_of_def kind_unset v)
qed

lemmas call_agrees = observe_call [OF _ _ agrees_args]

inductive_cases typing_reference_cases: "typing env (Reference loc r) t"

lemma evaluate_agrees:
  assumes "typing env n t" "text_collections env" "runnable env ctx n" "supplies env rt" "ec_environment ctx = rt"
  shows "agrees ctx (store_of rt) n t"
proof -
  have obs: "typing env n t \<Longrightarrow> runnable env ctx n
      \<Longrightarrow> agrees ctx (store_of rt) n t" for n t
  proof (induction rule: typing.induct)
    case (t_literal loc l)
    then have "confit_v2_typed_expression_node_type (ec_typed ctx) (Literal loc l) = Some (literal_type l)"
      by (auto simp: runnable_def typing.t_literal)
    moreover have "sval_of (literal_value l) = Some (literal_meaning l)"
      by (cases l) (simp_all add: literal_value_def literal_meaning_def)
    ultimately show ?case
      using evaluate_sound [OF typing.t_literal assms(2) t_literal]
      by (simp add: agrees_def confit_v2_evaluate_literal_def)
  next
    case (t_reference r t loc)
    then have "typing env (Reference loc r) t" by (auto intro: typing.t_reference)
    note facts = this t_reference assms
    show ?case
      by (rule agreesI, rule evaluate_sound)
        (use facts in \<open>auto intro: supplies_reference simp: runnable_type\<close>)
  next
    case (t_not n loc)
    then have "agrees ctx (store_of rt) n bool_type" by auto
    note facts = this t_not
    show ?case
      by (rule agreesI; rule evaluate_sound [OF typing.t_not assms(2)] agrees_unary [where t = bool_type])
        (use facts in \<open>auto\<close>)
  next
    case (t_sign u n t loc)
    then have "agrees ctx (store_of rt) n t" by auto
    note facts = this t_sign
    show ?case
      by (rule agreesI; rule evaluate_sound [OF typing.t_sign assms(2)] agrees_unary [where t = t])
        (use facts in \<open>auto\<close>)
  next
    case (t_bool b l r loc)
    then have "agrees ctx (store_of rt) l bool_type" "agrees ctx (store_of rt) r bool_type" by auto
    note facts = this t_bool
    show ?case
      by (rule agreesI; rule evaluate_sound [OF typing.t_bool assms(2)] agrees_binary [where t = bool_type and u = bool_type])
        (use facts in \<open>auto\<close>)
  next
    case (t_equal b l t r loc)
    then have "agrees ctx (store_of rt) l t" "agrees ctx (store_of rt) r t" by auto
    note facts = this t_equal
    show ?case
      by (rule agreesI; rule evaluate_sound [OF typing.t_equal assms(2)] agrees_binary [where t = t and u = t])
        (use facts in \<open>auto\<close>)
  next
    case (t_order b l t r loc)
    then have "agrees ctx (store_of rt) l t" "agrees ctx (store_of rt) r t" by auto
    note facts = this t_order
    show ?case
      by (rule agreesI; rule evaluate_sound [OF typing.t_order assms(2)] agrees_binary [where t = t and u = t])
        (use facts in \<open>auto\<close>)
  next
    case (t_in l t r loc)
    then have "agrees ctx (store_of rt) l (element_type t)" "agrees ctx (store_of rt) r t" by auto
    moreover have "textual (et_kind (element_type t))" using t_in assms(2) typing_textual by blast
    moreover note t_in
    ultimately show ?case
      apply -
      apply (rule agreesI; rule evaluate_sound [OF typing.t_in assms(2)] agrees_binary [where t = "element_type t" and u = t])
      apply auto
      done
  next
    case (t_arithmetic b l t r loc)
    then have "agrees ctx (store_of rt) l t" "agrees ctx (store_of rt) r t" by auto
    note facts = this t_arithmetic
    show ?case
      by (rule agreesI; rule evaluate_sound [OF typing.t_arithmetic assms(2)] agrees_binary [where t = t and u = t])
        (use facts in \<open>auto simp: arithmetic_operator_def\<close>)
  next
    case (t_conditional c n t m loc)
    note facts = this
    show ?case
      by (rule agreesI; rule evaluate_sound [OF typing.t_conditional assms(2)] agrees_conditional [where t = t])
        (use facts in \<open>auto\<close>)
  next
    case (t_enabled f n t loc)
    then have "agrees ctx (store_of rt) n t" by (simp add: runnable_call)
    note facts = this t_enabled
    show ?case
      by (rule agreesI; rule evaluate_sound [OF typing.t_enabled assms(2)] call_agrees [where ts = "[t]" and g = Enabled])
        (use facts in \<open>auto simp: one_argument_def intro!: observe_builtin_one\<close>)
  next
    case (t_tristate f n loc)
    then have "agrees ctx (store_of rt) n (simple_type TYPE_TRISTATE)" by (simp add: runnable_call)
    moreover from t_tristate obtain g where "builtin_of f = Some g" "g \<in> {Builtin, Module}" by auto
    moreover note t_tristate
    ultimately show ?case
      apply -
      apply (rule agreesI; rule evaluate_sound [OF typing.t_tristate assms(2)] call_agrees [where ts = "[simple_type TYPE_TRISTATE]" and g = g])
      apply (auto simp: one_argument_def intro!: observe_builtin_one)
      done
  next
    case (t_defined f loc' r t loc)
    then have ty: "confit_v2_typed_expression_node_type (ec_typed ctx) (Reference loc' r) = Some t"
      by (blast intro: runnable_type runnable_call list.set_intros)
    from t_defined(2) have "lookup_type env r = Some t" "confit_v2_typecheck_type_is_valid t"
      by (auto elim: typing_reference_cases)
    note facts = this ty t_defined assms
    show ?case
      by (rule agreesI, rule evaluate_sound [OF typing.t_defined assms(2)])
        (use facts in \<open>auto simp: supplies_defined\<close>)
  next
    case (t_len f n t loc)
    then have "agrees ctx (store_of rt) n t" by (simp add: runnable_call)
    note facts = this t_len
    show ?case
      by (rule agreesI; rule evaluate_sound [OF typing.t_len assms(2)] call_agrees [where ts = "[t]" and g = Len])
        (use facts in \<open>auto simp: one_argument_def intro!: observe_builtin_one\<close>)
  next
    case (t_contains f n t m loc)
    then have "agrees ctx (store_of rt) n t" "agrees ctx (store_of rt) m (element_type t)"
      by (simp_all add: runnable_call)
    moreover have "textual (et_kind (element_type t))" using t_contains assms(2) typing_textual by blast
    moreover note t_contains
    ultimately show ?case
      apply -
      apply (rule agreesI; rule evaluate_sound [OF typing.t_contains assms(2)] call_agrees [where ts = "[t, element_type t]" and g = Contains])
      apply (auto intro!: observe_builtin_two)
      done
  next
    case (t_affix f n m loc)
    then have "agrees ctx (store_of rt) n string_type" "agrees ctx (store_of rt) m string_type"
      by (simp_all add: runnable_call)
    moreover from t_affix obtain g where "builtin_of f = Some g" "g \<in> {Starts_With, Ends_With}" by auto
    moreover note t_affix
    ultimately show ?case
      apply -
      apply (rule agreesI; rule evaluate_sound [OF typing.t_affix assms(2)] call_agrees [where ts = "[string_type, string_type]" and g = g])
      apply (auto intro!: observe_builtin_two)
      done
  next
    case (t_concat f ns loc)
    then have "\<forall>n \<in> set ns. agrees ctx (store_of rt) n string_type" by (simp add: runnable_call)
    then have "list_all2 (agrees ctx (store_of rt)) ns (map (\<lambda>_. string_type) ns)"
      by (simp add: list_all2_conv_all_nth)
    note facts = this t_concat
    show ?case
      by (rule agreesI; rule evaluate_sound [OF typing.t_concat assms(2)] call_agrees [where ts = "map (\<lambda>_. string_type) ns" and g = Concat])
        (use facts in \<open>auto intro!: observe_builtin_concat\<close>)
  next
    case (t_enum_name f n t loc)
    then have "agrees ctx (store_of rt) n t" by (simp add: runnable_call)
    note facts = this t_enum_name
    show ?case
      by (rule agreesI; rule evaluate_sound [OF typing.t_enum_name assms(2)] call_agrees [where ts = "[t]" and g = Enum_Name])
        (use facts in \<open>auto simp: one_argument_def intro!: observe_builtin_one\<close>)
  next
    case (t_list ns t loc)
    have t: "typing env (List_Node loc ns) (collection_of t)" using t_list by (auto intro: typing.t_list)
    have ty: "confit_v2_typed_expression_node_type (ec_typed ctx) (List_Node loc ns) = Some (collection_of t)"
      using t t_list.prems by (simp add: runnable_type)
    have "\<forall>n \<in> set ns. agrees ctx (store_of rt) n t" using t_list by (simp add: runnable_list)
    moreover have "textual (et_kind t)" using t_list.hyps by (auto simp: textual_def)
    ultimately show ?case
      using observe_items [of t ns ctx "store_of rt"] ty evaluate_sound [OF t assms(2) t_list.prems]
      by (cases "evaluate_items ctx ns"; cases "meanings (store_of rt) ns")
        (auto simp: agrees_def collection_of_def observe_def set_value_def split: fault.splits)
  qed
  show ?thesis by (rule obs) fact+
qed

lemma evaluation_meaning:
  assumes "confit_v2_expression_type_check x env = Inr typed"
    and "distinct (map node_addr (post_nodes (expression_root x)))"
    and "\<And>loc l. Literal loc l \<in> set (subnodes (expression_root x)) \<Longrightarrow> literal_ok l"
    and "text_collections env" and "supplies env rt"
  shows "observe (confit_v2_expression_evaluate typed rt) = meaning (store_of rt) (expression_root x)"
proof -
  let ?ctx = "\<lparr>ec_typed = typed, ec_environment = rt\<rparr>"
  have "agrees ?ctx (store_of rt) (expression_root x) (typed_root_type typed)"
    using type_check_typing [OF assms(1)] type_check_runnable [OF assms(1-3)] assms(4,5)
    by (intro evaluate_agrees) auto
  then show ?thesis
    using typed_nodes_not_empty [OF assms(1)] type_check_typing [OF assms(1)]
    by (simp add: agrees_def confit_v2_expression_evaluate_def)
qed

section \<open>Properties\<close>

text \<open>C6. The evaluator implements the reference semantics: on a checked expression, in a runtime
  environment that supplies every reference a value of its type, the value, the unset state or
  the error message it yields is the one of \<open>meaning\<close> over exact integers and untagged values.\<close>

theorem evaluator_refines_meaning:
  assumes "confit_v2_expression_type_check x env = Inr typed"
    and "distinct (map node_addr (post_nodes (expression_root x)))"
    and "\<And>loc l. Literal loc l \<in> set (subnodes (expression_root x)) \<Longrightarrow> literal_ok l"
    and "text_collections env" and "supplies env rt"
  shows "observe (confit_v2_expression_evaluate typed rt) = meaning (store_of rt) (expression_root x)"
  by (rule evaluation_meaning) (fact assms)+

lemma evaluator_refines_meaning_witness:
  "observe (confit_v2_expression_evaluate sample_typed (sample_environment (Some (V_Int 40))))
     = Inr (Some (S_Int 42))"
proof -
  let ?rt = "sample_environment (Some (V_Int 40))"
  have "text_collections (sample_environment None)"
    by (simp add: text_collections_def sample_environment_def)
  moreover have "\<And>loc l. Literal loc l \<in> set (subnodes (expression_root sample_sum)) \<Longrightarrow> literal_ok l"
    by (auto simp: sample_sum_def literal_ok_def)
  moreover have "distinct (map node_addr (post_nodes (expression_root sample_sum)))"
    by (simp add: sample_sum_def)
  moreover have "supplies (sample_environment None) ?rt"
    by (simp add: supplies_def lookup_type_def sample_environment_def confit_v2_evaluate_find_binding_def
        confit_v2_evaluate_type_value_matches_def spec_simps)
  ultimately have "observe (confit_v2_expression_evaluate sample_typed ?rt)
      = meaning (store_of ?rt) (expression_root sample_sum)"
    using evaluator_refines_meaning [OF sample_type_check [of None], of ?rt] by blast
  also have "\<dots> = Inr (Some (S_Int 42))"
    by (simp add: sample_sum_def store_of_def sample_environment_def confit_v2_evaluate_find_binding_def
        binary_meaning_def exact_int_def in_int_def literal_meaning_def spec_simps)
  finally show ?thesis .
qed

end
