(* ===== verification/Sorted_Search.thy ===== *)
theory Sorted_Search
  imports Prelude
begin

text \<open>
  The two searches the resolver uses over arrays sorted with \<open>qsort\<close>: the binary search that
  stops at an equal key (\<open>confit_v2_link_find_symbol\<close>) and the search for the lower bound
  (\<open>confit_v2_linked_project_find_expression\<close>, \<open>confit_v2_assignment_ledger_requested\<close>).
  \<open>qsort_by\<close> is the library function \<open>qsort\<close>; elements that compare equal, whose order C leaves
  open, keep their order, as in the merge sort of the GNU library.
  The locale \<open>keyed_store\<close> states what the clients of such a lookup rely on.
\<close>

section \<open>Sorting\<close>

fun insert_by :: "('a \<Rightarrow> 'a \<Rightarrow> int) \<Rightarrow> 'a \<Rightarrow> 'a list \<Rightarrow> 'a list" where
  "insert_by cmp x [] = [x]"
| "insert_by cmp x (y # ys) = (if cmp x y \<le> 0 then x # y # ys else y # insert_by cmp x ys)"

definition qsort_by :: "('a \<Rightarrow> 'a \<Rightarrow> int) \<Rightarrow> 'a list \<Rightarrow> 'a list" where
  "qsort_by cmp xs = foldr (insert_by cmp) xs []"

lemma set_insert_by [simp]: "set (insert_by cmp x ys) = insert x (set ys)"
  by (induction ys) auto

lemma length_insert_by [simp]: "length (insert_by cmp x ys) = Suc (length ys)"
  by (induction ys) auto

lemma count_insert_by: "filter P (insert_by cmp x ys) = filter P ys" if "\<not> P x"
  using that by (induction ys) auto

lemma set_qsort_by [simp]: "set (qsort_by cmp xs) = set xs"
  by (induction xs) (simp_all add: qsort_by_def)

lemma length_qsort_by [simp]: "length (qsort_by cmp xs) = length xs"
  by (induction xs) (simp_all add: qsort_by_def)

lemma distinct_insert_by: "distinct (map f (insert_by cmp x ys)) \<longleftrightarrow> distinct (map f (x # ys))"
  by (induction ys) auto

lemma distinct_qsort_by [simp]: "distinct (map f (qsort_by cmp xs)) \<longleftrightarrow> distinct (map f xs)"
proof (induction xs)
  case (Cons x xs)
  have "qsort_by cmp (x # xs) = insert_by cmp x (qsort_by cmp xs)" by (simp add: qsort_by_def)
  with Cons show ?case by (simp add: distinct_insert_by)
qed (simp add: qsort_by_def)

text \<open>A comparison function that is the order of a linearly ordered key.\<close>

definition compares :: "('a \<Rightarrow> 'k :: linorder) \<Rightarrow> ('a \<Rightarrow> 'a \<Rightarrow> int) \<Rightarrow> bool" where
  "compares key cmp \<longleftrightarrow> (\<forall>x y. (cmp x y \<le> 0 \<longleftrightarrow> key x \<le> key y))"

lemma sorted_insert_by:
  "compares key cmp \<Longrightarrow> sorted (map key ys) \<Longrightarrow> sorted (map key (insert_by cmp x ys))"
  by (induction ys) (auto simp: compares_def)

lemma sorted_qsort_by: "compares key cmp \<Longrightarrow> sorted (map key (qsort_by cmp xs))"
  by (induction xs) (simp_all add: qsort_by_def sorted_insert_by)

lemma insert_by_insort: "compares key cmp \<Longrightarrow> insert_by cmp x ys = insort_key key x ys"
  by (induction ys) (auto simp: compares_def)

lemma qsort_by_sort_key: "compares key cmp \<Longrightarrow> qsort_by cmp xs = sort_key key xs"
  by (induction xs) (simp_all add: qsort_by_def insert_by_insort)

lemma compares_strcmp: "compares key (\<lambda>x y. strcmp (key x) (key y))"
  by (simp add: compares_def strcmp_le)

section \<open>Binary search\<close>

text \<open>\<open>compare m\<close> is the comparison of the wanted key with the key at index \<open>m\<close>.\<close>

function binary_find :: "(nat \<Rightarrow> int) \<Rightarrow> nat \<Rightarrow> nat \<Rightarrow> nat option" where
  "binary_find compare low high =
     (if low < high then
        let middle = low + (high - low) div 2; comparison = compare middle
        in if comparison = 0 then Some middle
           else if comparison < 0 then binary_find compare low middle
           else binary_find compare (middle + 1) high
      else None)"
  by pat_completeness auto
termination by (relation "measure (\<lambda>(compare, low, high). high - low)") auto

declare binary_find.simps [simp del]

lemma binary_find_step:
  "low < high \<Longrightarrow> binary_find compare low high =
     (let middle = low + (high - low) div 2
      in if compare middle = 0 then Some middle
         else if compare middle < 0 then binary_find compare low middle
         else binary_find compare (middle + 1) high)"
  "\<not> low < high \<Longrightarrow> binary_find compare low high = None"
  by (subst binary_find.simps; simp add: Let_def)+

lemma binary_find_Some:
  "binary_find compare low high = Some m \<Longrightarrow> low \<le> m \<and> m < high \<and> compare m = 0"
proof (induction "high - low" arbitrary: low high rule: less_induct)
  case less
  define mid where "mid = low + (high - low) div 2"
  have lt: "low < high" using less.prems binary_find_step(2) by (cases "low < high") simp_all
  then have mid: "low \<le> mid" "mid < high" by (auto simp: mid_def)
  have smaller: "mid - low < high - low" "high - (mid + 1) < high - low" using mid by auto
  note step = binary_find_step(1) [OF lt, of compare, folded mid_def, unfolded Let_def]
  consider "compare mid = 0" | "compare mid < 0" | "compare mid > 0" by linarith
  then show ?case
  proof cases
    case 1
    then show ?thesis using less.prems mid step by simp
  next
    case 2
    then have "binary_find compare low mid = Some m" using less.prems step by simp
    from less.hyps [OF smaller(1) this] show ?thesis using mid by simp
  next
    case 3
    then have "binary_find compare (mid + 1) high = Some m" using less.prems step by simp
    from less.hyps [OF smaller(2) this] show ?thesis using mid by simp
  qed
qed

text \<open>The keys ascend strictly, and the comparisons are those of \<open>wanted\<close> with them.\<close>

lemma binary_find_None:
  fixes key :: "nat \<Rightarrow> 'k :: linorder"
  assumes cmp: "\<And>m. compare m < 0 \<longleftrightarrow> wanted < key m" "\<And>m. compare m = 0 \<longleftrightarrow> wanted = key m"
  shows "binary_find compare low high = None \<Longrightarrow>
    (\<And>i j. low \<le> i \<Longrightarrow> i < j \<Longrightarrow> j < high \<Longrightarrow> key i < key j) \<Longrightarrow> low \<le> m \<Longrightarrow> m < high \<Longrightarrow> key m \<noteq> wanted"
proof (induction "high - low" arbitrary: low high rule: less_induct)
  case less
  let ?mid = "low + (high - low) div 2"
  note asc = less.prems(2)
  have lt: "low < high" using less.prems by simp
  then have mid: "low \<le> ?mid" "?mid < high" by auto
  consider "compare ?mid = 0" | "wanted < key ?mid" | "key ?mid < wanted" using cmp by fastforce
  then show ?case
  proof cases
    case 1
    then show ?thesis using less.prems(1) lt by (simp add: binary_find_step Let_def)
  next
    case 2
    then have n: "binary_find compare low ?mid = None"
      using less.prems(1) lt cmp by (simp add: binary_find_step Let_def split: if_splits)
    show ?thesis
    proof (cases "m < ?mid")
      case True
      show ?thesis by (rule less.hyps [OF _ n]) (use asc mid less.prems(3) True in auto)
    next
      case False
      then have "m = ?mid \<or> key ?mid < key m" using asc [of ?mid m] mid less.prems(4) by linarith
      then show ?thesis using 2 by auto
    qed
  next
    case 3
    then have "compare ?mid \<noteq> 0" "\<not> compare ?mid < 0" using cmp by auto
    then have n: "binary_find compare (?mid + 1) high = None"
      using less.prems(1) lt by (simp add: binary_find_step Let_def)
    show ?thesis
    proof (cases "?mid < m")
      case True
      show ?thesis by (rule less.hyps [OF _ n]) (use asc mid less.prems(4) True in auto)
    next
      case False
      then have "m = ?mid \<or> key m < key ?mid" using asc [of m ?mid] mid less.prems(3) by linarith
      then show ?thesis using 3 by auto
    qed
  qed
qed

text \<open>Over an array with strictly ascending keys the search is the lookup by key.\<close>

lemma find_unique:
  "distinct (map key xs) \<Longrightarrow> i < length xs \<Longrightarrow> find (\<lambda>x. key x = key (xs ! i)) xs = Some (xs ! i)"
proof (induction xs arbitrary: i)
  case (Cons x xs)
  show ?case
  proof (cases i)
    case (Suc j)
    with Cons.prems have "key (xs ! j) \<in> key ` set xs" by simp
    with Cons.prems have "key x \<noteq> key (xs ! j)" by auto
    with Suc Cons show ?thesis by simp
  qed simp
qed simp

lemma binary_find_lookup:
  assumes "sorted_wrt (<) (map key xs)"
  shows "map_option (\<lambda>m. xs ! m) (binary_find (\<lambda>m. strcmp wanted (key (xs ! m))) 0 (length xs))
    = find (\<lambda>x. key x = wanted) xs"
proof -
  let ?c = "\<lambda>m. strcmp wanted (key (xs ! m))"
  have asc: "key (xs ! i) < key (xs ! j)" if "i < j" "j < length xs" for i j
    using assms that by (simp add: sorted_wrt_iff_nth_less)
  have d: "distinct (map key xs)" using assms strict_sorted_iff by blast
  show ?thesis
  proof (cases "binary_find ?c 0 (length xs)")
    case (Some m)
    then have "m < length xs" "wanted = key (xs ! m)"
      using binary_find_Some [of ?c 0 "length xs" m] by (auto simp: strcmp_eq)
    with Some find_unique [OF d] show ?thesis by simp
  next
    case None
    have "key (xs ! m) \<noteq> wanted" if "m < length xs" for m
      by (rule binary_find_None [OF _ _ None]) (use asc that in \<open>auto simp: strcmp_less strcmp_eq\<close>)
    then have "find (\<lambda>x. key x = wanted) xs = None" by (auto simp: find_None_iff in_set_conv_nth)
    with None show ?thesis by simp
  qed
qed

section \<open>Lower bound\<close>

text \<open>\<open>before m\<close>: the entry at index \<open>m\<close> is before the wanted one.\<close>

function lower_bound :: "(nat \<Rightarrow> bool) \<Rightarrow> nat \<Rightarrow> nat \<Rightarrow> nat" where
  "lower_bound before low high =
     (if low < high then
        let middle = low + (high - low) div 2
        in if before middle then lower_bound before (middle + 1) high
           else lower_bound before low middle
      else low)"
  by pat_completeness auto
termination by (relation "measure (\<lambda>(before, low, high). high - low)") auto

declare lower_bound.simps [simp del]

lemma lower_bound_spec:
  "low \<le> high \<Longrightarrow> (\<And>i j. low \<le> i \<Longrightarrow> i \<le> j \<Longrightarrow> j < high \<Longrightarrow> before j \<Longrightarrow> before i) \<Longrightarrow>
     low \<le> lower_bound before low high \<and> lower_bound before low high \<le> high
     \<and> (\<forall>i. low \<le> i \<longrightarrow> i < high \<longrightarrow> (before i \<longleftrightarrow> i < lower_bound before low high))"
proof (induction "high - low" arbitrary: low high rule: less_induct)
  case less
  define mid where "mid = low + (high - low) div 2"
  note step = lower_bound.simps [of before low high, folded mid_def, unfolded Let_def]
  show ?case
  proof (cases "low < high")
    case False
    with less.prems(1) step show ?thesis by simp
  next
    case lt: True
    then have mid: "low \<le> mid" "mid < high" by (auto simp: mid_def)
    note mono = less.prems(2)
    show ?thesis
    proof (cases "before mid")
      case True
      define r where "r = lower_bound before (mid + 1) high"
      have e: "lower_bound before low high = r" using lt True step by (simp add: r_def)
      have r: "mid + 1 \<le> r \<and> r \<le> high
         \<and> (\<forall>i. mid + 1 \<le> i \<longrightarrow> i < high \<longrightarrow> (before i \<longleftrightarrow> i < r))"
        unfolding r_def by (rule less.hyps) (use mono mid in auto)
      have "before i \<longleftrightarrow> i < r" if "low \<le> i" "i < high" for i
      proof (cases "i \<le> mid")
        case True
        then show ?thesis using mono [of i mid] \<open>before mid\<close> that mid r by auto
      next
        case False
        then show ?thesis using r that by simp
      qed
      with r mid show ?thesis unfolding e by auto
    next
      case False
      define r where "r = lower_bound before low mid"
      have e: "lower_bound before low high = r" using lt False step by (simp add: r_def)
      have r: "low \<le> r \<and> r \<le> mid \<and> (\<forall>i. low \<le> i \<longrightarrow> i < mid \<longrightarrow> (before i \<longleftrightarrow> i < r))"
        unfolding r_def by (rule less.hyps) (use mono mid in auto)
      have "before i \<longleftrightarrow> i < r" if "low \<le> i" "i < high" for i
      proof (cases "i < mid")
        case True
        then show ?thesis using r that by simp
      next
        case ge: False
        then have "\<not> before i" using mono [of mid i] False that mid by auto
        with ge r show ?thesis by auto
      qed
      with r mid show ?thesis unfolding e by auto
    qed
  qed
qed

section \<open>Lookup by key\<close>

text \<open>
  What the clients of a lookup rely on: in a handle that its producer has checked, the keys of
  the stored items are distinct and the lookup returns the item with the wanted key.
\<close>

locale keyed_store =
  fixes checked :: "'h \<Rightarrow> bool"
    and items :: "'h \<Rightarrow> 'a list"
    and key :: "'a \<Rightarrow> string"
    and lookup :: "'h \<Rightarrow> string \<Rightarrow> 'a option"
  assumes distinct_keys: "checked h \<Longrightarrow> distinct (map key (items h))"
    and lookup_find: "checked h \<Longrightarrow> lookup h k = find (\<lambda>x. key x = k) (items h)"
begin

lemma lookup_Some: "checked h \<Longrightarrow> lookup h k = Some x \<longleftrightarrow> x \<in> set (items h) \<and> key x = k"
  using distinct_keys [of h] find_unique [of key "items h"]
  by (auto simp: lookup_find find_Some_iff in_set_conv_nth)

lemma lookup_None: "checked h \<Longrightarrow> lookup h k = None \<longleftrightarrow> k \<notin> key ` set (items h)"
  by (auto simp: lookup_find find_None_iff)

lemma lookup_key: "checked h \<Longrightarrow> x \<in> set (items h) \<Longrightarrow> lookup h (key x) = Some x"
  by (simp add: lookup_Some)

lemma lookup_inject: "checked h \<Longrightarrow> lookup h k = Some x \<Longrightarrow> lookup h l = Some x \<Longrightarrow> k = l"
  by (simp add: lookup_Some)

end

end
