(* ===== verification/Linker.thy ===== *)
theory Linker
  imports Parser Typecheck Sorted_Search
begin

text \<open>
  The linker, \<open>src/schema/v2/linker.c\<close>: it sorts the symbols of a project by id, checks
  namespace, uniqueness and type of each, then parses and checks every expression of the
  project against the bindings of all symbols, resolves the references of each, and sorts an
  index of the expressions by role and owner. A linked project holds values where the C
  structure holds pointers; the growth of the arrays and the failure of an allocation are not
  modelled. The error is that of the parser, so that \<open>Out_Of_Fuel\<close> stays visible; theory
  \<open>Linker_Correct\<close> shows that it does not occur.
\<close>

section \<open>Linked projects\<close>

datatype linked_role =
  ROLE_COMPUTED | ROLE_AVAILABLE_IF | ROLE_VISIBLE_IF | ROLE_DEFAULT_WHEN | ROLE_SUGGESTION_WHEN
| ROLE_MENU_VISIBLE_IF | ROLE_CHOICE_AVAILABLE_IF | ROLE_CHOICE_VISIBLE_IF
| ROLE_CHOICE_DEFAULT_WHEN | ROLE_CONSTRAINT_WHEN | ROLE_CONSTRAINT_REQUIRE

text \<open>The value of the enumerator, by which roles are ordered.\<close>

fun role_number :: "linked_role \<Rightarrow> nat" where
  "role_number ROLE_COMPUTED = 1"
| "role_number ROLE_AVAILABLE_IF = 2"
| "role_number ROLE_VISIBLE_IF = 3"
| "role_number ROLE_DEFAULT_WHEN = 4"
| "role_number ROLE_SUGGESTION_WHEN = 5"
| "role_number ROLE_MENU_VISIBLE_IF = 6"
| "role_number ROLE_CHOICE_AVAILABLE_IF = 7"
| "role_number ROLE_CHOICE_VISIBLE_IF = 8"
| "role_number ROLE_CHOICE_DEFAULT_WHEN = 9"
| "role_number ROLE_CONSTRAINT_WHEN = 10"
| "role_number ROLE_CONSTRAINT_REQUIRE = 11"

lemma role_number_inject: "role_number r = role_number q \<longleftrightarrow> r = q"
  by (cases r; cases q) simp_all

instantiation linked_role :: linorder
begin

definition less_eq_linked_role :: "linked_role \<Rightarrow> linked_role \<Rightarrow> bool" where
  "r \<le> q \<longleftrightarrow> role_number r \<le> role_number q"

definition less_linked_role :: "linked_role \<Rightarrow> linked_role \<Rightarrow> bool" where
  "r < q \<longleftrightarrow> role_number r < role_number q"

instance
  by standard (auto simp: less_eq_linked_role_def less_linked_role_def role_number_inject)

end

record linked_reference =
  lref_node :: expr_node
  lref_symbol :: v2_symbol

record linked_expression =
  lx_role :: linked_role
  lx_owner_id :: string
  lx_expression :: expression
  lx_typed :: typed_expression
  lx_references :: "linked_reference list"
  lx_source_order :: nat

record linked_project =
  lp_project :: v2_project
  lp_symbols :: "v2_symbol list"
  lp_bindings :: environment
  lp_expressions :: "linked_expression list"
  lp_expression_index :: "linked_expression list"

datatype assignment_writer =
  WRITER_SCHEMA | WRITER_PROFILE | WRITER_TARGET | WRITER_USER | WRITER_COMPUTED

record write_request =
  wr_option_id :: string
  wr_writer :: assignment_writer
  wr_is_unset :: bool
  wr_span :: source_span

section \<open>Diagnostics\<close>

definition confit_v2_link_diagnostic :: "expression \<Rightarrow> expr_node \<Rightarrow> status \<Rightarrow> string \<Rightarrow> diagnostic" where
  "confit_v2_link_diagnostic expression node st message =
     (let span = expression_span expression;
          (line, column) = advance_position (take (node_start node) (expression_source expression))
                             (span_line span, span_column span)
      in confit_diagnostic_set st (span_path span) line column message)"

definition confit_v2_link_source_diagnostic :: "source_span \<Rightarrow> status \<Rightarrow> string \<Rightarrow> diagnostic" where
  "confit_v2_link_source_diagnostic span st message =
     confit_diagnostic_set st (span_path span) (span_line span) (span_column span) message"

definition kInvalidLinkArgument :: string where
  "kInvalidLinkArgument = ''invalid schema v2 linker argument''"
definition kInvalidLinkedNamespace :: string where
  "kInvalidLinkedNamespace = ''linked schema v2 symbol is outside project namespace''"

section \<open>Orders\<close>

definition confit_v2_link_symbol_compare :: "v2_symbol \<Rightarrow> v2_symbol \<Rightarrow> int" where
  "confit_v2_link_symbol_compare left right = strcmp (sym_id left) (sym_id right)"

definition confit_v2_link_expression_compare :: "linked_expression \<Rightarrow> linked_expression \<Rightarrow> int" where
  "confit_v2_link_expression_compare left right =
     (if lx_role left \<noteq> lx_role right then (if lx_role left < lx_role right then -1 else 1)
      else
        let comparison = strcmp (lx_owner_id left) (lx_owner_id right)
        in if comparison \<noteq> 0 then comparison
           else if lx_source_order left = lx_source_order right then 0
           else if lx_source_order left < lx_source_order right then -1 else 1)"

definition confit_v2_link_symbol_is_owned_by_namespace :: "string \<Rightarrow> v2_symbol \<Rightarrow> bool" where
  "confit_v2_link_symbol_is_owned_by_namespace namespace_name symbol \<longleftrightarrow>
     take (length namespace_name) (sym_id symbol) = namespace_name
     \<and> char_at (sym_id symbol) (length namespace_name) = CHR ''.''"

definition confit_v2_link_find_symbol :: "v2_symbol list \<Rightarrow> string \<Rightarrow> v2_symbol option" where
  "confit_v2_link_find_symbol symbols name =
     map_option (\<lambda>m. symbols ! m)
       (binary_find (\<lambda>m. strcmp name (sym_id (symbols ! m))) 0 (length symbols))"

section \<open>Expressions\<close>

text \<open>\<open>append_reference\<close> extends the list; \<open>link_collect_all\<close> is the loop over arguments and items.\<close>

fun confit_v2_link_collect_references ::
    "v2_symbol list \<Rightarrow> expression \<Rightarrow> string option \<Rightarrow> expr_node \<Rightarrow> linked_reference list
     \<Rightarrow> parse_stop + linked_reference list"
  and link_collect_all ::
    "v2_symbol list \<Rightarrow> expression \<Rightarrow> string option \<Rightarrow> expr_node list \<Rightarrow> linked_reference list
     \<Rightarrow> parse_stop + linked_reference list" where
  "confit_v2_link_collect_references symbols x self_id (Reference loc r) references =
     (case confit_v2_link_find_symbol symbols r of
        None \<Rightarrow> Inl (Stop (confit_v2_link_diagnostic x (Reference loc r) CONFIT_ERR_SCHEMA
                           ''linked expression reference is missing canonical symbol''))
      | Some symbol \<Rightarrow>
          if self_id \<noteq> None \<and> strcmp (the self_id) (sym_id symbol) = 0
          then Inl (Stop (confit_v2_link_diagnostic x (Reference loc r) CONFIT_ERR_SCHEMA
                           ''self reference in schema v2 expression''))
          else Inr (references @ [\<lparr>lref_node = Reference loc r, lref_symbol = symbol\<rparr>]))"
| "confit_v2_link_collect_references symbols x self_id (Literal loc l) references = Inr references"
| "confit_v2_link_collect_references symbols x self_id (Unary loc u n) references =
     confit_v2_link_collect_references symbols x self_id n references"
| "confit_v2_link_collect_references symbols x self_id (Binary loc b l r) references =
     bind_res (confit_v2_link_collect_references symbols x self_id l references)
       (confit_v2_link_collect_references symbols x self_id r)"
| "confit_v2_link_collect_references symbols x self_id (Conditional loc c t f) references =
     bind_res (confit_v2_link_collect_references symbols x self_id c references) (\<lambda>references.
     bind_res (confit_v2_link_collect_references symbols x self_id t references)
       (confit_v2_link_collect_references symbols x self_id f))"
| "confit_v2_link_collect_references symbols x self_id (Call loc name arguments) references =
     link_collect_all symbols x self_id arguments references"
| "confit_v2_link_collect_references symbols x self_id (List_Node loc items) references =
     link_collect_all symbols x self_id items references"
| "link_collect_all symbols x self_id [] references = Inr references"
| "link_collect_all symbols x self_id (n # ns) references =
     bind_res (confit_v2_link_collect_references symbols x self_id n references)
       (link_collect_all symbols x self_id ns)"

definition lift_diagnostic :: "diagnostic + 'a \<Rightarrow> parse_stop + 'a" where
  "lift_diagnostic r = (case r of Inl d \<Rightarrow> Inl (Stop d) | Inr x \<Rightarrow> Inr x)"

definition confit_v2_link_append_expression ::
  "linked_role \<Rightarrow> string \<Rightarrow> string option \<Rightarrow> expression_text \<Rightarrow> etype \<Rightarrow> linked_project
   \<Rightarrow> parse_stop + linked_project" where
  "confit_v2_link_append_expression role owner_id self_id source expected_type linked =
     (if expr_text source = None then Inr linked
      else
        bind_res (confit_v2_expression_parse source None) (\<lambda>parsed.
        bind_res (lift_diagnostic (confit_v2_expression_type_check parsed (lp_bindings linked))) (\<lambda>typed.
          if \<not> confit_v2_expression_type_equal (typed_root_type typed) expected_type
          then Inl (Stop (confit_v2_link_diagnostic parsed (expression_root parsed) CONFIT_ERR_SCHEMA
                            ''linked expression result type does not match declaration''))
          else
            bind_res (confit_v2_link_collect_references (lp_symbols linked) parsed self_id
                        (expression_root parsed) []) (\<lambda>references.
              Inr (linked\<lparr>lp_expressions := lp_expressions linked @
                [\<lparr>lx_role = role, lx_owner_id = owner_id, lx_expression = parsed, lx_typed = typed,
                  lx_references = references,
                  lx_source_order = length (lp_expressions linked)\<rparr>]\<rparr>)))))"

definition confit_v2_link_bool_type :: etype where
  "confit_v2_link_bool_type = simple_type TYPE_BOOL"

definition confit_v2_link_symbol_expressions :: "v2_symbol \<Rightarrow> linked_project \<Rightarrow> parse_stop + linked_project" where
  "confit_v2_link_symbol_expressions symbol linked =
     (let name = sym_id symbol;
          value_type = confit_v2_expression_type_from_option_type (sym_type symbol) (Some name);
          append = (\<lambda>role source t. confit_v2_link_append_expression role name (Some name) source t)
      in bind_res (append ROLE_COMPUTED (sym_computed symbol) value_type linked) (\<lambda>linked.
         bind_res (append ROLE_AVAILABLE_IF (sym_available_if symbol) confit_v2_link_bool_type linked) (\<lambda>linked.
         bind_res (append ROLE_VISIBLE_IF (sym_visible_if symbol) confit_v2_link_bool_type linked) (\<lambda>linked.
         bind_res (fold_res (\<lambda>d. append ROLE_DEFAULT_WHEN (cond_when d) confit_v2_link_bool_type)
                     (sym_defaults symbol) linked) (\<lambda>linked.
           fold_res (\<lambda>s. append ROLE_SUGGESTION_WHEN (sugg_when s) confit_v2_link_bool_type)
             (sym_suggestions symbol) linked)))))"

definition link_choice_expressions :: "v2_choice \<Rightarrow> linked_project \<Rightarrow> parse_stop + linked_project" where
  "link_choice_expressions choice linked =
     (let append = (\<lambda>role source. confit_v2_link_append_expression role (choice_id choice) None source
                      confit_v2_link_bool_type)
      in bind_res (append ROLE_CHOICE_AVAILABLE_IF (choice_available_if choice) linked) (\<lambda>linked.
         bind_res (append ROLE_CHOICE_VISIBLE_IF (choice_visible_if choice) linked) (\<lambda>linked.
           fold_res (\<lambda>d. append ROLE_CHOICE_DEFAULT_WHEN (chd_when d)) (choice_defaults choice) linked)))"

definition link_constraint_expressions :: "v2_constraint \<Rightarrow> linked_project \<Rightarrow> parse_stop + linked_project" where
  "link_constraint_expressions constraint linked =
     (let append = (\<lambda>role source. confit_v2_link_append_expression role (constraint_id constraint) None source
                      confit_v2_link_bool_type)
      in bind_res (append ROLE_CONSTRAINT_WHEN (constraint_when constraint) linked)
           (append ROLE_CONSTRAINT_REQUIRE (constraint_require constraint)))"

definition confit_v2_link_non_symbol_expressions :: "linked_project \<Rightarrow> parse_stop + linked_project" where
  "confit_v2_link_non_symbol_expressions linked =
     (let project = lp_project linked
      in bind_res (fold_res (\<lambda>menu. confit_v2_link_append_expression ROLE_MENU_VISIBLE_IF (menu_id menu) None
                               (menu_visible_if menu) confit_v2_link_bool_type)
                     (project_menus project) linked) (\<lambda>linked.
         bind_res (fold_res link_choice_expressions (project_choices project) linked)
           (fold_res link_constraint_expressions (project_constraints project))))"

definition confit_v2_link_build_expression_index :: "linked_project \<Rightarrow> linked_project" where
  "confit_v2_link_build_expression_index linked =
     linked\<lparr>lp_expression_index := qsort_by confit_v2_link_expression_compare (lp_expressions linked)\<rparr>"

section \<open>Linking a project\<close>

text \<open>The loop over the sorted symbols; \<open>previous\<close> is the symbol at the index before.\<close>

fun link_bindings ::
  "string \<Rightarrow> v2_symbol option \<Rightarrow> v2_symbol list \<Rightarrow> parse_stop + environment" where
  "link_bindings namespace_name previous [] = Inr []"
| "link_bindings namespace_name previous (symbol # symbols) =
     (if \<not> confit_v2_link_symbol_is_owned_by_namespace namespace_name symbol
      then Inl (Stop (confit_v2_link_source_diagnostic (sym_span symbol) CONFIT_ERR_SCHEMA kInvalidLinkedNamespace))
      else if previous \<noteq> None \<and> strcmp (sym_id (the previous)) (sym_id symbol) = 0
      then Inl (Stop (confit_v2_link_source_diagnostic (sym_span symbol) CONFIT_ERR_SCHEMA
                        ''duplicate canonical schema v2 symbol''))
      else
        let t = confit_v2_expression_type_from_option_type (sym_type symbol) (Some (sym_id symbol))
        in if et_kind t = TYPE_INVALID
           then Inl (Stop (confit_v2_link_source_diagnostic (sym_span symbol) CONFIT_ERR_SCHEMA kInvalidLinkedNamespace))
           else bind_res (link_bindings namespace_name (Some symbol) symbols) (\<lambda>bindings.
                  Inr (\<lparr>bind_id = sym_id symbol, bind_type = t, bind_value = None\<rparr> # bindings)))"

definition confit_v2_schema_link_project :: "v2_project \<Rightarrow> parse_stop + linked_project" where
  "confit_v2_schema_link_project project =
     (case project_namespace project of
        None \<Rightarrow> Inl (Stop (confit_diagnostic_set CONFIT_ERR_INVALID_ARGUMENT (project_config_root project) 0 0
                        kInvalidLinkArgument))
      | Some namespace_name \<Rightarrow>
          if char_at namespace_name 0 = NUL
          then Inl (Stop (confit_diagnostic_set CONFIT_ERR_INVALID_ARGUMENT (project_config_root project) 0 0
                            kInvalidLinkArgument))
          else
            let symbols = qsort_by confit_v2_link_symbol_compare (project_symbols project)
            in bind_res (link_bindings namespace_name None symbols) (\<lambda>bindings.
               bind_res (fold_res confit_v2_link_symbol_expressions symbols
                           \<lparr>lp_project = project, lp_symbols = symbols, lp_bindings = bindings,
                            lp_expressions = [], lp_expression_index = []\<rparr>) (\<lambda>linked.
               bind_res (confit_v2_link_non_symbol_expressions linked) (\<lambda>linked.
                 Inr (confit_v2_link_build_expression_index linked)))))"

definition confit_v2_linked_project_find_symbol :: "linked_project \<Rightarrow> string \<Rightarrow> v2_symbol option" where
  "confit_v2_linked_project_find_symbol linked name = confit_v2_link_find_symbol (lp_symbols linked) name"

text \<open>The walk from the lower bound over the expressions of the same role and owner.\<close>

fun find_occurrence :: "linked_role \<Rightarrow> string \<Rightarrow> nat \<Rightarrow> linked_expression list \<Rightarrow> linked_expression option" where
  "find_occurrence role owner_id occurrence [] = None"
| "find_occurrence role owner_id occurrence (x # xs) =
     (if lx_role x \<noteq> role \<or> strcmp (lx_owner_id x) owner_id \<noteq> 0 then None
      else if occurrence = 0 then Some x
      else find_occurrence role owner_id (occurrence - 1) xs)"

definition confit_v2_linked_project_find_expression ::
  "linked_project \<Rightarrow> linked_role \<Rightarrow> string \<Rightarrow> nat \<Rightarrow> linked_expression option" where
  "confit_v2_linked_project_find_expression linked role owner_id occurrence =
     (let xs = lp_expression_index linked;
          before = (\<lambda>m. let x = xs ! m
                        in (if lx_role x = role then strcmp (lx_owner_id x) owner_id
                            else if lx_role x < role then -1 else 1) < 0)
      in find_occurrence role owner_id occurrence (drop (lower_bound before 0 (length xs)) xs))"

definition confit_v2_linked_project_expression_at :: "linked_project \<Rightarrow> nat \<Rightarrow> linked_expression option" where
  "confit_v2_linked_project_expression_at linked i =
     (if i \<ge> length (lp_expressions linked) then None else Some (lp_expressions linked ! i))"

section \<open>Write domains\<close>

definition writer_allowed :: "assignment_writer \<Rightarrow> v2_symbol \<Rightarrow> bool" where
  "writer_allowed writer symbol = (case writer of
     WRITER_SCHEMA \<Rightarrow> sym_write_domain symbol \<noteq> DOMAIN_COMPUTED
   | WRITER_PROFILE \<Rightarrow> sym_write_domain symbol = DOMAIN_PROFILE
   | WRITER_TARGET \<Rightarrow> sym_write_domain symbol = DOMAIN_TARGET
   | WRITER_USER \<Rightarrow> (sym_write_domain symbol = DOMAIN_PROFILE \<or> sym_write_domain symbol = DOMAIN_TARGET)
                     \<and> sym_user_override symbol
   | WRITER_COMPUTED \<Rightarrow> sym_write_domain symbol = DOMAIN_COMPUTED)"

definition confit_v2_linked_project_validate_write ::
  "linked_project \<Rightarrow> write_request \<Rightarrow> diagnostic + unit" where
  "confit_v2_linked_project_validate_write linked request =
     (if char_at (wr_option_id request) 0 = NUL
      then Inl (confit_diagnostic_set CONFIT_ERR_INVALID_ARGUMENT None 0 0 kInvalidLinkArgument)
      else case confit_v2_link_find_symbol (lp_symbols linked) (wr_option_id request) of
        None \<Rightarrow> Inl (confit_v2_link_source_diagnostic (wr_span request) CONFIT_ERR_SCHEMA
                      ''write request references unknown schema v2 option'')
      | Some symbol \<Rightarrow>
          if sym_write_domain symbol = DOMAIN_COMPUTED \<and> wr_writer request \<noteq> WRITER_COMPUTED
          then Inl (confit_v2_link_source_diagnostic (wr_span request) CONFIT_ERR_SCHEMA
                      ''computed schema v2 option rejects external assignment'')
          else if \<not> writer_allowed (wr_writer request) symbol
          then Inl (confit_v2_link_source_diagnostic (wr_span request) CONFIT_ERR_SCHEMA
                      ''schema v2 write domain violation'')
          else Inr ())"

end
