(* ===== verification/Structure.thy ===== *)
theory Structure
  imports Linker
begin

text \<open>
  The structure compiler: \<open>src/schema/v2/validate.c\<close> (menus and their references),
  \<open>src/constraint/v2/choice.c\<close> (choices and constraints) and \<open>src/constraint/v2/graph.c\<close> (the
  dependency graphs). A pointer into the sorted array of compiled menus is the index of the
  element; other pointers are values. Allocation failure is not modelled.
\<close>

section \<open>Compiled structures\<close>

record compiled_menu =
  cm_source :: menu_node
  cm_parent :: "nat option"
  cm_visible_if :: "linked_expression option"

record compiled_menu_reference =
  cmr_source :: menu_reference
  cmr_menu :: "nat option"
  cmr_symbol :: v2_symbol

record compiled_choice =
  cc_source :: v2_choice
  cc_members :: "v2_symbol list"
  cc_available_if :: "linked_expression option"
  cc_visible_if :: "linked_expression option"
  cc_default_when :: "linked_expression list"

record compiled_constraint =
  cn_source :: v2_constraint
  cn_when :: linked_expression
  cn_require :: linked_expression

datatype graph_kind = GRAPH_EVALUATION | GRAPH_VISIBILITY | GRAPH_CHOICE | GRAPH_CONSTRAINT

record graph_edge =
  edge_owner_id :: string
  edge_target :: v2_symbol
  edge_span :: source_span

record compiled_graph =
  graph_kind_of :: graph_kind
  graph_edges :: "graph_edge list"

record compiled_structure =
  cs_linked :: linked_project
  cs_menus :: "compiled_menu list"
  cs_menu_references :: "compiled_menu_reference list"
  cs_choices :: "compiled_choice list"
  cs_constraints :: "compiled_constraint list"
  cs_graphs :: "compiled_graph list"

definition confit_v2_structure_diagnostic :: "source_span \<Rightarrow> status \<Rightarrow> string \<Rightarrow> diagnostic" where
  "confit_v2_structure_diagnostic span st message =
     confit_diagnostic_set st (span_path span) (span_line span) (span_column span) message"

definition confit_v2_structure_find_expression ::
  "linked_project \<Rightarrow> linked_role \<Rightarrow> string \<Rightarrow> nat \<Rightarrow> linked_expression option" where
  "confit_v2_structure_find_expression linked role owner_id occurrence =
     confit_v2_linked_project_find_expression linked role owner_id occurrence"

definition kAllocationFailed :: string where
  "kAllocationFailed = ''failed to allocate schema v2 structure data''"
definition kMenuCycle :: string where
  "kMenuCycle = ''schema v2 menu tree cycle''"
definition kMissingLinkedExpression :: string where
  "kMissingLinkedExpression = ''schema v2 structure is missing linked expression''"

section \<open>Menus\<close>

definition confit_v2_compiled_menu_compare :: "compiled_menu \<Rightarrow> compiled_menu \<Rightarrow> int" where
  "confit_v2_compiled_menu_compare left right = strcmp (menu_id (cm_source left)) (menu_id (cm_source right))"

definition confit_v2_compiled_structure_find_menu :: "compiled_menu list \<Rightarrow> string \<Rightarrow> nat option" where
  "confit_v2_compiled_structure_find_menu menus name =
     binary_find (\<lambda>m. strcmp name (menu_id (cm_source (menus ! m)))) 0 (length menus)"

text \<open>
  The message of a cycle, in a buffer of 1024 bytes: ids are appended while they fit, and the
  last part, cut at the end of the buffer, overwrites one that did not.
\<close>

fun append_cycle_ids :: "string \<Rightarrow> bool \<Rightarrow> string list \<Rightarrow> string" where
  "append_cycle_ids message first [] = message"
| "append_cycle_ids message first (i # ids) =
     (let piece = (if first then '''' else '' -> '') @ i
      in if length piece \<ge> 1024 - length message then message
         else append_cycle_ids (message @ piece) False ids)"

definition cycle_message :: "string list \<Rightarrow> string \<Rightarrow> string" where
  "cycle_message ids again =
     (let message = append_cycle_ids (kMenuCycle @ '': '') True ids
      in if length message < 1023 then message @ take (1023 - length message) ('' -> '' @ again) else message)"

definition confit_v2_menu_cycle_diagnostic :: "compiled_menu list \<Rightarrow> nat list \<Rightarrow> nat \<Rightarrow> diagnostic" where
  "confit_v2_menu_cycle_diagnostic menus path start =
     (let name = (\<lambda>i. menu_id (cm_source (menus ! i)))
      in confit_v2_structure_diagnostic (menu_span (cm_source (menus ! (path ! start)))) CONFIT_ERR_SCHEMA
           (cycle_message (map name (drop start path)) (name (path ! start))))"

text \<open>The loop that links each menu to its parent in the sorted array.\<close>

fun link_menu_parents :: "compiled_menu list \<Rightarrow> compiled_menu list \<Rightarrow> diagnostic + compiled_menu list" where
  "link_menu_parents menus [] = Inr []"
| "link_menu_parents menus (c # cs) =
     (let menu = cm_source c
      in if expr_text (menu_visible_if menu) \<noteq> None \<and> cm_visible_if c = None
         then Inl (confit_v2_structure_diagnostic (expr_span (menu_visible_if menu)) CONFIT_ERR_INTERNAL kAllocationFailed)
         else
           bind_res
             (case menu_parent menu of
                None \<Rightarrow> Inr c
              | Some parent \<Rightarrow>
                  (case confit_v2_compiled_structure_find_menu menus parent of
                     None \<Rightarrow> Inl (confit_v2_structure_diagnostic (menu_span menu) CONFIT_ERR_SCHEMA
                                    ''schema v2 menu parent is missing'')
                   | Some i \<Rightarrow> Inr (c\<lparr>cm_parent := Some i\<rparr>))) (\<lambda>c.
           bind_res (link_menu_parents menus cs) (\<lambda>cs. Inr (c # cs))))"

text \<open>The walk from a menu to its root; \<open>room\<close> is the number of free elements of the path.\<close>

fun first_position :: "nat \<Rightarrow> nat list \<Rightarrow> nat option" where
  "first_position x [] = None"
| "first_position x (y # ys) = (if y = x then Some 0 else map_option Suc (first_position x ys))"

fun menu_walk :: "compiled_menu list \<Rightarrow> nat \<Rightarrow> nat \<Rightarrow> nat list \<Rightarrow> nat option \<Rightarrow> diagnostic + unit" where
  "menu_walk menus start room path None = Inr ()"
| "menu_walk menus start room path (Some cursor) =
     (case first_position cursor path of
        Some previous \<Rightarrow> Inl (confit_v2_menu_cycle_diagnostic menus path previous)
      | None \<Rightarrow>
          (case room of
             0 \<Rightarrow> Inl (confit_v2_structure_diagnostic (menu_span (cm_source (menus ! start))) CONFIT_ERR_INTERNAL
                         kAllocationFailed)
           | Suc room' \<Rightarrow> menu_walk menus start room' (path @ [cursor]) (cm_parent (menus ! cursor))))"

fun sibling_orders :: "compiled_menu list \<Rightarrow> diagnostic + unit" where
  "sibling_orders [] = Inr ()"
| "sibling_orders (c # cs) =
     (case find (\<lambda>other. cm_parent c = cm_parent other
                  \<and> menu_order (cm_source c) = menu_order (cm_source other)) cs of
        Some other \<Rightarrow> Inl (confit_v2_structure_diagnostic (menu_span (cm_source other)) CONFIT_ERR_SCHEMA
                            ''schema v2 menu siblings have duplicate order'')
      | None \<Rightarrow> sibling_orders cs)"

definition confit_v2_compile_menus :: "linked_project \<Rightarrow> diagnostic + compiled_menu list" where
  "confit_v2_compile_menus linked =
     (let menus = qsort_by confit_v2_compiled_menu_compare
        (map (\<lambda>m. \<lparr>cm_source = m, cm_parent = None,
                   cm_visible_if = confit_v2_structure_find_expression linked ROLE_MENU_VISIBLE_IF (menu_id m) 0\<rparr>)
          (project_menus (lp_project linked)))
      in bind_res (link_menu_parents menus menus) (\<lambda>menus.
         bind_res (fold_res (\<lambda>i _. menu_walk menus i (length menus) [] (Some i)) [0..<length menus] ()) (\<lambda>_.
         bind_res (sibling_orders menus) (\<lambda>_. Inr menus))))"

text \<open>The references of one menu; \<open>previous\<close> are the references before.\<close>

fun menu_references_loop ::
  "linked_project \<Rightarrow> nat option \<Rightarrow> menu_reference list \<Rightarrow> menu_reference list
   \<Rightarrow> diagnostic + compiled_menu_reference list" where
  "menu_references_loop linked menu previous [] = Inr []"
| "menu_references_loop linked menu previous (r # rs) =
     (if \<not> mref_read_only r
      then Inl (confit_v2_structure_diagnostic (mref_span r) CONFIT_ERR_SCHEMA
                  ''schema v2 menu reference must be read_only'')
      else case confit_v2_linked_project_find_symbol linked (mref_option_id r) of
        None \<Rightarrow> Inl (confit_v2_structure_diagnostic (mref_span r) CONFIT_ERR_SCHEMA
                      ''schema v2 menu reference targets missing option'')
      | Some symbol \<Rightarrow>
          if list_ex (\<lambda>q. strcmp (mref_option_id q) (mref_option_id r) = 0) previous
          then Inl (confit_v2_structure_diagnostic (mref_span r) CONFIT_ERR_SCHEMA
                      ''schema v2 menu has duplicate option reference'')
          else
            bind_res (menu_references_loop linked menu (previous @ [r]) rs) (\<lambda>cs.
              Inr (\<lparr>cmr_source = r, cmr_menu = menu, cmr_symbol = symbol\<rparr> # cs)))"

definition confit_v2_compile_menu_references ::
  "linked_project \<Rightarrow> compiled_menu list \<Rightarrow> diagnostic + compiled_menu_reference list" where
  "confit_v2_compile_menu_references linked menus =
     fold_res (\<lambda>m output.
         bind_res (menu_references_loop linked (confit_v2_compiled_structure_find_menu menus (menu_id m)) []
                     (menu_references m)) (\<lambda>cs. Inr (output @ cs)))
       (project_menus (lp_project linked)) []"

definition confit_v2_validate_symbol_menus :: "linked_project \<Rightarrow> compiled_menu list \<Rightarrow> diagnostic + unit" where
  "confit_v2_validate_symbol_menus linked menus =
     fold_res (\<lambda>s _. case sym_menu s of
         None \<Rightarrow> Inr ()
       | Some menu \<Rightarrow>
           if confit_v2_compiled_structure_find_menu menus menu = None
           then Inl (confit_v2_structure_diagnostic (sym_span s) CONFIT_ERR_SCHEMA
                       ''schema v2 option references missing menu'')
           else Inr ())
       (project_symbols (lp_project linked)) ()"

section \<open>Choices\<close>

definition confit_v2_compiled_choice_compare :: "v2_choice \<Rightarrow> v2_choice \<Rightarrow> int" where
  "confit_v2_compiled_choice_compare left right = strcmp (choice_id left) (choice_id right)"

definition confit_v2_source_has_choice :: "v2_project \<Rightarrow> string \<Rightarrow> bool" where
  "confit_v2_source_has_choice project name = list_ex (\<lambda>c. strcmp (choice_id c) name = 0) (project_choices project)"

definition confit_v2_choice_has_member :: "v2_choice \<Rightarrow> string \<Rightarrow> bool" where
  "confit_v2_choice_has_member choice name = list_ex (\<lambda>m. strcmp m name = 0) (choice_members choice)"

text \<open>The loop over the members; \<open>members\<close> are those found before.\<close>

fun choice_members_loop ::
  "linked_project \<Rightarrow> v2_choice \<Rightarrow> v2_symbol list \<Rightarrow> string list \<Rightarrow> diagnostic + v2_symbol list" where
  "choice_members_loop linked choice members [] = Inr members"
| "choice_members_loop linked choice members (name # names) =
     (let stop = (\<lambda>message. Inl (confit_v2_structure_diagnostic (choice_span choice) CONFIT_ERR_SCHEMA message))
      in case confit_v2_linked_project_find_symbol linked name of
        None \<Rightarrow> stop (if confit_v2_source_has_choice (lp_project linked) name
                       then ''schema v2 choice member cannot reference another choice''
                       else ''schema v2 choice member references missing option'')
      | Some member \<Rightarrow>
          if sym_type member \<noteq> choice_member_type choice
          then stop ''schema v2 choice member type does not match declaration''
          else if members \<noteq> [] \<and> sym_write_domain member \<noteq> sym_write_domain (hd members)
          then stop ''schema v2 choice members have different write domains''
          else choice_members_loop linked choice (members @ [member]) names)"

text \<open>The loop over the defaults; \<open>previous\<close> are those before. C compares condition texts with
  \<open>strcmp\<close>, so that both must be present: the loader requires a condition for every default.\<close>

definition same_text :: "string option \<Rightarrow> string option \<Rightarrow> bool" where
  "same_text left right = (case (left, right) of (Some l, Some r) \<Rightarrow> strcmp l r = 0 | _ \<Rightarrow> False)"

fun choice_defaults_loop ::
  "linked_project \<Rightarrow> v2_choice \<Rightarrow> choice_default list \<Rightarrow> choice_default list
   \<Rightarrow> diagnostic + linked_expression list" where
  "choice_defaults_loop linked choice previous [] = Inr []"
| "choice_defaults_loop linked choice previous (d # ds) =
     (let stop = (\<lambda>st message. Inl (confit_v2_structure_diagnostic (chd_span d) st message))
      in if \<not> confit_v2_choice_has_member choice (chd_member d)
         then stop CONFIT_ERR_SCHEMA ''schema v2 choice default references non-member option''
         else case confit_v2_structure_find_expression linked ROLE_CHOICE_DEFAULT_WHEN (choice_id choice) (length previous) of
           None \<Rightarrow> stop CONFIT_ERR_INTERNAL kMissingLinkedExpression
         | Some x \<Rightarrow>
             if list_ex (\<lambda>other. chd_priority other = chd_priority d
                  \<and> strcmp (chd_member other) (chd_member d) \<noteq> 0
                  \<and> same_text (expr_text (chd_when other)) (expr_text (chd_when d))) previous
             then stop CONFIT_ERR_SCHEMA ''schema v2 choice has ambiguous equal-priority default''
             else bind_res (choice_defaults_loop linked choice (previous @ [d]) ds) (\<lambda>xs. Inr (x # xs)))"

definition confit_v2_compile_one_choice :: "linked_project \<Rightarrow> v2_choice \<Rightarrow> diagnostic + compiled_choice" where
  "confit_v2_compile_one_choice linked choice =
     (if choice_members choice = []
         \<or> (choice_cardinality choice \<noteq> EXACTLY_ONE \<and> choice_cardinality choice \<noteq> ZERO_OR_ONE
            \<and> choice_cardinality choice \<noteq> ONE_OR_MORE)
      then Inl (confit_v2_structure_diagnostic (choice_span choice) CONFIT_ERR_SCHEMA
                  ''schema v2 choice has impossible cardinality'')
      else
        bind_res (choice_members_loop linked choice [] (choice_members choice)) (\<lambda>members.
          let available = confit_v2_structure_find_expression linked ROLE_CHOICE_AVAILABLE_IF (choice_id choice) 0;
              visible = confit_v2_structure_find_expression linked ROLE_CHOICE_VISIBLE_IF (choice_id choice) 0
          in if (expr_text (choice_available_if choice) \<noteq> None \<and> available = None)
                \<or> (expr_text (choice_visible_if choice) \<noteq> None \<and> visible = None)
             then Inl (confit_v2_structure_diagnostic (choice_span choice) CONFIT_ERR_INTERNAL kMissingLinkedExpression)
             else
               bind_res (choice_defaults_loop linked choice [] (choice_defaults choice)) (\<lambda>whens.
                 Inr \<lparr>cc_source = choice, cc_members = members, cc_available_if = available,
                      cc_visible_if = visible, cc_default_when = whens\<rparr>)))"

definition confit_v2_compile_choices :: "linked_project \<Rightarrow> diagnostic + compiled_choice list" where
  "confit_v2_compile_choices linked =
     fold_res (\<lambda>choice output. bind_res (confit_v2_compile_one_choice linked choice) (\<lambda>c. Inr (output @ [c])))
       (qsort_by confit_v2_compiled_choice_compare (project_choices (lp_project linked))) []"

section \<open>Constraints\<close>

definition confit_v2_compiled_constraint_compare :: "compiled_constraint \<Rightarrow> compiled_constraint \<Rightarrow> int" where
  "confit_v2_compiled_constraint_compare left right =
     strcmp (constraint_id (cn_source left)) (constraint_id (cn_source right))"

text \<open>The loop over the constraints from number \<open>i\<close> on.\<close>

fun constraints_loop ::
  "linked_project \<Rightarrow> nat \<Rightarrow> nat \<Rightarrow> v2_constraint list \<Rightarrow> diagnostic + compiled_constraint list" where
  "constraints_loop linked base i [] = Inr []"
| "constraints_loop linked base i (c # cs) =
     (let stop = (\<lambda>st message. Inl (confit_v2_structure_diagnostic (constraint_span c) st message))
      in if (case constraint_message c of None \<Rightarrow> True | Some m \<Rightarrow> char_at m 0 = NUL)
         then stop CONFIT_ERR_SCHEMA ''schema v2 constraint message must not be empty''
         else case (confit_v2_linked_project_expression_at linked (base + i * 2),
                    confit_v2_linked_project_expression_at linked (base + i * 2 + 1)) of
           (Some when_x, Some require_x) \<Rightarrow>
             if lx_role when_x \<noteq> ROLE_CONSTRAINT_WHEN \<or> lx_role require_x \<noteq> ROLE_CONSTRAINT_REQUIRE
               \<or> strcmp (lx_owner_id when_x) (constraint_id c) \<noteq> 0
               \<or> strcmp (lx_owner_id require_x) (constraint_id c) \<noteq> 0
             then stop CONFIT_ERR_INTERNAL kMissingLinkedExpression
             else bind_res (constraints_loop linked base (i + 1) cs) (\<lambda>compiled.
                    Inr (\<lparr>cn_source = c, cn_when = when_x, cn_require = require_x\<rparr> # compiled))
         | _ \<Rightarrow> stop CONFIT_ERR_INTERNAL kMissingLinkedExpression)"

definition confit_v2_compile_constraints :: "linked_project \<Rightarrow> diagnostic + compiled_constraint list" where
  "confit_v2_compile_constraints linked =
     (let project = lp_project linked;
          expression_count = length (lp_expressions linked);
          constraint_count = length (project_constraints project)
      in if constraint_count > expression_count div 2
         then Inl (confit_v2_structure_diagnostic (project_span project) CONFIT_ERR_INTERNAL kMissingLinkedExpression)
         else
           bind_res (constraints_loop linked (expression_count - constraint_count * 2) 0 (project_constraints project))
             (\<lambda>compiled. Inr (qsort_by confit_v2_compiled_constraint_compare compiled)))"

section \<open>Graphs\<close>

fun confit_v2_graph_slot :: "graph_kind \<Rightarrow> nat" where
  "confit_v2_graph_slot GRAPH_EVALUATION = 0"
| "confit_v2_graph_slot GRAPH_VISIBILITY = 1"
| "confit_v2_graph_slot GRAPH_CHOICE = 2"
| "confit_v2_graph_slot GRAPH_CONSTRAINT = 3"

definition confit_v2_graph_append :: "graph_kind \<Rightarrow> graph_edge \<Rightarrow> compiled_graph list \<Rightarrow> compiled_graph list" where
  "confit_v2_graph_append kind edge graphs =
     (let slot = confit_v2_graph_slot kind; graph = graphs ! slot
      in graphs[slot := graph\<lparr>graph_edges := graph_edges graph @ [edge]\<rparr>])"

fun confit_v2_expression_graph_kind :: "linked_role \<Rightarrow> graph_kind" where
  "confit_v2_expression_graph_kind ROLE_COMPUTED = GRAPH_EVALUATION"
| "confit_v2_expression_graph_kind ROLE_AVAILABLE_IF = GRAPH_EVALUATION"
| "confit_v2_expression_graph_kind ROLE_DEFAULT_WHEN = GRAPH_EVALUATION"
| "confit_v2_expression_graph_kind ROLE_SUGGESTION_WHEN = GRAPH_EVALUATION"
| "confit_v2_expression_graph_kind ROLE_CHOICE_AVAILABLE_IF = GRAPH_EVALUATION"
| "confit_v2_expression_graph_kind ROLE_VISIBLE_IF = GRAPH_VISIBILITY"
| "confit_v2_expression_graph_kind ROLE_MENU_VISIBLE_IF = GRAPH_VISIBILITY"
| "confit_v2_expression_graph_kind ROLE_CHOICE_VISIBLE_IF = GRAPH_VISIBILITY"
| "confit_v2_expression_graph_kind ROLE_CHOICE_DEFAULT_WHEN = GRAPH_CHOICE"
| "confit_v2_expression_graph_kind ROLE_CONSTRAINT_WHEN = GRAPH_CONSTRAINT"
| "confit_v2_expression_graph_kind ROLE_CONSTRAINT_REQUIRE = GRAPH_CONSTRAINT"

definition confit_v2_graph_append_expression :: "linked_expression \<Rightarrow> compiled_graph list \<Rightarrow> compiled_graph list" where
  "confit_v2_graph_append_expression x graphs =
     fold (\<lambda>r. confit_v2_graph_append (confit_v2_expression_graph_kind (lx_role x))
               \<lparr>edge_owner_id = lx_owner_id x, edge_target = lref_symbol r,
                edge_span = expression_span (lx_expression x)\<rparr>)
       (lx_references x) graphs"

definition kKinds :: "graph_kind list" where
  "kKinds = [GRAPH_EVALUATION, GRAPH_VISIBILITY, GRAPH_CHOICE, GRAPH_CONSTRAINT]"

definition confit_v2_structure_build_graphs :: "linked_project \<Rightarrow> compiled_choice list \<Rightarrow> compiled_graph list" where
  "confit_v2_structure_build_graphs linked choices =
     fold (\<lambda>c. fold (\<lambda>member. confit_v2_graph_append GRAPH_CHOICE
                 \<lparr>edge_owner_id = choice_id (cc_source c), edge_target = member,
                  edge_span = choice_span (cc_source c)\<rparr>) (cc_members c)) choices
       (fold confit_v2_graph_append_expression (lp_expressions linked)
         (map (\<lambda>kind. \<lparr>graph_kind_of = kind, graph_edges = []\<rparr>) kKinds))"

section \<open>The compiler\<close>

definition confit_v2_compile_structure :: "linked_project \<Rightarrow> diagnostic + compiled_structure" where
  "confit_v2_compile_structure linked =
     bind_res (confit_v2_compile_menus linked) (\<lambda>menus.
     bind_res (confit_v2_validate_symbol_menus linked menus) (\<lambda>_.
     bind_res (confit_v2_compile_menu_references linked menus) (\<lambda>references.
     bind_res (confit_v2_compile_choices linked) (\<lambda>choices.
     bind_res (confit_v2_compile_constraints linked) (\<lambda>constraints.
       Inr \<lparr>cs_linked = linked, cs_menus = menus, cs_menu_references = references, cs_choices = choices,
            cs_constraints = constraints, cs_graphs = confit_v2_structure_build_graphs linked choices\<rparr>)))))"

definition confit_v2_compiled_structure_graph :: "compiled_structure \<Rightarrow> graph_kind \<Rightarrow> compiled_graph" where
  "confit_v2_compiled_structure_graph compiled kind = cs_graphs compiled ! confit_v2_graph_slot kind"

definition array_element :: "'a list \<Rightarrow> nat \<Rightarrow> 'a option" where
  "array_element xs i = (if i \<ge> length xs then None else Some (xs ! i))"

definition confit_v2_compiled_structure_menu_at :: "compiled_structure \<Rightarrow> nat \<Rightarrow> compiled_menu option" where
  "confit_v2_compiled_structure_menu_at compiled = array_element (cs_menus compiled)"

definition confit_v2_compiled_structure_menu_reference_at ::
  "compiled_structure \<Rightarrow> nat \<Rightarrow> compiled_menu_reference option" where
  "confit_v2_compiled_structure_menu_reference_at compiled = array_element (cs_menu_references compiled)"

definition confit_v2_compiled_structure_choice_at :: "compiled_structure \<Rightarrow> nat \<Rightarrow> compiled_choice option" where
  "confit_v2_compiled_structure_choice_at compiled = array_element (cs_choices compiled)"

definition confit_v2_compiled_structure_constraint_at ::
  "compiled_structure \<Rightarrow> nat \<Rightarrow> compiled_constraint option" where
  "confit_v2_compiled_structure_constraint_at compiled = array_element (cs_constraints compiled)"

end
