(* ===== verification/Pipeline.thy ===== *)
theory Pipeline
  imports Parser_Correct Soundness
begin

text \<open>
  From the text of an expression to its value: the trees of the parser satisfy what the checker
  and the evaluator assume of a tree (distinct node addresses, valid tristate letters, finite
  floating literals), so a text that parses and checks evaluates safely.
\<close>

lemma mset_post_nodes: "mset (post_nodes n) = mset (subnodes n)"
proof (induction n)
  case (Call loc f args)
  then show ?case by (simp add: mset_concat) (metis (mono_tags, lifting) map_eq_conv comp_apply)
next
  case (List_Node loc items)
  then show ?case by (simp add: mset_concat) (metis (mono_tags, lifting) map_eq_conv comp_apply)
qed simp_all

lemma distinct_post_nodes:
  "distinct (map node_addr (post_nodes n)) \<longleftrightarrow> distinct (node_addrs n)"
proof -
  have "mset (map node_addr (post_nodes n)) = mset (map node_addr (subnodes n))"
    by (simp add: mset_post_nodes)
  then show ?thesis unfolding node_addrs_def by (rule mset_eq_imp_distinct_iff)
qed

text \<open>Every token of a good lexer has the shape of its kind.\<close>

lemma delivers_shapes:
  assumes "delivers confit_v2_expression_lexer_next lx ts lx'"
    and "expr_text (lex_source lx) = Some s" "is_cstring s" "lexer_good lx"
  shows "\<forall>t \<in> set ts. token_shape (tok_kind t) (token_text s t)"
  using assms
proof (induction rule: delivers.induct)
  case (delivers_more lx t lx' ts lx'')
  note g = lexer_good_next [OF delivers_more.prems(3) delivers_more.hyps(1)]
  have o: "lex_offset lx \<le> length s" using delivers_more.prems by (simp add: lexer_good_def)
  from lexer_next_shape [OF delivers_more.hyps(1) delivers_more.prems(1) o delivers_more.prems(2)]
  have "token_shape (tok_kind t) (token_text s t)" by (simp add: token_text_def)
  moreover have "expr_text (lex_source lx') = Some s" "lexer_good lx'" using g delivers_more.prems
    lexer_next_progress [OF delivers_more.hyps(1) delivers_more.prems(1) o delivers_more.prems(2)] by auto
  ultimately show ?case using delivers_more by simp
qed simp

definition literals_ok :: "expr_node \<Rightarrow> bool" where
  "literals_ok n \<longleftrightarrow> (\<forall>loc l. Literal loc l \<in> set (subnodes n) \<longrightarrow> literal_ok l)"

lemma literals_ok_simps [simp]:
  "literals_ok (Literal loc l) \<longleftrightarrow> literal_ok l"
  "literals_ok (Reference loc r)"
  "literals_ok (Unary loc u n) \<longleftrightarrow> literals_ok n"
  "literals_ok (Binary loc b n m) \<longleftrightarrow> literals_ok n \<and> literals_ok m"
  "literals_ok (Conditional loc c n m) \<longleftrightarrow> literals_ok c \<and> literals_ok n \<and> literals_ok m"
  "literals_ok (Call loc f ns) \<longleftrightarrow> (\<forall>n \<in> set ns. literals_ok n)"
  "literals_ok (List_Node loc ns) \<longleftrightarrow> (\<forall>n \<in> set ns. literals_ok n)"
  unfolding literals_ok_def by auto

lemma literals_ok_range [simp]: "literals_ok (set_node_range i j n) \<longleftrightarrow> literals_ok n"
  by (cases n) simp_all

lemma denotes_ok: "denotes_literal s t l \<Longrightarrow> token_shape (tok_kind t) (token_text s t) \<Longrightarrow> literal_ok l"
  by (cases l) (auto simp: denotes_literal_def literal_ok_def token_shape_def
      confit_v2_evaluate_tristate_is_valid_def dest: parse_float_finite)

lemma derives_literals:
  "derives s k ts n \<Longrightarrow> \<forall>t \<in> set ts. token_shape (tok_kind t) (token_text s t) \<Longrightarrow> literals_ok n"
  "derives_items s ts ns \<Longrightarrow> \<forall>t \<in> set ts. token_shape (tok_kind t) (token_text s t)
    \<Longrightarrow> \<forall>n \<in> set ns. literals_ok n"
proof (induction rule: derives_derives_items.inducts)
  case (derives_literal t l loc)
  then show ?case by (simp add: denotes_ok)
qed simp_all

lemma parsed_tree_ok:
  assumes "expr_text source = Some s" "is_cstring s"
    and "confit_v2_expression_parse source requested = Inr x"
  shows "distinct (map node_addr (post_nodes (expression_root x))) \<and> literals_ok (expression_root x)
    \<and> expression_source x = s \<and> expression_span x = expr_span source"
proof -
  let ?limits = "confit_v2_expression_effective_limits requested"
  let ?lx = "confit_v2_expression_lexer_init source (max_tokens ?limits)"
  from parse_yields [OF assms(1,2), of requested] assms obtain ts final lx where p:
    "expression_source x = s" "expression_span x = expr_span source"
    "delivers confit_v2_expression_lexer_next ?lx (ts @ [final]) lx"
    "derives s 0 ts (expression_root x)"
    "postorder (expression_root x) = [0..<length (node_addrs (expression_root x))]"
    by (auto simp: parsed_from_def)
  have "distinct (node_addrs (expression_root x))"
    using mset_eq_imp_distinct_iff [OF postorder_node_addrs [of "expression_root x"]] p(5) by simp
  moreover have "\<forall>t \<in> set (ts @ [final]). token_shape (tok_kind t) (token_text s t)"
    by (rule delivers_shapes [OF p(3) _ assms(2)])
      (use assms in \<open>simp_all add: confit_v2_expression_lexer_init_def lexer_good_def\<close>)
  ultimately show ?thesis
    using derives_literals(1) [OF p(4)] p by (auto simp: distinct_post_nodes)
qed

end
