(* ===== verification/Linker_Correct.thy ===== *)
theory Linker_Correct
  imports Linker Pipeline "HOL-Library.Product_Lexorder"
begin

text \<open>
  Facts about the linker. Linking is one pass over the list of the project's expression
  declarations, in a fixed order; this gives the invariant of a linked project: symbols in
  strictly ascending order of their ids, one valid binding for each, and one checked record
  for each declared expression whose references are resolved. The lookups by id and by role,
  owner and occurrence are the lookups in these lists, the write domains follow the table of
  the schema, and an error is a schema error.
\<close>

section \<open>Declarations\<close>

record expr_declaration =
  decl_role :: linked_role
  decl_owner :: string
  decl_self :: "string option"
  decl_source :: expression_text
  decl_type :: etype

definition declare_expression ::
  "linked_role \<Rightarrow> string \<Rightarrow> string option \<Rightarrow> expression_text \<Rightarrow> etype \<Rightarrow> expr_declaration" where
  "declare_expression role owner_id self_id source t =
     \<lparr>decl_role = role, decl_owner = owner_id, decl_self = self_id, decl_source = source, decl_type = t\<rparr>"

definition append_declaration :: "expr_declaration \<Rightarrow> linked_project \<Rightarrow> parse_stop + linked_project" where
  "append_declaration d = confit_v2_link_append_expression (decl_role d) (decl_owner d) (decl_self d)
     (decl_source d) (decl_type d)"

definition symbol_declarations :: "v2_symbol \<Rightarrow> expr_declaration list" where
  "symbol_declarations s =
     (let name = sym_id s; own = (\<lambda>role. declare_expression role name (Some name))
      in [own ROLE_COMPUTED (sym_computed s) (confit_v2_expression_type_from_option_type (sym_type s) (Some name)),
          own ROLE_AVAILABLE_IF (sym_available_if s) bool_type, own ROLE_VISIBLE_IF (sym_visible_if s) bool_type]
         @ map (\<lambda>d. own ROLE_DEFAULT_WHEN (cond_when d) bool_type) (sym_defaults s)
         @ map (\<lambda>g. own ROLE_SUGGESTION_WHEN (sugg_when g) bool_type) (sym_suggestions s))"

definition choice_declarations :: "v2_choice \<Rightarrow> expr_declaration list" where
  "choice_declarations c =
     (let own = (\<lambda>role source. declare_expression role (choice_id c) None source bool_type)
      in [own ROLE_CHOICE_AVAILABLE_IF (choice_available_if c), own ROLE_CHOICE_VISIBLE_IF (choice_visible_if c)]
         @ map (\<lambda>d. own ROLE_CHOICE_DEFAULT_WHEN (chd_when d)) (choice_defaults c))"

definition constraint_declarations :: "v2_constraint \<Rightarrow> expr_declaration list" where
  "constraint_declarations c =
     [declare_expression ROLE_CONSTRAINT_WHEN (constraint_id c) None (constraint_when c) bool_type,
      declare_expression ROLE_CONSTRAINT_REQUIRE (constraint_id c) None (constraint_require c) bool_type]"

definition project_declarations :: "v2_project \<Rightarrow> expr_declaration list" where
  "project_declarations p =
     concat (map symbol_declarations (sort_key sym_id (project_symbols p)))
     @ map (\<lambda>m. declare_expression ROLE_MENU_VISIBLE_IF (menu_id m) None (menu_visible_if m) bool_type) (project_menus p)
     @ concat (map choice_declarations (project_choices p))
     @ concat (map constraint_declarations (project_constraints p))"

definition has_text :: "expr_declaration \<Rightarrow> bool" where
  "has_text d \<longleftrightarrow> expr_text (decl_source d) \<noteq> None"

section \<open>Linking is one pass over the declarations\<close>

lemma fold_res_map: "fold_res f (map g xs) = fold_res (\<lambda>x. f (g x)) xs"
proof
  show "fold_res f (map g xs) s = fold_res (\<lambda>x. f (g x)) xs s" for s
  proof (induction xs arbitrary: s)
    case (Cons x xs)
    then have "fold_res f (map g xs) = fold_res (\<lambda>x. f (g x)) xs" by (intro ext)
    then show ?case by simp
  qed simp
qed

lemma fold_res_concat: "fold_res f (concat (map g xs)) = fold_res (\<lambda>x. fold_res f (g x)) xs"
proof
  show "fold_res f (concat (map g xs)) s = fold_res (\<lambda>x. fold_res f (g x)) xs s" for s
  proof (induction xs arbitrary: s)
    case (Cons x xs)
    then have "fold_res f (concat (map g xs)) = fold_res (\<lambda>x. fold_res f (g x)) xs" by (intro ext)
    then show ?case by (simp add: fold_res_append)
  qed simp
qed

lemma fold_res_steps:
  "fold_res f [] = Inr" "fold_res f (x # xs) = (\<lambda>s. bind_res (f x s) (fold_res f xs))"
  "fold_res f (ys @ zs) = (\<lambda>s. bind_res (fold_res f ys s) (fold_res f zs))"
  by (intro ext; simp add: fold_res_append)+

lemma bind_res_Inr_right [simp]: "bind_res m Inr = m"
  by (cases m) simp_all

lemma symbol_expressions_declared:
  "confit_v2_link_symbol_expressions s = fold_res append_declaration (symbol_declarations s)"
  by (intro ext) (simp add: confit_v2_link_symbol_expressions_def symbol_declarations_def fold_res_steps
      fold_res_map append_declaration_def declare_expression_def confit_v2_link_bool_type_def Let_def)

lemma choice_expressions_declared:
  "link_choice_expressions c = fold_res append_declaration (choice_declarations c)"
  by (rule ext) (simp add: link_choice_expressions_def choice_declarations_def fold_res_steps
      fold_res_map append_declaration_def declare_expression_def confit_v2_link_bool_type_def Let_def)

lemma constraint_expressions_declared:
  "link_constraint_expressions c = fold_res append_declaration (constraint_declarations c)"
  by (rule ext) (simp add: link_constraint_expressions_def constraint_declarations_def fold_res_steps
      append_declaration_def declare_expression_def confit_v2_link_bool_type_def Let_def)

definition rest_declarations :: "v2_project \<Rightarrow> expr_declaration list" where
  "rest_declarations p =
     map (\<lambda>m. declare_expression ROLE_MENU_VISIBLE_IF (menu_id m) None (menu_visible_if m) bool_type) (project_menus p)
     @ concat (map choice_declarations (project_choices p))
     @ concat (map constraint_declarations (project_constraints p))"

lemma non_symbol_expressions_declared:
  "confit_v2_link_non_symbol_expressions linked
     = fold_res append_declaration (rest_declarations (lp_project linked)) linked"
  unfolding confit_v2_link_non_symbol_expressions_def rest_declarations_def choice_expressions_declared
    constraint_expressions_declared fold_res_append fold_res_concat fold_res_map
  by (simp add: append_declaration_def declare_expression_def confit_v2_link_bool_type_def Let_def)

lemma symbols_sorted_by_id: "qsort_by confit_v2_link_symbol_compare xs = sort_key sym_id xs"
  by (rule qsort_by_sort_key) (simp add: compares_def confit_v2_link_symbol_compare_def strcmp_le)

text \<open>The project is not changed by appending, so both loops are one.\<close>

lemma append_declaration_frame:
  "append_declaration d linked = Inr linked' \<Longrightarrow> lp_project linked' = lp_project linked
     \<and> lp_symbols linked' = lp_symbols linked \<and> lp_bindings linked' = lp_bindings linked"
  by (auto simp: append_declaration_def confit_v2_link_append_expression_def bind_simps split: if_splits)

lemma fold_declarations_frame:
  assumes "fold_res append_declaration ds linked = Inr linked'"
  shows "lp_project linked' = lp_project linked
     \<and> lp_symbols linked' = lp_symbols linked \<and> lp_bindings linked' = lp_bindings linked"
  by (rule fold_res_invariant [OF assms]) (auto dest: append_declaration_frame)

definition linked_start :: "v2_project \<Rightarrow> environment \<Rightarrow> linked_project" where
  "linked_start p bindings = \<lparr>lp_project = p, lp_symbols = sort_key sym_id (project_symbols p),
     lp_bindings = bindings, lp_expressions = [], lp_expression_index = []\<rparr>"

lemma link_project_declared:
  assumes "project_namespace p = Some ns" "char_at ns 0 \<noteq> NUL"
  shows "confit_v2_schema_link_project p =
    bind_res (link_bindings ns None (sort_key sym_id (project_symbols p))) (\<lambda>bindings.
    bind_res (fold_res append_declaration (project_declarations p) (linked_start p bindings)) (\<lambda>linked.
      Inr (confit_v2_link_build_expression_index linked)))"
proof -
  have "bind_res (fold_res confit_v2_link_symbol_expressions (sort_key sym_id (project_symbols p)) (linked_start p bindings))
      (\<lambda>linked. bind_res (confit_v2_link_non_symbol_expressions linked) f)
    = bind_res (fold_res append_declaration (project_declarations p) (linked_start p bindings)) f"
    for bindings and f :: "linked_project \<Rightarrow> parse_stop + linked_project"
  proof -
    let ?ds = "concat (map symbol_declarations (sort_key sym_id (project_symbols p)))"
    have "fold_res confit_v2_link_symbol_expressions (sort_key sym_id (project_symbols p))
        = fold_res append_declaration ?ds"
      unfolding fold_res_concat symbol_expressions_declared ..
    moreover have "project_declarations p = ?ds @ rest_declarations p"
      by (simp add: project_declarations_def rest_declarations_def)
    moreover have "bind_res (fold_res append_declaration ?ds (linked_start p bindings))
        (\<lambda>linked. bind_res (confit_v2_link_non_symbol_expressions linked) f)
      = bind_res (fold_res append_declaration ?ds (linked_start p bindings))
        (\<lambda>linked. bind_res (fold_res append_declaration (rest_declarations p) linked) f)"
      by (rule bind_res_cong) (auto simp: non_symbol_expressions_declared linked_start_def
          dest!: fold_declarations_frame)
    ultimately show ?thesis by (simp add: fold_res_append bind_res_assoc)
  qed
  then show ?thesis
    using assms by (simp add: confit_v2_schema_link_project_def symbols_sorted_by_id linked_start_def Let_def)
qed

section \<open>References\<close>

lemma bind_res_InrE: "bind_res m f = Inr y \<Longrightarrow> (\<And>x. m = Inr x \<Longrightarrow> f x = Inr y \<Longrightarrow> P) \<Longrightarrow> P"
  by (cases m) auto

fun reference_id :: "expr_node \<Rightarrow> string" where
  "reference_id (Reference loc r) = r"
| "reference_id _ = []"

definition reference_nodes :: "expr_node \<Rightarrow> expr_node list" where
  "reference_nodes n = filter is_reference (subnodes n)"

text \<open>A reference node resolves to a declared symbol other than the owner of the expression.\<close>

definition resolves :: "v2_symbol list \<Rightarrow> string option \<Rightarrow> expr_node \<Rightarrow> linked_reference \<Rightarrow> bool" where
  "resolves symbols self_id m r \<longleftrightarrow> lref_node r = m
     \<and> confit_v2_link_find_symbol symbols (reference_id m) = Some (lref_symbol r)
     \<and> self_id \<noteq> Some (sym_id (lref_symbol r))"

lemma reference_nodes_simps [simp]:
  "reference_nodes (Literal loc l) = []" "reference_nodes (Reference loc r) = [Reference loc r]"
  "reference_nodes (Unary loc u n) = reference_nodes n"
  "reference_nodes (Binary loc b n m) = reference_nodes n @ reference_nodes m"
  "reference_nodes (Conditional loc c n m) = reference_nodes c @ reference_nodes n @ reference_nodes m"
  "reference_nodes (Call loc f ns) = concat (map reference_nodes ns)"
  "reference_nodes (List_Node loc ns) = concat (map reference_nodes ns)"
  by (simp_all add: reference_nodes_def is_reference_def filter_concat o_def cong: map_cong)

lemma collect_sound:
  "confit_v2_link_collect_references symbols x self_id n refs = Inr refs' \<Longrightarrow>
     \<exists>rs. refs' = refs @ rs \<and> list_all2 (resolves symbols self_id) (reference_nodes n) rs"
  "link_collect_all symbols x self_id ns refs = Inr refs' \<Longrightarrow>
     \<exists>rs. refs' = refs @ rs \<and> list_all2 (resolves symbols self_id) (concat (map reference_nodes ns)) rs"
proof (induction symbols x self_id n refs and symbols x self_id ns refs arbitrary: refs' and refs'
    rule: confit_v2_link_collect_references_link_collect_all.induct)
  case (1 symbols x self_id loc r references)
  then show ?case
    by (cases self_id) (auto simp: resolves_def strcmp_eq split: option.splits if_splits)
next
  case (4 symbols x self_id loc b l r references)
  then obtain mid where m: "confit_v2_link_collect_references symbols x self_id l references = Inr mid"
    "confit_v2_link_collect_references symbols x self_id r mid = Inr refs'" by (auto simp: bind_simps)
  from 4(1) [OF m(1)] 4(2) [OF m] show ?case by (auto intro: list_all2_appendI)
next
  case (5 symbols x self_id loc c t f references)
  then obtain m1 m2 where m: "confit_v2_link_collect_references symbols x self_id c references = Inr m1"
    "confit_v2_link_collect_references symbols x self_id t m1 = Inr m2"
    "confit_v2_link_collect_references symbols x self_id f m2 = Inr refs'" by (auto simp: bind_simps)
  from 5(1) [OF m(1)] 5(2) [OF m(1,2)] 5(3) [OF m] show ?case by (auto intro!: list_all2_appendI)
next
  case (9 symbols x self_id n ns references)
  then obtain mid where m: "confit_v2_link_collect_references symbols x self_id n references = Inr mid"
    "link_collect_all symbols x self_id ns mid = Inr refs'" by (auto simp: bind_simps)
  from 9(1) [OF m(1)] 9(2) [OF m] show ?case by (auto intro: list_all2_appendI)
qed auto

lemma link_diagnostic_status [simp]: "diag_status (confit_v2_link_diagnostic x n st message) = st"
  by (simp add: confit_v2_link_diagnostic_def confit_diagnostic_set_def confit_diagnostic_set_detail_def
      Let_def split: prod.split)

lemma source_diagnostic_status [simp]: "diag_status (confit_v2_link_source_diagnostic span st message) = st"
  by (simp add: confit_v2_link_source_diagnostic_def confit_diagnostic_set_def confit_diagnostic_set_detail_def)

lemma collect_error:
  "confit_v2_link_collect_references symbols x self_id n refs = Inl e \<Longrightarrow> schema_stop e"
  "link_collect_all symbols x self_id ns refs = Inl e \<Longrightarrow> schema_stop e"
proof (induction symbols x self_id n refs and symbols x self_id ns refs
    rule: confit_v2_link_collect_references_link_collect_all.induct)
  case (1 symbols x self_id loc r references)
  then show ?case by (auto simp: schema_stop_def split: option.splits if_splits)
qed (auto simp: bind_simps)

section \<open>Appended records\<close>

text \<open>The record \<open>x\<close> that linking appends for the declaration \<open>d\<close> at position \<open>k\<close>.\<close>

definition links ::
  "environment \<Rightarrow> v2_symbol list \<Rightarrow> expr_declaration \<Rightarrow> nat \<Rightarrow> linked_expression \<Rightarrow> bool" where
  "links env symbols d k x \<longleftrightarrow> lx_role x = decl_role d \<and> lx_owner_id x = decl_owner d \<and> lx_source_order x = k
     \<and> confit_v2_expression_parse (decl_source d) None = Inr (lx_expression x)
     \<and> confit_v2_expression_type_check (lx_expression x) env = Inr (lx_typed x)
     \<and> typed_root_type (lx_typed x) = decl_type d
     \<and> list_all2 (resolves symbols (decl_self d)) (reference_nodes (expression_root (lx_expression x))) (lx_references x)"

lemma lift_Inr [simp]: "lift_diagnostic r = Inr y \<longleftrightarrow> r = Inr y"
  by (auto simp: lift_diagnostic_def split: sum.splits)

lemma append_declaration_Inr:
  assumes "append_declaration d linked = Inr linked'"
  shows "if has_text d
    then \<exists>x. links (lp_bindings linked) (lp_symbols linked) d (length (lp_expressions linked)) x
      \<and> linked' = linked\<lparr>lp_expressions := lp_expressions linked @ [x]\<rparr>
    else linked' = linked"
proof (cases "has_text d")
  case True
  define finish where "finish parsed typed references = linked\<lparr>lp_expressions := lp_expressions linked @
    [\<lparr>lx_role = decl_role d, lx_owner_id = decl_owner d, lx_expression = parsed, lx_typed = typed,
      lx_references = references, lx_source_order = length (lp_expressions linked)\<rparr>]\<rparr>" for parsed typed references
  obtain parsed where p: "confit_v2_expression_parse (decl_source d) None = Inr parsed"
    and "bind_res (lift_diagnostic (confit_v2_expression_type_check parsed (lp_bindings linked))) (\<lambda>typed.
        if \<not> confit_v2_expression_type_equal (typed_root_type typed) (decl_type d)
        then Inl (Stop (confit_v2_link_diagnostic parsed (expression_root parsed) CONFIT_ERR_SCHEMA
                          ''linked expression result type does not match declaration''))
        else bind_res (confit_v2_link_collect_references (lp_symbols linked) parsed (decl_self d)
               (expression_root parsed) []) (\<lambda>references. Inr (finish parsed typed references))) = Inr linked'"
    using assms True unfolding append_declaration_def confit_v2_link_append_expression_def has_text_def finish_def
    by (auto elim: bind_res_InrE)
  then obtain typed where t: "confit_v2_expression_type_check parsed (lp_bindings linked) = Inr typed"
    and ty: "confit_v2_expression_type_equal (typed_root_type typed) (decl_type d)"
    and "bind_res (confit_v2_link_collect_references (lp_symbols linked) parsed (decl_self d)
        (expression_root parsed) []) (\<lambda>references. Inr (finish parsed typed references)) = Inr linked'"
    by (auto elim!: bind_res_InrE split: if_splits)
  then obtain references where r: "confit_v2_link_collect_references (lp_symbols linked) parsed (decl_self d)
      (expression_root parsed) [] = Inr references" "linked' = finish parsed typed references"
    by (auto elim: bind_res_InrE)
  from collect_sound(1) [OF r(1)]
  have "list_all2 (resolves (lp_symbols linked) (decl_self d)) (reference_nodes (expression_root parsed)) references"
    by simp
  with p t ty have "links (lp_bindings linked) (lp_symbols linked) d (length (lp_expressions linked))
     \<lparr>lx_role = decl_role d, lx_owner_id = decl_owner d, lx_expression = parsed, lx_typed = typed,
      lx_references = references, lx_source_order = length (lp_expressions linked)\<rparr>"
    by (simp add: links_def type_equal_iff)
  with r(2) True show ?thesis unfolding finish_def by (simp only: if_True) (rule exI, erule conjI, rule refl)
next
  case False
  with assms show ?thesis
    by (auto simp: append_declaration_def confit_v2_link_append_expression_def has_text_def)
qed

lemma fold_declarations_Inr:
  "fold_res append_declaration ds linked = Inr linked' \<Longrightarrow>
   \<exists>xs. linked' = linked\<lparr>lp_expressions := lp_expressions linked @ xs\<rparr>
     \<and> length xs = length (filter has_text ds)
     \<and> (\<forall>i < length xs. links (lp_bindings linked) (lp_symbols linked) (filter has_text ds ! i)
          (length (lp_expressions linked) + i) (xs ! i))"
proof (induction ds arbitrary: linked)
  case Nil
  then show ?case by (intro exI [of _ "[]"]) simp
next
  case (Cons d ds)
  then obtain mid where m: "append_declaration d linked = Inr mid" "fold_res append_declaration ds mid = Inr linked'"
    by (auto simp: bind_simps)
  from Cons.IH [OF m(2)] obtain xs where xs: "linked' = mid\<lparr>lp_expressions := lp_expressions mid @ xs\<rparr>"
    "length xs = length (filter has_text ds)"
    "\<forall>i < length xs. links (lp_bindings mid) (lp_symbols mid) (filter has_text ds ! i) (length (lp_expressions mid) + i) (xs ! i)"
    by blast
  show ?case
  proof (cases "has_text d")
    case True
    with append_declaration_Inr [OF m(1)] obtain x where
      x: "links (lp_bindings linked) (lp_symbols linked) d (length (lp_expressions linked)) x"
        "mid = linked\<lparr>lp_expressions := lp_expressions linked @ [x]\<rparr>" by auto
    with xs True show ?thesis
      by (intro exI [of _ "x # xs"]) (auto simp: nth_Cons split: nat.split)
  next
    case False
    with append_declaration_Inr [OF m(1)] xs show ?thesis by auto
  qed
qed

section \<open>Bindings\<close>

definition binding_of :: "v2_symbol \<Rightarrow> ebinding" where
  "binding_of s = \<lparr>bind_id = sym_id s,
     bind_type = confit_v2_expression_type_from_option_type (sym_type s) (Some (sym_id s)), bind_value = None\<rparr>"

lemma binding_of_sel [simp]: "bind_id (binding_of s) = sym_id s"
  by (simp add: binding_of_def)

lemma link_bindings_Inr:
  "link_bindings ns prev symbols = Inr bs \<Longrightarrow> bs = map binding_of symbols
     \<and> (\<forall>s \<in> set symbols. confit_v2_link_symbol_is_owned_by_namespace ns s
          \<and> et_kind (bind_type (binding_of s)) \<noteq> TYPE_INVALID)"
proof (induction ns prev symbols arbitrary: bs rule: link_bindings.induct)
  case (2 ns prev s symbols)
  then show ?case
    by (auto simp: Let_def binding_of_def split: if_splits elim!: bind_res_InrE)
qed simp

lemma link_bindings_ascending:
  "link_bindings ns prev symbols = Inr bs \<Longrightarrow> sorted (map sym_id symbols)
    \<Longrightarrow> (\<And>p. prev = Some p \<Longrightarrow> \<forall>s \<in> set symbols. sym_id p \<le> sym_id s)
    \<Longrightarrow> sorted_wrt (<) (map sym_id (case prev of None \<Rightarrow> symbols | Some p \<Rightarrow> p # symbols))"
proof (induction ns prev symbols arbitrary: bs rule: link_bindings.induct)
  case (2 ns prev s symbols)
  from 2(2) obtain cs where c: "link_bindings ns (Some s) symbols = Inr cs"
    and p: "prev = None \<or> sym_id (the prev) \<noteq> sym_id s"
    by (auto simp: Let_def strcmp_eq split: if_splits elim!: bind_res_InrE)
  have "sorted_wrt (<) (map sym_id (s # symbols))"
    using 2(1) [OF _ _ refl _ c] 2(2,3) by (auto simp: Let_def strcmp_eq split: if_splits)
  moreover have "sym_id p < sym_id s" if "prev = Some p" for p
    using p 2(4) [OF that] that by (simp add: order_less_le)
  ultimately show ?case by (auto split: option.splits)
qed (auto split: option.splits)

lemma link_bindings_error:
  "link_bindings ns prev symbols = Inl e \<Longrightarrow> schema_stop e"
  by (induction ns prev symbols rule: link_bindings.induct)
    (auto simp: Let_def schema_stop_def bind_simps split: if_splits)

lemma owned_id: "confit_v2_link_symbol_is_owned_by_namespace ns s \<Longrightarrow> char_at ns 0 \<noteq> NUL \<Longrightarrow> char_at (sym_id s) 0 \<noteq> NUL"
proof -
  assume o: "confit_v2_link_symbol_is_owned_by_namespace ns s" and n: "char_at ns 0 \<noteq> NUL"
  then have ns: "0 < length ns" using char_at_not_NUL by blast
  from o have t: "take (length ns) (sym_id s) = ns" by (simp add: confit_v2_link_symbol_is_owned_by_namespace_def)
  then have l: "length ns \<le> length (sym_id s)" by (metis length_take min.cobounded1)
  then have "sym_id s ! 0 = ns ! 0" using t ns by (metis nth_take)
  moreover have "0 < length (sym_id s)" using l ns by linarith
  ultimately show ?thesis using n ns by (simp add: char_at_def)
qed

lemma option_type_valid:
  "et_kind (bind_type (binding_of s)) \<noteq> TYPE_INVALID \<Longrightarrow> char_at (sym_id s) 0 \<noteq> NUL
    \<Longrightarrow> confit_v2_typecheck_type_is_valid (bind_type (binding_of s))"
  by (cases "sym_type s") (simp_all add: binding_of_def confit_v2_expression_type_from_option_type_def
      confit_v2_typecheck_type_is_valid_def nonempty_text_def simple_type_def)

lemma bindings_text_collections: "text_collections (map binding_of symbols)"
  by (auto simp: text_collections_def binding_of_def confit_v2_expression_type_from_option_type_def textual_def
      split: option_type.splits)

section \<open>The invariant of linked projects\<close>

definition record_ok :: "linked_project \<Rightarrow> linked_expression \<Rightarrow> bool" where
  "record_ok linked x \<longleftrightarrow> (\<exists>d k. expr_text (decl_source d) \<noteq> None
     \<and> links (lp_bindings linked) (lp_symbols linked) d k x)"

definition linked_ok :: "linked_project \<Rightarrow> bool" where
  "linked_ok linked \<longleftrightarrow> sorted_wrt (<) (map sym_id (lp_symbols linked))
     \<and> lp_bindings linked = map binding_of (lp_symbols linked)
     \<and> confit_v2_typecheck_environment_is_valid (lp_bindings linked)
     \<and> (\<forall>x \<in> set (lp_expressions linked). record_ok linked x)
     \<and> map lx_source_order (lp_expressions linked) = [0..<length (lp_expressions linked)]
     \<and> lp_expression_index linked = qsort_by confit_v2_link_expression_compare (lp_expressions linked)"

lemma link_project_cases:
  assumes "confit_v2_schema_link_project p = Inr linked"
  obtains ns xs where "project_namespace p = Some ns" "char_at ns 0 \<noteq> NUL"
    "link_bindings ns None (sort_key sym_id (project_symbols p)) = Inr (lp_bindings linked)"
    "lp_project linked = p" "lp_symbols linked = sort_key sym_id (project_symbols p)"
    "lp_expressions linked = xs"
    "lp_expression_index linked = qsort_by confit_v2_link_expression_compare xs"
    "length xs = length (filter has_text (project_declarations p))"
    "\<forall>i < length xs. links (lp_bindings linked) (lp_symbols linked) (filter has_text (project_declarations p) ! i) i (xs ! i)"
proof -
  obtain ns where ns: "project_namespace p = Some ns" "char_at ns 0 \<noteq> NUL"
    using assms by (auto simp: confit_v2_schema_link_project_def split: option.splits if_splits)
  from assms [unfolded link_project_declared [OF ns]] obtain bs mid where
    b: "link_bindings ns None (sort_key sym_id (project_symbols p)) = Inr bs"
    and m: "fold_res append_declaration (project_declarations p) (linked_start p bs) = Inr mid"
    and l: "linked = confit_v2_link_build_expression_index mid"
    by (auto elim!: bind_res_InrE)
  from fold_declarations_Inr [OF m] obtain xs where
    "mid = (linked_start p bs)\<lparr>lp_expressions := lp_expressions (linked_start p bs) @ xs\<rparr>"
    "length xs = length (filter has_text (project_declarations p))"
    "\<forall>i < length xs. links (lp_bindings (linked_start p bs)) (lp_symbols (linked_start p bs))
       (filter has_text (project_declarations p) ! i) (length (lp_expressions (linked_start p bs)) + i) (xs ! i)"
    by blast
  with that [OF ns] b l show thesis
    by (simp add: confit_v2_link_build_expression_index_def linked_start_def)
qed

lemma linked_project_ok: "confit_v2_schema_link_project p = Inr linked \<Longrightarrow> linked_ok linked"
proof (elim link_project_cases)
  fix ns xs
  assume ns: "char_at ns 0 \<noteq> NUL"
    and b: "link_bindings ns None (sort_key sym_id (project_symbols p)) = Inr (lp_bindings linked)"
    and s: "lp_symbols linked = sort_key sym_id (project_symbols p)" and x: "lp_expressions linked = xs"
    and i: "lp_expression_index linked = qsort_by confit_v2_link_expression_compare xs"
    and len: "length xs = length (filter has_text (project_declarations p))"
    and xs: "\<forall>i < length xs. links (lp_bindings linked) (lp_symbols linked) (filter has_text (project_declarations p) ! i) i (xs ! i)"
  have asc: "sorted_wrt (<) (map sym_id (lp_symbols linked))"
    using link_bindings_ascending [OF b] by (simp add: s)
  from link_bindings_Inr [OF b] have e: "lp_bindings linked = map binding_of (lp_symbols linked)"
    and o: "\<forall>t \<in> set (lp_symbols linked). confit_v2_link_symbol_is_owned_by_namespace ns t
          \<and> et_kind (bind_type (binding_of t)) \<noteq> TYPE_INVALID" by (simp_all add: s)
  have "distinct (map sym_id (lp_symbols linked))" using asc strict_sorted_iff by blast
  then have "confit_v2_typecheck_environment_is_valid (lp_bindings linked)"
    using o owned_id [OF _ ns] option_type_valid by (auto simp: environment_valid e o_def)
  moreover have "record_ok linked y" if y: "y \<in> set xs" for y
  proof -
    from y obtain i where i: "i < length xs" "y = xs ! i" by (auto simp: in_set_conv_nth)
    have "filter has_text (project_declarations p) ! i \<in> set (filter has_text (project_declarations p))"
      using i len by (intro nth_mem) simp
    with xs i show ?thesis unfolding record_ok_def by (auto simp: has_text_def)
  qed
  moreover have "map lx_source_order xs = [0..<length xs]"
    using xs by (intro nth_equalityI) (auto simp: links_def)
  ultimately show "linked_ok linked" using asc e i by (simp add: linked_ok_def x)
qed

text \<open>A linked project is a keyed store of its symbols.\<close>

interpretation linked_symbols: keyed_store linked_ok lp_symbols sym_id confit_v2_linked_project_find_symbol
proof unfold_locales
  fix linked k
  assume "linked_ok linked"
  then have asc: "sorted_wrt (<) (map sym_id (lp_symbols linked))" by (simp add: linked_ok_def)
  then show "distinct (map sym_id (lp_symbols linked))" using strict_sorted_iff by blast
  show "confit_v2_linked_project_find_symbol linked k = find (\<lambda>s. sym_id s = k) (lp_symbols linked)"
    unfolding confit_v2_linked_project_find_symbol_def confit_v2_link_find_symbol_def
    by (rule binary_find_lookup [OF asc])
qed

section \<open>Lookup of expressions\<close>

definition expression_key :: "linked_expression \<Rightarrow> linked_role \<times> string \<times> nat" where
  "expression_key x = (lx_role x, lx_owner_id x, lx_source_order x)"

lemma expression_compare_key: "compares expression_key confit_v2_link_expression_compare"
  unfolding compares_def
proof (intro allI)
  fix x y :: linked_expression
  consider "lx_role x < lx_role y" | "lx_role y < lx_role x" | "lx_role x = lx_role y" by fastforce
  then show "confit_v2_link_expression_compare x y \<le> 0 \<longleftrightarrow> expression_key x \<le> expression_key y"
    by cases (auto simp: confit_v2_link_expression_compare_def expression_key_def strcmp_eq strcmp_le Let_def)
qed

lemma find_occurrence_nth:
  "find_occurrence role owner k xs
     = (let ys = takeWhile (\<lambda>x. lx_role x = role \<and> lx_owner_id x = owner) xs
        in if k < length ys then Some (ys ! k) else None)"
  by (induction role owner k xs rule: find_occurrence.induct)
    (auto simp: Let_def strcmp_eq nth_Cons split: nat.splits)

lemma takeWhile_filter_sorted:
  assumes "sorted (map f xs)" "\<And>x. x \<in> set xs \<Longrightarrow> a \<le> f x"
  shows "takeWhile (\<lambda>x. f x = a) xs = filter (\<lambda>x. f x = a) xs"
  using assms
proof (induction xs)
  case (Cons x xs)
  show ?case
  proof (cases "f x = a")
    case False
    with Cons.prems have "a < f x" by (simp add: order_less_le)
    with Cons.prems(1) have "\<forall>y \<in> set xs. f y \<noteq> a" by fastforce
    with False show ?thesis by (simp add: filter_False)
  qed (use Cons in auto)
qed simp

lemma drop_lower_bound:
  fixes f :: "'a \<Rightarrow> 'k :: linorder"
  assumes "sorted (map f xs)"
  shows "takeWhile (\<lambda>x. f x = a) (drop (lower_bound (\<lambda>m. f (xs ! m) < a) 0 (length xs)) xs) = filter (\<lambda>x. f x = a) xs"
proof -
  define n where "n = lower_bound (\<lambda>m. f (xs ! m) < a) 0 (length xs)"
  have mono: "f (xs ! i) \<le> f (xs ! j)" if "i \<le> j" "j < length xs" for i j
    using sorted_nth_mono [OF assms] that by fastforce
  have m: "n \<le> length xs \<and> (\<forall>i < length xs. f (xs ! i) < a \<longleftrightarrow> i < n)"
    using lower_bound_spec [of 0 "length xs" "\<lambda>m. f (xs ! m) < a"] mono unfolding n_def by fastforce
  have "takeWhile (\<lambda>x. f x = a) (drop n xs) = filter (\<lambda>x. f x = a) (drop n xs)"
  proof (rule takeWhile_filter_sorted)
    show "sorted (map f (drop n xs))" using assms by (simp add: sorted_wrt_drop flip: drop_map)
    fix x assume "x \<in> set (drop n xs)"
    then obtain i where "i < length xs - n" "x = xs ! (n + i)" by (auto simp: in_set_conv_nth)
    then have "n + i < length xs" "x = xs ! (n + i)" by simp_all
    with m show "a \<le> f x" by (metis linorder_not_less not_add_less1)
  qed
  moreover have "f x \<noteq> a" if "x \<in> set (take n xs)" for x
  proof -
    from that obtain i where "i < n" "i < length xs" "x = xs ! i" by (auto simp: in_set_conv_nth)
    with m have "f x < a" by simp
    then show ?thesis by simp
  qed
  then have "filter (\<lambda>x. f x = a) (take n xs) = []" by (simp add: filter_False)
  ultimately show ?thesis unfolding n_def [symmetric] by (metis append_Nil append_take_drop_id filter_append)
qed

lemma find_expression_filter:
  assumes "linked_ok linked"
  shows "confit_v2_linked_project_find_expression linked role owner k
    = (let xs = filter (\<lambda>x. lx_role x = role \<and> lx_owner_id x = owner) (lp_expressions linked)
       in if k < length xs then Some (xs ! k) else None)"
proof -
  let ?xs = "lp_expressions linked" and ?f = "\<lambda>x. (lx_role x, lx_owner_id x)"
  let ?P = "\<lambda>x. lx_role x = role \<and> lx_owner_id x = owner"
  have idx: "lp_expression_index linked = sort_key expression_key ?xs"
    using assms qsort_by_sort_key [OF expression_compare_key] by (simp add: linked_ok_def)
  have sorted: "sorted (map ?f (sort_key expression_key ?xs))"
    using sorted_sort_key [of expression_key ?xs]
    unfolding sorted_map by (rule sorted_wrt_mono_rel [rotated]) (auto simp: expression_key_def)
  have eq: "(\<lambda>x. ?f x = (role, owner)) = ?P" by auto
  have before: "(\<lambda>m. let x = sort_key expression_key ?xs ! m
      in (if lx_role x = role then strcmp (lx_owner_id x) owner else if lx_role x < role then - 1 else 1) < 0)
    = (\<lambda>m. ?f (sort_key expression_key ?xs ! m) < (role, owner))"
    by (auto simp: Let_def strcmp_less fun_eq_iff)
  have "sorted (map lx_source_order ?xs)" using assms by (simp add: linked_ok_def)
  then have "sorted (map expression_key (filter ?P ?xs))"
    unfolding sorted_map sorted_wrt_filter
    by (intro sorted_wrt_mono_rel [OF _ sorted_wrt_filter]) (auto simp: expression_key_def)
  then have "filter ?P (sort_key expression_key ?xs) = filter ?P ?xs"
    by (simp add: filter_sort sort_key_id_if_sorted)
  with drop_lower_bound [OF sorted, of "(role, owner)", unfolded eq]
  show ?thesis
    unfolding confit_v2_linked_project_find_expression_def idx Let_def [of "sort_key _ _"] before
      find_occurrence_nth by (simp add: Let_def)
qed

section \<open>Errors and evaluation\<close>

definition texts_ok :: "v2_project \<Rightarrow> bool" where
  "texts_ok p \<longleftrightarrow> (\<forall>d \<in> set (project_declarations p). case expr_text (decl_source d) of
     None \<Rightarrow> True | Some s \<Rightarrow> is_cstring s)"

lemma typecheck_diagnostic_status:
  "confit_v2_typecheck_diagnostic ctx n message = Inl d \<Longrightarrow> diag_status d = CONFIT_ERR_SCHEMA"
  by (auto simp: confit_v2_typecheck_diagnostic_def)

lemma at_node_status: "at_node ctx n r = Inl d \<Longrightarrow> diag_status d = CONFIT_ERR_SCHEMA"
  by (auto simp: at_node_def typecheck_diagnostic_status split: sum.splits)

lemma append_type_status:
  "confit_v2_typecheck_append_type ctx n t table = Inl d \<Longrightarrow> diag_status d = CONFIT_ERR_SCHEMA"
  by (auto simp: confit_v2_typecheck_append_type_def typecheck_diagnostic_status split: if_splits)

lemmas typecheck_statuses = typecheck_diagnostic_status at_node_status append_type_status

lemma typecheck_error:
  "confit_v2_typecheck_node ctx n table = Inl d \<Longrightarrow> diag_status d = CONFIT_ERR_SCHEMA"
  "typecheck_arguments ctx ns table = Inl d \<Longrightarrow> diag_status d = CONFIT_ERR_SCHEMA"
  "typecheck_items ctx left ns table = Inl d \<Longrightarrow> diag_status d = CONFIT_ERR_SCHEMA"
  by (induction ctx n table and ctx ns table and ctx left ns table
      rule: confit_v2_typecheck_node_typecheck_arguments_typecheck_items.induct)
    (auto simp: bind_simps dest: typecheck_statuses split: option.splits if_splits list.splits)

lemma append_declaration_error:
  assumes "append_declaration d linked = Inl e" "confit_v2_typecheck_environment_is_valid (lp_bindings linked)"
    and "case expr_text (decl_source d) of None \<Rightarrow> True | Some s \<Rightarrow> is_cstring s"
  shows "schema_stop e"
proof (cases "expr_text (decl_source d)")
  case None
  with assms(1) show ?thesis by (simp add: append_declaration_def confit_v2_link_append_expression_def)
next
  case (Some s)
  with assms(3) have y: "yields (confit_v2_expression_parse (decl_source d) None)
      (parsed_from (decl_source d) (confit_v2_expression_effective_limits None))"
    by (intro parse_yields) simp_all
  have t: "schema_stop f" if "lift_diagnostic (confit_v2_expression_type_check x (lp_bindings linked)) = Inl f" for x f
    using that assms(2) typecheck_error(1)
    by (auto simp: lift_diagnostic_def schema_stop_def confit_v2_expression_type_check_def bind_simps
        split: sum.splits)
  have m: "schema_stop (Stop (confit_v2_link_diagnostic x n CONFIT_ERR_SCHEMA message))" for x n message
    by (simp add: schema_stop_def)
  show ?thesis
    using assms(1) Some y t m collect_error(1)
    unfolding append_declaration_def confit_v2_link_append_expression_def
    by (auto simp: bind_res_eq_Inl split: if_splits)
qed

lemma fold_declarations_error:
  "fold_res append_declaration ds linked = Inl e \<Longrightarrow> confit_v2_typecheck_environment_is_valid (lp_bindings linked)
    \<Longrightarrow> \<forall>d \<in> set ds. case expr_text (decl_source d) of None \<Rightarrow> True | Some s \<Rightarrow> is_cstring s
    \<Longrightarrow> schema_stop e"
proof (induction ds arbitrary: linked)
  case (Cons d ds)
  from Cons.prems(1) consider "append_declaration d linked = Inl e"
    | mid where "append_declaration d linked = Inr mid" "fold_res append_declaration ds mid = Inl e"
    by (auto simp: bind_res_eq_Inl)
  then show ?case
  proof cases
    case 1
    then show ?thesis using Cons.prems by (intro append_declaration_error [OF 1]) auto
  next
    case 2
    then show ?thesis using Cons.IH [OF 2(2)] append_declaration_frame [OF 2(1)] Cons.prems by auto
  qed
qed simp

lemma link_error:
  assumes "confit_v2_schema_link_project p = Inl e" "texts_ok p"
    and "project_namespace p = Some ns" "char_at ns 0 \<noteq> NUL"
  shows "schema_stop e"
proof -
  from assms(1) [unfolded link_project_declared [OF assms(3,4)]] consider
      "link_bindings ns None (sort_key sym_id (project_symbols p)) = Inl e"
    | bs where "link_bindings ns None (sort_key sym_id (project_symbols p)) = Inr bs"
        "fold_res append_declaration (project_declarations p) (linked_start p bs) = Inl e"
    by (auto simp: bind_res_eq_Inl)
  then show ?thesis
  proof cases
    case 1
    then show ?thesis by (rule link_bindings_error)
  next
    case 2
    from link_bindings_Inr [OF 2(1)] have e: "bs = map binding_of (sort_key sym_id (project_symbols p))"
      and o: "\<forall>s \<in> set (project_symbols p). confit_v2_link_symbol_is_owned_by_namespace ns s
          \<and> et_kind (bind_type (binding_of s)) \<noteq> TYPE_INVALID" by simp_all
    have "sorted_wrt (<) (map sym_id (sort_key sym_id (project_symbols p)))"
      using link_bindings_ascending [OF 2(1)] by simp
    then have "distinct (map sym_id (sort_key sym_id (project_symbols p)))" using strict_sorted_iff by blast
    then have "confit_v2_typecheck_environment_is_valid bs"
      using o owned_id [OF _ assms(4)] option_type_valid by (auto simp: environment_valid e o_def)
    then show ?thesis
      using fold_declarations_error [OF 2(2)] assms(2) by (simp add: texts_ok_def linked_start_def)
  qed
qed

lemma parse_keeps_source:
  "confit_v2_expression_parse src limits = Inr y \<Longrightarrow> expr_text src = Some s \<Longrightarrow> expression_source y = s"
  by (auto simp: confit_v2_expression_parse_def parse_error_def Let_def split: if_splits elim!: bind_res_InrE)

lemma linked_record_runs:
  assumes "linked_ok linked" "x \<in> set (lp_expressions linked)"
    and "is_cstring (expression_source (lx_expression x))"
  shows "confit_v2_expression_type_check (lx_expression x) (lp_bindings linked) = Inr (lx_typed x)
    \<and> distinct (map node_addr (post_nodes (expression_root (lx_expression x))))
    \<and> literals_ok (expression_root (lx_expression x)) \<and> text_collections (lp_bindings linked)"
proof -
  from assms(1,2) obtain d k s where d: "expr_text (decl_source d) = Some s"
    "links (lp_bindings linked) (lp_symbols linked) d k x"
    by (auto simp: linked_ok_def record_ok_def)
  then have p: "confit_v2_expression_parse (decl_source d) None = Inr (lx_expression x)" by (simp add: links_def)
  have "expression_source (lx_expression x) = s" by (rule parse_keeps_source [OF p d(1)])
  with assms(3) parsed_tree_ok [OF d(1) _ p] d(2) assms(1) show ?thesis
    by (simp add: links_def linked_ok_def bindings_text_collections)
qed

end
