(* ===== verification/Linked_Project.thy ===== *)
theory Linked_Project
  imports Linker_Correct Meaning
begin

text \<open>
  What a linked project promises its clients, over \<open>src/schema/v2/linker.c\<close>: its symbols and
  expressions, the lookups, the rejection of projects, the write domains, and the evaluation of
  linked expressions. The sample project is the one the concrete instances are stated for.
\<close>

section \<open>Acceptance\<close>

text \<open>When the declaration \<open>d\<close> can be linked.\<close>

definition linkable :: "environment \<Rightarrow> v2_symbol list \<Rightarrow> expr_declaration \<Rightarrow> bool" where
  "linkable env symbols d \<longleftrightarrow> (\<exists>x typed.
     confit_v2_expression_parse (decl_source d) None = Inr x
     \<and> confit_v2_expression_type_check x env = Inr typed \<and> typed_root_type typed = decl_type d
     \<and> (\<forall>m \<in> set (reference_nodes (expression_root x)).
          reference_id m \<in> sym_id ` set symbols \<and> decl_self d \<noteq> Some (reference_id m)))"

lemma all_resolved:
  "list_all2 (resolves symbols self_id) ms rs \<Longrightarrow> sorted_wrt (<) (map sym_id symbols)
    \<Longrightarrow> \<forall>m \<in> set ms. reference_id m \<in> sym_id ` set symbols \<and> self_id \<noteq> Some (reference_id m)"
proof (induction ms rs rule: list_all2_induct)
  case (Cons m ms r rs)
  from Cons.hyps(1) have "confit_v2_link_find_symbol symbols (reference_id m) = Some (lref_symbol r)"
    "self_id \<noteq> Some (sym_id (lref_symbol r))" by (simp_all add: resolves_def)
  moreover have "confit_v2_link_find_symbol symbols (reference_id m) = find (\<lambda>s. sym_id s = reference_id m) symbols"
    unfolding confit_v2_link_find_symbol_def by (rule binary_find_lookup [OF Cons.prems])
  ultimately have "lref_symbol r \<in> set symbols" "sym_id (lref_symbol r) = reference_id m"
    by (auto simp: find_Some_iff)
  with \<open>self_id \<noteq> _\<close> have "reference_id m \<in> sym_id ` set symbols \<and> self_id \<noteq> Some (reference_id m)" by force
  with Cons.IH [OF Cons.prems] show ?case by simp
qed simp

lemma collect_complete:
  "sorted_wrt (<) (map sym_id symbols)
    \<Longrightarrow> \<forall>m \<in> set (reference_nodes n). reference_id m \<in> sym_id ` set symbols \<and> self_id \<noteq> Some (reference_id m)
    \<Longrightarrow> \<exists>refs'. confit_v2_link_collect_references symbols x self_id n refs = Inr refs'"
  "sorted_wrt (<) (map sym_id symbols)
    \<Longrightarrow> \<forall>m \<in> set (concat (map reference_nodes ns)). reference_id m \<in> sym_id ` set symbols \<and> self_id \<noteq> Some (reference_id m)
    \<Longrightarrow> \<exists>refs'. link_collect_all symbols x self_id ns refs = Inr refs'"
proof (induction symbols x self_id n refs and symbols x self_id ns refs
    rule: confit_v2_link_collect_references_link_collect_all.induct)
  case (1 symbols x self_id loc r references)
  have f: "confit_v2_link_find_symbol symbols r = find (\<lambda>s. sym_id s = r) symbols"
    unfolding confit_v2_link_find_symbol_def by (rule binary_find_lookup [OF 1(1)])
  from 1(2) obtain s where "find (\<lambda>s. sym_id s = r) symbols = Some s"
    by (cases "find (\<lambda>s. sym_id s = r) symbols") (auto simp: find_None_iff)
  moreover then have "sym_id s = r" by (auto simp: find_Some_iff)
  ultimately show ?case using 1(2) by (cases self_id) (auto simp: f strcmp_eq)
next
  case (4 symbols x self_id loc b l r references)
  from 4 obtain mid where m: "confit_v2_link_collect_references symbols x self_id l references = Inr mid" by force
  from 4(2) [OF m] 4(3,4) m show ?case by simp
next
  case (5 symbols x self_id loc c t f references)
  from 5 obtain m1 where m1: "confit_v2_link_collect_references symbols x self_id c references = Inr m1" by force
  from 5(2) [OF m1] 5(4,5) obtain m2 where
    m2: "confit_v2_link_collect_references symbols x self_id t m1 = Inr m2" by auto
  from 5(3) [OF m1 m2] 5(4,5) m1 m2 show ?case by simp
next
  case (9 symbols x self_id n ns references)
  from 9 obtain mid where m: "confit_v2_link_collect_references symbols x self_id n references = Inr mid" by force
  from 9(2) [OF m] 9(3,4) m show ?case by simp
qed auto

lemma append_declaration_accepts:
  assumes "sorted_wrt (<) (map sym_id (lp_symbols linked))"
    and env: "confit_v2_typecheck_environment_is_valid (lp_bindings linked)"
  shows "(\<exists>linked'. append_declaration d linked = Inr linked')
    \<longleftrightarrow> \<not> has_text d \<or> linkable (lp_bindings linked) (lp_symbols linked) d"
proof (cases "has_text d")
  case True
  show ?thesis
  proof
    assume "\<exists>linked'. append_declaration d linked = Inr linked'"
    then obtain linked' where "append_declaration d linked = Inr linked'" ..
    from append_declaration_Inr [OF this] True obtain x where
      "links (lp_bindings linked) (lp_symbols linked) d (length (lp_expressions linked)) x" by auto
    then show "\<not> has_text d \<or> linkable (lp_bindings linked) (lp_symbols linked) d"
      using all_resolved [OF _ assms(1)] unfolding links_def linkable_def by blast
  next
    assume "\<not> has_text d \<or> linkable (lp_bindings linked) (lp_symbols linked) d"
    with True obtain x typed where x: "confit_v2_expression_parse (decl_source d) None = Inr x"
      "confit_v2_expression_type_check x (lp_bindings linked) = Inr typed" "typed_root_type typed = decl_type d"
      "\<forall>m \<in> set (reference_nodes (expression_root x)). reference_id m \<in> sym_id ` set (lp_symbols linked)
         \<and> decl_self d \<noteq> Some (reference_id m)"
      by (auto simp: linkable_def)
    from collect_complete(1) [OF assms(1) x(4)] obtain refs where
      "confit_v2_link_collect_references (lp_symbols linked) x (decl_self d) (expression_root x) [] = Inr refs" ..
    moreover have "confit_v2_expression_type_equal (typed_root_type typed) (decl_type d)"
      using type_check_typing [OF x(2)] typing_valid x(3) by (auto simp: type_equal_iff)
    ultimately show "\<exists>linked'. append_declaration d linked = Inr linked'"
      using True x by (simp add: append_declaration_def confit_v2_link_append_expression_def has_text_def lift_diagnostic_def)
  qed
next
  case False
  then show ?thesis by (simp add: append_declaration_def confit_v2_link_append_expression_def has_text_def)
qed

lemma fold_declarations_accepts:
  "sorted_wrt (<) (map sym_id (lp_symbols linked)) \<Longrightarrow> confit_v2_typecheck_environment_is_valid (lp_bindings linked)
    \<Longrightarrow> (\<exists>linked'. fold_res append_declaration ds linked = Inr linked')
      \<longleftrightarrow> (\<forall>d \<in> set ds. has_text d \<longrightarrow> linkable (lp_bindings linked) (lp_symbols linked) d)"
proof (induction ds arbitrary: linked)
  case (Cons d ds)
  show ?case
  proof (cases "append_declaration d linked")
    case (Inl e)
    with append_declaration_accepts [OF Cons.prems, of d] show ?thesis by auto
  next
    case (Inr mid)
    from append_declaration_frame [OF Inr] Cons.prems Cons.IH [of mid]
      append_declaration_accepts [OF Cons.prems, of d] Inr
    show ?thesis by auto
  qed
qed simp

lemma link_bindings_accepts:
  "sorted (map sym_id symbols) \<Longrightarrow> (\<And>p. prev = Some p \<Longrightarrow> \<forall>s \<in> set symbols. sym_id p \<le> sym_id s)
    \<Longrightarrow> (\<exists>bs. link_bindings ns prev symbols = Inr bs)
      \<longleftrightarrow> distinct (map sym_id (case prev of None \<Rightarrow> symbols | Some p \<Rightarrow> p # symbols))
        \<and> (\<forall>s \<in> set symbols. confit_v2_link_symbol_is_owned_by_namespace ns s \<and> sym_type s \<noteq> OPTION_INVALID)"
proof (induction ns prev symbols rule: link_bindings.induct)
  case (1 ns prev)
  then show ?case by (auto split: option.split)
next
  case (2 ns prev s symbols)
  have t: "et_kind (confit_v2_expression_type_from_option_type (sym_type s) (Some (sym_id s))) = TYPE_INVALID
      \<longleftrightarrow> sym_type s = OPTION_INVALID"
    by (cases "sym_type s") (simp_all add: confit_v2_expression_type_from_option_type_def simple_type_def)
  have sorted: "sorted (map sym_id symbols)" "\<forall>u \<in> set symbols. sym_id s \<le> sym_id u" using 2(2) by auto
  have new: "sym_id p \<noteq> sym_id s \<Longrightarrow> sym_id p \<notin> sym_id ` set symbols" if "prev = Some p" for p
    using 2(3) [OF that] sorted(2) by force
  have step: "(\<exists>bs. link_bindings ns prev (s # symbols) = Inr bs)
    \<longleftrightarrow> confit_v2_link_symbol_is_owned_by_namespace ns s \<and> (\<forall>p. prev = Some p \<longrightarrow> sym_id p \<noteq> sym_id s)
      \<and> sym_type s \<noteq> OPTION_INVALID \<and> (\<exists>bs. link_bindings ns (Some s) symbols = Inr bs)"
    by (cases prev) (auto simp: Let_def t strcmp_eq bind_simps)
  show ?case
  proof (cases "confit_v2_link_symbol_is_owned_by_namespace ns s \<and> (\<forall>p. prev = Some p \<longrightarrow> sym_id p \<noteq> sym_id s)
      \<and> sym_type s \<noteq> OPTION_INVALID")
    case True
    then have "(\<exists>bs. link_bindings ns (Some s) symbols = Inr bs)
      \<longleftrightarrow> distinct (map sym_id (case Some s of None \<Rightarrow> symbols | Some p \<Rightarrow> p # symbols))
        \<and> (\<forall>s \<in> set symbols. confit_v2_link_symbol_is_owned_by_namespace ns s \<and> sym_type s \<noteq> OPTION_INVALID)"
      using sorted by (intro 2(1)) (auto simp: Let_def t strcmp_eq)
    with True step new show ?thesis by (auto split: option.split)
  next
    case False
    with step show ?thesis by (auto split: option.split)
  qed
qed

definition project_linkable :: "v2_project \<Rightarrow> bool" where
  "project_linkable p \<longleftrightarrow> (\<exists>ns. project_namespace p = Some ns \<and> char_at ns 0 \<noteq> NUL
     \<and> distinct (map sym_id (project_symbols p))
     \<and> (\<forall>s \<in> set (project_symbols p). confit_v2_link_symbol_is_owned_by_namespace ns s \<and> sym_type s \<noteq> OPTION_INVALID)
     \<and> (\<forall>d \<in> set (project_declarations p). has_text d \<longrightarrow>
          linkable (map binding_of (sort_key sym_id (project_symbols p))) (sort_key sym_id (project_symbols p)) d))"

lemma link_project_accepts:
  "(\<exists>linked. confit_v2_schema_link_project p = Inr linked) \<longleftrightarrow> project_linkable p"
proof (cases "\<exists>ns. project_namespace p = Some ns \<and> char_at ns 0 \<noteq> NUL")
  case False
  then show ?thesis by (auto simp: project_linkable_def confit_v2_schema_link_project_def split: option.split)
next
  case True
  then obtain ns where ns: "project_namespace p = Some ns" "char_at ns 0 \<noteq> NUL" by blast
  let ?symbols = "sort_key sym_id (project_symbols p)"
  let ?owned = "\<forall>s \<in> set (project_symbols p). confit_v2_link_symbol_is_owned_by_namespace ns s \<and> sym_type s \<noteq> OPTION_INVALID"
  have dist: "distinct (map sym_id ?symbols) \<longleftrightarrow> distinct (map sym_id (project_symbols p))"
    by (metis mset_map mset_eq_imp_distinct_iff mset_sort)
  have b: "(\<exists>bs. link_bindings ns None ?symbols = Inr bs) \<longleftrightarrow> distinct (map sym_id (project_symbols p)) \<and> ?owned"
    using link_bindings_accepts [of ?symbols None ns] dist by simp
  show ?thesis
  proof (cases "link_bindings ns None ?symbols")
    case (Inl e)
    with b link_project_declared [OF ns] ns show ?thesis by (auto simp: project_linkable_def)
  next
    case (Inr bs)
    with b have ok: "distinct (map sym_id (project_symbols p))" ?owned by blast+
    from link_bindings_Inr [OF Inr] have e: "bs = map binding_of ?symbols"
      and o: "\<forall>s \<in> set ?symbols. confit_v2_link_symbol_is_owned_by_namespace ns s
          \<and> et_kind (bind_type (binding_of s)) \<noteq> TYPE_INVALID" by simp_all
    have "confit_v2_typecheck_environment_is_valid bs"
      using o owned_id [OF _ ns(2)] option_type_valid ok(1) dist by (auto simp: environment_valid e o_def)
    moreover have "sorted_wrt (<) (map sym_id ?symbols)" using link_bindings_ascending [OF Inr] by simp
    ultimately have "(\<exists>linked. fold_res append_declaration (project_declarations p) (linked_start p bs) = Inr linked)
      \<longleftrightarrow> (\<forall>d \<in> set (project_declarations p). has_text d \<longrightarrow> linkable bs ?symbols d)"
      using fold_declarations_accepts [of "linked_start p bs"] by (simp add: linked_start_def)
    then show ?thesis
      using ok ns Inr e by (auto simp: link_project_declared [OF ns] project_linkable_def bind_simps)
  qed
qed

section \<open>A sample project\<close>

definition sample_span :: source_span where
  "sample_span = \<lparr>span_path = Some ''schema.toml'', span_line = 1, span_column = 1, span_local_offset = 0\<rparr>"

definition sample_source :: "string option \<Rightarrow> expression_text" where
  "sample_source s = \<lparr>expr_text = s, expr_span = sample_span\<rparr>"

definition no_assignment :: assignment where
  "no_assignment = \<lparr>assign_is_set = False, assign_value = V_Unset, assign_span = sample_span\<rparr>"

definition sample_symbol :: "string \<Rightarrow> option_type \<Rightarrow> string option \<Rightarrow> v2_symbol" where
  "sample_symbol name t condition =
     \<lparr>sym_id = name, sym_type = t, sym_write_domain = DOMAIN_PROFILE, sym_stability = STABILITY_STABLE,
      sym_required = False, sym_user_override = True, sym_default_value = no_assignment,
      sym_range = \<lparr>range_is_set = False, range_min = V_Unset, range_max = V_Unset, range_span = sample_span\<rparr>,
      sym_values = [], sym_prompt = None, sym_help = None, sym_menu = None, sym_tags = [], sym_owner = None,
      sym_since = None, sym_emit_mask = 0, sym_computed = sample_source None,
      sym_available_if = sample_source condition, sym_visible_if = sample_source None,
      sym_defaults = [], sym_suggestions = [], sym_span = sample_span\<rparr>"

definition sample_project :: "v2_symbol list \<Rightarrow> v2_project" where
  "sample_project symbols =
     \<lparr>project_config_root = None, project_name = None, project_namespace = Some ''a'', project_version = None,
      project_default_target = None, project_default_target_span = sample_span,
      project_profile_dirs = [], project_target_dirs = [], project_selection_dirs = [], project_symbols = symbols,
      project_menus = [], project_choices = [], project_constraints = [], project_span = sample_span\<rparr>"

text \<open>Two options out of order, one available when the other is small.\<close>

definition sample_pair :: v2_project where
  "sample_pair = sample_project [sample_symbol ''a.c'' OPTION_BOOL (Some ''a.b < 3''), sample_symbol ''a.b'' OPTION_INT None]"

definition sample_linked :: linked_project where
  "sample_linked = (case confit_v2_schema_link_project sample_pair of
     Inr linked \<Rightarrow> linked
   | Inl e \<Rightarrow> \<lparr>lp_project = sample_pair, lp_symbols = [], lp_bindings = [], lp_expressions = [], lp_expression_index = []\<rparr>)"

lemma sample_link_accepted: "case confit_v2_schema_link_project sample_pair of Inl e \<Rightarrow> False | Inr linked \<Rightarrow> True"
  by code_simp

lemma sample_linked: "confit_v2_schema_link_project sample_pair = Inr sample_linked"
  using sample_link_accepted by (auto simp: sample_linked_def split: sum.splits)

lemma sample_facts:
  "map sym_id (lp_symbols sample_linked) = [''a.b'', ''a.c'']"
  "map lx_owner_id (lp_expressions sample_linked) = [''a.c'']"
  "map (expression_source \<circ> lx_expression) (lp_expressions sample_linked) = [''a.b < 3'']"
  by code_simp+

section \<open>Facts for clients\<close>

lemma linked_symbol_set: "confit_v2_schema_link_project p = Inr linked \<Longrightarrow> set (lp_symbols linked) = set (project_symbols p)"
  by (erule link_project_cases) simp

lemma linked_find_symbol:
  assumes "confit_v2_schema_link_project p = Inr linked"
  shows "confit_v2_linked_project_find_symbol linked name = Some s \<longleftrightarrow> s \<in> set (project_symbols p) \<and> sym_id s = name"
  using linked_symbols.lookup_Some [OF linked_project_ok [OF assms]] linked_symbol_set [OF assms] by simp

lemma linked_find_none:
  assumes "confit_v2_schema_link_project p = Inr linked"
  shows "confit_v2_linked_project_find_symbol linked name = None \<longleftrightarrow> name \<notin> sym_id ` set (project_symbols p)"
  using linked_symbols.lookup_None [OF linked_project_ok [OF assms]] linked_symbol_set [OF assms] by simp

lemma linked_record:
  assumes "confit_v2_schema_link_project p = Inr linked" "x \<in> set (lp_expressions linked)"
  obtains d k where "d \<in> set (project_declarations p)" "has_text d" "links (lp_bindings linked) (lp_symbols linked) d k x"
  using assms(1)
proof (rule link_project_cases)
  fix xs
  assume "lp_expressions linked = xs" and len: "length xs = length (filter has_text (project_declarations p))"
    and l: "\<forall>i < length xs. links (lp_bindings linked) (lp_symbols linked) (filter has_text (project_declarations p) ! i) i (xs ! i)"
  then obtain i where i: "i < length xs" "x = xs ! i" using assms(2) by (auto simp: in_set_conv_nth)
  then have "filter has_text (project_declarations p) ! i \<in> set (filter has_text (project_declarations p))"
    using len by (intro nth_mem) simp
  with l i that show thesis by auto
qed

lemma linked_records:
  assumes "confit_v2_schema_link_project p = Inr linked"
  shows "list_all2 (\<lambda>(k, d) x. links (lp_bindings linked) (lp_symbols linked) d k x)
    (enumerate 0 (filter has_text (project_declarations p))) (lp_expressions linked)"
  using assms
proof (rule link_project_cases)
  fix xs
  assume "lp_expressions linked = xs" "length xs = length (filter has_text (project_declarations p))"
    and "\<forall>i < length xs. links (lp_bindings linked) (lp_symbols linked) (filter has_text (project_declarations p) ! i) i (xs ! i)"
  then show ?thesis by (simp add: list_all2_conv_all_nth nth_enumerate_eq)
qed

lemma linked_source:
  assumes "confit_v2_schema_link_project p = Inr linked" "x \<in> set (lp_expressions linked)" "texts_ok p"
  shows "is_cstring (expression_source (lx_expression x))"
  using assms(1,2)
proof (rule linked_record)
  fix d k
  assume "d \<in> set (project_declarations p)" "has_text d" and l: "links (lp_bindings linked) (lp_symbols linked) d k x"
  then obtain s where "expr_text (decl_source d) = Some s" "is_cstring s"
    using assms(3) by (force simp: texts_ok_def has_text_def split: option.splits)
  with l show ?thesis using parse_keeps_source by (auto simp: links_def)
qed

text \<open>An enum type names one option, and only a reference has it.\<close>

definition enum_owners :: "etype \<Rightarrow> string option set" where
  "enum_owners t = (if et_kind t = TYPE_ENUM then {et_enum_id t}
     else if et_kind t = TYPE_COLLECTION \<and> et_element_kind t = TYPE_ENUM then {et_element_enum_id t} else {})"

lemma enum_owners_simple [simp]:
  "k \<noteq> TYPE_ENUM \<Longrightarrow> enum_owners (simple_type k) = {}" "enum_owners (literal_type l) = {}"
  by (auto simp: enum_owners_def simple_type_def literal_type_def split: expr_literal.splits)

lemma enum_owners_collection [simp]: "et_kind t \<noteq> TYPE_COLLECTION \<Longrightarrow> enum_owners (collection_of t) = enum_owners t"
  by (auto simp: enum_owners_def collection_of_def)

lemma enum_from_reference:
  "typing env n t \<Longrightarrow> enum_owners t \<noteq> {} \<Longrightarrow>
     \<exists>m \<in> set (reference_nodes n). \<exists>u. lookup_type env (reference_id m) = Some u \<and> enum_owners u = enum_owners t"
proof (induction rule: typing.induct)
  case (t_list ns t loc)
  then obtain n ms where ns: "ns = n # ms" by (cases ns) auto
  moreover have e: "enum_owners (collection_of t) = enum_owners t" using t_list.hyps by auto
  ultimately obtain m u where "m \<in> set (reference_nodes n)" "lookup_type env (reference_id m) = Some u"
    "enum_owners u = enum_owners t" using t_list.IH [of n] t_list.prems by auto
  with ns e show ?case by (intro bexI [of _ m]) auto
next
  case (t_sign u n t loc)
  then show ?case by (auto simp: enum_owners_def)
next
  case (t_arithmetic b l t r loc)
  then show ?case by (auto simp: enum_owners_def numeric_def)
next
  case (t_conditional c n t m loc)
  then show ?case by auto
qed simp_all

lemma binding_enum_owners: "enum_owners (bind_type (binding_of s)) \<subseteq> {Some (sym_id s)}"
  by (cases "sym_type s") (auto simp: binding_of_def confit_v2_expression_type_from_option_type_def enum_owners_def simple_type_def)

lemma enum_not_own_expression:
  assumes "links (map binding_of symbols) symbols d k x" "sorted_wrt (<) (map sym_id symbols)"
    and "decl_self d = Some name" "Some name \<in> enum_owners (decl_type d)"
  shows False
proof -
  from assms(1) have "confit_v2_expression_type_check (lx_expression x) (map binding_of symbols) = Inr (lx_typed x)"
    and rs: "list_all2 (resolves symbols (Some name)) (reference_nodes (expression_root (lx_expression x))) (lx_references x)"
    and ty: "typed_root_type (lx_typed x) = decl_type d" by (simp_all add: links_def assms(3))
  then have "typing (map binding_of symbols) (expression_root (lx_expression x)) (decl_type d)"
    using type_check_typing by metis
  from enum_from_reference [OF this] assms(4) obtain m u where
    m: "m \<in> set (reference_nodes (expression_root (lx_expression x)))"
      "lookup_type (map binding_of symbols) (reference_id m) = Some u" "enum_owners u = enum_owners (decl_type d)" by blast
  from m(2) obtain s where "sym_id s = reference_id m" "u = bind_type (binding_of s)"
    by (auto simp: lookup_type_def find_Some_iff)
  with m(3) assms(4) binding_enum_owners [of s] have "reference_id m = name" by auto
  with all_resolved [OF rs assms(2)] m(1) show False by blast
qed

section \<open>Properties\<close>

text \<open>C4. Linking accepts exactly the projects whose symbols are distinct, typed and in the project's
  namespace, and whose expressions parse, have the declared type, and refer to declared options
  other than their own.\<close>

theorem link_project_accepts_exactly:
  "(\<exists>linked. confit_v2_schema_link_project p = Inr linked) \<longleftrightarrow> project_linkable p"
  by (rule link_project_accepts)

text \<open>A linked project holds the symbols of the project in strictly ascending order of their
  ids, and the lookup by id finds exactly the declared symbol with that id.\<close>

theorem linked_symbols_canonical:
  assumes "confit_v2_schema_link_project p = Inr linked"
  shows "sorted_wrt (<) (map sym_id (lp_symbols linked)) \<and> mset (lp_symbols linked) = mset (project_symbols p)
    \<and> (confit_v2_linked_project_find_symbol linked name = Some s \<longleftrightarrow> s \<in> set (project_symbols p) \<and> sym_id s = name)
    \<and> (confit_v2_linked_project_find_symbol linked name = None \<longleftrightarrow> name \<notin> sym_id ` set (project_symbols p))"
  using linked_find_symbol [OF assms] linked_find_none [OF assms] linked_project_ok [OF assms] assms
  by (auto simp: linked_ok_def elim: link_project_cases)

lemma linked_symbols_canonical_witness:
  "sorted_wrt (<) (map sym_id (lp_symbols sample_linked))
    \<and> confit_v2_linked_project_find_symbol sample_linked ''a.c'' \<noteq> None"
proof -
  have "''a.c'' \<in> sym_id ` set (project_symbols sample_pair)"
    by (simp add: sample_pair_def sample_project_def sample_symbol_def)
  with linked_symbols_canonical [OF sample_linked, of "''a.c''"] show ?thesis by blast
qed

text \<open>C28. A linked project has one record for each declared expression, in the order of the
  declarations: it has the role and owner of the declaration, the parsed expression, the types of
  its nodes with the declared type at the root, and for each reference in the expression, in
  order, the symbol it names, which is never the owner of a symbol's expression.\<close>

theorem linked_expressions_complete:
  assumes "confit_v2_schema_link_project p = Inr linked"
  shows "list_all2 (\<lambda>(k, d) x. links (lp_bindings linked) (lp_symbols linked) d k x)
    (enumerate 0 (filter has_text (project_declarations p))) (lp_expressions linked)"
  by (rule linked_records [OF assms])

lemma linked_expressions_complete_witness:
  "length (lp_expressions sample_linked) = length (filter has_text (project_declarations sample_pair))"
  using list_all2_lengthD [OF linked_expressions_complete [OF sample_linked]] by simp

text \<open>The lookup of an expression by role, owner and occurrence, a binary search in the sorted
  index, returns that occurrence in declaration order, or nothing when there are fewer.\<close>

theorem find_expression_occurrence:
  assumes "confit_v2_schema_link_project p = Inr linked"
  shows "confit_v2_linked_project_find_expression linked role owner_id k
    = (let xs = filter (\<lambda>x. lx_role x = role \<and> lx_owner_id x = owner_id) (lp_expressions linked)
       in if k < length xs then Some (xs ! k) else None)"
  by (rule find_expression_filter [OF linked_project_ok [OF assms]])

lemma find_expression_occurrence_witness:
  "confit_v2_linked_project_find_expression sample_linked ROLE_AVAILABLE_IF ''a.c'' 7 = None"
proof -
  have "length (lp_expressions sample_linked) = 1" using arg_cong [OF sample_facts(2), of length] by simp
  then have "length (filter P (lp_expressions sample_linked)) \<le> 1" for P
    by (metis length_filter_le)
  then show ?thesis
    using find_expression_occurrence [OF sample_linked, of ROLE_AVAILABLE_IF "''a.c''" 7]
    by (simp add: Let_def not_less order.trans [of _ "Suc 0" 7])
qed

text \<open>C29. Linking ends with a linked project or a diagnostic: a schema error, or an invalid argument
  when the project has no namespace; the parser's recursion never runs out of fuel.\<close>

theorem link_project_errors:
  assumes "texts_ok p"
  shows "case confit_v2_schema_link_project p of
      Inr linked \<Rightarrow> True
    | Inl (Stop d) \<Rightarrow> diag_status d = (if \<exists>ns. project_namespace p = Some ns \<and> char_at ns 0 \<noteq> NUL
        then CONFIT_ERR_SCHEMA else CONFIT_ERR_INVALID_ARGUMENT)
    | Inl Out_Of_Fuel \<Rightarrow> False"
proof (cases "\<exists>ns. project_namespace p = Some ns \<and> char_at ns 0 \<noteq> NUL")
  case True
  then show ?thesis using link_error [OF _ assms] by (auto simp: schema_stop_def split: sum.split)
next
  case False
  then show ?thesis
    by (auto simp: confit_v2_schema_link_project_def confit_diagnostic_set_def confit_diagnostic_set_detail_def
        split: option.split)
qed

lemma link_project_errors_witness:
  "case confit_v2_schema_link_project (sample_project [sample_symbol ''b.x'' OPTION_INT None]) of
     Inl (Stop d) \<Rightarrow> diag_status d = CONFIT_ERR_SCHEMA | _ \<Rightarrow> False"
proof -
  let ?p = "sample_project [sample_symbol ''b.x'' OPTION_INT None]"
  have "texts_ok ?p"
    by (auto simp: texts_ok_def project_declarations_def symbol_declarations_def declare_expression_def sample_project_def
        sample_symbol_def sample_source_def Let_def)
  moreover have "\<not> project_linkable ?p"
    by (simp add: project_linkable_def sample_project_def sample_symbol_def
        confit_v2_link_symbol_is_owned_by_namespace_def)
  moreover have "\<exists>ns. project_namespace ?p = Some ns \<and> char_at ns 0 \<noteq> NUL" by (simp add: sample_project_def)
  ultimately show ?thesis
    using link_project_errors [of ?p] link_project_accepts [of ?p] by (auto split: sum.splits parse_stop.splits)
qed

text \<open>Which writers an option accepts.\<close>

definition accepted_writers :: "v2_symbol \<Rightarrow> assignment_writer set" where
  "accepted_writers s = (case sym_write_domain s of
     DOMAIN_COMPUTED \<Rightarrow> {WRITER_COMPUTED}
   | DOMAIN_PROFILE \<Rightarrow> {WRITER_SCHEMA, WRITER_PROFILE} \<union> (if sym_user_override s then {WRITER_USER} else {})
   | DOMAIN_TARGET \<Rightarrow> {WRITER_SCHEMA, WRITER_TARGET} \<union> (if sym_user_override s then {WRITER_USER} else {})
   | _ \<Rightarrow> {WRITER_SCHEMA})"

lemma accepted_writers_iff:
  "w \<in> accepted_writers s \<longleftrightarrow> \<not> (sym_write_domain s = DOMAIN_COMPUTED \<and> w \<noteq> WRITER_COMPUTED) \<and> writer_allowed w s"
  by (cases "sym_write_domain s"; cases w) (auto simp: accepted_writers_def writer_allowed_def)

lemma validate_write_outcome:
  assumes "confit_v2_schema_link_project p = Inr linked"
  shows "case confit_v2_linked_project_validate_write linked request of
      Inr u \<Rightarrow> \<exists>s \<in> set (project_symbols p). sym_id s = wr_option_id request \<and> wr_writer request \<in> accepted_writers s
    | Inl d \<Rightarrow> (\<forall>s \<in> set (project_symbols p). sym_id s = wr_option_id request \<longrightarrow> wr_writer request \<notin> accepted_writers s)
        \<and> diag_status d = (if char_at (wr_option_id request) 0 = NUL then CONFIT_ERR_INVALID_ARGUMENT else CONFIT_ERR_SCHEMA)"
proof (cases "char_at (wr_option_id request) 0 = NUL")
  case True
  from assms obtain ns where ns: "char_at ns 0 \<noteq> NUL" "link_bindings ns None (sort_key sym_id (project_symbols p)) = Inr (lp_bindings linked)"
    by (rule link_project_cases) blast
  from link_bindings_Inr [OF ns(2)]
  have "\<forall>s \<in> set (project_symbols p). char_at (sym_id s) 0 \<noteq> NUL" using owned_id [OF _ ns(1)] by auto
  with True have "\<forall>s \<in> set (project_symbols p). sym_id s \<noteq> wr_option_id request" by auto
  with True show ?thesis
    by (simp add: confit_v2_linked_project_validate_write_def confit_diagnostic_set_def confit_diagnostic_set_detail_def)
next
  case False
  let ?find = "confit_v2_link_find_symbol (lp_symbols linked) (wr_option_id request)"
  note found = linked_find_symbol [OF assms, unfolded confit_v2_linked_project_find_symbol_def]
  note missing = linked_find_none [OF assms, unfolded confit_v2_linked_project_find_symbol_def]
  show ?thesis
  proof (cases ?find)
    case None
    then have "wr_option_id request \<notin> sym_id ` set (project_symbols p)" by (simp add: missing)
    then have "\<forall>s \<in> set (project_symbols p). sym_id s \<noteq> wr_option_id request" by (metis imageI)
    with None False show ?thesis by (simp add: confit_v2_linked_project_validate_write_def)
  next
    case (Some s)
    have unique: "t = s" if "t \<in> set (project_symbols p)" "sym_id t = wr_option_id request" for t
      using that found [THEN iffD2, of t] Some by simp
    from Some have s: "s \<in> set (project_symbols p)" "sym_id s = wr_option_id request" by (simp_all add: found)
    have ex: "(\<exists>t \<in> set (project_symbols p). sym_id t = wr_option_id request \<and> wr_writer request \<in> accepted_writers t)
        \<longleftrightarrow> wr_writer request \<in> accepted_writers s" using s unique by metis
    have all: "(\<forall>t \<in> set (project_symbols p). sym_id t = wr_option_id request \<longrightarrow> wr_writer request \<notin> accepted_writers t)
        \<longleftrightarrow> wr_writer request \<notin> accepted_writers s" using s unique by metis
    show ?thesis unfolding ex all
      by (simp add: confit_v2_linked_project_validate_write_def Some False accepted_writers_iff)
  qed
qed

text \<open>C30. A write request is accepted exactly when its option is declared and the option's write
  domain accepts the writer; a computed option is written by the evaluator alone, and a user only
  overrides profile and target options that allow it. A refused request is a schema error, or an
  invalid argument when it names no option.\<close>

theorem validate_write_domains:
  assumes "confit_v2_schema_link_project p = Inr linked"
  shows "case confit_v2_linked_project_validate_write linked request of
      Inr u \<Rightarrow> \<exists>s \<in> set (project_symbols p). sym_id s = wr_option_id request \<and> wr_writer request \<in> accepted_writers s
    | Inl d \<Rightarrow> (\<forall>s \<in> set (project_symbols p). sym_id s = wr_option_id request \<longrightarrow> wr_writer request \<notin> accepted_writers s)
        \<and> diag_status d = (if char_at (wr_option_id request) 0 = NUL then CONFIT_ERR_INVALID_ARGUMENT else CONFIT_ERR_SCHEMA)"
  by (rule validate_write_outcome [OF assms])

lemma validate_write_domains_witness:
  "case confit_v2_linked_project_validate_write sample_linked
      \<lparr>wr_option_id = ''a.b'', wr_writer = WRITER_TARGET, wr_is_unset = False, wr_span = sample_span\<rparr> of
     Inl d \<Rightarrow> diag_status d = CONFIT_ERR_SCHEMA | Inr u \<Rightarrow> False"
proof -
  let ?r = "\<lparr>wr_option_id = ''a.b'', wr_writer = WRITER_TARGET, wr_is_unset = False, wr_span = sample_span\<rparr>"
  have n: "char_at (wr_option_id ?r) 0 \<noteq> NUL" by (simp add: char_at_def)
  have "\<not> (\<exists>s \<in> set (project_symbols sample_pair). sym_id s = ''a.b'' \<and> WRITER_TARGET \<in> accepted_writers s)"
    by (simp add: sample_pair_def sample_project_def sample_symbol_def accepted_writers_def)
  with n validate_write_domains [OF sample_linked, of ?r] show ?thesis by (auto split: sum.splits)
qed

section \<open>Evaluation of linked expressions\<close>

lemma linked_expression_runs:
  assumes "confit_v2_schema_link_project p = Inr linked" "x \<in> set (lp_expressions linked)" "texts_ok p"
  shows "confit_v2_expression_type_check (lx_expression x) (lp_bindings linked) = Inr (lx_typed x)"
    and "distinct (map node_addr (post_nodes (expression_root (lx_expression x))))"
    and "Literal loc l \<in> set (subnodes (expression_root (lx_expression x))) \<Longrightarrow> literal_ok l"
    and "text_collections (lp_bindings linked)"
  using linked_record_runs [OF linked_project_ok [OF assms(1)] assms(2) linked_source [OF assms]]
  by (auto simp: literals_ok_def)

text \<open>C19. From the text of a declaration to its value: every expression of a linked project, in a
  runtime environment that supplies the options, evaluates to what the reference semantics gives
  for its tree, so that linking rules out every type error at run time.\<close>

theorem linked_expressions_meaning:
  assumes "confit_v2_schema_link_project p = Inr linked" "x \<in> set (lp_expressions linked)" "texts_ok p"
    and "supplies (lp_bindings linked) rt"
  shows "observe (confit_v2_expression_evaluate (lx_typed x) rt)
    = meaning (store_of rt) (expression_root (lx_expression x))"
  by (rule evaluation_meaning [OF linked_expression_runs [OF assms(1-3)] assms(4)])

definition sample_values :: environment where
  "sample_values =
     [\<lparr>bind_id = ''a.b'', bind_type = simple_type TYPE_INT, bind_value = Some (V_Int 2)\<rparr>,
      \<lparr>bind_id = ''a.c'', bind_type = bool_type, bind_value = None\<rparr>]"

lemma sample_bindings:
  "lp_bindings sample_linked = map (\<lambda>b. b\<lparr>bind_value := None\<rparr>) sample_values"
  by code_simp

lemma sample_condition_true:
  "map (\<lambda>x. case confit_v2_expression_evaluate (lx_typed x) sample_values of
     Inr v \<Rightarrow> (ev_is_set v, ev_value v) | Inl e \<Rightarrow> (False, V_Unset)) (lp_expressions sample_linked) = [(True, V_Bool 1)]"
  by code_simp

lemma linked_expressions_meaning_witness:
  "map (\<lambda>x. meaning (store_of sample_values) (expression_root (lx_expression x))) (lp_expressions sample_linked)
     = [Inr (Some (S_Bool True))]"
proof -
  have "texts_ok sample_pair"
    by (auto simp: texts_ok_def project_declarations_def symbol_declarations_def declare_expression_def sample_pair_def
        sample_project_def sample_symbol_def sample_source_def is_cstring_def Let_def)
  moreover have "supplies (lp_bindings sample_linked) sample_values"
    by (simp add: supplies_def lookup_type_def sample_bindings sample_values_def confit_v2_evaluate_find_binding_def
        confit_v2_evaluate_type_value_matches_def spec_simps)
  moreover obtain x where x: "lp_expressions sample_linked = [x]"
    using arg_cong [OF sample_facts(2), of length] by (auto simp: length_Suc_conv)
  ultimately have "observe (confit_v2_expression_evaluate (lx_typed x) sample_values)
      = meaning (store_of sample_values) (expression_root (lx_expression x))"
    using linked_expressions_meaning [OF sample_linked] by simp
  then show ?thesis using sample_condition_true
    by (auto simp: x observe_def split: sum.splits fault.splits)
qed

text \<open>C37. A computed expression of a declaration that links has a type other than an enum or a set of
  one: no literal has such a type and the option may not refer to itself, so a computed option of
  enum or enum-set type is always rejected.\<close>

theorem computed_enum_rejected:
  assumes "s \<in> set (project_symbols p)" "sym_type s \<in> {OPTION_ENUM, OPTION_ENUM_SET}"
    and "expr_text (sym_computed s) \<noteq> None"
  shows "\<exists>e. confit_v2_schema_link_project p = Inl e"
proof (rule ccontr)
  assume "\<nexists>e. confit_v2_schema_link_project p = Inl e"
  then obtain linked where l: "confit_v2_schema_link_project p = Inr linked"
    by (cases "confit_v2_schema_link_project p") auto
  let ?d = "declare_expression ROLE_COMPUTED (sym_id s) (Some (sym_id s)) (sym_computed s)
    (confit_v2_expression_type_from_option_type (sym_type s) (Some (sym_id s)))"
  from linked_project_ok [OF l] have asc: "sorted_wrt (<) (map sym_id (lp_symbols linked))"
    and b: "lp_bindings linked = map binding_of (lp_symbols linked)" by (simp_all add: linked_ok_def)
  have "?d \<in> set (filter has_text (project_declarations p))"
    using assms(1,3) by (auto simp: project_declarations_def symbol_declarations_def has_text_def
        declare_expression_def Let_def)
  then obtain i where i: "i < length (filter has_text (project_declarations p))"
    "filter has_text (project_declarations p) ! i = ?d" by (metis in_set_conv_nth)
  have "\<exists>x. links (lp_bindings linked) (lp_symbols linked) ?d i x"
    using l
  proof (rule link_project_cases)
    fix xs
    assume "length xs = length (filter has_text (project_declarations p))"
      and "\<forall>i < length xs. links (lp_bindings linked) (lp_symbols linked) (filter has_text (project_declarations p) ! i) i (xs ! i)"
    with i show ?thesis by metis
  qed
  then obtain x where x: "links (map binding_of (lp_symbols linked)) (lp_symbols linked) ?d i x"
    unfolding b by blast
  have "Some (sym_id s) \<in> enum_owners (decl_type ?d)" "decl_self ?d = Some (sym_id s)"
    using assms(2) by (auto simp: declare_expression_def confit_v2_expression_type_from_option_type_def
        enum_owners_def simple_type_def)
  with enum_not_own_expression [OF x asc] show False by blast
qed

lemma computed_enum_rejected_witness:
  "\<exists>e. confit_v2_schema_link_project (sample_project
     [(sample_symbol ''a.m'' OPTION_ENUM None)\<lparr>sym_computed := sample_source (Some ''\"x\"'')\<rparr>]) = Inl e"
  by (rule computed_enum_rejected
      [of "(sample_symbol ''a.m'' OPTION_ENUM None)\<lparr>sym_computed := sample_source (Some ''\"x\"'')\<rparr>"])
    (simp_all add: sample_project_def sample_symbol_def sample_source_def)

end
