(* ===== verification/Structure_Correct.thy ===== *)
theory Structure_Correct
  imports Structure Linked_Project
begin

text \<open>
  Facts about the structure compiler on a linked project: the linked expressions it looks up are
  those of the declarations, it accepts exactly the well-formed structures, its only errors are
  schema errors, and the graphs hold the references of the expressions by kind.
\<close>

section \<open>Expressions of declarations\<close>

lemma list_all2_filter:
  "list_all2 R xs ys \<Longrightarrow> (\<And>x y. R x y \<Longrightarrow> P x \<longleftrightarrow> Q y) \<Longrightarrow> list_all2 R (filter P xs) (filter Q ys)"
  by (induction rule: list_all2_induct) auto

definition declared_for :: "v2_project \<Rightarrow> linked_role \<Rightarrow> string \<Rightarrow> expr_declaration list" where
  "declared_for p role owner =
     filter (\<lambda>d. decl_role d = role \<and> decl_owner d = owner) (filter has_text (project_declarations p))"

text \<open>A linked record for a declaration, at some position.\<close>

definition linked_from :: "linked_project \<Rightarrow> expr_declaration \<Rightarrow> linked_expression \<Rightarrow> bool" where
  "linked_from linked d x \<longleftrightarrow> (\<exists>k. links (lp_bindings linked) (lp_symbols linked) d k x)"

lemma linked_from_records:
  assumes "confit_v2_schema_link_project p = Inr linked"
  shows "list_all2 (linked_from linked) (filter has_text (project_declarations p)) (lp_expressions linked)"
proof -
  have "list_all2 (\<lambda>q x. linked_from linked (snd q) x)
      (enumerate 0 (filter has_text (project_declarations p))) (lp_expressions linked)"
    by (rule list_all2_mono [OF linked_records [OF assms]]) (auto simp: linked_from_def)
  then show ?thesis by (simp add: list_all2_conv_all_nth nth_enumerate_eq)
qed

lemma find_declared:
  assumes "confit_v2_schema_link_project p = Inr linked"
  shows "case confit_v2_structure_find_expression linked role owner k of
      None \<Rightarrow> length (declared_for p role owner) \<le> k
    | Some x \<Rightarrow> k < length (declared_for p role owner) \<and> linked_from linked (declared_for p role owner ! k) x"
proof -
  have "list_all2 (linked_from linked) (declared_for p role owner)
      (filter (\<lambda>x. lx_role x = role \<and> lx_owner_id x = owner) (lp_expressions linked))"
    unfolding declared_for_def
    by (rule list_all2_filter [OF linked_from_records [OF assms]]) (auto simp: linked_from_def links_def)
  then show ?thesis
    unfolding confit_v2_structure_find_expression_def find_expression_filter [OF linked_project_ok [OF assms]]
    by (auto simp: Let_def list_all2_conv_all_nth)
qed

lemma find_declared_Some:
  assumes "confit_v2_schema_link_project p = Inr linked" "k < length (declared_for p role owner)"
  obtains x where "confit_v2_structure_find_expression linked role owner k = Some x"
    "linked_from linked (declared_for p role owner ! k) x"
  using find_declared [OF assms(1), of role owner k] assms(2) by (auto split: option.splits)

lemma find_declared_None:
  assumes "confit_v2_schema_link_project p = Inr linked" "declared_for p role owner = []"
  shows "confit_v2_structure_find_expression linked role owner k = None"
  using find_declared [OF assms(1), of role owner k] assms(2) by (auto split: option.splits)

text \<open>The declarations of each role: those of the symbols, of the menus, of the choices and of the
  constraints have different roles.\<close>

lemma symbol_roles: "d \<in> set (symbol_declarations s) \<Longrightarrow> decl_role d \<in>
    {ROLE_COMPUTED, ROLE_AVAILABLE_IF, ROLE_VISIBLE_IF, ROLE_DEFAULT_WHEN, ROLE_SUGGESTION_WHEN}"
  by (auto simp: symbol_declarations_def declare_expression_def Let_def)

lemma choice_roles: "d \<in> set (choice_declarations c) \<Longrightarrow> decl_owner d = choice_id c \<and> decl_role d \<in>
    {ROLE_CHOICE_AVAILABLE_IF, ROLE_CHOICE_VISIBLE_IF, ROLE_CHOICE_DEFAULT_WHEN}"
  by (auto simp: choice_declarations_def declare_expression_def Let_def)

lemma constraint_roles: "d \<in> set (constraint_declarations c) \<Longrightarrow> decl_role d \<in>
    {ROLE_CONSTRAINT_WHEN, ROLE_CONSTRAINT_REQUIRE}"
  by (auto simp: constraint_declarations_def declare_expression_def)

definition of_role :: "linked_role \<Rightarrow> string \<Rightarrow> expr_declaration \<Rightarrow> bool" where
  "of_role role owner d \<longleftrightarrow> decl_role d = role \<and> decl_owner d = owner"

lemma declared_for_parts:
  "declared_for p role owner = filter has_text
     (filter (of_role role owner) (concat (map symbol_declarations (sort_key sym_id (project_symbols p))))
      @ filter (of_role role owner)
          (map (\<lambda>m. declare_expression ROLE_MENU_VISIBLE_IF (menu_id m) None (menu_visible_if m) bool_type) (project_menus p))
      @ filter (of_role role owner) (concat (map choice_declarations (project_choices p)))
      @ filter (of_role role owner) (concat (map constraint_declarations (project_constraints p))))"
  by (simp add: declared_for_def project_declarations_def of_role_def filter_filter conj_commute)

lemma menu_declarations_of_role:
  "filter (of_role role owner)
     (map (\<lambda>m. declare_expression ROLE_MENU_VISIBLE_IF (menu_id m) None (menu_visible_if m) bool_type) ms)
   = (if role = ROLE_MENU_VISIBLE_IF
      then map (\<lambda>m. declare_expression ROLE_MENU_VISIBLE_IF owner None (menu_visible_if m) bool_type)
        (filter (\<lambda>m. menu_id m = owner) ms) else [])"
  by (induction ms) (auto simp: of_role_def declare_expression_def)

lemma no_role: "(\<And>d. d \<in> set ds \<Longrightarrow> decl_role d \<noteq> role) \<Longrightarrow> filter (of_role role owner) ds = []"
  by (auto simp: of_role_def filter_empty_conv)

lemma declared_menu:
  "declared_for p ROLE_MENU_VISIBLE_IF owner =
     filter has_text (map (\<lambda>m. declare_expression ROLE_MENU_VISIBLE_IF owner None (menu_visible_if m) bool_type)
       (filter (\<lambda>m. menu_id m = owner) (project_menus p)))"
  unfolding declared_for_parts menu_declarations_of_role
  using symbol_roles choice_roles constraint_roles by (subst (1 2 3) no_role) fastforce+

text \<open>The part of a choice: what its own declarations have of the role.\<close>

lemma declared_choice:
  assumes "role \<in> {ROLE_CHOICE_AVAILABLE_IF, ROLE_CHOICE_VISIBLE_IF, ROLE_CHOICE_DEFAULT_WHEN}"
    and "c \<in> set (project_choices p)" "distinct (map choice_id (project_choices p))"
  shows "declared_for p role (choice_id c)
    = filter has_text (filter (\<lambda>d. decl_role d = role) (choice_declarations c))"
proof -
  have own: "filter (of_role role (choice_id c)) (choice_declarations b)
      = (if choice_id b = choice_id c then filter (\<lambda>d. decl_role d = role) (choice_declarations b) else [])" for b
    using choice_roles [of _ b] by (auto simp: of_role_def filter_empty_conv intro!: filter_cong)
  have "filter (of_role role (choice_id c)) (concat (map choice_declarations cs))
      = filter (\<lambda>d. decl_role d = role) (choice_declarations c)"
    if "c \<in> set cs" "distinct (map choice_id cs)" for cs
    using that
  proof (induction cs)
    case (Cons b cs)
    show ?case
    proof (cases "b = c")
      case True
      then have "\<forall>a \<in> set cs. choice_id a \<noteq> choice_id c" using Cons.prems(2) by (simp, metis imageI)
      then have "filter (of_role role (choice_id c)) (concat (map choice_declarations cs)) = []"
        using choice_roles by (fastforce simp: filter_empty_conv of_role_def)
      with True show ?thesis by (simp add: own)
    next
      case False
      with Cons show ?thesis by (auto simp: own)
    qed
  qed simp
  moreover have "filter (of_role role (choice_id c)) (concat (map symbol_declarations ss)) = []"
    "filter (of_role role (choice_id c)) (concat (map constraint_declarations ks)) = []" for ss ks
    using symbol_roles constraint_roles assms(1) by (intro no_role; fastforce)+
  ultimately show ?thesis
    using assms by (auto simp: declared_for_parts menu_declarations_of_role)
qed

lemma declared_choice_default:
  assumes "c \<in> set (project_choices p)" "distinct (map choice_id (project_choices p))"
    and "\<forall>d \<in> set (choice_defaults c). expr_text (chd_when d) \<noteq> None"
  shows "declared_for p ROLE_CHOICE_DEFAULT_WHEN (choice_id c)
    = map (\<lambda>d. declare_expression ROLE_CHOICE_DEFAULT_WHEN (choice_id c) None (chd_when d) bool_type) (choice_defaults c)"
  using assms(3) by (subst declared_choice [OF _ assms(1,2)])
    (auto simp: choice_declarations_def declare_expression_def filter_map o_def has_text_def Let_def intro!: filter_True)

section \<open>Menus\<close>

text \<open>What the loader guarantees of a project: ids are unique, and rules have their conditions.\<close>

definition loaded_project :: "v2_project \<Rightarrow> bool" where
  "loaded_project p \<longleftrightarrow> distinct (map menu_id (project_menus p)) \<and> distinct (map choice_id (project_choices p))
     \<and> distinct (map constraint_id (project_constraints p))
     \<and> (\<forall>c \<in> set (project_choices p). \<forall>d \<in> set (choice_defaults c). expr_text (chd_when d) \<noteq> None)
     \<and> (\<forall>c \<in> set (project_constraints p). expr_text (constraint_when c) \<noteq> None \<and> expr_text (constraint_require c) \<noteq> None)"

text \<open>The compiled menus before their parents are linked, and the parent of a menu.\<close>

definition unlinked_menus :: "linked_project \<Rightarrow> compiled_menu list" where
  "unlinked_menus linked = sort_key (\<lambda>c. menu_id (cm_source c))
     (map (\<lambda>m. \<lparr>cm_source = m, cm_parent = None,
               cm_visible_if = confit_v2_structure_find_expression linked ROLE_MENU_VISIBLE_IF (menu_id m) 0\<rparr>)
       (project_menus (lp_project linked)))"

lemma menus_sorted: "qsort_by confit_v2_compiled_menu_compare xs = sort_key (\<lambda>c. menu_id (cm_source c)) xs"
  by (rule qsort_by_sort_key) (simp add: compares_def confit_v2_compiled_menu_compare_def strcmp_le)

abbreviation menu_name :: "compiled_menu \<Rightarrow> string" where "menu_name c \<equiv> menu_id (cm_source c)"

lemma find_menu_at:
  assumes "sorted_wrt (<) (map menu_name menus)"
  shows "confit_v2_compiled_structure_find_menu menus name = Some i \<longleftrightarrow> i < length menus \<and> menu_name (menus ! i) = name"
    and "confit_v2_compiled_structure_find_menu menus name = None \<longleftrightarrow> name \<notin> menu_name ` set menus"
proof -
  have f: "map_option (\<lambda>m. menus ! m) (confit_v2_compiled_structure_find_menu menus name)
      = find (\<lambda>c. menu_name c = name) menus"
    unfolding confit_v2_compiled_structure_find_menu_def by (rule binary_find_lookup [OF assms])
  have n: "i < length menus" if "confit_v2_compiled_structure_find_menu menus name = Some i" for i
    using that binary_find_Some unfolding confit_v2_compiled_structure_find_menu_def by blast
  have d: "distinct (map menu_name menus)" using assms strict_sorted_iff by blast
  have hit: "menu_name (menus ! i) = name" if "confit_v2_compiled_structure_find_menu menus name = Some i" for i
    using f that by (auto simp: find_Some_iff2)
  show none: "confit_v2_compiled_structure_find_menu menus name = None \<longleftrightarrow> name \<notin> menu_name ` set menus"
  proof -
    have "confit_v2_compiled_structure_find_menu menus name = None \<longleftrightarrow> find (\<lambda>c. menu_name c = name) menus = None"
      using f by (metis option.map_disc_iff)
    then show ?thesis by (auto simp: find_None_iff)
  qed
  show "confit_v2_compiled_structure_find_menu menus name = Some i \<longleftrightarrow> i < length menus \<and> menu_name (menus ! i) = name"
  proof
    assume i: "i < length menus \<and> menu_name (menus ! i) = name"
    then have "name \<in> menu_name ` set menus" by force
    with none obtain j where j: "confit_v2_compiled_structure_find_menu menus name = Some j" by blast
    with n hit i d have "j = i" by (auto simp: distinct_conv_nth)
    with j show "confit_v2_compiled_structure_find_menu menus name = Some i" by simp
  qed (use n hit in blast)
qed

text \<open>The parent link of a compiled menu agrees with its source.\<close>

definition parent_linked :: "compiled_menu list \<Rightarrow> compiled_menu \<Rightarrow> bool" where
  "parent_linked menus c \<longleftrightarrow> (case cm_parent c of
     None \<Rightarrow> menu_parent (cm_source c) = None
   | Some i \<Rightarrow> i < length menus \<and> menu_parent (cm_source c) = Some (menu_name (menus ! i)))"

lemma link_menu_parents_step:
  assumes "sorted_wrt (<) (map menu_name menus)" "link_menu_parents menus (c # cs) = Inr cs'" "cm_parent c = None"
  obtains d ds where "cs' = d # ds" "link_menu_parents menus cs = Inr ds" "cm_source d = cm_source c"
    "cm_visible_if d = cm_visible_if c" "parent_linked menus d"
  using assms(2,3)
  by (auto simp: Let_def parent_linked_def find_menu_at [OF assms(1)] split: if_splits option.splits elim!: bind_res_InrE)

lemma link_menu_parents_Inr:
  assumes "sorted_wrt (<) (map menu_name menus)"
  shows "link_menu_parents menus cs = Inr cs' \<Longrightarrow> \<forall>c \<in> set cs. cm_parent c = None
    \<Longrightarrow> map cm_source cs' = map cm_source cs \<and> map cm_visible_if cs' = map cm_visible_if cs
      \<and> (\<forall>c \<in> set cs'. parent_linked menus c)"
proof (induction cs arbitrary: cs')
  case (Cons c cs)
  from Cons.prems(2) have "cm_parent c = None" by simp
  then obtain d ds where "cs' = d # ds" "link_menu_parents menus cs = Inr ds" "cm_source d = cm_source c"
    "cm_visible_if d = cm_visible_if c" "parent_linked menus d"
    by (rule link_menu_parents_step [OF assms Cons.prems(1)])
  with Cons show ?case by simp
qed simp

lemma link_menu_parents_accepts:
  assumes "sorted_wrt (<) (map menu_name menus)"
    and "\<forall>c \<in> set cs. expr_text (menu_visible_if (cm_source c)) \<noteq> None \<longrightarrow> cm_visible_if c \<noteq> None"
  shows "(\<exists>cs'. link_menu_parents menus cs = Inr cs')
    \<longleftrightarrow> (\<forall>c \<in> set cs. \<forall>q. menu_parent (cm_source c) = Some q \<longrightarrow> q \<in> menu_name ` set menus)"
  using assms(2)
proof (induction cs)
  case (Cons c cs)
  have found: "confit_v2_compiled_structure_find_menu menus q \<noteq> None \<longleftrightarrow> q \<in> menu_name ` set menus" for q
    unfolding find_menu_at(2) [OF assms(1)] not_not ..
  have "(\<exists>cs'. link_menu_parents menus (c # cs) = Inr cs') \<longleftrightarrow>
     (\<forall>q. menu_parent (cm_source c) = Some q \<longrightarrow> confit_v2_compiled_structure_find_menu menus q \<noteq> None)
       \<and> (\<exists>cs'. link_menu_parents menus cs = Inr cs')"
  proof -
    have "\<not> (expr_text (menu_visible_if (cm_source c)) \<noteq> None \<and> cm_visible_if c = None)" using Cons.prems by auto
    then show ?thesis
      by (cases "menu_parent (cm_source c)"; cases "link_menu_parents menus cs")
        (simp_all add: Let_def split: option.split)
  qed
  moreover have "(\<exists>cs'. link_menu_parents menus cs = Inr cs')
    \<longleftrightarrow> (\<forall>c \<in> set cs. \<forall>q. menu_parent (cm_source c) = Some q \<longrightarrow> q \<in> menu_name ` set menus)"
    using Cons.prems by (intro Cons.IH) simp
  ultimately show ?case unfolding found by simp
qed simp

lemma link_menu_parents_error:
  assumes "\<forall>c \<in> set cs. expr_text (menu_visible_if (cm_source c)) \<noteq> None \<longrightarrow> cm_visible_if c \<noteq> None"
  shows "link_menu_parents menus cs = Inl e \<Longrightarrow> diag_status e = CONFIT_ERR_SCHEMA"
  using assms
proof (induction cs)
  case (Cons c cs)
  then show ?case
    by (auto simp: Let_def bind_simps confit_v2_structure_diagnostic_def confit_diagnostic_set_def
        confit_diagnostic_set_detail_def split: if_splits option.splits)
qed simp

text \<open>Walking from a menu towards its root.\<close>

definition parent_step :: "compiled_menu list \<Rightarrow> nat option \<Rightarrow> nat option" where
  "parent_step menus x = Option.bind x (\<lambda>i. cm_parent (menus ! i))"

definition walked :: "compiled_menu list \<Rightarrow> nat \<Rightarrow> nat list \<Rightarrow> nat option \<Rightarrow> bool" where
  "walked menus start path cursor \<longleftrightarrow> (\<forall>k < length path. (parent_step menus ^^ k) (Some start) = Some (path ! k))
     \<and> (parent_step menus ^^ length path) (Some start) = cursor"

lemma parent_step_simps [simp]: "parent_step menus None = None" "parent_step menus (Some i) = cm_parent (menus ! i)"
  by (simp_all add: parent_step_def)

lemma walked_snoc: "walked menus start path (Some c) \<Longrightarrow> walked menus start (path @ [c]) (cm_parent (menus ! c))"
  by (auto simp: walked_def nth_append parent_step_def less_Suc_eq)

lemma first_position_Some: "first_position x ys = Some k \<Longrightarrow> k < length ys \<and> ys ! k = x"
  by (induction ys arbitrary: k) (auto split: if_splits)

lemma first_position_None: "first_position x ys = None \<longleftrightarrow> x \<notin> set ys"
  by (induction ys) auto

lemma periodic_walk:
  fixes f :: "'a option \<Rightarrow> 'a option"
  assumes "(f ^^ m) x = (f ^^ k) x" "k < m" "(f ^^ k) x \<noteq> None" "f None = None"
  shows "(f ^^ j) x \<noteq> None"
proof
  assume j: "(f ^^ j) x = None"
  have after: "(f ^^ (i + j)) x = None" for i
  proof (induction i)
    case (Suc i)
    have "(f ^^ (Suc i + j)) x = f ((f ^^ (i + j)) x)" by simp
    then show ?case using Suc.IH assms(4) by simp
  qed (use j in simp)
  have "(f ^^ (t * (m - k) + k)) x = (f ^^ k) x" for t
  proof (induction t)
    case (Suc t)
    have "Suc t * (m - k) + k = t * (m - k) + m" using assms(2) by simp
    then have "(f ^^ (Suc t * (m - k) + k)) x = (f ^^ (t * (m - k))) ((f ^^ m) x)" by (simp only: funpow_add o_apply)
    also have "\<dots> = (f ^^ (t * (m - k))) ((f ^^ k) x)" by (simp only: assms(1))
    also have "\<dots> = (f ^^ (t * (m - k) + k)) x" by (simp only: funpow_add o_apply)
    finally show ?case using Suc.IH by simp
  qed simp
  from this [of j] have "(f ^^ (j * (m - k) + k)) x \<noteq> None" using assms(3) by simp
  moreover have "j \<le> j * (m - k) + k" using assms(2) by (cases "m - k") auto
  then have "(f ^^ (j * (m - k) + k)) x = None"
    using after [of "j * (m - k) + k - j"] by simp
  ultimately show False by simp
qed

lemma menu_walk_outcome:
  assumes "\<forall>c \<in> set menus. parent_linked menus c"
  shows "walked menus start path cursor \<Longrightarrow> distinct path \<Longrightarrow> set path \<subseteq> {..<length menus}
    \<Longrightarrow> room + length path = length menus \<Longrightarrow> (\<And>c. cursor = Some c \<Longrightarrow> c < length menus)
    \<Longrightarrow> case menu_walk menus start room path cursor of
        Inr u \<Rightarrow> \<exists>k \<le> length menus. (parent_step menus ^^ k) (Some start) = None
      | Inl e \<Rightarrow> diag_status e = CONFIT_ERR_SCHEMA \<and> (\<forall>k. (parent_step menus ^^ k) (Some start) \<noteq> None)"
proof (induction room arbitrary: path cursor)
  case (0 path cursor)
  then have all: "set path = {..<length menus}"
    by (intro card_subset_eq) (simp_all add: distinct_card)
  show ?case
  proof (cases cursor)
    case None
    with 0(1,4) show ?thesis by (auto simp: walked_def)
  next
    case (Some c)
    with 0(5) all first_position_None [of c path] obtain k where k: "first_position c path = Some k" by force
    from first_position_Some [OF k] 0(1) Some
    have "(parent_step menus ^^ length path) (Some start) = (parent_step menus ^^ k) (Some start)"
      "(parent_step menus ^^ k) (Some start) \<noteq> None" by (simp_all add: walked_def)
    from periodic_walk [OF this(1) _ this(2)] first_position_Some [OF k] Some k show ?thesis
      by (simp add: parent_step_def confit_v2_menu_cycle_diagnostic_def confit_v2_structure_diagnostic_def
          confit_diagnostic_set_def confit_diagnostic_set_detail_def Let_def)
  qed
next
  case (Suc room path cursor)
  show ?case
  proof (cases cursor)
    case None
    with Suc.prems(1,4) show ?thesis by (auto simp: walked_def intro!: exI [of _ "length path"])
  next
    case (Some c)
    show ?thesis
    proof (cases "first_position c path")
      case None
      then have "c \<notin> set path" by (simp add: first_position_None)
      moreover have "i < length menus" if "cm_parent (menus ! c) = Some i" for i
        using assms Suc.prems(5) Some that nth_mem [of c menus] by (fastforce simp: parent_linked_def)
      ultimately show ?thesis
        using Suc.IH [OF walked_snoc] Suc.prems Some None by simp
    next
      case (Some k)
      with \<open>cursor = Some c\<close> first_position_Some [OF Some] Suc.prems(1)
      have "(parent_step menus ^^ length path) (Some start) = (parent_step menus ^^ k) (Some start)"
        "(parent_step menus ^^ k) (Some start) \<noteq> None" by (simp_all add: walked_def)
      from periodic_walk [OF this(1) _ this(2)] first_position_Some [OF Some] Some \<open>cursor = Some c\<close> show ?thesis
        by (simp add: parent_step_def confit_v2_menu_cycle_diagnostic_def confit_v2_structure_diagnostic_def
            confit_diagnostic_set_def confit_diagnostic_set_detail_def Let_def)
    qed
  qed
qed

declare menu_walk.simps [simp del]

lemma sibling_orders_distinct:
  "sibling_orders cs = Inr () \<longleftrightarrow> distinct (map (\<lambda>c. (cm_parent c, menu_order (cm_source c))) cs)"
proof (induction cs)
  case (Cons c cs)
  have "find (\<lambda>other. cm_parent c = cm_parent other \<and> menu_order (cm_source c) = menu_order (cm_source other)) cs = None
    \<longleftrightarrow> (cm_parent c, menu_order (cm_source c)) \<notin> (\<lambda>c. (cm_parent c, menu_order (cm_source c))) ` set cs"
    by (auto simp: find_None_iff)
  with Cons show ?case by (cases "find (\<lambda>other. cm_parent c = cm_parent other
      \<and> menu_order (cm_source c) = menu_order (cm_source other)) cs") auto
qed simp

lemma structure_diagnostic_status [simp]: "diag_status (confit_v2_structure_diagnostic span st message) = st"
  by (simp add: confit_v2_structure_diagnostic_def confit_diagnostic_set_def confit_diagnostic_set_detail_def)

lemma sibling_orders_error: "sibling_orders cs = Inl e \<Longrightarrow> diag_status e = CONFIT_ERR_SCHEMA"
  by (induction cs) (auto split: option.splits)

text \<open>The menus a project may have: parents exist, every menu reaches a root, siblings are ordered.\<close>

definition menu_up :: "v2_project \<Rightarrow> menu_node option \<Rightarrow> menu_node option" where
  "menu_up p x = Option.bind x (\<lambda>m. Option.bind (menu_parent m) (\<lambda>q. find (\<lambda>n. menu_id n = q) (project_menus p)))"

definition menus_ok :: "v2_project \<Rightarrow> bool" where
  "menus_ok p \<longleftrightarrow> (\<forall>m \<in> set (project_menus p). \<forall>q. menu_parent m = Some q \<longrightarrow> q \<in> menu_id ` set (project_menus p))
     \<and> (\<forall>m \<in> set (project_menus p). \<exists>k. (menu_up p ^^ k) (Some m) = None)
     \<and> distinct (map (\<lambda>m. (menu_parent m, menu_order m)) (project_menus p))"

lemma menu_up_None [simp]: "menu_up p None = None"
  by (simp add: menu_up_def)

lemma find_distinct: "distinct (map f xs) \<Longrightarrow> x \<in> set xs \<Longrightarrow> find (\<lambda>y. f y = f x) xs = Some x"
  by (metis find_unique in_set_conv_nth)

lemma distinct_map_sort [simp]: "distinct (map f (sort_key k xs)) \<longleftrightarrow> distinct (map f xs)"
  by (rule mset_eq_imp_distinct_iff) simp

lemma distinct_map_iff:
  "(\<And>x y. x \<in> set xs \<Longrightarrow> y \<in> set xs \<Longrightarrow> f x = f y \<longleftrightarrow> g x = g y) \<Longrightarrow> distinct (map f xs) \<longleftrightarrow> distinct (map g xs)"
proof (induction xs)
  case (Cons a xs)
  from Cons.prems have "f a \<in> f ` set xs \<longleftrightarrow> g a \<in> g ` set xs" by (auto simp: image_iff)
  with Cons show ?case by simp
qed simp

text \<open>A list of compiled menus for the menus of a project, parents linked.\<close>

definition menus_compiled :: "linked_project \<Rightarrow> compiled_menu list \<Rightarrow> bool" where
  "menus_compiled linked menus \<longleftrightarrow> map cm_source menus = sort_key menu_id (project_menus (lp_project linked))
     \<and> (\<forall>c \<in> set menus. parent_linked menus c
          \<and> cm_visible_if c = confit_v2_structure_find_expression linked ROLE_MENU_VISIBLE_IF (menu_name c) 0)"

lemma sources_unlinked: "map cm_source (unlinked_menus linked) = sort_key menu_id (project_menus (lp_project linked))"
proof -
  let ?f = "\<lambda>m. \<lparr>cm_source = m, cm_parent = None,
    cm_visible_if = confit_v2_structure_find_expression linked ROLE_MENU_VISIBLE_IF (menu_id m) 0\<rparr>"
  have "sort_key menu_name (map ?f ms) = map ?f (sort_key menu_id ms)" for ms
  proof -
    have "insort_key menu_name (?f m) (map ?f ns) = map ?f (insort_key menu_id m ns)" for m ns
      by (induction ns) simp_all
    then show ?thesis by (induction ms) simp_all
  qed
  then show ?thesis by (simp add: unlinked_menus_def o_def)
qed

lemma unlinked_sorted:
  "loaded_project (lp_project linked) \<Longrightarrow> sorted_wrt (<) (map menu_name (unlinked_menus linked))"
proof -
  assume "loaded_project (lp_project linked)"
  then have "distinct (map menu_id (sort_key menu_id (project_menus (lp_project linked))))"
    by (simp add: loaded_project_def)
  moreover have "map menu_name (unlinked_menus linked) = map menu_id (map cm_source (unlinked_menus linked))" by simp
  then have "map menu_name (unlinked_menus linked) = map menu_id (sort_key menu_id (project_menus (lp_project linked)))"
    by (simp only: sources_unlinked)
  ultimately show ?thesis by (simp add: strict_sorted_iff)
qed

lemma unlinked_parent: "c \<in> set (unlinked_menus linked) \<Longrightarrow> cm_parent c = None
    \<and> cm_visible_if c = confit_v2_structure_find_expression linked ROLE_MENU_VISIBLE_IF (menu_name c) 0"
  by (auto simp: unlinked_menus_def)

lemma unlinked_visible:
  assumes "confit_v2_schema_link_project p = Inr linked" "c \<in> set (unlinked_menus linked)"
    and "expr_text (menu_visible_if (cm_source c)) \<noteq> None"
  shows "cm_visible_if c \<noteq> None"
proof -
  have "cm_source c \<in> set (project_menus p)"
    using assms(1,2) by (auto simp: unlinked_menus_def elim: link_project_cases)
  with assms(3) have "declare_expression ROLE_MENU_VISIBLE_IF (menu_name c) None (menu_visible_if (cm_source c)) bool_type
      \<in> set (declared_for p ROLE_MENU_VISIBLE_IF (menu_name c))"
    by (auto simp: declared_menu has_text_def declare_expression_def)
  then have "0 < length (declared_for p ROLE_MENU_VISIBLE_IF (menu_name c))" by (rule length_pos_if_in_set)
  then have "confit_v2_structure_find_expression linked ROLE_MENU_VISIBLE_IF (menu_name c) 0 \<noteq> None"
    by (rule find_declared_Some [OF assms(1)]) simp
  then show ?thesis using unlinked_parent [OF assms(2)] by simp
qed

lemma parent_linked_same:
  assumes "map cm_source menus = map cm_source menus'"
  shows "parent_linked menus c = parent_linked menus' c"
proof -
  have "length menus = length menus'" using assms map_eq_imp_length_eq by blast
  moreover have "menu_name (menus ! i) = menu_name (menus' ! i)" if "i < length menus" for i
    using arg_cong [OF assms, of "\<lambda>xs. xs ! i"] that calculation by simp
  ultimately show ?thesis by (auto simp: parent_linked_def split: option.split)
qed

lemma parent_of_source:
  assumes "menus_compiled linked menus" "loaded_project (lp_project linked)" "i < length menus"
  shows "map_option (\<lambda>j. cm_source (menus ! j)) (cm_parent (menus ! i))
      = menu_up (lp_project linked) (Some (cm_source (menus ! i)))"
    and "cm_parent (menus ! i) = Some j \<Longrightarrow> j < length menus"
proof -
  let ?p = "lp_project linked"
  from assms(1,3) have l: "parent_linked menus (menus ! i)" by (simp add: menus_compiled_def)
  have src: "set (project_menus ?p) = cm_source ` set menus"
    using assms(1) by (metis menus_compiled_def list.set_map set_sort)
  show "cm_parent (menus ! i) = Some j \<Longrightarrow> j < length menus" using l by (simp add: parent_linked_def)
  show "map_option (\<lambda>j. cm_source (menus ! j)) (cm_parent (menus ! i)) = menu_up ?p (Some (cm_source (menus ! i)))"
  proof (cases "cm_parent (menus ! i)")
    case None
    with l show ?thesis by (simp add: parent_linked_def menu_up_def)
  next
    case (Some j)
    with l have j: "j < length menus" "menu_parent (cm_source (menus ! i)) = Some (menu_name (menus ! j))"
      by (simp_all add: parent_linked_def)
    have "distinct (map menu_id (project_menus ?p))" using assms(2) by (simp add: loaded_project_def)
    moreover have "cm_source (menus ! j) \<in> set (project_menus ?p)" using j(1) src by simp
    ultimately have "find (\<lambda>n. menu_id n = menu_name (menus ! j)) (project_menus ?p) = Some (cm_source (menus ! j))"
      by (rule find_distinct)
    with Some j(2) show ?thesis by (simp add: menu_up_def)
  qed
qed

lemma walks_correspond:
  assumes "menus_compiled linked menus" "loaded_project (lp_project linked)" "i < length menus"
  shows "map_option (\<lambda>j. cm_source (menus ! j)) ((parent_step menus ^^ k) (Some i))
      = (menu_up (lp_project linked) ^^ k) (Some (cm_source (menus ! i)))
    \<and> (\<forall>j. (parent_step menus ^^ k) (Some i) = Some j \<longrightarrow> j < length menus)"
proof (induction k)
  case (Suc k)
  show ?case
  proof (cases "(parent_step menus ^^ k) (Some i)")
    case None
    with Suc have "(menu_up (lp_project linked) ^^ k) (Some (cm_source (menus ! i))) = None" by (metis option.map_disc_iff)
    with None show ?thesis by simp
  next
    case (Some j)
    with Suc have j: "j < length menus"
      "(menu_up (lp_project linked) ^^ k) (Some (cm_source (menus ! i))) = Some (cm_source (menus ! j))"
      by (auto dest: sym)
    with Some show ?thesis
      using parent_of_source [OF assms(1,2) j(1)] by simp
  qed
qed (use assms in simp)

lemma fold_res_unit: "fold_res (\<lambda>x (_ :: unit). f x) xs () = Inr () \<longleftrightarrow> (\<forall>x \<in> set xs. f x = Inr ())"
  by (induction xs) (auto simp: bind_simps)

lemma fold_res_unit_Inr: "fold_res (\<lambda>x (_ :: unit). f x) xs () = Inr u \<Longrightarrow> \<forall>x \<in> set xs. f x = Inr ()"
  by (induction xs) (auto simp: bind_simps)

lemma fold_res_unit_error: "fold_res (\<lambda>x (_ :: unit). f x) xs () = Inl e \<Longrightarrow> \<exists>x \<in> set xs. f x = Inl e"
  by (induction xs) (auto simp: bind_simps)

lemma sibling_pairs:
  assumes "menus_compiled linked menus" "loaded_project (lp_project linked)"
  shows "distinct (map (\<lambda>c. (cm_parent c, menu_order (cm_source c))) menus)
    \<longleftrightarrow> distinct (map (\<lambda>m. (menu_parent m, menu_order m)) (project_menus (lp_project linked)))"
proof -
  let ?p = "lp_project linked"
  have d: "distinct (map menu_name menus)"
  proof -
    have "map menu_name menus = map menu_id (map cm_source menus)" by simp
    then have "map menu_name menus = map menu_id (sort_key menu_id (project_menus ?p))"
      using assms(1) by (simp only: menus_compiled_def)
    then show ?thesis using assms(2) by (simp add: loaded_project_def)
  qed
  have eq: "cm_parent b = cm_parent c \<longleftrightarrow> menu_parent (cm_source b) = menu_parent (cm_source c)"
    if "b \<in> set menus" "c \<in> set menus" for b c
  proof -
    from that assms(1) have "parent_linked menus b" "parent_linked menus c" by (simp_all add: menus_compiled_def)
    moreover have "i = j" if "i < length menus" "j < length menus" "menu_name (menus ! i) = menu_name (menus ! j)" for i j
      using nth_eq_iff_index_eq [OF d, of i j] that by simp
    ultimately show ?thesis by (cases "cm_parent b"; cases "cm_parent c") (auto simp: parent_linked_def)
  qed
  have "distinct (map (\<lambda>c. (cm_parent c, menu_order (cm_source c))) menus)
      \<longleftrightarrow> distinct (map (\<lambda>c. (menu_parent (cm_source c), menu_order (cm_source c))) menus)"
    by (rule distinct_map_iff) (simp add: eq)
  also have "\<dots> \<longleftrightarrow> distinct (map (\<lambda>m. (menu_parent m, menu_order m)) (map cm_source menus))" by (simp add: o_def)
  also have "\<dots> \<longleftrightarrow> distinct (map (\<lambda>m. (menu_parent m, menu_order m)) (project_menus ?p))"
    using assms(1) by (simp add: menus_compiled_def)
  finally show ?thesis .
qed

lemma compile_menus_unlinked:
  "confit_v2_compile_menus linked =
     bind_res (link_menu_parents (unlinked_menus linked) (unlinked_menus linked)) (\<lambda>menus.
     bind_res (fold_res (\<lambda>i _. menu_walk menus i (length menus) [] (Some i)) [0..<length menus] ()) (\<lambda>_.
     bind_res (sibling_orders menus) (\<lambda>_. Inr menus)))"
  by (simp add: confit_v2_compile_menus_def unlinked_menus_def menus_sorted Let_def)

lemma linked_menus_compiled:
  assumes "loaded_project (lp_project linked)"
    and "link_menu_parents (unlinked_menus linked) (unlinked_menus linked) = Inr menus"
  shows "menus_compiled linked menus"
proof -
  from link_menu_parents_Inr [OF unlinked_sorted [OF assms(1)] assms(2)] unlinked_parent have
    l: "map cm_source menus = map cm_source (unlinked_menus linked)" "map cm_visible_if menus = map cm_visible_if (unlinked_menus linked)"
      "\<forall>c \<in> set menus. parent_linked (unlinked_menus linked) c" by blast+
  have len: "length menus = length (unlinked_menus linked)" using l(1) by (rule map_eq_imp_length_eq)
  have "cm_visible_if c = confit_v2_structure_find_expression linked ROLE_MENU_VISIBLE_IF (menu_name c) 0"
    if "c \<in> set menus" for c
  proof -
    from that obtain i where i: "i < length menus" "c = menus ! i" by (auto simp: in_set_conv_nth)
    have "cm_visible_if (menus ! i) = cm_visible_if (unlinked_menus linked ! i)"
      using arg_cong [OF l(2), of "\<lambda>xs. xs ! i"] i len by simp
    moreover have "cm_source (menus ! i) = cm_source (unlinked_menus linked ! i)"
      using arg_cong [OF l(1), of "\<lambda>xs. xs ! i"] i len by simp
    ultimately show ?thesis using unlinked_parent [of "unlinked_menus linked ! i" linked] i len by simp
  qed
  then show ?thesis
    using l parent_linked_same [OF l(1)] sources_unlinked by (auto simp: menus_compiled_def)
qed

lemma walks_outcome:
  assumes "menus_compiled linked menus" "i < length menus"
  shows "case menu_walk menus i (length menus) [] (Some i) of
      Inr u \<Rightarrow> \<exists>k \<le> length menus. (parent_step menus ^^ k) (Some i) = None
    | Inl e \<Rightarrow> diag_status e = CONFIT_ERR_SCHEMA \<and> (\<forall>k. (parent_step menus ^^ k) (Some i) \<noteq> None)"
  using assms by (intro menu_walk_outcome) (auto simp: menus_compiled_def walked_def)

text \<open>Compiling the menus succeeds exactly when they are well-formed, and fails with a schema error.\<close>

lemma compile_menus_outcome:
  assumes "confit_v2_schema_link_project p = Inr linked" "loaded_project p"
  shows "case confit_v2_compile_menus linked of
      Inr menus \<Rightarrow> menus_ok p \<and> menus_compiled linked menus
        \<and> (\<forall>i < length menus. \<exists>k \<le> length menus. (parent_step menus ^^ k) (Some i) = None)
        \<and> distinct (map (\<lambda>c. (cm_parent c, menu_order (cm_source c))) menus)
    | Inl e \<Rightarrow> \<not> menus_ok p \<and> diag_status e = CONFIT_ERR_SCHEMA"
proof -
  let ?um = "unlinked_menus linked"
  have p: "lp_project linked = p" using assms(1) by (rule link_project_cases) simp
  have names: "menu_name ` set ?um = menu_id ` set (project_menus p)"
    and um: "cm_source ` set ?um = set (project_menus p)"
    by (auto simp: unlinked_menus_def p image_image)
  have vis: "\<forall>c \<in> set ?um. expr_text (menu_visible_if (cm_source c)) \<noteq> None \<longrightarrow> cm_visible_if c \<noteq> None"
    using unlinked_visible [OF assms(1)] by blast
  have sorted: "sorted_wrt (<) (map menu_name ?um)" using unlinked_sorted assms(2) p by simp
  have parents: "(\<exists>cs. link_menu_parents ?um ?um = Inr cs) \<longleftrightarrow>
      (\<forall>m \<in> set (project_menus p). \<forall>q. menu_parent m = Some q \<longrightarrow> q \<in> menu_id ` set (project_menus p))"
    unfolding link_menu_parents_accepts [OF sorted vis] names um [symmetric] by auto
  show ?thesis
  proof (cases "link_menu_parents ?um ?um")
    case (Inl e)
    with parents have "\<not> menus_ok p" by (auto simp: menus_ok_def)
    with Inl link_menu_parents_error [OF vis Inl] show ?thesis by (simp add: compile_menus_unlinked)
  next
    case (Inr menus)
    with assms(2) p have c: "menus_compiled linked menus" by (intro linked_menus_compiled) simp_all
    have src: "set (project_menus p) = cm_source ` set menus"
      using c p by (metis menus_compiled_def list.set_map set_sort)
    have reach: "(\<forall>m \<in> set (project_menus p). \<exists>k. (menu_up p ^^ k) (Some m) = None)
        \<longleftrightarrow> (\<forall>i < length menus. \<exists>k. (parent_step menus ^^ k) (Some i) = None)"
    proof -
      have up: "(menu_up p ^^ k) (Some (cm_source (menus ! i))) = None \<longleftrightarrow> (parent_step menus ^^ k) (Some i) = None"
        if "i < length menus" for i k
        using walks_correspond [OF c, of i k] that assms(2) p by (metis option.map_disc_iff)
      show ?thesis by (simp add: src all_set_conv_all_nth up)
    qed
    have walks: "(\<forall>i < length menus. menu_walk menus i (length menus) [] (Some i) = Inr ())
        \<longleftrightarrow> (\<forall>i < length menus. \<exists>k. (parent_step menus ^^ k) (Some i) = None)"
    proof -
      have "menu_walk menus i (length menus) [] (Some i) = Inr () \<longleftrightarrow> (\<exists>k. (parent_step menus ^^ k) (Some i) = None)"
        if "i < length menus" for i
        using walks_outcome [OF c that] by (cases "menu_walk menus i (length menus) [] (Some i)") auto
      then show ?thesis by simp
    qed
    have siblings: "sibling_orders menus = Inr () \<longleftrightarrow> distinct (map (\<lambda>m. (menu_parent m, menu_order m)) (project_menus p))"
      using sibling_pairs [OF c] assms(2) p sibling_orders_distinct by simp
    let ?fold = "fold_res (\<lambda>i _. menu_walk menus i (length menus) [] (Some i)) [0..<length menus] ()"
    show ?thesis
    proof (cases ?fold)
      case (Inl e)
      then have bad: "\<not> (\<forall>i < length menus. menu_walk menus i (length menus) [] (Some i) = Inr ())"
        using fold_res_unit [of "\<lambda>i. menu_walk menus i (length menus) [] (Some i)" "[0..<length menus]"] by auto
      from fold_res_unit_error [OF Inl] obtain i where "i < length menus"
        "menu_walk menus i (length menus) [] (Some i) = Inl e" by auto
      with walks_outcome [OF c, of i] have "diag_status e = CONFIT_ERR_SCHEMA" by simp
      with Inl bad reach walks \<open>link_menu_parents ?um ?um = Inr menus\<close> show ?thesis
        by (simp add: compile_menus_unlinked menus_ok_def)
    next
      case (Inr u)
      then have good: "\<forall>i < length menus. menu_walk menus i (length menus) [] (Some i) = Inr ()"
        using fold_res_unit [of "\<lambda>i. menu_walk menus i (length menus) [] (Some i)" "[0..<length menus]"] by auto
      have bounded: "\<forall>i < length menus. \<exists>k \<le> length menus. (parent_step menus ^^ k) (Some i) = None"
      proof (intro allI impI)
        fix i assume "i < length menus"
        with good walks_outcome [OF c, of i] show "\<exists>k \<le> length menus. (parent_step menus ^^ k) (Some i) = None" by simp
      qed
      show ?thesis
      proof (cases "sibling_orders menus")
        case (Inl e)
        with sibling_orders_error [OF Inl] siblings Inr \<open>link_menu_parents ?um ?um = Inr menus\<close> show ?thesis
          by (simp add: compile_menus_unlinked menus_ok_def)
      next
        case (Inr v)
        then have s: "sibling_orders menus = Inr ()" by simp
        with siblings good reach walks parents \<open>link_menu_parents ?um ?um = Inr menus\<close> have "menus_ok p"
          by (simp add: menus_ok_def)
        with s \<open>?fold = Inr u\<close> \<open>link_menu_parents ?um ?um = Inr menus\<close> c bounded show ?thesis
          by (simp add: compile_menus_unlinked flip: sibling_orders_distinct)
      qed
    qed
  qed
qed

section \<open>References to menus and options\<close>

lemma compiled_menu_names:
  assumes "menus_compiled linked menus" "loaded_project (lp_project linked)"
  shows "sorted_wrt (<) (map menu_name menus)"
    and "menu_name ` set menus = menu_id ` set (project_menus (lp_project linked))"
proof -
  have "map menu_name menus = map menu_id (map cm_source menus)" by simp
  then have e: "map menu_name menus = map menu_id (sort_key menu_id (project_menus (lp_project linked)))"
    using assms(1) by (simp only: menus_compiled_def)
  then show "sorted_wrt (<) (map menu_name menus)"
    using assms(2) by (simp add: strict_sorted_iff loaded_project_def)
  show "menu_name ` set menus = menu_id ` set (project_menus (lp_project linked))"
    using arg_cong [OF e, of set] by simp
qed

lemma symbol_menus_outcome:
  assumes "menus_compiled linked menus" "loaded_project (lp_project linked)"
  shows "case confit_v2_validate_symbol_menus linked menus of
      Inr u \<Rightarrow> \<forall>s \<in> set (project_symbols (lp_project linked)). \<forall>m. sym_menu s = Some m
        \<longrightarrow> m \<in> menu_id ` set (project_menus (lp_project linked))
    | Inl e \<Rightarrow> diag_status e = CONFIT_ERR_SCHEMA \<and> (\<exists>s \<in> set (project_symbols (lp_project linked)). \<exists>m. sym_menu s = Some m
        \<and> m \<notin> menu_id ` set (project_menus (lp_project linked)))"
proof -
  note none = find_menu_at(2) [OF compiled_menu_names(1) [OF assms], unfolded compiled_menu_names(2) [OF assms]]
  let ?check = "\<lambda>s. case sym_menu s of None \<Rightarrow> Inr ()
    | Some menu \<Rightarrow> if confit_v2_compiled_structure_find_menu menus menu = None
        then Inl (confit_v2_structure_diagnostic (sym_span s) CONFIT_ERR_SCHEMA ''schema v2 option references missing menu'')
        else Inr ()"
  have e: "confit_v2_validate_symbol_menus linked menus
      = fold_res (\<lambda>s _. ?check s) (project_symbols (lp_project linked)) ()"
    by (simp add: confit_v2_validate_symbol_menus_def)
  show ?thesis
  proof (cases "confit_v2_validate_symbol_menus linked menus")
    case (Inl d)
    from fold_res_unit_error [OF Inl [unfolded e]] obtain s where "s \<in> set (project_symbols (lp_project linked))" "?check s = Inl d" by blast
    with Inl show ?thesis by (auto simp: none split: option.splits if_splits intro!: bexI [of _ s])
  next
    case (Inr u)
    from fold_res_unit_Inr [OF Inr [unfolded e]] Inr show ?thesis by (fastforce simp: none split: option.splits if_splits)
  qed
qed

definition references_ok :: "v2_project \<Rightarrow> menu_node \<Rightarrow> bool" where
  "references_ok p m \<longleftrightarrow> distinct (map mref_option_id (menu_references m))
     \<and> (\<forall>r \<in> set (menu_references m). mref_read_only r \<and> mref_option_id r \<in> sym_id ` set (project_symbols p))"

lemma references_loop_outcome:
  assumes "confit_v2_schema_link_project p = Inr linked"
  shows "case menu_references_loop linked menu previous rs of
      Inr cs \<Rightarrow> distinct (map mref_option_id rs) \<and> mref_option_id ` set rs \<inter> mref_option_id ` set previous = {}
        \<and> list_all2 (\<lambda>r c. mref_read_only r \<and> cmr_source c = r \<and> cmr_menu c = menu
            \<and> cmr_symbol c \<in> set (project_symbols p) \<and> sym_id (cmr_symbol c) = mref_option_id r) rs cs
    | Inl e \<Rightarrow> diag_status e = CONFIT_ERR_SCHEMA
        \<and> \<not> (distinct (map mref_option_id rs) \<and> mref_option_id ` set rs \<inter> mref_option_id ` set previous = {}
          \<and> (\<forall>r \<in> set rs. mref_read_only r \<and> mref_option_id r \<in> sym_id ` set (project_symbols p)))"
proof (induction rs arbitrary: previous)
  case (Cons r rs)
  have dup: "list_ex (\<lambda>q. strcmp (mref_option_id q) (mref_option_id r) = 0) previous
      \<longleftrightarrow> mref_option_id r \<in> mref_option_id ` set previous"
    by (simp add: list_ex_iff strcmp_eq image_iff) metis
  show ?case
  proof (cases "\<not> mref_read_only r \<or> mref_option_id r \<notin> sym_id ` set (project_symbols p)
      \<or> mref_option_id r \<in> mref_option_id ` set previous")
    case True
    then show ?thesis
      using linked_find_none [OF assms, of "mref_option_id r"]
      by (cases "confit_v2_linked_project_find_symbol linked (mref_option_id r)") (auto simp: dup)
  next
    case False
    then obtain s where s: "confit_v2_linked_project_find_symbol linked (mref_option_id r) = Some s"
      using linked_find_none [OF assms, of "mref_option_id r"] by blast
    then have "s \<in> set (project_symbols p)" "sym_id s = mref_option_id r"
      using linked_find_symbol [OF assms] by blast+
    with s False Cons.IH [of "previous @ [r]"] show ?thesis
      by (cases "menu_references_loop linked menu (previous @ [r]) rs") (auto simp: dup)
  qed
qed simp

lemma fold_collect:
  "fold_res (\<lambda>x output. bind_res (f x) (\<lambda>ys. Inr (output @ g ys))) xs output
     = bind_res (fold_res (\<lambda>x output. bind_res (f x) (\<lambda>ys. Inr (output @ [ys]))) xs [])
         (\<lambda>yss. Inr (output @ concat (map g yss)))"
proof -
  have "fold_res (\<lambda>x output. bind_res (f x) (\<lambda>ys. Inr (output @ g ys))) xs (output @ concat (map g zs))
     = bind_res (fold_res (\<lambda>x output. bind_res (f x) (\<lambda>ys. Inr (output @ [ys]))) xs zs)
         (\<lambda>yss. Inr (output @ concat (map g yss)))" for zs
  proof (induction xs arbitrary: zs)
    case (Cons x xs)
    show ?case
    proof (cases "f x")
      case (Inr y)
      with Cons.IH [of "zs @ [y]"] show ?thesis by simp
    qed simp
  qed simp
  from this [of "[]"] show ?thesis by simp
qed

lemma fold_collect_outcome:
  "case fold_res (\<lambda>x output. bind_res (f x) (\<lambda>ys. Inr (output @ [ys]))) xs zs of
     Inr yss \<Rightarrow> \<exists>ws. yss = zs @ ws \<and> list_all2 (\<lambda>x y. f x = Inr y) xs ws
   | Inl e \<Rightarrow> \<exists>x \<in> set xs. f x = Inl e"
proof (induction xs arbitrary: zs)
  case (Cons x xs)
  show ?case
  proof (cases "f x")
    case (Inr y)
    with Cons.IH [of "zs @ [y]"] show ?thesis
      by (auto split: sum.splits)
  qed simp
qed simp

lemma menu_references_outcome:
  assumes "confit_v2_schema_link_project p = Inr linked"
  shows "case confit_v2_compile_menu_references linked menus of
      Inr cs \<Rightarrow> (\<forall>m \<in> set (project_menus p). references_ok p m)
        \<and> map cmr_source cs = concat (map menu_references (project_menus p))
        \<and> (\<forall>c \<in> set cs. cmr_symbol c \<in> set (project_symbols p) \<and> sym_id (cmr_symbol c) = mref_option_id (cmr_source c))
    | Inl e \<Rightarrow> diag_status e = CONFIT_ERR_SCHEMA \<and> \<not> (\<forall>m \<in> set (project_menus p). references_ok p m)"
proof -
  have p: "lp_project linked = p" using assms by (rule link_project_cases) simp
  let ?loop = "\<lambda>m. menu_references_loop linked (confit_v2_compiled_structure_find_menu menus (menu_id m)) [] (menu_references m)"
  let ?fold = "fold_res (\<lambda>m output. bind_res (?loop m) (\<lambda>ys. Inr (output @ [ys]))) (project_menus p) []"
  have e: "confit_v2_compile_menu_references linked menus = bind_res ?fold (\<lambda>yss. Inr (concat yss))"
    unfolding confit_v2_compile_menu_references_def p
    using fold_collect [where f = ?loop and g = id and xs = "project_menus p"] by (simp only: id_apply append_Nil list.map_id)
  show ?thesis
  proof (cases ?fold)
    case (Inl d)
    with fold_collect_outcome [where f = ?loop and xs = "project_menus p" and zs = "[]"] obtain m where
      m: "m \<in> set (project_menus p)" "?loop m = Inl d" by auto
    with references_loop_outcome [OF assms, where previous = "[]" and rs = "menu_references m"
        and menu = "confit_v2_compiled_structure_find_menu menus (menu_id m)"]
    have "diag_status d = CONFIT_ERR_SCHEMA" "\<not> references_ok p m"
      by (auto simp: references_ok_def split: sum.splits)
    with e Inl m(1) show ?thesis by auto
  next
    case (Inr yss)
    with fold_collect_outcome [where f = ?loop and xs = "project_menus p" and zs = "[]"]
    have all: "list_all2 (\<lambda>m ys. ?loop m = Inr ys) (project_menus p) yss" by auto
    have "(\<forall>m \<in> set ms. references_ok p m) \<and> map cmr_source (concat yss) = concat (map menu_references ms)
        \<and> (\<forall>c \<in> set (concat yss). cmr_symbol c \<in> set (project_symbols p)
             \<and> sym_id (cmr_symbol c) = mref_option_id (cmr_source c))"
      if "list_all2 (\<lambda>m ys. ?loop m = Inr ys) ms yss" for ms yss
      using that
    proof (induction ms yss rule: list_all2_induct)
      case (Cons m ms ys yss)
      let ?menu = "confit_v2_compiled_structure_find_menu menus (menu_id m)"
      have "distinct (map mref_option_id (menu_references m))"
        and l: "list_all2 (\<lambda>r c. mref_read_only r \<and> cmr_source c = r \<and> cmr_menu c = ?menu
            \<and> cmr_symbol c \<in> set (project_symbols p) \<and> sym_id (cmr_symbol c) = mref_option_id r) (menu_references m) ys"
        using references_loop_outcome [OF assms, where previous = "[]" and rs = "menu_references m" and menu = ?menu] Cons.hyps(1) by auto
      moreover have "map cmr_source ys = menu_references m"
        and "\<forall>c \<in> set ys. cmr_symbol c \<in> set (project_symbols p) \<and> sym_id (cmr_symbol c) = mref_option_id (cmr_source c)"
        and "\<forall>r \<in> set (menu_references m). mref_read_only r \<and> mref_option_id r \<in> sym_id ` set (project_symbols p)"
        using l by (induction rule: list_all2_induct) (auto intro: rev_image_eqI)
      ultimately show ?case using Cons.IH by (auto simp: references_ok_def)
    qed simp
    from this [OF all] e Inr show ?thesis by simp
  qed
qed

section \<open>Choices\<close>

definition choice_ok :: "v2_project \<Rightarrow> v2_choice \<Rightarrow> bool" where
  "choice_ok p c \<longleftrightarrow> choice_members c \<noteq> [] \<and> choice_cardinality c \<noteq> CARDINALITY_INVALID
     \<and> (\<forall>n \<in> set (choice_members c). \<exists>s \<in> set (project_symbols p). sym_id s = n \<and> sym_type s = choice_member_type c)
     \<and> (\<exists>dom. \<forall>s \<in> set (project_symbols p). sym_id s \<in> set (choice_members c) \<longrightarrow> sym_write_domain s = dom)
     \<and> (\<forall>d \<in> set (choice_defaults c). chd_member d \<in> set (choice_members c))
     \<and> sorted_wrt (\<lambda>d e. \<not> (chd_priority d = chd_priority e \<and> chd_member d \<noteq> chd_member e
          \<and> same_text (expr_text (chd_when d)) (expr_text (chd_when e)))) (choice_defaults c)"

text \<open>The symbols of the members of a choice, of one type and write domain.\<close>

definition members_found :: "v2_project \<Rightarrow> v2_choice \<Rightarrow> string list \<Rightarrow> v2_symbol list \<Rightarrow> bool" where
  "members_found p c names ms \<longleftrightarrow> map sym_id ms = names \<and> set ms \<subseteq> set (project_symbols p)
     \<and> (\<forall>s \<in> set ms. sym_type s = choice_member_type c)
     \<and> (\<forall>s \<in> set ms. sym_write_domain s = sym_write_domain (hd ms))"

lemma members_loop_outcome:
  assumes "confit_v2_schema_link_project p = Inr linked"
  shows "members_found p c names ms \<Longrightarrow>
    case choice_members_loop linked c ms rest of
      Inr ms' \<Rightarrow> members_found p c (names @ rest) ms'
    | Inl e \<Rightarrow> diag_status e = CONFIT_ERR_SCHEMA \<and> (\<nexists>ms'. members_found p c (names @ rest) ms')"
proof (induction rest arbitrary: names ms)
  case (Cons n rest)
  have unique: "s = t" if "s \<in> set (project_symbols p)" "t \<in> set (project_symbols p)" "sym_id s = sym_id t" for s t
  proof -
    from that have "confit_v2_linked_project_find_symbol linked (sym_id t) = Some s"
      "confit_v2_linked_project_find_symbol linked (sym_id t) = Some t" by (simp_all add: linked_find_symbol [OF assms])
    then show ?thesis by simp
  qed
  have stuck: "\<nexists>ms'. members_found p c (names @ n # rest) ms'"
    if bad: "\<And>s. s \<in> set (project_symbols p) \<Longrightarrow> sym_id s = n \<Longrightarrow> sym_type s = choice_member_type c
        \<Longrightarrow> ms \<noteq> [] \<and> sym_write_domain s \<noteq> sym_write_domain (hd ms)"
  proof
    assume "\<exists>ms'. members_found p c (names @ n # rest) ms'"
    then obtain ms' where ms': "members_found p c (names @ n # rest) ms'" ..
    have len: "length names < length ms'"
      using arg_cong [of _ _ length, OF conjunct1 [OF ms' [unfolded members_found_def]]] by simp
    let ?s = "ms' ! length names"
    have "map sym_id ms' ! length names = n" using ms' by (simp add: members_found_def)
    then have s: "?s \<in> set ms'" "sym_id ?s = n" using len by simp_all
    with ms' bad [of ?s] have b: "ms \<noteq> []" "sym_write_domain ?s \<noteq> sym_write_domain (hd ms)"
      by (auto simp: members_found_def)
    have "sym_id (hd ms) = sym_id (hd ms')"
    proof -
      have "names = map sym_id ms" "map sym_id ms' = names @ n # rest" using Cons.prems ms' by (simp_all add: members_found_def)
      then have "hd (map sym_id ms') = hd (map sym_id ms)" using b(1) by simp
      moreover have "ms' \<noteq> []" using len by auto
      ultimately show ?thesis using b(1) by (simp add: hd_map)
    qed
    moreover have "hd ms' \<in> set ms'" "hd ms \<in> set ms" using len b(1) by (auto intro!: hd_in_set)
    moreover have "set ms' \<subseteq> set (project_symbols p)" "set ms \<subseteq> set (project_symbols p)"
      using ms' Cons.prems by (simp_all add: members_found_def)
    ultimately have "hd ms = hd ms'" by (intro unique) blast+
    moreover have "sym_write_domain ?s = sym_write_domain (hd ms')" using ms' s(1) by (simp add: members_found_def)
    ultimately show False using b(2) by simp
  qed
  show ?case
  proof (cases "confit_v2_linked_project_find_symbol linked n")
    case None
    then have "n \<notin> sym_id ` set (project_symbols p)" by (simp add: linked_find_none [OF assms])
    then have "\<nexists>ms'. members_found p c (names @ n # rest) ms'" by (intro stuck) auto
    with None show ?thesis by simp
  next
    case (Some s)
    then have s: "s \<in> set (project_symbols p)" "sym_id s = n" by (simp_all add: linked_find_symbol [OF assms])
    show ?thesis
    proof (cases "sym_type s = choice_member_type c \<and> (ms = [] \<or> sym_write_domain s = sym_write_domain (hd ms))")
      case True
      then have "members_found p c (names @ [n]) (ms @ [s])"
        using Cons.prems s by (cases ms) (auto simp: members_found_def)
      from Cons.IH [OF this] Some True show ?thesis
        by (cases "choice_members_loop linked c (ms @ [s]) rest") auto
    next
      case False
      then have "\<nexists>ms'. members_found p c (names @ n # rest) ms'" using s unique by (intro stuck) blast
      with Some False show ?thesis by auto
    qed
  qed
qed simp

abbreviation default_declaration :: "v2_choice \<Rightarrow> choice_default \<Rightarrow> expr_declaration" where
  "default_declaration c d \<equiv> declare_expression ROLE_CHOICE_DEFAULT_WHEN (choice_id c) None (chd_when d) bool_type"

definition default_tie :: "choice_default \<Rightarrow> choice_default \<Rightarrow> bool" where
  "default_tie d e \<longleftrightarrow> chd_priority d = chd_priority e \<and> chd_member d \<noteq> chd_member e
     \<and> same_text (expr_text (chd_when d)) (expr_text (chd_when e))"

definition defaults_ok :: "v2_choice \<Rightarrow> choice_default list \<Rightarrow> choice_default list \<Rightarrow> bool" where
  "defaults_ok c previous ds \<longleftrightarrow> (\<forall>d \<in> set ds. chd_member d \<in> set (choice_members c))
     \<and> sorted_wrt (\<lambda>d e. \<not> default_tie d e) ds \<and> (\<forall>q \<in> set previous. \<forall>d \<in> set ds. \<not> default_tie q d)"

lemma defaults_ok_Cons: "defaults_ok c previous (d # ds) \<longleftrightarrow> chd_member d \<in> set (choice_members c)
    \<and> (\<forall>q \<in> set previous. \<not> default_tie q d) \<and> defaults_ok c (previous @ [d]) ds"
  by (auto simp: defaults_ok_def)

lemma defaults_loop_outcome:
  assumes "confit_v2_schema_link_project p = Inr linked" "loaded_project p" "c \<in> set (project_choices p)"
  shows "previous @ ds = choice_defaults c \<Longrightarrow>
    case choice_defaults_loop linked c previous ds of
      Inr xs \<Rightarrow> defaults_ok c previous ds \<and> list_all2 (\<lambda>d x. linked_from linked (default_declaration c d) x) ds xs
    | Inl e \<Rightarrow> diag_status e = CONFIT_ERR_SCHEMA \<and> \<not> defaults_ok c previous ds"
proof (induction ds arbitrary: previous)
  case Nil
  then show ?case by (simp add: defaults_ok_def)
next
  case (Cons d ds)
  have "declared_for p ROLE_CHOICE_DEFAULT_WHEN (choice_id c) = map (default_declaration c) (choice_defaults c)"
    using assms(2,3) by (intro declared_choice_default) (auto simp: loaded_project_def)
  then have "declared_for p ROLE_CHOICE_DEFAULT_WHEN (choice_id c) = map (default_declaration c) (previous @ d # ds)"
    by (simp only: Cons.prems)
  then have dk: "length previous < length (declared_for p ROLE_CHOICE_DEFAULT_WHEN (choice_id c))"
    "declared_for p ROLE_CHOICE_DEFAULT_WHEN (choice_id c) ! length previous = default_declaration c d"
    by (simp_all add: nth_append)
  obtain x where x: "confit_v2_structure_find_expression linked ROLE_CHOICE_DEFAULT_WHEN (choice_id c) (length previous) = Some x"
    "linked_from linked (default_declaration c d) x"
    using find_declared_Some [OF assms(1) dk(1)] dk(2) by metis
  have mem: "confit_v2_choice_has_member c (chd_member d) \<longleftrightarrow> chd_member d \<in> set (choice_members c)"
    by (auto simp: confit_v2_choice_has_member_def list_ex_iff strcmp_eq)
  have tie: "list_ex (\<lambda>other. chd_priority other = chd_priority d \<and> strcmp (chd_member other) (chd_member d) \<noteq> 0
      \<and> same_text (expr_text (chd_when other)) (expr_text (chd_when d))) previous
    \<longleftrightarrow> \<not> (\<forall>q \<in> set previous. \<not> default_tie q d)"
    by (simp add: list_ex_iff default_tie_def strcmp_eq)
  show ?case
  proof (cases "chd_member d \<in> set (choice_members c) \<and> (\<forall>q \<in> set previous. \<not> default_tie q d)")
    case True
    with Cons.IH [of "previous @ [d]"] Cons.prems x show ?thesis
      by (cases "choice_defaults_loop linked c (previous @ [d]) ds") (simp_all add: mem tie defaults_ok_Cons Let_def)
  next
    case False
    then have "\<not> defaults_ok c previous (d # ds)" unfolding defaults_ok_Cons by blast
    with x False show ?thesis by (cases "chd_member d \<in> set (choice_members c)") (simp_all only: mem tie choice_defaults_loop.simps
        Let_def option.case if_True if_False not_not simp_thms sum.case structure_diagnostic_status)
  qed
qed

text \<open>A compiled choice and its declaration.\<close>

definition choice_compiled :: "v2_project \<Rightarrow> linked_project \<Rightarrow> v2_choice \<Rightarrow> compiled_choice \<Rightarrow> bool" where
  "choice_compiled p linked c cc \<longleftrightarrow> cc_source cc = c \<and> members_found p c (choice_members c) (cc_members cc)
     \<and> list_all2 (\<lambda>d x. linked_from linked (default_declaration c d) x) (choice_defaults c) (cc_default_when cc)
     \<and> cc_available_if cc = confit_v2_structure_find_expression linked ROLE_CHOICE_AVAILABLE_IF (choice_id c) 0
     \<and> cc_visible_if cc = confit_v2_structure_find_expression linked ROLE_CHOICE_VISIBLE_IF (choice_id c) 0"

lemma choice_condition_found:
  assumes "confit_v2_schema_link_project p = Inr linked" "loaded_project p" "c \<in> set (project_choices p)"
  shows "expr_text (choice_available_if c) \<noteq> None \<Longrightarrow>
      confit_v2_structure_find_expression linked ROLE_CHOICE_AVAILABLE_IF (choice_id c) 0 \<noteq> None"
    and "expr_text (choice_visible_if c) \<noteq> None \<Longrightarrow>
      confit_v2_structure_find_expression linked ROLE_CHOICE_VISIBLE_IF (choice_id c) 0 \<noteq> None"
proof -
  have found: "confit_v2_structure_find_expression linked role (choice_id c) 0 \<noteq> None"
    if r: "role \<in> {ROLE_CHOICE_AVAILABLE_IF, ROLE_CHOICE_VISIBLE_IF, ROLE_CHOICE_DEFAULT_WHEN}"
      and d: "d \<in> set (choice_declarations c)" "decl_role d = role" "has_text d" for role d
  proof -
    have "d \<in> set (declared_for p role (choice_id c))"
      using assms(2,3) d by (subst declared_choice [OF r]) (auto simp: loaded_project_def)
    then have "0 < length (declared_for p role (choice_id c))" by (rule length_pos_if_in_set)
    then show ?thesis by (rule find_declared_Some [OF assms(1)]) simp
  qed
  show "expr_text (choice_available_if c) \<noteq> None \<Longrightarrow>
      confit_v2_structure_find_expression linked ROLE_CHOICE_AVAILABLE_IF (choice_id c) 0 \<noteq> None"
    by (rule found [of _ "declare_expression ROLE_CHOICE_AVAILABLE_IF (choice_id c) None (choice_available_if c) bool_type"])
      (simp_all add: choice_declarations_def declare_expression_def has_text_def Let_def)
  show "expr_text (choice_visible_if c) \<noteq> None \<Longrightarrow>
      confit_v2_structure_find_expression linked ROLE_CHOICE_VISIBLE_IF (choice_id c) 0 \<noteq> None"
    by (rule found [of _ "declare_expression ROLE_CHOICE_VISIBLE_IF (choice_id c) None (choice_visible_if c) bool_type"])
      (simp_all add: choice_declarations_def declare_expression_def has_text_def Let_def)
qed

lemma choice_ok_members:
  assumes "confit_v2_schema_link_project p = Inr linked"
  shows "choice_ok p c \<longleftrightarrow> choice_members c \<noteq> [] \<and> choice_cardinality c \<noteq> CARDINALITY_INVALID
    \<and> (\<exists>ms. members_found p c (choice_members c) ms) \<and> defaults_ok c [] (choice_defaults c)"
proof -
  have unique: "s = t" if "s \<in> set (project_symbols p)" "t \<in> set (project_symbols p)" "sym_id s = sym_id t" for s t
  proof -
    from that have "confit_v2_linked_project_find_symbol linked (sym_id t) = Some s"
      "confit_v2_linked_project_find_symbol linked (sym_id t) = Some t" by (simp_all add: linked_find_symbol [OF assms])
    then show ?thesis by simp
  qed
  have "(\<exists>ms. members_found p c names ms) \<longleftrightarrow>
      (\<forall>n \<in> set names. \<exists>s \<in> set (project_symbols p). sym_id s = n \<and> sym_type s = choice_member_type c)
      \<and> (\<exists>dom. \<forall>s \<in> set (project_symbols p). sym_id s \<in> set names \<longrightarrow> sym_write_domain s = dom)"
    (is "_ \<longleftrightarrow> ?types \<and> ?domain") for names
  proof
    assume "\<exists>ms. members_found p c names ms"
    then obtain ms where ms: "map sym_id ms = names" "set ms \<subseteq> set (project_symbols p)"
      "\<forall>s \<in> set ms. sym_type s = choice_member_type c" "\<forall>s \<in> set ms. sym_write_domain s = sym_write_domain (hd ms)"
      by (auto simp: members_found_def)
    have ?types
    proof
      fix n assume "n \<in> set names"
      then obtain s where "s \<in> set ms" "sym_id s = n" using ms(1) by auto
      with ms show "\<exists>s \<in> set (project_symbols p). sym_id s = n \<and> sym_type s = choice_member_type c" by blast
    qed
    moreover have "sym_write_domain s = sym_write_domain (hd ms)"
      if s: "s \<in> set (project_symbols p)" "sym_id s \<in> set names" for s
    proof -
      from s(2) ms(1) obtain t where "t \<in> set ms" "sym_id t = sym_id s" by auto
      moreover then have "t = s" using s(1) ms(2) by (intro unique) auto
      ultimately show ?thesis using ms(4) by blast
    qed
    ultimately show "?types \<and> ?domain" by blast
  next
    assume r: "?types \<and> ?domain"
    then obtain dom where dom: "\<forall>s \<in> set (project_symbols p). sym_id s \<in> set names \<longrightarrow> sym_write_domain s = dom" by blast
    from r have "\<forall>n \<in> set names. \<exists>s. s \<in> set (project_symbols p) \<and> sym_id s = n \<and> sym_type s = choice_member_type c" by blast
    then obtain f where f: "\<forall>n \<in> set names. f n \<in> set (project_symbols p) \<and> sym_id (f n) = n \<and> sym_type (f n) = choice_member_type c"
      by metis
    have "sym_write_domain s = dom" if "s \<in> set (map f names)" for s
      using f dom that by auto
    moreover have "map sym_id (map f names) = names" using f by (simp add: map_idI)
    ultimately have "members_found p c names (map f names)"
      using f by (cases names) (auto simp: members_found_def)
    then show "\<exists>ms. members_found p c names ms" ..
  qed
  from this [of "choice_members c"] show ?thesis
    by (simp add: choice_ok_def defaults_ok_def default_tie_def)
qed

lemma one_choice_outcome:
  assumes "confit_v2_schema_link_project p = Inr linked" "loaded_project p" "c \<in> set (project_choices p)"
  shows "case confit_v2_compile_one_choice linked c of
      Inr cc \<Rightarrow> choice_ok p c \<and> choice_compiled p linked c cc
    | Inl e \<Rightarrow> diag_status e = CONFIT_ERR_SCHEMA \<and> \<not> choice_ok p c"
proof (cases "choice_members c = [] \<or> choice_cardinality c = CARDINALITY_INVALID")
  case True
  then show ?thesis by (cases "choice_cardinality c") (auto simp: confit_v2_compile_one_choice_def choice_ok_def)
next
  case False
  then have card: "choice_members c \<noteq> []"
    "\<not> (choice_cardinality c \<noteq> EXACTLY_ONE \<and> choice_cardinality c \<noteq> ZERO_OR_ONE \<and> choice_cardinality c \<noteq> ONE_OR_MORE)"
    by (cases "choice_cardinality c"; simp)+
  let ?available = "confit_v2_structure_find_expression linked ROLE_CHOICE_AVAILABLE_IF (choice_id c) 0"
    and ?visible = "confit_v2_structure_find_expression linked ROLE_CHOICE_VISIBLE_IF (choice_id c) 0"
  have conds: "\<not> ((expr_text (choice_available_if c) \<noteq> None \<and> ?available = None)
      \<or> (expr_text (choice_visible_if c) \<noteq> None \<and> ?visible = None))"
    using choice_condition_found [OF assms] by blast
  have compile: "confit_v2_compile_one_choice linked c =
    bind_res (choice_members_loop linked c [] (choice_members c)) (\<lambda>members.
    bind_res (choice_defaults_loop linked c [] (choice_defaults c)) (\<lambda>whens.
      Inr \<lparr>cc_source = c, cc_members = members, cc_available_if = ?available, cc_visible_if = ?visible,
           cc_default_when = whens\<rparr>))"
    unfolding confit_v2_compile_one_choice_def Let_def using card conds by (simp only: if_False simp_thms)
  note ok = choice_ok_members [OF assms(1), of c]
  have m: "case choice_members_loop linked c [] (choice_members c) of
      Inr ms' \<Rightarrow> members_found p c (choice_members c) ms'
    | Inl e \<Rightarrow> diag_status e = CONFIT_ERR_SCHEMA \<and> (\<nexists>ms'. members_found p c (choice_members c) ms')"
    using members_loop_outcome [OF assms(1), where c = c and names = "[]" and ms = "[]" and rest = "choice_members c"]
    by (cases "choice_members_loop linked c [] (choice_members c)") (simp_all add: members_found_def)
  have d: "case choice_defaults_loop linked c [] (choice_defaults c) of
      Inr xs \<Rightarrow> defaults_ok c [] (choice_defaults c)
        \<and> list_all2 (\<lambda>d x. linked_from linked (default_declaration c d) x) (choice_defaults c) xs
    | Inl e \<Rightarrow> diag_status e = CONFIT_ERR_SCHEMA \<and> \<not> defaults_ok c [] (choice_defaults c)"
    by (rule defaults_loop_outcome [OF assms]) simp
  show ?thesis
  proof (cases "choice_members_loop linked c [] (choice_members c)")
    case (Inl e)
    with m ok show ?thesis by (simp add: compile)
  next
    case (Inr ms)
    with m have ms: "members_found p c (choice_members c) ms" by simp
    show ?thesis
    proof (cases "choice_defaults_loop linked c [] (choice_defaults c)")
      case (Inl e)
      with d ok \<open>choice_members_loop _ _ _ _ = Inr ms\<close> show ?thesis by (simp add: compile)
    next
      case (Inr xs)
      with d ok \<open>choice_members_loop _ _ _ _ = Inr ms\<close> ms False show ?thesis
        by (auto simp: compile choice_compiled_def)
    qed
  qed
qed

lemma list_all2_both:
  "list_all2 (\<lambda>x y. P x \<and> Q x y) xs ys \<Longrightarrow> (\<forall>x \<in> set xs. P x) \<and> list_all2 Q xs ys"
  by (induction rule: list_all2_induct) auto

lemma choices_outcome:
  assumes "confit_v2_schema_link_project p = Inr linked" "loaded_project p"
  shows "case confit_v2_compile_choices linked of
      Inr ccs \<Rightarrow> (\<forall>c \<in> set (project_choices p). choice_ok p c)
        \<and> list_all2 (choice_compiled p linked) (sort_key choice_id (project_choices p)) ccs
    | Inl e \<Rightarrow> diag_status e = CONFIT_ERR_SCHEMA \<and> \<not> (\<forall>c \<in> set (project_choices p). choice_ok p c)"
proof -
  have p: "lp_project linked = p" using assms(1) by (rule link_project_cases) simp
  let ?one = "confit_v2_compile_one_choice linked" and ?cs = "sort_key choice_id (project_choices p)"
  have "qsort_by confit_v2_compiled_choice_compare cs = sort_key choice_id cs" for cs
    by (rule qsort_by_sort_key) (simp add: compares_def confit_v2_compiled_choice_compare_def strcmp_le)
  then have e: "confit_v2_compile_choices linked = fold_res (\<lambda>c output. bind_res (?one c) (\<lambda>y. Inr (output @ [y]))) ?cs []"
    by (simp add: confit_v2_compile_choices_def p)
  have outcome: "case confit_v2_compile_choices linked of
      Inr yss \<Rightarrow> \<exists>ws. yss = [] @ ws \<and> list_all2 (\<lambda>x y. ?one x = Inr y) ?cs ws
    | Inl e \<Rightarrow> \<exists>x \<in> set ?cs. ?one x = Inl e"
    unfolding e by (rule fold_collect_outcome)
  show ?thesis
  proof (cases "confit_v2_compile_choices linked")
    case (Inl d)
    with outcome obtain c where "c \<in> set (project_choices p)" "?one c = Inl d" by auto
    with one_choice_outcome [OF assms, of c] Inl show ?thesis by auto
  next
    case (Inr ccs)
    with outcome have all: "list_all2 (\<lambda>x y. ?one x = Inr y) ?cs ccs" by simp
    then have "list_all2 (\<lambda>c cc. choice_ok p c \<and> choice_compiled p linked c cc) ?cs ccs"
      by (rule list.rel_mono_strong) (use one_choice_outcome [OF assms] in fastforce)
    then have "(\<forall>c \<in> set ?cs. choice_ok p c) \<and> list_all2 (choice_compiled p linked) ?cs ccs"
      by (rule list_all2_both)
    with Inr show ?thesis by simp
  qed
qed

section \<open>Constraints\<close>

definition constraint_ok :: "v2_constraint \<Rightarrow> bool" where
  "constraint_ok c \<longleftrightarrow> (\<exists>m. constraint_message c = Some m \<and> char_at m 0 \<noteq> NUL)"

abbreviation when_declaration :: "v2_constraint \<Rightarrow> expr_declaration" where
  "when_declaration c \<equiv> declare_expression ROLE_CONSTRAINT_WHEN (constraint_id c) None (constraint_when c) bool_type"
abbreviation require_declaration :: "v2_constraint \<Rightarrow> expr_declaration" where
  "require_declaration c \<equiv> declare_expression ROLE_CONSTRAINT_REQUIRE (constraint_id c) None (constraint_require c) bool_type"

definition constraint_compiled :: "linked_project \<Rightarrow> v2_constraint \<Rightarrow> compiled_constraint \<Rightarrow> bool" where
  "constraint_compiled linked c k \<longleftrightarrow> cn_source k = c
     \<and> linked_from linked (when_declaration c) (cn_when k) \<and> linked_from linked (require_declaration c) (cn_require k)"

lemma list_all2_pairs:
  "list_all2 R (concat (map (\<lambda>c. [f c, g c]) cs)) ys \<Longrightarrow> length ys = 2 * length cs
     \<and> (\<forall>j < length cs. R (f (cs ! j)) (ys ! (2 * j)) \<and> R (g (cs ! j)) (ys ! (2 * j + 1)))"
proof (induction cs arbitrary: ys)
  case (Cons c cs)
  then obtain y z zs where ys: "ys = y # z # zs" "R (f c) y" "R (g c) z"
    "list_all2 R (concat (map (\<lambda>c. [f c, g c]) cs)) zs" by (auto simp: list_all2_Cons1)
  from Cons.IH [OF ys(4)] ys show ?case by (auto simp: nth_Cons split: nat.split)
qed simp

text \<open>The linker puts the two expressions of each constraint behind all others.\<close>

lemma constraint_expressions_last:
  assumes "confit_v2_schema_link_project p = Inr linked" "loaded_project p"
  defines "n \<equiv> length (project_constraints p)"
    and "base \<equiv> length (lp_expressions linked) - length (project_constraints p) * 2"
  shows "n * 2 \<le> length (lp_expressions linked)"
    and "j < n \<Longrightarrow> linked_from linked (when_declaration (project_constraints p ! j)) (lp_expressions linked ! (base + j * 2))"
    and "j < n \<Longrightarrow> linked_from linked (require_declaration (project_constraints p ! j)) (lp_expressions linked ! (base + j * 2 + 1))"
proof -
  let ?cs = "project_constraints p"
  have "filter has_text (concat (map constraint_declarations ks)) = concat (map (\<lambda>c. [when_declaration c, require_declaration c]) ks)"
    if "set ks \<subseteq> set ?cs" for ks
    using that assms(2)
    by (induction ks) (auto simp: constraint_declarations_def has_text_def declare_expression_def loaded_project_def)
  then have "filter has_text (concat (map constraint_declarations ?cs)) = concat (map (\<lambda>c. [when_declaration c, require_declaration c]) ?cs)"
    by blast
  moreover define before where "before = filter has_text
    (concat (map symbol_declarations (sort_key sym_id (project_symbols p)))
     @ map (\<lambda>m. declare_expression ROLE_MENU_VISIBLE_IF (menu_id m) None (menu_visible_if m) bool_type) (project_menus p)
     @ concat (map choice_declarations (project_choices p)))"
  then have "filter has_text (project_declarations p) = before @ filter has_text (concat (map constraint_declarations ?cs))"
    by (simp only: project_declarations_def filter_append append_assoc)
  ultimately have "filter has_text (project_declarations p)
      = before @ concat (map (\<lambda>c. [when_declaration c, require_declaration c]) ?cs)" by (simp only:)
  with linked_from_records [OF assms(1)] obtain A B where ab: "lp_expressions linked = A @ B"
    "list_all2 (linked_from linked) (concat (map (\<lambda>c. [when_declaration c, require_declaration c]) ?cs)) B"
    by (auto simp: list_all2_append1)
  from list_all2_pairs [OF ab(2)] have B: "length B = 2 * n"
    "\<forall>j < n. linked_from linked (when_declaration (?cs ! j)) (B ! (2 * j))
       \<and> linked_from linked (require_declaration (?cs ! j)) (B ! (2 * j + 1))" unfolding n_def by auto
  have b: "base = length A" using B(1) by (simp add: base_def ab(1) n_def)
  show "n * 2 \<le> length (lp_expressions linked)" using B(1) by (simp add: ab(1))
  show "j < n \<Longrightarrow> linked_from linked (when_declaration (?cs ! j)) (lp_expressions linked ! (base + j * 2))"
    using B(2) unfolding b ab(1) by (simp add: nth_append mult.commute)
  show "j < n \<Longrightarrow> linked_from linked (require_declaration (?cs ! j)) (lp_expressions linked ! (base + j * 2 + 1))"
    using B(2) unfolding b ab(1) by (simp add: nth_append mult.commute)
qed

lemma constraints_loop_outcome:
  assumes "confit_v2_schema_link_project p = Inr linked" "loaded_project p"
  defines "base \<equiv> length (lp_expressions linked) - length (project_constraints p) * 2"
  shows "done @ cs = project_constraints p \<Longrightarrow>
    case constraints_loop linked base (length done) cs of
      Inr ks \<Rightarrow> (\<forall>c \<in> set cs. constraint_ok c) \<and> list_all2 (constraint_compiled linked) cs ks
    | Inl e \<Rightarrow> diag_status e = CONFIT_ERR_SCHEMA \<and> \<not> (\<forall>c \<in> set cs. constraint_ok c)"
proof (induction cs arbitrary: "done")
  case (Cons c cs)
  let ?i = "length done" and ?xs = "lp_expressions linked"
  have len: "?i < length (project_constraints p)" and at: "project_constraints p ! ?i = c"
    using arg_cong [OF Cons.prems, of length] arg_cong [OF Cons.prems, of "\<lambda>xs. xs ! ?i"] by simp_all
  note last = constraint_expressions_last [OF assms(1,2), folded base_def]
  have in_range: "base + ?i * 2 < length ?xs" "base + ?i * 2 + 1 < length ?xs"
    using last(1) len unfolding base_def by linarith+
  have linked: "linked_from linked (when_declaration c) (?xs ! (base + ?i * 2))"
    "linked_from linked (require_declaration c) (?xs ! (base + ?i * 2 + 1))"
    using last(2,3) [OF len] at by simp_all
  then have roles: "lx_role (?xs ! (base + ?i * 2)) = ROLE_CONSTRAINT_WHEN" "lx_owner_id (?xs ! (base + ?i * 2)) = constraint_id c"
    "lx_role (?xs ! (base + ?i * 2 + 1)) = ROLE_CONSTRAINT_REQUIRE" "lx_owner_id (?xs ! (base + ?i * 2 + 1)) = constraint_id c"
    by (auto simp: linked_from_def links_def declare_expression_def)
  have msg: "(case constraint_message c of None \<Rightarrow> True | Some m \<Rightarrow> char_at m 0 = NUL) \<longleftrightarrow> \<not> constraint_ok c"
    by (auto simp: constraint_ok_def split: option.splits)
  have IH: "case constraints_loop linked base (length (done @ [c])) cs of
      Inr ks \<Rightarrow> (\<forall>c \<in> set cs. constraint_ok c) \<and> list_all2 (constraint_compiled linked) cs ks
    | Inl e \<Rightarrow> diag_status e = CONFIT_ERR_SCHEMA \<and> \<not> (\<forall>c \<in> set cs. constraint_ok c)"
    using Cons.prems by (intro Cons.IH) simp
  show ?case
  proof (cases "constraint_ok c")
    case True
    then have step: "constraints_loop linked base ?i (c # cs) = bind_res (constraints_loop linked base (length (done @ [c])) cs)
       (\<lambda>ks. Inr (\<lparr>cn_source = c, cn_when = ?xs ! (base + ?i * 2), cn_require = ?xs ! (base + ?i * 2 + 1)\<rparr> # ks))"
      using in_range roles msg
      by (simp add: Let_def confit_v2_linked_project_expression_at_def strcmp_eq)
    show ?thesis
      using IH linked True unfolding step
      by (cases "constraints_loop linked base (length (done @ [c])) cs") (simp_all add: constraint_compiled_def)
  next
    case False
    then show ?thesis using msg by (simp add: Let_def)
  qed
qed simp

lemma constraints_outcome:
  assumes "confit_v2_schema_link_project p = Inr linked" "loaded_project p"
  shows "case confit_v2_compile_constraints linked of
      Inr ks \<Rightarrow> (\<forall>c \<in> set (project_constraints p). constraint_ok c)
        \<and> (\<exists>js. ks = sort_key (\<lambda>k. constraint_id (cn_source k)) js
              \<and> list_all2 (constraint_compiled linked) (project_constraints p) js)
    | Inl e \<Rightarrow> diag_status e = CONFIT_ERR_SCHEMA \<and> \<not> (\<forall>c \<in> set (project_constraints p). constraint_ok c)"
proof -
  have p: "lp_project linked = p" using assms(1) by (rule link_project_cases) simp
  have "\<not> length (project_constraints p) > length (lp_expressions linked) div 2"
    using constraint_expressions_last(1) [OF assms] by linarith
  moreover have "qsort_by confit_v2_compiled_constraint_compare ks = sort_key (\<lambda>k. constraint_id (cn_source k)) ks" for ks
    by (rule qsort_by_sort_key) (simp add: compares_def confit_v2_compiled_constraint_compare_def strcmp_le)
  ultimately have e: "confit_v2_compile_constraints linked = bind_res
      (constraints_loop linked (length (lp_expressions linked) - length (project_constraints p) * 2) 0 (project_constraints p))
      (\<lambda>ks. Inr (sort_key (\<lambda>k. constraint_id (cn_source k)) ks))"
    by (simp add: confit_v2_compile_constraints_def p Let_def)
  from constraints_loop_outcome [OF assms, of "[]"] show ?thesis
    unfolding e by (auto split: sum.splits)
qed

section \<open>Graphs\<close>

definition edges_of :: "linked_expression \<Rightarrow> graph_edge list" where
  "edges_of x = map (\<lambda>r. \<lparr>edge_owner_id = lx_owner_id x, edge_target = lref_symbol r,
     edge_span = expression_span (lx_expression x)\<rparr>) (lx_references x)"

definition member_edges :: "compiled_choice \<Rightarrow> graph_edge list" where
  "member_edges c = map (\<lambda>m. \<lparr>edge_owner_id = choice_id (cc_source c), edge_target = m,
     edge_span = choice_span (cc_source c)\<rparr>) (cc_members c)"

definition edges_in :: "compiled_graph list \<Rightarrow> graph_kind \<Rightarrow> graph_edge list" where
  "edges_in graphs kind = graph_edges (graphs ! confit_v2_graph_slot kind)"

lemma slot_less: "confit_v2_graph_slot kind < 4" and slot_inject: "confit_v2_graph_slot k = confit_v2_graph_slot l \<longleftrightarrow> k = l"
  by (cases kind; simp) (cases k; cases l; simp)

lemma append_edges:
  assumes "length graphs = 4"
  shows "length (confit_v2_graph_append k e graphs) = 4"
    and "edges_in (confit_v2_graph_append k e graphs) kind = edges_in graphs kind @ (if k = kind then [e] else [])"
    and "map graph_kind_of (confit_v2_graph_append k e graphs) = map graph_kind_of graphs"
  using assms slot_less [of k] slot_less [of kind]
  by (auto simp: confit_v2_graph_append_def edges_in_def Let_def nth_list_update slot_inject map_update)
    (metis list_update_id map_update nth_map)

lemma fold_append_edges:
  "length graphs = 4 \<Longrightarrow> length (fold (\<lambda>r. confit_v2_graph_append k (f r)) rs graphs) = 4
    \<and> edges_in (fold (\<lambda>r. confit_v2_graph_append k (f r)) rs graphs) kind
        = edges_in graphs kind @ (if k = kind then map f rs else [])
    \<and> map graph_kind_of (fold (\<lambda>r. confit_v2_graph_append k (f r)) rs graphs) = map graph_kind_of graphs"
  by (induction rs arbitrary: graphs) (simp_all add: append_edges)

lemma fold_expression_edges:
  "length graphs = 4 \<Longrightarrow> length (fold confit_v2_graph_append_expression xs graphs) = 4
    \<and> edges_in (fold confit_v2_graph_append_expression xs graphs) kind
        = edges_in graphs kind @ concat (map edges_of (filter (\<lambda>x. confit_v2_expression_graph_kind (lx_role x) = kind) xs))
    \<and> map graph_kind_of (fold confit_v2_graph_append_expression xs graphs) = map graph_kind_of graphs"
proof (induction xs arbitrary: graphs)
  case (Cons x xs)
  note step = fold_append_edges [OF Cons.prems, of "confit_v2_expression_graph_kind (lx_role x)"
      "\<lambda>r. \<lparr>edge_owner_id = lx_owner_id x, edge_target = lref_symbol r, edge_span = expression_span (lx_expression x)\<rparr>"
      "lx_references x"]
  then have "length (confit_v2_graph_append_expression x graphs) = 4" by (simp add: confit_v2_graph_append_expression_def)
  from Cons.IH [OF this] step show ?case
    by (simp add: confit_v2_graph_append_expression_def edges_of_def)
qed simp

lemma fold_choice_edges:
  "length graphs = 4 \<Longrightarrow> length (fold (\<lambda>c. fold (\<lambda>m. confit_v2_graph_append GRAPH_CHOICE
      \<lparr>edge_owner_id = choice_id (cc_source c), edge_target = m, edge_span = choice_span (cc_source c)\<rparr>) (cc_members c)) cs graphs) = 4
    \<and> edges_in (fold (\<lambda>c. fold (\<lambda>m. confit_v2_graph_append GRAPH_CHOICE
      \<lparr>edge_owner_id = choice_id (cc_source c), edge_target = m, edge_span = choice_span (cc_source c)\<rparr>) (cc_members c)) cs graphs) kind
        = edges_in graphs kind @ (if kind = GRAPH_CHOICE then concat (map member_edges cs) else [])
    \<and> map graph_kind_of (fold (\<lambda>c. fold (\<lambda>m. confit_v2_graph_append GRAPH_CHOICE
      \<lparr>edge_owner_id = choice_id (cc_source c), edge_target = m, edge_span = choice_span (cc_source c)\<rparr>) (cc_members c)) cs graphs)
        = map graph_kind_of graphs"
proof (induction cs arbitrary: graphs)
  case (Cons c cs)
  note step = fold_append_edges [OF Cons.prems, of GRAPH_CHOICE
      "\<lambda>m. \<lparr>edge_owner_id = choice_id (cc_source c), edge_target = m, edge_span = choice_span (cc_source c)\<rparr>" "cc_members c"]
  from Cons.IH [OF conjunct1 [OF step]] step show ?case by (auto simp: member_edges_def)
qed simp

lemma build_graphs_edges:
  "map graph_kind_of (confit_v2_structure_build_graphs linked choices) = kKinds
    \<and> edges_in (confit_v2_structure_build_graphs linked choices) kind
       = concat (map edges_of (filter (\<lambda>x. confit_v2_expression_graph_kind (lx_role x) = kind) (lp_expressions linked)))
         @ (if kind = GRAPH_CHOICE then concat (map member_edges choices) else [])"
proof -
  let ?g = "map (\<lambda>k. \<lparr>graph_kind_of = k, graph_edges = []\<rparr>) kKinds"
  have "length ?g = 4" "edges_in ?g kind = []" "map graph_kind_of ?g = kKinds"
    by (simp_all add: kKinds_def edges_in_def) (cases kind; simp)
  then show ?thesis
    using fold_expression_edges [of ?g "lp_expressions linked" kind]
      fold_choice_edges [of "fold confit_v2_graph_append_expression (lp_expressions linked) ?g" choices kind]
    by (simp add: confit_v2_structure_build_graphs_def)
qed

end
