(* ===== verification/Compiled_Structure.thy ===== *)
theory Compiled_Structure
  imports Structure_Correct
begin

text \<open>
  What a compiled structure promises its clients, over \<open>src/schema/v2/validate.c\<close> and
  \<open>src/constraint/v2\<close>: which projects compile, the forest of menus, the resolved choices and
  constraints, and the edges of the four graphs.
\<close>

section \<open>The outcome of compiling\<close>

definition structure_ok :: "v2_project \<Rightarrow> bool" where
  "structure_ok p \<longleftrightarrow> menus_ok p
     \<and> (\<forall>s \<in> set (project_symbols p). \<forall>m. sym_menu s = Some m \<longrightarrow> m \<in> menu_id ` set (project_menus p))
     \<and> (\<forall>m \<in> set (project_menus p). references_ok p m)
     \<and> (\<forall>c \<in> set (project_choices p). choice_ok p c) \<and> (\<forall>c \<in> set (project_constraints p). constraint_ok c)"

definition structure_compiled :: "v2_project \<Rightarrow> linked_project \<Rightarrow> compiled_structure \<Rightarrow> bool" where
  "structure_compiled p linked cs \<longleftrightarrow> cs_linked cs = linked \<and> menus_compiled linked (cs_menus cs)
     \<and> (\<forall>i < length (cs_menus cs). \<exists>k \<le> length (cs_menus cs). (parent_step (cs_menus cs) ^^ k) (Some i) = None)
     \<and> distinct (map (\<lambda>c. (cm_parent c, menu_order (cm_source c))) (cs_menus cs))
     \<and> map cmr_source (cs_menu_references cs) = concat (map menu_references (project_menus p))
     \<and> (\<forall>c \<in> set (cs_menu_references cs). cmr_symbol c \<in> set (project_symbols p)
          \<and> sym_id (cmr_symbol c) = mref_option_id (cmr_source c))
     \<and> list_all2 (choice_compiled p linked) (sort_key choice_id (project_choices p)) (cs_choices cs)
     \<and> (\<exists>js. cs_constraints cs = sort_key (\<lambda>k. constraint_id (cn_source k)) js
          \<and> list_all2 (constraint_compiled linked) (project_constraints p) js)
     \<and> cs_graphs cs = confit_v2_structure_build_graphs linked (cs_choices cs)"

lemma compile_outcome:
  assumes "confit_v2_schema_link_project p = Inr linked" "loaded_project p"
  shows "case confit_v2_compile_structure linked of
      Inr cs \<Rightarrow> structure_ok p \<and> structure_compiled p linked cs
    | Inl e \<Rightarrow> diag_status e = CONFIT_ERR_SCHEMA \<and> \<not> structure_ok p"
proof -
  have p: "lp_project linked = p" using assms(1) by (rule link_project_cases) simp
  note menus = compile_menus_outcome [OF assms] and choices = choices_outcome [OF assms]
    and constraints = constraints_outcome [OF assms]
  show ?thesis
  proof (cases "confit_v2_compile_menus linked")
    case (Inl e)
    with menus show ?thesis by (simp add: confit_v2_compile_structure_def structure_ok_def)
  next
    case m: (Inr menus)
    with menus have c: "menus_compiled linked menus" by simp
    note symbols = symbol_menus_outcome [OF c, unfolded p, OF assms(2)]
      and references = menu_references_outcome [OF assms(1), of menus]
    show ?thesis
    proof (cases "confit_v2_validate_symbol_menus linked menus")
      case (Inl e)
      with symbols m show ?thesis by (auto simp: confit_v2_compile_structure_def structure_ok_def)
    next
      case s: (Inr u)
      show ?thesis
      proof (cases "confit_v2_compile_menu_references linked menus")
        case (Inl e)
        with references m s show ?thesis by (simp add: confit_v2_compile_structure_def structure_ok_def)
      next
        case r: (Inr rs)
        show ?thesis
        proof (cases "confit_v2_compile_choices linked")
          case (Inl e)
          with choices m s r show ?thesis by (simp add: confit_v2_compile_structure_def structure_ok_def)
        next
          case ch: (Inr cs)
          show ?thesis
          proof (cases "confit_v2_compile_constraints linked")
            case (Inl e)
            with constraints m s r ch show ?thesis by (simp add: confit_v2_compile_structure_def structure_ok_def)
          next
            case k: (Inr ks)
            from menus m have 1: "menus_ok p" "\<forall>i < length menus. \<exists>k \<le> length menus. (parent_step menus ^^ k) (Some i) = None"
              "distinct (map (\<lambda>c. (cm_parent c, menu_order (cm_source c))) menus)" by simp_all
            from symbols s have 2: "\<forall>s \<in> set (project_symbols p). \<forall>m. sym_menu s = Some m \<longrightarrow> m \<in> menu_id ` set (project_menus p)"
              by simp
            from references r have 3: "\<forall>m \<in> set (project_menus p). references_ok p m"
              "map cmr_source rs = concat (map menu_references (project_menus p))"
              "\<forall>c \<in> set rs. cmr_symbol c \<in> set (project_symbols p) \<and> sym_id (cmr_symbol c) = mref_option_id (cmr_source c)"
              by simp_all
            from choices ch have 4: "\<forall>c \<in> set (project_choices p). choice_ok p c"
              "list_all2 (choice_compiled p linked) (sort_key choice_id (project_choices p)) cs" by simp_all
            from constraints k have 5: "\<forall>c \<in> set (project_constraints p). constraint_ok c"
              "\<exists>js. ks = sort_key (\<lambda>k. constraint_id (cn_source k)) js
                 \<and> list_all2 (constraint_compiled linked) (project_constraints p) js" by simp_all
            have "structure_ok p" unfolding structure_ok_def using 1(1) 2 3(1) 4(1) 5(1) by blast
            then show ?thesis using m s r ch k c 1(2,3) 3(2,3) 4(2) 5(2)
              by (simp add: confit_v2_compile_structure_def structure_compiled_def)
          qed
        qed
      qed
    qed
  qed
qed

lemma compiled_facts:
  assumes "confit_v2_schema_link_project p = Inr linked" "loaded_project p"
    and "confit_v2_compile_structure linked = Inr cs"
  shows "structure_compiled p linked cs"
  using compile_outcome [OF assms(1,2)] assms(3) by simp

text \<open>The compiled menus are a keyed store, through the search in the sorted array.\<close>

interpretation compiled_menus: keyed_store "\<lambda>ms. sorted_wrt (<) (map menu_name ms)" "\<lambda>ms. ms" menu_name
    "\<lambda>ms k. map_option (\<lambda>i. ms ! i) (confit_v2_compiled_structure_find_menu ms k)"
proof unfold_locales
  fix ms :: "compiled_menu list" and k
  assume asc: "sorted_wrt (<) (map menu_name ms)"
  then show "distinct (map menu_name ms)" using strict_sorted_iff by blast
  show "map_option (\<lambda>i. ms ! i) (confit_v2_compiled_structure_find_menu ms k) = find (\<lambda>c. menu_name c = k) ms"
    unfolding confit_v2_compiled_structure_find_menu_def by (rule binary_find_lookup [OF asc])
qed

section \<open>A sample structure\<close>

definition sample_menu :: "string \<Rightarrow> string option \<Rightarrow> nat \<Rightarrow> menu_node" where
  "sample_menu name parent order =
     \<lparr>menu_id = name, menu_prompt = None, menu_parent = parent, menu_order = of_nat order,
      menu_visible_if = sample_source None, menu_references = [], menu_span = sample_span\<rparr>"

definition sample_choice :: v2_choice where
  "sample_choice =
     \<lparr>choice_id = ''pick'', choice_member_type = OPTION_BOOL, choice_members = [''a.c'', ''a.d''],
      choice_cardinality = EXACTLY_ONE, choice_available_if = sample_source None,
      choice_visible_if = sample_source None,
      choice_defaults = [\<lparr>chd_when = sample_source (Some ''a.b == 1''), chd_member = ''a.d'', chd_priority = 1,
                          chd_span = sample_span\<rparr>],
      choice_span = sample_span\<rparr>"

definition sample_constraint :: v2_constraint where
  "sample_constraint =
     \<lparr>constraint_id = ''limit'', constraint_when = sample_source (Some ''a.c''),
      constraint_require = sample_source (Some ''a.b < 3''), constraint_message = Some ''too big'',
      constraint_span = sample_span\<rparr>"

definition sample_structured :: v2_project where
  "sample_structured =
     (sample_project [sample_symbol ''a.d'' OPTION_BOOL None, sample_symbol ''a.c'' OPTION_BOOL None,
                      sample_symbol ''a.b'' OPTION_INT None])
     \<lparr>project_menus := [sample_menu ''top'' None 1, sample_menu ''sub'' (Some ''top'') 1],
      project_choices := [sample_choice], project_constraints := [sample_constraint]\<rparr>"

definition structured_linked :: linked_project where
  "structured_linked = (case confit_v2_schema_link_project sample_structured of
     Inr linked \<Rightarrow> linked | Inl e \<Rightarrow> sample_linked)"

lemma structured_accepted: "case confit_v2_schema_link_project sample_structured of Inl e \<Rightarrow> False | Inr linked \<Rightarrow> True"
  by code_simp

lemma structured_linked: "confit_v2_schema_link_project sample_structured = Inr structured_linked"
  using structured_accepted by (auto simp: structured_linked_def split: sum.splits)

lemma structured_loaded: "loaded_project sample_structured"
  by (simp add: loaded_project_def sample_structured_def sample_project_def sample_menu_def sample_choice_def
      sample_constraint_def sample_source_def)

definition sample_compiled :: compiled_structure where
  "sample_compiled = (case confit_v2_compile_structure structured_linked of
     Inr cs \<Rightarrow> cs
   | Inl e \<Rightarrow> \<lparr>cs_linked = structured_linked, cs_menus = [], cs_menu_references = [], cs_choices = [],
               cs_constraints = [], cs_graphs = []\<rparr>)"

lemma sample_compiles: "case confit_v2_compile_structure structured_linked of Inl e \<Rightarrow> False | Inr cs \<Rightarrow> True"
  by code_simp

lemma sample_compiled: "confit_v2_compile_structure structured_linked = Inr sample_compiled"
  using sample_compiles by (auto simp: sample_compiled_def split: sum.splits)

section \<open>Properties\<close>

text \<open>C8. A linked project compiles exactly when its structure is well-formed: menus form a forest with
  ordered siblings, options and references name declared menus and options, choices have members of
  one type and write domain and unambiguous defaults, constraints have messages. Otherwise the
  result is a schema error: no internal error is reachable, since the linker provides every
  expression the compiler looks up.\<close>

theorem compile_structure_accepts_exactly:
  assumes "confit_v2_schema_link_project p = Inr linked" "loaded_project p"
  shows "case confit_v2_compile_structure linked of
      Inr cs \<Rightarrow> structure_ok p
    | Inl e \<Rightarrow> diag_status e = CONFIT_ERR_SCHEMA \<and> \<not> structure_ok p"
  using compile_outcome [OF assms] by (auto split: sum.splits)

lemma compile_structure_accepts_exactly_witness: "structure_ok sample_structured"
  using compile_structure_accepts_exactly [OF structured_linked structured_loaded] sample_compiled by simp

text \<open>C26. The compiled menus are the project's menus in order of their ids, each linked to its parent;
  from every menu the parents lead to a root in at most as many steps as there are menus, and no
  two children of a menu, nor two roots, have the same order.\<close>

theorem compiled_menus_forest:
  assumes "confit_v2_schema_link_project p = Inr linked" "loaded_project p"
    and "confit_v2_compile_structure linked = Inr cs"
  shows "map cm_source (cs_menus cs) = sort_key menu_id (project_menus p)
    \<and> (\<forall>c \<in> set (cs_menus cs). parent_linked (cs_menus cs) c)
    \<and> (\<forall>i < length (cs_menus cs). \<exists>k \<le> length (cs_menus cs). (parent_step (cs_menus cs) ^^ k) (Some i) = None)
    \<and> distinct (map (\<lambda>c. (cm_parent c, menu_order (cm_source c))) (cs_menus cs))"
proof -
  have "lp_project linked = p" using assms(1) by (rule link_project_cases) simp
  with compiled_facts [OF assms] show ?thesis by (simp add: structure_compiled_def menus_compiled_def)
qed

lemma compiled_menus_forest_witness:
  "map (menu_id \<circ> cm_source) (cs_menus sample_compiled) = [''sub'', ''top'']"
proof -
  from compiled_menus_forest [OF structured_linked structured_loaded sample_compiled]
  have "map menu_id (map cm_source (cs_menus sample_compiled)) = map menu_id (sort_key menu_id (project_menus sample_structured))"
    by simp
  also have "\<dots> = [''sub'', ''top'']" by code_simp
  finally show ?thesis by (simp add: o_def)
qed

text \<open>C27. The compiled choices are the project's choices in order of their ids: the members are the
  declared symbols in order, of the choice's type and of one write domain, and the k-th condition is
  the linked expression of the k-th default.\<close>

theorem compiled_choices_resolved:
  assumes "confit_v2_schema_link_project p = Inr linked" "loaded_project p"
    and "confit_v2_compile_structure linked = Inr cs"
  shows "list_all2 (choice_compiled p linked) (sort_key choice_id (project_choices p)) (cs_choices cs)"
  using compiled_facts [OF assms] by (simp add: structure_compiled_def)

lemma compiled_choices_resolved_witness:
  "\<exists>c. cs_choices sample_compiled = [c] \<and> cc_source c = sample_choice \<and> length (cc_default_when c) = 1"
proof -
  from compiled_choices_resolved [OF structured_linked structured_loaded sample_compiled] obtain c where
    "cs_choices sample_compiled = [c]" "choice_compiled sample_structured structured_linked sample_choice c"
    by (auto simp: sample_structured_def list_all2_Cons1)
  then show ?thesis by (auto simp: choice_compiled_def sample_choice_def dest: list_all2_lengthD)
qed

text \<open>C36. Every compiled constraint holds the two linked expressions of its own declaration, although
  the compiler takes them by position from the end of the linker's list.\<close>

theorem compiled_constraints_paired:
  assumes "confit_v2_schema_link_project p = Inr linked" "loaded_project p"
    and "confit_v2_compile_structure linked = Inr cs"
  shows "\<exists>ks. cs_constraints cs = sort_key (\<lambda>k. constraint_id (cn_source k)) ks
    \<and> list_all2 (constraint_compiled linked) (project_constraints p) ks"
  using compiled_facts [OF assms] by (simp add: structure_compiled_def)

lemma compiled_constraints_paired_witness:
  "\<exists>k. cs_constraints sample_compiled = [k] \<and> constraint_compiled structured_linked sample_constraint k"
  using compiled_constraints_paired [OF structured_linked structured_loaded sample_compiled]
  by (auto simp: sample_structured_def list_all2_Cons1)

text \<open>The four graphs hold, in order and without mixing, the edges of the expressions of their kind;
  the choice graph also holds the members of the choices.\<close>

lemma graph_edges_filter:
  assumes "confit_v2_schema_link_project p = Inr linked" "loaded_project p"
    and "confit_v2_compile_structure linked = Inr cs"
  shows "graph_edges (confit_v2_compiled_structure_graph cs kind)
    = concat (map edges_of (filter (\<lambda>x. confit_v2_expression_graph_kind (lx_role x) = kind) (lp_expressions linked)))
      @ (if kind = GRAPH_CHOICE then concat (map member_edges (cs_choices cs)) else [])"
  using compiled_facts [OF assms] build_graphs_edges [of linked "cs_choices cs" kind]
  by (simp add: structure_compiled_def confit_v2_compiled_structure_graph_def edges_in_def)

end
