(* ===== verification/Toml.thy ===== *)
theory Toml
  imports Schema_Model
begin

text \<open>
  The adapter \<open>src/parser/v2/tomlc17_adapter.c\<close> over the vendored TOML parser: the tree the parser
  returns (\<open>toml_datum_t\<close>), the check of the encoding, the line taken from an error message and
  the accessors. The parser \<open>toml_parse_named\<close> and the reading of a file are parameters. A string
  of a tree has a length of its own and may hold any byte; \<open>c_text\<close> is what a C string function
  sees of it. Accessors are given a tree, so the null argument is not modelled.
\<close>

section \<open>Trees\<close>

datatype toml_datum = Datum (datum_lineno: int) (datum_colno: int) (datum_source: "string option") (datum_content: toml_content)
and toml_content =
  TOML_STRING string
| TOML_INT64 i64
| TOML_FP64 f64
| TOML_BOOLEAN bool
| TOML_DATE
| TOML_TIME
| TOML_DATETIME
| TOML_DATETIMETZ
| TOML_ARRAY "toml_datum list"
| TOML_TABLE "(string \<times> toml_datum) list"
| TOML_UNKNOWN

datatype toml_value_type =
  TOML_VALUE_UNKNOWN | TOML_VALUE_STRING | TOML_VALUE_INT64 | TOML_VALUE_FLOAT64 | TOML_VALUE_BOOL
| TOML_VALUE_DATE | TOML_VALUE_TIME | TOML_VALUE_DATETIME | TOML_VALUE_DATETIME_TZ
| TOML_VALUE_ARRAY | TOML_VALUE_TABLE

fun confit_v2_toml_map_type :: "toml_content \<Rightarrow> toml_value_type" where
  "confit_v2_toml_map_type (TOML_STRING s) = TOML_VALUE_STRING"
| "confit_v2_toml_map_type (TOML_INT64 i) = TOML_VALUE_INT64"
| "confit_v2_toml_map_type (TOML_FP64 f) = TOML_VALUE_FLOAT64"
| "confit_v2_toml_map_type (TOML_BOOLEAN b) = TOML_VALUE_BOOL"
| "confit_v2_toml_map_type TOML_DATE = TOML_VALUE_DATE"
| "confit_v2_toml_map_type TOML_TIME = TOML_VALUE_TIME"
| "confit_v2_toml_map_type TOML_DATETIME = TOML_VALUE_DATETIME"
| "confit_v2_toml_map_type TOML_DATETIMETZ = TOML_VALUE_DATETIME_TZ"
| "confit_v2_toml_map_type (TOML_ARRAY xs) = TOML_VALUE_ARRAY"
| "confit_v2_toml_map_type (TOML_TABLE kvs) = TOML_VALUE_TABLE"
| "confit_v2_toml_map_type TOML_UNKNOWN = TOML_VALUE_UNKNOWN"

definition c_text :: "string \<Rightarrow> string" where
  "c_text s = takeWhile (\<lambda>c. c \<noteq> NUL) s"

section \<open>Accessors\<close>

definition confit_v2_toml_value_type :: "toml_datum \<Rightarrow> toml_value_type" where
  "confit_v2_toml_value_type v = confit_v2_toml_map_type (datum_content v)"

definition confit_v2_toml_value_line :: "toml_datum \<Rightarrow> nat" where
  "confit_v2_toml_value_line v = (if datum_lineno v > 0 then nat (datum_lineno v) else 0)"

definition confit_v2_toml_value_column :: "toml_datum \<Rightarrow> nat" where
  "confit_v2_toml_value_column v = (if datum_colno v > 0 then nat (datum_colno v) else 0)"

definition confit_v2_toml_value_source :: "toml_datum \<Rightarrow> string option" where
  "confit_v2_toml_value_source v = datum_source v"

definition confit_v2_toml_value_string :: "toml_datum \<Rightarrow> string option" where
  "confit_v2_toml_value_string v = (case datum_content v of TOML_STRING s \<Rightarrow> Some s | _ \<Rightarrow> None)"

definition confit_v2_toml_value_int64 :: "toml_datum \<Rightarrow> i64 option" where
  "confit_v2_toml_value_int64 v = (case datum_content v of TOML_INT64 i \<Rightarrow> Some i | _ \<Rightarrow> None)"

definition confit_v2_toml_value_float64 :: "toml_datum \<Rightarrow> f64 option" where
  "confit_v2_toml_value_float64 v = (case datum_content v of TOML_FP64 f \<Rightarrow> Some f | _ \<Rightarrow> None)"

definition confit_v2_toml_value_bool :: "toml_datum \<Rightarrow> int option" where
  "confit_v2_toml_value_bool v =
     (case datum_content v of TOML_BOOLEAN b \<Rightarrow> Some (if b then 1 else 0) | _ \<Rightarrow> None)"

definition confit_v2_toml_table_size :: "toml_datum \<Rightarrow> nat" where
  "confit_v2_toml_table_size v = (case datum_content v of TOML_TABLE kvs \<Rightarrow> length kvs | _ \<Rightarrow> 0)"

definition toml_table_entries :: "toml_datum \<Rightarrow> (string \<times> toml_datum) list" where
  "toml_table_entries v = (case datum_content v of TOML_TABLE kvs \<Rightarrow> kvs | _ \<Rightarrow> [])"

definition confit_v2_toml_table_key_at :: "toml_datum \<Rightarrow> nat \<Rightarrow> string option" where
  "confit_v2_toml_table_key_at v i = (case datum_content v of
     TOML_TABLE kvs \<Rightarrow> if i \<ge> length kvs then None else Some (fst (kvs ! i)) | _ \<Rightarrow> None)"

definition confit_v2_toml_table_value_at :: "toml_datum \<Rightarrow> nat \<Rightarrow> toml_datum option" where
  "confit_v2_toml_table_value_at v i = (case datum_content v of
     TOML_TABLE kvs \<Rightarrow> if i \<ge> length kvs then None else Some (snd (kvs ! i)) | _ \<Rightarrow> None)"

definition confit_v2_toml_table_find :: "toml_datum \<Rightarrow> string \<Rightarrow> toml_datum option" where
  "confit_v2_toml_table_find v key =
     map_option snd (find (\<lambda>(candidate, _). strcmp (c_text candidate) key = 0) (toml_table_entries v))"

definition toml_array_items :: "toml_datum \<Rightarrow> toml_datum list" where
  "toml_array_items v = (case datum_content v of TOML_ARRAY xs \<Rightarrow> xs | _ \<Rightarrow> [])"

definition confit_v2_toml_array_size :: "toml_datum \<Rightarrow> nat" where
  "confit_v2_toml_array_size v = length (toml_array_items v)"

definition confit_v2_toml_array_at :: "toml_datum \<Rightarrow> nat \<Rightarrow> toml_datum option" where
  "confit_v2_toml_array_at v i =
     (if i \<ge> length (toml_array_items v) then None else Some (toml_array_items v ! i))"

section \<open>Encoding\<close>

definition confit_v2_toml_utf8_continuation :: "nat \<Rightarrow> bool" where
  "confit_v2_toml_utf8_continuation b \<longleftrightarrow> and b 0xC0 = 0x80"

definition utf8_width :: "nat \<Rightarrow> nat option" where
  "utf8_width first =
     (if first < 0x80 then Some 1
      else if first \<ge> 0xC2 \<and> first \<le> 0xDF then Some 2
      else if first \<ge> 0xE0 \<and> first \<le> 0xEF then Some 3
      else if first \<ge> 0xF0 \<and> first \<le> 0xF4 then Some 4
      else None)"

text \<open>The condition that ends the scan at a sequence of the given width; the bytes are read only
  behind the test of the length.\<close>

definition utf8_broken :: "string \<Rightarrow> nat \<Rightarrow> nat \<Rightarrow> bool" where
  "utf8_broken text i width =
     (let at = (\<lambda>k. byte (text ! (i + k))); first = at 0
      in i + width > length text
         \<or> (width \<ge> 2 \<and> \<not> confit_v2_toml_utf8_continuation (at 1))
         \<or> (width \<ge> 3 \<and> \<not> confit_v2_toml_utf8_continuation (at 2))
         \<or> (width \<ge> 4 \<and> \<not> confit_v2_toml_utf8_continuation (at 3))
         \<or> (width = 3 \<and> first = 0xE0 \<and> at 1 < 0xA0)
         \<or> (width = 3 \<and> first = 0xED \<and> at 1 > 0x9F)
         \<or> (width = 4 \<and> first = 0xF0 \<and> at 1 < 0x90)
         \<or> (width = 4 \<and> first = 0xF4 \<and> at 1 > 0x8F))"

text \<open>The scan; a failure returns the position.\<close>

function validate_utf8_loop :: "string \<Rightarrow> nat \<Rightarrow> nat \<Rightarrow> nat \<Rightarrow> (nat \<times> nat) option" where
  "validate_utf8_loop text i line column =
     (if i < length text then
        (case utf8_width (byte (text ! i)) of
           None \<Rightarrow> Some (line, column)
         | Some width \<Rightarrow>
             if utf8_broken text i width then Some (line, column)
             else if text ! i = CHR 0x0A then validate_utf8_loop text (i + width) (line + 1) 1
             else validate_utf8_loop text (i + width) line (column + 1))
      else None)"
  by pat_completeness auto
termination
  by (relation "measure (\<lambda>(text, i, line, column). length text - i)")
    (auto simp: utf8_width_def split: if_splits)

declare validate_utf8_loop.simps [simp del]

definition confit_v2_toml_validate_utf8 :: "string \<Rightarrow> (nat \<times> nat) option" where
  "confit_v2_toml_validate_utf8 text = validate_utf8_loop text 0 1 1"

section \<open>Parsing\<close>

text \<open>The digits behind the first \<open>"line "\<close> of the message; a number that does not fit is 0.\<close>

definition size_max :: nat where "size_max = 2 ^ 64 - 1"

fun find_substring :: "string \<Rightarrow> string \<Rightarrow> string option" where
  "find_substring pattern [] = (if pattern = [] then Some [] else None)"
| "find_substring pattern (c # text) =
     (if take (length pattern) (c # text) = pattern then Some (c # text) else find_substring pattern text)"

definition c_isdigit :: "char \<Rightarrow> bool" where
  "c_isdigit c \<longleftrightarrow> 48 \<le> byte c \<and> byte c \<le> 57"

fun error_line_digits :: "nat \<Rightarrow> string \<Rightarrow> nat" where
  "error_line_digits line [] = line"
| "error_line_digits line (c # cs) =
     (if c_isdigit c
      then if line > (size_max - 9) div 10 then 0 else error_line_digits (line * 10 + (byte c - 48)) cs
      else line)"

definition confit_v2_toml_error_line :: "string \<Rightarrow> nat" where
  "confit_v2_toml_error_line message =
     (case find_substring ''line '' message of
        None \<Rightarrow> 0
      | Some found \<Rightarrow>
          let cursor = drop 5 found
          in if \<not> c_isdigit (char_at cursor 0) then 0 else error_line_digits 0 cursor)"

type_synonym toml_parser = "string \<Rightarrow> string \<Rightarrow> string + toml_datum"

definition confit_v2_toml_parse_text :: "toml_parser \<Rightarrow> string \<Rightarrow> string \<Rightarrow> diagnostic + toml_datum" where
  "confit_v2_toml_parse_text toml_parse_named source_name text =
     (if length text > 2 ^ 31 - 1
      then Inl (confit_diagnostic_set CONFIT_ERR_PARSE (Some source_name) 0 0 ''v2 TOML source exceeds parser size limit'')
      else case confit_v2_toml_validate_utf8 text of
        Some (line, column) \<Rightarrow>
          Inl (confit_diagnostic_set CONFIT_ERR_PARSE (Some source_name) line column ''v2 TOML source is not valid UTF-8'')
      | None \<Rightarrow>
          (case toml_parse_named text source_name of
             Inl message \<Rightarrow>
               Inl (confit_diagnostic_set CONFIT_ERR_PARSE (Some source_name)
                      (confit_v2_toml_error_line message) 0 ''tomlc17 rejected TOML input'')
           | Inr root \<Rightarrow> Inr root))"

definition confit_v2_toml_parse_file ::
  "(string \<Rightarrow> diagnostic + string) \<Rightarrow> toml_parser \<Rightarrow> string \<Rightarrow> diagnostic + toml_datum" where
  "confit_v2_toml_parse_file read_text_file toml_parse_named path =
     bind_res (read_text_file path) (confit_v2_toml_parse_text toml_parse_named path)"

end
