(* ===== verification/Toml_Correct.thy ===== *)
theory Toml_Correct
  imports Toml String_Literal
begin

text \<open>
  The check of the encoding accepts the texts that split into well-formed UTF-8 sequences, by the
  same table the lexer's escapes are decoded with, and the number read from an error message
  does not wrap.
\<close>

section \<open>Bytes of a sequence\<close>

lemma high_pair: "b < 256 \<Longrightarrow> and b 0xC0 = 64 * (b div 64)" for b :: nat
proof -
  assume b: "b < 256"
  have "(0xC0 :: nat) = push_bit 6 (mask 2)" by (simp add: push_bit_eq_mult mask_eq_exp_minus_1)
  then have "and b 0xC0 = push_bit 6 (take_bit 2 (drop_bit 6 b))"
    by (simp add: bit_eq_iff bit_simps) (auto simp: bit_simps)
  moreover have "take_bit 2 (drop_bit 6 b) = b div 64"
    using b by (simp add: take_bit_eq_mod drop_bit_eq_div)
  ultimately show ?thesis by (simp add: push_bit_eq_mult)
qed

lemma continuation_same: "b < 256 \<Longrightarrow> confit_v2_toml_utf8_continuation b \<longleftrightarrow> continuation b"
  unfolding continuation_def confit_v2_toml_utf8_continuation_def by (simp add: high_pair) linarith

lemma three_byte_value:
  fixes a b c :: nat
  assumes "0xE0 \<le> a" "a < 0xF0" "continuation b" "continuation c"
  defines "v \<equiv> (a - 0xE0) * 4096 + (b - 0x80) * 64 + (c - 0x80)"
  shows "0x800 \<le> v \<and> \<not> (0xD800 \<le> v \<and> v \<le> 0xDFFF)
    \<longleftrightarrow> \<not> (a = 0xE0 \<and> b < 0xA0) \<and> \<not> (a = 0xED \<and> b > 0x9F)"
proof -
  define x y z where xyz: "x = a - 0xE0" "y = b - 0x80" "z = c - 0x80"
  have a: "a = x + 0xE0" "b = y + 0x80" and r: "x < 16" "y < 64" "z < 64"
    using assms(1-4) by (auto simp: xyz continuation_def)
  have v: "v = x * 4096 + y * 64 + z" by (simp add: v_def xyz)
  consider "x = 0" | "1 \<le> x" "x \<le> 12" | "x = 13" | "14 \<le> x" by linarith
  then show ?thesis
    by cases (use r in \<open>simp_all add: v a, linarith+\<close>)
qed

lemma four_byte_value:
  fixes a b c d :: nat
  assumes "0xF0 \<le> a" "a < 0xF5" "continuation b" "continuation c" "continuation d"
  defines "v \<equiv> (a - 0xF0) * 262144 + (b - 0x80) * 4096 + (c - 0x80) * 64 + (d - 0x80)"
  shows "0x10000 \<le> v \<and> v \<le> 0x10FFFF \<longleftrightarrow> \<not> (a = 0xF0 \<and> b < 0x90) \<and> \<not> (a = 0xF4 \<and> b > 0x8F)"
proof -
  define x y z w where xyz: "x = a - 0xF0" "y = b - 0x80" "z = c - 0x80" "w = d - 0x80"
  have a: "a = x + 0xF0" "b = y + 0x80" and r: "x < 5" "y < 64" "z < 64" "w < 64"
    using assms(1-5) by (auto simp: xyz continuation_def)
  have v: "v = x * 262144 + y * 4096 + z * 64 + w" by (simp add: v_def xyz)
  consider "x = 0" | "1 \<le> x" "x \<le> 3" | "x = 4" using r(1) by linarith
  then show ?thesis
    by cases (use r in \<open>simp_all add: v a, linarith+\<close>)
qed

section \<open>Sequences\<close>

lemma utf8_width_range: "utf8_width a = Some w \<Longrightarrow> w \<in> {1, 2, 3, 4}"
  by (auto simp: utf8_width_def split: if_splits)

lemma utf8_broken_drop: "i < length text \<Longrightarrow> utf8_broken text i w = utf8_broken (drop i text) 0 w"
proof -
  assume i: "i < length text"
  then have at: "drop i text ! (0 + k) = text ! (i + k)" for k by simp
  have len: "0 + w > length (drop i text) \<longleftrightarrow> i + w > length text" using i by (simp add: less_diff_conv2) linarith
  show ?thesis unfolding utf8_broken_def Let_def at len by (rule refl)
qed

text \<open>The test at the head of a list, for each width.\<close>

lemma utf8_broken_Cons:
  "utf8_broken (a # r) 0 (Suc 0) = False"
  "utf8_broken (a # b # r) 0 2 = (\<not> continuation (byte b))"
  "utf8_broken (a # b # c # r) 0 3 =
     (\<not> continuation (byte b) \<or> \<not> continuation (byte c)
      \<or> byte a = 0xE0 \<and> byte b < 0xA0 \<or> byte a = 0xED \<and> byte b > 0x9F)"
  "utf8_broken (a # b # c # d # r) 0 4 =
     (\<not> continuation (byte b) \<or> \<not> continuation (byte c) \<or> \<not> continuation (byte d)
      \<or> byte a = 0xF0 \<and> byte b < 0x90 \<or> byte a = 0xF4 \<and> byte b > 0x8F)"
  by (simp_all add: utf8_broken_def Let_def continuation_same)

lemma scalar_of_width:
  assumes "cs \<noteq> []" "utf8_width (byte (cs ! 0)) = Some w"
  shows "\<not> utf8_broken cs 0 w \<longleftrightarrow> w \<le> length cs \<and> utf8_scalar (map byte (take w cs)) \<noteq> None"
proof -
  obtain a rest where cs: "cs = a # rest" using assms(1) by (cases cs) auto
  show ?thesis
  proof (cases "w \<le> length cs")
    case False
    then show ?thesis by (simp add: utf8_broken_def)
  next
    case len: True
    from utf8_width_range [OF assms(2)] consider "w = 1" | "w = 2"
      | "w = 3" | "w = 4" by auto
    then show ?thesis
    proof cases
      case 1
      with assms(2) cs have "byte a < 0x80" by (simp add: utf8_width_def split: if_splits)
      with 1 cs show ?thesis by (simp add: utf8_broken_Cons)
    next
      case 2
      then obtain b r2 where rest: "rest = b # r2" using len cs by (cases rest) auto
      from 2 assms(2) cs have "0xC2 \<le> byte a" "byte a < 0xE0"
        by (simp_all add: utf8_width_def split: if_splits)
      with 2 cs rest show ?thesis by (simp add: utf8_broken_Cons)
    next
      case 3
      then obtain b c r3 where rest: "rest = b # c # r3"
        using len cs by (cases rest; cases "tl rest") auto
      from 3 assms(2) cs have a: "0xE0 \<le> byte a" "byte a < 0xF0"
        by (simp_all add: utf8_width_def split: if_splits)
      show ?thesis
      proof (cases "continuation (byte b) \<and> continuation (byte c)")
        case True
        with 3 cs rest three_byte_value [OF a, of "byte b" "byte c"] a show ?thesis
          by (simp add: utf8_broken_Cons Let_def)
      qed (use 3 cs rest in \<open>auto simp: utf8_broken_Cons Let_def\<close>)
    next
      case 4
      then obtain b c d r4 where rest: "rest = b # c # d # r4"
        using len cs by (cases rest; cases "tl rest"; cases "tl (tl rest)") auto
      from 4 assms(2) cs have a: "0xF0 \<le> byte a" "byte a < 0xF5"
        by (simp_all add: utf8_width_def split: if_splits)
      show ?thesis
      proof (cases "continuation (byte b) \<and> continuation (byte c) \<and> continuation (byte d)")
        case True
        with 4 cs rest four_byte_value [OF a, of "byte b" "byte c" "byte d"] a show ?thesis
          by (simp add: utf8_broken_Cons Let_def)
      qed (use 4 cs rest in \<open>auto simp: utf8_broken_Cons Let_def\<close>)
    qed
  qed
qed

lemma width_of_scalar:
  assumes "utf8_scalar (map byte s) \<noteq> None"
  shows "s \<noteq> [] \<and> utf8_width (byte (s ! 0)) = Some (length s)"
proof -
  obtain bs where bs: "bs = map byte s" by simp
  from assms [folded bs] have "bs \<noteq> [] \<and> utf8_width (bs ! 0) = Some (length bs)"
    by (cases bs rule: utf8_scalar.cases) (auto simp: utf8_width_def Let_def split: if_splits)
  then show ?thesis by (auto simp: bs)
qed

section \<open>Texts\<close>

text \<open>The texts that are a sequence of encoded scalar values.\<close>

inductive well_formed_utf8 :: "string \<Rightarrow> bool" where
  empty: "well_formed_utf8 []"
| sequence: "utf8_scalar (map byte s) \<noteq> None \<Longrightarrow> well_formed_utf8 text \<Longrightarrow> well_formed_utf8 (s @ text)"

lemma well_formed_step:
  assumes "text \<noteq> []"
  shows "well_formed_utf8 text \<longleftrightarrow>
    (\<exists>w. utf8_width (byte (text ! 0)) = Some w \<and> \<not> utf8_broken text 0 w \<and> well_formed_utf8 (drop w text))"
proof
  assume "well_formed_utf8 text"
  then show "\<exists>w. utf8_width (byte (text ! 0)) = Some w \<and> \<not> utf8_broken text 0 w \<and> well_formed_utf8 (drop w text)"
  proof cases
    case empty
    with assms show ?thesis by simp
  next
    case (sequence s rest)
    note s = width_of_scalar [OF sequence(2)]
    then have "(s @ rest) ! 0 = s ! 0" by (simp add: nth_append)
    with s have w: "utf8_width (byte (text ! 0)) = Some (length s)" by (simp add: sequence(1))
    moreover have "\<not> utf8_broken text 0 (length s)"
      using scalar_of_width [OF assms w] sequence(1,2) by simp
    ultimately show ?thesis using sequence(1,3) by simp
  qed
next
  assume "\<exists>w. utf8_width (byte (text ! 0)) = Some w \<and> \<not> utf8_broken text 0 w \<and> well_formed_utf8 (drop w text)"
  then obtain w where w: "utf8_width (byte (text ! 0)) = Some w" "\<not> utf8_broken text 0 w"
    "well_formed_utf8 (drop w text)" by blast
  from scalar_of_width [OF assms w(1)] w(2) have "utf8_scalar (map byte (take w text)) \<noteq> None" by simp
  from well_formed_utf8.sequence [OF this w(3)] show "well_formed_utf8 text" by simp
qed

lemma validate_utf8_loop_accepts:
  "validate_utf8_loop text i line column = None \<longleftrightarrow> well_formed_utf8 (drop i text)"
proof (induction "text" i line column rule: validate_utf8_loop.induct)
  case (1 "text" i line column)
  show ?case
  proof (cases "i < length text")
    case False
    then show ?thesis by (subst validate_utf8_loop.simps) (simp add: well_formed_utf8.empty)
  next
    case i: True
    then have head: "drop i text \<noteq> []" "drop i text ! 0 = text ! i" by simp_all
    note step = well_formed_step [OF head(1), unfolded head(2) drop_drop, folded utf8_broken_drop [OF i]]
    show ?thesis
    proof (cases "utf8_width (byte (text ! i))")
      case None
      with i step show ?thesis by (subst validate_utf8_loop.simps) simp
    next
      case (Some w)
      note IH = 1 [OF i Some]
      show ?thesis
      proof (cases "utf8_broken text i w")
        case True
        with i Some step show ?thesis by (subst validate_utf8_loop.simps) simp
      next
        case False
        with i Some step IH show ?thesis
          by (cases "text ! i = CHR 0x0A"; subst validate_utf8_loop.simps) (simp_all add: add.commute)
      qed
    qed
  qed
qed

text \<open>C38. The encoding check of the TOML adapter accepts a text exactly when it is a sequence of
  well-formed UTF-8 encodings of scalar values: overlong forms, surrogates, values above
  U+10FFFF, stray and missing continuation bytes are refused, and nothing else is.\<close>

theorem validate_utf8_exact:
  "confit_v2_toml_validate_utf8 text = None \<longleftrightarrow> well_formed_utf8 text"
  using validate_utf8_loop_accepts [of "text" 0] by (simp add: confit_v2_toml_validate_utf8_def)

text \<open>The line number read from a parser message fits the machine.\<close>

lemma error_line_digits_bound: "line \<le> size_max \<Longrightarrow> error_line_digits line s \<le> size_max"
proof (induction line s rule: error_line_digits.induct)
  case (2 line c cs)
  show ?case
  proof (cases "c_isdigit c \<and> \<not> line > (size_max - 9) div 10")
    case True
    then have "line * 10 + (byte c - 48) \<le> size_max"
      unfolding size_max_def c_isdigit_def by simp linarith
    with True 2 show ?thesis by simp
  next
    case False
    with 2(2) show ?thesis by auto
  qed
qed simp

lemma error_line_bound: "confit_v2_toml_error_line message \<le> size_max"
  by (simp add: confit_v2_toml_error_line_def error_line_digits_bound Let_def split: option.split)

end
