(* ===== verification/Inputs.thy ===== *)
theory Inputs
  imports Toml Evaluate Linker
begin

text \<open>
  Profiles, targets and values, \<open>src/resolver/v2/input_loader.c\<close>: the check of a value against
  its option, the reading of a value from a TOML tree or from the text of a command line, the
  documents of a directory and the chain of documents that inherit from each other. The join of
  two paths is \<open>confit_host_path_join\<close> of \<open>src/host/host_path.c\<close>; the listing of a directory, the
  reading of a file and the TOML parser are parameters (\<open>input_services\<close>). Freeing and the failure
  of an allocation are not modelled.
\<close>

section \<open>Outcomes\<close>

text \<open>
  A function may return a status without a diagnostic, which its caller then supplies; reading
  the member of a union that was not stored, or an access outside an array, is \<open>Undefined_Access\<close>.
\<close>

datatype input_stop = Diagnosed diagnostic | Undiagnosed status | Undefined_Access

definition confit_v2_ledger_diagnostic ::
  "string option \<Rightarrow> nat \<Rightarrow> nat \<Rightarrow> status \<Rightarrow> string \<Rightarrow> input_stop + 'a" where
  "confit_v2_ledger_diagnostic path line column st message =
     Inl (Diagnosed (confit_diagnostic_set st path line column message))"

definition diagnosed :: "diagnostic + 'a \<Rightarrow> input_stop + 'a" where
  "diagnosed r = (case r of Inl d \<Rightarrow> Inl (Diagnosed d) | Inr x \<Rightarrow> Inr x)"

definition member :: "fault + 'a \<Rightarrow> input_stop + 'a" where
  "member r = (case r of Inl (Reported d) \<Rightarrow> Inl (Diagnosed d) | Inl Undefined \<Rightarrow> Inl Undefined_Access | Inr x \<Rightarrow> Inr x)"

definition kInvalidInputDocument :: string where "kInvalidInputDocument = ''invalid schema v2 input document''"
definition kUnknownInputField :: string where "kUnknownInputField = ''unknown schema v2 input field''"
definition kMissingInputField :: string where "kMissingInputField = ''required schema v2 input field is missing''"
definition kWrongInputType :: string where "kWrongInputType = ''schema v2 input value has wrong type''"
definition kUnknownInputOption :: string where "kUnknownInputOption = ''schema v2 input references unknown option''"
definition kInvalidInputValue :: string where "kInvalidInputValue = ''invalid schema v2 input value''"
definition kUnknownInputName :: string where "kUnknownInputName = ''unknown schema v2 profile or target''"

section \<open>Validation of a value\<close>

text \<open>The scan over the segments between slashes, \<open>segment\<close> being the bytes since the last one.\<close>

definition segment_allowed :: "string \<Rightarrow> bool" where
  "segment_allowed segment \<longleftrightarrow>
     \<not> (length segment = 0 \<or> length segment = 1 \<and> segment ! 0 = CHR ''.''
        \<or> length segment = 2 \<and> segment ! 0 = CHR ''.'' \<and> segment ! 1 = CHR ''.'')"

fun logical_path_loop :: "string \<Rightarrow> string \<Rightarrow> bool" where
  "logical_path_loop segment [] = segment_allowed segment"
| "logical_path_loop segment (c # cs) =
     (if c = CHR ''/'' then segment_allowed segment \<and> logical_path_loop [] cs
      else logical_path_loop (segment @ [c]) cs)"

definition confit_v2_ledger_logical_path :: "string \<Rightarrow> bool" where
  "confit_v2_ledger_logical_path path \<longleftrightarrow>
     \<not> (char_at path 0 = NUL \<or> char_at path 0 = CHR ''/'' \<or> char_at path 0 = CHR 0x5C
        \<or> list_ex (\<lambda>c. c = CHR 0x5C) path)
     \<and> logical_path_loop [] path"

fun confit_v2_ledger_candidate_index :: "string list \<Rightarrow> string \<Rightarrow> nat option" where
  "confit_v2_ledger_candidate_index [] t = None"
| "confit_v2_ledger_candidate_index (v # vs) t =
     (if strcmp v t = 0 then Some 0 else map_option Suc (confit_v2_ledger_candidate_index vs t))"

text \<open>The upper bound is read only when the lower one holds.\<close>

definition confit_v2_ledger_range_contains :: "v2_symbol \<Rightarrow> v2_value \<Rightarrow> fault + bool" where
  "confit_v2_ledger_range_contains symbol v =
     (let r = sym_range symbol
      in if \<not> range_is_set r then Inr True
         else case v of
           V_Int i \<Rightarrow>
             bind_res (as_int (range_min r)) (\<lambda>low.
               if sint i \<ge> sint low then bind_res (as_int (range_max r)) (\<lambda>high. Inr (sint i \<le> sint high)) else Inr False)
         | V_Uint u \<Rightarrow>
             bind_res (as_uint (range_min r)) (\<lambda>low.
               if u \<ge> low then bind_res (as_uint (range_max r)) (\<lambda>high. Inr (u \<le> high)) else Inr False)
         | V_Float f \<Rightarrow>
             if \<not> isfinite f then Inr False
             else bind_res (as_float (range_min r)) (\<lambda>low.
               if f64_le low f then bind_res (as_float (range_max r)) (\<lambda>high. Inr (f64_le f high)) else Inr False)
         | _ \<Rightarrow> Inr False)"

text \<open>Every item is a candidate and no later item is equal to it.\<close>

fun enum_set_items_ok :: "string list \<Rightarrow> string list \<Rightarrow> bool" where
  "enum_set_items_ok candidates [] \<longleftrightarrow> True"
| "enum_set_items_ok candidates (item # items) \<longleftrightarrow>
     confit_v2_ledger_candidate_index candidates item \<noteq> None
     \<and> list_all (\<lambda>other. strcmp item other \<noteq> 0) items
     \<and> enum_set_items_ok candidates items"

text \<open>The exchange sort by the position of the candidate; \<open>None\<close> is the error of a missing candidate.\<close>

definition exchange_step :: "string list \<Rightarrow> nat \<Rightarrow> nat \<Rightarrow> string list \<Rightarrow> string list option" where
  "exchange_step candidates i other items =
     (case (confit_v2_ledger_candidate_index candidates (items ! i),
            confit_v2_ledger_candidate_index candidates (items ! other)) of
        (Some left_index, Some right_index) \<Rightarrow>
          if left_index > right_index then Some (items[i := items ! other, other := items ! i]) else Some items
      | _ \<Rightarrow> None)"

fun exchange_inner :: "string list \<Rightarrow> nat \<Rightarrow> nat list \<Rightarrow> string list \<Rightarrow> string list option" where
  "exchange_inner candidates i [] items = Some items"
| "exchange_inner candidates i (other # others) items =
     (case exchange_step candidates i other items of
        None \<Rightarrow> None | Some items \<Rightarrow> exchange_inner candidates i others items)"

fun exchange_outer :: "string list \<Rightarrow> nat list \<Rightarrow> string list \<Rightarrow> string list option" where
  "exchange_outer candidates [] items = Some items"
| "exchange_outer candidates (i # is) items =
     (case exchange_inner candidates i [i + 1..<length items] items of
        None \<Rightarrow> None | Some items \<Rightarrow> exchange_outer candidates is items)"

text \<open>The checks in the order of the code; on success the value, in which the items of an enum set
  are now in the order of the candidates.\<close>

definition value_shape_ok :: "v2_symbol \<Rightarrow> v2_value \<Rightarrow> bool" where
  "value_shape_ok symbol v \<longleftrightarrow>
     (case confit_v2_type_descriptor (sym_type symbol) of
        None \<Rightarrow> False | Some d \<Rightarrow> v2_value_kind v = desc_value_kind d)
     \<and> (case v of V_Float f \<Rightarrow> sym_type symbol = OPTION_FLOAT \<longrightarrow> isfinite f | _ \<Rightarrow> True)
     \<and> (case v of V_String s \<Rightarrow> sym_type symbol \<in> {OPTION_PATH, OPTION_PATH_LIST} \<longrightarrow> confit_v2_ledger_logical_path s
        | _ \<Rightarrow> True)
     \<and> (case v of V_String_List items \<Rightarrow>
            sym_type symbol = OPTION_PATH_LIST \<longrightarrow> list_all confit_v2_ledger_logical_path items | _ \<Rightarrow> True)
     \<and> (case v of V_String s \<Rightarrow>
            sym_type symbol = OPTION_ENUM \<longrightarrow> confit_v2_ledger_candidate_index (sym_values symbol) s \<noteq> None | _ \<Rightarrow> True)"

definition enum_set_sorted :: "v2_symbol \<Rightarrow> v2_value \<Rightarrow> v2_value option" where
  "enum_set_sorted symbol v = (case v of
     V_String_List items \<Rightarrow>
       if sym_type symbol \<noteq> OPTION_ENUM_SET then Some v
       else if \<not> enum_set_items_ok (sym_values symbol) items then None
       else map_option V_String_List (exchange_outer (sym_values symbol) [0..<length items] items)
   | _ \<Rightarrow> Some v)"

definition confit_v2_ledger_validate_value ::
  "v2_symbol \<Rightarrow> v2_value \<Rightarrow> string option \<Rightarrow> nat \<Rightarrow> nat \<Rightarrow> input_stop + v2_value" where
  "confit_v2_ledger_validate_value symbol v path line column =
     (let invalid = confit_v2_ledger_diagnostic path line column CONFIT_ERR_SCHEMA kInvalidInputValue
      in if \<not> value_shape_ok symbol v then invalid
         else case enum_set_sorted symbol v of
           None \<Rightarrow> invalid
         | Some v \<Rightarrow>
             bind_res (member (confit_v2_ledger_range_contains symbol v)) (\<lambda>inside.
               if inside then Inr v else invalid))"

section \<open>Reading a value\<close>

definition at_value :: "string option \<Rightarrow> toml_datum \<Rightarrow> string \<Rightarrow> input_stop + 'a" where
  "at_value path source message =
     confit_v2_ledger_diagnostic path (confit_v2_toml_value_line source) (confit_v2_toml_value_column source)
       CONFIT_ERR_SCHEMA message"

fun string_items :: "toml_datum list \<Rightarrow> string list option" where
  "string_items [] = Some []"
| "string_items (item # items) =
     (case confit_v2_toml_value_string item of
        None \<Rightarrow> None | Some s \<Rightarrow> map_option ((#) (c_text s)) (string_items items))"

definition confit_v2_ledger_parse_string_list :: "toml_datum \<Rightarrow> v2_value option" where
  "confit_v2_ledger_parse_string_list source =
     (if confit_v2_toml_value_type source \<noteq> TOML_VALUE_ARRAY then None
      else map_option V_String_List (string_items (toml_array_items source)))"

text \<open>The switch over the type; \<open>None\<close> is the status that becomes the error of a wrong type.\<close>

definition toml_value_as :: "option_type \<Rightarrow> toml_datum \<Rightarrow> v2_value option" where
  "toml_value_as t source = (case t of
     OPTION_BOOL \<Rightarrow> map_option V_Bool (confit_v2_toml_value_bool source)
   | OPTION_TRISTATE \<Rightarrow>
       (case confit_v2_toml_value_string source of
          None \<Rightarrow> None
        | Some s \<Rightarrow> if length s \<noteq> 1 \<or> s ! 0 \<noteq> CHR ''n'' \<and> s ! 0 \<noteq> CHR ''m'' \<and> s ! 0 \<noteq> CHR ''y'' then None
                    else Some (V_Tristate (s ! 0)))
   | OPTION_INT \<Rightarrow> map_option V_Int (confit_v2_toml_value_int64 source)
   | OPTION_FLOAT \<Rightarrow>
       (case confit_v2_toml_value_float64 source of
          Some f \<Rightarrow> Some (V_Float f)
        | None \<Rightarrow> map_option (\<lambda>i. V_Float (f64_round (sint i < 0) (nat \<bar>sint i\<bar>) 1)) (confit_v2_toml_value_int64 source))
   | _ \<Rightarrow>
       if t \<in> {OPTION_UINT, OPTION_HEX}
       then (case confit_v2_toml_value_int64 source of
               None \<Rightarrow> None | Some i \<Rightarrow> if sint i < 0 then None else Some (V_Uint i))
       else if t \<in> {OPTION_STRING, OPTION_ENUM, OPTION_PATH}
       then map_option (\<lambda>s. V_String (c_text s)) (confit_v2_toml_value_string source)
       else confit_v2_ledger_parse_string_list source)"

definition confit_v2_ledger_parse_toml_value :: "v2_symbol \<Rightarrow> toml_datum \<Rightarrow> input_stop + v2_value" where
  "confit_v2_ledger_parse_toml_value symbol source =
     (let path = confit_v2_toml_value_source source
      in if confit_v2_type_descriptor (sym_type symbol) = None then Inl (Undiagnosed CONFIT_ERR_INTERNAL)
         else case toml_value_as (sym_type symbol) source of
           None \<Rightarrow> at_value path source kWrongInputType
         | Some v \<Rightarrow>
             confit_v2_ledger_validate_value symbol v path
               (confit_v2_toml_value_line source) (confit_v2_toml_value_column source))"

definition confit_v2_ledger_parse_user_value ::
  "toml_parser \<Rightarrow> v2_symbol \<Rightarrow> string \<Rightarrow> input_stop + v2_value" where
  "confit_v2_ledger_parse_user_value toml_parse_named symbol user_text =
     (if sym_type symbol \<in> {OPTION_STRING, OPTION_PATH, OPTION_ENUM}
      then confit_v2_ledger_validate_value symbol (V_String user_text) (Some ''cli --set'') 0 0
      else if sym_type symbol = OPTION_TRISTATE \<and> length user_text = 1
         \<and> (user_text ! 0 = CHR ''n'' \<or> user_text ! 0 = CHR ''m'' \<or> user_text ! 0 = CHR ''y'')
      then Inr (V_Tristate (user_text ! 0))
      else
        bind_res (diagnosed (confit_v2_toml_parse_text toml_parse_named ''cli --set'' (''value = '' @ user_text))) (\<lambda>root.
          case confit_v2_toml_table_find root ''value'' of
            None \<Rightarrow> Inl (Undiagnosed CONFIT_ERR_INTERNAL)
          | Some source \<Rightarrow> confit_v2_ledger_parse_toml_value symbol source))"

section \<open>Documents\<close>

datatype input_kind = KIND_PROFILE | KIND_TARGET

record input_assignment =
  ia_symbol :: v2_symbol
  ia_value :: v2_value
  ia_is_unset :: bool
  ia_line :: nat
  ia_column :: nat
  ia_declaration_order :: nat

record input_document =
  doc_name :: string
  doc_base :: "string option"
  doc_target :: "string option"
  doc_target_line :: nat
  doc_target_column :: nat
  doc_path :: string
  doc_assignments :: "input_assignment list"

record input_catalog =
  cat_kind :: input_kind
  cat_documents :: "input_document list"

definition confit_v2_input_table_only :: "toml_datum \<Rightarrow> string list \<Rightarrow> bool" where
  "confit_v2_input_table_only table known_fields \<longleftrightarrow>
     confit_v2_toml_value_type table = TOML_VALUE_TABLE
     \<and> list_all (\<lambda>(key, _). list_ex (\<lambda>field. strcmp (c_text key) field = 0) known_fields) (toml_table_entries table)"

definition confit_v2_input_catalog_find :: "input_catalog \<Rightarrow> string \<Rightarrow> input_document option" where
  "confit_v2_input_catalog_find catalog name = find (\<lambda>d. strcmp (doc_name d) name = 0) (cat_documents catalog)"

definition confit_v2_input_append_assignment ::
  "v2_symbol \<Rightarrow> v2_value option \<Rightarrow> nat \<Rightarrow> nat \<Rightarrow> input_document \<Rightarrow> input_stop + input_document" where
  "confit_v2_input_append_assignment symbol v line column document =
     (if list_ex (\<lambda>a. ia_symbol a = symbol) (doc_assignments document)
      then confit_v2_ledger_diagnostic (Some (doc_path document)) line column CONFIT_ERR_SCHEMA
             ''schema v2 input has duplicate option assignment''
      else Inr (document\<lparr>doc_assignments := doc_assignments document @
             [\<lparr>ia_symbol = symbol, ia_value = (case v of None \<Rightarrow> V_Unset | Some w \<Rightarrow> w), ia_is_unset = (v = None),
               ia_line = line, ia_column = column,
               ia_declaration_order = length (doc_assignments document)\<rparr>]\<rparr>))"

definition confit_v2_input_validate_writer ::
  "linked_project \<Rightarrow> input_kind \<Rightarrow> v2_symbol \<Rightarrow> string \<Rightarrow> nat \<Rightarrow> nat \<Rightarrow> bool \<Rightarrow> input_stop + unit" where
  "confit_v2_input_validate_writer linked kind symbol path line column is_unset =
     bind_res (diagnosed (confit_v2_linked_project_validate_write linked
       \<lparr>wr_option_id = sym_id symbol,
        wr_writer = (if kind = KIND_PROFILE then WRITER_PROFILE else WRITER_TARGET),
        wr_is_unset = is_unset,
        wr_span = \<lparr>span_path = Some path, span_line = line, span_column = column, span_local_offset = 0\<rparr>\<rparr>)) (\<lambda>_.
       if is_unset \<and> sym_required symbol
       then confit_v2_ledger_diagnostic (Some path) line column CONFIT_ERR_SCHEMA
              ''schema v2 required option cannot be unset''
       else Inr ())"

text \<open>One entry of the table of values, and one item of the list of options to unset.\<close>

definition input_value_entry ::
  "linked_project \<Rightarrow> input_kind \<Rightarrow> string \<times> toml_datum \<Rightarrow> input_document \<Rightarrow> input_stop + input_document" where
  "input_value_entry linked kind entry document =
     (let (key, source) = entry; path = doc_path document;
          line = confit_v2_toml_value_line source; column = confit_v2_toml_value_column source
      in case confit_v2_linked_project_find_symbol linked (c_text key) of
           None \<Rightarrow> at_value (Some path) source kUnknownInputOption
         | Some symbol \<Rightarrow>
             bind_res (confit_v2_input_validate_writer linked kind symbol path line column False) (\<lambda>_.
             bind_res (confit_v2_ledger_parse_toml_value symbol source) (\<lambda>v.
               confit_v2_input_append_assignment symbol (Some v) line column document)))"

definition confit_v2_input_parse_values ::
  "linked_project \<Rightarrow> input_kind \<Rightarrow> toml_datum option \<Rightarrow> input_document \<Rightarrow> input_stop + input_document" where
  "confit_v2_input_parse_values linked kind entries document = (case entries of
     None \<Rightarrow> Inr document
   | Some table \<Rightarrow>
       if confit_v2_toml_value_type table \<noteq> TOML_VALUE_TABLE
       then at_value (Some (doc_path document)) table kWrongInputType
       else fold_res (input_value_entry linked kind) (toml_table_entries table) document)"

definition input_unset_item ::
  "linked_project \<Rightarrow> input_kind \<Rightarrow> toml_datum \<Rightarrow> input_document \<Rightarrow> input_stop + input_document" where
  "input_unset_item linked kind item document =
     (let path = doc_path document;
          line = confit_v2_toml_value_line item; column = confit_v2_toml_value_column item
      in case confit_v2_toml_value_string item of
           None \<Rightarrow> at_value (Some path) item kWrongInputType
         | Some name \<Rightarrow>
             if length name = 0 then at_value (Some path) item kWrongInputType
             else case confit_v2_linked_project_find_symbol linked (c_text name) of
               None \<Rightarrow> at_value (Some path) item kUnknownInputOption
             | Some symbol \<Rightarrow>
                 bind_res (confit_v2_input_validate_writer linked kind symbol path line column True) (\<lambda>_.
                   confit_v2_input_append_assignment symbol None line column document))"

definition confit_v2_input_parse_unset ::
  "linked_project \<Rightarrow> input_kind \<Rightarrow> toml_datum option \<Rightarrow> input_document \<Rightarrow> input_stop + input_document" where
  "confit_v2_input_parse_unset linked kind unset document = (case unset of
     None \<Rightarrow> Inr document
   | Some table \<Rightarrow>
       if \<not> confit_v2_input_table_only table [''options'']
       then at_value (Some (doc_path document)) table kUnknownInputField
       else case confit_v2_toml_table_find table ''options'' of
         None \<Rightarrow> at_value (Some (doc_path document)) table kMissingInputField
       | Some options \<Rightarrow>
           if confit_v2_toml_value_type options \<noteq> TOML_VALUE_ARRAY
           then at_value (Some (doc_path document)) table kMissingInputField
           else fold_res (input_unset_item linked kind) (toml_array_items options) document)"

definition section_name :: "input_kind \<Rightarrow> string" where
  "section_name kind = (if kind = KIND_PROFILE then ''profile'' else ''target'')"

definition section_fields :: "input_kind \<Rightarrow> string list" where
  "section_fields kind = (if kind = KIND_PROFILE then [''name'', ''schema_version'', ''base'', ''target'']
     else [''name'', ''schema_version'', ''base'', ''claim''])"

text \<open>A string field that may be absent but not empty; a failure carries no diagnostic.\<close>

definition optional_name :: "toml_datum option \<Rightarrow> input_stop + string option" where
  "optional_name field = (case field of
     None \<Rightarrow> Inr None
   | Some source \<Rightarrow>
       (case confit_v2_toml_value_string source of
          None \<Rightarrow> Inl (Undiagnosed CONFIT_ERR_SCHEMA)
        | Some s \<Rightarrow> if length s = 0 then Inl (Undiagnosed CONFIT_ERR_SCHEMA) else Inr (Some (c_text s))))"

text \<open>The label \<open>fail\<close>: a failure without a diagnostic gets one for the whole document.\<close>

definition document_failure :: "string \<Rightarrow> input_stop + 'a \<Rightarrow> input_stop + 'a" where
  "document_failure path r = (case r of
     Inl (Undiagnosed st) \<Rightarrow>
       confit_v2_ledger_diagnostic (Some path) 0 0 st
         (if st = CONFIT_ERR_INTERNAL then ''failed to allocate v2 ledger input'' else kInvalidInputDocument)
   | _ \<Rightarrow> r)"

definition parse_document_body ::
  "linked_project \<Rightarrow> input_kind \<Rightarrow> string \<Rightarrow> toml_datum \<Rightarrow> toml_datum \<Rightarrow> string \<Rightarrow> input_stop + input_document" where
  "parse_document_body linked kind path root section_table name =
     bind_res (optional_name (confit_v2_toml_table_find section_table ''base'')) (\<lambda>base.
     let target_field = (if kind = KIND_PROFILE then confit_v2_toml_table_find section_table ''target'' else None)
     in bind_res (optional_name target_field) (\<lambda>target.
        let document = \<lparr>doc_name = c_text name, doc_base = base, doc_target = target,
              doc_target_line = (case target_field of None \<Rightarrow> 0 | Some t \<Rightarrow> confit_v2_toml_value_line t),
              doc_target_column = (case target_field of None \<Rightarrow> 0 | Some t \<Rightarrow> confit_v2_toml_value_column t),
              doc_path = path, doc_assignments = []\<rparr>
        in bind_res (confit_v2_input_parse_values linked kind (confit_v2_toml_table_find root ''values'') document) (\<lambda>document.
           bind_res (confit_v2_input_parse_unset linked kind (confit_v2_toml_table_find root ''unset'') document) (\<lambda>document.
             if list_ex (\<lambda>(key, _). strcmp (c_text key) (section_name kind) \<noteq> 0
                  \<and> strcmp (c_text key) ''values'' \<noteq> 0 \<and> strcmp (c_text key) ''unset'' \<noteq> 0) (toml_table_entries root)
             then at_value (Some path) root kUnknownInputField
             else Inr document))))"

record input_services =
  svc_read_text_file :: "string \<Rightarrow> diagnostic + string"
  svc_list_toml_files :: "string \<Rightarrow> diagnostic + string list"
  svc_toml_parse_named :: toml_parser

definition confit_v2_input_parse_document ::
  "input_services \<Rightarrow> linked_project \<Rightarrow> input_kind \<Rightarrow> string \<Rightarrow> input_stop + input_document" where
  "confit_v2_input_parse_document services linked kind path =
     bind_res (diagnosed (confit_v2_toml_parse_file (svc_read_text_file services) (svc_toml_parse_named services) path)) (\<lambda>root.
       case confit_v2_toml_table_find root (section_name kind) of
         None \<Rightarrow> at_value (Some path) root kInvalidInputDocument
       | Some section_table \<Rightarrow>
           if \<not> confit_v2_input_table_only section_table (section_fields kind)
           then at_value (Some path) root kInvalidInputDocument
           else
             let missing = at_value (Some path) section_table kMissingInputField
             in case (confit_v2_toml_table_find section_table ''name'',
                      confit_v2_toml_table_find section_table ''schema_version'') of
                  (Some name_field, Some version_field) \<Rightarrow>
                    (case (confit_v2_toml_value_string name_field, confit_v2_toml_value_int64 version_field) of
                       (Some name, Some version) \<Rightarrow>
                         if length name = 0 \<or> version \<noteq> 2 then missing
                         else document_failure path (parse_document_body linked kind path root section_table name)
                     | _ \<Rightarrow> missing)
                | _ \<Rightarrow> missing)"

section \<open>Catalogs and chains\<close>

text \<open>\<open>confit_host_path_join\<close> into a buffer of the given size, with the separator of POSIX.\<close>

definition confit_host_is_path_separator :: "char \<Rightarrow> bool" where
  "confit_host_is_path_separator c \<longleftrightarrow> c = CHR ''/'' \<or> c = CHR 0x5C"

definition confit_host_path_join :: "nat \<Rightarrow> string option \<Rightarrow> string option \<Rightarrow> diagnostic + string" where
  "confit_host_path_join out_size left right = (case (left, right) of
     (Some l, Some r) \<Rightarrow>
       let needs_separator = length l > 0 \<and> length r > 0 \<and> \<not> confit_host_is_path_separator (l ! (length l - 1));
           total_size = length l + length r + (if needs_separator then 1 else 0)
       in if out_size = 0 then Inl (confit_diagnostic_set CONFIT_ERR_INVALID_ARGUMENT None 0 0 ''invalid path join argument'')
          else if total_size + 1 > out_size
          then Inl (confit_diagnostic_set CONFIT_ERR_INVALID_ARGUMENT None 0 0 ''path join buffer is too small'')
          else Inr (l @ (if needs_separator then ''/'' else []) @ r)
   | _ \<Rightarrow> Inl (confit_diagnostic_set CONFIT_ERR_INVALID_ARGUMENT None 0 0 ''invalid path join argument''))"

definition catalog_add_file ::
  "input_services \<Rightarrow> linked_project \<Rightarrow> input_kind \<Rightarrow> string \<Rightarrow> input_document list \<Rightarrow> input_stop + input_document list" where
  "catalog_add_file services linked kind path documents =
     bind_res (confit_v2_input_parse_document services linked kind path) (\<lambda>parsed.
       if list_ex (\<lambda>d. strcmp (doc_name d) (doc_name parsed) = 0) documents
       then confit_v2_ledger_diagnostic (Some (doc_path parsed)) 0 0 CONFIT_ERR_SCHEMA ''duplicate schema v2 input name''
       else Inr (documents @ [parsed]))"

definition catalog_add_directory ::
  "input_services \<Rightarrow> linked_project \<Rightarrow> input_kind \<Rightarrow> string \<Rightarrow> input_document list \<Rightarrow> input_stop + input_document list" where
  "catalog_add_directory services linked kind directory documents =
     bind_res (diagnosed (confit_host_path_join 4096 (project_config_root (lp_project linked)) (Some directory))) (\<lambda>joined.
     bind_res (diagnosed (svc_list_toml_files services joined)) (\<lambda>paths.
       fold_res (catalog_add_file services linked kind) paths documents))"

definition confit_v2_input_catalog_load ::
  "input_services \<Rightarrow> linked_project \<Rightarrow> input_kind \<Rightarrow> input_stop + input_catalog" where
  "confit_v2_input_catalog_load services linked kind =
     bind_res (fold_res (catalog_add_directory services linked kind)
                 (if kind = KIND_PROFILE then project_profile_dirs (lp_project linked)
                  else project_target_dirs (lp_project linked)) [])
       (\<lambda>documents. Inr \<lparr>cat_kind = kind, cat_documents = documents\<rparr>)"

text \<open>The walk from the leaf to the root. A document is the index of its place in the catalog, and
  \<open>room\<close> is the number of places left in \<open>reversed\<close>.\<close>

fun document_index :: "input_document list \<Rightarrow> string \<Rightarrow> nat option" where
  "document_index [] name = None"
| "document_index (d # ds) name =
     (if strcmp (doc_name d) name = 0 then Some 0 else map_option Suc (document_index ds name))"

fun chain_walk :: "input_document list \<Rightarrow> nat \<Rightarrow> nat list \<Rightarrow> nat \<Rightarrow> input_stop + nat list" where
  "chain_walk documents room reversed cursor =
     (let document = documents ! cursor
      in if cursor \<in> set reversed
         then confit_v2_ledger_diagnostic (Some (doc_path document)) 0 0 CONFIT_ERR_SCHEMA
                ''schema v2 input inheritance cycle''
         else case room of
           0 \<Rightarrow> Inl (Undiagnosed CONFIT_ERR_INTERNAL)
         | Suc room' \<Rightarrow>
             (case doc_base document of
                None \<Rightarrow> Inr (reversed @ [cursor])
              | Some base \<Rightarrow>
                  (case document_index documents base of
                     None \<Rightarrow> confit_v2_ledger_diagnostic (Some (doc_path document)) 0 0 CONFIT_ERR_SCHEMA kUnknownInputName
                   | Some next_index \<Rightarrow> chain_walk documents room' (reversed @ [cursor]) next_index)))"

declare chain_walk.simps [simp del]

definition confit_v2_input_catalog_build_chain ::
  "input_catalog \<Rightarrow> string option \<Rightarrow> input_stop + input_document list" where
  "confit_v2_input_catalog_build_chain catalog leaf_name = (case leaf_name of
     None \<Rightarrow> Inr []
   | Some leaf \<Rightarrow>
       let documents = cat_documents catalog
       in case document_index documents leaf of
            None \<Rightarrow> confit_v2_ledger_diagnostic (Some leaf) 0 0 CONFIT_ERR_SCHEMA kUnknownInputName
          | Some cursor \<Rightarrow>
              bind_res (chain_walk documents (length documents) [] cursor)
                (\<lambda>reversed. Inr (map ((!) documents) (rev reversed))))"

end
