(* ===== verification/Ledger.thy ===== *)
theory Ledger
  imports Inputs Structure
begin

text \<open>
  The ledger of requested assignments, \<open>src/resolver/v2/plan.c\<close>: the defaults of the schema, the
  documents of the selected target and profile, the overrides of a profile transaction and those
  of the user are collected, sorted by option and precedence, and the last entry of each option
  is marked as the winner. An entry holds the option and a copy of the value.
\<close>

section \<open>Entries\<close>

datatype assignment_origin = ORIGIN_SCHEMA_DEFAULT | ORIGIN_PROFILE | ORIGIN_TARGET | ORIGIN_USER | ORIGIN_UNSET

fun origin_number :: "assignment_origin \<Rightarrow> nat" where
  "origin_number ORIGIN_SCHEMA_DEFAULT = 1"
| "origin_number ORIGIN_PROFILE = 2"
| "origin_number ORIGIN_TARGET = 3"
| "origin_number ORIGIN_USER = 4"
| "origin_number ORIGIN_UNSET = 5"

fun domain_number :: "write_domain \<Rightarrow> nat" where
  "domain_number DOMAIN_INVALID = 0"
| "domain_number DOMAIN_SCHEMA = 1"
| "domain_number DOMAIN_PROFILE = 2"
| "domain_number DOMAIN_TARGET = 3"
| "domain_number DOMAIN_COMPUTED = 4"

fun value_kind_number :: "value_kind \<Rightarrow> nat" where
  "value_kind_number VALUE_UNSET = 0"
| "value_kind_number VALUE_BOOL = 1"
| "value_kind_number VALUE_TRISTATE = 2"
| "value_kind_number VALUE_INT = 3"
| "value_kind_number VALUE_UINT = 4"
| "value_kind_number VALUE_FLOAT = 5"
| "value_kind_number VALUE_STRING = 6"
| "value_kind_number VALUE_STRING_LIST = 7"

record ledger_entry =
  le_symbol :: v2_symbol
  le_value :: v2_value
  le_origin :: assignment_origin
  le_domain :: write_domain
  le_is_unset :: bool
  le_wins :: bool
  le_precedence :: nat
  le_declaration_order :: nat
  le_source_path :: "string option"
  le_source_line :: nat
  le_source_column :: nat

datatype target_selection_origin = SELECTION_EXPLICIT | SELECTION_PROFILE | SELECTION_PROJECT_DEFAULT

record target_selection =
  ts_name :: string
  ts_origin :: target_selection_origin
  ts_source_path :: "string option"
  ts_source_line :: nat
  ts_source_column :: nat

record assignment_ledger =
  al_compiled :: compiled_structure
  al_profile_name :: "string option"
  al_target_selection :: "target_selection option"
  al_entries :: "ledger_entry list"

text \<open>A user or profile override; both have these fields.\<close>

record raw_override =
  ov_option_id :: "string option"
  ov_value_text :: "string option"
  ov_span :: source_span

record ledger_options =
  lo_profile_name :: "string option"
  lo_target_name :: "string option"
  lo_target_span :: source_span
  lo_profile_overrides :: "raw_override list"
  lo_user_overrides :: "raw_override list"

definition PRECEDENCE_SCHEMA_DEFAULT :: nat where "PRECEDENCE_SCHEMA_DEFAULT = 0"
definition PRECEDENCE_DOMAIN :: nat where "PRECEDENCE_DOMAIN = 1"
definition PRECEDENCE_PROFILE_TRANSACTION :: nat where "PRECEDENCE_PROFILE_TRANSACTION = 2"
definition PRECEDENCE_USER :: nat where "PRECEDENCE_USER = 3"

text \<open>Two keys that differ decide; \<open>rest\<close> is the comparison of the keys behind them.\<close>

definition number_compare :: "nat \<Rightarrow> nat \<Rightarrow> int \<Rightarrow> int" where
  "number_compare left right rest = (if left \<noteq> right then if left < right then -1 else 1 else rest)"

text \<open>The place of the source; an entry without a path comes first, whatever its line.\<close>

definition position_compare :: "ledger_entry \<Rightarrow> ledger_entry \<Rightarrow> int" where
  "position_compare left right =
     (case (le_source_path left, le_source_path right) of
        (None, None) \<Rightarrow> 0
      | (None, Some _) \<Rightarrow> -1
      | (Some _, None) \<Rightarrow> 1
      | (Some left_path, Some right_path) \<Rightarrow>
          if strcmp left_path right_path \<noteq> 0 then strcmp left_path right_path
          else number_compare (le_source_line left) (le_source_line right)
                 (number_compare (le_source_column left) (le_source_column right) 0))"

definition confit_v2_ledger_entry_compare :: "ledger_entry \<Rightarrow> ledger_entry \<Rightarrow> int" where
  "confit_v2_ledger_entry_compare left right =
     (let compared = strcmp (sym_id (le_symbol left)) (sym_id (le_symbol right))
      in if compared \<noteq> 0 then compared
         else
           number_compare (le_precedence left) (le_precedence right)
          (number_compare (domain_number (le_domain left)) (domain_number (le_domain right))
          (number_compare (le_declaration_order left) (le_declaration_order right)
          (number_compare (origin_number (le_origin left)) (origin_number (le_origin right))
          (position_compare left right)))))"

definition confit_v2_ledger_append ::
  "v2_symbol \<Rightarrow> v2_value option \<Rightarrow> assignment_origin \<Rightarrow> bool \<Rightarrow> nat \<Rightarrow> nat \<Rightarrow> string option \<Rightarrow> nat \<Rightarrow> nat
   \<Rightarrow> ledger_entry list \<Rightarrow> ledger_entry list" where
  "confit_v2_ledger_append symbol v origin is_unset precedence declaration_order path line column entries =
     entries @
       [\<lparr>le_symbol = symbol,
         le_value = (case v of Some w \<Rightarrow> if is_unset then V_Unset else w | None \<Rightarrow> V_Unset),
         le_origin = origin, le_domain = sym_write_domain symbol, le_is_unset = is_unset, le_wins = False,
         le_precedence = precedence, le_declaration_order = declaration_order,
         le_source_path = path, le_source_line = line, le_source_column = column\<rparr>]"

section \<open>Sources of assignments\<close>

fun add_schema_defaults_loop :: "nat \<Rightarrow> v2_symbol list \<Rightarrow> ledger_entry list \<Rightarrow> ledger_entry list" where
  "add_schema_defaults_loop i [] entries = entries"
| "add_schema_defaults_loop i (symbol # symbols) entries =
     (let assignment = sym_default_value symbol; span = assign_span assignment
      in add_schema_defaults_loop (i + 1) symbols
           (if sym_write_domain symbol = DOMAIN_COMPUTED \<or> \<not> assign_is_set assignment then entries
            else confit_v2_ledger_append symbol (Some (assign_value assignment)) ORIGIN_SCHEMA_DEFAULT False
                   PRECEDENCE_SCHEMA_DEFAULT i (span_path span) (span_line span) (span_column span) entries))"

definition confit_v2_ledger_add_schema_defaults :: "linked_project \<Rightarrow> ledger_entry list \<Rightarrow> ledger_entry list" where
  "confit_v2_ledger_add_schema_defaults linked entries =
     add_schema_defaults_loop 0 (project_symbols (lp_project linked)) entries"

definition kLedgerAllocationFailed :: string where
  "kLedgerAllocationFailed = ''failed to allocate v2 assignment ledger''"

definition chain_add_assignment ::
  "assignment_origin \<Rightarrow> nat \<Rightarrow> input_document \<Rightarrow> input_assignment \<Rightarrow> ledger_entry list \<Rightarrow> input_stop + ledger_entry list" where
  "chain_add_assignment origin chain_index document a entries =
     (if chain_index > size_max div 1000000 \<or> ia_declaration_order a \<ge> 1000000
      then confit_v2_ledger_diagnostic (Some (doc_path document)) (ia_line a) (ia_column a) CONFIT_ERR_INTERNAL
             kLedgerAllocationFailed
      else Inr (confit_v2_ledger_append (ia_symbol a) (if ia_is_unset a then None else Some (ia_value a))
             (if ia_is_unset a then ORIGIN_UNSET else origin) (ia_is_unset a) PRECEDENCE_DOMAIN
             (chain_index * 1000000 + ia_declaration_order a) (Some (doc_path document)) (ia_line a) (ia_column a)
             entries))"

fun add_input_chain_loop ::
  "assignment_origin \<Rightarrow> nat \<Rightarrow> input_document list \<Rightarrow> ledger_entry list \<Rightarrow> input_stop + ledger_entry list" where
  "add_input_chain_loop origin chain_index [] entries = Inr entries"
| "add_input_chain_loop origin chain_index (document # documents) entries =
     bind_res (fold_res (chain_add_assignment origin chain_index document) (doc_assignments document) entries)
       (add_input_chain_loop origin (chain_index + 1) documents)"

definition confit_v2_ledger_add_input_chain ::
  "input_document list \<Rightarrow> assignment_origin \<Rightarrow> ledger_entry list \<Rightarrow> input_stop + ledger_entry list" where
  "confit_v2_ledger_add_input_chain chain origin entries = add_input_chain_loop origin 0 chain entries"

section \<open>Overrides\<close>

text \<open>What the two loops over overrides share: the arguments and the test for an earlier override of
  the same option. \<open>earlier\<close> are the overrides before.\<close>

definition override_arguments :: "string \<Rightarrow> raw_override list \<Rightarrow> raw_override \<Rightarrow> input_stop + string \<times> string" where
  "override_arguments duplicate earlier override =
     (case (ov_option_id override, ov_value_text override) of
        (Some name, Some value_text) \<Rightarrow>
          if char_at name 0 = NUL
          then confit_v2_ledger_diagnostic None 0 0 CONFIT_ERR_INVALID_ARGUMENT ''invalid schema v2 assignment ledger argument''
          else if list_ex (\<lambda>e. case ov_option_id e of None \<Rightarrow> False | Some n \<Rightarrow> strcmp n name = 0) earlier
          then confit_v2_ledger_diagnostic (span_path (ov_span override)) (span_line (ov_span override))
                 (span_column (ov_span override)) CONFIT_ERR_SCHEMA duplicate
          else Inr (name, value_text)
      | _ \<Rightarrow> confit_v2_ledger_diagnostic None 0 0 CONFIT_ERR_INVALID_ARGUMENT ''invalid schema v2 assignment ledger argument'')"

definition override_request :: "assignment_writer \<Rightarrow> raw_override \<Rightarrow> string \<Rightarrow> write_request" where
  "override_request writer override name =
     \<lparr>wr_option_id = name, wr_writer = writer, wr_is_unset = False, wr_span = ov_span override\<rparr>"

definition append_override ::
  "v2_symbol \<Rightarrow> v2_value \<Rightarrow> assignment_origin \<Rightarrow> nat \<Rightarrow> nat \<Rightarrow> string \<Rightarrow> raw_override \<Rightarrow> ledger_entry list \<Rightarrow> ledger_entry list" where
  "append_override symbol v origin precedence i label override entries =
     (let span = ov_span override
      in confit_v2_ledger_append symbol (Some v) origin False precedence i
           (case span_path span of Some path \<Rightarrow> Some path | None \<Rightarrow> Some label) (span_line span) (span_column span) entries)"

text \<open>A user override of an unknown option ends the loop with the outcome of the check of the write.\<close>

fun add_user_overrides_loop ::
  "toml_parser \<Rightarrow> linked_project \<Rightarrow> raw_override list \<Rightarrow> raw_override list \<Rightarrow> ledger_entry list
   \<Rightarrow> input_stop + ledger_entry list" where
  "add_user_overrides_loop toml_parse_named linked earlier [] entries = Inr entries"
| "add_user_overrides_loop toml_parse_named linked earlier (override # overrides) entries =
     bind_res (override_arguments ''duplicate schema v2 user override'' earlier override) (\<lambda>(name, value_text).
     let written = diagnosed (confit_v2_linked_project_validate_write linked (override_request WRITER_USER override name))
     in case confit_v2_linked_project_find_symbol linked name of
          None \<Rightarrow> bind_res written (\<lambda>_. Inr entries)
        | Some symbol \<Rightarrow>
            bind_res written (\<lambda>_.
            bind_res (confit_v2_ledger_parse_user_value toml_parse_named symbol value_text) (\<lambda>v.
              add_user_overrides_loop toml_parse_named linked (earlier @ [override]) overrides
                (append_override symbol v ORIGIN_USER PRECEDENCE_USER (length earlier) ''cli --set'' override entries))))"

definition confit_v2_ledger_add_user_overrides ::
  "toml_parser \<Rightarrow> linked_project \<Rightarrow> ledger_options option \<Rightarrow> ledger_entry list \<Rightarrow> input_stop + ledger_entry list" where
  "confit_v2_ledger_add_user_overrides toml_parse_named linked options entries = (case options of
     None \<Rightarrow> Inr entries
   | Some opts \<Rightarrow> add_user_overrides_loop toml_parse_named linked [] (lo_user_overrides opts) entries)"

fun add_profile_overrides_loop ::
  "toml_parser \<Rightarrow> linked_project \<Rightarrow> raw_override list \<Rightarrow> raw_override list \<Rightarrow> ledger_entry list
   \<Rightarrow> input_stop + ledger_entry list" where
  "add_profile_overrides_loop toml_parse_named linked earlier [] entries = Inr entries"
| "add_profile_overrides_loop toml_parse_named linked earlier (override # overrides) entries =
     bind_res (override_arguments ''duplicate schema v2 profile transaction assignment'' earlier override) (\<lambda>(name, value_text).
     bind_res (diagnosed (confit_v2_linked_project_validate_write linked (override_request WRITER_PROFILE override name))) (\<lambda>_.
       case confit_v2_linked_project_find_symbol linked name of
          None \<Rightarrow> Inl (Undiagnosed CONFIT_ERR_SCHEMA)
        | Some symbol \<Rightarrow>
            bind_res (confit_v2_ledger_parse_user_value toml_parse_named symbol value_text) (\<lambda>v.
              add_profile_overrides_loop toml_parse_named linked (earlier @ [override]) overrides
                (append_override symbol v ORIGIN_PROFILE PRECEDENCE_PROFILE_TRANSACTION (length earlier)
                   ''tui profile transaction'' override entries))))"

definition confit_v2_ledger_add_profile_overrides ::
  "toml_parser \<Rightarrow> linked_project \<Rightarrow> ledger_options option \<Rightarrow> ledger_entry list \<Rightarrow> input_stop + ledger_entry list" where
  "confit_v2_ledger_add_profile_overrides toml_parse_named linked options entries = (case options of
     None \<Rightarrow> Inr entries
   | Some opts \<Rightarrow> add_profile_overrides_loop toml_parse_named linked [] (lo_profile_overrides opts) entries)"

section \<open>Winners\<close>

definition same_option :: "ledger_entry \<Rightarrow> ledger_entry \<Rightarrow> bool" where
  "same_option e f \<longleftrightarrow> strcmp (sym_id (le_symbol e)) (sym_id (le_symbol f)) = 0"

text \<open>The first entry of a group that shares precedence and order, but not origin, with the one before.\<close>

fun ambiguous_entry :: "ledger_entry list \<Rightarrow> ledger_entry option" where
  "ambiguous_entry (e # f # es) =
     (if le_precedence e = le_precedence f \<and> le_declaration_order e = le_declaration_order f
         \<and> le_origin e \<noteq> le_origin f then Some f
      else ambiguous_entry (f # es))"
| "ambiguous_entry _ = None"

lemma dropWhile_shorter [termination_simp]: "length (dropWhile P xs) < Suc (length xs)"
  by (simp add: less_Suc_eq_le length_dropWhile_le)

fun mark_groups :: "ledger_entry list \<Rightarrow> input_stop + ledger_entry list" where
  "mark_groups [] = Inr []"
| "mark_groups (e # es) =
     (let same = e # takeWhile (same_option e) es
      in case ambiguous_entry same of
           Some f \<Rightarrow> confit_v2_ledger_diagnostic (le_source_path f) (le_source_line f) (le_source_column f)
                       CONFIT_ERR_SCHEMA ''ambiguous schema v2 assignment ownership''
         | None \<Rightarrow>
             bind_res (mark_groups (dropWhile (same_option e) es)) (\<lambda>marked.
               Inr (map (\<lambda>f. f\<lparr>le_wins := False\<rparr>) (butlast same) @ [(last same)\<lparr>le_wins := True\<rparr>] @ marked)))"

definition confit_v2_ledger_mark_winners :: "ledger_entry list \<Rightarrow> input_stop + ledger_entry list" where
  "confit_v2_ledger_mark_winners entries = mark_groups (qsort_by confit_v2_ledger_entry_compare entries)"

section \<open>Building a ledger\<close>

text \<open>Explicit selection first, then the leaf profile's, then the project's default.\<close>

definition select_target ::
  "v2_project \<Rightarrow> ledger_options option \<Rightarrow> input_document list \<Rightarrow> target_selection option" where
  "select_target project options profile_chain =
     (case map_option (\<lambda>opts. (lo_target_name opts, lo_target_span opts)) options of
        Some (Some name, span) \<Rightarrow>
          Some \<lparr>ts_name = name, ts_origin = SELECTION_EXPLICIT,
             ts_source_path = (case span_path span of Some path \<Rightarrow> Some path | None \<Rightarrow> Some ''cli --target''),
             ts_source_line = span_line span, ts_source_column = span_column span\<rparr>
      | _ \<Rightarrow>
          (case (if profile_chain = [] then None else doc_target (last profile_chain)) of
             Some name \<Rightarrow>
               Some \<lparr>ts_name = name, ts_origin = SELECTION_PROFILE, ts_source_path = Some (doc_path (last profile_chain)),
                 ts_source_line = doc_target_line (last profile_chain),
                 ts_source_column = doc_target_column (last profile_chain)\<rparr>
           | None \<Rightarrow>
               map_option (\<lambda>name. \<lparr>ts_name = name, ts_origin = SELECTION_PROJECT_DEFAULT,
                 ts_source_path = span_path (project_default_target_span project),
                 ts_source_line = span_line (project_default_target_span project),
                 ts_source_column = span_column (project_default_target_span project)\<rparr>)
                 (project_default_target project)))"

text \<open>Only the leaf of the profile chain may select a target.\<close>

definition profile_chain_of :: "input_catalog \<Rightarrow> ledger_options option \<Rightarrow> input_stop + input_document list" where
  "profile_chain_of profiles options =
     (case options of
        None \<Rightarrow> Inr []
      | Some opts \<Rightarrow>
          if lo_profile_name opts = None then Inr []
          else
            bind_res (confit_v2_input_catalog_build_chain profiles (lo_profile_name opts)) (\<lambda>chain.
              case find (\<lambda>d. doc_target d \<noteq> None) (butlast chain) of
                Some d \<Rightarrow> confit_v2_ledger_diagnostic (Some (doc_path d)) 0 0 CONFIT_ERR_SCHEMA
                            ''schema v2 base profile cannot select target''
              | None \<Rightarrow> Inr chain))"

definition target_chain_of :: "input_catalog \<Rightarrow> target_selection option \<Rightarrow> input_stop + input_document list" where
  "target_chain_of targets selection = (case selection of
     None \<Rightarrow> Inr []
   | Some s \<Rightarrow> confit_v2_input_catalog_build_chain targets (Some (ts_name s)))"

definition collect_entries ::
  "toml_parser \<Rightarrow> linked_project \<Rightarrow> ledger_options option \<Rightarrow> input_document list \<Rightarrow> input_document list
   \<Rightarrow> input_stop + ledger_entry list" where
  "collect_entries toml_parse_named linked options target_chain profile_chain =
     (let entries = confit_v2_ledger_add_schema_defaults linked []
      in bind_res (confit_v2_ledger_add_input_chain target_chain ORIGIN_TARGET entries) (\<lambda>entries.
         bind_res (confit_v2_ledger_add_input_chain profile_chain ORIGIN_PROFILE entries) (\<lambda>entries.
         bind_res (confit_v2_ledger_add_profile_overrides toml_parse_named linked options entries)
           (confit_v2_ledger_add_user_overrides toml_parse_named linked options))))"

definition confit_v2_assignment_ledger_build ::
  "input_services \<Rightarrow> compiled_structure \<Rightarrow> ledger_options option \<Rightarrow> input_stop + assignment_ledger" where
  "confit_v2_assignment_ledger_build services compiled options =
     (let linked = cs_linked compiled
      in bind_res (confit_v2_input_catalog_load services linked KIND_PROFILE) (\<lambda>profiles.
         bind_res (confit_v2_input_catalog_load services linked KIND_TARGET) (\<lambda>targets.
         bind_res (profile_chain_of profiles options) (\<lambda>profile_chain.
         let selection = select_target (lp_project linked) options profile_chain
         in bind_res (target_chain_of targets selection) (\<lambda>target_chain.
            bind_res (collect_entries (svc_toml_parse_named services) linked options target_chain profile_chain) (\<lambda>entries.
            bind_res (confit_v2_ledger_mark_winners entries) (\<lambda>marked.
              Inr \<lparr>al_compiled = compiled,
                   al_profile_name = (case options of None \<Rightarrow> None | Some opts \<Rightarrow> lo_profile_name opts),
                   al_target_selection = selection, al_entries = marked\<rparr>)))))))"

section \<open>Queries\<close>

definition confit_v2_assignment_ledger_entry_at :: "assignment_ledger \<Rightarrow> nat \<Rightarrow> ledger_entry option" where
  "confit_v2_assignment_ledger_entry_at ledger i =
     (if i \<ge> length (al_entries ledger) then None else Some (al_entries ledger ! i))"

definition confit_v2_assignment_ledger_requested :: "assignment_ledger \<Rightarrow> string \<Rightarrow> ledger_entry option" where
  "confit_v2_assignment_ledger_requested ledger option_id =
     (let entries = al_entries ledger;
          low = lower_bound (\<lambda>m. strcmp (sym_id (le_symbol (entries ! m))) option_id < 0) 0 (length entries)
      in find le_wins (takeWhile (\<lambda>e. strcmp (sym_id (le_symbol e)) option_id = 0) (drop low entries)))"

section \<open>Hash\<close>

definition confit_v2_ledger_hash_bytes :: "u64 \<Rightarrow> nat list \<Rightarrow> u64" where
  "confit_v2_ledger_hash_bytes hash bytes = foldl (\<lambda>hash b. xor hash (of_nat b) * 1099511628211) hash bytes"

definition confit_v2_ledger_hash_u64 :: "u64 \<Rightarrow> u64 \<Rightarrow> u64" where
  "confit_v2_ledger_hash_u64 hash v =
     confit_v2_ledger_hash_bytes hash (map (\<lambda>i. unat (and (drop_bit (8 * i) v) 0xFF)) [0..<8])"

definition confit_v2_ledger_hash_string :: "u64 \<Rightarrow> string option \<Rightarrow> u64" where
  "confit_v2_ledger_hash_string hash t =
     (let s = (case t of None \<Rightarrow> [] | Some s \<Rightarrow> s); hash = confit_v2_ledger_hash_u64 hash (of_nat (length s))
      in if length s > 0 then confit_v2_ledger_hash_bytes hash (map byte s) else hash)"

definition confit_v2_ledger_hash_value :: "u64 \<Rightarrow> v2_value \<Rightarrow> u64" where
  "confit_v2_ledger_hash_value hash v =
     (let hash = confit_v2_ledger_hash_u64 hash (of_nat (value_kind_number (v2_value_kind v)))
      in case v of
           V_Bool b \<Rightarrow> confit_v2_ledger_hash_u64 hash (word_of_int b)
         | V_Tristate c \<Rightarrow> confit_v2_ledger_hash_u64 hash (of_nat (byte c))
         | V_Int i \<Rightarrow> confit_v2_ledger_hash_u64 hash i
         | V_Uint u \<Rightarrow> confit_v2_ledger_hash_u64 hash u
         | V_Float f \<Rightarrow> confit_v2_ledger_hash_u64 hash f
         | V_String s \<Rightarrow> confit_v2_ledger_hash_string hash (Some s)
         | V_String_List items \<Rightarrow>
             foldl (\<lambda>hash s. confit_v2_ledger_hash_string hash (Some s))
               (confit_v2_ledger_hash_u64 hash (of_nat (length items))) items
         | V_Unset \<Rightarrow> hash)"

definition hash_entry :: "u64 \<Rightarrow> ledger_entry \<Rightarrow> u64" where
  "hash_entry hash e =
     (let number = (\<lambda>n hash. confit_v2_ledger_hash_u64 hash (of_nat n));
          hash = confit_v2_ledger_hash_string hash (Some (sym_id (le_symbol e)));
          hash = number (origin_number (le_origin e)) hash;
          hash = number (domain_number (le_domain e)) hash;
          hash = number (if le_is_unset e then 1 else 0) hash;
          hash = number (if le_wins e then 1 else 0) hash;
          hash = number (le_precedence e) hash;
          hash = number (le_declaration_order e) hash;
          hash = confit_v2_ledger_hash_string hash (le_source_path e);
          hash = number (le_source_line e) hash;
          hash = number (le_source_column e) hash
      in confit_v2_ledger_hash_value hash (le_value e))"

definition confit_v2_assignment_ledger_hash :: "assignment_ledger \<Rightarrow> u64" where
  "confit_v2_assignment_ledger_hash ledger = foldl hash_entry 1469598103934665603 (al_entries ledger)"

end
