(* ===== verification/Inputs_Correct.thy ===== *)
theory Inputs_Correct
  imports Inputs Structure_Correct "HOL-Library.Multiset"
begin

text \<open>
  What the input loader promises: which values an option accepts and in which canonical form, and
  that the chain of a document is found, with its base first, whenever the names lead to a root.
\<close>

section \<open>Candidates\<close>

lemma candidate_index_None: "confit_v2_ledger_candidate_index vs t = None \<longleftrightarrow> t \<notin> set vs"
  by (induction vs) (auto simp: strcmp_eq)

lemma candidate_index_Some:
  "confit_v2_ledger_candidate_index vs t = Some i \<Longrightarrow> i < length vs \<and> vs ! i = t \<and> (\<forall>j<i. vs ! j \<noteq> t)"
proof (induction vs arbitrary: i)
  case (Cons v vs)
  then show ?case by (auto simp: strcmp_eq nth_Cons split: if_splits nat.split)
qed simp

text \<open>The place of a candidate, for an item that is one.\<close>

definition candidate_place :: "string list \<Rightarrow> string \<Rightarrow> nat" where
  "candidate_place vs t = the (confit_v2_ledger_candidate_index vs t)"

lemma candidate_index_place: "t \<in> set vs \<Longrightarrow> confit_v2_ledger_candidate_index vs t = Some (candidate_place vs t)"
  using candidate_index_None [of vs t] by (auto simp: candidate_place_def)

lemma candidate_place_inject: "s \<in> set vs \<Longrightarrow> t \<in> set vs \<Longrightarrow> candidate_place vs s = candidate_place vs t \<Longrightarrow> s = t"
  using candidate_index_Some [OF candidate_index_place] by metis

lemma enum_set_items_ok_iff: "enum_set_items_ok vs items \<longleftrightarrow> set items \<subseteq> set vs \<and> distinct items"
  by (induction items) (auto simp: candidate_index_None strcmp_eq list_all_iff)

section \<open>The exchange sort\<close>

lemma mset_exchange: "i < length xs \<Longrightarrow> j < length xs \<Longrightarrow> mset (xs[i := xs ! j, j := xs ! i]) = mset xs"
  by (rule mset_swap)

lemma exchange_step_result:
  assumes "set items \<subseteq> set vs" "i < length items" "j < length items" "i \<noteq> j"
  shows "\<exists>r. exchange_step vs i j items = Some r \<and> mset r = mset items
    \<and> (\<forall>a. a \<noteq> i \<longrightarrow> a \<noteq> j \<longrightarrow> r ! a = items ! a)
    \<and> candidate_place vs (r ! i) \<le> candidate_place vs (items ! i)
    \<and> candidate_place vs (r ! i) \<le> candidate_place vs (r ! j)"
proof -
  have p: "confit_v2_ledger_candidate_index vs (items ! a) = Some (candidate_place vs (items ! a))"
    if "a < length items" for a
    using candidate_index_place assms(1) that nth_mem by blast
  show ?thesis
  proof (cases "candidate_place vs (items ! i) > candidate_place vs (items ! j)")
    case True
    then have "exchange_step vs i j items = Some (items[i := items ! j, j := items ! i])"
      using p assms(2,3) by (simp add: exchange_step_def)
    with True assms mset_exchange [OF assms(2,3)] show ?thesis by (simp add: nth_list_update)
  next
    case False
    then have "exchange_step vs i j items = Some items"
      using p assms(2,3) by (simp add: exchange_step_def)
    with False show ?thesis by simp
  qed
qed

lemma exchange_inner_result:
  "set items \<subseteq> set vs \<Longrightarrow> i < j \<Longrightarrow> j \<le> length items \<Longrightarrow>
   \<exists>r. exchange_inner vs i [j..<length items] items = Some r \<and> mset r = mset items
     \<and> (\<forall>a<j. a \<noteq> i \<longrightarrow> r ! a = items ! a)
     \<and> candidate_place vs (r ! i) \<le> candidate_place vs (items ! i)
     \<and> (\<forall>b\<in>{j..<length items}. candidate_place vs (r ! i) \<le> candidate_place vs (r ! b))"
proof (induction "length items - j" arbitrary: j items)
  case 0
  then have "j = length items" by simp
  then show ?case by simp
next
  case (Suc n)
  then have j: "j < length items" and i: "i < length items" and ne: "i \<noteq> j" by simp_all
  from exchange_step_result [OF Suc.prems(1) i j ne] obtain s where
    s: "exchange_step vs i j items = Some s" "mset s = mset items"
      "\<forall>a. a \<noteq> i \<longrightarrow> a \<noteq> j \<longrightarrow> s ! a = items ! a"
      "candidate_place vs (s ! i) \<le> candidate_place vs (items ! i)"
      "candidate_place vs (s ! i) \<le> candidate_place vs (s ! j)" by blast
  note len = mset_eq_length [OF s(2)] and same = mset_eq_setD [OF s(2)]
  have "\<exists>r. exchange_inner vs i [Suc j..<length s] s = Some r \<and> mset r = mset s
     \<and> (\<forall>a<Suc j. a \<noteq> i \<longrightarrow> r ! a = s ! a) \<and> candidate_place vs (r ! i) \<le> candidate_place vs (s ! i)
     \<and> (\<forall>b\<in>{Suc j..<length s}. candidate_place vs (r ! i) \<le> candidate_place vs (r ! b))"
    by (rule Suc.hyps(1)) (use Suc.hyps(2) Suc.prems same len j in simp_all)
  then obtain r where r: "exchange_inner vs i [Suc j..<length s] s = Some r" "mset r = mset s"
      "\<forall>a<Suc j. a \<noteq> i \<longrightarrow> r ! a = s ! a" "candidate_place vs (r ! i) \<le> candidate_place vs (s ! i)"
      "\<forall>b\<in>{Suc j..<length s}. candidate_place vs (r ! i) \<le> candidate_place vs (r ! b)" by blast
  have "exchange_inner vs i [j..<length items] items = Some r"
    using r(1) s(1) j len by (simp add: upt_conv_Cons)
  moreover have "candidate_place vs (r ! i) \<le> candidate_place vs (r ! b)" if "b \<in> {j..<length items}" for b
  proof (cases "b = j")
    case True
    with r(3) ne have "r ! b = s ! j" by simp
    with r(4) s(5) show ?thesis by simp
  next
    case False
    with that have "b \<in> {Suc j..<length s}" using len by auto
    with r(5) show ?thesis by blast
  qed
  ultimately show ?case using r s by (auto intro: order_trans)
qed

text \<open>The items before position \<open>i\<close> are in their final place.\<close>

definition placed :: "string list \<Rightarrow> nat \<Rightarrow> string list \<Rightarrow> bool" where
  "placed vs i items \<longleftrightarrow>
     (\<forall>a<i. \<forall>b. a < b \<longrightarrow> b < length items \<longrightarrow> candidate_place vs (items ! a) \<le> candidate_place vs (items ! b))"

lemma exchange_outer_result:
  "set items \<subseteq> set vs \<Longrightarrow> placed vs i items \<Longrightarrow> i \<le> length items \<Longrightarrow>
   \<exists>r. exchange_outer vs [i..<length items] items = Some r \<and> mset r = mset items
     \<and> sorted (map (candidate_place vs) r)"
proof (induction "length items - i" arbitrary: i items)
  case 0
  then have "i = length items" by simp
  with 0 show ?case by (auto simp: placed_def sorted_iff_nth_mono_less)
next
  case (Suc n)
  then have i: "i < length items" by simp
  from exchange_inner_result [OF Suc.prems(1), of i "i + 1"] i obtain s where
    s: "exchange_inner vs i [i + 1..<length items] items = Some s" "mset s = mset items"
      "\<forall>a<i + 1. a \<noteq> i \<longrightarrow> s ! a = items ! a"
      "\<forall>b\<in>{i + 1..<length items}. candidate_place vs (s ! i) \<le> candidate_place vs (s ! b)" by auto
  note len = mset_eq_length [OF s(2)] and same = mset_eq_setD [OF s(2)]
  have front: "take i s = take i items" using s(3) i len by (intro nth_equalityI) auto
  then have "mset (drop i s) = mset (drop i items)"
    using s(2) append_take_drop_id [of i s] append_take_drop_id [of i items]
    by (metis add_left_imp_eq mset_append)
  then have rest: "set (drop i s) = set (drop i items)" by (rule mset_eq_setD)
  have "placed vs (Suc i) s"
    unfolding placed_def
  proof (intro allI impI)
    fix a b assume a: "a < Suc i" "a < b" "b < length s"
    show "candidate_place vs (s ! a) \<le> candidate_place vs (s ! b)"
    proof (cases "a = i")
      case True
      with a s(4) len show ?thesis by simp
    next
      case False
      with a have sa: "s ! a = items ! a" "a < i" using s(3) by simp_all
      show ?thesis
      proof (cases "b < i")
        case True
        with sa a s(3) Suc.prems(2) len show ?thesis by (simp add: placed_def)
      next
        case False
        then have "drop i s ! (b - i) \<in> set (drop i s)" using a by (intro nth_mem) simp
        then have "s ! b \<in> set (drop i items)" using False a rest by simp
        then obtain c where "c < length items - i" "items ! (i + c) = s ! b"
          by (auto simp: in_set_conv_nth)
        with sa Suc.prems(2) show ?thesis unfolding placed_def
          by (metis add.commute less_diff_conv trans_less_add1)
      qed
    qed
  qed
  then have "\<exists>r. exchange_outer vs [Suc i..<length s] s = Some r \<and> mset r = mset s
     \<and> sorted (map (candidate_place vs) r)"
    by (intro Suc.hyps(1)) (use Suc.hyps(2) Suc.prems same len i in simp_all)
  with s i len show ?case by (auto simp: upt_conv_Cons)
qed

text \<open>The items of an enum set in the order of the candidates.\<close>

definition canonical_items :: "string list \<Rightarrow> string list \<Rightarrow> string list" where
  "canonical_items vs items = sort_key (candidate_place vs) items"

lemma exchange_sorts:
  assumes "set items \<subseteq> set vs" "distinct items"
  shows "exchange_outer vs [0..<length items] items = Some (canonical_items vs items)"
proof -
  from exchange_outer_result [OF assms(1), of 0] obtain r where
    r: "exchange_outer vs [0..<length items] items = Some r" "mset r = mset items"
      "sorted (map (candidate_place vs) r)" by (auto simp: placed_def)
  have same: "set r = set items" and d: "distinct r"
    using r(2) assms(2) mset_eq_setD mset_eq_imp_distinct_iff by blast+
  have inj: "inj_on (candidate_place vs) (set items)"
    using candidate_place_inject assms(1) by (auto simp: inj_on_def)
  have "r = sort_key (candidate_place vs) items"
    by (rule map_sorted_distinct_set_unique [where f = "candidate_place vs"])
      (use same d inj r(3) assms(2) in \<open>simp_all add: distinct_map\<close>)
  with r(1) show ?thesis by (simp add: canonical_items_def)
qed

section \<open>Accepted values\<close>

text \<open>The segments of a path, and the paths that are relative, stay inside their root and mean the
  same on every system.\<close>

fun path_segments :: "string \<Rightarrow> string list" where
  "path_segments [] = [[]]"
| "path_segments (c # cs) =
     (if c = CHR ''/'' then [] # path_segments cs else (c # hd (path_segments cs)) # tl (path_segments cs))"

definition portable_path :: "string \<Rightarrow> bool" where
  "portable_path path \<longleftrightarrow>
     CHR 0x5C \<notin> set path \<and> set (path_segments path) \<inter> {'''', ''.'', ''..''} = {}"

lemma path_segments_not_Nil [simp]: "path_segments s \<noteq> []"
  by (cases s) simp_all

lemma segment_allowed_iff: "segment_allowed s \<longleftrightarrow> s \<notin> {'''', ''.'', ''..''}"
proof (cases s)
  case (Cons a r)
  then show ?thesis by (cases r; cases "tl r") (auto simp: segment_allowed_def)
qed (simp add: segment_allowed_def)

lemma logical_path_loop_segments:
  "logical_path_loop segment s \<longleftrightarrow>
     segment_allowed (segment @ hd (path_segments s)) \<and> list_all segment_allowed (tl (path_segments s))"
proof (induction segment s rule: logical_path_loop.induct)
  case (2 segment c cs)
  have "list_all segment_allowed (path_segments cs) \<longleftrightarrow>
      segment_allowed (hd (path_segments cs)) \<and> list_all segment_allowed (tl (path_segments cs))"
    by (cases "path_segments cs") simp_all
  with 2 show ?case by (simp add: append_eq_Cons_conv)
qed simp

lemma logical_path_iff:
  assumes "is_cstring path"
  shows "confit_v2_ledger_logical_path path \<longleftrightarrow> portable_path path"
proof -
  have segs: "logical_path_loop [] path \<longleftrightarrow> set (path_segments path) \<inter> {'''', ''.'', ''..''} = {}"
  proof -
    have "logical_path_loop [] path \<longleftrightarrow> list_all segment_allowed (path_segments path)"
      by (cases "path_segments path") (simp_all add: logical_path_loop_segments)
    then show ?thesis by (auto simp: list_all_iff segment_allowed_iff)
  qed
  show ?thesis
  proof (cases path)
    case Nil
    then show ?thesis by (simp add: confit_v2_ledger_logical_path_def portable_path_def)
  next
    case (Cons c cs)
    with assms have "c \<noteq> NUL" by (auto simp: is_cstring_def)
    with Cons segs show ?thesis
      by (auto simp: confit_v2_ledger_logical_path_def portable_path_def list_ex_iff)
  qed
qed

text \<open>The range of an option holds bounds of the option's own kind; the loader checks it.\<close>

definition range_typed :: "v2_symbol \<Rightarrow> bool" where
  "range_typed symbol \<longleftrightarrow>
     (range_is_set (sym_range symbol) \<longrightarrow>
        (case confit_v2_type_descriptor (sym_type symbol) of
           None \<Rightarrow> False
         | Some d \<Rightarrow> v2_value_kind (range_min (sym_range symbol)) = desc_value_kind d
                   \<and> v2_value_kind (range_max (sym_range symbol)) = desc_value_kind d))"

definition within_range :: "v2_symbol \<Rightarrow> v2_value \<Rightarrow> bool" where
  "within_range symbol v \<longleftrightarrow>
     (range_is_set (sym_range symbol) \<longrightarrow>
        (case (range_min (sym_range symbol), v, range_max (sym_range symbol)) of
           (V_Int low, V_Int i, V_Int high) \<Rightarrow> sint low \<le> sint i \<and> sint i \<le> sint high
         | (V_Uint low, V_Uint u, V_Uint high) \<Rightarrow> low \<le> u \<and> u \<le> high
         | (V_Float low, V_Float f, V_Float high) \<Rightarrow> isfinite f \<and> f64_le low f \<and> f64_le f high
         | _ \<Rightarrow> False))"

definition value_allowed :: "v2_symbol \<Rightarrow> v2_value \<Rightarrow> bool" where
  "value_allowed symbol v \<longleftrightarrow>
     (case (sym_type symbol, v) of
        (OPTION_BOOL, V_Bool b) \<Rightarrow> True
      | (OPTION_TRISTATE, V_Tristate c) \<Rightarrow> True
      | (OPTION_INT, V_Int i) \<Rightarrow> True
      | (OPTION_UINT, V_Uint u) \<Rightarrow> True
      | (OPTION_HEX, V_Uint u) \<Rightarrow> True
      | (OPTION_FLOAT, V_Float f) \<Rightarrow> isfinite f
      | (OPTION_STRING, V_String s) \<Rightarrow> True
      | (OPTION_ENUM, V_String s) \<Rightarrow> s \<in> set (sym_values symbol)
      | (OPTION_PATH, V_String s) \<Rightarrow> portable_path s
      | (OPTION_STRING_LIST, V_String_List items) \<Rightarrow> True
      | (OPTION_PATH_LIST, V_String_List items) \<Rightarrow> (\<forall>s\<in>set items. portable_path s)
      | (OPTION_ENUM_SET, V_String_List items) \<Rightarrow> set items \<subseteq> set (sym_values symbol) \<and> distinct items
      | _ \<Rightarrow> False)
     \<and> within_range symbol v"

definition canonical_value :: "v2_symbol \<Rightarrow> v2_value \<Rightarrow> v2_value" where
  "canonical_value symbol v = (case v of
     V_String_List items \<Rightarrow>
       if sym_type symbol = OPTION_ENUM_SET then V_String_List (canonical_items (sym_values symbol) items) else v
   | _ \<Rightarrow> v)"

text \<open>The strings of a value are C strings.\<close>

definition cstring_value :: "v2_value \<Rightarrow> bool" where
  "cstring_value v \<longleftrightarrow> (case v of
     V_String s \<Rightarrow> is_cstring s | V_String_List items \<Rightarrow> (\<forall>s\<in>set items. is_cstring s) | _ \<Rightarrow> True)"

lemmas type_descriptors = confit_v2_type_descriptor_def kTypeDescriptors_def

lemma value_shape_iff:
  assumes "cstring_value v"
  shows "value_shape_ok symbol v \<longleftrightarrow>
    (case (sym_type symbol, v) of
        (OPTION_BOOL, V_Bool b) \<Rightarrow> True
      | (OPTION_TRISTATE, V_Tristate c) \<Rightarrow> True
      | (OPTION_INT, V_Int i) \<Rightarrow> True
      | (OPTION_UINT, V_Uint u) \<Rightarrow> True
      | (OPTION_HEX, V_Uint u) \<Rightarrow> True
      | (OPTION_FLOAT, V_Float f) \<Rightarrow> isfinite f
      | (OPTION_STRING, V_String s) \<Rightarrow> True
      | (OPTION_ENUM, V_String s) \<Rightarrow> s \<in> set (sym_values symbol)
      | (OPTION_PATH, V_String s) \<Rightarrow> portable_path s
      | (OPTION_STRING_LIST, V_String_List items) \<Rightarrow> True
      | (OPTION_PATH_LIST, V_String_List items) \<Rightarrow> (\<forall>s\<in>set items. portable_path s)
      | (OPTION_ENUM_SET, V_String_List items) \<Rightarrow> True
      | _ \<Rightarrow> False)"
  using assms unfolding value_shape_ok_def
  by (cases "sym_type symbol"; cases v)
    (simp_all add: type_descriptors cstring_value_def logical_path_iff candidate_index_None list_all_iff)

lemma range_contains_iff:
  assumes "range_typed symbol" "value_shape_ok symbol v"
  shows "confit_v2_ledger_range_contains symbol v = Inr (within_range symbol v)"
proof (cases "range_is_set (sym_range symbol)")
  case False
  then show ?thesis by (simp add: confit_v2_ledger_range_contains_def within_range_def)
next
  case True
  obtain d where d: "confit_v2_type_descriptor (sym_type symbol) = Some d" "v2_value_kind v = desc_value_kind d"
    "v2_value_kind (range_min (sym_range symbol)) = desc_value_kind d"
    "v2_value_kind (range_max (sym_range symbol)) = desc_value_kind d"
    using assms True by (auto simp: range_typed_def value_shape_ok_def split: option.splits)
  then show ?thesis using True
    by (cases v; cases "range_min (sym_range symbol)"; cases "range_max (sym_range symbol)")
      (simp_all add: confit_v2_ledger_range_contains_def within_range_def as_int_def as_uint_def as_float_def Let_def)
qed

lemma within_range_canonical: "within_range symbol (canonical_value symbol v) = within_range symbol v"
  by (simp add: within_range_def canonical_value_def split: v2_value.split)

lemma shape_canonical: "value_shape_ok symbol v \<Longrightarrow> value_shape_ok symbol (canonical_value symbol v)"
  by (cases "sym_type symbol = OPTION_ENUM_SET"; cases v)
    (simp_all add: canonical_value_def value_shape_ok_def type_descriptors)

lemma validate_value_outcome:
  assumes "range_typed symbol" "cstring_value v"
  shows "confit_v2_ledger_validate_value symbol v path line column =
    (if value_allowed symbol v then Inr (canonical_value symbol v)
     else confit_v2_ledger_diagnostic path line column CONFIT_ERR_SCHEMA kInvalidInputValue)"
proof (cases "value_shape_ok symbol v")
  case False
  then have "\<not> value_allowed symbol v"
    unfolding value_shape_iff [OF assms(2)] value_allowed_def
    by (cases "sym_type symbol"; cases v) simp_all
  with False show ?thesis by (simp add: confit_v2_ledger_validate_value_def)
next
  case shape: True
  note range = range_contains_iff [OF assms(1)]
  have range_v: "confit_v2_ledger_range_contains symbol (canonical_value symbol v) = Inr (within_range symbol v)"
    using range [OF shape_canonical [OF shape]] by (simp add: within_range_canonical)
  show ?thesis
  proof (cases "enum_set_sorted symbol v")
    case None
    then have "\<not> value_allowed symbol v"
      by (auto simp: enum_set_sorted_def value_allowed_def enum_set_items_ok_iff exchange_sorts
          split: v2_value.splits if_splits)
    with None shape show ?thesis by (simp add: confit_v2_ledger_validate_value_def)
  next
    case (Some w)
    then have w: "w = canonical_value symbol v"
      by (auto simp: enum_set_sorted_def canonical_value_def enum_set_items_ok_iff exchange_sorts
          split: v2_value.splits if_splits)
    have "value_allowed symbol v \<longleftrightarrow> within_range symbol v"
      using shape Some unfolding value_shape_iff [OF assms(2)] value_allowed_def
      by (cases "sym_type symbol"; cases v)
        (auto simp: enum_set_sorted_def enum_set_items_ok_iff split: if_splits)
    with shape Some w range_v show ?thesis by (simp add: confit_v2_ledger_validate_value_def member_def)
  qed
qed

text \<open>C22. Validating a value accepts exactly the values the option's type, candidates, paths and range
  allow, hands out the value with the items of an enum set in the order of the candidates, and
  otherwise reports a schema error at the position of the value; with a range of the option's own
  kind no union member is misread.\<close>

theorem validate_value_exact:
  assumes "range_typed symbol" "cstring_value v"
  shows "confit_v2_ledger_validate_value symbol v path line column =
    (if value_allowed symbol v then Inr (canonical_value symbol v)
     else Inl (Diagnosed (confit_diagnostic_set CONFIT_ERR_SCHEMA path line column kInvalidInputValue)))"
  using validate_value_outcome [OF assms] by (simp add: confit_v2_ledger_diagnostic_def)

text \<open>C33. The canonical form of an enum set depends only on the set: two accepted values are handed out
  as the same value exactly when they have the same items, and validating the result again does
  not change it.\<close>

theorem enum_set_canonical:
  assumes "sym_type symbol = OPTION_ENUM_SET" "\<not> range_is_set (sym_range symbol)"
    and "confit_v2_ledger_validate_value symbol (V_String_List xs) path line column = Inr v"
    and "confit_v2_ledger_validate_value symbol (V_String_List ys) path line column = Inr w"
  shows "(v = w \<longleftrightarrow> set xs = set ys) \<and> confit_v2_ledger_validate_value symbol v path line column = Inr v"
proof -
  have sorted_set: "enum_set_sorted symbol (V_String_List zs) =
      (if set zs \<subseteq> set (sym_values symbol) \<and> distinct zs
       then Some (V_String_List (canonical_items (sym_values symbol) zs)) else None)" for zs
    using assms(1) by (simp add: enum_set_sorted_def enum_set_items_ok_iff exchange_sorts)
  have shape: "value_shape_ok symbol (V_String_List zs)" for zs
    using assms(1) by (simp add: value_shape_ok_def type_descriptors)
  have run: "confit_v2_ledger_validate_value symbol (V_String_List zs) path line column =
      (if set zs \<subseteq> set (sym_values symbol) \<and> distinct zs
       then Inr (V_String_List (canonical_items (sym_values symbol) zs))
       else confit_v2_ledger_diagnostic path line column CONFIT_ERR_SCHEMA kInvalidInputValue)" for zs
    using assms(2) by (simp add: confit_v2_ledger_validate_value_def shape sorted_set member_def
        confit_v2_ledger_range_contains_def)
  let ?c = "canonical_items (sym_values symbol)"
  from assms(3,4) have x: "set xs \<subseteq> set (sym_values symbol)" "distinct xs" "v = V_String_List (?c xs)"
    and y: "set ys \<subseteq> set (sym_values symbol)" "distinct ys" "w = V_String_List (?c ys)"
    by (auto simp: run confit_v2_ledger_diagnostic_def split: if_splits)
  have inj: "inj_on (candidate_place (sym_values symbol)) (set (sym_values symbol))"
    using candidate_place_inject by (auto simp: inj_on_def)
  have same: "?c zs = ?c us" if "set zs = set us" "set us \<subseteq> set (sym_values symbol)" "distinct zs" "distinct us" for zs us
    by (rule map_sorted_distinct_set_unique [where f = "candidate_place (sym_values symbol)"])
      (use that inj in \<open>simp_all add: canonical_items_def distinct_map inj_on_subset\<close>)
  have set_c: "set (?c zs) = set zs" "distinct (?c zs) = distinct zs" for zs by (simp_all add: canonical_items_def)
  have "?c (?c xs) = ?c xs" by (rule same) (use x in \<open>simp_all add: set_c\<close>)
  moreover have "?c xs = ?c ys \<longleftrightarrow> set xs = set ys" using same [of xs ys] x y set_c by metis
  ultimately show ?thesis using x y by (simp add: run set_c)
qed

section \<open>Inheritance chains\<close>

text \<open>A chain leads from a document without base to the named leaf, each document but the first naming
  the one before it as its base.\<close>

definition inheritance_chain :: "input_document list \<Rightarrow> string \<Rightarrow> input_document list \<Rightarrow> bool" where
  "inheritance_chain documents leaf chain \<longleftrightarrow>
     chain \<noteq> [] \<and> set chain \<subseteq> set documents \<and> doc_base (hd chain) = None \<and> doc_name (last chain) = leaf
     \<and> (\<forall>k. Suc k < length chain \<longrightarrow> doc_base (chain ! Suc k) = Some (doc_name (chain ! k)))"

lemma inheritance_chain_snoc:
  "inheritance_chain documents leaf (xs @ [d]) \<longleftrightarrow>
     d \<in> set documents \<and> doc_name d = leaf
     \<and> (case doc_base d of None \<Rightarrow> xs = [] | Some base \<Rightarrow> inheritance_chain documents base xs)"
proof (cases xs rule: rev_cases)
  case Nil
  then show ?thesis by (auto simp: inheritance_chain_def split: option.split)
next
  case (snoc ys y)
  have at: "(\<forall>k. Suc k < length (xs @ [d]) \<longrightarrow> doc_base ((xs @ [d]) ! Suc k) = Some (doc_name ((xs @ [d]) ! k)))
    \<longleftrightarrow> doc_base d = Some (doc_name y)
       \<and> (\<forall>k. Suc k < length xs \<longrightarrow> doc_base (xs ! Suc k) = Some (doc_name (xs ! k)))"
    (is "?all \<longleftrightarrow> ?one \<and> ?rest")
  proof
    assume all: ?all
    then have "?one" using all [rule_format, of "length ys"] snoc by (simp add: nth_append)
    moreover have "?rest"
    proof (intro allI impI)
      fix k assume "Suc k < length xs"
      with all [rule_format, of k] show "doc_base (xs ! Suc k) = Some (doc_name (xs ! k))" by (simp add: nth_append)
    qed
    ultimately show "?one \<and> ?rest" ..
  next
    assume r: "?one \<and> ?rest"
    show ?all
    proof (intro allI impI)
      fix k assume "Suc k < length (xs @ [d])"
      with r snoc show "doc_base ((xs @ [d]) ! Suc k) = Some (doc_name ((xs @ [d]) ! k))"
        by (cases "Suc k < length xs") (auto simp: nth_append less_Suc_eq)
    qed
  qed
  have "hd (xs @ [d]) = hd xs" using snoc by (cases ys) simp_all
  then show ?thesis unfolding inheritance_chain_def at using snoc by (simp split: option.split) blast
qed

text \<open>The indexes the walk visits from a document on.\<close>

fun climbs :: "input_document list \<Rightarrow> nat \<Rightarrow> nat list \<Rightarrow> bool" where
  "climbs documents i [] \<longleftrightarrow> False"
| "climbs documents i (j # js) \<longleftrightarrow> j = i \<and>
     (case doc_base (documents ! i) of
        None \<Rightarrow> js = []
      | Some base \<Rightarrow>
          (case document_index documents base of None \<Rightarrow> False | Some next_index \<Rightarrow> climbs documents next_index js))"

lemma climbs_unique: "climbs documents i js \<Longrightarrow> climbs documents i ks \<Longrightarrow> js = ks"
proof (induction js arbitrary: i ks)
  case (Cons j js)
  then show ?case by (cases ks) (auto split: option.splits)
qed simp

lemma climbs_suffix: "climbs documents i (as @ j # js) \<Longrightarrow> climbs documents j (j # js)"
proof (induction as arbitrary: i)
  case (Cons a as)
  then show ?case by (cases as) (auto split: option.splits)
qed simp

lemma climbs_distinct: "climbs documents i js \<Longrightarrow> distinct js"
proof (induction js arbitrary: i)
  case (Cons j js)
  have "j \<notin> set js"
  proof
    assume "j \<in> set js"
    then obtain as bs where js: "js = as @ j # bs" by (auto simp: in_set_conv_decomp)
    with climbs_suffix [of documents i "j # as" j bs] Cons.prems have "climbs documents j (j # bs)" by simp
    with Cons.prems js climbs_unique [of documents j "j # bs" "j # js"] show False by auto
  qed
  with Cons show ?case by (cases js) (auto split: option.splits)
qed simp

lemma document_index_Some:
  "document_index documents name = Some i \<Longrightarrow> i < length documents \<and> doc_name (documents ! i) = name"
proof (induction documents arbitrary: i)
  case (Cons d ds)
  then show ?case by (auto simp: strcmp_eq split: if_splits)
qed simp

lemma document_index_found:
  "distinct (map doc_name documents) \<Longrightarrow> i < length documents
    \<Longrightarrow> document_index documents (doc_name (documents ! i)) = Some i"
proof (induction documents arbitrary: i)
  case (Cons d ds)
  then show ?case by (cases i) (auto simp: strcmp_eq)
qed simp

lemma climbs_range: "climbs documents i js \<Longrightarrow> i < length documents \<Longrightarrow> set js \<subseteq> {..<length documents}"
proof (induction js arbitrary: i)
  case (Cons j js)
  then show ?case using document_index_Some by (fastforce split: option.splits)
qed simp

lemma inheritance_chain_climbs:
  assumes "distinct (map doc_name documents)"
  shows "inheritance_chain documents leaf chain \<longleftrightarrow>
    (\<exists>i js. document_index documents leaf = Some i \<and> climbs documents i js
       \<and> chain = map ((!) documents) (rev js))"
proof (induction chain arbitrary: leaf rule: rev_induct)
  case Nil
  have "\<not> climbs documents i js" if "map ((!) documents) (rev js) = []" for i js using that by simp
  then show ?case by (auto simp: inheritance_chain_def)
next
  case (snoc d xs)
  show ?case
  proof
    assume "inheritance_chain documents leaf (xs @ [d])"
    note d = this [unfolded inheritance_chain_snoc]
    then obtain i where i: "i < length documents" "d = documents ! i" by (auto simp: in_set_conv_nth)
    then have found: "document_index documents leaf = Some i" using d document_index_found [OF assms i(1)] by simp
    show "\<exists>i js. document_index documents leaf = Some i \<and> climbs documents i js
       \<and> xs @ [d] = map ((!) documents) (rev js)"
    proof (cases "doc_base d")
      case None
      with d i found show ?thesis by (intro exI [of _ i] exI [of _ "[i]"]) simp
    next
      case (Some base)
      with d snoc.IH obtain k js where "document_index documents base = Some k" "climbs documents k js"
        "xs = map ((!) documents) (rev js)" by auto
      with Some i found show ?thesis by (intro exI [of _ i] exI [of _ "i # js"]) simp
    qed
  next
    assume "\<exists>i js. document_index documents leaf = Some i \<and> climbs documents i js
       \<and> xs @ [d] = map ((!) documents) (rev js)"
    then obtain i js where i: "document_index documents leaf = Some i" "climbs documents i js"
      "xs @ [d] = map ((!) documents) (rev js)" by blast
    then obtain ks where js: "js = i # ks" by (cases js) auto
    with i have d: "d = documents ! i" "xs = map ((!) documents) (rev ks)" by auto
    moreover have "case doc_base d of None \<Rightarrow> xs = [] | Some base \<Rightarrow> inheritance_chain documents base xs"
      using i js d snoc.IH by (auto split: option.splits)
    ultimately show "inheritance_chain documents leaf (xs @ [d])"
      using document_index_Some [OF i(1)] by (auto simp: inheritance_chain_snoc)
  qed
qed

text \<open>The walk hands out the indexes, and fails with a schema error when there is no way to a root.\<close>

lemma chain_walk_outcome:
  "distinct (reversed @ [cursor]) \<or> cursor \<in> set reversed \<Longrightarrow> distinct reversed
   \<Longrightarrow> set reversed \<subseteq> {..<length documents} \<Longrightarrow> cursor < length documents
   \<Longrightarrow> room + length reversed = length documents
   \<Longrightarrow> case chain_walk documents room reversed cursor of
        Inr r \<Rightarrow> \<exists>js. r = reversed @ js \<and> climbs documents cursor js
      | Inl e \<Rightarrow> (\<exists>d. e = Diagnosed d \<and> diag_status d = CONFIT_ERR_SCHEMA)
               \<and> (\<forall>js. climbs documents cursor js \<longrightarrow> set js \<inter> set reversed \<noteq> {})"
proof (induction room arbitrary: reversed cursor)
  case 0
  then have "set reversed = {..<length documents}" by (intro card_subset_eq) (simp_all add: distinct_card)
  with 0 have "cursor \<in> set reversed" by simp
  moreover have "cursor \<in> set js" if "climbs documents cursor js" for js using that by (cases js) auto
  ultimately show ?case
    by (auto simp: chain_walk.simps [of documents 0] confit_v2_ledger_diagnostic_def confit_diagnostic_set_def
        confit_diagnostic_set_detail_def Let_def)
next
  case (Suc room)
  note step = chain_walk.simps [of documents "Suc room" reversed cursor]
  note schema = confit_v2_ledger_diagnostic_def confit_diagnostic_set_def confit_diagnostic_set_detail_def Let_def
  have head: "cursor \<in> set js" if "climbs documents cursor js" for js using that by (cases js) auto
  show ?case
  proof (cases "cursor \<in> set reversed")
    case True
    with step head show ?thesis by (auto simp: schema)
  next
    case new: False
    show ?thesis
    proof (cases "doc_base (documents ! cursor)")
      case None
      with new step show ?thesis by (simp add: schema)
    next
      case base: (Some base)
      show ?thesis
      proof (cases "document_index documents base")
        case None
        have "\<not> climbs documents cursor js" for js using base None by (cases js) auto
        with new step base None show ?thesis by (auto simp: schema)
      next
        case (Some i)
        have "case chain_walk documents room (reversed @ [cursor]) i of
            Inr r \<Rightarrow> \<exists>js. r = (reversed @ [cursor]) @ js \<and> climbs documents i js
          | Inl e \<Rightarrow> (\<exists>d. e = Diagnosed d \<and> diag_status d = CONFIT_ERR_SCHEMA)
               \<and> (\<forall>js. climbs documents i js \<longrightarrow> set js \<inter> set (reversed @ [cursor]) \<noteq> {})"
          by (rule Suc.IH) (use Suc.prems new document_index_Some [OF Some] in auto)
        moreover have "chain_walk documents (Suc room) reversed cursor = chain_walk documents room (reversed @ [cursor]) i"
          using new base Some step by (simp add: Let_def)
        moreover have up: "climbs documents cursor js \<longleftrightarrow> (\<exists>ks. js = cursor # ks \<and> climbs documents i ks)" for js
          using base Some by (cases js) auto
        moreover have "set js \<inter> set reversed \<noteq> {}"
          if "\<forall>js. climbs documents i js \<longrightarrow> set js \<inter> set (reversed @ [cursor]) \<noteq> {}" "climbs documents cursor js" for js
          using that climbs_distinct [OF that(2)] up [of js] by fastforce
        ultimately show ?thesis by (cases "chain_walk documents room (reversed @ [cursor]) i") auto
      qed
    qed
  qed
qed

lemma build_chain_outcome:
  assumes "distinct (map doc_name (cat_documents catalog))"
  shows "confit_v2_input_catalog_build_chain catalog (Some leaf) = Inr chain \<longleftrightarrow>
      inheritance_chain (cat_documents catalog) leaf chain"
    and "confit_v2_input_catalog_build_chain catalog (Some leaf) = Inl e \<Longrightarrow>
      \<exists>d. e = Diagnosed d \<and> diag_status d = CONFIT_ERR_SCHEMA"
proof -
  let ?ds = "cat_documents catalog"
  note schema = confit_v2_ledger_diagnostic_def confit_diagnostic_set_def confit_diagnostic_set_detail_def
  have "(confit_v2_input_catalog_build_chain catalog (Some leaf) = Inr chain \<longleftrightarrow> inheritance_chain ?ds leaf chain)
    \<and> (confit_v2_input_catalog_build_chain catalog (Some leaf) = Inl e \<longrightarrow>
      (\<exists>d. e = Diagnosed d \<and> diag_status d = CONFIT_ERR_SCHEMA))"
  proof (cases "document_index ?ds leaf")
    case None
    then show ?thesis
      by (auto simp: inheritance_chain_climbs [OF assms] confit_v2_input_catalog_build_chain_def schema Let_def)
  next
    case (Some i)
    have out: "case chain_walk ?ds (length ?ds) [] i of
        Inr r \<Rightarrow> \<exists>js. r = [] @ js \<and> climbs ?ds i js
      | Inl e \<Rightarrow> (\<exists>d. e = Diagnosed d \<and> diag_status d = CONFIT_ERR_SCHEMA)
               \<and> (\<forall>js. climbs ?ds i js \<longrightarrow> set js \<inter> set [] \<noteq> {})"
      by (rule chain_walk_outcome) (use document_index_Some [OF Some] in simp_all)
    have run: "confit_v2_input_catalog_build_chain catalog (Some leaf) =
        bind_res (chain_walk ?ds (length ?ds) [] i) (\<lambda>reversed. Inr (map ((!) ?ds) (rev reversed)))"
      using Some by (simp add: confit_v2_input_catalog_build_chain_def Let_def)
    show ?thesis
    proof (cases "chain_walk ?ds (length ?ds) [] i")
      case (Inl f)
      with out have none: "\<not> climbs ?ds i js" for js by simp
      have "\<not> inheritance_chain ?ds leaf chain"
        unfolding inheritance_chain_climbs [OF assms] Some using none by blast
      with Inl out run show ?thesis by auto
    next
      case (Inr r)
      with out have r: "climbs ?ds i r" by simp
      have "inheritance_chain ?ds leaf chain \<longleftrightarrow> chain = map ((!) ?ds) (rev r)"
        unfolding inheritance_chain_climbs [OF assms] Some using climbs_unique [OF r] r by blast
      with Inr run show ?thesis by auto
    qed
  qed
  then show "confit_v2_input_catalog_build_chain catalog (Some leaf) = Inr chain \<longleftrightarrow> inheritance_chain ?ds leaf chain"
    and "confit_v2_input_catalog_build_chain catalog (Some leaf) = Inl e \<Longrightarrow>
      \<exists>d. e = Diagnosed d \<and> diag_status d = CONFIT_ERR_SCHEMA" by blast+
qed

text \<open>C34. Building the chain of a name always ends. With distinct document names it hands out a chain
  exactly when one exists, namely that chain, from the document without base down to the named leaf;
  otherwise, for an unknown name, an unknown base or a cycle, it reports a schema error.\<close>

theorem build_chain_exact:
  assumes "distinct (map doc_name (cat_documents catalog))"
  shows "case confit_v2_input_catalog_build_chain catalog (Some leaf) of
      Inr chain \<Rightarrow> inheritance_chain (cat_documents catalog) leaf chain
        \<and> (\<forall>other. inheritance_chain (cat_documents catalog) leaf other \<longrightarrow> other = chain)
    | Inl e \<Rightarrow> (\<nexists>chain. inheritance_chain (cat_documents catalog) leaf chain)
        \<and> (\<exists>d. e = Diagnosed d \<and> diag_status d = CONFIT_ERR_SCHEMA)"
proof (cases "confit_v2_input_catalog_build_chain catalog (Some leaf)")
  case (Inl e)
  with build_chain_outcome [OF assms, of leaf] show ?thesis by simp
next
  case (Inr chain)
  then have "inheritance_chain (cat_documents catalog) leaf other \<longleftrightarrow> other = chain" for other
    using build_chain_outcome(1) [OF assms, of leaf other] by auto
  with Inr show ?thesis by simp
qed

section \<open>Examples\<close>

definition sample_set :: v2_symbol where
  "sample_set = (sample_symbol ''a.s'' OPTION_ENUM_SET None)\<lparr>sym_values := [''x'', ''y'', ''z'']\<rparr>"

lemma sample_set_facts: "range_typed sample_set" "cstring_value (V_String_List [''z'', ''x''])"
  "sym_type sample_set = OPTION_ENUM_SET" "\<not> range_is_set (sym_range sample_set)"
  by (simp_all add: range_typed_def cstring_value_def is_cstring_def sample_set_def sample_symbol_def)

lemma validate_value_exact_witness:
  "confit_v2_ledger_validate_value sample_set (V_String_List [''z'', ''x'']) None 1 1
    = Inr (V_String_List [''x'', ''z''])"
proof -
  have "value_allowed sample_set (V_String_List [''z'', ''x''])"
    "canonical_value sample_set (V_String_List [''z'', ''x'']) = V_String_List [''x'', ''z'']"
    by code_simp+
  then show ?thesis by (simp add: validate_value_exact [OF sample_set_facts(1,2)])
qed

lemma enum_set_canonical_witness:
  "set [''z'', ''x''] = set [''x'', ''z''] \<and>
   confit_v2_ledger_validate_value sample_set (V_String_List [''x'', ''z'']) None 1 1
    = Inr (V_String_List [''x'', ''z''])"
proof -
  have "confit_v2_ledger_validate_value sample_set (V_String_List [''z'', ''x'']) None 1 1 = Inr (V_String_List [''x'', ''z''])"
    "confit_v2_ledger_validate_value sample_set (V_String_List [''x'', ''z'']) None 1 1 = Inr (V_String_List [''x'', ''z''])"
    by code_simp+
  from enum_set_canonical [OF sample_set_facts(3,4) this] show ?thesis by simp
qed

definition sample_document :: "string \<Rightarrow> string option \<Rightarrow> input_document" where
  "sample_document name base =
     \<lparr>doc_name = name, doc_base = base, doc_target = None, doc_target_line = 0, doc_target_column = 0,
      doc_path = name @ ''.toml'', doc_assignments = []\<rparr>"

definition sample_catalog :: input_catalog where
  "sample_catalog = \<lparr>cat_kind = KIND_PROFILE,
     cat_documents = [sample_document ''debug'' (Some ''base''), sample_document ''base'' None]\<rparr>"

lemma build_chain_exact_witness:
  "inheritance_chain (cat_documents sample_catalog) ''debug''
     [sample_document ''base'' None, sample_document ''debug'' (Some ''base'')]"
proof -
  have "distinct (map doc_name (cat_documents sample_catalog))" by code_simp
  moreover have "confit_v2_input_catalog_build_chain sample_catalog (Some ''debug'')
    = Inr [sample_document ''base'' None, sample_document ''debug'' (Some ''base'')]" by code_simp
  ultimately show ?thesis using build_chain_exact [of sample_catalog "''debug''"] by simp
qed

end
