(* ===== verification/Ledger_Winners.thy ===== *)
theory Ledger_Winners
  imports Ledger Inputs_Correct "HOL-Library.Product_Lexorder" "HOL-Library.Option_ord"
begin

text \<open>
  Sorting and marking: the comparison of entries is the order of a key, the marking of a sorted
  ledger makes the last entry of each option its winner, and the search for a requested entry
  finds that winner.
\<close>

section \<open>The order of entries\<close>

type_synonym entry_position = "(string \<times> nat \<times> nat) option"

definition entry_position :: "ledger_entry \<Rightarrow> entry_position" where
  "entry_position e = map_option (\<lambda>path. (path, le_source_line e, le_source_column e)) (le_source_path e)"

definition entry_key :: "ledger_entry \<Rightarrow> string \<times> nat \<times> nat \<times> nat \<times> nat \<times> entry_position" where
  "entry_key e = (sym_id (le_symbol e), le_precedence e, domain_number (le_domain e), le_declaration_order e,
     origin_number (le_origin e), entry_position e)"

lemma number_compare_le:
  "number_compare a b rest \<le> 0 \<longleftrightarrow> a < b \<or> a = b \<and> rest \<le> 0"
  by (auto simp: number_compare_def)

lemma position_compare_le: "position_compare l r \<le> 0 \<longleftrightarrow> entry_position l \<le> entry_position r"
  by (auto simp: position_compare_def entry_position_def number_compare_le strcmp_eq strcmp_le split: option.split)

lemma entry_compare_key: "compares entry_key confit_v2_ledger_entry_compare"
  unfolding compares_def
proof (intro allI)
  fix l r
  show "confit_v2_ledger_entry_compare l r \<le> 0 \<longleftrightarrow> entry_key l \<le> entry_key r"
  proof (cases "sym_id (le_symbol l) = sym_id (le_symbol r)")
    case True
    then show ?thesis
      unfolding confit_v2_ledger_entry_compare_def entry_key_def
      by (simp add: strcmp_eq number_compare_le position_compare_le) auto
  next
    case False
    then show ?thesis
      unfolding confit_v2_ledger_entry_compare_def entry_key_def
      by (simp add: strcmp_eq strcmp_le less_le) blast
  qed
qed

abbreviation entry_id :: "ledger_entry \<Rightarrow> string" where
  "entry_id e \<equiv> sym_id (le_symbol e)"

definition entries_of :: "string \<Rightarrow> ledger_entry list \<Rightarrow> ledger_entry list" where
  "entries_of name entries = filter (\<lambda>e. entry_id e = name) entries"

text \<open>The entries in the order of their collection rank: of two entries of one option the later has the
  higher precedence, or the same and the higher declaration order, and the same domain.\<close>

definition outranks :: "ledger_entry \<Rightarrow> ledger_entry \<Rightarrow> bool" where
  "outranks f e \<longleftrightarrow>
     le_domain e = le_domain f
     \<and> (le_precedence e < le_precedence f
        \<or> le_precedence e = le_precedence f \<and> le_declaration_order e < le_declaration_order f)"

definition ranked :: "ledger_entry list \<Rightarrow> bool" where
  "ranked entries \<longleftrightarrow> sorted_wrt (\<lambda>e f. entry_id e = entry_id f \<longrightarrow> outranks f e) entries"

lemma ranked_append:
  "ranked (xs @ ys) \<longleftrightarrow> ranked xs \<and> ranked ys
     \<and> (\<forall>e\<in>set xs. \<forall>f\<in>set ys. entry_id e = entry_id f \<longrightarrow> outranks f e)"
  by (auto simp: ranked_def sorted_wrt_append)

lemma ranked_entries_of: "ranked entries \<Longrightarrow> sorted_wrt (\<lambda>e f. outranks f e) (entries_of name entries)"
proof (induction entries)
  case (Cons e es)
  then show ?case by (auto simp: ranked_def entries_of_def)
qed (simp add: entries_of_def)

lemma qsort_entries_of:
  assumes "ranked entries"
  shows "entries_of name (qsort_by confit_v2_ledger_entry_compare entries) = entries_of name entries"
proof -
  have "sorted (map entry_key (entries_of name entries))"
    unfolding sorted_map
  proof (rule sorted_wrt_mono_rel [OF _ ranked_entries_of [OF assms]])
    fix e f assume "e \<in> set (entries_of name entries)" "f \<in> set (entries_of name entries)" "outranks f e"
    then show "entry_key e \<le> entry_key f" by (auto simp: entries_of_def outranks_def entry_key_def)
  qed
  then show ?thesis
    by (simp add: qsort_by_sort_key [OF entry_compare_key] entries_of_def filter_sort sort_key_id_if_sorted)
qed

lemma qsort_entries_sorted: "sorted (map entry_id (qsort_by confit_v2_ledger_entry_compare entries))"
  using sorted_qsort_by [OF entry_compare_key, of entries] unfolding sorted_map
  by (rule sorted_wrt_mono_rel [rotated]) (auto simp: entry_key_def)

section \<open>Marking\<close>

definition marked_group :: "ledger_entry list \<Rightarrow> ledger_entry list" where
  "marked_group es = (if es = [] then [] else
     map (\<lambda>f. f\<lparr>le_wins := False\<rparr>) (butlast es) @ [(last es)\<lparr>le_wins := True\<rparr>])"

definition unmarked :: "ledger_entry \<Rightarrow> ledger_entry" where
  "unmarked e = e\<lparr>le_wins := False\<rparr>"

lemma same_option_iff: "same_option e f \<longleftrightarrow> entry_id f = entry_id e"
  by (auto simp: same_option_def strcmp_eq)

lemma no_ambiguous_entry:
  "sorted_wrt (\<lambda>e f. outranks f e) es \<Longrightarrow> ambiguous_entry es = None"
  by (induction es rule: ambiguous_entry.induct) (auto simp: outranks_def)

lemma marked_group_map: "map unmarked (marked_group es) = map unmarked es"
  by (cases es rule: rev_cases) (simp_all add: marked_group_def unmarked_def o_def)

lemma entries_of_same_ids:
  "map unmarked xs = map unmarked ys \<Longrightarrow> map unmarked (entries_of name xs) = map unmarked (entries_of name ys)"
proof (induction xs arbitrary: ys)
  case (Cons x xs)
  then obtain y zs where ys: "ys = y # zs" "unmarked x = unmarked y" "map unmarked xs = map unmarked zs" by auto
  from arg_cong [OF ys(2), of le_symbol] have "le_symbol x = le_symbol y" by (simp add: unmarked_def)
  then show ?case using ys(1,2) Cons.IH [OF ys(3)] unfolding entries_of_def by simp
qed (simp add: entries_of_def)

lemma entry_id_wins [simp]: "entry_id (e\<lparr>le_wins := b\<rparr>) = entry_id e"
  by simp

lemma entries_of_append: "entries_of name (xs @ ys) = entries_of name xs @ entries_of name ys"
  by (simp add: entries_of_def)

lemma entries_of_uniform:
  "(\<And>e. e \<in> set es \<Longrightarrow> entry_id e = a) \<Longrightarrow> entries_of name es = (if name = a then es else [])"
  by (induction es) (auto simp: entries_of_def)

lemma entry_id_marked_group: "e \<in> set (marked_group es) \<Longrightarrow> \<exists>f\<in>set es. entry_id e = entry_id f"
  by (cases es rule: rev_cases) (auto simp: marked_group_def)

lemma entries_of_marked_group:
  "\<forall>e\<in>set es. entry_id e = a \<Longrightarrow> entries_of name (marked_group es) = (if name = a then marked_group es else [])"
  by (rule entries_of_uniform) (use entry_id_marked_group in fastforce)

lemma mark_groups_result:
  "sorted (map entry_id es) \<Longrightarrow> (\<And>name. ambiguous_entry (entries_of name es) = None) \<Longrightarrow>
   \<exists>r. mark_groups es = Inr r \<and> map unmarked r = map unmarked es
     \<and> (\<forall>name. entries_of name r = marked_group (entries_of name es))"
proof (induction es rule: mark_groups.induct)
  case 1
  then show ?case by (simp add: entries_of_def marked_group_def)
next
  case (2 e es)
  let ?a = "entry_id e"
  let ?same = "e # takeWhile (same_option e) es" and ?rest = "dropWhile (same_option e) es"
  have split: "e # es = ?same @ ?rest" by simp
  have same_a: "\<forall>f\<in>set ?same. entry_id f = ?a"
    using set_takeWhileD by (fastforce simp: same_option_iff)
  have rest_a: "\<forall>f\<in>set ?rest. entry_id f \<noteq> ?a"
  proof
    fix f assume f: "f \<in> set ?rest"
    then obtain g gs where g: "?rest = g # gs" by (cases ?rest) auto
    then have "entry_id g \<noteq> ?a" by (metis dropWhile_eq_Cons_conv same_option_iff)
    moreover have s: "sorted (map entry_id (?same @ ?rest))" using 2(2) by (simp only: split [symmetric])
    then have "entry_id e \<le> entry_id g" using g by (auto simp: sorted_append)
    moreover have "entry_id g \<le> entry_id f" using s f g by (auto simp: sorted_append)
    ultimately show "entry_id f \<noteq> ?a" by simp
  qed
  have parts: "entries_of name ?same = (if name = ?a then ?same else [])" for name
    by (rule entries_of_uniform) (use same_a in blast)
  have rest: "entries_of ?a ?rest = []" using rest_a by (auto simp: entries_of_def filter_empty_conv)
  have whole: "entries_of name (e # es) = entries_of name ?same @ entries_of name ?rest" for name
    unfolding split entries_of_append by (rule refl)
  have of_a: "entries_of ?a (e # es) = ?same" unfolding whole parts rest by simp
  have of_other: "entries_of name (e # es) = entries_of name ?rest" if "name \<noteq> ?a" for name
    unfolding whole parts using that by simp
  have clear: "ambiguous_entry ?same = None" using 2(3) [of ?a] of_a by simp
  have rest_clear: "ambiguous_entry (entries_of name ?rest) = None" for name
  proof (cases "name = ?a")
    case True
    then have "entries_of name ?rest = []" using rest_a by (auto simp: entries_of_def filter_empty_conv)
    then show ?thesis by simp
  qed (use 2(3) [of name] of_other in simp)
  have "sorted (map entry_id (?same @ ?rest))" using 2(2) by (simp only: split [symmetric])
  then have "sorted (map entry_id ?rest)" unfolding map_append sorted_append by blast
  from 2(1) [OF refl clear this rest_clear] obtain r where
    r: "mark_groups ?rest = Inr r" "map unmarked r = map unmarked ?rest"
      "\<And>name. entries_of name r = marked_group (entries_of name ?rest)" by blast
  have run: "mark_groups (e # es) = Inr (marked_group ?same @ r)"
    using clear r(1) by (simp add: marked_group_def Let_def)
  have un: "map unmarked (marked_group ?same @ r) = map unmarked (e # es)"
    unfolding split map_append r(2) marked_group_map by (rule refl)
  have "entries_of name (marked_group ?same @ r) = marked_group (entries_of name (e # es))" for name
  proof (cases "name = ?a")
    case True
    have "marked_group [] = []" by (simp add: marked_group_def)
    with True show ?thesis
      unfolding entries_of_append r(3) entries_of_marked_group [OF same_a] by (simp add: of_a rest)
  next
    case False
    then show ?thesis
      unfolding entries_of_append r(3) entries_of_marked_group [OF same_a] of_other [OF False] by simp
  qed
  with run un show ?case by blast
qed

section \<open>The requested entry\<close>

lemma ranked_marks:
  assumes "ranked entries"
  shows "\<exists>r. confit_v2_ledger_mark_winners entries = Inr r
    \<and> map unmarked r = map unmarked (qsort_by confit_v2_ledger_entry_compare entries)
    \<and> (\<forall>name. entries_of name r = marked_group (entries_of name entries))"
  using mark_groups_result [OF qsort_entries_sorted, of entries] ranked_entries_of [OF assms]
  by (simp add: confit_v2_ledger_mark_winners_def qsort_entries_of [OF assms] no_ambiguous_entry)

lemma unmarked_ids: "map unmarked xs = map unmarked ys \<Longrightarrow> map entry_id xs = map entry_id ys"
  by (drule arg_cong [of _ _ "map entry_id"]) (simp add: o_def unmarked_def)

lemma requested_filter:
  assumes "sorted (map entry_id (al_entries ledger))"
  shows "confit_v2_assignment_ledger_requested ledger name = find le_wins (entries_of name (al_entries ledger))"
  using drop_lower_bound [OF assms, of name]
  by (simp add: confit_v2_assignment_ledger_requested_def entries_of_def strcmp_less strcmp_eq)

lemma find_marked_group:
  "find le_wins (marked_group es) = (if es = [] then None else Some ((last es)\<lparr>le_wins := True\<rparr>))"
proof -
  have skip: "find le_wins (map (\<lambda>f. f\<lparr>le_wins := False\<rparr>) xs @ ys) = find le_wins ys" for xs ys
    by (induction xs) simp_all
  have "le_wins ((last es)\<lparr>le_wins := True\<rparr>)" by simp
  then show ?thesis unfolding marked_group_def by (simp only: skip find.simps if_True if_False split: if_split) simp
qed

lemma ranked_requested:
  assumes "ranked entries" "confit_v2_ledger_mark_winners entries = Inr (al_entries ledger)"
  shows "confit_v2_assignment_ledger_requested ledger name =
    (if entries_of name entries = [] then None else Some ((last (entries_of name entries))\<lparr>le_wins := True\<rparr>))"
proof -
  from ranked_marks [OF assms(1)] assms(2) have
    un: "map unmarked (al_entries ledger) = map unmarked (qsort_by confit_v2_ledger_entry_compare entries)"
    and of: "entries_of name (al_entries ledger) = marked_group (entries_of name entries)" by auto
  have "sorted (map entry_id (al_entries ledger))"
    using qsort_entries_sorted unfolding unmarked_ids [OF un] .
  from requested_filter [OF this] show ?thesis by (simp only: of find_marked_group)
qed

end
