(* ===== verification/Ledger_Correct.thy ===== *)
theory Ledger_Correct
  imports Ledger_Winners Compiled_Structure
begin

text \<open>
  What a ledger promises. The documents the loader hands out only assign options of their own
  write domain, each at most once, so the entries are collected in the order of their rank; then
  marking never meets an ambiguity, and the requested entry of an option is the lookup in the
  layers \<open>requested_layers\<close>: schema defaults, target documents, profile documents, the overrides of
  a profile transaction and those of the user, each layer hiding the ones before it.
\<close>

section \<open>Documents of a project\<close>

lemma failure_not_Inr [simp]:
  "confit_v2_ledger_diagnostic path line column st message \<noteq> Inr x"
  "at_value path source message \<noteq> Inr x"
  by (simp_all add: at_value_def confit_v2_ledger_diagnostic_def)

lemma document_failure_Inr [simp]: "document_failure path r = Inr d \<longleftrightarrow> r = Inr d"
  by (auto simp: document_failure_def split: sum.split input_stop.split)

definition kind_domain :: "input_kind \<Rightarrow> write_domain" where
  "kind_domain kind = (if kind = KIND_PROFILE then DOMAIN_PROFILE else DOMAIN_TARGET)"

definition assignments_ok :: "v2_project \<Rightarrow> input_kind \<Rightarrow> input_assignment list \<Rightarrow> bool" where
  "assignments_ok p kind as \<longleftrightarrow>
     (\<forall>a\<in>set as. ia_symbol a \<in> set (project_symbols p) \<and> sym_write_domain (ia_symbol a) = kind_domain kind
        \<and> (ia_is_unset a \<longleftrightarrow> ia_value a = V_Unset))
     \<and> distinct (map ia_symbol as) \<and> map ia_declaration_order as = [0..<length as]"

definition document_ok :: "v2_project \<Rightarrow> input_kind \<Rightarrow> input_document \<Rightarrow> bool" where
  "document_ok p kind d \<longleftrightarrow> assignments_ok p kind (doc_assignments d)"

lemma linked_parts:
  assumes "confit_v2_schema_link_project p = Inr linked"
  shows "lp_project linked = p" "distinct (map sym_id (project_symbols p))"
proof -
  show "lp_project linked = p" using assms by (rule link_project_cases) simp
  have "sorted_wrt (<) (map sym_id (lp_symbols linked))" using linked_project_ok [OF assms] by (simp add: linked_ok_def)
  then have "distinct (map sym_id (lp_symbols linked))" using strict_sorted_iff by blast
  moreover have "lp_symbols linked = sort_key sym_id (project_symbols p)" using assms by (rule link_project_cases) simp
  ultimately show "distinct (map sym_id (project_symbols p))" by (simp add: distinct_map)
qed

text \<open>A value that was validated is not the unset value.\<close>

lemma validated_value_set:
  "confit_v2_ledger_validate_value symbol v path line column = Inr w \<Longrightarrow> w \<noteq> V_Unset"
proof -
  assume a: "confit_v2_ledger_validate_value symbol v path line column = Inr w"
  then have shape: "value_shape_ok symbol v" and s: "enum_set_sorted symbol v = Some w"
    by (auto simp: confit_v2_ledger_validate_value_def confit_v2_ledger_diagnostic_def bind_simps Let_def
        split: if_splits option.splits)
  from shape have "v \<noteq> V_Unset"
    by (cases "sym_type symbol") (auto simp: value_shape_ok_def type_descriptors)
  with s show "w \<noteq> V_Unset" by (auto simp: enum_set_sorted_def split: v2_value.splits if_splits)
qed

lemma parsed_value_set: "confit_v2_ledger_parse_toml_value symbol source = Inr w \<Longrightarrow> w \<noteq> V_Unset"
  using validated_value_set
  by (fastforce simp: confit_v2_ledger_parse_toml_value_def at_value_def confit_v2_ledger_diagnostic_def Let_def
      split: if_splits option.splits)

lemma writer_domain:
  assumes "confit_v2_schema_link_project p = Inr linked"
    and "confit_v2_input_validate_writer linked kind symbol path line column is_unset = Inr u"
    and "symbol \<in> set (project_symbols p)"
  shows "sym_write_domain symbol = kind_domain kind"
proof -
  let ?r = "\<lparr>wr_option_id = sym_id symbol, wr_writer = (if kind = KIND_PROFILE then WRITER_PROFILE else WRITER_TARGET),
      wr_is_unset = is_unset,
      wr_span = \<lparr>span_path = Some path, span_line = line, span_column = column, span_local_offset = 0\<rparr>\<rparr>"
  from assms(2) have "confit_v2_linked_project_validate_write linked ?r = Inr ()"
    by (auto simp: confit_v2_input_validate_writer_def diagnosed_def bind_simps split: sum.splits)
  with validate_write_outcome [OF assms(1), of ?r] obtain s where
    s: "s \<in> set (project_symbols p)" "sym_id s = sym_id symbol" "wr_writer ?r \<in> accepted_writers s" by auto
  then have "s = symbol" using linked_parts(2) [OF assms(1)] assms(3) by (auto simp: distinct_map dest: inj_onD)
  with s(3) show ?thesis
    by (cases kind; cases "sym_write_domain symbol") (auto simp: accepted_writers_iff writer_allowed_def kind_domain_def)
qed

lemma append_assignment_ok:
  assumes "confit_v2_input_append_assignment symbol v line column d = Inr d'" "document_ok p kind d"
    and "symbol \<in> set (project_symbols p)" "sym_write_domain symbol = kind_domain kind" "v \<noteq> Some V_Unset"
  shows "document_ok p kind d'"
  using assms
  by (auto simp: confit_v2_input_append_assignment_def document_ok_def assignments_ok_def
      confit_v2_ledger_diagnostic_def list_ex_iff split: if_splits option.splits)

lemma value_entry_ok:
  assumes "confit_v2_schema_link_project p = Inr linked"
    and "input_value_entry linked kind entry d = Inr d'" "document_ok p kind d"
  shows "document_ok p kind d'"
proof -
  obtain key source where e: "entry = (key, source)" by (cases entry)
  from assms(2) obtain symbol v where
    s: "confit_v2_linked_project_find_symbol linked (c_text key) = Some symbol"
    and w: "confit_v2_input_validate_writer linked kind symbol (doc_path d) (confit_v2_toml_value_line source)
       (confit_v2_toml_value_column source) False = Inr ()"
    and v: "confit_v2_ledger_parse_toml_value symbol source = Inr v"
    and a: "confit_v2_input_append_assignment symbol (Some v) (confit_v2_toml_value_line source)
       (confit_v2_toml_value_column source) d = Inr d'"
    by (auto simp: input_value_entry_def e Let_def at_value_def confit_v2_ledger_diagnostic_def bind_simps
        split: option.splits)
  from s have "symbol \<in> set (project_symbols p)" using linked_find_symbol [OF assms(1)] by simp
  from append_assignment_ok [OF a assms(3) this writer_domain [OF assms(1) w this]] parsed_value_set [OF v]
  show ?thesis by simp
qed

lemma unset_item_ok:
  assumes "confit_v2_schema_link_project p = Inr linked"
    and "input_unset_item linked kind item d = Inr d'" "document_ok p kind d"
  shows "document_ok p kind d'"
proof -
  from assms(2) obtain name symbol where
    s: "confit_v2_linked_project_find_symbol linked (c_text name) = Some symbol"
    and w: "confit_v2_input_validate_writer linked kind symbol (doc_path d) (confit_v2_toml_value_line item)
       (confit_v2_toml_value_column item) True = Inr ()"
    and a: "confit_v2_input_append_assignment symbol None (confit_v2_toml_value_line item)
       (confit_v2_toml_value_column item) d = Inr d'"
    by (auto simp: input_unset_item_def Let_def at_value_def confit_v2_ledger_diagnostic_def bind_simps
        split: option.splits if_splits)
  from s have "symbol \<in> set (project_symbols p)" using linked_find_symbol [OF assms(1)] by simp
  from append_assignment_ok [OF a assms(3) this writer_domain [OF assms(1) w this]] show ?thesis by simp
qed

lemma parse_document_ok:
  assumes "confit_v2_schema_link_project p = Inr linked"
    and "confit_v2_input_parse_document services linked kind path = Inr d"
  shows "document_ok p kind d"
proof -
  have start: "document_ok p kind d0" if "doc_assignments d0 = []" for d0 :: input_document
    using that by (simp add: document_ok_def assignments_ok_def)
  have values_ok: "document_ok p kind d2"
    if "confit_v2_input_parse_values linked kind entries d1 = Inr d2" "document_ok p kind d1" for entries d1 d2
    using that value_entry_ok [OF assms(1)]
      fold_res_invariant [of "input_value_entry linked kind" _ d1 d2 "document_ok p kind"]
    by (auto simp: confit_v2_input_parse_values_def at_value_def confit_v2_ledger_diagnostic_def
        split: option.splits if_splits)
  have unset_ok: "document_ok p kind d2"
    if "confit_v2_input_parse_unset linked kind entries d1 = Inr d2" "document_ok p kind d1" for entries d1 d2
    using that unset_item_ok [OF assms(1)]
      fold_res_invariant [of "input_unset_item linked kind" _ d1 d2 "document_ok p kind"]
    by (auto simp: confit_v2_input_parse_unset_def at_value_def confit_v2_ledger_diagnostic_def
        split: option.splits if_splits)
  have body: "document_ok p kind d2"
    if "parse_document_body linked kind path root section_table name = Inr d2" for root section_table name d2
    using that start values_ok unset_ok
    by (fastforce simp: parse_document_body_def bind_simps at_value_def confit_v2_ledger_diagnostic_def Let_def
        split: if_splits)
  from assms(2) obtain root where
    run: "(case confit_v2_toml_table_find root (section_name kind) of
         None \<Rightarrow> at_value (Some path) root kInvalidInputDocument
       | Some section_table \<Rightarrow>
           if \<not> confit_v2_input_table_only section_table (section_fields kind)
           then at_value (Some path) root kInvalidInputDocument
           else
             let missing = at_value (Some path) section_table kMissingInputField
             in case (confit_v2_toml_table_find section_table ''name'',
                      confit_v2_toml_table_find section_table ''schema_version'') of
                  (Some name_field, Some version_field) \<Rightarrow>
                    (case (confit_v2_toml_value_string name_field, confit_v2_toml_value_int64 version_field) of
                       (Some name, Some version) \<Rightarrow>
                         if length name = 0 \<or> version \<noteq> 2 then missing
                         else document_failure path (parse_document_body linked kind path root section_table name)
                     | _ \<Rightarrow> missing)
                | _ \<Rightarrow> missing) = Inr d"
    unfolding confit_v2_input_parse_document_def bind_res_eq_Inr by blast
  obtain st where st: "confit_v2_toml_table_find root (section_name kind) = Some st"
    using run by (cases "confit_v2_toml_table_find root (section_name kind)") simp_all
  obtain nf vf where f: "confit_v2_toml_table_find st ''name'' = Some nf" "confit_v2_toml_table_find st ''schema_version'' = Some vf"
    using run st by (cases "confit_v2_toml_table_find st ''name''"; cases "confit_v2_toml_table_find st ''schema_version''")
      (simp_all split: if_split_asm)
  obtain name version where "confit_v2_toml_value_string nf = Some name" "confit_v2_toml_value_int64 vf = Some version"
    using run st f by (cases "confit_v2_toml_value_string nf"; cases "confit_v2_toml_value_int64 vf")
      (simp_all split: if_split_asm)
  with run st f have "parse_document_body linked kind path root st name = Inr d"
    by (simp add: Let_def split: if_split_asm)
  then show ?thesis by (rule body)
qed

definition catalog_ok :: "v2_project \<Rightarrow> input_kind \<Rightarrow> input_document list \<Rightarrow> bool" where
  "catalog_ok p kind documents \<longleftrightarrow> (\<forall>d\<in>set documents. document_ok p kind d) \<and> distinct (map doc_name documents)"

lemma catalog_load_ok:
  assumes "confit_v2_schema_link_project p = Inr linked"
    and "confit_v2_input_catalog_load services linked kind = Inr catalog"
  shows "catalog_ok p kind (cat_documents catalog)"
proof -
  have add_file: "catalog_ok p kind ds'"
    if "catalog_add_file services linked kind path ds = Inr ds'" "catalog_ok p kind ds" for path ds ds'
    using that parse_document_ok [OF assms(1)]
    by (auto simp: catalog_add_file_def bind_simps catalog_ok_def list_ex_iff strcmp_eq split: if_splits) blast
  have add_directory: "catalog_ok p kind ds'"
    if "catalog_add_directory services linked kind directory ds = Inr ds'" "catalog_ok p kind ds" for directory ds ds'
    using that add_file fold_res_invariant [of "catalog_add_file services linked kind" _ ds ds' "catalog_ok p kind"]
    by (auto simp: catalog_add_directory_def bind_simps)
  from assms(2) obtain dirs where
    "fold_res (catalog_add_directory services linked kind) dirs [] = Inr (cat_documents catalog)"
    by (auto simp: confit_v2_input_catalog_load_def bind_simps)
  from fold_res_invariant [OF this, of "catalog_ok p kind"] add_directory show ?thesis by (auto simp: catalog_ok_def)
qed

lemma chain_documents_ok:
  assumes "catalog_ok p kind (cat_documents catalog)" "confit_v2_input_catalog_build_chain catalog name = Inr chain"
  shows "\<forall>d\<in>set chain. document_ok p kind d"
proof (cases name)
  case None
  with assms(2) show ?thesis by (simp add: confit_v2_input_catalog_build_chain_def)
next
  case (Some leaf)
  have "distinct (map doc_name (cat_documents catalog))" using assms(1) by (simp add: catalog_ok_def)
  from build_chain_outcome(1) [OF this] assms Some show ?thesis
    by (auto simp: inheritance_chain_def catalog_ok_def)
qed

section \<open>Collected entries\<close>

fun default_entries :: "nat \<Rightarrow> v2_symbol list \<Rightarrow> ledger_entry list" where
  "default_entries i [] = []"
| "default_entries i (symbol # symbols) =
     (if sym_write_domain symbol = DOMAIN_COMPUTED \<or> \<not> assign_is_set (sym_default_value symbol) then []
      else let span = assign_span (sym_default_value symbol)
           in confit_v2_ledger_append symbol (Some (assign_value (sym_default_value symbol))) ORIGIN_SCHEMA_DEFAULT False
                PRECEDENCE_SCHEMA_DEFAULT i (span_path span) (span_line span) (span_column span) [])
     @ default_entries (i + 1) symbols"

lemma add_schema_defaults_entries: "add_schema_defaults_loop i symbols entries = entries @ default_entries i symbols"
  by (induction symbols arbitrary: i entries) (simp_all add: confit_v2_ledger_append_def Let_def)

definition assignment_entry :: "assignment_origin \<Rightarrow> nat \<Rightarrow> input_document \<Rightarrow> input_assignment \<Rightarrow> ledger_entry" where
  "assignment_entry origin chain_index document a =
     hd (confit_v2_ledger_append (ia_symbol a) (if ia_is_unset a then None else Some (ia_value a))
             (if ia_is_unset a then ORIGIN_UNSET else origin) (ia_is_unset a) PRECEDENCE_DOMAIN
             (chain_index * 1000000 + ia_declaration_order a) (Some (doc_path document)) (ia_line a) (ia_column a) [])"

fun chain_entries :: "assignment_origin \<Rightarrow> nat \<Rightarrow> input_document list \<Rightarrow> ledger_entry list" where
  "chain_entries origin k [] = []"
| "chain_entries origin k (d # ds) = map (assignment_entry origin k d) (doc_assignments d) @ chain_entries origin (Suc k) ds"

lemma chain_add_assignment_entry:
  "chain_add_assignment origin k d a entries = Inr r \<Longrightarrow>
     r = entries @ [assignment_entry origin k d a] \<and> ia_declaration_order a < 1000000"
  by (auto simp: chain_add_assignment_def assignment_entry_def confit_v2_ledger_append_def split: if_splits)

lemma chain_add_document:
  "fold_res (chain_add_assignment origin k d) as entries = Inr r \<Longrightarrow>
     r = entries @ map (assignment_entry origin k d) as \<and> (\<forall>a\<in>set as. ia_declaration_order a < 1000000)"
proof (induction as arbitrary: entries)
  case (Cons a as)
  then obtain mid where mid: "chain_add_assignment origin k d a entries = Inr mid"
    "fold_res (chain_add_assignment origin k d) as mid = Inr r" by (auto simp: bind_simps)
  from chain_add_assignment_entry [OF mid(1)] Cons.IH [OF mid(2)] show ?case by simp
qed simp

lemma add_input_chain_entries:
  "add_input_chain_loop origin k ds entries = Inr r \<Longrightarrow>
     r = entries @ chain_entries origin k ds \<and> (\<forall>d\<in>set ds. \<forall>a\<in>set (doc_assignments d). ia_declaration_order a < 1000000)"
proof (induction ds arbitrary: k entries)
  case (Cons d ds)
  then obtain mid where mid: "fold_res (chain_add_assignment origin k d) (doc_assignments d) entries = Inr mid"
    "add_input_chain_loop origin (Suc k) ds mid = Inr r" by (auto simp: bind_simps)
  from chain_add_document [OF mid(1)] Cons.IH [OF mid(2)] show ?case by simp
qed simp

text \<open>The value an override stands for.\<close>

definition override_symbol :: "linked_project \<Rightarrow> raw_override \<Rightarrow> v2_symbol option" where
  "override_symbol linked override = (case ov_option_id override of
     None \<Rightarrow> None | Some name \<Rightarrow> confit_v2_linked_project_find_symbol linked name)"

definition override_value :: "toml_parser \<Rightarrow> linked_project \<Rightarrow> raw_override \<Rightarrow> v2_value option" where
  "override_value toml_parse_named linked override =
     (case (override_symbol linked override, ov_value_text override) of
        (Some symbol, Some value_text) \<Rightarrow>
          (case confit_v2_ledger_parse_user_value toml_parse_named symbol value_text of Inr v \<Rightarrow> Some v | Inl e \<Rightarrow> None)
      | _ \<Rightarrow> None)"

definition override_entry ::
  "toml_parser \<Rightarrow> linked_project \<Rightarrow> assignment_origin \<Rightarrow> nat \<Rightarrow> string \<Rightarrow> nat \<Rightarrow> raw_override \<Rightarrow> ledger_entry" where
  "override_entry toml_parse_named linked origin precedence label i override =
     hd (append_override (the (override_symbol linked override)) (the (override_value toml_parse_named linked override))
           origin precedence i label override [])"

fun override_entries ::
  "toml_parser \<Rightarrow> linked_project \<Rightarrow> assignment_origin \<Rightarrow> nat \<Rightarrow> string \<Rightarrow> nat \<Rightarrow> raw_override list \<Rightarrow> ledger_entry list" where
  "override_entries toml_parse_named linked origin precedence label i [] = []"
| "override_entries toml_parse_named linked origin precedence label i (override # overrides) =
     override_entry toml_parse_named linked origin precedence label i override
     # override_entries toml_parse_named linked origin precedence label (Suc i) overrides"

definition override_accepted :: "toml_parser \<Rightarrow> linked_project \<Rightarrow> raw_override \<Rightarrow> bool" where
  "override_accepted toml_parse_named linked override \<longleftrightarrow>
     override_symbol linked override \<noteq> None \<and> override_value toml_parse_named linked override \<noteq> None"

lemma override_arguments_Inr:
  "override_arguments duplicate earlier override = Inr (name, value_text) \<Longrightarrow>
     ov_option_id override = Some name \<and> ov_value_text override = Some value_text
     \<and> ov_option_id override \<notin> ov_option_id ` set earlier"
proof -
  assume a: "override_arguments duplicate earlier override = Inr (name, value_text)"
  then have o: "ov_option_id override = Some name" "ov_value_text override = Some value_text"
    and e: "\<not> list_ex (\<lambda>e. case ov_option_id e of None \<Rightarrow> False | Some n \<Rightarrow> strcmp n name = 0) earlier"
    by (auto simp: override_arguments_def split: option.splits if_splits)
  from e have "Some name \<noteq> ov_option_id f" if "f \<in> set earlier" for f
    using that by (auto simp: list_ex_iff strcmp_eq split: option.splits)
  with o show ?thesis by auto
qed

lemma unknown_write_rejected:
  "confit_v2_linked_project_find_symbol linked (wr_option_id request) = None \<Longrightarrow>
     confit_v2_linked_project_validate_write linked request \<noteq> Inr u"
  by (simp add: confit_v2_linked_project_validate_write_def confit_v2_linked_project_find_symbol_def)

lemma diagnosed_Inr [simp]: "diagnosed r = Inr x \<longleftrightarrow> r = Inr x"
  by (cases r) (simp_all add: diagnosed_def)

lemma add_user_overrides_entries:
  "add_user_overrides_loop parser linked earlier os entries = Inr r \<Longrightarrow> distinct (map ov_option_id earlier) \<Longrightarrow>
     r = entries @ override_entries parser linked ORIGIN_USER PRECEDENCE_USER ''cli --set'' (length earlier) os
     \<and> (\<forall>o'\<in>set os. override_accepted parser linked o') \<and> distinct (map ov_option_id (earlier @ os))"
proof (induction os arbitrary: earlier entries)
  case (Cons o' os)
  from Cons.prems(1) obtain name value_text where
    args: "override_arguments ''duplicate schema v2 user override'' earlier o' = Inr (name, value_text)"
    by (auto simp: bind_simps)
  note run = Cons.prems(1) [simplified add_user_overrides_loop.simps args bind_res_Inr prod.case Let_def]
  from override_arguments_Inr [OF args] have
    o: "ov_option_id o' = Some name" "ov_value_text o' = Some value_text" "ov_option_id o' \<notin> ov_option_id ` set earlier" by auto
  show ?case
  proof (cases "confit_v2_linked_project_find_symbol linked name")
    case None
    with run unknown_write_rejected [of linked "override_request WRITER_USER o' name"] show ?thesis
      by (auto simp: bind_simps override_request_def)
  next
    case (Some symbol)
    with run obtain v where v: "confit_v2_ledger_parse_user_value parser symbol value_text = Inr v"
      and step: "add_user_overrides_loop parser linked (earlier @ [o']) os
        (append_override symbol v ORIGIN_USER PRECEDENCE_USER (length earlier) ''cli --set'' o' entries) = Inr r"
      by (auto simp: bind_simps)
    have s: "override_symbol linked o' = Some symbol" "override_value parser linked o' = Some v"
      using o Some v by (simp_all add: override_symbol_def override_value_def)
    from Cons.IH [OF step] Cons.prems(2) o(3) s show ?thesis
      by (simp add: override_entry_def append_override_def confit_v2_ledger_append_def override_accepted_def Let_def)
  qed
qed simp

lemma add_profile_overrides_entries:
  "add_profile_overrides_loop parser linked earlier os entries = Inr r \<Longrightarrow> distinct (map ov_option_id earlier) \<Longrightarrow>
     r = entries @ override_entries parser linked ORIGIN_PROFILE PRECEDENCE_PROFILE_TRANSACTION
           ''tui profile transaction'' (length earlier) os
     \<and> (\<forall>o'\<in>set os. override_accepted parser linked o') \<and> distinct (map ov_option_id (earlier @ os))"
proof (induction os arbitrary: earlier entries)
  case (Cons o' os)
  from Cons.prems(1) obtain name value_text where
    args: "override_arguments ''duplicate schema v2 profile transaction assignment'' earlier o' = Inr (name, value_text)"
    by (auto simp: bind_simps)
  note run = Cons.prems(1) [simplified add_profile_overrides_loop.simps args bind_res_Inr prod.case Let_def]
  from override_arguments_Inr [OF args] have
    o: "ov_option_id o' = Some name" "ov_value_text o' = Some value_text" "ov_option_id o' \<notin> ov_option_id ` set earlier" by auto
  from run obtain symbol v where Some: "confit_v2_linked_project_find_symbol linked name = Some symbol"
    and v: "confit_v2_ledger_parse_user_value parser symbol value_text = Inr v"
    and step: "add_profile_overrides_loop parser linked (earlier @ [o']) os
      (append_override symbol v ORIGIN_PROFILE PRECEDENCE_PROFILE_TRANSACTION (length earlier)
         ''tui profile transaction'' o' entries) = Inr r"
    by (auto simp: bind_simps split: option.splits)
  have s: "override_symbol linked o' = Some symbol" "override_value parser linked o' = Some v"
    using o Some v by (simp_all add: override_symbol_def override_value_def)
  from Cons.IH [OF step] Cons.prems(2) o(3) s show ?case
    by (simp add: override_entry_def append_override_def confit_v2_ledger_append_def override_accepted_def Let_def)
qed simp

section \<open>The order of collection\<close>

text \<open>An entry of the project: its option is declared, and it carries the option's domain.\<close>

definition entry_ok :: "v2_project \<Rightarrow> ledger_entry \<Rightarrow> bool" where
  "entry_ok p e \<longleftrightarrow> le_symbol e \<in> set (project_symbols p) \<and> le_domain e = sym_write_domain (le_symbol e)"

lemma entry_ok_same:
  assumes "distinct (map sym_id (project_symbols p))" "entry_ok p e" "entry_ok p f" "entry_id e = entry_id f"
  shows "le_symbol e = le_symbol f" "le_domain e = le_domain f"
  using assms by (auto simp: entry_ok_def distinct_map dest: inj_onD)

lemma distinct_ids_ranked: "distinct (map entry_id es) \<Longrightarrow> ranked es"
  by (induction es) (auto simp: ranked_def)

lemma default_entries_symbols: "e \<in> set (default_entries i symbols) \<Longrightarrow> le_symbol e \<in> set symbols"
  by (induction symbols arbitrary: i) (auto simp: confit_v2_ledger_append_def Let_def split: if_splits)

lemma default_entries_parts:
  "set symbols \<subseteq> set (project_symbols p) \<Longrightarrow> e \<in> set (default_entries i symbols) \<Longrightarrow>
     entry_ok p e \<and> le_precedence e = PRECEDENCE_SCHEMA_DEFAULT \<and> le_origin e = ORIGIN_SCHEMA_DEFAULT
     \<and> le_symbol e \<in> set symbols"
  by (induction symbols arbitrary: i) (auto simp: confit_v2_ledger_append_def entry_ok_def Let_def split: if_splits)

lemma default_entries_ids: "distinct (map sym_id symbols) \<Longrightarrow> distinct (map entry_id (default_entries i symbols))"
proof (induction symbols arbitrary: i)
  case (Cons s ss)
  have "le_symbol e \<in> set ss" if "e \<in> set (default_entries (Suc i) ss)" for e
    using default_entries_symbols [OF that] .
  with Cons show ?case by (fastforce simp: confit_v2_ledger_append_def Let_def)
qed simp

lemma assignment_entry_sel:
  "le_symbol (assignment_entry origin k d a) = ia_symbol a"
  "le_precedence (assignment_entry origin k d a) = PRECEDENCE_DOMAIN"
  "le_domain (assignment_entry origin k d a) = sym_write_domain (ia_symbol a)"
  "le_declaration_order (assignment_entry origin k d a) = k * 1000000 + ia_declaration_order a"
  "le_origin (assignment_entry origin k d a) = (if ia_is_unset a then ORIGIN_UNSET else origin)"
  "le_value (assignment_entry origin k d a) = (if ia_is_unset a then V_Unset else ia_value a)"
  by (simp_all add: assignment_entry_def confit_v2_ledger_append_def)

lemma chain_entries_parts:
  assumes "\<forall>d\<in>set ds. document_ok p kind d" "\<forall>d\<in>set ds. \<forall>a\<in>set (doc_assignments d). ia_declaration_order a < 1000000"
    and "e \<in> set (chain_entries origin k ds)"
  shows "entry_ok p e \<and> le_precedence e = PRECEDENCE_DOMAIN \<and> le_domain e = kind_domain kind
    \<and> k * 1000000 \<le> le_declaration_order e"
  using assms
proof (induction ds arbitrary: k)
  case (Cons d ds)
  from Cons.prems(3) consider "e \<in> assignment_entry origin k d ` set (doc_assignments d)"
    | "e \<in> set (chain_entries origin (Suc k) ds)" by auto
  then show ?case
  proof cases
    case 1
    with Cons.prems(1) show ?thesis
      by (auto simp: assignment_entry_sel entry_ok_def document_ok_def assignments_ok_def)
  next
    case 2
    with Cons.IH [of "Suc k"] Cons.prems show ?thesis by auto
  qed
qed simp

lemma chain_entries_ranked:
  assumes "distinct (map sym_id (project_symbols p))"
  shows "\<forall>d\<in>set ds. document_ok p kind d \<Longrightarrow>
    \<forall>d\<in>set ds. \<forall>a\<in>set (doc_assignments d). ia_declaration_order a < 1000000 \<Longrightarrow> ranked (chain_entries origin k ds)"
proof (induction ds arbitrary: k)
  case (Cons d ds)
  let ?here = "map (assignment_entry origin k d) (doc_assignments d)"
  have ids: "distinct (map entry_id ?here)"
    using Cons.prems(1) assms
    by (auto simp: document_ok_def assignments_ok_def distinct_map o_def assignment_entry_sel inj_on_def)
  have "outranks f e" if "e \<in> set ?here" "f \<in> set (chain_entries origin (Suc k) ds)" "entry_id e = entry_id f" for e f
  proof -
    have f: "le_precedence f = PRECEDENCE_DOMAIN" "le_domain f = kind_domain kind" "Suc k * 1000000 \<le> le_declaration_order f"
      using chain_entries_parts [of ds p kind f origin "Suc k"] Cons.prems that(2) by auto
    from that(1) obtain a where a: "a \<in> set (doc_assignments d)" "e = assignment_entry origin k d a" by auto
    with Cons.prems have "ia_declaration_order a < 1000000" "le_domain e = kind_domain kind"
      by (auto simp: document_ok_def assignments_ok_def assignment_entry_sel)
    with a f show ?thesis by (simp add: outranks_def assignment_entry_sel)
  qed
  with distinct_ids_ranked [OF ids] Cons show ?case by (auto simp: ranked_append)
qed (simp add: ranked_def)

lemma override_entry_sel:
  "le_symbol (override_entry parser linked origin precedence label i o') = the (override_symbol linked o')"
  "le_precedence (override_entry parser linked origin precedence label i o') = precedence"
  "le_domain (override_entry parser linked origin precedence label i o') = sym_write_domain (the (override_symbol linked o'))"
  "le_origin (override_entry parser linked origin precedence label i o') = origin"
  "le_value (override_entry parser linked origin precedence label i o') = the (override_value parser linked o')"
  by (simp_all add: override_entry_def append_override_def confit_v2_ledger_append_def Let_def)

lemma override_symbol_id:
  assumes "confit_v2_schema_link_project p = Inr linked" "override_symbol linked o' = Some s"
  shows "s \<in> set (project_symbols p) \<and> ov_option_id o' = Some (sym_id s)"
  using assms linked_find_symbol [OF assms(1)] by (auto simp: override_symbol_def split: option.splits)

lemma override_entries_parts:
  assumes "confit_v2_schema_link_project p = Inr linked" "\<forall>o'\<in>set os. override_accepted parser linked o'"
    and "e \<in> set (override_entries parser linked origin precedence label i os)"
  shows "entry_ok p e \<and> le_precedence e = precedence \<and> Some (entry_id e) \<in> ov_option_id ` set os"
  using assms(2,3)
proof (induction os arbitrary: i)
  case (Cons o' os)
  then obtain s where s: "override_symbol linked o' = Some s" by (auto simp: override_accepted_def)
  from override_symbol_id [OF assms(1) s] s Cons show ?case
    by (auto simp: override_entry_sel entry_ok_def)
qed simp

lemma override_entries_ids:
  assumes "confit_v2_schema_link_project p = Inr linked"
  shows "\<forall>o'\<in>set os. override_accepted parser linked o' \<Longrightarrow> distinct (map ov_option_id os) \<Longrightarrow>
    distinct (map entry_id (override_entries parser linked origin precedence label i os))"
proof (induction os arbitrary: i)
  case (Cons o' os)
  then obtain s where s: "override_symbol linked o' = Some s" by (auto simp: override_accepted_def)
  from Cons.prems override_entries_parts [OF assms, of os parser _ origin precedence label "Suc i"]
  have "Some (entry_id e) \<in> ov_option_id ` set os"
    if "e \<in> set (override_entries parser linked origin precedence label (Suc i) os)" for e using that by auto
  with Cons override_symbol_id [OF assms s] s show ?case
    by (fastforce simp: override_entry_sel)
qed simp

section \<open>Layers\<close>

text \<open>What an option is asked to be: the origin of the request and the value, unset for a removal.\<close>

type_synonym request = "assignment_origin \<times> v2_value"

definition default_layer :: "v2_project \<Rightarrow> string \<rightharpoonup> request" where
  "default_layer p = map_of (map (\<lambda>s. (sym_id s, (ORIGIN_SCHEMA_DEFAULT, assign_value (sym_default_value s))))
     (filter (\<lambda>s. sym_write_domain s \<noteq> DOMAIN_COMPUTED \<and> assign_is_set (sym_default_value s)) (project_symbols p)))"

definition document_layer :: "assignment_origin \<Rightarrow> input_document \<Rightarrow> string \<rightharpoonup> request" where
  "document_layer origin d = map_of (map (\<lambda>a. (sym_id (ia_symbol a),
     if ia_is_unset a then (ORIGIN_UNSET, V_Unset) else (origin, ia_value a))) (doc_assignments d))"

definition chain_layer :: "assignment_origin \<Rightarrow> input_document list \<Rightarrow> string \<rightharpoonup> request" where
  "chain_layer origin chain = foldr (\<lambda>d above. document_layer origin d ++ above) chain Map.empty"

definition override_layer ::
  "toml_parser \<Rightarrow> linked_project \<Rightarrow> assignment_origin \<Rightarrow> raw_override list \<Rightarrow> string \<rightharpoonup> request" where
  "override_layer toml_parse_named linked origin overrides name =
     (case find (\<lambda>v. ov_option_id v = Some name) overrides of
        None \<Rightarrow> None
      | Some override \<Rightarrow> map_option (\<lambda>v. (origin, v)) (override_value toml_parse_named linked override))"

definition requested_layers ::
  "toml_parser \<Rightarrow> linked_project \<Rightarrow> ledger_options option \<Rightarrow> input_document list \<Rightarrow> input_document list
   \<Rightarrow> string \<rightharpoonup> request" where
  "requested_layers toml_parse_named linked options target_chain profile_chain =
     default_layer (lp_project linked)
     ++ chain_layer ORIGIN_TARGET target_chain
     ++ chain_layer ORIGIN_PROFILE profile_chain
     ++ override_layer toml_parse_named linked ORIGIN_PROFILE (case options of None \<Rightarrow> [] | Some v \<Rightarrow> lo_profile_overrides v)
     ++ override_layer toml_parse_named linked ORIGIN_USER (case options of None \<Rightarrow> [] | Some v \<Rightarrow> lo_user_overrides v)"

definition entry_request :: "ledger_entry \<Rightarrow> request" where
  "entry_request e = (le_origin e, le_value e)"

definition entries_layer :: "ledger_entry list \<Rightarrow> string \<rightharpoonup> request" where
  "entries_layer es name = (if entries_of name es = [] then None else Some (entry_request (last (entries_of name es))))"

lemma entries_layer_append: "entries_layer (xs @ ys) = entries_layer xs ++ entries_layer ys"
  by (rule ext) (auto simp: entries_layer_def entries_of_append map_add_def)

lemma entries_layer_Nil [simp]: "entries_layer [] = Map.empty"
  by (rule ext) (simp add: entries_layer_def entries_of_def)

lemma entries_layer_map_of:
  "distinct (map entry_id es) \<Longrightarrow> entries_layer es = map_of (map (\<lambda>e. (entry_id e, entry_request e)) es)"
proof (induction es)
  case (Cons e es)
  let ?m = "map_of (map (\<lambda>e. (entry_id e, entry_request e)) es)"
  have none: "?m (entry_id e) = None" using Cons.prems by (auto simp: map_of_eq_None_iff o_def)
  have "entries_layer [e] = [entry_id e \<mapsto> entry_request e]"
    by (rule ext) (auto simp: entries_layer_def entries_of_def)
  then have "entries_layer (e # es) = [entry_id e \<mapsto> entry_request e] ++ ?m"
    using Cons entries_layer_append [of "[e]" es] by simp
  then have "entries_layer (e # es) name = (map_of (map (\<lambda>e. (entry_id e, entry_request e)) (e # es))) name" for name
    using none by (cases "name = entry_id e") (simp_all add: map_add_def split: option.split)
  then show ?case by (rule ext)
qed simp

lemma default_entries_layer:
  "distinct (map sym_id symbols) \<Longrightarrow> entries_layer (default_entries i symbols) =
     map_of (map (\<lambda>s. (sym_id s, (ORIGIN_SCHEMA_DEFAULT, assign_value (sym_default_value s))))
       (filter (\<lambda>s. sym_write_domain s \<noteq> DOMAIN_COMPUTED \<and> assign_is_set (sym_default_value s)) symbols))"
proof -
  have "map (\<lambda>e. (entry_id e, entry_request e)) (default_entries i symbols) =
     map (\<lambda>s. (sym_id s, (ORIGIN_SCHEMA_DEFAULT, assign_value (sym_default_value s))))
       (filter (\<lambda>s. sym_write_domain s \<noteq> DOMAIN_COMPUTED \<and> assign_is_set (sym_default_value s)) symbols)"
    by (induction symbols arbitrary: i) (simp_all add: confit_v2_ledger_append_def entry_request_def Let_def)
  then show "distinct (map sym_id symbols) \<Longrightarrow> ?thesis" by (simp add: entries_layer_map_of default_entries_ids)
qed

lemma chain_entries_layer:
  assumes "distinct (map sym_id (project_symbols p))"
  shows "\<forall>d\<in>set ds. document_ok p kind d \<Longrightarrow> entries_layer (chain_entries origin k ds) = chain_layer origin ds"
proof (induction ds arbitrary: k)
  case (Cons d ds)
  let ?here = "map (assignment_entry origin k d) (doc_assignments d)"
  have "distinct (map entry_id ?here)"
    using Cons.prems assms
    by (auto simp: document_ok_def assignments_ok_def distinct_map o_def assignment_entry_sel inj_on_def)
  from entries_layer_map_of [OF this] have "entries_layer ?here = document_layer origin d"
    by (simp add: document_layer_def o_def assignment_entry_sel entry_request_def if_distrib cong: if_cong)
  with Cons show ?case by (simp add: entries_layer_append chain_layer_def)
qed (simp add: chain_layer_def)

lemma override_entries_layer:
  assumes "confit_v2_schema_link_project p = Inr linked"
  shows "\<forall>v\<in>set os. override_accepted parser linked v \<Longrightarrow> distinct (map ov_option_id os) \<Longrightarrow>
    entries_layer (override_entries parser linked origin precedence label i os) = override_layer parser linked origin os"
proof (induction os arbitrary: i)
  case Nil
  show ?case by (rule ext) (simp add: override_layer_def)
next
  case (Cons v os)
  let ?e = "override_entry parser linked origin precedence label i v"
    and ?es = "override_entries parser linked origin precedence label (Suc i) os"
  from Cons.prems obtain s w where s: "override_symbol linked v = Some s" "override_value parser linked v = Some w"
    by (auto simp: override_accepted_def)
  note name = override_symbol_id [OF assms s(1)]
  have one: "entries_layer [?e] = [sym_id s \<mapsto> (origin, w)]"
    by (rule ext) (auto simp: entries_layer_def entries_of_def override_entry_sel entry_request_def s)
  have rest: "entries_layer ?es = override_layer parser linked origin os" using Cons by simp
  have "override_layer parser linked origin os (sym_id s) = None"
  proof -
    have "find (\<lambda>x. ov_option_id x = Some (sym_id s)) os = None"
      using Cons.prems(2) name by (auto simp: find_None_iff) (metis image_eqI)
    then show ?thesis by (simp add: override_layer_def)
  qed
  then have "([sym_id s \<mapsto> (origin, w)] ++ override_layer parser linked origin os) k
      = override_layer parser linked origin (v # os) k" for k
    using name s by (cases "k = sym_id s") (auto simp: map_add_def override_layer_def split: option.split)
  then have "[sym_id s \<mapsto> (origin, w)] ++ override_layer parser linked origin os
      = override_layer parser linked origin (v # os)" by (rule ext)
  with entries_layer_append [of "[?e]" ?es] show ?case by (simp add: one rest)
qed

section \<open>A collected ledger\<close>

text \<open>The chains of a build.\<close>

definition build_chains ::
  "input_services \<Rightarrow> linked_project \<Rightarrow> ledger_options option \<Rightarrow> input_document list \<Rightarrow> input_document list \<Rightarrow> bool" where
  "build_chains services linked options target_chain profile_chain \<longleftrightarrow>
     (\<exists>profiles targets.
        confit_v2_input_catalog_load services linked KIND_PROFILE = Inr profiles
        \<and> confit_v2_input_catalog_load services linked KIND_TARGET = Inr targets
        \<and> profile_chain_of profiles options = Inr profile_chain
        \<and> target_chain_of targets (select_target (lp_project linked) options profile_chain) = Inr target_chain)"

lemma build_chains_ok:
  assumes "confit_v2_schema_link_project p = Inr linked" "build_chains services linked options tc pc"
  shows "\<forall>d\<in>set tc. document_ok p KIND_TARGET d" "\<forall>d\<in>set pc. document_ok p KIND_PROFILE d"
proof -
  from assms(2) obtain profiles targets where
    l: "confit_v2_input_catalog_load services linked KIND_PROFILE = Inr profiles"
      "confit_v2_input_catalog_load services linked KIND_TARGET = Inr targets"
    and pc: "profile_chain_of profiles options = Inr pc"
    and tc: "target_chain_of targets (select_target (lp_project linked) options pc) = Inr tc"
    by (auto simp: build_chains_def)
  note ok = catalog_load_ok [OF assms(1) l(1)] catalog_load_ok [OF assms(1) l(2)]
  show "\<forall>d\<in>set tc. document_ok p KIND_TARGET d"
    using tc chain_documents_ok [OF ok(2)] by (auto simp: target_chain_of_def split: option.splits)
  show "\<forall>d\<in>set pc. document_ok p KIND_PROFILE d"
    using pc chain_documents_ok [OF ok(1)]
    by (fastforce simp: profile_chain_of_def bind_simps split: option.splits if_splits)
qed

lemma collected:
  assumes link: "confit_v2_schema_link_project p = Inr linked"
    and docs: "\<forall>d\<in>set tc. document_ok p KIND_TARGET d" "\<forall>d\<in>set pc. document_ok p KIND_PROFILE d"
    and run: "collect_entries parser linked options tc pc = Inr entries"
  shows "ranked entries" and "entries_layer entries = requested_layers parser linked options tc pc"
proof -
  define po where "po = (case options of None \<Rightarrow> [] | Some v \<Rightarrow> lo_profile_overrides v)"
  define uo where "uo = (case options of None \<Rightarrow> [] | Some v \<Rightarrow> lo_user_overrides v)"
  note d = linked_parts [OF link]
  let ?D = "default_entries 0 (project_symbols p)"
  have start: "confit_v2_ledger_add_schema_defaults linked [] = ?D"
    by (simp add: confit_v2_ledger_add_schema_defaults_def d add_schema_defaults_entries)
  from run obtain e1 e2 e3 where
    e1: "add_input_chain_loop ORIGIN_TARGET 0 tc ?D = Inr e1"
    and e2: "add_input_chain_loop ORIGIN_PROFILE 0 pc e1 = Inr e2"
    and e3: "add_profile_overrides_loop parser linked [] po e2 = Inr e3"
    and e4: "add_user_overrides_loop parser linked [] uo e3 = Inr entries"
    by (auto simp: collect_entries_def start bind_simps confit_v2_ledger_add_input_chain_def po_def uo_def
        confit_v2_ledger_add_profile_overrides_def confit_v2_ledger_add_user_overrides_def split: option.splits)
  let ?T = "chain_entries ORIGIN_TARGET 0 tc" and ?P = "chain_entries ORIGIN_PROFILE 0 pc"
  let ?O = "override_entries parser linked ORIGIN_PROFILE PRECEDENCE_PROFILE_TRANSACTION ''tui profile transaction'' 0 po"
  let ?U = "override_entries parser linked ORIGIN_USER PRECEDENCE_USER ''cli --set'' 0 uo"
  note t = add_input_chain_entries [OF e1] and pr = add_input_chain_entries [OF e2]
  from add_profile_overrides_entries [OF e3] have o: "e3 = e2 @ ?O"
    "\<forall>v\<in>set po. override_accepted parser linked v" "distinct (map ov_option_id po)" by simp_all
  from add_user_overrides_entries [OF e4] have u: "entries = e3 @ ?U"
    "\<forall>v\<in>set uo. override_accepted parser linked v" "distinct (map ov_option_id uo)" by simp_all
  have entries: "entries = ?D @ ?T @ ?P @ ?O @ ?U" using t pr o(1) u(1) by simp
  have D: "entry_ok p e \<and> le_precedence e = 0" if "e \<in> set ?D" for e
    using default_entries_parts [OF subset_refl that] by (simp add: PRECEDENCE_SCHEMA_DEFAULT_def)
  have T: "entry_ok p e \<and> le_precedence e = 1 \<and> le_domain e = DOMAIN_TARGET" if "e \<in> set ?T" for e
    using chain_entries_parts [OF docs(1) _ that] t by (simp add: PRECEDENCE_DOMAIN_def kind_domain_def)
  have P: "entry_ok p e \<and> le_precedence e = 1 \<and> le_domain e = DOMAIN_PROFILE" if "e \<in> set ?P" for e
    using chain_entries_parts [OF docs(2) _ that] pr by (simp add: PRECEDENCE_DOMAIN_def kind_domain_def)
  have O: "entry_ok p e \<and> le_precedence e = 2" if "e \<in> set ?O" for e
    using override_entries_parts [OF link o(2) that] by (simp add: PRECEDENCE_PROFILE_TRANSACTION_def)
  have U: "entry_ok p e \<and> le_precedence e = 3" if "e \<in> set ?U" for e
    using override_entries_parts [OF link u(2) that] by (simp add: PRECEDENCE_USER_def)
  have up: "outranks f e" if "entry_ok p e" "entry_ok p f" "entry_id e = entry_id f" "le_precedence e < le_precedence f" for e f
    using entry_ok_same [OF d(2) that(1,2,3)] that(4) by (simp add: outranks_def)
  have apart: "entry_id e \<noteq> entry_id f" if "e \<in> set ?T" "f \<in> set ?P" for e f
    using entry_ok_same(2) [OF d(2), of e f] T [OF that(1)] P [OF that(2)] by auto
  have "ranked ?D" by (rule distinct_ids_ranked, rule default_entries_ids, rule d(2))
  moreover have "ranked ?T" using chain_entries_ranked [OF d(2) docs(1)] t by blast
  moreover have "ranked ?P" using chain_entries_ranked [OF d(2) docs(2)] pr by blast
  moreover have "ranked ?O" by (rule distinct_ids_ranked, rule override_entries_ids [OF link o(2,3)])
  moreover have "ranked ?U" by (rule distinct_ids_ranked, rule override_entries_ids [OF link u(2,3)])
  moreover have "outranks f e" if "e \<in> set ?D" "f \<in> set (?T @ ?P @ ?O @ ?U)" "entry_id e = entry_id f" for e f
    using that D T P O U by (intro up) (auto; fastforce)+
  moreover have "outranks f e" if "e \<in> set ?T" "f \<in> set (?P @ ?O @ ?U)" "entry_id e = entry_id f" for e f
    using that T O U apart by (intro up) (auto; fastforce)+
  moreover have "outranks f e" if "e \<in> set ?P" "f \<in> set (?O @ ?U)" "entry_id e = entry_id f" for e f
    using that P O U by (intro up) (auto; fastforce)+
  moreover have "outranks f e" if "e \<in> set ?O" "f \<in> set ?U" "entry_id e = entry_id f" for e f
    using that O U by (intro up) (auto; fastforce)+
  ultimately show "ranked entries" unfolding entries ranked_append by blast
  show "entries_layer entries = requested_layers parser linked options tc pc"
    unfolding entries entries_layer_append requested_layers_def d(1) po_def [symmetric] uo_def [symmetric]
    by (simp add: default_entries_layer [OF d(2)] default_layer_def chain_entries_layer [OF d(2) docs(1)]
        chain_entries_layer [OF d(2) docs(2)] override_entries_layer [OF link o(2,3)]
        override_entries_layer [OF link u(2,3)])
qed

end
