(* ===== verification/Requested_Values.thy ===== *)
theory Requested_Values
  imports Ledger_Correct
begin

text \<open>The properties of a built ledger, with a project that has two profiles and a user override.\<close>

lemma compiled_source: "confit_v2_compile_structure linked = Inr compiled \<Longrightarrow> cs_linked compiled = linked"
  by (auto simp: confit_v2_compile_structure_def bind_simps Let_def split: sum.splits prod.splits)

lemma build_collects:
  assumes "cs_linked compiled = linked"
    and "confit_v2_assignment_ledger_build services compiled options = Inr ledger"
    and "build_chains services linked options tc pc"
  shows "\<exists>entries. collect_entries (svc_toml_parse_named services) linked options tc pc = Inr entries
    \<and> confit_v2_ledger_mark_winners entries = Inr (al_entries ledger)"
  using assms by (auto simp: confit_v2_assignment_ledger_build_def build_chains_def bind_simps Let_def)

lemma build_from_collected:
  assumes "cs_linked compiled = linked" "build_chains services linked options tc pc"
    and "collect_entries (svc_toml_parse_named services) linked options tc pc = Inr entries"
    and "confit_v2_ledger_mark_winners entries = Inr marked"
  shows "\<exists>ledger. confit_v2_assignment_ledger_build services compiled options = Inr ledger \<and> al_entries ledger = marked"
  using assms by (auto simp: confit_v2_assignment_ledger_build_def build_chains_def bind_simps Let_def)

text \<open>C17. The request a built ledger answers for an option is the lookup in the layers of the inputs:
  a user override hides a profile transaction, which hides the documents of the profile and of the
  target, a document nearer the leaf hiding its bases, which hide the default of the schema; an
  option no layer mentions has no request.\<close>

theorem ledger_requested_layers:
  assumes "confit_v2_schema_link_project p = Inr linked" "confit_v2_compile_structure linked = Inr compiled"
    and "build_chains services linked options tc pc"
    and "confit_v2_assignment_ledger_build services compiled options = Inr ledger"
  shows "map_option entry_request (confit_v2_assignment_ledger_requested ledger name)
    = requested_layers (svc_toml_parse_named services) linked options tc pc name"
proof -
  from build_collects [OF compiled_source [OF assms(2)] assms(4,3)] obtain entries where
    c: "collect_entries (svc_toml_parse_named services) linked options tc pc = Inr entries"
    and m: "confit_v2_ledger_mark_winners entries = Inr (al_entries ledger)" by blast
  note docs = build_chains_ok [OF assms(1,3)]
  have "entries_layer entries name = requested_layers (svc_toml_parse_named services) linked options tc pc name"
    by (simp add: collected(2) [OF assms(1) docs c])
  then show ?thesis
    using ranked_requested [OF collected(1) [OF assms(1) docs c] m, of name]
    by (simp add: entries_layer_def entry_request_def split: if_splits)
qed

text \<open>C35. Once the entries are collected, building a ledger cannot fail: no two sources of one option
  are ambiguous. The entries are those collected, sorted by option, precedence, domain, order, origin
  and place, and of the entries of an option exactly the last is marked as the winner.\<close>

theorem ledger_winners_unique:
  assumes "confit_v2_schema_link_project p = Inr linked" "confit_v2_compile_structure linked = Inr compiled"
    and "build_chains services linked options tc pc"
    and "collect_entries (svc_toml_parse_named services) linked options tc pc = Inr entries"
  shows "\<exists>ledger. confit_v2_assignment_ledger_build services compiled options = Inr ledger
    \<and> sorted (map entry_key (al_entries ledger))
    \<and> mset (map unmarked (al_entries ledger)) = mset (map unmarked entries)
    \<and> (\<forall>name. filter le_wins (entries_of name (al_entries ledger))
          = (let es = entries_of name (al_entries ledger) in if es = [] then [] else [last es]))"
proof -
  note docs = build_chains_ok [OF assms(1,3)]
  from ranked_marks [OF collected(1) [OF assms(1) docs assms(4)]] obtain r where
    r: "confit_v2_ledger_mark_winners entries = Inr r"
    and un: "map unmarked r = map unmarked (qsort_by confit_v2_ledger_entry_compare entries)"
    and of: "\<And>name. entries_of name r = marked_group (entries_of name entries)" by blast
  obtain ledger where l: "confit_v2_assignment_ledger_build services compiled options = Inr ledger" "al_entries ledger = r"
    using build_from_collected [OF compiled_source [OF assms(2)] assms(3,4) r] by blast
  have keys: "map entry_key (map unmarked es) = map entry_key es" for es
    by (simp add: unmarked_def entry_key_def entry_position_def)
  have "sorted (map entry_key r)"
    using sorted_qsort_by [OF entry_compare_key, of entries] arg_cong [OF un, of "map entry_key"] by (simp only: keys)
  moreover have "mset (map unmarked r) = mset (map unmarked entries)"
    unfolding un by (simp add: qsort_by_sort_key [OF entry_compare_key])
  moreover have "filter le_wins (entries_of name r) = (let es = entries_of name r in if es = [] then [] else [last es])" for name
  proof -
    have "filter le_wins (map (\<lambda>f. f\<lparr>le_wins := False\<rparr>) es) = []" for es by (induction es) simp_all
    then show ?thesis by (simp add: of marked_group_def Let_def)
  qed
  ultimately show ?thesis using l by auto
qed

section \<open>A sample build\<close>

definition layered_project :: v2_project where
  "layered_project =
     (sample_project [(sample_symbol ''a.b'' OPTION_INT None)\<lparr>sym_default_value :=
                        \<lparr>assign_is_set = True, assign_value = V_Int 1, assign_span = sample_span\<rparr>\<rparr>,
                      sample_symbol ''a.c'' OPTION_BOOL None])
     \<lparr>project_config_root := Some ''c'', project_profile_dirs := [''p'']\<rparr>"

definition leaf :: "toml_content \<Rightarrow> toml_datum" where
  "leaf content = Datum 1 1 (Some ''f'') content"

text \<open>The trees of the sample files; the text of a file is its path.\<close>

definition sample_parser :: toml_parser where
  "sample_parser source_text source_name =
     (if source_text = ''c/p/base'' then Inr (leaf (TOML_TABLE
        [(''profile'', leaf (TOML_TABLE [(''name'', leaf (TOML_STRING ''base'')), (''schema_version'', leaf (TOML_INT64 2))])),
         (''values'', leaf (TOML_TABLE [(''a.b'', leaf (TOML_INT64 5)), (''a.c'', leaf (TOML_BOOLEAN True))]))]))
      else if source_text = ''c/p/dev'' then Inr (leaf (TOML_TABLE
        [(''profile'', leaf (TOML_TABLE [(''name'', leaf (TOML_STRING ''dev'')), (''schema_version'', leaf (TOML_INT64 2)),
            (''base'', leaf (TOML_STRING ''base''))])),
         (''values'', leaf (TOML_TABLE [(''a.b'', leaf (TOML_INT64 6))]))]))
      else if source_text = ''value = false'' then Inr (leaf (TOML_TABLE [(''value'', leaf (TOML_BOOLEAN False))]))
      else Inl ''(line 1) syntax error'')"

definition sample_services :: input_services where
  "sample_services =
     \<lparr>svc_read_text_file = Inr,
      svc_list_toml_files = (\<lambda>directory. Inr (if directory = ''c/p'' then [''c/p/base'', ''c/p/dev''] else [])),
      svc_toml_parse_named = sample_parser\<rparr>"

definition sample_ledger_options :: ledger_options where
  "sample_ledger_options =
     \<lparr>lo_profile_name = Some ''dev'', lo_target_name = None, lo_target_span = sample_span, lo_profile_overrides = [],
      lo_user_overrides = [\<lparr>ov_option_id = Some ''a.c'', ov_value_text = Some ''false'', ov_span = sample_span\<rparr>]\<rparr>"

definition layered_linked :: linked_project where
  "layered_linked = (case confit_v2_schema_link_project layered_project of Inr linked \<Rightarrow> linked | Inl e \<Rightarrow> sample_linked)"

definition layered_compiled :: compiled_structure where
  "layered_compiled = (case confit_v2_compile_structure layered_linked of Inr compiled \<Rightarrow> compiled | Inl e \<Rightarrow> sample_compiled)"

lemma layered_accepted:
  "case confit_v2_schema_link_project layered_project of Inl e \<Rightarrow> False | Inr linked \<Rightarrow> True"
  "case confit_v2_compile_structure layered_linked of Inl e \<Rightarrow> False | Inr compiled \<Rightarrow> True"
  by code_simp+

lemma layered_linked: "confit_v2_schema_link_project layered_project = Inr layered_linked"
  using layered_accepted(1) by (auto simp: layered_linked_def split: sum.splits)

lemma layered_compiled: "confit_v2_compile_structure layered_linked = Inr layered_compiled"
  using layered_accepted(2) by (auto simp: layered_compiled_def split: sum.splits)

definition layered_chain :: "input_document list" where
  "layered_chain = (case confit_v2_input_catalog_load sample_services layered_linked KIND_PROFILE of
     Inr profiles \<Rightarrow> (case profile_chain_of profiles (Some sample_ledger_options) of Inr chain \<Rightarrow> chain | Inl e \<Rightarrow> [])
   | Inl e \<Rightarrow> [])"

lemma layered_runs:
  "case confit_v2_input_catalog_load sample_services layered_linked KIND_PROFILE of
     Inr profiles \<Rightarrow> (case profile_chain_of profiles (Some sample_ledger_options) of Inr chain \<Rightarrow> True | Inl e \<Rightarrow> False)
   | Inl e \<Rightarrow> False"
  "case confit_v2_input_catalog_load sample_services layered_linked KIND_TARGET of Inr targets \<Rightarrow> True | Inl e \<Rightarrow> False"
  "select_target (lp_project layered_linked) (Some sample_ledger_options) layered_chain = None"
  by code_simp+

lemma layered_chains: "build_chains sample_services layered_linked (Some sample_ledger_options) [] layered_chain"
  using layered_runs
  by (auto simp: build_chains_def layered_chain_def target_chain_of_def split: sum.splits)

definition layered_ledger :: assignment_ledger where
  "layered_ledger = (case confit_v2_assignment_ledger_build sample_services layered_compiled (Some sample_ledger_options) of
     Inr ledger \<Rightarrow> ledger
   | Inl e \<Rightarrow> \<lparr>al_compiled = layered_compiled, al_profile_name = None, al_target_selection = None, al_entries = []\<rparr>)"

lemma layered_builds:
  "case confit_v2_assignment_ledger_build sample_services layered_compiled (Some sample_ledger_options) of
     Inl e \<Rightarrow> False | Inr ledger \<Rightarrow> True"
  by code_simp

lemma layered_ledger:
  "confit_v2_assignment_ledger_build sample_services layered_compiled (Some sample_ledger_options) = Inr layered_ledger"
  using layered_builds by (auto simp: layered_ledger_def split: sum.splits)

lemma ledger_requested_layers_witness:
  "map_option entry_request (confit_v2_assignment_ledger_requested layered_ledger ''a.b'') = Some (ORIGIN_PROFILE, V_Int 6)
   \<and> map_option entry_request (confit_v2_assignment_ledger_requested layered_ledger ''a.c'') = Some (ORIGIN_USER, V_Bool 0)"
proof -
  note layers = ledger_requested_layers [OF layered_linked layered_compiled layered_chains layered_ledger]
  have "requested_layers (svc_toml_parse_named sample_services) layered_linked (Some sample_ledger_options) []
      layered_chain ''a.b'' = Some (ORIGIN_PROFILE, V_Int 6)"
    "requested_layers (svc_toml_parse_named sample_services) layered_linked (Some sample_ledger_options) []
      layered_chain ''a.c'' = Some (ORIGIN_USER, V_Bool 0)" by code_simp+
  then show ?thesis by (simp add: layers)
qed

lemma layered_collected:
  "case collect_entries sample_parser layered_linked (Some sample_ledger_options) [] layered_chain of
     Inl e \<Rightarrow> False | Inr entries \<Rightarrow> map entry_id entries = [''a.b'', ''a.b'', ''a.c'', ''a.b'', ''a.c'']"
  by code_simp

lemma ledger_winners_unique_witness:
  "\<exists>ledger. confit_v2_assignment_ledger_build sample_services layered_compiled (Some sample_ledger_options) = Inr ledger
     \<and> length (al_entries ledger) = 5"
proof -
  obtain entries where e: "collect_entries (svc_toml_parse_named sample_services) layered_linked
      (Some sample_ledger_options) [] layered_chain = Inr entries" "map entry_id entries = [''a.b'', ''a.b'', ''a.c'', ''a.b'', ''a.c'']"
    using layered_collected by (auto simp: sample_services_def split: sum.splits)
  from ledger_winners_unique [OF layered_linked layered_compiled layered_chains e(1)] obtain ledger where
    l: "confit_v2_assignment_ledger_build sample_services layered_compiled (Some sample_ledger_options) = Inr ledger"
    and m: "mset (map unmarked (al_entries ledger)) = mset (map unmarked entries)" by blast
  have "length (al_entries ledger) = length entries" using arg_cong [OF m, of size] by simp
  also have "\<dots> = 5" using arg_cong [OF e(2), of length] by simp
  finally show ?thesis using l by blast
qed

end
