(* ===== verification/Evaluation_Order.thy ===== *)
theory Evaluation_Order
  imports Ledger
begin

text \<open>
  The order in which options are evaluated, first part of \<open>src/resolver/v2/evaluate.c\<close>: one node for
  each option, an edge for each reference in an expression that affects its value, and a depth-first
  search that appends a node once all it depends on has been appended and reports the path when it
  meets a node that is still active. The visit state of the nodes is kept beside them; \<open>path\<close> and
  \<open>incoming\<close> are the parts of the two arrays that are in use, and \<open>room\<close> the number of elements left
  in them, so that a write past their end is \<open>Undefined_Access\<close>. Allocation failure is not modelled.
\<close>

section \<open>Nodes\<close>

record evaluation_dependency =
  dep_target :: nat
  dep_span :: source_span

record evaluation_node =
  node_symbol :: v2_symbol
  node_dependencies :: "evaluation_dependency list"

definition kEvaluationAllocationFailed :: string where
  "kEvaluationAllocationFailed = ''failed to allocate schema v2 evaluation data''"

definition kEvaluationCycle :: string where
  "kEvaluationCycle = ''schema v2 evaluation cycle''"

definition confit_v2_evaluation_symbol_compare :: "evaluation_node \<Rightarrow> evaluation_node \<Rightarrow> int" where
  "confit_v2_evaluation_symbol_compare left right =
     strcmp (sym_id (node_symbol left)) (sym_id (node_symbol right))"

definition confit_v2_evaluation_dependency_compare ::
  "evaluation_dependency \<Rightarrow> evaluation_dependency \<Rightarrow> int" where
  "confit_v2_evaluation_dependency_compare left right =
     number_compare (dep_target left) (dep_target right)
       (case (span_path (dep_span left), span_path (dep_span right)) of
          (None, None) \<Rightarrow> 0
        | (None, Some _) \<Rightarrow> -1
        | (Some _, None) \<Rightarrow> 1
        | (Some left_path, Some right_path) \<Rightarrow>
            if strcmp left_path right_path \<noteq> 0 then strcmp left_path right_path
            else number_compare (span_line (dep_span left)) (span_line (dep_span right))
                   (number_compare (span_column (dep_span left)) (span_column (dep_span right)) 0))"

definition confit_v2_evaluation_find_node :: "evaluation_node list \<Rightarrow> string \<Rightarrow> nat option" where
  "confit_v2_evaluation_find_node nodes name =
     (let low = lower_bound (\<lambda>m. strcmp (sym_id (node_symbol (nodes ! m))) name < 0) 0 (length nodes)
      in if low < length nodes \<and> strcmp (sym_id (node_symbol (nodes ! low))) name = 0 then Some low else None)"

definition confit_v2_evaluation_role_affects_value :: "linked_role \<Rightarrow> bool" where
  "confit_v2_evaluation_role_affects_value role \<longleftrightarrow>
     role = ROLE_COMPUTED \<or> role = ROLE_AVAILABLE_IF \<or> role = ROLE_DEFAULT_WHEN"

definition confit_v2_evaluation_append_dependency ::
  "nat \<Rightarrow> nat \<Rightarrow> source_span \<Rightarrow> evaluation_node list \<Rightarrow> evaluation_node list" where
  "confit_v2_evaluation_append_dependency owner target span nodes =
     nodes[owner := (nodes ! owner)\<lparr>node_dependencies := node_dependencies (nodes ! owner)
                      @ [\<lparr>dep_target = target, dep_span = span\<rparr>]\<rparr>]"

definition append_reference ::
  "linked_expression \<Rightarrow> nat \<Rightarrow> linked_reference \<Rightarrow> evaluation_node list \<Rightarrow> input_stop + evaluation_node list" where
  "append_reference x owner r nodes =
     (let span = expression_span (lx_expression x)
      in case confit_v2_evaluation_find_node nodes (sym_id (lref_symbol r)) of
           None \<Rightarrow> confit_v2_ledger_diagnostic (span_path span) (span_line span) (span_column span) CONFIT_ERR_INTERNAL
                     kEvaluationAllocationFailed
         | Some target \<Rightarrow> Inr (confit_v2_evaluation_append_dependency owner target span nodes))"

definition append_references :: "linked_expression \<Rightarrow> evaluation_node list \<Rightarrow> input_stop + evaluation_node list" where
  "append_references x nodes =
     (if \<not> confit_v2_evaluation_role_affects_value (lx_role x) then Inr nodes
      else case confit_v2_evaluation_find_node nodes (lx_owner_id x) of
             None \<Rightarrow> Inr nodes
           | Some owner \<Rightarrow> fold_res (append_reference x owner) (lx_references x) nodes)"

definition confit_v2_evaluation_build_nodes :: "linked_project \<Rightarrow> input_stop + evaluation_node list" where
  "confit_v2_evaluation_build_nodes linked =
     (let nodes = qsort_by confit_v2_evaluation_symbol_compare
        (map (\<lambda>s. \<lparr>node_symbol = s, node_dependencies = []\<rparr>) (project_symbols (lp_project linked)))
      in bind_res (fold_res append_references (lp_expressions linked) nodes) (\<lambda>nodes.
           Inr (map (\<lambda>n. n\<lparr>node_dependencies :=
                  qsort_by confit_v2_evaluation_dependency_compare (node_dependencies n)\<rparr>) nodes)))"

section \<open>The report of a cycle\<close>

text \<open>Appending to a buffer of \<open>capacity\<close> bytes, whose last byte is the NUL.\<close>

definition confit_v2_evaluation_append_text :: "nat \<Rightarrow> string option \<Rightarrow> string \<Rightarrow> string" where
  "confit_v2_evaluation_append_text capacity t buffer =
     buffer @ take (capacity - 1 - length buffer) (case t of None \<Rightarrow> ''?'' | Some s \<Rightarrow> s)"

fun decimal :: "nat \<Rightarrow> string" where
  "decimal n = (if n < 10 then [char_of (48 + n)] else decimal (n div 10) @ [char_of (48 + n mod 10)])"

declare decimal.simps [simp del]

text \<open>\<open>snprintf\<close> of the position into 1024 bytes.\<close>

definition edge_location :: "source_span \<Rightarrow> string" where
  "edge_location span =
     take 1023 ((case span_path span of None \<Rightarrow> ''?'' | Some path \<Rightarrow> path)
       @ '':'' @ decimal (span_line span) @ '':'' @ decimal (span_column span))"

text \<open>The nodes on the cycle, each with the edge to the next; the last edge is the closing one.\<close>

fun cycle_steps :: "evaluation_node list \<Rightarrow> nat list \<Rightarrow> evaluation_dependency list \<Rightarrow> string \<Rightarrow> string" where
  "cycle_steps nodes (i # is) (edge # edges) message =
     (let append = confit_v2_evaluation_append_text 4096
      in cycle_steps nodes is edges
           (append (Some '')--> '') (append (Some (edge_location (dep_span edge))) (append (Some '' --('')
             (append (Some (sym_id (node_symbol (nodes ! i)))) message)))))"
| "cycle_steps nodes _ _ message = message"

definition confit_v2_evaluation_cycle_diagnostic ::
  "evaluation_node list \<Rightarrow> nat list \<Rightarrow> evaluation_dependency list \<Rightarrow> nat \<Rightarrow> evaluation_dependency \<Rightarrow> input_stop + 'a" where
  "confit_v2_evaluation_cycle_diagnostic nodes path incoming begin closing =
     (let append = confit_v2_evaluation_append_text 4096;
          message = cycle_steps nodes (drop begin path) (drop begin incoming @ [closing])
                      (append (Some '': '') (append (Some kEvaluationCycle) []));
          message = append (Some (sym_id (node_symbol (nodes ! (path ! begin))))) message;
          span = dep_span closing
      in confit_v2_ledger_diagnostic (span_path span) (span_line span) (span_column span) CONFIT_ERR_SCHEMA message)"

section \<open>The search\<close>

datatype visit_state = UNVISITED | ACTIVE | DONE

record evaluation_search =
  search_states :: "visit_state list"
  search_order :: "nat list"

text \<open>The position of an active node on the path.\<close>

fun path_position :: "nat \<Rightarrow> nat list \<Rightarrow> nat" where
  "path_position target [] = 0"
| "path_position target (i # is) = (if i = target then 0 else Suc (path_position target is))"

text \<open>\<open>path\<close> holds the nodes before \<open>current\<close>, and \<open>incoming\<close> the edge into each node of the path but the
  first, the one into \<open>current\<close> included.\<close>

fun confit_v2_evaluation_visit ::
    "evaluation_node list \<Rightarrow> nat \<Rightarrow> nat list \<Rightarrow> evaluation_dependency list \<Rightarrow> nat \<Rightarrow> evaluation_search
     \<Rightarrow> input_stop + evaluation_search"
  and visit_dependencies ::
    "evaluation_node list \<Rightarrow> nat \<Rightarrow> nat list \<Rightarrow> evaluation_dependency list \<Rightarrow> evaluation_dependency list
     \<Rightarrow> evaluation_search \<Rightarrow> input_stop + evaluation_search" where
  "confit_v2_evaluation_visit nodes 0 path incoming current s = Inl Undefined_Access"
| "confit_v2_evaluation_visit nodes (Suc room) path incoming current s =
     bind_res (visit_dependencies nodes room (path @ [current]) incoming (node_dependencies (nodes ! current))
                 (s\<lparr>search_states := (search_states s)[current := ACTIVE]\<rparr>)) (\<lambda>s.
       let s = s\<lparr>search_states := (search_states s)[current := DONE]\<rparr>; span = sym_span (node_symbol (nodes ! current))
       in if length (search_order s) \<ge> length nodes
          then confit_v2_ledger_diagnostic (span_path span) (span_line span) (span_column span) CONFIT_ERR_INTERNAL
                 kEvaluationAllocationFailed
          else Inr (s\<lparr>search_order := search_order s @ [current]\<rparr>))"
| "visit_dependencies nodes room path incoming [] s = Inr s"
| "visit_dependencies nodes room path incoming (dependency # dependencies) s =
     (let target = dep_target dependency
      in case search_states s ! target of
           ACTIVE \<Rightarrow> confit_v2_evaluation_cycle_diagnostic nodes path incoming (path_position target (butlast path)) dependency
         | DONE \<Rightarrow> visit_dependencies nodes room path incoming dependencies s
         | UNVISITED \<Rightarrow>
             bind_res (confit_v2_evaluation_visit nodes room path (incoming @ [dependency]) target s)
               (visit_dependencies nodes room path incoming dependencies))"

definition confit_v2_evaluation_topological_order :: "evaluation_node list \<Rightarrow> input_stop + nat list" where
  "confit_v2_evaluation_topological_order nodes =
     (if nodes = [] then Inr []
      else bind_res
        (fold_res (\<lambda>i s. if search_states s ! i \<noteq> UNVISITED then Inr s
                         else confit_v2_evaluation_visit nodes (length nodes) [] [] i s)
           [0..<length nodes] \<lparr>search_states = replicate (length nodes) UNVISITED, search_order = []\<rparr>) (\<lambda>s.
        if length (search_order s) \<noteq> length nodes
        then confit_v2_ledger_diagnostic None 0 0 CONFIT_ERR_INTERNAL kEvaluationAllocationFailed
        else Inr (search_order s)))"

end
