(* ===== verification/Effective.thy ===== *)
theory Effective
  imports Evaluation_Order
begin

text \<open>
  Effective values, second part of \<open>src/resolver/v2/evaluate.c\<close>: in the order of evaluation each option
  gets the computed value, the requested one, a conditional default, the default of the schema, or
  stays unset; then the availability and visibility of all options and the choices are evaluated in
  the final environment. The bindings of the environment are updated next to the values, as in C,
  where a binding points to the value of its option. \<open>Undefined_Access\<close> stands for reading a union
  member that was not stored and for an access outside an array.
\<close>

section \<open>Results\<close>

text \<open>\<open>EFFECTIVE_VALUE_NONE\<close> is the zero of an entry that has not been evaluated.\<close>

datatype effective_origin =
  EFFECTIVE_VALUE_NONE | EFFECTIVE_VALUE_REQUESTED | EFFECTIVE_VALUE_CONDITIONAL_DEFAULT | EFFECTIVE_VALUE_DEFAULT
| EFFECTIVE_VALUE_COMPUTED | EFFECTIVE_VALUE_UNSET

fun effective_origin_number :: "effective_origin \<Rightarrow> nat" where
  "effective_origin_number EFFECTIVE_VALUE_NONE = 0"
| "effective_origin_number EFFECTIVE_VALUE_REQUESTED = 1"
| "effective_origin_number EFFECTIVE_VALUE_CONDITIONAL_DEFAULT = 2"
| "effective_origin_number EFFECTIVE_VALUE_DEFAULT = 3"
| "effective_origin_number EFFECTIVE_VALUE_COMPUTED = 4"
| "effective_origin_number EFFECTIVE_VALUE_UNSET = 5"

record effective_value =
  ef_symbol :: v2_symbol
  ef_value :: v2_value
  ef_is_set :: bool
  ef_available :: bool
  ef_visible :: bool
  ef_origin :: effective_origin
  ef_requested :: "ledger_entry option"
  ef_source_path :: "string option"
  ef_source_line :: nat
  ef_source_column :: nat

datatype choice_selection_origin = SELECTION_NONE | SELECTION_EFFECTIVE_MEMBER | SELECTION_DEFAULT

record choice_resolution =
  cr_choice :: compiled_choice
  cr_available :: bool
  cr_visible :: bool
  cr_effective_member_count :: nat
  cr_selected_member :: "v2_symbol option"
  cr_origin :: choice_selection_origin

record evaluation =
  evl_ledger :: assignment_ledger
  evl_values :: "effective_value list"
  evl_choices :: "choice_resolution list"

definition initial_value :: "v2_symbol \<Rightarrow> effective_value" where
  "initial_value symbol =
     \<lparr>ef_symbol = symbol, ef_value = V_Unset, ef_is_set = False, ef_available = False, ef_visible = False,
      ef_origin = EFFECTIVE_VALUE_NONE, ef_requested = None, ef_source_path = None, ef_source_line = 0, ef_source_column = 0\<rparr>"

definition initial_binding :: "v2_symbol \<Rightarrow> ebinding" where
  "initial_binding symbol =
     \<lparr>bind_id = sym_id symbol,
      bind_type = confit_v2_expression_type_from_option_type (sym_type symbol) (Some (sym_id symbol)), bind_value = None\<rparr>"

definition span_diagnostic :: "source_span \<Rightarrow> status \<Rightarrow> string \<Rightarrow> input_stop + 'a" where
  "span_diagnostic span st message =
     confit_v2_ledger_diagnostic (span_path span) (span_line span) (span_column span) st message"

section \<open>Values\<close>

definition confit_v2_evaluation_value_equal :: "v2_value \<Rightarrow> v2_value \<Rightarrow> bool" where
  "confit_v2_evaluation_value_equal left right =
     (case (left, right) of
        (V_Bool b, V_Bool c) \<Rightarrow> b = c
      | (V_Tristate b, V_Tristate c) \<Rightarrow> b = c
      | (V_Int i, V_Int j) \<Rightarrow> i = j
      | (V_Uint i, V_Uint j) \<Rightarrow> i = j
      | (V_Float x, V_Float y) \<Rightarrow> f64_eq x y
      | (V_String s, V_String t) \<Rightarrow> strcmp s t = 0
      | (V_String_List xs, V_String_List ys) \<Rightarrow> length xs = length ys \<and> strings_equal xs ys
      | (V_Unset, V_Unset) \<Rightarrow> True
      | _ \<Rightarrow> False)"

definition confit_v2_evaluation_set_value ::
  "effective_value \<Rightarrow> v2_value \<Rightarrow> effective_origin \<Rightarrow> ledger_entry option \<Rightarrow> string option \<Rightarrow> nat \<Rightarrow> nat
   \<Rightarrow> input_stop + effective_value" where
  "confit_v2_evaluation_set_value out v origin requested path line column =
     bind_res (confit_v2_ledger_validate_value (ef_symbol out) v path line column) (\<lambda>v.
       Inr (out\<lparr>ef_value := v, ef_is_set := True, ef_origin := origin, ef_requested := requested,
                ef_source_path := path, ef_source_line := line, ef_source_column := column\<rparr>))"

text \<open>The value of a condition; what the three loops over conditions share.\<close>

definition condition_value :: "linked_expression \<Rightarrow> environment \<Rightarrow> string \<Rightarrow> input_stop + bool" where
  "condition_value x env unset_message =
     bind_res (member (confit_v2_expression_evaluate (lx_typed x) env)) (\<lambda>condition.
       if \<not> ev_is_set condition then span_diagnostic (expression_span (lx_expression x)) CONFIT_ERR_SCHEMA unset_message
       else bind_res (member (as_bool (ev_value condition))) (\<lambda>b. Inr (b \<noteq> 0)))"

text \<open>The loop over the conditional defaults from number \<open>i\<close> on.\<close>

fun conditional_default_loop ::
  "linked_project \<Rightarrow> v2_symbol \<Rightarrow> environment \<Rightarrow> nat \<Rightarrow> conditional_default list \<Rightarrow> conditional_default option
   \<Rightarrow> input_stop + conditional_default option" where
  "conditional_default_loop linked symbol env i [] selected = Inr selected"
| "conditional_default_loop linked symbol env i (d # ds) selected =
     (case confit_v2_linked_project_find_expression linked ROLE_DEFAULT_WHEN (sym_id symbol) i of
        None \<Rightarrow> span_diagnostic (expr_span (cond_when d)) CONFIT_ERR_INTERNAL kEvaluationAllocationFailed
      | Some x \<Rightarrow>
          bind_res (condition_value x env ''schema v2 conditional default condition is unset'') (\<lambda>holds.
          bind_res
            (if \<not> holds then Inr selected
             else case selected of
                    None \<Rightarrow> Inr (Some d)
                  | Some best \<Rightarrow>
                      if cond_priority best <s cond_priority d then Inr (Some d)
                      else if cond_priority d = cond_priority best
                        \<and> \<not> confit_v2_evaluation_value_equal (assign_value (cond_assignment d)) (assign_value (cond_assignment best))
                      then span_diagnostic (cond_span d) CONFIT_ERR_SCHEMA ''ambiguous schema v2 conditional default''
                      else Inr selected)
            (conditional_default_loop linked symbol env (i + 1) ds)))"

definition confit_v2_evaluation_conditional_default ::
  "linked_project \<Rightarrow> v2_symbol \<Rightarrow> environment \<Rightarrow> input_stop + conditional_default option" where
  "confit_v2_evaluation_conditional_default linked symbol env =
     conditional_default_loop linked symbol env 0 (sym_defaults symbol) None"

definition confit_v2_evaluation_compute_symbol ::
  "linked_project \<Rightarrow> effective_value \<Rightarrow> environment \<Rightarrow> input_stop + effective_value" where
  "confit_v2_evaluation_compute_symbol linked out env =
     (case confit_v2_linked_project_find_expression linked ROLE_COMPUTED (sym_id (ef_symbol out)) 0 of
        None \<Rightarrow> span_diagnostic (sym_span (ef_symbol out)) CONFIT_ERR_INTERNAL
                  ''computed schema v2 option has no linked expression''
      | Some x \<Rightarrow>
          let span = expression_span (lx_expression x)
          in bind_res (member (confit_v2_expression_evaluate (lx_typed x) env)) (\<lambda>computed.
               if \<not> ev_is_set computed
               then span_diagnostic span CONFIT_ERR_SCHEMA ''computed schema v2 expression produced unset value''
               else
                 bind_res (confit_v2_ledger_validate_value (ef_symbol out) (ev_value computed) (span_path span)
                             (span_line span) (span_column span)) (\<lambda>v.
                   Inr (out\<lparr>ef_value := v, ef_is_set := True, ef_origin := EFFECTIVE_VALUE_COMPUTED,
                            ef_source_path := span_path span, ef_source_line := span_line span,
                            ef_source_column := span_column span\<rparr>))))"

definition confit_v2_evaluation_input_symbol ::
  "linked_project \<Rightarrow> assignment_ledger \<Rightarrow> effective_value \<Rightarrow> environment \<Rightarrow> input_stop + effective_value" where
  "confit_v2_evaluation_input_symbol linked ledger out env =
     (let symbol = ef_symbol out;
          requested = confit_v2_assignment_ledger_requested ledger (sym_id symbol);
          set_default = (\<lambda>a origin. confit_v2_evaluation_set_value out (assign_value a) origin requested
             (span_path (assign_span a)) (span_line (assign_span a)) (span_column (assign_span a)));
          fall_back = (\<lambda>_. bind_res (confit_v2_evaluation_conditional_default linked symbol env) (\<lambda>conditional.
            case conditional of
              Some d \<Rightarrow> set_default (cond_assignment d) EFFECTIVE_VALUE_CONDITIONAL_DEFAULT
            | None \<Rightarrow>
                if assign_is_set (sym_default_value symbol)
                then set_default (sym_default_value symbol) EFFECTIVE_VALUE_DEFAULT
                else if sym_required symbol
                then span_diagnostic (sym_span symbol) CONFIT_ERR_SCHEMA ''required schema v2 option is unset''
                else Inr (out\<lparr>ef_origin := EFFECTIVE_VALUE_UNSET, ef_requested := requested\<rparr>)))
      in case requested of
           Some e \<Rightarrow>
             if le_origin e \<noteq> ORIGIN_SCHEMA_DEFAULT \<and> \<not> le_is_unset e
             then confit_v2_evaluation_set_value out (le_value e) EFFECTIVE_VALUE_REQUESTED requested
                    (le_source_path e) (le_source_line e) (le_source_column e)
             else fall_back ()
         | None \<Rightarrow> fall_back ())"

text \<open>One round of the loop over the order of evaluation.\<close>

definition evaluate_symbol ::
  "linked_project \<Rightarrow> assignment_ledger \<Rightarrow> effective_value \<Rightarrow> environment \<Rightarrow> input_stop + effective_value" where
  "evaluate_symbol linked ledger out env =
     (if sym_write_domain (ef_symbol out) = DOMAIN_COMPUTED then confit_v2_evaluation_compute_symbol linked out env
      else confit_v2_evaluation_input_symbol linked ledger out env)"

definition effective_binding :: "effective_value \<Rightarrow> v2_value option" where
  "effective_binding v = (if ef_is_set v then Some (ef_value v) else None)"

definition evaluate_node ::
  "linked_project \<Rightarrow> assignment_ledger \<Rightarrow> nat \<Rightarrow> effective_value list \<times> environment
   \<Rightarrow> input_stop + effective_value list \<times> environment" where
  "evaluate_node linked ledger i = (\<lambda>(vs, env).
     bind_res (evaluate_symbol linked ledger (vs ! i) env) (\<lambda>v.
       Inr (vs[i := v], env[i := (env ! i)\<lparr>bind_value := effective_binding v\<rparr>])))"

section \<open>Availability\<close>

definition confit_v2_evaluation_boolean_condition ::
  "linked_expression option \<Rightarrow> environment \<Rightarrow> string \<Rightarrow> input_stop + bool" where
  "confit_v2_evaluation_boolean_condition expression env unset_message =
     (case expression of None \<Rightarrow> Inr True | Some x \<Rightarrow> condition_value x env unset_message)"

definition confit_v2_evaluation_value_is_disabled :: "effective_value \<Rightarrow> bool" where
  "confit_v2_evaluation_value_is_disabled v \<longleftrightarrow>
     (if \<not> ef_is_set v then True
      else case ef_value v of V_Bool b \<Rightarrow> b = 0 | V_Tristate c \<Rightarrow> c = CHR ''n'' | _ \<Rightarrow> False)"

definition confit_v2_evaluation_value_is_selected :: "effective_value \<Rightarrow> bool" where
  "confit_v2_evaluation_value_is_selected v \<longleftrightarrow>
     (if \<not> ef_is_set v then False
      else case ef_value v of V_Bool b \<Rightarrow> b \<noteq> 0 | V_Tristate c \<Rightarrow> c = CHR ''m'' \<or> c = CHR ''y'' | _ \<Rightarrow> False)"

definition confit_v2_evaluation_symbol_expression ::
  "linked_project \<Rightarrow> v2_symbol \<Rightarrow> linked_role \<Rightarrow> linked_expression option" where
  "confit_v2_evaluation_symbol_expression linked symbol role =
     (if role = ROLE_AVAILABLE_IF \<and> expr_text (sym_available_if symbol) = None
        \<or> role = ROLE_VISIBLE_IF \<and> expr_text (sym_visible_if symbol) = None then None
      else confit_v2_linked_project_find_expression linked role (sym_id symbol) 0)"

definition option_state :: "linked_project \<Rightarrow> environment \<Rightarrow> effective_value \<Rightarrow> input_stop + effective_value" where
  "option_state linked env v =
     bind_res (confit_v2_evaluation_boolean_condition
         (confit_v2_evaluation_symbol_expression linked (ef_symbol v) ROLE_AVAILABLE_IF) env
         ''schema v2 available_if condition is unset'') (\<lambda>available.
       if \<not> available \<and> \<not> confit_v2_evaluation_value_is_disabled v
       then confit_v2_ledger_diagnostic (ef_source_path v) (ef_source_line v) (ef_source_column v) CONFIT_ERR_SCHEMA
              (if ef_origin v = EFFECTIVE_VALUE_REQUESTED then ''requested schema v2 value is unavailable''
               else ''schema v2 effective value is unavailable'')
       else
         bind_res (confit_v2_evaluation_boolean_condition
             (confit_v2_evaluation_symbol_expression linked (ef_symbol v) ROLE_VISIBLE_IF) env
             ''schema v2 visible_if condition is unset'') (\<lambda>visible.
           Inr (v\<lparr>ef_available := available, ef_visible := visible\<rparr>)))"

fun confit_v2_evaluation_option_states ::
  "linked_project \<Rightarrow> environment \<Rightarrow> effective_value list \<Rightarrow> input_stop + effective_value list" where
  "confit_v2_evaluation_option_states linked env [] = Inr []"
| "confit_v2_evaluation_option_states linked env (v # vs) =
     bind_res (option_state linked env v) (\<lambda>v.
     bind_res (confit_v2_evaluation_option_states linked env vs) (\<lambda>vs. Inr (v # vs)))"

section \<open>Choices\<close>

definition confit_v2_evaluation_find :: "effective_value list \<Rightarrow> string \<Rightarrow> effective_value option" where
  "confit_v2_evaluation_find vs option_id =
     (let low = lower_bound (\<lambda>m. strcmp (sym_id (ef_symbol (vs ! m))) option_id < 0) 0 (length vs)
      in if low < length vs \<and> strcmp (sym_id (ef_symbol (vs ! low))) option_id = 0 then Some (vs ! low) else None)"

text \<open>The loop over the defaults of a choice; \<open>i\<close> is the number of the condition.\<close>

fun choice_default_loop ::
  "choice_default list \<Rightarrow> environment \<Rightarrow> nat \<Rightarrow> linked_expression list \<Rightarrow> choice_default option
   \<Rightarrow> input_stop + choice_default option" where
  "choice_default_loop defaults env i [] selected = Inr selected"
| "choice_default_loop defaults env i (x # xs) selected =
     bind_res (condition_value x env ''schema v2 choice default condition is unset'') (\<lambda>holds.
     bind_res
       (if \<not> holds then Inr selected
        else bind_res (member (array_at defaults i)) (\<lambda>candidate.
          case selected of
            None \<Rightarrow> Inr (Some candidate)
          | Some best \<Rightarrow>
              if chd_priority best <s chd_priority candidate then Inr (Some candidate)
              else if chd_priority candidate = chd_priority best \<and> strcmp (chd_member candidate) (chd_member best) \<noteq> 0
              then span_diagnostic (chd_span candidate) CONFIT_ERR_SCHEMA ''ambiguous schema v2 choice default''
              else Inr selected))
       (choice_default_loop defaults env (i + 1) xs))"

definition confit_v2_evaluation_select_choice_default ::
  "compiled_choice \<Rightarrow> environment \<Rightarrow> input_stop + v2_symbol option" where
  "confit_v2_evaluation_select_choice_default choice env =
     bind_res (choice_default_loop (choice_defaults (cc_source choice)) env 0 (cc_default_when choice) None) (\<lambda>selected.
       case selected of
         None \<Rightarrow> Inr None
       | Some d \<Rightarrow>
           (case find (\<lambda>m. strcmp (sym_id m) (chd_member d) = 0) (cc_members choice) of
              None \<Rightarrow> span_diagnostic (chd_span d) CONFIT_ERR_INTERNAL kEvaluationAllocationFailed
            | Some m \<Rightarrow> Inr (Some m)))"

text \<open>The loop over the members counts those that are available and selected and keeps the first.\<close>

definition count_member ::
  "v2_choice \<Rightarrow> effective_value list \<Rightarrow> v2_symbol \<Rightarrow> choice_resolution \<Rightarrow> input_stop + choice_resolution" where
  "count_member source vs symbol out =
     (case confit_v2_evaluation_find vs (sym_id symbol) of
        None \<Rightarrow> span_diagnostic (choice_span source) CONFIT_ERR_INTERNAL kEvaluationAllocationFailed
      | Some v \<Rightarrow>
          if ef_available v \<and> confit_v2_evaluation_value_is_selected v
          then let count = cr_effective_member_count out + 1; out = out\<lparr>cr_effective_member_count := count\<rparr>
               in Inr (if count = 1
                       then out\<lparr>cr_selected_member := Some (ef_symbol v), cr_origin := SELECTION_EFFECTIVE_MEMBER\<rparr>
                       else out)
          else Inr out)"

definition choice_default_member ::
  "compiled_choice \<Rightarrow> effective_value list \<Rightarrow> environment \<Rightarrow> choice_resolution \<Rightarrow> input_stop + choice_resolution" where
  "choice_default_member choice vs env out =
     (if cr_effective_member_count out \<noteq> 0 then Inr out
      else
        bind_res (confit_v2_evaluation_select_choice_default choice env) (\<lambda>default_member.
          case default_member of
            None \<Rightarrow> Inr out
          | Some m \<Rightarrow>
              if (case confit_v2_evaluation_find vs (sym_id m) of None \<Rightarrow> True | Some effective \<Rightarrow> \<not> ef_available effective)
              then span_diagnostic (choice_span (cc_source choice)) CONFIT_ERR_SCHEMA
                     ''schema v2 choice default member is unavailable''
              else Inr (out\<lparr>cr_selected_member := Some m, cr_origin := SELECTION_DEFAULT\<rparr>)))"

definition check_cardinality :: "v2_choice \<Rightarrow> choice_resolution \<Rightarrow> input_stop + choice_resolution" where
  "check_cardinality source out =
     (if (choice_cardinality source = EXACTLY_ONE \<or> choice_cardinality source = ZERO_OR_ONE)
         \<and> cr_effective_member_count out > 1
      then span_diagnostic (choice_span source) CONFIT_ERR_SCHEMA ''schema v2 choice has too many selected members''
      else if (choice_cardinality source = EXACTLY_ONE \<or> choice_cardinality source = ONE_OR_MORE)
         \<and> cr_selected_member out = None
      then span_diagnostic (choice_span source) CONFIT_ERR_SCHEMA
             ''schema v2 choice requires an explicit member selection''
      else Inr out)"

definition confit_v2_evaluation_one_choice ::
  "effective_value list \<Rightarrow> environment \<Rightarrow> compiled_choice \<Rightarrow> input_stop + choice_resolution" where
  "confit_v2_evaluation_one_choice vs env choice =
     bind_res (confit_v2_evaluation_boolean_condition (cc_available_if choice) env
       ''schema v2 choice available_if condition is unset'') (\<lambda>available.
     bind_res (confit_v2_evaluation_boolean_condition (cc_visible_if choice) env
       ''schema v2 choice visible_if condition is unset'') (\<lambda>visible.
       let out = \<lparr>cr_choice = choice, cr_available = available, cr_visible = visible, cr_effective_member_count = 0,
                  cr_selected_member = None, cr_origin = SELECTION_NONE\<rparr>
       in if \<not> available then Inr out
          else
            bind_res (fold_res (count_member (cc_source choice) vs) (cc_members choice) out) (\<lambda>out.
            bind_res (choice_default_member choice vs env out) (check_cardinality (cc_source choice)))))"

fun confit_v2_evaluation_choices ::
  "effective_value list \<Rightarrow> environment \<Rightarrow> compiled_choice list \<Rightarrow> input_stop + choice_resolution list" where
  "confit_v2_evaluation_choices vs env [] = Inr []"
| "confit_v2_evaluation_choices vs env (c # cs) =
     bind_res (confit_v2_evaluation_one_choice vs env c) (\<lambda>r.
     bind_res (confit_v2_evaluation_choices vs env cs) (\<lambda>rs. Inr (r # rs)))"

section \<open>The evaluation\<close>

definition confit_v2_evaluation_build :: "assignment_ledger \<Rightarrow> input_stop + evaluation" where
  "confit_v2_evaluation_build ledger =
     (let compiled = al_compiled ledger; linked = cs_linked compiled
      in bind_res (confit_v2_evaluation_build_nodes linked) (\<lambda>nodes.
         bind_res (confit_v2_evaluation_topological_order nodes) (\<lambda>order.
         bind_res (fold_res (evaluate_node linked ledger) order
                     (map (\<lambda>n. initial_value (node_symbol n)) nodes, map (\<lambda>n. initial_binding (node_symbol n)) nodes)) (\<lambda>(vs, env).
         bind_res (confit_v2_evaluation_option_states linked env vs) (\<lambda>vs.
         bind_res (confit_v2_evaluation_choices vs env (cs_choices compiled)) (\<lambda>choices.
           Inr \<lparr>evl_ledger = ledger, evl_values = vs, evl_choices = choices\<rparr>))))))"

definition confit_v2_evaluation_value_at :: "evaluation \<Rightarrow> nat \<Rightarrow> effective_value option" where
  "confit_v2_evaluation_value_at evaluation i =
     (if i \<ge> length (evl_values evaluation) then None else Some (evl_values evaluation ! i))"

definition confit_v2_evaluation_choice_at :: "evaluation \<Rightarrow> nat \<Rightarrow> choice_resolution option" where
  "confit_v2_evaluation_choice_at evaluation i =
     (if i \<ge> length (evl_choices evaluation) then None else Some (evl_choices evaluation ! i))"

definition confit_v2_evaluation_find_choice :: "evaluation \<Rightarrow> string \<Rightarrow> choice_resolution option" where
  "confit_v2_evaluation_find_choice evaluation name =
     (let rs = evl_choices evaluation; id_at = (\<lambda>m. choice_id (cc_source (cr_choice (rs ! m))));
          low = lower_bound (\<lambda>m. strcmp (id_at m) name < 0) 0 (length rs)
      in if low < length rs \<and> strcmp (id_at low) name = 0 then Some (rs ! low) else None)"

text \<open>The hash; the functions over bytes, numbers, strings and values are those of \<open>plan.c\<close>, repeated.\<close>

definition hash_effective :: "u64 \<Rightarrow> effective_value \<Rightarrow> u64" where
  "hash_effective hash v =
     (let hash = confit_v2_ledger_hash_string hash (Some (sym_id (ef_symbol v)));
          hash = confit_v2_ledger_hash_u64 hash (if ef_is_set v then 1 else 0);
          hash = confit_v2_ledger_hash_u64 hash (of_nat (effective_origin_number (ef_origin v)))
      in if ef_is_set v then confit_v2_ledger_hash_value hash (ef_value v) else hash)"

definition confit_v2_evaluation_hash :: "evaluation \<Rightarrow> u64" where
  "confit_v2_evaluation_hash evaluation = foldl hash_effective 1469598103934665603 (evl_values evaluation)"

end
