(* ===== verification/Constraints.thy ===== *)
theory Constraints
  imports Effective
begin

text \<open>
  The validation of named constraints and suggestions in the final environment:
  \<open>src/constraint/v2/validate.c\<close> and \<open>explain.c\<close>, and the function of \<open>src/resolver/v2/evaluate.c\<close> that
  calls them. A report that is returned together with an error status is a pair of the report and the
  diagnostic. Two pointers into the options of a project are equal when the options are. A compiled
  constraint has a message. Allocation failure is not modelled.
\<close>

section \<open>Reports\<close>

record constraint_binding =
  cb_symbol :: "v2_symbol option"
  cb_value :: "v2_value option"
  cb_is_set :: bool
  cb_source_path :: "string option"
  cb_source_line :: nat
  cb_source_column :: nat

record constraint_read =
  rd_symbol :: v2_symbol
  rd_value :: "v2_value option"
  rd_is_set :: bool
  rd_source_path :: "string option"
  rd_source_line :: nat
  rd_source_column :: nat
  rd_expression_path :: "string option"
  rd_expression_line :: nat
  rd_expression_column :: nat

datatype constraint_outcome = CONSTRAINT_NOT_APPLICABLE | CONSTRAINT_PASSED | CONSTRAINT_FAILED

record constraint_result =
  res_constraint :: compiled_constraint
  res_outcome :: constraint_outcome
  res_reads :: "constraint_read list"
  res_related :: "related_span list"

datatype suggestion_state =
  SUGGESTION_NOT_APPLICABLE | SUGGESTION_SATISFIED | SUGGESTION_APPLICABLE | SUGGESTION_CONFLICTING

record suggestion_result =
  sr_symbol :: v2_symbol
  sr_suggestion :: suggestion
  sr_state :: suggestion_state

record constraint_report =
  rep_compiled :: compiled_structure
  rep_results :: "constraint_result list"
  rep_failure_count :: nat
  rep_suggestions :: "suggestion_result list"

definition kConstraintAllocationFailed :: string where
  "kConstraintAllocationFailed = ''failed to allocate schema v2 constraint validation data''"
definition kConstraintInvalidArgument :: string where
  "kConstraintInvalidArgument = ''invalid schema v2 constraint validation argument''"
definition kMissingBinding :: string where
  "kMissingBinding = ''final effective context is missing a schema v2 option binding''"
definition kConstraintFailureCode :: string where "kConstraintFailureCode = ''CONSTRAINT_REQUIRE_FAILED''"
definition kWhenNote :: string where "kWhenNote = ''constraint applicability expression''"
definition kRequireNote :: string where "kRequireNote = ''constraint requirement expression''"
definition kReadNote :: string where "kReadNote = ''constraint expression reads this effective value''"

section \<open>What an expression reads\<close>

text \<open>The last binding of the option and the number of its bindings.\<close>

fun find_binding_loop ::
  "constraint_binding list \<Rightarrow> string \<Rightarrow> constraint_binding option \<Rightarrow> nat \<Rightarrow> constraint_binding option \<times> nat" where
  "find_binding_loop [] symbol_id found matches = (found, matches)"
| "find_binding_loop (b # bindings) symbol_id found matches =
     (case cb_symbol b of
        None \<Rightarrow> find_binding_loop bindings symbol_id found matches
      | Some symbol \<Rightarrow>
          if strcmp (sym_id symbol) symbol_id = 0 then find_binding_loop bindings symbol_id (Some b) (matches + 1)
          else find_binding_loop bindings symbol_id found matches)"

definition confit_v2_constraint_find_binding ::
  "constraint_binding list \<Rightarrow> string \<Rightarrow> constraint_binding option \<times> nat" where
  "confit_v2_constraint_find_binding bindings symbol_id = find_binding_loop bindings symbol_id None 0"

definition confit_v2_constraint_expression_position ::
  "linked_expression \<Rightarrow> nat \<Rightarrow> string option \<times> nat \<times> nat" where
  "confit_v2_constraint_expression_position x offset =
     (let span = expression_span (lx_expression x)
      in (span_path span, advance_position (take offset (expression_source (lx_expression x))) (span_line span, span_column span)))"

definition confit_v2_constraint_append_related ::
  "string option \<Rightarrow> nat \<Rightarrow> nat \<Rightarrow> string \<Rightarrow> constraint_result \<Rightarrow> constraint_result" where
  "confit_v2_constraint_append_related path line column note result =
     result\<lparr>res_related := res_related result @
       [\<lparr>related_path = path, related_line = line, related_column = column, related_note = note\<rparr>]\<rparr>"

definition confit_v2_constraint_append_read ::
  "linked_expression \<Rightarrow> constraint_binding list \<Rightarrow> linked_reference \<Rightarrow> constraint_result
   \<Rightarrow> input_stop + constraint_result" where
  "confit_v2_constraint_append_read x bindings r result =
     (case confit_v2_constraint_find_binding bindings (sym_id (lref_symbol r)) of
        (Some b, Suc 0) \<Rightarrow>
          (case confit_v2_constraint_expression_position x (node_start (lref_node r)) of
             (path, line, column) \<Rightarrow>
               Inr (confit_v2_constraint_append_related path line column kReadNote
                 (result\<lparr>res_reads := res_reads result @
                    [\<lparr>rd_symbol = lref_symbol r, rd_value = (if cb_is_set b then cb_value b else None), rd_is_set = cb_is_set b,
                      rd_source_path = cb_source_path b, rd_source_line = cb_source_line b,
                      rd_source_column = cb_source_column b,
                      rd_expression_path = path, rd_expression_line = line, rd_expression_column = column\<rparr>]\<rparr>)))
      | _ \<Rightarrow> span_diagnostic (expression_span (lx_expression x)) CONFIT_ERR_INVALID_ARGUMENT
               ''invalid schema v2 constraint binding context'')"

definition confit_v2_constraint_collect_expression_reads ::
  "linked_expression \<Rightarrow> constraint_binding list \<Rightarrow> string \<Rightarrow> constraint_result \<Rightarrow> input_stop + constraint_result" where
  "confit_v2_constraint_collect_expression_reads x bindings expression_note result =
     (let span = expression_span (lx_expression x)
      in fold_res (confit_v2_constraint_append_read x bindings) (lx_references x)
           (confit_v2_constraint_append_related (span_path span) (span_line span) (span_column span) expression_note result))"

section \<open>Constraints\<close>

text \<open>The functions over values and conditions are those of \<open>evaluate.c\<close>, repeated.\<close>

definition confit_v2_constraint_value_equal :: "v2_value \<Rightarrow> v2_value \<Rightarrow> bool" where
  "confit_v2_constraint_value_equal left right = confit_v2_evaluation_value_equal left right"

definition confit_v2_constraint_boolean_expression ::
  "linked_expression \<Rightarrow> environment \<Rightarrow> string \<Rightarrow> input_stop + bool" where
  "confit_v2_constraint_boolean_expression x env unset_message = condition_value x env unset_message"

text \<open>The scan over all expressions of the linked project.\<close>

fun find_in_order :: "linked_role \<Rightarrow> string \<Rightarrow> nat \<Rightarrow> linked_expression list \<Rightarrow> linked_expression option" where
  "find_in_order role owner_id occurrence [] = None"
| "find_in_order role owner_id occurrence (x # xs) =
     (if lx_role x = role \<and> strcmp (lx_owner_id x) owner_id = 0
      then (if occurrence = 0 then Some x else find_in_order role owner_id (occurrence - 1) xs)
      else find_in_order role owner_id occurrence xs)"

definition confit_v2_constraint_find_expression ::
  "linked_project \<Rightarrow> linked_role \<Rightarrow> string \<Rightarrow> nat \<Rightarrow> linked_expression option" where
  "confit_v2_constraint_find_expression linked role owner_id occurrence =
     find_in_order role owner_id occurrence (lp_expressions linked)"

definition confit_v2_constraint_compare_result :: "constraint_result \<Rightarrow> constraint_result \<Rightarrow> int" where
  "confit_v2_constraint_compare_result left right =
     (let left_span = constraint_span (cn_source (res_constraint left));
          right_span = constraint_span (cn_source (res_constraint right));
          text = (\<lambda>path. case path of None \<Rightarrow> [] | Some s \<Rightarrow> s);
          compared = strcmp (text (span_path left_span)) (text (span_path right_span))
      in if compared \<noteq> 0 then compared
         else number_compare (span_line left_span) (span_line right_span)
           (number_compare (span_column left_span) (span_column right_span)
             (strcmp (constraint_id (cn_source (res_constraint left))) (constraint_id (cn_source (res_constraint right))))))"

definition environment_binding :: "constraint_binding list \<Rightarrow> v2_symbol \<Rightarrow> input_stop + ebinding" where
  "environment_binding bindings symbol =
     (case confit_v2_constraint_find_binding bindings (sym_id symbol) of
        (Some b, matches) \<Rightarrow>
          if matches \<noteq> 1 \<or> cb_symbol b \<noteq> Some symbol \<or> cb_is_set b \<and> cb_value b = None
          then span_diagnostic (sym_span symbol) CONFIT_ERR_INVALID_ARGUMENT kMissingBinding
          else Inr ((initial_binding symbol)\<lparr>bind_value := if cb_is_set b then cb_value b else None\<rparr>)
      | (None, matches) \<Rightarrow> span_diagnostic (sym_span symbol) CONFIT_ERR_INVALID_ARGUMENT kMissingBinding)"

definition confit_v2_constraint_build_environment ::
  "compiled_structure \<Rightarrow> constraint_binding list \<Rightarrow> input_stop + environment" where
  "confit_v2_constraint_build_environment compiled bindings =
     (let symbols = project_symbols (lp_project (cs_linked compiled))
      in if length bindings \<noteq> length symbols
         then confit_v2_ledger_diagnostic None 0 0 CONFIT_ERR_INVALID_ARGUMENT kConstraintInvalidArgument
         else fold_res (\<lambda>symbol env. bind_res (environment_binding bindings symbol) (\<lambda>b. Inr (env @ [b]))) symbols [])"

definition initial_result :: "compiled_constraint \<Rightarrow> constraint_result" where
  "initial_result constraint =
     \<lparr>res_constraint = constraint, res_outcome = CONSTRAINT_NOT_APPLICABLE, res_reads = [], res_related = []\<rparr>"

definition confit_v2_constraint_evaluate_one ::
  "environment \<Rightarrow> constraint_binding list \<Rightarrow> compiled_constraint \<Rightarrow> input_stop + constraint_result" where
  "confit_v2_constraint_evaluate_one env bindings constraint =
     bind_res (confit_v2_constraint_boolean_expression (cn_when constraint) env ''schema v2 constraint condition is unset'')
       (\<lambda>applicable.
     bind_res (confit_v2_constraint_collect_expression_reads (cn_when constraint) bindings kWhenNote (initial_result constraint))
       (\<lambda>result.
       if \<not> applicable then Inr (result\<lparr>res_outcome := CONSTRAINT_NOT_APPLICABLE\<rparr>)
       else
         bind_res (confit_v2_constraint_boolean_expression (cn_require constraint) env
                     ''schema v2 constraint requirement is unset'') (\<lambda>required.
         bind_res (confit_v2_constraint_collect_expression_reads (cn_require constraint) bindings kRequireNote result)
           (\<lambda>result. Inr (result\<lparr>res_outcome := if required then CONSTRAINT_PASSED else CONSTRAINT_FAILED\<rparr>)))))"

section \<open>Suggestions\<close>

definition confit_v2_constraint_symbol_compare :: "v2_symbol \<Rightarrow> v2_symbol \<Rightarrow> int" where
  "confit_v2_constraint_symbol_compare left right = strcmp (sym_id left) (sym_id right)"

definition suggestion_result_of ::
  "linked_project \<Rightarrow> environment \<Rightarrow> constraint_binding list \<Rightarrow> v2_symbol \<Rightarrow> nat \<Rightarrow> input_stop + suggestion_result" where
  "suggestion_result_of linked env bindings symbol i =
     (let result = \<lparr>sr_symbol = symbol, sr_suggestion = sym_suggestions symbol ! i, sr_state = SUGGESTION_NOT_APPLICABLE\<rparr>
      in case confit_v2_constraint_find_expression linked ROLE_SUGGESTION_WHEN (sym_id symbol) i of
           None \<Rightarrow> span_diagnostic (sym_span symbol) CONFIT_ERR_INTERNAL kConstraintAllocationFailed
         | Some x \<Rightarrow>
             bind_res (confit_v2_constraint_boolean_expression x env ''schema v2 suggestion condition is unset'') (\<lambda>applicable.
               if \<not> applicable then Inr result
               else case confit_v2_constraint_find_binding bindings (sym_id symbol) of
                      (Some b, Suc 0) \<Rightarrow>
                        bind_res (if \<not> cb_is_set b then Inr False
                                  else case cb_value b of
                                    None \<Rightarrow> Inl Undefined_Access
                                  | Some v \<Rightarrow> Inr (confit_v2_constraint_value_equal v
                                                      (assign_value (sugg_assignment (sr_suggestion result))))) (\<lambda>same.
                          Inr (result\<lparr>sr_state := if same then SUGGESTION_SATISFIED else SUGGESTION_APPLICABLE\<rparr>))
                    | _ \<Rightarrow> span_diagnostic (sym_span symbol) CONFIT_ERR_INVALID_ARGUMENT kMissingBinding))"

definition symbol_suggestions ::
  "linked_project \<Rightarrow> environment \<Rightarrow> constraint_binding list \<Rightarrow> v2_symbol \<Rightarrow> suggestion_result list
   \<Rightarrow> input_stop + suggestion_result list" where
  "symbol_suggestions linked env bindings symbol =
     fold_res (\<lambda>i results. bind_res (suggestion_result_of linked env bindings symbol i) (\<lambda>r. Inr (results @ [r])))
       [0..<length (sym_suggestions symbol)]"

text \<open>One round of the last loop, which marks a suggestion that another one contradicts.\<close>

definition mark_conflict :: "nat \<Rightarrow> suggestion_result list \<Rightarrow> suggestion_result list" where
  "mark_conflict i results =
     (let result = results ! i
      in if sr_state result = SUGGESTION_NOT_APPLICABLE then results
         else if list_ex (\<lambda>other. let candidate = results ! other
                in i \<noteq> other \<and> sr_state candidate \<noteq> SUGGESTION_NOT_APPLICABLE \<and> sr_symbol candidate = sr_symbol result
                  \<and> \<not> confit_v2_constraint_value_equal (assign_value (sugg_assignment (sr_suggestion candidate)))
                        (assign_value (sugg_assignment (sr_suggestion result)))) [0..<length results]
         then results[i := result\<lparr>sr_state := SUGGESTION_CONFLICTING\<rparr>]
         else results)"

definition confit_v2_constraint_suggestions ::
  "compiled_structure \<Rightarrow> environment \<Rightarrow> constraint_binding list \<Rightarrow> input_stop + suggestion_result list" where
  "confit_v2_constraint_suggestions compiled env bindings =
     (let linked = cs_linked compiled; symbols = project_symbols (lp_project linked)
      in if sum_list (map (\<lambda>s. length (sym_suggestions s)) symbols) = 0 then Inr []
         else
           bind_res (fold_res (symbol_suggestions linked env bindings)
                       (qsort_by confit_v2_constraint_symbol_compare symbols) []) (\<lambda>results.
             Inr (fold mark_conflict [0..<length results] results)))"

section \<open>The report\<close>

definition failure_diagnostic :: "constraint_result list \<Rightarrow> diagnostic option" where
  "failure_diagnostic results =
     map_option (\<lambda>r. let source = cn_source (res_constraint r); span = constraint_span source
         in confit_diagnostic_set_detail CONFIT_ERR_SCHEMA SEVERITY_ERROR (Some kConstraintFailureCode)
              (span_path span) (span_line span) (span_column span)
              (case constraint_message source of None \<Rightarrow> [] | Some m \<Rightarrow> m) (res_related r) [])
       (find (\<lambda>r. res_outcome r = CONSTRAINT_FAILED) results)"

definition confit_v2_constraint_validate ::
  "compiled_structure \<Rightarrow> constraint_binding list \<Rightarrow> input_stop + constraint_report \<times> diagnostic option" where
  "confit_v2_constraint_validate compiled bindings =
     bind_res (confit_v2_constraint_build_environment compiled bindings) (\<lambda>env.
     bind_res (fold_res (\<lambda>c (results, failures).
         bind_res (confit_v2_constraint_evaluate_one env bindings c) (\<lambda>r.
           Inr (results @ [r], if res_outcome r = CONSTRAINT_FAILED then failures + 1 else failures)))
       (cs_constraints compiled) ([], 0)) (\<lambda>(results, failures).
     bind_res (confit_v2_constraint_suggestions compiled env bindings) (\<lambda>suggestions.
       let results = qsort_by confit_v2_constraint_compare_result results
       in Inr (\<lparr>rep_compiled = compiled, rep_results = results, rep_failure_count = failures, rep_suggestions = suggestions\<rparr>,
               if failures > 0 then failure_diagnostic results else None))))"

definition confit_v2_constraint_report_result_at :: "constraint_report \<Rightarrow> nat \<Rightarrow> constraint_result option" where
  "confit_v2_constraint_report_result_at report i =
     (if i \<ge> length (rep_results report) then None else Some (rep_results report ! i))"

definition confit_v2_constraint_report_suggestion_at :: "constraint_report \<Rightarrow> nat \<Rightarrow> suggestion_result option" where
  "confit_v2_constraint_report_suggestion_at report i =
     (if i \<ge> length (rep_suggestions report) then None else Some (rep_suggestions report ! i))"

definition final_binding :: "effective_value \<Rightarrow> constraint_binding" where
  "final_binding v =
     \<lparr>cb_symbol = Some (ef_symbol v), cb_value = effective_binding v, cb_is_set = ef_is_set v,
      cb_source_path = ef_source_path v, cb_source_line = ef_source_line v, cb_source_column = ef_source_column v\<rparr>"

definition confit_v2_evaluation_validate_constraints ::
  "evaluation \<Rightarrow> input_stop + constraint_report \<times> diagnostic option" where
  "confit_v2_evaluation_validate_constraints evaluation =
     confit_v2_constraint_validate (al_compiled (evl_ledger evaluation)) (map final_binding (evl_values evaluation))"

end
