(* ===== verification/Snapshot.thy ===== *)
theory Snapshot
  imports Constraints
begin

text \<open>
  Snapshots: \<open>src/resolver/v2/snapshot.c\<close> and the reverse index of \<open>incremental.c\<close>, which a snapshot holds.
  Copies of texts and values are the texts and values themselves; two handles are the same when
  they are equal. Allocation failure is not modelled.
\<close>

section \<open>Snapshots\<close>

datatype provenance_kind =
  PROVENANCE_SCHEMA_DEFAULT | PROVENANCE_CONDITIONAL_DEFAULT | PROVENANCE_PROFILE_ASSIGNMENT
| PROVENANCE_TARGET_ASSIGNMENT | PROVENANCE_USER_ASSIGNMENT | PROVENANCE_COMPUTED | PROVENANCE_CHOICE_DECISION
| PROVENANCE_CONSTRAINT | PROVENANCE_UNSET | PROVENANCE_EFFECTIVE_VALUE

record snapshot_assignment =
  sa_is_set :: bool
  sa_is_unset :: bool
  sa_origin :: assignment_origin
  sa_value :: v2_value
  sa_source_path :: "string option"
  sa_source_line :: nat
  sa_source_column :: nat

text \<open>\<open>requested\<close> is \<open>None\<close> where \<open>is_present\<close> is 0.\<close>

record snapshot_option =
  so_id :: string
  so_type :: option_type
  so_write_domain :: write_domain
  so_emit_mask :: u32
  so_available :: bool
  so_visible :: bool
  so_requested :: "snapshot_assignment option"
  so_effective_is_set :: bool
  so_effective_origin :: effective_origin
  so_effective_value :: v2_value
  so_effective_source_path :: "string option"
  so_effective_source_line :: nat
  so_effective_source_column :: nat

record snapshot_choice =
  sc_id :: string
  sc_available :: bool
  sc_visible :: bool
  sc_effective_member_count :: nat
  sc_selected_member_id :: "string option"
  sc_origin :: choice_selection_origin

record snapshot_constraint =
  sk_id :: string
  sk_outcome :: constraint_outcome
  sk_message :: "string option"
  sk_source_path :: "string option"
  sk_source_line :: nat
  sk_source_column :: nat

record provenance_node =
  pn_kind :: provenance_kind
  pn_subject_id :: string
  pn_source_path :: "string option"
  pn_source_line :: nat
  pn_source_column :: nat

record provenance_edge =
  pe_from_index :: nat
  pe_to_index :: nat

datatype invalidation_kind = INVALIDATION_OPTION | INVALIDATION_CHOICE | INVALIDATION_CONSTRAINT

fun invalidation_number :: "invalidation_kind \<Rightarrow> nat" where
  "invalidation_number INVALIDATION_OPTION = 1"
| "invalidation_number INVALIDATION_CHOICE = 2"
| "invalidation_number INVALIDATION_CONSTRAINT = 3"

record invalidation_node =
  in_kind :: invalidation_kind
  in_id :: string

record reverse_node =
  rn_node :: invalidation_node
  rn_dependents :: "nat list"

record snapshot =
  sn_project_name :: string
  sn_project_namespace :: string
  sn_project_version :: "string option"
  sn_source_root :: string
  sn_profile_name :: "string option"
  sn_target_name :: "string option"
  sn_source_hash :: u64
  sn_input_hash :: u64
  sn_semantic_hash :: u64
  sn_options :: "snapshot_option list"
  sn_choices :: "snapshot_choice list"
  sn_constraints :: "snapshot_constraint list"
  sn_provenance_nodes :: "provenance_node list"
  sn_provenance_edges :: "provenance_edge list"
  sn_reverse_nodes :: "reverse_node list"

definition kSnapshotAllocationFailed :: string where
  "kSnapshotAllocationFailed = ''failed to allocate schema v2 immutable snapshot''"

section \<open>Copies\<close>

definition confit_v2_snapshot_requested_kind :: "ledger_entry option \<Rightarrow> provenance_kind" where
  "confit_v2_snapshot_requested_kind requested =
     (case requested of
        None \<Rightarrow> PROVENANCE_UNSET
      | Some e \<Rightarrow>
          if le_is_unset e then PROVENANCE_UNSET
          else (case le_origin e of
             ORIGIN_SCHEMA_DEFAULT \<Rightarrow> PROVENANCE_SCHEMA_DEFAULT
           | ORIGIN_PROFILE \<Rightarrow> PROVENANCE_PROFILE_ASSIGNMENT
           | ORIGIN_TARGET \<Rightarrow> PROVENANCE_TARGET_ASSIGNMENT
           | ORIGIN_USER \<Rightarrow> PROVENANCE_USER_ASSIGNMENT
           | ORIGIN_UNSET \<Rightarrow> PROVENANCE_UNSET))"

fun confit_v2_snapshot_effective_kind :: "effective_origin \<Rightarrow> provenance_kind" where
  "confit_v2_snapshot_effective_kind EFFECTIVE_VALUE_CONDITIONAL_DEFAULT = PROVENANCE_CONDITIONAL_DEFAULT"
| "confit_v2_snapshot_effective_kind EFFECTIVE_VALUE_DEFAULT = PROVENANCE_SCHEMA_DEFAULT"
| "confit_v2_snapshot_effective_kind EFFECTIVE_VALUE_COMPUTED = PROVENANCE_COMPUTED"
| "confit_v2_snapshot_effective_kind EFFECTIVE_VALUE_UNSET = PROVENANCE_UNSET"
| "confit_v2_snapshot_effective_kind _ = PROVENANCE_EFFECTIVE_VALUE"

definition copy_requested :: "ledger_entry \<Rightarrow> snapshot_assignment" where
  "copy_requested e =
     \<lparr>sa_is_set = \<not> le_is_unset e, sa_is_unset = le_is_unset e, sa_origin = le_origin e,
      sa_value = (if le_is_unset e then V_Unset else le_value e), sa_source_path = le_source_path e,
      sa_source_line = le_source_line e, sa_source_column = le_source_column e\<rparr>"

definition confit_v2_snapshot_copy_option :: "effective_value \<Rightarrow> snapshot_option" where
  "confit_v2_snapshot_copy_option v =
     \<lparr>so_id = sym_id (ef_symbol v), so_type = sym_type (ef_symbol v), so_write_domain = sym_write_domain (ef_symbol v),
      so_emit_mask = sym_emit_mask (ef_symbol v), so_available = ef_available v, so_visible = ef_visible v,
      so_requested = map_option copy_requested (ef_requested v), so_effective_is_set = ef_is_set v,
      so_effective_origin = ef_origin v, so_effective_value = (if ef_is_set v then ef_value v else V_Unset),
      so_effective_source_path = ef_source_path v, so_effective_source_line = ef_source_line v,
      so_effective_source_column = ef_source_column v\<rparr>"

definition copy_choice :: "choice_resolution \<Rightarrow> snapshot_choice" where
  "copy_choice r =
     \<lparr>sc_id = choice_id (cc_source (cr_choice r)), sc_available = cr_available r, sc_visible = cr_visible r,
      sc_effective_member_count = cr_effective_member_count r,
      sc_selected_member_id = map_option sym_id (cr_selected_member r), sc_origin = cr_origin r\<rparr>"

definition confit_v2_snapshot_copy_choices :: "evaluation \<Rightarrow> snapshot_choice list" where
  "confit_v2_snapshot_copy_choices evaluation = map copy_choice (evl_choices evaluation)"

definition copy_constraint :: "constraint_result \<Rightarrow> snapshot_constraint" where
  "copy_constraint r =
     (let source = cn_source (res_constraint r); span = constraint_span source
      in \<lparr>sk_id = constraint_id source, sk_outcome = res_outcome r, sk_message = constraint_message source,
          sk_source_path = span_path span, sk_source_line = span_line span, sk_source_column = span_column span\<rparr>)"

definition confit_v2_snapshot_copy_constraints :: "constraint_report \<Rightarrow> snapshot_constraint list" where
  "confit_v2_snapshot_copy_constraints report = map copy_constraint (rep_results report)"

section \<open>Provenance\<close>

text \<open>The two growing arrays; appending a node returns its index.\<close>

type_synonym provenance = "provenance_node list \<times> provenance_edge list"

definition confit_v2_snapshot_append_provenance_node ::
  "provenance_kind \<Rightarrow> string \<Rightarrow> string option \<Rightarrow> nat \<Rightarrow> nat \<Rightarrow> provenance \<Rightarrow> nat \<times> provenance" where
  "confit_v2_snapshot_append_provenance_node kind subject path line column g =
     (length (fst g),
      (fst g @ [\<lparr>pn_kind = kind, pn_subject_id = subject, pn_source_path = path, pn_source_line = line,
                 pn_source_column = column\<rparr>], snd g))"

definition confit_v2_snapshot_append_provenance_edge :: "nat \<Rightarrow> nat \<Rightarrow> provenance \<Rightarrow> provenance" where
  "confit_v2_snapshot_append_provenance_edge from_index to_index g =
     (fst g, snd g @ [\<lparr>pe_from_index = from_index, pe_to_index = to_index\<rparr>])"

definition option_provenance :: "effective_value \<Rightarrow> nat list \<times> provenance \<Rightarrow> nat list \<times> provenance" where
  "option_provenance v = (\<lambda>(effective_nodes, g).
     let name = sym_id (ef_symbol v);
         own = (\<lambda>kind. confit_v2_snapshot_append_provenance_node kind name (ef_source_path v) (ef_source_line v) (ef_source_column v));
         (cause, g) = (case ef_requested v of
            None \<Rightarrow> own (confit_v2_snapshot_requested_kind None) g
          | Some e \<Rightarrow> confit_v2_snapshot_append_provenance_node (confit_v2_snapshot_requested_kind (Some e)) name
                        (le_source_path e) (le_source_line e) (le_source_column e) g);
         (cause, g) = (if ef_origin v \<noteq> EFFECTIVE_VALUE_REQUESTED
                       then own (confit_v2_snapshot_effective_kind (ef_origin v)) g else (cause, g));
         (effective, g) = own PROVENANCE_EFFECTIVE_VALUE g
     in (effective_nodes @ [effective], confit_v2_snapshot_append_provenance_edge cause effective g))"

definition choice_provenance ::
  "snapshot_option list \<Rightarrow> nat list \<Rightarrow> snapshot_choice \<Rightarrow> provenance \<Rightarrow> provenance" where
  "choice_provenance options effective_nodes choice g =
     (let (choice_node, g) = confit_v2_snapshot_append_provenance_node PROVENANCE_CHOICE_DECISION (sc_id choice) None 0 0 g
      in fold (\<lambda>i g. case sc_selected_member_id choice of
                None \<Rightarrow> g
              | Some m \<Rightarrow>
                  if strcmp m (so_id (options ! i)) = 0
                  then confit_v2_snapshot_append_provenance_edge choice_node (effective_nodes ! i) g else g)
           [0..<length options] g)"

definition constraint_provenance ::
  "snapshot_option list \<Rightarrow> nat list \<Rightarrow> constraint_result \<Rightarrow> provenance \<Rightarrow> provenance" where
  "constraint_provenance options effective_nodes result g =
     (let k = copy_constraint result;
          (constraint_node, g) = confit_v2_snapshot_append_provenance_node PROVENANCE_CONSTRAINT (sk_id k)
             (sk_source_path k) (sk_source_line k) (sk_source_column k) g
      in fold (\<lambda>rd g. case find (\<lambda>i. strcmp (sym_id (rd_symbol rd)) (so_id (options ! i)) = 0) [0..<length options] of
                None \<Rightarrow> g
              | Some i \<Rightarrow> confit_v2_snapshot_append_provenance_edge (effective_nodes ! i) constraint_node g)
           (res_reads result) g)"

definition confit_v2_snapshot_build_provenance ::
  "snapshot_option list \<Rightarrow> snapshot_choice list \<Rightarrow> evaluation \<Rightarrow> constraint_report \<Rightarrow> provenance" where
  "confit_v2_snapshot_build_provenance options choices evaluation report =
     (case fold option_provenance (evl_values evaluation) ([], ([], [])) of
        (effective_nodes, g) \<Rightarrow>
          fold (constraint_provenance options effective_nodes) (rep_results report)
            (fold (choice_provenance options effective_nodes) choices g))"

section \<open>The reverse index\<close>

definition confit_v2_invalidation_node_compare :: "invalidation_node \<Rightarrow> invalidation_node \<Rightarrow> int" where
  "confit_v2_invalidation_node_compare left right =
     number_compare (invalidation_number (in_kind left)) (invalidation_number (in_kind right))
       (strcmp (in_id left) (in_id right))"

definition confit_v2_reverse_node_compare :: "reverse_node \<Rightarrow> reverse_node \<Rightarrow> int" where
  "confit_v2_reverse_node_compare left right = confit_v2_invalidation_node_compare (rn_node left) (rn_node right)"

definition confit_v2_snapshot_reverse_append ::
  "invalidation_kind \<Rightarrow> string \<Rightarrow> reverse_node list \<Rightarrow> reverse_node list" where
  "confit_v2_snapshot_reverse_append kind name nodes =
     nodes @ [\<lparr>rn_node = \<lparr>in_kind = kind, in_id = name\<rparr>, rn_dependents = []\<rparr>]"

definition confit_v2_snapshot_reverse_lower_bound :: "reverse_node list \<Rightarrow> invalidation_kind \<Rightarrow> string \<Rightarrow> nat" where
  "confit_v2_snapshot_reverse_lower_bound nodes kind name =
     lower_bound (\<lambda>m. confit_v2_invalidation_node_compare (rn_node (nodes ! m)) \<lparr>in_kind = kind, in_id = name\<rparr> < 0)
       0 (length nodes)"

text \<open>The index of the node that is found.\<close>

definition confit_v2_snapshot_reverse_node_find :: "reverse_node list \<Rightarrow> invalidation_kind \<Rightarrow> string \<Rightarrow> nat option" where
  "confit_v2_snapshot_reverse_node_find nodes kind name =
     (let i = confit_v2_snapshot_reverse_lower_bound nodes kind name
      in if i \<ge> length nodes \<or> in_kind (rn_node (nodes ! i)) \<noteq> kind \<or> strcmp (in_id (rn_node (nodes ! i))) name \<noteq> 0
         then None else Some i)"

definition confit_v2_snapshot_owner_kind :: "reverse_node list \<Rightarrow> graph_kind \<Rightarrow> string \<Rightarrow> invalidation_kind" where
  "confit_v2_snapshot_owner_kind nodes kind owner_id =
     (if kind = GRAPH_CONSTRAINT then INVALIDATION_CONSTRAINT
      else if confit_v2_snapshot_reverse_node_find nodes INVALIDATION_OPTION owner_id \<noteq> None then INVALIDATION_OPTION
      else INVALIDATION_CHOICE)"

definition confit_v2_snapshot_reverse_add_dependency :: "nat \<Rightarrow> nat \<Rightarrow> reverse_node list \<Rightarrow> reverse_node list" where
  "confit_v2_snapshot_reverse_add_dependency i dependent nodes =
     (let node = nodes ! i
      in if list_ex (\<lambda>d. d = dependent) (rn_dependents node) then nodes
         else nodes[i := node\<lparr>rn_dependents := rn_dependents node @ [dependent]\<rparr>])"

definition reverse_edge :: "graph_kind \<Rightarrow> graph_edge \<Rightarrow> reverse_node list \<Rightarrow> reverse_node list" where
  "reverse_edge kind edge nodes =
     (let owner_kind = confit_v2_snapshot_owner_kind nodes kind (edge_owner_id edge)
      in case (confit_v2_snapshot_reverse_node_find nodes INVALIDATION_OPTION (sym_id (edge_target edge)),
               confit_v2_snapshot_reverse_node_find nodes owner_kind (edge_owner_id edge)) of
           (Some source, Some owner) \<Rightarrow> confit_v2_snapshot_reverse_add_dependency source owner nodes
         | _ \<Rightarrow> nodes)"

definition confit_v2_snapshot_build_reverse_index ::
  "snapshot_option list \<Rightarrow> snapshot_choice list \<Rightarrow> snapshot_constraint list \<Rightarrow> compiled_structure \<Rightarrow> reverse_node list" where
  "confit_v2_snapshot_build_reverse_index options choices constraints compiled =
     (let nodes = fold (\<lambda>v. confit_v2_snapshot_reverse_append INVALIDATION_OPTION (so_id v)) options [];
          nodes = fold (\<lambda>c. confit_v2_snapshot_reverse_append INVALIDATION_CHOICE (sc_id c)) choices nodes;
          nodes = fold (\<lambda>k. confit_v2_snapshot_reverse_append INVALIDATION_CONSTRAINT (sk_id k)) constraints nodes;
          nodes = qsort_by confit_v2_reverse_node_compare nodes
      in fold (\<lambda>kind. fold (reverse_edge kind) (graph_edges (confit_v2_compiled_structure_graph compiled kind)))
           [GRAPH_EVALUATION, GRAPH_VISIBILITY, GRAPH_CHOICE, GRAPH_CONSTRAINT] nodes)"

section \<open>Hashes\<close>

text \<open>The functions over bytes, numbers, strings and values are those of \<open>plan.c\<close>, repeated.\<close>

definition confit_v2_snapshot_hash_u64 :: "u64 \<Rightarrow> u64 \<Rightarrow> u64" where
  "confit_v2_snapshot_hash_u64 v hash = confit_v2_ledger_hash_u64 hash v"
definition confit_v2_snapshot_hash_string :: "string option \<Rightarrow> u64 \<Rightarrow> u64" where
  "confit_v2_snapshot_hash_string t hash = confit_v2_ledger_hash_string hash t"
definition confit_v2_snapshot_hash_value :: "v2_value \<Rightarrow> u64 \<Rightarrow> u64" where
  "confit_v2_snapshot_hash_value v hash = confit_v2_ledger_hash_value hash v"

abbreviation hash_number :: "nat \<Rightarrow> u64 \<Rightarrow> u64" where "hash_number n \<equiv> confit_v2_snapshot_hash_u64 (of_nat n)"
abbreviation hash_flag :: "bool \<Rightarrow> u64 \<Rightarrow> u64" where "hash_flag b \<equiv> hash_number (if b then 1 else 0)"
abbreviation hash_text :: "string \<Rightarrow> u64 \<Rightarrow> u64" where "hash_text s \<equiv> confit_v2_snapshot_hash_string (Some s)"

fun option_type_number :: "option_type \<Rightarrow> nat" where
  "option_type_number OPTION_INVALID = 0"
| "option_type_number OPTION_BOOL = 1"
| "option_type_number OPTION_TRISTATE = 2"
| "option_type_number OPTION_INT = 3"
| "option_type_number OPTION_UINT = 4"
| "option_type_number OPTION_HEX = 5"
| "option_type_number OPTION_FLOAT = 6"
| "option_type_number OPTION_STRING = 7"
| "option_type_number OPTION_ENUM = 8"
| "option_type_number OPTION_PATH = 9"
| "option_type_number OPTION_STRING_LIST = 10"
| "option_type_number OPTION_PATH_LIST = 11"
| "option_type_number OPTION_ENUM_SET = 12"

fun cardinality_number :: "choice_cardinality \<Rightarrow> nat" where
  "cardinality_number CARDINALITY_INVALID = 0"
| "cardinality_number EXACTLY_ONE = 1"
| "cardinality_number ZERO_OR_ONE = 2"
| "cardinality_number ONE_OR_MORE = 3"

fun selection_number :: "choice_selection_origin \<Rightarrow> nat" where
  "selection_number SELECTION_NONE = 0"
| "selection_number SELECTION_EFFECTIVE_MEMBER = 1"
| "selection_number SELECTION_DEFAULT = 2"

fun outcome_number :: "constraint_outcome \<Rightarrow> nat" where
  "outcome_number CONSTRAINT_NOT_APPLICABLE = 0"
| "outcome_number CONSTRAINT_PASSED = 1"
| "outcome_number CONSTRAINT_FAILED = 2"

definition hash_symbol :: "v2_symbol \<Rightarrow> u64 \<Rightarrow> u64" where
  "hash_symbol symbol hash =
     (let hash = hash_text (sym_id symbol) hash;
          hash = hash_number (option_type_number (sym_type symbol)) hash;
          hash = hash_number (domain_number (sym_write_domain symbol)) hash;
          hash = hash_flag (sym_required symbol) hash;
          hash = hash_flag (sym_user_override symbol) hash;
          hash = confit_v2_snapshot_hash_u64 (ucast (sym_emit_mask symbol)) hash;
          hash = confit_v2_snapshot_hash_string (expr_text (sym_computed symbol)) hash;
          hash = confit_v2_snapshot_hash_string (expr_text (sym_available_if symbol)) hash;
          hash = confit_v2_snapshot_hash_string (expr_text (sym_visible_if symbol)) hash;
          hash = hash_flag (assign_is_set (sym_default_value symbol)) hash;
          hash = (if assign_is_set (sym_default_value symbol)
                  then confit_v2_snapshot_hash_value (assign_value (sym_default_value symbol)) hash else hash);
          hash = hash_number (length (sym_defaults symbol)) hash
      in fold (\<lambda>d hash. confit_v2_snapshot_hash_value (assign_value (cond_assignment d))
                 (confit_v2_snapshot_hash_u64 (ucast (cond_priority d))
                   (confit_v2_snapshot_hash_string (expr_text (cond_when d)) hash))) (sym_defaults symbol) hash)"

definition confit_v2_snapshot_hash_source :: "evaluation \<Rightarrow> u64" where
  "confit_v2_snapshot_hash_source evaluation =
     (let compiled = al_compiled (evl_ledger evaluation); project = lp_project (cs_linked compiled);
          hash = confit_v2_snapshot_hash_string (project_name project) 1469598103934665603;
          hash = confit_v2_snapshot_hash_string (project_namespace project) hash;
          hash = confit_v2_snapshot_hash_string (project_version project) hash;
          hash = fold (\<lambda>v. hash_symbol (ef_symbol v)) (evl_values evaluation) hash;
          hash = fold (\<lambda>c hash. hash_number (cardinality_number (choice_cardinality (cc_source c)))
                         (hash_text (choice_id (cc_source c)) hash)) (cs_choices compiled) hash
      in fold (\<lambda>k hash. confit_v2_snapshot_hash_string (expr_text (constraint_require (cn_source k)))
                 (confit_v2_snapshot_hash_string (expr_text (constraint_when (cn_source k)))
                   (hash_text (constraint_id (cn_source k)) hash))) (cs_constraints compiled) hash)"

definition hash_input_entry :: "ledger_entry \<Rightarrow> u64 \<Rightarrow> u64" where
  "hash_input_entry e hash =
     (let hash = hash_text (sym_id (le_symbol e)) hash;
          hash = hash_number (origin_number (le_origin e)) hash;
          hash = hash_number (domain_number (le_domain e)) hash;
          hash = hash_flag (le_is_unset e) hash;
          hash = hash_flag (le_wins e) hash;
          hash = hash_number (le_precedence e) hash;
          hash = hash_number (le_declaration_order e) hash
      in confit_v2_snapshot_hash_value (le_value e) hash)"

definition confit_v2_assignment_ledger_target_name :: "assignment_ledger \<Rightarrow> string option" where
  "confit_v2_assignment_ledger_target_name ledger = map_option ts_name (al_target_selection ledger)"

definition confit_v2_snapshot_hash_input :: "assignment_ledger \<Rightarrow> u64" where
  "confit_v2_snapshot_hash_input ledger =
     fold hash_input_entry (al_entries ledger)
       (confit_v2_snapshot_hash_string (confit_v2_assignment_ledger_target_name ledger)
         (confit_v2_snapshot_hash_string (al_profile_name ledger) 1469598103934665603))"

definition hash_option :: "snapshot_option \<Rightarrow> u64 \<Rightarrow> u64" where
  "hash_option o1 hash =
     (let hash = hash_text (so_id o1) hash;
          hash = hash_flag (so_available o1) hash;
          hash = hash_flag (so_visible o1) hash;
          hash = hash_flag (so_effective_is_set o1) hash;
          hash = hash_number (effective_origin_number (so_effective_origin o1)) hash
      in if so_effective_is_set o1 then confit_v2_snapshot_hash_value (so_effective_value o1) hash else hash)"

definition hash_choice :: "snapshot_choice \<Rightarrow> u64 \<Rightarrow> u64" where
  "hash_choice c hash =
     (let hash = hash_text (sc_id c) hash;
          hash = hash_flag (sc_available c) hash;
          hash = hash_flag (sc_visible c) hash;
          hash = hash_number (sc_effective_member_count c) hash;
          hash = confit_v2_snapshot_hash_string (sc_selected_member_id c) hash
      in hash_number (selection_number (sc_origin c)) hash)"

definition confit_v2_snapshot_hash_semantic ::
  "snapshot_option list \<Rightarrow> snapshot_choice list \<Rightarrow> snapshot_constraint list \<Rightarrow> u64" where
  "confit_v2_snapshot_hash_semantic options choices constraints =
     fold (\<lambda>k hash. hash_number (outcome_number (sk_outcome k)) (hash_text (sk_id k) hash)) constraints
       (fold hash_choice choices (fold hash_option options 1469598103934665603))"

section \<open>Freezing and resolving\<close>

definition confit_v2_snapshot_freeze ::
  "assignment_ledger \<Rightarrow> evaluation \<Rightarrow> constraint_report \<Rightarrow> input_stop + snapshot" where
  "confit_v2_snapshot_freeze ledger evaluation report =
     (let compiled = al_compiled ledger; project = lp_project (cs_linked compiled);
          stop = confit_v2_ledger_diagnostic None 0 0
      in if evl_ledger evaluation \<noteq> ledger \<or> rep_compiled report \<noteq> compiled
         then stop CONFIT_ERR_INVALID_ARGUMENT ''invalid schema v2 snapshot freeze argument''
         else if rep_failure_count report \<noteq> 0
         then stop CONFIT_ERR_SCHEMA ''schema v2 constraint failure prevents snapshot publish''
         else case (project_name project, project_namespace project, project_config_root project) of
           (Some name, Some namespace, Some root) \<Rightarrow>
             let options = map confit_v2_snapshot_copy_option (evl_values evaluation);
                 choices = confit_v2_snapshot_copy_choices evaluation;
                 constraints = confit_v2_snapshot_copy_constraints report;
                 provenance = confit_v2_snapshot_build_provenance options choices evaluation report
             in Inr \<lparr>sn_project_name = name, sn_project_namespace = namespace,
                     sn_project_version = project_version project, sn_source_root = root,
                     sn_profile_name = al_profile_name ledger,
                     sn_target_name = confit_v2_assignment_ledger_target_name ledger,
                     sn_source_hash = confit_v2_snapshot_hash_source evaluation,
                     sn_input_hash = confit_v2_snapshot_hash_input ledger,
                     sn_semantic_hash = confit_v2_snapshot_hash_semantic options choices constraints,
                     sn_options = options, sn_choices = choices, sn_constraints = constraints,
                     sn_provenance_nodes = fst provenance, sn_provenance_edges = snd provenance,
                     sn_reverse_nodes = confit_v2_snapshot_build_reverse_index options choices constraints compiled\<rparr>
         | _ \<Rightarrow> stop CONFIT_ERR_INTERNAL kSnapshotAllocationFailed)"

text \<open>A report with a diagnostic is the status of an error.\<close>

definition confit_v2_snapshot_resolve ::
  "input_services \<Rightarrow> compiled_structure \<Rightarrow> ledger_options option \<Rightarrow> input_stop + snapshot" where
  "confit_v2_snapshot_resolve services compiled options =
     bind_res (confit_v2_assignment_ledger_build services compiled options) (\<lambda>ledger.
     bind_res (confit_v2_evaluation_build ledger) (\<lambda>evaluation.
     bind_res (confit_v2_evaluation_validate_constraints evaluation) (\<lambda>(report, failure).
       case failure of
         Some d \<Rightarrow> Inl (Diagnosed d)
       | None \<Rightarrow> confit_v2_snapshot_freeze ledger evaluation report)))"

definition confit_v2_snapshot_find_option :: "snapshot \<Rightarrow> string \<Rightarrow> snapshot_option option" where
  "confit_v2_snapshot_find_option s option_id =
     (let options = sn_options s;
          low = lower_bound (\<lambda>m. strcmp (so_id (options ! m)) option_id < 0) 0 (length options)
      in if low < length options \<and> strcmp (so_id (options ! low)) option_id = 0 then Some (options ! low) else None)"

definition confit_v2_snapshot_option_at :: "snapshot \<Rightarrow> nat \<Rightarrow> snapshot_option option" where
  "confit_v2_snapshot_option_at s = array_element (sn_options s)"
definition confit_v2_snapshot_choice_at :: "snapshot \<Rightarrow> nat \<Rightarrow> snapshot_choice option" where
  "confit_v2_snapshot_choice_at s = array_element (sn_choices s)"
definition confit_v2_snapshot_constraint_at :: "snapshot \<Rightarrow> nat \<Rightarrow> snapshot_constraint option" where
  "confit_v2_snapshot_constraint_at s = array_element (sn_constraints s)"
definition confit_v2_snapshot_provenance_node_at :: "snapshot \<Rightarrow> nat \<Rightarrow> provenance_node option" where
  "confit_v2_snapshot_provenance_node_at s = array_element (sn_provenance_nodes s)"
definition confit_v2_snapshot_provenance_edge_at :: "snapshot \<Rightarrow> nat \<Rightarrow> provenance_edge option" where
  "confit_v2_snapshot_provenance_edge_at s = array_element (sn_provenance_edges s)"

end
