(* ===== verification/Invalidation.thy ===== *)
theory Invalidation
  imports Snapshot
begin

text \<open>
  Incremental resolving: \<open>src/resolver/v2/incremental.c\<close>. The search for what an edit invalidates keeps a
  queue in an array with one element for each node; \<open>room\<close> is the number of elements not yet
  written, so that a write past the end is \<open>Undefined_Access\<close>, and \<open>pending\<close> the part between head and
  tail.
\<close>

section \<open>The search\<close>

record invalidation_search =
  is_room :: nat
  is_visited :: "bool list"
  is_pending :: "nat list"

definition kUnknownChangedOption :: string where
  "kUnknownChangedOption = ''schema v2 incremental edit references unknown option''"

fun enqueue_dependents :: "nat list \<Rightarrow> invalidation_search \<Rightarrow> input_stop + invalidation_search" where
  "enqueue_dependents [] s = Inr s"
| "enqueue_dependents (dependent # dependents) s =
     (if is_visited s ! dependent then enqueue_dependents dependents s
      else case is_room s of
        0 \<Rightarrow> Inl Undefined_Access
      | Suc room \<Rightarrow> enqueue_dependents dependents
          \<lparr>is_room = room, is_visited = (is_visited s)[dependent := True], is_pending = is_pending s @ [dependent]\<rparr>)"

lemma enqueue_room:
  "enqueue_dependents ds s = Inr t \<Longrightarrow> is_room t + length (is_pending t) = is_room s + length (is_pending s)"
  by (induction ds s arbitrary: t rule: enqueue_dependents.induct) (auto split: if_splits nat.splits)

definition confit_v2_invalidation_set_append :: "invalidation_node \<Rightarrow> invalidation_node list \<Rightarrow> invalidation_node list" where
  "confit_v2_invalidation_set_append node nodes = nodes @ [node]"

text \<open>The loop over the queue; every node is written once, so the free elements and the pending ones go down.\<close>

function invalidation_loop ::
  "reverse_node list \<Rightarrow> invalidation_search \<Rightarrow> invalidation_node list \<Rightarrow> input_stop + invalidation_node list" where
  "invalidation_loop nodes s out =
     (case is_pending s of
        [] \<Rightarrow> Inr out
      | current # pending \<Rightarrow>
          bind_res (enqueue_dependents (rn_dependents (nodes ! current)) (s\<lparr>is_pending := pending\<rparr>)) (\<lambda>s.
            invalidation_loop nodes s (confit_v2_invalidation_set_append (rn_node (nodes ! current)) out)))"
  by pat_completeness auto

termination
  by (relation "measure (\<lambda>(nodes, s, out). is_room s + length (is_pending s))") (auto dest: enqueue_room)

declare invalidation_loop.simps [simp del]

definition confit_v2_snapshot_invalidate :: "snapshot \<Rightarrow> string \<Rightarrow> input_stop + invalidation_node list" where
  "confit_v2_snapshot_invalidate snapshot changed_option_id =
     (let nodes = sn_reverse_nodes snapshot
      in case confit_v2_snapshot_reverse_node_find nodes INVALIDATION_OPTION changed_option_id of
           None \<Rightarrow> confit_v2_ledger_diagnostic None 0 0 CONFIT_ERR_INVALID_ARGUMENT kUnknownChangedOption
         | Some start \<Rightarrow>
             bind_res (invalidation_loop nodes
                 \<lparr>is_room = length nodes - 1, is_visited = (replicate (length nodes) False)[start := True],
                  is_pending = [start]\<rparr> []) (\<lambda>out.
               Inr (qsort_by confit_v2_invalidation_node_compare out)))"

definition confit_v2_invalidation_set_at :: "invalidation_node list \<Rightarrow> nat \<Rightarrow> invalidation_node option" where
  "confit_v2_invalidation_set_at = array_element"

definition confit_v2_snapshot_reconcile_edit ::
  "input_services \<Rightarrow> snapshot \<Rightarrow> compiled_structure \<Rightarrow> ledger_options option \<Rightarrow> string
   \<Rightarrow> input_stop + snapshot \<times> invalidation_node list" where
  "confit_v2_snapshot_reconcile_edit services base compiled options changed_option_id =
     bind_res (confit_v2_snapshot_invalidate base changed_option_id) (\<lambda>affected.
     bind_res (confit_v2_snapshot_resolve services compiled options) (\<lambda>snapshot. Inr (snapshot, affected)))"

end
