(* ===== verification/Invalidation_Search.thy ===== *)
theory Invalidation_Search
  imports Invalidation "HOL-Library.Product_Lexorder"
begin

text \<open>
  The search of \<open>incremental.c\<close>: the queue visits exactly the nodes that depend on the start, once each,
  and never writes past its end.
\<close>

section \<open>The queue\<close>

definition dependency :: "reverse_node list \<Rightarrow> (nat \<times> nat) set" where
  "dependency nodes = {(i, d). i < length nodes \<and> d \<in> set (rn_dependents (nodes ! i))}"

definition indices_ok :: "reverse_node list \<Rightarrow> bool" where
  "indices_ok nodes \<longleftrightarrow> (\<forall>n \<in> set nodes. set (rn_dependents n) \<subseteq> {..<length nodes})"

text \<open>\<open>done\<close> are the nodes taken from the queue: with the pending ones they are the visited ones, and they
  fill the part of the array that is written.\<close>

definition queue_ok :: "nat \<Rightarrow> nat list \<Rightarrow> invalidation_search \<Rightarrow> bool" where
  "queue_ok n taken s \<longleftrightarrow> distinct (taken @ is_pending s) \<and> set (taken @ is_pending s) \<subseteq> {..<n}
     \<and> length (is_visited s) = n \<and> (\<forall>i < n. is_visited s ! i \<longleftrightarrow> i \<in> set (taken @ is_pending s))
     \<and> is_room s + length (taken @ is_pending s) = n"

lemma queue_room:
  assumes "queue_ok n taken s" "d < n" "\<not> is_visited s ! d"
  shows "\<exists>room. is_room s = Suc room"
proof (cases "is_room s")
  case 0
  with assms(1) have "length (taken @ is_pending s) = n" "distinct (taken @ is_pending s)"
    "set (taken @ is_pending s) \<subseteq> {..<n}" by (auto simp: queue_ok_def)
  then have "set (taken @ is_pending s) = {..<n}"
    by (metis card_lessThan card_subset_eq distinct_card finite_lessThan)
  with assms show ?thesis by (auto simp: queue_ok_def)
qed simp

lemma enqueue_once:
  "queue_ok n taken s \<Longrightarrow> set ds \<subseteq> {..<n} \<Longrightarrow> \<exists>t. enqueue_dependents ds s = Inr t \<and> queue_ok n taken t
     \<and> set (taken @ is_pending t) = set (taken @ is_pending s) \<union> set ds"
proof (induction ds arbitrary: s)
  case (Cons d ds)
  then have d: "d < n" by simp
  show ?case
  proof (cases "is_visited s ! d")
    case True
    with Cons.prems(1) d have "d \<in> set (taken @ is_pending s)" by (auto simp: queue_ok_def)
    with True Cons.IH [OF Cons.prems(1)] Cons.prems(2) show ?thesis by auto
  next
    case False
    with Cons.prems(1) d obtain room where room: "is_room s = Suc room" using queue_room by blast
    let ?t = "\<lparr>is_room = room, is_visited = (is_visited s)[d := True], is_pending = is_pending s @ [d]\<rparr>"
    have "queue_ok n taken ?t"
      using Cons.prems(1) d False room by (auto simp: queue_ok_def nth_list_update)
    with Cons.IH [of ?t] Cons.prems(2) False room show ?thesis by auto
  qed
qed simp

section \<open>The loop\<close>

lemma loop_reaches:
  assumes "indices_ok nodes"
  shows "queue_ok (length nodes) taken s \<Longrightarrow> start \<in> set (taken @ is_pending s)
    \<Longrightarrow> set (taken @ is_pending s) \<subseteq> (dependency nodes)\<^sup>* `` {start}
    \<Longrightarrow> dependency nodes `` set taken \<subseteq> set (taken @ is_pending s)
    \<Longrightarrow> \<exists>reached. invalidation_loop nodes s (map (\<lambda>i. rn_node (nodes ! i)) taken)
        = Inr (map (\<lambda>i. rn_node (nodes ! i)) reached) \<and> distinct reached
      \<and> set reached = (dependency nodes)\<^sup>* `` {start}"
proof (induction "is_room s + length (is_pending s)" arbitrary: taken s rule: less_induct)
  case less
  note step = invalidation_loop.simps [of nodes s]
  show ?case
  proof (cases "is_pending s")
    case Nil
    have "(dependency nodes)\<^sup>* `` {start} \<subseteq> set taken"
    proof
      fix i assume "i \<in> (dependency nodes)\<^sup>* `` {start}"
      then have "(start, i) \<in> (dependency nodes)\<^sup>*" by simp
      then show "i \<in> set taken" by induction (use less.prems(2,4) Nil in auto)
    qed
    with less.prems Nil step show ?thesis by (auto simp: queue_ok_def)
  next
    case (Cons current pending)
    let ?s = "s\<lparr>is_pending := pending\<rparr>" and ?taken = "taken @ [current]"
    have lt: "current < length nodes" using less.prems(1) Cons by (auto simp: queue_ok_def)
    then have deps: "set (rn_dependents (nodes ! current)) = dependency nodes `` {current}"
      by (auto simp: dependency_def)
    have "queue_ok (length nodes) ?taken ?s" using less.prems(1) Cons by (simp add: queue_ok_def)
    moreover have "set (rn_dependents (nodes ! current)) \<subseteq> {..<length nodes}"
      using assms lt by (auto simp: indices_ok_def)
    ultimately obtain t where t: "enqueue_dependents (rn_dependents (nodes ! current)) ?s = Inr t"
      "queue_ok (length nodes) ?taken t"
      "set (?taken @ is_pending t) = set (taken @ is_pending s) \<union> dependency nodes `` {current}"
      using enqueue_once [of "length nodes" ?taken ?s "rn_dependents (nodes ! current)"] Cons deps by auto
    have "is_room t + length (is_pending t) < is_room s + length (is_pending s)"
      using enqueue_room [OF t(1)] Cons by simp
    moreover have "start \<in> set (?taken @ is_pending t)" using less.prems(2) t(3) by simp
    moreover have "dependency nodes `` {current} \<subseteq> (dependency nodes)\<^sup>* `` {start}"
      using less.prems(3) Cons by (auto intro: rtrancl_into_rtrancl)
    then have "set (?taken @ is_pending t) \<subseteq> (dependency nodes)\<^sup>* `` {start}"
      using less.prems(3) unfolding t(3) by blast
    moreover have "dependency nodes `` set ?taken \<subseteq> set (?taken @ is_pending t)"
      using less.prems(4) unfolding t(3) by auto
    ultimately have "\<exists>reached. invalidation_loop nodes t (map (\<lambda>i. rn_node (nodes ! i)) ?taken)
        = Inr (map (\<lambda>i. rn_node (nodes ! i)) reached) \<and> distinct reached
      \<and> set reached = (dependency nodes)\<^sup>* `` {start}"
      using less.hyps [of t ?taken] t(2) by blast
    then show ?thesis unfolding step [of "map _ taken"]
      by (simp add: Cons t(1) confit_v2_invalidation_set_append_def)
  qed
qed

lemma search_from:
  assumes "indices_ok nodes" "start < length nodes"
  shows "\<exists>reached. invalidation_loop nodes \<lparr>is_room = length nodes - 1,
        is_visited = (replicate (length nodes) False)[start := True], is_pending = [start]\<rparr> []
      = Inr (map (\<lambda>i. rn_node (nodes ! i)) reached)
    \<and> distinct reached \<and> set reached = (dependency nodes)\<^sup>* `` {start}"
  using loop_reaches [OF assms(1), of "[]" "\<lparr>is_room = length nodes - 1,
        is_visited = (replicate (length nodes) False)[start := True], is_pending = [start]\<rparr>" start] assms(2)
  by (auto simp: queue_ok_def nth_list_update)

section \<open>The order of the nodes\<close>

definition node_key :: "invalidation_node \<Rightarrow> nat \<times> string" where
  "node_key n = (invalidation_number (in_kind n), in_id n)"

lemma invalidation_number_inject [simp]: "invalidation_number k = invalidation_number l \<longleftrightarrow> k = l"
  by (cases k; cases l) simp_all

lemma node_key_inject [simp]: "node_key n = node_key m \<longleftrightarrow> n = m"
  by (cases n; cases m) (auto simp: node_key_def)

lemma compare_node_le: "confit_v2_invalidation_node_compare n m \<le> 0 \<longleftrightarrow> node_key n \<le> node_key m"
  and compare_node_less: "confit_v2_invalidation_node_compare n m < 0 \<longleftrightarrow> node_key n < node_key m"
  by (auto simp: confit_v2_invalidation_node_compare_def number_compare_def node_key_def strcmp_le strcmp_less)

lemma compares_nodes: "compares node_key confit_v2_invalidation_node_compare"
  by (simp add: compares_def compare_node_le)

lemma compares_reverse_nodes: "compares (\<lambda>n. node_key (rn_node n)) confit_v2_reverse_node_compare"
  by (simp add: compares_def compare_node_le confit_v2_reverse_node_compare_def)

lemma reverse_node_index:
  assumes "sorted_wrt (<) (map (\<lambda>n. node_key (rn_node n)) nodes)"
  shows "confit_v2_snapshot_reverse_node_find nodes kind name = Some i
    \<longleftrightarrow> i < length nodes \<and> rn_node (nodes ! i) = \<lparr>in_kind = kind, in_id = name\<rparr>"
proof -
  let ?key = "\<lambda>i. node_key (rn_node (nodes ! i))" and ?wanted = "node_key \<lparr>in_kind = kind, in_id = name\<rparr>"
  define low where "low = confit_v2_snapshot_reverse_lower_bound nodes kind name"
  have asc: "?key i < ?key j" if "i < j" "j < length nodes" for i j
    using assms that by (simp add: sorted_wrt_iff_nth_less)
  have mono: "?key i < ?wanted" if "i \<le> j" "j < length nodes" "?key j < ?wanted" for i j
    using asc [of i j] that by (cases "i = j") auto
  have bound: "low \<le> length nodes" "\<And>i. i < length nodes \<Longrightarrow> ?key i < ?wanted \<longleftrightarrow> i < low"
    using lower_bound_spec [of 0 "length nodes"
        "\<lambda>m. confit_v2_invalidation_node_compare (rn_node (nodes ! m)) \<lparr>in_kind = kind, in_id = name\<rparr> < 0"] mono
    by (auto simp: low_def confit_v2_snapshot_reverse_lower_bound_def compare_node_less)
  have "low = i" if "i < length nodes" "rn_node (nodes ! i) = \<lparr>in_kind = kind, in_id = name\<rparr>" for i
  proof (rule ccontr)
    assume "low \<noteq> i"
    with bound(2) [OF that(1)] that have "low < i" by auto
    with asc [of low i] that bound(2) [of low] show False by simp
  qed
  then show ?thesis
    by (auto simp: confit_v2_snapshot_reverse_node_find_def Let_def low_def [symmetric] strcmp_eq)
qed

end
