(* ===== verification/Reverse_Index.thy ===== *)
theory Reverse_Index
  imports Invalidation_Search
begin

text \<open>
  The reverse index of a snapshot: its nodes are the options, choices and constraints, its edges the
  dependencies of the four compiled graphs; what an edit invalidates is what these edges reach.
\<close>

section \<open>Relations under a renaming\<close>

lemma image_reachable:
  assumes "inj_on f A" "R \<subseteq> A \<times> A" "x \<in> A"
  shows "f ` (R\<^sup>* `` {x}) = ((\<lambda>(i, j). (f i, f j)) ` R)\<^sup>* `` {f x}"
proof
  have "(f x, f y) \<in> ((\<lambda>(i, j). (f i, f j)) ` R)\<^sup>*" if "(x, y) \<in> R\<^sup>*" for y
    using that by induction (auto intro: rtrancl_into_rtrancl)
  then show "f ` (R\<^sup>* `` {x}) \<subseteq> ((\<lambda>(i, j). (f i, f j)) ` R)\<^sup>* `` {f x}" by blast
next
  have "\<exists>y. z = f y \<and> y \<in> A \<and> (x, y) \<in> R\<^sup>*" if "(f x, z) \<in> ((\<lambda>(i, j). (f i, f j)) ` R)\<^sup>*" for z
    using that
  proof induction
    case (step z w)
    then obtain y i j where y: "z = f y" "y \<in> A" "(x, y) \<in> R\<^sup>*" and ij: "(i, j) \<in> R" "z = f i" "w = f j" by auto
    with assms(1,2) have "y = i" by (auto dest: inj_onD)
    with y ij assms(2) show ?case by (auto intro: rtrancl_into_rtrancl)
  qed (use assms(3) in blast)
  then show "((\<lambda>(i, j). (f i, f j)) ` R)\<^sup>* `` {f x} \<subseteq> f ` (R\<^sup>* `` {x})" by blast
qed

section \<open>Nodes\<close>

abbreviation option_node :: "string \<Rightarrow> invalidation_node" where
  "option_node name \<equiv> \<lparr>in_kind = INVALIDATION_OPTION, in_id = name\<rparr>"
abbreviation choice_node :: "string \<Rightarrow> invalidation_node" where
  "choice_node name \<equiv> \<lparr>in_kind = INVALIDATION_CHOICE, in_id = name\<rparr>"
abbreviation constraint_node :: "string \<Rightarrow> invalidation_node" where
  "constraint_node name \<equiv> \<lparr>in_kind = INVALIDATION_CONSTRAINT, in_id = name\<rparr>"

text \<open>An owner outside the constraints is an option if there is one of this id.\<close>

definition owner_node :: "invalidation_node set \<Rightarrow> graph_kind \<Rightarrow> string \<Rightarrow> invalidation_node" where
  "owner_node known kind name =
     (if kind = GRAPH_CONSTRAINT then constraint_node name
      else if option_node name \<in> known then option_node name else choice_node name)"

definition edge_pair :: "invalidation_node set \<Rightarrow> graph_kind \<Rightarrow> graph_edge \<Rightarrow> invalidation_node \<times> invalidation_node" where
  "edge_pair known kind e = (option_node (sym_id (edge_target e)), owner_node known kind (edge_owner_id e))"

text \<open>An index whose nodes are \<open>ns\<close>, in order and once each, and the dependencies it holds.\<close>

definition index_for :: "invalidation_node list \<Rightarrow> reverse_node list \<Rightarrow> bool" where
  "index_for ns nodes \<longleftrightarrow> sorted_wrt (<) (map node_key ns) \<and> map rn_node nodes = ns \<and> indices_ok nodes"

definition node_relation :: "reverse_node list \<Rightarrow> (invalidation_node \<times> invalidation_node) set" where
  "node_relation nodes = (\<lambda>(i, d). (rn_node (nodes ! i), rn_node (nodes ! d))) ` dependency nodes"

lemma node_index:
  assumes "index_for ns nodes"
  shows "confit_v2_snapshot_reverse_node_find nodes kind name = Some i
      \<longleftrightarrow> i < length nodes \<and> rn_node (nodes ! i) = \<lparr>in_kind = kind, in_id = name\<rparr>"
    and "confit_v2_snapshot_reverse_node_find nodes kind name = None \<longleftrightarrow> \<lparr>in_kind = kind, in_id = name\<rparr> \<notin> set ns"
proof -
  have names: "map rn_node nodes = ns" and ordered: "sorted_wrt (<) (map node_key ns)"
    using assms by (simp_all add: index_for_def)
  have "sorted_wrt (<) (map node_key (map rn_node nodes))" unfolding names by (rule ordered)
  then have "sorted_wrt (<) (map (\<lambda>n. node_key (rn_node n)) nodes)" by (simp add: o_def)
  note * = reverse_node_index [OF this]
  show "confit_v2_snapshot_reverse_node_find nodes kind name = Some i
      \<longleftrightarrow> i < length nodes \<and> rn_node (nodes ! i) = \<lparr>in_kind = kind, in_id = name\<rparr>" by (rule *)
  let ?found = "confit_v2_snapshot_reverse_node_find nodes kind name"
  have known: "x \<in> set ns \<longleftrightarrow> (\<exists>i<length nodes. rn_node (nodes ! i) = x)" for x
    unfolding names [symmetric] by (force simp: in_set_conv_nth)
  have "?found = None \<longleftrightarrow> (\<nexists>i. ?found = Some i)" by (cases ?found) simp_all
  then show "?found = None \<longleftrightarrow> \<lparr>in_kind = kind, in_id = name\<rparr> \<notin> set ns" unfolding * known by simp
qed

lemma owner_found:
  assumes "index_for ns nodes"
  shows "\<lparr>in_kind = confit_v2_snapshot_owner_kind nodes kind name, in_id = name\<rparr> = owner_node (set ns) kind name"
  using node_index(2) [OF assms, of INVALIDATION_OPTION name]
  by (auto simp: confit_v2_snapshot_owner_kind_def owner_node_def)

lemma add_dependency:
  assumes "index_for ns nodes" "i < length nodes" "d < length nodes"
  shows "index_for ns (confit_v2_snapshot_reverse_add_dependency i d nodes)
    \<and> node_relation (confit_v2_snapshot_reverse_add_dependency i d nodes)
        = insert (rn_node (nodes ! i), rn_node (nodes ! d)) (node_relation nodes)"
proof -
  let ?nodes = "confit_v2_snapshot_reverse_add_dependency i d nodes"
  have len: "length ?nodes = length nodes"
    by (simp add: confit_v2_snapshot_reverse_add_dependency_def Let_def)
  have same: "rn_node (?nodes ! j) = rn_node (nodes ! j)" if "j < length nodes" for j
    using assms(2) that by (auto simp: confit_v2_snapshot_reverse_add_dependency_def Let_def nth_list_update)
  have deps: "set (rn_dependents (?nodes ! j)) = set (rn_dependents (nodes ! j)) \<union> (if j = i then {d} else {})"
    if "j < length nodes" for j
    using assms(2) that
    by (auto simp: confit_v2_snapshot_reverse_add_dependency_def Let_def nth_list_update list_ex_iff)
  have "map rn_node ?nodes = map rn_node nodes" using len same by (simp add: list_eq_iff_nth_eq)
  moreover have "indices_ok ?nodes"
    using assms deps len by (auto simp: index_for_def indices_ok_def all_set_conv_all_nth split: if_splits)
  moreover have dep: "dependency ?nodes = insert (i, d) (dependency nodes)"
    using assms(2) deps len by (auto simp: dependency_def split: if_splits)
  have lt: "j < length nodes \<and> k < length nodes" if "(j, k) \<in> insert (i, d) (dependency nodes)" for j k
    using assms that by (auto simp: dependency_def index_for_def indices_ok_def)
  have "node_relation ?nodes = insert (rn_node (nodes ! i), rn_node (nodes ! d)) (node_relation nodes)"
    unfolding node_relation_def dep using lt same by (force simp: image_iff)
  ultimately show ?thesis using assms(1) by (simp add: index_for_def)
qed

lemma one_edge:
  assumes "index_for ns nodes"
  shows "index_for ns (reverse_edge kind e nodes)
    \<and> node_relation (reverse_edge kind e nodes) = node_relation nodes \<union> ({edge_pair (set ns) kind e} \<inter> set ns \<times> set ns)"
proof -
  let ?target = "sym_id (edge_target e)" and ?owner = "owner_node (set ns) kind (edge_owner_id e)"
  note find = node_index [OF assms]
  note owner = owner_found [OF assms, of kind "edge_owner_id e"]
  show ?thesis
  proof (cases "confit_v2_snapshot_reverse_node_find nodes INVALIDATION_OPTION ?target")
    case None
    then have "option_node ?target \<notin> set ns" using find(2) by blast
    with None assms show ?thesis by (simp add: reverse_edge_def Let_def edge_pair_def)
  next
    case i: (Some i)
    then have fi: "i < length nodes" "rn_node (nodes ! i) = option_node ?target" using find(1) by blast+
    show ?thesis
    proof (cases "confit_v2_snapshot_reverse_node_find nodes (confit_v2_snapshot_owner_kind nodes kind (edge_owner_id e)) (edge_owner_id e)")
      case None
      then have "?owner \<notin> set ns" using find(2) owner by metis
      with None i assms show ?thesis by (simp add: reverse_edge_def Let_def edge_pair_def)
    next
      case (Some d)
      then have fd: "d < length nodes" "rn_node (nodes ! d) = ?owner" using find(1) owner by metis+
      have "set ns = rn_node ` set nodes" using assms by (auto simp: index_for_def)
      then have "option_node ?target \<in> set ns" "?owner \<in> set ns" using fi fd nth_mem by (metis image_eqI)+
      with add_dependency [OF assms fi(1) fd(1)] i Some fi(2) fd(2) show ?thesis
        by (simp add: reverse_edge_def Let_def edge_pair_def)
    qed
  qed
qed

lemma edges_of_kind:
  "index_for ns nodes \<Longrightarrow> index_for ns (fold (reverse_edge kind) es nodes)
    \<and> node_relation (fold (reverse_edge kind) es nodes) = node_relation nodes \<union> (edge_pair (set ns) kind ` set es \<inter> set ns \<times> set ns)"
proof (induction es arbitrary: nodes)
  case (Cons e es)
  note one = one_edge [OF Cons.prems, of kind e]
  from Cons.IH [OF conjunct1 [OF one]] one show ?case by auto
qed simp

lemma edges_of_kinds:
  "index_for ns nodes \<Longrightarrow> index_for ns (fold (\<lambda>kind. fold (reverse_edge kind) (f kind)) kinds nodes)
    \<and> node_relation (fold (\<lambda>kind. fold (reverse_edge kind) (f kind)) kinds nodes)
      = node_relation nodes \<union> ((\<Union>kind\<in>set kinds. edge_pair (set ns) kind ` set (f kind)) \<inter> set ns \<times> set ns)"
proof (induction kinds arbitrary: nodes)
  case (Cons kind kinds)
  note one = edges_of_kind [OF Cons.prems, of kind "f kind"]
  from Cons.IH [OF conjunct1 [OF one]] one show ?case by auto
qed simp

text \<open>What an edit invalidates.\<close>

lemma invalidate_reaches:
  assumes "index_for ns (sn_reverse_nodes s)"
  shows "if option_node c \<in> set ns
    then \<exists>out. confit_v2_snapshot_invalidate s c = Inr out \<and> sorted_wrt (<) (map node_key out)
      \<and> set out = (node_relation (sn_reverse_nodes s))\<^sup>* `` {option_node c}
    else confit_v2_snapshot_invalidate s c
      = confit_v2_ledger_diagnostic None 0 0 CONFIT_ERR_INVALID_ARGUMENT kUnknownChangedOption"
proof -
  let ?nodes = "sn_reverse_nodes s"
  let ?f = "\<lambda>i. rn_node (?nodes ! i)"
  have ok: "indices_ok ?nodes" and names: "map rn_node ?nodes = ns" and ordered: "sorted_wrt (<) (map node_key ns)"
    using assms by (simp_all add: index_for_def)
  have distinct_nodes: "distinct ns" using ordered strict_sorted_iff by (metis distinct_map)
  show ?thesis
  proof (cases "confit_v2_snapshot_reverse_node_find ?nodes INVALIDATION_OPTION c")
    case None
    with node_index(2) [OF assms, of INVALIDATION_OPTION c] show ?thesis by (simp add: confit_v2_snapshot_invalidate_def)
  next
    case (Some start)
    then have start: "start < length ?nodes" "?f start = option_node c" using node_index(1) [OF assms] by blast+
    have known: "option_node c \<in> set ns" using Some node_index(2) [OF assms, of INVALIDATION_OPTION c] by auto
    from search_from [OF ok start(1)] obtain reached where r:
      "invalidation_loop ?nodes \<lparr>is_room = length ?nodes - 1,
        is_visited = (replicate (length ?nodes) False)[start := True], is_pending = [start]\<rparr> [] = Inr (map ?f reached)"
      "distinct reached" "set reached = (dependency ?nodes)\<^sup>* `` {start}" by blast
    have inj: "inj_on ?f {..<length ?nodes}"
    proof (rule inj_onI)
      fix i j
      assume "i \<in> {..<length ?nodes}" "j \<in> {..<length ?nodes}" "?f i = ?f j"
      then have "i < length ns" "j < length ns" "ns ! i = ns ! j" by (auto simp flip: names)
      then show "i = j" using distinct_nodes nth_eq_iff_index_eq by blast
    qed
    have inside: "dependency ?nodes \<subseteq> {..<length ?nodes} \<times> {..<length ?nodes}"
      using ok by (auto simp: dependency_def indices_ok_def)
    have set: "set (map ?f reached) = (node_relation ?nodes)\<^sup>* `` {option_node c}"
      using image_reachable [OF inj inside, of start] start r(3) by (simp add: node_relation_def)
    have "set reached \<subseteq> {..<length ?nodes}"
    proof
      fix i assume "i \<in> set reached"
      then have "(start, i) \<in> (dependency ?nodes)\<^sup>*" using r(3) by simp
      then show "i \<in> {..<length ?nodes}" by induction (use start(1) inside in auto)
    qed
    then have "distinct (map ?f reached)" using r(2) inj by (auto simp: distinct_map intro: inj_on_subset)
    then have "distinct (map node_key (map ?f reached))" by (auto simp: distinct_map inj_on_def)
    then have "sorted_wrt (<) (map node_key (qsort_by confit_v2_invalidation_node_compare (map ?f reached)))"
      using sorted_qsort_by [OF compares_nodes] by (simp only: strict_sorted_iff distinct_qsort_by simp_thms)
    with known set r(1) Some show ?thesis by (simp add: confit_v2_snapshot_invalidate_def)
  qed
qed

end
