(* ===== verification/Evaluation_Order_Correct.thy ===== *)
theory Evaluation_Order_Correct
  imports Evaluation_Order Requested_Values
begin

text \<open>
  The search of \<open>src/resolver/v2/evaluate.c\<close> never writes past its arrays. It returns an order exactly
  when no option depends on itself, directly or through others, and in that order all that a node
  depends on comes before it; otherwise it reports a schema error. The nodes are the sorted options of
  the linked project, and the edges the references of the expressions that affect a value.
\<close>

section \<open>The search\<close>

definition targets :: "evaluation_node list \<Rightarrow> nat \<Rightarrow> nat set" where
  "targets nodes i = dep_target ` set (node_dependencies (nodes ! i))"

definition depends :: "evaluation_node list \<Rightarrow> (nat \<times> nat) set" where
  "depends nodes = {(i, j). i < length nodes \<and> j \<in> targets nodes i}"

definition nodes_closed :: "evaluation_node list \<Rightarrow> bool" where
  "nodes_closed nodes \<longleftrightarrow> (\<forall>i<length nodes. targets nodes i \<subseteq> {..<length nodes})"

definition dependencies_first :: "evaluation_node list \<Rightarrow> nat list \<Rightarrow> bool" where
  "dependencies_first nodes order \<longleftrightarrow> (\<forall>k<length order. targets nodes (order ! k) \<subseteq> set (take k order))"

lemma dependencies_first_append [simp]:
  "dependencies_first nodes (order @ [i]) \<longleftrightarrow> dependencies_first nodes order \<and> targets nodes i \<subseteq> set order"
  by (auto simp: dependencies_first_def nth_append less_Suc_eq)

text \<open>The state of the search while the nodes of \<open>path\<close> are active.\<close>

definition search_ok :: "evaluation_node list \<Rightarrow> nat list \<Rightarrow> evaluation_search \<Rightarrow> bool" where
  "search_ok nodes path s \<longleftrightarrow>
     length (search_states s) = length nodes \<and> distinct path \<and> distinct (search_order s)
     \<and> set path \<subseteq> {..<length nodes} \<and> set (search_order s) \<subseteq> {..<length nodes}
     \<and> (\<forall>i<length nodes. (search_states s ! i = ACTIVE \<longleftrightarrow> i \<in> set path)
          \<and> (search_states s ! i = DONE \<longleftrightarrow> i \<in> set (search_order s)))
     \<and> successively (\<lambda>i j. (i, j) \<in> depends nodes) path
     \<and> dependencies_first nodes (search_order s)"

definition search_result ::
  "evaluation_node list \<Rightarrow> nat list \<Rightarrow> evaluation_search \<Rightarrow> nat set \<Rightarrow> input_stop + evaluation_search \<Rightarrow> bool" where
  "search_result nodes path s reached r \<longleftrightarrow> (case r of
     Inr s' \<Rightarrow> search_ok nodes path s' \<and> set (search_order s) \<subseteq> set (search_order s') \<and> reached \<subseteq> set (search_order s')
   | Inl e \<Rightarrow> (\<exists>d. e = Diagnosed d \<and> diag_status d = CONFIT_ERR_SCHEMA) \<and> \<not> acyclic (depends nodes))"

lemma path_reaches_last:
  "successively (\<lambda>i j. (i, j) \<in> r) path \<Longrightarrow> i \<in> set path \<Longrightarrow> (i, last path) \<in> r\<^sup>*"
proof (induction path arbitrary: i)
  case (Cons j path)
  show ?case
  proof (cases path)
    case Nil
    with Cons.prems show ?thesis by simp
  next
    case (Cons k rest)
    with Cons.prems have step: "(j, k) \<in> r" "successively (\<lambda>i j. (i, j) \<in> r) path" by simp_all
    from Cons.IH [OF step(2), of k] Cons have "(k, last path) \<in> r\<^sup>*" by simp
    with step Cons.prems Cons.IH [OF step(2), of i] Cons show ?thesis by (auto intro: converse_rtrancl_into_rtrancl)
  qed
qed simp

lemma shorter_than:
  "distinct xs \<Longrightarrow> set xs \<subseteq> {..<n} \<Longrightarrow> i < n \<Longrightarrow> i \<notin> set xs \<Longrightarrow> length xs < n" for n :: nat
  using card_mono [of "{..<n}" "insert i (set xs)"] by (simp add: distinct_card)

lemma cycle_diagnostic_status:
  "\<exists>d. confit_v2_evaluation_cycle_diagnostic nodes path incoming begin closing
       = (Inl (Diagnosed d) :: input_stop + evaluation_search)
     \<and> diag_status d = CONFIT_ERR_SCHEMA"
  by (simp add: confit_v2_evaluation_cycle_diagnostic_def confit_v2_ledger_diagnostic_def confit_diagnostic_set_def
      confit_diagnostic_set_detail_def Let_def)

lemma visit_enters:
  assumes "search_ok nodes path s" "current < length nodes" "search_states s ! current = UNVISITED"
    and "path \<noteq> [] \<Longrightarrow> (last path, current) \<in> depends nodes"
  shows "search_ok nodes (path @ [current]) (s\<lparr>search_states := (search_states s)[current := ACTIVE]\<rparr>)"
  using assms by (auto simp: search_ok_def nth_list_update successively_append_iff)

lemma visit_leaves:
  assumes "search_ok nodes (path @ [current]) s" "targets nodes current \<subseteq> set (search_order s)"
  shows "search_ok nodes path
      (s\<lparr>search_states := (search_states s)[current := DONE], search_order := search_order s @ [current]\<rparr>)"
  using assms by (auto simp: search_ok_def nth_list_update successively_append_iff)

lemma search_results:
  "search_ok nodes path s \<Longrightarrow> nodes_closed nodes \<Longrightarrow> current < length nodes
    \<Longrightarrow> search_states s ! current = UNVISITED \<Longrightarrow> (path \<noteq> [] \<Longrightarrow> (last path, current) \<in> depends nodes)
    \<Longrightarrow> room = length nodes - length path
    \<Longrightarrow> search_result nodes path s {current} (confit_v2_evaluation_visit nodes room path incoming current s)"
  "search_ok nodes path s \<Longrightarrow> nodes_closed nodes \<Longrightarrow> path \<noteq> []
    \<Longrightarrow> set dependencies \<subseteq> set (node_dependencies (nodes ! last path))
    \<Longrightarrow> room = length nodes - length path
    \<Longrightarrow> search_result nodes path s (dep_target ` set dependencies)
          (visit_dependencies nodes room path incoming dependencies s)"
proof (induction nodes room path incoming current s and nodes room path incoming dependencies s
    rule: confit_v2_evaluation_visit_visit_dependencies.induct)
  case (1 nodes path incoming current s)
  then have "length path < length nodes" by (intro shorter_than [of _ _ current]) (auto simp: search_ok_def)
  with 1 show ?case by simp
next
  case (2 nodes room path incoming current s)
  let ?s = "s\<lparr>search_states := (search_states s)[current := ACTIVE]\<rparr>"
  have "search_result nodes (path @ [current]) ?s (dep_target ` set (node_dependencies (nodes ! current)))
      (visit_dependencies nodes room (path @ [current]) incoming (node_dependencies (nodes ! current)) ?s)"
    (is "search_result _ _ _ _ ?r")
    using 2(3,7) visit_enters [OF 2(2,4,5,6)] by (intro 2(1)) simp_all
  then show ?case
  proof (cases ?r)
    case (Inr s')
    with \<open>search_result _ _ _ _ ?r\<close> have s': "search_ok nodes (path @ [current]) s'"
      "targets nodes current \<subseteq> set (search_order s')" "set (search_order s) \<subseteq> set (search_order s')"
      by (simp_all add: search_result_def targets_def)
    then have "length (search_order s') < length nodes"
      using 2(4) by (intro shorter_than [of _ _ current]) (auto simp: search_ok_def)
    with Inr s' visit_leaves [OF s'(1,2)] show ?thesis by (auto simp: search_result_def Let_def)
  qed (simp add: search_result_def)
next
  case (3 nodes room path incoming s)
  then show ?case by (simp add: search_result_def)
next
  case (4 nodes room path incoming dependency dependencies s)
  let ?t = "dep_target dependency"
  have "set path \<subseteq> {..<length nodes}" using 4(4) by (simp add: search_ok_def)
  then have last: "last path < length nodes" using last_in_set [OF 4(6)] by blast
  have edge: "(last path, ?t) \<in> depends nodes" using last 4(7) by (auto simp: depends_def targets_def)
  have t: "?t < length nodes" using last edge 4(5) by (auto simp: nodes_closed_def depends_def)
  show ?case
  proof (cases "search_states s ! ?t")
    case ACTIVE
    with t 4(4) have "?t \<in> set path" "successively (\<lambda>i j. (i, j) \<in> depends nodes) path" by (auto simp: search_ok_def)
    then have "(?t, last path) \<in> (depends nodes)\<^sup>*" by (intro path_reaches_last)
    with edge have "(?t, ?t) \<in> (depends nodes)\<^sup>+" by (rule rtrancl_into_trancl1 [rotated])
    then have "\<not> acyclic (depends nodes)" by (auto simp: acyclic_def)
    with ACTIVE cycle_diagnostic_status [of nodes path incoming "path_position ?t (butlast path)" dependency]
    show ?thesis by (auto simp: search_result_def Let_def)
  next
    case DONE
    with t 4(4) have "?t \<in> set (search_order s)" by (auto simp: search_ok_def)
    moreover have "search_result nodes path s (dep_target ` set dependencies)
        (visit_dependencies nodes room path incoming dependencies s)"
      using 4(3) [OF refl DONE 4(4-6) _ 4(8)] 4(7) by simp
    ultimately show ?thesis using DONE by (auto simp: search_result_def Let_def split: sum.splits)
  next
    case UNVISITED
    have v: "search_result nodes path s {?t} (confit_v2_evaluation_visit nodes room path (incoming @ [dependency]) ?t s)"
      using 4(1) [OF refl UNVISITED 4(4,5) t UNVISITED edge 4(8)] .
    show ?thesis
    proof (cases "confit_v2_evaluation_visit nodes room path (incoming @ [dependency]) ?t s")
      case (Inl e)
      with v UNVISITED show ?thesis by (simp add: search_result_def Let_def)
    next
      case (Inr s')
      with v have s': "search_ok nodes path s'" "?t \<in> set (search_order s')" "set (search_order s) \<subseteq> set (search_order s')"
        by (simp_all add: search_result_def)
      have "search_result nodes path s' (dep_target ` set dependencies)
          (visit_dependencies nodes room path incoming dependencies s')"
        using 4(2) [OF refl UNVISITED Inr s'(1) 4(5,6) _ 4(8)] 4(7) by simp
      with UNVISITED Inr s' show ?thesis by (auto simp: search_result_def Let_def split: sum.splits)
    qed
  qed
qed

lemma order_acyclic:
  assumes "dependencies_first nodes order" "distinct order" "set order = {..<length nodes}"
  shows "acyclic (depends nodes)"
proof (rule acyclicI_order)
  fix i j
  assume "(i, j) \<in> depends nodes"
  with assms(3) obtain k where k: "k < length order" "order ! k = i" "j \<in> targets nodes i"
    by (auto simp: depends_def) (metis in_set_conv_nth lessThan_iff)
  with assms(1) have "j \<in> set (take k order)" by (auto simp: dependencies_first_def)
  then obtain m where m: "m < k" "order ! m = j" by (auto simp: in_set_conv_nth)
  have place: "index_of = m" if "index_of < length order" "order ! index_of = order ! m" "m < length order" for index_of m
    using that assms(2) by (simp add: nth_eq_iff_index_eq)
  have "(THE m. m < length order \<and> order ! m = j) = m" "(THE k. k < length order \<and> order ! k = i) = k"
    using k m place by (auto intro!: the_equality)
  with m show "(THE m. m < length order \<and> order ! m = j) < (THE k. k < length order \<and> order ! k = i)" by simp
qed

lemma search_loop:
  "search_ok nodes [] s \<Longrightarrow> nodes_closed nodes \<Longrightarrow> set is \<subseteq> {..<length nodes}
    \<Longrightarrow> search_result nodes [] s (set is)
      (fold_res (\<lambda>i s. if search_states s ! i \<noteq> UNVISITED then Inr s
                       else confit_v2_evaluation_visit nodes (length nodes) [] [] i s) is s)"
proof (induction "is" arbitrary: s)
  case (Cons i "is")
  show ?case
  proof (cases "search_states s ! i = UNVISITED")
    case True
    with Cons.prems have "search_result nodes [] s {i} (confit_v2_evaluation_visit nodes (length nodes) [] [] i s)"
      by (intro search_results(1)) simp_all
    then show ?thesis using Cons True
      by (cases "confit_v2_evaluation_visit nodes (length nodes) [] [] i s")
        (fastforce simp: search_result_def split: sum.splits)+
  next
    case False
    with Cons.prems have "search_states s ! i = DONE"
      by (cases "search_states s ! i") (auto simp: search_ok_def)
    with Cons.prems have "i \<in> set (search_order s)" by (auto simp: search_ok_def)
    then show ?thesis using Cons False by (fastforce simp: search_result_def split: sum.splits)
  qed
qed (simp add: search_result_def)

definition evaluation_order_ok :: "evaluation_node list \<Rightarrow> nat list \<Rightarrow> bool" where
  "evaluation_order_ok nodes order \<longleftrightarrow>
     distinct order \<and> set order = {..<length nodes} \<and> dependencies_first nodes order"

lemma topological_order_outcome:
  assumes "nodes_closed nodes"
  shows "case confit_v2_evaluation_topological_order nodes of
      Inr order \<Rightarrow> acyclic (depends nodes) \<and> evaluation_order_ok nodes order
    | Inl e \<Rightarrow> \<not> acyclic (depends nodes) \<and> (\<exists>d. e = Diagnosed d \<and> diag_status d = CONFIT_ERR_SCHEMA)"
proof (cases "nodes = []")
  case True
  then show ?thesis
    by (simp add: confit_v2_evaluation_topological_order_def evaluation_order_ok_def dependencies_first_def depends_def
        acyclic_def)
next
  case False
  let ?s = "\<lparr>search_states = replicate (length nodes) UNVISITED, search_order = []\<rparr>"
  let ?r = "fold_res (\<lambda>i s. if search_states s ! i \<noteq> UNVISITED then Inr s
                       else confit_v2_evaluation_visit nodes (length nodes) [] [] i s) [0..<length nodes] ?s"
  have r: "search_result nodes [] ?s {..<length nodes} ?r"
    using search_loop [OF _ assms, of ?s "[0..<length nodes]"]
    by (auto simp: search_ok_def dependencies_first_def atLeast0LessThan)
  show ?thesis
  proof (cases ?r)
    case (Inl e)
    with r False show ?thesis by (simp add: confit_v2_evaluation_topological_order_def search_result_def)
  next
    case (Inr s)
    with r have s: "search_ok nodes [] s" "set (search_order s) = {..<length nodes}"
      by (auto simp: search_result_def search_ok_def)
    then have "length (search_order s) = length nodes"
      using distinct_card [of "search_order s"] by (simp add: search_ok_def)
    with s Inr False show ?thesis using order_acyclic [of nodes "search_order s"]
      by (simp add: confit_v2_evaluation_topological_order_def evaluation_order_ok_def search_ok_def)
  qed
qed

section \<open>Lookup by lower bound\<close>

text \<open>The search for the lower bound followed by a test for equality finds the index of the key.\<close>

lemma lower_bound_index:
  fixes wanted :: string
  assumes "sorted_wrt (<) (map key xs)"
  defines "low \<equiv> lower_bound (\<lambda>m. strcmp (key (xs ! m)) wanted < 0) 0 (length xs)"
  shows "low < length xs \<and> strcmp (key (xs ! low)) wanted = 0 \<and> low = i \<longleftrightarrow> i < length xs \<and> key (xs ! i) = wanted"
proof -
  have asc: "key (xs ! i) < key (xs ! j)" if "i < j" "j < length xs" for i j
    using assms(1) that by (simp add: sorted_wrt_iff_nth_less)
  have mono: "key (xs ! i) < wanted" if "i \<le> j" "j < length xs" "key (xs ! j) < wanted" for i j
    using asc [of i j] that by (cases "i = j") auto
  have bound: "low \<le> length xs" "\<And>i. i < length xs \<Longrightarrow> key (xs ! i) < wanted \<longleftrightarrow> i < low"
    using lower_bound_spec [of 0 "length xs" "\<lambda>m. strcmp (key (xs ! m)) wanted < 0"] mono
    by (auto simp: low_def strcmp_less)
  have "low = i" if "i < length xs" "key (xs ! i) = wanted"
  proof (rule ccontr)
    assume "low \<noteq> i"
    with bound(2) [OF that(1)] that have "low < i" by auto
    with asc [of low i] that bound(2) [of low] show False by simp
  qed
  then show ?thesis by (auto simp: strcmp_eq)
qed

section \<open>The nodes of a linked project\<close>

lemma insert_by_map: "insert_by cmp (f x) (map f xs) = map f (insert_by (\<lambda>x y. cmp (f x) (f y)) x xs)"
  by (induction xs) simp_all

lemma qsort_by_map: "qsort_by cmp (map f xs) = map f (qsort_by (\<lambda>x y. cmp (f x) (f y)) xs)"
  by (induction xs) (simp_all add: qsort_by_def insert_by_map)

lemma find_node_iff:
  assumes "sorted_wrt (<) (map (\<lambda>n. sym_id (node_symbol n)) nodes)"
  shows "confit_v2_evaluation_find_node nodes name = Some i
      \<longleftrightarrow> i < length nodes \<and> sym_id (node_symbol (nodes ! i)) = name"
    and "confit_v2_evaluation_find_node nodes name = None
      \<longleftrightarrow> name \<notin> (\<lambda>n. sym_id (node_symbol n)) ` set nodes"
proof -
  show *: "confit_v2_evaluation_find_node nodes name = Some i
      \<longleftrightarrow> i < length nodes \<and> sym_id (node_symbol (nodes ! i)) = name" for i
    using lower_bound_index [OF assms, of name i] by (auto simp: confit_v2_evaluation_find_node_def Let_def)
  have "confit_v2_evaluation_find_node nodes name = None \<longleftrightarrow> (\<nexists>i. confit_v2_evaluation_find_node nodes name = Some i)"
    by (cases "confit_v2_evaluation_find_node nodes name") simp_all
  then show "confit_v2_evaluation_find_node nodes name = None \<longleftrightarrow> name \<notin> (\<lambda>n. sym_id (node_symbol n)) ` set nodes"
    unfolding * by (metis (no_types, lifting) image_iff in_set_conv_nth)
qed

text \<open>The owner of an expression that affects its value reads the options it refers to.\<close>

definition expression_reads :: "linked_expression \<Rightarrow> (string \<times> string) set" where
  "expression_reads x =
     (if confit_v2_evaluation_role_affects_value (lx_role x)
      then {lx_owner_id x} \<times> (\<lambda>r. sym_id (lref_symbol r)) ` set (lx_references x) else {})"

definition value_reads :: "linked_project \<Rightarrow> (string \<times> string) set" where
  "value_reads linked = (\<Union>x\<in>set (lp_expressions linked). expression_reads x)"

definition node_ids :: "evaluation_node list \<Rightarrow> string list" where
  "node_ids nodes = map sym_id (map node_symbol nodes)"

definition reads_within :: "evaluation_node list \<Rightarrow> (string \<times> string) set \<Rightarrow> nat \<Rightarrow> nat set" where
  "reads_within nodes reads i = {j. j < length nodes \<and> (node_ids nodes ! i, node_ids nodes ! j) \<in> reads}"

lemma append_dependency_nodes:
  assumes "owner < length nodes"
  shows "map node_symbol (confit_v2_evaluation_append_dependency owner target span nodes) = map node_symbol nodes"
    "targets (confit_v2_evaluation_append_dependency owner target span nodes) i
      = targets nodes i \<union> (if i = owner then {target} else {})"
proof -
  show "map node_symbol (confit_v2_evaluation_append_dependency owner target span nodes) = map node_symbol nodes"
    using assms by (simp add: confit_v2_evaluation_append_dependency_def map_update list_update_same_conv)
  show "targets (confit_v2_evaluation_append_dependency owner target span nodes) i
      = targets nodes i \<union> (if i = owner then {target} else {})"
    using assms by (simp add: confit_v2_evaluation_append_dependency_def targets_def nth_list_update)
qed

lemma same_ids:
  "map node_symbol nodes' = map node_symbol nodes \<Longrightarrow> node_ids nodes' = node_ids nodes \<and> length nodes' = length nodes"
  by (simp only: node_ids_def) (auto dest: map_eq_imp_length_eq)

lemma node_ids_nth: "i < length nodes \<Longrightarrow> node_ids nodes ! i = sym_id (node_symbol (nodes ! i))"
  by (simp add: node_ids_def)

text \<open>What the references already entered add to the targets of each node.\<close>

definition nodes_extend :: "evaluation_node list \<Rightarrow> (string \<times> string) set \<Rightarrow> evaluation_node list \<Rightarrow> bool" where
  "nodes_extend nodes reads nodes' \<longleftrightarrow> map node_symbol nodes' = map node_symbol nodes
     \<and> (\<forall>i<length nodes. targets nodes' i = targets nodes i \<union> reads_within nodes reads i)"

lemma nodes_extend_trans:
  "nodes_extend nodes r nodes' \<Longrightarrow> nodes_extend nodes' q nodes'' \<Longrightarrow> nodes_extend nodes (r \<union> q) nodes''"
  by (auto simp: nodes_extend_def reads_within_def dest!: same_ids)

lemma nodes_extend_empty: "nodes_extend nodes {} nodes"
  by (simp add: nodes_extend_def reads_within_def)

lemma extended_sorted: "nodes_extend nodes r nodes' \<Longrightarrow> sorted_wrt (<) (node_ids nodes) \<Longrightarrow> sorted_wrt (<) (node_ids nodes')"
  by (auto simp: nodes_extend_def dest!: same_ids)

lemma find_node_ids:
  assumes "sorted_wrt (<) (node_ids nodes)"
  shows "confit_v2_evaluation_find_node nodes name = Some i \<longleftrightarrow> i < length nodes \<and> node_ids nodes ! i = name"
    and "confit_v2_evaluation_find_node nodes name = None \<longleftrightarrow> name \<notin> set (node_ids nodes)"
  using find_node_iff [of nodes name] assms by (auto simp: node_ids_def o_def cong: conj_cong)

lemma append_reference_extends:
  assumes "sorted_wrt (<) (node_ids nodes)" "owner < length nodes" "sym_id (lref_symbol r) \<in> set (node_ids nodes)"
  shows "\<exists>nodes'. append_reference x owner r nodes = Inr nodes'
    \<and> nodes_extend nodes {(node_ids nodes ! owner, sym_id (lref_symbol r))} nodes'"
proof -
  obtain target where t: "confit_v2_evaluation_find_node nodes (sym_id (lref_symbol r)) = Some target"
    using find_node_ids(2) [OF assms(1), of "sym_id (lref_symbol r)"] assms(3) by auto
  then have target: "target < length nodes" "node_ids nodes ! target = sym_id (lref_symbol r)"
    using find_node_ids(1) [OF assms(1)] by simp_all
  have inj: "node_ids nodes ! i = node_ids nodes ! j \<longleftrightarrow> i = j" if "i < length nodes" "j < length nodes" for i j
  proof -
    have "distinct (node_ids nodes)" using assms(1) strict_sorted_iff by blast
    then show ?thesis using that nth_eq_iff_index_eq [of "node_ids nodes" i j] by (simp add: node_ids_def)
  qed
  have "targets nodes i \<union> (if i = owner then {target} else {})
      = targets nodes i \<union> reads_within nodes {(node_ids nodes ! owner, sym_id (lref_symbol r))} i"
    if "i < length nodes" for i
    using inj [OF that assms(2)] inj [OF _ target(1)] target
    by (auto simp: reads_within_def)
  then show ?thesis
    by (simp add: append_reference_def t Let_def nodes_extend_def append_dependency_nodes [OF assms(2)])
qed

lemma fold_extends:
  assumes "sorted_wrt (<) (node_ids nodes)"
    and "\<And>x nodes. x \<in> set xs \<Longrightarrow> node_ids nodes = ids \<Longrightarrow> sorted_wrt (<) (node_ids nodes)
      \<Longrightarrow> \<exists>nodes'. f x nodes = Inr nodes' \<and> nodes_extend nodes (reads x) nodes'"
    and "node_ids nodes = ids"
  shows "\<exists>nodes'. fold_res f xs nodes = Inr nodes' \<and> nodes_extend nodes (\<Union>x\<in>set xs. reads x) nodes'"
  using assms
proof (induction xs arbitrary: nodes)
  case Nil
  then show ?case by (simp add: nodes_extend_empty)
next
  case (Cons x xs)
  have "\<exists>mid. f x nodes = Inr mid \<and> nodes_extend nodes (reads x) mid"
    by (rule Cons.prems(2) [OF _ Cons.prems(3,1)]) simp
  then obtain mid where m: "f x nodes = Inr mid" "nodes_extend nodes (reads x) mid" by blast
  then have mid: "node_ids mid = ids" using same_ids [of mid nodes] Cons.prems(3) by (simp add: nodes_extend_def)
  have "\<exists>nodes'. fold_res f xs mid = Inr nodes' \<and> nodes_extend mid (\<Union>x\<in>set xs. reads x) nodes'"
    by (rule Cons.IH [OF extended_sorted [OF m(2) Cons.prems(1)] Cons.prems(2) mid]) simp_all
  then obtain nodes' where
    n: "fold_res f xs mid = Inr nodes'" "nodes_extend mid (\<Union>x\<in>set xs. reads x) nodes'" by blast
  from nodes_extend_trans [OF m(2) n(2)] m(1) n(1) show ?case by simp
qed

lemma append_references_extends:
  assumes "sorted_wrt (<) (node_ids nodes)" "\<And>r. r \<in> set (lx_references x) \<Longrightarrow> sym_id (lref_symbol r) \<in> set (node_ids nodes)"
  shows "\<exists>nodes'. append_references x nodes = Inr nodes' \<and> nodes_extend nodes (expression_reads x) nodes'"
proof (cases "confit_v2_evaluation_role_affects_value (lx_role x)")
  case False
  then show ?thesis by (simp add: append_references_def expression_reads_def nodes_extend_empty)
next
  case True
  show ?thesis
  proof (cases "confit_v2_evaluation_find_node nodes (lx_owner_id x)")
    case None
    then have "lx_owner_id x \<notin> set (node_ids nodes)" using find_node_ids(2) [OF assms(1)] by simp
    then have "nodes_extend nodes (expression_reads x) nodes"
      by (force simp: nodes_extend_def reads_within_def expression_reads_def node_ids_def in_set_conv_nth)
    with None True show ?thesis by (simp add: append_references_def)
  next
    case (Some owner)
    then have o: "owner < length nodes" "node_ids nodes ! owner = lx_owner_id x"
      using find_node_ids(1) [OF assms(1)] by simp_all
    have "\<exists>nodes'. fold_res (append_reference x owner) (lx_references x) nodes = Inr nodes'
        \<and> nodes_extend nodes (\<Union>r\<in>set (lx_references x). {(lx_owner_id x, sym_id (lref_symbol r))}) nodes'"
    proof (rule fold_extends [OF assms(1) _ refl])
      fix r mid
      assume r: "r \<in> set (lx_references x)" and mid: "node_ids mid = node_ids nodes" "sorted_wrt (<) (node_ids mid)"
      have "length mid = length nodes" using arg_cong [OF mid(1), of length] by (simp add: node_ids_def)
      with append_reference_extends [OF mid(2), of owner r x] o assms(2) [OF r] mid(1)
      show "\<exists>nodes'. append_reference x owner r mid = Inr nodes' \<and> nodes_extend mid {(lx_owner_id x, sym_id (lref_symbol r))} nodes'"
        by simp
    qed
    moreover have "(\<Union>r\<in>set (lx_references x). {(lx_owner_id x, sym_id (lref_symbol r))}) = expression_reads x"
      using True by (auto simp: expression_reads_def)
    ultimately show ?thesis using Some True by (simp add: append_references_def)
  qed
qed

lemma linked_reference_declared:
  assumes "confit_v2_schema_link_project p = Inr linked" "x \<in> set (lp_expressions linked)" "r \<in> set (lx_references x)"
  shows "lref_symbol r \<in> set (lp_symbols linked)"
  using assms(1,2)
proof (rule linked_record)
  fix d k
  assume "links (lp_bindings linked) (lp_symbols linked) d k x"
  then have "list_all2 (resolves (lp_symbols linked) (decl_self d)) (reference_nodes (expression_root (lx_expression x))) (lx_references x)"
    by (simp add: links_def)
  with assms(3) obtain m where "resolves (lp_symbols linked) (decl_self d) m r"
    by (auto simp: list_all2_conv_all_nth in_set_conv_nth)
  then have "confit_v2_linked_project_find_symbol linked (reference_id m) = Some (lref_symbol r)"
    by (simp add: resolves_def confit_v2_linked_project_find_symbol_def)
  then show ?thesis using linked_find_symbol [OF assms(1)] linked_symbol_set [OF assms(1)] by simp
qed

lemma built_nodes:
  assumes "confit_v2_schema_link_project p = Inr linked"
  shows "\<exists>nodes. confit_v2_evaluation_build_nodes linked = Inr nodes \<and> map node_symbol nodes = lp_symbols linked
    \<and> (\<forall>i<length nodes. targets nodes i = reads_within nodes (value_reads linked) i)"
proof -
  let ?start = "map (\<lambda>s. \<lparr>node_symbol = s, node_dependencies = []\<rparr>) (lp_symbols linked)"
  have p: "lp_project linked = p" "lp_symbols linked = sort_key sym_id (project_symbols p)"
    using assms by (auto elim: link_project_cases)
  have "qsort_by confit_v2_evaluation_symbol_compare
      (map (\<lambda>s. \<lparr>node_symbol = s, node_dependencies = []\<rparr>) (project_symbols p)) = ?start"
    unfolding qsort_by_map p(2) confit_v2_evaluation_symbol_compare_def
    by (simp add: qsort_by_sort_key [OF compares_strcmp])
  moreover have ids: "node_ids ?start = map sym_id (lp_symbols linked)" by (simp add: node_ids_def o_def)
  have sorted: "sorted_wrt (<) (node_ids ?start)" using linked_project_ok [OF assms] by (simp add: ids linked_ok_def)
  have "\<exists>nodes. fold_res append_references (lp_expressions linked) ?start = Inr nodes
      \<and> nodes_extend ?start (value_reads linked) nodes"
    unfolding value_reads_def
    by (rule fold_extends [OF sorted _ refl], rule append_references_extends)
      (use linked_reference_declared [OF assms] in \<open>auto simp: ids\<close>)
  then obtain nodes where n: "fold_res append_references (lp_expressions linked) ?start = Inr nodes"
    "nodes_extend ?start (value_reads linked) nodes" by blast
  let ?final = "map (\<lambda>n. n\<lparr>node_dependencies :=
      qsort_by confit_v2_evaluation_dependency_compare (node_dependencies n)\<rparr>) nodes"
  have same: "map node_symbol ?final = map node_symbol nodes" by simp
  have "map node_symbol nodes = lp_symbols linked" using n(2) by (simp add: nodes_extend_def o_def)
  moreover have "targets ?final i = reads_within ?final (value_reads linked) i" if "i < length nodes" for i
  proof -
    have "targets ?final i = targets nodes i" using that by (simp add: targets_def)
    also have "\<dots> = reads_within ?start (value_reads linked) i"
      using n(2) that same_ids [of nodes ?start] by (auto simp: nodes_extend_def targets_def)
    finally show ?thesis
      using n(2) same_ids [of nodes ?start] same_ids [OF same] by (simp add: nodes_extend_def reads_within_def)
  qed
  ultimately show ?thesis using n(1) p(1) same by (simp add: confit_v2_evaluation_build_nodes_def)
qed

section \<open>The order of evaluation\<close>

lemma acyclic_image:
  assumes "acyclic s" "\<And>x y. (x, y) \<in> r \<Longrightarrow> (f x, f y) \<in> s"
  shows "acyclic r"
proof (rule acyclicI, rule allI, rule notI)
  fix x
  assume "(x, x) \<in> r\<^sup>+"
  moreover have "(x, y) \<in> r\<^sup>+ \<Longrightarrow> (f x, f y) \<in> s\<^sup>+" for y
    by (induction rule: trancl_induct) (auto intro: assms(2) trancl_into_trancl)
  ultimately show False using assms(1) by (auto simp: acyclic_def)
qed

lemma reading_owner_declared:
  assumes "confit_v2_schema_link_project p = Inr linked" "x \<in> set (lp_expressions linked)"
    and "confit_v2_evaluation_role_affects_value (lx_role x)"
  shows "lx_owner_id x \<in> sym_id ` set (lp_symbols linked)"
  using assms(1,2)
proof (rule linked_record)
  fix d k
  assume "d \<in> set (project_declarations p)" "links (lp_bindings linked) (lp_symbols linked) d k x"
  moreover from this assms(3) have "confit_v2_evaluation_role_affects_value (decl_role d)" by (simp add: links_def)
  ultimately show ?thesis using linked_symbol_set [OF assms(1)]
    by (auto simp: links_def project_declarations_def symbol_declarations_def choice_declarations_def
        constraint_declarations_def declare_expression_def confit_v2_evaluation_role_affects_value_def Let_def)
qed

lemma value_reads_declared:
  assumes "confit_v2_schema_link_project p = Inr linked"
  shows "value_reads linked \<subseteq> sym_id ` set (lp_symbols linked) \<times> sym_id ` set (lp_symbols linked)"
  using reading_owner_declared [OF assms] linked_reference_declared [OF assms]
  by (fastforce simp: value_reads_def expression_reads_def split: if_splits)

lemma reads_acyclic:
  assumes link: "confit_v2_schema_link_project p = Inr linked"
    and nodes: "map node_symbol nodes = lp_symbols linked"
      "\<forall>i<length nodes. targets nodes i = reads_within nodes (value_reads linked) i"
  shows "acyclic (depends nodes) \<longleftrightarrow> acyclic (value_reads linked)"
proof
  assume "acyclic (value_reads linked)"
  then show "acyclic (depends nodes)"
    by (rule acyclic_image [where f = "\<lambda>i. node_ids nodes ! i"]) (use nodes in \<open>auto simp: depends_def reads_within_def\<close>)
next
  assume acyclic: "acyclic (depends nodes)"
  have ids: "node_ids nodes = map sym_id (lp_symbols linked)" using nodes(1) by (simp add: node_ids_def)
  then have sorted: "sorted_wrt (<) (node_ids nodes)" using linked_project_ok [OF link] by (simp add: linked_ok_def)
  have index: "confit_v2_evaluation_find_node nodes name = Some i \<Longrightarrow> i < length nodes \<and> node_ids nodes ! i = name"
    and found: "name \<in> set (node_ids nodes) \<Longrightarrow> confit_v2_evaluation_find_node nodes name \<noteq> None" for name i
    using find_node_ids [OF sorted] by simp_all
  show "acyclic (value_reads linked)"
  proof (rule acyclic_image [OF acyclic, where f = "\<lambda>name. the (confit_v2_evaluation_find_node nodes name)"])
    fix x y
    assume xy: "(x, y) \<in> value_reads linked"
    with value_reads_declared [OF link] have "x \<in> set (node_ids nodes)" "y \<in> set (node_ids nodes)" by (auto simp: ids)
    then obtain i j where "confit_v2_evaluation_find_node nodes x = Some i" "confit_v2_evaluation_find_node nodes y = Some j"
      using found by blast
    with xy index nodes(2) show "(the (confit_v2_evaluation_find_node nodes x), the (confit_v2_evaluation_find_node nodes y)) \<in> depends nodes"
      by (auto simp: depends_def reads_within_def)
  qed
qed

text \<open>What a search over the nodes of a linked project returns, in terms of the options.\<close>

definition order_ids :: "linked_project \<Rightarrow> nat list \<Rightarrow> string list" where
  "order_ids linked order = map (\<lambda>i. sym_id (lp_symbols linked ! i)) order"

lemma order_reads_before:
  assumes link: "confit_v2_schema_link_project p = Inr linked"
    and nodes: "map node_symbol nodes = lp_symbols linked"
      "\<forall>i<length nodes. targets nodes i = reads_within nodes (value_reads linked) i"
    and order: "evaluation_order_ok nodes order"
    and k: "k < length order" "(order_ids linked order ! k, y) \<in> value_reads linked"
  shows "y \<in> set (take k (order_ids linked order))"
proof -
  have ids: "node_ids nodes = map sym_id (lp_symbols linked)" using nodes(1) by (simp add: node_ids_def)
  have len: "length (lp_symbols linked) = length nodes" using arg_cong [OF nodes(1), of length] by simp
  have i: "order ! k < length nodes" using order k(1) nth_mem by (force simp: evaluation_order_ok_def)
  from k(2) value_reads_declared [OF link] have "y \<in> set (node_ids nodes)" by (auto simp: ids)
  then obtain j where j: "j < length nodes" "y = node_ids nodes ! j"
    by (auto simp: node_ids_def in_set_conv_nth)
  with k i have "j \<in> targets nodes (order ! k)"
    using nodes(2) by (simp add: reads_within_def order_ids_def ids len)
  then have "j \<in> set (take k order)" using order k(1) by (auto simp: evaluation_order_ok_def dependencies_first_def)
  then show ?thesis using j by (auto simp: order_ids_def take_map ids len)
qed

lemma order_ids_options:
  assumes "map node_symbol nodes = lp_symbols linked" "evaluation_order_ok nodes order"
  shows "mset (order_ids linked order) = mset (map sym_id (lp_symbols linked))"
proof -
  have len: "length (lp_symbols linked) = length nodes" using arg_cong [OF assms(1), of length] by simp
  have "distinct order" "set order = set [0..<length nodes]"
    using assms(2) by (simp_all add: evaluation_order_ok_def atLeast0LessThan)
  then have "mset order = mset [0..<length nodes]" using set_eq_iff_mset_eq_distinct [of order "[0..<length nodes]"] by simp
  then have "image_mset (\<lambda>i. sym_id (lp_symbols linked ! i)) (mset order)
      = mset (map (\<lambda>i. sym_id (lp_symbols linked ! i)) [0..<length nodes])" by simp
  also have "map (\<lambda>i. sym_id (lp_symbols linked ! i)) [0..<length nodes] = map sym_id (lp_symbols linked)"
    by (rule nth_equalityI) (simp_all add: len)
  finally show ?thesis by (simp add: order_ids_def)
qed

text \<open>C18. The search for an order of evaluation decides whether an option depends on itself, directly or
  through the options its value, defaults or availability refer to. If none does, it returns every
  option once, after all the options it refers to; otherwise it reports a schema error. It never
  writes past its arrays and never reports an internal error.\<close>

theorem evaluation_order_exact:
  assumes "confit_v2_schema_link_project p = Inr linked"
  shows "\<exists>nodes. confit_v2_evaluation_build_nodes linked = Inr nodes \<and>
    (case confit_v2_evaluation_topological_order nodes of
       Inr order \<Rightarrow> acyclic (value_reads linked)
         \<and> mset (order_ids linked order) = mset (map sym_id (project_symbols p))
         \<and> (\<forall>k<length order. value_reads linked `` {order_ids linked order ! k} \<subseteq> set (take k (order_ids linked order)))
     | Inl e \<Rightarrow> \<not> acyclic (value_reads linked) \<and> (\<exists>d. e = Diagnosed d \<and> diag_status d = CONFIT_ERR_SCHEMA))"
proof -
  from built_nodes [OF assms] obtain nodes where n: "confit_v2_evaluation_build_nodes linked = Inr nodes"
    "map node_symbol nodes = lp_symbols linked"
    "\<forall>i<length nodes. targets nodes i = reads_within nodes (value_reads linked) i" by blast
  have "nodes_closed nodes" using n(3) by (auto simp: nodes_closed_def reads_within_def)
  moreover have "mset (map sym_id (lp_symbols linked)) = mset (map sym_id (project_symbols p))"
    using assms by (auto elim: link_project_cases)
  ultimately show ?thesis
    using topological_order_outcome [of nodes] reads_acyclic [OF assms n(2,3)] order_reads_before [OF assms n(2,3)]
      order_ids_options [OF n(2)] n(1)
    by (auto split: sum.splits)
qed

text \<open>Two options that depend on each other.\<close>

definition cyclic_linked :: linked_project where
  "cyclic_linked = (case confit_v2_schema_link_project
       (sample_project [sample_symbol ''a.b'' OPTION_BOOL (Some ''a.c''), sample_symbol ''a.c'' OPTION_BOOL (Some ''!a.b'')]) of
     Inr linked \<Rightarrow> linked | Inl e \<Rightarrow> sample_linked)"

definition order_of :: "linked_project \<Rightarrow> input_stop + nat list" where
  "order_of linked = bind_res (confit_v2_evaluation_build_nodes linked) confit_v2_evaluation_topological_order"

lemma sample_orders:
  "case confit_v2_schema_link_project
     (sample_project [sample_symbol ''a.b'' OPTION_BOOL (Some ''a.c''), sample_symbol ''a.c'' OPTION_BOOL (Some ''!a.b'')]) of
     Inr linked \<Rightarrow> True | Inl e \<Rightarrow> False"
  "case order_of sample_linked of Inr order \<Rightarrow> order = [0, 1] | Inl e \<Rightarrow> False"
  "case order_of cyclic_linked of
     Inl (Diagnosed d) \<Rightarrow> diag_message d
       = ''schema v2 evaluation cycle: a.b --(schema.toml:1:1)--> a.c --(schema.toml:1:1)--> a.b''
   | _ \<Rightarrow> False"
  by code_simp+

lemma evaluation_order_exact_witness:
  "acyclic (value_reads sample_linked) \<and> \<not> acyclic (value_reads cyclic_linked)"
proof
  show "acyclic (value_reads sample_linked)"
    using evaluation_order_exact [OF sample_linked] sample_orders(2)
    by (elim exE conjE) (simp add: order_of_def split: sum.split_asm)
  have "confit_v2_schema_link_project
      (sample_project [sample_symbol ''a.b'' OPTION_BOOL (Some ''a.c''), sample_symbol ''a.c'' OPTION_BOOL (Some ''!a.b'')])
      = Inr cyclic_linked"
    using sample_orders(1) by (auto simp: cyclic_linked_def split: sum.splits)
  from evaluation_order_exact [OF this] sample_orders(3) show "\<not> acyclic (value_reads cyclic_linked)"
    by (elim exE conjE) (simp add: order_of_def split: sum.split_asm)
qed

end
