(* ===== verification/Locality.thy ===== *)
theory Locality
  imports Effective Evaluation_Order_Correct
begin

text \<open>
  The value of an expression depends only on the bindings of the options it refers to, and the value
  of an option only on those of the options it reads (\<open>value_reads\<close>).
\<close>

section \<open>Expressions\<close>

text \<open>All but the lookup of a reference is independent of the environment.\<close>

lemma other_environment:
  "confit_v2_evaluate_diagnostic (ctx\<lparr>ec_environment := env\<rparr>) = confit_v2_evaluate_diagnostic ctx"
  "confit_v2_evaluate_require_set (ctx\<lparr>ec_environment := env\<rparr>) = confit_v2_evaluate_require_set ctx"
  "confit_v2_evaluate_copy_bound_value (ctx\<lparr>ec_environment := env\<rparr>) = confit_v2_evaluate_copy_bound_value ctx"
  "message_at (ctx\<lparr>ec_environment := env\<rparr>) = message_at ctx"
  "confit_v2_evaluate_literal (ctx\<lparr>ec_environment := env\<rparr>) = confit_v2_evaluate_literal ctx"
  by (intro ext; simp add: confit_v2_evaluate_diagnostic_def confit_v2_evaluate_require_set_def message_at_def
      confit_v2_evaluate_copy_bound_value_def confit_v2_evaluate_literal_def
      split: sum.split option.split)+

lemma other_environment_operators:
  "confit_v2_evaluate_arithmetic (ctx\<lparr>ec_environment := env\<rparr>) = confit_v2_evaluate_arithmetic ctx"
  "evaluate_unary_value (ctx\<lparr>ec_environment := env\<rparr>) = evaluate_unary_value ctx"
  "evaluate_builtin (ctx\<lparr>ec_environment := env\<rparr>) = evaluate_builtin ctx"
  by (intro ext; unfold confit_v2_evaluate_arithmetic_def evaluate_unary_value_def evaluate_builtin_def
      other_environment; rule refl)+

lemma other_environment_binary:
  "evaluate_binary_values (ctx\<lparr>ec_environment := env\<rparr>) = evaluate_binary_values ctx"
  by (intro ext) (unfold evaluate_binary_values_def other_environment_operators, rule refl)

definition agree_on :: "string set \<Rightarrow> environment \<Rightarrow> environment \<Rightarrow> bool" where
  "agree_on names env env' \<longleftrightarrow>
     (\<forall>name\<in>names. confit_v2_evaluate_find_binding env name = confit_v2_evaluate_find_binding env' name)"

lemma agree_on_subset: "agree_on names env env' \<Longrightarrow> names' \<subseteq> names \<Longrightarrow> agree_on names' env env'"
  by (auto simp: agree_on_def)

definition reference_ids :: "expr_node \<Rightarrow> string set" where
  "reference_ids n = reference_id ` set (reference_nodes n)"

lemma reference_ids_simps [simp]:
  "reference_ids (Literal loc l) = {}" "reference_ids (Reference loc r) = {r}"
  "reference_ids (Unary loc u n) = reference_ids n"
  "reference_ids (Binary loc b n m) = reference_ids n \<union> reference_ids m"
  "reference_ids (Conditional loc c n m) = reference_ids c \<union> reference_ids n \<union> reference_ids m"
  "reference_ids (Call loc f ns) = (\<Union>n\<in>set ns. reference_ids n)"
  "reference_ids (List_Node loc ns) = (\<Union>n\<in>set ns. reference_ids n)"
  by (auto simp: reference_ids_def)

lemma agree_on_Un [simp]:
  "agree_on (a \<union> b) env env' \<longleftrightarrow> agree_on a env env' \<and> agree_on b env env'" "agree_on {} env env'"
  "agree_on {r} env env' \<longleftrightarrow> confit_v2_evaluate_find_binding env r = confit_v2_evaluate_find_binding env' r"
  by (auto simp: agree_on_def)

lemma reference_local:
  "agree_on {r} (ec_environment ctx) env \<Longrightarrow>
     confit_v2_evaluate_reference (ctx\<lparr>ec_environment := env\<rparr>) n r = confit_v2_evaluate_reference ctx n r"
  by (simp add: confit_v2_evaluate_reference_def other_environment split: option.split)

lemma defined_local:
  "agree_on (\<Union>n\<in>set ns. reference_ids n) (ec_environment ctx) env \<Longrightarrow>
     evaluate_defined (ctx\<lparr>ec_environment := env\<rparr>) ns = evaluate_defined ctx ns"
  by (cases ns; cases "hd ns") (simp_all add: evaluate_defined_def array_at_def other_environment split: option.split)

lemma evaluate_node_local:
  "agree_on (reference_ids n) (ec_environment ctx) env \<Longrightarrow>
     confit_v2_evaluate_node (ctx\<lparr>ec_environment := env\<rparr>) n = confit_v2_evaluate_node ctx n"
  "agree_on (\<Union>n\<in>set ns. reference_ids n) (ec_environment ctx) env \<Longrightarrow>
     evaluate_arguments (ctx\<lparr>ec_environment := env\<rparr>) ns = evaluate_arguments ctx ns"
  "agree_on (\<Union>n\<in>set ns. reference_ids n) (ec_environment ctx) env \<Longrightarrow>
     evaluate_items (ctx\<lparr>ec_environment := env\<rparr>) ns = evaluate_items ctx ns"
proof (induction ctx n and ctx ns and ctx ns
    rule: confit_v2_evaluate_node_evaluate_arguments_evaluate_items.induct)
  case (4 ctx loc b l r)
  then have l: "confit_v2_evaluate_node (ctx\<lparr>ec_environment := env\<rparr>) l = confit_v2_evaluate_node ctx l" by simp
  show ?case
    unfolding confit_v2_evaluate_node.simps l other_environment other_environment_binary
    by (intro bind_res_cong refl if_cong) (use 4 in simp_all)
next
  case (5 ctx loc c t f)
  then have c: "confit_v2_evaluate_node (ctx\<lparr>ec_environment := env\<rparr>) c = confit_v2_evaluate_node ctx c" by simp
  show ?case
    unfolding confit_v2_evaluate_node.simps c other_environment
    by (intro bind_res_cong refl if_cong) (use 5 in simp_all)
next
  case (7 ctx loc items)
  have "evaluate_items (ctx\<lparr>ec_environment := env\<rparr>) items = evaluate_items ctx items"
    if "confit_v2_typed_expression_node_type (ec_typed ctx) (List_Node loc items) = Some t" "et_kind t = TYPE_COLLECTION" for t
    using 7 that by simp
  then show ?case by (auto simp: other_environment split: option.split)
qed (simp_all add: other_environment other_environment_operators reference_local defined_local cong: bind_res_cong)

lemma expression_local:
  assumes "agree_on (reference_ids (expression_root (typed_source typed))) env env'"
  shows "confit_v2_expression_evaluate typed env = confit_v2_expression_evaluate typed env'"
  using evaluate_node_local(1) [of "expression_root (typed_source typed)" "\<lparr>ec_typed = typed, ec_environment = env\<rparr>" env'] assms
  by (simp add: confit_v2_expression_evaluate_def)

section \<open>Options\<close>

definition expression_names :: "linked_expression \<Rightarrow> string set" where
  "expression_names x = (\<lambda>r. sym_id (lref_symbol r)) ` set (lx_references x)"

lemma resolved_names:
  assumes "list_all2 (resolves symbols self_id) ms rs" "sorted_wrt (<) (map sym_id symbols)"
  shows "reference_id ` set ms = (\<lambda>r. sym_id (lref_symbol r)) ` set rs"
proof -
  have "reference_id m = sym_id (lref_symbol r)" if "resolves symbols self_id m r" for m r
    using that binary_find_lookup [OF assms(2), of "reference_id m"]
    by (auto simp: resolves_def confit_v2_link_find_symbol_def find_Some_iff)
  with assms(1) have "map reference_id ms = map (\<lambda>r. sym_id (lref_symbol r)) rs"
    by (auto simp: list_all2_conv_all_nth list_eq_iff_nth_eq)
  then show ?thesis by (metis list.set_map)
qed

lemma linked_expression_local:
  assumes "confit_v2_schema_link_project p = Inr linked" "x \<in> set (lp_expressions linked)"
    and "agree_on (expression_names x) env env'"
  shows "confit_v2_expression_evaluate (lx_typed x) env = confit_v2_expression_evaluate (lx_typed x) env'"
  using assms(1,2)
proof (rule linked_record)
  fix d k
  assume l: "links (lp_bindings linked) (lp_symbols linked) d k x"
  then have "typed_source (lx_typed x) = lx_expression x" using type_check_typing by (auto simp: links_def)
  moreover have "list_all2 (resolves (lp_symbols linked) (decl_self d)) (reference_nodes (expression_root (lx_expression x)))
      (lx_references x)" using l by (simp add: links_def)
  from resolved_names [OF this] have "reference_ids (expression_root (lx_expression x)) = expression_names x"
    using linked_project_ok [OF assms(1)] by (simp add: reference_ids_def expression_names_def linked_ok_def)
  ultimately show ?thesis using assms(3) by (intro expression_local) simp
qed

lemma found_expression:
  assumes "confit_v2_schema_link_project p = Inr linked"
    and "confit_v2_linked_project_find_expression linked role owner_id k = Some x"
  shows "x \<in> set (lp_expressions linked) \<and> lx_role x = role \<and> lx_owner_id x = owner_id"
proof -
  let ?xs = "filter (\<lambda>x. lx_role x = role \<and> lx_owner_id x = owner_id) (lp_expressions linked)"
  have "x \<in> set ?xs"
    using assms(2) unfolding find_expression_filter [OF linked_project_ok [OF assms(1)]] Let_def
    by (auto split: if_splits simp del: set_filter)
  then show ?thesis by auto
qed

lemma affecting_expression_reads:
  assumes "confit_v2_schema_link_project p = Inr linked"
    and "confit_v2_linked_project_find_expression linked role owner_id k = Some x"
    and "confit_v2_evaluation_role_affects_value role"
  shows "expression_names x \<subseteq> value_reads linked `` {owner_id}"
  using found_expression [OF assms(1,2)] assms(3)
  by (force simp: expression_names_def value_reads_def expression_reads_def)

lemma affecting_expression_local:
  assumes "confit_v2_schema_link_project p = Inr linked"
    and "confit_v2_linked_project_find_expression linked role owner_id k = Some x"
    and "confit_v2_evaluation_role_affects_value role"
    and "agree_on (value_reads linked `` {owner_id}) env env'"
  shows "confit_v2_expression_evaluate (lx_typed x) env = confit_v2_expression_evaluate (lx_typed x) env'"
  using found_expression [OF assms(1,2)] affecting_expression_reads [OF assms(1-3)] assms(4)
  by (intro linked_expression_local [OF assms(1)]) (auto intro: agree_on_subset)

lemma conditional_default_local:
  assumes "confit_v2_schema_link_project p = Inr linked"
    and "agree_on (value_reads linked `` {sym_id symbol}) env env'"
  shows "conditional_default_loop linked symbol env i ds selected = conditional_default_loop linked symbol env' i ds selected"
proof (induction ds arbitrary: i selected)
  case (Cons d ds)
  have "condition_value x env = condition_value x env'"
    if "confit_v2_linked_project_find_expression linked ROLE_DEFAULT_WHEN (sym_id symbol) i = Some x" for x
    using affecting_expression_local [OF assms(1) that _ assms(2)]
    by (intro ext) (simp add: condition_value_def confit_v2_evaluation_role_affects_value_def)
  moreover have "conditional_default_loop linked symbol env (i + 1) ds = conditional_default_loop linked symbol env' (i + 1) ds"
    by (intro ext) (rule Cons.IH)
  ultimately show ?case by (simp split: option.split)
qed simp

lemma evaluate_symbol_local:
  assumes link: "confit_v2_schema_link_project p = Inr linked"
    and agree: "agree_on (value_reads linked `` {sym_id (ef_symbol out)}) env env'"
  shows "evaluate_symbol linked ledger out env = evaluate_symbol linked ledger out env'"
proof (cases "sym_write_domain (ef_symbol out) = DOMAIN_COMPUTED")
  case True
  have "confit_v2_expression_evaluate (lx_typed x) env = confit_v2_expression_evaluate (lx_typed x) env'"
    if "confit_v2_linked_project_find_expression linked ROLE_COMPUTED (sym_id (ef_symbol out)) 0 = Some x" for x
    using affecting_expression_local [OF link that _ agree] by (simp add: confit_v2_evaluation_role_affects_value_def)
  then show ?thesis using True
    by (auto simp: evaluate_symbol_def confit_v2_evaluation_compute_symbol_def split: option.split)
next
  case False
  have "confit_v2_evaluation_conditional_default linked (ef_symbol out) env
      = confit_v2_evaluation_conditional_default linked (ef_symbol out) env'"
    unfolding confit_v2_evaluation_conditional_default_def by (rule conditional_default_local [OF link agree])
  with False show ?thesis
    by (simp add: evaluate_symbol_def confit_v2_evaluation_input_symbol_def Let_def split: option.split)
qed

end
