(* ===== verification/Effective_Values.thy ===== *)
theory Effective_Values
  imports Locality
begin

text \<open>
  The evaluation of \<open>src/resolver/v2/evaluate.c\<close> runs through the options once. Its result is a solution of
  the equations that give the value of every option in the environment of all final values, and the
  only one, so that the values do not depend on the order in which independent options were
  evaluated.
\<close>

section \<open>Solutions\<close>

text \<open>The environment in which the final conditions are evaluated.\<close>

definition environment_of :: "effective_value list \<Rightarrow> environment" where
  "environment_of vs = map (\<lambda>v. (initial_binding (ef_symbol v))\<lparr>bind_value := effective_binding v\<rparr>) vs"

text \<open>A value without its availability and visibility, which are added at the end.\<close>

definition core :: "effective_value \<Rightarrow> effective_value" where
  "core v = v\<lparr>ef_available := False, ef_visible := False\<rparr>"

definition solves :: "linked_project \<Rightarrow> assignment_ledger \<Rightarrow> effective_value list \<Rightarrow> bool" where
  "solves linked ledger vs \<longleftrightarrow> map ef_symbol vs = lp_symbols linked
     \<and> (\<forall>v\<in>set vs. evaluate_symbol linked ledger (initial_value (ef_symbol v)) (environment_of vs) = Inr (core v))"

lemma core_parts [simp]:
  "ef_symbol (core v) = ef_symbol v" "effective_binding (core v) = effective_binding v" "core (core v) = core v"
  by (simp_all add: core_def effective_binding_def)

lemma environment_same:
  "map core vs = map core ws \<Longrightarrow> environment_of vs = environment_of ws"
proof -
  have "environment_of us = environment_of (map core us)" for us by (simp add: environment_of_def o_def)
  then show "map core vs = map core ws \<Longrightarrow> environment_of vs = environment_of ws" by metis
qed

lemma agree_bindings:
  "list_all2 (\<lambda>v w. ef_symbol v = ef_symbol w \<and> (sym_id (ef_symbol v) \<in> names \<longrightarrow> effective_binding v = effective_binding w)) vs ws
    \<Longrightarrow> agree_on names (environment_of vs) (environment_of ws)"
proof (induction rule: list_all2_induct)
  case (Cons v vs w ws)
  then show ?case
    by (auto simp: agree_on_def environment_of_def confit_v2_evaluate_find_binding_def initial_binding_def spec_simps)
qed (simp add: agree_on_def environment_of_def)

text \<open>Evaluating an option keeps its symbol and leaves the flags at zero.\<close>

lemma set_value_parts:
  "confit_v2_evaluation_set_value out v origin requested path line column = Inr w \<Longrightarrow>
     ef_symbol w = ef_symbol out \<and> ef_available w = ef_available out \<and> ef_visible w = ef_visible out"
  by (auto simp: confit_v2_evaluation_set_value_def bind_simps)

lemma span_diagnostic_not_Inr [simp]: "span_diagnostic span st message \<noteq> Inr x"
  by (simp add: span_diagnostic_def confit_v2_ledger_diagnostic_def)

lemma evaluate_symbol_parts:
  assumes "evaluate_symbol linked ledger out env = Inr w"
  shows "ef_symbol w = ef_symbol out \<and> ef_available w = ef_available out \<and> ef_visible w = ef_visible out"
proof (cases "sym_write_domain (ef_symbol out) = DOMAIN_COMPUTED")
  case True
  with assms show ?thesis
    by (auto simp: evaluate_symbol_def confit_v2_evaluation_compute_symbol_def bind_simps Let_def
        split: option.splits if_splits)
next
  case False
  with assms set_value_parts show ?thesis
    by (fastforce simp: evaluate_symbol_def confit_v2_evaluation_input_symbol_def bind_simps Let_def
        split: option.splits if_splits)
qed

lemma evaluated_core:
  assumes "evaluate_symbol linked ledger (initial_value s) env = Inr v"
  shows "ef_symbol v = s" "core v = v"
  using evaluate_symbol_parts [OF assms] by (simp_all add: initial_value_def core_def)

section \<open>The loop over the order\<close>

definition option_reads :: "linked_project \<Rightarrow> nat \<Rightarrow> string set" where
  "option_reads linked i = value_reads linked `` {sym_id (lp_symbols linked ! i)}"

definition solved_at :: "linked_project \<Rightarrow> assignment_ledger \<Rightarrow> effective_value list \<Rightarrow> nat \<Rightarrow> bool" where
  "solved_at linked ledger vs i \<longleftrightarrow>
     evaluate_symbol linked ledger (initial_value (ef_symbol (vs ! i))) (environment_of vs) = Inr (vs ! i)"

text \<open>In an order in which reads come first, the options already evaluated read only each other.\<close>

definition reads_first :: "linked_project \<Rightarrow> nat list \<Rightarrow> bool" where
  "reads_first linked order \<longleftrightarrow>
     (\<forall>k<length order. option_reads linked (order ! k) \<subseteq> (\<lambda>i. sym_id (lp_symbols linked ! i)) ` set (take k order))"

lemma reads_first_prefix:
  assumes "reads_first linked (before @ i # rest)" "j \<in> set (before @ [i])"
  shows "option_reads linked j \<subseteq> (\<lambda>i. sym_id (lp_symbols linked ! i)) ` set before"
proof -
  from assms(2) obtain k where k: "k < length (before @ [i])" "(before @ [i]) ! k = j" by (metis in_set_conv_nth)
  then have "(before @ i # rest) ! k = j" by (auto simp: nth_append split: if_splits)
  moreover have "take k (before @ i # rest) = take k before" using k by simp
  ultimately have "option_reads linked j \<subseteq> (\<lambda>i. sym_id (lp_symbols linked ! i)) ` set (take k before)"
    using assms(1) k(1) unfolding reads_first_def by (metis (no_types, lifting) length_append length_append_singleton
        length_Cons less_SucE add_Suc_right trans_less_add1 less_add_Suc1 nat_add_left_cancel_less zero_less_Suc)
  then show ?thesis using set_take_subset by fast
qed

lemma bindings_update:
  assumes "i < length vs" "ef_symbol v = ef_symbol (vs ! i)"
  shows "(environment_of vs)[i := (environment_of vs ! i)\<lparr>bind_value := effective_binding v\<rparr>] = environment_of (vs[i := v])"
  using assms by (simp add: environment_of_def map_update initial_binding_def)

lemma agree_update:
  assumes "i < length vs" "ef_symbol v = ef_symbol (vs ! i)" "sym_id (ef_symbol (vs ! i)) \<notin> names"
  shows "agree_on names (environment_of vs) (environment_of (vs[i := v]))"
  using assms by (intro agree_bindings) (auto simp: list_all2_conv_all_nth nth_list_update)

lemma evaluate_node_pair:
  "evaluate_node linked ledger i (vs, env) = bind_res (evaluate_symbol linked ledger (vs ! i) env) (\<lambda>v.
     Inr (vs[i := v], env[i := (env ! i)\<lparr>bind_value := effective_binding v\<rparr>]))"
  by (simp add: evaluate_node_def)

lemma evaluation_loop:
  assumes link: "confit_v2_schema_link_project p = Inr linked"
    and first: "reads_first linked (before @ rest)" and dist: "distinct (before @ rest)"
    and range: "set (before @ rest) \<subseteq> {..<length vs}"
    and symbols: "map ef_symbol vs = lp_symbols linked"
    and solved: "\<forall>i\<in>set before. solved_at linked ledger vs i"
    and fresh: "\<forall>i\<in>set rest. vs ! i = initial_value (lp_symbols linked ! i)"
    and run: "fold_res (evaluate_node linked ledger) rest (vs, environment_of vs) = Inr (ws, env)"
  shows "map ef_symbol ws = lp_symbols linked \<and> env = environment_of ws
    \<and> (\<forall>i\<in>set (before @ rest). solved_at linked ledger ws i)"
  using assms(2-)
proof (induction rest arbitrary: before vs)
  case Nil
  then show ?case by auto
next
  case (Cons i rest)
  note prems = Cons.prems
  let ?id = "\<lambda>i. sym_id (lp_symbols linked ! i)"
  have i: "i < length vs" "i \<notin> set before" "i \<notin> set rest" using prems(2,3) by auto
  have sym: "ef_symbol (vs ! j) = lp_symbols linked ! j" if "j < length vs" for j
    using arg_cong [OF prems(4), of "\<lambda>xs. xs ! j"] that by simp
  have len: "length (lp_symbols linked) = length vs" using arg_cong [OF prems(4), of length] by simp
  have ids: "?id j \<noteq> ?id i" if "j < length vs" "j \<noteq> i" for j
  proof -
    have "distinct (map sym_id (lp_symbols linked))"
      using linked_project_ok [OF link] strict_sorted_iff by (auto simp: linked_ok_def)
    then show ?thesis using that i(1) len nth_eq_iff_index_eq [of "map sym_id (lp_symbols linked)" j i] by simp
  qed
  obtain v where v: "evaluate_symbol linked ledger (vs ! i) (environment_of vs) = Inr v"
    and run: "fold_res (evaluate_node linked ledger) rest
      (vs[i := v], (environment_of vs)[i := (environment_of vs ! i)\<lparr>bind_value := effective_binding v\<rparr>]) = Inr (ws, env)"
    using prems(7) by (auto simp: evaluate_node_pair bind_simps)
  have fresh: "vs ! i = initial_value (lp_symbols linked ! i)" using prems(6) by simp
  note vsym = evaluated_core(1) [OF v [unfolded fresh]]
  then have same: "ef_symbol v = ef_symbol (vs ! i)" using sym i(1) by simp
  have unread: "?id i \<notin> option_reads linked j" if "j \<in> set (before @ [i])" for j
  proof
    assume "?id i \<in> option_reads linked j"
    with reads_first_prefix [OF prems(1) that] obtain m where "m \<in> set before" "?id m = ?id i" by auto
    with ids [of m] i(2) prems(3) show False by auto
  qed
  have "solved_at linked ledger (vs[i := v]) j" if j: "j \<in> set (before @ [i])" for j
  proof -
    have jl: "j < length vs" using j prems(3) by auto
    have "agree_on (option_reads linked j) (environment_of vs) (environment_of (vs[i := v]))"
      using unread [OF j] sym i(1) by (intro agree_update [OF i(1) same]) simp
    then have agree: "evaluate_symbol linked ledger (initial_value (lp_symbols linked ! j)) (environment_of vs)
        = evaluate_symbol linked ledger (initial_value (lp_symbols linked ! j)) (environment_of (vs[i := v]))"
      by (intro evaluate_symbol_local [OF link]) (simp add: option_reads_def initial_value_def)
    show ?thesis
    proof (cases "j = i")
      case True
      with agree v fresh vsym i(1) show ?thesis by (simp add: solved_at_def)
    next
      case False
      with j have "solved_at linked ledger vs j" using prems(5) by auto
      with agree False sym [OF jl] show ?thesis by (simp add: solved_at_def)
    qed
  qed
  moreover have "map ef_symbol (vs[i := v]) = lp_symbols linked"
    unfolding prems(4) [symmetric] using i(1) by (simp add: map_update same list_update_same_conv)
  moreover have "\<forall>k\<in>set rest. (vs[i := v]) ! k = initial_value (lp_symbols linked ! k)"
    using prems(6) i(3) by (metis list.set_intros(2) nth_list_update_neq)
  ultimately show ?case
    using Cons.IH [of "before @ [i]" "vs[i := v]"] prems(1-3) run by (simp add: bindings_update [OF i(1) same])
qed

section \<open>Uniqueness\<close>

lemma solution_unique:
  assumes link: "confit_v2_schema_link_project p = Inr linked"
    and first: "reads_first linked order" and all: "set order = {..<length (lp_symbols linked)}"
    and vs: "solves linked ledger vs" and ws: "solves linked ledger ws"
  shows "map core vs = map core ws"
proof -
  have len: "length vs = length (lp_symbols linked)" "length ws = length (lp_symbols linked)"
    using vs ws by (metis solves_def length_map)+
  have sym: "ef_symbol (vs ! i) = lp_symbols linked ! i" "ef_symbol (ws ! i) = lp_symbols linked ! i"
    if "i < length (lp_symbols linked)" for i
    using vs ws that len by (metis solves_def nth_map)+
  have equation: "evaluate_symbol linked ledger (initial_value (lp_symbols linked ! i)) (environment_of us) = Inr (core (us ! i))"
    if "solves linked ledger us" "i < length (lp_symbols linked)" "length us = length (lp_symbols linked)"
      "ef_symbol (us ! i) = lp_symbols linked ! i" for us i
    using that by (metis solves_def nth_mem)
  have "k \<le> length order \<Longrightarrow> \<forall>i\<in>set (take k order). core (vs ! i) = core (ws ! i)" for k
  proof (induction k)
    case (Suc k)
    let ?i = "order ! k"
    have i: "?i < length (lp_symbols linked)" using Suc.prems all nth_mem [of k order] by auto
    have same: "core (vs ! j) = core (ws ! j)"
      if j: "j < length (lp_symbols linked)" "sym_id (lp_symbols linked ! j) \<in> option_reads linked ?i" for j
    proof -
      have "option_reads linked ?i \<subseteq> (\<lambda>i. sym_id (lp_symbols linked ! i)) ` set (take k order)"
        using first Suc.prems by (simp add: reads_first_def)
      with j(2) obtain m where m: "m \<in> set (take k order)" "sym_id (lp_symbols linked ! j) = sym_id (lp_symbols linked ! m)"
        by blast
      have "m < length (lp_symbols linked)" using m(1) all set_take_subset [of k order] by auto
      moreover have "distinct (map sym_id (lp_symbols linked))"
        using linked_project_ok [OF link] strict_sorted_iff by (auto simp: linked_ok_def)
      ultimately have "j = m" using m(2) j(1) nth_eq_iff_index_eq [of "map sym_id (lp_symbols linked)" j m] by simp
      with m(1) Suc.IH Suc.prems show ?thesis by simp
    qed
    have "effective_binding (vs ! j) = effective_binding (ws ! j)"
      if "j < length (lp_symbols linked)" "sym_id (lp_symbols linked ! j) \<in> option_reads linked ?i" for j
      using core_parts(2) same [OF that] by metis
    then have "agree_on (option_reads linked ?i) (environment_of vs) (environment_of ws)"
      using len sym by (intro agree_bindings) (auto simp: list_all2_conv_all_nth)
    then have "evaluate_symbol linked ledger (initial_value (lp_symbols linked ! ?i)) (environment_of vs)
        = evaluate_symbol linked ledger (initial_value (lp_symbols linked ! ?i)) (environment_of ws)"
      by (intro evaluate_symbol_local [OF link]) (simp add: option_reads_def initial_value_def)
    then have "core (vs ! ?i) = core (ws ! ?i)"
      using equation [OF vs i len(1) sym(1) [OF i]] equation [OF ws i len(2) sym(2) [OF i]] by simp
    with Suc show ?case by (auto simp: take_Suc_conv_app_nth)
  qed simp
  from this [of "length order"] all len show ?thesis by (auto simp: list_eq_iff_nth_eq)
qed

section \<open>The result of an evaluation\<close>

lemma option_state_parts:
  "option_state linked env v = Inr w \<Longrightarrow> w = v\<lparr>ef_available := ef_available w, ef_visible := ef_visible w\<rparr> \<and> core w = core v"
  by (auto simp: option_state_def confit_v2_ledger_diagnostic_def bind_simps core_def split: if_splits)

lemma option_states_all:
  "confit_v2_evaluation_option_states linked env vs = Inr ws \<Longrightarrow> list_all2 (\<lambda>v w. option_state linked env v = Inr w) vs ws"
  by (induction vs arbitrary: ws) (auto simp: bind_simps)

lemma states_core:
  "list_all2 (\<lambda>v w. option_state linked env v = Inr w) vs ws \<Longrightarrow> map core ws = map core vs"
  by (induction rule: list_all2_induct) (simp_all add: option_state_parts)

lemma ledger_order:
  assumes link: "confit_v2_schema_link_project p = Inr linked"
    and "confit_v2_evaluation_build_nodes linked = Inr nodes" "confit_v2_evaluation_topological_order nodes = Inr order"
  shows "map node_symbol nodes = lp_symbols linked" "reads_first linked order" "distinct order"
    "set order = {..<length (lp_symbols linked)}"
proof -
  from built_nodes [OF link] assms(2) have n: "map node_symbol nodes = lp_symbols linked"
    "\<forall>i<length nodes. targets nodes i = reads_within nodes (value_reads linked) i" by auto
  have "nodes_closed nodes" using n(2) by (auto simp: nodes_closed_def reads_within_def)
  from topological_order_outcome [OF this] assms(3) have order: "evaluation_order_ok nodes order" by simp
  show "map node_symbol nodes = lp_symbols linked" by fact
  show "distinct order" using order by (simp add: evaluation_order_ok_def)
  have "length nodes = length (lp_symbols linked)" using arg_cong [OF n(1), of length] by simp
  then show "set order = {..<length (lp_symbols linked)}" using order by (simp add: evaluation_order_ok_def)
  show "reads_first linked order"
    unfolding reads_first_def option_reads_def
  proof (intro allI impI subsetI)
    fix k y
    assume k: "k < length order" and y: "y \<in> value_reads linked `` {sym_id (lp_symbols linked ! (order ! k))}"
    with order_reads_before [OF link n order k, of y]
    show "y \<in> (\<lambda>i. sym_id (lp_symbols linked ! i)) ` set (take k order)"
      by (simp add: order_ids_def take_map)
  qed
qed

lemma evaluation_result:
  assumes link: "confit_v2_schema_link_project p = Inr linked" and compiled: "cs_linked (al_compiled ledger) = linked"
    and build: "confit_v2_evaluation_build ledger = Inr result"
  shows "solves linked ledger (evl_values result)"
    and "\<exists>order. reads_first linked order \<and> set order = {..<length (lp_symbols linked)}"
    and "\<exists>vs. list_all2 (\<lambda>v w. option_state linked (environment_of (evl_values result)) v = Inr w) vs (evl_values result)"
    and "confit_v2_evaluation_choices (evl_values result) (environment_of (evl_values result)) (cs_choices (al_compiled ledger))
      = Inr (evl_choices result)"
    and "evl_ledger result = ledger"
proof -
  from build obtain nodes order vs env ws where
    n: "confit_v2_evaluation_build_nodes linked = Inr nodes"
    and o: "confit_v2_evaluation_topological_order nodes = Inr order"
    and run: "fold_res (evaluate_node linked ledger) order
       (map (\<lambda>n. initial_value (node_symbol n)) nodes, map (\<lambda>n. initial_binding (node_symbol n)) nodes) = Inr (vs, env)"
    and ws: "confit_v2_evaluation_option_states linked env vs = Inr ws" "evl_values result = ws"
    and choices: "confit_v2_evaluation_choices ws env (cs_choices (al_compiled ledger)) = Inr (evl_choices result)"
    and l: "evl_ledger result = ledger"
    by (auto simp: confit_v2_evaluation_build_def compiled Let_def bind_simps)
  note order = ledger_order [OF link n o]
  let ?start = "map initial_value (lp_symbols linked)"
  have start: "map (\<lambda>n. initial_value (node_symbol n)) nodes = ?start"
    "map (\<lambda>n. initial_binding (node_symbol n)) nodes = environment_of ?start"
    unfolding order(1) [symmetric]
    by (simp_all add: environment_of_def effective_binding_def initial_value_def initial_binding_def)
  have loop: "map ef_symbol vs = lp_symbols linked \<and> env = environment_of vs
      \<and> (\<forall>i\<in>set ([] @ order). solved_at linked ledger vs i)"
  proof (rule evaluation_loop [OF link])
    show "fold_res (evaluate_node linked ledger) order (?start, environment_of ?start) = Inr (vs, env)"
      using run by (simp only: start)
    show "map ef_symbol ?start = lp_symbols linked" by (simp add: initial_value_def o_def)
  qed (use order in auto)
  then have len: "length vs = length (lp_symbols linked)" by (metis length_map)
  note states = option_states_all [OF ws(1)]
  note cores = states_core [OF states]
  have env: "env = environment_of ws" using loop environment_same [OF cores] by simp
  have sols: "map ef_symbol ws = lp_symbols linked"
  proof -
    have "map ef_symbol (map core us) = map ef_symbol us" for us by simp
    then show ?thesis using cores loop by metis
  qed
  have "evaluate_symbol linked ledger (initial_value (ef_symbol w)) (environment_of ws) = Inr (core w)" if "w \<in> set ws" for w
  proof -
    from that obtain i where i: "i < length ws" "w = ws ! i" by (metis in_set_conv_nth)
    have lw: "length ws = length vs" using arg_cong [OF cores, of length] by simp
    have "solved_at linked ledger vs i" using loop i(1) lw len order(4) by auto
    moreover have "core (ws ! i) = core (vs ! i)" using arg_cong [OF cores, of "\<lambda>xs. xs ! i"] i(1) lw by simp
    ultimately show ?thesis
      using i(2) env loop evaluated_core(2) core_parts(1) by (metis solved_at_def)
  qed
  with sols show "solves linked ledger (evl_values result)" by (simp add: solves_def ws(2))
  show "\<exists>order. reads_first linked order \<and> set order = {..<length (lp_symbols linked)}" using order by blast
  show "\<exists>vs. list_all2 (\<lambda>v w. option_state linked (environment_of (evl_values result)) v = Inr w) vs (evl_values result)"
    using states env ws(2) by blast
  show "confit_v2_evaluation_choices (evl_values result) (environment_of (evl_values result)) (cs_choices (al_compiled ledger))
      = Inr (evl_choices result)" using choices env ws(2) by simp
  show "evl_ledger result = ledger" by fact
qed

text \<open>C2. The values of an evaluation solve its equations: the value, origin and source of each option are
  what the rules give for it (computed value, request, conditional default, default, unset) in the
  environment of the final values. The solution is unique, so neither the order of the declarations
  nor the order in which the options were evaluated matters.\<close>

theorem effective_values_unique:
  assumes "confit_v2_schema_link_project p = Inr linked" "cs_linked (al_compiled ledger) = linked"
    and "confit_v2_evaluation_build ledger = Inr result"
  shows "solves linked ledger vs \<longleftrightarrow> map core vs = map core (evl_values result)"
proof
  from evaluation_result(2) [OF assms] obtain order where
    "reads_first linked order" "set order = {..<length (lp_symbols linked)}" by blast
  then show "solves linked ledger vs \<Longrightarrow> map core vs = map core (evl_values result)"
    using solution_unique [OF assms(1)] evaluation_result(1) [OF assms] by blast
next
  assume same: "map core vs = map core (evl_values result)"
  have equations: "solves linked ledger us \<longleftrightarrow> map ef_symbol (map core us) = lp_symbols linked \<and>
      (\<forall>c\<in>set (map core us). evaluate_symbol linked ledger (initial_value (ef_symbol c)) (environment_of us) = Inr c)" for us
    by (simp add: solves_def o_def)
  show "solves linked ledger vs"
    using evaluation_result(1) [OF assms] unfolding equations same environment_same [OF same] .
qed

end
