(* ===== verification/Effective_Choices.thy ===== *)
theory Effective_Choices
  imports Effective_Values
begin

text \<open>
  Availability and choices in the result of an evaluation: an option that is not available has no
  value or a disabled one, and every choice has as many members as it allows, or takes the member of
  the default of highest priority whose condition holds.
\<close>

section \<open>Conditions\<close>

definition condition_in :: "environment \<Rightarrow> linked_expression option \<Rightarrow> bool option" where
  "condition_in env expression = (case expression of
     None \<Rightarrow> Some True
   | Some x \<Rightarrow> (case confit_v2_expression_evaluate (lx_typed x) env of
       Inr v \<Rightarrow> if ev_is_set v then (case ev_value v of V_Bool b \<Rightarrow> Some (b \<noteq> 0) | _ \<Rightarrow> None) else None
     | Inl e \<Rightarrow> None))"

lemma member_Inr [simp]: "member r = Inr x \<longleftrightarrow> r = Inr x"
  by (auto simp: member_def split: sum.splits fault.splits)

lemma as_bool_Inr: "as_bool v = Inr b \<longleftrightarrow> v = V_Bool b"
  by (auto simp: as_bool_def split: v2_value.splits)

lemma condition_value_Inr: "condition_value x env message = Inr b \<longleftrightarrow> condition_in env (Some x) = Some b"
proof (cases "confit_v2_expression_evaluate (lx_typed x) env")
  case (Inl e)
  then show ?thesis by (auto simp: condition_value_def condition_in_def bind_simps)
next
  case (Inr v)
  then show ?thesis
    by (cases "ev_is_set v"; cases "ev_value v")
      (auto simp: condition_value_def condition_in_def bind_simps as_bool_Inr)
qed

lemma boolean_condition_Inr:
  "confit_v2_evaluation_boolean_condition expression env message = Inr b \<longleftrightarrow> condition_in env expression = Some b"
  by (cases expression) (auto simp: confit_v2_evaluation_boolean_condition_def condition_value_Inr condition_in_def)

section \<open>Options\<close>

definition option_settled :: "linked_project \<Rightarrow> environment \<Rightarrow> effective_value \<Rightarrow> bool" where
  "option_settled linked env v \<longleftrightarrow>
     condition_in env (confit_v2_evaluation_symbol_expression linked (ef_symbol v) ROLE_AVAILABLE_IF) = Some (ef_available v)
     \<and> condition_in env (confit_v2_evaluation_symbol_expression linked (ef_symbol v) ROLE_VISIBLE_IF) = Some (ef_visible v)
     \<and> (ef_available v \<or> ef_value v \<in> {V_Bool 0, V_Tristate CHR ''n''} \<or> \<not> ef_is_set v)"

lemma option_state_settled:
  assumes "option_state linked env v = Inr w"
  shows "option_settled linked env w"
proof -
  from option_state_parts [OF assms] have parts: "ef_symbol w = ef_symbol v" "ef_value w = ef_value v" "ef_is_set w = ef_is_set v"
    by (metis effective_value.select_convs effective_value.update_convs effective_value.surjective)+
  from assms have "ef_available w \<or> confit_v2_evaluation_value_is_disabled v"
    by (auto simp: option_state_def confit_v2_ledger_diagnostic_def bind_simps split: if_splits)
  then have "ef_available w \<or> ef_value w \<in> {V_Bool 0, V_Tristate CHR ''n''} \<or> \<not> ef_is_set w"
    by (auto simp: confit_v2_evaluation_value_is_disabled_def parts split: if_splits v2_value.splits)
  with assms show ?thesis
    by (auto simp: option_settled_def parts option_state_def confit_v2_ledger_diagnostic_def bind_simps
        boolean_condition_Inr split: if_splits)
qed

section \<open>The default of a choice\<close>

text \<open>The defaults whose conditions hold.\<close>

definition holding_defaults :: "environment \<Rightarrow> choice_default list \<Rightarrow> linked_expression list \<Rightarrow> choice_default list" where
  "holding_defaults env ds xs = map fst (filter (\<lambda>(d, x). condition_in env (Some x) = Some True) (zip ds xs))"

definition best_default :: "choice_default set \<Rightarrow> choice_default option \<Rightarrow> bool" where
  "best_default ds selected \<longleftrightarrow> (case selected of
     None \<Rightarrow> ds = {}
   | Some d \<Rightarrow> d \<in> ds \<and> (\<forall>e\<in>ds. sint (chd_priority e) \<le> sint (chd_priority d)
        \<and> (chd_priority e = chd_priority d \<longrightarrow> chd_member e = chd_member d)))"

lemma best_default_step:
  assumes "best_default ds selected"
    and "(case selected of
            None \<Rightarrow> Inr (Some candidate)
          | Some best \<Rightarrow>
              if chd_priority best <s chd_priority candidate then Inr (Some candidate)
              else if chd_priority candidate = chd_priority best \<and> strcmp (chd_member candidate) (chd_member best) \<noteq> 0
              then span_diagnostic (chd_span candidate) CONFIT_ERR_SCHEMA message
              else Inr selected) = Inr chosen"
  shows "best_default (insert candidate ds) chosen"
proof (cases selected)
  case None
  with assms show ?thesis by (auto simp: best_default_def)
next
  case (Some best)
  have best: "best \<in> ds" "\<And>e. e \<in> ds \<Longrightarrow> sint (chd_priority e) \<le> sint (chd_priority best)"
    "\<And>e. e \<in> ds \<Longrightarrow> chd_priority e = chd_priority best \<Longrightarrow> chd_member e = chd_member best"
    using assms(1) unfolding Some best_default_def option.case by blast+
  from Some assms(2) consider "sint (chd_priority best) < sint (chd_priority candidate)" "chosen = Some candidate"
    | "sint (chd_priority candidate) \<le> sint (chd_priority best)" "chosen = Some best"
      "chd_priority candidate = chd_priority best \<longrightarrow> chd_member candidate = chd_member best"
    by (auto simp: strcmp_eq word_sless_alt not_less split: if_splits)
  then show ?thesis
  proof cases
    case 1
    have "sint (chd_priority e) < sint (chd_priority candidate)" if "e \<in> ds" for e using best(2) [OF that] 1(1) by linarith
    then show ?thesis unfolding best_default_def 1(2) option.case by (metis insert_iff order_less_irrefl order_less_imp_le order_refl)
  next
    case 2
    with best show ?thesis unfolding best_default_def 2(2) option.case by blast
  qed
qed

lemma choice_default_loop_best:
  "choice_default_loop defaults env i xs selected = Inr result \<Longrightarrow> best_default ds selected
    \<Longrightarrow> best_default (ds \<union> set (holding_defaults env (drop i defaults) xs)) result"
proof (induction defaults env i xs selected arbitrary: ds rule: choice_default_loop.induct)
  case (1 defaults env i selected)
  then show ?case by (simp add: holding_defaults_def)
next
  case (2 defaults env i x xs selected)
  from 2(2) obtain holds where h: "condition_in env (Some x) = Some holds"
    and c: "condition_value x env ''schema v2 choice default condition is unset'' = Inr holds"
    by (auto simp: bind_simps condition_value_Inr)
  show ?case
  proof (cases holds)
    case False
    then have "best_default (ds \<union> set (holding_defaults env (drop (i + 1) defaults) xs)) result"
      using 2(2) c by (intro 2(1) [OF c _ _ 2(3)]) simp_all
    moreover have "holding_defaults env (drop i defaults) (x # xs) = holding_defaults env (drop (i + 1) defaults) xs"
      using False h by (cases "drop i defaults") (auto simp: holding_defaults_def drop_Suc tl_drop [symmetric])
    ultimately show ?thesis by simp
  next
    case True
    from 2(2) c True obtain candidate chosen where i: "array_at defaults i = Inr candidate"
      and n: "(case selected of
            None \<Rightarrow> Inr (Some candidate)
          | Some best \<Rightarrow>
              if chd_priority best <s chd_priority candidate then Inr (Some candidate)
              else if chd_priority candidate = chd_priority best \<and> strcmp (chd_member candidate) (chd_member best) \<noteq> 0
              then span_diagnostic (chd_span candidate) CONFIT_ERR_SCHEMA ''ambiguous schema v2 choice default''
              else Inr selected) = Inr chosen"
      and rest: "choice_default_loop defaults env (i + 1) xs chosen = Inr result"
      by (auto simp: bind_simps)
    have "best_default (insert candidate ds \<union> set (holding_defaults env (drop (i + 1) defaults) xs)) result"
      by (rule 2(1) [OF c _ rest best_default_step [OF 2(3) n]]) (use True i n in \<open>simp add: bind_simps\<close>)
    moreover have "drop i defaults = candidate # drop (i + 1) defaults"
      using i by (auto simp: array_at_def Cons_nth_drop_Suc split: if_splits)
    then have "holding_defaults env (drop i defaults) (x # xs) = candidate # holding_defaults env (drop (i + 1) defaults) xs"
      using True h by (simp add: holding_defaults_def)
    ultimately show ?thesis by simp
  qed
qed

lemma select_choice_default_best:
  assumes "confit_v2_evaluation_select_choice_default choice env = Inr selected"
  defines "holding \<equiv> holding_defaults env (choice_defaults (cc_source choice)) (cc_default_when choice)"
  shows "case selected of
      None \<Rightarrow> holding = []
    | Some m \<Rightarrow> m \<in> set (cc_members choice) \<and> (\<exists>d. best_default (set holding) (Some d) \<and> sym_id m = chd_member d)"
proof -
  from assms(1) obtain best where
    "choice_default_loop (choice_defaults (cc_source choice)) env 0 (cc_default_when choice) None = Inr best"
    and m: "(case best of
         None \<Rightarrow> Inr None
       | Some d \<Rightarrow>
           (case find (\<lambda>m. strcmp (sym_id m) (chd_member d) = 0) (cc_members choice) of
              None \<Rightarrow> span_diagnostic (chd_span d) CONFIT_ERR_INTERNAL kEvaluationAllocationFailed
            | Some m \<Rightarrow> Inr (Some m))) = Inr selected"
    by (auto simp: confit_v2_evaluation_select_choice_default_def bind_simps)
  from choice_default_loop_best [OF this(1), of "{}"] have "best_default (set holding) best"
    by (simp add: best_default_def holding_def)
  then show ?thesis
  proof (cases best)
    case None
    with m \<open>best_default (set holding) best\<close> show ?thesis by (auto simp: best_default_def)
  next
    case (Some d)
    with m obtain c where f: "find (\<lambda>m. strcmp (sym_id m) (chd_member d) = 0) (cc_members choice) = Some c" "selected = Some c"
      by (auto split: option.split_asm)
    then have "c \<in> set (cc_members choice)" "sym_id c = chd_member d" by (auto simp: find_Some_iff strcmp_eq)
    with \<open>best_default (set holding) best\<close> Some f(2) show ?thesis by simp blast
  qed
qed

section \<open>Choices\<close>

lemma evaluation_find:
  assumes "sorted_wrt (<) (map (\<lambda>v. sym_id (ef_symbol v)) vs)"
  shows "confit_v2_evaluation_find vs name = Some v \<longleftrightarrow> v \<in> set vs \<and> sym_id (ef_symbol v) = name"
proof -
  let ?low = "lower_bound (\<lambda>m. strcmp (sym_id (ef_symbol (vs ! m))) name < 0) 0 (length vs)"
  note index = lower_bound_index [OF assms, of name]
  show ?thesis
  proof
    assume "confit_v2_evaluation_find vs name = Some v"
    then have "?low < length vs \<and> vs ! ?low = v \<and> sym_id (ef_symbol (vs ! ?low)) = name"
      by (simp add: confit_v2_evaluation_find_def Let_def strcmp_eq split: if_split_asm)
    then show "v \<in> set vs \<and> sym_id (ef_symbol v) = name" using nth_mem by metis
  next
    assume "v \<in> set vs \<and> sym_id (ef_symbol v) = name"
    then obtain i where "i < length vs" "vs ! i = v" "sym_id (ef_symbol (vs ! i)) = name" by (auto simp: in_set_conv_nth)
    with index [of i] show "confit_v2_evaluation_find vs name = Some v"
      by (simp add: confit_v2_evaluation_find_def Let_def strcmp_eq)
  qed
qed

text \<open>The members that are available and selected.\<close>

definition selected_member :: "effective_value list \<Rightarrow> v2_symbol \<Rightarrow> bool" where
  "selected_member vs m \<longleftrightarrow>
     (\<exists>v\<in>set vs. ef_symbol v = m \<and> ef_available v \<and> ef_is_set v
        \<and> ((\<exists>b. ef_value v = V_Bool b \<and> b \<noteq> 0) \<or> ef_value v \<in> {V_Tristate CHR ''m'', V_Tristate CHR ''y''}))"

lemma value_is_selected_iff:
  "confit_v2_evaluation_value_is_selected v \<longleftrightarrow> ef_is_set v
     \<and> ((\<exists>b. ef_value v = V_Bool b \<and> b \<noteq> 0) \<or> ef_value v \<in> {V_Tristate CHR ''m'', V_Tristate CHR ''y''})"
  by (auto simp: confit_v2_evaluation_value_is_selected_def split: v2_value.splits)

text \<open>The loop over the members counts the selected ones and keeps the first.\<close>

definition add_chosen :: "v2_symbol list \<Rightarrow> choice_resolution \<Rightarrow> choice_resolution" where
  "add_chosen chosen out =
     (if chosen = [] then out
      else out\<lparr>cr_effective_member_count := cr_effective_member_count out + length chosen,
               cr_selected_member := (if cr_effective_member_count out = 0 then Some (hd chosen) else cr_selected_member out),
               cr_origin := (if cr_effective_member_count out = 0 then SELECTION_EFFECTIVE_MEMBER else cr_origin out)\<rparr>)"

lemma add_chosen_Cons: "add_chosen (m # ms) out = add_chosen ms (add_chosen [m] out)"
  by (cases out) (simp add: add_chosen_def)

lemma count_member_step:
  assumes sorted: "sorted_wrt (<) (map (\<lambda>v. sym_id (ef_symbol v)) vs)" and m: "m \<in> ef_symbol ` set vs"
  shows "count_member src vs m out = Inr (add_chosen (filter (selected_member vs) [m]) out)"
proof -
  from m obtain v where v: "v \<in> set vs" "ef_symbol v = m" by auto
  then have f: "confit_v2_evaluation_find vs (sym_id m) = Some v" using evaluation_find [OF sorted] by simp
  have "u = v" if "u \<in> set vs" "ef_symbol u = m" for u
    using f evaluation_find [OF sorted, of "sym_id m" u] that by simp
  then have "selected_member vs m \<longleftrightarrow> ef_available v \<and> confit_v2_evaluation_value_is_selected v"
    unfolding selected_member_def value_is_selected_iff using v by blast
  with f v show ?thesis by (simp add: count_member_def add_chosen_def Let_def)
qed

lemma count_members:
  assumes sorted: "sorted_wrt (<) (map (\<lambda>v. sym_id (ef_symbol v)) vs)"
  shows "set ms \<subseteq> ef_symbol ` set vs \<Longrightarrow>
    fold_res (count_member src vs) ms out = Inr (add_chosen (filter (selected_member vs) ms) out)"
proof (induction ms arbitrary: out)
  case (Cons m ms)
  then have m: "m \<in> ef_symbol ` set vs" "set ms \<subseteq> ef_symbol ` set vs" by simp_all
  have "fold_res (count_member src vs) (m # ms) out
      = Inr (add_chosen (filter (selected_member vs) ms) (add_chosen (filter (selected_member vs) [m]) out))"
    by (simp only: fold_res.simps count_member_step [OF sorted m(1)] bind_res_Inr Cons.IH [OF m(2)])
  also have "add_chosen (filter (selected_member vs) ms) (add_chosen (filter (selected_member vs) [m]) out)
      = add_chosen (filter (selected_member vs) (m # ms)) out"
  proof (cases "selected_member vs m")
    case True
    then show ?thesis by (simp only: filter.simps if_True) (rule add_chosen_Cons [symmetric])
  next
    case False
    then show ?thesis by (simp add: add_chosen_def)
  qed
  finally show ?case .
qed (simp add: add_chosen_def)

definition choice_settled :: "effective_value list \<Rightarrow> environment \<Rightarrow> compiled_choice \<Rightarrow> choice_resolution \<Rightarrow> bool" where
  "choice_settled vs env choice r \<longleftrightarrow>
     cr_choice r = choice \<and> condition_in env (cc_available_if choice) = Some (cr_available r)
     \<and> condition_in env (cc_visible_if choice) = Some (cr_visible r)
     \<and> (let chosen = filter (selected_member vs) (cc_members choice);
            holding = holding_defaults env (choice_defaults (cc_source choice)) (cc_default_when choice);
            cardinality = choice_cardinality (cc_source choice)
        in if \<not> cr_available r
           then cr_effective_member_count r = 0 \<and> cr_selected_member r = None \<and> cr_origin r = SELECTION_NONE
           else cr_effective_member_count r = length chosen
             \<and> (case cr_origin r of
                  SELECTION_EFFECTIVE_MEMBER \<Rightarrow> chosen \<noteq> [] \<and> cr_selected_member r = Some (hd chosen)
                | SELECTION_DEFAULT \<Rightarrow> chosen = [] \<and> (\<exists>v\<in>set vs. \<exists>d. cr_selected_member r = Some (ef_symbol v)
                    \<and> ef_symbol v \<in> set (cc_members choice) \<and> ef_available v
                    \<and> best_default (set holding) (Some d) \<and> sym_id (ef_symbol v) = chd_member d)
                | SELECTION_NONE \<Rightarrow> chosen = [] \<and> holding = [] \<and> cr_selected_member r = None)
             \<and> (cardinality \<in> {EXACTLY_ONE, ZERO_OR_ONE} \<longrightarrow> length chosen \<le> 1)
             \<and> (cardinality \<in> {EXACTLY_ONE, ONE_OR_MORE} \<longrightarrow> cr_selected_member r \<noteq> None))"

lemma check_cardinality_Inr:
  "check_cardinality src out = Inr r \<longleftrightarrow> r = out
     \<and> (choice_cardinality src \<in> {EXACTLY_ONE, ZERO_OR_ONE} \<longrightarrow> cr_effective_member_count out \<le> 1)
     \<and> (choice_cardinality src \<in> {EXACTLY_ONE, ONE_OR_MORE} \<longrightarrow> cr_selected_member out \<noteq> None)"
  by (auto simp: check_cardinality_def)

lemma one_choice_settled:
  assumes sorted: "sorted_wrt (<) (map (\<lambda>v. sym_id (ef_symbol v)) vs)" and members: "set (cc_members choice) \<subseteq> ef_symbol ` set vs"
    and run: "confit_v2_evaluation_one_choice vs env choice = Inr r"
  shows "choice_settled vs env choice r"
proof -
  let ?chosen = "filter (selected_member vs) (cc_members choice)"
  define start where "start available visible = \<lparr>cr_choice = choice, cr_available = available, cr_visible = visible,
    cr_effective_member_count = 0, cr_selected_member = None, cr_origin = SELECTION_NONE\<rparr>" for available visible
  from run obtain available visible where
    c: "condition_in env (cc_available_if choice) = Some available" "condition_in env (cc_visible_if choice) = Some visible"
    and rest: "if \<not> available then r = start available visible
       else bind_res (fold_res (count_member (cc_source choice) vs) (cc_members choice) (start available visible)) (\<lambda>out.
         bind_res (choice_default_member choice vs env out) (check_cardinality (cc_source choice))) = Inr r"
    by (auto simp: confit_v2_evaluation_one_choice_def bind_simps boolean_condition_Inr start_def Let_def split: if_splits)
  show ?thesis
  proof (cases available)
    case False
    with rest c show ?thesis by (simp add: choice_settled_def start_def)
  next
    case available: True
    show ?thesis
    proof (cases "?chosen = []")
      case False
      with rest available have "check_cardinality (cc_source choice) ((start available visible)\<lparr>cr_effective_member_count := length ?chosen,
          cr_selected_member := Some (hd ?chosen), cr_origin := SELECTION_EFFECTIVE_MEMBER\<rparr>) = Inr r"
        by (simp add: count_members [OF sorted members] add_chosen_def choice_default_member_def start_def)
      with False available c show ?thesis
        by (auto simp: check_cardinality_Inr choice_settled_def start_def Let_def)
    next
      case True
      with rest available obtain out where d: "choice_default_member choice vs env (start True visible) = Inr out"
        and r: "check_cardinality (cc_source choice) out = Inr r"
        by (auto simp: count_members [OF sorted members] add_chosen_def bind_simps)
      have none: "cr_effective_member_count (start True visible) = 0" by (simp add: start_def)
      from d obtain selected where s: "confit_v2_evaluation_select_choice_default choice env = Inr selected"
        and eq: "(case selected of
            None \<Rightarrow> Inr (start True visible)
          | Some m \<Rightarrow>
              if (case confit_v2_evaluation_find vs (sym_id m) of None \<Rightarrow> True | Some effective \<Rightarrow> \<not> ef_available effective)
              then span_diagnostic (choice_span (cc_source choice)) CONFIT_ERR_SCHEMA
                     ''schema v2 choice default member is unavailable''
              else Inr ((start True visible)\<lparr>cr_selected_member := Some m, cr_origin := SELECTION_DEFAULT\<rparr>)) = Inr out"
        by (auto simp: choice_default_member_def none bind_simps)
      then have out: "case selected of None \<Rightarrow> out = start True visible
          | Some m \<Rightarrow> (\<exists>v. confit_v2_evaluation_find vs (sym_id m) = Some v \<and> ef_available v)
              \<and> out = (start True visible)\<lparr>cr_selected_member := Some m, cr_origin := SELECTION_DEFAULT\<rparr>"
        by (cases selected) (simp_all split: option.split_asm if_split_asm)
      show ?thesis
      proof (cases selected)
        case None
        with out r c True available select_choice_default_best [OF s] show ?thesis
          by (auto simp: check_cardinality_Inr choice_settled_def start_def Let_def)
      next
        case (Some m)
        from select_choice_default_best [OF s] Some obtain d where m: "m \<in> set (cc_members choice)"
          and best: "best_default (set (holding_defaults env (choice_defaults (cc_source choice)) (cc_default_when choice))) (Some d)"
            "sym_id m = chd_member d" by auto
        from out Some obtain v where v: "confit_v2_evaluation_find vs (sym_id m) = Some v" "ef_available v" by auto
        from members m obtain u where u: "u \<in> set vs" "ef_symbol u = m" by auto
        then have "confit_v2_evaluation_find vs (sym_id m) = Some u" using evaluation_find [OF sorted] by simp
        with v u have v: "v \<in> set vs" "ef_symbol v = m" "ef_available v" by simp_all
        have r: "r = (start True visible)\<lparr>cr_selected_member := Some m, cr_origin := SELECTION_DEFAULT\<rparr>"
          using out Some r by (simp add: check_cardinality_Inr)
        have "\<exists>v\<in>set vs. \<exists>d. cr_selected_member r = Some (ef_symbol v) \<and> ef_symbol v \<in> set (cc_members choice) \<and> ef_available v
            \<and> best_default (set (holding_defaults env (choice_defaults (cc_source choice)) (cc_default_when choice))) (Some d)
            \<and> sym_id (ef_symbol v) = chd_member d"
          using v m best by (intro bexI [of _ v] exI [of _ d]) (simp_all add: r)
        moreover have "cr_origin r = SELECTION_DEFAULT" "cr_effective_member_count r = 0" "cr_available r = True"
            "cr_visible r = visible" "cr_choice r = choice" "cr_selected_member r = Some m"
          by (simp_all add: r start_def)
        ultimately show ?thesis using c True available by (simp add: choice_settled_def)
      qed
    qed
  qed
qed

lemma choices_settled:
  assumes "sorted_wrt (<) (map (\<lambda>v. sym_id (ef_symbol v)) vs)"
  shows "confit_v2_evaluation_choices vs env cs = Inr rs \<Longrightarrow> \<forall>c\<in>set cs. set (cc_members c) \<subseteq> ef_symbol ` set vs
    \<Longrightarrow> list_all2 (choice_settled vs env) cs rs"
  by (induction cs arbitrary: rs) (auto simp: bind_simps intro: one_choice_settled [OF assms])

section \<open>The result\<close>

lemma settled_result:
  assumes "confit_v2_schema_link_project p = Inr linked" "loaded_project p"
    and "confit_v2_compile_structure linked = Inr (al_compiled ledger)"
    and "confit_v2_evaluation_build ledger = Inr result"
  shows "list_all (option_settled linked (environment_of (evl_values result))) (evl_values result)
    \<and> list_all2 (choice_settled (evl_values result) (environment_of (evl_values result)))
        (cs_choices (al_compiled ledger)) (evl_choices result)"
proof
  let ?env = "environment_of (evl_values result)"
  note result = evaluation_result [OF assms(1) compiled_source [OF assms(3)] assms(4)]
  from result(3) obtain vs where "list_all2 (\<lambda>v w. option_state linked ?env v = Inr w) vs (evl_values result)" by blast
  then show "list_all (option_settled linked ?env) (evl_values result)"
    by (auto simp: list_all_length list_all2_conv_all_nth intro: option_state_settled)
  have symbols: "map ef_symbol (evl_values result) = lp_symbols linked" using result(1) by (simp add: solves_def)
  then have "sorted_wrt (<) (map sym_id (map ef_symbol (evl_values result)))"
    using linked_project_ok [OF assms(1)] by (simp only: linked_ok_def)
  then have sorted: "sorted_wrt (<) (map (\<lambda>v. sym_id (ef_symbol v)) (evl_values result))" by (simp add: o_def)
  have "set (cc_members c) \<subseteq> ef_symbol ` set (evl_values result)" if c: "c \<in> set (cs_choices (al_compiled ledger))" for c
  proof -
    have "list_all2 (choice_compiled p linked) (sort_key choice_id (project_choices p)) (cs_choices (al_compiled ledger))"
      using compiled_facts [OF assms(1-3)] by (simp add: structure_compiled_def)
    then obtain d where "choice_compiled p linked d c" using c by (metis in_set_conv_nth list_all2_conv_all_nth)
    then have "set (cc_members c) \<subseteq> set (project_symbols p)" by (simp add: choice_compiled_def members_found_def)
    also have "set (project_symbols p) = set (map ef_symbol (evl_values result))"
      unfolding symbols linked_symbol_set [OF assms(1)] ..
    finally show ?thesis by simp
  qed
  then show "list_all2 (choice_settled (evl_values result) ?env) (cs_choices (al_compiled ledger)) (evl_choices result)"
    by (intro choices_settled [OF sorted result(4)] ballI)
qed

text \<open>C10. In the result of an evaluation every option has the availability and visibility that its
  conditions have in the final environment, and an unavailable option is unset or disabled. Every
  choice that is available counts its selected members, has at most one of them unless it allows
  more and a selected one if it needs one; with no member selected it takes a declared, available
  member of the default of highest priority whose condition holds, if there is any.\<close>

theorem effective_choices_settled:
  assumes "confit_v2_schema_link_project p = Inr linked" "loaded_project p"
    and "confit_v2_compile_structure linked = Inr (al_compiled ledger)"
    and "confit_v2_evaluation_build ledger = Inr result"
  shows "list_all (option_settled linked (environment_of (evl_values result))) (evl_values result)
    \<and> list_all2 (choice_settled (evl_values result) (environment_of (evl_values result)))
        (cs_choices (al_compiled ledger)) (evl_choices result)"
  by (rule settled_result [OF assms])

end
