(* ===== verification/Effective_Safe.thy ===== *)
theory Effective_Safe
  imports Effective_Choices
begin

text \<open>
  The evaluation of \<open>src/resolver/v2/evaluate.c\<close> can only fail with a schema error: no missing expression,
  no internal error and no undefined access. The first sections are shared with the constraints.
\<close>

section \<open>Schema errors\<close>

definition schema_only :: "input_stop + 'a \<Rightarrow> bool" where
  "schema_only r \<longleftrightarrow> (case r of Inr x \<Rightarrow> True | Inl (Diagnosed d) \<Rightarrow> diag_status d = CONFIT_ERR_SCHEMA | Inl e \<Rightarrow> False)"

lemma schema_only_Inr [simp]: "schema_only (Inr x)"
  by (simp add: schema_only_def)

lemma schema_only_diagnostic [simp]:
  "schema_only (confit_v2_ledger_diagnostic path line column st message) \<longleftrightarrow> st = CONFIT_ERR_SCHEMA"
  "schema_only (span_diagnostic span st message) \<longleftrightarrow> st = CONFIT_ERR_SCHEMA"
  by (simp_all add: schema_only_def span_diagnostic_def confit_v2_ledger_diagnostic_def confit_diagnostic_set_def
      confit_diagnostic_set_detail_def)

lemma schema_only_bind [intro]:
  "schema_only m \<Longrightarrow> (\<And>x. m = Inr x \<Longrightarrow> schema_only (f x)) \<Longrightarrow> schema_only (bind_res m f)"
  by (cases m) (auto simp: schema_only_def split: input_stop.splits)

lemma schema_only_fold:
  assumes "P s" "\<And>x s. x \<in> set xs \<Longrightarrow> P s \<Longrightarrow> schema_only (f x s) \<and> (\<forall>s'. f x s = Inr s' \<longrightarrow> P s')"
  shows "schema_only (fold_res f xs s) \<and> (\<forall>s'. fold_res f xs s = Inr s' \<longrightarrow> P s')"
  using assms
proof (induction xs arbitrary: s)
  case (Cons x xs)
  have step: "schema_only (f x s)" "\<And>t. f x s = Inr t \<Longrightarrow> P t" using Cons.prems(2) [of x s] Cons.prems(1) by simp_all
  have rest: "schema_only (fold_res f xs t) \<and> (\<forall>s'. fold_res f xs t = Inr s' \<longrightarrow> P s')" if "f x s = Inr t" for t
    using Cons.prems step(2) [OF that] by (intro Cons.IH) auto
  show ?case unfolding fold_res.simps
    using schema_only_bind [OF step(1), of "fold_res f xs"] rest by (auto simp: bind_simps)
qed simp

section \<open>Linked expressions\<close>

text \<open>In any environment the expression gives a value of the type, is unset, or reports a schema error.\<close>

definition computes :: "etype \<Rightarrow> linked_expression \<Rightarrow> bool" where
  "computes t x \<longleftrightarrow> (\<forall>env. case confit_v2_expression_evaluate (lx_typed x) env of
      Inr v \<Rightarrow> ev_is_set v \<longrightarrow> v2_value_kind (ev_value v) \<noteq> VALUE_UNSET
        \<and> confit_v2_evaluate_type_value_matches t (Some (ev_value v))
    | Inl (Reported d) \<Rightarrow> diag_status d = CONFIT_ERR_SCHEMA
    | Inl Undefined \<Rightarrow> False)"

lemma linked_from_computes:
  assumes link: "confit_v2_schema_link_project p = Inr linked" and "texts_ok p"
    and "linked_from linked d x" "d \<in> set (project_declarations p)" "has_text d"
  shows "computes (decl_type d) x"
proof -
  from assms(3) obtain k where l: "links (lp_bindings linked) (lp_symbols linked) d k x" by (auto simp: linked_from_def)
  from assms(2,4,5) obtain s where s: "expr_text (decl_source d) = Some s" "is_cstring s"
    by (force simp: texts_ok_def has_text_def split: option.splits)
  from l have p: "confit_v2_expression_parse (decl_source d) None = Inr (lx_expression x)"
    and t: "confit_v2_expression_type_check (lx_expression x) (lp_bindings linked) = Inr (lx_typed x)"
    and r: "typed_root_type (lx_typed x) = decl_type d" by (simp_all add: links_def)
  note tree = parsed_tree_ok [OF s p]
  have "text_collections (lp_bindings linked)"
    using linked_project_ok [OF link] by (simp add: linked_ok_def bindings_text_collections)
  then show ?thesis
    using evaluation_safe [OF t] tree unfolding computes_def r [symmetric] literals_ok_def
    by (fastforce split: sum.splits fault.splits)
qed

lemma schema_only_member:
  assumes "computes t x"
  shows "schema_only (member (confit_v2_expression_evaluate (lx_typed x) env))"
  using assms [unfolded computes_def, rule_format, of env]
  by (auto simp: schema_only_def member_def split: sum.splits fault.splits)

lemma computes_bool:
  assumes "computes bool_type x" "confit_v2_expression_evaluate (lx_typed x) env = Inr v" "ev_is_set v"
  shows "\<exists>b. ev_value v = V_Bool b"
  using assms(1) [unfolded computes_def, rule_format, of env] assms(2,3)
  by (auto simp: confit_v2_evaluate_type_value_matches_def simple_type_def split: v2_value.splits)

lemma schema_only_condition:
  assumes "computes bool_type x"
  shows "schema_only (condition_value x env message)"
  unfolding condition_value_def
proof (intro schema_only_bind schema_only_member [OF assms])
  fix v
  assume v: "member (confit_v2_expression_evaluate (lx_typed x) env) = Inr v"
  show "schema_only (if \<not> ev_is_set v then span_diagnostic (expression_span (lx_expression x)) CONFIT_ERR_SCHEMA message
      else bind_res (member (as_bool (ev_value v))) (\<lambda>b. Inr (b \<noteq> 0)))"
  proof (cases "ev_is_set v")
    case True
    with v computes_bool [OF assms] obtain b where "ev_value v = V_Bool b" by fastforce
    then show ?thesis by (simp add: as_bool_def member_def)
  qed simp
qed

lemma schema_only_boolean:
  "(\<And>x. expression = Some x \<Longrightarrow> computes bool_type x)
    \<Longrightarrow> schema_only (confit_v2_evaluation_boolean_condition expression env message)"
  by (cases expression) (auto simp: confit_v2_evaluation_boolean_condition_def schema_only_condition)

section \<open>The expressions of an option\<close>

lemma declarations_of_one:
  assumes "\<And>b d. d \<in> set (decls b) \<Longrightarrow> decl_owner d = key b" "c \<in> set cs" "distinct (map key cs)"
  shows "filter (of_role role (key c)) (concat (map decls cs)) = filter (\<lambda>d. decl_role d = role) (decls c)"
proof -
  have own: "filter (of_role role (key c)) (decls b)
      = (if key b = key c then filter (\<lambda>d. decl_role d = role) (decls b) else [])" for b
    using assms(1) [of _ b] by (auto simp: of_role_def filter_empty_conv intro!: filter_cong)
  from assms(2,3) show ?thesis
  proof (induction cs)
    case (Cons b cs)
    show ?case
    proof (cases "b = c")
      case True
      then have "\<forall>a \<in> set cs. key a \<noteq> key c" using Cons.prems(2) by (simp, metis imageI)
      then have "filter (of_role role (key c)) (concat (map decls cs)) = []"
        using assms(1) by (fastforce simp: filter_empty_conv of_role_def)
      with True show ?thesis by (simp add: own)
    next
      case False
      with Cons show ?thesis by (auto simp: own)
    qed
  qed simp
qed

lemma symbol_declaration_owner: "d \<in> set (symbol_declarations s) \<Longrightarrow> decl_owner d = sym_id s"
  by (auto simp: symbol_declarations_def declare_expression_def Let_def)

lemma declared_symbol:
  assumes "role \<in> {ROLE_COMPUTED, ROLE_AVAILABLE_IF, ROLE_VISIBLE_IF, ROLE_DEFAULT_WHEN, ROLE_SUGGESTION_WHEN}"
    and "s \<in> set (project_symbols p)" "distinct (map sym_id (project_symbols p))"
  shows "declared_for p role (sym_id s) = filter has_text (filter (\<lambda>d. decl_role d = role) (symbol_declarations s))"
proof -
  have "filter (of_role role (sym_id s)) (concat (map symbol_declarations (sort_key sym_id (project_symbols p))))
      = filter (\<lambda>d. decl_role d = role) (symbol_declarations s)"
    using assms(2,3) by (intro declarations_of_one symbol_declaration_owner) (simp_all add: distinct_map)
  moreover have "filter (of_role role owner) (concat (map choice_declarations cs)) = []"
    "filter (of_role role owner) (concat (map constraint_declarations ks)) = []" for owner cs ks
    using choice_roles constraint_roles assms(1) by (intro no_role; fastforce)+
  ultimately show ?thesis
    using assms(1) by (auto simp: declared_for_parts menu_declarations_of_role)
qed


lemma declared_text: "d \<in> set (declared_for p role owner) \<Longrightarrow>
    d \<in> set (project_declarations p) \<and> has_text d \<and> decl_role d = role"
  by (auto simp: declared_for_def)

lemma condition_type: "d \<in> set (project_declarations p) \<Longrightarrow> decl_role d \<noteq> ROLE_COMPUTED \<Longrightarrow> decl_type d = bool_type"
  by (auto simp: project_declarations_def symbol_declarations_def choice_declarations_def constraint_declarations_def
      declare_expression_def Let_def)

lemma linked_condition:
  assumes "confit_v2_schema_link_project p = Inr linked" "texts_ok p" "linked_from linked d x"
    and "d \<in> set (declared_for p role owner)" "role \<noteq> ROLE_COMPUTED"
  shows "computes bool_type x"
  using linked_from_computes [OF assms(1-3)] declared_text [OF assms(4)] condition_type [of d p] assms(5) by metis

lemma found_computes:
  assumes "confit_v2_schema_link_project p = Inr linked" "texts_ok p"
    and "confit_v2_linked_project_find_expression linked role owner k = Some x"
  shows "\<exists>t. computes t x \<and> (role \<noteq> ROLE_COMPUTED \<longrightarrow> t = bool_type)"
proof -
  from find_declared [OF assms(1), of role owner k] assms(3)
  have k: "declared_for p role owner ! k \<in> set (declared_for p role owner)" "linked_from linked (declared_for p role owner ! k) x"
    by (simp_all add: confit_v2_structure_find_expression_def)
  show ?thesis
    using linked_from_computes [OF assms(1,2) k(2)] declared_text [OF k(1)] linked_condition [OF assms(1,2) k(2,1)] by blast
qed

lemma found_condition:
  assumes "confit_v2_schema_link_project p = Inr linked" "texts_ok p" "role \<noteq> ROLE_COMPUTED"
    and "confit_v2_linked_project_find_expression linked role owner k = Some x"
  shows "computes bool_type x"
  using found_computes [OF assms(1,2,4)] assms(3) by blast

lemma declared_found:
  assumes "confit_v2_schema_link_project p = Inr linked" "k < length (declared_for p role owner)"
  shows "\<exists>x. confit_v2_linked_project_find_expression linked role owner k = Some x"
  using find_declared_Some [OF assms] by (metis confit_v2_structure_find_expression_def)

text \<open>What the loader promises of an option: bounds of its own kind, and a text where an expression is needed.\<close>

definition evaluable :: "v2_project \<Rightarrow> bool" where
  "evaluable p \<longleftrightarrow> (\<forall>s\<in>set (project_symbols p). range_typed s
     \<and> (sym_write_domain s = DOMAIN_COMPUTED \<longrightarrow> expr_text (sym_computed s) \<noteq> None)
     \<and> (\<forall>d\<in>set (sym_defaults s). expr_text (cond_when d) \<noteq> None)
     \<and> (\<forall>g\<in>set (sym_suggestions s). expr_text (sugg_when g) \<noteq> None))"

lemma option_expressions_found:
  assumes "confit_v2_schema_link_project p = Inr linked" "evaluable p" "s \<in> set (project_symbols p)"
  shows "sym_write_domain s = DOMAIN_COMPUTED \<Longrightarrow>
      \<exists>x. confit_v2_linked_project_find_expression linked ROLE_COMPUTED (sym_id s) 0 = Some x"
    and "k < length (sym_defaults s) \<Longrightarrow>
      \<exists>x. confit_v2_linked_project_find_expression linked ROLE_DEFAULT_WHEN (sym_id s) k = Some x"
    and "k < length (sym_suggestions s) \<Longrightarrow>
      \<exists>x. confit_v2_linked_project_find_expression linked ROLE_SUGGESTION_WHEN (sym_id s) k = Some x"
proof -
  have "lp_symbols linked = sort_key sym_id (project_symbols p)" using assms(1) by (rule link_project_cases) simp
  moreover have "distinct (map sym_id (lp_symbols linked))"
    using linked_project_ok [OF assms(1)] strict_sorted_iff by (auto simp: linked_ok_def)
  ultimately have ids: "distinct (map sym_id (project_symbols p))" by (simp add: distinct_map)
  note declared = declared_symbol [OF _ assms(3) ids]
  note s = assms(2) [unfolded evaluable_def, rule_format, OF assms(3)]
  show "\<exists>x. confit_v2_linked_project_find_expression linked ROLE_COMPUTED (sym_id s) 0 = Some x"
    if "sym_write_domain s = DOMAIN_COMPUTED"
    using that s by (intro declared_found [OF assms(1)])
      (simp add: declared symbol_declarations_def declare_expression_def Let_def has_text_def filter_empty_conv)
  show "\<exists>x. confit_v2_linked_project_find_expression linked ROLE_DEFAULT_WHEN (sym_id s) k = Some x"
    if "k < length (sym_defaults s)"
    using that s by (intro declared_found [OF assms(1)])
      (simp add: declared symbol_declarations_def declare_expression_def Let_def has_text_def filter_map o_def filter_id_conv)
  show "\<exists>x. confit_v2_linked_project_find_expression linked ROLE_SUGGESTION_WHEN (sym_id s) k = Some x"
    if "k < length (sym_suggestions s)"
    using that s by (intro declared_found [OF assms(1)])
      (simp add: declared symbol_declarations_def declare_expression_def Let_def has_text_def filter_map o_def filter_id_conv)
qed

section \<open>Values\<close>

text \<open>Validation keeps within the option's rules, also for a value that is not known to hold C strings.\<close>

lemma enum_set_sorted_cases:
  assumes "enum_set_sorted symbol v = Some w"
  obtains "w = v" | xs ys where "sym_type symbol = OPTION_ENUM_SET" "v = V_String_List xs" "w = V_String_List ys" "set ys = set xs"
  using assms
  by (auto simp: enum_set_sorted_def enum_set_items_ok_iff exchange_sorts canonical_items_def
      split: v2_value.splits if_splits)

lemma sorted_shape:
  assumes "enum_set_sorted symbol v = Some w" "value_shape_ok symbol v"
  shows "value_shape_ok symbol w"
  using assms(1) by (rule enum_set_sorted_cases) (use assms(2) in \<open>auto simp: value_shape_ok_def type_descriptors\<close>)

lemma schema_only_validate:
  assumes "range_typed symbol"
  shows "schema_only (confit_v2_ledger_validate_value symbol v path line column)"
proof (cases "value_shape_ok symbol v")
  case shape: True
  show ?thesis
  proof (cases "enum_set_sorted symbol v")
    case (Some w)
    then show ?thesis
      using range_contains_iff [OF assms sorted_shape [OF Some shape]] shape
      by (simp add: confit_v2_ledger_validate_value_def member_def Let_def)
  qed (simp add: confit_v2_ledger_validate_value_def shape Let_def)
qed (simp add: confit_v2_ledger_validate_value_def Let_def)

lemma allowed_canonical:
  assumes "value_allowed symbol v"
  shows "value_allowed symbol (canonical_value symbol v)"
proof (cases "sym_type symbol = OPTION_ENUM_SET")
  case True
  with assms show ?thesis
    by (auto simp: value_allowed_def canonical_value_def canonical_items_def within_range_def split: v2_value.splits)
next
  case False
  then have "canonical_value symbol v = v" by (simp add: canonical_value_def split: v2_value.split)
  with assms show ?thesis by simp
qed

lemma validated_allowed:
  assumes "range_typed symbol" "confit_v2_ledger_validate_value symbol v path line column = Inr w" "cstring_value w"
  shows "value_allowed symbol w"
proof -
  from assms(2) have "enum_set_sorted symbol v = Some w"
    by (auto simp: confit_v2_ledger_validate_value_def confit_v2_ledger_diagnostic_def Let_def bind_simps
        split: if_splits option.splits)
  then have "cstring_value v" by (rule enum_set_sorted_cases) (use assms(3) in \<open>auto simp: cstring_value_def\<close>)
  from assms(2) [unfolded validate_value_outcome [OF assms(1) this]] have "value_allowed symbol v" "w = canonical_value symbol v"
    by (auto simp: confit_v2_ledger_diagnostic_def split: if_splits)
  then show ?thesis by (simp add: allowed_canonical)
qed

section \<open>Evaluation of an option\<close>

lemma schema_only_set_value:
  "range_typed (ef_symbol out) \<Longrightarrow> schema_only (confit_v2_evaluation_set_value out v origin requested path line column)"
  by (auto simp: confit_v2_evaluation_set_value_def intro: schema_only_validate)

lemma schema_only_conditional_loop:
  assumes "\<And>k. k < length ds \<Longrightarrow>
      \<exists>x. confit_v2_linked_project_find_expression linked ROLE_DEFAULT_WHEN (sym_id s) (i + k) = Some x \<and> computes bool_type x"
  shows "schema_only (conditional_default_loop linked s env i ds selected)"
  using assms
proof (induction ds arbitrary: i selected)
  case (Cons d ds)
  from Cons.prems [of 0] obtain x where x: "computes bool_type x"
    "confit_v2_linked_project_find_expression linked ROLE_DEFAULT_WHEN (sym_id s) i = Some x" by auto
  have "schema_only (conditional_default_loop linked s env (i + 1) ds best)" for best
  proof (rule Cons.IH)
    show "\<exists>x. confit_v2_linked_project_find_expression linked ROLE_DEFAULT_WHEN (sym_id s) (i + 1 + k) = Some x
        \<and> computes bool_type x" if "k < length ds" for k
      using Cons.prems [of "Suc k"] that by simp
  qed
  then show ?case
    by (auto simp: x(2) schema_only_condition [OF x(1)] intro!: schema_only_bind split: option.split)
qed simp

lemma schema_only_symbol:
  assumes link: "confit_v2_schema_link_project p = Inr linked" and texts: "texts_ok p" and ok: "evaluable p"
    and s: "ef_symbol out \<in> set (project_symbols p)"
  shows "schema_only (evaluate_symbol linked ledger out env)"
proof -
  let ?s = "ef_symbol out"
  have range: "range_typed ?s" using ok s by (simp add: evaluable_def)
  note found = option_expressions_found [OF link ok s] and computed = found_computes [OF link texts]
  have "schema_only (confit_v2_evaluation_compute_symbol linked out env)" if "sym_write_domain ?s = DOMAIN_COMPUTED"
  proof -
    from found(1) [OF that] obtain x where x: "confit_v2_linked_project_find_expression linked ROLE_COMPUTED (sym_id ?s) 0 = Some x"
      by blast
    with computed obtain t where "computes t x" by blast
    note runs = schema_only_member [OF this]
    show ?thesis
      by (auto simp: confit_v2_evaluation_compute_symbol_def x Let_def intro!: schema_only_bind runs schema_only_validate [OF range])
  qed
  moreover have "schema_only (confit_v2_evaluation_input_symbol linked ledger out env)"
  proof -
    have "schema_only (confit_v2_evaluation_conditional_default linked ?s env)"
      unfolding confit_v2_evaluation_conditional_default_def
    proof (rule schema_only_conditional_loop)
      fix k
      assume "k < length (sym_defaults ?s)"
      from found(2) [OF this] found_condition [OF link texts]
      show "\<exists>x. confit_v2_linked_project_find_expression linked ROLE_DEFAULT_WHEN (sym_id ?s) (0 + k) = Some x
          \<and> computes bool_type x" by fastforce
    qed
    then show ?thesis
      by (auto simp: confit_v2_evaluation_input_symbol_def Let_def schema_only_set_value [OF range]
          intro!: schema_only_bind split: option.split)
  qed
  ultimately show ?thesis by (simp add: evaluate_symbol_def)
qed

lemma schema_only_loop:
  assumes link: "confit_v2_schema_link_project p = Inr linked" and texts: "texts_ok p" and ok: "evaluable p"
    and range: "set order \<subseteq> {..<length (lp_symbols linked)}"
    and symbols: "map ef_symbol (vs :: effective_value list) = lp_symbols linked"
  shows "schema_only (fold_res (evaluate_node linked ledger) order (vs, env))
    \<and> (\<forall>s. fold_res (evaluate_node linked ledger) order (vs, env) = Inr s \<longrightarrow> map ef_symbol (fst s) = lp_symbols linked)"
proof (rule schema_only_fold [where P = "\<lambda>s. map ef_symbol (fst s) = lp_symbols linked"])
  show "map ef_symbol (fst (vs, env)) = lp_symbols linked" using symbols by simp
  fix i and s :: "effective_value list \<times> environment"
  assume i: "i \<in> set order" and s: "map ef_symbol (fst s) = lp_symbols linked"
  obtain us :: "effective_value list" and env where se: "s = (us, env)" by (cases s)
  have len: "i < length us" using i range arg_cong [OF s, of length] by (auto simp: se)
  have sym: "ef_symbol (us ! i) = lp_symbols linked ! i" using arg_cong [OF s, of "\<lambda>xs. xs ! i"] len by (simp add: se)
  have "lp_symbols linked ! i \<in> set (lp_symbols linked)" using i range by (intro nth_mem) auto
  then have "ef_symbol (us ! i) \<in> set (project_symbols p)" using sym linked_symbol_set [OF link] by simp
  note safe = schema_only_symbol [where out = "us ! i", OF link texts ok this, of ledger env]
  then show "schema_only (evaluate_node linked ledger i s)
      \<and> (\<forall>s'. evaluate_node linked ledger i s = Inr s' \<longrightarrow> map ef_symbol (fst s') = lp_symbols linked)"
  proof (intro conjI allI impI)
    show "schema_only (evaluate_node linked ledger i s)" using safe unfolding se evaluate_node_pair by (intro schema_only_bind) simp_all
    fix s'
    assume "evaluate_node linked ledger i s = Inr s'"
    then obtain v where v: "evaluate_symbol linked ledger (us ! i) env = Inr v" "fst s' = us[i := v]"
      unfolding se evaluate_node_pair by (auto simp: bind_simps)
    have "map ef_symbol (us[i := v]) = map ef_symbol us"
      using evaluate_symbol_parts [OF v(1)] len by (simp add: map_update list_update_same_conv)
    then show "map ef_symbol (fst s') = lp_symbols linked" using s v(2) by (simp add: se)
  qed
qed

section \<open>Availability and choices\<close>

lemma schema_only_option_states:
  assumes "confit_v2_schema_link_project p = Inr linked" "texts_ok p"
  shows "schema_only (confit_v2_evaluation_option_states linked env vs)"
proof (induction vs)
  case (Cons v vs)
  have "computes bool_type x"
    if "confit_v2_evaluation_symbol_expression linked s role = Some x" "role \<noteq> ROLE_COMPUTED" for s role x
    using that found_condition [OF assms that(2)] by (auto simp: confit_v2_evaluation_symbol_expression_def split: if_splits)
  then have "schema_only (option_state linked env v)"
    by (auto simp: option_state_def intro!: schema_only_bind schema_only_boolean)
  with Cons show ?case unfolding confit_v2_evaluation_option_states.simps by (intro schema_only_bind) simp_all
qed simp

lemma schema_only_choice_loop:
  assumes "\<forall>x\<in>set xs. computes bool_type x" "i + length xs \<le> length defaults"
  shows "schema_only (choice_default_loop defaults env i xs selected)"
  using assms
proof (induction xs arbitrary: i selected)
  case (Cons x xs)
  then have x: "computes bool_type x" and "array_at defaults i = Inr (defaults ! i)" by (simp_all add: array_at_def)
  then have at: "member (array_at defaults i) = Inr (defaults ! i)" by simp
  have "schema_only (choice_default_loop defaults env (i + 1) xs best)" for best using Cons by (intro Cons.IH) simp_all
  then show ?case
    by (auto simp: at schema_only_condition [OF x] intro!: schema_only_bind split: option.split)
qed simp

lemma schema_only_one_choice:
  assumes link: "confit_v2_schema_link_project p = Inr linked" and texts: "texts_ok p" and loaded: "loaded_project p"
    and c: "choice_compiled p linked c cc" "c \<in> set (project_choices p)" "choice_ok p c"
    and vs: "map ef_symbol vs = lp_symbols linked"
  shows "schema_only (confit_v2_evaluation_one_choice vs env cc)"
proof -
  from c(1) have source: "cc_source cc = c" and members: "members_found p c (choice_members c) (cc_members cc)"
    and defaults: "list_all2 (\<lambda>d x. linked_from linked (default_declaration c d) x) (choice_defaults c) (cc_default_when cc)"
    and conditions: "cc_available_if cc = confit_v2_linked_project_find_expression linked ROLE_CHOICE_AVAILABLE_IF (choice_id c) 0"
      "cc_visible_if cc = confit_v2_linked_project_find_expression linked ROLE_CHOICE_VISIBLE_IF (choice_id c) 0"
    by (simp_all add: choice_compiled_def confit_v2_structure_find_expression_def)
  have condition: "schema_only (confit_v2_evaluation_boolean_condition (cc_available_if cc) env message)"
    "schema_only (confit_v2_evaluation_boolean_condition (cc_visible_if cc) env message)" for message
    unfolding conditions by (rule schema_only_boolean, erule found_condition [OF link texts, rotated], simp)+
  have "sorted_wrt (<) (map sym_id (map ef_symbol vs))"
    unfolding vs using linked_project_ok [OF link] by (simp add: linked_ok_def)
  then have sorted: "sorted_wrt (<) (map (\<lambda>v. sym_id (ef_symbol v)) vs)" by (simp add: o_def)
  have found: "\<exists>v. confit_v2_evaluation_find vs (sym_id m) = Some v" if "m \<in> set (cc_members cc)" for m
  proof -
    from that members have "m \<in> set (map ef_symbol vs)"
      unfolding vs linked_symbol_set [OF link] by (auto simp: members_found_def)
    then show ?thesis using evaluation_find [OF sorted, of "sym_id m"] by auto
  qed
  have counts: "schema_only (fold_res (count_member c vs) (cc_members cc) out)" for out
  proof (rule schema_only_fold [where P = "\<lambda>_. True", THEN conjunct1])
    show "schema_only (count_member c vs m out) \<and> (\<forall>s'. count_member c vs m out = Inr s' \<longrightarrow> True)"
      if "m \<in> set (cc_members cc)" for m out
      using found [OF that] by (auto simp: count_member_def Let_def)
  qed simp
  have own: "default_declaration c d \<in> set (declared_for p ROLE_CHOICE_DEFAULT_WHEN (choice_id c))"
    if "d \<in> set (choice_defaults c)" for d
    using that loaded c(2) by (subst declared_choice_default [OF c(2)]) (auto simp: loaded_project_def)
  have "\<forall>x\<in>set (cc_default_when cc). computes bool_type x"
  proof
    fix x
    assume "x \<in> set (cc_default_when cc)"
    with defaults obtain d where d: "d \<in> set (choice_defaults c)" "linked_from linked (default_declaration c d) x"
      by (metis in_set_conv_nth list_all2_conv_all_nth)
    show "computes bool_type x" by (rule linked_condition [OF link texts d(2) own [OF d(1)]]) simp
  qed
  with defaults have loop: "schema_only (choice_default_loop (choice_defaults c) env 0 (cc_default_when cc) None)"
    by (intro schema_only_choice_loop) (simp_all add: list_all2_lengthD)
  have "schema_only (confit_v2_evaluation_select_choice_default cc env)"
    unfolding confit_v2_evaluation_select_choice_default_def source
  proof (rule schema_only_bind [OF loop])
    fix selected
    assume run: "choice_default_loop (choice_defaults c) env 0 (cc_default_when cc) None = Inr selected"
    show "schema_only (case selected of None \<Rightarrow> Inr None
       | Some d \<Rightarrow> (case find (\<lambda>m. strcmp (sym_id m) (chd_member d) = 0) (cc_members cc) of
              None \<Rightarrow> span_diagnostic (chd_span d) CONFIT_ERR_INTERNAL kEvaluationAllocationFailed
            | Some m \<Rightarrow> Inr (Some m)))"
    proof (cases selected)
      case (Some d)
      have "best_default ({} \<union> set (holding_defaults env (drop 0 (choice_defaults c)) (cc_default_when cc))) selected"
        by (rule choice_default_loop_best [OF run]) (simp add: best_default_def)
      with Some have "d \<in> set (choice_defaults c)" by (auto simp: best_default_def holding_defaults_def dest: set_zip_leftD)
      with c(3) have "chd_member d \<in> set (choice_members c)" by (simp add: choice_ok_def)
      with members obtain m where "m \<in> set (cc_members cc)" "sym_id m = chd_member d"
        unfolding members_found_def by (metis (no_types, lifting) imageE list.set_map)
      then have "find (\<lambda>m. strcmp (sym_id m) (chd_member d) = 0) (cc_members cc) \<noteq> None"
        by (auto simp: find_None_iff strcmp_eq)
      with Some show ?thesis by auto
    qed simp
  qed
  then have "schema_only (choice_default_member cc vs env out)" for out
    by (auto simp: choice_default_member_def intro!: schema_only_bind split: option.split)
  moreover have "schema_only (check_cardinality c out)" for out by (simp add: check_cardinality_def)
  ultimately show ?thesis
    using condition counts by (auto simp: confit_v2_evaluation_one_choice_def source Let_def intro!: schema_only_bind)
qed

lemma schema_only_choices:
  assumes "\<And>cc. cc \<in> set ccs \<Longrightarrow> schema_only (confit_v2_evaluation_one_choice vs env cc)"
  shows "schema_only (confit_v2_evaluation_choices vs env ccs)"
  using assms
proof (induction ccs)
  case (Cons c ccs)
  then show ?case unfolding confit_v2_evaluation_choices.simps by (intro schema_only_bind) simp_all
qed simp

section \<open>The whole evaluation\<close>

lemma effective_value_allowed:
  assumes "evaluate_symbol linked ledger (initial_value s) env = Inr v" "range_typed s" "ef_is_set v" "cstring_value (ef_value v)"
  shows "value_allowed s (ef_value v)"
proof -
  have "\<exists>u path line column. confit_v2_ledger_validate_value s u path line column = Inr (ef_value v)"
  proof (cases "sym_write_domain s = DOMAIN_COMPUTED")
    case True
    with assms(1,3) show ?thesis
      by (fastforce simp: evaluate_symbol_def confit_v2_evaluation_compute_symbol_def initial_value_def bind_simps Let_def
          split: option.splits if_splits)
  next
    case False
    with assms(1,3) show ?thesis
      by (fastforce simp: evaluate_symbol_def confit_v2_evaluation_input_symbol_def confit_v2_evaluation_set_value_def
          initial_value_def bind_simps Let_def split: option.splits if_splits)
  qed
  then show ?thesis using validated_allowed [OF assms(2)] assms(4) by blast
qed

lemma evaluation_schema_only:
  assumes link: "confit_v2_schema_link_project p = Inr linked" and texts: "texts_ok p" and loaded: "loaded_project p"
    and ok: "evaluable p" and compile: "confit_v2_compile_structure linked = Inr (al_compiled ledger)"
  shows "schema_only (confit_v2_evaluation_build ledger)"
proof -
  note source = compiled_source [OF compile]
  obtain nodes where n: "confit_v2_evaluation_build_nodes linked = Inr nodes" "map node_symbol nodes = lp_symbols linked"
    "\<forall>i<length nodes. targets nodes i = reads_within nodes (value_reads linked) i"
    using built_nodes [OF link] by blast
  have "nodes_closed nodes" using n(3) by (auto simp: nodes_closed_def reads_within_def)
  from topological_order_outcome [OF this] have order: "schema_only (confit_v2_evaluation_topological_order nodes)"
    by (auto simp: schema_only_def split: sum.splits)
  have loop: "schema_only (fold_res (evaluate_node linked ledger) order
       (map (\<lambda>n. initial_value (node_symbol n)) nodes, map (\<lambda>n. initial_binding (node_symbol n)) nodes))
    \<and> (\<forall>s. fold_res (evaluate_node linked ledger) order
       (map (\<lambda>n. initial_value (node_symbol n)) nodes, map (\<lambda>n. initial_binding (node_symbol n)) nodes) = Inr s
         \<longrightarrow> map ef_symbol (fst s) = lp_symbols linked)"
    if "confit_v2_evaluation_topological_order nodes = Inr order" for order
    using ledger_order(4) [OF link n(1) that] n(2)
    by (intro schema_only_loop [OF link texts ok]) (simp_all add: initial_value_def o_def)
  have choices: "schema_only (confit_v2_evaluation_choices ws env (cs_choices (al_compiled ledger)))"
    if ws: "map ef_symbol ws = lp_symbols linked" for ws env
  proof (rule schema_only_choices)
    fix cc
    assume cc: "cc \<in> set (cs_choices (al_compiled ledger))"
    have "list_all2 (choice_compiled p linked) (sort_key choice_id (project_choices p)) (cs_choices (al_compiled ledger))"
      using compiled_facts [OF link loaded compile] by (simp add: structure_compiled_def)
    with cc obtain c where c: "choice_compiled p linked c cc" "c \<in> set (sort_key choice_id (project_choices p))"
      by (metis in_set_conv_nth list_all2_conv_all_nth)
    have "choice_ok p c" using compile_outcome [OF link loaded] compile c(2) by (simp add: structure_ok_def)
    with c show "schema_only (confit_v2_evaluation_one_choice ws env cc)"
      by (intro schema_only_one_choice [OF link texts loaded _ _ _ ws]) simp_all
  qed
  show ?thesis
    unfolding confit_v2_evaluation_build_def Let_def source n(1) bind_res_Inr
  proof (intro schema_only_bind order)
    fix order s
    assume o: "confit_v2_evaluation_topological_order nodes = Inr order"
      and run: "fold_res (evaluate_node linked ledger) order
        (map (\<lambda>n. initial_value (node_symbol n)) nodes, map (\<lambda>n. initial_binding (node_symbol n)) nodes) = Inr s"
    show "schema_only (case s of (vs, env) \<Rightarrow> bind_res (confit_v2_evaluation_option_states linked env vs) (\<lambda>vs.
        bind_res (confit_v2_evaluation_choices vs env (cs_choices (al_compiled ledger))) (\<lambda>choices.
          Inr \<lparr>evl_ledger = ledger, evl_values = vs, evl_choices = choices\<rparr>)))"
    proof (cases s)
      case (Pair vs env)
      have "map ef_symbol vs = lp_symbols linked" using loop [OF o] run Pair by simp
      then show ?thesis unfolding Pair prod.case
      proof (intro schema_only_bind schema_only_option_states [OF link texts] choices)
        fix ws
        assume "confit_v2_evaluation_option_states linked env vs = Inr ws"
        from states_core [OF option_states_all [OF this]] have "map ef_symbol (map core ws) = map ef_symbol (map core vs)" by simp
        then show "map ef_symbol ws = lp_symbols linked"
          using \<open>map ef_symbol vs = lp_symbols linked\<close> by (simp add: o_def)
      qed simp
    qed
  qed (use loop in blast)
qed

lemma effective_value_required:
  assumes "evaluate_symbol linked ledger (initial_value s) env = Inr v" "sym_required s"
  shows "ef_is_set v"
proof (cases "sym_write_domain s = DOMAIN_COMPUTED")
  case True
  with assms show ?thesis
    by (auto simp: evaluate_symbol_def confit_v2_evaluation_compute_symbol_def initial_value_def bind_simps Let_def
        split: option.splits if_splits)
next
  case False
  with assms show ?thesis
    by (auto simp: evaluate_symbol_def confit_v2_evaluation_input_symbol_def confit_v2_evaluation_set_value_def
        initial_value_def bind_simps Let_def split: option.splits if_splits)
qed

text \<open>C9. Evaluating a loaded, linked and compiled project returns: it misses no expression, reads no absent
  union member or array element and fails with a schema error only. On success every option has an
  entry, a required one is set, and every value of C strings is one its option allows: of its
  type, among its candidates, within its range.\<close>

theorem evaluation_outcome:
  assumes "confit_v2_schema_link_project p = Inr linked" "texts_ok p" "loaded_project p" "evaluable p"
    and "confit_v2_compile_structure linked = Inr (al_compiled ledger)"
  shows "case confit_v2_evaluation_build ledger of
      Inr result \<Rightarrow> map ef_symbol (evl_values result) = lp_symbols linked
        \<and> (\<forall>v\<in>set (evl_values result). (sym_required (ef_symbol v) \<longrightarrow> ef_is_set v)
            \<and> (ef_is_set v \<and> cstring_value (ef_value v) \<longrightarrow> value_allowed (ef_symbol v) (ef_value v)))
    | Inl e \<Rightarrow> \<exists>d. e = Diagnosed d \<and> diag_status d = CONFIT_ERR_SCHEMA"
proof (cases "confit_v2_evaluation_build ledger")
  case (Inl e)
  with evaluation_schema_only [OF assms] show ?thesis by (auto simp: schema_only_def split: input_stop.splits)
next
  case (Inr result)
  from evaluation_result(1) [OF assms(1) compiled_source [OF assms(5)] Inr]
  have solves: "solves linked ledger (evl_values result)" .
  have "(sym_required (ef_symbol v) \<longrightarrow> ef_is_set v)
      \<and> (ef_is_set v \<and> cstring_value (ef_value v) \<longrightarrow> value_allowed (ef_symbol v) (ef_value v))"
    if v: "v \<in> set (evl_values result)" for v
  proof -
    from solves v have run: "evaluate_symbol linked ledger (initial_value (ef_symbol v)) (environment_of (evl_values result))
        = Inr (core v)" by (simp add: solves_def)
    have "ef_symbol v \<in> set (map ef_symbol (evl_values result))" using v by simp
    also have "map ef_symbol (evl_values result) = lp_symbols linked" using solves by (simp add: solves_def)
    finally have "range_typed (ef_symbol v)" using assms(4) linked_symbol_set [OF assms(1)] by (simp add: evaluable_def)
    with effective_value_allowed [OF run] effective_value_required [OF run] show ?thesis by (simp add: core_def)
  qed
  with Inr solves show ?thesis by (simp add: solves_def)
qed

end
