(* ===== verification/Constraints_Correct.thy ===== *)
theory Constraints_Correct
  imports Constraints Effective_Safe "HOL-Library.Product_Lexorder"
begin

text \<open>
  The report of the constraints and suggestions over a finished evaluation: the outcome of each
  constraint, the values it read and the state of each suggestion, as functions of the final values.
\<close>

section \<open>Final values\<close>

text \<open>The entries of an evaluation, one for each option in the order of ids.\<close>

definition entries_for :: "linked_project \<Rightarrow> effective_value list \<Rightarrow> bool" where
  "entries_for linked vs \<longleftrightarrow> map ef_symbol vs = lp_symbols linked"

definition final_value :: "effective_value list \<Rightarrow> v2_symbol \<Rightarrow> v2_value option" where
  "final_value vs s = (case find (\<lambda>v. ef_symbol v = s) vs of None \<Rightarrow> None | Some v \<Rightarrow> effective_binding v)"

lemma find_binding_loop_filter:
  fixes bindings
  defines "ms name \<equiv> filter (\<lambda>b. \<exists>s. cb_symbol b = Some s \<and> sym_id s = name) bindings"
  shows "find_binding_loop bindings name found k
    = (if ms name = [] then found else Some (last (ms name)), k + length (ms name))"
  unfolding ms_def by (induction bindings arbitrary: found k) (auto simp: strcmp_eq split: option.split)

lemma entries_distinct:
  assumes "confit_v2_schema_link_project p = Inr linked" "entries_for linked vs"
  shows "distinct (map (\<lambda>v. sym_id (ef_symbol v)) vs)"
proof -
  have "distinct (map sym_id (map ef_symbol vs))"
    using assms linked_project_ok [OF assms(1)] strict_sorted_iff by (auto simp: entries_for_def linked_ok_def)
  then show ?thesis by (simp add: o_def)
qed

lemma filter_distinct_key:
  "distinct (map key xs) \<Longrightarrow> x \<in> set xs \<Longrightarrow> filter (\<lambda>y. key y = key x) xs = [x]"
proof (induction xs)
  case (Cons a xs)
  then show ?case by (auto simp: filter_empty_conv image_iff)
qed simp

lemma find_final_binding:
  assumes "distinct (map (\<lambda>v. sym_id (ef_symbol v)) vs)" "v \<in> set vs"
  shows "confit_v2_constraint_find_binding (map final_binding vs) (sym_id (ef_symbol v)) = (Some (final_binding v), 1)"
proof -
  have "filter (\<lambda>b. \<exists>s. cb_symbol b = Some s \<and> sym_id s = sym_id (ef_symbol v)) (map final_binding vs) = [final_binding v]"
    using filter_distinct_key [OF assms] by (simp add: filter_map o_def final_binding_def)
  then show ?thesis by (simp add: confit_v2_constraint_find_binding_def find_binding_loop_filter)
qed

lemma final_value_entry:
  assumes "distinct (map (\<lambda>v. sym_id (ef_symbol v)) vs)" "v \<in> set vs"
  shows "final_value vs (ef_symbol v) = effective_binding v"
proof -
  have "find (\<lambda>u. ef_symbol u = ef_symbol v) vs = Some v"
    using assms by (induction vs) auto
  then show ?thesis by (simp add: final_value_def)
qed

lemma entry_of_symbol:
  assumes "confit_v2_schema_link_project p = Inr linked" "entries_for linked vs" "s \<in> set (project_symbols p)"
  obtains v where "v \<in> set vs" "ef_symbol v = s"
proof -
  from assms have "s \<in> set (map ef_symbol vs)" by (simp add: entries_for_def linked_symbol_set)
  then show thesis using that by auto
qed

section \<open>The environment\<close>

lemma fold_collect_all:
  "(\<And>x. x \<in> set xs \<Longrightarrow> f x = Inr (g x))
    \<Longrightarrow> fold_res (\<lambda>x acc. bind_res (f x) (\<lambda>y. Inr (acc @ [y]))) xs acc = Inr (acc @ map g xs)"
  by (induction xs arbitrary: acc) simp_all

definition runtime_environment :: "v2_project \<Rightarrow> effective_value list \<Rightarrow> environment" where
  "runtime_environment p vs = map (\<lambda>s. (initial_binding s)\<lparr>bind_value := final_value vs s\<rparr>) (project_symbols p)"

lemma build_environment_final:
  assumes link: "confit_v2_schema_link_project p = Inr linked" and vs: "entries_for linked vs"
    and compiled: "cs_linked compiled = linked"
  shows "confit_v2_constraint_build_environment compiled (map final_binding vs) = Inr (runtime_environment p vs)"
proof -
  have p: "lp_project linked = p" "lp_symbols linked = sort_key sym_id (project_symbols p)"
    using link by (auto elim: link_project_cases)
  have len: "length vs = length (project_symbols p)"
    using arg_cong [OF vs [unfolded entries_for_def], of length] p(2) by simp
  have one: "environment_binding (map final_binding vs) s = Inr ((initial_binding s)\<lparr>bind_value := final_value vs s\<rparr>)"
    if "s \<in> set (project_symbols p)" for s
  proof (rule entry_of_symbol [OF link vs that])
    fix v
    assume v: "v \<in> set vs" "ef_symbol v = s"
    note distinct = entries_distinct [OF link vs]
    from find_final_binding [OF distinct v(1)] final_value_entry [OF distinct v(1)] show ?thesis
      by (simp add: environment_binding_def v(2) final_binding_def effective_binding_def)
  qed
  show ?thesis
    using fold_collect_all [of "project_symbols p" "environment_binding (map final_binding vs)", OF one]
    by (simp add: confit_v2_constraint_build_environment_def compiled p(1) len runtime_environment_def)
qed

lemma find_distinct_binding:
  assumes "distinct (map bind_id env)" "b \<in> set env"
  shows "confit_v2_evaluate_find_binding env (bind_id b) = Some b"
  using assms by (induction env) (auto simp: confit_v2_evaluate_find_binding_def strcmp_eq)

lemma runtime_agrees:
  assumes link: "confit_v2_schema_link_project p = Inr linked" and vs: "entries_for linked vs"
  shows "agree_on names (runtime_environment p vs) (environment_of vs)"
proof -
  note distinct = entries_distinct [OF link vs]
  have same: "set (runtime_environment p vs) = set (environment_of vs)"
  proof -
    have "set (project_symbols p) = ef_symbol ` set vs"
      using linked_symbol_set [OF link] vs unfolding entries_for_def by (metis list.set_map)
    then show ?thesis
      using final_value_entry [OF distinct] by (auto simp: runtime_environment_def environment_of_def image_image)
  qed
  have ids: "map bind_id (environment_of vs) = map (\<lambda>v. sym_id (ef_symbol v)) vs"
    "map bind_id (runtime_environment p vs) = map sym_id (project_symbols p)"
    by (simp_all add: environment_of_def runtime_environment_def initial_binding_def o_def)
  have "lp_symbols linked = sort_key sym_id (project_symbols p)" using link by (rule link_project_cases) simp
  moreover have "distinct (map sym_id (lp_symbols linked))"
    using linked_project_ok [OF link] strict_sorted_iff by (auto simp: linked_ok_def)
  ultimately have d: "distinct (map bind_id (runtime_environment p vs))" "distinct (map bind_id (environment_of vs))"
    unfolding ids using distinct by (simp_all add: distinct_map)
  have "confit_v2_evaluate_find_binding (runtime_environment p vs) name
      = confit_v2_evaluate_find_binding (environment_of vs) name" for name
  proof (cases "\<exists>b\<in>set (environment_of vs). bind_id b = name")
    case True
    then show ?thesis using find_distinct_binding [OF d(1)] find_distinct_binding [OF d(2)] same by auto
  next
    case False
    then have "confit_v2_evaluate_find_binding env name = None" if "set env = set (environment_of vs)" for env
      using that by (auto simp: confit_v2_evaluate_find_binding_def find_None_iff strcmp_eq)
    then show ?thesis using same by metis
  qed
  then show ?thesis by (simp add: agree_on_def)
qed

lemma condition_same:
  assumes "confit_v2_schema_link_project p = Inr linked" "entries_for linked vs" "x \<in> set (lp_expressions linked)"
  shows "condition_value x (runtime_environment p vs) message = condition_value x (environment_of vs) message"
  using linked_expression_local [OF assms(1,3) runtime_agrees [OF assms(1,2)]] by (simp add: condition_value_def)

section \<open>Constraints\<close>

text \<open>What a constraint decides in an environment, if its conditions have values there.\<close>

definition outcome_in :: "environment \<Rightarrow> compiled_constraint \<Rightarrow> constraint_outcome option" where
  "outcome_in env k = (case condition_in env (Some (cn_when k)) of
     None \<Rightarrow> None
   | Some False \<Rightarrow> Some CONSTRAINT_NOT_APPLICABLE
   | Some True \<Rightarrow> map_option (\<lambda>b. if b then CONSTRAINT_PASSED else CONSTRAINT_FAILED) (condition_in env (Some (cn_require k))))"

definition expressions_read :: "compiled_constraint \<Rightarrow> constraint_outcome \<Rightarrow> linked_expression list" where
  "expressions_read k outcome =
     cn_when k # (if outcome = CONSTRAINT_NOT_APPLICABLE then [] else [cn_require k])"

definition values_read :: "effective_value list \<Rightarrow> linked_expression list \<Rightarrow> (v2_symbol \<times> v2_value option) list" where
  "values_read vs xs =
     map (\<lambda>r. (lref_symbol r, final_value vs (lref_symbol r))) (concat (map lx_references xs))"

definition result_exact :: "effective_value list \<Rightarrow> compiled_constraint \<Rightarrow> constraint_result \<Rightarrow> bool" where
  "result_exact vs k r \<longleftrightarrow> res_constraint r = k \<and> outcome_in (environment_of vs) k = Some (res_outcome r)
     \<and> map (\<lambda>rd. (rd_symbol rd, rd_value rd)) (res_reads r) = values_read vs (expressions_read k (res_outcome r))"

lemma append_read_final:
  assumes "confit_v2_schema_link_project p = Inr linked" "entries_for linked vs" "lref_symbol r \<in> set (project_symbols p)"
  shows "\<exists>t. confit_v2_constraint_append_read x (map final_binding vs) r s = Inr t
    \<and> res_constraint t = res_constraint s \<and> res_outcome t = res_outcome s
    \<and> map (\<lambda>rd. (rd_symbol rd, rd_value rd)) (res_reads t)
      = map (\<lambda>rd. (rd_symbol rd, rd_value rd)) (res_reads s) @ [(lref_symbol r, final_value vs (lref_symbol r))]"
proof (rule entry_of_symbol [OF assms])
  fix v
  assume v: "v \<in> set vs" "ef_symbol v = lref_symbol r"
  note distinct = entries_distinct [OF assms(1,2)]
  obtain path line column where pos:
    "confit_v2_constraint_expression_position x (node_start (lref_node r)) = (path, line, column)" by (metis prod_cases3)
  show ?thesis
    using find_final_binding [OF distinct v(1)] final_value_entry [OF distinct v(1)]
    by (simp add: confit_v2_constraint_append_read_def pos confit_v2_constraint_append_related_def v(2) final_binding_def
        effective_binding_def)
qed

lemma append_reads_final:
  assumes "confit_v2_schema_link_project p = Inr linked" "entries_for linked vs"
  shows "\<forall>r\<in>set rs. lref_symbol r \<in> set (project_symbols p) \<Longrightarrow>
    \<exists>t. fold_res (confit_v2_constraint_append_read x (map final_binding vs)) rs s = Inr t
      \<and> res_constraint t = res_constraint s \<and> res_outcome t = res_outcome s
      \<and> map (\<lambda>rd. (rd_symbol rd, rd_value rd)) (res_reads t)
        = map (\<lambda>rd. (rd_symbol rd, rd_value rd)) (res_reads s) @ map (\<lambda>r. (lref_symbol r, final_value vs (lref_symbol r))) rs"
proof (induction rs arbitrary: s)
  case (Cons r rs)
  then obtain t where t: "confit_v2_constraint_append_read x (map final_binding vs) r s = Inr t"
    "res_constraint t = res_constraint s" "res_outcome t = res_outcome s"
    "map (\<lambda>rd. (rd_symbol rd, rd_value rd)) (res_reads t)
      = map (\<lambda>rd. (rd_symbol rd, rd_value rd)) (res_reads s) @ [(lref_symbol r, final_value vs (lref_symbol r))]"
    using append_read_final [OF assms, of r x s] by auto
  with Cons.IH [of t] Cons.prems show ?case by auto
qed simp

lemma collect_reads_final:
  assumes "confit_v2_schema_link_project p = Inr linked" "entries_for linked vs" "x \<in> set (lp_expressions linked)"
  shows "\<exists>t. confit_v2_constraint_collect_expression_reads x (map final_binding vs) note s = Inr t
    \<and> res_constraint t = res_constraint s \<and> res_outcome t = res_outcome s
    \<and> map (\<lambda>rd. (rd_symbol rd, rd_value rd)) (res_reads t)
      = map (\<lambda>rd. (rd_symbol rd, rd_value rd)) (res_reads s) @ values_read vs [x]"
proof -
  have "\<forall>r\<in>set (lx_references x). lref_symbol r \<in> set (project_symbols p)"
    using linked_reference_declared [OF assms(1,3)] linked_symbol_set [OF assms(1)] by blast
  from append_reads_final [OF assms(1,2) this] show ?thesis
    by (fastforce simp: confit_v2_constraint_collect_expression_reads_def confit_v2_constraint_append_related_def
        values_read_def Let_def)
qed

text \<open>A compiled constraint and its linked conditions.\<close>

definition runnable_constraint :: "linked_project \<Rightarrow> compiled_constraint \<Rightarrow> bool" where
  "runnable_constraint linked k \<longleftrightarrow> (\<forall>x\<in>{cn_when k, cn_require k}. x \<in> set (lp_expressions linked) \<and> computes bool_type x)"

lemma evaluate_one_final:
  assumes link: "confit_v2_schema_link_project p = Inr linked" and vs: "entries_for linked vs"
    and k: "runnable_constraint linked k"
  shows "case confit_v2_constraint_evaluate_one (runtime_environment p vs) (map final_binding vs) k of
      Inr r \<Rightarrow> result_exact vs k r
    | Inl e \<Rightarrow> outcome_in (environment_of vs) k = None \<and> (\<exists>d. e = Diagnosed d \<and> diag_status d = CONFIT_ERR_SCHEMA)"
proof -
  let ?env = "environment_of vs" and ?bs = "map final_binding vs"
  let ?m = "''schema v2 constraint condition is unset''" and ?n = "''schema v2 constraint requirement is unset''"
  from k have x: "cn_when k \<in> set (lp_expressions linked)" "cn_require k \<in> set (lp_expressions linked)"
    and safe: "schema_only (condition_value (cn_when k) ?env m)" "schema_only (condition_value (cn_require k) ?env m)" for m
    by (simp_all add: runnable_constraint_def schema_only_condition)
  note same = condition_same [OF link vs x(1)] condition_same [OF link vs x(2)]
  obtain t where t: "confit_v2_constraint_collect_expression_reads (cn_when k) ?bs kWhenNote (initial_result k) = Inr t"
    "res_constraint t = k" "map (\<lambda>rd. (rd_symbol rd, rd_value rd)) (res_reads t) = values_read vs [cn_when k]"
    using collect_reads_final [OF link vs x(1), of kWhenNote "initial_result k"] by (auto simp: initial_result_def)
  obtain u where u: "confit_v2_constraint_collect_expression_reads (cn_require k) ?bs kRequireNote t = Inr u"
    "res_constraint u = k"
    "map (\<lambda>rd. (rd_symbol rd, rd_value rd)) (res_reads u) = values_read vs [cn_when k] @ values_read vs [cn_require k]"
    using collect_reads_final [OF link vs x(2), of kRequireNote t] t(2,3) by auto
  have both: "values_read vs [cn_when k, cn_require k] = values_read vs [cn_when k] @ values_read vs [cn_require k]"
    by (simp add: values_read_def)
  have failed: "condition_in ?env (Some y) = None \<and> (\<exists>d. e = Diagnosed d \<and> diag_status d = CONFIT_ERR_SCHEMA)"
    if "condition_value y ?env m = Inl e" "schema_only (condition_value y ?env m)" for y m e
    using that condition_value_Inr [of y ?env m]
    by (cases "condition_in ?env (Some y)") (auto simp: schema_only_def split: input_stop.splits)
  show ?thesis
  proof (cases "condition_value (cn_when k) ?env ?m")
    case (Inl e)
    from failed [OF Inl safe(1)] Inl show ?thesis
      by (simp add: confit_v2_constraint_evaluate_one_def confit_v2_constraint_boolean_expression_def same outcome_in_def)
  next
    case w: (Inr applicable)
    then have wc: "condition_in ?env (Some (cn_when k)) = Some applicable" by (simp add: condition_value_Inr)
    show ?thesis
    proof (cases applicable)
      case False
      with w wc t show ?thesis
        by (simp add: confit_v2_constraint_evaluate_one_def confit_v2_constraint_boolean_expression_def same outcome_in_def
            result_exact_def expressions_read_def)
    next
      case True
      show ?thesis
      proof (cases "condition_value (cn_require k) ?env ?n")
        case (Inl e)
        from failed [OF Inl safe(2)] Inl w wc True t show ?thesis
          by (simp add: confit_v2_constraint_evaluate_one_def confit_v2_constraint_boolean_expression_def same outcome_in_def)
      next
        case r: (Inr required)
        then have "condition_in ?env (Some (cn_require k)) = Some required" by (simp add: condition_value_Inr)
        with r w wc True t u show ?thesis
          by (simp add: confit_v2_constraint_evaluate_one_def confit_v2_constraint_boolean_expression_def same outcome_in_def
              result_exact_def expressions_read_def both)
      qed
    qed
  qed
qed

lemma linked_role_computes:
  assumes "confit_v2_schema_link_project p = Inr linked" "texts_ok p" "x \<in> set (lp_expressions linked)" "lx_role x \<noteq> ROLE_COMPUTED"
  shows "computes bool_type x"
  using assms(1,3)
proof (rule linked_record)
  fix d k
  assume d: "d \<in> set (project_declarations p)" "has_text d" and l: "links (lp_bindings linked) (lp_symbols linked) d k x"
  then have "linked_from linked d x" "decl_role d = lx_role x" by (auto simp: linked_from_def links_def)
  with linked_from_computes [OF assms(1,2) _ d] condition_type [OF d(1)] assms(4) show ?thesis by auto
qed

lemma constraints_loop_members:
  "constraints_loop linked base i cs = Inr ks \<Longrightarrow> k \<in> set ks \<Longrightarrow>
     cn_when k \<in> set (lp_expressions linked) \<and> lx_role (cn_when k) = ROLE_CONSTRAINT_WHEN
     \<and> cn_require k \<in> set (lp_expressions linked) \<and> lx_role (cn_require k) = ROLE_CONSTRAINT_REQUIRE
     \<and> constraint_message (cn_source k) \<noteq> None"
proof (induction cs arbitrary: i ks)
  case (Cons c cs)
  then show ?case
    by (auto simp: Let_def bind_simps confit_v2_linked_project_expression_at_def split: if_splits option.splits)
qed simp

lemma compiled_constraints_runnable:
  assumes "confit_v2_schema_link_project p = Inr linked" "texts_ok p" "confit_v2_compile_structure linked = Inr cs"
    and "k \<in> set (cs_constraints cs)"
  shows "runnable_constraint linked k \<and> constraint_message (cn_source k) \<noteq> None"
proof -
  from assms(3,4) obtain ks base where "constraints_loop linked base 0 (project_constraints (lp_project linked)) = Inr ks" "k \<in> set ks"
    by (auto simp: confit_v2_compile_structure_def confit_v2_compile_constraints_def bind_simps Let_def set_qsort_by
        split: if_splits)
  from constraints_loop_members [OF this] show ?thesis
    using linked_role_computes [OF assms(1,2)] by (auto simp: runnable_constraint_def)
qed

lemma constraint_loop_final:
  assumes link: "confit_v2_schema_link_project p = Inr linked" and vs: "entries_for linked vs"
  shows "\<forall>k\<in>set ks. runnable_constraint linked k \<Longrightarrow>
    case fold_res (\<lambda>c (results, failures).
         bind_res (confit_v2_constraint_evaluate_one (runtime_environment p vs) (map final_binding vs) c) (\<lambda>r.
           Inr (results @ [r], if res_outcome r = CONSTRAINT_FAILED then failures + 1 else failures))) ks (done, n) of
      Inr (results, failures) \<Rightarrow> \<exists>rs. results = done @ rs \<and> list_all2 (result_exact vs) ks rs
        \<and> failures = n + length (filter (\<lambda>r. res_outcome r = CONSTRAINT_FAILED) rs)
    | Inl e \<Rightarrow> (\<exists>k\<in>set ks. outcome_in (environment_of vs) k = None) \<and> (\<exists>d. e = Diagnosed d \<and> diag_status d = CONFIT_ERR_SCHEMA)"
proof (induction ks arbitrary: "done" n)
  case (Cons k ks)
  then have k: "runnable_constraint linked k" and rest: "\<forall>k\<in>set ks. runnable_constraint linked k" by simp_all
  note one = evaluate_one_final [OF link vs k]
  show ?case
  proof (cases "confit_v2_constraint_evaluate_one (runtime_environment p vs) (map final_binding vs) k")
    case (Inl e)
    with one show ?thesis by simp
  next
    case (Inr r)
    with one have r: "result_exact vs k r" by simp
    show ?thesis
      using Cons.IH [OF rest, of "done @ [r]" "if res_outcome r = CONSTRAINT_FAILED then n + 1 else n"] Inr r
      by (auto simp: list_all2_Cons1 split: sum.splits prod.splits if_splits)
  qed
qed simp

text \<open>The order of the report.\<close>

definition result_key :: "constraint_result \<Rightarrow> string \<times> nat \<times> nat \<times> string" where
  "result_key r = (let source = cn_source (res_constraint r); span = constraint_span source
     in (case span_path span of None \<Rightarrow> [] | Some s \<Rightarrow> s, span_line span, span_column span, constraint_id source))"

lemma compare_result_key: "compares result_key confit_v2_constraint_compare_result"
  unfolding compares_def
proof (intro allI)
  fix l r
  show "confit_v2_constraint_compare_result l r \<le> 0 \<longleftrightarrow> result_key l \<le> result_key r"
  proof (cases "fst (result_key l) = fst (result_key r)")
    case True
    then show ?thesis
      unfolding confit_v2_constraint_compare_result_def result_key_def
      by (simp add: strcmp_eq strcmp_le number_compare_le Let_def) auto
  next
    case False
    then show ?thesis
      unfolding confit_v2_constraint_compare_result_def result_key_def
      by (simp add: strcmp_eq strcmp_le Let_def less_le) blast
  qed
qed

section \<open>Suggestions\<close>

lemma find_in_order_filter:
  "find_in_order role owner k xs = (let ys = filter (\<lambda>x. lx_role x = role \<and> lx_owner_id x = owner) xs
     in if k < length ys then Some (ys ! k) else None)"
  by (induction xs arbitrary: k) (auto simp: strcmp_eq Let_def nth_Cons')

lemma find_expression_same:
  assumes "confit_v2_schema_link_project p = Inr linked"
  shows "confit_v2_constraint_find_expression linked role owner k = confit_v2_linked_project_find_expression linked role owner k"
  by (simp add: confit_v2_constraint_find_expression_def find_in_order_filter find_expression_filter [OF linked_project_ok [OF assms]])

text \<open>The suggestions of all options, in the order of ids and of declaration.\<close>

definition suggestion_places :: "linked_project \<Rightarrow> (v2_symbol \<times> nat) list" where
  "suggestion_places linked = concat (map (\<lambda>s. map (Pair s) [0..<length (sym_suggestions s)]) (lp_symbols linked))"

definition suggestion_condition :: "linked_project \<Rightarrow> environment \<Rightarrow> v2_symbol \<times> nat \<Rightarrow> bool option" where
  "suggestion_condition linked env = (\<lambda>(s, i).
     condition_in env (confit_v2_linked_project_find_expression linked ROLE_SUGGESTION_WHEN (sym_id s) i))"

definition suggested_value :: "v2_symbol \<times> nat \<Rightarrow> v2_value" where
  "suggested_value = (\<lambda>(s, i). assign_value (sugg_assignment (sym_suggestions s ! i)))"

definition contradicted :: "linked_project \<Rightarrow> environment \<Rightarrow> v2_symbol \<times> nat \<Rightarrow> bool" where
  "contradicted linked env place \<longleftrightarrow> (\<exists>j<length (sym_suggestions (fst place)). j \<noteq> snd place
     \<and> suggestion_condition linked env (fst place, j) = Some True
     \<and> \<not> confit_v2_evaluation_value_equal (suggested_value (fst place, j)) (suggested_value place))"

definition suggestion_met :: "effective_value list \<Rightarrow> v2_symbol \<times> nat \<Rightarrow> bool" where
  "suggestion_met vs place \<longleftrightarrow>
     (\<exists>v. final_value vs (fst place) = Some v \<and> confit_v2_evaluation_value_equal v (suggested_value place))"

definition single_state :: "linked_project \<Rightarrow> effective_value list \<Rightarrow> v2_symbol \<times> nat \<Rightarrow> suggestion_state" where
  "single_state linked vs place =
     (if suggestion_condition linked (environment_of vs) place \<noteq> Some True then SUGGESTION_NOT_APPLICABLE
      else if suggestion_met vs place then SUGGESTION_SATISFIED
      else SUGGESTION_APPLICABLE)"

definition final_state :: "linked_project \<Rightarrow> effective_value list \<Rightarrow> v2_symbol \<times> nat \<Rightarrow> suggestion_state" where
  "final_state linked vs place =
     (if single_state linked vs place \<noteq> SUGGESTION_NOT_APPLICABLE \<and> contradicted linked (environment_of vs) place
      then SUGGESTION_CONFLICTING else single_state linked vs place)"

definition suggestion_report ::
  "(v2_symbol \<times> nat \<Rightarrow> suggestion_state) \<Rightarrow> v2_symbol \<times> nat \<Rightarrow> suggestion_result" where
  "suggestion_report state place =
     \<lparr>sr_symbol = fst place, sr_suggestion = sym_suggestions (fst place) ! snd place, sr_state = state place\<rparr>"

text \<open>One suggestion.\<close>

lemma suggestion_result_final:
  assumes link: "confit_v2_schema_link_project p = Inr linked" and texts: "texts_ok p" and ok: "evaluable p"
    and vs: "entries_for linked vs" and s: "s \<in> set (project_symbols p)" "i < length (sym_suggestions s)"
  shows "case suggestion_result_of linked (runtime_environment p vs) (map final_binding vs) s i of
      Inr r \<Rightarrow> suggestion_condition linked (environment_of vs) (s, i) \<noteq> None \<and> r = suggestion_report (single_state linked vs) (s, i)
    | Inl e \<Rightarrow> suggestion_condition linked (environment_of vs) (s, i) = None \<and> (\<exists>d. e = Diagnosed d \<and> diag_status d = CONFIT_ERR_SCHEMA)"
proof -
  let ?env = "environment_of vs" and ?m = "''schema v2 suggestion condition is unset''"
  from option_expressions_found(3) [OF link ok s] obtain x
    where x: "confit_v2_linked_project_find_expression linked ROLE_SUGGESTION_WHEN (sym_id s) i = Some x" by blast
  have "computes bool_type x" by (rule found_condition [OF link texts _ x]) simp
  note safe = schema_only_condition [OF this, of ?env ?m]
  have same: "condition_value x (runtime_environment p vs) ?m = condition_value x ?env ?m"
    using found_expression [OF link x] by (intro condition_same [OF link vs]) simp
  obtain v where v: "v \<in> set vs" "ef_symbol v = s" by (rule entry_of_symbol [OF link vs s(1)])
  note distinct = entries_distinct [OF link vs]
  note binding = find_final_binding [OF distinct v(1), unfolded v(2)] final_value_entry [OF distinct v(1), unfolded v(2)]
  show ?thesis
  proof (cases "condition_value x ?env ?m")
    case (Inl e)
    have "condition_in ?env (Some x) = None"
    proof (cases "condition_in ?env (Some x)")
      case (Some b)
      then show ?thesis using condition_value_Inr [of x ?env ?m b] Inl by simp
    qed
    with Inl safe same x show ?thesis
      by (auto simp: suggestion_result_of_def find_expression_same [OF link] confit_v2_constraint_boolean_expression_def
          suggestion_condition_def schema_only_def Let_def split: input_stop.splits)
  next
    case (Inr b)
    then have c: "condition_in ?env (Some x) = Some b" by (simp add: condition_value_Inr)
    show ?thesis
      using Inr same x c binding
      by (cases b; cases "ef_is_set v") (simp_all add: suggestion_result_of_def find_expression_same [OF link]
          confit_v2_constraint_boolean_expression_def suggestion_condition_def Let_def suggestion_report_def single_state_def
          suggestion_met_def suggested_value_def final_binding_def effective_binding_def confit_v2_constraint_value_equal_def)
  qed
qed

lemma symbol_suggestions_places:
  "fold_res (symbol_suggestions linked env bindings) symbols acc
    = fold_res (\<lambda>(s, i) results. bind_res (suggestion_result_of linked env bindings s i) (\<lambda>r. Inr (results @ [r])))
        (concat (map (\<lambda>s. map (Pair s) [0..<length (sym_suggestions s)]) symbols)) acc"
  by (induction symbols arbitrary: acc)
    (auto simp: fold_res_append fold_res_map symbol_suggestions_def intro!: bind_res_cong)

lemma fold_collect_cases:
  assumes "\<And>x. x \<in> set xs \<Longrightarrow> case f x of Inr r \<Rightarrow> \<not> bad x \<and> r = g x | Inl e \<Rightarrow> bad x \<and> schema e"
  shows "case fold_res (\<lambda>x acc. bind_res (f x) (\<lambda>r. Inr (acc @ [r]))) xs acc of
      Inr rs \<Rightarrow> (\<forall>x\<in>set xs. \<not> bad x) \<and> rs = acc @ map g xs
    | Inl e \<Rightarrow> (\<exists>x\<in>set xs. bad x) \<and> schema e"
  using assms
proof (induction xs arbitrary: acc)
  case (Cons x xs)
  note one = Cons.prems [of x] and rest = Cons.IH [OF Cons.prems]
  show ?case
  proof (cases "f x")
    case (Inl e)
    with one show ?thesis by simp
  next
    case (Inr r)
    with one rest [of "acc @ [r]"] show ?thesis by (auto split: sum.splits)
  qed
qed simp

text \<open>The marking of conflicts.\<close>

lemma places_set:
  "(s, j) \<in> set (suggestion_places linked) \<longleftrightarrow> s \<in> set (lp_symbols linked) \<and> j < length (sym_suggestions s)"
  unfolding suggestion_places_def by (auto intro!: bexI [of _ s])

lemma places_distinct:
  assumes "distinct (lp_symbols linked)"
  shows "distinct (suggestion_places linked)"
proof -
  have "distinct (concat (map (\<lambda>s. map (Pair s) [0..<length (sym_suggestions s)]) ss))" if "distinct ss" for ss :: "v2_symbol list"
    using that by (induction ss) (auto simp: distinct_map inj_on_def)
  then show ?thesis unfolding suggestion_places_def using assms by blast
qed

lemma single_state_applies:
  "single_state linked vs place \<noteq> SUGGESTION_NOT_APPLICABLE \<longleftrightarrow> suggestion_condition linked (environment_of vs) place = Some True"
  by (simp add: single_state_def)

lemma final_state_applies:
  "final_state linked vs place = SUGGESTION_NOT_APPLICABLE \<longleftrightarrow> single_state linked vs place = SUGGESTION_NOT_APPLICABLE"
  by (simp add: final_state_def)

lemma conflict_iff_contradicted:
  assumes "distinct (lp_symbols linked)" "k < length (suggestion_places linked)"
  shows "(\<exists>other<length (suggestion_places linked). k \<noteq> other
      \<and> single_state linked vs (suggestion_places linked ! other) \<noteq> SUGGESTION_NOT_APPLICABLE
      \<and> fst (suggestion_places linked ! other) = fst (suggestion_places linked ! k)
      \<and> \<not> confit_v2_evaluation_value_equal (suggested_value (suggestion_places linked ! other))
            (suggested_value (suggestion_places linked ! k)))
    \<longleftrightarrow> contradicted linked (environment_of vs) (suggestion_places linked ! k)" (is "?l \<longleftrightarrow> ?r")
proof -
  let ?ps = "suggestion_places linked"
  obtain s i where k: "?ps ! k = (s, i)" by (cases "?ps ! k")
  with assms(2) have s: "s \<in> set (lp_symbols linked)" by (metis nth_mem places_set)
  note distinct = places_distinct [OF assms(1)]
  show ?thesis
  proof
    assume ?l
    then obtain other where o: "other < length ?ps" "other \<noteq> k" "single_state linked vs (?ps ! other) \<noteq> SUGGESTION_NOT_APPLICABLE"
      "fst (?ps ! other) = s" "\<not> confit_v2_evaluation_value_equal (suggested_value (?ps ! other)) (suggested_value (s, i))"
      using k by auto
    obtain j where j: "?ps ! other = (s, j)" using o(4) by (cases "?ps ! other") simp
    with o(1) have "j < length (sym_suggestions s)" by (metis nth_mem places_set)
    moreover have "j \<noteq> i" using o(1,2) j k distinct assms(2) by (metis nth_eq_iff_index_eq)
    ultimately show ?r using o(3,5) j by (auto simp: contradicted_def k single_state_applies)
  next
    assume ?r
    then obtain j where j: "j < length (sym_suggestions s)" "j \<noteq> i"
      "suggestion_condition linked (environment_of vs) (s, j) = Some True"
      "\<not> confit_v2_evaluation_value_equal (suggested_value (s, j)) (suggested_value (s, i))"
      by (auto simp: contradicted_def k)
    then have "(s, j) \<in> set ?ps" using s by (simp add: places_set)
    then obtain other where "other < length ?ps" "?ps ! other = (s, j)" by (auto simp: in_set_conv_nth)
    with j k show ?l by (intro exI [of _ other]) (auto simp: single_state_applies)
  qed
qed

lemma mark_conflicts_final:
  assumes "distinct (lp_symbols linked)" "k \<le> length (suggestion_places linked)"
  shows "fold mark_conflict [0..<k] (map (suggestion_report (single_state linked vs)) (suggestion_places linked))
    = map (suggestion_report (final_state linked vs)) (take k (suggestion_places linked))
      @ map (suggestion_report (single_state linked vs)) (drop k (suggestion_places linked))" (is "?f k = ?g k")
  using assms(2)
proof (induction k)
  case (Suc k)
  let ?ps = "suggestion_places linked"
  have k: "k < length ?ps" and IH: "?f k = ?g k" using Suc by simp_all
  have len: "length (?g k) = length ?ps" by simp
  have at: "?g k ! m = suggestion_report (if m < k then final_state linked vs else single_state linked vs) (?ps ! m)"
    if "m < length ?ps" for m
    using that k by (auto simp: nth_append)
  have applies: "sr_state (?g k ! m) \<noteq> SUGGESTION_NOT_APPLICABLE \<longleftrightarrow> single_state linked vs (?ps ! m) \<noteq> SUGGESTION_NOT_APPLICABLE"
    and parts: "sr_symbol (?g k ! m) = fst (?ps ! m)"
      "assign_value (sugg_assignment (sr_suggestion (?g k ! m))) = suggested_value (?ps ! m)"
    if "m < length ?ps" for m
    unfolding at [OF that] by (simp_all add: suggestion_report_def final_state_applies suggested_value_def case_prod_unfold)
  have "list_ex (\<lambda>other. let candidate = ?g k ! other
        in k \<noteq> other \<and> sr_state candidate \<noteq> SUGGESTION_NOT_APPLICABLE \<and> sr_symbol candidate = sr_symbol (?g k ! k)
          \<and> \<not> confit_v2_constraint_value_equal (assign_value (sugg_assignment (sr_suggestion candidate)))
                (assign_value (sugg_assignment (sr_suggestion (?g k ! k))))) [0..<length (?g k)]
      \<longleftrightarrow> contradicted linked (environment_of vs) (?ps ! k)"
    unfolding conflict_iff_contradicted [OF assms(1) k, symmetric] list_ex_iff len Let_def confit_v2_constraint_value_equal_def
    by (simp add: Bex_def applies parts k cong: conj_cong)
  then have "mark_conflict k (?g k)
      = (if single_state linked vs (?ps ! k) \<noteq> SUGGESTION_NOT_APPLICABLE \<and> contradicted linked (environment_of vs) (?ps ! k)
         then (?g k)[k := (?g k ! k)\<lparr>sr_state := SUGGESTION_CONFLICTING\<rparr>] else ?g k)"
    using applies [OF k] unfolding mark_conflict_def Let_def by auto
  also have "\<dots> = (?g k)[k := suggestion_report (final_state linked vs) (?ps ! k)]"
  proof (cases "single_state linked vs (?ps ! k) \<noteq> SUGGESTION_NOT_APPLICABLE \<and> contradicted linked (environment_of vs) (?ps ! k)")
    case True
    then have "(?g k ! k)\<lparr>sr_state := SUGGESTION_CONFLICTING\<rparr> = suggestion_report (final_state linked vs) (?ps ! k)"
      unfolding at [OF k] by (simp add: suggestion_report_def final_state_def)
    with True show ?thesis by (simp only: if_True not_False_eq_True simp_thms)
  next
    case False
    then have "final_state linked vs (?ps ! k) = single_state linked vs (?ps ! k)" by (simp only: final_state_def if_False)
    then have "suggestion_report (final_state linked vs) (?ps ! k) = ?g k ! k"
      unfolding at [OF k] by (simp add: suggestion_report_def)
    with False show ?thesis by (simp only: list_update_id if_False)
  qed
  also have "\<dots> = ?g (Suc k)"
    using k by (simp add: take_Suc_conv_app_nth list_update_append Cons_nth_drop_Suc [symmetric])
  finally show ?case using IH by simp
qed simp

lemma suggestions_final:
  assumes link: "confit_v2_schema_link_project p = Inr linked" and texts: "texts_ok p" and ok: "evaluable p"
    and vs: "entries_for linked vs" and compiled: "cs_linked compiled = linked"
  shows "case confit_v2_constraint_suggestions compiled (runtime_environment p vs) (map final_binding vs) of
      Inr rs \<Rightarrow> (\<forall>place\<in>set (suggestion_places linked). suggestion_condition linked (environment_of vs) place \<noteq> None)
        \<and> rs = map (suggestion_report (final_state linked vs)) (suggestion_places linked)
    | Inl e \<Rightarrow> (\<exists>place\<in>set (suggestion_places linked). suggestion_condition linked (environment_of vs) place = None)
        \<and> (\<exists>d. e = Diagnosed d \<and> diag_status d = CONFIT_ERR_SCHEMA)"
proof -
  let ?one = "\<lambda>(s, i). suggestion_result_of linked (runtime_environment p vs) (map final_binding vs) s i"
  have p: "lp_project linked = p" "lp_symbols linked = sort_key sym_id (project_symbols p)"
    using link by (auto elim: link_project_cases)
  have symbols: "qsort_by confit_v2_constraint_symbol_compare (project_symbols p) = lp_symbols linked"
    unfolding p(2) by (rule qsort_by_sort_key) (simp add: compares_def confit_v2_constraint_symbol_compare_def strcmp_le)
  have "distinct (map sym_id (lp_symbols linked))"
    using linked_project_ok [OF link] strict_sorted_iff by (auto simp: linked_ok_def)
  then have "distinct (lp_symbols linked)" by (simp only: distinct_map)
  note marked = mark_conflicts_final [OF this le_refl, of vs]
  have one: "case ?one place of
      Inr r \<Rightarrow> suggestion_condition linked (environment_of vs) place \<noteq> None \<and> r = suggestion_report (single_state linked vs) place
    | Inl e \<Rightarrow> suggestion_condition linked (environment_of vs) place = None \<and> (\<exists>d. e = Diagnosed d \<and> diag_status d = CONFIT_ERR_SCHEMA)"
    if "place \<in> set (suggestion_places linked)" for place
  proof (cases place)
    case (Pair s i)
    with that have "s \<in> set (project_symbols p)" "i < length (sym_suggestions s)"
      using linked_symbol_set [OF link] by (simp_all add: places_set)
    from suggestion_result_final [OF link texts ok vs this] show ?thesis unfolding Pair prod.case .
  qed
  have one_fold: "fold_res (symbol_suggestions linked (runtime_environment p vs) (map final_binding vs)) (lp_symbols linked) []
      = fold_res (\<lambda>place acc. bind_res (?one place) (\<lambda>r. Inr (acc @ [r]))) (suggestion_places linked) []"
    by (simp add: symbol_suggestions_places suggestion_places_def case_prod_unfold)
  have all: "case fold_res (symbol_suggestions linked (runtime_environment p vs) (map final_binding vs)) (lp_symbols linked) [] of
      Inr rs \<Rightarrow> (\<forall>place\<in>set (suggestion_places linked). suggestion_condition linked (environment_of vs) place \<noteq> None)
        \<and> rs = map (suggestion_report (single_state linked vs)) (suggestion_places linked)
    | Inl e \<Rightarrow> (\<exists>place\<in>set (suggestion_places linked). suggestion_condition linked (environment_of vs) place = None)
        \<and> (\<exists>d. e = Diagnosed d \<and> diag_status d = CONFIT_ERR_SCHEMA)"
    unfolding one_fold
    using fold_collect_cases [where xs = "suggestion_places linked" and f = ?one and acc = "[]"
        and bad = "\<lambda>place. suggestion_condition linked (environment_of vs) place = None"
        and g = "suggestion_report (single_state linked vs)"
        and schema = "\<lambda>e. \<exists>d. e = Diagnosed d \<and> diag_status d = CONFIT_ERR_SCHEMA", OF one]
    by (simp only: append_Nil)
  show ?thesis
  proof (cases "sum_list (map (\<lambda>s. length (sym_suggestions s)) (project_symbols p)) = 0")
    case True
    then have "suggestion_places linked = []" by (simp add: suggestion_places_def p(2))
    with True show ?thesis by (simp add: confit_v2_constraint_suggestions_def compiled p(1) Let_def)
  next
    case False
    then show ?thesis
      using all marked unfolding confit_v2_constraint_suggestions_def compiled p(1) symbols Let_def if_not_P [OF False]
      by (cases "fold_res (symbol_suggestions linked (runtime_environment p vs) (map final_binding vs)) (lp_symbols linked) []")
        simp_all
  qed
qed

section \<open>The report\<close>

definition report_exact :: "linked_project \<Rightarrow> compiled_structure \<Rightarrow> effective_value list \<Rightarrow> constraint_report \<Rightarrow> bool" where
  "report_exact linked compiled vs report \<longleftrightarrow>
     (\<exists>rs. list_all2 (result_exact vs) (cs_constraints compiled) rs \<and> rep_results report = sort_key result_key rs)
     \<and> rep_failure_count report = length (filter (\<lambda>r. res_outcome r = CONSTRAINT_FAILED) (rep_results report))
     \<and> rep_suggestions report = map (suggestion_report (final_state linked vs)) (suggestion_places linked)
     \<and> rep_compiled report = compiled"

lemma filter_sort_length: "length (filter P (sort_key key xs)) = length (filter P xs)"
  by (simp add: filter_sort)

lemma constraint_report_outcome:
  assumes "confit_v2_schema_link_project p = Inr linked" "texts_ok p" "evaluable p"
    and "confit_v2_compile_structure linked = Inr (al_compiled ledger)" "confit_v2_evaluation_build ledger = Inr result"
  shows "case confit_v2_evaluation_validate_constraints result of
      Inr (report, failure) \<Rightarrow> report_exact linked (al_compiled ledger) (evl_values result) report
        \<and> (case find (\<lambda>r. res_outcome r = CONSTRAINT_FAILED) (rep_results report) of
             None \<Rightarrow> failure = None
           | Some r \<Rightarrow> \<exists>d. failure = Some d \<and> diag_status d = CONFIT_ERR_SCHEMA \<and> diag_related d = res_related r
               \<and> Some (diag_message d) = constraint_message (cn_source (res_constraint r)))
    | Inl e \<Rightarrow> (\<exists>d. e = Diagnosed d \<and> diag_status d = CONFIT_ERR_SCHEMA)
        \<and> ((\<exists>k\<in>set (cs_constraints (al_compiled ledger)). outcome_in (environment_of (evl_values result)) k = None)
         \<or> (\<exists>place\<in>set (suggestion_places linked). suggestion_condition linked (environment_of (evl_values result)) place = None))"
proof -
  let ?cs = "al_compiled ledger" and ?vs = "evl_values result" and ?env = "environment_of (evl_values result)"
  note source = compiled_source [OF assms(4)]
  note evaluated = evaluation_result [OF assms(1) source assms(5)]
  from evaluated(1) have vs: "entries_for linked ?vs" by (simp add: solves_def entries_for_def)
  note constraints = compiled_constraints_runnable [OF assms(1,2,4)]
  then have "\<forall>k\<in>set (cs_constraints ?cs). runnable_constraint linked k" by blast
  note loop = constraint_loop_final [OF assms(1) vs this, of "[]" 0]
  note suggestions = suggestions_final [OF assms(1-3) vs source]
  note unfold = confit_v2_evaluation_validate_constraints_def confit_v2_constraint_validate_def evaluated(5)
    build_environment_final [OF assms(1) vs source] bind_res_Inr
  show ?thesis
  proof (cases "fold_res (\<lambda>c (results, failures).
         bind_res (confit_v2_constraint_evaluate_one (runtime_environment p ?vs) (map final_binding ?vs) c) (\<lambda>r.
           Inr (results @ [r], if res_outcome r = CONSTRAINT_FAILED then failures + 1 else failures)))
       (cs_constraints ?cs) ([], 0 :: nat)")
    case (Inl e)
    with loop show ?thesis unfolding unfold by simp
  next
    case (Inr outcome)
    obtain rs where rs: "outcome = (rs, length (filter (\<lambda>r. res_outcome r = CONSTRAINT_FAILED) rs))"
      "list_all2 (result_exact ?vs) (cs_constraints ?cs) rs"
      using loop unfolding Inr by (cases outcome) auto
    show ?thesis
    proof (cases "confit_v2_constraint_suggestions ?cs (runtime_environment p ?vs) (map final_binding ?vs)")
      case (Inl e)
      with suggestions show ?thesis unfolding unfold Inr rs(1) by simp
    next
      case s: (Inr suggested)
      let ?sorted = "sort_key result_key rs"
      have sorted: "qsort_by confit_v2_constraint_compare_result rs = ?sorted"
        by (rule qsort_by_sort_key [OF compare_result_key])
      have message: "constraint_message (cn_source (res_constraint r)) \<noteq> None" if "r \<in> set ?sorted" for r
      proof -
        from that rs(2) obtain k where "k \<in> set (cs_constraints ?cs)" "result_exact ?vs k r"
          unfolding set_sort by (metis in_set_conv_nth list_all2_conv_all_nth)
        with constraints show ?thesis by (auto simp: result_exact_def)
      qed
      have failures: "length (filter (\<lambda>r. res_outcome r = CONSTRAINT_FAILED) rs) > 0
          \<longleftrightarrow> find (\<lambda>r. res_outcome r = CONSTRAINT_FAILED) ?sorted \<noteq> None"
        by (auto simp: find_None_iff filter_empty_conv)
      have run: "confit_v2_evaluation_validate_constraints result =
          Inr (\<lparr>rep_compiled = ?cs, rep_results = ?sorted,
                rep_failure_count = length (filter (\<lambda>r. res_outcome r = CONSTRAINT_FAILED) rs), rep_suggestions = suggested\<rparr>,
            if length (filter (\<lambda>r. res_outcome r = CONSTRAINT_FAILED) rs) > 0 then failure_diagnostic ?sorted else None)"
        unfolding unfold Inr rs(1) by (simp add: s sorted Let_def)
      have "report_exact linked ?cs ?vs (fst (projr (confit_v2_evaluation_validate_constraints result)))"
        using suggestions s rs(2) by (auto simp: run report_exact_def filter_sort_length)
      moreover have "case find (\<lambda>r. res_outcome r = CONSTRAINT_FAILED) ?sorted of
             None \<Rightarrow> failure_diagnostic ?sorted = None
           | Some r \<Rightarrow> \<exists>d. failure_diagnostic ?sorted = Some d \<and> diag_status d = CONFIT_ERR_SCHEMA \<and> diag_related d = res_related r
               \<and> Some (diag_message d) = constraint_message (cn_source (res_constraint r))"
      proof (cases "find (\<lambda>r. res_outcome r = CONSTRAINT_FAILED) ?sorted")
        case (Some r)
        then have "r \<in> set ?sorted" unfolding find_Some_iff using nth_mem by blast
        with message [OF this] Some show ?thesis
          by (auto simp: failure_diagnostic_def confit_diagnostic_set_detail_def Let_def)
      qed (simp add: failure_diagnostic_def)
      ultimately show ?thesis unfolding run failures by (auto split: option.splits)
    qed
  qed
qed

text \<open>C12. Validating the constraints of a finished evaluation reports, for every compiled constraint in
  the order of its position, the outcome that its two conditions have on the final values and
  exactly the values read, and for every suggestion whether it applies, is met or is contradicted. It
  fails with a diagnostic exactly when a constraint fails, naming the first failed one, and without
  a report only when a condition has no value.\<close>

theorem constraint_report_exact:
  assumes "confit_v2_schema_link_project p = Inr linked" "texts_ok p" "evaluable p"
    and "confit_v2_compile_structure linked = Inr (al_compiled ledger)" "confit_v2_evaluation_build ledger = Inr result"
  shows "case confit_v2_evaluation_validate_constraints result of
      Inr (report, failure) \<Rightarrow> report_exact linked (al_compiled ledger) (evl_values result) report
        \<and> (case find (\<lambda>r. res_outcome r = CONSTRAINT_FAILED) (rep_results report) of
             None \<Rightarrow> failure = None
           | Some r \<Rightarrow> \<exists>d. failure = Some d \<and> diag_status d = CONFIT_ERR_SCHEMA \<and> diag_related d = res_related r
               \<and> Some (diag_message d) = constraint_message (cn_source (res_constraint r)))
    | Inl e \<Rightarrow> (\<exists>d. e = Diagnosed d \<and> diag_status d = CONFIT_ERR_SCHEMA)
        \<and> ((\<exists>k\<in>set (cs_constraints (al_compiled ledger)). outcome_in (environment_of (evl_values result)) k = None)
         \<or> (\<exists>place\<in>set (suggestion_places linked). suggestion_condition linked (environment_of (evl_values result)) place = None))"
  by (rule constraint_report_outcome [OF assms])

end
