(* ===== verification/Dependencies.thy ===== *)
theory Dependencies
  imports Locality
begin

text \<open>
  The dependencies a project declares, read off its fields and the references of their texts, and the
  dependency graphs of \<open>src/schema/v2/validate.c\<close> and \<open>src/constraint/v2/graph.c\<close> against them.
\<close>

section \<open>What the fields of a project refer to\<close>

text \<open>The options that the expression of a field names.\<close>

definition condition_names :: "expression_text \<Rightarrow> string set" where
  "condition_names t = (if expr_text t = None then {} else
     case confit_v2_expression_parse t None of Inr x \<Rightarrow> reference_ids (expression_root x) | Inl e \<Rightarrow> {})"

definition names_in :: "expression_text set \<Rightarrow> string set" where
  "names_in ts = (\<Union>t\<in>ts. condition_names t)"

text \<open>The texts a value, an availability or a visibility is computed from.\<close>

definition option_value_texts :: "v2_symbol \<Rightarrow> expression_text set" where
  "option_value_texts s = {sym_computed s, sym_available_if s} \<union> cond_when ` set (sym_defaults s) \<union> sugg_when ` set (sym_suggestions s)"

definition choice_default_texts :: "v2_choice \<Rightarrow> expression_text set" where
  "choice_default_texts c = chd_when ` set (choice_defaults c)"

definition constraint_texts :: "v2_constraint \<Rightarrow> expression_text set" where
  "constraint_texts k = {constraint_when k, constraint_require k}"

text \<open>The pairs of an owner and an option it refers to that each graph is for.\<close>

fun graph_dependencies :: "v2_project \<Rightarrow> graph_kind \<Rightarrow> (string \<times> string) set" where
  "graph_dependencies p GRAPH_EVALUATION =
     (\<Union>s\<in>set (project_symbols p). {sym_id s} \<times> names_in (option_value_texts s))
     \<union> (\<Union>c\<in>set (project_choices p). {choice_id c} \<times> condition_names (choice_available_if c))"
| "graph_dependencies p GRAPH_VISIBILITY =
     (\<Union>s\<in>set (project_symbols p). {sym_id s} \<times> condition_names (sym_visible_if s))
     \<union> (\<Union>m\<in>set (project_menus p). {menu_id m} \<times> condition_names (menu_visible_if m))
     \<union> (\<Union>c\<in>set (project_choices p). {choice_id c} \<times> condition_names (choice_visible_if c))"
| "graph_dependencies p GRAPH_CHOICE =
     (\<Union>c\<in>set (project_choices p). {choice_id c} \<times> (names_in (choice_default_texts c) \<union> set (choice_members c)))"
| "graph_dependencies p GRAPH_CONSTRAINT =
     (\<Union>k\<in>set (project_constraints p). {constraint_id k} \<times> names_in (constraint_texts k))"

section \<open>The linked expressions carry the references of the fields\<close>

fun role_texts :: "v2_project \<Rightarrow> linked_role \<Rightarrow> (string \<times> expression_text) set" where
  "role_texts p ROLE_COMPUTED = (\<lambda>s. (sym_id s, sym_computed s)) ` set (project_symbols p)"
| "role_texts p ROLE_AVAILABLE_IF = (\<lambda>s. (sym_id s, sym_available_if s)) ` set (project_symbols p)"
| "role_texts p ROLE_VISIBLE_IF = (\<lambda>s. (sym_id s, sym_visible_if s)) ` set (project_symbols p)"
| "role_texts p ROLE_DEFAULT_WHEN = (\<Union>s\<in>set (project_symbols p). (\<lambda>d. (sym_id s, cond_when d)) ` set (sym_defaults s))"
| "role_texts p ROLE_SUGGESTION_WHEN = (\<Union>s\<in>set (project_symbols p). (\<lambda>g. (sym_id s, sugg_when g)) ` set (sym_suggestions s))"
| "role_texts p ROLE_MENU_VISIBLE_IF = (\<lambda>m. (menu_id m, menu_visible_if m)) ` set (project_menus p)"
| "role_texts p ROLE_CHOICE_AVAILABLE_IF = (\<lambda>c. (choice_id c, choice_available_if c)) ` set (project_choices p)"
| "role_texts p ROLE_CHOICE_VISIBLE_IF = (\<lambda>c. (choice_id c, choice_visible_if c)) ` set (project_choices p)"
| "role_texts p ROLE_CHOICE_DEFAULT_WHEN = (\<Union>c\<in>set (project_choices p). (\<lambda>d. (choice_id c, chd_when d)) ` set (choice_defaults c))"
| "role_texts p ROLE_CONSTRAINT_WHEN = (\<lambda>k. (constraint_id k, constraint_when k)) ` set (project_constraints p)"
| "role_texts p ROLE_CONSTRAINT_REQUIRE = (\<lambda>k. (constraint_id k, constraint_require k)) ` set (project_constraints p)"

lemma declaration_fields [simp]:
  "decl_role (declare_expression role owner_id self_id source t) = role"
  "decl_owner (declare_expression role owner_id self_id source t) = owner_id"
  "decl_source (declare_expression role owner_id self_id source t) = source"
  by (simp_all add: declare_expression_def)

definition of_role :: "linked_role \<Rightarrow> expr_declaration list \<Rightarrow> (string \<times> expression_text) set" where
  "of_role role ds = (\<lambda>d. (decl_owner d, decl_source d)) ` {d \<in> set ds. decl_role d = role}"

lemma of_role_simps [simp]:
  "of_role role [] = {}"
  "of_role role (d # ds) = (if decl_role d = role then {(decl_owner d, decl_source d)} else {}) \<union> of_role role ds"
  "of_role role (ds @ es) = of_role role ds \<union> of_role role es"
  "of_role role (concat dss) = (\<Union>ds\<in>set dss. of_role role ds)"
  by (auto simp: of_role_def)

lemma of_role_map: "of_role role (map f xs) = (\<lambda>x. (decl_owner (f x), decl_source (f x))) ` {x \<in> set xs. decl_role (f x) = role}"
  by (auto simp: of_role_def)

lemma declared_texts: "of_role role (project_declarations p) = role_texts p role"
  by (cases role)
    (auto simp: project_declarations_def symbol_declarations_def choice_declarations_def constraint_declarations_def Let_def of_role_map)

lemma linked_names:
  assumes "confit_v2_schema_link_project p = Inr linked" "links (lp_bindings linked) (lp_symbols linked) d k x" "has_text d"
  shows "expression_names x = condition_names (decl_source d)"
proof -
  have "list_all2 (resolves (lp_symbols linked) (decl_self d)) (reference_nodes (expression_root (lx_expression x))) (lx_references x)"
    using assms(2) by (simp add: links_def)
  from resolved_names [OF this] have "reference_ids (expression_root (lx_expression x)) = expression_names x"
    using linked_project_ok [OF assms(1)] by (simp add: reference_ids_def expression_names_def linked_ok_def)
  moreover have "confit_v2_expression_parse (decl_source d) None = Inr (lx_expression x)" using assms(2) by (simp add: links_def)
  ultimately show ?thesis using assms(3) by (auto simp: condition_names_def has_text_def)
qed

lemma linked_role_names:
  assumes link: "confit_v2_schema_link_project p = Inr linked"
  shows "(\<exists>x\<in>set (lp_expressions linked). lx_role x = role \<and> lx_owner_id x = owner_id \<and> name \<in> expression_names x)
    \<longleftrightarrow> (\<exists>t. (owner_id, t) \<in> role_texts p role \<and> name \<in> condition_names t)"
proof
  assume "\<exists>x\<in>set (lp_expressions linked). lx_role x = role \<and> lx_owner_id x = owner_id \<and> name \<in> expression_names x"
  then obtain x where x: "x \<in> set (lp_expressions linked)" "lx_role x = role" "lx_owner_id x = owner_id" "name \<in> expression_names x"
    by blast
  obtain d k where d: "d \<in> set (project_declarations p)" "has_text d" "links (lp_bindings linked) (lp_symbols linked) d k x"
    using linked_record [OF link x(1)] .
  then have "(owner_id, decl_source d) \<in> of_role role (project_declarations p)" using x by (auto simp: of_role_def links_def)
  with linked_names [OF link d(3,2)] x(4) show "\<exists>t. (owner_id, t) \<in> role_texts p role \<and> name \<in> condition_names t"
    by (auto simp: declared_texts)
next
  assume "\<exists>t. (owner_id, t) \<in> role_texts p role \<and> name \<in> condition_names t"
  then obtain d where d: "d \<in> set (project_declarations p)" "decl_role d = role" "decl_owner d = owner_id"
    "name \<in> condition_names (decl_source d)" by (auto simp: of_role_def simp flip: declared_texts)
  then have written: "has_text d" by (auto simp: condition_names_def has_text_def split: if_splits)
  note complete = linked_records [OF link]
  let ?ds = "filter has_text (project_declarations p)"
  from d(1) written have "d \<in> set ?ds" by simp
  then obtain k where k: "k < length ?ds" "?ds ! k = d" unfolding in_set_conv_nth by blast
  with complete have len: "k < length (lp_expressions linked)" by (auto dest: list_all2_lengthD)
  with complete k have "links (lp_bindings linked) (lp_symbols linked) d k (lp_expressions linked ! k)"
    by (auto simp: list_all2_conv_all_nth nth_enumerate_eq)
  with linked_names [OF link this written] d nth_mem [OF len]
  show "\<exists>x\<in>set (lp_expressions linked). lx_role x = role \<and> lx_owner_id x = owner_id \<and> name \<in> expression_names x"
    by (auto simp: links_def)
qed

lemma reference_declared:
  assumes "confit_v2_schema_link_project p = Inr linked" "x \<in> set (lp_expressions linked)" "r \<in> set (lx_references x)"
  shows "lref_symbol r \<in> set (project_symbols p)"
proof -
  obtain d k where "links (lp_bindings linked) (lp_symbols linked) d k x"
    using linked_record [OF assms(1,2)] .
  then have "list_all2 (resolves (lp_symbols linked) (decl_self d)) (reference_nodes (expression_root (lx_expression x))) (lx_references x)"
    by (simp add: links_def)
  with assms(3) obtain m where "resolves (lp_symbols linked) (decl_self d) m r"
    by (auto simp: list_all2_conv_all_nth in_set_conv_nth)
  moreover have "sorted_wrt (<) (map sym_id (lp_symbols linked))"
    using linked_project_ok [OF assms(1)] by (simp add: linked_ok_def)
  ultimately have "lref_symbol r \<in> set (lp_symbols linked)"
    by (auto simp: resolves_def confit_v2_link_find_symbol_def binary_find_lookup find_Some_iff)
  then show ?thesis using linked_symbol_set [OF assms(1)] by simp
qed

section \<open>The graphs\<close>

abbreviation edge_names :: "graph_edge \<Rightarrow> string \<times> string" where
  "edge_names e \<equiv> (edge_owner_id e, sym_id (edge_target e))"

lemma any_role:
  "(\<exists>role. P role) \<longleftrightarrow> P ROLE_COMPUTED \<or> P ROLE_AVAILABLE_IF \<or> P ROLE_VISIBLE_IF \<or> P ROLE_DEFAULT_WHEN
     \<or> P ROLE_SUGGESTION_WHEN \<or> P ROLE_MENU_VISIBLE_IF \<or> P ROLE_CHOICE_AVAILABLE_IF \<or> P ROLE_CHOICE_VISIBLE_IF
     \<or> P ROLE_CHOICE_DEFAULT_WHEN \<or> P ROLE_CONSTRAINT_WHEN \<or> P ROLE_CONSTRAINT_REQUIRE"
proof
  assume "\<exists>role. P role"
  then obtain role where "P role" by blast
  then show "P ROLE_COMPUTED \<or> P ROLE_AVAILABLE_IF \<or> P ROLE_VISIBLE_IF \<or> P ROLE_DEFAULT_WHEN
     \<or> P ROLE_SUGGESTION_WHEN \<or> P ROLE_MENU_VISIBLE_IF \<or> P ROLE_CHOICE_AVAILABLE_IF \<or> P ROLE_CHOICE_VISIBLE_IF
     \<or> P ROLE_CHOICE_DEFAULT_WHEN \<or> P ROLE_CONSTRAINT_WHEN \<or> P ROLE_CONSTRAINT_REQUIRE"
    by (cases role) simp_all
qed blast

lemma compiled_members:
  assumes "confit_v2_schema_link_project p = Inr linked" "loaded_project p" "confit_v2_compile_structure linked = Inr cs"
  shows "map (\<lambda>c. (choice_id (cc_source c), map sym_id (cc_members c))) (cs_choices cs)
    = map (\<lambda>c. (choice_id c, choice_members c)) (sort_key choice_id (project_choices p))"
proof -
  have "list_all2 (choice_compiled p linked) (sort_key choice_id (project_choices p)) (cs_choices cs)"
    using compiled_facts [OF assms] by (simp add: structure_compiled_def)
  then show ?thesis
    by (auto simp: list_all2_conv_all_nth list_eq_iff_nth_eq choice_compiled_def members_found_def)
qed

lemma member_names:
  assumes "confit_v2_schema_link_project p = Inr linked" "loaded_project p" "confit_v2_compile_structure linked = Inr cs"
  shows "edge_names ` set (concat (map member_edges (cs_choices cs)))
    = (\<Union>c\<in>set (project_choices p). {choice_id c} \<times> set (choice_members c))"
proof -
  have "edge_names ` set (member_edges c) = {choice_id (cc_source c)} \<times> set (map sym_id (cc_members c))" for c
    by (simp add: member_edges_def image_image set_eq_iff image_iff)
  then have "edge_names ` set (concat (map member_edges (cs_choices cs)))
      = (\<Union>c\<in>set (cs_choices cs). {choice_id (cc_source c)} \<times> set (map sym_id (cc_members c)))"
    by (simp only: set_concat set_map image_UN UN_simps)
  also have "\<dots> = (\<Union>(n, ms)\<in>set (map (\<lambda>c. (choice_id (cc_source c), map sym_id (cc_members c))) (cs_choices cs)). {n} \<times> set ms)"
    by simp
  finally show ?thesis unfolding compiled_members [OF assms] by auto
qed

lemma role_names:
  "(\<exists>t. (a, t) \<in> (\<lambda>s. (f s, g s)) ` S \<and> n \<in> condition_names t) \<longleftrightarrow> (\<exists>s\<in>S. a = f s \<and> n \<in> condition_names (g s))"
  "(\<exists>t. (a, t) \<in> (\<Union>s\<in>S. (\<lambda>d. (f s, h d)) ` D s) \<and> n \<in> condition_names t)
    \<longleftrightarrow> (\<exists>s\<in>S. a = f s \<and> (\<exists>d\<in>D s. n \<in> condition_names (h d)))"
  by auto

lemma graph_names:
  assumes "confit_v2_schema_link_project p = Inr linked" "loaded_project p" "confit_v2_compile_structure linked = Inr cs"
  shows "edge_names ` set (graph_edges (confit_v2_compiled_structure_graph cs kind)) = graph_dependencies p kind"
proof -
  let ?xs = "filter (\<lambda>x. confit_v2_expression_graph_kind (lx_role x) = kind) (lp_expressions linked)"
  have "edge_names ` set (edges_of x) = {lx_owner_id x} \<times> expression_names x" for x
    by (auto simp: edges_of_def expression_names_def image_image)
  then have expressions: "edge_names ` set (concat (map edges_of ?xs)) = (\<Union>x\<in>set ?xs. {lx_owner_id x} \<times> expression_names x)"
    by (simp add: image_UN)
  have "(a, n) \<in> (\<Union>x\<in>set ?xs. {lx_owner_id x} \<times> expression_names x)
      \<longleftrightarrow> (\<exists>role. confit_v2_expression_graph_kind role = kind \<and> (\<exists>t. (a, t) \<in> role_texts p role \<and> n \<in> condition_names t))" for a n
    by (auto simp flip: linked_role_names [OF assms(1)])
  then have texts: "(a, n) \<in> edge_names ` set (concat (map edges_of ?xs))
      \<longleftrightarrow> (\<exists>role. confit_v2_expression_graph_kind role = kind \<and> (\<exists>t. (a, t) \<in> role_texts p role \<and> n \<in> condition_names t))" for a n
    unfolding expressions .
  have edges: "set (graph_edges (confit_v2_compiled_structure_graph cs kind)) = set (concat (map edges_of ?xs))
      \<union> (if kind = GRAPH_CHOICE then set (concat (map member_edges (cs_choices cs))) else {})"
    unfolding graph_edges_filter [OF assms] by auto
  have members: "(a, n) \<in> edge_names ` set (concat (map member_edges (cs_choices cs)))
      \<longleftrightarrow> (\<exists>c\<in>set (project_choices p). a = choice_id c \<and> n \<in> set (choice_members c))" for a n
    unfolding member_names [OF assms] by auto
  have "(a, n) \<in> edge_names ` set (graph_edges (confit_v2_compiled_structure_graph cs kind))
      \<longleftrightarrow> (\<exists>role. confit_v2_expression_graph_kind role = kind \<and> (\<exists>t. (a, t) \<in> role_texts p role \<and> n \<in> condition_names t))
        \<or> kind = GRAPH_CHOICE \<and> (\<exists>c\<in>set (project_choices p). a = choice_id c \<and> n \<in> set (choice_members c))" for a n
    unfolding edges image_Un Un_iff texts using members [of a n] by auto
  moreover have "((\<exists>role. confit_v2_expression_graph_kind role = kind \<and> (\<exists>t. (a, t) \<in> role_texts p role \<and> n \<in> condition_names t))
        \<or> kind = GRAPH_CHOICE \<and> (\<exists>c\<in>set (project_choices p). a = choice_id c \<and> n \<in> set (choice_members c)))
      \<longleftrightarrow> (a, n) \<in> graph_dependencies p kind" for a n
    unfolding any_role role_texts.simps role_names confit_v2_expression_graph_kind.simps
    by (cases kind)
      (auto simp: names_in_def option_value_texts_def choice_default_texts_def constraint_texts_def)
  ultimately show ?thesis by auto
qed

lemma graph_targets:
  assumes "confit_v2_schema_link_project p = Inr linked" "loaded_project p" "confit_v2_compile_structure linked = Inr cs"
  shows "edge_target ` set (graph_edges (confit_v2_compiled_structure_graph cs kind)) \<subseteq> set (project_symbols p)"
proof -
  have "list_all2 (choice_compiled p linked) (sort_key choice_id (project_choices p)) (cs_choices cs)"
    using compiled_facts [OF assms] by (simp add: structure_compiled_def)
  then have "set (cc_members c) \<subseteq> set (project_symbols p)" if "c \<in> set (cs_choices cs)" for c
    using that by (auto simp: list_all2_conv_all_nth in_set_conv_nth [of _ "cs_choices cs"] choice_compiled_def members_found_def)
  then have "edge_target ` set (member_edges c) \<subseteq> set (project_symbols p)" if "c \<in> set (cs_choices cs)" for c
    using that by (force simp: member_edges_def)
  moreover have "edge_target ` set (edges_of x) \<subseteq> set (project_symbols p)" if "x \<in> set (lp_expressions linked)" for x
    using reference_declared [OF assms(1) that] by (auto simp: edges_of_def)
  ultimately show ?thesis unfolding graph_edges_filter [OF assms] by (auto simp: image_subset_iff)
qed

text \<open>C24. The four graphs hold exactly the dependencies that the fields of the project declare, each in
  the graph of its kind: a reference in a computed value, an availability, a default or a suggestion in
  the graph of evaluation, one in a visibility in that of visibility, one in the default of a choice, and
  each member of a choice, in that of choices, one in a constraint in that of constraints. Every edge
  leads to a symbol of the project.\<close>

theorem dependency_graphs_exact:
  assumes "confit_v2_schema_link_project p = Inr linked" "loaded_project p"
    and "confit_v2_compile_structure linked = Inr cs"
  shows "(\<lambda>e. (edge_owner_id e, sym_id (edge_target e))) ` set (graph_edges (confit_v2_compiled_structure_graph cs kind))
      = graph_dependencies p kind
    \<and> edge_target ` set (graph_edges (confit_v2_compiled_structure_graph cs kind)) \<subseteq> set (project_symbols p)"
  using graph_names [OF assms] graph_targets [OF assms] by simp

definition sample_names :: "expression_text \<Rightarrow> string list" where
  "sample_names t = (case confit_v2_expression_parse t None of
     Inr x \<Rightarrow> map reference_id (reference_nodes (expression_root x)) | Inl e \<Rightarrow> [])"

lemma sample_condition_names: "expr_text t \<noteq> None \<Longrightarrow> condition_names t = set (sample_names t)"
  by (auto simp: condition_names_def sample_names_def reference_ids_def split: sum.split)

lemma dependency_graphs_exact_witness:
  "(\<lambda>e. (edge_owner_id e, sym_id (edge_target e))) ` set (graph_edges (confit_v2_compiled_structure_graph sample_compiled GRAPH_CONSTRAINT))
      = {(''limit'', ''a.c''), (''limit'', ''a.b'')}
   \<and> graph_edges (confit_v2_compiled_structure_graph sample_compiled GRAPH_VISIBILITY) = []"
proof -
  have names: "sample_names (sample_source (Some ''a.c'')) = [''a.c'']" "sample_names (sample_source (Some ''a.b < 3'')) = [''a.b'']"
    by code_simp+
  have written: "expr_text (sample_source (Some s)) \<noteq> None" "condition_names (sample_source None) = {}" for s
    by (simp_all add: sample_source_def condition_names_def)
  have "graph_dependencies sample_structured GRAPH_CONSTRAINT = {(''limit'', ''a.c''), (''limit'', ''a.b'')}"
    by (simp add: sample_structured_def sample_constraint_def names_in_def constraint_texts_def sample_condition_names written names)
      auto
  moreover have "graph_dependencies sample_structured GRAPH_VISIBILITY = {}"
    by (simp add: sample_structured_def sample_project_def sample_symbol_def sample_menu_def sample_choice_def written)
  ultimately show ?thesis
    using dependency_graphs_exact [OF structured_linked structured_loaded sample_compiled, of GRAPH_CONSTRAINT]
      dependency_graphs_exact [OF structured_linked structured_loaded sample_compiled, of GRAPH_VISIBILITY] by simp
qed

end
