(* ===== verification/Invalidation_Correct.thy ===== *)
theory Invalidation_Correct
  imports Reverse_Index Constraints_Correct Dependencies
begin

text \<open>
  A published snapshot: what it copies from the evaluation and the report, the nodes and dependencies of
  its reverse index, and the set that an edit of an option invalidates, against the dependencies that the
  project declares. The index goes by the id of an owner, so it misses a choice that has the id of an option.
\<close>

section \<open>What a snapshot holds\<close>

lemma ledger_compiled: "confit_v2_assignment_ledger_build services compiled options = Inr ledger \<Longrightarrow> al_compiled ledger = compiled"
  by (auto simp: confit_v2_assignment_ledger_build_def bind_simps Let_def)

definition snapshot_of :: "compiled_structure \<Rightarrow> evaluation \<Rightarrow> constraint_report \<Rightarrow> snapshot \<Rightarrow> bool" where
  "snapshot_of compiled result report s \<longleftrightarrow>
     sn_options s = map confit_v2_snapshot_copy_option (evl_values result)
     \<and> sn_choices s = map copy_choice (evl_choices result)
     \<and> sn_constraints s = map copy_constraint (rep_results report)
     \<and> sn_reverse_nodes s = confit_v2_snapshot_build_reverse_index (sn_options s) (sn_choices s) (sn_constraints s) compiled"

lemma freeze_holds:
  "confit_v2_snapshot_freeze ledger result report = Inr s
    \<Longrightarrow> snapshot_of (al_compiled ledger) result report s \<and> rep_failure_count report = 0"
  by (auto simp: confit_v2_snapshot_freeze_def Let_def snapshot_of_def confit_v2_snapshot_copy_choices_def
      confit_v2_snapshot_copy_constraints_def confit_v2_ledger_diagnostic_def split: if_splits option.splits)

lemma resolve_holds:
  assumes "confit_v2_snapshot_resolve services compiled options = Inr s"
  obtains ledger result report where
    "confit_v2_assignment_ledger_build services compiled options = Inr ledger" "al_compiled ledger = compiled"
    "confit_v2_evaluation_build ledger = Inr result"
    "confit_v2_evaluation_validate_constraints result = Inr (report, None)"
    "snapshot_of compiled result report s" "rep_failure_count report = 0"
proof -
  from assms obtain ledger result report where run:
    "confit_v2_assignment_ledger_build services compiled options = Inr ledger"
    "confit_v2_evaluation_build ledger = Inr result"
    "confit_v2_evaluation_validate_constraints result = Inr (report, None)"
    "confit_v2_snapshot_freeze ledger result report = Inr s"
    by (auto simp: confit_v2_snapshot_resolve_def bind_simps split: option.splits)
  with ledger_compiled [OF run(1)] freeze_holds [OF run(4)] show thesis by (intro that [of ledger result report]) simp_all
qed

section \<open>Its nodes and dependencies\<close>

definition project_nodes :: "v2_project \<Rightarrow> invalidation_node set" where
  "project_nodes p = (\<lambda>s. option_node (sym_id s)) ` set (project_symbols p)
     \<union> (\<lambda>c. choice_node (choice_id c)) ` set (project_choices p)
     \<union> (\<lambda>k. constraint_node (constraint_id k)) ` set (project_constraints p)"

text \<open>The node to which the index gives an expression: outside the constraints the code goes by the id of
  the owner alone, and takes the option when there is one of this id. It thus gives the expressions of a
  menu to the option or choice of its id, and those of a choice with the id of an option to the option.\<close>

definition holder :: "v2_project \<Rightarrow> string \<Rightarrow> invalidation_node" where
  "holder p name = (if name \<in> sym_id ` set (project_symbols p) then option_node name else choice_node name)"

definition expression_holder :: "v2_project \<Rightarrow> linked_expression \<Rightarrow> invalidation_node" where
  "expression_holder p x =
     (if lx_role x \<in> {ROLE_CONSTRAINT_WHEN, ROLE_CONSTRAINT_REQUIRE} then constraint_node (lx_owner_id x)
      else holder p (lx_owner_id x))"

text \<open>The dependencies that the index records. What a project declares is stated separately below.\<close>

definition affects :: "linked_project \<Rightarrow> compiled_structure \<Rightarrow> (invalidation_node \<times> invalidation_node) set" where
  "affects linked compiled =
     {(option_node (sym_id (lref_symbol r)), expression_holder (lp_project linked) x) |x r.
        x \<in> set (lp_expressions linked) \<and> r \<in> set (lx_references x)}
     \<union> {(option_node (sym_id m), holder (lp_project linked) (choice_id (cc_source c))) |c m.
        c \<in> set (cs_choices compiled) \<and> m \<in> set (cc_members c)}"

definition affected_by :: "linked_project \<Rightarrow> compiled_structure \<Rightarrow> string \<Rightarrow> invalidation_node set" where
  "affected_by linked compiled c =
     (affects linked compiled \<inter> project_nodes (lp_project linked) \<times> project_nodes (lp_project linked))\<^sup>* `` {option_node c}"

lemma option_known: "option_node name \<in> project_nodes p \<longleftrightarrow> name \<in> sym_id ` set (project_symbols p)"
  by (auto simp: project_nodes_def)

lemma graph_pairs:
  assumes link: "confit_v2_schema_link_project p = Inr linked" and loaded: "loaded_project p"
    and compile: "confit_v2_compile_structure linked = Inr compiled"
  shows "(\<Union>kind\<in>set kKinds. edge_pair (project_nodes p) kind ` set (graph_edges (confit_v2_compiled_structure_graph compiled kind)))
    = affects linked compiled"
proof -
  have p: "lp_project linked = p" using link by (rule link_project_cases) simp
  have "cs_graphs compiled = confit_v2_structure_build_graphs linked (cs_choices compiled)"
    using compiled_facts [OF assms] by (simp add: structure_compiled_def)
  then have edges: "set (graph_edges (confit_v2_compiled_structure_graph compiled kind))
      = (\<Union>x\<in>{x\<in>set (lp_expressions linked). confit_v2_expression_graph_kind (lx_role x) = kind}. set (edges_of x))
        \<union> (if kind = GRAPH_CHOICE then \<Union>c\<in>set (cs_choices compiled). set (member_edges c) else {})" for kind
    using build_graphs_edges [of linked "cs_choices compiled" kind]
    by (auto simp: edges_in_def confit_v2_compiled_structure_graph_def)
  have holder: "owner_node (project_nodes p) kind name = holder p name" if "kind \<noteq> GRAPH_CONSTRAINT" for kind name
    using that by (simp add: owner_node_def holder_def option_known)
  have "owner_node (project_nodes p) (confit_v2_expression_graph_kind (lx_role x)) (lx_owner_id x) = expression_holder p x" for x
    by (cases "lx_role x") (simp_all add: expression_holder_def owner_node_def holder_def option_known)
  then have pair: "edge_pair (project_nodes p) (confit_v2_expression_graph_kind (lx_role x)) ` set (edges_of x)
      = (\<lambda>r. (option_node (sym_id (lref_symbol r)), expression_holder p x)) ` set (lx_references x)" for x
    by (simp add: edges_of_def edge_pair_def image_image)
  have members: "edge_pair (project_nodes p) GRAPH_CHOICE ` set (member_edges c)
      = (\<lambda>m. (option_node (sym_id m), holder p (choice_id (cc_source c)))) ` set (cc_members c)" for c
    by (simp add: member_edges_def edge_pair_def holder image_image)
  have kinds: "set kKinds = UNIV"
  proof -
    have "kind \<in> set kKinds" for kind by (cases kind) (simp_all add: kKinds_def)
    then show ?thesis by blast
  qed
  have split: "(\<Union>kind\<in>UNIV. f kind ` ((\<Union>x\<in>{x\<in>X. g x = kind}. h x) \<union> (if kind = k then B else {})))
      = (\<Union>x\<in>X. f (g x) ` h x) \<union> f k ` B" for f :: "graph_kind \<Rightarrow> 'b \<Rightarrow> 'c" and X :: "'a set" and g h k B
    by (auto split: if_splits)
  have "(\<Union>kind\<in>set kKinds. edge_pair (project_nodes p) kind ` set (graph_edges (confit_v2_compiled_structure_graph compiled kind)))
    = (\<Union>x\<in>set (lp_expressions linked). edge_pair (project_nodes p) (confit_v2_expression_graph_kind (lx_role x)) ` set (edges_of x))
      \<union> (\<Union>c\<in>set (cs_choices compiled). edge_pair (project_nodes p) GRAPH_CHOICE ` set (member_edges c))"
    unfolding edges kinds split by (simp only: image_UN)
  also have "\<dots> = affects linked compiled" unfolding pair members affects_def p by blast
  finally show ?thesis .
qed

lemma distinct_node_lists:
  assumes "distinct xs" "distinct ys" "distinct zs"
  shows "distinct (map option_node xs @ map choice_node ys @ map constraint_node zs)"
  using assms by (auto simp: distinct_map inj_on_def)

lemma fold_append_nodes:
  "fold (\<lambda>v. confit_v2_snapshot_reverse_append kind (f v)) xs nodes
    = nodes @ map (\<lambda>v. \<lparr>rn_node = \<lparr>in_kind = kind, in_id = f v\<rparr>, rn_dependents = []\<rparr>) xs"
  by (induction xs arbitrary: nodes) (simp_all add: confit_v2_snapshot_reverse_append_def)

lemma built_index:
  assumes "distinct (map so_id options)" "distinct (map sc_id choices)" "distinct (map sk_id constraints)"
  defines "known \<equiv> set (map option_node (map so_id options) @ map choice_node (map sc_id choices)
      @ map constraint_node (map sk_id constraints))"
  shows "\<exists>ns. set ns = known
    \<and> index_for ns (confit_v2_snapshot_build_reverse_index options choices constraints compiled)
    \<and> node_relation (confit_v2_snapshot_build_reverse_index options choices constraints compiled)
      = (\<Union>kind\<in>set kKinds. edge_pair known kind ` set (graph_edges (confit_v2_compiled_structure_graph compiled kind)))
        \<inter> known \<times> known"
proof -
  let ?start = "map (\<lambda>v. \<lparr>rn_node = option_node (so_id v), rn_dependents = []\<rparr>) options
    @ map (\<lambda>v. \<lparr>rn_node = choice_node (sc_id v), rn_dependents = []\<rparr>) choices
    @ map (\<lambda>v. \<lparr>rn_node = constraint_node (sk_id v), rn_dependents = []\<rparr>) constraints"
  let ?nodes = "qsort_by confit_v2_reverse_node_compare ?start" and ?key = "\<lambda>n. node_key (rn_node n)"
  let ?ns = "map rn_node ?nodes"
  have names: "map rn_node ?start = map option_node (map so_id options) @ map choice_node (map sc_id choices)
      @ map constraint_node (map sk_id constraints)" by simp
  have "distinct (map rn_node ?start)" unfolding names by (rule distinct_node_lists [OF assms(1-3)])
  then have "distinct (map ?key ?nodes)" by (subst distinct_qsort_by) (auto simp: distinct_map inj_on_def)
  then have ordered: "sorted_wrt (<) (map node_key ?ns)"
    using sorted_qsort_by [OF compares_reverse_nodes, of ?start] by (simp add: strict_sorted_iff o_def)
  have set: "set ?ns = known" unfolding known_def names [symmetric] by (simp only: set_map set_qsort_by)
  have bare: "rn_dependents n = []" if "n \<in> set ?nodes" for n using that by auto
  then have "indices_ok ?nodes" by (simp add: indices_ok_def)
  with ordered have index: "index_for ?ns ?nodes" by (simp add: index_for_def)
  have "rn_dependents (?nodes ! i) = []" if "i < length ?nodes" for i using bare [OF nth_mem [OF that]] .
  then have "node_relation ?nodes = {}" by (simp add: node_relation_def dependency_def)
  with edges_of_kinds [OF index, of "\<lambda>kind. graph_edges (confit_v2_compiled_structure_graph compiled kind)" kKinds] set
  show ?thesis
    by (intro exI [of _ ?ns])
      (simp add: confit_v2_snapshot_build_reverse_index_def fold_append_nodes kKinds_def)
qed

section \<open>The index of a published snapshot\<close>

lemma list_all2_map_eq: "list_all2 R xs ys \<Longrightarrow> (\<And>x y. R x y \<Longrightarrow> f x = g y) \<Longrightarrow> map f xs = map g ys"
  by (induction rule: list_all2_induct) auto

lemma snapshot_option_ids:
  assumes "solves linked ledger (evl_values result)" "snapshot_of compiled result report s"
  shows "map so_id (sn_options s) = map sym_id (lp_symbols linked)"
proof -
  have "map sym_id (map ef_symbol (evl_values result)) = map sym_id (lp_symbols linked)"
    using assms(1) by (simp only: solves_def)
  with assms(2) show ?thesis by (simp add: snapshot_of_def confit_v2_snapshot_copy_option_def o_def)
qed

lemma snapshot_choice_ids:
  assumes link: "confit_v2_schema_link_project p = Inr linked" and loaded: "loaded_project p"
    and compile: "confit_v2_compile_structure linked = Inr (al_compiled ledger)"
    and build: "confit_v2_evaluation_build ledger = Inr result" and s: "snapshot_of compiled result report s"
  shows "map sc_id (sn_choices s) = map choice_id (sort_key choice_id (project_choices p))"
proof -
  have "list_all2 (choice_compiled p linked) (sort_key choice_id (project_choices p)) (cs_choices (al_compiled ledger))"
    using compiled_facts [OF link loaded compile] by (simp add: structure_compiled_def)
  then have "map choice_id (sort_key choice_id (project_choices p)) = map (\<lambda>c. choice_id (cc_source c)) (cs_choices (al_compiled ledger))"
    by (rule list_all2_map_eq) (simp add: choice_compiled_def)
  also have "\<dots> = map (\<lambda>r. choice_id (cc_source (cr_choice r))) (evl_choices result)"
    using conjunct2 [OF settled_result [OF link loaded compile build]]
    by (rule list_all2_map_eq) (simp add: choice_settled_def)
  finally show ?thesis using s by (simp add: snapshot_of_def copy_choice_def o_def)
qed

lemma snapshot_constraint_ids:
  assumes link: "confit_v2_schema_link_project p = Inr linked" and loaded: "loaded_project p"
    and compile: "confit_v2_compile_structure linked = Inr compiled"
    and report: "report_exact linked compiled vs report" and s: "snapshot_of compiled result report s"
  shows "mset (map sk_id (sn_constraints s)) = mset (map constraint_id (project_constraints p))"
proof -
  obtain js where js: "cs_constraints compiled = sort_key (\<lambda>k. constraint_id (cn_source k)) js"
    "list_all2 (constraint_compiled linked) (project_constraints p) js"
    using compiled_facts [OF link loaded compile] by (auto simp: structure_compiled_def)
  obtain rs where rs: "list_all2 (result_exact vs) (cs_constraints compiled) rs" "rep_results report = sort_key result_key rs"
    using report by (auto simp: report_exact_def)
  have "map constraint_id (project_constraints p) = map (\<lambda>k. constraint_id (cn_source k)) js"
    using js(2) by (rule list_all2_map_eq) (simp add: constraint_compiled_def)
  moreover have "map (\<lambda>k. constraint_id (cn_source k)) (cs_constraints compiled)
      = map (\<lambda>r. constraint_id (cn_source (res_constraint r))) rs"
    using rs(1) by (rule list_all2_map_eq) (simp add: result_exact_def)
  moreover have "mset (map (\<lambda>r. constraint_id (cn_source (res_constraint r))) (rep_results report))
      = mset (map (\<lambda>r. constraint_id (cn_source (res_constraint r))) rs)" by (simp add: rs(2))
  moreover have "mset (map (\<lambda>k. constraint_id (cn_source k)) (cs_constraints compiled))
      = mset (map (\<lambda>k. constraint_id (cn_source k)) js)" by (simp add: js(1))
  moreover have "map sk_id (sn_constraints s) = map (\<lambda>r. constraint_id (cn_source (res_constraint r))) (rep_results report)"
    using s by (simp add: snapshot_of_def copy_constraint_def Let_def)
  ultimately show ?thesis by metis
qed

lemma resolved_index:
  assumes link: "confit_v2_schema_link_project p = Inr linked" and texts: "texts_ok p" and loaded: "loaded_project p"
    and ok: "evaluable p" and compile: "confit_v2_compile_structure linked = Inr compiled"
    and resolve: "confit_v2_snapshot_resolve services compiled options = Inr s"
  shows "\<exists>ns. set ns = project_nodes p \<and> index_for ns (sn_reverse_nodes s)
    \<and> node_relation (sn_reverse_nodes s) = affects linked compiled \<inter> project_nodes p \<times> project_nodes p"
proof (rule resolve_holds [OF resolve])
  fix ledger result report
  assume run: "al_compiled ledger = compiled" "confit_v2_evaluation_build ledger = Inr result"
    "confit_v2_evaluation_validate_constraints result = Inr (report, None)" and s: "snapshot_of compiled result report s"
  have compile': "confit_v2_compile_structure linked = Inr (al_compiled ledger)" using compile run(1) by simp
  have symbols: "lp_symbols linked = sort_key sym_id (project_symbols p)" using link by (rule link_project_cases) simp
  have "solves linked ledger (evl_values result)"
    using evaluation_result(1) [OF link compiled_source [OF compile'] run(2)] .
  note options = snapshot_option_ids [OF this s]
  note choices = snapshot_choice_ids [OF link loaded compile' run(2) s]
  have "report_exact linked compiled (evl_values result) report"
    using constraint_report_outcome [OF link texts ok compile' run(2)] run(1,3) by simp
  note constraints = snapshot_constraint_ids [OF link loaded compile this s]
  have distinct: "distinct (map so_id (sn_options s))" "distinct (map sc_id (sn_choices s))" "distinct (map sk_id (sn_constraints s))"
    using loaded linked_project_ok [OF link] strict_sorted_iff mset_eq_imp_distinct_iff [OF constraints]
    by (auto simp: options choices linked_ok_def loaded_project_def)
  have nodes: "set (map option_node (map so_id (sn_options s)) @ map choice_node (map sc_id (sn_choices s))
      @ map constraint_node (map sk_id (sn_constraints s))) = project_nodes p"
    using arg_cong [OF mset_eq_setD [OF constraints], of "image constraint_node"]
    unfolding options choices symbols project_nodes_def set_append set_map set_sort image_image by (simp add: Un_assoc)
  have index: "sn_reverse_nodes s
      = confit_v2_snapshot_build_reverse_index (sn_options s) (sn_choices s) (sn_constraints s) compiled"
    using s by (simp only: snapshot_of_def)
  show ?thesis
    using built_index [OF distinct, of compiled] unfolding nodes graph_pairs [OF link loaded compile] index .
qed

section \<open>The dependencies a project declares\<close>

text \<open>An option, choice or constraint depends on the options that its own expressions name, and a choice
  on its members. Menus have no node. This looks at the fields of the project only.\<close>

definition declared_dependencies :: "v2_project \<Rightarrow> (invalidation_node \<times> invalidation_node) set" where
  "declared_dependencies p =
     {(option_node n, option_node (sym_id s)) |n s. s \<in> set (project_symbols p)
        \<and> n \<in> names_in (option_value_texts s) \<union> condition_names (sym_visible_if s)}
     \<union> {(option_node n, choice_node (choice_id d)) |n d. d \<in> set (project_choices p)
        \<and> n \<in> condition_names (choice_available_if d) \<union> condition_names (choice_visible_if d)
              \<union> names_in (choice_default_texts d) \<union> set (choice_members d)}
     \<union> {(option_node n, constraint_node (constraint_id k)) |n k. k \<in> set (project_constraints p)
        \<and> n \<in> names_in (constraint_texts k)}"

definition dependents :: "v2_project \<Rightarrow> string \<Rightarrow> invalidation_node set" where
  "dependents p c = (declared_dependencies p)\<^sup>* `` {option_node c}"

text \<open>The loader keeps the ids of options, of choices and of menus apart from one another in separate
  indexes, so one id may name an option and a choice.\<close>

definition shared_choices :: "v2_project \<Rightarrow> invalidation_node set" where
  "shared_choices p = choice_node ` (choice_id ` set (project_choices p) \<inter> sym_id ` set (project_symbols p))"

definition separate_ids :: "v2_project \<Rightarrow> bool" where
  "separate_ids p \<longleftrightarrow> choice_id ` set (project_choices p) \<inter> sym_id ` set (project_symbols p) = {}
     \<and> menu_id ` set (project_menus p) \<inter> (sym_id ` set (project_symbols p) \<union> choice_id ` set (project_choices p)) = {}"

lemma affects_graphs:
  assumes link: "confit_v2_schema_link_project p = Inr linked" and loaded: "loaded_project p"
    and compile: "confit_v2_compile_structure linked = Inr compiled"
  shows "(n, m) \<in> affects linked compiled
    \<longleftrightarrow> (\<exists>kind name owner_id. n = option_node name \<and> m = owner_node (project_nodes p) kind owner_id
          \<and> (owner_id, name) \<in> graph_dependencies p kind)"
proof -
  have kinds: "kind \<in> set kKinds" for kind by (cases kind) (simp_all add: kKinds_def)
  have "edge_pair (project_nodes p) kind ` set (graph_edges (confit_v2_compiled_structure_graph compiled kind))
      = (\<lambda>(owner_id, name). (option_node name, owner_node (project_nodes p) kind owner_id)) ` graph_dependencies p kind" for kind
    unfolding graph_names [OF assms, symmetric] image_image by (simp add: edge_pair_def)
  then have "affects linked compiled
      = (\<Union>kind\<in>set kKinds. (\<lambda>(owner_id, name). (option_node name, owner_node (project_nodes p) kind owner_id)) ` graph_dependencies p kind)"
    using graph_pairs [OF assms] by simp
  then show ?thesis using kinds by fastforce
qed

lemma dependency_names_declared:
  assumes "confit_v2_schema_link_project p = Inr linked" "loaded_project p" "confit_v2_compile_structure linked = Inr compiled"
    and "(owner_id, name) \<in> graph_dependencies p kind"
  shows "option_node name \<in> project_nodes p"
  using assms(4) graph_targets [OF assms(1-3), of kind] unfolding graph_names [OF assms(1-3), symmetric]
  by (auto simp: option_known)

lemma owner_nodes:
  "s \<in> set (project_symbols p) \<Longrightarrow> kind \<noteq> GRAPH_CONSTRAINT \<Longrightarrow> owner_node (project_nodes p) kind (sym_id s) = option_node (sym_id s)"
  "choice_id d \<notin> sym_id ` set (project_symbols p) \<Longrightarrow> kind \<noteq> GRAPH_CONSTRAINT
     \<Longrightarrow> owner_node (project_nodes p) kind (choice_id d) = choice_node (choice_id d)"
  "owner_node known GRAPH_CONSTRAINT name = constraint_node name"
  by (auto simp: owner_node_def option_known)

lemma declared_cases:
  assumes "(n, m) \<in> declared_dependencies p"
  obtains (option) name s kind where "n = option_node name" "m = option_node (sym_id s)" "s \<in> set (project_symbols p)"
      "(sym_id s, name) \<in> graph_dependencies p kind" "kind \<noteq> GRAPH_CONSTRAINT"
  | (choice) name d kind where "n = option_node name" "m = choice_node (choice_id d)" "d \<in> set (project_choices p)"
      "(choice_id d, name) \<in> graph_dependencies p kind" "kind \<noteq> GRAPH_CONSTRAINT"
  | (constraint) name k where "n = option_node name" "m = constraint_node (constraint_id k)" "k \<in> set (project_constraints p)"
      "(constraint_id k, name) \<in> graph_dependencies p GRAPH_CONSTRAINT"
proof -
  consider (a) name s where "n = option_node name" "m = option_node (sym_id s)" "s \<in> set (project_symbols p)"
      "name \<in> names_in (option_value_texts s) \<union> condition_names (sym_visible_if s)"
    | (b) name d where "n = option_node name" "m = choice_node (choice_id d)" "d \<in> set (project_choices p)"
      "name \<in> condition_names (choice_available_if d) \<union> condition_names (choice_visible_if d)
        \<union> names_in (choice_default_texts d) \<union> set (choice_members d)"
    | (c) name k where "n = option_node name" "m = constraint_node (constraint_id k)" "k \<in> set (project_constraints p)"
      "name \<in> names_in (constraint_texts k)"
    using assms unfolding declared_dependencies_def by blast
  then show thesis
  proof cases
    case a
    then have "(sym_id s, name) \<in> graph_dependencies p GRAPH_EVALUATION \<or> (sym_id s, name) \<in> graph_dependencies p GRAPH_VISIBILITY"
      by auto
    with a(1-3) option show thesis by blast
  next
    case b
    then have "(choice_id d, name) \<in> graph_dependencies p GRAPH_EVALUATION \<or> (choice_id d, name) \<in> graph_dependencies p GRAPH_VISIBILITY
        \<or> (choice_id d, name) \<in> graph_dependencies p GRAPH_CHOICE" by auto
    with b(1-3) choice show thesis by blast
  next
    case c
    then have "(constraint_id k, name) \<in> graph_dependencies p GRAPH_CONSTRAINT" by auto
    with c(1-3) constraint show thesis by blast
  qed
qed

lemma declared_recorded:
  assumes run: "confit_v2_schema_link_project p = Inr linked" "loaded_project p" "confit_v2_compile_structure linked = Inr compiled"
    and d: "(n, m) \<in> declared_dependencies p" "m \<notin> shared_choices p"
  shows "(n, m) \<in> affects linked compiled \<inter> project_nodes p \<times> project_nodes p"
  using d(1)
proof (cases rule: declared_cases)
  case (option name s kind)
  from owner_nodes(1) [OF option(3,5)] option(1,2,4) have "(n, m) \<in> affects linked compiled"
    unfolding affects_graphs [OF run] by metis
  moreover have "m \<in> project_nodes p" using option(2,3) by (simp add: option_known)
  ultimately show ?thesis using dependency_names_declared [OF run option(4)] option(1) by simp
next
  case (choice name e kind)
  then have "choice_id e \<notin> sym_id ` set (project_symbols p)" using d(2) by (auto simp: shared_choices_def)
  from owner_nodes(2) [OF this choice(5)] choice(1,2,4) have "(n, m) \<in> affects linked compiled"
    unfolding affects_graphs [OF run] by metis
  moreover have "m \<in> project_nodes p" using choice(2,3) by (auto simp: project_nodes_def)
  ultimately show ?thesis using dependency_names_declared [OF run choice(4)] choice(1) by simp
next
  case (constraint name k)
  then have "(n, m) \<in> affects linked compiled" unfolding affects_graphs [OF run] using owner_nodes(3) by metis
  moreover have "m \<in> project_nodes p" using constraint(2,3) by (auto simp: project_nodes_def)
  ultimately show ?thesis using dependency_names_declared [OF run constraint(4)] constraint(1) by simp
qed

lemma recorded_declared:
  assumes run: "confit_v2_schema_link_project p = Inr linked" "loaded_project p" "confit_v2_compile_structure linked = Inr compiled"
    and separate: "separate_ids p" and a: "(n, m) \<in> affects linked compiled" "m \<in> project_nodes p"
  shows "(n, m) \<in> declared_dependencies p"
proof -
  from a(1) obtain kind name owner_id where edge: "n = option_node name" "m = owner_node (project_nodes p) kind owner_id"
    "(owner_id, name) \<in> graph_dependencies p kind" unfolding affects_graphs [OF run] by blast
  have choice: "owner_node (project_nodes p) kind' (choice_id d) = choice_node (choice_id d)"
    if "d \<in> set (project_choices p)" "kind' \<noteq> GRAPH_CONSTRAINT" for d kind'
    using that separate by (intro owner_nodes(2)) (auto simp: separate_ids_def)
  have menu: False if "e \<in> set (project_menus p)" "owner_node (project_nodes p) GRAPH_VISIBILITY (menu_id e) \<in> project_nodes p" for e
    using that separate by (auto simp: separate_ids_def owner_node_def project_nodes_def split: if_splits)
  show ?thesis
  proof (cases kind)
    case GRAPH_CONSTRAINT
    with edge show ?thesis by (auto simp: declared_dependencies_def owner_nodes(3))
  next
    case GRAPH_CHOICE
    with edge choice show ?thesis by (auto simp: declared_dependencies_def)
  next
    case GRAPH_EVALUATION
    with edge choice owner_nodes(1) show ?thesis by (auto simp: declared_dependencies_def)
  next
    case GRAPH_VISIBILITY
    with menu a(2) edge(2) have "owner_id \<notin> menu_id ` set (project_menus p)" by blast
    with edge(3) GRAPH_VISIBILITY consider (option) s where "s \<in> set (project_symbols p)" "owner_id = sym_id s" "name \<in> condition_names (sym_visible_if s)"
      | (choice) d where "d \<in> set (project_choices p)" "owner_id = choice_id d" "name \<in> condition_names (choice_visible_if d)" by auto
    then show ?thesis using edge(1,2) choice owner_nodes(1) GRAPH_VISIBILITY
      by cases (auto simp: declared_dependencies_def)
  qed
qed

text \<open>Only options have dependents, so a path passes through options until its last node.\<close>

lemma declared_from_option: "(n, m) \<in> declared_dependencies p \<Longrightarrow> \<exists>name. n = option_node name"
  by (erule declared_cases) auto

lemma dependents_recorded:
  assumes run: "confit_v2_schema_link_project p = Inr linked" "loaded_project p" "confit_v2_compile_structure linked = Inr compiled"
  shows "dependents p c - shared_choices p \<subseteq> affected_by linked compiled c"
proof -
  have p: "lp_project linked = p" using run(1) by (rule link_project_cases) simp
  let ?R = "affects linked compiled \<inter> project_nodes p \<times> project_nodes p"
  have "(option_node c, m) \<in> ?R\<^sup>*" if "(option_node c, m) \<in> (declared_dependencies p)\<^sup>*" "m \<notin> shared_choices p" for m
    using that
  proof (induction rule: rtrancl_induct)
    case (step n m)
    from declared_from_option [OF step(2)] have "n \<notin> shared_choices p" by (auto simp: shared_choices_def)
    with step declared_recorded [OF run step(2)] show ?case by (meson rtrancl.rtrancl_into_rtrancl)
  qed simp
  then show ?thesis by (auto simp: dependents_def affected_by_def p)
qed

lemma dependents_exact:
  assumes run: "confit_v2_schema_link_project p = Inr linked" "loaded_project p" "confit_v2_compile_structure linked = Inr compiled"
    and "separate_ids p"
  shows "affected_by linked compiled c = dependents p c"
proof -
  have p: "lp_project linked = p" using run(1) by (rule link_project_cases) simp
  have none: "shared_choices p = {}" using assms(4) by (simp add: shared_choices_def separate_ids_def)
  have "affects linked compiled \<inter> project_nodes p \<times> project_nodes p = declared_dependencies p"
  proof (intro set_eqI iffI; clarify)
    fix n m
    show "(n, m) \<in> declared_dependencies p" if "(n, m) \<in> affects linked compiled" "m \<in> project_nodes p"
      using recorded_declared [OF run assms(4) that] .
    show "(n, m) \<in> affects linked compiled \<inter> project_nodes p \<times> project_nodes p" if "(n, m) \<in> declared_dependencies p"
      using declared_recorded [OF run that] none by simp
  qed
  then show ?thesis by (simp add: dependents_def affected_by_def p)
qed

section \<open>The outcome of an edit\<close>

text \<open>A choice with the id of an option is never in the set: its dependencies are given to the option.\<close>

lemma shared_id_never_affected:
  assumes "name \<in> sym_id ` set (project_symbols (lp_project linked))"
  shows "choice_node name \<notin> affected_by linked compiled c"
proof
  have holder: "choice_node name \<noteq> holder (lp_project linked) other" for other using assms by (auto simp: holder_def)
  then have "choice_node name \<noteq> expression_holder (lp_project linked) x" for x by (simp add: expression_holder_def)
  with holder have none: "(n, choice_node name) \<notin> affects linked compiled" for n by (simp add: affects_def)
  assume "choice_node name \<in> affected_by linked compiled c"
  then have "(option_node c, choice_node name) \<in> (affects linked compiled
      \<inter> project_nodes (lp_project linked) \<times> project_nodes (lp_project linked))\<^sup>*" by (simp add: affected_by_def)
  then show False by (rule rtranclE) (use none in auto)
qed

lemma invalidation_outcome:
  assumes "confit_v2_schema_link_project p = Inr linked" "texts_ok p" "loaded_project p" "evaluable p"
    and "confit_v2_compile_structure linked = Inr compiled" "confit_v2_snapshot_resolve services compiled options = Inr s"
  shows "case confit_v2_snapshot_invalidate s c of
      Inr out \<Rightarrow> c \<in> sym_id ` set (project_symbols p) \<and> sorted_wrt (\<lambda>n m. confit_v2_invalidation_node_compare n m < 0) out
        \<and> set out = affected_by linked compiled c
    | Inl e \<Rightarrow> c \<notin> sym_id ` set (project_symbols p)
        \<and> (\<exists>d. e = Diagnosed d \<and> diag_status d = CONFIT_ERR_INVALID_ARGUMENT)"
proof -
  have p: "lp_project linked = p" using assms(1) by (rule link_project_cases) simp
  obtain ns where ns: "set ns = project_nodes p" "index_for ns (sn_reverse_nodes s)"
    "node_relation (sn_reverse_nodes s) = affects linked compiled \<inter> project_nodes p \<times> project_nodes p"
    using resolved_index [OF assms] by blast
  note reaches = invalidate_reaches [OF ns(2), of c, unfolded ns(1,3) option_known]
  show ?thesis
  proof (cases "c \<in> sym_id ` set (project_symbols p)")
    case True
    with reaches show ?thesis
      by (auto simp: affected_by_def p sorted_wrt_map compare_node_less)
  next
    case False
    with reaches show ?thesis
      by (simp add: confit_v2_ledger_diagnostic_def confit_diagnostic_set_def confit_diagnostic_set_detail_def)
  qed
qed

lemma edit_outcome:
  assumes "confit_v2_schema_link_project p = Inr linked" "texts_ok p" "loaded_project p" "evaluable p"
    and "confit_v2_compile_structure linked = Inr compiled" "confit_v2_snapshot_resolve services compiled options = Inr s"
  shows "case confit_v2_snapshot_invalidate s c of
      Inr out \<Rightarrow> c \<in> sym_id ` set (project_symbols p) \<and> sorted_wrt (\<lambda>n m. confit_v2_invalidation_node_compare n m < 0) out
        \<and> dependents p c - shared_choices p \<subseteq> set out \<and> (separate_ids p \<longrightarrow> set out = dependents p c)
    | Inl e \<Rightarrow> c \<notin> sym_id ` set (project_symbols p)
        \<and> (\<exists>d. e = Diagnosed d \<and> diag_status d = CONFIT_ERR_INVALID_ARGUMENT)"
  using invalidation_outcome [OF assms, of c] dependents_recorded [OF assms(1,3,5), of c] dependents_exact [OF assms(1,3,5), of c]
  by (auto split: sum.splits)

text \<open>C13. What an edit of an option invalidates: for an option of the project, in order and once each, the
  options, choices and constraints that depend on it by the declarations of the project, directly or
  through others. No dependent is missing but possibly a choice that has the id of an option, and the
  set is exact when no choice has the id of an option and no menu that of an option or choice. For any
  other id the call fails with the status of an invalid argument. The queue is never written past its end.\<close>

theorem invalidation_exact:
  assumes "confit_v2_schema_link_project p = Inr linked" "texts_ok p" "loaded_project p" "evaluable p"
    and "confit_v2_compile_structure linked = Inr compiled" "confit_v2_snapshot_resolve services compiled options = Inr s"
  shows "case confit_v2_snapshot_invalidate s c of
      Inr out \<Rightarrow> c \<in> sym_id ` set (project_symbols p) \<and> sorted_wrt (\<lambda>n m. confit_v2_invalidation_node_compare n m < 0) out
        \<and> dependents p c - shared_choices p \<subseteq> set out \<and> (separate_ids p \<longrightarrow> set out = dependents p c)
    | Inl e \<Rightarrow> c \<notin> sym_id ` set (project_symbols p)
        \<and> (\<exists>d. e = Diagnosed d \<and> diag_status d = CONFIT_ERR_INVALID_ARGUMENT)"
  by (rule edit_outcome [OF assms])

text \<open>C25. A defect of the index: a choice that has the id of an option depends on its members, but an
  edit of a member never invalidates it.\<close>

theorem shared_id_choice_missed:
  assumes "confit_v2_schema_link_project p = Inr linked" "texts_ok p" "loaded_project p" "evaluable p"
    and "confit_v2_compile_structure linked = Inr compiled" "confit_v2_snapshot_resolve services compiled options = Inr s"
    and "confit_v2_snapshot_invalidate s c = Inr out"
    and "d \<in> set (project_choices p)" "c \<in> set (choice_members d)" "choice_id d \<in> sym_id ` set (project_symbols p)"
  shows "choice_node (choice_id d) \<in> dependents p c \<and> choice_node (choice_id d) \<notin> set out"
proof
  have "(option_node c, choice_node (choice_id d)) \<in> declared_dependencies p"
    using assms(8,9) unfolding declared_dependencies_def by blast
  then show "choice_node (choice_id d) \<in> dependents p c" by (auto simp: dependents_def)
  have "lp_project linked = p" using assms(1) by (rule link_project_cases) simp
  with shared_id_never_affected [of "choice_id d" linked compiled c] invalidation_outcome [OF assms(1-6), of c] assms(7,10)
  show "choice_node (choice_id d) \<notin> set out" by simp
qed

end
