(* ===== verification/Reconcile.thy ===== *)
theory Reconcile
  imports Invalidation_Correct
begin

text \<open>
  Why the set of \<open>confit_v2_snapshot_reconcile_edit\<close> can be trusted: an option, choice or constraint outside
  it has the same state before and after an edit of one option.
\<close>

section \<open>The expressions of choices and constraints\<close>

lemma defaults_loop_owned:
  assumes "confit_v2_schema_link_project p = Inr linked"
  shows "choice_defaults_loop linked c previous ds = Inr xs \<Longrightarrow> x \<in> set xs \<Longrightarrow>
    x \<in> set (lp_expressions linked) \<and> lx_role x = ROLE_CHOICE_DEFAULT_WHEN \<and> lx_owner_id x = choice_id c"
proof (induction ds arbitrary: previous xs)
  case (Cons d ds)
  then show ?case
    by (auto simp: Let_def bind_simps confit_v2_structure_find_expression_def split: if_splits option.splits
        dest: found_expression [OF assms])
qed simp

definition choice_expressions :: "compiled_choice \<Rightarrow> linked_expression set" where
  "choice_expressions c = set_option (cc_available_if c) \<union> set_option (cc_visible_if c) \<union> set (cc_default_when c)"

lemma compile_choices_members:
  assumes "fold_res (\<lambda>choice output. bind_res (f choice) (\<lambda>c. Inr (output @ [c]))) cs start = Inr out" "x \<in> set out" "x \<notin> set start"
  shows "\<exists>c\<in>set cs. f c = Inr x"
  using assms
proof (induction cs arbitrary: start)
  case (Cons c cs)
  from Cons.prems(1) obtain y where y: "f c = Inr y"
    "fold_res (\<lambda>choice output. bind_res (f choice) (\<lambda>c. Inr (output @ [c]))) cs (start @ [y]) = Inr out"
    by (auto simp: bind_simps)
  show ?case
  proof (cases "x = y")
    case False
    with Cons.IH [OF y(2)] Cons.prems show ?thesis by auto
  qed (use y(1) in auto)
qed simp

lemma choice_expression_owned:
  assumes link: "confit_v2_schema_link_project p = Inr linked" and compile: "confit_v2_compile_structure linked = Inr compiled"
    and c: "c \<in> set (cs_choices compiled)" and x: "x \<in> choice_expressions c"
  shows "x \<in> set (lp_expressions linked) \<and> lx_owner_id x = choice_id (cc_source c)
    \<and> lx_role x \<in> {ROLE_CHOICE_AVAILABLE_IF, ROLE_CHOICE_VISIBLE_IF, ROLE_CHOICE_DEFAULT_WHEN}"
proof -
  from compile have "confit_v2_compile_choices linked = Inr (cs_choices compiled)"
    by (auto simp: confit_v2_compile_structure_def bind_simps)
  from compile_choices_members [OF this [unfolded confit_v2_compile_choices_def] c] obtain d where
    "confit_v2_compile_one_choice linked d = Inr c" by auto
  then obtain members whens where parts: "choice_defaults_loop linked d [] (choice_defaults d) = Inr whens"
    "c = \<lparr>cc_source = d, cc_members = members,
          cc_available_if = confit_v2_structure_find_expression linked ROLE_CHOICE_AVAILABLE_IF (choice_id d) 0,
          cc_visible_if = confit_v2_structure_find_expression linked ROLE_CHOICE_VISIBLE_IF (choice_id d) 0,
          cc_default_when = whens\<rparr>"
    by (auto simp: confit_v2_compile_one_choice_def Let_def bind_simps split: if_splits)
  with x show ?thesis
    by (auto simp: choice_expressions_def confit_v2_structure_find_expression_def
        dest: found_expression [OF link] defaults_loop_owned [OF link])
qed

lemma constraints_loop_owned:
  "constraints_loop linked base i cs = Inr ks \<Longrightarrow> k \<in> set ks \<Longrightarrow> x \<in> {cn_when k, cn_require k} \<Longrightarrow>
     x \<in> set (lp_expressions linked) \<and> lx_role x \<in> {ROLE_CONSTRAINT_WHEN, ROLE_CONSTRAINT_REQUIRE}
     \<and> lx_owner_id x = constraint_id (cn_source k)"
proof (induction cs arbitrary: i ks)
  case (Cons c cs)
  then show ?case
    by (auto simp: Let_def bind_simps strcmp_eq confit_v2_linked_project_expression_at_def split: if_splits option.splits)
qed simp

lemma constraint_expression_owned:
  assumes "confit_v2_compile_structure linked = Inr compiled" "k \<in> set (cs_constraints compiled)" "x \<in> {cn_when k, cn_require k}"
  shows "x \<in> set (lp_expressions linked) \<and> lx_role x \<in> {ROLE_CONSTRAINT_WHEN, ROLE_CONSTRAINT_REQUIRE}
     \<and> lx_owner_id x = constraint_id (cn_source k)"
proof -
  from assms(1,2) obtain ks base where "constraints_loop linked base 0 (project_constraints (lp_project linked)) = Inr ks" "k \<in> set ks"
    by (auto simp: confit_v2_compile_structure_def confit_v2_compile_constraints_def bind_simps Let_def set_qsort_by
        split: if_splits)
  from constraints_loop_owned [OF this assms(3)] show ?thesis .
qed

section \<open>The value of an option under the same request\<close>

definition settled_as :: "effective_value \<Rightarrow> bool \<times> v2_value \<times> effective_origin" where
  "settled_as v = (ef_is_set v, ef_value v, ef_origin v)"

definition asked_for :: "effective_value \<Rightarrow> (bool \<times> assignment_origin \<times> v2_value) option" where
  "asked_for v = map_option (\<lambda>e. (le_is_unset e, le_origin e, if le_is_unset e then V_Unset else le_value e)) (ef_requested v)"

lemma settled_binding: "settled_as v = settled_as w \<Longrightarrow> effective_binding v = effective_binding w"
  by (simp add: settled_as_def effective_binding_def)

lemma validate_same:
  "confit_v2_ledger_validate_value s v path line column = Inr x \<Longrightarrow>
   confit_v2_ledger_validate_value s v path' line' column' = Inr y \<Longrightarrow> x = y"
  by (auto simp: confit_v2_ledger_validate_value_def confit_v2_ledger_diagnostic_def Let_def bind_simps
      split: if_splits option.splits)

lemma set_value_same:
  assumes "confit_v2_evaluation_set_value out v origin r path line column = Inr x"
    and "confit_v2_evaluation_set_value out v origin r' path' line' column' = Inr y"
  shows "settled_as x = settled_as y"
  using assms validate_same
  by (fastforce simp: confit_v2_evaluation_set_value_def bind_simps settled_as_def)

lemma input_requested:
  "confit_v2_evaluation_input_symbol linked ledger out env = Inr v \<Longrightarrow>
     ef_requested v = confit_v2_assignment_ledger_requested ledger (sym_id (ef_symbol out))"
  by (auto simp: confit_v2_evaluation_input_symbol_def confit_v2_evaluation_set_value_def Let_def bind_simps
      split: option.splits if_splits)

text \<open>The value without a request that counts.\<close>

definition fallen_back :: "linked_project \<Rightarrow> effective_value \<Rightarrow> environment \<Rightarrow> ledger_entry option \<Rightarrow> input_stop + effective_value" where
  "fallen_back linked out env requested =
     (let symbol = ef_symbol out;
          set_default = (\<lambda>a origin. confit_v2_evaluation_set_value out (assign_value a) origin requested
             (span_path (assign_span a)) (span_line (assign_span a)) (span_column (assign_span a)))
      in bind_res (confit_v2_evaluation_conditional_default linked symbol env) (\<lambda>conditional.
           case conditional of
             Some d \<Rightarrow> set_default (cond_assignment d) EFFECTIVE_VALUE_CONDITIONAL_DEFAULT
           | None \<Rightarrow>
               if assign_is_set (sym_default_value symbol)
               then set_default (sym_default_value symbol) EFFECTIVE_VALUE_DEFAULT
               else if sym_required symbol
               then span_diagnostic (sym_span symbol) CONFIT_ERR_SCHEMA ''required schema v2 option is unset''
               else Inr (out\<lparr>ef_origin := EFFECTIVE_VALUE_UNSET, ef_requested := requested\<rparr>)))"

lemma input_symbol_cases:
  "confit_v2_evaluation_input_symbol linked ledger out env =
     (let requested = confit_v2_assignment_ledger_requested ledger (sym_id (ef_symbol out))
      in case requested of
           Some e \<Rightarrow>
             if le_origin e \<noteq> ORIGIN_SCHEMA_DEFAULT \<and> \<not> le_is_unset e
             then confit_v2_evaluation_set_value out (le_value e) EFFECTIVE_VALUE_REQUESTED requested
                    (le_source_path e) (le_source_line e) (le_source_column e)
             else fallen_back linked out env requested
         | None \<Rightarrow> fallen_back linked out env requested)"
  unfolding confit_v2_evaluation_input_symbol_def fallen_back_def Let_def by (rule refl)

lemma fallen_back_same:
  assumes v: "fallen_back linked out env r = Inr v" and w: "fallen_back linked out env r' = Inr w"
  shows "settled_as v = settled_as w"
proof -
  from v obtain conditional where c: "confit_v2_evaluation_conditional_default linked (ef_symbol out) env = Inr conditional"
    by (auto simp: fallen_back_def Let_def bind_simps)
  show ?thesis
  proof (cases conditional)
    case (Some d)
    with v w c show ?thesis by (auto simp: fallen_back_def Let_def intro: set_value_same)
  next
    case None
    show ?thesis
    proof (cases "assign_is_set (sym_default_value (ef_symbol out))")
      case True
      with v w c None show ?thesis by (auto simp: fallen_back_def Let_def intro: set_value_same)
    next
      case False
      with v w c None show ?thesis by (auto simp: fallen_back_def Let_def settled_as_def split: if_splits)
    qed
  qed
qed

lemma symbol_same:
  assumes "evaluate_symbol linked ledger (initial_value s) env = Inr v" "evaluate_symbol linked ledger' (initial_value s) env = Inr w"
    and "asked_for v = asked_for w"
  shows "settled_as v = settled_as w"
proof (cases "sym_write_domain s = DOMAIN_COMPUTED")
  case True
  with assms(1,2) show ?thesis by (simp add: evaluate_symbol_def initial_value_def)
next
  case False
  then have run: "confit_v2_evaluation_input_symbol linked ledger (initial_value s) env = Inr v"
    "confit_v2_evaluation_input_symbol linked ledger' (initial_value s) env = Inr w"
    using assms(1,2) by (simp_all add: evaluate_symbol_def initial_value_def)
  let ?request = "\<lambda>l. confit_v2_assignment_ledger_requested l (sym_id s)"
  have symbol: "ef_symbol (initial_value s) = s" by (simp add: initial_value_def)
  note same = assms(3) [unfolded asked_for_def input_requested [OF run(1)] input_requested [OF run(2)] symbol]
  show ?thesis
  proof (cases "?request ledger")
    case None
    with same run show ?thesis by (auto simp: input_symbol_cases symbol intro: fallen_back_same)
  next
    case (Some e)
    with same obtain f where f: "?request ledger' = Some f" "le_is_unset f = le_is_unset e" "le_origin f = le_origin e"
      "\<not> le_is_unset e \<longrightarrow> le_value f = le_value e"
      by (cases "?request ledger'") (auto split: if_splits)
    show ?thesis
    proof (cases "le_origin e = ORIGIN_SCHEMA_DEFAULT \<or> le_is_unset e")
      case True
      with Some f run show ?thesis by (auto simp: input_symbol_cases symbol intro: fallen_back_same)
    next
      case False
      with run Some f show ?thesis by (auto simp: input_symbol_cases symbol intro: set_value_same)
    qed
  qed
qed

section \<open>What is not affected stays\<close>

text \<open>Two evaluations of one project, and a set of nodes that is closed under dependencies.\<close>

definition closed_under :: "linked_project \<Rightarrow> compiled_structure \<Rightarrow> invalidation_node set \<Rightarrow> bool" where
  "closed_under linked compiled A \<longleftrightarrow>
     (\<forall>n\<in>A. \<forall>m. (n, m) \<in> affects linked compiled \<longrightarrow> m \<in> project_nodes (lp_project linked) \<longrightarrow> m \<in> A)"

definition same_outside :: "linked_project \<Rightarrow> invalidation_node set \<Rightarrow> effective_value list \<Rightarrow> effective_value list \<Rightarrow> bool" where
  "same_outside linked A vs ws \<longleftrightarrow> (\<forall>i<length (lp_symbols linked).
     option_node (sym_id (lp_symbols linked ! i)) \<notin> A \<longrightarrow> settled_as (vs ! i) = settled_as (ws ! i))"

lemma affected_closed:
  assumes "c \<in> sym_id ` set (project_symbols (lp_project linked))"
  shows "closed_under linked compiled (affected_by linked compiled c)" and "option_node c \<in> affected_by linked compiled c"
proof -
  let ?N = "project_nodes (lp_project linked)" and ?R = "affects linked compiled"
  show "option_node c \<in> affected_by linked compiled c" by (simp add: affected_by_def)
  show "closed_under linked compiled (affected_by linked compiled c)"
    unfolding closed_under_def
  proof (intro ballI allI impI)
    fix n m
    assume n: "n \<in> affected_by linked compiled c" and m: "(n, m) \<in> ?R" "m \<in> ?N"
    from n have path: "(option_node c, n) \<in> (?R \<inter> ?N \<times> ?N)\<^sup>*" by (simp add: affected_by_def)
    then have "n \<in> ?N" by (rule rtranclE) (use assms option_known in blast)+
    with path m have "(option_node c, m) \<in> (?R \<inter> ?N \<times> ?N)\<^sup>*" by (blast intro: rtrancl_into_rtrancl)
    then show "m \<in> affected_by linked compiled c" by (simp add: affected_by_def)
  qed
qed

lemma clean_agree:
  assumes closed: "closed_under linked compiled A" and same: "same_outside linked A vs ws"
    and symbols: "map ef_symbol vs = lp_symbols linked" "map ef_symbol ws = lp_symbols linked"
    and x: "x \<in> set (lp_expressions linked)" "expression_holder (lp_project linked) x \<in> project_nodes (lp_project linked)"
      "expression_holder (lp_project linked) x \<notin> A"
  shows "agree_on (expression_names x) (environment_of vs) (environment_of ws)"
proof (rule agree_bindings)
  have len: "length vs = length (lp_symbols linked)" "length ws = length (lp_symbols linked)" using symbols by (metis length_map)+
  have sym: "ef_symbol (vs ! i) = lp_symbols linked ! i" "ef_symbol (ws ! i) = lp_symbols linked ! i"
    if "i < length (lp_symbols linked)" for i using symbols that len by (metis nth_map)+
  have "effective_binding (vs ! i) = effective_binding (ws ! i)"
    if i: "i < length (lp_symbols linked)" "sym_id (lp_symbols linked ! i) \<in> expression_names x" for i
  proof (rule settled_binding)
    have "(option_node (sym_id (lp_symbols linked ! i)), expression_holder (lp_project linked) x) \<in> affects linked compiled"
      using i(2) x(1) unfolding affects_def expression_names_def by force
    with closed x(2,3) have "option_node (sym_id (lp_symbols linked ! i)) \<notin> A" unfolding closed_under_def by blast
    with same i(1) show "settled_as (vs ! i) = settled_as (ws ! i)" by (simp add: same_outside_def)
  qed
  with len sym show "list_all2 (\<lambda>v w. ef_symbol v = ef_symbol w
      \<and> (sym_id (ef_symbol v) \<in> expression_names x \<longrightarrow> effective_binding v = effective_binding w)) vs ws"
    by (simp add: list_all2_conv_all_nth)
qed

lemma clean_condition:
  assumes "confit_v2_schema_link_project p = Inr linked"
    and "closed_under linked compiled A" "same_outside linked A vs ws"
    and "map ef_symbol vs = lp_symbols linked" "map ef_symbol ws = lp_symbols linked"
    and "x \<in> set (lp_expressions linked)" "expression_holder p x \<in> project_nodes p" "expression_holder p x \<notin> A"
  shows "condition_value x (environment_of vs) message = condition_value x (environment_of ws) message"
    and "condition_in (environment_of vs) (Some x) = condition_in (environment_of ws) (Some x)"
proof -
  have p: "lp_project linked = p" using assms(1) by (rule link_project_cases) simp
  from linked_expression_local [OF assms(1,6) clean_agree [OF assms(2-6)]] assms(7,8)
  show "condition_value x (environment_of vs) message = condition_value x (environment_of ws) message"
    and "condition_in (environment_of vs) (Some x) = condition_in (environment_of ws) (Some x)"
    by (simp_all add: p condition_value_def condition_in_def)
qed

text \<open>The values, along the order of evaluation.\<close>

lemma values_stay:
  assumes link: "confit_v2_schema_link_project p = Inr linked" and closed: "closed_under linked compiled A"
    and first: "reads_first linked order" and all: "set order = {..<length (lp_symbols linked)}"
    and vs: "solves linked ledger vs" and ws: "solves linked ledger' ws"
    and asked: "\<forall>i<length (lp_symbols linked). option_node (sym_id (lp_symbols linked ! i)) \<notin> A
      \<longrightarrow> asked_for (vs ! i) = asked_for (ws ! i)"
  shows "same_outside linked A vs ws"
proof -
  have p: "lp_project linked = p" using link by (rule link_project_cases) simp
  let ?node = "\<lambda>i. option_node (sym_id (lp_symbols linked ! i))"
  have len: "length vs = length (lp_symbols linked)" "length ws = length (lp_symbols linked)"
    using vs ws by (metis solves_def length_map)+
  have sym: "ef_symbol (vs ! i) = lp_symbols linked ! i" "ef_symbol (ws ! i) = lp_symbols linked ! i"
    if "i < length (lp_symbols linked)" for i
    using vs ws that len by (metis solves_def nth_map)+
  have equation: "evaluate_symbol linked l (initial_value (lp_symbols linked ! i)) (environment_of us) = Inr (core (us ! i))"
    if "solves linked l us" "i < length (lp_symbols linked)" "length us = length (lp_symbols linked)"
      "ef_symbol (us ! i) = lp_symbols linked ! i" for l us i
    using that by (metis solves_def nth_mem)
  have known: "?node i \<in> project_nodes p" if "i < length (lp_symbols linked)" for i
    using nth_mem [OF that] linked_symbol_set [OF link] by (simp add: option_known)
  have core: "settled_as (core u) = settled_as u" "asked_for (core u) = asked_for u" for u
    by (simp_all add: settled_as_def asked_for_def core_def)
  have "k \<le> length order \<Longrightarrow> \<forall>i\<in>set (take k order). ?node i \<notin> A \<longrightarrow> settled_as (vs ! i) = settled_as (ws ! i)" for k
  proof (induction k)
    case (Suc k)
    let ?i = "order ! k"
    have i: "?i < length (lp_symbols linked)" using Suc.prems all nth_mem [of k order] by auto
    have "settled_as (vs ! ?i) = settled_as (ws ! ?i)" if clean: "?node ?i \<notin> A"
    proof -
      have read: "?node j \<notin> A" if j: "sym_id (lp_symbols linked ! j) \<in> option_reads linked ?i" for j
      proof -
        from j obtain x r where x: "x \<in> set (lp_expressions linked)" "confit_v2_evaluation_role_affects_value (lx_role x)"
          "lx_owner_id x = sym_id (lp_symbols linked ! ?i)" "r \<in> set (lx_references x)"
          "sym_id (lp_symbols linked ! j) = sym_id (lref_symbol r)"
          by (auto simp: option_reads_def value_reads_def expression_reads_def split: if_splits)
        then have "expression_holder p x = ?node ?i" using known [OF i] by (auto simp: expression_holder_def holder_def option_known
            confit_v2_evaluation_role_affects_value_def)
        with x have "(?node j, ?node ?i) \<in> affects linked compiled" unfolding affects_def p by force
        with closed known [OF i] clean show ?thesis unfolding closed_under_def p by blast
      qed
      have same: "settled_as (vs ! j) = settled_as (ws ! j)"
        if j: "j < length (lp_symbols linked)" "sym_id (lp_symbols linked ! j) \<in> option_reads linked ?i" for j
      proof -
        have "option_reads linked ?i \<subseteq> (\<lambda>i. sym_id (lp_symbols linked ! i)) ` set (take k order)"
          using first Suc.prems by (simp add: reads_first_def)
        with j(2) obtain m where m: "m \<in> set (take k order)" "sym_id (lp_symbols linked ! j) = sym_id (lp_symbols linked ! m)"
          by blast
        have "m < length (lp_symbols linked)" using m(1) all set_take_subset [of k order] by auto
        moreover have "distinct (map sym_id (lp_symbols linked))"
          using linked_project_ok [OF link] strict_sorted_iff by (auto simp: linked_ok_def)
        ultimately have "j = m" using m(2) j(1) nth_eq_iff_index_eq [of "map sym_id (lp_symbols linked)" j m] by simp
        with m(1) Suc.IH Suc.prems read [OF j(2)] show ?thesis by simp
      qed
      then have "agree_on (option_reads linked ?i) (environment_of vs) (environment_of ws)"
        using len sym by (intro agree_bindings) (auto simp: list_all2_conv_all_nth intro: settled_binding)
      then have "evaluate_symbol linked ledger (initial_value (lp_symbols linked ! ?i)) (environment_of vs)
          = evaluate_symbol linked ledger (initial_value (lp_symbols linked ! ?i)) (environment_of ws)"
        by (intro evaluate_symbol_local [OF link]) (simp add: option_reads_def initial_value_def)
      then have "evaluate_symbol linked ledger (initial_value (lp_symbols linked ! ?i)) (environment_of ws) = Inr (core (vs ! ?i))"
        using equation [OF vs i len(1) sym(1) [OF i]] by simp
      from symbol_same [OF this equation [OF ws i len(2) sym(2) [OF i]]] asked i clean show ?thesis by (simp add: core)
    qed
    with Suc show ?case by (auto simp: take_Suc_conv_app_nth)
  qed simp
  from this [of "length order"] all show ?thesis by (auto simp: same_outside_def)
qed

section \<open>Flags, choices and constraints\<close>

lemma symbol_condition_same:
  assumes link: "confit_v2_schema_link_project p = Inr linked"
    and clean: "closed_under linked compiled A" "same_outside linked A vs ws"
      "map ef_symbol vs = lp_symbols linked" "map ef_symbol ws = lp_symbols linked"
    and s: "sym_id s \<in> sym_id ` set (project_symbols p)" "option_node (sym_id s) \<notin> A"
    and role: "role \<in> {ROLE_AVAILABLE_IF, ROLE_VISIBLE_IF}"
  shows "condition_in (environment_of vs) (confit_v2_evaluation_symbol_expression linked s role)
    = condition_in (environment_of ws) (confit_v2_evaluation_symbol_expression linked s role)"
proof (cases "confit_v2_evaluation_symbol_expression linked s role")
  case None
  then show ?thesis by (simp add: condition_in_def)
next
  case (Some x)
  then have "confit_v2_linked_project_find_expression linked role (sym_id s) 0 = Some x"
    by (auto simp: confit_v2_evaluation_symbol_expression_def split: if_splits)
  from found_expression [OF link this] have x: "x \<in> set (lp_expressions linked)" "lx_role x = role" "lx_owner_id x = sym_id s" by simp_all
  then have "expression_holder p x = option_node (sym_id s)" using role s(1) by (auto simp: expression_holder_def holder_def)
  with clean_condition(2) [OF link clean x(1)] s Some show ?thesis by (simp add: option_known)
qed

definition same_entry :: "effective_value \<Rightarrow> effective_value \<Rightarrow> bool" where
  "same_entry v w \<longleftrightarrow> ef_symbol v = ef_symbol w \<and> settled_as v = settled_as w
     \<and> ef_available v = ef_available w \<and> ef_visible v = ef_visible w"

lemma entries_stay:
  assumes link: "confit_v2_schema_link_project p = Inr linked"
    and clean: "closed_under linked compiled A" "same_outside linked A vs ws"
      "map ef_symbol vs = lp_symbols linked" "map ef_symbol ws = lp_symbols linked"
    and flags: "list_all (option_settled linked (environment_of vs)) vs" "list_all (option_settled linked (environment_of ws)) ws"
    and i: "i < length (lp_symbols linked)" "option_node (sym_id (lp_symbols linked ! i)) \<notin> A"
  shows "same_entry (vs ! i) (ws ! i)"
proof -
  let ?s = "lp_symbols linked ! i"
  have len: "i < length vs" "i < length ws" using clean(3,4) i(1) by (metis length_map)+
  have sym: "ef_symbol (vs ! i) = ?s" "ef_symbol (ws ! i) = ?s" using clean(3,4) len by (metis nth_map)+
  have "sym_id ?s \<in> sym_id ` set (project_symbols p)" using nth_mem [OF i(1)] linked_symbol_set [OF link] by simp
  note same = symbol_condition_same [OF link clean this i(2)]
  have "option_settled linked (environment_of vs) (vs ! i)" "option_settled linked (environment_of ws) (ws ! i)"
    using flags len by (auto simp: list_all_length)
  with same [of ROLE_AVAILABLE_IF] same [of ROLE_VISIBLE_IF] sym clean(2) i show ?thesis
    by (auto simp: same_entry_def option_settled_def same_outside_def)
qed

lemma fold_res_cong: "(\<And>x s. x \<in> set xs \<Longrightarrow> f x s = g x s) \<Longrightarrow> fold_res f xs s = fold_res g xs s"
  by (induction xs arbitrary: s) (simp_all add: bind_res_def split: sum.split)

lemma find_in: "find P xs = Some x \<Longrightarrow> x \<in> set xs"
  by (auto simp: find_Some_iff)

lemma default_loop_same:
  "(\<And>x m. x \<in> set xs \<Longrightarrow> condition_value x env m = condition_value x env' m)
    \<Longrightarrow> choice_default_loop ds env i xs selected = choice_default_loop ds env' i xs selected"
proof (induction xs arbitrary: i selected)
  case (Cons x xs)
  then have "condition_value x env m = condition_value x env' m" for m by simp
  moreover have "choice_default_loop ds env (i + 1) xs = choice_default_loop ds env' (i + 1) xs"
    using Cons by (intro ext) simp
  ultimately show ?case by simp
qed simp

lemma one_choice_same:
  assumes conditions: "\<And>x m. x \<in> choice_expressions c \<Longrightarrow> condition_value x env m = condition_value x env' m"
    and members: "\<And>m. m \<in> set (cc_members c) \<Longrightarrow> \<exists>v w. confit_v2_evaluation_find vs (sym_id m) = Some v
      \<and> confit_v2_evaluation_find ws (sym_id m) = Some w \<and> same_entry v w"
  shows "confit_v2_evaluation_one_choice vs env c = confit_v2_evaluation_one_choice ws env' c"
proof -
  have condition: "confit_v2_evaluation_boolean_condition x env m = confit_v2_evaluation_boolean_condition x env' m"
    if "set_option x \<subseteq> choice_expressions c" for x m
    using that conditions by (cases x) (simp_all add: confit_v2_evaluation_boolean_condition_def)
  have "choice_default_loop ds env i (cc_default_when c) selected = choice_default_loop ds env' i (cc_default_when c) selected"
    for ds i selected
    by (rule default_loop_same) (rule conditions, simp add: choice_expressions_def)
  then have select: "confit_v2_evaluation_select_choice_default c env = confit_v2_evaluation_select_choice_default c env'"
    by (simp add: confit_v2_evaluation_select_choice_default_def)
  have count: "count_member source vs m out = count_member source ws m out" if "m \<in> set (cc_members c)" for source m out
    using members [OF that]
    by (auto simp: count_member_def same_entry_def settled_as_def confit_v2_evaluation_value_is_selected_def Let_def)
  have member: "m \<in> set (cc_members c)" if "confit_v2_evaluation_select_choice_default c env' = Inr (Some m)" for m
    using that by (auto simp: confit_v2_evaluation_select_choice_default_def bind_simps split: option.split_asm dest: find_in)
  have default: "choice_default_member c vs env out = choice_default_member c ws env' out" for out
  proof -
    have "(case confit_v2_evaluation_find vs (sym_id m) of None \<Rightarrow> True | Some effective \<Rightarrow> \<not> ef_available effective)
      = (case confit_v2_evaluation_find ws (sym_id m) of None \<Rightarrow> True | Some effective \<Rightarrow> \<not> ef_available effective)"
      if "confit_v2_evaluation_select_choice_default c env' = Inr (Some m)" for m
      using members [OF member [OF that]] by (auto simp: same_entry_def)
    then show ?thesis unfolding choice_default_member_def select by (auto intro!: bind_res_cong split: option.split)
  qed
  show ?thesis
    unfolding confit_v2_evaluation_one_choice_def Let_def
    by (intro bind_res_cong condition if_cong fold_res_cong count default refl) (auto simp: choice_expressions_def)
qed

lemma choices_each: "confit_v2_evaluation_choices vs env cs = Inr rs \<Longrightarrow>
    list_all2 (\<lambda>c r. confit_v2_evaluation_one_choice vs env c = Inr r) cs rs"
  by (induction cs arbitrary: rs) (auto simp: bind_simps)

lemma sort_key_map: "map f (sort_key (\<lambda>x. k (f x)) xs) = sort_key k (map f xs)"
proof (induction xs)
  case (Cons x xs)
  have "map f (insort_key (\<lambda>x. k (f x)) x ys) = insort_key k (f x) (map f ys)" for x ys by (induction ys) simp_all
  with Cons show ?case by simp
qed simp

end
