(* ===== verification/Reconcile_Correct.thy ===== *)
theory Reconcile_Correct
  imports Reconcile
begin

text \<open>
  The two snapshots of an edit: what the returned set does not name is unchanged, but possibly a choice that
  has the id of an option.
\<close>

section \<open>Choices and constraints of two evaluations\<close>

text \<open>Two evaluations with the same values and flags outside a set closed under dependencies.\<close>

definition evaluations_agree ::
  "v2_project \<Rightarrow> linked_project \<Rightarrow> compiled_structure \<Rightarrow> invalidation_node set \<Rightarrow> effective_value list \<Rightarrow> effective_value list \<Rightarrow> bool" where
  "evaluations_agree p linked compiled A vs ws \<longleftrightarrow>
     confit_v2_schema_link_project p = Inr linked \<and> confit_v2_compile_structure linked = Inr compiled
     \<and> closed_under linked compiled A \<and> same_outside linked A vs ws
     \<and> map ef_symbol vs = lp_symbols linked \<and> map ef_symbol ws = lp_symbols linked
     \<and> (\<forall>i<length (lp_symbols linked). option_node (sym_id (lp_symbols linked ! i)) \<notin> A \<longrightarrow> same_entry (vs ! i) (ws ! i))"

lemma find_entry:
  assumes link: "confit_v2_schema_link_project p = Inr linked" and symbols: "map ef_symbol vs = lp_symbols linked"
    and j: "j < length (lp_symbols linked)"
  shows "confit_v2_evaluation_find vs (sym_id (lp_symbols linked ! j)) = Some (vs ! j)"
proof -
  have "sorted_wrt (<) (map sym_id (map ef_symbol vs))"
    unfolding symbols using linked_project_ok [OF link] by (simp only: linked_ok_def)
  then have "sorted_wrt (<) (map (\<lambda>v. sym_id (ef_symbol v)) vs)" by (simp add: o_def)
  moreover have "j < length vs" using symbols j by (metis length_map)
  moreover from this have "ef_symbol (vs ! j) = lp_symbols linked ! j" using symbols by (metis nth_map)
  ultimately show ?thesis using evaluation_find by (metis nth_mem)
qed

lemma choice_stays:
  assumes agree: "evaluations_agree p linked compiled A vs ws" and loaded: "loaded_project p"
    and c: "c \<in> set (cs_choices compiled)" "choice_node (choice_id (cc_source c)) \<notin> A"
    and own: "choice_id (cc_source c) \<notin> sym_id ` set (project_symbols p)"
  shows "confit_v2_evaluation_one_choice vs (environment_of vs) c = confit_v2_evaluation_one_choice ws (environment_of ws) c"
proof -
  note parts = agree [unfolded evaluations_agree_def]
  from parts have link: "confit_v2_schema_link_project p = Inr linked" and compile: "confit_v2_compile_structure linked = Inr compiled"
    and clean: "closed_under linked compiled A" "same_outside linked A vs ws"
      "map ef_symbol vs = lp_symbols linked" "map ef_symbol ws = lp_symbols linked" by blast+
  have p: "lp_project linked = p" using link by (rule link_project_cases) simp
  have "list_all2 (choice_compiled p linked) (sort_key choice_id (project_choices p)) (cs_choices compiled)"
    using compiled_facts [OF link loaded compile] by (simp add: structure_compiled_def)
  with c(1) obtain d where "d \<in> set (sort_key choice_id (project_choices p))" and d: "choice_compiled p linked d c"
    by (metis in_set_conv_nth list_all2_conv_all_nth)
  then have declared: "cc_source c \<in> set (project_choices p)" and members: "set (cc_members c) \<subseteq> set (project_symbols p)"
    by (simp_all add: choice_compiled_def members_found_def)
  let ?node = "choice_node (choice_id (cc_source c))"
  have node: "?node \<in> project_nodes p" using declared by (auto simp: project_nodes_def)
  have holder: "holder p (choice_id (cc_source c)) = ?node" using own by (simp add: holder_def)
  show ?thesis
  proof (rule one_choice_same)
    fix x m
    assume "x \<in> choice_expressions c"
    from choice_expression_owned [OF link compile c(1) this] have x: "x \<in> set (lp_expressions linked)" "expression_holder p x = ?node"
      using holder by (auto simp: expression_holder_def)
    with clean_condition(1) [OF link clean x(1)] node c(2)
    show "condition_value x (environment_of vs) m = condition_value x (environment_of ws) m" by simp
  next
    fix m
    assume m: "m \<in> set (cc_members c)"
    with members linked_symbol_set [OF link] obtain j where j: "j < length (lp_symbols linked)" "lp_symbols linked ! j = m"
      by (metis in_set_conv_nth subsetD)
    have "(option_node (sym_id m), ?node) \<in> affects linked compiled"
      using c(1) m holder by (auto simp: affects_def p)
    with clean(1) node c(2) have "option_node (sym_id m) \<notin> A" unfolding closed_under_def p by blast
    with parts j have "same_entry (vs ! j) (ws ! j)" by blast
    with find_entry [OF link clean(3) j(1)] find_entry [OF link clean(4) j(1)] j(2)
    show "\<exists>v w. confit_v2_evaluation_find vs (sym_id m) = Some v
      \<and> confit_v2_evaluation_find ws (sym_id m) = Some w \<and> same_entry v w" by simp
  qed
qed

lemma constraint_stays:
  assumes agree: "evaluations_agree p linked compiled A vs ws" and loaded: "loaded_project p"
    and k: "k \<in> set (cs_constraints compiled)" "constraint_node (constraint_id (cn_source k)) \<notin> A"
  shows "outcome_in (environment_of vs) k = outcome_in (environment_of ws) k"
proof -
  from agree have link: "confit_v2_schema_link_project p = Inr linked" and compile: "confit_v2_compile_structure linked = Inr compiled"
    and clean: "closed_under linked compiled A" "same_outside linked A vs ws"
      "map ef_symbol vs = lp_symbols linked" "map ef_symbol ws = lp_symbols linked" by (auto simp: evaluations_agree_def)
  obtain js where js: "cs_constraints compiled = sort_key (\<lambda>k. constraint_id (cn_source k)) js"
    "list_all2 (constraint_compiled linked) (project_constraints p) js"
    using compiled_facts [OF link loaded compile] by (auto simp: structure_compiled_def)
  from k(1) js(1) have "k \<in> set js" by simp
  with js(2) obtain d where "d \<in> set (project_constraints p)" "constraint_compiled linked d k"
    by (metis in_set_conv_nth list_all2_conv_all_nth)
  then have node: "constraint_node (constraint_id (cn_source k)) \<in> project_nodes p"
    by (auto simp: constraint_compiled_def project_nodes_def)
  have "condition_in (environment_of vs) (Some x) = condition_in (environment_of ws) (Some x)" if "x \<in> {cn_when k, cn_require k}" for x
  proof -
    from constraint_expression_owned [OF compile k(1) that] have x: "x \<in> set (lp_expressions linked)"
      "expression_holder p x = constraint_node (constraint_id (cn_source k))" by (auto simp: expression_holder_def)
    with clean_condition(2) [OF link clean x(1)] node k(2) show ?thesis by simp
  qed
  then have same: "condition_in (environment_of vs) (Some (cn_when k)) = condition_in (environment_of ws) (Some (cn_when k))"
    "condition_in (environment_of vs) (Some (cn_require k)) = condition_in (environment_of ws) (Some (cn_require k))" by simp_all
  show ?thesis unfolding outcome_in_def same ..
qed

section \<open>The two snapshots\<close>

definition option_view :: "snapshot_option \<Rightarrow> bool \<times> bool \<times> bool \<times> effective_origin \<times> v2_value" where
  "option_view o1 = (so_available o1, so_visible o1, so_effective_is_set o1, so_effective_origin o1, so_effective_value o1)"

definition request_view :: "snapshot_option \<Rightarrow> (bool \<times> assignment_origin \<times> v2_value) option" where
  "request_view o1 = map_option (\<lambda>a. (sa_is_unset a, sa_origin a, sa_value a)) (so_requested o1)"

text \<open>The requests of two snapshots differ for the option \<open>c\<close> at most.\<close>

definition edits_only :: "string \<Rightarrow> snapshot \<Rightarrow> snapshot \<Rightarrow> bool" where
  "edits_only c s t \<longleftrightarrow> (\<forall>i < length (sn_options s). so_id (sn_options s ! i) \<noteq> c
     \<longrightarrow> request_view (sn_options s ! i) = request_view (sn_options t ! i))"

text \<open>Nothing outside the set has changed; a choice that has the id of an option is left out.\<close>

definition unchanged_outside :: "invalidation_node list \<Rightarrow> snapshot \<Rightarrow> snapshot \<Rightarrow> bool" where
  "unchanged_outside affected s t \<longleftrightarrow>
     list_all2 (\<lambda>a b. so_id a = so_id b \<and> (option_node (so_id a) \<in> set affected \<or> option_view a = option_view b))
       (sn_options s) (sn_options t)
     \<and> list_all2 (\<lambda>a b. sc_id a = sc_id b \<and> (choice_node (sc_id a) \<in> set affected \<or> sc_id a \<in> so_id ` set (sn_options s) \<or> a = b))
         (sn_choices s) (sn_choices t)
     \<and> list_all2 (\<lambda>a b. sk_id a = sk_id b \<and> (constraint_node (sk_id a) \<in> set affected \<or> a = b))
         (sn_constraints s) (sn_constraints t)"

lemma request_of_copy: "request_view (confit_v2_snapshot_copy_option v) = asked_for v"
  by (cases "ef_requested v")
    (simp_all add: request_view_def asked_for_def confit_v2_snapshot_copy_option_def copy_requested_def)

lemma option_of_copy: "same_entry v w \<Longrightarrow> option_view (confit_v2_snapshot_copy_option v) = option_view (confit_v2_snapshot_copy_option w)"
  by (simp add: same_entry_def settled_as_def option_view_def confit_v2_snapshot_copy_option_def)

lemma options_unchanged:
  assumes agree: "evaluations_agree p linked compiled (set affected) vs ws"
  shows "list_all2 (\<lambda>a b. so_id a = so_id b \<and> (option_node (so_id a) \<in> set affected \<or> option_view a = option_view b))
    (map confit_v2_snapshot_copy_option vs) (map confit_v2_snapshot_copy_option ws)"
proof -
  have symbols: "map ef_symbol vs = lp_symbols linked" "map ef_symbol ws = lp_symbols linked"
    using agree by (auto simp: evaluations_agree_def)
  then have len: "length vs = length (lp_symbols linked)" "length ws = length (lp_symbols linked)" by (metis length_map)+
  have sym: "ef_symbol (vs ! i) = lp_symbols linked ! i" "ef_symbol (ws ! i) = lp_symbols linked ! i"
    if "i < length (lp_symbols linked)" for i using symbols that len by (metis nth_map)+
  have copied: "so_id (confit_v2_snapshot_copy_option v) = sym_id (ef_symbol v)" for v
    by (simp add: confit_v2_snapshot_copy_option_def)
  have "option_node (sym_id (lp_symbols linked ! i)) \<in> set affected \<or> same_entry (vs ! i) (ws ! i)"
    if "i < length (lp_symbols linked)" for i using agree that by (auto simp: evaluations_agree_def)
  with len sym show ?thesis by (auto simp: list_all2_conv_all_nth copied intro: option_of_copy)
qed

lemma choices_unchanged:
  assumes agree: "evaluations_agree p linked compiled (set affected) vs ws" and loaded: "loaded_project p"
    and runs: "confit_v2_evaluation_choices vs (environment_of vs) (cs_choices compiled) = Inr rs"
      "confit_v2_evaluation_choices ws (environment_of ws) (cs_choices compiled) = Inr ts"
    and sources: "map cr_choice rs = cs_choices compiled" "map cr_choice ts = cs_choices compiled"
  shows "list_all2 (\<lambda>a b. sc_id a = sc_id b
      \<and> (choice_node (sc_id a) \<in> set affected \<or> sc_id a \<in> sym_id ` set (project_symbols p) \<or> a = b))
    (map copy_choice rs) (map copy_choice ts)"
proof -
  let ?cs = "cs_choices compiled"
  have len: "length rs = length ?cs" "length ts = length ?cs" using sources by (metis length_map)+
  have source: "cr_choice (rs ! i) = ?cs ! i" "cr_choice (ts ! i) = ?cs ! i" if "i < length ?cs" for i
    using sources that len by (metis nth_map)+
  have "choice_node (choice_id (cc_source (?cs ! i))) \<in> set affected
      \<or> choice_id (cc_source (?cs ! i)) \<in> sym_id ` set (project_symbols p) \<or> rs ! i = ts ! i" if i: "i < length ?cs" for i
  proof -
    have "confit_v2_evaluation_one_choice vs (environment_of vs) (?cs ! i) = Inr (rs ! i)"
      "confit_v2_evaluation_one_choice ws (environment_of ws) (?cs ! i) = Inr (ts ! i)"
      using choices_each [OF runs(1)] choices_each [OF runs(2)] i by (auto simp: list_all2_conv_all_nth)
    with choice_stays [OF agree loaded nth_mem [OF i]] show ?thesis by auto
  qed
  then have "choice_node (choice_id (cc_source (?cs ! i))) \<in> set affected
      \<or> choice_id (cc_source (?cs ! i)) \<in> sym_id ` set (project_symbols p) \<or> copy_choice (rs ! i) = copy_choice (ts ! i)"
    if "i < length ?cs" for i using that by metis
  moreover have "sc_id (copy_choice r) = choice_id (cc_source (cr_choice r))" for r by (simp add: copy_choice_def)
  ultimately show ?thesis using len source by (auto simp: list_all2_conv_all_nth)
qed

definition constraint_key :: "compiled_constraint \<Rightarrow> string \<times> nat \<times> nat \<times> string" where
  "constraint_key k = (let source = cn_source k; span = constraint_span source
     in (case span_path span of None \<Rightarrow> [] | Some s \<Rightarrow> s, span_line span, span_column span, constraint_id source))"

lemma sorted_results:
  assumes "list_all2 (result_exact vs) ks rs"
  shows "map res_constraint (sort_key result_key rs) = sort_key constraint_key ks"
    and "\<forall>r\<in>set (sort_key result_key rs). outcome_in (environment_of vs) (res_constraint r) = Some (res_outcome r)"
proof -
  have key: "result_key = (\<lambda>r. constraint_key (res_constraint r))"
    by (rule ext) (simp add: result_key_def constraint_key_def)
  have "map (\<lambda>k. k) ks = map res_constraint rs" using assms by (rule list_all2_map_eq) (simp add: result_exact_def)
  then show "map res_constraint (sort_key result_key rs) = sort_key constraint_key ks"
    unfolding key sort_key_map [of res_constraint constraint_key] by simp
  show "\<forall>r\<in>set (sort_key result_key rs). outcome_in (environment_of vs) (res_constraint r) = Some (res_outcome r)"
    using assms by (auto simp: list_all2_conv_all_nth in_set_conv_nth result_exact_def)
qed

lemma constraints_unchanged:
  assumes agree: "evaluations_agree p linked compiled (set affected) vs ws" and loaded: "loaded_project p"
    and reports: "report_exact linked compiled vs report" "report_exact linked compiled ws report'"
  shows "list_all2 (\<lambda>a b. sk_id a = sk_id b \<and> (constraint_node (sk_id a) \<in> set affected \<or> a = b))
    (map copy_constraint (rep_results report)) (map copy_constraint (rep_results report'))"
proof -
  let ?rs = "rep_results report" and ?ts = "rep_results report'"
  from reports obtain rs ts where run: "list_all2 (result_exact vs) (cs_constraints compiled) rs" "?rs = sort_key result_key rs"
    "list_all2 (result_exact ws) (cs_constraints compiled) ts" "?ts = sort_key result_key ts" by (auto simp: report_exact_def)
  note sorted = sorted_results [OF run(1), folded run(2)] sorted_results [OF run(3), folded run(4)]
  have same: "map res_constraint ?rs = map res_constraint ?ts" unfolding sorted(1,3) ..
  then have len: "length ?rs = length ?ts" by (metis length_map)
  have members: "res_constraint ` set ?rs = set (cs_constraints compiled)"
    using arg_cong [OF sorted(1), of set] by simp
  have copied: "sk_id (copy_constraint r) = constraint_id (cn_source (res_constraint r))" for r
    by (simp add: copy_constraint_def Let_def)
  have "constraint_node (constraint_id (cn_source (res_constraint (?rs ! i)))) \<in> set affected
      \<or> copy_constraint (?rs ! i) = copy_constraint (?ts ! i)" and "res_constraint (?rs ! i) = res_constraint (?ts ! i)"
    if i: "i < length ?rs" for i
  proof -
    show k: "res_constraint (?rs ! i) = res_constraint (?ts ! i)" using same i len by (metis nth_map)
    have "res_constraint (?rs ! i) \<in> set (cs_constraints compiled)" using members nth_mem [OF i] by blast
    note stays = constraint_stays [OF agree loaded this]
    have "outcome_in (environment_of vs) (res_constraint (?rs ! i)) = Some (res_outcome (?rs ! i))"
      "outcome_in (environment_of ws) (res_constraint (?ts ! i)) = Some (res_outcome (?ts ! i))"
      using sorted(2,4) i len by simp_all
    with stays k show "constraint_node (constraint_id (cn_source (res_constraint (?rs ! i)))) \<in> set affected
      \<or> copy_constraint (?rs ! i) = copy_constraint (?ts ! i)"
      by (auto simp: copy_constraint_def Let_def)
  qed
  with len show ?thesis by (auto simp: list_all2_conv_all_nth copied)
qed

section \<open>An edit\<close>

lemma snapshots_agree:
  assumes link: "confit_v2_schema_link_project p = Inr linked" and loaded: "loaded_project p"
    and compile: "confit_v2_compile_structure linked = Inr compiled"
    and compiled: "al_compiled ledger = compiled" "al_compiled ledger' = compiled"
    and build: "confit_v2_evaluation_build ledger = Inr result" "confit_v2_evaluation_build ledger' = Inr result'"
    and snapshots: "snapshot_of compiled result report s" "snapshot_of compiled result' report' t"
    and closed: "closed_under linked compiled A" "option_node c \<in> A" and edit: "edits_only c s t"
  shows "evaluations_agree p linked compiled A (evl_values result) (evl_values result')"
proof -
  let ?vs = "evl_values result" and ?ws = "evl_values result'"
  have source: "cs_linked (al_compiled ledger) = linked" "cs_linked (al_compiled ledger') = linked"
    using compiled_source [OF compile] compiled by simp_all
  note first = evaluation_result [OF link source(1) build(1)] and second = evaluation_result [OF link source(2) build(2)]
  have symbols: "map ef_symbol ?vs = lp_symbols linked" "map ef_symbol ?ws = lp_symbols linked"
    using first(1) second(1) by (simp_all add: solves_def)
  then have len: "length ?vs = length (lp_symbols linked)" "length ?ws = length (lp_symbols linked)" by (metis length_map)+
  obtain order where order: "reads_first linked order" "set order = {..<length (lp_symbols linked)}" using first(2) by blast
  have asked: "asked_for (?vs ! i) = asked_for (?ws ! i)"
    if i: "i < length (lp_symbols linked)" "option_node (sym_id (lp_symbols linked ! i)) \<notin> A" for i
  proof -
    have options: "sn_options s = map confit_v2_snapshot_copy_option ?vs" "sn_options t = map confit_v2_snapshot_copy_option ?ws"
      using snapshots by (simp_all add: snapshot_of_def)
    have "so_id (sn_options s ! i) = sym_id (lp_symbols linked ! i)"
      using i(1) len symbols(1) nth_map [of i ?vs ef_symbol] by (simp add: options confit_v2_snapshot_copy_option_def)
    with i closed(2) have "so_id (sn_options s ! i) \<noteq> c" by auto
    with edit i(1) len show ?thesis by (simp add: edits_only_def options request_of_copy)
  qed
  have same: "same_outside linked A ?vs ?ws"
    using asked by (intro values_stay [OF link closed(1) order first(1) second(1)]) blast
  have flags: "list_all (option_settled linked (environment_of ?vs)) ?vs" "list_all (option_settled linked (environment_of ?ws)) ?ws"
    using settled_result [OF link loaded _ build(1)] settled_result [OF link loaded _ build(2)] compile compiled by simp_all
  show ?thesis
    using entries_stay [OF link closed(1) same symbols flags] link compile closed(1) same symbols
    by (simp add: evaluations_agree_def)
qed

lemma choice_sources:
  assumes "confit_v2_schema_link_project p = Inr linked" "loaded_project p"
    and "confit_v2_compile_structure linked = Inr (al_compiled ledger)" "confit_v2_evaluation_build ledger = Inr result"
  shows "map cr_choice (evl_choices result) = cs_choices (al_compiled ledger)"
proof -
  have "map (\<lambda>c. c) (cs_choices (al_compiled ledger)) = map cr_choice (evl_choices result)"
    using conjunct2 [OF settled_result [OF assms]] by (rule list_all2_map_eq) (simp add: choice_settled_def)
  then show ?thesis by simp
qed

lemma reconcile_outcome:
  assumes link: "confit_v2_schema_link_project p = Inr linked" and texts: "texts_ok p" and loaded: "loaded_project p"
    and ok: "evaluable p"
    and compile: "confit_v2_compile_structure linked = Inr compiled"
    and base: "confit_v2_snapshot_resolve services compiled options = Inr base"
    and edit: "confit_v2_snapshot_reconcile_edit services' base compiled options' c = Inr (edited, affected)"
    and only: "edits_only c base edited"
  shows "confit_v2_snapshot_resolve services' compiled options' = Inr edited
    \<and> dependents p c - shared_choices p \<subseteq> set affected \<and> unchanged_outside affected base edited"
proof -
  have p: "lp_project linked = p" using link by (rule link_project_cases) simp
  from edit have run: "confit_v2_snapshot_invalidate base c = Inr affected"
    "confit_v2_snapshot_resolve services' compiled options' = Inr edited"
    by (auto simp: confit_v2_snapshot_reconcile_edit_def bind_simps)
  from invalidation_outcome [OF link texts loaded ok compile base, of c] run(1)
  have c: "c \<in> sym_id ` set (project_symbols p)" and affected: "set affected = affected_by linked compiled c" by simp_all
  from c have "closed_under linked compiled (set affected)" "option_node c \<in> set affected"
    unfolding affected by (simp_all add: affected_closed p)
  note closed = this
  show ?thesis
  proof (rule resolve_holds [OF base], rule resolve_holds [OF run(2)])
    fix ledger result report ledger' result' report'
    assume first: "al_compiled ledger = compiled" "confit_v2_evaluation_build ledger = Inr result"
        "confit_v2_evaluation_validate_constraints result = Inr (report, None)" "snapshot_of compiled result report base"
      and second: "al_compiled ledger' = compiled" "confit_v2_evaluation_build ledger' = Inr result'"
        "confit_v2_evaluation_validate_constraints result' = Inr (report', None)" "snapshot_of compiled result' report' edited"
    have compile': "confit_v2_compile_structure linked = Inr (al_compiled ledger)"
      "confit_v2_compile_structure linked = Inr (al_compiled ledger')" using compile first(1) second(1) by simp_all
    note agree = snapshots_agree [OF link loaded compile first(1) second(1) first(2) second(2) first(4) second(4) closed only]
    have choices: "confit_v2_evaluation_choices (evl_values result) (environment_of (evl_values result)) (cs_choices compiled) = Inr (evl_choices result)"
      "confit_v2_evaluation_choices (evl_values result') (environment_of (evl_values result')) (cs_choices compiled) = Inr (evl_choices result')"
      using evaluation_result(4) [OF link compiled_source [OF compile'(1)] first(2)]
        evaluation_result(4) [OF link compiled_source [OF compile'(2)] second(2)] first(1) second(1) by simp_all
    have sources: "map cr_choice (evl_choices result) = cs_choices compiled" "map cr_choice (evl_choices result') = cs_choices compiled"
      using choice_sources [OF link loaded compile'(1) first(2)] choice_sources [OF link loaded compile'(2) second(2)]
        first(1) second(1) by simp_all
    have reports: "report_exact linked compiled (evl_values result) report" "report_exact linked compiled (evl_values result') report'"
      using constraint_report_outcome [OF link texts ok compile'(1) first(2)] constraint_report_outcome [OF link texts ok compile'(2) second(2)]
        first(1,3) second(1,3) by simp_all
    have "so_id ` set (sn_options base) = sym_id ` set (lp_symbols linked)"
      using arg_cong [OF snapshot_option_ids [OF evaluation_result(1) [OF link compiled_source [OF compile'(1)] first(2)] first(4)], of set]
      by simp
    then have ids: "so_id ` set (sn_options base) = sym_id ` set (project_symbols p)" by (simp add: linked_symbol_set [OF link])
    have "unchanged_outside affected base edited"
      unfolding unchanged_outside_def ids
      using options_unchanged [OF agree] choices_unchanged [OF agree loaded choices sources]
        constraints_unchanged [OF agree loaded reports] first(4) second(4)
      by (simp add: snapshot_of_def)
    then show ?thesis using run(2) affected dependents_recorded [OF link loaded compile] by simp
  qed
qed

text \<open>C1. After an edit of one option the returned set is trustworthy: the new snapshot is that of a full
  resolution, the set holds what depends on the option by the declarations of the project, and every
  option, choice and constraint outside it has the availability, visibility, value, origin, selection and
  outcome it had before. The only exception is a choice that has the id of an option, which the loader
  does not exclude: it may be missing from the set.\<close>

theorem reconcile_edit_sound:
  assumes "confit_v2_schema_link_project p = Inr linked" "texts_ok p" "loaded_project p" "evaluable p"
    and "confit_v2_compile_structure linked = Inr compiled"
    and "confit_v2_snapshot_resolve services compiled options = Inr base"
    and "confit_v2_snapshot_reconcile_edit services' base compiled options' c = Inr (edited, affected)"
    and "edits_only c base edited"
  shows "confit_v2_snapshot_resolve services' compiled options' = Inr edited
    \<and> dependents p c - shared_choices p \<subseteq> set affected \<and> unchanged_outside affected base edited"
  by (rule reconcile_outcome [OF assms])

end
