(* ===== verification/Effective_Sample.thy ===== *)
theory Effective_Sample
  imports Effective_Choices
begin

text \<open>
  An evaluation: the user asks for \<open>a.b = 2\<close> and \<open>a.c = true\<close>, and \<open>a.e\<close> is computed as \<open>a.b + 1\<close>; the
  choice \<open>pick\<close> has the member \<open>a.c\<close>. The whole run, from the project to the result, is evaluated once.
\<close>

definition effective_project :: v2_project where
  "effective_project = (sample_project
     [(sample_symbol ''a.e'' OPTION_INT None)
        \<lparr>sym_write_domain := DOMAIN_COMPUTED, sym_computed := sample_source (Some ''a.b + 1'')\<rparr>,
      sample_symbol ''a.c'' OPTION_BOOL None, sample_symbol ''a.b'' OPTION_INT None])
     \<lparr>project_choices := [sample_choice\<lparr>choice_members := [''a.c''], choice_defaults := []\<rparr>],
      project_constraints := [sample_constraint]\<rparr>"

definition effective_parser :: toml_parser where
  "effective_parser source_text source_name =
     (if source_text = ''value = 2'' then Inr (leaf (TOML_TABLE [(''value'', leaf (TOML_INT64 2))]))
      else if source_text = ''value = true'' then Inr (leaf (TOML_TABLE [(''value'', leaf (TOML_BOOLEAN True))]))
      else Inl ''(line 1) syntax error'')"

definition user_asks :: "string \<Rightarrow> string \<Rightarrow> raw_override" where
  "user_asks name value_text = \<lparr>ov_option_id = Some name, ov_value_text = Some value_text, ov_span = sample_span\<rparr>"

definition effective_run :: "input_stop + linked_project \<times> compiled_structure \<times> assignment_ledger \<times> evaluation" where
  "effective_run = (case confit_v2_schema_link_project effective_project of
     Inl e \<Rightarrow> Inl Undefined_Access
   | Inr linked \<Rightarrow>
       bind_res (diagnosed (confit_v2_compile_structure linked)) (\<lambda>compiled.
       bind_res (confit_v2_assignment_ledger_build (sample_services\<lparr>svc_toml_parse_named := effective_parser\<rparr>) compiled
         (Some \<lparr>lo_profile_name = None, lo_target_name = None, lo_target_span = sample_span, lo_profile_overrides = [],
                lo_user_overrides = [user_asks ''a.b'' ''2'', user_asks ''a.c'' ''true'']\<rparr>)) (\<lambda>ledger.
       bind_res (confit_v2_evaluation_build ledger) (\<lambda>result. Inr (linked, compiled, ledger, result)))))"

lemma effective_run_values:
  "case effective_run of
     Inl e \<Rightarrow> False
   | Inr (linked, compiled, ledger, result) \<Rightarrow>
       map ef_value (evl_values result) = [V_Int 2, V_Bool 1, V_Int 3]
       \<and> map cr_available (evl_choices result) = [True]
       \<and> map (\<lambda>c. choice_cardinality (cc_source c)) (cs_choices compiled) = [EXACTLY_ONE]"
  by code_simp

lemma effective_sample:
  obtains linked compiled ledger result where
    "confit_v2_schema_link_project effective_project = Inr linked" "confit_v2_compile_structure linked = Inr compiled"
    "al_compiled ledger = compiled" "confit_v2_evaluation_build ledger = Inr result"
    "map ef_value (evl_values result) = [V_Int 2, V_Bool 1, V_Int 3]" "map cr_available (evl_choices result) = [True]"
    "map (\<lambda>c. choice_cardinality (cc_source c)) (cs_choices compiled) = [EXACTLY_ONE]"
proof -
  from effective_run_values obtain linked compiled ledger result where
    run: "effective_run = Inr (linked, compiled, ledger, result)"
    and facts: "map ef_value (evl_values result) = [V_Int 2, V_Bool 1, V_Int 3]" "map cr_available (evl_choices result) = [True]"
      "map (\<lambda>c. choice_cardinality (cc_source c)) (cs_choices compiled) = [EXACTLY_ONE]"
    by (auto split: sum.splits prod.splits)
  have kept: "confit_v2_assignment_ledger_build services compiled options = Inr ledger \<Longrightarrow> al_compiled ledger = compiled"
    for services compiled options ledger
    by (auto simp: confit_v2_assignment_ledger_build_def bind_simps Let_def)
  from run show thesis
    by (intro that [OF _ _ kept _ facts])
      (auto simp: effective_run_def diagnosed_def bind_simps split: sum.splits)
qed

lemma effective_values_unique_witness:
  "\<exists>linked ledger result. confit_v2_schema_link_project effective_project = Inr linked
     \<and> confit_v2_evaluation_build ledger = Inr result \<and> solves linked ledger (evl_values result)
     \<and> map ef_value (evl_values result) = [V_Int 2, V_Bool 1, V_Int 3]"
proof (rule effective_sample)
  fix linked compiled ledger result
  assume run: "confit_v2_schema_link_project effective_project = Inr linked" "confit_v2_compile_structure linked = Inr compiled"
    "al_compiled ledger = compiled" "confit_v2_evaluation_build ledger = Inr result"
    "map ef_value (evl_values result) = [V_Int 2, V_Bool 1, V_Int 3]"
  then have "cs_linked (al_compiled ledger) = linked" using compiled_source by blast
  from effective_values_unique [OF run(1) this run(4), of "evl_values result"]
  have "solves linked ledger (evl_values result)" by simp
  with run show ?thesis by (intro exI [of _ linked] exI [of _ ledger] exI [of _ result] conjI)
qed

lemma effective_loaded: "loaded_project effective_project"
  by (simp add: loaded_project_def effective_project_def sample_project_def sample_choice_def sample_constraint_def
      sample_source_def)

lemma effective_choices_settled_witness:
  "\<exists>c r vs env. choice_settled vs env c r \<and> choice_cardinality (cc_source c) = EXACTLY_ONE \<and> cr_available r
     \<and> cr_selected_member r \<noteq> None"
proof (rule effective_sample)
  fix linked compiled ledger result
  assume run: "confit_v2_schema_link_project effective_project = Inr linked" "confit_v2_compile_structure linked = Inr compiled"
    "al_compiled ledger = compiled" "confit_v2_evaluation_build ledger = Inr result" "map cr_available (evl_choices result) = [True]"
    "map (\<lambda>c. choice_cardinality (cc_source c)) (cs_choices compiled) = [EXACTLY_ONE]"
  with effective_choices_settled [OF run(1) effective_loaded, of ledger result] obtain c r where
    "choice_settled (evl_values result) (environment_of (evl_values result)) c r"
    "choice_cardinality (cc_source c) = EXACTLY_ONE" "cr_available r"
    by (auto simp: list_all2_Cons1)
  moreover from this have "cr_selected_member r \<noteq> None" by (simp add: choice_settled_def Let_def)
  ultimately show ?thesis by blast
qed

end
