(* ===== verification/Snapshot_Sample.thy ===== *)
theory Snapshot_Sample
  imports Reconcile_Correct Effective_Sample
begin

text \<open>
  An edit: the user first asks for \<open>a.b = 2\<close>, then for \<open>a.b = 1\<close>; \<open>a.c = true\<close> stays. \<open>a.e\<close> is computed as
  \<open>a.b + 1\<close>, the constraint \<open>limit\<close> reads \<open>a.b\<close>, the choice \<open>pick\<close> has the member \<open>a.c\<close>.
\<close>

definition edited_project :: v2_project where
  "edited_project = effective_project\<lparr>project_name := Some ''a'', project_config_root := Some ''c''\<rparr>"

definition edited_services :: input_services where
  "edited_services = sample_services\<lparr>svc_toml_parse_named := \<lambda>source_text source_name.
     if source_text = ''value = 1'' then Inr (leaf (TOML_TABLE [(''value'', leaf (TOML_INT64 1))]))
     else effective_parser source_text source_name\<rparr>"

definition asking :: "string \<Rightarrow> ledger_options option" where
  "asking n = Some \<lparr>lo_profile_name = None, lo_target_name = None, lo_target_span = sample_span, lo_profile_overrides = [],
     lo_user_overrides = [user_asks ''a.b'' n, user_asks ''a.c'' ''true'']\<rparr>"

definition compiled_sample :: "v2_project \<Rightarrow> input_stop + linked_project \<times> compiled_structure" where
  "compiled_sample p = (case confit_v2_schema_link_project p of
     Inl e \<Rightarrow> Inl Undefined_Access
   | Inr linked \<Rightarrow> bind_res (diagnosed (confit_v2_compile_structure linked)) (\<lambda>compiled. Inr (linked, compiled)))"

definition sample_run :: "v2_project \<Rightarrow> string \<Rightarrow> input_stop + linked_project \<times> compiled_structure \<times> assignment_ledger \<times> evaluation
    \<times> constraint_report \<times> diagnostic option" where
  "sample_run p n = bind_res (compiled_sample p) (\<lambda>(linked, compiled).
     bind_res (confit_v2_assignment_ledger_build edited_services compiled (asking n)) (\<lambda>ledger.
     bind_res (confit_v2_evaluation_build ledger) (\<lambda>result.
     bind_res (confit_v2_evaluation_validate_constraints result) (\<lambda>(report, failure).
       Inr (linked, compiled, ledger, result, report, failure)))))"

definition indexed :: "compiled_structure \<Rightarrow> evaluation \<Rightarrow> constraint_report \<Rightarrow> snapshot" where
  "indexed compiled result report =
     \<lparr>sn_project_name = [], sn_project_namespace = [], sn_project_version = None, sn_source_root = [], sn_profile_name = None,
      sn_target_name = None, sn_source_hash = 0, sn_input_hash = 0, sn_semantic_hash = 0, sn_options = [], sn_choices = [],
      sn_constraints = [], sn_provenance_nodes = [], sn_provenance_edges = [],
      sn_reverse_nodes = confit_v2_snapshot_build_reverse_index (map confit_v2_snapshot_copy_option (evl_values result))
        (map copy_choice (evl_choices result)) (map copy_constraint (rep_results report)) compiled\<rparr>"

definition run_shows :: "int \<Rightarrow> linked_project \<times> compiled_structure \<times> assignment_ledger \<times> evaluation
    \<times> constraint_report \<times> diagnostic option \<Rightarrow> bool" where
  "run_shows n = (\<lambda>(linked, compiled, ledger, result, report, failure).
     map ef_value (evl_values result) = [V_Int (word_of_int n), V_Bool 1, V_Int (word_of_int (n + 1))]
     \<and> map ef_is_set (evl_values result) = [True, True, True]
     \<and> map (\<lambda>v. sym_id (ef_symbol v)) (evl_values result) = [''a.b'', ''a.c'', ''a.e'']
     \<and> map asked_for (evl_values result)
       = [Some (False, ORIGIN_USER, V_Int (word_of_int n)), Some (False, ORIGIN_USER, V_Bool 1), None]
     \<and> map res_outcome (rep_results report) = [CONSTRAINT_PASSED] \<and> rep_failure_count report = 0 \<and> failure = None
     \<and> confit_v2_snapshot_invalidate (indexed compiled result report) ''a.b''
       = Inr [option_node ''a.b'', option_node ''a.e'', constraint_node ''limit''])"

lemma edited_run_base: "case sample_run edited_project ''2'' of Inl e \<Rightarrow> False | Inr outcome \<Rightarrow> run_shows 2 outcome"
  by code_simp

lemma edited_run_edit: "case sample_run edited_project ''1'' of Inl e \<Rightarrow> False | Inr outcome \<Rightarrow> run_shows 1 outcome"
  by code_simp

section \<open>The project is in the domain of the theorems\<close>

lemma edited_loaded: "loaded_project edited_project"
  by (simp add: edited_project_def loaded_project_def effective_project_def sample_project_def sample_choice_def
      sample_constraint_def sample_source_def)

lemma edited_texts: "texts_ok edited_project"
  by (simp add: edited_project_def texts_ok_def project_declarations_def symbol_declarations_def choice_declarations_def
      constraint_declarations_def declare_expression_def effective_project_def sample_project_def sample_symbol_def
      sample_choice_def sample_constraint_def sample_source_def is_cstring_def Let_def)

lemma edited_evaluable: "evaluable edited_project"
  by (simp add: edited_project_def evaluable_def range_typed_def effective_project_def sample_project_def sample_symbol_def
      sample_source_def)

lemma edited_separate: "separate_ids edited_project"
  by (simp add: separate_ids_def edited_project_def effective_project_def sample_project_def sample_symbol_def sample_choice_def)

lemma edited_named: "project_name edited_project \<noteq> None" "project_namespace edited_project \<noteq> None"
    "project_config_root edited_project \<noteq> None"
  by (simp_all add: edited_project_def effective_project_def sample_project_def)

section \<open>The two snapshots\<close>

lemma sample_run_parts:
  assumes "sample_run p n = Inr (linked, compiled, ledger, result, report, failure)"
  shows "compiled_sample p = Inr (linked, compiled)" "confit_v2_schema_link_project p = Inr linked"
    "confit_v2_compile_structure linked = Inr compiled"
    "confit_v2_assignment_ledger_build edited_services compiled (asking n) = Inr ledger" "al_compiled ledger = compiled"
    "confit_v2_evaluation_build ledger = Inr result" "confit_v2_evaluation_validate_constraints result = Inr (report, failure)"
proof -
  from assms have run: "compiled_sample p = Inr (linked, compiled)"
    "confit_v2_assignment_ledger_build edited_services compiled (asking n) = Inr ledger"
    "confit_v2_evaluation_build ledger = Inr result" "confit_v2_evaluation_validate_constraints result = Inr (report, failure)"
    by (auto simp: sample_run_def bind_simps)
  from run show "compiled_sample p = Inr (linked, compiled)" "confit_v2_evaluation_build ledger = Inr result"
    "confit_v2_assignment_ledger_build edited_services compiled (asking n) = Inr ledger"
    "confit_v2_evaluation_validate_constraints result = Inr (report, failure)" by simp_all
  from run(1) show "confit_v2_schema_link_project p = Inr linked" "confit_v2_compile_structure linked = Inr compiled"
    by (auto simp: compiled_sample_def diagnosed_def bind_simps split: sum.splits)
  show "al_compiled ledger = compiled" by (rule ledger_compiled [OF run(2)])
qed

lemma published:
  assumes run: "sample_run p n = Inr (linked, compiled, ledger, result, report, failure)"
    and passed: "rep_failure_count report = 0" "failure = None"
    and domain: "texts_ok p" "evaluable p"
    and named: "project_name p \<noteq> None" "project_namespace p \<noteq> None" "project_config_root p \<noteq> None"
  shows "\<exists>s. confit_v2_snapshot_resolve edited_services compiled (asking n) = Inr s \<and> snapshot_of compiled result report s"
proof -
  note parts = sample_run_parts [OF run]
  have "cs_linked compiled = linked" by (rule compiled_source [OF parts(3)])
  moreover have "lp_project linked = p" using parts(2) by (rule link_project_cases) simp
  ultimately have project: "lp_project (cs_linked compiled) = p" by simp
  have "evl_ledger result = ledger"
    using evaluation_result(5) [OF parts(2) _ parts(6)] compiled_source [OF parts(3)] parts(5) by simp
  moreover have "rep_compiled report = compiled"
    using constraint_report_outcome [OF parts(2) domain _ parts(6)] parts(3,5,7)
    by (simp add: report_exact_def)
  moreover obtain title space root where "project_name p = Some title" "project_namespace p = Some space" "project_config_root p = Some root"
    using named by blast
  ultimately obtain s where s: "confit_v2_snapshot_freeze ledger result report = Inr s"
    by (auto simp: confit_v2_snapshot_freeze_def Let_def parts(5) project passed)
  with freeze_holds [OF s] parts passed show ?thesis
    by (intro exI [of _ s]) (simp add: confit_v2_snapshot_resolve_def)
qed

lemma invalidate_nodes:
  "sn_reverse_nodes s = sn_reverse_nodes t \<Longrightarrow> confit_v2_snapshot_invalidate s c = confit_v2_snapshot_invalidate t c"
  by (simp add: confit_v2_snapshot_invalidate_def)

abbreviation edited_nodes :: "invalidation_node list" where
  "edited_nodes \<equiv> [option_node ''a.b'', option_node ''a.e'', constraint_node ''limit'']"

lemma edited_sample:
  obtains linked compiled ledger result report base edited where
    "confit_v2_schema_link_project edited_project = Inr linked" "confit_v2_compile_structure linked = Inr compiled"
    "al_compiled ledger = compiled" "confit_v2_evaluation_build ledger = Inr result"
    "map ef_value (evl_values result) = [V_Int 2, V_Bool 1, V_Int 3]"
    "confit_v2_evaluation_validate_constraints result = Inr (report, None)" "map res_outcome (rep_results report) = [CONSTRAINT_PASSED]"
    "confit_v2_snapshot_resolve edited_services compiled (asking ''2'') = Inr base"
    "confit_v2_snapshot_invalidate base ''a.b'' = Inr edited_nodes"
    "confit_v2_snapshot_reconcile_edit edited_services base compiled (asking ''1'') ''a.b'' = Inr (edited, edited_nodes)"
    "edits_only ''a.b'' base edited"
    "map so_effective_value (sn_options base) = [V_Int 2, V_Bool 1, V_Int 3]"
    "map so_effective_value (sn_options edited) = [V_Int 1, V_Bool 1, V_Int 2]"
proof -
  from edited_run_base edited_run_edit obtain linked compiled ledger result report failure linked' compiled' ledger' result' report' failure'
    where run: "sample_run edited_project ''2'' = Inr (linked, compiled, ledger, result, report, failure)"
        "run_shows 2 (linked, compiled, ledger, result, report, failure)"
      and edit: "sample_run edited_project ''1'' = Inr (linked', compiled', ledger', result', report', failure')"
        "run_shows 1 (linked', compiled', ledger', result', report', failure')"
    by (auto split: sum.splits)
  note first = sample_run_parts [OF run(1)] and second = sample_run_parts [OF edit(1)]
  have same: "compiled' = compiled" using trans [OF sym [OF first(1)] second(1)] by simp
  obtain base where base: "confit_v2_snapshot_resolve edited_services compiled (asking ''2'') = Inr base"
    "snapshot_of compiled result report base"
    using published [OF run(1) _ _ edited_texts edited_evaluable edited_named] run(2) by (auto simp: run_shows_def)
  obtain edited where edited: "confit_v2_snapshot_resolve edited_services compiled (asking ''1'') = Inr edited"
    "snapshot_of compiled result' report' edited"
    using published [OF edit(1) _ _ edited_texts edited_evaluable edited_named] edit(2) same by (auto simp: run_shows_def)
  have "sn_reverse_nodes base = sn_reverse_nodes (indexed compiled result report)" using base(2) by (simp add: snapshot_of_def indexed_def)
  from invalidate_nodes [OF this] have affected: "confit_v2_snapshot_invalidate base ''a.b'' = Inr edited_nodes"
    using run(2) by (simp add: run_shows_def)
  have options: "sn_options base = map confit_v2_snapshot_copy_option (evl_values result)"
    "sn_options edited = map confit_v2_snapshot_copy_option (evl_values result')" using base(2) edited(2) by (simp_all add: snapshot_of_def)
  obtain v1 v2 v3 where v: "evl_values result = [v1, v2, v3]" using run(2) by (auto simp: run_shows_def)
  obtain w1 w2 w3 where w: "evl_values result' = [w1, w2, w3]" using edit(2) by (auto simp: run_shows_def)
  have copied: "so_id (confit_v2_snapshot_copy_option u) = sym_id (ef_symbol u)"
    "so_effective_value (confit_v2_snapshot_copy_option u) = (if ef_is_set u then ef_value u else V_Unset)" for u
    by (simp_all add: confit_v2_snapshot_copy_option_def)
  note base_shows = run(2) [unfolded run_shows_def prod.case v] and edit_shows = edit(2) [unfolded run_shows_def prod.case w]
  have only: "edits_only ''a.b'' base edited"
    using base_shows edit_shows unfolding edits_only_def options v w
    by (auto simp: request_of_copy copied less_Suc_eq)
  have shown: "map ef_value (evl_values result) = [V_Int 2, V_Bool 1, V_Int 3]" "failure = None"
    "map res_outcome (rep_results report) = [CONSTRAINT_PASSED]"
    "map so_effective_value (sn_options base) = [V_Int 2, V_Bool 1, V_Int 3]"
    "map so_effective_value (sn_options edited) = [V_Int 1, V_Bool 1, V_Int 2]"
    using base_shows edit_shows by (simp_all add: options v w copied)
  have "confit_v2_snapshot_reconcile_edit edited_services base compiled (asking ''1'') ''a.b'' = Inr (edited, edited_nodes)"
    by (simp add: confit_v2_snapshot_reconcile_edit_def affected edited(1))
  from that [OF first(2,3,5,6) shown(1) first(7) [unfolded shown(2)] shown(3) base(1) affected this only shown(4,5)] show thesis .
qed

section \<open>Witnesses\<close>

lemma evaluation_outcome_witness:
  "\<exists>linked ledger result. confit_v2_schema_link_project edited_project = Inr linked
     \<and> confit_v2_evaluation_build ledger = Inr result \<and> map ef_symbol (evl_values result) = lp_symbols linked
     \<and> map ef_value (evl_values result) = [V_Int 2, V_Bool 1, V_Int 3]"
proof (rule edited_sample)
  fix linked compiled ledger result
  assume run: "confit_v2_schema_link_project edited_project = Inr linked" "confit_v2_compile_structure linked = Inr compiled"
    "al_compiled ledger = compiled" "confit_v2_evaluation_build ledger = Inr result"
    "map ef_value (evl_values result) = [V_Int 2, V_Bool 1, V_Int 3]"
  with evaluation_outcome [OF run(1) edited_texts edited_loaded edited_evaluable, of ledger]
  have "map ef_symbol (evl_values result) = lp_symbols linked" by simp
  with run show ?thesis by (intro exI [of _ linked] exI [of _ ledger] exI [of _ result] conjI)
qed

lemma constraint_report_exact_witness:
  "\<exists>linked compiled result report. confit_v2_evaluation_validate_constraints result = Inr (report, None)
     \<and> report_exact linked compiled (evl_values result) report \<and> map res_outcome (rep_results report) = [CONSTRAINT_PASSED]"
proof (rule edited_sample)
  fix linked compiled ledger result report
  assume run: "confit_v2_schema_link_project edited_project = Inr linked" "confit_v2_compile_structure linked = Inr compiled"
    "al_compiled ledger = compiled" "confit_v2_evaluation_build ledger = Inr result"
    "confit_v2_evaluation_validate_constraints result = Inr (report, None)" "map res_outcome (rep_results report) = [CONSTRAINT_PASSED]"
  with constraint_report_exact [OF run(1) edited_texts edited_evaluable, of ledger result]
  have "report_exact linked compiled (evl_values result) report" by simp
  with run(5,6) show ?thesis
    by (intro exI [of _ linked] exI [of _ compiled] exI [of _ result] exI [of _ report] conjI)
qed

lemma invalidation_exact_witness:
  "\<exists>linked s d. confit_v2_schema_link_project edited_project = Inr linked
     \<and> confit_v2_snapshot_invalidate s ''a.b'' = Inr edited_nodes \<and> set edited_nodes = dependents edited_project ''a.b''
     \<and> confit_v2_snapshot_invalidate s ''zz'' = Inl (Diagnosed d) \<and> diag_status d = CONFIT_ERR_INVALID_ARGUMENT"
proof (rule edited_sample)
  fix linked compiled base
  assume run: "confit_v2_schema_link_project edited_project = Inr linked" "confit_v2_compile_structure linked = Inr compiled"
    "confit_v2_snapshot_resolve edited_services compiled (asking ''2'') = Inr base"
    "confit_v2_snapshot_invalidate base ''a.b'' = Inr edited_nodes"
  note exact = invalidation_exact [OF run(1) edited_texts edited_loaded edited_evaluable run(2,3)]
  from exact [of "''a.b''"] run(4) edited_separate have known: "set edited_nodes = dependents edited_project ''a.b''" by simp
  have "''zz'' \<notin> sym_id ` set (project_symbols edited_project)"
    by (simp add: edited_project_def effective_project_def sample_project_def sample_symbol_def)
  with exact [of "''zz''"] obtain d where "confit_v2_snapshot_invalidate base ''zz'' = Inl (Diagnosed d)"
    "diag_status d = CONFIT_ERR_INVALID_ARGUMENT" by (auto split: sum.splits)
  with run(1,4) known show ?thesis
    by (intro exI [of _ linked] exI [of _ base] exI [of _ d] conjI)
qed

lemma reconcile_edit_sound_witness:
  "\<exists>compiled base edited. confit_v2_snapshot_reconcile_edit edited_services base compiled (asking ''1'') ''a.b'' = Inr (edited, edited_nodes)
     \<and> dependents edited_project ''a.b'' \<subseteq> set edited_nodes \<and> unchanged_outside edited_nodes base edited
     \<and> map so_effective_value (sn_options base) = [V_Int 2, V_Bool 1, V_Int 3]
     \<and> map so_effective_value (sn_options edited) = [V_Int 1, V_Bool 1, V_Int 2]"
proof (rule edited_sample)
  fix linked compiled base edited
  assume run: "confit_v2_schema_link_project edited_project = Inr linked" "confit_v2_compile_structure linked = Inr compiled"
    "confit_v2_snapshot_resolve edited_services compiled (asking ''2'') = Inr base"
    "confit_v2_snapshot_reconcile_edit edited_services base compiled (asking ''1'') ''a.b'' = Inr (edited, edited_nodes)"
    "edits_only ''a.b'' base edited"
    and "output": "map so_effective_value (sn_options base) = [V_Int 2, V_Bool 1, V_Int 3]"
    "map so_effective_value (sn_options edited) = [V_Int 1, V_Bool 1, V_Int 2]"
  have none: "shared_choices edited_project = {}" using edited_separate by (simp add: shared_choices_def separate_ids_def)
  from reconcile_edit_sound [OF run(1) edited_texts edited_loaded edited_evaluable run(2-5)]
  have "dependents edited_project ''a.b'' - shared_choices edited_project \<subseteq> set edited_nodes"
    "unchanged_outside edited_nodes base edited" by blast+
  with run(4) "output" none show ?thesis
    by (intro exI [of _ compiled] exI [of _ base] exI [of _ edited] conjI) simp_all
qed

section \<open>A choice with the id of an option\<close>

text \<open>The choice now has the id of the option \<open>a.b\<close>; its member \<open>a.c\<close> is edited.\<close>

definition shared_project :: v2_project where
  "shared_project = edited_project\<lparr>project_choices := [sample_choice\<lparr>choice_id := ''a.b'', choice_members := [''a.c''], choice_defaults := []\<rparr>]\<rparr>"

lemma shared_run: "case sample_run shared_project ''2'' of Inl e \<Rightarrow> False
  | Inr (linked, compiled, ledger, result, report, failure) \<Rightarrow> rep_failure_count report = 0 \<and> failure = None"
  by code_simp

lemma shared_loaded: "loaded_project shared_project"
  by (simp add: shared_project_def edited_project_def loaded_project_def effective_project_def sample_project_def sample_choice_def
      sample_constraint_def sample_source_def)

lemma shared_texts: "texts_ok shared_project"
  by (simp add: shared_project_def edited_project_def texts_ok_def project_declarations_def symbol_declarations_def choice_declarations_def
      constraint_declarations_def declare_expression_def effective_project_def sample_project_def sample_symbol_def
      sample_choice_def sample_constraint_def sample_source_def is_cstring_def Let_def)

lemma shared_evaluable: "evaluable shared_project"
  by (simp add: shared_project_def edited_project_def evaluable_def range_typed_def effective_project_def sample_project_def
      sample_symbol_def sample_source_def)

lemma shared_id_choice_missed_witness:
  "\<exists>s out. confit_v2_snapshot_invalidate s ''a.c'' = Inr out \<and> choice_node ''a.b'' \<in> dependents shared_project ''a.c''
     \<and> choice_node ''a.b'' \<notin> set out"
proof -
  from shared_run obtain linked compiled ledger result report failure
    where run: "sample_run shared_project ''2'' = Inr (linked, compiled, ledger, result, report, failure)"
      "rep_failure_count report = 0" "failure = None"
    by (auto split: sum.splits)
  have named: "project_name shared_project \<noteq> None" "project_namespace shared_project \<noteq> None" "project_config_root shared_project \<noteq> None"
    using edited_named by (simp_all add: shared_project_def)
  note parts = sample_run_parts [OF run(1)]
  obtain s where s: "confit_v2_snapshot_resolve edited_services compiled (asking ''2'') = Inr s"
    using published [OF run shared_texts shared_evaluable named] by blast
  note domain = parts(2) shared_texts shared_loaded shared_evaluable parts(3) s
  obtain d where d: "d \<in> set (project_choices shared_project)" "''a.c'' \<in> set (choice_members d)" "choice_id d = ''a.b''"
    by (simp add: shared_project_def)
  have options: "''a.b'' \<in> sym_id ` set (project_symbols shared_project)" "''a.c'' \<in> sym_id ` set (project_symbols shared_project)"
    by (simp_all add: shared_project_def edited_project_def effective_project_def sample_project_def sample_symbol_def)
  obtain out where out: "confit_v2_snapshot_invalidate s ''a.c'' = Inr out"
    using edit_outcome [OF domain, of "''a.c''"] options(2) by (auto split: sum.splits)
  from shared_id_choice_missed [OF domain out d(1,2)] d(3) options(1) out show ?thesis by (intro exI [of _ s] exI [of _ out]) simp
qed

end
