(* ===== verification/Identifier_Index.thy ===== *)
theory Identifier_Index
  imports Prelude
begin

text \<open>
  The identifier index of \<open>src/model/v2/model.c\<close>, a hash set of C strings with open addressing and linear
  probing; the loader asks it whether an identifier was declared before. A null slot is \<open>None\<close>, and
  the capacity is the length of the array. A probe that meets no null slot does not return, which is
  the value \<open>None\<close> of the two loops. Freeing and the failure of an allocation are not modelled.
\<close>

section \<open>Index\<close>

record identifier_index =
  idx_slots :: "string option list"
  idx_count :: nat

abbreviation idx_capacity :: "identifier_index \<Rightarrow> nat" where
  "idx_capacity index \<equiv> length (idx_slots index)"

definition empty_index :: identifier_index where
  "empty_index = \<lparr>idx_slots = [], idx_count = 0\<rparr>"

definition confit_v2_identifier_hash :: "string \<Rightarrow> u64" where
  "confit_v2_identifier_hash identifier =
     foldl (\<lambda>hash c. xor hash (of_nat (byte c)) * 1099511628211) 1469598103934665603 identifier"

definition first_slot :: "nat \<Rightarrow> string \<Rightarrow> nat" where
  "first_slot capacity identifier = and (unat (confit_v2_identifier_hash identifier)) (capacity - 1)"

definition next_slot :: "nat \<Rightarrow> nat \<Rightarrow> nat" where
  "next_slot capacity cursor = and (cursor + 1) (capacity - 1)"

text \<open>The loop of the rehash: the first null slot.\<close>

partial_function (option) free_slot :: "string option list \<Rightarrow> nat \<Rightarrow> nat option" where
  "free_slot slots cursor =
     (case slots ! cursor of
        None \<Rightarrow> Some cursor
      | Some present \<Rightarrow> free_slot slots (next_slot (length slots) cursor))"

text \<open>The loop of the insertion: the first slot that is null or holds the identifier.\<close>

partial_function (option) find_slot :: "string option list \<Rightarrow> string \<Rightarrow> nat \<Rightarrow> nat option" where
  "find_slot slots identifier cursor =
     (case slots ! cursor of
        None \<Rightarrow> Some cursor
      | Some present \<Rightarrow>
          if strcmp present identifier = 0 then Some cursor
          else find_slot slots identifier (next_slot (length slots) cursor))"

declare free_slot.simps [code] find_slot.simps [code]

definition rehash_slot :: "string option \<Rightarrow> string option list \<Rightarrow> string option list option" where
  "rehash_slot slot slots = (case slot of
     None \<Rightarrow> Some slots
   | Some identifier \<Rightarrow>
       map_option (\<lambda>cursor. slots[cursor := Some identifier]) (free_slot slots (first_slot (length slots) identifier)))"

fun rehash_slots :: "string option list \<Rightarrow> string option list \<Rightarrow> string option list option" where
  "rehash_slots [] slots = Some slots"
| "rehash_slots (slot # rest) slots = Option.bind (rehash_slot slot slots) (rehash_slots rest)"

definition size_limit :: nat where "size_limit = (2 ^ 64 - 1) div 8"

text \<open>A failure is the status, \<open>None\<close> a loop that does not return.\<close>

definition confit_v2_identifier_index_rehash :: "identifier_index \<Rightarrow> nat \<Rightarrow> (status + identifier_index) option" where
  "confit_v2_identifier_index_rehash index capacity =
     (if capacity = 0 \<or> and capacity (capacity - 1) \<noteq> 0 \<or> capacity > size_limit then Some (Inl CONFIT_ERR_INTERNAL)
      else map_option (\<lambda>slots. Inr (index\<lparr>idx_slots := slots\<rparr>)) (rehash_slots (idx_slots index) (replicate capacity None)))"

definition index_grown :: "identifier_index \<Rightarrow> (status + identifier_index) option" where
  "index_grown index =
     (if idx_capacity index = 0 \<or> idx_count index + 1 > idx_capacity index - idx_capacity index div 4 then
        let capacity = (if idx_capacity index = 0 then 16 else idx_capacity index * 2)
        in if capacity > size_limit then Some (Inl CONFIT_ERR_INTERNAL)
           else confit_v2_identifier_index_rehash index capacity
      else Some (Inr index))"

text \<open>The index after the insertion, with the flag of a duplicate.\<close>

definition index_place :: "identifier_index \<Rightarrow> string \<Rightarrow> (identifier_index \<times> bool) option" where
  "index_place index identifier =
     map_option (\<lambda>cursor.
         if idx_slots index ! cursor \<noteq> None then (index, True)
         else (index\<lparr>idx_slots := (idx_slots index)[cursor := Some identifier], idx_count := idx_count index + 1\<rparr>, False))
       (find_slot (idx_slots index) identifier (first_slot (idx_capacity index) identifier))"

definition confit_v2_identifier_index_insert ::
  "identifier_index \<Rightarrow> string \<Rightarrow> (status + identifier_index \<times> bool) option" where
  "confit_v2_identifier_index_insert index identifier =
     Option.bind (index_grown index) (\<lambda>grown. case grown of
        Inl st \<Rightarrow> Some (Inl st)
      | Inr index \<Rightarrow> map_option Inr (index_place index identifier))"

text \<open>A run of insertions, as a loader makes them: the flags in order.\<close>

fun insert_identifiers :: "identifier_index \<Rightarrow> string list \<Rightarrow> (status + identifier_index \<times> bool list) option" where
  "insert_identifiers index [] = Some (Inr (index, []))"
| "insert_identifiers index (identifier # rest) =
     Option.bind (confit_v2_identifier_index_insert index identifier) (\<lambda>r. case r of
        Inl st \<Rightarrow> Some (Inl st)
      | Inr (index, duplicate) \<Rightarrow>
          map_option (map_sum (\<lambda>st. st) (\<lambda>(index, flags). (index, duplicate # flags))) (insert_identifiers index rest))"

end
