(* ===== verification/Index_Correct.thy ===== *)
theory Index_Correct
  imports Identifier_Index
begin

text \<open>
  The identifier index: a probe always ends, because an eighth of the slots at least stays null, and it
  finds an identifier exactly when it was inserted before.
\<close>

section \<open>Probing\<close>

lemma and_mask: "and (x :: nat) (2 ^ k - 1) = x mod 2 ^ k"
  by (simp add: take_bit_eq_mod [symmetric] take_bit_eq_mask mask_eq_exp_minus_1)

lemma first_slot_mod: "capacity = 2 ^ k \<Longrightarrow> first_slot capacity s = unat (confit_v2_identifier_hash s) mod capacity"
  using and_mask [of "unat (confit_v2_identifier_hash s)" k] by (simp add: first_slot_def)

lemma next_slot_mod: "capacity = 2 ^ k \<Longrightarrow> next_slot capacity c = (c + 1) mod capacity"
  using and_mask [of "c + 1" k] by (simp add: next_slot_def)

text \<open>The slot that a probe from \<open>c\<close> sees after \<open>d\<close> steps.\<close>

abbreviation probed :: "string option list \<Rightarrow> nat \<Rightarrow> nat \<Rightarrow> string option" where
  "probed slots c d \<equiv> slots ! ((c + d) mod length slots)"

lemma free_slot_at:
  assumes "length slots = 2 ^ k" "\<And>e. e < d \<Longrightarrow> probed slots c e \<noteq> None" "probed slots c d = None"
  shows "free_slot slots (c mod length slots) = Some ((c + d) mod length slots)"
  using assms(2,3)
proof (induction d arbitrary: c)
  case 0
  then show ?case by (subst free_slot.simps) simp
next
  case (Suc d)
  have "free_slot slots ((c + 1) mod length slots) = Some ((c + 1 + d) mod length slots)"
    using Suc.prems(1) [of "Suc e" for e] Suc.prems(2) by (intro Suc.IH) simp_all
  then show ?case
    using Suc.prems(1) [of 0] by (subst free_slot.simps) (auto simp: next_slot_mod [OF assms(1)] mod_simps)
qed

lemma find_slot_at:
  assumes "length slots = 2 ^ k" "\<And>e. e < d \<Longrightarrow> probed slots c e \<noteq> None \<and> probed slots c e \<noteq> Some s"
    and "probed slots c d = None \<or> probed slots c d = Some s"
  shows "find_slot slots s (c mod length slots) = Some ((c + d) mod length slots)"
  using assms(2,3)
proof (induction d arbitrary: c)
  case 0
  then show ?case by (subst find_slot.simps) (auto simp: strcmp_eq split: option.split)
next
  case (Suc d)
  have "find_slot slots s ((c + 1) mod length slots) = Some ((c + 1 + d) mod length slots)"
    using Suc.prems(1) [of "Suc e" for e] Suc.prems(2) by (intro Suc.IH) simp_all
  then show ?case
    using Suc.prems(1) [of 0] by (subst find_slot.simps) (auto simp: next_slot_mod [OF assms(1)] mod_simps strcmp_eq)
qed

lemma every_slot_probed:
  assumes "j < n" shows "\<exists>d<n. (c + d) mod n = (j :: nat)"
proof -
  have "(c + (j + (n - c mod n)) mod n) mod n = (c mod n + (j + (n - c mod n))) mod n"
    by (simp add: mod_simps)
  also have "c mod n + (j + (n - c mod n)) = j + n"
    using mod_less_divisor [of n c] assms by arith
  also have "(j + n) mod n = j" using assms by simp
  finally show ?thesis using assms by (metis mod_less_divisor not_less_zero neq0_conv)
qed

text \<open>The first step at which a probe stops.\<close>

lemma probe_stops:
  assumes "j < length slots" "P (slots ! j)"
  shows "\<exists>d. P (probed slots c d) \<and> (\<forall>e<d. \<not> P (probed slots c e))"
proof -
  obtain b where "P (probed slots c b)"
    using every_slot_probed [OF assms(1), of c] assms(2) by metis
  then show ?thesis using exists_least_iff [of "\<lambda>d. P (probed slots c d)"] by blast
qed

section \<open>The invariant\<close>

definition slot_ids :: "string option list \<Rightarrow> string set" where
  "slot_ids slots = {s. Some s \<in> set slots}"

definition filled :: "string option list \<Rightarrow> nat set" where
  "filled slots = {j. j < length slots \<and> slots ! j \<noteq> None}"

text \<open>An identifier is reached from its first slot over filled ones.\<close>

definition slots_reached :: "string option list \<Rightarrow> bool" where
  "slots_reached slots \<longleftrightarrow> (\<forall>j<length slots. \<forall>s. slots ! j = Some s \<longrightarrow>
     (\<exists>d. j = (first_slot (length slots) s + d) mod length slots
        \<and> (\<forall>e<d. probed slots (first_slot (length slots) s) e \<noteq> None)))"

definition index_ok :: "identifier_index \<Rightarrow> bool" where
  "index_ok index \<longleftrightarrow> idx_count index = card (filled (idx_slots index)) \<and> slots_reached (idx_slots index)
     \<and> (idx_slots index = [] \<or> (\<exists>k\<ge>4. idx_capacity index = 2 ^ k \<and> k \<le> 60))
     \<and> idx_count index \<le> idx_capacity index - idx_capacity index div 4"

lemma filled_finite: "finite (filled slots)"
  by (simp add: filled_def)

lemma filled_update: "j < length slots \<Longrightarrow> slots ! j = None \<Longrightarrow> filled (slots[j := Some s]) = insert j (filled slots)"
  by (auto simp: filled_def nth_list_update)

lemma card_filled_update:
  "j < length slots \<Longrightarrow> slots ! j = None \<Longrightarrow> card (filled (slots[j := Some s])) = card (filled slots) + 1"
  by (subst filled_update) (auto simp: filled_def card_insert_if)

lemma slot_ids_update:
  "j < length slots \<Longrightarrow> slots ! j = None \<Longrightarrow> slot_ids (slots[j := Some s]) = insert s (slot_ids slots)"
  by (auto simp: slot_ids_def in_set_conv_nth nth_list_update) (metis option.distinct(1))+

lemma null_slot: "card (filled slots) < length slots \<Longrightarrow> \<exists>j<length slots. slots ! j = None"
proof (rule ccontr)
  assume "card (filled slots) < length slots" "\<not> (\<exists>j<length slots. slots ! j = None)"
  then have "filled slots = {..<length slots}" by (auto simp: filled_def)
  then show False using \<open>card (filled slots) < length slots\<close> by simp
qed

lemma slots_reached_update:
  assumes "slots_reached slots" "length slots = 2 ^ k" "j = (first_slot (length slots) s + d) mod length slots" "slots ! j = None"
    and "\<And>e. e < d \<Longrightarrow> probed slots (first_slot (length slots) s) e \<noteq> None"
  shows "slots_reached (slots[j := Some s])"
  unfolding slots_reached_def length_list_update
proof (intro allI impI)
  fix i t assume i: "i < length slots" "slots[j := Some s] ! i = Some t"
  have keep: "slots[j := Some s] ! m \<noteq> None" if "slots ! m \<noteq> None" for m
    using that assms(4) by (cases "m = j") auto
  show "\<exists>d. i = (first_slot (length slots) t + d) mod length slots
     \<and> (\<forall>e<d. slots[j := Some s] ! ((first_slot (length slots) t + e) mod length slots) \<noteq> None)"
  proof (cases "i = j")
    case True
    then have "t = s" using i by simp
    then show ?thesis using True assms(3,5) keep by blast
  next
    case False
    then have "slots ! i = Some t" using i by simp
    then show ?thesis using assms(1) i(1) keep unfolding slots_reached_def by meson
  qed
qed

section \<open>Operations\<close>

lemma first_slot_bound: "length slots = 2 ^ k \<Longrightarrow> first_slot (length slots) s mod length slots = first_slot (length slots) s"
  by (simp add: first_slot_mod [of _ k])

lemma rehash_slot_ok:
  assumes "slots_reached slots" "length slots = 2 ^ k" "card (filled slots) < length slots"
  shows "\<exists>slots'. rehash_slot slot slots = Some slots' \<and> slots_reached slots' \<and> length slots' = length slots
    \<and> slot_ids slots' = slot_ids slots \<union> set_option slot
    \<and> card (filled slots') = card (filled slots) + (if slot = None then 0 else 1)"
proof (cases slot)
  case (Some s)
  obtain j where "j < length slots" "slots ! j = None" using null_slot [OF assms(3)] by blast
  then obtain d where d: "probed slots (first_slot (length slots) s) d = None"
      "\<And>e. e < d \<Longrightarrow> probed slots (first_slot (length slots) s) e \<noteq> None"
    using probe_stops [where P = "\<lambda>x. x = None" and c = "first_slot (length slots) s"] by blast
  define c where "c = (first_slot (length slots) s + d) mod length slots"
  have "free_slot slots (first_slot (length slots) s) = Some c"
    using free_slot_at [OF assms(2) d(2,1)] by (simp add: first_slot_bound [OF assms(2)] c_def)
  moreover have "c < length slots" using assms(2) by (simp add: c_def)
  moreover have "slots_reached (slots[c := Some s])"
    using slots_reached_update [OF assms(1,2) c_def] d by (simp add: c_def)
  ultimately show ?thesis
    using d(1) by (auto simp: rehash_slot_def Some c_def [symmetric] slot_ids_update card_filled_update)
qed (use assms in \<open>simp add: rehash_slot_def\<close>)

lemma slot_ids_Cons: "slot_ids (slot # slots) = set_option slot \<union> slot_ids slots"
  by (auto simp: slot_ids_def)

lemma rehash_slots_ok:
  assumes "slots_reached slots" "length slots = 2 ^ k" "card (filled slots) + length (filter (\<lambda>s. s \<noteq> None) old) < length slots"
  shows "\<exists>slots'. rehash_slots old slots = Some slots' \<and> slots_reached slots' \<and> length slots' = length slots
    \<and> slot_ids slots' = slot_ids slots \<union> slot_ids old
    \<and> card (filled slots') = card (filled slots) + length (filter (\<lambda>s. s \<noteq> None) old)"
  using assms
proof (induction old arbitrary: slots)
  case Nil
  then show ?case by (simp add: slot_ids_def)
next
  case (Cons slot old)
  have first: "card (filled slots) < length slots" using Cons.prems(3) by simp
  obtain mid where mid: "rehash_slot slot slots = Some mid" "slots_reached mid" "length mid = length slots"
      "slot_ids mid = slot_ids slots \<union> set_option slot"
      "card (filled mid) = card (filled slots) + (if slot = None then 0 else 1)"
    using rehash_slot_ok [OF Cons.prems(1,2) first, of slot] by blast
  have length: "length mid = 2 ^ k" using mid(3) Cons.prems(2) by simp
  have rest: "card (filled mid) + length (filter (\<lambda>s. s \<noteq> None) old) < length mid"
    using Cons.prems(3) mid(3,5) by (cases slot) simp_all
  obtain slots' where slots': "rehash_slots old mid = Some slots'" "slots_reached slots'" "length slots' = length mid"
      "slot_ids slots' = slot_ids mid \<union> slot_ids old"
      "card (filled slots') = card (filled mid) + length (filter (\<lambda>s. s \<noteq> None) old)"
    using Cons.IH [OF mid(2) length rest] by blast
  then show ?case
    using mid by (intro exI [of _ slots']) (simp add: slot_ids_Cons Un_assoc)
qed

lemma filled_length: "length (filter (\<lambda>s. s \<noteq> None) slots) = card (filled slots)"
  by (simp add: filled_def length_filter_conv_card)

lemma index_ok_empty: "index_ok empty_index"
  by (simp add: index_ok_def empty_index_def filled_def slots_reached_def)

lemma size_limit_power: "2 ^ k > size_limit \<longleftrightarrow> k > 60"
proof -
  have "size_limit = 2305843009213693951" "(2 :: nat) ^ 61 = 2305843009213693952" by (simp_all add: size_limit_def)
  then have "2 ^ k > size_limit \<longleftrightarrow> (2 :: nat) ^ k \<ge> 2 ^ 61" by linarith
  also have "\<dots> \<longleftrightarrow> k \<ge> 61" by (rule power_increasing_iff) simp
  finally show ?thesis by auto
qed

lemma index_grown_ok:
  assumes "index_ok index"
  shows "index_grown index = Some (Inl CONFIT_ERR_INTERNAL) \<and> idx_count index \<ge> 3 * 2 ^ 58
    \<or> (\<exists>grown. index_grown index = Some (Inr grown) \<and> index_ok grown \<and> idx_count grown = idx_count index
         \<and> idx_count grown + 1 \<le> idx_capacity grown - idx_capacity grown div 4
         \<and> slot_ids (idx_slots grown) = slot_ids (idx_slots index))"
proof -
  have rehash: "\<exists>grown. confit_v2_identifier_index_rehash index (2 ^ k) = Some (Inr grown) \<and> index_ok grown
       \<and> idx_count grown = idx_count index \<and> idx_count grown + 1 \<le> idx_capacity grown - idx_capacity grown div 4
       \<and> slot_ids (idx_slots grown) = slot_ids (idx_slots index)"
    if k: "4 \<le> k" "k \<le> 60" and room: "idx_count index + 1 \<le> 2 ^ k - 2 ^ k div 4" for k
  proof -
    let ?null = "replicate (2 ^ k) None :: string option list"
    have null: "slots_reached ?null" "length ?null = 2 ^ k" "filled ?null = {}" "slot_ids ?null = {}"
      by (auto simp: slots_reached_def filled_def slot_ids_def)
    have count: "idx_count index = card (filled (idx_slots index))" using assms by (simp add: index_ok_def)
    have "card (filled ?null) + length (filter (\<lambda>s. s \<noteq> None) (idx_slots index)) < length ?null"
      using room count unfolding filled_length null by simp
    from rehash_slots_ok [OF null(1,2) this] obtain slots where
      slots: "rehash_slots (idx_slots index) ?null = Some slots" "slots_reached slots" "length slots = 2 ^ k"
        "slot_ids slots = slot_ids (idx_slots index)" "card (filled slots) = idx_count index"
      unfolding filled_length null count by auto
    have "and (2 ^ k) (2 ^ k - 1) = (0 :: nat)" unfolding and_mask by simp
    then show ?thesis
      using slots k room size_limit_power [of k]
      by (auto simp: confit_v2_identifier_index_rehash_def index_ok_def)
  qed
  show ?thesis
  proof (cases "idx_capacity index = 0")
    case True
    then have "idx_count index = 0" using assms by (simp add: index_ok_def filled_def)
    then show ?thesis
      using rehash [of 4] True by (simp add: index_grown_def size_limit_def)
  next
    case False
    then obtain k where k: "k \<ge> 4" "idx_capacity index = 2 ^ k" "k \<le> 60" and
        count: "idx_count index \<le> 2 ^ k - 2 ^ k div 4"
      using assms by (auto simp: index_ok_def)
    have quarter: "(2 :: nat) ^ k div 4 = 2 ^ (k - 2)" "(2 :: nat) ^ k = 4 * 2 ^ (k - 2)"
      using le_add_diff_inverse [of 2 k] k(1) power_add [of "2 :: nat" 2 "k - 2"] by simp_all
    show ?thesis
    proof (cases "idx_count index + 1 > idx_capacity index - idx_capacity index div 4")
      case full: True
      show ?thesis
      proof (cases "k = 60")
        case True
        then show ?thesis using full k(2) by (simp add: index_grown_def size_limit_def)
      next
        case False
        then have "k + 1 \<le> 60" using k(3) by simp
        moreover have "idx_count index + 1 \<le> 2 ^ (k + 1) - 2 ^ (k + 1) div 4"
        proof -
          have "(2 :: nat) ^ (k + 1) = 8 * 2 ^ (k - 2)" "(0 :: nat) < 2 ^ (k - 2)" using quarter(2) by simp_all
          then show ?thesis using count quarter by linarith
        qed
        ultimately show ?thesis
          using rehash [of "k + 1"] k full size_limit_power [of "k + 1"]
          by (simp add: index_grown_def mult.commute)
      qed
    next
      case False
      then show ?thesis using assms \<open>idx_capacity index \<noteq> 0\<close> by (simp add: index_grown_def)
    qed
  qed
qed

lemma index_place_ok:
  assumes "index_ok index" "idx_count index + 1 \<le> idx_capacity index - idx_capacity index div 4"
  shows "\<exists>after. index_place index s = Some (after, s \<in> slot_ids (idx_slots index)) \<and> index_ok after
    \<and> slot_ids (idx_slots after) = insert s (slot_ids (idx_slots index)) \<and> idx_count after \<le> idx_count index + 1"
proof -
  let ?slots = "idx_slots index" and ?c = "first_slot (idx_capacity index) s"
  obtain k where k: "length ?slots = 2 ^ k" "4 \<le> k" "k \<le> 60" using assms by (auto simp: index_ok_def)
  have ok: "slots_reached ?slots" "idx_count index = card (filled ?slots)" using assms(1) by (simp_all add: index_ok_def)
  then have "card (filled ?slots) < length ?slots" using assms(2) by simp
  then obtain j where "j < length ?slots" "?slots ! j = None" using null_slot by blast
  then obtain d where d: "probed ?slots ?c d = None \<or> probed ?slots ?c d = Some s"
      "\<And>e. e < d \<Longrightarrow> \<not> (probed ?slots ?c e = None \<or> probed ?slots ?c e = Some s)"
    using probe_stops [where P = "\<lambda>x. x = None \<or> x = Some s" and c = ?c] by blast
  define m where "m = (?c + d) mod length ?slots"
  have m: "m < length ?slots" using k(1) by (simp add: m_def)
  have find: "find_slot ?slots s ?c = Some m"
    using find_slot_at [OF k(1) _ d(1)] d(2) by (simp add: first_slot_bound [OF k(1)] m_def)
  have duplicate: "?slots ! m \<noteq> None \<longleftrightarrow> s \<in> slot_ids ?slots"
  proof
    assume "?slots ! m \<noteq> None"
    then have "?slots ! m = Some s" using d(1) m_def by metis
    then show "s \<in> slot_ids ?slots" using m by (metis slot_ids_def mem_Collect_eq nth_mem)
  next
    assume "s \<in> slot_ids ?slots"
    then obtain i where "i < length ?slots" "?slots ! i = Some s" by (auto simp: slot_ids_def in_set_conv_nth)
    then obtain b where b: "probed ?slots ?c b = Some s" "\<And>e. e < b \<Longrightarrow> probed ?slots ?c e \<noteq> None"
      using ok(1) unfolding slots_reached_def by metis
    have "d \<le> b" using d(2) [of b] b(1) by (meson not_le)
    then show "?slots ! m \<noteq> None" using b by (cases "d = b") (auto simp: m_def)
  qed
  show ?thesis
  proof (cases "?slots ! m = None")
    case True
    have "slots_reached (?slots[m := Some s])"
    proof (rule slots_reached_update [OF ok(1) k(1) m_def True])
      show "probed ?slots ?c e \<noteq> None" if "e < d" for e using d(2) [OF that] by simp
    qed
    moreover have "card (filled (?slots[m := Some s])) = idx_count index + 1" "slot_ids (?slots[m := Some s]) = insert s (slot_ids ?slots)"
      using card_filled_update [OF m True] slot_ids_update [OF m True] ok(2) by simp_all
    moreover have "index_place index s = Some (index\<lparr>idx_slots := ?slots[m := Some s], idx_count := idx_count index + 1\<rparr>, False)"
      by (simp add: index_place_def find True)
    ultimately show ?thesis
      using True duplicate assms(2) k by (auto simp: index_ok_def intro!: exI [of _ k])
  next
    case False
    then show ?thesis using find duplicate assms(1) by (simp add: index_place_def insert_absorb)
  qed
qed

lemma index_insert_ok:
  assumes "index_ok index"
  shows "confit_v2_identifier_index_insert index s = Some (Inl CONFIT_ERR_INTERNAL) \<and> idx_count index \<ge> 3 * 2 ^ 58
    \<or> (\<exists>after. confit_v2_identifier_index_insert index s = Some (Inr (after, s \<in> slot_ids (idx_slots index))) \<and> index_ok after
         \<and> slot_ids (idx_slots after) = insert s (slot_ids (idx_slots index)) \<and> idx_count after \<le> idx_count index + 1)"
  using index_grown_ok [OF assms]
proof
  assume "\<exists>grown. index_grown index = Some (Inr grown) \<and> index_ok grown \<and> idx_count grown = idx_count index
         \<and> idx_count grown + 1 \<le> idx_capacity grown - idx_capacity grown div 4
         \<and> slot_ids (idx_slots grown) = slot_ids (idx_slots index)"
  then obtain grown where grown: "index_grown index = Some (Inr grown)" "index_ok grown" "idx_count grown = idx_count index"
      "idx_count grown + 1 \<le> idx_capacity grown - idx_capacity grown div 4"
      "slot_ids (idx_slots grown) = slot_ids (idx_slots index)"
    by blast
  from index_place_ok [OF grown(2,4), of s] show ?thesis
    using grown by (auto simp: confit_v2_identifier_index_insert_def)
qed (auto simp: confit_v2_identifier_index_insert_def)

text \<open>A failed insertion leaves no index; a duplicate is reported and leaves the index as it is.\<close>

lemma insert_identifiers_ok:
  assumes "index_ok index"
  shows "case insert_identifiers index xs of
      None \<Rightarrow> False
    | Some (Inl st) \<Rightarrow> st = CONFIT_ERR_INTERNAL \<and> idx_count index + length xs > 3 * 2 ^ 58
    | Some (Inr (after, flags)) \<Rightarrow> index_ok after \<and> slot_ids (idx_slots after) = slot_ids (idx_slots index) \<union> set xs
        \<and> length flags = length xs
        \<and> (\<forall>i<length xs. flags ! i \<longleftrightarrow> xs ! i \<in> slot_ids (idx_slots index) \<union> set (take i xs))"
  using assms
proof (induction xs arbitrary: index)
  case (Cons x xs)
  show ?case
    using index_insert_ok [OF Cons.prems, of x]
  proof
    assume "\<exists>after. confit_v2_identifier_index_insert index x = Some (Inr (after, x \<in> slot_ids (idx_slots index))) \<and> index_ok after
         \<and> slot_ids (idx_slots after) = insert x (slot_ids (idx_slots index)) \<and> idx_count after \<le> idx_count index + 1"
    then obtain mid where mid:
        "confit_v2_identifier_index_insert index x = Some (Inr (mid, x \<in> slot_ids (idx_slots index)))" "index_ok mid"
        "slot_ids (idx_slots mid) = insert x (slot_ids (idx_slots index))" "idx_count mid \<le> idx_count index + 1"
      by blast
    from Cons.IH [OF mid(2)] show ?case
      using mid by (auto simp: All_less_Suc2 split: option.splits sum.splits)
  qed simp
qed simp

text \<open>C14. The identifier index is a set. Inserting identifiers one after the other into the empty index
  always returns, and the flag of each says whether the same identifier was inserted before it;
  only beyond \<open>3 * 2 ^ 58\<close> insertions may the capacity be exhausted, which is the internal error.
\<close>

theorem identifier_index_exact:
  "case insert_identifiers empty_index xs of
     None \<Rightarrow> False
   | Some (Inl st) \<Rightarrow> st = CONFIT_ERR_INTERNAL \<and> length xs > 3 * 2 ^ 58
   | Some (Inr (after, flags)) \<Rightarrow> flags = map (\<lambda>i. xs ! i \<in> set (take i xs)) [0..<length xs]"
proof -
  have "slot_ids (idx_slots empty_index) = {}" "idx_count empty_index = 0"
    by (simp_all add: empty_index_def slot_ids_def)
  then show ?thesis
    using insert_identifiers_ok [OF index_ok_empty, of xs]
    by (auto split: option.splits sum.splits intro: nth_equalityI)
qed

end
