(* ===== verification/Loader_Declarations.thy ===== *)
theory Loader_Declarations
  imports Inputs Identifier_Index
begin

text \<open>
  The loader \<open>src/schema/v2/loader.c\<close>, first part: from the tables of a schema document to the options,
  menus, choices and constraints of a project. A function returns the declaration it fills through
  its out parameter; the code appends a zeroed record first and fills it there, which differs only
  on a failure, where the whole project is freed. \<open>Load_Undefined\<close> is the reading of a union member
  that was not stored or of a null string, \<open>Load_Not_Returning\<close> a probe of an identifier index that
  does not end. Freeing and the failure of an allocation are not modelled.
\<close>

section \<open>Outcomes\<close>

datatype load_stop = Load_Failed diagnostic | Load_Not_Returning | Load_Undefined

definition loading :: "diagnostic + 'a \<Rightarrow> load_stop + 'a" where
  "loading r = (case r of Inl d \<Rightarrow> Inl (Load_Failed d) | Inr x \<Rightarrow> Inr x)"

definition stored :: "fault + 'a \<Rightarrow> load_stop + 'a" where
  "stored r = (case r of Inl (Reported d) \<Rightarrow> Inl (Load_Failed d) | Inl Undefined \<Rightarrow> Inl Load_Undefined | Inr x \<Rightarrow> Inr x)"

definition kV2MissingProject :: string where "kV2MissingProject = ''[project] table is required''"
definition kV2MissingField :: string where "kV2MissingField = ''required schema v2 field is missing''"
definition kV2UnknownProjectField :: string where "kV2UnknownProjectField = ''unknown schema v2 project field''"
definition kV2UnknownImportField :: string where "kV2UnknownImportField = ''unknown schema v2 import field''"
definition kV2UnknownOptionField :: string where "kV2UnknownOptionField = ''unknown schema v2 option field''"
definition kV2UnknownMenuField :: string where "kV2UnknownMenuField = ''unknown schema v2 menu field''"
definition kV2UnknownChoiceField :: string where "kV2UnknownChoiceField = ''unknown schema v2 choice field''"
definition kV2UnknownConstraintField :: string where "kV2UnknownConstraintField = ''unknown schema v2 constraint field''"
definition kV2WrongValueType :: string where "kV2WrongValueType = ''schema v2 field has an invalid value type''"
definition kV2InvalidValue :: string where "kV2InvalidValue = ''schema v2 field has an invalid value''"
definition kV2DuplicateDefinition :: string where "kV2DuplicateDefinition = ''duplicate schema v2 semantic definition''"
definition kV2InvalidImportPath :: string where "kV2InvalidImportPath = ''invalid schema v2 import path''"
definition kV2ImportEscapesConfigRoot :: string where
  "kV2ImportEscapesConfigRoot = ''schema v2 import escapes project config root''"
definition kV2DuplicateImport :: string where "kV2DuplicateImport = ''duplicate schema v2 canonical import''"
definition kV2ImportCycle :: string where "kV2ImportCycle = ''schema v2 import cycle''"
definition kV2ImportDepthExceeded :: string where
  "kV2ImportDepthExceeded = ''schema v2 import depth exceeds the supported limit''"
definition kV2InvalidOptionId :: string where "kV2InvalidOptionId = ''invalid schema v2 option id''"
definition kV2InvalidNamespace :: string where "kV2InvalidNamespace = ''option id is outside project namespace''"
definition kV2UnsupportedProjectVersion :: string where
  "kV2UnsupportedProjectVersion = ''project does not declare schema_version = 2''"
definition kV2UnsupportedImportVersion :: string where
  "kV2UnsupportedImportVersion = ''import source does not declare schema_version = 2''"
definition kV2AllocationFailed :: string where "kV2AllocationFailed = ''failed to allocate schema v2 model''"

definition confit_v2_error :: "status \<Rightarrow> toml_datum \<Rightarrow> string \<Rightarrow> load_stop + 'a" where
  "confit_v2_error st v message =
     Inl (Load_Failed (confit_diagnostic_set st (confit_v2_toml_value_source v)
       (confit_v2_toml_value_line v) (confit_v2_toml_value_column v) message))"

section \<open>Tables, spans and strings\<close>

definition confit_v2_key_is_allowed :: "string \<Rightarrow> string list \<Rightarrow> bool" where
  "confit_v2_key_is_allowed key allowed \<longleftrightarrow> list_ex (\<lambda>a. strcmp key a = 0) allowed"

definition confit_v2_check_table_keys :: "toml_datum \<Rightarrow> string list \<Rightarrow> string \<Rightarrow> load_stop + unit" where
  "confit_v2_check_table_keys table allowed message =
     (if confit_v2_toml_value_type table \<noteq> TOML_VALUE_TABLE then confit_v2_error CONFIT_ERR_SCHEMA table kV2WrongValueType
      else fold_res (\<lambda>(key, v) _.
             if \<not> confit_v2_key_is_allowed (c_text key) allowed then confit_v2_error CONFIT_ERR_SCHEMA v message
             else Inr ()) (toml_table_entries table) ())"

definition null_span :: source_span where
  "null_span = \<lparr>span_path = None, span_line = 0, span_column = 0, span_local_offset = 0\<rparr>"

definition confit_v2_copy_span :: "toml_datum \<Rightarrow> nat \<Rightarrow> source_span" where
  "confit_v2_copy_span v local_offset =
     \<lparr>span_path = confit_v2_toml_value_source v, span_line = confit_v2_toml_value_line v,
      span_column = confit_v2_toml_value_column v, span_local_offset = local_offset\<rparr>"

definition confit_v2_copy_string :: "toml_datum \<Rightarrow> load_stop + string" where
  "confit_v2_copy_string v = (case confit_v2_toml_value_string v of
     None \<Rightarrow> confit_v2_error CONFIT_ERR_SCHEMA v kV2WrongValueType
   | Some s \<Rightarrow> if NUL \<in> set s then confit_v2_error CONFIT_ERR_SCHEMA v kV2InvalidValue else Inr s)"

definition confit_v2_string_list_contains :: "string list \<Rightarrow> string \<Rightarrow> bool" where
  "confit_v2_string_list_contains items s \<longleftrightarrow> list_ex (\<lambda>item. strcmp item s = 0) items"

definition letter_or_underscore :: "char \<Rightarrow> bool" where
  "letter_or_underscore c \<longleftrightarrow>
     97 \<le> byte c \<and> byte c \<le> 122 \<or> 65 \<le> byte c \<and> byte c \<le> 90 \<or> c = CHR ''_''"

definition confit_v2_is_identifier_segment :: "string \<Rightarrow> bool" where
  "confit_v2_is_identifier_segment s = (case s of
     [] \<Rightarrow> False
   | c # cs \<Rightarrow> letter_or_underscore c \<and> list_all (\<lambda>c. letter_or_underscore c \<or> c_isdigit c) cs)"

text \<open>The scans over the segments between dots or slashes, \<open>segment\<close> being the bytes since the last one.\<close>

fun dotted_loop :: "string \<Rightarrow> string \<Rightarrow> bool" where
  "dotted_loop segment [] = confit_v2_is_identifier_segment segment"
| "dotted_loop segment (c # cs) =
     (if c = CHR ''.'' then confit_v2_is_identifier_segment segment \<and> dotted_loop [] cs
      else dotted_loop (segment @ [c]) cs)"

definition confit_v2_is_dotted_identifier :: "string \<Rightarrow> bool" where
  "confit_v2_is_dotted_identifier t \<longleftrightarrow> char_at t 0 \<noteq> NUL \<and> dotted_loop [] t"

definition confit_v2_is_logical_path :: "string \<Rightarrow> bool" where
  "confit_v2_is_logical_path path \<longleftrightarrow>
     \<not> (char_at path 0 = NUL \<or> char_at path 0 = CHR ''/'' \<or> char_at path 0 = CHR 0x5C
        \<or> list_ex (\<lambda>c. c = CHR 0x5C) path)
     \<and> logical_path_loop [] path"

definition string_list_item :: "bool \<Rightarrow> bool \<Rightarrow> toml_datum \<Rightarrow> string list \<Rightarrow> load_stop + string list" where
  "string_list_item require_unique require_logical_path item items =
     bind_res (confit_v2_copy_string item) (\<lambda>copy.
       if require_logical_path \<and> \<not> confit_v2_is_logical_path copy
          \<or> require_unique \<and> confit_v2_string_list_contains items copy
       then confit_v2_error CONFIT_ERR_SCHEMA item kV2InvalidValue
       else Inr (items @ [copy]))"

definition confit_v2_parse_string_list :: "toml_datum \<Rightarrow> bool \<Rightarrow> bool \<Rightarrow> load_stop + string list" where
  "confit_v2_parse_string_list v require_unique require_logical_path =
     (if confit_v2_toml_value_type v \<noteq> TOML_VALUE_ARRAY then confit_v2_error CONFIT_ERR_SCHEMA v kV2WrongValueType
      else fold_res (string_list_item require_unique require_logical_path) (toml_array_items v) [])"

definition null_expression :: expression_text where
  "null_expression = \<lparr>expr_text = None, expr_span = null_span\<rparr>"

definition confit_v2_parse_expression :: "toml_datum \<Rightarrow> load_stop + expression_text" where
  "confit_v2_parse_expression v =
     bind_res (confit_v2_copy_string v) (\<lambda>s. Inr \<lparr>expr_text = Some s, expr_span = confit_v2_copy_span v 0\<rparr>)"

section \<open>Values\<close>

text \<open>A cascade of comparisons with the names of an enum.\<close>

definition parse_name :: "(string \<times> 'a) list \<Rightarrow> toml_datum \<Rightarrow> load_stop + 'a" where
  "parse_name names v = (case confit_v2_toml_value_string v of
     None \<Rightarrow> confit_v2_error CONFIT_ERR_SCHEMA v kV2WrongValueType
   | Some s \<Rightarrow> (case map_of names s of
       None \<Rightarrow> confit_v2_error CONFIT_ERR_SCHEMA v kV2InvalidValue | Some x \<Rightarrow> Inr x))"

definition confit_v2_parse_type :: "toml_datum \<Rightarrow> load_stop + option_type" where
  "confit_v2_parse_type = parse_name
     [(''bool'', OPTION_BOOL), (''tristate'', OPTION_TRISTATE), (''int'', OPTION_INT), (''uint'', OPTION_UINT),
      (''hex'', OPTION_HEX), (''float'', OPTION_FLOAT), (''string'', OPTION_STRING), (''enum'', OPTION_ENUM),
      (''path'', OPTION_PATH), (''string_list'', OPTION_STRING_LIST), (''path_list'', OPTION_PATH_LIST),
      (''enum_set'', OPTION_ENUM_SET)]"

definition confit_v2_parse_write_domain :: "toml_datum \<Rightarrow> load_stop + write_domain" where
  "confit_v2_parse_write_domain = parse_name
     [(''schema'', DOMAIN_SCHEMA), (''profile'', DOMAIN_PROFILE), (''target'', DOMAIN_TARGET), (''computed'', DOMAIN_COMPUTED)]"

definition confit_v2_parse_stability :: "toml_datum \<Rightarrow> load_stop + stability" where
  "confit_v2_parse_stability = parse_name
     [(''experimental'', STABILITY_EXPERIMENTAL), (''stable'', STABILITY_STABLE), (''deprecated'', STABILITY_DEPRECATED),
      (''internal'', STABILITY_INTERNAL)]"

definition confit_v2_parse_bool :: "toml_datum \<Rightarrow> load_stop + int" where
  "confit_v2_parse_bool v = (case confit_v2_toml_value_bool v of
     None \<Rightarrow> confit_v2_error CONFIT_ERR_SCHEMA v kV2WrongValueType | Some b \<Rightarrow> Inr b)"

definition confit_v2_parse_value :: "option_type \<Rightarrow> toml_datum \<Rightarrow> load_stop + v2_value" where
  "confit_v2_parse_value t v =
     (let invalid = confit_v2_error CONFIT_ERR_SCHEMA v kV2InvalidValue;
          wrong = confit_v2_error CONFIT_ERR_SCHEMA v kV2WrongValueType
      in if confit_v2_type_descriptor t = None then confit_v2_error CONFIT_ERR_INTERNAL v kV2InvalidValue
         else if t = OPTION_BOOL then bind_res (confit_v2_parse_bool v) (\<lambda>b. Inr (V_Bool b))
         else if t = OPTION_TRISTATE then
           (case confit_v2_toml_value_string v of
              None \<Rightarrow> invalid
            | Some s \<Rightarrow> if length s \<noteq> 1 \<or> s ! 0 \<noteq> CHR ''n'' \<and> s ! 0 \<noteq> CHR ''m'' \<and> s ! 0 \<noteq> CHR ''y'' then invalid
                        else Inr (V_Tristate (s ! 0)))
         else if t = OPTION_INT then
           (case confit_v2_toml_value_int64 v of None \<Rightarrow> wrong | Some i \<Rightarrow> Inr (V_Int i))
         else if t \<in> {OPTION_UINT, OPTION_HEX} then
           (case confit_v2_toml_value_int64 v of
              None \<Rightarrow> invalid | Some i \<Rightarrow> if sint i < 0 then invalid else Inr (V_Uint i))
         else if t = OPTION_FLOAT then
           (case confit_v2_toml_value_float64 v of
              Some f \<Rightarrow> if \<not> isfinite f then invalid else Inr (V_Float f)
            | None \<Rightarrow>
                (case confit_v2_toml_value_int64 v of
                   Some i \<Rightarrow> Inr (V_Float (f64_round (sint i < 0) (nat \<bar>sint i\<bar>) 1))
                 | None \<Rightarrow> wrong))
         else if t \<in> {OPTION_STRING, OPTION_ENUM, OPTION_PATH} then
           bind_res (confit_v2_copy_string v) (\<lambda>s.
             if t = OPTION_PATH \<and> \<not> confit_v2_is_logical_path s then invalid else Inr (V_String s))
         else bind_res (confit_v2_parse_string_list v (t = OPTION_ENUM_SET) (t = OPTION_PATH_LIST)) (\<lambda>items.
           Inr (V_String_List items)))"

text \<open>Values of other kinds compare as equal.\<close>

definition confit_v2_value_compare :: "v2_value \<Rightarrow> v2_value \<Rightarrow> fault + int" where
  "confit_v2_value_compare left right = (case left of
     V_Int l \<Rightarrow> bind_res (as_int right) (\<lambda>r. Inr (if sint l < sint r then -1 else if sint l > sint r then 1 else 0))
   | V_Uint l \<Rightarrow> bind_res (as_uint right) (\<lambda>r. Inr (if l < r then -1 else if l > r then 1 else 0))
   | V_Float l \<Rightarrow> bind_res (as_float right) (\<lambda>r. Inr (if f64_less l r then -1 else if f64_less r l then 1 else 0))
   | _ \<Rightarrow> Inr 0)"

definition null_assignment :: assignment where
  "null_assignment = \<lparr>assign_is_set = False, assign_value = V_Unset, assign_span = null_span\<rparr>"

definition confit_v2_parse_assignment :: "option_type \<Rightarrow> toml_datum \<Rightarrow> load_stop + assignment" where
  "confit_v2_parse_assignment t v =
     bind_res (confit_v2_parse_value t v) (\<lambda>x.
       Inr \<lparr>assign_is_set = True, assign_value = x, assign_span = confit_v2_copy_span v 0\<rparr>)"

definition null_range :: numeric_range where
  "null_range = \<lparr>range_is_set = False, range_min = V_Unset, range_max = V_Unset, range_span = null_span\<rparr>"

definition confit_v2_parse_range :: "option_type \<Rightarrow> toml_datum \<Rightarrow> load_stop + numeric_range" where
  "confit_v2_parse_range t v =
     (if t \<notin> {OPTION_INT, OPTION_UINT, OPTION_HEX, OPTION_FLOAT} then confit_v2_error CONFIT_ERR_SCHEMA v kV2InvalidValue
      else bind_res (confit_v2_check_table_keys v [''min'', ''max''] kV2UnknownOptionField) (\<lambda>_.
        case (confit_v2_toml_table_find v ''min'', confit_v2_toml_table_find v ''max'') of
          (Some min_value, Some max_value) \<Rightarrow>
            bind_res (confit_v2_parse_value t min_value) (\<lambda>low.
            bind_res (confit_v2_parse_value t max_value) (\<lambda>high.
            bind_res (stored (confit_v2_value_compare low high)) (\<lambda>order.
              if order > 0 then confit_v2_error CONFIT_ERR_SCHEMA v kV2InvalidValue
              else Inr \<lparr>range_is_set = True, range_min = low, range_max = high, range_span = confit_v2_copy_span v 0\<rparr>)))
        | _ \<Rightarrow> confit_v2_error CONFIT_ERR_SCHEMA v kV2MissingField))"

fun confit_v2_candidate_index :: "string list \<Rightarrow> string \<Rightarrow> nat option" where
  "confit_v2_candidate_index [] t = None"
| "confit_v2_candidate_index (v # vs) t =
     (if strcmp v t = 0 then Some 0 else map_option Suc (confit_v2_candidate_index vs t))"

text \<open>The exchange sort of an enum set by the position of the candidate.\<close>

definition loader_exchange :: "string list \<Rightarrow> nat \<Rightarrow> nat \<Rightarrow> string list \<Rightarrow> string list" where
  "loader_exchange candidates i cursor items =
     (case (confit_v2_candidate_index candidates (items ! i), confit_v2_candidate_index candidates (items ! cursor)) of
        (Some left_index, Some right_index) \<Rightarrow>
          if left_index > right_index then items[i := items ! cursor, cursor := items ! i] else items
      | _ \<Rightarrow> items)"

definition loader_exchange_sort :: "string list \<Rightarrow> string list \<Rightarrow> string list" where
  "loader_exchange_sort candidates items =
     fold (\<lambda>i. fold (loader_exchange candidates i) [i + 1..<length items]) [0..<length items] items"

text \<open>The assignment after the check; only an enum set is changed.\<close>

definition confit_v2_validate_enum_value ::
  "option_type \<Rightarrow> string list \<Rightarrow> assignment \<Rightarrow> toml_datum \<Rightarrow> load_stop + assignment" where
  "confit_v2_validate_enum_value t candidates a v =
     (let invalid = confit_v2_error CONFIT_ERR_SCHEMA v kV2InvalidValue
      in if \<not> assign_is_set a then Inr a
         else if t = OPTION_ENUM then
           (case assign_value a of
              V_String s \<Rightarrow> if confit_v2_candidate_index candidates s = None then invalid else Inr a
            | _ \<Rightarrow> Inl Load_Undefined)
         else if t = OPTION_ENUM_SET then
           (case assign_value a of
              V_String_List items \<Rightarrow>
                if list_ex (\<lambda>s. confit_v2_candidate_index candidates s = None) items then invalid
                else Inr (a\<lparr>assign_value := V_String_List (loader_exchange_sort candidates items)\<rparr>)
            | _ \<Rightarrow> Inl Load_Undefined)
         else Inr a)"

section \<open>Projects being loaded\<close>

datatype import_state = IMPORT_DECLARED | IMPORT_VISITING | IMPORT_COMPLETE

record v2_import =
  imp_path :: string
  imp_canonical_path :: string
  imp_span :: source_span
  imp_state :: import_state

text \<open>The project with the parts of \<open>ConfitV2Project\<close> that only the loader uses.\<close>

record loader =
  ld_project :: v2_project
  ld_imports :: "v2_import list"
  ld_symbol_identifiers :: identifier_index
  ld_menu_identifiers :: identifier_index
  ld_choice_identifiers :: identifier_index
  ld_constraint_identifiers :: identifier_index

definition confit_v2_register_identifier ::
  "identifier_index \<Rightarrow> string \<Rightarrow> toml_datum \<Rightarrow> load_stop + identifier_index" where
  "confit_v2_register_identifier index identifier v =
     (case confit_v2_identifier_index_insert index identifier of
        None \<Rightarrow> Inl Load_Not_Returning
      | Some (Inl st) \<Rightarrow> confit_v2_error CONFIT_ERR_INTERNAL v kV2AllocationFailed
      | Some (Inr (index, duplicate)) \<Rightarrow>
          if duplicate then confit_v2_error CONFIT_ERR_SCHEMA v kV2DuplicateDefinition else Inr index)"

text \<open>A field that may be absent, which leaves the value it would set.\<close>

definition optional_field :: "toml_datum \<Rightarrow> string \<Rightarrow> (toml_datum \<Rightarrow> load_stop + 'a) \<Rightarrow> 'a \<Rightarrow> load_stop + 'a" where
  "optional_field table key parse absent = (case confit_v2_toml_table_find table key of
     None \<Rightarrow> Inr absent | Some v \<Rightarrow> parse v)"

text \<open>The entries of an array of tables.\<close>

definition table_array :: "(toml_datum \<Rightarrow> load_stop + 'a) \<Rightarrow> toml_datum \<Rightarrow> load_stop + 'a list" where
  "table_array parse v =
     (if confit_v2_toml_value_type v \<noteq> TOML_VALUE_ARRAY then confit_v2_error CONFIT_ERR_SCHEMA v kV2WrongValueType
      else fold_res (\<lambda>entry xs. bind_res (parse entry) (\<lambda>x. Inr (xs @ [x]))) (toml_array_items v) [])"

definition int32_field :: "toml_datum \<Rightarrow> u32 option" where
  "int32_field v = (case confit_v2_toml_value_int64 v of
     None \<Rightarrow> None | Some i \<Rightarrow> if sint i < - (2 ^ 31) \<or> sint i > 2 ^ 31 - 1 then None else Some (ucast i))"

section \<open>Options\<close>

definition parse_default_entry :: "option_type \<Rightarrow> string list \<Rightarrow> toml_datum \<Rightarrow> load_stop + conditional_default" where
  "parse_default_entry t candidates entry =
     bind_res (confit_v2_check_table_keys entry [''when'', ''value'', ''priority''] kV2UnknownOptionField) (\<lambda>_.
       case (confit_v2_toml_table_find entry ''when'', confit_v2_toml_table_find entry ''value'',
             Option.bind (confit_v2_toml_table_find entry ''priority'') int32_field) of
         (Some condition, Some assigned_value, Some priority) \<Rightarrow>
           bind_res (confit_v2_parse_expression condition) (\<lambda>expression.
           bind_res (confit_v2_parse_assignment t assigned_value) (\<lambda>a.
           bind_res (confit_v2_validate_enum_value t candidates a assigned_value) (\<lambda>a.
             Inr \<lparr>cond_when = expression, cond_assignment = a, cond_priority = priority,
                  cond_span = confit_v2_copy_span entry 0\<rparr>)))
       | _ \<Rightarrow> confit_v2_error CONFIT_ERR_SCHEMA entry kV2InvalidValue)"

definition confit_v2_parse_defaults :: "option_type \<Rightarrow> string list \<Rightarrow> toml_datum \<Rightarrow> load_stop + conditional_default list" where
  "confit_v2_parse_defaults t candidates = table_array (parse_default_entry t candidates)"

definition parse_suggestion_entry :: "option_type \<Rightarrow> string list \<Rightarrow> toml_datum \<Rightarrow> load_stop + suggestion" where
  "parse_suggestion_entry t candidates entry =
     bind_res (confit_v2_check_table_keys entry [''when'', ''value'', ''message''] kV2UnknownOptionField) (\<lambda>_.
       case (confit_v2_toml_table_find entry ''when'', confit_v2_toml_table_find entry ''value'',
             confit_v2_toml_table_find entry ''message'') of
         (Some condition, Some assigned_value, Some message) \<Rightarrow>
           bind_res (confit_v2_parse_expression condition) (\<lambda>expression.
           bind_res (confit_v2_parse_assignment t assigned_value) (\<lambda>a.
           bind_res (confit_v2_validate_enum_value t candidates a assigned_value) (\<lambda>a.
           bind_res (confit_v2_copy_string message) (\<lambda>m.
             Inr \<lparr>sugg_when = expression, sugg_assignment = a, sugg_message = Some m,
                  sugg_span = confit_v2_copy_span entry 0\<rparr>))))
       | _ \<Rightarrow> confit_v2_error CONFIT_ERR_SCHEMA entry kV2MissingField)"

definition confit_v2_parse_suggestions :: "option_type \<Rightarrow> string list \<Rightarrow> toml_datum \<Rightarrow> load_stop + suggestion list" where
  "confit_v2_parse_suggestions t candidates = table_array (parse_suggestion_entry t candidates)"

definition emit_bits :: "(string \<times> u32) list" where
  "emit_bits = [(''header'', 1), (''cmake'', 2), (''qstar'', 4), (''selection'', 8)]"

definition emit_item :: "toml_datum \<Rightarrow> u32 \<Rightarrow> load_stop + u32" where
  "emit_item item emitted =
     bind_res (parse_name emit_bits item) (\<lambda>b.
       if and emitted b \<noteq> 0 then confit_v2_error CONFIT_ERR_SCHEMA item kV2InvalidValue else Inr (or emitted b))"

definition confit_v2_parse_emit :: "toml_datum \<Rightarrow> load_stop + u32" where
  "confit_v2_parse_emit v =
     (if confit_v2_toml_value_type v \<noteq> TOML_VALUE_ARRAY then confit_v2_error CONFIT_ERR_SCHEMA v kV2WrongValueType
      else fold_res emit_item (toml_array_items v) 0)"

definition null_symbol :: "string \<Rightarrow> v2_symbol" where
  "null_symbol ident =
     \<lparr>sym_id = ident, sym_type = OPTION_INVALID, sym_write_domain = DOMAIN_INVALID, sym_stability = STABILITY_INVALID,
      sym_required = False, sym_user_override = False, sym_default_value = null_assignment, sym_range = null_range,
      sym_values = [], sym_prompt = None, sym_help = None, sym_menu = None, sym_tags = [], sym_owner = None,
      sym_since = None, sym_emit_mask = 0, sym_computed = null_expression, sym_available_if = null_expression,
      sym_visible_if = null_expression, sym_defaults = [], sym_suggestions = [], sym_span = null_span\<rparr>"

definition symbol_fields :: "string list" where
  "symbol_fields = [''type'', ''default'', ''required'', ''write_domain'', ''user_override'', ''prompt'', ''help'', ''menu'',
     ''tags'', ''owner'', ''since'', ''stability'', ''emit'', ''values'', ''range'', ''computed'', ''available_if'',
     ''visible_if'', ''defaults'', ''suggestions'']"

text \<open>The mandatory fields.\<close>

definition symbol_mandatory :: "toml_datum \<Rightarrow> (toml_datum \<times> toml_datum \<times> toml_datum \<times> toml_datum \<times> toml_datum) option" where
  "symbol_mandatory table =
     (case (confit_v2_toml_table_find table ''type'', confit_v2_toml_table_find table ''write_domain'',
            confit_v2_toml_table_find table ''owner'', confit_v2_toml_table_find table ''since'',
            confit_v2_toml_table_find table ''stability'') of
        (Some type_value, Some domain_value, Some owner_value, Some since_value, Some stability_value) \<Rightarrow>
          Some (type_value, domain_value, owner_value, since_value, stability_value)
      | _ \<Rightarrow> None)"

definition symbol_header ::
  "toml_datum \<times> toml_datum \<times> toml_datum \<times> toml_datum \<times> toml_datum \<Rightarrow> toml_datum \<Rightarrow> v2_symbol \<Rightarrow> load_stop + v2_symbol" where
  "symbol_header mandatory table symbol =
     (case mandatory of (type_value, domain_value, owner_value, since_value, stability_value) \<Rightarrow>
       bind_res (confit_v2_parse_type type_value) (\<lambda>t.
       bind_res (confit_v2_parse_write_domain domain_value) (\<lambda>domain.
       bind_res (confit_v2_parse_stability stability_value) (\<lambda>stable.
       bind_res (confit_v2_copy_string owner_value) (\<lambda>owner.
       bind_res (confit_v2_copy_string since_value) (\<lambda>since.
         Inr (symbol\<lparr>sym_type := t, sym_write_domain := domain, sym_stability := stable, sym_owner := Some owner,
                     sym_since := Some since, sym_span := confit_v2_copy_span table 0\<rparr>)))))))"

definition symbol_metadata :: "toml_datum \<Rightarrow> v2_symbol \<Rightarrow> load_stop + v2_symbol" where
  "symbol_metadata table symbol =
     bind_res (optional_field table ''required'' confit_v2_parse_bool 0) (\<lambda>required.
     bind_res (optional_field table ''user_override'' confit_v2_parse_bool 0) (\<lambda>user_override.
     bind_res (optional_field table ''prompt'' (\<lambda>v. map_sum (\<lambda>e. e) Some (confit_v2_copy_string v)) None) (\<lambda>prompt.
     bind_res (optional_field table ''help'' (\<lambda>v. map_sum (\<lambda>e. e) Some (confit_v2_copy_string v)) None) (\<lambda>help.
     bind_res (optional_field table ''menu'' (\<lambda>v. map_sum (\<lambda>e. e) Some (confit_v2_copy_string v)) None) (\<lambda>menu.
     bind_res (optional_field table ''tags'' (\<lambda>v. confit_v2_parse_string_list v False False) []) (\<lambda>tags.
     bind_res (optional_field table ''emit'' confit_v2_parse_emit 0) (\<lambda>emit.
       Inr (symbol\<lparr>sym_required := required \<noteq> 0, sym_user_override := user_override \<noteq> 0, sym_prompt := prompt,
                   sym_help := help, sym_menu := menu, sym_tags := tags, sym_emit_mask := emit\<rparr>))))))))"

definition requires_values :: "option_type \<Rightarrow> load_stop + bool" where
  "requires_values t = (case confit_v2_type_descriptor t of
     None \<Rightarrow> Inl Load_Undefined | Some d \<Rightarrow> Inr (desc_requires_values d))"

definition symbol_candidates :: "toml_datum \<Rightarrow> v2_symbol \<Rightarrow> load_stop + v2_symbol" where
  "symbol_candidates table symbol =
     bind_res (optional_field table ''values'' (\<lambda>v. confit_v2_parse_string_list v True False) []) (\<lambda>candidates.
     bind_res (requires_values (sym_type symbol)) (\<lambda>required.
       if required \<and> candidates = [] then confit_v2_error CONFIT_ERR_SCHEMA table kV2MissingField
       else if \<not> required \<and> candidates \<noteq> [] then
         (case confit_v2_toml_table_find table ''values'' of
            None \<Rightarrow> Inl Load_Undefined | Some v \<Rightarrow> confit_v2_error CONFIT_ERR_SCHEMA v kV2InvalidValue)
       else Inr (symbol\<lparr>sym_values := candidates\<rparr>)))"

text \<open>The upper bound is compared only when the value is not below the lower one.\<close>

definition default_outside_range :: "v2_symbol \<Rightarrow> load_stop + bool" where
  "default_outside_range symbol =
     (if range_is_set (sym_range symbol) \<and> assign_is_set (sym_default_value symbol) then
        bind_res (stored (confit_v2_value_compare (assign_value (sym_default_value symbol)) (range_min (sym_range symbol)))) (\<lambda>low.
          if low < 0 then Inr True
          else bind_res (stored (confit_v2_value_compare (assign_value (sym_default_value symbol)) (range_max (sym_range symbol))))
            (\<lambda>high. Inr (high > 0)))
      else Inr False)"

definition symbol_default :: "toml_datum \<Rightarrow> v2_symbol \<Rightarrow> load_stop + v2_symbol" where
  "symbol_default table symbol =
     bind_res (optional_field table ''range'' (confit_v2_parse_range (sym_type symbol)) null_range) (\<lambda>r.
     bind_res (optional_field table ''default'' (\<lambda>v.
         bind_res (confit_v2_parse_assignment (sym_type symbol) v) (\<lambda>a.
           confit_v2_validate_enum_value (sym_type symbol) (sym_values symbol) a v)) null_assignment) (\<lambda>a.
     let symbol = symbol\<lparr>sym_range := r, sym_default_value := a\<rparr>
     in bind_res (default_outside_range symbol) (\<lambda>outside.
       if outside then
         (case confit_v2_toml_table_find table ''default'' of
            None \<Rightarrow> Inl Load_Undefined | Some v \<Rightarrow> confit_v2_error CONFIT_ERR_SCHEMA v kV2InvalidValue)
       else Inr symbol)))"

definition symbol_expressions :: "toml_datum \<Rightarrow> v2_symbol \<Rightarrow> load_stop + v2_symbol" where
  "symbol_expressions table symbol =
     bind_res (optional_field table ''computed'' confit_v2_parse_expression null_expression) (\<lambda>computed.
     bind_res (optional_field table ''available_if'' confit_v2_parse_expression null_expression) (\<lambda>available.
     bind_res (optional_field table ''visible_if'' confit_v2_parse_expression null_expression) (\<lambda>visible.
     bind_res (optional_field table ''defaults'' (confit_v2_parse_defaults (sym_type symbol) (sym_values symbol)) []) (\<lambda>defaults.
     bind_res (optional_field table ''suggestions'' (confit_v2_parse_suggestions (sym_type symbol) (sym_values symbol)) []) (\<lambda>suggestions.
       Inr (symbol\<lparr>sym_computed := computed, sym_available_if := available, sym_visible_if := visible,
                   sym_defaults := defaults, sym_suggestions := suggestions\<rparr>))))))"

text \<open>What a write domain allows.\<close>

definition symbol_domain_ok :: "v2_symbol \<Rightarrow> bool" where
  "symbol_domain_ok symbol \<longleftrightarrow>
     (if sym_write_domain symbol = DOMAIN_COMPUTED then
        \<not> (expr_text (sym_computed symbol) = None \<or> assign_is_set (sym_default_value symbol) \<or> sym_required symbol
           \<or> sym_user_override symbol \<or> length (sym_defaults symbol) \<noteq> 0 \<or> expr_text (sym_available_if symbol) \<noteq> None)
      else \<not> (expr_text (sym_computed symbol) \<noteq> None
              \<or> \<not> assign_is_set (sym_default_value symbol) \<and> \<not> sym_required symbol \<and> length (sym_defaults symbol) = 0))
     \<and> \<not> (sym_user_override symbol \<and> sym_write_domain symbol \<noteq> DOMAIN_PROFILE \<and> sym_write_domain symbol \<noteq> DOMAIN_TARGET)"

definition symbol_body ::
  "string \<Rightarrow> toml_datum \<times> toml_datum \<times> toml_datum \<times> toml_datum \<times> toml_datum \<Rightarrow> toml_datum \<Rightarrow> load_stop + v2_symbol" where
  "symbol_body ident mandatory table =
     bind_res (symbol_header mandatory table (null_symbol ident)) (\<lambda>symbol.
     bind_res (symbol_metadata table symbol) (\<lambda>symbol.
     bind_res (symbol_candidates table symbol) (\<lambda>symbol.
     bind_res (symbol_default table symbol) (\<lambda>symbol.
     bind_res (symbol_expressions table symbol) (\<lambda>symbol.
       if symbol_domain_ok symbol then Inr symbol else confit_v2_error CONFIT_ERR_SCHEMA table kV2InvalidValue)))))"

definition in_namespace :: "string \<Rightarrow> string \<Rightarrow> bool" where
  "in_namespace namespace_name ident \<longleftrightarrow>
     take (length namespace_name) ident = namespace_name \<and> char_at ident (length namespace_name) = CHR ''.''"

definition confit_v2_parse_symbol :: "string \<Rightarrow> toml_datum \<Rightarrow> loader \<Rightarrow> load_stop + loader" where
  "confit_v2_parse_symbol ident table ld =
     bind_res (confit_v2_check_table_keys table symbol_fields kV2UnknownOptionField) (\<lambda>_.
       if \<not> confit_v2_is_dotted_identifier ident then confit_v2_error CONFIT_ERR_SCHEMA table kV2InvalidOptionId
       else case project_namespace (ld_project ld) of
         None \<Rightarrow> Inl Load_Undefined
       | Some namespace_name \<Rightarrow>
           if \<not> in_namespace namespace_name ident then confit_v2_error CONFIT_ERR_SCHEMA table kV2InvalidNamespace
           else case symbol_mandatory table of
             None \<Rightarrow> confit_v2_error CONFIT_ERR_SCHEMA table kV2MissingField
           | Some mandatory \<Rightarrow>
               bind_res (confit_v2_register_identifier (ld_symbol_identifiers ld) ident table) (\<lambda>index.
               bind_res (symbol_body ident mandatory table) (\<lambda>symbol.
                 Inr (ld\<lparr>ld_symbol_identifiers := index,
                         ld_project := (ld_project ld)\<lparr>project_symbols := project_symbols (ld_project ld) @ [symbol]\<rparr>\<rparr>))))"

end
