(* ===== verification/Loader.thy ===== *)
theory Loader
  imports Loader_Declarations
begin

text \<open>
  The loader \<open>src/schema/v2/loader.c\<close>, second part: menus, choices and constraints, the documents that
  are imported, and the loading of a project. The reading of a file, its presence, \<open>realpath\<close> and the
  TOML parser are parameters (\<open>load_services\<close>); paths are those of POSIX.
\<close>

section \<open>Menus\<close>

definition parse_menu_reference :: "toml_datum \<Rightarrow> load_stop + menu_reference" where
  "parse_menu_reference entry =
     bind_res (confit_v2_check_table_keys entry [''option'', ''read_only''] kV2UnknownMenuField) (\<lambda>_.
       case (confit_v2_toml_table_find entry ''option'', confit_v2_toml_table_find entry ''read_only'') of
         (Some target, Some read_only) \<Rightarrow>
           bind_res (confit_v2_copy_string target) (\<lambda>ident.
           bind_res (confit_v2_parse_bool read_only) (\<lambda>flag.
             Inr \<lparr>mref_option_id = ident, mref_read_only = flag \<noteq> 0, mref_span = confit_v2_copy_span entry 0\<rparr>))
       | _ \<Rightarrow> confit_v2_error CONFIT_ERR_SCHEMA entry kV2MissingField)"

definition confit_v2_parse_menu_references :: "toml_datum \<Rightarrow> load_stop + menu_reference list" where
  "confit_v2_parse_menu_references = table_array parse_menu_reference"

definition menu_order_field :: "toml_datum \<Rightarrow> load_stop + u32" where
  "menu_order_field v = (case int32_field v of
     None \<Rightarrow> confit_v2_error CONFIT_ERR_SCHEMA v kV2InvalidValue | Some order \<Rightarrow> Inr order)"

definition menu_body :: "string \<Rightarrow> toml_datum \<Rightarrow> toml_datum \<Rightarrow> load_stop + menu_node" where
  "menu_body ident prompt table =
     bind_res (confit_v2_copy_string prompt) (\<lambda>prompt.
     bind_res (optional_field table ''parent'' (\<lambda>v. map_sum (\<lambda>e. e) Some (confit_v2_copy_string v)) None) (\<lambda>parent.
     bind_res (optional_field table ''order'' menu_order_field 0) (\<lambda>order.
     bind_res (optional_field table ''visible_if'' confit_v2_parse_expression null_expression) (\<lambda>visible.
     bind_res (optional_field table ''references'' confit_v2_parse_menu_references []) (\<lambda>references.
       Inr \<lparr>menu_id = ident, menu_prompt = Some prompt, menu_parent = parent, menu_order = order,
            menu_visible_if = visible, menu_references = references, menu_span = confit_v2_copy_span table 0\<rparr>)))))"

definition confit_v2_parse_menu :: "string \<Rightarrow> toml_datum \<Rightarrow> loader \<Rightarrow> load_stop + loader" where
  "confit_v2_parse_menu ident table ld =
     bind_res (confit_v2_check_table_keys table [''prompt'', ''parent'', ''order'', ''visible_if'', ''references'']
                 kV2UnknownMenuField) (\<lambda>_.
       if \<not> confit_v2_is_dotted_identifier ident then confit_v2_error CONFIT_ERR_SCHEMA table kV2InvalidValue
       else case confit_v2_toml_table_find table ''prompt'' of
         None \<Rightarrow> confit_v2_error CONFIT_ERR_SCHEMA table kV2MissingField
       | Some prompt \<Rightarrow>
           bind_res (confit_v2_register_identifier (ld_menu_identifiers ld) ident table) (\<lambda>index.
           bind_res (menu_body ident prompt table) (\<lambda>menu.
             Inr (ld\<lparr>ld_menu_identifiers := index,
                     ld_project := (ld_project ld)\<lparr>project_menus := project_menus (ld_project ld) @ [menu]\<rparr>\<rparr>))))"

section \<open>Choices\<close>

definition parse_choice_default_entry :: "toml_datum \<Rightarrow> load_stop + choice_default" where
  "parse_choice_default_entry entry =
     bind_res (confit_v2_check_table_keys entry [''when'', ''member'', ''priority''] kV2UnknownChoiceField) (\<lambda>_.
       case (confit_v2_toml_table_find entry ''when'', confit_v2_toml_table_find entry ''member'',
             Option.bind (confit_v2_toml_table_find entry ''priority'') int32_field) of
         (Some condition, Some selected, Some priority) \<Rightarrow>
           bind_res (confit_v2_parse_expression condition) (\<lambda>expression.
           bind_res (confit_v2_copy_string selected) (\<lambda>ident.
             Inr \<lparr>chd_when = expression, chd_member = ident, chd_priority = priority,
                  chd_span = confit_v2_copy_span entry 0\<rparr>))
       | _ \<Rightarrow> confit_v2_error CONFIT_ERR_SCHEMA entry kV2InvalidValue)"

definition confit_v2_parse_choice_defaults :: "toml_datum \<Rightarrow> load_stop + choice_default list" where
  "confit_v2_parse_choice_defaults = table_array parse_choice_default_entry"

text \<open>Whatever is wrong with the member type is reported as an invalid value.\<close>

definition choice_member_type_field :: "toml_datum \<Rightarrow> load_stop + option_type" where
  "choice_member_type_field v =
     (let invalid = confit_v2_error CONFIT_ERR_SCHEMA v kV2InvalidValue
      in case confit_v2_parse_type v of
           Inl _ \<Rightarrow> invalid
         | Inr t \<Rightarrow> if t \<noteq> OPTION_BOOL \<and> t \<noteq> OPTION_TRISTATE then invalid else Inr t)"

definition choice_members_field :: "toml_datum \<Rightarrow> load_stop + string list" where
  "choice_members_field v =
     bind_res (confit_v2_parse_string_list v True False) (\<lambda>members.
       if length members = 0 then confit_v2_error CONFIT_ERR_SCHEMA v kV2InvalidValue else Inr members)"

definition choice_cardinality_field :: "toml_datum \<Rightarrow> load_stop + choice_cardinality" where
  "choice_cardinality_field = parse_name
     [(''exactly-one'', EXACTLY_ONE), (''zero-or-one'', ZERO_OR_ONE), (''one-or-more'', ONE_OR_MORE)]"

definition choice_body :: "string \<Rightarrow> toml_datum \<Rightarrow> toml_datum \<Rightarrow> toml_datum \<Rightarrow> toml_datum \<Rightarrow> load_stop + v2_choice" where
  "choice_body ident member_type members cardinality table =
     bind_res (choice_member_type_field member_type) (\<lambda>t.
     bind_res (choice_members_field members) (\<lambda>members.
     bind_res (choice_cardinality_field cardinality) (\<lambda>cardinality.
     bind_res (optional_field table ''available_if'' confit_v2_parse_expression null_expression) (\<lambda>available.
     bind_res (optional_field table ''visible_if'' confit_v2_parse_expression null_expression) (\<lambda>visible.
     bind_res (optional_field table ''defaults'' confit_v2_parse_choice_defaults []) (\<lambda>defaults.
       Inr \<lparr>choice_id = ident, choice_member_type = t, choice_members = members, choice_cardinality = cardinality,
            choice_available_if = available, choice_visible_if = visible, choice_defaults = defaults,
            choice_span = confit_v2_copy_span table 0\<rparr>))))))"

definition confit_v2_parse_choice :: "string \<Rightarrow> toml_datum \<Rightarrow> loader \<Rightarrow> load_stop + loader" where
  "confit_v2_parse_choice ident table ld =
     bind_res (confit_v2_check_table_keys table [''member_type'', ''members'', ''cardinality'', ''available_if'',
                 ''visible_if'', ''defaults''] kV2UnknownChoiceField) (\<lambda>_.
       if \<not> confit_v2_is_dotted_identifier ident then confit_v2_error CONFIT_ERR_SCHEMA table kV2InvalidValue
       else case (confit_v2_toml_table_find table ''member_type'', confit_v2_toml_table_find table ''members'',
                  confit_v2_toml_table_find table ''cardinality'') of
         (Some member_type, Some members, Some cardinality) \<Rightarrow>
           bind_res (confit_v2_register_identifier (ld_choice_identifiers ld) ident table) (\<lambda>index.
           bind_res (choice_body ident member_type members cardinality table) (\<lambda>choice.
             Inr (ld\<lparr>ld_choice_identifiers := index,
                     ld_project := (ld_project ld)\<lparr>project_choices := project_choices (ld_project ld) @ [choice]\<rparr>\<rparr>)))
       | _ \<Rightarrow> confit_v2_error CONFIT_ERR_SCHEMA table kV2MissingField)"

section \<open>Constraints\<close>

definition confit_v2_parse_constraint :: "toml_datum \<Rightarrow> loader \<Rightarrow> load_stop + loader" where
  "confit_v2_parse_constraint table ld =
     bind_res (confit_v2_check_table_keys table [''id'', ''when'', ''require'', ''message''] kV2UnknownConstraintField) (\<lambda>_.
       case (confit_v2_toml_table_find table ''id'', confit_v2_toml_table_find table ''when'',
             confit_v2_toml_table_find table ''require'', confit_v2_toml_table_find table ''message'') of
         (Some id_value, Some condition, Some requirement, Some message) \<Rightarrow>
           bind_res (confit_v2_copy_string id_value) (\<lambda>ident.
             if \<not> confit_v2_is_dotted_identifier ident then confit_v2_error CONFIT_ERR_SCHEMA id_value kV2InvalidValue
             else
               bind_res (confit_v2_register_identifier (ld_constraint_identifiers ld) ident id_value) (\<lambda>index.
               bind_res (confit_v2_parse_expression condition) (\<lambda>when_expression.
               bind_res (confit_v2_parse_expression requirement) (\<lambda>require_expression.
               bind_res (confit_v2_copy_string message) (\<lambda>m.
                 Inr (ld\<lparr>ld_constraint_identifiers := index,
                         ld_project := (ld_project ld)\<lparr>project_constraints := project_constraints (ld_project ld) @
                           [\<lparr>constraint_id = ident, constraint_when = when_expression, constraint_require = require_expression,
                             constraint_message = Some m, constraint_span = confit_v2_copy_span table 0\<rparr>]\<rparr>\<rparr>))))))
       | _ \<Rightarrow> confit_v2_error CONFIT_ERR_SCHEMA table kV2MissingField)"

section \<open>Paths\<close>

record load_services = input_services +
  svc_realpath :: "string \<Rightarrow> string option"
  svc_file_exists :: "string \<Rightarrow> bool"

definition confit_host_path_canonicalize :: "load_services \<Rightarrow> nat \<Rightarrow> string \<Rightarrow> diagnostic + string" where
  "confit_host_path_canonicalize services out_size path =
     (if out_size = 0 \<or> char_at path 0 = NUL
      then Inl (confit_diagnostic_set CONFIT_ERR_INVALID_ARGUMENT (Some path) 0 0 ''invalid path canonicalize argument'')
      else case svc_realpath services path of
        None \<Rightarrow> Inl (confit_diagnostic_set CONFIT_ERR_PARSE (Some path) 0 0 ''failed to canonicalize path'')
      | Some resolved \<Rightarrow>
          if length resolved + 1 > out_size
          then Inl (confit_diagnostic_set CONFIT_ERR_INVALID_ARGUMENT (Some path) 0 0 ''canonical path buffer is too small'')
          else Inr resolved)"

definition confit_v2_path_is_within_root :: "string \<Rightarrow> string \<Rightarrow> bool" where
  "confit_v2_path_is_within_root root path \<longleftrightarrow>
     take (length root) path = root
     \<and> (char_at path (length root) = NUL \<or> confit_host_is_path_separator (char_at path (length root)))"

definition confit_v2_canonicalize_import_path ::
  "load_services \<Rightarrow> string \<Rightarrow> string \<Rightarrow> toml_datum \<Rightarrow> load_stop + string" where
  "confit_v2_canonicalize_import_path services config_root logical_path v =
     bind_res (loading (confit_host_path_join 4096 (Some config_root) (Some logical_path))) (\<lambda>joined_path.
     bind_res (loading (confit_host_path_canonicalize services 4096 joined_path)) (\<lambda>canonical.
     bind_res (loading (confit_host_path_canonicalize services 4096 config_root)) (\<lambda>canonical_root.
       if \<not> confit_v2_path_is_within_root canonical_root canonical
       then confit_v2_error CONFIT_ERR_SCHEMA v kV2ImportEscapesConfigRoot
       else Inr canonical)))"

definition confit_v2_find_config_root :: "load_services \<Rightarrow> string \<Rightarrow> diagnostic + string \<times> string" where
  "confit_v2_find_config_root services project_root =
     (let failed = (\<lambda>st path message. Inl (confit_diagnostic_set st (Some path) 0 0 message))
      in if char_at project_root 0 = NUL then failed CONFIT_ERR_INVALID_ARGUMENT project_root ''missing project root''
         else bind_res (confit_host_path_join 1024 (Some project_root) (Some ''project.toml'')) (\<lambda>direct.
           if svc_file_exists services direct then
             if length project_root + 1 > 1024 \<or> length direct + 1 > 1024
             then failed CONFIT_ERR_INVALID_ARGUMENT project_root ''config root buffer is too small''
             else Inr (project_root, direct)
           else
             bind_res (confit_host_path_join 1024 (Some project_root) (Some ''config'')) (\<lambda>config_root.
             bind_res (confit_host_path_join 1024 (Some config_root) (Some ''project.toml'')) (\<lambda>project_path.
               if \<not> svc_file_exists services project_path then failed CONFIT_ERR_PARSE project_path ''failed to open file''
               else if length config_root + 1 > 1024
               then failed CONFIT_ERR_INVALID_ARGUMENT project_root ''config root buffer is too small''
               else Inr (config_root, project_path)))))"

section \<open>Imports\<close>

definition CONFIT_V2_MAX_IMPORT_DEPTH :: nat where "CONFIT_V2_MAX_IMPORT_DEPTH = 128"

text \<open>The index of the new import is its place in the list.\<close>

definition confit_v2_append_import ::
  "load_services \<Rightarrow> string \<Rightarrow> string \<Rightarrow> toml_datum \<Rightarrow> loader \<Rightarrow> load_stop + nat \<times> loader" where
  "confit_v2_append_import services config_root path v ld =
     bind_res (confit_v2_canonicalize_import_path services config_root path v) (\<lambda>canonical.
       case find (\<lambda>i. strcmp (imp_canonical_path i) canonical = 0) (ld_imports ld) of
         Some i \<Rightarrow> confit_v2_error CONFIT_ERR_SCHEMA v
                     (if imp_state i = IMPORT_VISITING then kV2ImportCycle else kV2DuplicateImport)
       | None \<Rightarrow>
           Inr (length (ld_imports ld),
                ld\<lparr>ld_imports := ld_imports ld @
                  [\<lparr>imp_path = path, imp_canonical_path = canonical, imp_span = confit_v2_copy_span v 0,
                    imp_state = IMPORT_DECLARED\<rparr>]\<rparr>))"

definition import_item ::
  "load_services \<Rightarrow> string \<Rightarrow> toml_datum \<Rightarrow> loader \<Rightarrow> load_stop + nat \<times> loader" where
  "import_item services config_root item ld =
     bind_res (confit_v2_copy_string item) (\<lambda>import_path.
       if \<not> confit_v2_is_logical_path import_path then confit_v2_error CONFIT_ERR_SCHEMA item kV2InvalidImportPath
       else confit_v2_append_import services config_root import_path item ld)"

text \<open>The items of the field \<open>imports\<close>.\<close>

definition imports_field :: "toml_datum \<Rightarrow> load_stop + toml_datum list" where
  "imports_field table = optional_field table ''imports'' (\<lambda>v.
     if confit_v2_toml_value_type v \<noteq> TOML_VALUE_ARRAY then confit_v2_error CONFIT_ERR_SCHEMA v kV2WrongValueType
     else Inr (toml_array_items v)) []"

definition version_field :: "toml_datum \<Rightarrow> string \<Rightarrow> load_stop + unit" where
  "version_field table message = (case confit_v2_toml_table_find table ''schema_version'' of
     None \<Rightarrow> confit_v2_error CONFIT_ERR_SCHEMA table message
   | Some v \<Rightarrow> if confit_v2_toml_value_int64 v \<noteq> Some 2 then confit_v2_error CONFIT_ERR_SCHEMA v message else Inr ())"

definition import_root :: "load_services \<Rightarrow> string \<Rightarrow> load_stop + toml_datum" where
  "import_root services path =
     bind_res (loading (confit_v2_toml_parse_file (svc_read_text_file services) (svc_toml_parse_named services) path)) (\<lambda>root.
     bind_res (confit_v2_check_table_keys root [''schema_version'', ''imports'', ''option'', ''menu'', ''choice'', ''constraint'']
                 kV2UnknownImportField) (\<lambda>_.
     bind_res (version_field root kV2UnsupportedImportVersion) (\<lambda>_. Inr root)))"

text \<open>A table of declarations, by name, and the array of constraints.\<close>

definition named_declarations ::
  "toml_datum \<Rightarrow> string \<Rightarrow> (string \<Rightarrow> toml_datum \<Rightarrow> loader \<Rightarrow> load_stop + loader) \<Rightarrow> loader \<Rightarrow> load_stop + loader" where
  "named_declarations root key parse ld = optional_field root key (\<lambda>declarations.
     if confit_v2_toml_value_type declarations \<noteq> TOML_VALUE_TABLE
     then confit_v2_error CONFIT_ERR_SCHEMA declarations kV2WrongValueType
     else fold_res (\<lambda>(name, table). parse (c_text name) table) (toml_table_entries declarations) ld) ld"

definition constraint_array :: "toml_datum \<Rightarrow> loader \<Rightarrow> load_stop + loader" where
  "constraint_array root ld = optional_field root ''constraint'' (\<lambda>declarations.
     if confit_v2_toml_value_type declarations \<noteq> TOML_VALUE_ARRAY
     then confit_v2_error CONFIT_ERR_SCHEMA declarations kV2WrongValueType
     else fold_res confit_v2_parse_constraint (toml_array_items declarations) ld) ld"

definition document_declarations :: "toml_datum \<Rightarrow> loader \<Rightarrow> load_stop + loader" where
  "document_declarations root ld =
     bind_res (named_declarations root ''option'' confit_v2_parse_symbol ld) (\<lambda>ld.
     bind_res (named_declarations root ''menu'' confit_v2_parse_menu ld) (\<lambda>ld.
     bind_res (named_declarations root ''choice'' confit_v2_parse_choice ld) (\<lambda>ld.
       constraint_array root ld)))"

definition set_import_state :: "nat \<Rightarrow> import_state \<Rightarrow> loader \<Rightarrow> loader" where
  "set_import_state i state ld = ld\<lparr>ld_imports := (ld_imports ld)[i := (ld_imports ld ! i)\<lparr>imp_state := state\<rparr>]\<rparr>"

definition import_failure :: "v2_import \<Rightarrow> string \<Rightarrow> load_stop + 'a" where
  "import_failure i message =
     Inl (Load_Failed (confit_diagnostic_set CONFIT_ERR_SCHEMA (span_path (imp_span i)) (span_line (imp_span i))
       (span_column (imp_span i)) message))"

text \<open>
  The visit of an import, the document it names and the imports of that document. The bound on the
  depth, not the list of imports, is what makes the recursion end.
\<close>

function (sequential)
  confit_v2_visit_import :: "load_services \<Rightarrow> string \<Rightarrow> nat \<Rightarrow> nat \<Rightarrow> loader \<Rightarrow> load_stop + loader" and
  confit_v2_parse_import_document :: "load_services \<Rightarrow> string \<Rightarrow> string \<Rightarrow> nat \<Rightarrow> loader \<Rightarrow> load_stop + loader" and
  import_items :: "load_services \<Rightarrow> string \<Rightarrow> toml_datum list \<Rightarrow> nat \<Rightarrow> loader \<Rightarrow> load_stop + loader" where
  "confit_v2_visit_import services config_root import_index import_depth ld =
     (if import_index \<ge> length (ld_imports ld) then
        Inl (Load_Failed (confit_diagnostic_set CONFIT_ERR_INTERNAL (Some config_root) 0 0 ''schema v2 import index is invalid''))
      else
        let visited = ld_imports ld ! import_index
        in if import_depth > CONFIT_V2_MAX_IMPORT_DEPTH then import_failure visited kV2ImportDepthExceeded
           else case imp_state visited of
             IMPORT_COMPLETE \<Rightarrow> Inr ld
           | IMPORT_VISITING \<Rightarrow> import_failure visited kV2ImportCycle
           | IMPORT_DECLARED \<Rightarrow>
               bind_res (confit_v2_parse_import_document services config_root (imp_canonical_path visited) import_depth
                           (set_import_state import_index IMPORT_VISITING ld)) (\<lambda>ld.
                 Inr (set_import_state import_index IMPORT_COMPLETE ld)))"
| "confit_v2_parse_import_document services config_root path import_depth ld =
     bind_res (import_root services path) (\<lambda>root.
     bind_res (imports_field root) (\<lambda>items.
     bind_res (import_items services config_root items import_depth ld) (\<lambda>ld.
       document_declarations root ld)))"
| "import_items services config_root [] import_depth ld = Inr ld"
| "import_items services config_root (item # items) import_depth ld =
     bind_res (import_item services config_root item ld) (\<lambda>(import_index, ld).
     bind_res (confit_v2_visit_import services config_root import_index (import_depth + 1) ld) (\<lambda>ld.
       import_items services config_root items import_depth ld))"
  by pat_completeness auto
termination
proof -
  define room where "room depth = 2 * (CONFIT_V2_MAX_IMPORT_DEPTH + 1 - depth) - 1
      + (if depth > CONFIT_V2_MAX_IMPORT_DEPTH then 1 else 0)" for depth
  show ?thesis
    by (relation "measures [\<lambda>x. case x of
          Inl (_, _, _, depth, _) \<Rightarrow> if depth > CONFIT_V2_MAX_IMPORT_DEPTH then 0 else room depth + 1
        | Inr (Inl (_, _, _, depth, _)) \<Rightarrow> room depth
        | Inr (Inr (_, _, _, depth, _)) \<Rightarrow> room depth,
      \<lambda>x. case x of Inr (Inl _) \<Rightarrow> 1 | _ \<Rightarrow> 0,
      \<lambda>x. case x of Inr (Inr (_, _, items, _, _)) \<Rightarrow> length items | _ \<Rightarrow> 0]")
      (auto simp: room_def CONFIT_V2_MAX_IMPORT_DEPTH_def)
qed

declare confit_v2_visit_import.simps(1) [simp del] confit_v2_parse_import_document.simps [simp del]

section \<open>Projects\<close>

definition null_project :: "string \<Rightarrow> v2_project" where
  "null_project config_root =
     \<lparr>project_config_root = Some config_root, project_name = None, project_namespace = None, project_version = None,
      project_default_target = None, project_default_target_span = null_span, project_profile_dirs = [],
      project_target_dirs = [], project_selection_dirs = [], project_symbols = [], project_menus = [],
      project_choices = [], project_constraints = [], project_span = null_span\<rparr>"

definition null_loader :: "string \<Rightarrow> loader" where
  "null_loader config_root =
     \<lparr>ld_project = null_project config_root, ld_imports = [], ld_symbol_identifiers = empty_index,
      ld_menu_identifiers = empty_index, ld_choice_identifiers = empty_index, ld_constraint_identifiers = empty_index\<rparr>"

definition named_field :: "toml_datum \<Rightarrow> string \<Rightarrow> (string \<Rightarrow> bool) \<Rightarrow> load_stop + string" where
  "named_field table key accepted = (case confit_v2_toml_table_find table key of
     None \<Rightarrow> confit_v2_error CONFIT_ERR_SCHEMA table kV2InvalidValue
   | Some v \<Rightarrow> bind_res (confit_v2_copy_string v) (\<lambda>s.
       if accepted s then Inr s else confit_v2_error CONFIT_ERR_SCHEMA table kV2InvalidValue))"

definition project_table :: "toml_datum \<Rightarrow> load_stop + toml_datum" where
  "project_table root =
     (let missing = confit_v2_error CONFIT_ERR_SCHEMA root kV2MissingProject
      in if confit_v2_toml_table_size root \<noteq> 1 then missing
         else case confit_v2_toml_table_find root ''project'' of None \<Rightarrow> missing | Some table \<Rightarrow> Inr table)"

definition project_header :: "toml_datum \<Rightarrow> v2_project \<Rightarrow> load_stop + v2_project" where
  "project_header table p =
     bind_res (confit_v2_check_table_keys table [''name'', ''namespace'', ''version'', ''default_target'', ''schema_version'',
                 ''imports'', ''profile_dirs'', ''target_dirs'', ''selection_dirs''] kV2UnknownProjectField) (\<lambda>_.
     bind_res (named_field table ''name'' (\<lambda>s. char_at s 0 \<noteq> NUL)) (\<lambda>name.
     bind_res (named_field table ''namespace'' confit_v2_is_identifier_segment) (\<lambda>namespace_name.
     bind_res (version_field table kV2UnsupportedProjectVersion) (\<lambda>_.
     bind_res (optional_field table ''version'' (\<lambda>v. map_sum (\<lambda>e. e) Some (confit_v2_copy_string v)) None) (\<lambda>version.
     bind_res (optional_field table ''default_target'' (\<lambda>v.
         bind_res (confit_v2_copy_string v) (\<lambda>s. Inr (Some s, confit_v2_copy_span v 0))) (None, null_span)) (\<lambda>(target, target_span).
       Inr (p\<lparr>project_name := Some name, project_namespace := Some namespace_name, project_version := version,
              project_default_target := target, project_default_target_span := target_span,
              project_span := confit_v2_copy_span table 0\<rparr>)))))))"

definition project_directories :: "toml_datum \<Rightarrow> v2_project \<Rightarrow> load_stop + v2_project" where
  "project_directories table p =
     bind_res (optional_field table ''profile_dirs'' (\<lambda>v. confit_v2_parse_string_list v True True) []) (\<lambda>profiles.
     bind_res (optional_field table ''target_dirs'' (\<lambda>v. confit_v2_parse_string_list v True True) []) (\<lambda>targets.
     bind_res (optional_field table ''selection_dirs'' (\<lambda>v. confit_v2_parse_string_list v True True) []) (\<lambda>selections.
       Inr (p\<lparr>project_profile_dirs := profiles, project_target_dirs := targets, project_selection_dirs := selections\<rparr>))))"

text \<open>The imports of the project document are only declared here.\<close>

definition confit_v2_parse_project_document :: "load_services \<Rightarrow> string \<Rightarrow> string \<Rightarrow> loader \<Rightarrow> load_stop + loader" where
  "confit_v2_parse_project_document services config_root project_path ld =
     bind_res (loading (confit_v2_toml_parse_file (svc_read_text_file services) (svc_toml_parse_named services) project_path)) (\<lambda>root.
     bind_res (project_table root) (\<lambda>table.
     bind_res (project_header table (ld_project ld)) (\<lambda>p.
     bind_res (project_directories table p) (\<lambda>p.
     bind_res (imports_field table) (\<lambda>items.
       fold_res (\<lambda>item ld. map_sum (\<lambda>e. e) snd (import_item services config_root item ld)) items (ld\<lparr>ld_project := p\<rparr>))))))"

text \<open>The loop over the imports; a visit may append further ones.\<close>

partial_function (option) visit_imports :: "load_services \<Rightarrow> string \<Rightarrow> nat \<Rightarrow> loader \<Rightarrow> (load_stop + loader) option" where
  "visit_imports services config_root i ld =
     (if i < length (ld_imports ld) then
        (case confit_v2_visit_import services config_root i 1 ld of
           Inl stop \<Rightarrow> Some (Inl stop) | Inr ld \<Rightarrow> visit_imports services config_root (i + 1) ld)
      else Some (Inr ld))"

declare visit_imports.simps [code]

definition confit_v2_schema_load_project_with_allocator :: "load_services \<Rightarrow> string \<Rightarrow> load_stop + loader" where
  "confit_v2_schema_load_project_with_allocator services project_root =
     bind_res (loading (confit_v2_find_config_root services project_root)) (\<lambda>(config_root, _).
     bind_res (loading (confit_host_path_canonicalize services 4096 config_root)) (\<lambda>canonical_config_root.
       if length canonical_config_root + 1 > 1024
       then Inl (Load_Failed (confit_diagnostic_set CONFIT_ERR_INVALID_ARGUMENT (Some project_root) 0 0
                   ''canonical config root is too long''))
       else
         bind_res (loading (confit_host_path_join 1024 (Some canonical_config_root) (Some ''project.toml''))) (\<lambda>project_path.
         bind_res (confit_v2_parse_project_document services canonical_config_root project_path
                     (null_loader canonical_config_root)) (\<lambda>ld.
           case visit_imports services canonical_config_root 0 ld of
             None \<Rightarrow> Inl Load_Not_Returning | Some r \<Rightarrow> r))))"

definition confit_v2_schema_load_project :: "load_services \<Rightarrow> string \<Rightarrow> load_stop + v2_project" where
  "confit_v2_schema_load_project services project_root =
     map_sum (\<lambda>e. e) ld_project (confit_v2_schema_load_project_with_allocator services project_root)"

end
