(* ===== verification/Loader_Values.thy ===== *)
theory Loader_Values
  imports Loader_Declarations Index_Correct Inputs_Correct
begin

text \<open>
  What the loader guarantees of a declaration it accepts: \<open>loads r P\<close> says that a step fails with a
  diagnostic or returns a value with property \<open>P\<close>, so it reads no absent union member and its probes
  end. Shown for strings, names, typed values, ranges and the fields of an option.
\<close>

section \<open>Integers as floating point numbers\<close>

lemma nat_bits_upper: "n < 2 ^ nat_bits n"
proof (induction n rule: nat_bits.induct)
  case (1 n)
  then show ?case by (subst nat_bits.simps) auto
qed

lemma nat_bits_lower: "n < 2 ^ k \<Longrightarrow> nat_bits n \<le> k"
proof (induction k arbitrary: n)
  case 0
  then show ?case by (simp add: nat_bits.simps)
next
  case (Suc k)
  then have "nat_bits (n div 2) \<le> k" by simp
  then show ?case by (subst nat_bits.simps) simp
qed

lemma round_half_even_bound: "round_half_even n d \<le> n div d + 1"
  by (simp add: round_half_even_def Let_def)

lemma f64_make_finite: "n < 2047 * 2 ^ 52 \<Longrightarrow> isfinite (f64_make s n)"
  by (simp add: isfinite_def f64_make_exponent less_mult_imp_div_less)

text \<open>The conversion \<open>(double)n\<close> of an integer of 64 bits is finite.\<close>

lemma f64_of_int64_finite:
  assumes "n \<le> 2 ^ 63" shows "isfinite (f64_round s n 1)"
proof (cases "n = 0")
  case False
  define k where "k = nat_bits n - 1"
  have bits: "nat_bits n = k + 1" using False by (subst nat_bits.simps) (simp add: k_def nat_bits.simps [of n])
  have one: "nat_bits 1 = 1" by (simp add: nat_bits.simps)
  define e where "e = (if n < 2 ^ k then int k - 1 else int k)"
  have e: "n < 2 ^ nat (e + 1)" using nat_bits_upper [of n] bits by (auto simp: e_def nat_add_distrib)
  then have "e \<ge> 0" using False by (cases "e + 1 \<le> 0") auto
  have "k \<le> 63" using nat_bits_lower [of n 64] assms bits by simp
  then have "e \<le> 63" by (simp add: e_def)
  define u where "u = max (e - 52) (- 1074)"
  have u: "u = e - 52" using \<open>e \<ge> 0\<close> by (simp add: u_def)
  define m where "m = (if u \<ge> 0 then round_half_even n (2 ^ nat u) else round_half_even (n * 2 ^ nat (- u)) 1)"
  have m: "m \<le> 2 ^ 53"
  proof (cases "u \<ge> 0")
    case True
    have "nat (e + 1) = 53 + nat u" using True u by simp
    then have "n < 2 ^ 53 * 2 ^ nat u" using e by (simp only: power_add)
    then have "n div 2 ^ nat u < 2 ^ 53" by (simp add: less_mult_imp_div_less)
    then show ?thesis using True round_half_even_bound [of n "2 ^ nat u"] by (simp add: m_def)
  next
    case False
    have "n * 2 ^ nat (- u) < 2 ^ nat (e + 1) * 2 ^ nat (- u)" using e by simp
    also have "\<dots> = 2 ^ 53" using False u \<open>e \<ge> 0\<close> by (simp flip: power_add add: nat_add_distrib [symmetric])
    finally show ?thesis using False by (simp add: m_def round_half_even_def Let_def)
  qed
  have "f64_round s n 1 = f64_make s (min (2047 * 2 ^ 52) (nat (u + 1074) * 2 ^ 52 + m))"
    using False bits one by (simp add: f64_round_def Let_def u_def e_def m_def)
  moreover have "nat (u + 1074) * 2 ^ 52 + m < 2047 * 2 ^ 52"
  proof -
    have "nat (u + 1074) \<le> 1085" using u \<open>e \<le> 63\<close> by simp
    then have "nat (u + 1074) * 2 ^ 52 \<le> 1085 * 2 ^ 52" by (rule mult_le_mono1)
    then show ?thesis using m by simp
  qed
  ultimately show ?thesis by (simp add: f64_make_finite)
qed (simp add: f64_round_def)

section \<open>Steps that fail with a diagnostic or return\<close>

definition loads :: "load_stop + 'a \<Rightarrow> ('a \<Rightarrow> bool) \<Rightarrow> bool" where
  "loads r P \<longleftrightarrow> (case r of Inl e \<Rightarrow> \<exists>d. e = Load_Failed d | Inr x \<Rightarrow> P x)"

named_theorems loads_intros "rules for the results of loader steps"

lemma loads_Inr [simp]: "loads (Inr x) P \<longleftrightarrow> P x"
  by (simp add: loads_def)

lemma loads_error [simp]: "loads (confit_v2_error st v message) P"
  by (simp add: loads_def confit_v2_error_def)

lemma loads_failed [simp]: "loads (Inl (Load_Failed d)) P"
  by (simp add: loads_def)

lemma loadsD: "loads r P \<Longrightarrow> r = Inr x \<Longrightarrow> P x"
  by (simp add: loads_def)

lemma loads_mono: "loads r P \<Longrightarrow> (\<And>x. r = Inr x \<Longrightarrow> P x \<Longrightarrow> Q x) \<Longrightarrow> loads r Q"
  by (auto simp: loads_def split: sum.splits)

lemma loads_bind: "loads r P \<Longrightarrow> (\<And>x. r = Inr x \<Longrightarrow> P x \<Longrightarrow> loads (f x) Q) \<Longrightarrow> loads (bind_res r f) Q"
  by (auto simp: loads_def split: sum.splits)

lemma loads_True: "loads r P \<Longrightarrow> loads r (\<lambda>_. True)"
  by (rule loads_mono) simp_all

lemma loads_map: "loads r (\<lambda>x. P (f x)) \<Longrightarrow> loads (map_sum (\<lambda>e. e) f r) P"
  by (auto simp: loads_def split: sum.splits)

lemma loads_loading [simp]: "loads (loading r) (\<lambda>x. r = Inr x)"
  by (auto simp: loads_def loading_def split: sum.splits)

lemma loads_fold_invariant:
  "I s \<Longrightarrow> (\<And>x s. x \<in> set list \<Longrightarrow> I s \<Longrightarrow> loads (f x s) I) \<Longrightarrow> loads (fold_res f list s) I"
  by (induction list arbitrary: s) (auto intro: loads_bind)

lemma loads_optional:
  "(confit_v2_toml_table_find table key = None \<Longrightarrow> P absent) \<Longrightarrow>
   (\<And>v. confit_v2_toml_table_find table key = Some v \<Longrightarrow> loads (parse v) P) \<Longrightarrow> loads (optional_field table key parse absent) P"
  by (simp add: optional_field_def split: option.split)

lemma loads_optional_any:
  "(\<And>v. loads (parse v) (\<lambda>_. True)) \<Longrightarrow> loads (optional_field table key parse absent) (\<lambda>_. True)"
  by (rule loads_optional) simp_all

lemma loads_keys: "loads (confit_v2_check_table_keys table allowed message) (\<lambda>_. True)"
  unfolding confit_v2_check_table_keys_def
  by (auto intro!: loads_fold_invariant split: prod.splits)

lemma loads_table_array:
  assumes "\<And>entry. loads (parse entry) P"
  shows "loads (table_array parse v) (\<lambda>xs. \<forall>x\<in>set xs. P x)"
  unfolding table_array_def
  by (auto intro!: loads_fold_invariant loads_bind [OF assms])

section \<open>Strings and names\<close>

lemma loads_copy_string: "loads (confit_v2_copy_string v) is_cstring"
  by (auto simp: confit_v2_copy_string_def is_cstring_def split: option.split)

lemma loads_some_string: "loads (map_sum (\<lambda>e. e) Some (confit_v2_copy_string v)) (\<lambda>s. \<forall>t. s = Some t \<longrightarrow> is_cstring t)"
  by (rule loads_map) (use loads_copy_string in simp)

lemma logical_path_same: "confit_v2_is_logical_path s \<longleftrightarrow> confit_v2_ledger_logical_path s"
  by (simp add: confit_v2_is_logical_path_def confit_v2_ledger_logical_path_def)

lemma string_list_contains_iff: "confit_v2_string_list_contains items s \<longleftrightarrow> s \<in> set items"
  by (auto simp: confit_v2_string_list_contains_def list_ex_iff strcmp_eq)

lemma loads_string_list:
  "loads (confit_v2_parse_string_list v unique logical)
     (\<lambda>items. (\<forall>s\<in>set items. is_cstring s \<and> (logical \<longrightarrow> portable_path s)) \<and> (unique \<longrightarrow> distinct items))"
  unfolding confit_v2_parse_string_list_def
  by (auto intro!: loads_fold_invariant loads_bind [OF loads_copy_string]
      simp: string_list_item_def string_list_contains_iff logical_path_same logical_path_iff)

definition text_ok :: "expression_text \<Rightarrow> bool" where
  "text_ok e \<longleftrightarrow> (case expr_text e of None \<Rightarrow> True | Some s \<Rightarrow> is_cstring s)"

lemma text_ok_null [simp]: "text_ok null_expression"
  by (simp add: text_ok_def null_expression_def)

lemma loads_expression: "loads (confit_v2_parse_expression v) (\<lambda>e. text_ok e \<and> expr_text e \<noteq> None)"
  unfolding confit_v2_parse_expression_def
  by (rule loads_bind [OF loads_copy_string]) (simp add: text_ok_def)

lemma loads_optional_expression: "loads (optional_field table key confit_v2_parse_expression null_expression) text_ok"
  by (rule loads_optional) (auto intro: loads_mono [OF loads_expression])

lemma loads_name: "(\<And>x. x \<in> snd ` set names \<Longrightarrow> P x) \<Longrightarrow> loads (parse_name names v) P"
  by (force simp: parse_name_def split: option.split dest: map_of_SomeD)

lemma loads_type: "loads (confit_v2_parse_type v) (\<lambda>t. t \<noteq> OPTION_INVALID)"
  unfolding confit_v2_parse_type_def by (rule loads_name) auto

lemma loads_write_domain: "loads (confit_v2_parse_write_domain v) (\<lambda>d. d \<noteq> DOMAIN_INVALID)"
  unfolding confit_v2_parse_write_domain_def by (rule loads_name) auto

lemma loads_stability: "loads (confit_v2_parse_stability v) (\<lambda>s. s \<noteq> STABILITY_INVALID)"
  unfolding confit_v2_parse_stability_def by (rule loads_name) auto

lemma loads_bool: "loads (confit_v2_parse_bool v) (\<lambda>_. True)"
  by (simp add: confit_v2_parse_bool_def split: option.split)

section \<open>Values\<close>

lemma f64_int64_finite: "isfinite (f64_round s (nat \<bar>sint (i :: i64)\<bar>) (Suc 0))"
proof -
  have "- (2 ^ 63) \<le> sint i" "sint i < 2 ^ 63" using sint_range_size [of i] by (simp_all add: word_size)
  then show ?thesis using f64_of_int64_finite [of "nat \<bar>sint i\<bar>" s] by simp
qed

text \<open>A value of a type, before its candidates and its range are considered.\<close>

definition value_fits :: "option_type \<Rightarrow> v2_value \<Rightarrow> bool" where
  "value_fits t v \<longleftrightarrow> cstring_value v \<and> (case (t, v) of
       (OPTION_BOOL, V_Bool b) \<Rightarrow> True
     | (OPTION_TRISTATE, V_Tristate c) \<Rightarrow> c \<in> {CHR ''n'', CHR ''m'', CHR ''y''}
     | (OPTION_INT, V_Int i) \<Rightarrow> True
     | (OPTION_UINT, V_Uint u) \<Rightarrow> True
     | (OPTION_HEX, V_Uint u) \<Rightarrow> True
     | (OPTION_FLOAT, V_Float f) \<Rightarrow> isfinite f
     | (OPTION_STRING, V_String s) \<Rightarrow> True
     | (OPTION_ENUM, V_String s) \<Rightarrow> True
     | (OPTION_PATH, V_String s) \<Rightarrow> portable_path s
     | (OPTION_STRING_LIST, V_String_List items) \<Rightarrow> True
     | (OPTION_PATH_LIST, V_String_List items) \<Rightarrow> (\<forall>s\<in>set items. portable_path s)
     | (OPTION_ENUM_SET, V_String_List items) \<Rightarrow> distinct items
     | _ \<Rightarrow> False)"

lemma loads_value:
  assumes "t \<noteq> OPTION_INVALID"
  shows "loads (confit_v2_parse_value t v) (value_fits t)"
proof -
  have d: "confit_v2_type_descriptor t \<noteq> None" using assms by (simp add: type_descriptor_total)
  note copy = loads_bind [OF loads_copy_string] and items = loads_bind [OF loads_string_list]
  show ?thesis
    using assms d
    by (cases t)
      (auto simp: confit_v2_parse_value_def Let_def value_fits_def cstring_value_def logical_path_same logical_path_iff
        intro!: f64_int64_finite loads_bind [OF loads_bool] copy items split: option.split)
qed

section \<open>Candidates\<close>

lemma candidate_index_same: "confit_v2_candidate_index vs s = confit_v2_ledger_candidate_index vs s"
  by (induction vs) simp_all

lemma exchange_step_loader: "exchange_step cs i j items = Some r \<Longrightarrow> loader_exchange cs i j items = r"
  by (auto simp: exchange_step_def loader_exchange_def candidate_index_same split: option.splits if_splits)

lemma exchange_inner_loader: "exchange_inner cs i js items = Some r \<Longrightarrow> fold (loader_exchange cs i) js items = r"
  by (induction js arbitrary: items) (auto dest: exchange_step_loader split: option.splits)

lemma loader_exchange_length: "length (fold (loader_exchange cs i) js items) = length items"
  by (induction js arbitrary: items) (auto simp: loader_exchange_def split: option.split)

lemma exchange_outer_loader:
  "exchange_outer cs is items = Some r \<Longrightarrow> length items = n
    \<Longrightarrow> fold (\<lambda>i. fold (loader_exchange cs i) [i + 1..<n]) is items = r"
proof (induction "is" arbitrary: items)
  case (Cons i "is")
  then obtain mid where mid: "exchange_inner cs i [i + 1..<n] items = Some mid" "exchange_outer cs is mid = Some r"
    by (auto split: option.splits)
  from exchange_inner_loader [OF mid(1)] have fold: "fold (loader_exchange cs i) [i + 1..<n] items = mid" .
  then have "length mid = n" using loader_exchange_length [of cs i "[i + 1..<n]" items] Cons.prems(2) by simp
  from Cons.IH [OF mid(2) this] fold show ?case by simp
qed simp

lemma loader_sorts:
  "set items \<subseteq> set cs \<Longrightarrow> distinct items \<Longrightarrow> loader_exchange_sort cs items = canonical_items cs items"
  using exchange_outer_loader [OF exchange_sorts] by (simp add: loader_exchange_sort_def)

text \<open>An assigned value: of its type and, for an enum, among the candidates and in their order.\<close>

definition assigned :: "option_type \<Rightarrow> string list \<Rightarrow> v2_value \<Rightarrow> bool" where
  "assigned t candidates v \<longleftrightarrow> value_fits t v \<and> (case (t, v) of
       (OPTION_ENUM, V_String s) \<Rightarrow> s \<in> set candidates
     | (OPTION_ENUM_SET, V_String_List items) \<Rightarrow> set items \<subseteq> set candidates \<and> canonical_items candidates items = items
     | _ \<Rightarrow> True)"

lemma canonical_items_facts [simp]:
  "set (canonical_items cs items) = set items" "distinct (canonical_items cs items) \<longleftrightarrow> distinct items"
  "canonical_items cs (canonical_items cs items) = canonical_items cs items"
  by (simp_all add: canonical_items_def sort_key_id_if_sorted)

lemma loads_validate_enum:
  assumes "assign_is_set a" "value_fits t (assign_value a)"
  shows "loads (confit_v2_validate_enum_value t candidates a v)
    (\<lambda>a. assign_is_set a \<and> assigned t candidates (assign_value a))"
  using assms
  by (cases t; cases "assign_value a")
    (auto simp: confit_v2_validate_enum_value_def Let_def assigned_def value_fits_def cstring_value_def
      candidate_index_same candidate_index_None list_ex_iff loader_sorts subset_iff)

lemma loads_assignment:
  assumes "t \<noteq> OPTION_INVALID"
  shows "loads (confit_v2_parse_assignment t v) (\<lambda>a. assign_is_set a \<and> value_fits t (assign_value a))"
  unfolding confit_v2_parse_assignment_def
  by (rule loads_bind [OF loads_value [OF assms]]) simp

lemma loads_checked_assignment:
  assumes "t \<noteq> OPTION_INVALID"
  shows "loads (bind_res (confit_v2_parse_assignment t v) (\<lambda>a. confit_v2_validate_enum_value t candidates a v))
    (\<lambda>a. assign_is_set a \<and> assigned t candidates (assign_value a))"
  by (rule loads_bind [OF loads_assignment [OF assms]]) (simp add: loads_validate_enum)

section \<open>Ranges\<close>

fun value_less :: "v2_value \<Rightarrow> v2_value \<Rightarrow> bool" where
  "value_less (V_Int a) (V_Int b) \<longleftrightarrow> sint a < sint b"
| "value_less (V_Uint a) (V_Uint b) \<longleftrightarrow> a < b"
| "value_less (V_Float a) (V_Float b) \<longleftrightarrow> f64_less a b"
| "value_less _ _ \<longleftrightarrow> False"

abbreviation numeric_type :: "option_type \<Rightarrow> bool" where
  "numeric_type t \<equiv> t \<in> {OPTION_INT, OPTION_UINT, OPTION_HEX, OPTION_FLOAT}"

lemma numeric_value_cases:
  assumes "numeric_type t" "value_fits t v"
  obtains (Int) i where "t = OPTION_INT" "v = V_Int i"
    | (Uint) u where "t = OPTION_UINT \<or> t = OPTION_HEX" "v = V_Uint u"
    | (Float) f where "t = OPTION_FLOAT" "v = V_Float f" "isfinite f"
  using assms by (cases v) (auto simp: value_fits_def)

lemma loads_compare:
  assumes "numeric_type t" "value_fits t l" "value_fits t r"
  shows "loads (stored (confit_v2_value_compare l r)) (\<lambda>c. (c < 0 \<longleftrightarrow> value_less l r) \<and> (c > 0 \<longleftrightarrow> value_less r l))"
  by (rule numeric_value_cases [OF assms(1,2)]; rule numeric_value_cases [OF assms(1,3)])
    (auto simp: confit_v2_value_compare_def stored_def as_int_def as_uint_def as_float_def dest: f64_less_asym)

lemma loads_range:
  "loads (confit_v2_parse_range t v) (\<lambda>r. numeric_type t \<and> value_fits t (range_min r) \<and> value_fits t (range_max r))"
proof (cases "numeric_type t")
  case True
  then have "t \<noteq> OPTION_INVALID" by auto
  note parsed = loads_bind [OF loads_value [OF \<open>t \<noteq> OPTION_INVALID\<close>]]
  show ?thesis
    unfolding confit_v2_parse_range_def
    by (simp only: True not_True_eq_False if_False)
      (rule loads_bind [OF loads_keys], auto simp: True intro!: parsed loads_bind [OF loads_compare [OF True]] simp del: insert_iff split: option.split)
qed (simp add: confit_v2_parse_range_def)

text \<open>A declared range has bounds of the option's type.\<close>

definition range_fits :: "option_type \<Rightarrow> numeric_range \<Rightarrow> bool" where
  "range_fits t r \<longleftrightarrow> (range_is_set r \<longrightarrow> numeric_type t \<and> value_fits t (range_min r) \<and> value_fits t (range_max r))"

lemma range_fits_typed: "range_fits (sym_type s) (sym_range s) \<Longrightarrow> range_typed s"
  by (cases "range_min (sym_range s)"; cases "range_max (sym_range s)")
    (auto simp: range_fits_def range_typed_def value_fits_def type_descriptors)

lemma not_less_le: "isfinite a \<Longrightarrow> isfinite b \<Longrightarrow> \<not> f64_less b a \<Longrightarrow> f64_le a b"
  by (auto simp: f64_less_def f64_le_def isinf_isnan_finite)

lemma loads_outside:
  assumes "range_fits (sym_type s) (sym_range s)"
    and "assign_is_set (sym_default_value s) \<Longrightarrow> value_fits (sym_type s) (assign_value (sym_default_value s))"
  shows "loads (default_outside_range s) (\<lambda>outside. outside
    \<or> (assign_is_set (sym_default_value s) \<longrightarrow> within_range s (assign_value (sym_default_value s))))"
proof (cases "range_is_set (sym_range s) \<and> assign_is_set (sym_default_value s)")
  case False
  then show ?thesis
    by (cases "range_is_set (sym_range s)") (simp_all add: default_outside_range_def within_range_def)
next
  case True
  let ?v = "assign_value (sym_default_value s)" and ?low = "range_min (sym_range s)" and ?high = "range_max (sym_range s)"
  have fits: "numeric_type (sym_type s)" "value_fits (sym_type s) ?v" "value_fits (sym_type s) ?low" "value_fits (sym_type s) ?high"
    using assms True by (auto simp: range_fits_def)
  have within: "within_range s ?v" if "\<not> value_less ?v ?low" "\<not> value_less ?high ?v"
    by (insert that; rule numeric_value_cases [OF fits(1,2)]; rule numeric_value_cases [OF fits(1,3)];
        rule numeric_value_cases [OF fits(1,4)]) (simp_all add: within_range_def not_less_le linorder_not_less)
  show ?thesis
    using True within
    by (auto simp: default_outside_range_def intro!: loads_bind [OF loads_compare [OF fits(1,2,3)]]
        loads_bind [OF loads_compare [OF fits(1,2,4)]])
qed

lemma assigned_allowed:
  assumes "assigned (sym_type s) (sym_values s) v" "within_range s v"
  shows "value_allowed s v \<and> canonical_value s v = v"
  using assms by (cases "sym_type s"; cases v) (auto simp: assigned_def value_fits_def value_allowed_def canonical_value_def)

section \<open>Options\<close>

definition default_loaded :: "option_type \<Rightarrow> string list \<Rightarrow> conditional_default \<Rightarrow> bool" where
  "default_loaded t candidates d \<longleftrightarrow> text_ok (cond_when d) \<and> expr_text (cond_when d) \<noteq> None
     \<and> assign_is_set (cond_assignment d) \<and> assigned t candidates (assign_value (cond_assignment d))"

definition suggestion_loaded :: "option_type \<Rightarrow> string list \<Rightarrow> suggestion \<Rightarrow> bool" where
  "suggestion_loaded t candidates g \<longleftrightarrow> text_ok (sugg_when g) \<and> expr_text (sugg_when g) \<noteq> None
     \<and> assign_is_set (sugg_assignment g) \<and> assigned t candidates (assign_value (sugg_assignment g))"

text \<open>
  An option as the loader hands it over: a dotted name in the namespace, a known type, candidates
  for an enum type only, a range of its type, a default its type, candidates and range allow,
  expressions that are C strings, and the fields its write domain asks for.
\<close>

definition symbol_loaded :: "string \<Rightarrow> v2_symbol \<Rightarrow> bool" where
  "symbol_loaded namespace_name s \<longleftrightarrow>
     confit_v2_is_dotted_identifier (sym_id s) \<and> in_namespace namespace_name (sym_id s)
     \<and> sym_type s \<noteq> OPTION_INVALID \<and> sym_write_domain s \<noteq> DOMAIN_INVALID \<and> sym_stability s \<noteq> STABILITY_INVALID
     \<and> distinct (sym_values s) \<and> (sym_values s \<noteq> [] \<longleftrightarrow> sym_type s \<in> {OPTION_ENUM, OPTION_ENUM_SET})
     \<and> range_fits (sym_type s) (sym_range s)
     \<and> (assign_is_set (sym_default_value s) \<longrightarrow> assigned (sym_type s) (sym_values s) (assign_value (sym_default_value s))
          \<and> within_range s (assign_value (sym_default_value s)))
     \<and> text_ok (sym_computed s) \<and> text_ok (sym_available_if s) \<and> text_ok (sym_visible_if s)
     \<and> (\<forall>d\<in>set (sym_defaults s). default_loaded (sym_type s) (sym_values s) d)
     \<and> (\<forall>g\<in>set (sym_suggestions s). suggestion_loaded (sym_type s) (sym_values s) g)
     \<and> symbol_domain_ok s"

lemma loads_defaults:
  assumes "t \<noteq> OPTION_INVALID"
  shows "loads (confit_v2_parse_defaults t cs v) (\<lambda>ds. \<forall>d\<in>set ds. default_loaded t cs d)"
  unfolding confit_v2_parse_defaults_def
  by (rule loads_table_array)
    (auto simp: parse_default_entry_def default_loaded_def split: option.split
      intro!: loads_bind [OF loads_keys] loads_bind [OF loads_expression] loads_bind [OF loads_assignment [OF assms]]
        loads_bind [OF loads_validate_enum])

lemma loads_suggestions:
  assumes "t \<noteq> OPTION_INVALID"
  shows "loads (confit_v2_parse_suggestions t cs v) (\<lambda>gs. \<forall>g\<in>set gs. suggestion_loaded t cs g)"
  unfolding confit_v2_parse_suggestions_def
  by (rule loads_table_array)
    (auto simp: parse_suggestion_entry_def suggestion_loaded_def split: option.split
      intro!: loads_bind [OF loads_keys] loads_bind [OF loads_expression] loads_bind [OF loads_assignment [OF assms]]
        loads_bind [OF loads_validate_enum] loads_bind [OF loads_copy_string])

lemma loads_emit: "loads (confit_v2_parse_emit v) (\<lambda>_. True)"
  unfolding confit_v2_parse_emit_def emit_item_def
  by (auto intro!: loads_fold_invariant loads_bind [OF loads_name [where P = "\<lambda>_. True"]])

lemma loads_header:
  "loads (symbol_header mandatory table symbol) (\<lambda>s. \<exists>t domain stable owner since.
     t \<noteq> OPTION_INVALID \<and> domain \<noteq> DOMAIN_INVALID \<and> stable \<noteq> STABILITY_INVALID
     \<and> s = symbol\<lparr>sym_type := t, sym_write_domain := domain, sym_stability := stable, sym_owner := Some owner,
         sym_since := Some since, sym_span := confit_v2_copy_span table 0\<rparr>)"
  unfolding symbol_header_def
  by (cases mandatory, simp only: prod.case,
      intro loads_bind [OF loads_type] loads_bind [OF loads_write_domain] loads_bind [OF loads_stability]
        loads_bind [OF loads_copy_string], simp only: loads_Inr, blast)

lemma loads_metadata:
  "loads (symbol_metadata table symbol) (\<lambda>s. \<exists>required user_override prompt help menu tags emit.
     s = symbol\<lparr>sym_required := required, sym_user_override := user_override, sym_prompt := prompt,
         sym_help := help, sym_menu := menu, sym_tags := tags, sym_emit_mask := emit\<rparr>)"
  unfolding symbol_metadata_def
  by (intro loads_bind [OF loads_optional_any] loads_bool loads_True [OF loads_some_string]
      loads_True [OF loads_string_list] loads_emit, simp only: loads_Inr, blast)

lemma loads_candidates:
  assumes "sym_type symbol \<noteq> OPTION_INVALID"
  shows "loads (symbol_candidates table symbol) (\<lambda>s. \<exists>candidates. s = symbol\<lparr>sym_values := candidates\<rparr>
     \<and> distinct candidates \<and> (candidates \<noteq> [] \<longleftrightarrow> sym_type symbol \<in> {OPTION_ENUM, OPTION_ENUM_SET}))"
proof -
  have candidates: "loads (optional_field table ''values'' (\<lambda>v. confit_v2_parse_string_list v True False) [])
      (\<lambda>candidates. distinct candidates \<and> (confit_v2_toml_table_find table ''values'' = None \<longrightarrow> candidates = []))"
    by (rule loads_optional) (auto intro: loads_mono [OF loads_string_list])
  have required: "requires_values (sym_type symbol) = Inr (sym_type symbol \<in> {OPTION_ENUM, OPTION_ENUM_SET})"
    using assms by (cases "sym_type symbol") (simp_all add: requires_values_def type_descriptors)
  show ?thesis
    unfolding symbol_candidates_def required
    by (rule loads_bind [OF candidates]) (auto split: option.split)
qed

end
