(* ===== verification/Loader_Correct.thy ===== *)
theory Loader_Correct
  imports Loader Loader_Values
begin

text \<open>
  The declarations of a document: each step of the loader keeps the invariant of the project being
  loaded and adds the declaration it is given, so the declarations of a document all arrive.
\<close>

section \<open>An option\<close>

lemma loads_default:
  assumes "sym_type symbol \<noteq> OPTION_INVALID"
  shows "loads (symbol_default table symbol) (\<lambda>s. \<exists>r a. s = symbol\<lparr>sym_range := r, sym_default_value := a\<rparr>
     \<and> range_fits (sym_type symbol) r
     \<and> (assign_is_set a \<longrightarrow> assigned (sym_type symbol) (sym_values symbol) (assign_value a) \<and> within_range s (assign_value a)))"
proof -
  have range: "loads (optional_field table ''range'' (confit_v2_parse_range (sym_type symbol)) null_range) (range_fits (sym_type symbol))"
    by (rule loads_optional) (auto simp: range_fits_def null_range_def intro: loads_mono [OF loads_range])
  have default: "loads (optional_field table ''default'' (\<lambda>v.
        bind_res (confit_v2_parse_assignment (sym_type symbol) v) (\<lambda>a.
          confit_v2_validate_enum_value (sym_type symbol) (sym_values symbol) a v)) null_assignment)
      (\<lambda>a. (assign_is_set a \<longrightarrow> assigned (sym_type symbol) (sym_values symbol) (assign_value a))
         \<and> (confit_v2_toml_table_find table ''default'' = None \<longrightarrow> \<not> assign_is_set a))"
    by (rule loads_optional)
      (auto simp: null_assignment_def intro: loads_mono [OF loads_checked_assignment [OF assms]])
  have fits: "assigned t cs v \<Longrightarrow> value_fits t v" for t cs v by (simp add: assigned_def)
  show ?thesis
    unfolding symbol_default_def Let_def
  proof (rule loads_bind [OF range], rule loads_bind [OF default])
    fix r a
    let ?s = "symbol\<lparr>sym_range := r, sym_default_value := a\<rparr>"
    assume r: "range_fits (sym_type symbol) r"
      and a: "(assign_is_set a \<longrightarrow> assigned (sym_type symbol) (sym_values symbol) (assign_value a))
         \<and> (confit_v2_toml_table_find table ''default'' = None \<longrightarrow> \<not> assign_is_set a)"
    have outside: "loads (default_outside_range ?s) (\<lambda>outside. outside
        \<or> (assign_is_set (sym_default_value ?s) \<longrightarrow> within_range ?s (assign_value (sym_default_value ?s))))"
      by (rule loads_outside) (use r a fits in auto)
    show "loads (bind_res (default_outside_range ?s) (\<lambda>outside. if outside then
          (case confit_v2_toml_table_find table ''default'' of
             None \<Rightarrow> Inl Load_Undefined | Some v \<Rightarrow> confit_v2_error CONFIT_ERR_SCHEMA v kV2InvalidValue) else Inr ?s))
        (\<lambda>s. \<exists>r a. s = symbol\<lparr>sym_range := r, sym_default_value := a\<rparr> \<and> range_fits (sym_type symbol) r
          \<and> (assign_is_set a \<longrightarrow> assigned (sym_type symbol) (sym_values symbol) (assign_value a) \<and> within_range s (assign_value a)))"
    proof (rule loads_bind [OF outside])
      fix x assume x: "default_outside_range ?s = Inr x" and ok: "x
        \<or> (assign_is_set (sym_default_value ?s) \<longrightarrow> within_range ?s (assign_value (sym_default_value ?s)))"
      have "x \<Longrightarrow> assign_is_set a" using x by (auto simp: default_outside_range_def split: if_splits)
      then show "loads (if x then (case confit_v2_toml_table_find table ''default'' of
             None \<Rightarrow> Inl Load_Undefined | Some v \<Rightarrow> confit_v2_error CONFIT_ERR_SCHEMA v kV2InvalidValue) else Inr ?s)
          (\<lambda>s. \<exists>r a. s = symbol\<lparr>sym_range := r, sym_default_value := a\<rparr> \<and> range_fits (sym_type symbol) r
            \<and> (assign_is_set a \<longrightarrow> assigned (sym_type symbol) (sym_values symbol) (assign_value a) \<and> within_range s (assign_value a)))"
        using a r ok by (cases x) (auto split: option.split)
    qed
  qed
qed

lemma loads_expressions:
  assumes "sym_type symbol \<noteq> OPTION_INVALID"
  shows "loads (symbol_expressions table symbol) (\<lambda>s. \<exists>computed available visible defaults suggestions.
     s = symbol\<lparr>sym_computed := computed, sym_available_if := available, sym_visible_if := visible,
         sym_defaults := defaults, sym_suggestions := suggestions\<rparr>
     \<and> text_ok computed \<and> text_ok available \<and> text_ok visible
     \<and> (\<forall>d\<in>set defaults. default_loaded (sym_type symbol) (sym_values symbol) d)
     \<and> (\<forall>g\<in>set suggestions. suggestion_loaded (sym_type symbol) (sym_values symbol) g))"
proof -
  have defaults: "loads (optional_field table ''defaults'' (confit_v2_parse_defaults (sym_type symbol) (sym_values symbol)) [])
      (\<lambda>ds. \<forall>d\<in>set ds. default_loaded (sym_type symbol) (sym_values symbol) d)"
    by (rule loads_optional) (simp_all add: loads_defaults [OF assms])
  have suggestions: "loads (optional_field table ''suggestions'' (confit_v2_parse_suggestions (sym_type symbol) (sym_values symbol)) [])
      (\<lambda>gs. \<forall>g\<in>set gs. suggestion_loaded (sym_type symbol) (sym_values symbol) g)"
    by (rule loads_optional) (simp_all add: loads_suggestions [OF assms])
  show ?thesis
    unfolding symbol_expressions_def
    by (intro loads_bind [OF loads_optional_expression] loads_bind [OF defaults] loads_bind [OF suggestions],
        simp only: loads_Inr, blast)
qed

lemma within_range_cong: "sym_range s = sym_range s' \<Longrightarrow> within_range s v = within_range s' v"
  by (simp add: within_range_def)

text \<open>The stages of an option, each kept by the later ones.\<close>

definition known_symbol :: "string \<Rightarrow> v2_symbol \<Rightarrow> bool" where
  "known_symbol ident s \<longleftrightarrow> sym_id s = ident \<and> sym_type s \<noteq> OPTION_INVALID \<and> sym_write_domain s \<noteq> DOMAIN_INVALID
     \<and> sym_stability s \<noteq> STABILITY_INVALID"

definition known_candidates :: "v2_symbol \<Rightarrow> bool" where
  "known_candidates s \<longleftrightarrow> distinct (sym_values s) \<and> (sym_values s \<noteq> [] \<longleftrightarrow> sym_type s \<in> {OPTION_ENUM, OPTION_ENUM_SET})"

definition known_default :: "v2_symbol \<Rightarrow> bool" where
  "known_default s \<longleftrightarrow> range_fits (sym_type s) (sym_range s)
     \<and> (assign_is_set (sym_default_value s) \<longrightarrow> assigned (sym_type s) (sym_values s) (assign_value (sym_default_value s))
          \<and> within_range s (assign_value (sym_default_value s)))"

lemma known_after_header: "loads (symbol_header mandatory table (null_symbol ident)) (known_symbol ident)"
  by (rule loads_mono [OF loads_header]) (auto simp: known_symbol_def null_symbol_def)

lemma known_after_metadata: "known_symbol ident s \<Longrightarrow> loads (symbol_metadata table s) (known_symbol ident)"
  by (rule loads_mono [OF loads_metadata]) (auto simp: known_symbol_def)

lemma known_after_candidates:
  assumes "known_symbol ident s"
  shows "loads (symbol_candidates table s) (\<lambda>s. known_symbol ident s \<and> known_candidates s)"
proof -
  have "sym_type s \<noteq> OPTION_INVALID" using assms by (simp add: known_symbol_def)
  from loads_candidates [OF this, of table] show ?thesis
    by (rule loads_mono) (use assms in \<open>auto simp: known_symbol_def known_candidates_def\<close>)
qed

lemma known_after_default:
  assumes "known_symbol ident s" "known_candidates s"
  shows "loads (symbol_default table s) (\<lambda>s. known_symbol ident s \<and> known_candidates s \<and> known_default s)"
proof -
  have "sym_type s \<noteq> OPTION_INVALID" using assms by (simp add: known_symbol_def)
  from loads_default [OF this, of table] show ?thesis
    by (rule loads_mono) (use assms in \<open>auto simp: known_symbol_def known_candidates_def known_default_def\<close>)
qed

lemma known_after_expressions:
  assumes "known_symbol ident s" "known_candidates s" "known_default s"
    and "confit_v2_is_dotted_identifier ident" "in_namespace namespace_name ident"
  shows "loads (symbol_expressions table s)
    (\<lambda>s. sym_id s = ident \<and> (symbol_domain_ok s \<longrightarrow> symbol_loaded namespace_name s))"
proof -
  have "sym_type s \<noteq> OPTION_INVALID" using assms by (simp add: known_symbol_def)
  from loads_expressions [OF this, of table] show ?thesis
  proof (rule loads_mono, elim exE conjE)
    fix s' computed available visible defaults suggestions
    assume s': "s' = s\<lparr>sym_computed := computed, sym_available_if := available, sym_visible_if := visible,
         sym_defaults := defaults, sym_suggestions := suggestions\<rparr>"
      and texts: "text_ok computed" "text_ok available" "text_ok visible"
        "\<forall>d\<in>set defaults. default_loaded (sym_type s) (sym_values s) d"
        "\<forall>g\<in>set suggestions. suggestion_loaded (sym_type s) (sym_values s) g"
    have "within_range s' v = within_range s v" for v by (rule within_range_cong) (simp add: s')
    with assms texts show "sym_id s' = ident \<and> (symbol_domain_ok s' \<longrightarrow> symbol_loaded namespace_name s')"
      by (simp add: symbol_loaded_def known_symbol_def known_candidates_def known_default_def s')
  qed
qed

lemma loads_symbol_body:
  assumes "confit_v2_is_dotted_identifier ident" "in_namespace namespace_name ident"
  shows "loads (symbol_body ident mandatory table) (\<lambda>s. sym_id s = ident \<and> symbol_loaded namespace_name s)"
  unfolding symbol_body_def
  by (rule loads_bind [OF known_after_header], rule loads_bind [OF known_after_metadata], assumption,
      rule loads_bind [OF known_after_candidates], assumption, elim conjE,
      rule loads_bind [OF known_after_default], assumption, assumption, elim conjE,
      rule loads_bind [OF known_after_expressions [OF _ _ _ assms]], assumption+) simp

section \<open>The project being loaded\<close>

definition menu_loaded :: "menu_node \<Rightarrow> bool" where
  "menu_loaded m \<longleftrightarrow> confit_v2_is_dotted_identifier (menu_id m) \<and> menu_prompt m \<noteq> None \<and> text_ok (menu_visible_if m)"

definition choice_loaded :: "v2_choice \<Rightarrow> bool" where
  "choice_loaded c \<longleftrightarrow> confit_v2_is_dotted_identifier (choice_id c) \<and> choice_member_type c \<in> {OPTION_BOOL, OPTION_TRISTATE}
     \<and> choice_members c \<noteq> [] \<and> distinct (choice_members c) \<and> choice_cardinality c \<noteq> CARDINALITY_INVALID
     \<and> text_ok (choice_available_if c) \<and> text_ok (choice_visible_if c)
     \<and> (\<forall>d\<in>set (choice_defaults c). text_ok (chd_when d) \<and> expr_text (chd_when d) \<noteq> None)"

definition constraint_loaded :: "v2_constraint \<Rightarrow> bool" where
  "constraint_loaded c \<longleftrightarrow> confit_v2_is_dotted_identifier (constraint_id c)
     \<and> text_ok (constraint_when c) \<and> expr_text (constraint_when c) \<noteq> None
     \<and> text_ok (constraint_require c) \<and> expr_text (constraint_require c) \<noteq> None"

definition project_loaded :: "v2_project \<Rightarrow> bool" where
  "project_loaded p \<longleftrightarrow>
     (\<exists>namespace_name. project_namespace p = Some namespace_name \<and> confit_v2_is_identifier_segment namespace_name
        \<and> (\<forall>s\<in>set (project_symbols p). symbol_loaded namespace_name s))
     \<and> (\<forall>m\<in>set (project_menus p). menu_loaded m) \<and> (\<forall>c\<in>set (project_choices p). choice_loaded c)
     \<and> (\<forall>c\<in>set (project_constraints p). constraint_loaded c)
     \<and> distinct (map sym_id (project_symbols p)) \<and> distinct (map menu_id (project_menus p))
     \<and> distinct (map choice_id (project_choices p)) \<and> distinct (map constraint_id (project_constraints p))"

text \<open>An index holds the identifiers of a list.\<close>

definition index_holds :: "identifier_index \<Rightarrow> string list \<Rightarrow> bool" where
  "index_holds index xs \<longleftrightarrow> index_ok index \<and> slot_ids (idx_slots index) = set xs"

definition loader_ok :: "loader \<Rightarrow> bool" where
  "loader_ok ld \<longleftrightarrow> project_loaded (ld_project ld)
     \<and> index_holds (ld_symbol_identifiers ld) (map sym_id (project_symbols (ld_project ld)))
     \<and> index_holds (ld_menu_identifiers ld) (map menu_id (project_menus (ld_project ld)))
     \<and> index_holds (ld_choice_identifiers ld) (map choice_id (project_choices (ld_project ld)))
     \<and> index_holds (ld_constraint_identifiers ld) (map constraint_id (project_constraints (ld_project ld)))"

text \<open>The declarations of a project, by kind and name, and a step that adds some.\<close>

definition declared :: "v2_project \<Rightarrow> (string \<times> string) set" where
  "declared p = (\<lambda>s. (''option'', sym_id s)) ` set (project_symbols p) \<union> (\<lambda>m. (''menu'', menu_id m)) ` set (project_menus p)
     \<union> (\<lambda>c. (''choice'', choice_id c)) ` set (project_choices p)
     \<union> (\<lambda>c. (''constraint'', constraint_id c)) ` set (project_constraints p)"

definition grown :: "(string \<times> string) set \<Rightarrow> loader \<Rightarrow> loader \<Rightarrow> bool" where
  "grown names ld ld' \<longleftrightarrow> loader_ok ld' \<and> ld_imports ld' = ld_imports ld
     \<and> declared (ld_project ld') = declared (ld_project ld) \<union> names"

lemma loads_register:
  assumes "index_holds index xs"
  shows "loads (confit_v2_register_identifier index ident v) (\<lambda>index. index_holds index (xs @ [ident]) \<and> ident \<notin> set xs)"
  using index_insert_ok [of index ident] assms
  by (auto simp: confit_v2_register_identifier_def index_holds_def)

lemma loader_namespace: "loader_ok ld \<Longrightarrow> \<exists>namespace_name. project_namespace (ld_project ld) = Some namespace_name"
  by (auto simp: loader_ok_def project_loaded_def)

lemma loads_parse_symbol:
  assumes ok: "loader_ok ld"
  shows "loads (confit_v2_parse_symbol ident table ld) (grown {(''option'', ident)} ld)"
proof -
  obtain namespace_name where ns: "project_namespace (ld_project ld) = Some namespace_name" using loader_namespace [OF ok] by blast
  have index: "index_holds (ld_symbol_identifiers ld) (map sym_id (project_symbols (ld_project ld)))" using ok by (simp add: loader_ok_def)
  have add: "grown {(''option'', sym_id s)} ld (ld\<lparr>ld_symbol_identifiers := index,
        ld_project := (ld_project ld)\<lparr>project_symbols := project_symbols (ld_project ld) @ [s]\<rparr>\<rparr>)"
    if "index_holds index (map sym_id (project_symbols (ld_project ld)) @ [sym_id s])"
      "sym_id s \<notin> sym_id ` set (project_symbols (ld_project ld))" "symbol_loaded namespace_name s" for index s
    using that ok ns by (auto simp: grown_def loader_ok_def project_loaded_def declared_def)
  show ?thesis
    unfolding confit_v2_parse_symbol_def ns
    by (rule loads_bind [OF loads_keys])
      (auto split: option.split intro!: loads_bind [OF loads_register [OF index]] loads_bind [OF loads_symbol_body] add)
qed

section \<open>Menus, choices and constraints\<close>

lemma loads_optional_string:
  "loads (optional_field table key (\<lambda>v. map_sum (\<lambda>e. e) Some (confit_v2_copy_string v)) None) (\<lambda>_. True)"
  by (intro loads_optional_any loads_True [OF loads_some_string])

lemma loads_menu_references: "loads (confit_v2_parse_menu_references v) (\<lambda>_. True)"
  unfolding confit_v2_parse_menu_references_def
  by (rule loads_True [OF loads_table_array [where P = "\<lambda>_. True"]])
    (auto simp: parse_menu_reference_def split: option.split intro!: loads_bind [OF loads_keys]
      loads_bind [OF loads_copy_string] loads_bind [OF loads_bool])

lemma loads_menu_order: "loads (menu_order_field v) (\<lambda>_. True)"
  by (simp add: menu_order_field_def split: option.split)

lemma loads_menu_body:
  assumes "confit_v2_is_dotted_identifier ident"
  shows "loads (menu_body ident prompt table) (\<lambda>m. menu_id m = ident \<and> menu_loaded m)"
  unfolding menu_body_def
  by (intro loads_bind [OF loads_copy_string] loads_bind [OF loads_optional_string]
      loads_bind [OF loads_optional_any [OF loads_menu_order]] loads_bind [OF loads_optional_expression]
      loads_bind [OF loads_optional_any [OF loads_menu_references]])
    (simp add: menu_loaded_def assms)

lemma loads_parse_menu:
  assumes ok: "loader_ok ld"
  shows "loads (confit_v2_parse_menu ident table ld) (grown {(''menu'', ident)} ld)"
proof -
  have index: "index_holds (ld_menu_identifiers ld) (map menu_id (project_menus (ld_project ld)))" using ok by (simp add: loader_ok_def)
  have add: "grown {(''menu'', menu_id m)} ld (ld\<lparr>ld_menu_identifiers := index,
        ld_project := (ld_project ld)\<lparr>project_menus := project_menus (ld_project ld) @ [m]\<rparr>\<rparr>)"
    if "index_holds index (map menu_id (project_menus (ld_project ld)) @ [menu_id m])"
      "menu_id m \<notin> menu_id ` set (project_menus (ld_project ld))" "menu_loaded m" for index m
    using that ok by (auto simp: grown_def loader_ok_def project_loaded_def declared_def)
  show ?thesis
    unfolding confit_v2_parse_menu_def
    by (rule loads_bind [OF loads_keys])
      (auto split: option.split intro!: loads_bind [OF loads_register [OF index]] loads_bind [OF loads_menu_body] add)
qed

lemma loads_choice_defaults:
  "loads (confit_v2_parse_choice_defaults v) (\<lambda>ds. \<forall>d\<in>set ds. text_ok (chd_when d) \<and> expr_text (chd_when d) \<noteq> None)"
  unfolding confit_v2_parse_choice_defaults_def
  by (rule loads_table_array)
    (auto simp: parse_choice_default_entry_def split: option.split
      intro!: loads_bind [OF loads_keys] loads_bind [OF loads_expression] loads_bind [OF loads_copy_string])

lemma loads_member_type: "loads (choice_member_type_field v) (\<lambda>t. t \<in> {OPTION_BOOL, OPTION_TRISTATE})"
  by (auto simp: choice_member_type_field_def Let_def split: sum.split)

lemma loads_members: "loads (choice_members_field v) (\<lambda>members. members \<noteq> [] \<and> distinct members)"
  unfolding choice_members_field_def by (rule loads_bind [OF loads_string_list]) simp

lemma loads_cardinality: "loads (choice_cardinality_field v) (\<lambda>c. c \<noteq> CARDINALITY_INVALID)"
  unfolding choice_cardinality_field_def by (rule loads_name) auto

lemma loads_choice_body:
  assumes "confit_v2_is_dotted_identifier ident"
  shows "loads (choice_body ident member_type members cardinality table) (\<lambda>c. choice_id c = ident \<and> choice_loaded c)"
proof -
  have defaults: "loads (optional_field table ''defaults'' confit_v2_parse_choice_defaults [])
      (\<lambda>ds. \<forall>d\<in>set ds. text_ok (chd_when d) \<and> expr_text (chd_when d) \<noteq> None)"
    by (rule loads_optional, simp) (rule loads_choice_defaults)
  show ?thesis
    unfolding choice_body_def
    by (intro loads_bind [OF loads_member_type] loads_bind [OF loads_members] loads_bind [OF loads_cardinality]
        loads_bind [OF loads_optional_expression] loads_bind [OF defaults])
      (simp add: choice_loaded_def assms)
qed

lemma loads_parse_choice:
  assumes ok: "loader_ok ld"
  shows "loads (confit_v2_parse_choice ident table ld) (grown {(''choice'', ident)} ld)"
proof -
  have index: "index_holds (ld_choice_identifiers ld) (map choice_id (project_choices (ld_project ld)))" using ok by (simp add: loader_ok_def)
  have add: "grown {(''choice'', choice_id c)} ld (ld\<lparr>ld_choice_identifiers := index,
        ld_project := (ld_project ld)\<lparr>project_choices := project_choices (ld_project ld) @ [c]\<rparr>\<rparr>)"
    if "index_holds index (map choice_id (project_choices (ld_project ld)) @ [choice_id c])"
      "choice_id c \<notin> choice_id ` set (project_choices (ld_project ld))" "choice_loaded c" for index c
    using that ok by (auto simp: grown_def loader_ok_def project_loaded_def declared_def)
  show ?thesis
    unfolding confit_v2_parse_choice_def
    by (rule loads_bind [OF loads_keys])
      (auto split: option.split intro!: loads_bind [OF loads_register [OF index]] loads_bind [OF loads_choice_body] add)
qed

text \<open>The identifier of a constraint is a field of its table.\<close>

definition constraint_names :: "toml_datum \<Rightarrow> (string \<times> string) set" where
  "constraint_names table =
     Pair ''constraint'' ` set_option (Option.bind (confit_v2_toml_table_find table ''id'') confit_v2_toml_value_string)"

lemma copy_string_value: "confit_v2_copy_string v = Inr s \<Longrightarrow> confit_v2_toml_value_string v = Some s"
  by (auto simp: confit_v2_copy_string_def confit_v2_error_def split: option.splits if_splits)

lemma loads_parse_constraint:
  assumes ok: "loader_ok ld"
  shows "loads (confit_v2_parse_constraint table ld) (grown (constraint_names table) ld)"
proof -
  have index: "index_holds (ld_constraint_identifiers ld) (map constraint_id (project_constraints (ld_project ld)))"
    using ok by (simp add: loader_ok_def)
  have add: "grown {(''constraint'', s)} ld (ld\<lparr>ld_constraint_identifiers := index,
        ld_project := (ld_project ld)\<lparr>project_constraints := project_constraints (ld_project ld) @ [c]\<rparr>\<rparr>)"
    if "index_holds index (map constraint_id (project_constraints (ld_project ld)) @ [constraint_id c])"
      "constraint_id c \<notin> constraint_id ` set (project_constraints (ld_project ld))" "constraint_loaded c"
      "constraint_id c = s" for index c s
    using that ok by (auto simp: grown_def loader_ok_def project_loaded_def declared_def)
  show ?thesis
    unfolding confit_v2_parse_constraint_def
    by (rule loads_bind [OF loads_keys])
      (auto split: option.split intro!: loads_bind [OF loads_copy_string] loads_bind [OF loads_register [OF index]]
        loads_bind [OF loads_expression] add simp: constraint_loaded_def constraint_names_def
        dest!: copy_string_value)
qed

section \<open>A document\<close>

lemma grown_refl: "loader_ok ld \<Longrightarrow> grown {} ld ld"
  by (simp add: grown_def)

lemma loads_grown_trans:
  assumes "loads r (grown A ld)" "\<And>ld'. grown A ld ld' \<Longrightarrow> loader_ok ld' \<Longrightarrow> loads (f ld') (grown B ld')"
  shows "loads (bind_res r f) (grown (A \<union> B) ld)"
proof (rule loads_bind [OF assms(1)])
  fix ld' assume "grown A ld ld'"
  then have "loads (f ld') (grown B ld')" using assms(2) by (simp add: grown_def)
  then show "loads (f ld') (grown (A \<union> B) ld)"
    by (rule loads_mono) (use \<open>grown A ld ld'\<close> in \<open>auto simp: grown_def\<close>)
qed

lemma loads_grown_fold:
  assumes "loader_ok ld" "\<And>x ld. x \<in> set xs \<Longrightarrow> loader_ok ld \<Longrightarrow> loads (f x ld) (grown (names x) ld)"
  shows "loads (fold_res f xs ld) (grown (\<Union>x\<in>set xs. names x) ld)"
  using assms
proof (induction xs arbitrary: ld)
  case (Cons x xs)
  have "loads (bind_res (f x ld) (fold_res f xs)) (grown (names x \<union> (\<Union>x\<in>set xs. names x)) ld)"
    using Cons by (intro loads_grown_trans) simp_all
  then show ?case by simp
qed (simp add: grown_refl)

text \<open>The names a document declares.\<close>

definition table_names :: "toml_datum \<Rightarrow> string \<Rightarrow> (string \<times> string) set" where
  "table_names root key = (case confit_v2_toml_table_find root key of
     None \<Rightarrow> {} | Some v \<Rightarrow> (\<lambda>(name, _). (key, c_text name)) ` set (toml_table_entries v))"

definition document_names :: "toml_datum \<Rightarrow> (string \<times> string) set" where
  "document_names root = table_names root ''option'' \<union> table_names root ''menu'' \<union> table_names root ''choice''
     \<union> (case confit_v2_toml_table_find root ''constraint'' of None \<Rightarrow> {} | Some v \<Rightarrow> \<Union> (constraint_names ` set (toml_array_items v)))"

lemma loads_named_declarations:
  assumes "loader_ok ld" "\<And>ident table ld. loader_ok ld \<Longrightarrow> loads (parse ident table ld) (grown {(key, ident)} ld)"
  shows "loads (named_declarations root key parse ld) (grown (table_names root key) ld)"
proof (cases "confit_v2_toml_table_find root key")
  case None
  then show ?thesis using assms(1) by (simp add: named_declarations_def optional_field_def table_names_def grown_refl)
next
  case (Some v)
  have "loads (fold_res (\<lambda>(name, table). parse (c_text name) table) (toml_table_entries v) ld)
      (grown (\<Union>x\<in>set (toml_table_entries v). {(key, c_text (fst x))}) ld)"
    by (rule loads_grown_fold [OF assms(1)]) (auto simp: assms(2))
  moreover have "(\<Union>x\<in>set (toml_table_entries v). {(key, c_text (fst x))}) = table_names root key"
    by (force simp: table_names_def Some)
  ultimately show ?thesis using Some by (simp add: named_declarations_def optional_field_def)
qed

lemma loads_constraint_array:
  assumes "loader_ok ld"
  shows "loads (constraint_array root ld) (grown (case confit_v2_toml_table_find root ''constraint'' of
      None \<Rightarrow> {} | Some v \<Rightarrow> \<Union> (constraint_names ` set (toml_array_items v))) ld)"
  using assms loads_grown_fold [OF assms, where f = confit_v2_parse_constraint and names = constraint_names]
  by (auto simp: constraint_array_def optional_field_def grown_refl loads_parse_constraint split: option.split)

lemma loads_declarations:
  assumes "loader_ok ld"
  shows "loads (document_declarations root ld) (grown (document_names root) ld)"
  unfolding document_declarations_def document_names_def Un_assoc
  by (intro loads_grown_trans loads_named_declarations assms loads_parse_symbol loads_parse_menu
      loads_parse_choice loads_constraint_array)

end
