(* ===== verification/Loader_Imports.thy ===== *)
theory Loader_Imports
  imports Loader_Correct
begin

text \<open>
  The imports of a project: their visit ends, every import is completed once, under its canonical path,
  and what the documents declare and import is what the project holds.
\<close>

section \<open>Documents and their imports\<close>

definition item_paths :: "toml_datum list \<Rightarrow> string set" where
  "item_paths items = {s. \<exists>item\<in>set items. confit_v2_toml_value_string item = Some s}"

text \<open>What the document at a path declares, and the logical paths it imports.\<close>

definition names_of :: "load_services \<Rightarrow> string \<Rightarrow> (string \<times> string) set" where
  "names_of services path = (case import_root services path of Inl _ \<Rightarrow> {} | Inr root \<Rightarrow> document_names root)"

definition imports_of :: "load_services \<Rightarrow> string \<Rightarrow> string set" where
  "imports_of services path = (case import_root services path of
     Inl _ \<Rightarrow> {} | Inr root \<Rightarrow> (case imports_field root of Inl _ \<Rightarrow> {} | Inr items \<Rightarrow> item_paths items))"

text \<open>An import is a logical path that \<open>realpath\<close> takes to its canonical path inside the root.\<close>

definition import_located :: "load_services \<Rightarrow> string \<Rightarrow> v2_import \<Rightarrow> bool" where
  "import_located services config_root i \<longleftrightarrow> confit_v2_is_logical_path (imp_path i)
     \<and> (\<exists>joined root. confit_host_path_join 4096 (Some config_root) (Some (imp_path i)) = Inr joined
          \<and> svc_realpath services joined = Some (imp_canonical_path i) \<and> svc_realpath services config_root = Some root
          \<and> confit_v2_path_is_within_root root (imp_canonical_path i))"

definition imports_ok :: "load_services \<Rightarrow> string \<Rightarrow> v2_import list \<Rightarrow> bool" where
  "imports_ok services config_root imports \<longleftrightarrow> distinct (map imp_canonical_path imports)
     \<and> (\<forall>i\<in>set imports. import_located services config_root i)"

lemma canonicalized: "confit_host_path_canonicalize services n path = Inr resolved \<Longrightarrow> svc_realpath services path = Some resolved"
  by (auto simp: confit_host_path_canonicalize_def split: if_splits option.splits)

lemma loads_canonical:
  "loads (confit_v2_canonicalize_import_path services config_root path v) (\<lambda>canonical.
     \<exists>joined root. confit_host_path_join 4096 (Some config_root) (Some path) = Inr joined
       \<and> svc_realpath services joined = Some canonical \<and> svc_realpath services config_root = Some root
       \<and> confit_v2_path_is_within_root root canonical)"
  unfolding confit_v2_canonicalize_import_path_def
  by (intro loads_bind [OF loads_loading]) (auto dest!: canonicalized)

lemma loads_import_item:
  assumes "imports_ok services config_root (ld_imports ld)"
  shows "loads (import_item services config_root item ld) (\<lambda>(i, ld'). \<exists>new. i = length (ld_imports ld)
     \<and> ld' = ld\<lparr>ld_imports := ld_imports ld @ [new]\<rparr> \<and> imp_state new = IMPORT_DECLARED
     \<and> confit_v2_toml_value_string item = Some (imp_path new) \<and> imports_ok services config_root (ld_imports ld @ [new]))"
proof -
  have absent: "canonical \<notin> imp_canonical_path ` set (ld_imports ld)"
    if "find (\<lambda>i. strcmp (imp_canonical_path i) canonical = 0) (ld_imports ld) = None" for canonical
    using that by (auto simp: find_None_iff strcmp_eq)
  show ?thesis
    unfolding import_item_def
  proof (rule loads_bind [OF loads_copy_string])
    fix path assume copied: "confit_v2_copy_string item = Inr path"
    show "loads (if \<not> confit_v2_is_logical_path path then confit_v2_error CONFIT_ERR_SCHEMA item kV2InvalidImportPath
        else confit_v2_append_import services config_root path item ld) (\<lambda>(i, ld'). \<exists>new. i = length (ld_imports ld)
     \<and> ld' = ld\<lparr>ld_imports := ld_imports ld @ [new]\<rparr> \<and> imp_state new = IMPORT_DECLARED
     \<and> confit_v2_toml_value_string item = Some (imp_path new) \<and> imports_ok services config_root (ld_imports ld @ [new]))"
    proof (cases "confit_v2_is_logical_path path")
      case logical: True
      have appended: "loads (confit_v2_append_import services config_root path item ld) (\<lambda>(i, ld'). \<exists>new. i = length (ld_imports ld)
         \<and> ld' = ld\<lparr>ld_imports := ld_imports ld @ [new]\<rparr> \<and> imp_state new = IMPORT_DECLARED
         \<and> confit_v2_toml_value_string item = Some (imp_path new) \<and> imports_ok services config_root (ld_imports ld @ [new]))"
        unfolding confit_v2_append_import_def
      proof (rule loads_bind [OF loads_canonical], elim exE conjE)
        fix canonical joined root
        assume located: "confit_host_path_join 4096 (Some config_root) (Some path) = Inr joined"
          "svc_realpath services joined = Some canonical" "svc_realpath services config_root = Some root"
          "confit_v2_path_is_within_root root canonical"
        define new where "new = \<lparr>imp_path = path, imp_canonical_path = canonical, imp_span = confit_v2_copy_span item 0,
            imp_state = IMPORT_DECLARED\<rparr>"
        have "imports_ok services config_root (ld_imports ld @ [new])"
          if "find (\<lambda>i. strcmp (imp_canonical_path i) canonical = 0) (ld_imports ld) = None"
          using assms absent [OF that] located logical by (auto simp: imports_ok_def import_located_def new_def)
        then show "loads (case find (\<lambda>i. strcmp (imp_canonical_path i) canonical = 0) (ld_imports ld) of
           None \<Rightarrow> Inr (length (ld_imports ld), ld\<lparr>ld_imports := ld_imports ld @
               [\<lparr>imp_path = path, imp_canonical_path = canonical, imp_span = confit_v2_copy_span item 0, imp_state = IMPORT_DECLARED\<rparr>]\<rparr>)
           | Some i \<Rightarrow> confit_v2_error CONFIT_ERR_SCHEMA item
                     (if imp_state i = IMPORT_VISITING then kV2ImportCycle else kV2DuplicateImport))
          (\<lambda>(i, ld'). \<exists>new. i = length (ld_imports ld) \<and> ld' = ld\<lparr>ld_imports := ld_imports ld @ [new]\<rparr>
             \<and> imp_state new = IMPORT_DECLARED \<and> confit_v2_toml_value_string item = Some (imp_path new)
             \<and> imports_ok services config_root (ld_imports ld @ [new]))"
          using copy_string_value [OF copied] by (auto simp: new_def split: option.split intro!: exI [of _ new])
      qed
      then show ?thesis using logical by simp
    qed simp
  qed
qed

lemma loads_imports_field: "loads (imports_field table) (\<lambda>_. True)"
  unfolding imports_field_def by (rule loads_optional_any) simp

lemma loads_version: "loads (version_field table message) (\<lambda>_. True)"
  by (simp add: version_field_def split: option.split)

lemma loads_import_root: "loads (import_root services path) (\<lambda>root. import_root services path = Inr root)"
proof -
  have "loads (import_root services path) (\<lambda>_. True)"
    unfolding import_root_def
    by (intro loads_bind [OF loads_loading] loads_bind [OF loads_keys] loads_bind [OF loads_version]) simp
  then show ?thesis by (rule loads_mono) simp
qed

section \<open>A visit\<close>

abbreviation new_paths :: "v2_import list \<Rightarrow> string set" where
  "new_paths new \<equiv> imp_path ` set new"

text \<open>What a visit that appends the imports \<open>new\<close> leaves behind.\<close>

definition visited ::
  "load_services \<Rightarrow> string \<Rightarrow> (string \<times> string) set \<Rightarrow> v2_import list \<Rightarrow> loader \<Rightarrow> loader \<Rightarrow> bool" where
  "visited services config_root names new ld ld' \<longleftrightarrow> loader_ok ld' \<and> imports_ok services config_root (ld_imports ld')
     \<and> declared (ld_project ld') = declared (ld_project ld) \<union> names \<union> (\<Union>i\<in>set new. names_of services (imp_canonical_path i))
     \<and> (\<forall>i\<in>set new. imp_state i = IMPORT_COMPLETE \<and> imports_of services (imp_canonical_path i) \<subseteq> new_paths new)"

definition completed :: "v2_import \<Rightarrow> v2_import" where
  "completed i = i\<lparr>imp_state := IMPORT_COMPLETE\<rparr>"

lemma completed_simps [simp]:
  "imp_path (completed i) = imp_path i" "imp_canonical_path (completed i) = imp_canonical_path i"
  "imp_state (completed i) = IMPORT_COMPLETE"
  by (simp_all add: completed_def)

lemma imports_ok_state:
  "imports_ok services config_root (is[i := (is ! i)\<lparr>imp_state := state\<rparr>] @ js) \<longleftrightarrow> imports_ok services config_root (is @ js)"
proof -
  have canonical: "map imp_canonical_path (is[i := (is ! i)\<lparr>imp_state := state\<rparr>]) = map imp_canonical_path is"
    by (cases "i < length is") (auto intro!: nth_equalityI simp: nth_list_update)
  have located: "(\<forall>x\<in>set (is[i := (is ! i)\<lparr>imp_state := state\<rparr>]). import_located services config_root x)
      \<longleftrightarrow> (\<forall>x\<in>set is. import_located services config_root x)"
    unfolding all_set_conv_all_nth by (cases "i < length is") (auto simp: nth_list_update import_located_def)
  show ?thesis
    by (simp add: imports_ok_def ball_Un located del: map_update) (simp add: canonical del: map_update flip: set_map)
qed

definition visit_result :: "load_services \<Rightarrow> string \<Rightarrow> nat \<Rightarrow> loader \<Rightarrow> loader \<Rightarrow> bool" where
  "visit_result services config_root i ld ld' \<longleftrightarrow> i < length (ld_imports ld)
     \<and> (case imp_state (ld_imports ld ! i) of
          IMPORT_COMPLETE \<Rightarrow> ld' = ld
        | IMPORT_VISITING \<Rightarrow> False
        | IMPORT_DECLARED \<Rightarrow>
            \<exists>new. ld_imports ld' = (ld_imports ld)[i := completed (ld_imports ld ! i)] @ new
              \<and> visited services config_root (names_of services (imp_canonical_path (ld_imports ld ! i))) new ld ld'
              \<and> imports_of services (imp_canonical_path (ld_imports ld ! i)) \<subseteq> new_paths new)"

definition document_result :: "load_services \<Rightarrow> string \<Rightarrow> string \<Rightarrow> loader \<Rightarrow> loader \<Rightarrow> bool" where
  "document_result services config_root path ld ld' \<longleftrightarrow>
     (\<exists>new. ld_imports ld' = ld_imports ld @ new \<and> visited services config_root (names_of services path) new ld ld'
        \<and> imports_of services path \<subseteq> new_paths new)"

definition items_result :: "load_services \<Rightarrow> string \<Rightarrow> toml_datum list \<Rightarrow> loader \<Rightarrow> loader \<Rightarrow> bool" where
  "items_result services config_root items ld ld' \<longleftrightarrow>
     (\<exists>new. ld_imports ld' = ld_imports ld @ new \<and> visited services config_root {} new ld ld'
        \<and> item_paths items \<subseteq> new_paths new)"

lemma visit_completes:
  assumes "i < length (ld_imports ld)" "imp_state (ld_imports ld ! i) = IMPORT_DECLARED"
    and "document_result services config_root (imp_canonical_path (ld_imports ld ! i)) (set_import_state i IMPORT_VISITING ld) ld'"
  shows "visit_result services config_root i ld (set_import_state i IMPORT_COMPLETE ld')"
proof -
  let ?x = "ld_imports ld ! i"
  obtain new where new: "ld_imports ld' = (ld_imports ld)[i := ?x\<lparr>imp_state := IMPORT_VISITING\<rparr>] @ new"
      "visited services config_root (names_of services (imp_canonical_path ?x)) new (set_import_state i IMPORT_VISITING ld) ld'"
      "imports_of services (imp_canonical_path ?x) \<subseteq> new_paths new"
    using assms(3) by (auto simp: document_result_def set_import_state_def)
  have listed: "ld_imports (set_import_state i IMPORT_COMPLETE ld') = (ld_imports ld)[i := completed ?x] @ new"
    using assms(1) by (simp add: set_import_state_def new(1) list_update_append nth_append completed_def)
  have "imports_ok services config_root ((ld_imports ld)[i := ?x\<lparr>imp_state := IMPORT_VISITING\<rparr>] @ new)"
    using new(2) by (simp add: visited_def new(1))
  then have ok: "imports_ok services config_root ((ld_imports ld)[i := completed ?x] @ new)"
    unfolding completed_def by (simp only: imports_ok_state)
  have "visited services config_root (names_of services (imp_canonical_path ?x)) new ld (set_import_state i IMPORT_COMPLETE ld')"
    using new(2) ok unfolding visited_def listed by (simp add: set_import_state_def loader_ok_def)
  then show ?thesis using assms(1,2) listed new(3) by (auto simp: visit_result_def)
qed

lemma items_step:
  assumes "ld1 = ld\<lparr>ld_imports := ld_imports ld @ [x]\<rparr>" "imp_state x = IMPORT_DECLARED"
    and "confit_v2_toml_value_string item = Some (imp_path x)"
    and "visit_result services config_root (length (ld_imports ld)) ld1 ld2" "items_result services config_root items ld2 ld3"
  shows "items_result services config_root (item # items) ld ld3"
proof -
  obtain new1 where new1: "ld_imports ld2 = ld_imports ld @ completed x # new1"
      "visited services config_root (names_of services (imp_canonical_path x)) new1 ld1 ld2"
      "imports_of services (imp_canonical_path x) \<subseteq> new_paths new1"
    using assms(2,4) by (auto simp: visit_result_def assms(1) list_update_append)
  obtain new2 where new2: "ld_imports ld3 = ld_imports ld2 @ new2" "visited services config_root {} new2 ld2 ld3"
      "item_paths items \<subseteq> new_paths new2"
    using assms(5) by (auto simp: items_result_def)
  have mono: "new_paths new1 \<subseteq> new_paths (completed x # new1 @ new2)" "new_paths new2 \<subseteq> new_paths (completed x # new1 @ new2)"
    by auto
  have closed1: "\<forall>i\<in>set new1. imp_state i = IMPORT_COMPLETE \<and> imports_of services (imp_canonical_path i) \<subseteq> new_paths (completed x # new1 @ new2)"
    by (intro ballI conjI subset_trans [OF _ mono(1)]) (use new1(2) in \<open>simp_all add: visited_def\<close>)
  have closed2: "\<forall>i\<in>set new2. imp_state i = IMPORT_COMPLETE \<and> imports_of services (imp_canonical_path i) \<subseteq> new_paths (completed x # new1 @ new2)"
    by (intro ballI conjI subset_trans [OF _ mono(2)]) (use new2(2) in \<open>simp_all add: visited_def\<close>)
  have names: "declared (ld_project ld3) = declared (ld_project ld) \<union> {}
      \<union> (\<Union>i\<in>set (completed x # new1 @ new2). names_of services (imp_canonical_path i))"
    using new1(2) new2(2) by (simp add: visited_def assms(1) Un_assoc)
  have closed: "imp_state i = IMPORT_COMPLETE \<and> imports_of services (imp_canonical_path i) \<subseteq> new_paths (completed x # new1 @ new2)"
    if "i \<in> set (completed x # new1 @ new2)" for i
  proof -
    from that consider "i = completed x" | "i \<in> set new1" | "i \<in> set new2" by auto
    then show ?thesis
    proof cases
      case 1
      then show ?thesis using subset_trans [OF new1(3) mono(1)] by simp
    next
      case 2
      then show ?thesis by (rule bspec [OF closed1])
    next
      case 3
      then show ?thesis by (rule bspec [OF closed2])
    qed
  qed
  have "visited services config_root {} (completed x # new1 @ new2) ld ld3"
    unfolding visited_def
  proof (intro conjI ballI)
    show "loader_ok ld3" "imports_ok services config_root (ld_imports ld3)" using new2(2) by (simp_all add: visited_def)
  qed (rule names, use closed in \<open>simp_all only: simp_thms\<close>)
  moreover have "item_paths (item # items) \<subseteq> new_paths (completed x # new1 @ new2)"
    using new2(3) assms(3) by (auto simp: item_paths_def)
  ultimately show ?thesis using new1(1) new2(1) by (auto simp: items_result_def)
qed

lemma document_completes:
  assumes "import_root services path = Inr root" "imports_field root = Inr items"
    and "items_result services config_root items ld ld1" "grown (document_names root) ld1 ld2"
  shows "document_result services config_root path ld ld2"
proof -
  obtain new where new: "ld_imports ld1 = ld_imports ld @ new" "visited services config_root {} new ld ld1"
      "item_paths items \<subseteq> new_paths new"
    using assms(3) by (auto simp: items_result_def)
  have "visited services config_root (names_of services path) new ld ld2"
    using new(2) assms(1,4) by (auto simp: visited_def grown_def names_of_def)
  moreover have "imports_of services path \<subseteq> new_paths new" using new(3) assms(1,2) by (simp add: imports_of_def)
  ultimately show ?thesis using new(1) assms(4) by (auto simp: document_result_def grown_def)
qed

lemma loads_visit:
  "loader_ok ld \<Longrightarrow> imports_ok services config_root (ld_imports ld) \<Longrightarrow>
     loads (confit_v2_visit_import services config_root i depth ld) (visit_result services config_root i ld)"
  "loader_ok ld \<Longrightarrow> imports_ok services config_root (ld_imports ld) \<Longrightarrow>
     loads (confit_v2_parse_import_document services config_root path depth ld) (document_result services config_root path ld)"
  "loader_ok ld \<Longrightarrow> imports_ok services config_root (ld_imports ld) \<Longrightarrow>
     loads (import_items services config_root items depth ld) (items_result services config_root items ld)"
proof (induction services config_root i depth ld and services config_root path depth ld and services config_root items depth ld
    rule: confit_v2_visit_import_confit_v2_parse_import_document_import_items.induct)
  case (1 services config_root i depth ld)
  have started: "loader_ok (set_import_state i IMPORT_VISITING ld)"
      "imports_ok services config_root (ld_imports (set_import_state i IMPORT_VISITING ld))"
    using 1(2,3) imports_ok_state [where js = "[]"] by (simp_all add: set_import_state_def loader_ok_def)
  show ?case
  proof (cases "i < length (ld_imports ld) \<and> depth \<le> CONFIT_V2_MAX_IMPORT_DEPTH \<and> imp_state (ld_imports ld ! i) = IMPORT_DECLARED")
    case True
    then have "loads (confit_v2_parse_import_document services config_root (imp_canonical_path (ld_imports ld ! i)) depth
        (set_import_state i IMPORT_VISITING ld))
        (document_result services config_root (imp_canonical_path (ld_imports ld ! i)) (set_import_state i IMPORT_VISITING ld))"
      using 1(1) started by simp
    then have "loads (bind_res (confit_v2_parse_import_document services config_root (imp_canonical_path (ld_imports ld ! i)) depth
        (set_import_state i IMPORT_VISITING ld)) (\<lambda>ld. Inr (set_import_state i IMPORT_COMPLETE ld)))
        (visit_result services config_root i ld)"
      by (rule loads_bind) (use True visit_completes in simp)
    then show ?thesis using True by (subst confit_v2_visit_import.simps) (simp add: Let_def)
  next
    case False
    then show ?thesis
      by (subst confit_v2_visit_import.simps) (auto simp: Let_def import_failure_def visit_result_def split: import_state.split)
  qed
next
  case (2 services config_root path depth ld)
  show ?case
    unfolding confit_v2_parse_import_document.simps
  proof (rule loads_bind [OF loads_import_root])
    fix root assume root: "import_root services path = Inr root"
    show "loads (bind_res (imports_field root) (\<lambda>items. bind_res (import_items services config_root items depth ld)
        (document_declarations root))) (document_result services config_root path ld)"
    proof (rule loads_bind [OF loads_imports_field])
      fix items assume items: "imports_field root = Inr items"
      show "loads (bind_res (import_items services config_root items depth ld) (document_declarations root))
          (document_result services config_root path ld)"
      proof (rule loads_bind [OF 2(1) [OF root items 2(2,3)]])
        fix ld1 assume ld1: "items_result services config_root items ld ld1"
        then have "loader_ok ld1" by (auto simp: items_result_def visited_def)
        then show "loads (document_declarations root ld1) (document_result services config_root path ld)"
          by (rule loads_mono [OF loads_declarations]) (use document_completes [OF root items ld1] in simp)
      qed
    qed
  qed
next
  case (3 services config_root depth ld)
  then show ?case by (simp add: items_result_def visited_def item_paths_def)
next
  case (4 services config_root item items depth ld)
  show ?case
    unfolding import_items.simps
  proof (rule loads_bind [OF loads_import_item [OF 4(4)]], clarify)
    fix x assume step: "import_item services config_root item ld =
        Inr (length (ld_imports ld), ld\<lparr>ld_imports := ld_imports ld @ [x]\<rparr>)"
      and x: "imp_state x = IMPORT_DECLARED" "confit_v2_toml_value_string item = Some (imp_path x)"
        "imports_ok services config_root (ld_imports ld @ [x])"
    let ?ld = "ld\<lparr>ld_imports := ld_imports ld @ [x]\<rparr>"
    have "loader_ok ?ld" using 4(3) by (simp add: loader_ok_def)
    then have "loads (confit_v2_visit_import services config_root (length (ld_imports ld)) (depth + 1) ?ld)
        (visit_result services config_root (length (ld_imports ld)) ?ld)"
      using 4(1) [OF step] x(3) by simp
    then show "loads (bind_res (confit_v2_visit_import services config_root (length (ld_imports ld)) (depth + 1) ?ld)
        (import_items services config_root items depth)) (items_result services config_root (item # items) ld)"
    proof (rule loads_bind)
      fix ld2 assume ran: "confit_v2_visit_import services config_root (length (ld_imports ld)) (depth + 1) ?ld = Inr ld2"
        and visit: "visit_result services config_root (length (ld_imports ld)) ?ld ld2"
      then have "loader_ok ld2" "imports_ok services config_root (ld_imports ld2)"
        using x(1) by (auto simp: visit_result_def visited_def)
      then have "loads (import_items services config_root items depth ld2) (items_result services config_root items ld2)"
        using 4(2) [OF step refl ran] by simp
      then show "loads (import_items services config_root items depth ld2) (items_result services config_root (item # items) ld)"
        by (rule loads_mono) (rule items_step [OF refl x(1,2) visit])
    qed
  qed
qed

section \<open>The loop over the imports\<close>

text \<open>The loop at index \<open>i\<close>, of \<open>n\<close> imports that the project document declares.\<close>

definition loop_ok :: "load_services \<Rightarrow> string \<Rightarrow> nat \<Rightarrow> nat \<Rightarrow> loader \<Rightarrow> bool" where
  "loop_ok services config_root n i ld \<longleftrightarrow> loader_ok ld \<and> imports_ok services config_root (ld_imports ld)
     \<and> n \<le> length (ld_imports ld)
     \<and> (\<forall>j<length (ld_imports ld). imp_state (ld_imports ld ! j) = (if j < i \<or> n \<le> j then IMPORT_COMPLETE else IMPORT_DECLARED))
     \<and> declared (ld_project ld) =
         (\<Union>x\<in>{x \<in> set (ld_imports ld). imp_state x = IMPORT_COMPLETE}. names_of services (imp_canonical_path x))
     \<and> (\<forall>x\<in>set (ld_imports ld). imp_state x = IMPORT_COMPLETE
          \<longrightarrow> imports_of services (imp_canonical_path x) \<subseteq> new_paths (ld_imports ld))"

lemma loop_step:
  assumes "loop_ok services config_root n i ld" "i < n" "visit_result services config_root i ld ld'"
  shows "loop_ok services config_root n (i + 1) ld' \<and> new_paths (ld_imports ld) \<subseteq> new_paths (ld_imports ld')"
proof -
  let ?is = "ld_imports ld" and ?x = "ld_imports ld ! i"
  have i: "i < length ?is" using assms(3) by (simp add: visit_result_def)
  have declared_state: "imp_state ?x = IMPORT_DECLARED" using assms(1,2) i by (simp add: loop_ok_def)
  obtain new where new: "ld_imports ld' = ?is[i := completed ?x] @ new"
      "visited services config_root (names_of services (imp_canonical_path ?x)) new ld ld'"
      "imports_of services (imp_canonical_path ?x) \<subseteq> new_paths new"
    using assms(3) declared_state by (auto simp: visit_result_def)
  have "map imp_path (?is[i := completed ?x]) = map imp_path ?is"
    using i by (auto intro!: nth_equalityI simp: nth_list_update)
  then have paths: "new_paths (?is[i := completed ?x]) = new_paths ?is" by (metis set_map)
  then have more_paths: "new_paths (ld_imports ld') = new_paths ?is \<union> new_paths new" by (simp add: new(1) image_Un)
  have done_set: "{x \<in> set (ld_imports ld'). imp_state x = IMPORT_COMPLETE}
      = {x \<in> set ?is. imp_state x = IMPORT_COMPLETE} \<union> {completed ?x} \<union> set new"
  proof -
    have "{x \<in> set (?is[i := completed ?x]). imp_state x = IMPORT_COMPLETE} = {x \<in> set ?is. imp_state x = IMPORT_COMPLETE} \<union> {completed ?x}"
    proof -
      have "?is = take i ?is @ ?x # drop (Suc i) ?is" using i by (rule id_take_nth_drop)
      then have "set ?is = insert ?x (set (take i ?is) \<union> set (drop (Suc i) ?is))" by (metis list.simps(15) set_append Un_insert_right)
      then show ?thesis using i declared_state by (auto simp: upd_conv_take_nth_drop)
    qed
    moreover have "{x \<in> set new. imp_state x = IMPORT_COMPLETE} = set new" using new(2) by (auto simp: visited_def)
    ultimately show ?thesis by (auto simp: new(1))
  qed
  have "imp_state (ld_imports ld' ! j) = (if j < i + 1 \<or> n \<le> j then IMPORT_COMPLETE else IMPORT_DECLARED)"
    if j: "j < length (ld_imports ld')" for j
  proof (cases "j < length ?is")
    case True
    then show ?thesis using assms(1) i by (auto simp: new(1) nth_append nth_list_update loop_ok_def less_Suc_eq)
  next
    case False
    then have "ld_imports ld' ! j \<in> set new" using j by (simp add: new(1) nth_append)
    then show ?thesis using False assms(1) new(2) by (auto simp: visited_def loop_ok_def)
  qed
  moreover have "n \<le> length (ld_imports ld')" using assms(1) by (simp add: loop_ok_def new(1))
  moreover have "declared (ld_project ld') =
      (\<Union>x\<in>{x \<in> set (ld_imports ld'). imp_state x = IMPORT_COMPLETE}. names_of services (imp_canonical_path x))"
    using assms(1) new(2) unfolding done_set by (simp add: visited_def loop_ok_def Un_assoc Un_left_commute)
  moreover have "imports_of services (imp_canonical_path x) \<subseteq> new_paths (ld_imports ld')"
    if "x \<in> set (ld_imports ld')" "imp_state x = IMPORT_COMPLETE" for x
  proof -
    have "x \<in> {x \<in> set ?is. imp_state x = IMPORT_COMPLETE} \<union> {completed ?x} \<union> set new"
      unfolding done_set [symmetric] using that by simp
    then consider "x \<in> set ?is" "imp_state x = IMPORT_COMPLETE" | "x = completed ?x" | "x \<in> set new" by blast
    then show ?thesis
    proof cases
      case 1
      then show ?thesis using assms(1) unfolding loop_ok_def more_paths by blast
    next
      case 2
      then show ?thesis using new(3) unfolding more_paths by auto
    next
      case 3
      then show ?thesis using new(2) unfolding visited_def more_paths by blast
    qed
  qed
  moreover have "loader_ok ld'" "imports_ok services config_root (ld_imports ld')" using new(2) by (simp_all add: visited_def)
  ultimately show ?thesis by (simp add: loop_ok_def more_paths)
qed

lemma visit_imports_complete:
  "loop_ok services config_root n i ld \<Longrightarrow> n \<le> i \<Longrightarrow> visit_imports services config_root i ld = Some (Inr ld)"
proof (induction "length (ld_imports ld) - i" arbitrary: i)
  case 0
  then show ?case by (subst visit_imports.simps) simp
next
  case (Suc k)
  then have i: "i < length (ld_imports ld)" by simp
  then have "confit_v2_visit_import services config_root i 1 ld = Inr ld"
    using Suc.prems by (subst confit_v2_visit_import.simps) (simp add: loop_ok_def CONFIT_V2_MAX_IMPORT_DEPTH_def)
  moreover have "visit_imports services config_root (i + 1) ld = Some (Inr ld)"
    using Suc.hyps(2) Suc.prems by (intro Suc.hyps(1)) (auto simp: loop_ok_def)
  ultimately show ?case using i by (subst visit_imports.simps) simp
qed

text \<open>All imports are completed and hold what their documents declare and import.\<close>

definition imports_loaded :: "load_services \<Rightarrow> string \<Rightarrow> loader \<Rightarrow> bool" where
  "imports_loaded services config_root ld \<longleftrightarrow> distinct (map imp_canonical_path (ld_imports ld))
     \<and> (\<forall>i\<in>set (ld_imports ld). imp_state i = IMPORT_COMPLETE \<and> import_located services config_root i
          \<and> imports_of services (imp_canonical_path i) \<subseteq> new_paths (ld_imports ld))
     \<and> declared (ld_project ld) = (\<Union>i\<in>set (ld_imports ld). names_of services (imp_canonical_path i))"

lemma loop_end: "loop_ok services config_root n i ld \<Longrightarrow> n \<le> i \<Longrightarrow> loader_ok ld \<and> imports_loaded services config_root ld"
proof -
  assume ok: "loop_ok services config_root n i ld" and "n \<le> i"
  then have state: "imp_state x = IMPORT_COMPLETE" if "x \<in> set (ld_imports ld)" for x
    using that by (auto simp: loop_ok_def in_set_conv_nth)
  then have "{x \<in> set (ld_imports ld). imp_state x = IMPORT_COMPLETE} = set (ld_imports ld)" by blast
  then show ?thesis using ok state by (simp add: loop_ok_def imports_loaded_def imports_ok_def)
qed

lemma visit_imports_returns:
  assumes "loop_ok services config_root n i ld"
  shows "\<exists>r. visit_imports services config_root i ld = Some r
    \<and> loads r (\<lambda>ld'. loader_ok ld' \<and> imports_loaded services config_root ld' \<and> new_paths (ld_imports ld) \<subseteq> new_paths (ld_imports ld'))"
  using assms
proof (induction "n - i" arbitrary: i ld)
  case 0
  then show ?case using visit_imports_complete loop_end by fastforce
next
  case (Suc k)
  then have i: "i < length (ld_imports ld)" "i < n" by (auto simp: loop_ok_def)
  have visit: "loads (confit_v2_visit_import services config_root i 1 ld) (visit_result services config_root i ld)"
    using Suc.prems by (intro loads_visit) (simp_all add: loop_ok_def)
  have less: "k = n - (i + 1)" using Suc.hyps(2) by arith
  show ?case
  proof (cases "confit_v2_visit_import services config_root i 1 ld")
    case (Inl e)
    then show ?thesis using visit i by (subst visit_imports.simps) (auto simp: loads_def)
  next
    case (Inr ld1)
    then have "visit_result services config_root i ld ld1" using visit by (simp add: loads_def)
    note step = loop_step [OF Suc.prems i(2) this]
    obtain r where r: "visit_imports services config_root (i + 1) ld1 = Some r"
        "loads r (\<lambda>ld'. loader_ok ld' \<and> imports_loaded services config_root ld' \<and> new_paths (ld_imports ld1) \<subseteq> new_paths (ld_imports ld'))"
      using Suc.hyps(1) [of "i + 1" ld1, OF less] step by blast
    have "visit_imports services config_root i ld = Some r" using i(1) Inr r(1) by (subst visit_imports.simps) simp
    moreover have "loads r (\<lambda>ld'. loader_ok ld' \<and> imports_loaded services config_root ld' \<and> new_paths (ld_imports ld) \<subseteq> new_paths (ld_imports ld'))"
      by (rule loads_mono [OF r(2)]) (use step in auto)
    ultimately show ?thesis by blast
  qed
qed

section \<open>The project document\<close>

text \<open>The logical paths that the project document imports.\<close>

definition project_imports :: "load_services \<Rightarrow> string \<Rightarrow> string set" where
  "project_imports services project_path =
     (case bind_res (loading (confit_v2_toml_parse_file (svc_read_text_file services) (svc_toml_parse_named services) project_path))
             (\<lambda>root. bind_res (project_table root) imports_field) of
        Inl _ \<Rightarrow> {} | Inr items \<Rightarrow> item_paths items)"

lemma loads_project_table: "loads (project_table root) (\<lambda>_. True)"
  by (simp add: project_table_def Let_def split: option.split)

lemma loads_named_field: "loads (named_field table key accepted) accepted"
  unfolding named_field_def by (auto split: option.split intro!: loads_bind [OF loads_copy_string])

lemma loads_project_header:
  "loads (project_header table p) (\<lambda>q. \<exists>name namespace_name version target target_span.
     confit_v2_is_identifier_segment namespace_name
     \<and> q = p\<lparr>project_name := Some name, project_namespace := Some namespace_name, project_version := version,
           project_default_target := target, project_default_target_span := target_span, project_span := confit_v2_copy_span table 0\<rparr>)"
proof -
  have target: "loads (optional_field table ''default_target'' (\<lambda>v.
      bind_res (confit_v2_copy_string v) (\<lambda>s. Inr (Some s, confit_v2_copy_span v 0))) (None, null_span)) (\<lambda>_. True)"
    by (rule loads_optional_any) (rule loads_bind [OF loads_copy_string], simp)
  show ?thesis
    unfolding project_header_def
    by (intro loads_bind [OF loads_keys] loads_bind [OF loads_named_field] loads_bind [OF loads_version]
        loads_bind [OF loads_optional_string] loads_bind [OF target])
      (simp only: split_def loads_Inr, blast)
qed

lemma loads_project_directories:
  "loads (project_directories table p) (\<lambda>q. \<exists>profiles targets selections.
     q = p\<lparr>project_profile_dirs := profiles, project_target_dirs := targets, project_selection_dirs := selections\<rparr>)"
  unfolding project_directories_def
  by (intro loads_bind [OF loads_optional_any [OF loads_True [OF loads_string_list]]], simp only: loads_Inr, blast)

lemma loads_declared_imports:
  assumes "imports_ok services config_root (ld_imports ld)"
  shows "loads (fold_res (\<lambda>item ld. map_sum (\<lambda>e. e) snd (import_item services config_root item ld)) items ld)
    (\<lambda>ld'. \<exists>new. ld' = ld\<lparr>ld_imports := ld_imports ld @ new\<rparr> \<and> imports_ok services config_root (ld_imports ld @ new)
       \<and> (\<forall>i\<in>set new. imp_state i = IMPORT_DECLARED) \<and> item_paths items \<subseteq> new_paths new)"
  using assms
proof (induction items arbitrary: ld)
  case Nil
  then show ?case by (auto simp: item_paths_def intro!: exI [of _ "[]"])
next
  case (Cons item items)
  have first: "loads (map_sum (\<lambda>e. e) snd (import_item services config_root item ld)) (\<lambda>ld'. \<exists>new.
     ld' = ld\<lparr>ld_imports := ld_imports ld @ [new]\<rparr> \<and> imp_state new = IMPORT_DECLARED
     \<and> confit_v2_toml_value_string item = Some (imp_path new) \<and> imports_ok services config_root (ld_imports ld @ [new]))"
    by (rule loads_map, rule loads_mono [OF loads_import_item [OF Cons.prems]]) auto
  show ?case
    unfolding fold_res.simps
  proof (rule loads_bind [OF first], elim exE conjE)
    fix ld1 x assume ld1: "ld1 = ld\<lparr>ld_imports := ld_imports ld @ [x]\<rparr>" and x: "imp_state x = IMPORT_DECLARED"
      "confit_v2_toml_value_string item = Some (imp_path x)" "imports_ok services config_root (ld_imports ld @ [x])"
    have "imports_ok services config_root (ld_imports ld1)" using x(3) by (simp add: ld1)
    from Cons.IH [OF this] show "loads (fold_res (\<lambda>item ld. map_sum (\<lambda>e. e) snd (import_item services config_root item ld)) items ld1)
        (\<lambda>ld'. \<exists>new. ld' = ld\<lparr>ld_imports := ld_imports ld @ new\<rparr> \<and> imports_ok services config_root (ld_imports ld @ new)
           \<and> (\<forall>i\<in>set new. imp_state i = IMPORT_DECLARED) \<and> item_paths (item # items) \<subseteq> new_paths new)"
    proof (rule loads_mono, elim exE conjE)
      fix ld2 new assume "ld2 = ld1\<lparr>ld_imports := ld_imports ld1 @ new\<rparr>" "imports_ok services config_root (ld_imports ld1 @ new)"
        "\<forall>i\<in>set new. imp_state i = IMPORT_DECLARED" "item_paths items \<subseteq> new_paths new"
      then show "\<exists>new. ld2 = ld\<lparr>ld_imports := ld_imports ld @ new\<rparr> \<and> imports_ok services config_root (ld_imports ld @ new)
           \<and> (\<forall>i\<in>set new. imp_state i = IMPORT_DECLARED) \<and> item_paths (item # items) \<subseteq> new_paths new"
        using x by (intro exI [of _ "x # new"]) (auto simp: ld1 item_paths_def)
    qed
  qed
qed

end
