(* ===== verification/Ledger_Safe.thy ===== *)
theory Ledger_Safe
  imports Requested_Values Effective_Safe
begin

text \<open>
  Reading profiles, targets and overrides into a ledger reads no union member that was not stored,
  when every range has bounds of its option's type.
\<close>

definition meaningful :: "input_stop + 'a \<Rightarrow> bool" where
  "meaningful r \<longleftrightarrow> r \<noteq> Inl Undefined_Access"

lemma meaningful_simps [simp]:
  "meaningful (Inr x)" "meaningful (Inl (Diagnosed d))" "meaningful (Inl (Undiagnosed st))" "meaningful (diagnosed r)"
  "meaningful (confit_v2_ledger_diagnostic path line column st message)" "meaningful (at_value p v message)"
  by (simp_all add: meaningful_def diagnosed_def at_value_def confit_v2_ledger_diagnostic_def split: sum.split)

lemma meaningful_bind: "meaningful r \<Longrightarrow> (\<And>x. r = Inr x \<Longrightarrow> meaningful (f x)) \<Longrightarrow> meaningful (bind_res r f)"
  by (cases r) (simp_all add: meaningful_def)

lemma meaningful_fold: "(\<And>x s. x \<in> set xs \<Longrightarrow> meaningful (f x s)) \<Longrightarrow> meaningful (fold_res f xs s)"
  by (induction xs arbitrary: s) (auto intro: meaningful_bind)

lemma meaningful_schema_only: "schema_only r \<Longrightarrow> meaningful r"
  by (auto simp: schema_only_def meaningful_def)

definition ranges_typed :: "linked_project \<Rightarrow> bool" where
  "ranges_typed linked \<longleftrightarrow> (\<forall>s\<in>set (lp_symbols linked). range_typed s)"

lemma found_range:
  assumes "confit_v2_schema_link_project p = Inr linked" "ranges_typed linked"
    and "confit_v2_linked_project_find_symbol linked name = Some s"
  shows "range_typed s"
  using assms(2,3) linked_find_symbol [OF assms(1)] linked_symbol_set [OF assms(1)] by (simp add: ranges_typed_def)

lemma meaningful_toml_value: "range_typed s \<Longrightarrow> meaningful (confit_v2_ledger_parse_toml_value s v)"
  by (auto simp: confit_v2_ledger_parse_toml_value_def Let_def split: option.split
      intro: meaningful_schema_only schema_only_validate)

lemma meaningful_user_value: "range_typed s \<Longrightarrow> meaningful (confit_v2_ledger_parse_user_value parser s value_text)"
  unfolding confit_v2_ledger_parse_user_value_def
  by (auto split: option.split intro!: meaningful_bind meaningful_toml_value
      intro: meaningful_schema_only schema_only_validate)

section \<open>Documents\<close>

lemma meaningful_writer: "meaningful (confit_v2_input_validate_writer linked kind s path line column is_unset)"
  unfolding confit_v2_input_validate_writer_def by (rule meaningful_bind) simp_all

lemma meaningful_append: "meaningful (confit_v2_input_append_assignment s v line column document)"
  by (simp add: confit_v2_input_append_assignment_def)

lemma meaningful_value_entry:
  assumes "confit_v2_schema_link_project p = Inr linked" "ranges_typed linked"
  shows "meaningful (input_value_entry linked kind entry document)"
  using found_range [OF assms]
  by (auto simp: input_value_entry_def Let_def split: prod.split option.split
      intro!: meaningful_bind meaningful_writer meaningful_append meaningful_toml_value)

lemma meaningful_unset_item: "meaningful (input_unset_item linked kind item document)"
  by (auto simp: input_unset_item_def Let_def split: option.split intro!: meaningful_bind meaningful_writer meaningful_append)

lemma meaningful_optional_name: "meaningful (optional_name field)"
  by (simp add: optional_name_def split: option.split)

lemma meaningful_document_failure: "meaningful r \<Longrightarrow> meaningful (document_failure path r)"
  by (auto simp: document_failure_def meaningful_def confit_v2_ledger_diagnostic_def split: sum.split input_stop.split)

lemma meaningful_document_body:
  assumes "confit_v2_schema_link_project p = Inr linked" "ranges_typed linked"
  shows "meaningful (parse_document_body linked kind path root section_table name)"
  unfolding parse_document_body_def Let_def
  by (intro meaningful_bind meaningful_optional_name)
    (auto simp: confit_v2_input_parse_values_def confit_v2_input_parse_unset_def split: option.split
      intro!: meaningful_fold meaningful_value_entry [OF assms] meaningful_unset_item)

lemma meaningful_document:
  assumes "confit_v2_schema_link_project p = Inr linked" "ranges_typed linked"
  shows "meaningful (confit_v2_input_parse_document services linked kind path)"
  unfolding confit_v2_input_parse_document_def Let_def
  by (rule meaningful_bind) (auto split: option.split intro!: meaningful_document_failure meaningful_document_body [OF assms])

lemma meaningful_catalog:
  assumes "confit_v2_schema_link_project p = Inr linked" "ranges_typed linked"
  shows "meaningful (confit_v2_input_catalog_load services linked kind)"
  unfolding confit_v2_input_catalog_load_def catalog_add_directory_def catalog_add_file_def
  by (intro meaningful_bind meaningful_fold meaningful_document [OF assms]) auto

lemma meaningful_walk: "meaningful (chain_walk documents room reversed cursor)"
proof (induction documents room reversed cursor rule: chain_walk.induct)
  case (1 documents room reversed cursor)
  then show ?case by (subst chain_walk.simps) (auto simp: Let_def split: nat.split option.split)
qed

lemma meaningful_chain: "meaningful (confit_v2_input_catalog_build_chain catalog chosen)"
  by (auto simp: confit_v2_input_catalog_build_chain_def Let_def split: option.split intro!: meaningful_bind meaningful_walk)

section \<open>The ledger\<close>

lemma meaningful_add_chain: "meaningful (add_input_chain_loop origin i documents entries)"
  by (induction documents arbitrary: i entries)
    (auto simp: chain_add_assignment_def intro!: meaningful_bind meaningful_fold)

lemma meaningful_arguments: "meaningful (override_arguments duplicate earlier override)"
  by (simp add: override_arguments_def split: option.split)

lemma meaningful_user_overrides:
  assumes "confit_v2_schema_link_project p = Inr linked" "ranges_typed linked"
  shows "meaningful (add_user_overrides_loop parser linked earlier overrides entries)"
proof (induction overrides arbitrary: earlier entries)
  case (Cons override overrides)
  show ?case
    unfolding add_user_overrides_loop.simps Let_def
    by (rule meaningful_bind [OF meaningful_arguments])
      (auto split: prod.split option.split intro!: meaningful_bind meaningful_user_value found_range [OF assms] Cons.IH)
qed simp

lemma meaningful_profile_overrides:
  assumes "confit_v2_schema_link_project p = Inr linked" "ranges_typed linked"
  shows "meaningful (add_profile_overrides_loop parser linked earlier overrides entries)"
proof (induction overrides arbitrary: earlier entries)
  case (Cons override overrides)
  show ?case
    unfolding add_profile_overrides_loop.simps Let_def
    by (rule meaningful_bind [OF meaningful_arguments])
      (auto split: prod.split option.split intro!: meaningful_bind meaningful_user_value found_range [OF assms] Cons.IH)
qed simp

lemma meaningful_marks: "meaningful (mark_groups entries)"
  by (induction entries rule: mark_groups.induct) (auto simp: Let_def split: option.split intro!: meaningful_bind)

lemma meaningful_ledger:
  assumes "confit_v2_schema_link_project p = Inr linked" "ranges_typed linked" "cs_linked compiled = linked"
  shows "meaningful (confit_v2_assignment_ledger_build services compiled options)"
  unfolding confit_v2_assignment_ledger_build_def assms(3) Let_def collect_entries_def
  by (intro meaningful_bind meaningful_catalog [OF assms(1,2)])
    (auto simp: profile_chain_of_def target_chain_of_def confit_v2_ledger_add_input_chain_def
      confit_v2_ledger_add_profile_overrides_def confit_v2_ledger_add_user_overrides_def confit_v2_ledger_mark_winners_def
      split: option.split
      intro!: meaningful_bind meaningful_chain meaningful_add_chain meaningful_marks
        meaningful_user_overrides [OF assms(1,2)] meaningful_profile_overrides [OF assms(1,2)])

end
