(* ===== verification/Load_Project.thy ===== *)
theory Load_Project
  imports Loader_Imports Ledger_Safe
begin

text \<open>
  The properties of a loaded project: what later stages assume of a project is what the loader
  establishes, so a run from files to effective values stays within the meaning of C.
\<close>

section \<open>Loading\<close>

lemma null_loader_ok:
  assumes "project_namespace p = Some namespace_name" "confit_v2_is_identifier_segment namespace_name" "project_symbols p = []" "project_menus p = []"
    "project_choices p = []" "project_constraints p = []"
  shows "loader_ok ((null_loader config_root)\<lparr>ld_project := p\<rparr>)"
  using assms index_ok_empty
  by (simp add: loader_ok_def project_loaded_def index_holds_def null_loader_def empty_index_def slot_ids_def)

lemma loads_project_document:
  "loads (confit_v2_parse_project_document services config_root project_path (null_loader config_root))
     (\<lambda>ld. loop_ok services config_root (length (ld_imports ld)) 0 ld
        \<and> project_imports services project_path \<subseteq> new_paths (ld_imports ld))"
  unfolding confit_v2_parse_project_document_def
proof (rule loads_bind [OF loads_loading], rule loads_bind [OF loads_project_table], rule loads_bind [OF loads_project_header],
    rule loads_bind [OF loads_project_directories], rule loads_bind [OF loads_imports_field], elim exE conjE)
  fix root table p q items name namespace_name version target target_span profiles targets selections
  assume parsed: "loading (confit_v2_toml_parse_file (svc_read_text_file services) (svc_toml_parse_named services) project_path) = Inr root"
      "project_table root = Inr table" "imports_field table = Inr items"
    and segment: "confit_v2_is_identifier_segment namespace_name"
    and p: "p = (ld_project (null_loader config_root))\<lparr>project_name := Some name, project_namespace := Some namespace_name,
        project_version := version, project_default_target := target, project_default_target_span := target_span,
        project_span := confit_v2_copy_span table 0\<rparr>"
    and q: "q = p\<lparr>project_profile_dirs := profiles, project_target_dirs := targets, project_selection_dirs := selections\<rparr>"
  let ?ld = "(null_loader config_root)\<lparr>ld_project := q\<rparr>"
  have ok: "loader_ok ?ld" by (rule null_loader_ok [OF _ segment]) (simp_all add: q p null_loader_def null_project_def)
  have none: "declared (ld_project ?ld) = {}" by (simp add: declared_def q p null_loader_def null_project_def)
  have imports_none: "ld_imports ?ld = []" by (simp add: null_loader_def)
  then have "imports_ok services config_root (ld_imports ?ld)" by (simp add: imports_ok_def)
  from loads_declared_imports [OF this, of items]
  show "loads (fold_res (\<lambda>item ld. map_sum (\<lambda>e. e) snd (import_item services config_root item ld)) items ?ld)
     (\<lambda>ld. loop_ok services config_root (length (ld_imports ld)) 0 ld
        \<and> project_imports services project_path \<subseteq> new_paths (ld_imports ld))"
  proof (rule loads_mono, elim exE conjE)
    fix ld new assume ld: "ld = ?ld\<lparr>ld_imports := ld_imports ?ld @ new\<rparr>" "imports_ok services config_root (ld_imports ?ld @ new)"
      "\<forall>i\<in>set new. imp_state i = IMPORT_DECLARED" "item_paths items \<subseteq> new_paths new"
    have "project_imports services project_path = item_paths items" by (simp add: project_imports_def parsed)
    moreover have "loop_ok services config_root (length (ld_imports ld)) 0 ld"
      using ok none ld(2,3) imports_none by (auto simp: loop_ok_def ld(1) loader_ok_def)
    ultimately show "loop_ok services config_root (length (ld_imports ld)) 0 ld
        \<and> project_imports services project_path \<subseteq> new_paths (ld_imports ld)"
      using ld(1,4) imports_none by simp
  qed
qed

text \<open>The root a project is loaded from, and its document.\<close>

definition config_root_of :: "load_services \<Rightarrow> string \<Rightarrow> string \<Rightarrow> string \<Rightarrow> bool" where
  "config_root_of services project_root config_root project_path \<longleftrightarrow>
     (\<exists>found path. confit_v2_find_config_root services project_root = Inr (found, path)
        \<and> svc_realpath services found = Some config_root
        \<and> confit_host_path_join 1024 (Some config_root) (Some ''project.toml'') = Inr project_path)"

lemma load_result:
  "loads (confit_v2_schema_load_project_with_allocator services project_root) (\<lambda>ld. project_loaded (ld_project ld)
     \<and> (\<exists>config_root project_path. config_root_of services project_root config_root project_path
          \<and> imports_loaded services config_root ld \<and> project_imports services project_path \<subseteq> new_paths (ld_imports ld)))"
  unfolding confit_v2_schema_load_project_with_allocator_def
proof (rule loads_bind [OF loads_loading], clarify, rule loads_bind [OF loads_loading])
  fix found path config_root
  assume found: "confit_v2_find_config_root services project_root = Inr (found, path)"
    and canonical: "confit_host_path_canonicalize services 4096 found = Inr config_root"
  show "loads (if length config_root + 1 > 1024
       then Inl (Load_Failed (confit_diagnostic_set CONFIT_ERR_INVALID_ARGUMENT (Some project_root) 0 0
                   ''canonical config root is too long''))
       else
         bind_res (loading (confit_host_path_join 1024 (Some config_root) (Some ''project.toml''))) (\<lambda>project_path.
         bind_res (confit_v2_parse_project_document services config_root project_path (null_loader config_root)) (\<lambda>ld.
           case visit_imports services config_root 0 ld of None \<Rightarrow> Inl Load_Not_Returning | Some r \<Rightarrow> r)))
     (\<lambda>ld. project_loaded (ld_project ld) \<and> (\<exists>config_root project_path. config_root_of services project_root config_root project_path
          \<and> imports_loaded services config_root ld \<and> project_imports services project_path \<subseteq> new_paths (ld_imports ld)))"
  proof (cases "length config_root + 1 > 1024")
    case False
    have "loads (bind_res (loading (confit_host_path_join 1024 (Some config_root) (Some ''project.toml''))) (\<lambda>project_path.
         bind_res (confit_v2_parse_project_document services config_root project_path (null_loader config_root)) (\<lambda>ld.
           case visit_imports services config_root 0 ld of None \<Rightarrow> Inl Load_Not_Returning | Some r \<Rightarrow> r)))
     (\<lambda>ld. project_loaded (ld_project ld) \<and> (\<exists>config_root project_path. config_root_of services project_root config_root project_path
          \<and> imports_loaded services config_root ld \<and> project_imports services project_path \<subseteq> new_paths (ld_imports ld)))"
    proof (rule loads_bind [OF loads_loading], rule loads_bind [OF loads_project_document], elim conjE)
      fix project_path ld
      assume path: "confit_host_path_join 1024 (Some config_root) (Some ''project.toml'') = Inr project_path"
        and loop: "loop_ok services config_root (length (ld_imports ld)) 0 ld"
        and sub: "project_imports services project_path \<subseteq> new_paths (ld_imports ld)"
      obtain r where r: "visit_imports services config_root 0 ld = Some r"
          "loads r (\<lambda>ld'. loader_ok ld' \<and> imports_loaded services config_root ld' \<and> new_paths (ld_imports ld) \<subseteq> new_paths (ld_imports ld'))"
        using visit_imports_returns [OF loop] by blast
      have "config_root_of services project_root config_root project_path"
        using found canonicalized [OF canonical] path by (auto simp: config_root_of_def)
      then show "loads (case visit_imports services config_root 0 ld of None \<Rightarrow> Inl Load_Not_Returning | Some r \<Rightarrow> r)
         (\<lambda>ld. project_loaded (ld_project ld) \<and> (\<exists>config_root project_path. config_root_of services project_root config_root project_path
          \<and> imports_loaded services config_root ld \<and> project_imports services project_path \<subseteq> new_paths (ld_imports ld)))"
        unfolding r(1) option.case 
          using sub by (intro loads_mono [OF r(2)] conjI exI [of _ config_root] exI [of _ project_path])
            (simp_all add: loader_ok_def subset_trans)
    qed
    then show ?thesis using False by simp
  qed simp
qed

lemma load_project_result: "loads (confit_v2_schema_load_project services project_root) project_loaded"
  unfolding confit_v2_schema_load_project_def
  by (rule loads_map, rule loads_mono [OF load_result]) simp

section \<open>What later stages assume\<close>

lemma symbol_texts: "symbol_loaded namespace_name s \<Longrightarrow> d \<in> set (symbol_declarations s) \<Longrightarrow> text_ok (decl_source d)"
  by (auto simp: symbol_loaded_def default_loaded_def suggestion_loaded_def symbol_declarations_def declare_expression_def Let_def)

lemma choice_texts: "choice_loaded c \<Longrightarrow> d \<in> set (choice_declarations c) \<Longrightarrow> text_ok (decl_source d)"
  by (auto simp: choice_loaded_def choice_declarations_def declare_expression_def Let_def)

lemma constraint_texts: "constraint_loaded c \<Longrightarrow> d \<in> set (constraint_declarations c) \<Longrightarrow> text_ok (decl_source d)"
  by (auto simp: constraint_loaded_def constraint_declarations_def declare_expression_def)

lemma menu_texts: "menu_loaded m \<Longrightarrow> text_ok (decl_source (declare_expression role name own (menu_visible_if m) t))"
  by (simp add: menu_loaded_def declare_expression_def)

lemma loaded_texts:
  assumes "project_loaded p" shows "texts_ok p"
proof -
  obtain namespace_name where parts: "\<forall>s\<in>set (project_symbols p). symbol_loaded namespace_name s"
      "\<forall>m\<in>set (project_menus p). menu_loaded m" "\<forall>c\<in>set (project_choices p). choice_loaded c"
      "\<forall>c\<in>set (project_constraints p). constraint_loaded c"
    using assms by (auto simp: project_loaded_def)
  have "text_ok (decl_source d)" if "d \<in> set (project_declarations p)" for d
    using that parts by (auto simp: project_declarations_def intro: symbol_texts menu_texts choice_texts constraint_texts)
  then show ?thesis by (simp add: texts_ok_def text_ok_def)
qed

lemma loaded_structure: "project_loaded p \<Longrightarrow> loaded_project p"
  by (auto simp: project_loaded_def loaded_project_def choice_loaded_def constraint_loaded_def)

lemma loaded_evaluable: "project_loaded p \<Longrightarrow> evaluable p"
  by (auto simp: project_loaded_def evaluable_def symbol_loaded_def symbol_domain_ok_def default_loaded_def suggestion_loaded_def
      intro: range_fits_typed)

lemma loaded_namespace:
  assumes "project_loaded p" shows "\<exists>ns. project_namespace p = Some ns \<and> char_at ns 0 \<noteq> NUL"
proof -
  obtain ns where ns: "project_namespace p = Some ns" "confit_v2_is_identifier_segment ns"
    using assms by (auto simp: project_loaded_def)
  then have "char_at ns 0 \<noteq> NUL"
    by (auto simp: confit_v2_is_identifier_segment_def char_at_def letter_or_underscore_def byte_def split: list.splits)
  then show ?thesis using ns(1) by blast
qed

lemma loaded_default:
  assumes "project_loaded p" "s \<in> set (project_symbols p)" "assign_is_set (sym_default_value s)"
  shows "confit_v2_ledger_validate_value s (assign_value (sym_default_value s)) path line column = Inr (assign_value (sym_default_value s))"
proof -
  let ?v = "assign_value (sym_default_value s)"
  have loaded: "range_typed s" "assigned (sym_type s) (sym_values s) ?v" "within_range s ?v"
    using assms by (auto simp: project_loaded_def symbol_loaded_def intro: range_fits_typed)
  then have "cstring_value ?v" by (simp add: assigned_def value_fits_def)
  then show ?thesis
    using validate_value_outcome [OF loaded(1)] assigned_allowed [OF loaded(2,3)] by simp
qed

text \<open>Loading a project returns: whatever the files hold, the probes of the identifier indexes and the
  visits of the imports end, and no step reads an absent union member or a null string. The result is
  a project or a diagnostic.
\<close>

theorem load_project_returns:
  "confit_v2_schema_load_project services project_root \<noteq> Inl Load_Not_Returning
   \<and> confit_v2_schema_load_project services project_root \<noteq> Inl Load_Undefined"
  using load_project_result [of services project_root] by (auto simp: loads_def split: sum.splits)


text \<open>C5. Every import is read once and nothing is lost. After loading, each import is complete and lies, under
  its own canonical path, inside the root of the project; the imports of the project document and of
  every imported document are imports of the project; and the options, menus, choices and constraints
  of the project are, by name, exactly those its imported documents declare.
\<close>

theorem load_imports_exact:
  assumes "confit_v2_schema_load_project_with_allocator services project_root = Inr ld"
  shows "\<exists>config_root project_path. config_root_of services project_root config_root project_path
    \<and> project_imports services project_path \<subseteq> imp_path ` set (ld_imports ld)
    \<and> distinct (map imp_canonical_path (ld_imports ld))
    \<and> (\<forall>i\<in>set (ld_imports ld). imp_state i = IMPORT_COMPLETE \<and> import_located services config_root i
          \<and> imports_of services (imp_canonical_path i) \<subseteq> imp_path ` set (ld_imports ld))
    \<and> declared (ld_project ld) = (\<Union>i\<in>set (ld_imports ld). names_of services (imp_canonical_path i))"
  using loadsD [OF load_result assms] unfolding imports_loaded_def by meson

text \<open>C23. The loader and the check of input values agree: the default of a loaded option is accepted by the
  validation that profiles, targets and overrides go through, which leaves it as it is; in
  particular the items of an enum set are already in the order of the candidates.
\<close>

theorem schema_default_validates:
  assumes "confit_v2_schema_load_project services project_root = Inr p"
    and "s \<in> set (project_symbols p)" "assign_is_set (sym_default_value s)"
  shows "confit_v2_ledger_validate_value s (assign_value (sym_default_value s)) path line column
    = Inr (assign_value (sym_default_value s))"
proof -
  have "project_loaded p" using load_project_result [of services project_root] assms(1) by (simp add: loads_def)
  then show ?thesis using assms(2,3) by (rule loaded_default)
qed

text \<open>C11. From files to effective values. Whatever the files, the TOML parser and the overrides are, loading ends
  with a project or a diagnostic; linking and compiling the project fail with a schema error only;
  building the ledger of requested values reads no absent union member; and evaluating it gives a value
  for every option or fails with a schema error.
\<close>

theorem loaded_project_resolves:
  "case confit_v2_schema_load_project services project_root of
     Inl stop \<Rightarrow> (\<exists>d. stop = Load_Failed d)
   | Inr p \<Rightarrow> (case confit_v2_schema_link_project p of
       Inl stop \<Rightarrow> (\<exists>d. stop = Stop d \<and> diag_status d = CONFIT_ERR_SCHEMA)
     | Inr linked \<Rightarrow> (case confit_v2_compile_structure linked of
         Inl d \<Rightarrow> diag_status d = CONFIT_ERR_SCHEMA
       | Inr compiled \<Rightarrow> (case confit_v2_assignment_ledger_build inputs compiled options of
           Inl stop \<Rightarrow> stop \<noteq> Undefined_Access
         | Inr ledger \<Rightarrow> (case confit_v2_evaluation_build ledger of
             Inl stop \<Rightarrow> (\<exists>d. stop = Diagnosed d \<and> diag_status d = CONFIT_ERR_SCHEMA)
           | Inr result \<Rightarrow> map ef_symbol (evl_values result) = lp_symbols linked))))"
proof (cases "confit_v2_schema_load_project services project_root")
  case (Inl stop)
  then show ?thesis using load_project_result [of services project_root] by (simp add: loads_def)
next
  case load: (Inr p)
  then have p: "project_loaded p" using load_project_result [of services project_root] by (simp add: loads_def)
  note assumed = loaded_texts [OF p] loaded_structure [OF p] loaded_evaluable [OF p]
  show ?thesis
  proof (cases "confit_v2_schema_link_project p")
    case (Inl stop)
    obtain ns where ns: "project_namespace p = Some ns" "char_at ns 0 \<noteq> NUL" using loaded_namespace [OF p] by blast
    have "schema_stop stop" by (rule link_error [OF Inl assumed(1) ns])
    then show ?thesis using load Inl by (cases stop) (simp_all add: schema_stop_def)
  next
    case link: (Inr linked)
    show ?thesis
    proof (cases "confit_v2_compile_structure linked")
      case (Inl d)
      then show ?thesis using load link compile_outcome [OF link assumed(2)] by simp
    next
      case compile: (Inr compiled)
      have typed: "ranges_typed linked"
        using assumed(3) linked_symbol_set [OF link] by (auto simp: ranges_typed_def evaluable_def)
      show ?thesis
      proof (cases "confit_v2_assignment_ledger_build inputs compiled options")
        case (Inl stop)
        then show ?thesis
          using load link compile meaningful_ledger [OF link typed compiled_source [OF compile], of inputs options]
          by (auto simp: meaningful_def)
      next
        case ledger: (Inr ledger)
        have kept: "al_compiled ledger = compiled"
          using ledger by (auto simp: confit_v2_assignment_ledger_build_def bind_simps Let_def)
        show ?thesis
        proof (cases "confit_v2_evaluation_build ledger")
          case (Inl stop)
          then show ?thesis
            using load link compile ledger evaluation_schema_only [OF link assumed, of ledger] kept
            by (auto simp: schema_only_def split: input_stop.splits)
        next
          case (Inr result)
          then have "solves linked ledger (evl_values result)"
            using evaluation_result(1) [OF link] compiled_source [OF compile] kept by blast
          then show ?thesis using load link compile ledger Inr by (simp add: solves_def)
        qed
      qed
    qed
  qed
qed

end
