(* ===== verification/Load_Sample.thy ===== *)
theory Load_Sample
  imports Load_Project
begin

text \<open>
  A project of three files: the project document imports \<open>x.toml\<close>, which declares an option with a range
  and an enum set and imports \<open>y.toml\<close>, which declares a constraint. It is loaded once.
\<close>

abbreviation text_leaf :: "string \<Rightarrow> toml_datum" where "text_leaf s \<equiv> leaf (TOML_STRING s)"

definition option_table :: "string \<Rightarrow> (string \<times> toml_datum) list \<Rightarrow> toml_datum" where
  "option_table t entries = leaf (TOML_TABLE ([(''type'', text_leaf t), (''write_domain'', text_leaf ''profile''),
     (''owner'', text_leaf ''o''), (''since'', text_leaf ''1''), (''stability'', text_leaf ''stable'')] @ entries))"

definition load_documents :: "(string \<times> toml_datum) list" where
  "load_documents =
     [(''/p/project.toml'', leaf (TOML_TABLE [(''project'', leaf (TOML_TABLE [(''name'', text_leaf ''p''),
         (''namespace'', text_leaf ''a''), (''schema_version'', leaf (TOML_INT64 2)),
         (''imports'', leaf (TOML_ARRAY [text_leaf ''x.toml'']))]))])),
      (''/p/x.toml'', leaf (TOML_TABLE [(''schema_version'', leaf (TOML_INT64 2)),
         (''imports'', leaf (TOML_ARRAY [text_leaf ''y.toml''])),
         (''option'', leaf (TOML_TABLE [
            (''a.b'', option_table ''int'' [(''default'', leaf (TOML_INT64 5)),
               (''range'', leaf (TOML_TABLE [(''min'', leaf (TOML_INT64 1)), (''max'', leaf (TOML_INT64 9))]))]),
            (''a.c'', option_table ''enum_set'' [(''values'', leaf (TOML_ARRAY [text_leaf ''u'', text_leaf ''v''])),
               (''default'', leaf (TOML_ARRAY [text_leaf ''v'', text_leaf ''u'']))])]))])),
      (''/p/y.toml'', leaf (TOML_TABLE [(''schema_version'', leaf (TOML_INT64 2)),
         (''constraint'', leaf (TOML_ARRAY [leaf (TOML_TABLE [(''id'', text_leaf ''k''), (''when'', text_leaf ''true''),
            (''require'', text_leaf ''a.b > 1''), (''message'', text_leaf ''m'')])]))]))]"

definition load_services_sample :: load_services where
  "load_services_sample =
     \<lparr>svc_read_text_file = (\<lambda>path. Inr []), svc_list_toml_files = (\<lambda>path. Inr []),
      svc_toml_parse_named = (\<lambda>source name. case map_of load_documents name of
         None \<Rightarrow> Inl ''syntax error'' | Some root \<Rightarrow> Inr root),
      svc_realpath = (\<lambda>path. Some path), svc_file_exists = (\<lambda>path. path = ''/p/project.toml'')\<rparr>"

definition load_run :: "load_stop + loader" where
  "load_run = confit_v2_schema_load_project_with_allocator load_services_sample ''/p''"

lemma load_run_values:
  "case load_run of
     Inl e \<Rightarrow> False
   | Inr ld \<Rightarrow>
       map sym_id (project_symbols (ld_project ld)) = [''a.b'', ''a.c'']
       \<and> map (\<lambda>s. assign_is_set (sym_default_value s)) (project_symbols (ld_project ld)) = [True, True]
       \<and> map (\<lambda>s. assign_value (sym_default_value s)) (project_symbols (ld_project ld)) = [V_Int 5, V_String_List [''u'', ''v'']]
       \<and> map constraint_id (project_constraints (ld_project ld)) = [''k'']
       \<and> map imp_canonical_path (ld_imports ld) = [''/p/x.toml'', ''/p/y.toml'']"
  by code_simp

lemma load_sample:
  obtains ld where "confit_v2_schema_load_project_with_allocator load_services_sample ''/p'' = Inr ld"
    "confit_v2_schema_load_project load_services_sample ''/p'' = Inr (ld_project ld)"
    "map sym_id (project_symbols (ld_project ld)) = [''a.b'', ''a.c'']"
    "map (\<lambda>s. assign_is_set (sym_default_value s)) (project_symbols (ld_project ld)) = [True, True]"
    "map (\<lambda>s. assign_value (sym_default_value s)) (project_symbols (ld_project ld)) = [V_Int 5, V_String_List [''u'', ''v'']]"
    "map constraint_id (project_constraints (ld_project ld)) = [''k'']"
    "map imp_canonical_path (ld_imports ld) = [''/p/x.toml'', ''/p/y.toml'']"
  using load_run_values that
  by (auto simp: load_run_def confit_v2_schema_load_project_def split: sum.splits)


lemma declared_member:
  "s \<in> set (project_symbols p) \<Longrightarrow> (''option'', sym_id s) \<in> declared p"
  "c \<in> set (project_constraints p) \<Longrightarrow> (''constraint'', constraint_id c) \<in> declared p"
  unfolding declared_def by blast+

lemma load_imports_exact_witness:
  "\<exists>ld. confit_v2_schema_load_project_with_allocator load_services_sample ''/p'' = Inr ld
     \<and> (\<Union>i\<in>set (ld_imports ld). names_of load_services_sample (imp_canonical_path i)) = declared (ld_project ld)
     \<and> (''option'', ''a.c'') \<in> declared (ld_project ld) \<and> (''constraint'', ''k'') \<in> declared (ld_project ld)"
proof (rule load_sample)
  fix ld assume ld: "confit_v2_schema_load_project_with_allocator load_services_sample ''/p'' = Inr ld"
    and ids: "map sym_id (project_symbols (ld_project ld)) = [''a.b'', ''a.c'']"
      "map constraint_id (project_constraints (ld_project ld)) = [''k'']"
  have "''a.c'' \<in> set (map sym_id (project_symbols (ld_project ld)))" unfolding ids by simp
  then obtain s where "s \<in> set (project_symbols (ld_project ld))" "sym_id s = ''a.c''" by auto
  with declared_member(1) [OF this(1)] have option: "(''option'', ''a.c'') \<in> declared (ld_project ld)" by simp
  have "''k'' \<in> set (map constraint_id (project_constraints (ld_project ld)))" unfolding ids by simp
  then obtain c where "c \<in> set (project_constraints (ld_project ld))" "constraint_id c = ''k''" by auto
  with declared_member(2) [OF this(1)] have constraint: "(''constraint'', ''k'') \<in> declared (ld_project ld)" by simp
  have "declared (ld_project ld) = (\<Union>i\<in>set (ld_imports ld). names_of load_services_sample (imp_canonical_path i))"
    using load_imports_exact [OF ld] by blast
  from this [symmetric] ld option constraint show ?thesis by (rule_tac exI [of _ ld]) (intro conjI)
qed

lemma schema_default_validates_witness:
  "\<exists>p s. confit_v2_schema_load_project load_services_sample ''/p'' = Inr p \<and> s \<in> set (project_symbols p)
     \<and> confit_v2_ledger_validate_value s (V_String_List [''u'', ''v'']) None 0 0 = Inr (V_String_List [''u'', ''v''])"
proof (rule load_sample)
  fix ld assume ld: "confit_v2_schema_load_project load_services_sample ''/p'' = Inr (ld_project ld)"
    and set: "map (\<lambda>s. assign_is_set (sym_default_value s)) (project_symbols (ld_project ld)) = [True, True]"
      "map (\<lambda>s. assign_value (sym_default_value s)) (project_symbols (ld_project ld)) = [V_Int 5, V_String_List [''u'', ''v'']]"
  then obtain s t where symbols: "project_symbols (ld_project ld) = [t, s]" "assign_is_set (sym_default_value s)"
      "assign_value (sym_default_value s) = V_String_List [''u'', ''v'']"
    by (auto simp: map_eq_Cons_conv)
  then have "s \<in> set (project_symbols (ld_project ld))" by simp
  from schema_default_validates [OF ld this symbols(2), of None 0 0] ld this show ?thesis
    unfolding symbols(3) by blast
qed

end
