(* ===== verification/Spec2Isabelle.thy ===== *)
theory Spec2Isabelle
  imports Parser_Correct String_Decoding Meaning Compiled_Structure Toml_Correct Requested_Values Snapshot_Sample
    Index_Correct Load_Sample
begin

text \<open>
  Verification of the schema version 2 core of confit, a configuration tool written in C.

  \<^bold>\<open>The program.\<close> A project, in TOML files, declares typed options, menus, choices and constraints. Conditions
  and computed values are texts of a small expression language. Loading reads the files; linking checks
  every expression against the options and resolves its references; compiling checks the structure and
  builds the dependency graphs. Resolving gathers the assignments that the schema, a target, profiles
  and the user request, evaluates the options in the order of their dependencies, settles the choices,
  checks the constraints and publishes a snapshot; an edit resolves again and reports what it may have
  changed. The phases are connected by the records they hand on: \<open>v2_project\<close>, \<open>linked_project\<close>,
  \<open>compiled_structure\<close>, \<open>assignment_ledger\<close>, \<open>evaluation\<close>, \<open>constraint_report\<close>, \<open>snapshot\<close>.

  \<^bold>\<open>Shared parts.\<close> \<open>Prelude\<close>: words, C strings, diagnostics (\<open>src/core/diagnostic.c\<close>), the result monad
  \<open>bind_res\<close> and its fold, and the simplification collections. \<open>Binary64\<close>: the IEEE operations on doubles, on bit
  patterns. \<open>Schema_Model\<close>: \<open>include/confit/schema_v2.h\<close> and the type descriptors of \<open>model.c\<close>.
  \<open>Sorted_Search\<close>: \<open>qsort\<close> and the binary searches, with the locale of keyed stores their clients rely on.

  \<^bold>\<open>Expressions\<close> (\<open>src/expression/v2\<close>).
  \<^item> \<open>Lexer\<close>: \<open>lexer.c\<close>. \<open>Lexer_Correct\<close> and \<open>Token_Shape\<close> give order, bounds and lexical form of the tokens;
    \<open>String_Literal\<close> and \<open>String_Decoding\<close> the meaning of string literals, on success and failure.
  \<^item> \<open>Expr_Ast\<close>, \<open>Literal_Values\<close>, \<open>Parser\<close>: \<open>parser.c\<close>. \<open>Grammar\<close> states the documented grammar;
    \<open>Parser_Correct\<close> shows that the parser returns and that its trees are derived by it.
  \<^item> \<open>Typecheck\<close>: \<open>typecheck.c\<close>; \<open>Typing\<close> states the typing rules and that the checker decides them.
  \<^item> \<open>Int64\<close>, \<open>Evaluate\<close>: \<open>evaluate.c\<close>; \<open>Soundness\<close> shows that a checked expression reads no absent union
    member, \<open>Meaning\<close> that the evaluator refines a semantics over exact values, \<open>Pipeline\<close> joins the two
    with the parser.

  \<^bold>\<open>Projects.\<close>
  \<^item> \<open>Toml\<close>, \<open>Toml_Correct\<close>: the adapter over the TOML parser (\<open>src/parser/v2/tomlc17_adapter.c\<close>) and its check of UTF-8.
  \<^item> \<open>Identifier_Index\<close>, \<open>Index_Correct\<close>: the hash set of declared identifiers (\<open>src/model/v2/model.c\<close>).
  \<^item> \<open>Loader_Declarations\<close>, \<open>Loader\<close>: \<open>src/schema/v2/loader.c\<close>. \<open>Loader_Values\<close>, \<open>Loader_Correct\<close> and \<open>Loader_Imports\<close>
    follow the invariant of the project through declarations, documents and imports; \<open>Load_Project\<close> derives
    from it what every later theorem assumes of a project (\<open>texts_ok\<close>, \<open>loaded_project\<close>, \<open>evaluable\<close>);
    \<open>Load_Sample\<close> loads a project of three files.
  \<^item> \<open>Linker\<close>: \<open>src/schema/v2/linker.c\<close>; \<open>Linker_Correct\<close> and \<open>Linked_Project\<close> say which projects link and
    what a linked project promises, up to the evaluation of its expressions.
  \<^item> \<open>Structure\<close>: \<open>src/schema/v2/validate.c\<close> and \<open>src/constraint/v2\<close> (\<open>choice.c\<close>, \<open>graph.c\<close>);
    \<open>Structure_Correct\<close> and \<open>Compiled_Structure\<close> say which projects compile, to what menus, choices and constraints;
    \<open>Dependencies\<close> states the dependencies that the fields of a project declare, and that the graphs are those.

  \<^bold>\<open>Resolving\<close> (\<open>src/resolver/v2\<close>, \<open>src/constraint/v2\<close>).
  \<^item> \<open>Inputs\<close>, \<open>Inputs_Correct\<close>: \<open>input_loader.c\<close>, the values an option accepts and the chains of profiles.
  \<^item> \<open>Ledger\<close>: \<open>plan.c\<close>. \<open>Ledger_Winners\<close>, \<open>Ledger_Correct\<close> and \<open>Requested_Values\<close> show that the request of an option is
    the lookup in the documented layers; \<open>Ledger_Safe\<close> that no absent union member is read.
  \<^item> \<open>Evaluation_Order\<close>, \<open>Effective\<close>: \<open>evaluate.c\<close>. \<open>Evaluation_Order_Correct\<close>: the depth-first search returns an order
    exactly when there is no cycle. \<open>Locality\<close>: a value depends on what it reads only. \<open>Effective_Values\<close>,
    \<open>Effective_Choices\<close>, \<open>Effective_Safe\<close>: the result is the one solution of the equations of the options, its
    choices are settled, and evaluation fails with a schema error only. \<open>Effective_Sample\<close> runs one.
  \<^item> \<open>Constraints\<close>, \<open>Constraints_Correct\<close>: \<open>validate.c\<close> and \<open>explain.c\<close> of the constraints and their report.
  \<^item> \<open>Snapshot\<close>, \<open>Invalidation\<close>: \<open>snapshot.c\<close> and \<open>incremental.c\<close>. \<open>Invalidation_Search\<close>, \<open>Reverse_Index\<close> and
    \<open>Invalidation_Correct\<close> compare the invalidated set with the declared dependencies; \<open>Reconcile\<close> and \<open>Reconcile_Correct\<close>
    show that nothing outside it changes; \<open>Snapshot_Sample\<close> makes two edits. All three except a choice
    that has the id of an option, which the code misses (\<open>shared_id_choice_missed\<close>).

  \<^bold>\<open>Correspondence.\<close> Definitions keep the C names. A pointer that may be null is an option, a counted
  array a list, an enum a datatype, a struct a record, an \<open>int\<close> flag a bool. Integers of a C width are
  words where they wrap or overflow and naturals where a bound is shown; a status with a diagnostic
  is the left value of a sum. A tagged union is a datatype, and reading the wrong member, or past an
  array, is a left value of its own (\<open>Undefined\<close>, \<open>Undefined_Access\<close>, \<open>Load_Undefined\<close>) that the theorems show
  not to occur. Syntax nodes carry the number of their allocation, which stands for the pointer
  the type table is keyed by. The comparison function \<open>qsort\<close> is given decides the order; ties, which
  C leaves open, are kept in their order.

  \<^bold>\<open>Parameters.\<close> Reading a file, its presence, listing a directory, \<open>realpath\<close> and the third-party TOML
  parser are fields of \<open>input_services\<close> and \<open>load_services\<close>. They are any functions in all theorems;
  the samples give concrete ones.

  \<^bold>\<open>Bounds and fuel.\<close> The parser's mutual recursion has fuel that its entry point computes from the length
  of the text; \<open>expression_parse_terminates\<close> and \<open>link_project_errors\<close> show that it never runs out. The search for an order
  and the queue of an invalidation run in arrays of the number of nodes, with the room that is left as
  the measure; \<open>evaluation_order_exact\<close> and \<open>invalidation_exact\<close> show that it suffices. Imports nest at most
  128 deep, which is the measure of their recursion. The probes of the identifier index and the walk
  over a list of imports that grows are partial functions; \<open>identifier_index_exact\<close> and \<open>loaded_project_resolves\<close>
  show that they return. Every other loop is structural.

  \<^bold>\<open>Not modelled.\<close> Allocation failure and freeing; null arguments of the entry points; the printer of
  trees; and the parts around the core: generators, compatibility reports, migration, host access,
  command line and terminal interface, and the superseded first schema version.
\<close>

end
